(* ===== verification/Likwid_Prelude.thy ===== *)
theory Likwid_Prelude
  imports Main "HOL-Library.Word" "HOL-Library.Monad_Syntax"
begin

text \<open>
  Shared vocabulary of the development.

  Conventions used by every component theory:
  \<^item> a C expression whose evaluation is undefined behaviour (an index outside its array, a
    dereferenced NULL pointer, a shift by the width of the type or more) has the value
    \<^term>\<open>None\<close>; a computation that can reach such an expression has an option type and is
    written in the option monad, so that absence of undefined behaviour is a theorem
    (\<open>\<dots> = Some \<dots>\<close>) and never an assumption of the notation;
  \<^item> C integers of a fixed width are words; \<open>int\<close> values of the source whose range is not at
    issue are HOL integers;
  \<^item> error returns are the negated errno numbers the source returns.
\<close>

unbundle bit_operations_syntax

type_synonym u8 = "8 word"
type_synonym u16 = "16 word"
type_synonym u32 = "32 word"
type_synonym u64 = "64 word"

named_theorems arr_simps "reading and writing bounded arrays"
named_theorems word_bits "bit-level characterisations of the word operations"

section \<open>Build constants and errno values\<close>

text \<open>\<open>config.mk\<close> fixes the array sizes; the errno numbers are those of Linux on x86.\<close>

definition MAX_NUM_THREADS :: nat where
  "MAX_NUM_THREADS = 263"

definition MAX_NUM_NODES :: nat where
  "MAX_NUM_NODES = 64"

abbreviation (input) EPERM :: int where "EPERM \<equiv> 1"
abbreviation (input) ENOENT :: int where "ENOENT \<equiv> 2"
abbreviation (input) EIO :: int where "EIO \<equiv> 5"
abbreviation (input) ENXIO :: int where "ENXIO \<equiv> 6"
abbreviation (input) ENOMEM :: int where "ENOMEM \<equiv> 12"
abbreviation (input) EACCES :: int where "EACCES \<equiv> 13"
abbreviation (input) EFAULT :: int where "EFAULT \<equiv> 14"
abbreviation (input) EBUSY :: int where "EBUSY \<equiv> 16"
abbreviation (input) EEXIST :: int where "EEXIST \<equiv> 17"
abbreviation (input) ENODEV :: int where "ENODEV \<equiv> 19"
abbreviation (input) EINVAL :: int where "EINVAL \<equiv> 22"
abbreviation (input) ERANGE :: int where "ERANGE \<equiv> 34"
abbreviation (input) ENOSYS :: int where "ENOSYS \<equiv> 38"
abbreviation (input) EBADFD :: int where "EBADFD \<equiv> 77"

section \<open>Arrays with bounds\<close>

definition arr_get :: "'a list \<Rightarrow> int \<Rightarrow> 'a option" where
  "arr_get xs i = (if 0 \<le> i \<and> i < int (length xs) then Some (xs ! nat i) else None)"

definition arr_set :: "'a list \<Rightarrow> int \<Rightarrow> 'a \<Rightarrow> 'a list option" where
  "arr_set xs i v = (if 0 \<le> i \<and> i < int (length xs) then Some (xs[nat i := v]) else None)"

lemma arr_get_Some [arr_simps]:
  "arr_get xs i = Some v \<longleftrightarrow> 0 \<le> i \<and> i < int (length xs) \<and> xs ! nat i = v"
  by (auto simp: arr_get_def)

lemma arr_get_None [arr_simps]: "arr_get xs i = None \<longleftrightarrow> i < 0 \<or> int (length xs) \<le> i"
  by (auto simp: arr_get_def)

lemma arr_set_Some [arr_simps]:
  "arr_set xs i v = Some ys \<longleftrightarrow> 0 \<le> i \<and> i < int (length xs) \<and> ys = xs[nat i := v]"
  by (auto simp: arr_set_def)

lemma arr_set_None [arr_simps]: "arr_set xs i v = None \<longleftrightarrow> i < 0 \<or> int (length xs) \<le> i"
  by (auto simp: arr_set_def)

lemma arr_set_length: "arr_set xs i v = Some ys \<Longrightarrow> length ys = length xs"
  by (auto simp: arr_set_def split: if_splits)

lemma arr_get_set:
  "arr_set xs i v = Some ys \<Longrightarrow> arr_get ys j = (if j = i then Some v else arr_get xs j)"
  by (auto simp: arr_set_def arr_get_def nth_list_update split: if_splits)

lemma arr_get_in_range: "\<lbrakk>0 \<le> i; i < int (length xs)\<rbrakk> \<Longrightarrow> \<exists>v. arr_get xs i = Some v \<and> v \<in> set xs"
  by (auto simp: arr_get_def)

lemma arr_get_all:
  "\<lbrakk>\<forall>x\<in>set xs. P x; arr_get xs i = Some v\<rbrakk> \<Longrightarrow> P v"
  by (auto simp: arr_get_def split: if_splits)

section \<open>The option monad\<close>

lemma bind_Some_iff: "Option.bind m f = Some y \<longleftrightarrow> (\<exists>x. m = Some x \<and> f x = Some y)"
  by (cases m) auto

lemma bind_None_iff: "Option.bind m f = None \<longleftrightarrow> m = None \<or> (\<exists>x. m = Some x \<and> f x = None)"
  by (cases m) auto

section \<open>Ending the process\<close>

text \<open>A function returns, or ends the process with \<open>exit\<close>.\<close>

datatype 'r proc = Ret 'r | Exit int

section \<open>Numbers as strings\<close>

text \<open>The conversion \<open>%d\<close> of a number that is not negative.\<close>

fun dec_string :: "nat \<Rightarrow> string" where
  "dec_string n = (if n < 10 then [char_of (48 + n)] else dec_string (n div 10) @ [char_of (48 + n mod 10)])"

declare dec_string.simps [simp del]

text \<open>A digit of the conversion \<open>%x\<close>.\<close>

definition hex_digit :: "nat \<Rightarrow> char" where
  "hex_digit n = char_of (if n < 10 then 48 + n else 87 + n)"

lemma dec_string_zero: "dec_string 0 = ''0''"
  by code_simp

lemma dec_string_one: "dec_string 1 = ''1''"
  by code_simp

lemma dec_string_digit: "c \<in> set (dec_string n) \<Longrightarrow> of_char c \<in> {48..57 :: nat}"
proof (induction n rule: dec_string.induct)
  case (1 n)
  show ?case
  proof (cases "n < 10")
    case False
    then have "c \<in> set (dec_string (n div 10)) \<or> c = char_of (48 + n mod 10)" using 1(2) by (subst (asm) dec_string.simps) auto
    then show ?thesis
    proof
      assume "c = char_of (48 + n mod 10)"
      then show ?thesis using mod_less_divisor [of 10 n] by simp
    qed (use 1(1) False in simp)
  qed (use 1(2) in \<open>subst (asm) dec_string.simps, simp\<close>)
qed

lemma dec_string_inj: "dec_string n = dec_string m \<Longrightarrow> n = m"
proof (induction n arbitrary: m rule: dec_string.induct)
  case (1 n)
  have len: "length (dec_string k) = 1 \<longleftrightarrow> k < 10" for k
  proof -
    have "dec_string (k div 10) \<noteq> []" by (subst dec_string.simps) simp
    then show ?thesis by (subst dec_string.simps) simp
  qed
  have digit: "char_of (48 + a) = (char_of (48 + b) :: char) \<Longrightarrow> a = b" if "a < 10" "b < 10" for a b :: nat
  proof -
    assume "char_of (48 + a) = (char_of (48 + b) :: char)"
    then have "of_char (char_of (48 + a) :: char) = (of_char (char_of (48 + b) :: char) :: nat)" by simp
    then show "a = b" using that by simp
  qed
  show ?case
  proof (cases "n < 10")
    case True
    then have "m < 10" using 1(2) len by metis
    then show ?thesis using 1(2) True digit by (simp add: dec_string.simps [of n] dec_string.simps [of m])
  next
    case False
    then have "\<not> m < 10" using 1(2) len by metis
    then have "dec_string (n div 10) = dec_string (m div 10)" "char_of (48 + n mod 10) = (char_of (48 + m mod 10) :: char)"
      using 1(2) False by (simp_all add: dec_string.simps [of n] dec_string.simps [of m])
    then have "n div 10 = m div 10" "n mod 10 = m mod 10" using 1(1) [OF False] digit by simp_all
    then show ?thesis by (metis div_mult_mod_eq)
  qed
qed

section \<open>Words\<close>

lemma unat_lt_pow: "unat (w :: 'a::len word) < 2 ^ LENGTH('a)"
  by simp

lemma unat_u32_bound: "unat (w :: u32) < 4294967296"
  using unat_lt_pow [of w] by simp

lemma unat_u64_bound: "unat (w :: u64) < 18446744073709551616"
  using unat_lt_pow [of w] by simp

lemma uint_less_iff_unat: "uint (w :: 'a::len word) < int k \<longleftrightarrow> unat w < k"
  by (simp only: uint_nat of_nat_less_iff)

lemma uint_less_numeral_iff_unat: "uint (w :: 'a::len word) < numeral k \<longleftrightarrow> unat w < numeral k"
  using uint_less_iff_unat [of w "numeral k"] by simp

text \<open>The logical right shift of an all-ones word is a mask of the remaining bits.\<close>

lemma drop_bit_minus_one_bit [word_bits]:
  "bit (drop_bit k (- 1 :: 'a::len word)) n \<longleftrightarrow> n < LENGTH('a) - k"
  by (auto simp: bit_simps)

lemma drop_bit_minus_one_mask:
  "k \<le> LENGTH('a) \<Longrightarrow> drop_bit k (- 1 :: 'a::len word) = mask (LENGTH('a) - k)"
  by (rule bit_word_eqI) (auto simp: bit_simps)

lemma unat_and_mask: "unat (w AND mask n :: 'a::len word) = unat w mod 2 ^ n"
  by (metis take_bit_eq_mask take_bit_eq_mod unsigned_take_bit_eq)

lemma unat_drop_bit: "unat (drop_bit k w :: 'a::len word) = unat w div 2 ^ k"
  using unsigned_drop_bit_eq [of k w, where 'a = nat]
  by (simp add: take_bit_nat_eq_self drop_bit_eq_div [of k "unat w"])

lemma bit_and_single [word_bits]:
  "k < LENGTH('a) \<Longrightarrow> (w AND 2 ^ k = (0 :: 'a::len word)) \<longleftrightarrow> \<not> bit w k"
proof -
  assume k: "k < LENGTH('a)"
  have "bit (w AND push_bit k 1) k = bit w k" using k by (simp add: bit_simps)
  moreover have "\<not> bit w k \<Longrightarrow> w AND push_bit k 1 = 0"
    by (intro bit_word_eqI) (auto simp: bit_simps)
  ultimately show ?thesis
    by (metis bit_0_eq bot_apply bot_bool_def push_bit_eq_mult mult_1)
qed

end
