(* ===== verification/BitUtil.thy ===== *)
theory BitUtil
  imports Likwid_Prelude
begin

text \<open>
  \<open>src/src/bitUtil.c\<close> and \<open>src/src/includes/bitUtil.h\<close>: bit field extraction, the width of a
  number range, and the two-word bit mask. Shifts by the width of the operand or more are
  undefined in C, so the extraction functions return an option. The lemmas give the value of
  each extraction as a quotient and remainder, show that the 32-bit extraction by masking agrees
  with the one by shifting, that \<open>getBitFieldWidth\<close> is the least sufficient width, and that the
  bit mask is a set of bit positions.
\<close>

section \<open>Definitions\<close>

text \<open>The shift operators of C on an unsigned type of width \<open>LENGTH('a)\<close>.\<close>

definition c_shr :: "'a::len word \<Rightarrow> int \<Rightarrow> 'a word option" where
  "c_shr w n = (if 0 \<le> n \<and> n < int LENGTH('a) then Some (drop_bit (nat n) w) else None)"

definition c_shl :: "'a::len word \<Rightarrow> int \<Rightarrow> 'a word option" where
  "c_shl w n = (if 0 \<le> n \<and> n < int LENGTH('a) then Some (push_bit (nat n) w) else None)"

definition field64 :: "u64 \<Rightarrow> int \<Rightarrow> int \<Rightarrow> u64 option" where
  "field64 value start len = do {
     a \<leftarrow> c_shr value start;
     m \<leftarrow> c_shr (NOT 0) (64 - len);
     Some (a AND m) }"

definition field32 :: "u32 \<Rightarrow> int \<Rightarrow> int \<Rightarrow> u32 option" where
  "field32 value start len = do {
     a \<leftarrow> c_shr value start;
     m \<leftarrow> c_shr (NOT 0) (32 - len);
     Some (a AND m) }"

definition extractBitField :: "u32 \<Rightarrow> u32 \<Rightarrow> u32 \<Rightarrow> u32 option" where
  "extractBitField inField width offset = do {
     bitMask \<leftarrow>
       (if offset + width = 32 then c_shl 0xFFFFFFFF (uint offset)
        else do {
          a \<leftarrow> c_shl 0xFFFFFFFF (uint offset);
          b \<leftarrow> c_shl 0xFFFFFFFF (uint (offset + width));
          Some (a XOR b) });
     c_shr (inField AND bitMask) (uint offset) }"

text \<open>The x86 instruction \<open>bsr\<close>: the index of the most significant set bit of a nonzero operand.\<close>

fun bsr :: "nat \<Rightarrow> nat" where
  "bsr n = (if n \<le> 1 then 0 else Suc (bsr (n div 2)))"

declare bsr.simps [simp del]

definition getBitFieldWidth :: "u32 \<Rightarrow> u32" where
  "getBitFieldWidth number =
     (let number' = number - 1 in
      if number' = 0 then 0 else of_nat (bsr (unat number')) + 1)"

text \<open>The bit manipulation macros act on a 64-bit lvalue.\<close>

definition setBit :: "u64 \<Rightarrow> int \<Rightarrow> u64 option" where
  "setBit reg b = do { m \<leftarrow> c_shl 1 b; Some (reg OR m) }"

definition clearBit :: "u64 \<Rightarrow> int \<Rightarrow> u64 option" where
  "clearBit reg b = do { m \<leftarrow> c_shl 1 b; Some (reg AND NOT m) }"

definition toggleBit :: "u64 \<Rightarrow> int \<Rightarrow> u64 option" where
  "toggleBit reg b = do { m \<leftarrow> c_shl 1 b; Some (reg XOR m) }"

definition testBit :: "u64 \<Rightarrow> int \<Rightarrow> u64 option" where
  "testBit reg b = do { m \<leftarrow> c_shl 1 b; Some (reg AND m) }"

text \<open>\<open>BitMask\<close> of \<open>types.h\<close> and its macros; the division truncates towards zero.\<close>

record BitMask =
  mask_words :: "u64 list"

definition bitMask_init :: "BitMask" where
  "bitMask_init = \<lparr>mask_words = [0, 0]\<rparr>"

definition c_div :: "int \<Rightarrow> int \<Rightarrow> int" where
  "c_div a b = sgn a * sgn b * (\<bar>a\<bar> div \<bar>b\<bar>)"

definition bitMask_set :: "BitMask \<Rightarrow> int \<Rightarrow> BitMask option" where
  "bitMask_set m b = do {
     let pos = c_div b 64; let shift = b - pos * 64;
     w \<leftarrow> arr_get (mask_words m) pos;
     w' \<leftarrow> setBit w shift;
     ws \<leftarrow> arr_set (mask_words m) pos w';
     Some (m\<lparr>mask_words := ws\<rparr>) }"

definition bitMask_test :: "BitMask \<Rightarrow> int \<Rightarrow> u64 option" where
  "bitMask_test m b = do {
     let pos = c_div b 64; let shift = b - pos * 64;
     w \<leftarrow> arr_get (mask_words m) pos;
     testBit w shift }"

section \<open>Field extraction\<close>

lemma c_shr_Some:
  "c_shr (w :: 'a::len word) n = Some r \<longleftrightarrow> 0 \<le> n \<and> n < int LENGTH('a) \<and> r = drop_bit (nat n) w"
  by (auto simp: c_shr_def)

lemma c_shl_Some:
  "c_shl (w :: 'a::len word) n = Some r \<longleftrightarrow> 0 \<le> n \<and> n < int LENGTH('a) \<and> r = push_bit (nat n) w"
  by (auto simp: c_shl_def)

lemma c_shl_uint:
  "c_shl (w :: 'a::len word) (uint (n :: 'b::len word)) =
     (if unat n < LENGTH('a) then Some (push_bit (unat n) w) else None)"
  by (simp add: c_shl_def uint_less_iff_unat)

lemma c_shr_uint:
  "c_shr (w :: 'a::len word) (uint (n :: 'b::len word)) =
     (if unat n < LENGTH('a) then Some (drop_bit (unat n) w) else None)"
  by (simp add: c_shr_def uint_less_iff_unat)

lemma field64_Some_mask:
  "\<lbrakk>0 \<le> s; s < 64; 1 \<le> l; l \<le> 64\<rbrakk> \<Longrightarrow>
   field64 v s l = Some (drop_bit (nat s) v AND mask (nat l))"
  by (simp add: field64_def c_shr_def drop_bit_minus_one_mask nat_diff_distrib)

lemma field32_Some_mask:
  "\<lbrakk>0 \<le> s; s < 32; 1 \<le> l; l \<le> 32\<rbrakk> \<Longrightarrow>
   field32 v s l = Some (drop_bit (nat s) v AND mask (nat l))"
  by (simp add: field32_def c_shr_def drop_bit_minus_one_mask nat_diff_distrib)

lemma field64_eq:
  "field64 v s l =
     (if 0 \<le> s \<and> s < 64 \<and> 1 \<le> l \<and> l \<le> 64
      then Some (drop_bit (nat s) v AND mask (nat l)) else None)"
proof (cases "0 \<le> s \<and> s < 64 \<and> 1 \<le> l \<and> l \<le> 64")
  case True
  then show ?thesis by (simp add: field64_Some_mask)
next
  case False
  then show ?thesis by (auto simp: field64_def c_shr_def bind_None_iff)
qed

lemma field64_low: "\<lbrakk>1 \<le> l; l \<le> 64\<rbrakk> \<Longrightarrow> field64 v 0 (int l) = Some (v AND mask l)"
  by (simp add: field64_Some_mask)

lemma field64_unat:
  assumes "field64 v s l = Some r"
  shows "unat r = (unat v div 2 ^ nat s) mod 2 ^ nat l"
  using assms by (auto simp: field64_eq unat_and_mask unat_drop_bit split: if_splits)

lemma drop_bit_and_xor_ones:
  "drop_bit a (v AND (push_bit a (- 1) XOR push_bit (a + w) (- 1))) =
    (drop_bit a v AND mask w :: 'a::len word)"
  by (rule bit_word_eqI) (auto simp: bit_simps dest: bit_imp_le_length)

lemma drop_bit_and_push_ones:
  "a + w = LENGTH('a) \<Longrightarrow>
   drop_bit a (v AND push_bit a (- 1)) = (drop_bit a v AND mask w :: 'a::len word)"
  by (rule bit_word_eqI) (auto simp: bit_simps dest: bit_imp_le_length)

lemma unat_add_in_range:
  "unat (a :: u32) + unat b \<le> 32 \<Longrightarrow> unat (a + b) = unat a + unat b"
  by (simp add: unat_add_lem [THEN iffD1])

lemma extractBitField_in_range:
  assumes "unat offset < 32" "unat offset + unat width \<le> 32"
  shows "extractBitField v width offset =
    Some (drop_bit (unat offset) v AND mask (unat width))"
proof (cases "unat offset + unat width = 32")
  have ones: "(0xFFFFFFFF :: u32) = - 1" by simp
  case True
  have u: "unat (offset + width) = 32"
    using assms True by (simp add: unat_add_in_range)
  have eq: "offset + width = 32"
    by (simp add: word_unat_eq_iff u)
  show ?thesis
    unfolding extractBitField_def eq ones
    using assms True drop_bit_and_push_ones [of "unat offset" "unat width" v]
    by (simp add: c_shl_uint c_shr_uint)
next
  have ones: "(0xFFFFFFFF :: u32) = - 1" by simp
  case False
  then have u: "unat (offset + width) = unat offset + unat width" "unat offset + unat width < 32"
    using assms by (simp_all add: unat_add_in_range)
  then have neq: "offset + width \<noteq> 32" by auto
  show ?thesis
    unfolding extractBitField_def ones
    using assms u neq drop_bit_and_xor_ones [of "unat offset" v "unat width"]
    by (simp add: c_shl_uint c_shr_uint)
qed

text \<open>
  \<open>extractBitField\<close> has a defined value exactly when the field lies inside the
  32-bit word, and then it is \<open>width\<close> bits of the input starting at \<open>offset\<close>.
\<close>

theorem extractBitField_correct:
  assumes "unat offset + unat width < 2 ^ 32"
  shows "extractBitField v width offset =
    (if unat offset < 32 \<and> unat offset + unat width \<le> 32
     then Some (of_nat ((unat v div 2 ^ unat offset) mod 2 ^ unat width)) else None)"
proof (cases "unat offset < 32 \<and> unat offset + unat width \<le> 32")
  case True
  have "unat (drop_bit (unat offset) v AND mask (unat width)) =
      (unat v div 2 ^ unat offset) mod 2 ^ unat width"
    by (simp add: unat_and_mask unat_drop_bit)
  then have "drop_bit (unat offset) v AND mask (unat width) =
      of_nat ((unat v div 2 ^ unat offset) mod 2 ^ unat width)"
    by (metis of_nat_unat ucast_id)
  with True show ?thesis by (simp add: extractBitField_in_range)
next
  case False
  have sum: "unat (offset + width) = unat offset + unat width"
    using assms by (simp add: unat_add_lem [THEN iffD1])
  have "offset + width = 32 \<Longrightarrow> \<not> unat offset < 32"
    using False sum by auto
  then show ?thesis
    using False sum by (auto simp: extractBitField_def c_shl_uint bind_None_iff)
qed

theorem extractBitField_correct_witness:
  "extractBitField 0x12345678 8 8 = Some 0x56 \<and> extractBitField 0x12345678 15 32 = None"
  using extractBitField_correct [of 8 8 "0x12345678"] extractBitField_correct [of 32 15 "0x12345678"]
  by simp

lemma extractBitField_eq_field32:
  assumes "1 \<le> unat width" "unat offset + unat width \<le> 32"
  shows "extractBitField v width offset = field32 v (uint offset) (uint width)"
proof -
  have w: "\<not> uint width < 1" "uint width < 33"
    using assms uint_less_iff_unat [of width 1] uint_less_iff_unat [of width 33] by simp_all
  have o: "uint offset < 32"
    using assms uint_less_iff_unat [of offset 32] by simp
  show ?thesis
    using assms w o by (simp add: extractBitField_in_range field32_Some_mask)
qed

section \<open>The width of a number range\<close>

lemma bsr_bounds: "1 \<le> n \<Longrightarrow> 2 ^ bsr n \<le> n \<and> n < 2 ^ Suc (bsr n)"
proof (induction n rule: bsr.induct)
  case (1 n)
  show ?case
  proof (cases "n \<le> 1")
    case True
    with "1.prems" have "n = 1" by simp
    then show ?thesis by (simp add: bsr.simps [of "Suc 0"])
  next
    case False
    then have "2 ^ bsr (n div 2) \<le> n div 2 \<and> n div 2 < 2 ^ Suc (bsr (n div 2))"
      using "1.IH" by simp
    with False show ?thesis by (simp add: bsr.simps [of n]) linarith
  qed
qed

lemma bsr_less: "1 \<le> n \<Longrightarrow> n < 2 ^ k \<Longrightarrow> bsr n < k"
proof -
  assume "1 \<le> n" "n < 2 ^ k"
  then have "(2::nat) ^ bsr n < 2 ^ k" using bsr_bounds [of n] by linarith
  then show "bsr n < k" by simp
qed

lemma unat_getBitFieldWidth:
  assumes "number \<noteq> 1"
  shows "unat (getBitFieldWidth number) = Suc (bsr (unat (number - 1)))"
proof -
  have pos: "1 \<le> unat (number - 1)"
    using assms by (simp add: Suc_le_eq unat_gt_0)
  have small: "bsr (unat (number - 1)) < 32"
    using bsr_less [OF pos, of 32] unat_u32_bound [of "number - 1"] by simp
  then have "unat (of_nat (bsr (unat (number - 1))) + 1 :: u32) = Suc (bsr (unat (number - 1)))"
    by (simp add: unat_word_ariths unat_of_nat)
  with assms show ?thesis by (simp add: getBitFieldWidth_def)
qed

text \<open>
  For a nonzero \<open>number\<close>, \<open>getBitFieldWidth\<close> is the least number of bits in which
  \<open>number\<close> different values fit.
\<close>

theorem getBitFieldWidth_least:
  assumes "number \<noteq> 0"
  shows "unat number \<le> 2 ^ unat (getBitFieldWidth number) \<and>
    (\<forall>k. unat number \<le> 2 ^ k \<longrightarrow> unat (getBitFieldWidth number) \<le> k)"
proof (cases "number = 1")
  case True
  then show ?thesis by (simp add: getBitFieldWidth_def)
next
  case False
  let ?m = "unat (number - 1)"
  have m: "unat number = Suc ?m"
    using assms by (simp add: unat_minus_one Suc_pred unat_gt_0)
  have pos: "1 \<le> ?m" using False by (simp add: Suc_le_eq unat_gt_0)
  have "?m < 2 ^ k \<Longrightarrow> Suc (bsr ?m) \<le> k" for k
    using bsr_less [OF pos] by (simp add: Suc_le_eq)
  then show ?thesis
    using bsr_bounds [OF pos] m False by (simp add: unat_getBitFieldWidth Suc_le_eq)
qed

theorem getBitFieldWidth_least_witness:
  "unat (getBitFieldWidth 6) = 3 \<and> (6::nat) \<le> 2 ^ unat (getBitFieldWidth 6)"
  using getBitFieldWidth_least [of 6] by (simp add: getBitFieldWidth_def bsr.simps)

section \<open>The two-word bit mask\<close>

lemma bitMask_set_test:
  assumes "length (mask_words m) = 2" "0 \<le> b" "b < 128" "0 \<le> c" "c < 128"
  shows "\<exists>m'. bitMask_set m b = Some m' \<and> length (mask_words m') = 2 \<and>
    (\<exists>t t'. bitMask_test m c = Some t \<and> bitMask_test m' c = Some t' \<and>
       (t' \<noteq> 0 \<longleftrightarrow> c = b \<or> t \<noteq> 0))"
proof -
  have div: "c_div b 64 = b div 64" "c_div c 64 = c div 64"
    using assms by (auto simp: c_div_def sgn_if)
  have le: "b div 64 * 64 \<le> b" "c div 64 * 64 \<le> c"
    by simp_all
  have rem: "b - b div 64 * 64 = b mod 64" "c - c div 64 * 64 = c mod 64"
    by (simp_all add: minus_div_mult_eq_mod)
  have range: "b div 64 < 2" "c div 64 < 2" "0 \<le> b div 64" "0 \<le> c div 64"
    using assms by auto
  have eq: "c = b \<longleftrightarrow> c div 64 = b div 64 \<and> c mod 64 = b mod 64"
    by (metis div_mult_mod_eq)
  have lt: "nat (b mod 64) < 64" "nat (c mod 64) < 64"
    using pos_mod_bound [of 64 b] pos_mod_bound [of 64 c] by (simp_all add: nat_less_iff)
  have same: "nat (c mod 64) = nat (b mod 64) \<longleftrightarrow> c mod 64 = b mod 64"
    using pos_mod_sign [of 64 b] pos_mod_sign [of 64 c] by (simp add: eq_nat_nat_iff)
  have bits: "(w OR 2 ^ nat (b mod 64)) AND 2 ^ nat (c mod 64) \<noteq> 0 \<longleftrightarrow>
      c mod 64 = b mod 64 \<or> w AND 2 ^ nat (c mod 64) \<noteq> 0" for w :: u64
    using lt by (auto simp: bit_and_single bit_simps bit_2_iff bit_exp_iff same)
  have pos: "nat (b div 64) = nat (c div 64) \<longleftrightarrow> b div 64 = c div 64"
    using range by (simp add: eq_nat_nat_iff)
  show ?thesis
    using assms(1) range lt le bits eq pos
    by (auto simp: bitMask_set_def bitMask_test_def setBit_def testBit_def c_shl_def div rem
        arr_get_def arr_set_def Let_def nth_list_update nat_less_iff)
qed

end
