(* ===== verification/Registers.thy ===== *)
theory Registers
  imports Likwid_Prelude
begin

text \<open>
  The register addresses of \<open>src/src/includes/registers.h\<close> and the processor family and model
  numbers of \<open>src/src/includes/topology.h\<close> that the modelled code names. They are input
  abbreviations: the definitions that use them read like the source and reduce to numerals.
\<close>

section \<open>PCI register offsets\<close>

abbreviation (input) PCI_UNC_HA_PMON_BOX_CTL :: u32 where "PCI_UNC_HA_PMON_BOX_CTL \<equiv> 0xF4"
abbreviation (input) PCI_UNC_HA_PMON_BOX_STATUS :: u32 where "PCI_UNC_HA_PMON_BOX_STATUS \<equiv> 0xF8"
abbreviation (input) PCI_UNC_HA_PMON_CTL_0 :: u32 where "PCI_UNC_HA_PMON_CTL_0 \<equiv> 0xD8"
abbreviation (input) PCI_UNC_HA_PMON_CTL_1 :: u32 where "PCI_UNC_HA_PMON_CTL_1 \<equiv> 0xDC"
abbreviation (input) PCI_UNC_HA_PMON_CTL_2 :: u32 where "PCI_UNC_HA_PMON_CTL_2 \<equiv> 0xE0"
abbreviation (input) PCI_UNC_HA_PMON_CTL_3 :: u32 where "PCI_UNC_HA_PMON_CTL_3 \<equiv> 0xE4"
abbreviation (input) PCI_UNC_HA_PMON_CTR_0_A :: u32 where "PCI_UNC_HA_PMON_CTR_0_A \<equiv> 0xA4"
abbreviation (input) PCI_UNC_HA_PMON_CTR_1_A :: u32 where "PCI_UNC_HA_PMON_CTR_1_A \<equiv> 0xAC"
abbreviation (input) PCI_UNC_HA_PMON_CTR_2_A :: u32 where "PCI_UNC_HA_PMON_CTR_2_A \<equiv> 0xB4"
abbreviation (input) PCI_UNC_HA_PMON_CTR_3_A :: u32 where "PCI_UNC_HA_PMON_CTR_3_A \<equiv> 0xBC"
abbreviation (input) PCI_UNC_HA_PMON_CTR_0_B :: u32 where "PCI_UNC_HA_PMON_CTR_0_B \<equiv> 0xA0"
abbreviation (input) PCI_UNC_HA_PMON_CTR_1_B :: u32 where "PCI_UNC_HA_PMON_CTR_1_B \<equiv> 0xA8"
abbreviation (input) PCI_UNC_HA_PMON_CTR_2_B :: u32 where "PCI_UNC_HA_PMON_CTR_2_B \<equiv> 0xB0"
abbreviation (input) PCI_UNC_HA_PMON_CTR_3_B :: u32 where "PCI_UNC_HA_PMON_CTR_3_B \<equiv> 0xB8"
abbreviation (input) PCI_UNC_HA_PMON_OPCODEMATCH :: u32 where "PCI_UNC_HA_PMON_OPCODEMATCH \<equiv> 0x48"
abbreviation (input) PCI_UNC_HA_PMON_ADDRMATCH0 :: u32 where "PCI_UNC_HA_PMON_ADDRMATCH0 \<equiv> 0x40"
abbreviation (input) PCI_UNC_HA_PMON_ADDRMATCH1 :: u32 where "PCI_UNC_HA_PMON_ADDRMATCH1 \<equiv> 0x44"
abbreviation (input) PCI_UNC_MC_PMON_BOX_CTL :: u32 where "PCI_UNC_MC_PMON_BOX_CTL \<equiv> 0xF4"
abbreviation (input) PCI_UNC_MC_PMON_BOX_STATUS :: u32 where "PCI_UNC_MC_PMON_BOX_STATUS \<equiv> 0xF8"
abbreviation (input) PCI_UNC_MC_PMON_FIXED_CTL :: u32 where "PCI_UNC_MC_PMON_FIXED_CTL \<equiv> 0xF0"
abbreviation (input) PCI_UNC_MC_PMON_CTL_0 :: u32 where "PCI_UNC_MC_PMON_CTL_0 \<equiv> 0xD8"
abbreviation (input) PCI_UNC_MC_PMON_CTL_1 :: u32 where "PCI_UNC_MC_PMON_CTL_1 \<equiv> 0xDC"
abbreviation (input) PCI_UNC_MC_PMON_CTL_2 :: u32 where "PCI_UNC_MC_PMON_CTL_2 \<equiv> 0xE0"
abbreviation (input) PCI_UNC_MC_PMON_CTL_3 :: u32 where "PCI_UNC_MC_PMON_CTL_3 \<equiv> 0xE4"
abbreviation (input) PCI_UNC_MC_PMON_FIXED_CTR_A :: u32 where "PCI_UNC_MC_PMON_FIXED_CTR_A \<equiv> 0xD4"
abbreviation (input) PCI_UNC_MC_PMON_FIXED_CTR_B :: u32 where "PCI_UNC_MC_PMON_FIXED_CTR_B \<equiv> 0xD0"
abbreviation (input) PCI_UNC_MC_PMON_CTR_0_A :: u32 where "PCI_UNC_MC_PMON_CTR_0_A \<equiv> 0xA4"
abbreviation (input) PCI_UNC_MC_PMON_CTR_1_A :: u32 where "PCI_UNC_MC_PMON_CTR_1_A \<equiv> 0xAC"
abbreviation (input) PCI_UNC_MC_PMON_CTR_2_A :: u32 where "PCI_UNC_MC_PMON_CTR_2_A \<equiv> 0xB4"
abbreviation (input) PCI_UNC_MC_PMON_CTR_3_A :: u32 where "PCI_UNC_MC_PMON_CTR_3_A \<equiv> 0xBC"
abbreviation (input) PCI_UNC_MC_PMON_CTR_0_B :: u32 where "PCI_UNC_MC_PMON_CTR_0_B \<equiv> 0xA0"
abbreviation (input) PCI_UNC_MC_PMON_CTR_1_B :: u32 where "PCI_UNC_MC_PMON_CTR_1_B \<equiv> 0xA8"
abbreviation (input) PCI_UNC_MC_PMON_CTR_2_B :: u32 where "PCI_UNC_MC_PMON_CTR_2_B \<equiv> 0xB0"
abbreviation (input) PCI_UNC_MC_PMON_CTR_3_B :: u32 where "PCI_UNC_MC_PMON_CTR_3_B \<equiv> 0xB8"
abbreviation (input) PCI_UNC_IRP_PMON_BOX_STATUS :: u32 where "PCI_UNC_IRP_PMON_BOX_STATUS \<equiv> 0xF8"
abbreviation (input) PCI_UNC_IRP_PMON_BOX_CTL :: u32 where "PCI_UNC_IRP_PMON_BOX_CTL \<equiv> 0xF4"
abbreviation (input) PCI_UNC_IRP0_PMON_CTL_0 :: u32 where "PCI_UNC_IRP0_PMON_CTL_0 \<equiv> 0xD8"
abbreviation (input) PCI_UNC_IRP0_PMON_CTL_1 :: u32 where "PCI_UNC_IRP0_PMON_CTL_1 \<equiv> 0xDC"
abbreviation (input) PCI_UNC_IRP0_PMON_CTR_0 :: u32 where "PCI_UNC_IRP0_PMON_CTR_0 \<equiv> 0xA0"
abbreviation (input) PCI_UNC_IRP0_PMON_CTR_1 :: u32 where "PCI_UNC_IRP0_PMON_CTR_1 \<equiv> 0xB0"
abbreviation (input) PCI_UNC_IRP1_PMON_CTL_0 :: u32 where "PCI_UNC_IRP1_PMON_CTL_0 \<equiv> 0xE0"
abbreviation (input) PCI_UNC_IRP1_PMON_CTL_1 :: u32 where "PCI_UNC_IRP1_PMON_CTL_1 \<equiv> 0xE4"
abbreviation (input) PCI_UNC_IRP1_PMON_CTR_0 :: u32 where "PCI_UNC_IRP1_PMON_CTR_0 \<equiv> 0xB8"
abbreviation (input) PCI_UNC_IRP1_PMON_CTR_1 :: u32 where "PCI_UNC_IRP1_PMON_CTR_1 \<equiv> 0xC0"
abbreviation (input) PCI_UNC_QPI_PMON_BOX_CTL :: u32 where "PCI_UNC_QPI_PMON_BOX_CTL \<equiv> 0xF4"
abbreviation (input) PCI_UNC_QPI_PMON_BOX_STATUS :: u32 where "PCI_UNC_QPI_PMON_BOX_STATUS \<equiv> 0xF8"
abbreviation (input) PCI_UNC_QPI_PMON_CTL_0 :: u32 where "PCI_UNC_QPI_PMON_CTL_0 \<equiv> 0xD8"
abbreviation (input) PCI_UNC_QPI_PMON_CTL_1 :: u32 where "PCI_UNC_QPI_PMON_CTL_1 \<equiv> 0xDC"
abbreviation (input) PCI_UNC_QPI_PMON_CTL_2 :: u32 where "PCI_UNC_QPI_PMON_CTL_2 \<equiv> 0xE0"
abbreviation (input) PCI_UNC_QPI_PMON_CTL_3 :: u32 where "PCI_UNC_QPI_PMON_CTL_3 \<equiv> 0xE4"
abbreviation (input) PCI_UNC_QPI_PMON_CTR_0_A :: u32 where "PCI_UNC_QPI_PMON_CTR_0_A \<equiv> 0xA4"
abbreviation (input) PCI_UNC_QPI_PMON_CTR_1_A :: u32 where "PCI_UNC_QPI_PMON_CTR_1_A \<equiv> 0xAC"
abbreviation (input) PCI_UNC_QPI_PMON_CTR_2_A :: u32 where "PCI_UNC_QPI_PMON_CTR_2_A \<equiv> 0xB4"
abbreviation (input) PCI_UNC_QPI_PMON_CTR_3_A :: u32 where "PCI_UNC_QPI_PMON_CTR_3_A \<equiv> 0xBC"
abbreviation (input) PCI_UNC_QPI_PMON_CTR_0_B :: u32 where "PCI_UNC_QPI_PMON_CTR_0_B \<equiv> 0xA0"
abbreviation (input) PCI_UNC_QPI_PMON_CTR_1_B :: u32 where "PCI_UNC_QPI_PMON_CTR_1_B \<equiv> 0xA8"
abbreviation (input) PCI_UNC_QPI_PMON_CTR_2_B :: u32 where "PCI_UNC_QPI_PMON_CTR_2_B \<equiv> 0xB0"
abbreviation (input) PCI_UNC_QPI_PMON_CTR_3_B :: u32 where "PCI_UNC_QPI_PMON_CTR_3_B \<equiv> 0xB8"
abbreviation (input) PCI_UNC_QPI_PMON_MASK_0 :: u32 where "PCI_UNC_QPI_PMON_MASK_0 \<equiv> 0x238"
abbreviation (input) PCI_UNC_QPI_PMON_MASK_1 :: u32 where "PCI_UNC_QPI_PMON_MASK_1 \<equiv> 0x23C"
abbreviation (input) PCI_UNC_QPI_PMON_MATCH_0 :: u32 where "PCI_UNC_QPI_PMON_MATCH_0 \<equiv> 0x228"
abbreviation (input) PCI_UNC_QPI_PMON_MATCH_1 :: u32 where "PCI_UNC_QPI_PMON_MATCH_1 \<equiv> 0x22C"
abbreviation (input) PCI_UNC_QPI_RATE_STATUS :: u32 where "PCI_UNC_QPI_RATE_STATUS \<equiv> 0xD4"
abbreviation (input) PCI_UNC_R2PCIE_PMON_BOX_CTL :: u32 where "PCI_UNC_R2PCIE_PMON_BOX_CTL \<equiv> 0xF4"
abbreviation (input) PCI_UNC_R2PCIE_PMON_BOX_STATUS :: u32 where "PCI_UNC_R2PCIE_PMON_BOX_STATUS \<equiv> 0xF8"
abbreviation (input) PCI_UNC_R2PCIE_PMON_CTL_0 :: u32 where "PCI_UNC_R2PCIE_PMON_CTL_0 \<equiv> 0xD8"
abbreviation (input) PCI_UNC_R2PCIE_PMON_CTL_1 :: u32 where "PCI_UNC_R2PCIE_PMON_CTL_1 \<equiv> 0xDC"
abbreviation (input) PCI_UNC_R2PCIE_PMON_CTL_2 :: u32 where "PCI_UNC_R2PCIE_PMON_CTL_2 \<equiv> 0xE0"
abbreviation (input) PCI_UNC_R2PCIE_PMON_CTL_3 :: u32 where "PCI_UNC_R2PCIE_PMON_CTL_3 \<equiv> 0xE4"
abbreviation (input) PCI_UNC_R2PCIE_PMON_CTR_0_A :: u32 where "PCI_UNC_R2PCIE_PMON_CTR_0_A \<equiv> 0xA4"
abbreviation (input) PCI_UNC_R2PCIE_PMON_CTR_1_A :: u32 where "PCI_UNC_R2PCIE_PMON_CTR_1_A \<equiv> 0xAC"
abbreviation (input) PCI_UNC_R2PCIE_PMON_CTR_2_A :: u32 where "PCI_UNC_R2PCIE_PMON_CTR_2_A \<equiv> 0xB4"
abbreviation (input) PCI_UNC_R2PCIE_PMON_CTR_3_A :: u32 where "PCI_UNC_R2PCIE_PMON_CTR_3_A \<equiv> 0xBC"
abbreviation (input) PCI_UNC_R2PCIE_PMON_CTR_0_B :: u32 where "PCI_UNC_R2PCIE_PMON_CTR_0_B \<equiv> 0xA0"
abbreviation (input) PCI_UNC_R2PCIE_PMON_CTR_1_B :: u32 where "PCI_UNC_R2PCIE_PMON_CTR_1_B \<equiv> 0xA8"
abbreviation (input) PCI_UNC_R2PCIE_PMON_CTR_2_B :: u32 where "PCI_UNC_R2PCIE_PMON_CTR_2_B \<equiv> 0xB0"
abbreviation (input) PCI_UNC_R2PCIE_PMON_CTR_3_B :: u32 where "PCI_UNC_R2PCIE_PMON_CTR_3_B \<equiv> 0xB8"
abbreviation (input) PCI_UNC_R3QPI_PMON_BOX_CTL :: u32 where "PCI_UNC_R3QPI_PMON_BOX_CTL \<equiv> 0xF4"
abbreviation (input) PCI_UNC_R3QPI_PMON_BOX_STATUS :: u32 where "PCI_UNC_R3QPI_PMON_BOX_STATUS \<equiv> 0xF8"
abbreviation (input) PCI_UNC_R3QPI_PMON_CTL_0 :: u32 where "PCI_UNC_R3QPI_PMON_CTL_0 \<equiv> 0xD8"
abbreviation (input) PCI_UNC_R3QPI_PMON_CTL_1 :: u32 where "PCI_UNC_R3QPI_PMON_CTL_1 \<equiv> 0xDC"
abbreviation (input) PCI_UNC_R3QPI_PMON_CTL_2 :: u32 where "PCI_UNC_R3QPI_PMON_CTL_2 \<equiv> 0xE0"
abbreviation (input) PCI_UNC_R3QPI_PMON_CTR_0_A :: u32 where "PCI_UNC_R3QPI_PMON_CTR_0_A \<equiv> 0xA4"
abbreviation (input) PCI_UNC_R3QPI_PMON_CTR_1_A :: u32 where "PCI_UNC_R3QPI_PMON_CTR_1_A \<equiv> 0xAC"
abbreviation (input) PCI_UNC_R3QPI_PMON_CTR_2_A :: u32 where "PCI_UNC_R3QPI_PMON_CTR_2_A \<equiv> 0xB4"
abbreviation (input) PCI_UNC_R3QPI_PMON_CTR_0_B :: u32 where "PCI_UNC_R3QPI_PMON_CTR_0_B \<equiv> 0xA0"
abbreviation (input) PCI_UNC_R3QPI_PMON_CTR_1_B :: u32 where "PCI_UNC_R3QPI_PMON_CTR_1_B \<equiv> 0xA8"
abbreviation (input) PCI_UNC_R3QPI_PMON_CTR_2_B :: u32 where "PCI_UNC_R3QPI_PMON_CTR_2_B \<equiv> 0xB0"
abbreviation (input) PCI_UNC_V3_QPI_PMON_BOX_CTL :: u32 where "PCI_UNC_V3_QPI_PMON_BOX_CTL \<equiv> 0xF4"
abbreviation (input) PCI_UNC_V3_QPI_PMON_BOX_STATUS :: u32 where "PCI_UNC_V3_QPI_PMON_BOX_STATUS \<equiv> 0xF8"
abbreviation (input) PCI_UNC_V3_QPI_PMON_CTL_0 :: u32 where "PCI_UNC_V3_QPI_PMON_CTL_0 \<equiv> 0xD8"
abbreviation (input) PCI_UNC_V3_QPI_PMON_CTL_1 :: u32 where "PCI_UNC_V3_QPI_PMON_CTL_1 \<equiv> 0xDC"
abbreviation (input) PCI_UNC_V3_QPI_PMON_CTL_2 :: u32 where "PCI_UNC_V3_QPI_PMON_CTL_2 \<equiv> 0xE0"
abbreviation (input) PCI_UNC_V3_QPI_PMON_CTL_3 :: u32 where "PCI_UNC_V3_QPI_PMON_CTL_3 \<equiv> 0xE4"
abbreviation (input) PCI_UNC_V3_QPI_PMON_CTR_0_A :: u32 where "PCI_UNC_V3_QPI_PMON_CTR_0_A \<equiv> 0xA4"
abbreviation (input) PCI_UNC_V3_QPI_PMON_CTR_1_A :: u32 where "PCI_UNC_V3_QPI_PMON_CTR_1_A \<equiv> 0xAC"
abbreviation (input) PCI_UNC_V3_QPI_PMON_CTR_2_A :: u32 where "PCI_UNC_V3_QPI_PMON_CTR_2_A \<equiv> 0xB4"
abbreviation (input) PCI_UNC_V3_QPI_PMON_CTR_3_A :: u32 where "PCI_UNC_V3_QPI_PMON_CTR_3_A \<equiv> 0xBC"
abbreviation (input) PCI_UNC_V3_QPI_PMON_CTR_0_B :: u32 where "PCI_UNC_V3_QPI_PMON_CTR_0_B \<equiv> 0xA0"
abbreviation (input) PCI_UNC_V3_QPI_PMON_CTR_1_B :: u32 where "PCI_UNC_V3_QPI_PMON_CTR_1_B \<equiv> 0xA8"
abbreviation (input) PCI_UNC_V3_QPI_PMON_CTR_2_B :: u32 where "PCI_UNC_V3_QPI_PMON_CTR_2_B \<equiv> 0xB0"
abbreviation (input) PCI_UNC_V3_QPI_PMON_CTR_3_B :: u32 where "PCI_UNC_V3_QPI_PMON_CTR_3_B \<equiv> 0xB8"
abbreviation (input) PCI_UNC_V3_QPI_PMON_RX_MASK_0 :: u32 where "PCI_UNC_V3_QPI_PMON_RX_MASK_0 \<equiv> 0x238"
abbreviation (input) PCI_UNC_V3_QPI_PMON_RX_MASK_1 :: u32 where "PCI_UNC_V3_QPI_PMON_RX_MASK_1 \<equiv> 0x23C"
abbreviation (input) PCI_UNC_V3_QPI_PMON_RX_MATCH_0 :: u32 where "PCI_UNC_V3_QPI_PMON_RX_MATCH_0 \<equiv> 0x228"
abbreviation (input) PCI_UNC_V3_QPI_PMON_RX_MATCH_1 :: u32 where "PCI_UNC_V3_QPI_PMON_RX_MATCH_1 \<equiv> 0x22C"
abbreviation (input) PCI_UNC_V3_QPI_PMON_TX_MASK_0 :: u32 where "PCI_UNC_V3_QPI_PMON_TX_MASK_0 \<equiv> 0x210"
abbreviation (input) PCI_UNC_V3_QPI_PMON_TX_MASK_1 :: u32 where "PCI_UNC_V3_QPI_PMON_TX_MASK_1 \<equiv> 0x214"
abbreviation (input) PCI_UNC_V3_QPI_PMON_TX_MATCH_0 :: u32 where "PCI_UNC_V3_QPI_PMON_TX_MATCH_0 \<equiv> 0x200"
abbreviation (input) PCI_UNC_V3_QPI_PMON_TX_MATCH_1 :: u32 where "PCI_UNC_V3_QPI_PMON_TX_MATCH_1 \<equiv> 0x204"
abbreviation (input) PCI_UNC_V3_QPI_RATE_STATUS :: u32 where "PCI_UNC_V3_QPI_RATE_STATUS \<equiv> 0xD4"
abbreviation (input) PCI_UNC_V3_QPI_LINK_LLR :: u32 where "PCI_UNC_V3_QPI_LINK_LLR \<equiv> 0xD0"
abbreviation (input) PCI_UNC_V3_QPI_LINK_IDLE :: u32 where "PCI_UNC_V3_QPI_LINK_IDLE \<equiv> 0xC8"

section \<open>MSR addresses\<close>

abbreviation (input) MSR_AMD_PERFEVTSEL0 :: u32 where "MSR_AMD_PERFEVTSEL0 \<equiv> 0xC0010000"
abbreviation (input) MSR_AMD_PERFEVTSEL1 :: u32 where "MSR_AMD_PERFEVTSEL1 \<equiv> 0xC0010001"
abbreviation (input) MSR_AMD_PERFEVTSEL2 :: u32 where "MSR_AMD_PERFEVTSEL2 \<equiv> 0xC0010002"
abbreviation (input) MSR_AMD_PERFEVTSEL3 :: u32 where "MSR_AMD_PERFEVTSEL3 \<equiv> 0xC0010003"
abbreviation (input) MSR_AMD_PMC0 :: u32 where "MSR_AMD_PMC0 \<equiv> 0xC0010004"
abbreviation (input) MSR_AMD_PMC1 :: u32 where "MSR_AMD_PMC1 \<equiv> 0xC0010005"
abbreviation (input) MSR_AMD_PMC2 :: u32 where "MSR_AMD_PMC2 \<equiv> 0xC0010006"
abbreviation (input) MSR_AMD_PMC3 :: u32 where "MSR_AMD_PMC3 \<equiv> 0xC0010007"
abbreviation (input) MSR_PERF_FIXED_CTR_CTRL :: u32 where "MSR_PERF_FIXED_CTR_CTRL \<equiv> 0x38D"
abbreviation (input) MSR_PERF_FIXED_CTR0 :: u32 where "MSR_PERF_FIXED_CTR0 \<equiv> 0x309"
abbreviation (input) MSR_PERF_FIXED_CTR1 :: u32 where "MSR_PERF_FIXED_CTR1 \<equiv> 0x30A"
abbreviation (input) MSR_PERF_FIXED_CTR2 :: u32 where "MSR_PERF_FIXED_CTR2 \<equiv> 0x30B"
abbreviation (input) MSR_PERFEVTSEL0 :: u32 where "MSR_PERFEVTSEL0 \<equiv> 0x186"
abbreviation (input) MSR_PERFEVTSEL1 :: u32 where "MSR_PERFEVTSEL1 \<equiv> 0x187"
abbreviation (input) MSR_PMC0 :: u32 where "MSR_PMC0 \<equiv> 0x0C1"
abbreviation (input) MSR_PMC1 :: u32 where "MSR_PMC1 \<equiv> 0x0C2"
abbreviation (input) MSR_PMC7 :: u32 where "MSR_PMC7 \<equiv> 0x0C8"
abbreviation (input) MSR_PERF_GLOBAL_CTRL :: u32 where "MSR_PERF_GLOBAL_CTRL \<equiv> 0x38F"
abbreviation (input) MSR_PERF_GLOBAL_STATUS :: u32 where "MSR_PERF_GLOBAL_STATUS \<equiv> 0x38E"
abbreviation (input) MSR_PERF_GLOBAL_OVF_CTRL :: u32 where "MSR_PERF_GLOBAL_OVF_CTRL \<equiv> 0x390"
abbreviation (input) MSR_PEBS_ENABLE :: u32 where "MSR_PEBS_ENABLE \<equiv> 0x3F1"
abbreviation (input) MSR_PLATFORM_INFO :: u32 where "MSR_PLATFORM_INFO \<equiv> 0x0CE"
abbreviation (input) MSR_TURBO_RATIO_LIMIT :: u32 where "MSR_TURBO_RATIO_LIMIT \<equiv> 0x1AD"
abbreviation (input) MSR_RAPL_POWER_UNIT :: u32 where "MSR_RAPL_POWER_UNIT \<equiv> 0x606"
abbreviation (input) MSR_PKG_ENERGY_STATUS :: u32 where "MSR_PKG_ENERGY_STATUS \<equiv> 0x611"
abbreviation (input) MSR_PP0_ENERGY_STATUS :: u32 where "MSR_PP0_ENERGY_STATUS \<equiv> 0x639"
abbreviation (input) MSR_PP1_ENERGY_STATUS :: u32 where "MSR_PP1_ENERGY_STATUS \<equiv> 0x641"
abbreviation (input) MSR_DRAM_ENERGY_STATUS :: u32 where "MSR_DRAM_ENERGY_STATUS \<equiv> 0x619"
abbreviation (input) MSR_PKG_RAPL_POWER_LIMIT :: u32 where "MSR_PKG_RAPL_POWER_LIMIT \<equiv> 0x610"
abbreviation (input) MSR_PP0_RAPL_POWER_LIMIT :: u32 where "MSR_PP0_RAPL_POWER_LIMIT \<equiv> 0x638"
abbreviation (input) MSR_PP1_RAPL_POWER_LIMIT :: u32 where "MSR_PP1_RAPL_POWER_LIMIT \<equiv> 0x640"
abbreviation (input) MSR_DRAM_RAPL_POWER_LIMIT :: u32 where "MSR_DRAM_RAPL_POWER_LIMIT \<equiv> 0x618"
abbreviation (input) MSR_PP0_ENERGY_POLICY :: u32 where "MSR_PP0_ENERGY_POLICY \<equiv> 0x63A"
abbreviation (input) MSR_PP1_ENERGY_POLICY :: u32 where "MSR_PP1_ENERGY_POLICY \<equiv> 0x642"
abbreviation (input) MSR_PKG_PERF_STATUS :: u32 where "MSR_PKG_PERF_STATUS \<equiv> 0x613"
abbreviation (input) MSR_PP0_PERF_STATUS :: u32 where "MSR_PP0_PERF_STATUS \<equiv> 0x63B"
abbreviation (input) MSR_DRAM_PERF_STATUS :: u32 where "MSR_DRAM_PERF_STATUS \<equiv> 0x61B"
abbreviation (input) MSR_PKG_POWER_INFO :: u32 where "MSR_PKG_POWER_INFO \<equiv> 0x614"
abbreviation (input) MSR_DRAM_POWER_INFO :: u32 where "MSR_DRAM_POWER_INFO \<equiv> 0x61C"
abbreviation (input) MSR_PKG_POWER_INFO_SILVERMONT :: u32 where "MSR_PKG_POWER_INFO_SILVERMONT \<equiv> 0x66E"
abbreviation (input) IA32_THERM_STATUS :: u32 where "IA32_THERM_STATUS \<equiv> 0x19C"
abbreviation (input) MSR_TEMPERATURE_TARGET :: u32 where "MSR_TEMPERATURE_TARGET \<equiv> 0x1A2"

section \<open>Families and models\<close>

abbreviation (input) PENTIUM_M_BANIAS :: u32 where "PENTIUM_M_BANIAS \<equiv> 0x09"
abbreviation (input) PENTIUM_M_DOTHAN :: u32 where "PENTIUM_M_DOTHAN \<equiv> 0x0D"
abbreviation (input) CORE_DUO :: u32 where "CORE_DUO \<equiv> 0x0E"
abbreviation (input) CORE2_65 :: u32 where "CORE2_65 \<equiv> 0x0F"
abbreviation (input) CORE2_45 :: u32 where "CORE2_45 \<equiv> 0x17"
abbreviation (input) ATOM :: u32 where "ATOM \<equiv> 0x1C"
abbreviation (input) ATOM_45 :: u32 where "ATOM_45 \<equiv> 0x26"
abbreviation (input) ATOM_32 :: u32 where "ATOM_32 \<equiv> 0x36"
abbreviation (input) ATOM_22 :: u32 where "ATOM_22 \<equiv> 0x27"
abbreviation (input) ATOM_SILVERMONT_E :: u32 where "ATOM_SILVERMONT_E \<equiv> 0x37"
abbreviation (input) ATOM_SILVERMONT_C :: u32 where "ATOM_SILVERMONT_C \<equiv> 0x4D"
abbreviation (input) ATOM_SILVERMONT_Z1 :: u32 where "ATOM_SILVERMONT_Z1 \<equiv> 0x4A"
abbreviation (input) ATOM_SILVERMONT_Z2 :: u32 where "ATOM_SILVERMONT_Z2 \<equiv> 0x5A"
abbreviation (input) ATOM_SILVERMONT_F :: u32 where "ATOM_SILVERMONT_F \<equiv> 0x5D"
abbreviation (input) ATOM_SILVERMONT_AIR :: u32 where "ATOM_SILVERMONT_AIR \<equiv> 0x4C"
abbreviation (input) NEHALEM :: u32 where "NEHALEM \<equiv> 0x1A"
abbreviation (input) NEHALEM_BLOOMFIELD :: u32 where "NEHALEM_BLOOMFIELD \<equiv> 0x1A"
abbreviation (input) NEHALEM_LYNNFIELD :: u32 where "NEHALEM_LYNNFIELD \<equiv> 0x1E"
abbreviation (input) NEHALEM_LYNNFIELD_M :: u32 where "NEHALEM_LYNNFIELD_M \<equiv> 0x1F"
abbreviation (input) NEHALEM_WESTMERE :: u32 where "NEHALEM_WESTMERE \<equiv> 0x2C"
abbreviation (input) NEHALEM_WESTMERE_M :: u32 where "NEHALEM_WESTMERE_M \<equiv> 0x25"
abbreviation (input) SANDYBRIDGE :: u32 where "SANDYBRIDGE \<equiv> 0x2A"
abbreviation (input) SANDYBRIDGE_EP :: u32 where "SANDYBRIDGE_EP \<equiv> 0x2D"
abbreviation (input) HASWELL :: u32 where "HASWELL \<equiv> 0x3C"
abbreviation (input) HASWELL_EP :: u32 where "HASWELL_EP \<equiv> 0x3F"
abbreviation (input) HASWELL_M1 :: u32 where "HASWELL_M1 \<equiv> 0x45"
abbreviation (input) HASWELL_M2 :: u32 where "HASWELL_M2 \<equiv> 0x46"
abbreviation (input) IVYBRIDGE :: u32 where "IVYBRIDGE \<equiv> 0x3A"
abbreviation (input) IVYBRIDGE_EP :: u32 where "IVYBRIDGE_EP \<equiv> 0x3E"
abbreviation (input) NEHALEM_EX :: u32 where "NEHALEM_EX \<equiv> 0x2E"
abbreviation (input) WESTMERE_EX :: u32 where "WESTMERE_EX \<equiv> 0x2F"
abbreviation (input) XEON_MP :: u32 where "XEON_MP \<equiv> 0x1D"
abbreviation (input) BROADWELL :: u32 where "BROADWELL \<equiv> 0x3D"
abbreviation (input) BROADWELL_E :: u32 where "BROADWELL_E \<equiv> 0x4F"
abbreviation (input) BROADWELL_D :: u32 where "BROADWELL_D \<equiv> 0x56"
abbreviation (input) SKYLAKE1 :: u32 where "SKYLAKE1 \<equiv> 0x4E"
abbreviation (input) SKYLAKE2 :: u32 where "SKYLAKE2 \<equiv> 0x5E"
abbreviation (input) XEON_PHI :: u32 where "XEON_PHI \<equiv> 0x01"
abbreviation (input) XEON_PHI2 :: u32 where "XEON_PHI2 \<equiv> 0x57"
abbreviation (input) BARCELONA :: u32 where "BARCELONA \<equiv> 0x02"
abbreviation (input) SHANGHAI :: u32 where "SHANGHAI \<equiv> 0x04"
abbreviation (input) ISTANBUL :: u32 where "ISTANBUL \<equiv> 0x08"
abbreviation (input) MAGNYCOURS :: u32 where "MAGNYCOURS \<equiv> 0x09"
abbreviation (input) OPTERON_SC_1MB :: u32 where "OPTERON_SC_1MB \<equiv> 0x05"
abbreviation (input) OPTERON_DC_E :: u32 where "OPTERON_DC_E \<equiv> 0x21"
abbreviation (input) OPTERON_DC_F :: u32 where "OPTERON_DC_F \<equiv> 0x41"
abbreviation (input) ATHLON64_X2 :: u32 where "ATHLON64_X2 \<equiv> 0x43"
abbreviation (input) ATHLON64_X2_F :: u32 where "ATHLON64_X2_F \<equiv> 0x4B"
abbreviation (input) ATHLON64_F1 :: u32 where "ATHLON64_F1 \<equiv> 0x4F"
abbreviation (input) ATHLON64_F2 :: u32 where "ATHLON64_F2 \<equiv> 0x5F"
abbreviation (input) ATHLON64_X2_G :: u32 where "ATHLON64_X2_G \<equiv> 0x6B"
abbreviation (input) ATHLON64_G1 :: u32 where "ATHLON64_G1 \<equiv> 0x6F"
abbreviation (input) ATHLON64_G2 :: u32 where "ATHLON64_G2 \<equiv> 0x7F"
abbreviation (input) P6_FAMILY :: u32 where "P6_FAMILY \<equiv> 0x6"
abbreviation (input) MIC_FAMILY :: u32 where "MIC_FAMILY \<equiv> 0xB"
abbreviation (input) NETBURST_FAMILY :: u32 where "NETBURST_FAMILY \<equiv> 0xFF"
abbreviation (input) K15_FAMILY :: u32 where "K15_FAMILY \<equiv> 0x15"
abbreviation (input) K16_FAMILY :: u32 where "K16_FAMILY \<equiv> 0x16"
abbreviation (input) K10_FAMILY :: u32 where "K10_FAMILY \<equiv> 0x10"
abbreviation (input) K8_FAMILY :: u32 where "K8_FAMILY \<equiv> 0xF"

section \<open>Counters of further architectures\<close>

abbreviation (input) MSR_OFFCORE_RESP0 :: u32 where "MSR_OFFCORE_RESP0 \<equiv> 0x1A6"
abbreviation (input) MSR_OFFCORE_RESP1 :: u32 where "MSR_OFFCORE_RESP1 \<equiv> 0x1A7"
abbreviation (input) MSR_MIC_PERFEVTSEL0 :: u32 where "MSR_MIC_PERFEVTSEL0 \<equiv> 0x028"
abbreviation (input) MSR_MIC_PERFEVTSEL1 :: u32 where "MSR_MIC_PERFEVTSEL1 \<equiv> 0x029"
abbreviation (input) MSR_MIC_PMC0 :: u32 where "MSR_MIC_PMC0 \<equiv> 0x020"
abbreviation (input) MSR_MIC_PMC1 :: u32 where "MSR_MIC_PMC1 \<equiv> 0x021"
abbreviation (input) MSR_MIC_SPFLT_CONTROL :: u32 where "MSR_MIC_SPFLT_CONTROL \<equiv> 0x02C"
abbreviation (input) MSR_MIC_PERF_GLOBAL_STATUS :: u32 where "MSR_MIC_PERF_GLOBAL_STATUS \<equiv> 0x02D"
abbreviation (input) MSR_MIC_PERF_GLOBAL_OVF_CTRL :: u32 where "MSR_MIC_PERF_GLOBAL_OVF_CTRL \<equiv> 0x02E"
abbreviation (input) MSR_MIC_PERF_GLOBAL_CTRL :: u32 where "MSR_MIC_PERF_GLOBAL_CTRL \<equiv> 0x02F"
abbreviation (input) MSR_AMD15_PERFEVTSEL0 :: u32 where "MSR_AMD15_PERFEVTSEL0 \<equiv> 0xC0010200"
abbreviation (input) MSR_AMD15_PERFEVTSEL1 :: u32 where "MSR_AMD15_PERFEVTSEL1 \<equiv> 0xC0010202"
abbreviation (input) MSR_AMD15_PERFEVTSEL2 :: u32 where "MSR_AMD15_PERFEVTSEL2 \<equiv> 0xC0010204"
abbreviation (input) MSR_AMD15_PERFEVTSEL3 :: u32 where "MSR_AMD15_PERFEVTSEL3 \<equiv> 0xC0010206"
abbreviation (input) MSR_AMD15_PERFEVTSEL4 :: u32 where "MSR_AMD15_PERFEVTSEL4 \<equiv> 0xC0010208"
abbreviation (input) MSR_AMD15_PERFEVTSEL5 :: u32 where "MSR_AMD15_PERFEVTSEL5 \<equiv> 0xC001020A"
abbreviation (input) MSR_AMD15_PMC0 :: u32 where "MSR_AMD15_PMC0 \<equiv> 0xC0010201"
abbreviation (input) MSR_AMD15_PMC1 :: u32 where "MSR_AMD15_PMC1 \<equiv> 0xC0010203"
abbreviation (input) MSR_AMD15_PMC2 :: u32 where "MSR_AMD15_PMC2 \<equiv> 0xC0010205"
abbreviation (input) MSR_AMD15_PMC3 :: u32 where "MSR_AMD15_PMC3 \<equiv> 0xC0010207"
abbreviation (input) MSR_AMD15_PMC4 :: u32 where "MSR_AMD15_PMC4 \<equiv> 0xC0010209"
abbreviation (input) MSR_AMD15_PMC5 :: u32 where "MSR_AMD15_PMC5 \<equiv> 0xC001020B"
abbreviation (input) MSR_AMD15_NB_PERFEVTSEL0 :: u32 where "MSR_AMD15_NB_PERFEVTSEL0 \<equiv> 0xC0010240"
abbreviation (input) MSR_AMD15_NB_PERFEVTSEL1 :: u32 where "MSR_AMD15_NB_PERFEVTSEL1 \<equiv> 0xC0010242"
abbreviation (input) MSR_AMD15_NB_PERFEVTSEL2 :: u32 where "MSR_AMD15_NB_PERFEVTSEL2 \<equiv> 0xC0010244"
abbreviation (input) MSR_AMD15_NB_PERFEVTSEL3 :: u32 where "MSR_AMD15_NB_PERFEVTSEL3 \<equiv> 0xC0010246"
abbreviation (input) MSR_AMD15_NB_PMC0 :: u32 where "MSR_AMD15_NB_PMC0 \<equiv> 0xC0010241"
abbreviation (input) MSR_AMD15_NB_PMC1 :: u32 where "MSR_AMD15_NB_PMC1 \<equiv> 0xC0010243"
abbreviation (input) MSR_AMD15_NB_PMC2 :: u32 where "MSR_AMD15_NB_PMC2 \<equiv> 0xC0010245"
abbreviation (input) MSR_AMD15_NB_PMC3 :: u32 where "MSR_AMD15_NB_PMC3 \<equiv> 0xC0010247"
abbreviation (input) MSR_AMD16_PERFEVTSEL0 :: u32 where "MSR_AMD16_PERFEVTSEL0 \<equiv> 0xC0010000"
abbreviation (input) MSR_AMD16_PERFEVTSEL1 :: u32 where "MSR_AMD16_PERFEVTSEL1 \<equiv> 0xC0010001"
abbreviation (input) MSR_AMD16_PERFEVTSEL2 :: u32 where "MSR_AMD16_PERFEVTSEL2 \<equiv> 0xC0010002"
abbreviation (input) MSR_AMD16_PERFEVTSEL3 :: u32 where "MSR_AMD16_PERFEVTSEL3 \<equiv> 0xC0010003"
abbreviation (input) MSR_AMD16_PMC0 :: u32 where "MSR_AMD16_PMC0 \<equiv> 0xC0010004"
abbreviation (input) MSR_AMD16_PMC1 :: u32 where "MSR_AMD16_PMC1 \<equiv> 0xC0010005"
abbreviation (input) MSR_AMD16_PMC2 :: u32 where "MSR_AMD16_PMC2 \<equiv> 0xC0010006"
abbreviation (input) MSR_AMD16_PMC3 :: u32 where "MSR_AMD16_PMC3 \<equiv> 0xC0010007"
abbreviation (input) MSR_AMD16_L2_PERFEVTSEL0 :: u32 where "MSR_AMD16_L2_PERFEVTSEL0 \<equiv> 0xC0010230"
abbreviation (input) MSR_AMD16_L2_PERFEVTSEL1 :: u32 where "MSR_AMD16_L2_PERFEVTSEL1 \<equiv> 0xC0010232"
abbreviation (input) MSR_AMD16_L2_PERFEVTSEL2 :: u32 where "MSR_AMD16_L2_PERFEVTSEL2 \<equiv> 0xC0010234"
abbreviation (input) MSR_AMD16_L2_PERFEVTSEL3 :: u32 where "MSR_AMD16_L2_PERFEVTSEL3 \<equiv> 0xC0010236"
abbreviation (input) MSR_AMD16_L2_PMC0 :: u32 where "MSR_AMD16_L2_PMC0 \<equiv> 0xC0010231"
abbreviation (input) MSR_AMD16_L2_PMC1 :: u32 where "MSR_AMD16_L2_PMC1 \<equiv> 0xC0010233"
abbreviation (input) MSR_AMD16_L2_PMC2 :: u32 where "MSR_AMD16_L2_PMC2 \<equiv> 0xC0010235"
abbreviation (input) MSR_AMD16_L2_PMC3 :: u32 where "MSR_AMD16_L2_PMC3 \<equiv> 0xC0010237"
abbreviation (input) MSR_AMD16_NB_PERFEVTSEL0 :: u32 where "MSR_AMD16_NB_PERFEVTSEL0 \<equiv> 0xC0010240"
abbreviation (input) MSR_AMD16_NB_PERFEVTSEL1 :: u32 where "MSR_AMD16_NB_PERFEVTSEL1 \<equiv> 0xC0010242"
abbreviation (input) MSR_AMD16_NB_PERFEVTSEL2 :: u32 where "MSR_AMD16_NB_PERFEVTSEL2 \<equiv> 0xC0010244"
abbreviation (input) MSR_AMD16_NB_PERFEVTSEL3 :: u32 where "MSR_AMD16_NB_PERFEVTSEL3 \<equiv> 0xC0010246"
abbreviation (input) MSR_AMD16_NB_PMC0 :: u32 where "MSR_AMD16_NB_PMC0 \<equiv> 0xC0010241"
abbreviation (input) MSR_AMD16_NB_PMC1 :: u32 where "MSR_AMD16_NB_PMC1 \<equiv> 0xC0010243"
abbreviation (input) MSR_AMD16_NB_PMC2 :: u32 where "MSR_AMD16_NB_PMC2 \<equiv> 0xC0010245"
abbreviation (input) MSR_AMD16_NB_PMC3 :: u32 where "MSR_AMD16_NB_PMC3 \<equiv> 0xC0010247"

end
