(* ===== verification/AccessPolicy.thy ===== *)
theory AccessPolicy
  imports Registers
begin

text \<open>
  The register allow-lists of the access daemon
  (\<open>src/src/access-daemon/accessDaemon.c\<close>, \<open>allowed_*\<close> and \<open>allowed_pci_*\<close>), with the PCI
  device types of \<open>src/src/includes/pci_types.h\<close>. The lemmas order the policies by inclusion and
  show that none of them exposes the model specific registers that control the processor mode.
\<close>

section \<open>PCI device types\<close>

datatype PciDeviceType = NODEVTYPE | R3QPI | R2PCIE | IMC | HA | QPI | IRP | MAX_NUM_PCI_TYPES

definition MAX_NUM_PCI_DEVICES :: nat where
  "MAX_NUM_PCI_DEVICES = 25"

text \<open>
  Device indices travel through the socket as 32-bit numbers, so they are words; index 0 is the
  MSR pseudo device.
\<close>

abbreviation (input) MSR_DEV :: u32 where "MSR_DEV \<equiv> 0"

section \<open>MSR allow-lists\<close>

definition allowed_intel :: "u32 \<Rightarrow> bool" where
  "allowed_intel reg \<longleftrightarrow>
     (reg AND 0x0F8) = 0x0C0 \<or>
     (reg AND 0xFF0) = 0x180 \<or>
     (reg AND 0xF00) = 0x300 \<or>
     (reg AND 0xF00) = 0xC00 \<or>
     (reg AND 0xF00) = 0xD00 \<or>
     (reg AND 0xF00) = 0xE00 \<or>
     (reg AND 0xF00) = 0xF00 \<or>
     reg = 0x1A0 \<or>
     reg = 0x1A4 \<or>
     reg = 0x0CE \<or>
     reg = 0x19C \<or>
     reg = 0x1A2 \<or>
     reg = 0x1AD \<or>
     reg = 0x1A6 \<or>
     reg = 0x1A7"

definition allowed_sandybridge :: "u32 \<Rightarrow> bool" where
  "allowed_sandybridge reg \<longleftrightarrow> allowed_intel reg \<or> (reg AND 0xF00) = 0x600"

definition allowed_haswell :: "u32 \<Rightarrow> bool" where
  "allowed_haswell reg \<longleftrightarrow>
     allowed_intel reg \<or> allowed_sandybridge reg \<or> (reg AND 0xF00) = 0x700"

definition allowed_silvermont :: "u32 \<Rightarrow> bool" where
  "allowed_silvermont reg \<longleftrightarrow>
     (reg AND 0x0F8) = 0x0C0 \<or>
     (reg AND 0xFF0) = 0x180 \<or>
     (reg AND 0xF00) = 0x300 \<or>
     (reg AND 0xF00) = 0x600 \<or>
     (reg AND 0xF00) = 0xC00 \<or>
     (reg AND 0xF00) = 0xD00 \<or>
     reg = 0x1A0 \<or>
     reg = 0x0CE \<or>
     reg = 0x1AD \<or>
     reg = 0x19C \<or>
     reg = 0x1A2 \<or>
     reg = 0x1A6 \<or>
     reg = 0x1A7"

definition allowed_amd :: "u32 \<Rightarrow> bool" where
  "allowed_amd reg \<longleftrightarrow> (reg AND 0xFFFFFFF0) = 0xC0010000"

definition allowed_amd15 :: "u32 \<Rightarrow> bool" where
  "allowed_amd15 reg \<longleftrightarrow>
     (reg AND 0xFFFFFFF0) = 0xC0010000 \<or>
     (reg AND 0xFFFFFFF0) = 0xC0010200 \<or>
     (reg AND 0xFFFFFFF8) = 0xC0010240"

definition allowed_amd16 :: "u32 \<Rightarrow> bool" where
  "allowed_amd16 reg \<longleftrightarrow>
     (reg AND 0xFFFFFFF0) = 0xC0010000 \<or>
     (reg AND 0xFFFFFFF8) = 0xC0010240"

section \<open>PCI allow-lists\<close>

fun allowed_pci_sandybridge :: "PciDeviceType \<Rightarrow> u32 \<Rightarrow> bool" where
  "allowed_pci_sandybridge NODEVTYPE reg = True"
| "allowed_pci_sandybridge R3QPI reg \<longleftrightarrow>
     reg = PCI_UNC_R3QPI_PMON_BOX_CTL \<or>
     reg = PCI_UNC_R3QPI_PMON_BOX_STATUS \<or>
     reg = PCI_UNC_R3QPI_PMON_CTL_0 \<or>
     reg = PCI_UNC_R3QPI_PMON_CTL_1 \<or>
     reg = PCI_UNC_R3QPI_PMON_CTL_2 \<or>
     reg = PCI_UNC_R3QPI_PMON_CTR_0_A \<or>
     reg = PCI_UNC_R3QPI_PMON_CTR_1_A \<or>
     reg = PCI_UNC_R3QPI_PMON_CTR_2_A \<or>
     reg = PCI_UNC_R3QPI_PMON_CTR_0_B \<or>
     reg = PCI_UNC_R3QPI_PMON_CTR_1_B \<or>
     reg = PCI_UNC_R3QPI_PMON_CTR_2_B"
| "allowed_pci_sandybridge R2PCIE reg \<longleftrightarrow>
     reg = PCI_UNC_R2PCIE_PMON_BOX_CTL \<or>
     reg = PCI_UNC_R2PCIE_PMON_BOX_STATUS \<or>
     reg = PCI_UNC_R2PCIE_PMON_CTL_0 \<or>
     reg = PCI_UNC_R2PCIE_PMON_CTL_1 \<or>
     reg = PCI_UNC_R2PCIE_PMON_CTL_2 \<or>
     reg = PCI_UNC_R2PCIE_PMON_CTL_3 \<or>
     reg = PCI_UNC_R2PCIE_PMON_CTR_0_A \<or>
     reg = PCI_UNC_R2PCIE_PMON_CTR_1_A \<or>
     reg = PCI_UNC_R2PCIE_PMON_CTR_2_A \<or>
     reg = PCI_UNC_R2PCIE_PMON_CTR_3_A \<or>
     reg = PCI_UNC_R2PCIE_PMON_CTR_0_B \<or>
     reg = PCI_UNC_R2PCIE_PMON_CTR_1_B \<or>
     reg = PCI_UNC_R2PCIE_PMON_CTR_2_B \<or>
     reg = PCI_UNC_R2PCIE_PMON_CTR_3_B"
| "allowed_pci_sandybridge IMC reg \<longleftrightarrow>
     reg = PCI_UNC_MC_PMON_BOX_CTL \<or>
     reg = PCI_UNC_MC_PMON_BOX_STATUS \<or>
     reg = PCI_UNC_MC_PMON_CTL_0 \<or>
     reg = PCI_UNC_MC_PMON_CTL_1 \<or>
     reg = PCI_UNC_MC_PMON_CTL_2 \<or>
     reg = PCI_UNC_MC_PMON_CTL_3 \<or>
     reg = PCI_UNC_MC_PMON_CTR_0_A \<or>
     reg = PCI_UNC_MC_PMON_CTR_1_A \<or>
     reg = PCI_UNC_MC_PMON_CTR_2_A \<or>
     reg = PCI_UNC_MC_PMON_CTR_3_A \<or>
     reg = PCI_UNC_MC_PMON_CTR_0_B \<or>
     reg = PCI_UNC_MC_PMON_CTR_1_B \<or>
     reg = PCI_UNC_MC_PMON_CTR_2_B \<or>
     reg = PCI_UNC_MC_PMON_CTR_3_B \<or>
     reg = PCI_UNC_MC_PMON_FIXED_CTL \<or>
     reg = PCI_UNC_MC_PMON_FIXED_CTR_A \<or>
     reg = PCI_UNC_MC_PMON_FIXED_CTR_B"
| "allowed_pci_sandybridge HA reg \<longleftrightarrow>
     reg = PCI_UNC_HA_PMON_BOX_CTL \<or>
     reg = PCI_UNC_HA_PMON_BOX_STATUS \<or>
     reg = PCI_UNC_HA_PMON_CTL_0 \<or>
     reg = PCI_UNC_HA_PMON_CTL_1 \<or>
     reg = PCI_UNC_HA_PMON_CTL_2 \<or>
     reg = PCI_UNC_HA_PMON_CTL_3 \<or>
     reg = PCI_UNC_HA_PMON_CTR_0_A \<or>
     reg = PCI_UNC_HA_PMON_CTR_1_A \<or>
     reg = PCI_UNC_HA_PMON_CTR_2_A \<or>
     reg = PCI_UNC_HA_PMON_CTR_3_A \<or>
     reg = PCI_UNC_HA_PMON_CTR_0_B \<or>
     reg = PCI_UNC_HA_PMON_CTR_1_B \<or>
     reg = PCI_UNC_HA_PMON_CTR_2_B \<or>
     reg = PCI_UNC_HA_PMON_CTR_3_B \<or>
     reg = PCI_UNC_HA_PMON_OPCODEMATCH \<or>
     reg = PCI_UNC_HA_PMON_ADDRMATCH0 \<or>
     reg = PCI_UNC_HA_PMON_ADDRMATCH1"
| "allowed_pci_sandybridge QPI reg \<longleftrightarrow>
     reg = PCI_UNC_QPI_PMON_BOX_CTL \<or>
     reg = PCI_UNC_QPI_PMON_BOX_STATUS \<or>
     reg = PCI_UNC_QPI_PMON_CTL_0 \<or>
     reg = PCI_UNC_QPI_PMON_CTL_1 \<or>
     reg = PCI_UNC_QPI_PMON_CTL_2 \<or>
     reg = PCI_UNC_QPI_PMON_CTL_3 \<or>
     reg = PCI_UNC_QPI_PMON_CTR_0_A \<or>
     reg = PCI_UNC_QPI_PMON_CTR_1_A \<or>
     reg = PCI_UNC_QPI_PMON_CTR_2_A \<or>
     reg = PCI_UNC_QPI_PMON_CTR_3_A \<or>
     reg = PCI_UNC_QPI_PMON_CTR_0_B \<or>
     reg = PCI_UNC_QPI_PMON_CTR_1_B \<or>
     reg = PCI_UNC_QPI_PMON_CTR_2_B \<or>
     reg = PCI_UNC_QPI_PMON_CTR_3_B \<or>
     reg = PCI_UNC_QPI_PMON_MASK_0 \<or>
     reg = PCI_UNC_QPI_PMON_MASK_1 \<or>
     reg = PCI_UNC_QPI_PMON_MATCH_0 \<or>
     reg = PCI_UNC_QPI_PMON_MATCH_1 \<or>
     reg = PCI_UNC_QPI_RATE_STATUS"
| "allowed_pci_sandybridge IRP reg \<longleftrightarrow>
     reg = PCI_UNC_IRP_PMON_BOX_STATUS \<or>
     reg = PCI_UNC_IRP_PMON_BOX_CTL \<or>
     reg = PCI_UNC_IRP0_PMON_CTL_0 \<or>
     reg = PCI_UNC_IRP0_PMON_CTL_1 \<or>
     reg = PCI_UNC_IRP0_PMON_CTR_0 \<or>
     reg = PCI_UNC_IRP0_PMON_CTR_1 \<or>
     reg = PCI_UNC_IRP1_PMON_CTL_0 \<or>
     reg = PCI_UNC_IRP1_PMON_CTL_1 \<or>
     reg = PCI_UNC_IRP1_PMON_CTR_0 \<or>
     reg = PCI_UNC_IRP1_PMON_CTR_1"
| "allowed_pci_sandybridge _ reg = False"

fun allowed_pci_haswell :: "PciDeviceType \<Rightarrow> u32 \<Rightarrow> bool" where
  "allowed_pci_haswell NODEVTYPE reg = True"
| "allowed_pci_haswell R3QPI reg \<longleftrightarrow>
     reg = PCI_UNC_R3QPI_PMON_BOX_CTL \<or>
     reg = PCI_UNC_R3QPI_PMON_BOX_STATUS \<or>
     reg = PCI_UNC_R3QPI_PMON_CTL_0 \<or>
     reg = PCI_UNC_R3QPI_PMON_CTL_1 \<or>
     reg = PCI_UNC_R3QPI_PMON_CTL_2 \<or>
     reg = PCI_UNC_R3QPI_PMON_CTR_0_A \<or>
     reg = PCI_UNC_R3QPI_PMON_CTR_1_A \<or>
     reg = PCI_UNC_R3QPI_PMON_CTR_2_A \<or>
     reg = PCI_UNC_R3QPI_PMON_CTR_0_B \<or>
     reg = PCI_UNC_R3QPI_PMON_CTR_1_B \<or>
     reg = PCI_UNC_R3QPI_PMON_CTR_2_B"
| "allowed_pci_haswell R2PCIE reg \<longleftrightarrow>
     reg = PCI_UNC_R2PCIE_PMON_BOX_CTL \<or>
     reg = PCI_UNC_R2PCIE_PMON_BOX_STATUS \<or>
     reg = PCI_UNC_R2PCIE_PMON_CTL_0 \<or>
     reg = PCI_UNC_R2PCIE_PMON_CTL_1 \<or>
     reg = PCI_UNC_R2PCIE_PMON_CTL_2 \<or>
     reg = PCI_UNC_R2PCIE_PMON_CTL_3 \<or>
     reg = PCI_UNC_R2PCIE_PMON_CTR_0_A \<or>
     reg = PCI_UNC_R2PCIE_PMON_CTR_1_A \<or>
     reg = PCI_UNC_R2PCIE_PMON_CTR_2_A \<or>
     reg = PCI_UNC_R2PCIE_PMON_CTR_3_A \<or>
     reg = PCI_UNC_R2PCIE_PMON_CTR_0_B \<or>
     reg = PCI_UNC_R2PCIE_PMON_CTR_1_B \<or>
     reg = PCI_UNC_R2PCIE_PMON_CTR_2_B \<or>
     reg = PCI_UNC_R2PCIE_PMON_CTR_3_B"
| "allowed_pci_haswell IMC reg \<longleftrightarrow>
     reg = PCI_UNC_MC_PMON_BOX_CTL \<or>
     reg = PCI_UNC_MC_PMON_BOX_STATUS \<or>
     reg = PCI_UNC_MC_PMON_CTL_0 \<or>
     reg = PCI_UNC_MC_PMON_CTL_1 \<or>
     reg = PCI_UNC_MC_PMON_CTL_2 \<or>
     reg = PCI_UNC_MC_PMON_CTL_3 \<or>
     reg = PCI_UNC_MC_PMON_CTR_0_A \<or>
     reg = PCI_UNC_MC_PMON_CTR_1_A \<or>
     reg = PCI_UNC_MC_PMON_CTR_2_A \<or>
     reg = PCI_UNC_MC_PMON_CTR_3_A \<or>
     reg = PCI_UNC_MC_PMON_CTR_0_B \<or>
     reg = PCI_UNC_MC_PMON_CTR_1_B \<or>
     reg = PCI_UNC_MC_PMON_CTR_2_B \<or>
     reg = PCI_UNC_MC_PMON_CTR_3_B \<or>
     reg = PCI_UNC_MC_PMON_FIXED_CTL \<or>
     reg = PCI_UNC_MC_PMON_FIXED_CTR_A \<or>
     reg = PCI_UNC_MC_PMON_FIXED_CTR_B"
| "allowed_pci_haswell HA reg \<longleftrightarrow>
     reg = PCI_UNC_HA_PMON_BOX_CTL \<or>
     reg = PCI_UNC_HA_PMON_BOX_STATUS \<or>
     reg = PCI_UNC_HA_PMON_CTL_0 \<or>
     reg = PCI_UNC_HA_PMON_CTL_1 \<or>
     reg = PCI_UNC_HA_PMON_CTL_2 \<or>
     reg = PCI_UNC_HA_PMON_CTL_3 \<or>
     reg = PCI_UNC_HA_PMON_CTR_0_A \<or>
     reg = PCI_UNC_HA_PMON_CTR_1_A \<or>
     reg = PCI_UNC_HA_PMON_CTR_2_A \<or>
     reg = PCI_UNC_HA_PMON_CTR_3_A \<or>
     reg = PCI_UNC_HA_PMON_CTR_0_B \<or>
     reg = PCI_UNC_HA_PMON_CTR_1_B \<or>
     reg = PCI_UNC_HA_PMON_CTR_2_B \<or>
     reg = PCI_UNC_HA_PMON_CTR_3_B \<or>
     reg = PCI_UNC_HA_PMON_OPCODEMATCH \<or>
     reg = PCI_UNC_HA_PMON_ADDRMATCH0 \<or>
     reg = PCI_UNC_HA_PMON_ADDRMATCH1"
| "allowed_pci_haswell QPI reg \<longleftrightarrow>
     reg = PCI_UNC_V3_QPI_PMON_BOX_CTL \<or>
     reg = PCI_UNC_V3_QPI_PMON_BOX_STATUS \<or>
     reg = PCI_UNC_V3_QPI_PMON_CTL_0 \<or>
     reg = PCI_UNC_V3_QPI_PMON_CTL_1 \<or>
     reg = PCI_UNC_V3_QPI_PMON_CTL_2 \<or>
     reg = PCI_UNC_V3_QPI_PMON_CTL_3 \<or>
     reg = PCI_UNC_V3_QPI_PMON_CTR_0_A \<or>
     reg = PCI_UNC_V3_QPI_PMON_CTR_1_A \<or>
     reg = PCI_UNC_V3_QPI_PMON_CTR_2_A \<or>
     reg = PCI_UNC_V3_QPI_PMON_CTR_3_A \<or>
     reg = PCI_UNC_V3_QPI_PMON_CTR_0_B \<or>
     reg = PCI_UNC_V3_QPI_PMON_CTR_1_B \<or>
     reg = PCI_UNC_V3_QPI_PMON_CTR_2_B \<or>
     reg = PCI_UNC_V3_QPI_PMON_CTR_3_B \<or>
     reg = PCI_UNC_V3_QPI_PMON_RX_MASK_0 \<or>
     reg = PCI_UNC_V3_QPI_PMON_RX_MASK_1 \<or>
     reg = PCI_UNC_V3_QPI_PMON_RX_MATCH_0 \<or>
     reg = PCI_UNC_V3_QPI_PMON_RX_MATCH_1 \<or>
     reg = PCI_UNC_V3_QPI_PMON_TX_MASK_0 \<or>
     reg = PCI_UNC_V3_QPI_PMON_TX_MASK_1 \<or>
     reg = PCI_UNC_V3_QPI_PMON_TX_MATCH_0 \<or>
     reg = PCI_UNC_V3_QPI_PMON_TX_MATCH_1 \<or>
     reg = PCI_UNC_V3_QPI_RATE_STATUS \<or>
     reg = PCI_UNC_V3_QPI_LINK_LLR \<or>
     reg = PCI_UNC_V3_QPI_LINK_IDLE"
| "allowed_pci_haswell _ reg = False"

section \<open>Choice of the policy\<close>

text \<open>
  The first part of \<open>main\<close> decodes the family and model from register \<open>eax\<close> of CPUID leaf 1 and
  selects the allow-lists; \<^term>\<open>None\<close> is the exit for an unsupported processor.
\<close>

definition cpuid_family :: "u32 \<Rightarrow> u32" where
  "cpuid_family eax = ((drop_bit 8 eax AND 0xF) + (drop_bit 20 eax AND 0xFF))"

definition cpuid_model :: "u32 \<Rightarrow> u32" where
  "cpuid_model eax = push_bit 4 (drop_bit 16 eax AND 0xF) + (drop_bit 4 eax AND 0xF)"

record daemon_policy =
  dp_allowed :: "u32 \<Rightarrow> bool"
  dp_allowedPci :: "(PciDeviceType \<Rightarrow> u32 \<Rightarrow> bool) option"
  dp_isPCIUncore :: bool

definition select_policy :: "u32 \<Rightarrow> u32 \<Rightarrow> daemon_policy option" where
  "select_policy family model =
    (if family = P6_FAMILY then
       Some (if model = SANDYBRIDGE \<or> model = IVYBRIDGE then
               \<lparr>dp_allowed = allowed_sandybridge, dp_allowedPci = None, dp_isPCIUncore = False\<rparr>
             else if model = SANDYBRIDGE_EP \<or> model = IVYBRIDGE_EP then
               \<lparr>dp_allowed = allowed_sandybridge,
                dp_allowedPci = Some allowed_pci_sandybridge, dp_isPCIUncore = True\<rparr>
             else if model = HASWELL \<or> model = HASWELL_M1 \<or> model = HASWELL_M2 \<or>
                     model = BROADWELL \<or> model = BROADWELL_E \<or>
                     model = SKYLAKE1 \<or> model = SKYLAKE2 then
               \<lparr>dp_allowed = allowed_haswell, dp_allowedPci = None, dp_isPCIUncore = False\<rparr>
             else if model = BROADWELL_D then
               \<lparr>dp_allowed = allowed_haswell,
                dp_allowedPci = Some allowed_pci_haswell, dp_isPCIUncore = True\<rparr>
             else if model = HASWELL_EP then
               \<lparr>dp_allowed = allowed_haswell,
                dp_allowedPci = Some allowed_pci_haswell, dp_isPCIUncore = True\<rparr>
             else if model = ATOM_SILVERMONT_C \<or> model = ATOM_SILVERMONT_E \<or>
                     model = ATOM_SILVERMONT_Z1 \<or> model = ATOM_SILVERMONT_Z2 \<or>
                     model = ATOM_SILVERMONT_F \<or> model = ATOM_SILVERMONT_AIR then
               \<lparr>dp_allowed = allowed_silvermont, dp_allowedPci = None, dp_isPCIUncore = False\<rparr>
             else
               \<lparr>dp_allowed = allowed_intel, dp_allowedPci = None, dp_isPCIUncore = False\<rparr>)
     else if family = K8_FAMILY \<or> family = K10_FAMILY then
       Some \<lparr>dp_allowed = allowed_amd, dp_allowedPci = None, dp_isPCIUncore = False\<rparr>
     else if family = K15_FAMILY then
       Some \<lparr>dp_allowed = allowed_amd15, dp_allowedPci = None, dp_isPCIUncore = False\<rparr>
     else if family = K16_FAMILY then
       Some \<lparr>dp_allowed = allowed_amd16, dp_allowedPci = None, dp_isPCIUncore = False\<rparr>
     else None)"

section \<open>What the policies exclude\<close>

lemmas msr_policy_defs =
  allowed_haswell_def allowed_sandybridge_def allowed_intel_def allowed_silvermont_def
  allowed_amd_def allowed_amd15_def allowed_amd16_def

lemma allowed_intel_sandybridge: "allowed_intel reg \<Longrightarrow> allowed_sandybridge reg"
  by (simp add: allowed_sandybridge_def)

lemma allowed_sandybridge_haswell: "allowed_sandybridge reg \<Longrightarrow> allowed_haswell reg"
  by (simp add: allowed_haswell_def)

lemma allowed_silvermont_sandybridge: "allowed_silvermont reg \<Longrightarrow> allowed_sandybridge reg"
  by (auto simp: allowed_silvermont_def allowed_sandybridge_def allowed_intel_def)

lemma allowed_amd16_amd15: "allowed_amd16 reg \<Longrightarrow> allowed_amd15 reg"
  by (auto simp: allowed_amd15_def allowed_amd16_def)

lemma select_policy_allowed:
  assumes "select_policy family model = Some p"
  shows "dp_allowed p \<in> {allowed_intel, allowed_sandybridge, allowed_haswell, allowed_silvermont,
    allowed_amd, allowed_amd15, allowed_amd16}"
  using assms by (auto simp: select_policy_def split: if_splits)

lemma select_policy_uncore:
  assumes "select_policy family model = Some p" "dp_isPCIUncore p"
  shows "dp_allowedPci p \<in> {Some allowed_pci_sandybridge, Some allowed_pci_haswell}"
  using assms by (auto simp: select_policy_def split: if_splits)

text \<open>
  Registers whose modification would take over the machine: the local APIC base, the feature
  control and microcode update triggers, the SYSENTER entry points, the extended feature enables,
  the SYSCALL entry points and the segment base registers.
\<close>

definition system_control_msrs :: "u32 list" where
  "system_control_msrs =
     [0x1B, 0x3A, 0x79, 0x174, 0x175, 0x176, 0xC0000080, 0xC0000081, 0xC0000082, 0xC0000083,
      0xC0000084, 0xC0000100, 0xC0000101, 0xC0000102]"

lemma haswell_rejects_system_msrs: "reg \<in> set system_control_msrs \<Longrightarrow> \<not> allowed_haswell reg"
  by (auto simp: system_control_msrs_def msr_policy_defs)

lemma amd15_rejects_system_msrs: "reg \<in> set system_control_msrs \<Longrightarrow> \<not> allowed_amd15 reg"
  by (auto simp: system_control_msrs_def msr_policy_defs)

text \<open>
  Property C2. Whatever processor the daemon runs on, the allow-list it selects rejects every
  register that controls the processor mode or a kernel entry point.
\<close>

theorem policy_rejects_system_msrs:
  assumes "select_policy family model = Some p" "reg \<in> set system_control_msrs"
  shows "\<not> dp_allowed p reg"
proof -
  have intel: "\<not> allowed_haswell reg" and amd: "\<not> allowed_amd15 reg"
    using assms(2) by (rule haswell_rejects_system_msrs, rule amd15_rejects_system_msrs)
  then have "\<not> allowed_intel reg" "\<not> allowed_sandybridge reg" "\<not> allowed_silvermont reg"
      "\<not> allowed_amd16 reg" "\<not> allowed_amd reg"
    by (auto dest: allowed_intel_sandybridge allowed_silvermont_sandybridge
        allowed_sandybridge_haswell allowed_amd16_amd15 simp: allowed_amd_def allowed_amd15_def)
  with intel amd select_policy_allowed [OF assms(1)] show ?thesis by auto
qed

theorem policy_rejects_system_msrs_witness:
  "\<exists>p. select_policy P6_FAMILY HASWELL_EP = Some p \<and> \<not> dp_allowed p 0xC0000082"
proof -
  obtain p where p: "select_policy P6_FAMILY HASWELL_EP = Some p"
    by (simp add: select_policy_def)
  have "\<not> dp_allowed p 0xC0000082"
    by (rule policy_rejects_system_msrs [OF p]) (simp add: system_control_msrs_def)
  with p show ?thesis by blast
qed

end
