(* ===== verification/AccessDaemon.thy ===== *)
theory AccessDaemon
  imports AccessPolicy
begin

text \<open>
  The access daemon \<open>src/src/access-daemon/accessDaemon.c\<close>: its device tables, the handlers for
  MSR and PCI requests, the start-up that opens the device files, and the request loop. The
  kernel (opening, reading and writing device files, sending a reply) is a parameter
  \<open>'k kernel_ops\<close> over an arbitrary kernel state; every call of the source appears as a call of one
  of its operations, so that properties hold for any behaviour of the device files. Log messages
  are left out.
\<close>

section \<open>Data\<close>

record PciDevice =
  pci_type :: PciDeviceType
  pci_path :: "string option"
  pci_name :: "string option"
  pci_likwid_name :: "string option"
  pci_devid :: u32
  pci_online :: bool

definition pci_device ::
  "PciDeviceType \<Rightarrow> string \<Rightarrow> string \<Rightarrow> string option \<Rightarrow> u32 \<Rightarrow> PciDevice" where
  "pci_device t path name lname devid =
     \<lparr>pci_type = t, pci_path = Some path, pci_name = Some name, pci_likwid_name = lname,
      pci_devid = devid, pci_online = False\<rparr>"

text \<open>Entries without an initialiser are zero: no type, NULL strings.\<close>

definition pci_zero :: PciDevice where
  "pci_zero = \<lparr>pci_type = NODEVTYPE, pci_path = None, pci_name = None, pci_likwid_name = None,
     pci_devid = 0, pci_online = False\<rparr>"

definition pci_table :: "(nat \<times> PciDevice) list \<Rightarrow> PciDevice list" where
  "pci_table entries =
     map (\<lambda>i. case map_of entries i of None \<Rightarrow> pci_zero | Some d \<Rightarrow> d) [0..<MAX_NUM_PCI_DEVICES]"

definition sandybridgeEP_pci_devices :: "PciDevice list" where
  "sandybridgeEP_pci_devices = pci_table [
      (0, pci_device NODEVTYPE '''' '''' (Some '''') 0),
      (1, pci_device R3QPI ''13.5'' ''PCI_R3QPI_DEVICE_LINK_0'' (Some ''RBOX0'') 0x3c44),
      (2, pci_device R3QPI ''13.6'' ''PCI_R3QPI_DEVICE_LINK_1'' (Some ''RBOX1'') 0x3c45),
      (4, pci_device R2PCIE ''13.1'' ''PCI_R2PCIE_DEVICE'' (Some ''PBOX0'') 0x3c43),
      (5, pci_device IMC ''10.0'' ''PCI_IMC_DEVICE_CH_0'' (Some ''MBOX0'') 0x3cb0),
      (6, pci_device IMC ''10.1'' ''PCI_IMC_DEVICE_CH_1'' (Some ''MBOX1'') 0x3cb1),
      (7, pci_device IMC ''10.4'' ''PCI_IMC_DEVICE_CH_2'' (Some ''MBOX2'') 0x3cb4),
      (8, pci_device IMC ''10.5'' ''PCI_IMC_DEVICE_CH_3'' (Some ''MBOX3'') 0x3cb5),
      (9, pci_device HA ''0e.1'' ''PCI_HA_DEVICE'' (Some ''BBOX'') 0x3c46),
      (11, pci_device QPI ''08.2'' ''PCI_QPI_DEVICE_PORT_0'' (Some ''SBOX0'') 0x3c41),
      (12, pci_device QPI ''09.2'' ''PCI_QPI_DEVICE_PORT_1'' (Some ''SBOX1'') 0x3c42),
      (14, pci_device QPI ''08.6'' ''PCI_QPI_MASK_DEVICE_PORT_0'' None 0x3c86),
      (15, pci_device QPI ''09.6'' ''PCI_QPI_MASK_DEVICE_PORT_1'' None 0x3c96),
      (17, pci_device QPI ''08.0'' ''PCI_QPI_MISC_DEVICE_PORT_0'' (Some ''SBOX0FIX'') 0x3c80),
      (18, pci_device QPI ''09.0'' ''PCI_QPI_MISC_DEVICE_PORT_1'' (Some ''SBOX1FIX'') 0x3c91)]"

definition ivybridgeEP_pci_devices :: "PciDevice list" where
  "ivybridgeEP_pci_devices = pci_table [
      (0, pci_device NODEVTYPE '''' '''' (Some '''') 0),
      (1, pci_device R3QPI ''13.5'' ''PCI_R3QPI_DEVICE_LINK_0'' (Some ''RBOX0'') 0x0e36),
      (2, pci_device R3QPI ''13.6'' ''PCI_R3QPI_DEVICE_LINK_1'' (Some ''RBOX1'') 0x0e37),
      (3, pci_device R3QPI ''12.5'' ''PCI_R3QPI_DEVICE_LINK_2'' (Some ''RBOX2'') 0x0e3e),
      (4, pci_device R2PCIE ''13.1'' ''PCI_R2PCIE_DEVICE'' (Some ''PBOX0'') 0x0e34),
      (5, pci_device IMC ''10.4'' ''PCI_IMC_DEVICE_0_CH_0'' (Some ''MBOX0'') 0x0eb4),
      (6, pci_device IMC ''10.5'' ''PCI_IMC_DEVICE_0_CH_1'' (Some ''MBOX1'') 0x0eb5),
      (7, pci_device IMC ''10.0'' ''PCI_IMC_DEVICE_0_CH_2'' (Some ''MBOX2'') 0x0eb0),
      (8, pci_device IMC ''10.1'' ''PCI_IMC_DEVICE_0_CH_3'' (Some ''MBOX3'') 0x0eb1),
      (9, pci_device HA ''0e.1'' ''PCI_HA_DEVICE_0'' (Some ''BBOX0'') 0x0e30),
      (10, pci_device HA ''1c.1'' ''PCI_HA_DEVICE_1'' (Some ''BBOX1'') 0x0e38),
      (20, pci_device IMC ''1e.4'' ''PCI_IMC_DEVICE_1_CH_0'' (Some ''MBOX4'') 0x0ef4),
      (21, pci_device IMC ''1e.5'' ''PCI_IMC_DEVICE_1_CH_1'' (Some ''MBOX5'') 0x0ef5),
      (22, pci_device IMC ''1e.0'' ''PCI_IMC_DEVICE_1_CH_2'' (Some ''MBOX6'') 0x0ef0),
      (23, pci_device IMC ''1e.1'' ''PCI_IMC_DEVICE_1_CH_3'' (Some ''MBOX7'') 0x0ef1),
      (24, pci_device IRP ''05.6'' ''PCI_IRP_DEVICE'' None 0x0e39),
      (11, pci_device QPI ''08.2'' ''PCI_QPI_DEVICE_PORT_0'' (Some ''SBOX0'') 0x0e32),
      (12, pci_device QPI ''09.2'' ''PCI_QPI_DEVICE_PORT_1'' (Some ''SBOX1'') 0x0e33),
      (13, pci_device QPI ''0a.2'' ''PCI_QPI_DEVICE_PORT_2'' (Some ''SBOX2'') 0x0e3a),
      (14, pci_device QPI ''08.6'' ''PCI_QPI_MASK_DEVICE_PORT_0'' None 0x0e86),
      (15, pci_device QPI ''09.6'' ''PCI_QPI_MASK_DEVICE_PORT_1'' None 0x0e96),
      (16, pci_device QPI ''0a.6'' ''PCI_QPI_MASK_DEVICE_PORT_2'' None 0x0ec6),
      (17, pci_device QPI ''08.0'' ''PCI_QPI_MISC_DEVICE_PORT_0/1'' (Some ''SBOX01FIX'') 0x0e80),
      (19, pci_device QPI ''0a.0'' ''PCI_QPI_MISC_DEVICE_PORT_2'' (Some ''SBOX2FIX'') 0x0ec0)]"

definition haswellEP_pci_devices :: "PciDevice list" where
  "haswellEP_pci_devices = pci_table [
      (0, pci_device NODEVTYPE '''' ''MSR'' (Some '''') 0),
      (1, pci_device R3QPI ''0b.1'' ''PCI_R3QPI_DEVICE_LINK_0'' (Some ''RBOX0'') 0x2F36),
      (2, pci_device R3QPI ''0b.2'' ''PCI_R3QPI_DEVICE_LINK_1'' (Some ''RBOX1'') 0x2F37),
      (4, pci_device R2PCIE ''10.1'' ''PCI_R2PCIE_DEVICE'' (Some ''PBOX0'') 0x2F34),
      (5, pci_device IMC ''14.0'' ''PCI_IMC_DEVICE_0_CH_0'' (Some ''MBOX0'') 0x2FB4),
      (6, pci_device IMC ''14.1'' ''PCI_IMC_DEVICE_0_CH_1'' (Some ''MBOX1'') 0x2FB5),
      (7, pci_device IMC ''15.0'' ''PCI_IMC_DEVICE_0_CH_2'' (Some ''MBOX2'') 0x2FB0),
      (8, pci_device IMC ''15.1'' ''PCI_IMC_DEVICE_0_CH_3'' (Some ''MBOX3'') 0x2FB1),
      (9, pci_device HA ''12.1'' ''PCI_HA_DEVICE_0'' (Some ''BBOX0'') 0x2F30),
      (10, pci_device HA ''12.5'' ''PCI_HA_DEVICE_1'' (Some ''BBOX1'') 0x2F38),
      (20, pci_device IMC ''17.0'' ''PCI_IMC_DEVICE_1_CH_0'' (Some ''MBOX4'') 0x2FD4),
      (21, pci_device IMC ''17.1'' ''PCI_IMC_DEVICE_1_CH_1'' (Some ''MBOX5'') 0x2FD5),
      (22, pci_device IMC ''18.0'' ''PCI_IMC_DEVICE_1_CH_2'' (Some ''MBOX6'') 0x2FD0),
      (23, pci_device IMC ''18.1'' ''PCI_IMC_DEVICE_1_CH_3'' (Some ''MBOX7'') 0x2FD1),
      (24, pci_device IRP ''05.6'' ''PCI_IRP_DEVICE'' (Some ''IBOX'') 0x2F39),
      (11, pci_device QPI ''08.2'' ''PCI_QPI_DEVICE_PORT_0'' (Some ''QBOX0'') 0x2F32),
      (12, pci_device QPI ''09.2'' ''PCI_QPI_DEVICE_PORT_1'' (Some ''QBOX1'') 0x2F33),
      (14, pci_device QPI ''08.6'' ''PCI_QPI_MASK_DEVICE_PORT_0'' None 0x2F86),
      (15, pci_device QPI ''09.6'' ''PCI_QPI_MASK_DEVICE_PORT_1'' None 0x2F96),
      (17, pci_device QPI ''08.0'' ''PCI_QPI_MISC_DEVICE_PORT_0'' (Some ''QBOX0FIX'') 0x2F80),
      (18, pci_device QPI ''08.0'' ''PCI_QPI_MISC_DEVICE_PORT_1'' (Some ''QBOX1FIX'') 0x2F80)]"

definition broadwelld_pci_devices :: "PciDevice list" where
  "broadwelld_pci_devices = pci_table [
      (9, pci_device HA ''12.1'' ''PCI_HA_DEVICE_0'' (Some ''BBOX0'') 0x6F30),
      (10, pci_device HA ''12.5'' ''PCI_HA_DEVICE_1'' (Some ''BBOX1'') 0x6F38),
      (5, pci_device IMC ''14.0'' ''PCI_IMC_DEVICE_0_CH_0'' (Some ''MBOX0'') 0x6FB4),
      (6, pci_device IMC ''14.1'' ''PCI_IMC_DEVICE_0_CH_1'' (Some ''MBOX1'') 0x6FB5),
      (7, pci_device IMC ''15.0'' ''PCI_IMC_DEVICE_0_CH_2'' (Some ''MBOX2'') 0x6FB0),
      (8, pci_device IMC ''15.1'' ''PCI_IMC_DEVICE_0_CH_3'' (Some ''MBOX3'') 0x6FB1),
      (20, pci_device IMC ''17.0'' ''PCI_IMC_DEVICE_1_CH_0'' (Some ''MBOX4'') 0x6FD4),
      (21, pci_device IMC ''17.1'' ''PCI_IMC_DEVICE_1_CH_1'' (Some ''MBOX5'') 0x6FD5),
      (22, pci_device IMC ''18.0'' ''PCI_IMC_DEVICE_1_CH_2'' (Some ''MBOX6'') 0x6FD0),
      (23, pci_device IMC ''18.1'' ''PCI_IMC_DEVICE_1_CH_3'' (Some ''MBOX7'') 0x6FD1),
      (24, pci_device IRP ''05.6'' ''PCI_IRP_DEVICE'' (Some ''IBOX0'') 0x6F39),
      (4, pci_device R2PCIE ''10.1'' ''PCI_R2PCIE_DEVICE'' (Some ''PBOX0'') 0x6F34)]"

datatype AccessErrorType =
  ERR_NOERROR | ERR_UNKNOWN | ERR_RESTREG | ERR_OPENFAIL | ERR_RWFAIL | ERR_DAEMONBUSY | ERR_NODEV

abbreviation (input) DAEMON_READ :: u32 where "DAEMON_READ \<equiv> 0"
abbreviation (input) DAEMON_WRITE :: u32 where "DAEMON_WRITE \<equiv> 1"
abbreviation (input) DAEMON_CHECK :: u32 where "DAEMON_CHECK \<equiv> 2"
abbreviation (input) DAEMON_EXIT :: u32 where "DAEMON_EXIT \<equiv> 3"

record AccessDataRecord =
  ad_cpu :: u32
  ad_reg :: u32
  ad_data :: u64
  ad_device :: u32
  ad_type :: u32
  ad_errorcode :: AccessErrorType

text \<open>
  The kernel. A read or write transfers the given number of bytes at the register offset; \<^term>\<open>None\<close> stands
  for a result of a read other than that number, the result of a write is the number of bytes or negative.
  \<^term>\<open>False\<close> is a reply that was not sent.
\<close>

record 'k kernel_ops =
  sys_open :: "string \<Rightarrow> 'k \<Rightarrow> int \<times> 'k"
  sys_close :: "int \<Rightarrow> 'k \<Rightarrow> 'k"
  sys_pread :: "int \<Rightarrow> nat \<Rightarrow> u32 \<Rightarrow> 'k \<Rightarrow> u64 option \<times> 'k"
  sys_pwrite :: "int \<Rightarrow> nat \<Rightarrow> u32 \<Rightarrow> u64 \<Rightarrow> 'k \<Rightarrow> int \<times> 'k"
  sys_send :: "int \<Rightarrow> AccessDataRecord \<Rightarrow> 'k \<Rightarrow> bool \<times> 'k"

text \<open>
  A bus name is a NULL pointer, a string literal or a string on the heap; only the last may be
  passed to \<open>free\<close>.
\<close>

datatype bus_name = BusNull | BusLiteral string | BusHeap string

fun bus_string :: "bus_name \<Rightarrow> string option" where
  "bus_string BusNull = None"
| "bus_string (BusLiteral s) = Some s"
| "bus_string (BusHeap s) = Some s"

record daemon =
  sockfd :: int
  connfd :: int
  allowed :: "u32 \<Rightarrow> bool"
  allowedPci :: "(PciDeviceType \<Rightarrow> u32 \<Rightarrow> bool) option"
  FD_MSR :: "int list"
  FD_PCI :: "int list list"
  isPCIUncore :: bool
  pci_devices_daemon :: "PciDevice list option"
  socket_bus :: "bus_name list"

definition PCI_ROOT_PATH :: string where
  "PCI_ROOT_PATH = ''/proc/bus/pci/''"

text \<open>The conversion \<open>%02x\<close> for the numbers printed into paths.\<close>

definition hex2 :: "int \<Rightarrow> string" where
  "hex2 b = [hex_digit (nat b div 16), hex_digit (nat b mod 16)]"

section \<open>MSR requests\<close>

definition msr_read ::
  "'k kernel_ops \<Rightarrow> daemon \<Rightarrow> AccessDataRecord \<Rightarrow> 'k \<Rightarrow> (AccessDataRecord \<times> 'k) option" where
  "msr_read K d dRecord k = do {
     let r = dRecord\<lparr>ad_errorcode := ERR_NOERROR, ad_data := 0\<rparr>;
     fd \<leftarrow> arr_get (FD_MSR d) (uint (ad_cpu r));
     if fd \<le> 0 then Some (r\<lparr>ad_errorcode := ERR_NODEV\<rparr>, k)
     else if \<not> allowed d (ad_reg r) then Some (r\<lparr>ad_errorcode := ERR_RESTREG\<rparr>, k)
     else (case sys_pread K fd 8 (ad_reg r) k of
             (None, k') \<Rightarrow> Some (r\<lparr>ad_errorcode := ERR_RWFAIL\<rparr>, k')
           | (Some v, k') \<Rightarrow> Some (r\<lparr>ad_data := v\<rparr>, k')) }"

definition msr_write ::
  "'k kernel_ops \<Rightarrow> daemon \<Rightarrow> AccessDataRecord \<Rightarrow> 'k \<Rightarrow> (AccessDataRecord \<times> 'k) option" where
  "msr_write K d dRecord k = do {
     let r = dRecord\<lparr>ad_errorcode := ERR_NOERROR\<rparr>;
     fd \<leftarrow> arr_get (FD_MSR d) (uint (ad_cpu r));
     if fd \<le> 0 then Some (r\<lparr>ad_errorcode := ERR_NODEV\<rparr>, k)
     else if \<not> allowed d (ad_reg r) then Some (r\<lparr>ad_errorcode := ERR_RESTREG\<rparr>, k)
     else (case sys_pwrite K fd 8 (ad_reg r) (ad_data r) k of
             (ret, k') \<Rightarrow> if ret \<noteq> 8 then Some (r\<lparr>ad_errorcode := ERR_RWFAIL\<rparr>, k') else Some (r, k')) }"

definition msr_check :: "daemon \<Rightarrow> AccessDataRecord \<Rightarrow> AccessDataRecord option" where
  "msr_check d dRecord = do {
     let r = dRecord\<lparr>ad_errorcode := ERR_NOERROR\<rparr>;
     fd \<leftarrow> arr_get (FD_MSR d) (uint (ad_cpu r));
     Some (if fd < 0 then r\<lparr>ad_errorcode := ERR_NODEV\<rparr> else r) }"

section \<open>PCI requests\<close>

definition fd_pci :: "daemon \<Rightarrow> u32 \<Rightarrow> u32 \<Rightarrow> int option" where
  "fd_pci d socketId dev = do {
     row \<leftarrow> arr_get (FD_PCI d) (uint socketId);
     arr_get row (uint dev) }"

definition set_fd_pci :: "daemon \<Rightarrow> u32 \<Rightarrow> u32 \<Rightarrow> int \<Rightarrow> daemon option" where
  "set_fd_pci d socketId dev fd = do {
     row \<leftarrow> arr_get (FD_PCI d) (uint socketId);
     row' \<leftarrow> arr_set row (uint dev) fd;
     tab \<leftarrow> arr_set (FD_PCI d) (uint socketId) row';
     Some (d\<lparr>FD_PCI := tab\<rparr>) }"

text \<open>\<open>allowedPci && !allowedPci(pci_devices_daemon[device].type, reg)\<close>, as a permission.\<close>

definition pci_permitted :: "daemon \<Rightarrow> u32 \<Rightarrow> u32 \<Rightarrow> bool option" where
  "pci_permitted d dev r =
     (case allowedPci d of
        None \<Rightarrow> Some True
      | Some pol \<Rightarrow> do {
          devs \<leftarrow> pci_devices_daemon d;
          pd \<leftarrow> arr_get devs (uint dev);
          Some (pol (pci_type pd) r) })"

text \<open>
  The first access to a device opens its file; the file descriptor, also a failed one, is stored.
\<close>

definition pci_open ::
  "'k kernel_ops \<Rightarrow> daemon \<Rightarrow> u32 \<Rightarrow> u32 \<Rightarrow> 'k \<Rightarrow> (int \<times> daemon \<times> 'k) option" where
  "pci_open K d socketId dev k = do {
     bus \<leftarrow> arr_get (socket_bus d) (uint socketId);
     b \<leftarrow> bus_string bus;
     devs \<leftarrow> pci_devices_daemon d;
     pd \<leftarrow> arr_get devs (uint dev);
     p \<leftarrow> pci_path pd;
     let (fd, k') = sys_open K (PCI_ROOT_PATH @ b @ p) k;
     d' \<leftarrow> set_fd_pci d socketId dev fd;
     Some (fd, d', k') }"

definition pci_read ::
  "'k kernel_ops \<Rightarrow> daemon \<Rightarrow> AccessDataRecord \<Rightarrow> 'k \<Rightarrow> (AccessDataRecord \<times> daemon \<times> 'k) option" where
  "pci_read K d dRecord k = do {
     let r = dRecord\<lparr>ad_errorcode := ERR_NOERROR, ad_data := 0\<rparr>;
     let socketId = ad_cpu r; let dev = ad_device r;
     fd \<leftarrow> fd_pci d socketId dev;
     if fd = - 2 then Some (r\<lparr>ad_errorcode := ERR_NODEV\<rparr>, d, k)
     else do {
       ok \<leftarrow> pci_permitted d dev (ad_reg r);
       if \<not> ok then Some (r\<lparr>ad_errorcode := ERR_RESTREG\<rparr>, d, k)
       else do {
         (fd', d', k') \<leftarrow> (if fd = 0 then pci_open K d socketId dev k else Some (fd, d, k));
         if fd = 0 \<and> fd' < 0 then Some (r\<lparr>ad_errorcode := ERR_OPENFAIL\<rparr>, d', k')
         else if fd' > 0 then
           (case sys_pread K fd' 4 (ad_reg r) k' of
              (None, k'') \<Rightarrow> Some (r\<lparr>ad_errorcode := ERR_RWFAIL\<rparr>, d', k'')
            | (Some v, k'') \<Rightarrow> Some (r\<lparr>ad_data := ucast (ucast v :: u32)\<rparr>, d', k''))
         else None }}}"

text \<open>
  In the last branch the descriptor is negative (or 0) and the source copies the local variable
  \<open>data\<close>, which nothing has written, into the reply: an indeterminate value.
\<close>

definition pci_write ::
  "'k kernel_ops \<Rightarrow> daemon \<Rightarrow> AccessDataRecord \<Rightarrow> 'k \<Rightarrow> (AccessDataRecord \<times> daemon \<times> 'k) option" where
  "pci_write K d dRecord k = do {
     let r = dRecord\<lparr>ad_errorcode := ERR_NOERROR\<rparr>;
     let socketId = ad_cpu r; let dev = ad_device r;
     fd \<leftarrow> fd_pci d socketId dev;
     if fd = - 2 then Some (r\<lparr>ad_errorcode := ERR_NODEV\<rparr>, d, k)
     else do {
       ok \<leftarrow> pci_permitted d dev (ad_reg r);
       if \<not> ok then Some (r\<lparr>ad_errorcode := ERR_RESTREG\<rparr>, d, k)
       else do {
         (fd', d', k') \<leftarrow> (if fd = 0 then pci_open K d socketId dev k else Some (fd, d, k));
         if fd = 0 \<and> fd' < 0 then Some (r\<lparr>ad_errorcode := ERR_OPENFAIL\<rparr>, d', k')
         else if fd' > 0 then
           (case sys_pwrite K fd' 4 (ad_reg r) (ucast (ucast (ad_data r) :: u32)) k' of
              (ret, k'') \<Rightarrow> if ret \<noteq> 4 then Some (r\<lparr>ad_errorcode := ERR_RWFAIL\<rparr>, d', k'') else Some (r, d', k''))
         else Some (r, d', k') }}}"

definition pci_check :: "daemon \<Rightarrow> AccessDataRecord \<Rightarrow> AccessDataRecord option" where
  "pci_check d dRecord = do {
     let r = dRecord\<lparr>ad_errorcode := ERR_NOERROR\<rparr>;
     fd \<leftarrow> fd_pci d (ad_cpu r) (ad_device r);
     Some (if fd = - 2 then r\<lparr>ad_errorcode := ERR_NODEV\<rparr> else r) }"

section \<open>Stopping\<close>

definition kill_client :: "'k kernel_ops \<Rightarrow> daemon \<Rightarrow> 'k \<Rightarrow> daemon \<times> 'k" where
  "kill_client K d k =
     (d\<lparr>connfd := - 1\<rparr>, if connfd d \<noteq> - 1 then sys_close K (connfd d) k else k)"

text \<open>\<open>free\<close> of a string literal is undefined.\<close>

fun free_bus :: "bus_name list \<Rightarrow> unit option" where
  "free_bus [] = Some ()"
| "free_bus (BusNull # bs) = free_bus bs"
| "free_bus (BusHeap s # bs) = free_bus bs"
| "free_bus (BusLiteral s # bs) = None"

definition stop_daemon :: "'k kernel_ops \<Rightarrow> daemon \<Rightarrow> 'k \<Rightarrow> (daemon \<times> 'k) option" where
  "stop_daemon K d k = do {
     let (d', k') = kill_client K d k;
     _ \<leftarrow> free_bus (socket_bus d');
     Some (d', if sockfd d' \<noteq> - 1 then sys_close K (sockfd d') k' else k') }"

section \<open>Start-up\<close>

text \<open>One round of the loop of \<open>getBusFromSocket\<close>: the bus number stored at offset 0x108.\<close>

definition read_cpubusno :: "'k kernel_ops \<Rightarrow> int \<Rightarrow> 'k \<Rightarrow> int option \<times> 'k" where
  "read_cpubusno K cur_bus k =
     (let (fp, k1) = sys_open K (PCI_ROOT_PATH @ hex2 cur_bus @ ''/05.0'') k in
      if fp < 0 then (None, k1)
      else (case sys_pread K fp 4 0x108 k1 of
              (None, k2) \<Rightarrow> (None, sys_close K fp k2)
            | (Some v, k2) \<Rightarrow> (Some (uint (drop_bit 8 (ucast v :: u32) AND 0x0ff)), sys_close K fp k2)))"

text \<open>The first argument counts the sockets still to pass, \<open>socket - cur_socket\<close>.\<close>

primrec getBusLoop :: "nat \<Rightarrow> 'k kernel_ops \<Rightarrow> int \<Rightarrow> 'k \<Rightarrow> int \<times> 'k" where
  "getBusLoop 0 K cur_bus k =
     (case read_cpubusno K cur_bus k of (None, k') \<Rightarrow> (- 1, k') | (Some b, k') \<Rightarrow> (b, k'))"
| "getBusLoop (Suc n) K cur_bus k =
     (case read_cpubusno K cur_bus k of
        (None, k') \<Rightarrow> (- 1, k')
      | (Some b, k') \<Rightarrow> if b + 1 > 0x0ff then (- 1, k') else getBusLoop n K (b + 1) k')"

definition getBusFromSocket :: "'k kernel_ops \<Rightarrow> nat \<Rightarrow> 'k \<Rightarrow> int \<times> 'k" where
  "getBusFromSocket K socket k = getBusLoop socket K 0 k"

text \<open>The loop that determines the bus of every socket writes \<open>socket_bus\<close> without a bound.\<close>

function discover_buses ::
  "'k kernel_ops \<Rightarrow> nat \<Rightarrow> bus_name list \<Rightarrow> 'k \<Rightarrow> (nat \<times> bus_name list \<times> 'k) option" where
  "discover_buses K cntr buses k =
     (let (sbus, k') = getBusFromSocket K cntr k in
      if sbus = - 1 then Some (cntr, buses, k')
      else if cntr < length buses
      then discover_buses K (Suc cntr) (buses[cntr := BusHeap (hex2 sbus @ ''/'')]) k'
      else None)"
  by pat_completeness auto
termination
  by (relation "measure (\<lambda>(K, cntr, buses, k). length buses - cntr)") auto

declare discover_buses.simps [simp del]

text \<open>Opening the MSR files of the hardware threads, with the alternative device name.\<close>

fun open_msr_files :: "'k kernel_ops \<Rightarrow> nat list \<Rightarrow> int list \<Rightarrow> 'k \<Rightarrow> (int list \<times> 'k) option" where
  "open_msr_files K [] fds k = Some (fds, k)"
| "open_msr_files K (i # is) fds k =
     (if i < length fds then
        (let (fd, k1) = sys_open K (''/dev/cpu/'' @ dec_string i @ ''/msr'') k;
             (fd', k2) = (if fd < 0 then sys_open K (''/dev/msr'' @ dec_string i) k1 else (fd, k1))
         in open_msr_files K is (fds[i := fd']) k2)
      else None)"

text \<open>Probing one device of one socket: it becomes available (0) when its file can be opened.\<close>

definition probe_device ::
  "'k kernel_ops \<Rightarrow> nat \<Rightarrow> nat \<Rightarrow> daemon \<Rightarrow> 'k \<Rightarrow> (daemon \<times> 'k) option" where
  "probe_device K j i d k = do {
     devs \<leftarrow> pci_devices_daemon d;
     pd \<leftarrow> arr_get devs (int i);
     case pci_path pd of
       None \<Rightarrow> Some (d, k)
     | Some p \<Rightarrow> do {
         bus \<leftarrow> arr_get (socket_bus d) (int j);
         b \<leftarrow> bus_string bus;
         let (fd, k') = sys_open K (PCI_ROOT_PATH @ b @ p) k;
         if fd > 0 then do {
           row \<leftarrow> arr_get (FD_PCI d) (int j);
           row' \<leftarrow> arr_set row (int i) 0;
           tab \<leftarrow> arr_set (FD_PCI d) (int j) row';
           devs' \<leftarrow> arr_set devs (int i) (pd\<lparr>pci_online := True\<rparr>);
           Some (d\<lparr>FD_PCI := tab, pci_devices_daemon := Some devs'\<rparr>, sys_close K fd k') }
         else Some (d, k') }}"

fun probe_devices ::
  "'k kernel_ops \<Rightarrow> (nat \<times> nat) list \<Rightarrow> daemon \<Rightarrow> 'k \<Rightarrow> (daemon \<times> 'k) option" where
  "probe_devices K [] d k = Some (d, k)"
| "probe_devices K ((j, i) # ps) d k =
     (case probe_device K j i d k of None \<Rightarrow> None | Some (d', k') \<Rightarrow> probe_devices K ps d' k')"

definition daemon_devices :: "u32 \<Rightarrow> PciDevice list option" where
  "daemon_devices model =
     (if model = SANDYBRIDGE_EP then Some sandybridgeEP_pci_devices
      else if model = IVYBRIDGE_EP then Some ivybridgeEP_pci_devices
      else if model = HASWELL_EP then Some haswellEP_pci_devices
      else if model = BROADWELL_D then Some broadwelld_pci_devices
      else None)"

definition pci_init :: "'k kernel_ops \<Rightarrow> u32 \<Rightarrow> daemon \<Rightarrow> 'k \<Rightarrow> (daemon \<times> 'k) option" where
  "pci_init K model d k = do {
     let d1 = d\<lparr>pci_devices_daemon := daemon_devices model,
                socket_bus := replicate MAX_NUM_NODES (BusLiteral ''N-A''),
                FD_PCI := replicate MAX_NUM_NODES (replicate MAX_NUM_PCI_DEVICES (- 2))\<rparr>;
     (cntr, buses, k1) \<leftarrow> discover_buses K 0 (socket_bus d1) k;
     let d2 = d1\<lparr>socket_bus := buses\<rparr>;
     probe_devices K (List.product [0..<cntr] [1..<MAX_NUM_PCI_DEVICES]) d2 k1 }"

definition daemon_initial :: "int \<Rightarrow> int \<Rightarrow> daemon_policy \<Rightarrow> daemon" where
  "daemon_initial sfd cfd p =
     \<lparr>sockfd = sfd, connfd = cfd, allowed = dp_allowed p, allowedPci = dp_allowedPci p,
      FD_MSR = replicate MAX_NUM_THREADS (- 1),
      FD_PCI = replicate MAX_NUM_NODES (replicate MAX_NUM_PCI_DEVICES 0),
      isPCIUncore = dp_isPCIUncore p, pci_devices_daemon = None,
      socket_bus = replicate MAX_NUM_NODES BusNull\<rparr>"

text \<open>
  \<open>main\<close> after a client has connected on descriptor \<open>cfd\<close>. An unsupported processor ends the
  process before that, with the value \<open>Some None\<close>.
\<close>

definition daemon_start ::
  "'k kernel_ops \<Rightarrow> nat \<Rightarrow> u32 \<Rightarrow> int \<Rightarrow> int \<Rightarrow> 'k \<Rightarrow> (daemon \<times> 'k) option option" where
  "daemon_start K numHWThreads eax sfd cfd k =
     (case select_policy (cpuid_family eax) (cpuid_model eax) of
        None \<Rightarrow> Some None
      | Some p \<Rightarrow> do {
          let d = daemon_initial sfd cfd p;
          (fds, k1) \<leftarrow> open_msr_files K [0..<numHWThreads] (FD_MSR d) k;
          let d1 = d\<lparr>FD_MSR := fds\<rparr>;
          if isPCIUncore d1 then do {
            (d2, k2) \<leftarrow> pci_init K (cpuid_model eax) d1 k1;
            Some (Some (d2, k2)) }
          else Some (Some (d1, k1)) })"

section \<open>The request loop\<close>

text \<open>Dispatch of one complete record; the reply data of a write is cleared.\<close>

definition handle_record ::
  "'k kernel_ops \<Rightarrow> daemon \<Rightarrow> AccessDataRecord \<Rightarrow> 'k \<Rightarrow> (AccessDataRecord \<times> daemon \<times> 'k) option" where
  "handle_record K d r k =
     (if ad_type r = DAEMON_READ then
        (if ad_device r = MSR_DEV
         then do { (r', k') \<leftarrow> msr_read K d r k; Some (r', d, k') }
         else pci_read K d r k)
      else if ad_type r = DAEMON_WRITE then
        (if ad_device r = MSR_DEV
         then do { (r', k') \<leftarrow> msr_write K d r k; Some (r'\<lparr>ad_data := 0\<rparr>, d, k') }
         else do { (r', d', k') \<leftarrow> pci_write K d r k; Some (r'\<lparr>ad_data := 0\<rparr>, d', k') })
      else if ad_type r = DAEMON_CHECK then
        (if ad_device r = MSR_DEV
         then do { r' \<leftarrow> msr_check d r; Some (r', d, k) }
         else do { r' \<leftarrow> pci_check d r; Some (r', d, k) })
      else Some (r\<lparr>ad_errorcode := ERR_UNKNOWN\<rparr>, d, k))"

text \<open>
  What the \<open>read\<close> on the client socket delivers: an error, end of file, a part of a record, or a
  record. The loop ends on the first three and on an exit request.
\<close>

datatype client_input = ReadError | ReadZero | ReadShort | ReadRecord AccessDataRecord

datatype daemon_output = Replied AccessDataRecord | Stopped | SendFailed

definition daemon_step ::
  "'k kernel_ops \<Rightarrow> daemon \<Rightarrow> client_input \<Rightarrow> 'k \<Rightarrow> (daemon_output \<times> daemon \<times> 'k) option" where
  "daemon_step K d inp k =
     (case inp of
        ReadRecord r \<Rightarrow>
          (if ad_type r = DAEMON_EXIT
           then do { (d', k') \<leftarrow> stop_daemon K d k; Some (Stopped, d', k') }
           else do {
             (r', d', k') \<leftarrow> handle_record K d r k;
             Some (case sys_send K (connfd d') r' k' of
                     (True, k'') \<Rightarrow> (Replied r', d', k'')
                   | (False, k'') \<Rightarrow> (SendFailed, d', k'')) })
      | _ \<Rightarrow> do { (d', k') \<leftarrow> stop_daemon K d k; Some (Stopped, d', k') })"

fun daemon_run ::
  "'k kernel_ops \<Rightarrow> daemon \<Rightarrow> client_input list \<Rightarrow> 'k \<Rightarrow>
   (daemon_output list \<times> daemon \<times> 'k) option" where
  "daemon_run K d [] k = Some ([], d, k)"
| "daemon_run K d (i # is) k =
     (case daemon_step K d i k of
        None \<Rightarrow> None
      | Some (Replied r, d', k') \<Rightarrow>
          (case daemon_run K d' is k' of
             None \<Rightarrow> None
           | Some (outs, d'', k'') \<Rightarrow> Some (Replied r # outs, d'', k''))
      | Some (out, d', k') \<Rightarrow> Some ([out], d', k'))"

end
