(* ===== verification/AccessDaemon_Safety.thy ===== *)
theory AccessDaemon_Safety
  imports AccessDaemon
begin

text \<open>
  Safety of the access daemon. An invariant of the daemon state is established by start-up and
  kept by every request; a monitored kernel records the opened files and the register accesses, and every recorded
  access is justified by a request of the client, the policy selected for the processor, and an earlier
  opening of the file it goes to.
\<close>

section \<open>The monitored kernel\<close>

datatype kaccess = KOpen string int | KRead int nat u32 | KWrite int nat u32 u64

definition logged :: "'k kernel_ops \<Rightarrow> ('k \<times> kaccess list) kernel_ops" where
  "logged K = \<lparr>
     sys_open = (\<lambda>p (k, l). let (fd, k') = sys_open K p k in (fd, (k', l @ [KOpen p fd]))),
     sys_close = (\<lambda>fd (k, l). (sys_close K fd k, l)),
     sys_pread = (\<lambda>fd n r (k, l). let (v, k') = sys_pread K fd n r k in (v, (k', l @ [KRead fd n r]))),
     sys_pwrite = (\<lambda>fd n r w (k, l). let (b, k') = sys_pwrite K fd n r w k in (b, (k', l @ [KWrite fd n r w]))),
     sys_send = (\<lambda>fd m (k, l). let (b, k') = sys_send K fd m k in (b, (k', l)))\<rparr>"

text \<open>The configuration file of a device of a socket, and the PCI allow-list at a register of the device.\<close>

definition device_file :: "daemon \<Rightarrow> u32 \<Rightarrow> u32 \<Rightarrow> string option" where
  "device_file d socketId dev = do {
     bus \<leftarrow> arr_get (socket_bus d) (uint socketId);
     b \<leftarrow> bus_string bus;
     devs \<leftarrow> pci_devices_daemon d;
     pd \<leftarrow> arr_get devs (uint dev);
     p \<leftarrow> pci_path pd;
     Some (PCI_ROOT_PATH @ b @ p) }"

definition pci_reg_allowed :: "daemon \<Rightarrow> u32 \<Rightarrow> u32 \<Rightarrow> bool" where
  "pci_reg_allowed d dev reg \<longleftrightarrow> (\<exists>pol devs. allowedPci d = Some pol \<and> pci_devices_daemon d = Some devs \<and>
     unat dev < length devs \<and> pci_type (devs ! unat dev) \<noteq> NODEVTYPE \<and> pol (pci_type (devs ! unat dev)) reg)"

text \<open>
  A descriptor serves a request of the client when it is the open MSR file of the processor of the request, whose
  register the MSR allow-list has; or when the configuration file of the requested device was opened on it
  before, and the PCI allow-list has the register for the type of this device. An access is permitted when it goes to
  the register of a request of the same kind, on a descriptor that serves it, and writes the data of the
  request; a file is opened for a request that may access the device.
\<close>

definition serves :: "daemon \<Rightarrow> kaccess list \<Rightarrow> AccessDataRecord \<Rightarrow> int \<Rightarrow> nat \<Rightarrow> bool" where
  "serves d before r fd n \<longleftrightarrow> 0 < fd \<and>
     (if ad_device r = MSR_DEV
      then n = 8 \<and> arr_get (FD_MSR d) (uint (ad_cpu r)) = Some fd \<and> allowed d (ad_reg r)
      else n = 4 \<and> pci_reg_allowed d (ad_device r) (ad_reg r) \<and>
        (\<exists>p. device_file d (ad_cpu r) (ad_device r) = Some p \<and> KOpen p fd \<in> set before))"

fun permitted_access :: "daemon \<Rightarrow> AccessDataRecord set \<Rightarrow> kaccess list \<Rightarrow> kaccess \<Rightarrow> bool" where
  "permitted_access d R before (KOpen p fd) =
     (\<exists>r\<in>R. ad_type r \<in> {DAEMON_READ, DAEMON_WRITE} \<and> ad_device r \<noteq> MSR_DEV \<and>
        device_file d (ad_cpu r) (ad_device r) = Some p \<and> pci_reg_allowed d (ad_device r) (ad_reg r))"
| "permitted_access d R before (KRead fd n reg) =
     (\<exists>r\<in>R. ad_type r = DAEMON_READ \<and> ad_reg r = reg \<and> serves d before r fd n)"
| "permitted_access d R before (KWrite fd n reg w) =
     (\<exists>r\<in>R. ad_type r = DAEMON_WRITE \<and> ad_reg r = reg \<and> serves d before r fd n \<and>
        w = (if n = 8 then ad_data r else ucast (ucast (ad_data r) :: u32)))"

fun permitted_log :: "daemon \<Rightarrow> AccessDataRecord set \<Rightarrow> kaccess list \<Rightarrow> kaccess list \<Rightarrow> bool" where
  "permitted_log d R before [] = True"
| "permitted_log d R before (a # l) = (permitted_access d R before a \<and> permitted_log d R (before @ [a]) l)"

lemma permitted_log_append: "permitted_log d R before (l @ l') = (permitted_log d R before l \<and> permitted_log d R (before @ l) l')"
  by (induction l arbitrary: before) auto

lemma permitted_access_mono: "\<lbrakk>permitted_access d R before a; R \<subseteq> R'\<rbrakk> \<Longrightarrow> permitted_access d R' before a"
  by (cases a) auto

lemma permitted_log_mono: "\<lbrakk>permitted_log d R before l; R \<subseteq> R'\<rbrakk> \<Longrightarrow> permitted_log d R' before l"
  by (induction l arbitrary: before) (auto intro: permitted_access_mono)

section \<open>The invariant\<close>

definition usable_slot :: "daemon \<Rightarrow> PciDevice list \<Rightarrow> nat \<Rightarrow> nat \<Rightarrow> bool" where
  "usable_slot d devs s i \<longleftrightarrow>
     pci_path (devs ! i) \<noteq> None \<and> pci_type (devs ! i) \<noteq> NODEVTYPE \<and> socket_bus d ! s \<noteq> BusNull"

definition daemon_inv :: "daemon \<Rightarrow> bool" where
  "daemon_inv d \<longleftrightarrow>
     length (FD_MSR d) = MAX_NUM_THREADS \<and>
     length (FD_PCI d) = MAX_NUM_NODES \<and>
     (\<forall>row\<in>set (FD_PCI d). length row = MAX_NUM_PCI_DEVICES) \<and>
     length (socket_bus d) = MAX_NUM_NODES \<and>
     (if isPCIUncore d
      then allowedPci d \<noteq> None \<and>
        (\<exists>devs. pci_devices_daemon d = Some devs \<and> length devs = MAX_NUM_PCI_DEVICES \<and>
           (\<forall>s<MAX_NUM_NODES. \<forall>i<MAX_NUM_PCI_DEVICES.
              FD_PCI d ! s ! i \<noteq> - 2 \<longrightarrow> usable_slot d devs s i))
      else allowedPci d = None \<and> pci_devices_daemon d = None \<and>
        (\<forall>s<MAX_NUM_NODES. socket_bus d ! s = BusNull \<and> FD_PCI d ! s = replicate MAX_NUM_PCI_DEVICES 0))"

text \<open>What a request never changes.\<close>

definition same_config :: "daemon \<Rightarrow> daemon \<Rightarrow> bool" where
  "same_config d d' \<longleftrightarrow>
     allowed d' = allowed d \<and> allowedPci d' = allowedPci d \<and> FD_MSR d' = FD_MSR d \<and>
     isPCIUncore d' = isPCIUncore d \<and> pci_devices_daemon d' = pci_devices_daemon d \<and>
     socket_bus d' = socket_bus d"

lemma same_config_refl [simp]: "same_config d d"
  by (simp add: same_config_def)

lemma same_config_device: "same_config d d' \<Longrightarrow> device_file d' = device_file d \<and> pci_reg_allowed d' = pci_reg_allowed d"
  by (intro conjI ext) (simp_all add: device_file_def pci_reg_allowed_def same_config_def)

lemma same_config_permitted:
  assumes "same_config d d'"
  shows "permitted_log d' R before l = permitted_log d R before l"
proof -
  have "serves d' before r fd n = serves d before r fd n" for before r fd n
    using same_config_device [OF assms] assms by (simp add: serves_def same_config_def)
  then have "permitted_access d' R before a = permitted_access d R before a" for before a
    using same_config_device [OF assms] by (cases a) simp_all
  then show ?thesis by (induction l arbitrary: before) simp_all
qed

lemma same_config_trans: "\<lbrakk>same_config a b; same_config b c\<rbrakk> \<Longrightarrow> same_config a c"
  by (simp add: same_config_def)

lemma fd_pci_Some:
  "fd_pci d s i = Some fd \<longleftrightarrow>
     unat s < length (FD_PCI d) \<and> unat i < length (FD_PCI d ! unat s) \<and> FD_PCI d ! unat s ! unat i = fd"
  by (auto simp: fd_pci_def arr_get_def bind_Some_iff uint_less_iff_unat split: if_splits)

lemma set_fd_pci_Some:
  "set_fd_pci d s i fd = Some d' \<longleftrightarrow>
     unat s < length (FD_PCI d) \<and> unat i < length (FD_PCI d ! unat s) \<and>
     d' = d\<lparr>FD_PCI := (FD_PCI d)[unat s := (FD_PCI d ! unat s)[unat i := fd]]\<rparr>"
  by (auto simp: set_fd_pci_def arr_get_def arr_set_def bind_Some_iff uint_less_iff_unat split: if_splits)

lemma daemon_inv_row:
  "\<lbrakk>daemon_inv d; s < MAX_NUM_NODES\<rbrakk> \<Longrightarrow> length (FD_PCI d ! s) = MAX_NUM_PCI_DEVICES"
  by (auto simp: daemon_inv_def)

text \<open>Storing a descriptor in a usable slot keeps the invariant on a machine with PCI devices.\<close>

lemma fd_update_inv:
  assumes inv: "daemon_inv d" "isPCIUncore d" and devs: "pci_devices_daemon d = Some devs"
    and slot: "usable_slot d devs s i" and len: "s < MAX_NUM_NODES" "i < MAX_NUM_PCI_DEVICES"
  shows "daemon_inv (d\<lparr>FD_PCI := (FD_PCI d)[s := (FD_PCI d ! s)[i := fd]]\<rparr>)" (is "daemon_inv ?d")
proof -
  have rows: "length (FD_PCI d ! s) = MAX_NUM_PCI_DEVICES"
    using daemon_inv_row [OF inv(1) len(1)] .
  have len': "length (FD_PCI d) = MAX_NUM_NODES" "length devs = MAX_NUM_PCI_DEVICES"
    using inv devs by (auto simp: daemon_inv_def)
  have old: "\<forall>s<MAX_NUM_NODES. \<forall>i<MAX_NUM_PCI_DEVICES. FD_PCI d ! s ! i \<noteq> - 2 \<longrightarrow> usable_slot d devs s i"
    using inv devs by (auto simp: daemon_inv_def)
  have "FD_PCI ?d ! s' ! i' \<noteq> - 2 \<longrightarrow> usable_slot ?d devs s' i'"
    if b: "s' < MAX_NUM_NODES" "i' < MAX_NUM_PCI_DEVICES" for s' i'
  proof (cases "s' = s \<and> i' = i")
    case True
    then show ?thesis using slot by (simp add: usable_slot_def)
  next
    case False
    then have "FD_PCI ?d ! s' ! i' = FD_PCI d ! s' ! i'"
      using b rows len' by (cases "s' = s") auto
    then show ?thesis using old b by (simp add: usable_slot_def)
  qed
  moreover have "\<forall>row\<in>set (FD_PCI ?d). length row = MAX_NUM_PCI_DEVICES"
    using inv(1) rows by (auto simp: daemon_inv_def dest!: subsetD [OF set_update_subset_insert])
  ultimately show ?thesis
    using inv devs by (auto simp: daemon_inv_def)
qed

lemma set_fd_pci_inv:
  assumes inv: "daemon_inv d" "isPCIUncore d" and fd: "fd_pci d s i = Some old" "old \<noteq> - 2"
    and set: "set_fd_pci d s i fd = Some d'"
  shows "daemon_inv d' \<and> same_config d d'"
proof -
  have len: "unat s < MAX_NUM_NODES" "unat i < MAX_NUM_PCI_DEVICES"
    using fd(1) inv by (auto simp: fd_pci_Some daemon_inv_def)
  have d': "d' = d\<lparr>FD_PCI := (FD_PCI d)[unat s := (FD_PCI d ! unat s)[unat i := fd]]\<rparr>"
    using set by (simp add: set_fd_pci_Some)
  obtain devs where devs: "pci_devices_daemon d = Some devs" "usable_slot d devs (unat s) (unat i)"
    using inv fd len by (auto simp: daemon_inv_def fd_pci_Some)
  show ?thesis
    using fd_update_inv [OF inv devs len] by (simp add: d' same_config_def)
qed

lemma pci_open_inv:
  assumes inv: "daemon_inv d" and fd: "fd_pci d s i = Some 0"
    and op: "pci_open K d s i k = Some (fd, d', k')"
  shows "isPCIUncore d \<and> daemon_inv d' \<and> same_config d d'"
proof -
  have "isPCIUncore d"
    using op inv fd by (auto simp: pci_open_def daemon_inv_def bind_Some_iff arr_get_def
        uint_less_iff_unat split: if_splits)
  moreover obtain fd' where "set_fd_pci d s i fd' = Some d'"
    using op by (auto simp: pci_open_def bind_Some_iff Let_def split_def)
  ultimately show ?thesis
    using set_fd_pci_inv [OF inv _ fd] by auto
qed

text \<open>Every open descriptor of the table was opened for the device of its slot.\<close>

definition opened_slots :: "daemon \<Rightarrow> kaccess list \<Rightarrow> bool" where
  "opened_slots d l \<longleftrightarrow> (\<forall>s i fd. fd_pci d s i = Some fd \<and> 0 < fd \<longrightarrow>
     (\<exists>p. device_file d s i = Some p \<and> KOpen p fd \<in> set l))"

lemma opened_slots_mono: "\<lbrakk>opened_slots d l; set l \<subseteq> set l'\<rbrakk> \<Longrightarrow> opened_slots d l'"
  unfolding opened_slots_def by (meson subsetD)

lemma pci_open_log:
  assumes "pci_open (logged K) d s i (k, l) = Some (fd, d', (k', l'))"
  shows "set_fd_pci d s i fd = Some d' \<and> (\<exists>p. device_file d s i = Some p \<and> l' = l @ [KOpen p fd])"
  using assms by (auto simp: pci_open_def device_file_def bind_Some_iff Let_def split_def logged_def)

lemma set_fd_pci_get:
  assumes "set_fd_pci d s i fd = Some d'" "fd_pci d' s' i' = Some fd'"
  shows "s' = s \<and> i' = i \<and> fd' = fd \<or> fd_pci d s' i' = Some fd'"
  using assms by (auto simp: set_fd_pci_Some fd_pci_Some nth_list_update word_unat_eq_iff split: if_splits)

lemma set_fd_pci_config: "set_fd_pci d s i fd = Some d' \<Longrightarrow> same_config d d'"
  by (auto simp: set_fd_pci_Some same_config_def)

lemma opened_slots_open:
  assumes "opened_slots d l" "pci_open (logged K) d s i (k, l) = Some (fd, d', (k', l'))"
  shows "opened_slots d' l'"
proof -
  obtain p where p: "set_fd_pci d s i fd = Some d'" "device_file d s i = Some p" "l' = l @ [KOpen p fd]"
    using pci_open_log [OF assms(2)] by blast
  have dev: "device_file d' = device_file d" using same_config_device [OF set_fd_pci_config [OF p(1)]] by simp
  show ?thesis
    unfolding opened_slots_def dev p(3)
  proof (intro allI impI)
    fix s' i' fd'
    assume fd': "fd_pci d' s' i' = Some fd' \<and> 0 < fd'"
    then consider "s' = s" "i' = i" "fd' = fd" | "fd_pci d s' i' = Some fd'" using set_fd_pci_get [OF p(1)] by blast
    then show "\<exists>q. device_file d s' i' = Some q \<and> KOpen q fd' \<in> set (l @ [KOpen p fd])"
    proof cases
      case 2
      then show ?thesis using assms(1) fd' unfolding opened_slots_def by (metis Un_iff set_append)
    qed (use p(2) in simp)
  qed
qed

text \<open>
  The common part of the two PCI handlers: after the permission test and the possible opening of
  the device file, the descriptor is one of the requested device.
\<close>

lemma pci_slot_allowed:
  assumes inv: "daemon_inv d" "isPCIUncore d" and fd: "fd_pci d s i = Some fd" "fd \<noteq> - 2"
    and ok: "pci_permitted d i r = Some True"
  shows "pci_reg_allowed d i r"
proof -
  obtain devs pol where devs: "pci_devices_daemon d = Some devs" "length devs = MAX_NUM_PCI_DEVICES"
      "allowedPci d = Some pol"
      "\<forall>s<MAX_NUM_NODES. \<forall>i<MAX_NUM_PCI_DEVICES. FD_PCI d ! s ! i \<noteq> - 2 \<longrightarrow> usable_slot d devs s i"
    using inv by (auto simp: daemon_inv_def)
  have len: "unat s < MAX_NUM_NODES" "unat i < MAX_NUM_PCI_DEVICES"
    using fd(1) inv by (auto simp: fd_pci_Some daemon_inv_def)
  then have "usable_slot d devs (unat s) (unat i)"
    using devs(4) fd by (simp add: fd_pci_Some)
  moreover have "pol (pci_type (devs ! unat i)) r"
    using ok devs(1,3) by (auto simp: pci_permitted_def bind_Some_iff arr_get_def split: if_splits)
  ultimately show ?thesis using devs len by (auto simp: pci_reg_allowed_def usable_slot_def)
qed

lemma pci_slot_safe:
  assumes inv: "daemon_inv d" "opened_slots d l" and fd: "fd_pci d s i = Some fd" "fd \<noteq> - 2"
    and ok: "pci_permitted d i r = Some True"
    and op: "(if fd = 0 then pci_open (logged K) d s i (k, l) else Some (fd, d, (k, l))) = Some (fd', d', (k', l'))"
  shows "daemon_inv d' \<and> same_config d d' \<and> opened_slots d' l' \<and> pci_reg_allowed d i r \<and>
    (l' = l \<or> (\<exists>p. device_file d s i = Some p \<and> l' = l @ [KOpen p fd'])) \<and>
    (0 < fd' \<longrightarrow> (\<exists>p. device_file d s i = Some p \<and> KOpen p fd' \<in> set l'))"
proof (cases "fd = 0")
  case True
  then have o: "pci_open (logged K) d s i (k, l) = Some (fd', d', (k', l'))" using op by simp
  have i: "isPCIUncore d \<and> daemon_inv d' \<and> same_config d d'" using pci_open_inv [OF inv(1) _ o] fd(1) True by simp
  then show ?thesis
    using opened_slots_open [OF inv(2) o] pci_open_log [OF o] pci_slot_allowed [OF inv(1) _ fd ok] by auto
next
  case False
  then have e: "fd' = fd" "d' = d" "l' = l" using op by auto
  have "isPCIUncore d" using False inv fd(1) by (auto simp: daemon_inv_def fd_pci_Some split: if_splits)
  moreover have "0 < fd \<longrightarrow> (\<exists>p. device_file d s i = Some p \<and> KOpen p fd \<in> set l)"
    using inv(2) fd(1) by (auto simp: opened_slots_def)
  ultimately show ?thesis using inv pci_slot_allowed [OF inv(1) _ fd ok] by (simp add: e)
qed

section \<open>One request\<close>

text \<open>The log grows by permitted accesses only.\<close>

definition log_ext :: "daemon \<Rightarrow> AccessDataRecord set \<Rightarrow> kaccess list \<Rightarrow> kaccess list \<Rightarrow> bool" where
  "log_ext d R l l' \<longleftrightarrow> (\<exists>new. l' = l @ new \<and> permitted_log d R l new)"

lemma log_ext_refl [simp]: "log_ext d R l l"
  by (simp add: log_ext_def)

lemma log_ext_snoc [simp]: "log_ext d R l (l @ [a]) = permitted_access d R l a"
  by (simp add: log_ext_def)

lemma log_ext_trans: "\<lbrakk>log_ext d R l l'; log_ext d R l' l''\<rbrakk> \<Longrightarrow> log_ext d R l l''"
  unfolding log_ext_def by (metis append.assoc permitted_log_append)

lemma log_ext_mono: "\<lbrakk>log_ext d R l l'; R \<subseteq> R'\<rbrakk> \<Longrightarrow> log_ext d R' l l'"
  unfolding log_ext_def using permitted_log_mono by blast

lemma same_config_log_ext: "same_config d d' \<Longrightarrow> log_ext d' R l l' = log_ext d R l l'"
  by (simp add: log_ext_def same_config_permitted)

lemma log_ext_set: "log_ext d R l l' \<Longrightarrow> set l \<subseteq> set l'"
  by (auto simp: log_ext_def)

definition daemon_safe :: "daemon \<Rightarrow> kaccess list \<Rightarrow> bool" where
  "daemon_safe d l \<longleftrightarrow> daemon_inv d \<and> opened_slots d l"

definition step_safe :: "daemon \<Rightarrow> AccessDataRecord set \<Rightarrow> kaccess list \<Rightarrow> daemon \<Rightarrow> kaccess list \<Rightarrow> bool" where
  "step_safe d R l d' l' \<longleftrightarrow> daemon_safe d' l' \<and> same_config d d' \<and> log_ext d R l l'"

lemma step_safe_refl: "daemon_safe d l \<Longrightarrow> step_safe d R l d l"
  by (simp add: step_safe_def)

lemma step_safe_access: "\<lbrakk>daemon_safe d l; permitted_access d R l a\<rbrakk> \<Longrightarrow> step_safe d R l d (l @ [a])"
  by (auto simp: step_safe_def daemon_safe_def intro: opened_slots_mono)

lemma msr_read_safe:
  assumes "daemon_safe d l" "msr_read (logged K) d r (k, l) = Some (r', (k', l'))" "ad_type r = DAEMON_READ" "ad_device r = MSR_DEV"
  shows "step_safe d {r} l d l'"
proof -
  obtain fd where fd: "arr_get (FD_MSR d) (uint (ad_cpu r)) = Some fd" using assms(2) by (auto simp: msr_read_def Let_def bind_Some_iff)
  then have "l' = l \<or> l' = l @ [KRead fd 8 (ad_reg r)] \<and> 0 < fd \<and> allowed d (ad_reg r)"
    using assms(2) by (auto simp: msr_read_def Let_def logged_def split: if_splits option.splits prod.splits)
  then show ?thesis
    using assms(1,3,4) fd by (auto intro!: step_safe_refl step_safe_access simp: serves_def)
qed

lemma msr_write_safe:
  assumes "daemon_safe d l" "msr_write (logged K) d r (k, l) = Some (r', (k', l'))" "ad_type r = DAEMON_WRITE" "ad_device r = MSR_DEV"
  shows "step_safe d {r} l d l'"
proof -
  obtain fd where fd: "arr_get (FD_MSR d) (uint (ad_cpu r)) = Some fd" using assms(2) by (auto simp: msr_write_def Let_def bind_Some_iff)
  then have "l' = l \<or> l' = l @ [KWrite fd 8 (ad_reg r) (ad_data r)] \<and> 0 < fd \<and> allowed d (ad_reg r)"
    using assms(2) by (auto simp: msr_write_def Let_def logged_def split: if_splits prod.splits)
  then show ?thesis
    using assms(1,3,4) fd by (auto intro!: step_safe_refl step_safe_access simp: serves_def)
qed

text \<open>
  The outcomes of a defined PCI request: the slot is unavailable, the register is refused, or the
  slot has been opened and is used.
\<close>

lemma pci_read_cases:
  assumes "pci_read K d r k = Some (r', d', k')"
  obtains (nodev) "d' = d" "k' = k"
  | (refused) "pci_permitted d (ad_device r) (ad_reg r) = Some False" "d' = d" "k' = k"
  | (use) fd fd1 k1 where "fd_pci d (ad_cpu r) (ad_device r) = Some fd" "fd \<noteq> - 2"
      "pci_permitted d (ad_device r) (ad_reg r) = Some True"
      "(if fd = 0 then pci_open K d (ad_cpu r) (ad_device r) k else Some (fd, d, k)) = Some (fd1, d', k1)"
      "k' = k1 \<or> 0 < fd1 \<and> k' = snd (sys_pread K fd1 4 (ad_reg r) k1)"
proof (cases "fd_pci d (ad_cpu r) (ad_device r)")
  case (Some fd)
  then show ?thesis
    using assms nodev refused use
    by (cases "pci_permitted d (ad_device r) (ad_reg r)")
      (auto simp: pci_read_def Let_def bind_Some_iff split: if_splits option.splits prod.splits)
qed (use assms in \<open>simp add: pci_read_def Let_def\<close>)

lemma pci_write_cases:
  assumes "pci_write K d r k = Some (r', d', k')"
  obtains (nodev) "d' = d" "k' = k"
  | (refused) "pci_permitted d (ad_device r) (ad_reg r) = Some False" "d' = d" "k' = k"
  | (use) fd fd1 k1 where "fd_pci d (ad_cpu r) (ad_device r) = Some fd" "fd \<noteq> - 2"
      "pci_permitted d (ad_device r) (ad_reg r) = Some True"
      "(if fd = 0 then pci_open K d (ad_cpu r) (ad_device r) k else Some (fd, d, k)) = Some (fd1, d', k1)"
      "k' = k1 \<or> 0 < fd1 \<and> k' = snd (sys_pwrite K fd1 4 (ad_reg r) (ucast (ucast (ad_data r) :: u32)) k1)"
proof (cases "fd_pci d (ad_cpu r) (ad_device r)")
  case (Some fd)
  then show ?thesis
    using assms nodev refused use
    by (cases "pci_permitted d (ad_device r) (ad_reg r)")
      (auto simp: pci_write_def Let_def bind_Some_iff split: if_splits prod.splits)
qed (use assms in \<open>simp add: pci_write_def Let_def\<close>)

lemma log_pread: "snd (snd (sys_pread (logged K) fd n r s)) = snd s @ [KRead fd n r]"
  by (cases s) (simp add: logged_def split_def Let_def)

lemma log_pwrite: "snd (snd (sys_pwrite (logged K) fd n r w s)) = snd s @ [KWrite fd n r w]"
  by (cases s) (simp add: logged_def split_def Let_def)

lemma log_send: "snd (snd (sys_send (logged K) fd m s)) = snd s"
  by (cases s) (simp add: logged_def split_def Let_def)

text \<open>The device file is opened if need be, then at most one access follows.\<close>

lemma pci_use_safe:
  assumes "daemon_safe d l" "fd_pci d (ad_cpu r) (ad_device r) = Some fd" "fd \<noteq> - 2"
    and "pci_permitted d (ad_device r) (ad_reg r) = Some True" "ad_device r \<noteq> MSR_DEV" "ad_type r \<in> {DAEMON_READ, DAEMON_WRITE}"
    and "(if fd = 0 then pci_open (logged K) d (ad_cpu r) (ad_device r) (k, l) else Some (fd, d, (k, l))) = Some (fd1, d', (k1, l1))"
  shows "step_safe d {r} l d' l1" "0 < fd1 \<Longrightarrow> serves d' l1 r fd1 4"
proof -
  have s: "daemon_inv d' \<and> same_config d d' \<and> opened_slots d' l1 \<and> pci_reg_allowed d (ad_device r) (ad_reg r) \<and>
    (l1 = l \<or> (\<exists>p. device_file d (ad_cpu r) (ad_device r) = Some p \<and> l1 = l @ [KOpen p fd1])) \<and>
    (0 < fd1 \<longrightarrow> (\<exists>p. device_file d (ad_cpu r) (ad_device r) = Some p \<and> KOpen p fd1 \<in> set l1))"
    using assms(1) unfolding daemon_safe_def by (intro pci_slot_safe [OF _ _ assms(2-4,7)]) auto
  have "permitted_access d {r} l (KOpen p fd1)" if "device_file d (ad_cpu r) (ad_device r) = Some p" for p
    using that s assms(5,6) by simp
  then show "step_safe d {r} l d' l1" using s unfolding step_safe_def daemon_safe_def by auto
  show "0 < fd1 \<Longrightarrow> serves d' l1 r fd1 4"
    using s assms(5) same_config_device [of d d'] unfolding serves_def by auto
qed

lemma step_safe_trans: "\<lbrakk>step_safe d R l d1 l1; step_safe d1 R l1 d2 l2\<rbrakk> \<Longrightarrow> step_safe d R l d2 l2"
  by (meson log_ext_trans same_config_log_ext same_config_trans step_safe_def)

lemma step_safe_mono: "\<lbrakk>step_safe d R l d' l'; R \<subseteq> R'\<rbrakk> \<Longrightarrow> step_safe d R' l d' l'"
  by (auto simp: step_safe_def intro: log_ext_mono)

lemma pci_read_safe:
  assumes "daemon_safe d l" "pci_read (logged K) d r (k, l) = Some (r', d', (k', l'))" "ad_type r = DAEMON_READ" "ad_device r \<noteq> MSR_DEV"
  shows "step_safe d {r} l d' l'"
  using assms(2)
proof (cases rule: pci_read_cases)
  case (use fd fd1 k1)
  obtain k2 l2 where k1: "k1 = (k2, l2)" by (cases k1)
  note u = pci_use_safe [OF assms(1) use(1-3) assms(4) _ use(4) [unfolded k1]]
  have s: "step_safe d {r} l d' l2" using u(1) assms(3) by simp
  have "permitted_access d' {r} l2 (KRead fd1 4 (ad_reg r))" if "0 < fd1" using u(2) [OF _ that] assms(3) by simp
  then show ?thesis
    using use(5) log_pread [of K fd1 4 "ad_reg r" k1] s step_safe_trans [OF s step_safe_access]
    by (auto simp: k1 step_safe_def dest: sym)
qed (use assms(1) in \<open>simp_all add: step_safe_def\<close>)

lemma pci_write_safe:
  assumes "daemon_safe d l" "pci_write (logged K) d r (k, l) = Some (r', d', (k', l'))" "ad_type r = DAEMON_WRITE" "ad_device r \<noteq> MSR_DEV"
  shows "step_safe d {r} l d' l'"
  using assms(2)
proof (cases rule: pci_write_cases)
  case (use fd fd1 k1)
  obtain k2 l2 where k1: "k1 = (k2, l2)" by (cases k1)
  note u = pci_use_safe [OF assms(1) use(1-3) assms(4) _ use(4) [unfolded k1]]
  have s: "step_safe d {r} l d' l2" using u(1) assms(3) by simp
  have "permitted_access d' {r} l2 (KWrite fd1 4 (ad_reg r) (ucast (ucast (ad_data r) :: u32)))" if "0 < fd1"
    using u(2) [OF _ that] assms(3) by simp
  then show ?thesis
    using use(5) log_pwrite [of K fd1 4 "ad_reg r" "ucast (ucast (ad_data r) :: u32)" k1] s step_safe_trans [OF s step_safe_access]
    by (auto simp: k1 step_safe_def dest: sym)
qed (use assms(1) in \<open>simp_all add: step_safe_def\<close>)

lemma handle_record_safe:
  assumes "daemon_safe d l" "handle_record (logged K) d r (k, l) = Some (r', d', (k', l'))"
  shows "step_safe d {r} l d' l'"
  using assms
  by (auto simp: handle_record_def bind_Some_iff split: if_splits
      intro: step_safe_refl msr_read_safe msr_write_safe pci_read_safe pci_write_safe)

lemma stop_daemon_safe:
  assumes "daemon_safe d l" "stop_daemon (logged K) d (k, l) = Some (d', (k', l'))"
  shows "step_safe d R l d' l'"
proof -
  have d: "d' = d\<lparr>connfd := - 1\<rparr>" "l' = l"
    using assms(2) by (auto simp: stop_daemon_def kill_client_def bind_Some_iff logged_def split: if_splits)
  have "same_config d d'" "fd_pci d' = fd_pci d" "daemon_inv d' = daemon_inv d"
    by (simp_all add: d(1) same_config_def fd_pci_def fun_eq_iff daemon_inv_def usable_slot_def)
  then show ?thesis
    using assms(1) same_config_device [of d d'] by (simp add: step_safe_def daemon_safe_def opened_slots_def d(2))
qed

lemma daemon_step_safe:
  assumes inv: "daemon_safe d l" and st: "daemon_step (logged K) d inp (k, l) = Some (out, d', (k', l'))"
  shows "step_safe d {r. inp = ReadRecord r} l d' l'"
proof (cases "\<exists>r. inp = ReadRecord r \<and> ad_type r \<noteq> DAEMON_EXIT")
  case True
  then obtain r where r: "inp = ReadRecord r" "ad_type r \<noteq> DAEMON_EXIT" by blast
  then obtain r' d1 k1 l1 where h: "handle_record (logged K) d r (k, l) = Some (r', d1, (k1, l1))"
      and out: "(out, d', (k', l')) = (case sys_send (logged K) (connfd d1) r' (k1, l1) of
        (True, k'') \<Rightarrow> (Replied r', d1, k'') | (False, k'') \<Rightarrow> (SendFailed, d1, k''))"
    using st by (auto simp: daemon_step_def bind_Some_iff)
  have "d' = d1 \<and> l' = l1"
    using out log_send [of K "connfd d1" r' "(k1, l1)"] by (auto split: bool.splits prod.splits)
  then show ?thesis using handle_record_safe [OF inv h] r(1) by simp
next
  case False
  then have "stop_daemon (logged K) d (k, l) = Some (d', (k', l'))"
    using st by (auto simp: daemon_step_def bind_Some_iff split: client_input.splits)
  then show ?thesis by (rule stop_daemon_safe [OF inv])
qed

lemma daemon_run_safe:
  "\<lbrakk>daemon_safe d l; daemon_run (logged K) d is (k, l) = Some (outs, d', (k', l'))\<rbrakk> \<Longrightarrow>
     step_safe d {r. ReadRecord r \<in> set is} l d' l'"
proof (induction "is" arbitrary: d k l outs)
  case Nil
  then show ?case by (simp add: step_safe_refl)
next
  case (Cons i "is")
  then obtain out d1 k1 l1 where st: "daemon_step (logged K) d i (k, l) = Some (out, d1, (k1, l1))"
    by (auto split: option.splits)
  have safe: "step_safe d {r. ReadRecord r \<in> set (i # is)} l d1 l1"
    using daemon_step_safe [OF Cons.prems(1) st] by (rule step_safe_mono) auto
  then have inv: "daemon_safe d1 l1" by (simp add: step_safe_def)
  have "step_safe d1 {r. ReadRecord r \<in> set (i # is)} l1 d' l'"
    if "daemon_run (logged K) d1 is (k1, l1) = Some (outs', d', (k', l'))" for outs'
    using Cons.IH [OF inv that] by (rule step_safe_mono) auto
  then show ?case
    using Cons.prems(2) st safe by (cases out) (auto split: option.splits intro: step_safe_trans)
qed

section \<open>Start-up establishes the invariant\<close>

definition table_ok :: "PciDevice list \<Rightarrow> bool" where
  "table_ok devs \<longleftrightarrow> length devs = MAX_NUM_PCI_DEVICES \<and>
     (\<forall>i<MAX_NUM_PCI_DEVICES. 0 < i \<and> pci_path (devs ! i) \<noteq> None \<longrightarrow> pci_type (devs ! i) \<noteq> NODEVTYPE)"

lemma pci_table_ok:
  assumes "\<forall>(i, pd)\<in>set entries. 0 < i \<longrightarrow> pci_type pd \<noteq> NODEVTYPE"
  shows "table_ok (pci_table entries)"
  using assms by (auto simp: table_ok_def pci_table_def pci_zero_def dest: map_of_SomeD split: option.splits)

lemmas device_tables =
  sandybridgeEP_pci_devices_def ivybridgeEP_pci_devices_def haswellEP_pci_devices_def
  broadwelld_pci_devices_def

lemma daemon_devices_ok: "daemon_devices model = Some devs \<Longrightarrow> table_ok devs"
  by (auto simp: daemon_devices_def device_tables pci_device_def split: if_splits intro!: pci_table_ok)

lemma select_policy_pci:
  assumes "select_policy family model = Some p"
  shows "if dp_isPCIUncore p then dp_allowedPci p \<noteq> None \<and> daemon_devices model \<noteq> None
    else dp_allowedPci p = None"
  using assms by (auto simp: select_policy_def daemon_devices_def split: if_splits)

lemma open_msr_files_length:
  "open_msr_files K is fds k = Some (fds', k') \<Longrightarrow> length fds' = length fds"
  by (induction "is" arbitrary: fds k) (fastforce simp: Let_def split_def split: if_splits)+

lemma discover_buses_props:
  assumes "discover_buses K cntr buses k = Some (n, buses', k')"
  shows "length buses' = length buses \<and> (BusNull \<notin> set buses \<longrightarrow> BusNull \<notin> set buses')"
  using assms
proof (induction K cntr buses k rule: discover_buses.induct)
  case (1 K cntr buses k)
  obtain sbus k1 where g: "getBusFromSocket K cntr k = (sbus, k1)" by fastforce
  show ?case
    using "1.prems" "1.IH" [OF refl g [symmetric]] g
    by (subst (asm) discover_buses.simps)
      (auto dest!: subsetD [OF set_update_subset_insert] split: if_splits)
qed

definition pci_ready :: "daemon \<Rightarrow> bool" where
  "pci_ready d \<longleftrightarrow> daemon_inv d \<and> isPCIUncore d \<and> BusNull \<notin> set (socket_bus d) \<and>
     (\<exists>devs. pci_devices_daemon d = Some devs \<and> table_ok devs)"

lemma online_inv:
  assumes "daemon_inv d" "isPCIUncore d" "pci_devices_daemon d = Some devs" "i < length devs"
  shows "daemon_inv (d\<lparr>pci_devices_daemon := Some (devs[i := (devs ! i)\<lparr>pci_online := True\<rparr>])\<rparr>)"
  using assms by (auto simp: daemon_inv_def usable_slot_def nth_list_update)

lemma online_table: "table_ok devs \<Longrightarrow> table_ok (devs[i := (devs ! i)\<lparr>pci_online := True\<rparr>])"
  by (cases "i < length devs") (auto simp: table_ok_def nth_list_update)

lemma probe_device_ready:
  assumes r: "pci_ready d" and i: "0 < i" and p: "probe_device K j i d k = Some (d', k')"
  shows "pci_ready d' \<and> socket_bus d' = socket_bus d"
proof (cases "d' = d")
  case False
  obtain devs where devs: "pci_devices_daemon d = Some devs" "table_ok devs"
    using r by (auto simp: pci_ready_def)
  from False p devs have b: "i < length devs" "j < length (FD_PCI d)" "j < length (socket_bus d)"
      "pci_path (devs ! i) \<noteq> None"
    and d': "d' = d\<lparr>FD_PCI := (FD_PCI d)[j := (FD_PCI d ! j)[i := 0]],
        pci_devices_daemon := Some (devs[i := (devs ! i)\<lparr>pci_online := True\<rparr>])\<rparr>"
    by (auto simp: probe_device_def bind_Some_iff arr_get_def arr_set_def Let_def split_def
        split: option.splits if_splits)
  have inv: "daemon_inv d" "isPCIUncore d" and bus: "BusNull \<notin> set (socket_bus d)"
    using r by (auto simp: pci_ready_def)
  have len: "j < MAX_NUM_NODES" "i < MAX_NUM_PCI_DEVICES"
    using b inv devs by (auto simp: daemon_inv_def table_ok_def)
  have "usable_slot d devs j i"
    using b bus devs(2) i len by (auto simp: usable_slot_def table_ok_def dest: nth_mem)
  note upd = fd_update_inv [OF inv devs(1) this len, of 0]
  show ?thesis
    using online_inv [OF upd, of devs i] devs b(1) inv(2) bus
    by (simp add: d' pci_ready_def online_table)
qed (use r in simp)

lemma probe_devices_ready:
  "\<lbrakk>pci_ready d; \<forall>(j, i)\<in>set ps. 0 < i; probe_devices K ps d k = Some (d', k')\<rbrakk> \<Longrightarrow>
     pci_ready d' \<and> socket_bus d' = socket_bus d"
proof (induction ps arbitrary: d k)
  case (Cons p ps)
  obtain j i where p: "p = (j, i)" by (cases p)
  then obtain d1 k1 where st: "probe_device K j i d k = Some (d1, k1)"
      and rest: "probe_devices K ps d1 k1 = Some (d', k')"
    using Cons.prems(3) by (auto split: option.splits)
  then have "pci_ready d1 \<and> socket_bus d1 = socket_bus d"
    using probe_device_ready [OF Cons.prems(1) _ st] Cons.prems(2) p by simp
  then show ?case using Cons.IH [OF _ _ rest] Cons.prems(2) by simp
qed simp

lemma pci_init_ready:
  assumes "length (FD_MSR d) = MAX_NUM_THREADS" "isPCIUncore d" "allowedPci d \<noteq> None"
    and "daemon_devices model \<noteq> None" and "pci_init K model d k = Some (d', k')"
    and "discover_buses K 0 (replicate MAX_NUM_NODES (BusLiteral ''N-A'')) k = Some (n, buses, k1)"
  shows "pci_ready d' \<and> socket_bus d' = buses"
proof -
  obtain devs where devs: "daemon_devices model = Some devs" using assms(4) by blast
  define d2 where "d2 = d\<lparr>pci_devices_daemon := Some devs,
      FD_PCI := replicate MAX_NUM_NODES (replicate MAX_NUM_PCI_DEVICES (- 2)), socket_bus := buses\<rparr>"
  have "length buses = MAX_NUM_NODES" "BusNull \<notin> set buses"
    using discover_buses_props [OF assms(6)] by auto
  then have "pci_ready d2"
    using assms(1-3) daemon_devices_ok [OF devs]
    by (auto simp: d2_def pci_ready_def daemon_inv_def table_ok_def)
  moreover have "probe_devices K (List.product [0..<n] [1..<MAX_NUM_PCI_DEVICES]) d2 k1 = Some (d', k')"
    using assms(5,6) devs by (simp add: pci_init_def Let_def d2_def)
  ultimately show ?thesis
    using probe_devices_ready [of d2 "List.product [0..<n] [1..<MAX_NUM_PCI_DEVICES]" K k1 d' k']
    by (auto simp: d2_def)
qed

lemma daemon_start_inv:
  assumes "daemon_start K n eax sfd cfd k = Some (Some (d, k1))"
  shows "daemon_inv d"
proof -
  obtain p fds k0 where p: "select_policy (cpuid_family eax) (cpuid_model eax) = Some p"
      and fds: "open_msr_files K [0..<n] (replicate MAX_NUM_THREADS (- 1)) k = Some (fds, k0)"
    using assms by (auto simp: daemon_start_def daemon_initial_def bind_Some_iff Let_def split: option.splits)
  have len: "length fds = MAX_NUM_THREADS" using open_msr_files_length [OF fds] by simp
  define d1 where "d1 = (daemon_initial sfd cfd p)\<lparr>FD_MSR := fds\<rparr>"
  note pol = select_policy_pci [OF p]
  show ?thesis
  proof (cases "dp_isPCIUncore p")
    case True
    then have init: "pci_init K (cpuid_model eax) d1 k0 = Some (d, k1)"
      using assms p fds by (auto simp: daemon_start_def bind_Some_iff d1_def daemon_initial_def Let_def)
    then obtain m buses k2 where "discover_buses K 0 (replicate MAX_NUM_NODES (BusLiteral ''N-A'')) k0 =
        Some (m, buses, k2)"
      by (auto simp: pci_init_def bind_Some_iff Let_def)
    with pci_init_ready [OF _ _ _ _ init this] True pol len show ?thesis
      by (simp add: d1_def daemon_initial_def pci_ready_def)
  next
    case False
    then have "d = d1"
      using assms p fds by (auto simp: daemon_start_def bind_Some_iff d1_def daemon_initial_def Let_def)
    then show ?thesis using False pol len by (auto simp: d1_def daemon_initial_def daemon_inv_def)
  qed
qed

section \<open>What start-up opens\<close>

text \<open>The log only grows, and all descriptors of PCI devices are closed again.\<close>

lemma read_cpubusno_log: "read_cpubusno (logged K) b s = (v, s') \<Longrightarrow> set (snd s) \<subseteq> set (snd s')"
  by (cases s) (auto simp: read_cpubusno_def logged_def split_def Let_def split: if_splits option.splits prod.splits)

lemma getBusLoop_log: "getBusLoop n (logged K) b s = (v, s') \<Longrightarrow> set (snd s) \<subseteq> set (snd s')"
proof (induction n arbitrary: b s)
  case 0
  then show ?case using read_cpubusno_log [of K b s] by (auto split: option.splits prod.splits)
next
  case (Suc n)
  obtain w s1 where r: "read_cpubusno (logged K) b s = (w, s1)" by (metis surj_pair)
  have "set (snd s1) \<subseteq> set (snd s')"
    using Suc.prems Suc.IH r by (cases w) (auto split: if_splits)
  then show ?case using read_cpubusno_log [OF r] by blast
qed

lemma discover_buses_log:
  assumes "discover_buses (logged K) cntr buses s = Some (n, buses', s')"
  shows "set (snd s) \<subseteq> set (snd s')"
  using assms
proof (induction "length buses - cntr" arbitrary: cntr buses s rule: less_induct)
  case less
  obtain v s1 where g: "getBusFromSocket (logged K) cntr s = (v, s1)" by (metis surj_pair)
  have "set (snd s1) \<subseteq> set (snd s')"
    using less.prems g less.hyps [of "buses[cntr := BusHeap (hex2 v @ ''/'')]" "Suc cntr" s1]
    by (subst (asm) discover_buses.simps) (auto split: if_splits)
  then show ?case using getBusLoop_log g unfolding getBusFromSocket_def by blast
qed

definition slots_closed :: "daemon \<Rightarrow> bool" where
  "slots_closed d \<longleftrightarrow> (\<forall>row\<in>set (FD_PCI d). \<forall>fd\<in>set row. fd \<le> 0)"

lemma slots_closed_opened: "slots_closed d \<Longrightarrow> opened_slots d l"
  unfolding slots_closed_def opened_slots_def fd_pci_Some by (metis leD nth_mem)

lemma probe_device_start:
  assumes "probe_device (logged K) j i d s = Some (d', s')" "slots_closed d"
  shows "slots_closed d' \<and> set (snd s) \<subseteq> set (snd s') \<and> FD_MSR d' = FD_MSR d \<and> allowed d' = allowed d \<and> allowedPci d' = allowedPci d"
proof -
  have "slots_closed (d\<lparr>FD_PCI := (FD_PCI d)[j := (FD_PCI d ! j)[i := 0]]\<rparr>)" if "j < length (FD_PCI d)"
    using assms(2) that unfolding slots_closed_def
    by (auto dest!: subsetD [OF set_update_subset_insert])
  moreover have "slots_closed (d\<lparr>FD_PCI := t, pci_devices_daemon := v\<rparr>) = slots_closed (d\<lparr>FD_PCI := t\<rparr>)" for t v
    by (simp add: slots_closed_def)
  ultimately show ?thesis
    using assms by (cases s) (auto simp: probe_device_def bind_Some_iff arr_get_def arr_set_def logged_def Let_def split_def
        split: option.splits if_splits)
qed

lemma probe_devices_start:
  "\<lbrakk>probe_devices (logged K) ps d s = Some (d', s'); slots_closed d\<rbrakk> \<Longrightarrow>
     slots_closed d' \<and> set (snd s) \<subseteq> set (snd s') \<and> FD_MSR d' = FD_MSR d \<and> allowed d' = allowed d \<and> allowedPci d' = allowedPci d"
proof (induction ps arbitrary: d s)
  case (Cons p ps)
  obtain j i d1 s1 where p: "p = (j, i)" "probe_device (logged K) j i d s = Some (d1, s1)" "probe_devices (logged K) ps d1 s1 = Some (d', s')"
    using Cons.prems(1) by (cases p) (auto split: option.splits)
  from probe_device_start [OF p(2) Cons.prems(2)] Cons.IH [OF p(3)] show ?case by auto
qed simp

text \<open>The MSR file of a thread is opened under one of its two names.\<close>

definition msr_file_opened :: "kaccess list \<Rightarrow> nat \<Rightarrow> int \<Rightarrow> bool" where
  "msr_file_opened l c fd \<longleftrightarrow> KOpen (''/dev/cpu/'' @ dec_string c @ ''/msr'') fd \<in> set l \<or> KOpen (''/dev/msr'' @ dec_string c) fd \<in> set l"

lemma log_open: "sys_open (logged K) p s = (fst (sys_open K p (fst s)), (snd (sys_open K p (fst s)), snd s @ [KOpen p (fst (sys_open K p (fst s)))]))"
  by (cases s) (simp add: logged_def split_def Let_def)

lemma open_msr_files_opened:
  assumes "open_msr_files (logged K) is fds s = Some (fds', s')"
  shows "set (snd s) \<subseteq> set (snd s') \<and> (\<forall>c<length fds. fds' ! c = fds ! c \<or> c \<in> set is \<and> msr_file_opened (snd s') c (fds' ! c))"
  using assms
proof (induction "is" arbitrary: fds s)
  case (Cons i "is")
  let ?p1 = "''/dev/cpu/'' @ dec_string i @ ''/msr''" and ?p2 = "''/dev/msr'' @ dec_string i"
  obtain fd1 s1 where o1: "sys_open (logged K) ?p1 s = (fd1, s1)" by (metis surj_pair)
  obtain fd s2 where o2: "(if fd1 < 0 then sys_open (logged K) ?p2 s1 else (fd1, s1)) = (fd, s2)" by (metis surj_pair)
  have 1: "i < length fds" "open_msr_files (logged K) is (fds[i := fd]) s2 = Some (fds', s')"
    using Cons.prems o1 o2 by (auto simp del: append_Cons append_Nil split: if_splits)
  have "snd s1 = snd s @ [KOpen ?p1 fd1]" using o1 unfolding log_open by auto
  moreover have "s2 = s1 \<and> fd = fd1 \<or> snd s2 = snd s1 @ [KOpen ?p2 fd]"
    using o2 unfolding log_open by (cases "fd1 < 0") auto
  ultimately have 2: "set (snd s) \<subseteq> set (snd s2)" "msr_file_opened (snd s2) i fd" by (auto simp: msr_file_opened_def)
  note IH = Cons.IH [OF 1(2)]
  have "msr_file_opened (snd s') i fd" using 2(2) IH unfolding msr_file_opened_def by blast
  then show ?case using IH 1(1) 2(1) by (auto simp: nth_list_update split: if_splits)
qed simp

lemma daemon_start_opened:
  assumes "daemon_start (logged K) n eax sfd cfd s = Some (Some (d, s1))"
  shows "\<exists>p. select_policy (cpuid_family eax) (cpuid_model eax) = Some p \<and> allowed d = dp_allowed p \<and> allowedPci d = dp_allowedPci p \<and>
    slots_closed d \<and> (\<forall>c fd. arr_get (FD_MSR d) (int c) = Some fd \<and> 0 < fd \<longrightarrow> c < n \<and> msr_file_opened (snd s1) c fd)"
proof -
  obtain p fds s0 where p: "select_policy (cpuid_family eax) (cpuid_model eax) = Some p"
      and fds: "open_msr_files (logged K) [0..<n] (replicate MAX_NUM_THREADS (- 1)) s = Some (fds, s0)"
    using assms by (auto simp: daemon_start_def daemon_initial_def bind_Some_iff Let_def split: option.splits)
  have len: "length fds = MAX_NUM_THREADS" using open_msr_files_length [OF fds] by simp
  have msr: "c < n \<and> msr_file_opened (snd s0) c fd" if "arr_get fds (int c) = Some fd" "0 < fd" for c fd
  proof -
    have "c < MAX_NUM_THREADS" "fds ! c = fd" using that(1) len by (simp_all add: arr_get_Some)
    then show ?thesis using open_msr_files_opened [OF fds] that(2) by auto
  qed
  define d1 where "d1 = (daemon_initial sfd cfd p)\<lparr>FD_MSR := fds\<rparr>"
  have "slots_closed d \<and> set (snd s0) \<subseteq> set (snd s1) \<and> FD_MSR d = fds \<and> allowed d = dp_allowed p \<and> allowedPci d = dp_allowedPci p"
  proof (cases "dp_isPCIUncore p")
    case True
    then have init: "pci_init (logged K) (cpuid_model eax) d1 s0 = Some (d, s1)"
      using assms p fds by (auto simp: daemon_start_def bind_Some_iff d1_def daemon_initial_def Let_def)
    define d2 where "d2 buses = d1\<lparr>pci_devices_daemon := daemon_devices (cpuid_model eax), 
      FD_PCI := replicate MAX_NUM_NODES (replicate MAX_NUM_PCI_DEVICES (- 2)), socket_bus := buses\<rparr>" for buses
    from init obtain m buses s2 where b: "discover_buses (logged K) 0 (replicate MAX_NUM_NODES (BusLiteral ''N-A'')) s0 = Some (m, buses, s2)"
        "probe_devices (logged K) (List.product [0..<m] [1..<MAX_NUM_PCI_DEVICES]) (d2 buses) s2 = Some (d, s1)"
      by (auto simp: pci_init_def bind_Some_iff Let_def d2_def)
    have "slots_closed (d2 buses)" by (simp add: slots_closed_def d2_def)
    from probe_devices_start [OF b(2) this] discover_buses_log [OF b(1)] show ?thesis
      by (auto simp: d2_def d1_def daemon_initial_def)
  next
    case False
    then have "d = d1 \<and> s1 = s0"
      using assms p fds by (auto simp: daemon_start_def bind_Some_iff d1_def daemon_initial_def Let_def)
    then show ?thesis by (simp add: d1_def daemon_initial_def slots_closed_def)
  qed
  then show ?thesis using p msr unfolding msr_file_opened_def by blast
qed

end
