(* ===== verification/AccessDaemon_Properties.thy ===== *)
theory AccessDaemon_Properties
  imports AccessDaemon_Safety
begin

text \<open>
  The properties of the access daemon: which registers a client can reach, for which requests the
  handlers are defined, and what the replies contain.
\<close>

section \<open>A kernel for concrete runs\<close>

text \<open>
  The only device files are the MSR file of thread 0 and the PCI configuration file of bus 00; every register
  holds its own number.
\<close>

definition demo_kernel :: "unit kernel_ops" where
  "demo_kernel = \<lparr>
     sys_open = (\<lambda>p k. (if p = ''/dev/cpu/0/msr'' then 3 else - 1, k)),
     sys_close = (\<lambda>fd k. k),
     sys_pread = (\<lambda>fd n r k. (Some (ucast r), k)),
     sys_pwrite = (\<lambda>fd n r w k. (int n, k)),
     sys_send = (\<lambda>fd m k. (True, k))\<rparr>"

definition demo_daemon :: daemon where
  "demo_daemon =
     \<lparr>sockfd = 4, connfd = 5, allowed = allowed_haswell, allowedPci = None,
      FD_MSR = (replicate MAX_NUM_THREADS (- 1))[0 := 3],
      FD_PCI = replicate MAX_NUM_NODES (replicate MAX_NUM_PCI_DEVICES 0),
      isPCIUncore = False, pci_devices_daemon = None,
      socket_bus = replicate MAX_NUM_NODES BusNull\<rparr>"

definition demo_record :: "u32 \<Rightarrow> u32 \<Rightarrow> u32 \<Rightarrow> AccessDataRecord" where
  "demo_record c r t = \<lparr>ad_cpu = c, ad_reg = r, ad_data = 7, ad_device = MSR_DEV, ad_type = t,
     ad_errorcode = ERR_NOERROR\<rparr>"

lemma demo_start: "daemon_start demo_kernel 1 0x306C3 4 5 () = Some (Some (demo_daemon, ()))"
  by (simp add: daemon_start_def select_policy_def cpuid_family_def cpuid_model_def demo_daemon_def
      daemon_initial_def demo_kernel_def dec_string_zero MAX_NUM_THREADS_def)

section \<open>Register safety\<close>

text \<open>
  Property C1. Whatever a client sends and whatever the kernel answers, every access of the
  daemon after start-up is justified. It reads for a read request and writes the data of a write request, at
  the register that the request names and on a descriptor above 0. An MSR access goes to a register of the MSR
  allow-list of the processor, on the descriptor of the requested hardware thread, on which start-up opened one of the
  MSR files of this thread. A PCI access goes to a register that the PCI allow-list has for the type of the requested
  device, on a descriptor on which the file of this device and socket was opened before; and files are opened only for
  requests that may access the device.
\<close>

theorem daemon_register_safety:
  assumes "daemon_start (logged K) numHWThreads eax sfd cfd (k0, []) = Some (Some (d, (k1, log0)))"
    and "daemon_run (logged K) d requests (k1, []) = Some (outs, d', (k2, log))"
  shows "(\<exists>p. select_policy (cpuid_family eax) (cpuid_model eax) = Some p \<and> allowed d = dp_allowed p \<and> allowedPci d = dp_allowedPci p) \<and>
    (\<forall>c fd. arr_get (FD_MSR d) (int c) = Some fd \<and> 0 < fd \<longrightarrow> c < numHWThreads \<and> msr_file_opened log0 c fd) \<and>
    permitted_log d {r. ReadRecord r \<in> set requests} [] log"
proof -
  note start = daemon_start_opened [OF assms(1)]
  have "daemon_safe d []"
    using daemon_start_inv [OF assms(1)] start slots_closed_opened by (auto simp: daemon_safe_def)
  from daemon_run_safe [OF this assms(2)] start show ?thesis
    by (auto simp: step_safe_def log_ext_def)
qed

lemma demo_start_logged:
  "daemon_start (logged demo_kernel) 1 0x306C3 4 5 ((), []) = Some (Some (demo_daemon, ((), [KOpen ''/dev/cpu/0/msr'' 3])))"
  by (simp add: daemon_start_def select_policy_def cpuid_family_def cpuid_model_def demo_daemon_def
      daemon_initial_def demo_kernel_def logged_def dec_string_zero MAX_NUM_THREADS_def)

lemma demo_run:
  "daemon_run (logged demo_kernel) demo_daemon
     [ReadRecord (demo_record 0 0x38D DAEMON_READ), ReadRecord (demo_record 0 0x1B DAEMON_WRITE)]
     ((), []) =
   Some ([Replied ((demo_record 0 0x38D DAEMON_READ)\<lparr>ad_data := 0x38D\<rparr>),
          Replied ((demo_record 0 0x1B DAEMON_WRITE)\<lparr>ad_data := 0, ad_errorcode := ERR_RESTREG\<rparr>)],
         demo_daemon, ((), [KRead 3 8 0x38D]))"
  by (simp add: daemon_step_def handle_record_def msr_read_def msr_write_def demo_record_def
      demo_daemon_def logged_def demo_kernel_def arr_get_def msr_policy_defs MAX_NUM_THREADS_def)

theorem daemon_register_safety_witness:
  "permitted_access demo_daemon {r. ReadRecord r \<in> set [ReadRecord (demo_record 0 0x38D DAEMON_READ), ReadRecord (demo_record 0 0x1B DAEMON_WRITE)]}
     [] (KRead 3 8 0x38D) \<and> msr_file_opened [KOpen ''/dev/cpu/0/msr'' 3] 0 3"
proof -
  have "arr_get (FD_MSR demo_daemon) (int 0) = Some 3" by (simp add: demo_daemon_def arr_get_def MAX_NUM_THREADS_def)
  then show ?thesis using daemon_register_safety [OF demo_start_logged demo_run] by fastforce
qed

section \<open>Which requests are handled\<close>

lemma msr_read_None: "msr_read K d r k = None \<longleftrightarrow> length (FD_MSR d) \<le> unat (ad_cpu r)"
  by (auto simp: msr_read_def Let_def bind_None_iff arr_get_def uint_less_iff_unat not_less
      split: if_splits option.splits prod.splits)

lemma msr_write_None: "msr_write K d r k = None \<longleftrightarrow> length (FD_MSR d) \<le> unat (ad_cpu r)"
  by (auto simp: msr_write_def Let_def bind_None_iff arr_get_def uint_less_iff_unat not_less
      split: if_splits prod.splits)

lemma msr_check_None: "msr_check d r = None \<longleftrightarrow> length (FD_MSR d) \<le> unat (ad_cpu r)"
  by (auto simp: msr_check_def Let_def bind_None_iff arr_get_def uint_less_iff_unat not_less)

text \<open>
  Property C26. A request for an MSR is handled without undefined behaviour exactly when the
  processor number the client sent is below the size of the descriptor table or the request type
  is unknown. The daemon does not check the number: any other one makes it read beyond
  \<open>FD_MSR\<close>.
\<close>

theorem msr_request_defined:
  assumes "daemon_start K numHWThreads eax sfd cfd k0 = Some (Some (d, k1))"
    and "ad_device r = MSR_DEV"
  shows "handle_record K' d r k = None \<longleftrightarrow>
    ad_type r \<in> {DAEMON_READ, DAEMON_WRITE, DAEMON_CHECK} \<and> MAX_NUM_THREADS \<le> unat (ad_cpu r)"
proof -
  have "length (FD_MSR d) = MAX_NUM_THREADS"
    using daemon_start_inv [OF assms(1)] by (simp add: daemon_inv_def)
  then show ?thesis
    using assms(2)
    by (auto simp: handle_record_def bind_None_iff msr_read_None msr_write_None msr_check_None)
qed

theorem msr_request_defined_witness:
  "handle_record demo_kernel demo_daemon (demo_record 263 0x38D DAEMON_READ) () = None \<and>
   handle_record demo_kernel demo_daemon (demo_record 262 0x38D DAEMON_READ) () \<noteq> None"
  using msr_request_defined [OF demo_start, of "demo_record 263 0x38D DAEMON_READ" demo_kernel "()"]
    msr_request_defined [OF demo_start, of "demo_record 262 0x38D DAEMON_READ" demo_kernel "()"]
  by (simp add: demo_record_def MAX_NUM_THREADS_def)

text \<open>
  On a processor without PCI devices, the daemon has no bus names and no device table:
  every read or write request for a PCI device that names a slot of the descriptor table makes it
  use a null pointer, and every other one reads beyond that table.
\<close>

lemma fd_pci_no_uncore:
  assumes "daemon_inv d" "\<not> isPCIUncore d" "fd_pci d s i = Some fd"
  shows "fd = 0"
  using assms by (auto simp: daemon_inv_def fd_pci_Some)

lemma pci_open_no_uncore:
  assumes "daemon_inv d" "\<not> isPCIUncore d"
  shows "pci_open K d s i k = None"
  using assms by (auto simp: pci_open_def bind_None_iff daemon_inv_def arr_get_def uint_less_iff_unat)

theorem pci_request_without_uncore:
  assumes "daemon_start K numHWThreads eax sfd cfd k0 = Some (Some (d, k1))" "\<not> isPCIUncore d"
    and "ad_device r \<noteq> MSR_DEV" "ad_type r \<in> {DAEMON_READ, DAEMON_WRITE}"
  shows "handle_record K' d r k = None"
proof -
  have inv: "daemon_inv d" using daemon_start_inv [OF assms(1)] .
  have "pci_permitted d i reg = Some True" for i reg
    using inv assms(2) by (simp add: pci_permitted_def daemon_inv_def)
  then have "pci_read K' d r k = None" "pci_write K' d r k = None"
    using fd_pci_no_uncore [OF inv assms(2)] pci_open_no_uncore [OF inv assms(2), of K']
    by (auto simp: pci_read_def pci_write_def Let_def bind_None_iff split: if_splits)
  then show ?thesis using assms(3,4) by (auto simp: handle_record_def)
qed

theorem pci_request_without_uncore_witness:
  "handle_record demo_kernel demo_daemon ((demo_record 0 0xF4 DAEMON_READ)\<lparr>ad_device := 5\<rparr>) () = None"
  by (rule pci_request_without_uncore [OF demo_start]) (simp_all add: demo_daemon_def demo_record_def)

section \<open>Replies\<close>

lemma msr_reply:
  "msr_read K d r k = Some (r', k') \<Longrightarrow>
     \<exists>v e. r' = r\<lparr>ad_data := v, ad_errorcode := e\<rparr> \<and> (e \<noteq> ERR_NOERROR \<longrightarrow> v = 0)"
  "msr_write K d r k = Some (r', k') \<Longrightarrow> \<exists>e. r' = r\<lparr>ad_errorcode := e\<rparr>"
  "msr_check d r = Some r' \<Longrightarrow> \<exists>e. r' = r\<lparr>ad_errorcode := e\<rparr>"
    apply (cases r; auto simp: msr_read_def bind_Some_iff Let_def split: if_splits option.splits prod.splits)
   apply (cases r; auto simp: msr_write_def bind_Some_iff Let_def split: if_splits prod.splits)
  apply (cases r; auto simp: msr_check_def bind_Some_iff Let_def)
  done

lemma pci_reply:
  "pci_read K d r k = Some (r', d', k') \<Longrightarrow>
     \<exists>v e. r' = r\<lparr>ad_data := v, ad_errorcode := e\<rparr> \<and> (e \<noteq> ERR_NOERROR \<longrightarrow> v = 0)"
  "pci_write K d r k = Some (r', d', k') \<Longrightarrow> \<exists>e. r' = r\<lparr>ad_errorcode := e\<rparr>"
  "pci_check d r = Some r' \<Longrightarrow> \<exists>e. r' = r\<lparr>ad_errorcode := e\<rparr>"
    apply (cases r; auto simp: pci_read_def bind_Some_iff Let_def split_def split: if_splits option.splits)
   apply (cases r; auto simp: pci_write_def bind_Some_iff Let_def split_def split: if_splits)
  apply (cases r; auto simp: pci_check_def bind_Some_iff Let_def)
  done

text \<open>
  A reply repeats the processor, register, device and type of its request, so a client
  can match it; the data of a reply to a write is 0, and so is the data of a reply to a read that
  reports an error.
\<close>

theorem handle_record_reply:
  assumes "handle_record K d r k = Some (r', d', k')"
  shows "ad_cpu r' = ad_cpu r \<and> ad_reg r' = ad_reg r \<and> ad_device r' = ad_device r \<and>
    ad_type r' = ad_type r \<and>
    (ad_type r = DAEMON_WRITE \<or> ad_type r = DAEMON_READ \<and> ad_errorcode r' \<noteq> ERR_NOERROR \<longrightarrow>
       ad_data r' = 0)"
  using assms
  by (auto simp: handle_record_def bind_Some_iff split: if_splits dest!: msr_reply pci_reply)

theorem handle_record_reply_witness:
  "\<exists>r' d' k'. handle_record demo_kernel demo_daemon (demo_record 0 0x1B DAEMON_WRITE) () = Some (r', d', k') \<and>
     ad_data (demo_record 0 0x1B DAEMON_WRITE) = 7 \<and> ad_data r' = 0"
proof -
  obtain r' d' k' where h: "handle_record demo_kernel demo_daemon (demo_record 0 0x1B DAEMON_WRITE) () = Some (r', d', k')"
    using msr_write_None [of demo_kernel demo_daemon "demo_record 0 0x1B DAEMON_WRITE" "()"]
    by (force simp: handle_record_def demo_record_def demo_daemon_def MAX_NUM_THREADS_def bind_Some_iff)
  with handle_record_reply [OF h] show ?thesis by (simp add: demo_record_def)
qed

section \<open>Failed opens and shutdown\<close>

text \<open>
  When opening a device file fails, the failed descriptor is kept: the next read of
  the same device has no defined reply, because the daemon answers it with a local variable that
  was never written and with the success code. (An \<open>open\<close> that fails returns -1.)
\<close>

theorem pci_read_after_failed_open:
  assumes "pci_read K d r k = Some (r', d', k')" "ad_errorcode r' = ERR_OPENFAIL"
    and "\<forall>p s. fst (sys_open K p s) < 0 \<longrightarrow> fst (sys_open K p s) = - 1"
    and "ad_cpu q = ad_cpu r" "ad_device q = ad_device r" "ad_reg q = ad_reg r"
  shows "pci_read K d' q k'' = None"
proof -
  have ok: "pci_permitted d (ad_device r) (ad_reg r) = Some True"
      and fd: "\<exists>p. fst (sys_open K p k) < 0 \<and>
        set_fd_pci d (ad_cpu r) (ad_device r) (fst (sys_open K p k)) = Some d'"
    using assms(1,2)
    by (auto simp: pci_read_def pci_open_def bind_Some_iff Let_def split_def split: if_splits option.splits)
  then have set: "set_fd_pci d (ad_cpu r) (ad_device r) (- 1) = Some d'" using assms(3) by metis
  then have "pci_permitted d' (ad_device r) (ad_reg r) = Some True"
    using ok by (auto simp: set_fd_pci_Some pci_permitted_def split: option.splits)
  moreover have "fd_pci d' (ad_cpu r) (ad_device r) = Some (- 1)"
    using set by (auto simp: set_fd_pci_Some fd_pci_Some)
  ultimately show ?thesis
    using assms(4-6) by (simp add: pci_read_def Let_def)
qed

definition pci_demo_daemon :: daemon where
  "pci_demo_daemon = demo_daemon\<lparr>allowedPci := Some allowed_pci_haswell, isPCIUncore := True,
     pci_devices_daemon := Some haswellEP_pci_devices,
     socket_bus := BusHeap ''7f/'' # replicate 63 (BusLiteral ''N-A'')\<rparr>"

abbreviation (input) pci_demo_record :: AccessDataRecord where
  "pci_demo_record \<equiv> (demo_record 0 0xF4 DAEMON_READ)\<lparr>ad_device := 5\<rparr>"

lemma fd_pci_demo: "fd_pci pci_demo_daemon 0 5 = Some 0"
  by (simp add: fd_pci_Some pci_demo_daemon_def demo_daemon_def MAX_NUM_NODES_def MAX_NUM_PCI_DEVICES_def)

lemma haswell_device_5:
  "arr_get haswellEP_pci_devices 5 =
     Some (pci_device IMC ''14.0'' ''PCI_IMC_DEVICE_0_CH_0'' (Some ''MBOX0'') 0x2FB4)"
  by (simp add: arr_get_def haswellEP_pci_devices_def pci_table_def MAX_NUM_PCI_DEVICES_def)

lemma pci_demo_openfail:
  "\<exists>r' d' k'. pci_read demo_kernel pci_demo_daemon pci_demo_record () = Some (r', d', k') \<and>
     ad_errorcode r' = ERR_OPENFAIL"
proof -
  have ok: "pci_permitted pci_demo_daemon 5 0xF4 = Some True"
    by (simp add: pci_permitted_def pci_demo_daemon_def haswell_device_5 pci_device_def)
  have "arr_get (socket_bus pci_demo_daemon) 0 = Some (BusHeap ''7f/'')"
    by (simp add: arr_get_def pci_demo_daemon_def)
  moreover obtain d' where "set_fd_pci pci_demo_daemon 0 5 (- 1) = Some d'"
    using fd_pci_demo by (simp add: set_fd_pci_Some fd_pci_Some)
  ultimately have "pci_open demo_kernel pci_demo_daemon 0 5 () = Some (- 1, d', ())"
    using haswell_device_5
    by (simp add: pci_open_def pci_device_def demo_kernel_def PCI_ROOT_PATH_def)
      (simp add: pci_demo_daemon_def)
  with ok show ?thesis
    using fd_pci_demo by (auto simp: pci_read_def demo_record_def)
qed

theorem pci_read_after_failed_open_witness:
  "\<exists>r' d' k'. pci_read demo_kernel pci_demo_daemon pci_demo_record () = Some (r', d', k') \<and>
     pci_read demo_kernel d' pci_demo_record () = None"
proof -
  obtain r' d' k' where h: "pci_read demo_kernel pci_demo_daemon pci_demo_record () = Some (r', d', k')"
      "ad_errorcode r' = ERR_OPENFAIL"
    using pci_demo_openfail by blast
  have "pci_read demo_kernel d' pci_demo_record () = None"
    by (rule pci_read_after_failed_open [OF h]) (simp_all add: demo_kernel_def)
  with h show ?thesis by blast
qed

text \<open>Only the found sockets get a bus name on the heap.\<close>

lemma discover_buses_ge:
  "discover_buses K cntr buses k = Some (n, buses', k') \<Longrightarrow> cntr \<le> n"
proof (induction K cntr buses k rule: discover_buses.induct)
  case (1 K cntr buses k)
  obtain sbus k1 where g: "getBusFromSocket K cntr k = (sbus, k1)" by fastforce
  show ?case
    using "1.prems" "1.IH" [OF refl g [symmetric]] g
    by (subst (asm) discover_buses.simps) (auto split: if_splits)
qed

lemma discover_buses_literal:
  assumes "discover_buses K cntr buses k = Some (n, buses', k')" "cntr \<le> n"
    and "n < length buses" "buses ! n = b"
  shows "buses' ! n = b \<and> length buses' = length buses"
  using assms
proof (induction K cntr buses k rule: discover_buses.induct)
  case (1 K cntr buses k)
  obtain sbus k1 where g: "getBusFromSocket K cntr k = (sbus, k1)" by fastforce
  show ?case
  proof (cases "sbus = - 1")
    case True
    then show ?thesis using "1.prems" g by (simp add: discover_buses.simps)
  next
    case False
    then have c: "cntr < length buses"
      and rec: "discover_buses K (Suc cntr) (buses[cntr := BusHeap (hex2 sbus @ ''/'')]) k1 = Some (n, buses', k')"
      using "1.prems"(1) g by (simp_all add: discover_buses.simps [of K cntr] split: if_splits)
    have "Suc cntr \<le> n" using rec by (rule discover_buses_ge)
    then show ?thesis using "1.IH" [OF refl g [symmetric] False c rec] "1.prems" by simp
  qed
qed

lemma probe_device_bus: "probe_device K j i d k = Some (d', k') \<Longrightarrow> socket_bus d' = socket_bus d"
  by (auto simp: probe_device_def bind_Some_iff Let_def split_def split: option.splits if_splits)

lemma probe_devices_bus: "probe_devices K ps d k = Some (d', k') \<Longrightarrow> socket_bus d' = socket_bus d"
proof (induction ps arbitrary: d k)
  case (Cons p ps)
  then obtain j i d1 k1 where "probe_device K j i d k = Some (d1, k1)" "probe_devices K ps d1 k1 = Some (d', k')"
    by (cases p) (auto split: option.splits)
  then show ?case using Cons.IH probe_device_bus by metis
qed simp

lemma free_bus_literal: "BusLiteral b \<in> set buses \<Longrightarrow> free_bus buses = None"
  by (induction buses rule: free_bus.induct) auto

text \<open>
  On a machine with fewer sockets than the bus table has entries, stopping a daemon
  that supports PCI devices frees a string literal: the shutdown is undefined.
\<close>

theorem stop_daemon_frees_literal:
  assumes "pci_init K model d k = Some (d', k')"
    and "discover_buses K 0 (replicate MAX_NUM_NODES (BusLiteral ''N-A'')) k = Some (sockets, buses, k1)"
    and "sockets < MAX_NUM_NODES"
  shows "stop_daemon K' d' s = None"
proof -
  have "socket_bus d' = buses"
    using assms(1,2) by (auto simp: pci_init_def bind_Some_iff Let_def dest!: probe_devices_bus)
  moreover have "buses ! sockets = BusLiteral ''N-A''" "length buses = MAX_NUM_NODES"
    using discover_buses_literal [OF assms(2), of "BusLiteral ''N-A''"] assms(3) by simp_all
  ultimately have "BusLiteral ''N-A'' \<in> set (socket_bus d')"
    using assms(3) by (metis nth_mem)
  then show ?thesis
    by (simp add: stop_daemon_def kill_client_def free_bus_literal)
qed

theorem stop_daemon_frees_literal_witness:
  "\<exists>d' k'. pci_init demo_kernel HASWELL_EP demo_daemon () = Some (d', k') \<and>
     stop_daemon demo_kernel d' () = None"
proof -
  have db: "discover_buses demo_kernel 0 bs () = Some (0, bs, ())" for bs
    by (simp add: discover_buses.simps getBusFromSocket_def read_cpubusno_def demo_kernel_def PCI_ROOT_PATH_def)
  then obtain d' k' where i: "pci_init demo_kernel HASWELL_EP demo_daemon () = Some (d', k')"
    by (simp add: pci_init_def Let_def)
  have "stop_daemon demo_kernel d' () = None"
    by (rule stop_daemon_frees_literal [OF i db]) (simp add: MAX_NUM_NODES_def)
  with i show ?thesis by blast
qed

end
