(* ===== verification/NodeTree.thy ===== *)
theory NodeTree
  imports Likwid_Prelude
begin

text \<open>
  The topology tree of \<open>src/src/tree.c\<close>. A node has an id, a link to its first child and a link to
  its right sibling. Pointers are natural numbers, 0 is NULL; the heap maps addresses to nodes and
  allocates the next unused one. A dereferenced NULL or freed pointer is \<^term>\<open>None\<close>, and so is a
  walk along a cyclic sibling list, which never returns.
\<close>

section \<open>Nodes and heap\<close>

record TreeNode =
  tn_id :: int
  tn_llink :: nat
  tn_rlink :: nat

record tree_heap =
  cells :: "nat \<Rightarrow> TreeNode option"
  brk :: nat

definition empty_heap :: tree_heap where
  "empty_heap = \<lparr>cells = Map.empty, brk = 1\<rparr>"

definition deref :: "tree_heap \<Rightarrow> nat \<Rightarrow> TreeNode option" where
  "deref h p = (if p = 0 then None else cells h p)"

definition node_alloc :: "tree_heap \<Rightarrow> int \<Rightarrow> nat \<Rightarrow> nat \<Rightarrow> nat \<times> tree_heap" where
  "node_alloc h i l r =
     (brk h, h\<lparr>cells := (cells h)(brk h \<mapsto> \<lparr>tn_id = i, tn_llink = l, tn_rlink = r\<rparr>), brk := Suc (brk h)\<rparr>)"

definition set_llink :: "tree_heap \<Rightarrow> nat \<Rightarrow> nat \<Rightarrow> tree_heap option" where
  "set_llink h p v = do { n \<leftarrow> deref h p; Some (h\<lparr>cells := (cells h)(p \<mapsto> n\<lparr>tn_llink := v\<rparr>)\<rparr>) }"

definition set_rlink :: "tree_heap \<Rightarrow> nat \<Rightarrow> nat \<Rightarrow> tree_heap option" where
  "set_rlink h p v = do { n \<leftarrow> deref h p; Some (h\<lparr>cells := (cells h)(p \<mapsto> n\<lparr>tn_rlink := v\<rparr>)\<rparr>) }"

definition node_free :: "tree_heap \<Rightarrow> nat \<Rightarrow> tree_heap option" where
  "node_free h p = do { _ \<leftarrow> deref h p; Some (h\<lparr>cells := (cells h)(p := None)\<rparr>) }"

section \<open>Operations\<close>

definition tree_init :: "tree_heap \<Rightarrow> int \<Rightarrow> nat \<times> tree_heap" where
  "tree_init h i = node_alloc h i 0 0"

text \<open>The output of \<open>tree_print\<close>: the ids of every level, along the first children.\<close>

partial_function (option) sibling_ids :: "tree_heap \<Rightarrow> nat \<Rightarrow> int list option" where
  "sibling_ids h walker =
     (if walker = 0 then Some []
      else do { n \<leftarrow> deref h walker; rest \<leftarrow> sibling_ids h (tn_rlink n); Some (tn_id n # rest) })"

partial_function (option) print_levels :: "tree_heap \<Rightarrow> nat \<Rightarrow> int list list option" where
  "print_levels h digger =
     (if digger = 0 then Some []
      else do { n \<leftarrow> deref h digger; level \<leftarrow> sibling_ids h digger;
                rest \<leftarrow> print_levels h (tn_llink n); Some (level # rest) })"

definition tree_print :: "tree_heap \<Rightarrow> nat \<Rightarrow> int list list option" where
  "tree_print h nodePtr =
     (if nodePtr = 0 then Some [] else do { n \<leftarrow> deref h nodePtr; print_levels h (tn_llink n) })"

partial_function (option) free_siblings :: "tree_heap \<Rightarrow> nat \<Rightarrow> tree_heap option" where
  "free_siblings h walker =
     (if walker = 0 then Some h
      else do { n \<leftarrow> deref h walker; h' \<leftarrow> node_free h walker; free_siblings h' (tn_rlink n) })"

partial_function (option) destroy_levels :: "tree_heap \<Rightarrow> nat \<Rightarrow> tree_heap option" where
  "destroy_levels h digger =
     (if digger = 0 then Some h
      else do { n \<leftarrow> deref h digger; h1 \<leftarrow> free_siblings h (tn_rlink n);
                n' \<leftarrow> deref h1 digger; h2 \<leftarrow> node_free h1 digger; destroy_levels h2 (tn_llink n') })"

definition tree_destroy :: "tree_heap \<Rightarrow> nat \<Rightarrow> tree_heap option" where
  "tree_destroy h nodePtr =
     (if nodePtr = 0 then Some h else do { n \<leftarrow> deref h nodePtr; destroy_levels h (tn_llink n) })"

partial_function (option) insert_walk :: "tree_heap \<Rightarrow> nat \<Rightarrow> int \<Rightarrow> nat \<Rightarrow> tree_heap option" where
  "insert_walk h nodePtr i currentNode = do {
     c \<leftarrow> deref h currentNode;
     if tn_rlink c \<noteq> 0 then do {
       nx \<leftarrow> deref h (tn_rlink c);
       if i < tn_id nx
       then let (a, h1) = node_alloc h i 0 (tn_rlink c) in set_rlink h1 currentNode a
       else insert_walk h nodePtr i (tn_rlink c) }
     else if i > tn_id c
     then let (a, h1) = node_alloc h i 0 0 in set_rlink h1 currentNode a
     else let (a, h1) = node_alloc h i 0 currentNode in set_llink h1 nodePtr a }"

definition tree_insertNode :: "tree_heap \<Rightarrow> nat \<Rightarrow> int \<Rightarrow> tree_heap option" where
  "tree_insertNode h nodePtr i = do {
     n \<leftarrow> deref h nodePtr;
     if tn_llink n = 0
     then let (a, h1) = node_alloc h i 0 0 in set_llink h1 nodePtr a
     else insert_walk h nodePtr i (tn_llink n) }"

partial_function (option) find_sibling :: "tree_heap \<Rightarrow> int \<Rightarrow> nat \<Rightarrow> nat option" where
  "find_sibling h i walker =
     (if walker = 0 then Some 0
      else do { n \<leftarrow> deref h walker;
                if tn_id n = i then Some walker else find_sibling h i (tn_rlink n) })"

definition tree_nodeExists :: "tree_heap \<Rightarrow> nat \<Rightarrow> int \<Rightarrow> bool option" where
  "tree_nodeExists h nodePtr i =
     (if nodePtr = 0 then Some False
      else do { n \<leftarrow> deref h nodePtr; w \<leftarrow> find_sibling h i (tn_llink n); Some (w \<noteq> 0) })"

partial_function (option) count_siblings :: "tree_heap \<Rightarrow> nat \<Rightarrow> nat \<Rightarrow> nat option" where
  "count_siblings h walker count =
     (if walker = 0 then Some count
      else do { n \<leftarrow> deref h walker; count_siblings h (tn_rlink n) (count + 1) })"

definition tree_countChildren :: "tree_heap \<Rightarrow> nat \<Rightarrow> nat option" where
  "tree_countChildren h nodePtr =
     (if nodePtr = 0 then Some 0
      else do { n \<leftarrow> deref h nodePtr;
                if tn_llink n = 0 then Some 0 else count_siblings h (tn_llink n) 0 })"

definition tree_getNode :: "tree_heap \<Rightarrow> nat \<Rightarrow> int \<Rightarrow> nat option" where
  "tree_getNode h nodePtr i =
     (if nodePtr = 0 then Some 0
      else do { n \<leftarrow> deref h nodePtr;
                if tn_llink n = 0 then Some 0 else find_sibling h i (tn_llink n) })"

definition tree_getChildNode :: "tree_heap \<Rightarrow> nat \<Rightarrow> nat option" where
  "tree_getChildNode h nodePtr =
     (if nodePtr = 0 then Some 0 else do { n \<leftarrow> deref h nodePtr; Some (tn_llink n) })"

definition tree_getNextNode :: "tree_heap \<Rightarrow> nat \<Rightarrow> nat option" where
  "tree_getNextNode h nodePtr = do { n \<leftarrow> deref h nodePtr; Some (tn_rlink n) }"

section \<open>Sibling chains\<close>

text \<open>Field access for allocated nodes, and the addresses on a sibling list.\<close>

definition nid :: "tree_heap \<Rightarrow> nat \<Rightarrow> int" where "nid h a = tn_id (the (cells h a))"
definition nll :: "tree_heap \<Rightarrow> nat \<Rightarrow> nat" where "nll h a = tn_llink (the (cells h a))"
definition nrl :: "tree_heap \<Rightarrow> nat \<Rightarrow> nat" where "nrl h a = tn_rlink (the (cells h a))"

lemmas field_defs = nid_def nll_def nrl_def

fun chain :: "tree_heap \<Rightarrow> nat \<Rightarrow> nat list \<Rightarrow> bool" where
  "chain h p [] = (p = 0)"
| "chain h p (a # as) = (p = a \<and> a \<noteq> 0 \<and> a \<in> dom (cells h) \<and> chain h (nrl h a) as)"

lemma deref_dom: "\<lbrakk>a \<noteq> 0; a \<in> dom (cells h)\<rbrakk> \<Longrightarrow>
    deref h a = Some \<lparr>tn_id = nid h a, tn_llink = nll h a, tn_rlink = nrl h a\<rparr>"
  by (auto simp: deref_def field_defs)

lemma chain_dom: "chain h p as \<Longrightarrow> set as \<subseteq> dom (cells h) \<and> 0 \<notin> set as"
  by (induction as arbitrary: p) auto

lemma chain_frame:
  "\<lbrakk>chain h p as; set as \<subseteq> dom (cells h'); \<forall>a\<in>set as. nrl h' a = nrl h a\<rbrakk> \<Longrightarrow> chain h' p as"
  by (induction as arbitrary: p) auto

lemma find_sibling_chain:
  "chain h p as \<Longrightarrow> find_sibling h i p = Some (case find (\<lambda>a. nid h a = i) as of None \<Rightarrow> 0 | Some a \<Rightarrow> a)"
proof (induction as arbitrary: p)
  case Nil
  then show ?case by (simp add: find_sibling.simps)
next
  case (Cons a as)
  then show ?case by (subst find_sibling.simps) (auto simp: deref_dom)
qed

lemma count_siblings_chain: "chain h p as \<Longrightarrow> count_siblings h p n = Some (n + length as)"
proof (induction as arbitrary: p n)
  case Nil
  then show ?case by (simp add: count_siblings.simps)
next
  case (Cons a as)
  then show ?case by (subst count_siblings.simps) (auto simp: deref_dom)
qed

section \<open>Insertion into a sibling list\<close>

text \<open>
  What an insertion leaves alone: it allocates one node without children, keeps every id, changes
  the child link of nodes in \<open>L\<close> and the sibling link of nodes in \<open>R\<close> only.
\<close>

definition grown :: "tree_heap \<Rightarrow> tree_heap \<Rightarrow> int \<Rightarrow> nat set \<Rightarrow> nat set \<Rightarrow> bool" where
  "grown h h' i L R \<longleftrightarrow>
     dom (cells h') = insert (brk h) (dom (cells h)) \<and> brk h' = Suc (brk h) \<and>
     nid h' (brk h) = i \<and> nll h' (brk h) = 0 \<and>
     (\<forall>a\<in>dom (cells h). nid h' a = nid h a \<and> (a \<notin> L \<longrightarrow> nll h' a = nll h a) \<and>
        (a \<notin> R \<longrightarrow> nrl h' a = nrl h a))"

definition heap_ok :: "tree_heap \<Rightarrow> bool" where
  "heap_ok h \<longleftrightarrow> brk h \<noteq> 0 \<and> (\<forall>a\<in>dom (cells h). 0 < a \<and> a < brk h)"

lemma alloc_rlink:
  assumes "heap_ok h" "c \<in> dom (cells h)"
  obtains h' where "(let (a, h1) = node_alloc h i 0 r in set_rlink h1 c a) = Some h'"
    "grown h h' i {} {c}" "nrl h' c = brk h" "nrl h' (brk h) = r"
proof -
  obtain n where n: "cells h c = Some n" using assms(2) by blast
  have b: "c \<noteq> 0" "c \<noteq> brk h" using assms by (auto simp: heap_ok_def)
  let ?h = "h\<lparr>brk := Suc (brk h), cells := (cells h)(brk h \<mapsto> \<lparr>tn_id = i, tn_llink = 0, tn_rlink = r\<rparr>,
    c \<mapsto> n\<lparr>tn_rlink := brk h\<rparr>)\<rparr>"
  have "brk h \<notin> dom (cells h)" using assms(1) by (auto simp: heap_ok_def)
  then have "grown h ?h i {} {c}"
    using n b by (auto simp: grown_def field_defs)
  then show ?thesis
    using n b by (intro that [of ?h]) (simp_all add: node_alloc_def set_rlink_def deref_def field_defs)
qed

lemma alloc_llink:
  assumes "heap_ok h" "p \<in> dom (cells h)"
  obtains h' where "(let (a, h1) = node_alloc h i 0 r in set_llink h1 p a) = Some h'"
    "grown h h' i {p} {}" "nll h' p = brk h" "nrl h' (brk h) = r"
proof -
  obtain n where n: "cells h p = Some n" using assms(2) by blast
  have b: "p \<noteq> 0" "p \<noteq> brk h" using assms by (auto simp: heap_ok_def)
  let ?h = "h\<lparr>brk := Suc (brk h), cells := (cells h)(brk h \<mapsto> \<lparr>tn_id = i, tn_llink = 0, tn_rlink = r\<rparr>,
    p \<mapsto> n\<lparr>tn_llink := brk h\<rparr>)\<rparr>"
  have "brk h \<notin> dom (cells h)" using assms(1) by (auto simp: heap_ok_def)
  then have "grown h ?h i {p} {}"
    using n b by (auto simp: grown_def field_defs)
  then show ?thesis
    using n b by (intro that [of ?h]) (simp_all add: node_alloc_def set_llink_def deref_def field_defs)
qed

text \<open>The order of the siblings after an insertion, with the ids given by \<open>f\<close>.\<close>

fun ins_tail :: "(nat \<Rightarrow> int) \<Rightarrow> int \<Rightarrow> nat \<Rightarrow> nat list \<Rightarrow> nat list" where
  "ins_tail f i b [] = [b]"
| "ins_tail f i b (a # as) = (if i < f a then b # a # as else a # ins_tail f i b as)"

fun ins_kids :: "(nat \<Rightarrow> int) \<Rightarrow> int \<Rightarrow> nat \<Rightarrow> nat list \<Rightarrow> nat list" where
  "ins_kids f i b [] = [b]"
| "ins_kids f i b [a] = (if i > f a then [a, b] else [b, a])"
| "ins_kids f i b (a # as) = a # ins_tail f i b as"

lemma set_ins_tail [simp]: "set (ins_tail f i b as) = insert b (set as)"
  by (induction as) auto

lemma set_ins_kids [simp]: "set (ins_kids f i b as) = insert b (set as)"
  by (cases "(f, i, b, as)" rule: ins_kids.cases) auto

lemma distinct_ins_kids: "\<lbrakk>distinct as; b \<notin> set as\<rbrakk> \<Longrightarrow> distinct (ins_kids f i b as)"
proof -
  have tail: "\<lbrakk>distinct as; b \<notin> set as\<rbrakk> \<Longrightarrow> distinct (ins_tail f i b as)" for as
    by (induction as) auto
  assume "distinct as" "b \<notin> set as"
  then show ?thesis using tail by (cases "(f, i, b, as)" rule: ins_kids.cases) auto
qed

lemma grown_chain:
  "\<lbrakk>grown h h' i L R; chain h p as; set as \<inter> R = {}\<rbrakk> \<Longrightarrow> chain h' p as"
  using chain_dom [of h p as] by (intro chain_frame [of h p as h']) (auto simp: grown_def)

lemma insert_walk_chain:
  assumes "heap_ok h" "chain h c (c # as)" "distinct (c # as)" "as = [] \<longrightarrow> i > nid h c"
    and "i \<notin> nid h ` set as"
  shows "\<exists>h'. insert_walk h p i c = Some h' \<and> grown h h' i {} (set (c # as)) \<and>
    chain h' c (c # ins_tail (nid h) i (brk h) as)"
  using assms(2-5)
proof (induction as arbitrary: c)
  case Nil
  then have "c \<in> dom (cells h)" by simp
  then obtain h' where h': "(let (a, h1) = node_alloc h i 0 0 in set_rlink h1 c a) = Some h'"
      "grown h h' i {} {c}" "nrl h' c = brk h" "nrl h' (brk h) = 0"
    by (rule alloc_rlink [OF assms(1)])
  moreover have "insert_walk h p i c = Some h'"
    using Nil h'(1) by (subst insert_walk.simps) (auto simp: deref_dom)
  ultimately show ?case
    using Nil assms(1) by (auto simp: grown_def heap_ok_def)
next
  case (Cons a as)
  then have step: "deref h c = Some \<lparr>tn_id = nid h c, tn_llink = nll h c, tn_rlink = a\<rparr>"
      "deref h a = Some \<lparr>tn_id = nid h a, tn_llink = nll h a, tn_rlink = nrl h a\<rparr>" "a \<noteq> 0"
    by (auto simp: deref_dom)
  show ?case
  proof (cases "i < nid h a")
    case True
    have "c \<in> dom (cells h)" using Cons.prems(1) by simp
    then obtain h' where h': "(let (a', h1) = node_alloc h i 0 a in set_rlink h1 c a') = Some h'"
        "grown h h' i {} {c}" "nrl h' c = brk h" "nrl h' (brk h) = a"
      by (rule alloc_rlink [OF assms(1)])
    moreover have "insert_walk h p i c = Some h'"
      using step True h'(1) by (subst insert_walk.simps) auto
    moreover have "chain h' a (a # as)"
      by (rule grown_chain [OF h'(2)]) (use Cons.prems in auto)
    ultimately show ?thesis
      using True Cons.prems(1) assms(1) by (auto simp: grown_def heap_ok_def)
  next
    case False
    have "\<exists>h'. insert_walk h p i a = Some h' \<and> grown h h' i {} (set (a # as)) \<and>
        chain h' a (a # ins_tail (nid h) i (brk h) as)"
      using Cons.IH [of a] Cons.prems False by force
    then obtain h' where h': "insert_walk h p i a = Some h'" "grown h h' i {} (set (a # as))"
        "chain h' a (a # ins_tail (nid h) i (brk h) as)" by blast
    moreover have "insert_walk h p i c = Some h'"
      using step False h'(1) by (subst insert_walk.simps) auto
    moreover have "nrl h' c = a \<and> c \<in> dom (cells h')"
      using h'(2) Cons.prems by (auto simp: grown_def)
    ultimately show ?thesis
      using False Cons.prems(1) by (auto simp: grown_def)
  qed
qed

section \<open>Well-formed trees\<close>

text \<open>
  \<open>kids h a\<close> is the sibling list that starts at the first child of \<open>a\<close>. A heap is well formed when
  every node has such a list, the lists of different nodes share no node, and the ids on a list
  are different.
\<close>

definition kids :: "tree_heap \<Rightarrow> nat \<Rightarrow> nat list" where
  "kids h a = (THE as. chain h (nll h a) as)"

lemma chain_unique: "\<lbrakk>chain h p as; chain h p bs\<rbrakk> \<Longrightarrow> as = bs"
proof (induction as arbitrary: p bs)
  case Nil
  then show ?case by (cases bs) auto
next
  case (Cons a as)
  then show ?case by (cases bs) auto
qed

lemma kids_eq: "chain h (nll h a) as \<Longrightarrow> kids h a = as"
  unfolding kids_def using chain_unique by blast

definition tree_wf :: "tree_heap \<Rightarrow> bool" where
  "tree_wf h \<longleftrightarrow> heap_ok h \<and>
     (\<forall>a\<in>dom (cells h). chain h (nll h a) (kids h a) \<and> distinct (map (nid h) (kids h a))) \<and>
     (\<forall>a\<in>dom (cells h). \<forall>b\<in>dom (cells h). a \<noteq> b \<longrightarrow> set (kids h a) \<inter> set (kids h b) = {})"

lemma tree_wfD:
  assumes "tree_wf h" "a \<in> dom (cells h)"
  shows "heap_ok h" "a \<noteq> 0" "chain h (nll h a) (kids h a)" "distinct (map (nid h) (kids h a))"
    "distinct (kids h a)" "set (kids h a) \<subseteq> dom (cells h)"
proof -
  show "heap_ok h" "a \<noteq> 0" "chain h (nll h a) (kids h a)" "distinct (map (nid h) (kids h a))"
    using assms by (auto simp: tree_wf_def heap_ok_def)
  then show "distinct (kids h a)" "set (kids h a) \<subseteq> dom (cells h)"
    by (auto simp: distinct_map dest: chain_dom)
qed

lemma insertNode_chain:
  assumes wf: "tree_wf h" "p \<in> dom (cells h)" and new: "i \<notin> nid h ` set (kids h p)"
  shows "\<exists>h'. tree_insertNode h p i = Some h' \<and> grown h h' i {p} (set (kids h p)) \<and>
    chain h' (nll h' p) (ins_kids (nid h) i (brk h) (kids h p))"
proof -
  note D = tree_wfD [OF wf]
  have dp: "deref h p = Some \<lparr>tn_id = nid h p, tn_llink = nll h p, tn_rlink = nrl h p\<rparr>"
    using D(2) wf(2) by (rule deref_dom)
  consider "kids h p = []" | c where "kids h p = [c]" "i \<le> nid h c"
    | c as where "kids h p = c # as" "as = [] \<longrightarrow> i > nid h c"
    by (cases "kids h p" rule: list.exhaust) force+
  then show ?thesis
  proof cases
    case 1
    obtain h' where h': "(let (a, h1) = node_alloc h i 0 0 in set_llink h1 p a) = Some h'"
        "grown h h' i {p} {}" "nll h' p = brk h" "nrl h' (brk h) = 0"
      using D(1) wf(2) by (rule alloc_llink)
    then show ?thesis
      using 1 D(1,3) dp by (auto simp: tree_insertNode_def grown_def heap_ok_def)
  next
    case (2 c)
    obtain h' where h': "(let (a, h1) = node_alloc h i 0 c in set_llink h1 p a) = Some h'"
        "grown h h' i {p} {}" "nll h' p = brk h" "nrl h' (brk h) = c"
      using D(1) wf(2) by (rule alloc_llink)
    have c: "chain h c [c]" "nll h p = c" using 2 D(3) by auto
    then have "insert_walk h p i c = Some h'"
      using h'(1) 2 by (subst insert_walk.simps) (auto simp: deref_dom)
    moreover have "chain h' c [c]" using grown_chain [OF h'(2) c(1)] by simp
    moreover have "grown h h' i {p} {c}" using h'(2) by (auto simp: grown_def)
    ultimately show ?thesis
      using 2 c h' dp D(1) by (auto simp: tree_insertNode_def heap_ok_def grown_def)
  next
    case (3 c as)
    have c: "chain h c (c # as)" "nll h p = c" "c \<noteq> 0" using 3 D(3) by auto
    have "\<exists>h'. insert_walk h p i c = Some h' \<and> grown h h' i {} (set (c # as)) \<and>
        chain h' c (c # ins_tail (nid h) i (brk h) as)"
      using insert_walk_chain [OF D(1) c(1), of i p] D(5) 3 new by auto
    then obtain h' where h': "insert_walk h p i c = Some h'" "grown h h' i {} (set (c # as))"
        "chain h' c (c # ins_tail (nid h) i (brk h) as)" by blast
    moreover have "nll h' p = c" using h'(2) wf(2) c by (auto simp: grown_def)
    moreover have "grown h h' i {p} (set (c # as))" using h'(2) by (auto simp: grown_def)
    moreover have "ins_kids (nid h) i (brk h) (c # as) = c # ins_tail (nid h) i (brk h) as"
      using 3(2) by (cases as) auto
    ultimately show ?thesis
      using 3 c dp by (auto simp: tree_insertNode_def)
  qed
qed

lemma grown_nid: "\<lbrakk>grown h h' i L R; set as \<subseteq> dom (cells h)\<rbrakk> \<Longrightarrow> map (nid h') as = map (nid h) as"
  by (auto simp: grown_def)

lemma insertNode_wf:
  assumes wf: "tree_wf h" "p \<in> dom (cells h)" and new: "i \<notin> nid h ` set (kids h p)"
  shows "\<exists>h'. tree_insertNode h p i = Some h' \<and> tree_wf h' \<and> brk h \<notin> dom (cells h) \<and>
    dom (cells h') = insert (brk h) (dom (cells h)) \<and> nid h' (brk h) = i \<and>
    (\<forall>a\<in>dom (cells h). nid h' a = nid h a) \<and> kids h' (brk h) = [] \<and>
    kids h' p = ins_kids (nid h) i (brk h) (kids h p) \<and>
    (\<forall>a\<in>dom (cells h). a \<noteq> p \<longrightarrow> kids h' a = kids h a)"
proof -
  obtain h' where h': "tree_insertNode h p i = Some h'" "grown h h' i {p} (set (kids h p))"
      "chain h' (nll h' p) (ins_kids (nid h) i (brk h) (kids h p))"
    using insertNode_chain [OF assms] by blast
  let ?b = "brk h"
  have ok: "heap_ok h" and b: "?b \<notin> dom (cells h)" using wf by (auto simp: tree_wf_def heap_ok_def)
  have dom': "dom (cells h') = insert ?b (dom (cells h))" using h'(2) by (simp add: grown_def)
  have cb: "chain h' (nll h' ?b) []" using h'(2) by (simp add: grown_def)
  have co: "chain h' (nll h' a) (kids h a)" if "a \<in> dom (cells h)" "a \<noteq> p" for a
  proof -
    have "nll h' a = nll h a" using h'(2) that by (auto simp: grown_def)
    moreover have "set (kids h a) \<inter> set (kids h p) = {}" using wf that by (auto simp: tree_wf_def)
    ultimately show ?thesis
      using grown_chain [OF h'(2)] tree_wfD(3) [OF wf(1) that(1)] by simp
  qed
  note k = kids_eq [OF h'(3)] kids_eq [OF cb] kids_eq [OF co]
  have ids: "nid h' ?b = i" "\<forall>a\<in>dom (cells h). nid h' a = nid h a" using h'(2) by (auto simp: grown_def)
  have sub: "set (kids h a) \<subseteq> dom (cells h)" if "a \<in> dom (cells h)" for a
    using tree_wfD(6) [OF wf(1) that] .
  have "heap_ok h'" using ok h'(2) by (auto simp: heap_ok_def grown_def less_Suc_eq)
  moreover have "chain h' (nll h' a) (kids h' a) \<and> distinct (map (nid h') (kids h' a))"
    if a: "a \<in> dom (cells h')" for a
  proof -
    have keep: "nid h' c = nid h c" if "c \<in> set (kids h p)" for c using ids(2) sub [OF wf(2)] that by blast
    have "inj_on (nid h') (set (kids h p)) \<and> nid h' ` set (kids h p) = nid h ` set (kids h p)"
      using tree_wfD(4) [OF wf] inj_on_cong [of "set (kids h p)", OF keep] image_cong [OF refl keep]
      by (simp add: distinct_map)
    then have "inj_on (nid h') (set (ins_kids (nid h) i ?b (kids h p)))"
      using new ids(1) by (auto simp: inj_on_insert)
    moreover have "?b \<notin> set (kids h p)" using b sub [OF wf(2)] by blast
    ultimately have "distinct (map (nid h') (kids h' p))"
      using distinct_ins_kids [OF tree_wfD(5) [OF wf]] k(1) by (auto simp: distinct_map)
    moreover have "distinct (map (nid h') (kids h' a))" if "a \<in> dom (cells h)" "a \<noteq> p"
      using grown_nid [OF h'(2) sub] tree_wfD(4) [OF wf(1)] that k(3) by metis
    ultimately show ?thesis
      using a dom' k h'(3) cb co by (cases "a = p"; cases "a = ?b") auto
  qed
  moreover have "set (kids h' a) \<inter> set (kids h' c) = {}"
    if ac: "a \<in> dom (cells h')" "c \<in> dom (cells h')" "a \<noteq> c" for a c
  proof -
    have disj: "x \<in> dom (cells h) \<Longrightarrow> y \<in> dom (cells h) \<Longrightarrow> x \<noteq> y \<Longrightarrow> set (kids h x) \<inter> set (kids h y) = {}" for x y
      using wf(1) by (auto simp: tree_wf_def)
    have set': "y \<in> set (kids h' x) \<Longrightarrow> y \<in> set (kids h x) \<or> y = ?b \<and> x = p" if "x \<in> dom (cells h)" for x y
      using that k by (cases "x = p") auto
    consider "a = ?b \<or> c = ?b" | "a \<in> dom (cells h)" "c \<in> dom (cells h)" using ac dom' by blast
    then show ?thesis
    proof cases
      case 2
      have "?b \<notin> set (kids h a)" "?b \<notin> set (kids h c)" using sub [OF 2(1)] sub [OF 2(2)] b by blast+
      then show ?thesis using disj [OF 2 ac(3)] set' [OF 2(1)] set' [OF 2(2)] ac(3) by blast
    qed (use k(2) in auto)
  qed
  ultimately have "tree_wf h'" by (auto simp: tree_wf_def)
  then show ?thesis using h'(1) b dom' ids k by blast
qed

section \<open>The interface of the tree\<close>

text \<open>
  What a client of the tree relies on: a node has a finite map from ids to children; the queries
  answer from that map, and inserting an id that has no child adds a new node without children
  and changes nothing else.
\<close>

fun tree_path :: "(nat \<Rightarrow> int \<Rightarrow> nat option) \<Rightarrow> nat \<Rightarrow> int list \<Rightarrow> nat option" where
  "tree_path c a [] = Some a"
| "tree_path c a (i # is) = Option.bind (c a i) (\<lambda>b. tree_path c b is)"

lemma tree_path_snoc: "tree_path c a (is @ [i]) = Option.bind (tree_path c a is) (\<lambda>b. c b i)"
  by (induction "is" arbitrary: a) (auto split: bind_splits)

locale child_tree =
  fixes wf :: "'h \<Rightarrow> bool"
    and nodes :: "'h \<Rightarrow> nat set"
    and child :: "'h \<Rightarrow> nat \<Rightarrow> int \<Rightarrow> nat option"
    and nodeExists :: "'h \<Rightarrow> nat \<Rightarrow> int \<Rightarrow> bool option"
    and insertNode :: "'h \<Rightarrow> nat \<Rightarrow> int \<Rightarrow> 'h option"
    and getNode :: "'h \<Rightarrow> nat \<Rightarrow> int \<Rightarrow> nat option"
    and countChildren :: "'h \<Rightarrow> nat \<Rightarrow> nat option"
    and getChildNode :: "'h \<Rightarrow> nat \<Rightarrow> nat option"
  assumes child_node: "\<lbrakk>wf h; a \<in> nodes h; child h a i = Some b\<rbrakk> \<Longrightarrow> b \<in> nodes h"
    and parent_unique: "\<lbrakk>wf h; a \<in> nodes h; b \<in> nodes h; child h a i = Some c; child h b j = Some c\<rbrakk> \<Longrightarrow>
      a = b \<and> i = j"
    and first_law: "\<lbrakk>wf h; a \<in> nodes h; child h a \<noteq> Map.empty\<rbrakk> \<Longrightarrow>
      \<exists>b i. getChildNode h a = Some b \<and> child h a i = Some b"
    and exists_law: "\<lbrakk>wf h; a \<in> nodes h\<rbrakk> \<Longrightarrow> nodeExists h a i = Some (child h a i \<noteq> None)"
    and get_law: "\<lbrakk>wf h; a \<in> nodes h\<rbrakk> \<Longrightarrow> getNode h a i = Some (case child h a i of None \<Rightarrow> 0 | Some b \<Rightarrow> b)"
    and count_law: "\<lbrakk>wf h; a \<in> nodes h\<rbrakk> \<Longrightarrow> countChildren h a = Some (card (dom (child h a)))"
    and insert_law: "\<lbrakk>wf h; a \<in> nodes h; child h a i = None\<rbrakk> \<Longrightarrow>
      \<exists>h' b. insertNode h a i = Some h' \<and> wf h' \<and> b \<notin> nodes h \<and> nodes h' = insert b (nodes h) \<and>
        child h' a = (child h a)(i \<mapsto> b) \<and> child h' b = Map.empty \<and>
        (\<forall>c\<in>nodes h. c \<noteq> a \<longrightarrow> child h' c = child h c)"
begin

text \<open>Seen from a root without parent, a node is reached by one path only.\<close>

lemma path_node:
  assumes "wf h" "r \<in> nodes h"
  shows "tree_path (child h) r ps = Some a \<Longrightarrow> a \<in> nodes h"
proof (induction ps arbitrary: a rule: rev_induct)
  case Nil
  then show ?case using assms(2) by simp
next
  case (snoc i ps)
  then show ?case using child_node [OF assms(1)] by (auto simp: tree_path_snoc bind_Some_iff)
qed

lemma path_unique:
  assumes "wf h" "r \<in> nodes h" and root: "\<forall>a\<in>nodes h. \<forall>i. child h a i \<noteq> Some r"
  shows "\<lbrakk>tree_path (child h) r ps = Some a; tree_path (child h) r qs = Some a\<rbrakk> \<Longrightarrow> ps = qs"
proof (induction ps arbitrary: qs a rule: rev_induct)
  case Nil
  then show ?case
    using root path_node [OF assms(1,2)] by (cases qs rule: rev_cases) (auto simp: tree_path_snoc bind_Some_iff)
next
  case (snoc i ps)
  then obtain b where b: "tree_path (child h) r ps = Some b" "child h b i = Some a"
    by (auto simp: tree_path_snoc bind_Some_iff)
  show ?case
  proof (cases qs rule: rev_cases)
    case Nil
    then show ?thesis using snoc.prems(2) b root path_node [OF assms(1,2)] by auto
  next
    case (snoc qs' j)
    then obtain c where c: "tree_path (child h) r qs' = Some c" "child h c j = Some a"
      using snoc.prems(2) by (auto simp: tree_path_snoc bind_Some_iff)
    then have "b = c \<and> i = j"
      using parent_unique [OF assms(1)] b path_node [OF assms(1,2)] by metis
    then show ?thesis using snoc.IH b(1) c(1) snoc by blast
  qed
qed

lemma insert_path:
  assumes wf: "wf h" "r \<in> nodes h" and root: "\<forall>a\<in>nodes h. \<forall>i. child h a i \<noteq> Some r"
    and a: "tree_path (child h) r ps = Some a" and none: "child h a i = None"
    and h': "b \<notin> nodes h" "child h' a = (child h a)(i \<mapsto> b)" "child h' b = Map.empty"
      "\<forall>c\<in>nodes h. c \<noteq> a \<longrightarrow> child h' c = child h c"
  shows "tree_path (child h') r qs = ((tree_path (child h) r)(ps @ [i] \<mapsto> b)) qs"
proof (induction qs rule: rev_induct)
  case (snoc j qs)
  have step: "child h' c j = (if c = a \<and> j = i then Some b else child h c j)" if "c \<in> nodes h" for c
    using h' that by auto
  have noneb: "tree_path (child h) r (ps @ [i]) = None" using a none by (simp add: tree_path_snoc)
  show ?case
  proof (cases "qs = ps @ [i]")
    case True
    then have "tree_path (child h') r (qs @ [j]) = None" "tree_path (child h) r (qs @ [j]) = None"
      using snoc h'(3) noneb by (simp_all only: tree_path_snoc) simp_all
    then show ?thesis using True by simp
  next
    case False
    then have same: "tree_path (child h') r qs = tree_path (child h) r qs" using snoc by simp
    show ?thesis
    proof (cases "tree_path (child h) r qs")
      case None
      then have "qs \<noteq> ps" using a by auto
      then show ?thesis using None same by (simp add: tree_path_snoc)
    next
      case (Some c)
      have "c = a \<longleftrightarrow> qs = ps"
      proof
        assume "c = a"
        with Some a show "qs = ps" by (intro path_unique [OF wf root]) simp_all
      qed (use Some a in simp)
      then show ?thesis
        using same Some step [OF path_node [OF wf Some]] by (simp add: tree_path_snoc)
    qed
  qed
qed simp

text \<open>
  The idiom every client uses: insert the id unless it exists, then fetch its node. It always
  returns, and the set of paths from the root grows by exactly the ensured one.
\<close>

lemma ensure_path:
  assumes wf: "wf h" "r \<in> nodes h" and root: "\<forall>a\<in>nodes h. \<forall>i. child h a i \<noteq> Some r"
    and a: "tree_path (child h) r ps = Some a"
  shows "\<exists>h' b. Option.bind (nodeExists h a i) (\<lambda>e. if e then Some h else insertNode h a i) = Some h' \<and>
    getNode h' a i = Some b \<and> wf h' \<and> r \<in> nodes h' \<and> (\<forall>c\<in>nodes h'. \<forall>i. child h' c i \<noteq> Some r) \<and>
    tree_path (child h') r = (tree_path (child h) r)(ps @ [i] \<mapsto> b)"
proof -
  have an: "a \<in> nodes h" by (rule path_node [OF wf a])
  show ?thesis
  proof (cases "child h a i")
    case None
    from insert_law [OF wf(1) an None] obtain h' b where h': "insertNode h a i = Some h'" "wf h'"
      "b \<notin> nodes h" "nodes h' = insert b (nodes h)" "child h' a = (child h a)(i \<mapsto> b)"
      "child h' b = Map.empty" "\<forall>c\<in>nodes h. c \<noteq> a \<longrightarrow> child h' c = child h c" by blast
    have "getNode h' a i = Some b" using get_law [OF h'(2), of a i] h'(4,5) an by simp
    moreover have "child h' c j \<noteq> Some r" if "c \<in> nodes h'" for c j
      using that h'(3-7) root wf(2) an by (cases "c = b"; cases "c = a") auto
    moreover have "tree_path (child h') r = (tree_path (child h) r)(ps @ [i] \<mapsto> b)"
      by (rule ext) (rule insert_path [OF assms None h'(3,5,6,7)])
    ultimately show ?thesis
      using exists_law [OF wf(1) an, of i] None h'(1,2,4) wf(2) by auto
  next
    case (Some b)
    then have "tree_path (child h) r (ps @ [i]) = Some b" using a by (simp add: tree_path_snoc)
    then show ?thesis
      using exists_law [OF wf(1) an, of i] get_law [OF wf(1) an, of i] Some assms
      by (intro exI [of _ h] exI [of _ b]) (simp add: fun_upd_idem)
  qed
qed

lemma count_paths:
  assumes wf: "wf h" "r \<in> nodes h" and a: "tree_path (child h) r ps = Some a"
  shows "countChildren h a = Some (card {i. ps @ [i] \<in> dom (tree_path (child h) r)})"
proof -
  have "{i. ps @ [i] \<in> dom (tree_path (child h) r)} = dom (child h a)"
    using a by (auto simp: tree_path_snoc)
  then show ?thesis using count_law [OF wf(1) path_node [OF wf a]] by simp
qed

lemma first_path:
  assumes wf: "wf h" "r \<in> nodes h" and a: "tree_path (child h) r ps = Some a"
    and i: "ps @ [i] \<in> dom (tree_path (child h) r)"
  shows "\<exists>j b. getChildNode h a = Some b \<and> tree_path (child h) r (ps @ [j]) = Some b"
proof -
  have "child h a \<noteq> Map.empty" using a i by (auto simp: tree_path_snoc)
  then show ?thesis
    using first_law [OF wf(1) path_node [OF wf a]] a by (auto simp: tree_path_snoc)
qed

end

definition child :: "tree_heap \<Rightarrow> nat \<Rightarrow> int \<Rightarrow> nat option" where
  "child h a i = find (\<lambda>b. nid h b = i) (kids h a)"

lemma find_None_id: "find (\<lambda>b. f b = i) as = None \<longleftrightarrow> i \<notin> f ` set as"
  by (auto simp: find_None_iff)

lemma find_Some_id:
  "distinct (map f as) \<Longrightarrow> find (\<lambda>b. f b = i) as = Some a \<longleftrightarrow> a \<in> set as \<and> f a = i"
  by (induction as) (auto simp: image_iff)

lemma child_Some:
  "\<lbrakk>tree_wf h; a \<in> dom (cells h)\<rbrakk> \<Longrightarrow> child h a i = Some b \<longleftrightarrow> b \<in> set (kids h a) \<and> nid h b = i"
  by (simp add: child_def find_Some_id tree_wfD)

lemma child_dom: "dom (child h a) = nid h ` set (kids h a)"
  by (auto simp: child_def dom_def find_None_id simp flip: not_None_eq)

lemma child_insert:
  assumes wf: "tree_wf h" "a \<in> dom (cells h)" and none: "child h a i = None"
  shows "\<exists>h' b. tree_insertNode h a i = Some h' \<and> tree_wf h' \<and> b \<notin> dom (cells h) \<and>
    dom (cells h') = insert b (dom (cells h)) \<and> child h' a = (child h a)(i \<mapsto> b) \<and>
    child h' b = Map.empty \<and> (\<forall>c\<in>dom (cells h). c \<noteq> a \<longrightarrow> child h' c = child h c)"
proof -
  have new: "i \<notin> nid h ` set (kids h a)" using none by (simp add: child_def find_None_id)
  then have newq: "\<forall>c\<in>set (kids h a). nid h c \<noteq> i" by auto
  let ?b = "brk h"
  obtain h' where h': "tree_insertNode h a i = Some h'" "tree_wf h'" "?b \<notin> dom (cells h)"
      "dom (cells h') = insert ?b (dom (cells h))" "nid h' ?b = i"
      "\<forall>c\<in>dom (cells h). nid h' c = nid h c" "kids h' ?b = []"
      "kids h' a = ins_kids (nid h) i ?b (kids h a)"
      "\<forall>c\<in>dom (cells h). c \<noteq> a \<longrightarrow> kids h' c = kids h c"
    using insertNode_wf [OF wf new] by blast
  have sub: "set (kids h c) \<subseteq> dom (cells h)" if "c \<in> dom (cells h)" for c
    using tree_wfD(6) [OF wf(1) that] .
  have a': "a \<in> dom (cells h')" using h'(4) wf(2) by simp
  have keep: "\<forall>c\<in>set (kids h a). nid h' c = nid h c" using h'(6) sub [OF wf(2)] by blast
  have "child h' a j = Some c \<longleftrightarrow> ((child h a)(i \<mapsto> ?b)) j = Some c" for j c
    using child_Some [OF h'(2) a', of j c] child_Some [OF wf, of j c] h'(5,8) keep newq
    by (cases "c \<in> set (kids h a)") auto
  then have "child h' a = (child h a)(i \<mapsto> ?b)" by (intro ext) (metis option.exhaust)
  moreover have "child h' c = child h c" if c: "c \<in> dom (cells h)" "c \<noteq> a" for c
  proof -
    have "\<forall>x\<in>set (kids h c). nid h' x = nid h x" using h'(6) sub [OF c(1)] by blast
    then have "find (\<lambda>b. nid h' b = j) (kids h c) = find (\<lambda>b. nid h b = j) (kids h c)" for j
      by (intro find_cong) auto
    moreover have "kids h' c = kids h c" using h'(9) c by blast
    ultimately show ?thesis by (intro ext) (simp add: child_def)
  qed
  ultimately show ?thesis using h' by (intro exI [of _ h'] exI [of _ ?b]) (auto simp: child_def)
qed

lemma child_count:
  assumes "tree_wf h" "a \<in> dom (cells h)"
  shows "tree_countChildren h a = Some (card (dom (child h a)))"
  using tree_wfD [OF assms] assms(2) count_siblings_chain [of h "nll h a" "kids h a" 0]
  by (auto simp: tree_countChildren_def deref_dom child_dom distinct_card [symmetric] card_image distinct_map
      elim: chain.elims)

lemma child_parent:
  assumes "tree_wf h" "a \<in> dom (cells h)" "b \<in> dom (cells h)" "child h a i = Some c" "child h b j = Some c"
  shows "a = b \<and> i = j"
proof -
  have "c \<in> set (kids h a)" "c \<in> set (kids h b)" "nid h c = i" "nid h c = j"
    using assms child_Some by auto
  then show ?thesis using assms(1-3) by (auto simp: tree_wf_def)
qed

lemma child_first:
  assumes "tree_wf h" "a \<in> dom (cells h)" "child h a \<noteq> Map.empty"
  shows "\<exists>b i. tree_getChildNode h a = Some b \<and> child h a i = Some b"
proof -
  note D = tree_wfD [OF assms(1,2)]
  have "kids h a \<noteq> []" using assms(3) by (auto simp: child_def)
  then obtain b bs where "kids h a = b # bs" by (cases "kids h a") auto
  then have "nll h a = b" "child h a (nid h b) = Some b"
    using D(3) child_Some [OF assms(1,2)] by auto
  then show ?thesis using D(2) assms(2) by (auto simp: tree_getChildNode_def deref_dom)
qed

interpretation nt: child_tree tree_wf "\<lambda>h. dom (cells h)" child tree_nodeExists tree_insertNode
  tree_getNode tree_countChildren tree_getChildNode
proof unfold_locales
  fix h a i b assume wf: "tree_wf h" "a \<in> dom (cells h)"
  note D = tree_wfD [OF wf]
  have fs: "find_sibling h i (nll h a) = Some (case child h a i of None \<Rightarrow> 0 | Some b \<Rightarrow> b)"
    using find_sibling_chain [OF D(3)] by (simp add: child_def)
  show "child h a i = Some b \<Longrightarrow> b \<in> dom (cells h)" using child_Some [OF wf] D(6) by auto
  then show "tree_nodeExists h a i = Some (child h a i \<noteq> None)"
    using fs D(2) child_Some [OF wf, of i 0] chain_dom [OF D(3)]
    by (auto simp: tree_nodeExists_def deref_dom wf split: option.splits)
  show "tree_getNode h a i = Some (case child h a i of None \<Rightarrow> 0 | Some b \<Rightarrow> b)"
    using fs D by (auto simp: tree_getNode_def deref_dom wf find_sibling.simps)
qed (rule child_parent child_first child_count child_insert; assumption)+

section \<open>Order of the siblings\<close>

lemma sorted_ins_tail:
  assumes "sorted (map f as)" "\<forall>a\<in>set as. g a = f a" "g b = i"
  shows "sorted (map g (ins_tail f i b as))"
proof -
  have "sorted (map g as)" using assms(1,2) by (metis map_eq_conv)
  then show ?thesis using assms(2,3) by (induction as) (auto intro: order_trans)
qed

lemma sorted_ins_kids:
  assumes "sorted (map f as)" "\<forall>a\<in>set as. g a = f a \<and> f a \<noteq> i" "g b = i"
  shows "sorted (map g (ins_kids f i b as)) \<longleftrightarrow> length as \<le> 1 \<or> f (hd as) < i"
  using assms sorted_ins_tail [of f "tl as" g b i]
  by (cases "(f, i, b, as)" rule: ins_kids.cases) auto

text \<open>
  Property C37. Inserting a new id into a sibling list that is sorted by id keeps it sorted exactly
  when the list has at most one node or the id is larger than the first one: with two or more
  siblings, an id smaller than the first is put in second place.
\<close>

theorem tree_insertNode_sorted_iff:
  assumes "tree_wf h" "p \<in> dom (cells h)" "child h p i = None" "sorted (map (nid h) (kids h p))"
  shows "\<exists>h'. tree_insertNode h p i = Some h' \<and>
    (sorted (map (nid h') (kids h' p)) \<longleftrightarrow> length (kids h p) \<le> 1 \<or> nid h (hd (kids h p)) < i)"
proof -
  have new: "i \<notin> nid h ` set (kids h p)" using assms(3) by (simp add: child_def find_None_id)
  obtain h' where h': "tree_insertNode h p i = Some h'" "nid h' (brk h) = i"
      "\<forall>a\<in>dom (cells h). nid h' a = nid h a" "kids h' p = ins_kids (nid h) i (brk h) (kids h p)"
    using insertNode_wf [OF assms(1,2) new] by blast
  have "\<forall>a\<in>set (kids h p). nid h' a = nid h a \<and> nid h a \<noteq> i"
    using h'(3) tree_wfD(6) [OF assms(1,2)] new by blast
  from sorted_ins_kids [OF assms(4) this h'(2)] show ?thesis using h'(1,4) by auto
qed

definition demo_heap :: tree_heap where
  "demo_heap = \<lparr>cells = [1 \<mapsto> \<lparr>tn_id = 0, tn_llink = 2, tn_rlink = 0\<rparr>,
     2 \<mapsto> \<lparr>tn_id = 5, tn_llink = 0, tn_rlink = 3\<rparr>, 3 \<mapsto> \<lparr>tn_id = 8, tn_llink = 0, tn_rlink = 0\<rparr>], brk = 4\<rparr>"

lemma demo_heap_kids: "kids demo_heap 1 = [2, 3]" "kids demo_heap 2 = []" "kids demo_heap 3 = []"
  by (rule kids_eq, simp add: demo_heap_def field_defs)+

lemma demo_heap_wf: "tree_wf demo_heap"
proof -
  have "dom (cells demo_heap) = {1, 2, 3}" by (auto simp: demo_heap_def)
  then show ?thesis
    by (simp add: tree_wf_def demo_heap_kids [simplified] heap_ok_def)
      (simp add: demo_heap_def field_defs)
qed

theorem tree_insertNode_sorted_iff_witness:
  "\<exists>h'. tree_insertNode demo_heap 1 3 = Some h' \<and> \<not> sorted (map (nid h') (kids h' 1))"
proof -
  have k: "kids demo_heap (Suc 0) = [2, 3]" using demo_heap_kids(1) by simp
  have "child demo_heap 1 3 = None" "sorted (map (nid demo_heap) (kids demo_heap 1))" "1 \<in> dom (cells demo_heap)"
    by (simp_all add: child_def k) (simp_all add: demo_heap_def nid_def)
  from tree_insertNode_sorted_iff [OF demo_heap_wf this(3,1,2)] show ?thesis
    by (simp add: k) (simp add: demo_heap_def nid_def)
qed

end
