(* ===== verification/Topology.thy ===== *)
theory Topology
  imports NodeTree
begin

text \<open>
  Construction of the topology tree from the list of hardware threads
  (\<open>topology_setupTree\<close> and \<open>initTopologyFile\<close> of \<open>src/src/topology.c\<close>). Reading the topology itself, from
  CPUID, hwloc or a file, is input to the construction.
\<close>

record HWThread =
  threadId :: nat
  coreId :: nat
  packageId :: nat
  apicId :: nat
  inCpuSet :: nat

section \<open>Adding one hardware thread\<close>

text \<open>Insert the id below the node unless it is there, and get its node.\<close>

definition tree_ensure :: "tree_heap \<Rightarrow> nat \<Rightarrow> int \<Rightarrow> (tree_heap \<times> nat) option" where
  "tree_ensure h p i = do {
     e \<leftarrow> tree_nodeExists h p i;
     h' \<leftarrow> (if e then Some h else tree_insertNode h p i);
     c \<leftarrow> tree_getNode h' p i;
     Some (h', c) }"

text \<open>
  The leaf is the given id; inserting it also records the core of the thread's APIC id in
  \<open>affinity_thread2tile_lookup\<close>.
\<close>

definition topology_addThread ::
  "nat \<Rightarrow> HWThread \<Rightarrow> int \<Rightarrow> tree_heap \<times> int list \<Rightarrow> (tree_heap \<times> int list) option" where
  "topology_addThread root t leaf = (\<lambda>(h, lookup). do {
     (h1, socketNode) \<leftarrow> tree_ensure h root (int (packageId t));
     (h2, coreNode) \<leftarrow> tree_ensure h1 socketNode (int (coreId t));
     e \<leftarrow> tree_nodeExists h2 coreNode leaf;
     if e then Some (h2, lookup)
     else do {
       h3 \<leftarrow> tree_insertNode h2 coreNode leaf;
       lookup' \<leftarrow> arr_set lookup (int (apicId t)) (int (coreId t));
       Some (h3, lookup') } })"

fun topology_addThreads ::
  "nat \<Rightarrow> (HWThread \<times> int) list \<Rightarrow> tree_heap \<times> int list \<Rightarrow> (tree_heap \<times> int list) option" where
  "topology_addThreads root [] s = Some s"
| "topology_addThreads root ((t, leaf) # ts) s =
     Option.bind (topology_addThread root t leaf s) (topology_addThreads root ts)"

text \<open>The tree built from a topology file has the position of the thread at the leaves.\<close>

definition initTopologyFile_tree ::
  "tree_heap \<Rightarrow> int list \<Rightarrow> HWThread list \<Rightarrow> (nat \<times> tree_heap \<times> int list) option" where
  "initTopologyFile_tree h lookup hwThreadPool = do {
     let (root, h0) = tree_init h 0;
     (h1, lookup1) \<leftarrow> topology_addThreads root (zip hwThreadPool (map int [0..<length hwThreadPool])) (h0, lookup);
     Some (root, h1, lookup1) }"

record topology_counts =
  topologyTree :: nat
  numSockets :: nat
  numCoresPerSocket :: nat
  numThreadsPerCore :: nat

definition topology_setupTree ::
  "tree_heap \<Rightarrow> int list \<Rightarrow> HWThread list \<Rightarrow> (topology_counts \<times> tree_heap \<times> int list) option" where
  "topology_setupTree h lookup hwThreadPool = do {
     let (root, h0) = tree_init h 0;
     (h1, lookup1) \<leftarrow> topology_addThreads root (map (\<lambda>t. (t, int (apicId t))) hwThreadPool) (h0, lookup);
     sockets \<leftarrow> tree_countChildren h1 root;
     currentNode \<leftarrow> tree_getChildNode h1 root;
     cores \<leftarrow> tree_countChildren h1 currentNode;
     currentNode' \<leftarrow> tree_getChildNode h1 currentNode;
     threads \<leftarrow> tree_countChildren h1 currentNode';
     Some (\<lparr>topologyTree = root, numSockets = sockets, numCoresPerSocket = cores,
             numThreadsPerCore = threads\<rparr>, h1, lookup1) }"

section \<open>The tree has the paths of the threads\<close>

definition topo_inv :: "tree_heap \<Rightarrow> nat \<Rightarrow> int list set \<Rightarrow> bool" where
  "topo_inv h root T \<longleftrightarrow> tree_wf h \<and> root \<in> dom (cells h) \<and>
     (\<forall>a\<in>dom (cells h). \<forall>i. child h a i \<noteq> Some root) \<and> dom (tree_path (child h) root) = T"

lemma ensure_inv:
  assumes "topo_inv h root T" "tree_path (child h) root ps = Some a"
  shows "\<exists>h' b. tree_ensure h a i = Some (h', b) \<and> topo_inv h' root (insert (ps @ [i]) T) \<and>
    tree_path (child h') root (ps @ [i]) = Some b"
proof -
  obtain h' b where h': "Option.bind (tree_nodeExists h a i) (\<lambda>e. if e then Some h else tree_insertNode h a i) = Some h'"
      "tree_getNode h' a i = Some b" "tree_wf h'" "root \<in> dom (cells h')"
      "\<forall>c\<in>dom (cells h'). \<forall>i. child h' c i \<noteq> Some root"
      "tree_path (child h') root = (tree_path (child h) root)(ps @ [i] \<mapsto> b)"
    using nt.ensure_path [of h root ps a i] assms unfolding topo_inv_def by metis
  then have "topo_inv h' root (insert (ps @ [i]) T)" using assms(1) by (simp add: topo_inv_def)
  moreover have "tree_ensure h a i = Some (h', b)"
    using h'(1,2) by (auto simp: tree_ensure_def bind_Some_iff)
  ultimately show ?thesis using h'(6) by auto
qed

text \<open>The leaf is inserted like the inner nodes, its node is not fetched.\<close>

lemma leaf_inv:
  assumes "topo_inv h root T" "tree_path (child h) root ps = Some a"
  shows "\<exists>e h'. tree_nodeExists h a i = Some e \<and>
    (if e then Some h else tree_insertNode h a i) = Some h' \<and> topo_inv h' root (insert (ps @ [i]) T)"
proof -
  obtain h' b where b: "tree_ensure h a i = Some (h', b)" "topo_inv h' root (insert (ps @ [i]) T)"
    using ensure_inv [OF assms] by blast
  then obtain e where "tree_nodeExists h a i = Some e" "(if e then Some h else tree_insertNode h a i) = Some h'"
    unfolding tree_ensure_def bind_Some_iff by blast
  with b(2) show ?thesis by blast
qed

definition thread_paths :: "HWThread \<times> int \<Rightarrow> int list set" where
  "thread_paths = (\<lambda>(t, leaf). {[int (packageId t)], [int (packageId t), int (coreId t)],
     [int (packageId t), int (coreId t), leaf]})"

lemma addThread_inv:
  assumes inv: "topo_inv h root T" and root: "[] \<in> T" and ap: "apicId t < length lookup"
  shows "\<exists>h' lookup'. topology_addThread root t leaf (h, lookup) = Some (h', lookup') \<and>
    topo_inv h' root (T \<union> thread_paths (t, leaf)) \<and> length lookup' = length lookup"
proof -
  let ?p = "int (packageId t)" and ?c = "int (coreId t)"
  obtain h1 s where s: "tree_ensure h root ?p = Some (h1, s)" "topo_inv h1 root (insert [?p] T)"
      "tree_path (child h1) root [?p] = Some s"
    using ensure_inv [OF inv, of "[]" root ?p] by auto
  obtain h2 c where c: "tree_ensure h1 s ?c = Some (h2, c)" "topo_inv h2 root (insert [?p, ?c] (insert [?p] T))"
      "tree_path (child h2) root [?p, ?c] = Some c"
    using ensure_inv [OF s(2,3), of ?c] by auto
  obtain e h3 where l: "tree_nodeExists h2 c leaf = Some e" "(if e then Some h2 else tree_insertNode h2 c leaf) = Some h3"
      "topo_inv h3 root (insert [?p, ?c, leaf] (insert [?p, ?c] (insert [?p] T)))"
    using leaf_inv [OF c(2,3), of leaf] by auto
  have T: "insert [?p, ?c, leaf] (insert [?p, ?c] (insert [?p] T)) = T \<union> thread_paths (t, leaf)"
    by (auto simp: thread_paths_def)
  show ?thesis
    using s(1) c(1) l ap unfolding T
    by (cases e) (auto simp: topology_addThread_def arr_set_def)
qed

lemma addThreads_inv:
  assumes "topo_inv h root T" "[] \<in> T" "\<forall>(t, leaf)\<in>set ts. apicId t < length lookup"
  shows "\<exists>h' lookup'. topology_addThreads root ts (h, lookup) = Some (h', lookup') \<and>
    topo_inv h' root (T \<union> (\<Union>x\<in>set ts. thread_paths x)) \<and> length lookup' = length lookup"
  using assms
proof (induction ts arbitrary: h T lookup)
  case (Cons x ts)
  obtain t leaf where x: "x = (t, leaf)" by (cases x)
  obtain h1 lookup1 where st: "topology_addThread root t leaf (h, lookup) = Some (h1, lookup1)"
      "topo_inv h1 root (T \<union> thread_paths x)" "length lookup1 = length lookup"
    using addThread_inv [OF Cons.prems(1,2), of t lookup leaf] Cons.prems(3) x by auto
  show ?case
    using Cons.IH [OF st(2), of lookup1] st Cons.prems(2,3) x by (auto simp: Un_assoc)
qed simp

lemma init_inv: "\<exists>root h. tree_init empty_heap 0 = (root, h) \<and> topo_inv h root {[]}"
proof -
  let ?h = "snd (tree_init empty_heap 0)"
  have n: "nll ?h 1 = 0" "dom (cells ?h) = {1}" "brk ?h = 2"
    by (simp_all add: tree_init_def node_alloc_def empty_heap_def nll_def)
  have k: "kids ?h 1 = []" using n(1) by (intro kids_eq) simp
  have "tree_wf ?h" using n k by (auto simp: tree_wf_def heap_ok_def)
  moreover have c: "child ?h 1 = Map.empty" using k by (auto simp: child_def)
  moreover have "tree_path (child ?h) 1 ps = None" if "ps \<noteq> []" for ps using that c by (cases ps) auto
  then have "dom (tree_path (child ?h) 1) = {[]}" by (auto simp: dom_def) (metis not_None_eq tree_path.simps(1))
  ultimately have "topo_inv ?h 1 {[]}" using n by (auto simp: topo_inv_def)
  then show ?thesis by (auto simp: tree_init_def node_alloc_def empty_heap_def)
qed

lemma setup_paths:
  fixes pool :: "HWThread list"
  defines "T \<equiv> insert [] (\<Union>t\<in>set pool. thread_paths (t, int (apicId t)))"
  shows "{i. [] @ [i] \<in> T} = int ` packageId ` set pool"
    "{i. [int p] @ [i] \<in> T} = int ` coreId ` {t \<in> set pool. packageId t = p}"
    "{i. [int p, int c] @ [i] \<in> T} = int ` apicId ` {t \<in> set pool. packageId t = p \<and> coreId t = c}"
  by (auto simp: T_def thread_paths_def)

text \<open>
  For any list of hardware threads whose APIC ids are in range, building the tree ends
  without undefined behaviour; the number of sockets is the number of different package ids, the
  number of cores per socket is the number of different core ids in one of the packages, and the
  number of threads per core is the number of different APIC ids in one of the cores of that
  package.
\<close>

theorem topology_setupTree_counts:
  assumes "pool \<noteq> []" "\<forall>t\<in>set pool. apicId t < length lookup"
  shows "\<exists>topo h' lookup' p c. topology_setupTree empty_heap lookup pool = Some (topo, h', lookup') \<and>
    numSockets topo = card (packageId ` set pool) \<and>
    p \<in> packageId ` set pool \<and>
    numCoresPerSocket topo = card (coreId ` {t \<in> set pool. packageId t = p}) \<and>
    c \<in> coreId ` {t \<in> set pool. packageId t = p} \<and>
    numThreadsPerCore topo = card (apicId ` {t \<in> set pool. packageId t = p \<and> coreId t = c})"
proof -
  define T where "T = insert [] (\<Union>t\<in>set pool. thread_paths (t, int (apicId t)))"
  note paths = setup_paths [where pool = pool, folded T_def]
  obtain root h0 where h0: "tree_init empty_heap 0 = (root, h0)" "topo_inv h0 root {[]}"
    using init_inv by blast
  obtain h1 lookup1 where h1: "topology_addThreads root (map (\<lambda>t. (t, int (apicId t))) pool) (h0, lookup) = Some (h1, lookup1)"
      and inv: "topo_inv h1 root T"
    using addThreads_inv [OF h0(2), of "map (\<lambda>t. (t, int (apicId t))) pool" lookup] assms(2)
    by (auto simp: T_def)
  have wf: "tree_wf h1" "root \<in> dom (cells h1)" and dom: "dom (tree_path (child h1) root) = T"
    using inv by (auto simp: topo_inv_def)
  have r: "tree_path (child h1) root [] = Some root" by simp
  have "{i. [] @ [i] \<in> T} \<noteq> {}" using paths(1) assms(1) by simp
  then obtain j s where s: "tree_getChildNode h1 root = Some s" "tree_path (child h1) root [j] = Some s"
    using nt.first_path [OF wf r] dom by fastforce
  then obtain p where p: "j = int p" "p \<in> packageId ` set pool"
    using paths(1) dom by (force simp: dom_def)
  have "{i. [int p] @ [i] \<in> T} \<noteq> {}" using p(2) paths(2) [of p] by auto
  then obtain k q where q: "tree_getChildNode h1 s = Some q" "tree_path (child h1) root [int p, k] = Some q"
    using nt.first_path [OF wf, of "[int p]" s] s p(1) dom by fastforce
  then obtain c where c: "k = int c" "c \<in> coreId ` {t \<in> set pool. packageId t = p}"
    using paths(2) [of p] dom by (force simp: dom_def)
  have "tree_countChildren h1 root = Some (card (packageId ` set pool))"
    using nt.count_paths [OF wf r] dom paths(1) by (simp add: card_image)
  moreover have "tree_countChildren h1 s = Some (card (coreId ` {t \<in> set pool. packageId t = p}))"
    using nt.count_paths [OF wf, of "[int p]" s] s p(1) dom paths(2) [of p] by (simp add: card_image)
  moreover have "tree_countChildren h1 q = Some (card (apicId ` {t \<in> set pool. packageId t = p \<and> coreId t = c}))"
    using nt.count_paths [OF wf, of "[int p, int c]" q] q c(1) dom paths(3) [of p c] by (simp add: card_image)
  ultimately have "topology_setupTree empty_heap lookup pool = Some (\<lparr>topologyTree = root,
      numSockets = card (packageId ` set pool),
      numCoresPerSocket = card (coreId ` {t \<in> set pool. packageId t = p}),
      numThreadsPerCore = card (apicId ` {t \<in> set pool. packageId t = p \<and> coreId t = c})\<rparr>, h1, lookup1)"
    using h0(1) h1 s(1) q(1) by (simp add: topology_setupTree_def)
  then show ?thesis using p(2) c(2) by fastforce
qed

definition demo_pool :: "HWThread list" where
  "demo_pool = [\<lparr>threadId = 0, coreId = 0, packageId = 0, apicId = 0, inCpuSet = 1\<rparr>,
                \<lparr>threadId = 0, coreId = 0, packageId = 1, apicId = 2, inCpuSet = 1\<rparr>]"

theorem topology_setupTree_counts_witness:
  "\<exists>topo h' lookup'. topology_setupTree empty_heap (replicate MAX_NUM_THREADS 0) demo_pool = Some (topo, h', lookup') \<and>
     numSockets topo = 2"
proof -
  have "demo_pool \<noteq> []" "\<forall>t\<in>set demo_pool. apicId t < length (replicate MAX_NUM_THREADS (0 :: int))"
    by (simp_all add: demo_pool_def MAX_NUM_THREADS_def)
  from topology_setupTree_counts [OF this] show ?thesis
    by (force simp: demo_pool_def)
qed

end
