(* ===== verification/BString.thy ===== *)
theory BString
  imports Likwid_Prelude "HOL-Library.Char_ord"
begin

text \<open>
  The string operations of \<open>src/src/bstrlib.c\<close> and of the C library that the parsers use. Strings
  have no NUL character inside.
\<close>

section \<open>Searching and splitting\<close>

fun bsplit :: "char \<Rightarrow> string \<Rightarrow> string list" where
  "bsplit c [] = [[]]"
| "bsplit c (x # xs) =
     (if x = c then [] # bsplit c xs
      else (case bsplit c xs of [] \<Rightarrow> [[x]] | y # ys \<Rightarrow> (x # y) # ys))"

text \<open>The position of the first occurrence; \<^term>\<open>None\<close> is \<open>BSTR_ERR\<close>.\<close>

fun bstrchr :: "string \<Rightarrow> char \<Rightarrow> nat option" where
  "bstrchr [] c = None"
| "bstrchr (x # xs) c = (if x = c then Some 0 else map_option Suc (bstrchr xs c))"

fun has_prefix :: "string \<Rightarrow> string \<Rightarrow> bool" where
  "has_prefix [] s = True"
| "has_prefix (p # ps) [] = False"
| "has_prefix (p # ps) (x # xs) = (p = x \<and> has_prefix ps xs)"

fun binstr :: "string \<Rightarrow> string \<Rightarrow> bool" where
  "binstr [] pat = (pat = [])"
| "binstr (x # xs) pat = (has_prefix pat (x # xs) \<or> binstr xs pat)"

section \<open>Characters and numbers\<close>

definition isspace :: "char \<Rightarrow> bool" where
  "isspace c \<longleftrightarrow> c = CHR '' '' \<or> (9 \<le> (of_char c :: nat) \<and> (of_char c :: nat) \<le> 13)"

definition isdigit :: "char \<Rightarrow> bool" where
  "isdigit c \<longleftrightarrow> 48 \<le> (of_char c :: nat) \<and> (of_char c :: nat) \<le> 57"

fun digits_value :: "int \<Rightarrow> string \<Rightarrow> int" where
  "digits_value acc [] = acc"
| "digits_value acc (c # cs) =
     (if isdigit c then digits_value (10 * acc + (of_char c - 48)) cs else acc)"

text \<open>\<open>atoi\<close>, for numbers that fit into an \<open>int\<close>.\<close>

definition atoi :: "string \<Rightarrow> int" where
  "atoi s = (case dropWhile isspace s of
     CHR ''-'' # cs \<Rightarrow> - digits_value 0 cs
   | CHR ''+'' # cs \<Rightarrow> digits_value 0 cs
   | cs \<Rightarrow> digits_value 0 cs)"

definition tolower :: "char \<Rightarrow> char" where
  "tolower c = (if 65 \<le> (of_char c :: nat) \<and> (of_char c :: nat) \<le> 90 then char_of ((of_char c :: nat) + 32) else c)"

definition hex_value :: "char \<Rightarrow> nat option" where
  "hex_value c =
     (let n = (of_char c :: nat) in
      if 48 \<le> n \<and> n \<le> 57 then Some (n - 48)
      else if 97 \<le> n \<and> n \<le> 102 then Some (n - 87)
      else if 65 \<le> n \<and> n \<le> 70 then Some (n - 55) else None)"

fun hex_digits :: "nat \<Rightarrow> string \<Rightarrow> nat" where
  "hex_digits acc [] = acc"
| "hex_digits acc (c # cs) =
     (case hex_value c of None \<Rightarrow> acc | Some d \<Rightarrow> hex_digits (16 * acc + d) cs)"

definition skip_0x :: "string \<Rightarrow> string" where
  "skip_0x s = (case s of
     c # x # d # cs \<Rightarrow> if c = CHR ''0'' \<and> tolower x = CHR ''x'' \<and> hex_value d \<noteq> None then d # cs else s
   | _ \<Rightarrow> s)"

text \<open>
  \<open>sscanf\<close> with \<open>%llx\<close> into a variable that was 0: a number that does not fit is replaced by the largest
  one, a minus sign negates the result.
\<close>

definition scan_hex :: "string \<Rightarrow> u64" where
  "scan_hex s =
     (let magnitude = (\<lambda>t. of_nat (min (hex_digits 0 (skip_0x t)) (2 ^ 64 - 1)))
      in case dropWhile isspace s of
           CHR ''-'' # cs \<Rightarrow> - magnitude cs
         | CHR ''+'' # cs \<Rightarrow> magnitude cs
         | cs \<Rightarrow> magnitude cs)"

section \<open>Facts about splitting\<close>

lemma bsplit_nonempty [simp]: "bsplit c xs \<noteq> []"
  by (cases xs) (auto split: list.splits)

lemma bsplit_one: "c \<notin> set xs \<Longrightarrow> bsplit c xs = [xs]"
  by (induction xs) auto

lemma bsplit_two: "c \<notin> set xs \<Longrightarrow> c \<notin> set ys \<Longrightarrow> bsplit c (xs @ c # ys) = [xs, ys]"
  by (induction xs) (auto simp: bsplit_one)

end
