(* ===== verification/CpuString.thy ===== *)
theory CpuString
  imports BString
begin

text \<open>
  Processor strings, \<open>src/src/cpustring.c\<close>: the scatter, expression, logical and physical selections
  over the affinity domains, their combination with @ and the lists of NUMA nodes and sockets.

  An output array is modelled by the elements written so far and its size \<open>n\<close>; the source writes it
  in order, and a write behind its end is \<^term>\<open>None\<close>. Elements of a local array that were never
  written have an indeterminate value, reading one is \<^term>\<open>None\<close> too. Messages to the user are
  left out and allocation succeeds.
\<close>

section \<open>Topology and affinity domains\<close>

record AffinityDomain =
  tag :: string
  processorList :: "int list"

abbreviation (input) numberOfProcessors :: "AffinityDomain \<Rightarrow> nat" where
  "numberOfProcessors d \<equiv> length (processorList d)"

record cpu_env =
  numHWThreads :: nat
  activeHWThreads :: nat
  env_threadsPerCore :: nat
  domains :: "AffinityDomain list"

definition find_domain :: "AffinityDomain list \<Rightarrow> string \<Rightarrow> nat option" where
  "find_domain ds t = find (\<lambda>i. tag (ds ! i) = t) [0..<length ds]"

section \<open>Helpers of the parsers\<close>

text \<open>
  Writing values to the output until it is full: the flag says that the parser is done. A value
  that cannot be read is \<^term>\<open>None\<close>; it is only read when its turn comes.
\<close>

fun emit :: "nat \<Rightarrow> int option list \<Rightarrow> int list \<Rightarrow> (bool \<times> int list) option" where
  "emit n [] out = Some (False, out)"
| "emit n (v # vs) out =
     (case v of
        None \<Rightarrow> None
      | Some x \<Rightarrow>
          if length out < n
          then (if length out + 1 = n then Some (True, out @ [x]) else emit n vs (out @ [x]))
          else None)"

text \<open>
  \<open>cpulist_sort\<close>: first the first hardware thread of every core, then the second ones, and so on. The
  returned list has the elements written to \<open>outcpus\<close>.
\<close>

definition cpulist_sort :: "nat \<Rightarrow> int list \<Rightarrow> int list" where
  "cpulist_sort tpc incpus =
     concat (map (\<lambda>off. map (\<lambda>i. incpus ! (i * tpc + off)) [0..<length incpus div tpc]) [0..<tpc])"

fun cpulist_concat :: "nat \<Rightarrow> int list \<Rightarrow> int list \<Rightarrow> int list option" where
  "cpulist_concat n cpulist [] = Some cpulist"
| "cpulist_concat n cpulist (a # add) =
     (if length cpulist < n then cpulist_concat n (cpulist @ [a]) add else None)"

definition cpu_in_domain :: "AffinityDomain \<Rightarrow> int \<Rightarrow> bool" where
  "cpu_in_domain d cpu = (cpu \<in> set (processorList d))"

text \<open>The indices from \<open>a\<close> to \<open>b\<close>, upwards or downwards.\<close>

definition index_range :: "int \<Rightarrow> int \<Rightarrow> int list" where
  "index_range a b = (if a \<le> b then [a..b] else rev [b..a])"

text \<open>An entry of an index list is one number or a range; splitting a range at - gives two parts.\<close>

definition entry_indices :: "string \<Rightarrow> int list" where
  "entry_indices e =
     (if bstrchr e CHR ''-'' \<noteq> None
      then (let parts = bsplit CHR ''-'' e in index_range (atoi (parts ! 0)) (atoi (parts ! 1)))
      else [atoi e])"

section \<open>Nodes and sockets\<close>

definition cpuexpr_to_list :: "cpu_env \<Rightarrow> nat \<Rightarrow> string \<Rightarrow> string \<Rightarrow> int list option" where
  "cpuexpr_to_list env n bcpustr prefix =
     map_option snd
       (emit n (map (\<lambda>e. Some (atoi e))
          (filter (\<lambda>e. find_domain (domains env) (prefix @ e) \<noteq> None) (bsplit CHR '','' bcpustr))) [])"

definition nodestr_to_nodelist :: "cpu_env \<Rightarrow> nat \<Rightarrow> string \<Rightarrow> int list option" where
  "nodestr_to_nodelist env n nodestr = cpuexpr_to_list env n nodestr ''M''"

definition sockstr_to_socklist :: "cpu_env \<Rightarrow> nat \<Rightarrow> string \<Rightarrow> int list option" where
  "sockstr_to_socklist env n sockstr = cpuexpr_to_list env n sockstr ''S''"

section \<open>Scatter\<close>

text \<open>
  One round of the inner loop sorts the domain into \<open>sortedList\<close>, which has the size of the first
  suitable domain, and reads its element at \<open>off\<close>. The list keeps the rest of an earlier domain.
\<close>

definition scatter_sort :: "nat \<Rightarrow> nat \<Rightarrow> int list \<Rightarrow> int option list \<Rightarrow> int option list option" where
  "scatter_sort tpc cap plist sortedList =
     (let s = cpulist_sort tpc plist in
      if length s \<le> cap then Some (map Some s @ drop (length s) sortedList) else None)"

fun scatter_loop ::
  "nat \<Rightarrow> nat \<Rightarrow> nat \<Rightarrow> (nat \<times> int list) list \<Rightarrow> int option list \<Rightarrow> int list \<Rightarrow> int list option" where
  "scatter_loop n tpc cap [] sortedList out = Some out"
| "scatter_loop n tpc cap ((off, plist) # rounds) sortedList out =
     (case scatter_sort tpc cap plist sortedList of
        None \<Rightarrow> None
      | Some sl \<Rightarrow>
          (case emit n [sl ! off] out of
             None \<Rightarrow> None
           | Some (done, out') \<Rightarrow> if done then Some out' else scatter_loop n tpc cap rounds sl out'))"

definition cpustr_to_cpulist_scatter :: "cpu_env \<Rightarrow> nat \<Rightarrow> string \<Rightarrow> int list option" where
  "cpustr_to_cpulist_scatter env n bcpustr =
     (if bstrchr bcpustr CHR '':'' \<noteq> None then
        (let suitable = filter (\<lambda>d. bstrchr (tag d) (hd bcpustr) \<noteq> None) (domains env) in
         if suitable = [] then None
         else
           (let cap = numberOfProcessors (hd suitable) in
            scatter_loop n (env_threadsPerCore env) cap
              (List.product [0..<cap] (map processorList suitable))
              (replicate cap None) []))
      else Some [])"

section \<open>Expression\<close>

text \<open>The first argument counts the rounds that are left.\<close>

fun expression_loop ::
  "nat \<Rightarrow> nat \<Rightarrow> int list \<Rightarrow> int \<Rightarrow> int \<Rightarrow> int \<Rightarrow> int \<Rightarrow> int list \<Rightarrow> int list option" where
  "expression_loop 0 n plist count chunk stride offset out = Some []"
| "expression_loop (Suc m) n plist count chunk stride offset out =
     (case emit n (map (\<lambda>j. arr_get plist (offset + j))
             [0..min (chunk - 1) (int (length plist) - offset - 1)]) out of
        None \<Rightarrow> None
      | Some (done, out') \<Rightarrow>
          if done then Some out'
          else (let offset' = (if offset + stride \<ge> int (length plist) then 0 else offset + stride) in
                if int (length out') \<ge> count then Some out'
                else expression_loop m n plist count chunk stride offset' out'))"

text \<open>
  The fields of the expression; with neither three nor five parts the domain is never set, and its
  use is undefined.
\<close>

definition expression_fields :: "string list \<Rightarrow> (string \<times> int \<times> int \<times> int) option" where
  "expression_fields parts =
     (if length parts = 3 then Some (parts ! 1, atoi (parts ! 2), 1, 1)
      else if length parts = 5 then Some (parts ! 1, atoi (parts ! 2), atoi (parts ! 3), atoi (parts ! 4))
      else None)"

definition cpustr_to_cpulist_expression :: "cpu_env \<Rightarrow> nat \<Rightarrow> string \<Rightarrow> int list option" where
  "cpustr_to_cpulist_expression env n bcpustr =
     (if bstrchr bcpustr CHR ''E'' \<noteq> Some 0 then Some []
      else do {
        (bdomain, count, chunk, stride) \<leftarrow> expression_fields (bsplit CHR '':'' bcpustr);
        case find_domain (domains env) bdomain of
          None \<Rightarrow> Some []
        | Some i \<Rightarrow> expression_loop (nat count) n (processorList (domains env ! i)) count chunk stride 0 [] })"

section \<open>Logical and physical\<close>

fun emit_entries :: "nat \<Rightarrow> int option list list \<Rightarrow> int list \<Rightarrow> int list option" where
  "emit_entries n [] out = Some out"
| "emit_entries n (vs # rest) out =
     (case emit n vs out of
        None \<Rightarrow> None
      | Some (done, out') \<Rightarrow> if done then Some out' else emit_entries n rest out')"

definition cpustr_to_cpulist_logical :: "cpu_env \<Rightarrow> nat \<Rightarrow> string \<Rightarrow> int list option" where
  "cpustr_to_cpulist_logical env n bcpustr =
     (if bstrchr bcpustr CHR ''L'' \<noteq> Some 0 then Some []
      else
        (let parts = bsplit CHR '':'' bcpustr in
         if length parts \<noteq> 3 then Some []
         else (case find_domain (domains env) (parts ! 1) of
            None \<Rightarrow> Some []
          | Some i \<Rightarrow>
              (let inlist = cpulist_sort (env_threadsPerCore env) (processorList (domains env ! i)) in
               emit_entries n
                 (map (\<lambda>e. map (arr_get inlist) (entry_indices e)) (bsplit CHR '','' (parts ! 2))) []))))"

definition cpustr_to_cpulist_physical :: "cpu_env \<Rightarrow> nat \<Rightarrow> string \<Rightarrow> int list option" where
  "cpustr_to_cpulist_physical env n bcpustr =
     (let (bdomain, blist) =
        (if bstrchr bcpustr CHR '':'' \<noteq> None
         then (let parts = bsplit CHR '':'' bcpustr in (parts ! 0, parts ! 1))
         else (''N'', bcpustr)) in
      case find_domain (domains env) bdomain of
        None \<Rightarrow> Some []
      | Some i \<Rightarrow>
          emit_entries n
            (map (\<lambda>e. map Some (filter (cpu_in_domain (domains env ! i)) (entry_indices e)))
              (bsplit CHR '','' blist)) [])"

section \<open>Combination\<close>

definition domain_prefixed :: "string \<Rightarrow> bool" where
  "domain_prefixed e \<longleftrightarrow>
     (bstrchr e CHR ''N'' = Some 0 \<or> bstrchr e CHR ''S'' = Some 0 \<or>
      bstrchr e CHR ''C'' = Some 0 \<or> bstrchr e CHR ''M'' = Some 0) \<and> bstrchr e CHR '':'' \<noteq> None"

definition cpustr_entry :: "cpu_env \<Rightarrow> nat \<Rightarrow> string \<Rightarrow> int list option" where
  "cpustr_entry env n e =
     (if binstr e ''scatter'' then cpustr_to_cpulist_scatter env n e
      else if bstrchr e CHR ''E'' = Some 0 then cpustr_to_cpulist_expression env n e
      else if bstrchr e CHR ''L'' = Some 0 then cpustr_to_cpulist_logical env n e
      else if activeHWThreads env < numHWThreads env then
        cpustr_to_cpulist_logical env n ((if domain_prefixed e then ''L:'' else ''L:N:'') @ e)
      else if domain_prefixed e then cpustr_to_cpulist_logical env n (''L:'' @ e)
      else cpustr_to_cpulist_physical env n e)"

fun cpustr_entries :: "cpu_env \<Rightarrow> nat \<Rightarrow> string list \<Rightarrow> int list \<Rightarrow> int list option" where
  "cpustr_entries env n [] cpulist = Some cpulist"
| "cpustr_entries env n (e # es) cpulist = do {
     tmpList \<leftarrow> cpustr_entry env n e;
     cpulist' \<leftarrow> cpulist_concat n cpulist tmpList;
     cpustr_entries env n es cpulist' }"

definition cpustr_to_cpulist :: "cpu_env \<Rightarrow> nat \<Rightarrow> string \<Rightarrow> int list option" where
  "cpustr_to_cpulist env n cpustring = cpustr_entries env n (bsplit CHR ''@'' cpustring) []"

end
