(* ===== verification/CpuString_Properties.thy ===== *)
theory CpuString_Properties
  imports CpuString "HOL-Library.Multiset"
begin

text \<open>
  Properties of the processor strings: the selected processors belong to the affinity domains, the
  reordering by hardware thread is a permutation, which processors an expression selects, and
  for which strings the parsers stay inside their arrays.
\<close>

section \<open>Writing to the output\<close>

lemma emit_Some:
  assumes "emit n vs out = Some (done, out')"
  shows "\<exists>ws. out' = out @ ws \<and> Some ` set ws \<subseteq> set vs \<and> (ws \<noteq> [] \<longrightarrow> length out' \<le> n) \<and>
    (done \<longrightarrow> length out' = n) \<and> (\<not> done \<longrightarrow> map Some ws = vs)"
  using assms
proof (induction vs arbitrary: out)
  case (Cons v vs)
  then obtain x where x: "v = Some x" "length out < n" by (auto split: option.splits if_splits)
  show ?case
  proof (cases "length out + 1 = n")
    case True
    then show ?thesis using Cons.prems x by (intro exI [of _ "[x]"]) auto
  next
    case False
    then have "emit n vs (out @ [x]) = Some (done, out')" using Cons.prems x by simp
    from Cons.IH [OF this] obtain ws where ws: "out' = (out @ [x]) @ ws" "Some ` set ws \<subseteq> set vs"
        "ws \<noteq> [] \<longrightarrow> length out' \<le> n" "done \<longrightarrow> length out' = n" "\<not> done \<longrightarrow> map Some ws = vs"
      by blast
    then show ?thesis using x False by (intro exI [of _ "x # ws"]) auto
  qed
qed simp

text \<open>With room for at least one element, writing readable values never fails.\<close>

lemma emit_defined:
  assumes "length out < n" "None \<notin> set vs"
  shows "\<exists>done out'. emit n vs out = Some (done, out') \<and> (\<not> done \<longrightarrow> length out' < n)"
  using assms
proof (induction vs arbitrary: out)
  case (Cons v vs)
  then obtain x where "v = Some x" by (cases v) auto
  then show ?case using Cons.IH [of "out @ [x]"] Cons.prems by auto
qed (auto intro: exI [of _ False])

lemma emit_room:
  assumes "length out + length vs < n" "None \<notin> set vs"
  shows "emit n vs out = Some (False, out @ map the vs)"
  using assms
proof (induction vs arbitrary: out)
  case (Cons v vs)
  then show ?case by (cases v) auto
qed simp

lemma emit_unreadable:
  assumes "length out + length vs < n" "None \<in> set vs"
  shows "emit n vs out = None"
  using assms
proof (induction vs arbitrary: out)
  case (Cons v vs)
  then show ?case by (cases v) auto
qed simp

lemma emit_entries_Some:
  assumes "emit_entries n vss out = Some out'"
  shows "\<exists>ws. out' = out @ ws \<and> Some ` set ws \<subseteq> \<Union> (set ` set vss) \<and> (ws \<noteq> [] \<longrightarrow> length out' \<le> n)"
  using assms
proof (induction vss arbitrary: out)
  case (Cons vs vss)
  then obtain d out1 where e: "emit n vs out = Some (d, out1)" by (auto split: option.splits)
  from emit_Some [OF e] obtain ws where ws: "out1 = out @ ws" "Some ` set ws \<subseteq> set vs" "ws \<noteq> [] \<longrightarrow> length out1 \<le> n"
    by blast
  show ?case
  proof (cases d)
    case True
    then show ?thesis using Cons.prems e ws by auto
  next
    case False
    then obtain ws' where ws': "out' = out1 @ ws'" "Some ` set ws' \<subseteq> \<Union> (set ` set vss)" "ws' \<noteq> [] \<longrightarrow> length out' \<le> n"
      using Cons.IH [of out1] Cons.prems e by auto
    then show ?thesis using ws by (intro exI [of _ "ws @ ws'"]) auto
  qed
qed simp

lemma emit_entries_defined:
  assumes "length out < n" "\<forall>vs\<in>set vss. None \<notin> set vs"
  shows "\<exists>out'. emit_entries n vss out = Some out'"
  using assms
proof (induction vss arbitrary: out)
  case (Cons vs vss)
  then obtain d out1 where "emit n vs out = Some (d, out1)" "\<not> d \<longrightarrow> length out1 < n"
    using emit_defined [OF Cons.prems(1), of vs] by auto
  then show ?case using Cons.IH [of out1] Cons.prems(2) by auto
qed simp

lemma emit_entries_unreadable:
  assumes "length out + sum_list (map length vss) < n" "vs \<in> set vss" "None \<in> set vs"
  shows "emit_entries n vss out = None"
  using assms
proof (induction vss arbitrary: out)
  case (Cons v vss)
  show ?case
  proof (cases "None \<in> set v")
    case True
    then show ?thesis using emit_unreadable [of out v n] Cons.prems(1) by simp
  next
    case False
    then show ?thesis
      using emit_room [of out v n] Cons.IH [of "out @ map the v"] Cons.prems by auto
  qed
qed simp

section \<open>Sorting by hardware thread\<close>

lemma cpulist_sort_index:
  assumes "i < length xs div tpc" "off < tpc"
  shows "i * tpc + off < length xs"
proof -
  have "i * tpc + off < (i + 1) * tpc" using assms(2) by simp
  also have "\<dots> \<le> length xs div tpc * tpc" using assms(1) by (intro mult_right_mono) auto
  also have "\<dots> \<le> length xs" by simp
  finally show ?thesis .
qed

lemma set_cpulist_sort: "set (cpulist_sort tpc xs) \<subseteq> set xs"
  by (auto simp: cpulist_sort_def cpulist_sort_index)

lemma length_cpulist_sort: "length (cpulist_sort tpc xs) = tpc * (length xs div tpc)"
  by (simp add: cpulist_sort_def length_concat comp_def sum_list_triv)

lemma mset_as_sum: "mset xs = (\<Sum>k<length xs. {#xs ! k#})"
  by (induction xs rule: rev_induct) (auto simp: nth_append intro: sum.cong)

lemma mset_map_upt: "mset (map f [0..<n]) = (\<Sum>k<n. {#f k#})"
  by (induction n) auto

lemma sum_shift: "(\<Sum>off<t. f (m + off)) = sum f {m ..< m + t :: nat}" for f :: "nat \<Rightarrow> 'a::comm_monoid_add"
  by (induction t) auto

text \<open>
  Sorting a processor list by hardware thread neither loses nor duplicates a processor
  when the number of threads per core divides the length of the list; otherwise exactly the
  processors of the last, incomplete core are lost.
\<close>

theorem cpulist_sort_permutation:
  "mset (cpulist_sort tpc xs) = mset (take (tpc * (length xs div tpc)) xs)"
proof -
  let ?q = "length xs div tpc"
  have "mset (cpulist_sort tpc xs) = (\<Sum>off<tpc. \<Sum>i<?q. {#xs ! (i * tpc + off)#})"
    by (simp add: cpulist_sort_def mset_concat comp_def mset_map_upt interv_sum_list_conv_sum_set_nat
        atLeast0LessThan del: mset_map)
  also have "\<dots> = (\<Sum>i<?q. \<Sum>off<tpc. {#xs ! (i * tpc + off)#})"
    by (rule sum.swap)
  also have "\<dots> = (\<Sum>i<?q. sum (\<lambda>k. {#xs ! k#}) {i * tpc ..< i * tpc + tpc})"
    by (simp only: sum_shift [where f = "\<lambda>k. {#xs ! k#}"])
  also have "\<dots> = (\<Sum>k<?q * tpc. {#xs ! k#})"
    by (rule sum.nat_group)
  also have "\<dots> = mset (take (tpc * ?q) xs)"
    by (simp add: mset_as_sum [of "take _ _"] mult.commute min_absorb1 div_times_less_eq_dividend)
  finally show ?thesis .
qed

section \<open>Selected processors belong to the domains\<close>

definition all_cpus :: "cpu_env \<Rightarrow> int set" where
  "all_cpus env = (\<Union>d\<in>set (domains env). set (processorList d))"

lemma find_domain_mem: "find_domain ds t = Some i \<Longrightarrow> i < length ds \<and> tag (ds ! i) = t"
  by (auto simp: find_domain_def find_Some_iff)

lemma domain_cpus: "find_domain (domains env) t = Some i \<Longrightarrow> set (processorList (domains env ! i)) \<subseteq> all_cpus env"
  unfolding all_cpus_def using find_domain_mem nth_mem by blast

lemma arr_get_mem: "arr_get xs i = Some v \<Longrightarrow> v \<in> set xs"
  by (auto simp: arr_get_def split: if_splits)

lemma expression_loop_cpus:
  assumes "expression_loop m n plist cnt chunk stride offset out = Some out'"
    and "set out \<subseteq> set plist" "length out \<le> n"
  shows "set out' \<subseteq> set plist \<and> length out' \<le> n"
  using assms
proof (induction m arbitrary: offset out)
  case (Suc m)
  obtain d out1 where e: "emit n (map (\<lambda>j. arr_get plist (offset + j))
      [0..min (chunk - 1) (int (length plist) - offset - 1)]) out = Some (d, out1)"
    using Suc.prems(1) by (auto split: option.splits)
  from emit_Some [OF e] obtain ws where ws: "out1 = out @ ws" "ws \<noteq> [] \<longrightarrow> length out1 \<le> n"
      and mem: "Some ` set ws \<subseteq> set (map (\<lambda>j. arr_get plist (offset + j))
        [0..min (chunk - 1) (int (length plist) - offset - 1)])" by blast
  have "x \<in> set plist" if x: "x \<in> set ws" for x
  proof -
    obtain j where "arr_get plist (offset + j) = Some x" using subsetD [OF mem imageI [OF x]] by auto
    then show ?thesis by (rule arr_get_mem)
  qed
  then have "set out1 \<subseteq> set plist \<and> length out1 \<le> n"
    using ws Suc.prems(2,3) by (cases "ws = []") auto
  then show ?case using Suc.IH [of _ out1] Suc.prems(1) e by (auto simp: Let_def split: if_splits)
qed simp

lemma scatter_sort_mem:
  assumes "scatter_sort tpc cap plist sl = Some sl'" "set plist \<subseteq> A" "set sl \<subseteq> insert None (Some ` A)"
  shows "set sl' \<subseteq> insert None (Some ` A) \<and> (length sl = cap \<longrightarrow> length sl' = cap)"
proof -
  let ?s = "cpulist_sort tpc plist"
  have sl': "sl' = map Some ?s @ drop (length ?s) sl" "length ?s \<le> cap"
    using assms(1) by (auto simp: scatter_sort_def Let_def split: if_splits)
  have "set sl' \<subseteq> Some ` set ?s \<union> set sl" using set_drop_subset [of "length ?s" sl] by (auto simp: sl'(1))
  moreover have "Some ` set ?s \<union> set sl \<subseteq> insert None (Some ` A)"
    using assms(2,3) set_cpulist_sort [of tpc plist] by blast
  ultimately have "set sl' \<subseteq> insert None (Some ` A)" by (rule subset_trans)
  then show ?thesis using sl' by simp
qed

lemma scatter_loop_cpus:
  assumes "scatter_loop n tpc cap rounds sl out = Some out'"
    and "\<forall>(off, plist)\<in>set rounds. off < cap \<and> set plist \<subseteq> A"
    and "set sl \<subseteq> insert None (Some ` A)" "length sl = cap" "set out \<subseteq> A" "length out \<le> n"
  shows "set out' \<subseteq> A \<and> length out' \<le> n"
  using assms
proof (induction rounds arbitrary: sl out)
  case (Cons r rounds)
  obtain off plist where r: "r = (off, plist)" by (cases r)
  then obtain sl' d out1 where s: "scatter_sort tpc cap plist sl = Some sl'" "emit n [sl' ! off] out = Some (d, out1)"
    using Cons.prems(1) by (auto split: option.splits)
  have sl': "set sl' \<subseteq> insert None (Some ` A)" "length sl' = cap"
    using scatter_sort_mem [OF s(1), of A] Cons.prems r by auto
  have "sl' ! off \<in> insert None (Some ` A)"
    using sl' Cons.prems(2) r by (metis (mono_tags, lifting) case_prodD list.set_intros(1) nth_mem subsetD)
  then have "set out1 \<subseteq> A \<and> length out1 \<le> n"
    using s(2) Cons.prems(5) by (auto split: option.splits if_splits)
  then show ?case using Cons.IH [OF _ _ sl', of out1] Cons.prems(1,2) s r by (auto split: if_splits)
qed simp

lemma entries_cpus:
  assumes "emit_entries n vss [] = Some out" "\<forall>vs\<in>set vss. set vs \<subseteq> insert None (Some ` A)"
  shows "set out \<subseteq> A \<and> length out \<le> n"
  using emit_entries_Some [OF assms(1)] assms(2) by (fastforce simp: image_subset_iff)

text \<open>Each parser selects processors of the domains and at most as many as the array holds.\<close>

lemma scatter_cpus:
  assumes "cpustr_to_cpulist_scatter env n e = Some out"
  shows "set out \<subseteq> all_cpus env \<and> length out \<le> n"
proof (cases "bstrchr e CHR '':'' = None")
  case False
  define suitable where "suitable = filter (\<lambda>d. bstrchr (tag d) (hd e) \<noteq> None) (domains env)"
  define cap where "cap = length (processorList (hd suitable))"
  have "scatter_loop n (env_threadsPerCore env) cap (List.product [0..<cap] (map processorList suitable))
      (replicate cap None) [] = Some out"
    using assms False
    by (simp add: cpustr_to_cpulist_scatter_def Let_def cap_def suitable_def del: not_None_eq split: if_splits)
  moreover have "\<forall>(off, plist)\<in>set (List.product [0..<cap] (map processorList suitable)).
      off < cap \<and> set plist \<subseteq> all_cpus env"
    by (auto simp: suitable_def all_cpus_def)
  ultimately show ?thesis by (rule scatter_loop_cpus) auto
qed (use assms in \<open>simp add: cpustr_to_cpulist_scatter_def\<close>)

lemma expression_cpus:
  assumes "cpustr_to_cpulist_expression env n e = Some out"
  shows "set out \<subseteq> all_cpus env \<and> length out \<le> n"
  using assms domain_cpus expression_loop_cpus [where out = "[]"]
  by (fastforce simp: cpustr_to_cpulist_expression_def bind_Some_iff split: if_splits option.splits)

lemma logical_cpus:
  assumes "cpustr_to_cpulist_logical env n e = Some out"
  shows "set out \<subseteq> all_cpus env \<and> length out \<le> n"
proof (cases "out = []")
  case False
  then obtain i parts where i: "find_domain (domains env) (parts ! 1) = Some i"
      and e: "emit_entries n (map (\<lambda>e. map (arr_get (cpulist_sort (env_threadsPerCore env)
        (processorList (domains env ! i)))) (entry_indices e)) (bsplit CHR '','' (parts ! 2))) [] = Some out"
    using assms by (auto simp: cpustr_to_cpulist_logical_def Let_def split: if_splits option.splits)
  have "set (cpulist_sort (env_threadsPerCore env) (processorList (domains env ! i))) \<subseteq> all_cpus env"
    using set_cpulist_sort domain_cpus [OF i] by blast
  then have "arr_get (cpulist_sort (env_threadsPerCore env) (processorList (domains env ! i))) j
      \<in> insert None (Some ` all_cpus env)" for j
    by (cases "arr_get (cpulist_sort (env_threadsPerCore env) (processorList (domains env ! i))) j")
      (auto dest: arr_get_mem)
  then show ?thesis by (intro entries_cpus [OF e]) auto
qed simp

lemma physical_cpus:
  assumes "cpustr_to_cpulist_physical env n e = Some out"
  shows "set out \<subseteq> all_cpus env \<and> length out \<le> n"
proof (cases "out = []")
  case False
  then obtain i bd bl where i: "find_domain (domains env) bd = Some i"
      and e: "emit_entries n (map (\<lambda>e. map Some (filter (cpu_in_domain (domains env ! i)) (entry_indices e)))
        (bsplit CHR '','' bl)) [] = Some out"
    using assms
    by (cases "bstrchr e CHR '':''")
      (auto simp: cpustr_to_cpulist_physical_def Let_def split: option.splits)
  then show ?thesis using domain_cpus [OF i] by (intro entries_cpus [OF e]) (auto simp: cpu_in_domain_def)
qed simp

lemma entry_cpus: "cpustr_entry env n e = Some out \<Longrightarrow> set out \<subseteq> all_cpus env \<and> length out \<le> n"
  by (auto simp: cpustr_entry_def split: if_splits
      dest!: scatter_cpus expression_cpus logical_cpus physical_cpus)

lemma concat_Some: "cpulist_concat n out add = Some out' \<Longrightarrow> out' = out @ add \<and> (add = [] \<or> length out' \<le> n)"
  by (induction add arbitrary: out) (force split: if_splits)+

lemma concat_None: "length out \<le> n \<Longrightarrow> cpulist_concat n out add = None \<longleftrightarrow> n < length out + length add"
  by (induction add arbitrary: out) auto

lemma entries_sound:
  "\<lbrakk>cpustr_entries env n es out = Some out'; set out \<subseteq> all_cpus env; length out \<le> n\<rbrakk> \<Longrightarrow>
     set out' \<subseteq> all_cpus env \<and> length out' \<le> n"
proof (induction es arbitrary: out)
  case (Cons e es)
  then obtain t out1 where t: "cpustr_entry env n e = Some t" "cpulist_concat n out t = Some out1"
      "cpustr_entries env n es out1 = Some out'"
    by (auto simp: bind_Some_iff)
  then show ?case
    using Cons.IH [OF t(3)] entry_cpus [OF t(1)] concat_Some [OF t(2)] Cons.prems(2,3) by auto
qed simp

text \<open>
  Property C38. Whatever the processor string, the list it is translated to has only processors of
  the affinity domains, and at most as many as the array the caller gave.
\<close>

theorem cpustr_to_cpulist_sound:
  assumes "cpustr_to_cpulist env n cpustring = Some cpus"
  shows "set cpus \<subseteq> all_cpus env \<and> length cpus \<le> n"
  using assms entries_sound [where out = "[]"] by (simp add: cpustr_to_cpulist_def)

definition demo_env :: cpu_env where
  "demo_env = \<lparr>numHWThreads = 8, activeHWThreads = 8, env_threadsPerCore = 2,
     domains = [\<lparr>tag = ''N'', processorList = [0, 4, 1, 5, 2, 6, 3, 7]\<rparr>,
                \<lparr>tag = ''S0'', processorList = [0, 4, 1, 5]\<rparr>, \<lparr>tag = ''S1'', processorList = [2, 6, 3, 7]\<rparr>]\<rparr>"

theorem cpustr_to_cpulist_sound_witness:
  "cpustr_to_cpulist demo_env 8 ''S:scatter'' = Some [0, 2, 1, 3, 4, 6, 5, 7] \<and>
   set [0, 2, 1, 3, 4, 6, 5, 7] \<subseteq> all_cpus demo_env"
proof -
  have e: "cpustr_to_cpulist demo_env 8 ''S:scatter'' = Some [0, 2, 1, 3, 4, 6, 5, 7]"
    by code_simp
  with cpustr_to_cpulist_sound [OF e] show ?thesis by blast
qed

section \<open>What an expression selects\<close>

text \<open>
  The rounds of an expression. The offsets are the multiples of the stride inside the domain, and after the
  last of them it starts again at the front; a round takes one chunk, cut off at the end of the domain.
\<close>

definition round_offset :: "nat \<Rightarrow> nat \<Rightarrow> nat \<Rightarrow> nat" where
  "round_offset len stride k = stride * (k mod ((len + stride - 1) div stride))"

definition round_cpus :: "int list \<Rightarrow> nat \<Rightarrow> nat \<Rightarrow> nat \<Rightarrow> int list" where
  "round_cpus plist chunk stride k = take chunk (drop (round_offset (length plist) stride k) plist)"

definition rounds :: "int list \<Rightarrow> nat \<Rightarrow> nat \<Rightarrow> nat \<Rightarrow> int list" where
  "rounds plist chunk stride r = concat (map (round_cpus plist chunk stride) [0..<r])"

lemma round_offset_0 [simp]: "round_offset len stride 0 = 0"
  by (simp add: round_offset_def)

lemma round_offset_Suc:
  assumes "0 < len"
  shows "round_offset len stride (Suc k) =
    (if len \<le> round_offset len stride k + stride then 0 else round_offset len stride k + stride)"
proof (cases "stride = 0")
  case True
  then show ?thesis using assms by (simp add: round_offset_def)
next
  case False
  define q where "q = (len + stride - 1) div stride"
  have q: "stride * q < len + stride" "len \<le> stride * q"
    using False assms mult_div_mod_eq [of stride "len + stride - 1", folded q_def] mod_less_divisor [of stride "len + stride - 1"] by linarith+
  have off: "round_offset len stride j = stride * (j mod q)" for j by (simp only: round_offset_def q_def)
  have pos: "0 < q" using q(2) assms by (cases q) auto
  show ?thesis
  proof (cases "Suc (k mod q) = q")
    case True
    then have "stride * (k mod q) + stride = stride * q" by (metis mult_Suc_right add.commute)
    then show ?thesis using q(2) True by (simp add: off mod_Suc)
  next
    case False
    have "k mod q < q" using pos by simp
    then have "Suc (Suc (k mod q)) \<le> q" using False by linarith
    then have "stride * (Suc (Suc (k mod q))) \<le> stride * q" by (rule mult_le_mono2)
    then have "stride * (k mod q) + stride < len" using q(1) by simp
    then show ?thesis using False by (simp add: off mod_Suc)
  qed
qed

lemma round_offset_less: "0 < len \<Longrightarrow> round_offset len stride k < len"
  by (induction k) (simp_all add: round_offset_Suc)

lemma rounds_Suc: "rounds plist chunk stride (Suc r) = rounds plist chunk stride r @ round_cpus plist chunk stride r"
  by (simp add: rounds_def)

lemma round_cpus_values:
  assumes "0 \<le> chunk"
  shows "map (\<lambda>j. arr_get plist (int (round_offset (length plist) stride k) + j))
      [0..min (chunk - 1) (int (length plist) - int (round_offset (length plist) stride k) - 1)] =
    map Some (round_cpus plist (nat chunk) stride k)" (is "?l = ?r")
proof (rule nth_equalityI)
  show "length ?l = length ?r" using assms by (simp add: round_cpus_def min_def) linarith
  show "?l ! i = ?r ! i" if "i < length ?l" for i
  proof -
    let ?o = "round_offset (length plist) stride k"
    have "int i \<le> min (chunk - 1) (int (length plist) - int ?o - 1)" using that unfolding length_map length_upto by linarith
    then have "[0..min (chunk - 1) (int (length plist) - int ?o - 1)] ! i = int i" "i < nat chunk" "?o + i < length plist"
      by (auto simp: nth_upto)
    then show ?thesis using that by (simp add: round_cpus_def arr_get_def nat_add_distrib)
  qed
qed

lemma emit_values:
  assumes "length out < n"
  shows "emit n (map Some ws) out = Some (n \<le> length out + length ws, take n (out @ ws))"
  using assms by (induction ws arbitrary: out) (auto simp: take_Cons')

lemma expression_loop_rounds:
  assumes "plist \<noteq> []" "1 \<le> chunk" "0 \<le> stride" "\<forall>j\<le>k. length (rounds plist (nat chunk) (nat stride) j) < min n (nat cnt)"
    and "nat cnt \<le> m + length (rounds plist (nat chunk) (nat stride) k)"
  shows "\<exists>r. expression_loop m n plist cnt chunk stride (int (round_offset (length plist) (nat stride) k)) (rounds plist (nat chunk) (nat stride) k) =
      Some (take n (rounds plist (nat chunk) (nat stride) r)) \<and> min n (nat cnt) \<le> length (rounds plist (nat chunk) (nat stride) r) \<and>
    (\<forall>j<r. length (rounds plist (nat chunk) (nat stride) j) < min n (nat cnt))"
  using assms(4,5)
proof (induction m arbitrary: k)
  case 0
  then show ?case by fastforce
next
  case (Suc m)
  let ?R = "rounds plist (nat chunk) (nat stride)" and ?o = "round_offset (length plist) (nat stride)"
  have len: "length (?R (Suc k)) = length (?R k) + length (round_cpus plist (nat chunk) (nat stride) k)" by (simp add: rounds_Suc)
  have e: "emit n (map (\<lambda>j. arr_get plist (int (?o k) + j)) [0..min (chunk - 1) (int (length plist) - int (?o k) - 1)]) (?R k) =
      Some (n \<le> length (?R (Suc k)), take n (?R (Suc k)))"
    using Suc.prems(1) assms(2) by (simp add: round_cpus_values emit_values rounds_Suc)
  have o: "(if int (length plist) \<le> int (?o k) + stride then 0 else int (?o k) + stride) = int (?o (Suc k))"
    using assms(1,3) by (auto simp: round_offset_Suc)
  have "0 < length (round_cpus plist (nat chunk) (nat stride) k)"
    using assms(1,2) round_offset_less [of "length plist" "nat stride" k] by (simp add: round_cpus_def)
  then have grow: "nat cnt \<le> m + length (?R (Suc k))" using Suc.prems(2) len by linarith
  show ?case
  proof (cases "min n (nat cnt) \<le> length (?R (Suc k))")
    case True
    then have "n \<le> length (?R (Suc k)) \<or> cnt \<le> int (length (?R (Suc k))) \<and> take n (?R (Suc k)) = ?R (Suc k)" by auto
    then have "expression_loop (Suc m) n plist cnt chunk stride (int (?o k)) (?R k) = Some (take n (?R (Suc k)))"
      by (auto simp: e Let_def)
    then show ?thesis using True Suc.prems(1) by (intro exI [of _ "Suc k"]) (simp add: less_Suc_eq_le)
  next
    case False
    then have n: "(n \<le> length (?R (Suc k))) = False" "(cnt \<le> int (length (?R (Suc k)))) = False" "take n (?R (Suc k)) = ?R (Suc k)"
      by auto
    have "expression_loop (Suc m) n plist cnt chunk stride (int (?o k)) (?R k) =
        expression_loop m n plist cnt chunk stride (int (?o (Suc k))) (?R (Suc k))"
      by (simp only: expression_loop.simps e o n option.case prod.case if_False Let_def)
    moreover have "\<forall>j\<le>Suc k. length (?R j) < min n (nat cnt)" using Suc.prems(1) False by (auto simp: le_Suc_eq)
    ultimately show ?thesis using Suc.IH [OF _ grow] by simp
  qed
qed

text \<open>
  Property C39. An expression with a positive number of threads and chunk size and a stride that is not negative, for a domain with
  processors, selects, in this order, the chunks at the offsets 0, stride, 2 stride, ..., from the front again after the last multiple
  of the stride inside the domain. The selection ends after the first round that reaches the requested number of threads, or when
  the array is full: the number is only tested after a whole chunk, so that more processors than requested can be selected.
\<close>

theorem expression_selects:
  assumes "bstrchr e CHR ''E'' = Some 0"
    and "expression_fields (bsplit CHR '':'' e) = Some (bdomain, cnt, chunk, stride)"
    and "find_domain (domains env) bdomain = Some i" "processorList (domains env ! i) \<noteq> []"
    and "1 \<le> cnt" "1 \<le> chunk" "0 \<le> stride" "0 < n"
  shows "\<exists>r. cpustr_to_cpulist_expression env n e = Some (take n (rounds (processorList (domains env ! i)) (nat chunk) (nat stride) r)) \<and>
    min n (nat cnt) \<le> length (rounds (processorList (domains env ! i)) (nat chunk) (nat stride) r) \<and>
    (\<forall>k<r. length (rounds (processorList (domains env ! i)) (nat chunk) (nat stride) k) < min n (nat cnt))"
  using expression_loop_rounds [OF assms(4,6,7), of 0 n cnt "nat cnt"] assms(1-3,5,8)
  by (simp add: cpustr_to_cpulist_expression_def rounds_def)

theorem expression_selects_witness:
  "cpustr_to_cpulist_expression demo_env 8 ''E:N:3:2:4'' = Some [0, 4, 2, 6]"
proof -
  have f: "expression_fields (bsplit CHR '':'' ''E:N:3:2:4'') = Some (''N'', 3, 2, 4)"
      "find_domain (domains demo_env) ''N'' = Some 0"
    by code_simp+
  obtain r where r: "cpustr_to_cpulist_expression demo_env 8 ''E:N:3:2:4'' =
        Some (take 8 (rounds (processorList (domains demo_env ! 0)) 2 4 r))"
      "3 \<le> length (rounds (processorList (domains demo_env ! 0)) 2 4 r)"
      "\<forall>k<r. length (rounds (processorList (domains demo_env ! 0)) 2 4 k) < 3"
    using expression_selects [OF _ f, of 8] by (force simp: demo_env_def)
  have v: "rounds (processorList (domains demo_env ! 0)) 2 4 0 = []" "rounds (processorList (domains demo_env ! 0)) 2 4 1 = [0, 4]"
      "rounds (processorList (domains demo_env ! 0)) 2 4 2 = [0, 4, 2, 6]"
    by code_simp+
  have "\<not> 2 < r" using r(3) v(3) by auto
  moreover have "r \<noteq> 0" "r \<noteq> 1" by (rule notI, use r(2) v(1,2) in simp)+
  ultimately have "r = 2" by linarith
  then show ?thesis using r(1) v(3) by simp
qed

section \<open>Logical and physical selections\<close>

text \<open>
  When the array has room for all requested indices, a logical selection is defined
  exactly when every index is below the number of processors that sorting by hardware thread
  keeps; an index is not checked against it.
\<close>

theorem logical_defined_iff:
  assumes "bstrchr e CHR ''L'' = Some 0" "bsplit CHR '':'' e = [l, bdomain, lst]"
    and "find_domain (domains env) bdomain = Some i"
    and "sum_list (map (length \<circ> entry_indices) (bsplit CHR '','' lst)) < n"
  shows "cpustr_to_cpulist_logical env n e \<noteq> None \<longleftrightarrow>
    (\<forall>x\<in>set (bsplit CHR '','' lst). \<forall>j\<in>set (entry_indices x). 0 \<le> j \<and>
       j < int (env_threadsPerCore env * (length (processorList (domains env ! i)) div env_threadsPerCore env)))"
proof -
  let ?in = "cpulist_sort (env_threadsPerCore env) (processorList (domains env ! i))"
  let ?vss = "map (\<lambda>e. map (arr_get ?in) (entry_indices e)) (bsplit CHR '','' lst)"
  have eq: "cpustr_to_cpulist_logical env n e = emit_entries n ?vss []"
    using assms(1-3) by (simp add: cpustr_to_cpulist_logical_def Let_def)
  have len: "length [] + sum_list (map length ?vss) < n" using assms(4) by (simp add: comp_def)
  have "emit_entries n ?vss [] \<noteq> None \<longleftrightarrow> (\<forall>vs\<in>set ?vss. None \<notin> set vs)"
    using emit_entries_unreadable [OF len] emit_entries_defined [of "[]" n ?vss] len by fastforce
  also have "\<dots> \<longleftrightarrow> (\<forall>x\<in>set (bsplit CHR '','' lst). \<forall>j\<in>set (entry_indices x). arr_get ?in j \<noteq> None)"
    by force
  finally show ?thesis
    by (simp add: eq arr_get_None length_cpulist_sort not_less not_le del: not_None_eq)
qed

theorem logical_defined_iff_witness:
  "cpustr_to_cpulist_logical demo_env 8 ''L:S1:0-1'' \<noteq> None \<and> cpustr_to_cpulist_logical demo_env 8 ''L:S1:4'' = None"
proof -
  have a: "bstrchr ''L:S1:0-1'' CHR ''L'' = Some 0" "bsplit CHR '':'' ''L:S1:0-1'' = [''L'', ''S1'', ''0-1'']"
      "bstrchr ''L:S1:4'' CHR ''L'' = Some 0" "bsplit CHR '':'' ''L:S1:4'' = [''L'', ''S1'', ''4'']"
      "find_domain (domains demo_env) ''S1'' = Some 2"
      "bsplit CHR '','' ''0-1'' = [''0-1'']" "bsplit CHR '','' ''4'' = [''4'']"
      "entry_indices ''0-1'' = [0, 1]" "entry_indices ''4'' = [4]"
    by code_simp+
  have "cpustr_to_cpulist_logical demo_env 8 ''L:S1:0-1'' \<noteq> None"
    by (subst logical_defined_iff [OF a(1,2,5)]) (simp_all add: a(6,8) demo_env_def)
  moreover have "\<not> cpustr_to_cpulist_logical demo_env 8 ''L:S1:4'' \<noteq> None"
    by (subst logical_defined_iff [OF a(3,4,5)]) (simp_all add: a(7,9) demo_env_def)
  ultimately show ?thesis by blast
qed

text \<open>
  A physical selection is always defined, whatever the string, and selects exactly
  processors of its domain: numbers that are not in the domain are skipped.
\<close>

theorem physical_total:
  assumes "0 < n"
  shows "\<exists>cpus. cpustr_to_cpulist_physical env n e = Some cpus \<and> set cpus \<subseteq> all_cpus env"
proof -
  have "\<exists>cpus. emit_entries n (map (\<lambda>e. map Some (filter P (entry_indices e))) es) [] = Some cpus" for P es
    using assms by (intro emit_entries_defined) auto
  then have "\<exists>cpus. cpustr_to_cpulist_physical env n e = Some cpus"
    by (cases "bstrchr e CHR '':''") (auto simp: cpustr_to_cpulist_physical_def Let_def split: option.splits)
  then show ?thesis using physical_cpus by blast
qed

theorem physical_total_witness:
  "\<exists>cpus. cpustr_to_cpulist_physical demo_env 8 ''2,99,1-0'' = Some cpus \<and> cpus = [2, 1, 0]"
proof -
  have v: "cpustr_to_cpulist_physical demo_env 8 ''2,99,1-0'' = Some [2, 1, 0]"
    by code_simp
  have "\<exists>cpus. cpustr_to_cpulist_physical demo_env 8 ''2,99,1-0'' = Some cpus \<and> set cpus \<subseteq> all_cpus demo_env"
    by (rule physical_total) simp
  then show ?thesis using v by simp
qed

section \<open>Combined selections\<close>

text \<open>
  Combining two selections with @ that together have more processors than the array of
  the caller holds writes behind its end: every selection is bounded by the array size on its own,
  their concatenation is not.
\<close>

theorem combined_overflow:
  assumes "CHR ''@'' \<notin> set e1" "CHR ''@'' \<notin> set e2"
    and "cpustr_entry env n e1 = Some a" "cpustr_entry env n e2 = Some b"
  shows "cpustr_to_cpulist env n (e1 @ CHR ''@'' # e2) = (if length a + length b \<le> n then Some (a @ b) else None)"
proof -
  have "length a \<le> n" using entry_cpus [OF assms(3)] by simp
  then have "cpulist_concat n [] a = Some a" "cpulist_concat n a b = (if length a + length b \<le> n then Some (a @ b) else None)"
    using concat_None [of "[]" n a] concat_None [of a n b] concat_Some [of n "[]" a] concat_Some [of n a b]
    by (cases "cpulist_concat n [] a"; auto)+
  then show ?thesis
    using assms by (simp add: cpustr_to_cpulist_def bsplit_two)
qed

theorem combined_overflow_witness:
  "cpustr_to_cpulist demo_env 4 ''0-3@4'' = None"
proof -
  have a: "cpustr_entry demo_env 4 ''0-3'' = Some [0, 1, 2, 3]" "cpustr_entry demo_env 4 ''4'' = Some [4]"
    by code_simp+
  have "cpustr_to_cpulist demo_env 4 (''0-3'' @ CHR ''@'' # ''4'') = (if length [0, 1, 2, 3 :: int] + length [4 :: int] \<le> 4 then Some ([0, 1, 2, 3] @ [4]) else None)"
    by (rule combined_overflow [OF _ _ a]) simp_all
  then show ?thesis by simp
qed

end
