(* ===== verification/Timer.thy ===== *)
theory Timer
  imports Likwid_Prelude Complex_Main
begin

text \<open>
  The time stamp counter timer, \<open>src/src/timer.c\<close>, in its x86-64 version. The clocks of the machine
  (the time stamp counter, the wall clock, sleeping) are a parameter \<open>'c clock_ops\<close>. Seconds are
  real numbers, the rounding of \<open>double\<close> is left out.
\<close>

record 'c clock_ops =
  ck_tsc :: "'c \<Rightarrow> u64 \<times> 'c"
  ck_usec :: "'c \<Rightarrow> u64 \<times> 'c"
  ck_sleep :: "u64 \<Rightarrow> 'c \<Rightarrow> int \<times> 'c"
  ck_nanosleep :: "u64 \<Rightarrow> 'c \<Rightarrow> int \<times> 'c"

text \<open>The counter is read with or without serialisation; the instructions have the same result.\<close>

datatype tsc_reader = RDTSC | RDTSC_CR | RDTSCP

record TimerData =
  tm_start :: u64
  tm_stop :: u64

record timer_state =
  baseline :: u64
  cpuClock :: u64
  sleepbase :: u64
  timer_initialized :: bool
  TSTART :: "tsc_reader option"
  TSTOP :: "tsc_reader option"

definition timer_boot :: timer_state where
  "timer_boot = \<lparr>baseline = 0, cpuClock = 0, sleepbase = 0, timer_initialized = False,
     TSTART = None, TSTOP = None\<rparr>"

section \<open>Reading the counter\<close>

definition timer_start_raw :: "'c clock_ops \<Rightarrow> timer_state \<Rightarrow> TimerData \<Rightarrow> 'c \<Rightarrow> TimerData \<times> 'c" where
  "timer_start_raw C s time c =
     (if TSTART s \<noteq> None then (let (v, c') = ck_tsc C c in (time\<lparr>tm_start := v\<rparr>, c')) else (time, c))"

definition timer_stop_raw :: "'c clock_ops \<Rightarrow> timer_state \<Rightarrow> TimerData \<Rightarrow> 'c \<Rightarrow> TimerData \<times> 'c" where
  "timer_stop_raw C s time c =
     (if TSTOP s \<noteq> None then (let (v, c') = ck_tsc C c in (time\<lparr>tm_stop := v\<rparr>, c')) else (time, c))"

definition timer_printCycles_raw :: "timer_state \<Rightarrow> TimerData \<Rightarrow> u64" where
  "timer_printCycles_raw s time =
     (if tm_stop time - baseline s < tm_start time \<or> tm_start time = tm_stop time then 0
      else tm_stop time - tm_start time - baseline s)"

definition timer_print_raw :: "timer_state \<Rightarrow> TimerData \<Rightarrow> real" where
  "timer_print_raw s time =
     (let cycles = (if tm_stop time - baseline s < tm_start time \<or> tm_start time = tm_stop time then 0
                    else tm_stop time - tm_start time - baseline s)
      in real (unat cycles) / real (unat (cpuClock s)))"

section \<open>Calibration\<close>

text \<open>The smallest distance of two readings in ten tries.\<close>

fun calibrate_baseline :: "nat \<Rightarrow> 'c clock_ops \<Rightarrow> timer_state \<Rightarrow> TimerData \<Rightarrow> u64 \<Rightarrow> 'c \<Rightarrow> u64 \<times> TimerData \<times> 'c" where
  "calibrate_baseline 0 C s data result c = (result, data, c)"
| "calibrate_baseline (Suc i) C s data result c =
     (let (data1, c1) = timer_start_raw C s data c;
          (data2, c2) = timer_stop_raw C s data1 c1
      in calibrate_baseline i C s data2 (min result (timer_printCycles_raw s data2)) c2)"

text \<open>The cycles of the shorter of two sleeps, with the wall clock before and after the last one.\<close>

fun calibrate_clock ::
  "nat \<Rightarrow> 'c clock_ops \<Rightarrow> timer_state \<Rightarrow> TimerData \<Rightarrow> u64 \<Rightarrow> u64 \<Rightarrow> u64 \<Rightarrow> 'c \<Rightarrow> u64 \<times> u64 \<times> u64 \<times> 'c" where
  "calibrate_clock 0 C s data result tv1 tv2 c = (result, tv1, tv2, c)"
| "calibrate_clock (Suc i) C s data result tv1 tv2 c =
     (let (data1, c1) = timer_start_raw C s data c;
          (u1, c2) = ck_usec C c1;
          (_, c3) = ck_nanosleep C 500000000 c2;
          (data2, c4) = timer_stop_raw C s data1 c3;
          (u2, c5) = ck_usec C c4
      in calibrate_clock i C s data2 (min result (tm_stop data2 - tm_start data2)) u1 u2 c5)"

text \<open>The division traps when the wall clock did not advance.\<close>

definition getCpuSpeed :: "'c clock_ops \<Rightarrow> timer_state \<Rightarrow> 'c \<Rightarrow> (u64 \<times> timer_state \<times> 'c) option" where
  "getCpuSpeed C s c =
     (let (base, _, c1) = calibrate_baseline 10 C s \<lparr>tm_start = 0, tm_stop = 0\<rparr> 0xFFFFFFFFFFFFFFFF c;
          s1 = s\<lparr>baseline := base\<rparr>;
          (result, tv1, tv2, c2) = calibrate_clock 2 C s1 \<lparr>tm_start = 0, tm_stop = 0\<rparr> 0xFFFFFFFFFFFFFFFF 0 0 c1
      in if tv2 - tv1 = 0 then None
         else Some (result * 1000000 div (tv2 - tv1), s1, c2))"

text \<open>The CPUID bit for the serialising instruction is an argument.\<close>

definition timer_init :: "'c clock_ops \<Rightarrow> bool \<Rightarrow> timer_state \<Rightarrow> 'c \<Rightarrow> (timer_state \<times> 'c) option" where
  "timer_init C has_rdtscp s c =
     (if timer_initialized s then Some (s, c)
      else
        (let s1 = (if TSTART s = None \<and> TSTOP s = None
                   then s\<lparr>TSTART := Some RDTSC, TSTOP := Some (if has_rdtscp then RDTSCP else RDTSC_CR)\<rparr>
                   else s)
         in if cpuClock s1 = 0
            then (case getCpuSpeed C s1 c of
                    None \<Rightarrow> None
                  | Some (speed, s2, c') \<Rightarrow> Some (s2\<lparr>cpuClock := speed, timer_initialized := True\<rparr>, c'))
            else Some (s1\<lparr>timer_initialized := True\<rparr>, c)))"

section \<open>Exported functions\<close>

definition timer_printCycles :: "timer_state \<Rightarrow> TimerData \<Rightarrow> u64" where
  "timer_printCycles s time = (if timer_initialized s then timer_printCycles_raw s time else 0)"

definition timer_print :: "timer_state \<Rightarrow> TimerData \<Rightarrow> real" where
  "timer_print s time = (if timer_initialized s then timer_print_raw s time else 0)"

definition timer_getCpuClock :: "timer_state \<Rightarrow> u64" where
  "timer_getCpuClock s = (if timer_initialized s then cpuClock s else 0)"

definition timer_getBaseline :: "timer_state \<Rightarrow> u64" where
  "timer_getBaseline s = (if timer_initialized s then baseline s else 0)"

definition timer_start :: "'c clock_ops \<Rightarrow> timer_state \<Rightarrow> TimerData \<Rightarrow> 'c \<Rightarrow> TimerData \<times> 'c" where
  "timer_start C s time c = (if timer_initialized s then timer_start_raw C s time c else (time, c))"

definition timer_stop :: "'c clock_ops \<Rightarrow> timer_state \<Rightarrow> TimerData \<Rightarrow> 'c \<Rightarrow> TimerData \<times> 'c" where
  "timer_stop C s time c = (if timer_initialized s then timer_stop_raw C s time c else (time, c))"

definition timer_finalize :: "timer_state \<Rightarrow> timer_state" where
  "timer_finalize s =
     (if timer_initialized s
      then s\<lparr>baseline := 0, cpuClock := 0, TSTART := None, TSTOP := None, timer_initialized := False\<rparr>
      else s)"

definition timer_reset :: "TimerData \<Rightarrow> TimerData" where
  "timer_reset time = time\<lparr>tm_start := 0, tm_stop := 0\<rparr>"

section \<open>Clamping\<close>

lemma uint_minus_le: "b \<le> a \<Longrightarrow> unat (a - b) = unat a - unat (b :: 'a::len word)"
  by (simp add: unat_sub)

text \<open>
  When the counter did not run backwards and has passed the baseline, the reported
  number of cycles is the distance of the two readings less the baseline, and 0 when that is
  negative.
\<close>

theorem timer_printCycles_clamped:
  assumes "timer_initialized s" "tm_start time \<le> tm_stop time" "baseline s \<le> tm_stop time"
  shows "unat (timer_printCycles s time) =
    unat (tm_stop time) - unat (tm_start time) - unat (baseline s)"
proof -
  have d: "unat (tm_stop time - baseline s) = unat (tm_stop time) - unat (baseline s)"
      "unat (tm_stop time - tm_start time) = unat (tm_stop time) - unat (tm_start time)"
    using assms(2,3) by (simp_all add: uint_minus_le)
  show ?thesis
  proof (cases "tm_stop time - baseline s < tm_start time \<or> tm_start time = tm_stop time")
    case True
    then have "unat (tm_stop time) - unat (baseline s) \<le> unat (tm_start time)"
      using d(1) by (auto simp: word_less_nat_alt)
    then show ?thesis using True assms(1) by (simp add: timer_printCycles_def timer_printCycles_raw_def)
  next
    case False
    then have "unat (baseline s) \<le> unat (tm_stop time - tm_start time)"
      using d assms(3) by (auto simp: word_less_nat_alt word_le_nat_alt)
    then have "baseline s \<le> tm_stop time - tm_start time" by (simp add: word_le_nat_alt)
    then show ?thesis
      using False assms(1) d(2) by (simp add: timer_printCycles_def timer_printCycles_raw_def uint_minus_le)
  qed
qed

theorem timer_printCycles_clamped_witness:
  "unat (timer_printCycles (timer_boot\<lparr>timer_initialized := True, baseline := 20\<rparr>)
     \<lparr>tm_start = 1000, tm_stop = 1500\<rparr>) = 480"
  using timer_printCycles_clamped [of "timer_boot\<lparr>timer_initialized := True, baseline := 20\<rparr>"
      "\<lparr>tm_start = 1000, tm_stop = 1500\<rparr>"]
  by simp

text \<open>Both exported results come from the same cycles.\<close>

lemma timer_print_cycles:
  "timer_print s time = real (unat (timer_printCycles s time)) / real (unat (cpuClock s))"
  by (simp add: timer_print_def timer_printCycles_def timer_print_raw_def timer_printCycles_raw_def)

end
