(* ===== verification/Perfmon_Types.thy ===== *)
theory Perfmon_Types
  imports Timer "HOL-Library.Char_ord"
begin

text \<open>
  The data of the performance monitoring module: \<open>src/src/includes/perfmon_types.h\<close> and
  \<open>registers_types.h\<close>. The two enumerations are ordered by their numbers.
\<close>

section \<open>Options of an event\<close>

datatype (plugins only: size code) EventOptionType =
  EVENT_OPTION_NONE | EVENT_OPTION_OPCODE | EVENT_OPTION_MATCH0 | EVENT_OPTION_MATCH1
  | EVENT_OPTION_MATCH2 | EVENT_OPTION_MATCH3 | EVENT_OPTION_MASK0 | EVENT_OPTION_MASK1
  | EVENT_OPTION_MASK2 | EVENT_OPTION_MASK3 | EVENT_OPTION_NID | EVENT_OPTION_TID
  | EVENT_OPTION_STATE | EVENT_OPTION_EDGE | EVENT_OPTION_THRESHOLD | EVENT_OPTION_INVERT
  | EVENT_OPTION_COUNT_KERNEL | EVENT_OPTION_ANYTHREAD | EVENT_OPTION_OCCUPANCY
  | EVENT_OPTION_OCCUPANCY_FILTER | EVENT_OPTION_OCCUPANCY_EDGE | EVENT_OPTION_OCCUPANCY_INVERT
  | EVENT_OPTION_IN_TRANS | EVENT_OPTION_IN_TRANS_ABORT | NUM_EVENT_OPTIONS

fun option_number :: "EventOptionType \<Rightarrow> nat" where
  "option_number EVENT_OPTION_NONE = 0"
| "option_number EVENT_OPTION_OPCODE = 1"
| "option_number EVENT_OPTION_MATCH0 = 2"
| "option_number EVENT_OPTION_MATCH1 = 3"
| "option_number EVENT_OPTION_MATCH2 = 4"
| "option_number EVENT_OPTION_MATCH3 = 5"
| "option_number EVENT_OPTION_MASK0 = 6"
| "option_number EVENT_OPTION_MASK1 = 7"
| "option_number EVENT_OPTION_MASK2 = 8"
| "option_number EVENT_OPTION_MASK3 = 9"
| "option_number EVENT_OPTION_NID = 10"
| "option_number EVENT_OPTION_TID = 11"
| "option_number EVENT_OPTION_STATE = 12"
| "option_number EVENT_OPTION_EDGE = 13"
| "option_number EVENT_OPTION_THRESHOLD = 14"
| "option_number EVENT_OPTION_INVERT = 15"
| "option_number EVENT_OPTION_COUNT_KERNEL = 16"
| "option_number EVENT_OPTION_ANYTHREAD = 17"
| "option_number EVENT_OPTION_OCCUPANCY = 18"
| "option_number EVENT_OPTION_OCCUPANCY_FILTER = 19"
| "option_number EVENT_OPTION_OCCUPANCY_EDGE = 20"
| "option_number EVENT_OPTION_OCCUPANCY_INVERT = 21"
| "option_number EVENT_OPTION_IN_TRANS = 22"
| "option_number EVENT_OPTION_IN_TRANS_ABORT = 23"
| "option_number NUM_EVENT_OPTIONS = 24"

lemma option_number_inject [simp]: "option_number a = option_number b \<longleftrightarrow> a = b"
  by (cases a; cases b; simp)

lemma option_number_le: "option_number a \<le> 24"
  by (cases a) simp_all

instantiation EventOptionType :: linorder
begin

definition less_eq_EventOptionType :: "EventOptionType \<Rightarrow> EventOptionType \<Rightarrow> bool" where
  "less_eq_EventOptionType a b \<longleftrightarrow> option_number a \<le> option_number b"

definition less_EventOptionType :: "EventOptionType \<Rightarrow> EventOptionType \<Rightarrow> bool" where
  "less_EventOptionType a b \<longleftrightarrow> option_number a < option_number b"

instance
  by standard (auto simp: less_eq_EventOptionType_def less_EventOptionType_def)

end

section \<open>Types of counter registers\<close>

datatype (plugins only:) RegisterType =
  PMC | FIXED | THERMAL | POWER | UNCORE | MBOX0 | MBOX1 | MBOX2 | MBOX3 | MBOX4 | MBOX5 | MBOX6
  | MBOX7 | MBOX0FIX | MBOX1FIX | MBOX2FIX | MBOX3FIX | MBOX4FIX | MBOX5FIX | MBOX6FIX
  | MBOX7FIX | BBOX0 | BBOX1 | RBOX0 | RBOX1 | RBOX2 | WBOX | WBOX0FIX | WBOX1FIX | SBOX0
  | SBOX1 | SBOX2 | SBOX3 | SBOX0FIX | SBOX1FIX | SBOX2FIX | SBOX3FIX | CBOX0 | CBOX1 | CBOX2
  | CBOX3 | CBOX4 | CBOX5 | CBOX6 | CBOX7 | CBOX8 | CBOX9 | CBOX10 | CBOX11 | CBOX12 | CBOX13
  | CBOX14 | CBOX15 | CBOX16 | CBOX17 | PBOX | UBOX | UBOXFIX | IBOX0 | IBOX1 | QBOX0 | QBOX1
  | QBOX0FIX | QBOX1FIX | NUM_UNITS | NOTYPE | MAX_UNITS

definition RegisterTypes :: "RegisterType list" where
  "RegisterTypes = [
     PMC, FIXED, THERMAL, POWER, UNCORE, MBOX0, MBOX1, MBOX2, MBOX3, MBOX4, MBOX5, MBOX6, MBOX7
     , MBOX0FIX, MBOX1FIX, MBOX2FIX, MBOX3FIX, MBOX4FIX, MBOX5FIX, MBOX6FIX, MBOX7FIX, BBOX0
     , BBOX1, RBOX0, RBOX1, RBOX2, WBOX, WBOX0FIX, WBOX1FIX, SBOX0, SBOX1, SBOX2, SBOX3
     , SBOX0FIX, SBOX1FIX, SBOX2FIX, SBOX3FIX, CBOX0, CBOX1, CBOX2, CBOX3, CBOX4, CBOX5, CBOX6
     , CBOX7, CBOX8, CBOX9, CBOX10, CBOX11, CBOX12, CBOX13, CBOX14, CBOX15, CBOX16, CBOX17, PBOX
     , UBOX, UBOXFIX, IBOX0, IBOX1, QBOX0, QBOX1, QBOX0FIX, QBOX1FIX, NUM_UNITS, NOTYPE
     , MAX_UNITS]"

definition register_number :: "RegisterType \<Rightarrow> nat" where
  "register_number t = length (takeWhile (\<lambda>x. x \<noteq> t) RegisterTypes)"

definition REG_TYPE_MASK :: "RegisterType \<Rightarrow> u64" where
  "REG_TYPE_MASK t = (if register_number t < register_number NUM_UNITS then push_bit (register_number t) 1 else 0)"

text \<open>\<open>OPTIONS_TYPE_MASK\<close>: the bit of an option in a mask of options.\<close>

definition OPTIONS_TYPE_MASK :: "EventOptionType \<Rightarrow> u64" where
  "OPTIONS_TYPE_MASK t =
     (if t = EVENT_OPTION_NONE \<or> t \<ge> NUM_EVENT_OPTIONS then 0 else push_bit (option_number t) 1)"

definition MAX_EVENT_OPTIONS :: nat where
  "MAX_EVENT_OPTIONS = option_number NUM_EVENT_OPTIONS"

section \<open>Counter and box tables\<close>

record RegisterMap =
  rm_key :: string
  rm_index :: nat
  rm_type :: RegisterType
  rm_configRegister :: u64
  rm_counterRegister :: u64
  rm_counterRegister2 :: u64
  rm_device :: u32
  rm_optionMask :: u64

record BoxMap =
  bm_ctrlRegister :: u32
  bm_statusRegister :: u32
  bm_ovflRegister :: u32
  bm_ovflOffset :: int
  bm_isPci :: bool
  bm_device :: u32
  bm_regWidth :: u32
  bm_filterRegister1 :: u32
  bm_filterRegister2 :: u32

section \<open>Events, groups and threads\<close>

record PerfmonEventOption =
  po_type :: EventOptionType
  po_value :: u64

record PerfmonEvent =
  ev_name :: string
  ev_limit :: string
  ev_eventId :: u16
  ev_umask :: u8
  ev_cfgBits :: u8
  ev_cmask :: u64
  ev_numberOfOptions :: nat
  ev_optionMask :: u64
  ev_options :: "PerfmonEventOption list"

record PerfmonCounter =
  pc_init :: bool
  pc_id :: int
  pc_overflows :: int
  pc_startData :: u64
  pc_counterData :: u64
  pc_fullData :: real

text \<open>The counters of an entry are \<^term>\<open>None\<close> while its pointer has not been set.\<close>

record PerfmonEventSetEntry =
  es_event :: PerfmonEvent
  es_index :: nat
  es_type :: RegisterType
  es_threadCounter :: "PerfmonCounter list option"

datatype GroupState = STATE_NONE | STATE_SETUP | STATE_START

text \<open>\<open>gs_events\<close> is the allocated array; its first \<open>gs_numberOfEvents\<close> entries are used.\<close>

record PerfmonEventSet =
  gs_numberOfEvents :: nat
  gs_events :: "PerfmonEventSetEntry list"
  gs_timer :: TimerData
  gs_rdtscTime :: real
  gs_runTime :: real
  gs_regTypeMask :: "128 word"
  gs_state :: GroupState

record PerfmonThread =
  th_thread_id :: nat
  th_processorId :: int

text \<open>
  \<open>groups\<close> is the allocated array of groups (\<open>numberOfGroups\<close> is its length), \<open>threads\<close> the array of
  threads (\<open>numberOfThreads\<close> is its length).
\<close>

record PerfmonGroupSet =
  numberOfActiveGroups :: nat
  activeGroup :: int
  groups :: "PerfmonEventSet list"
  threads :: "PerfmonThread list"

section \<open>Masks\<close>

lemma RegisterTypes_distinct: "distinct RegisterTypes"
  by (simp add: RegisterTypes_def)

lemma RegisterTypes_all: "t \<in> set RegisterTypes"
  by (cases t) (simp_all add: RegisterTypes_def)

lemma takeWhile_shorter: "\<exists>x\<in>set xs. \<not> P x \<Longrightarrow> length (takeWhile P xs) < length xs"
  by (induction xs) auto

lemma register_number_nth: "register_number t < length RegisterTypes \<and> RegisterTypes ! register_number t = t"
proof -
  have ex: "\<exists>x\<in>set RegisterTypes. \<not> x \<noteq> t" using RegisterTypes_all by blast
  then have lt: "register_number t < length RegisterTypes"
    unfolding register_number_def by (rule takeWhile_shorter)
  then have "\<not> (RegisterTypes ! register_number t \<noteq> t)"
    unfolding register_number_def by (rule nth_length_takeWhile)
  then show ?thesis using lt by simp
qed

lemma register_number_inject: "register_number a = register_number b \<longleftrightarrow> a = b"
  using register_number_nth by metis

lemma NUM_EVENT_OPTIONS_le: "NUM_EVENT_OPTIONS \<le> t \<longleftrightarrow> t = NUM_EVENT_OPTIONS"
  by (cases t) (simp_all add: less_eq_EventOptionType_def)

lemma OPTIONS_TYPE_MASK_bit:
  "bit (OPTIONS_TYPE_MASK t) n \<longleftrightarrow> n = option_number t \<and> t \<noteq> EVENT_OPTION_NONE \<and> t \<noteq> NUM_EVENT_OPTIONS"
  using option_number_le [of t] by (auto simp: OPTIONS_TYPE_MASK_def NUM_EVENT_OPTIONS_le bit_simps)

end
