(* ===== verification/Perfmon_Options.thy ===== *)
theory Perfmon_Options
  imports Perfmon_Types BString
begin

text \<open>
  Events and their options: the functions of \<open>src/src/perfmon.c\<close> that look up an event for a counter and
  parse the options of an event descriptor.
\<close>

section \<open>Looking up events\<close>

text \<open>A counter is allowed when one of the names in the limit is a prefix of its name.\<close>

definition checkCounter :: "string \<Rightarrow> string \<Rightarrow> bool" where
  "checkCounter counterName limit =
     list_ex (\<lambda>tok. has_prefix tok counterName) (bsplit CHR ''|'' limit)"

definition getEvent :: "PerfmonEvent list \<Rightarrow> string \<Rightarrow> string \<Rightarrow> PerfmonEvent option" where
  "getEvent eventHash event_str counter_str =
     find (\<lambda>ev. ev_name ev = event_str \<and> checkCounter counter_str (ev_limit ev)) eventHash"

section \<open>Setting options\<close>

text \<open>
  An option that is set already is overwritten, another one is added at position \<open>index\<close>; the new number
  of options is returned.
\<close>

definition assignOption ::
  "PerfmonEvent \<Rightarrow> string \<Rightarrow> nat \<Rightarrow> EventOptionType \<Rightarrow> bool \<Rightarrow> (nat \<times> PerfmonEvent) option" where
  "assignOption event entry index type zero_value =
     (let found_double = find (\<lambda>k. po_type (ev_options event ! k) = type) [0..<index];
          pos = (case found_double of Some k \<Rightarrow> k | None \<Rightarrow> index);
          return_index = (case found_double of Some k \<Rightarrow> index | None \<Rightarrow> index + 1)
      in if index \<le> length (ev_options event)
         then map_option (\<lambda>opts. (return_index, event\<lparr>ev_options := opts\<rparr>))
                (arr_set (ev_options event) (int pos)
                   \<lparr>po_type = type, po_value = (if zero_value then 0 else scan_hex entry)\<rparr>)
         else None)"

definition flag_options :: "(string \<times> EventOptionType) list" where
  "flag_options =
     [(''edgedetect'', EVENT_OPTION_EDGE), (''invert'', EVENT_OPTION_INVERT),
      (''kernel'', EVENT_OPTION_COUNT_KERNEL), (''anythread'', EVENT_OPTION_ANYTHREAD),
      (''occ_edgedetect'', EVENT_OPTION_OCCUPANCY_EDGE), (''occ_invert'', EVENT_OPTION_OCCUPANCY_INVERT),
      (''in_trans'', EVENT_OPTION_IN_TRANS), (''in_trans_aborted'', EVENT_OPTION_IN_TRANS_ABORT)]"

definition value_options :: "(string \<times> EventOptionType) list" where
  "value_options =
     [(''opcode'', EVENT_OPTION_OPCODE), (''match0'', EVENT_OPTION_MATCH0), (''match1'', EVENT_OPTION_MATCH1),
      (''match2'', EVENT_OPTION_MATCH2), (''match3'', EVENT_OPTION_MATCH3), (''mask0'', EVENT_OPTION_MASK0),
      (''mask1'', EVENT_OPTION_MASK1), (''mask2'', EVENT_OPTION_MASK2), (''mask3'', EVENT_OPTION_MASK3),
      (''nid'', EVENT_OPTION_NID), (''tid'', EVENT_OPTION_TID), (''state'', EVENT_OPTION_STATE),
      (''threshold'', EVENT_OPTION_THRESHOLD), (''occupancy'', EVENT_OPTION_OCCUPANCY),
      (''occ_filter'', EVENT_OPTION_OCCUPANCY_FILTER)]"

text \<open>
  One token \<open>name\<close> or \<open>name=value\<close>. An option without value also clears the value of the first unused slot.
\<close>

definition parse_token :: "string \<Rightarrow> PerfmonEvent \<Rightarrow> PerfmonEvent option" where
  "parse_token tok event =
     (let subtokens = bsplit CHR ''='' tok; name = map tolower (hd subtokens) in
      if length subtokens = 1 then
        (case map_of flag_options name of
           None \<Rightarrow> Some event
         | Some type \<Rightarrow> do {
             (n, ev) \<leftarrow> assignOption event [] (ev_numberOfOptions event) type True;
             opt \<leftarrow> arr_get (ev_options ev) (int n);
             opts \<leftarrow> arr_set (ev_options ev) (int n) (opt\<lparr>po_value := 0\<rparr>);
             Some (ev\<lparr>ev_numberOfOptions := n, ev_options := opts\<rparr>) })
      else if length subtokens = 2 then
        (case map_of value_options name of
           None \<Rightarrow> Some event
         | Some type \<Rightarrow> do {
             (n, ev) \<leftarrow> assignOption event (subtokens ! 1) (ev_numberOfOptions event) type False;
             Some (ev\<lparr>ev_numberOfOptions := n\<rparr>) })
      else Some event)"

fun parse_tokens :: "string list \<Rightarrow> PerfmonEvent \<Rightarrow> PerfmonEvent option" where
  "parse_tokens [] event = Some event"
| "parse_tokens (t # ts) event = Option.bind (parse_token t event) (parse_tokens ts)"

text \<open>Options that are valid neither for the register nor for the event are removed, from the last to the first.\<close>

definition option_valid :: "u64 \<Rightarrow> PerfmonEventOption \<Rightarrow> bool" where
  "option_valid valid opt \<longleftrightarrow> OPTIONS_TYPE_MASK (po_type opt) AND valid \<noteq> 0"

primrec remove_invalid :: "nat \<Rightarrow> u64 \<Rightarrow> PerfmonEvent \<Rightarrow> PerfmonEvent" where
  "remove_invalid 0 valid event = event"
| "remove_invalid (Suc i) valid event =
     remove_invalid i valid
       (if option_valid valid (ev_options event ! i) then event
        else event\<lparr>ev_options := (ev_options event)[i := (ev_options event ! i)\<lparr>po_type := EVENT_OPTION_NONE\<rparr>],
                   ev_numberOfOptions := ev_numberOfOptions event - 1\<rparr>)"

text \<open>
  Default thresholds. The inner loops of the source compare the type of option \<open>i\<close> in every round, not
  of option \<open>j\<close>; the type of option \<open>i\<close> is known in both branches.
\<close>

definition add_threshold :: "PerfmonEvent \<Rightarrow> PerfmonEvent" where
  "add_threshold event =
     event\<lparr>ev_options := (ev_options event)[ev_numberOfOptions event :=
                           \<lparr>po_type = EVENT_OPTION_THRESHOLD, po_value = 1\<rparr>],
           ev_numberOfOptions := ev_numberOfOptions event + 1\<rparr>"

fun scan_same_type :: "nat \<Rightarrow> EventOptionType \<Rightarrow> bool \<times> bool \<times> bool" where
  "scan_same_type 0 t = (False, False, False)"
| "scan_same_type (Suc j) t =
     (if t = EVENT_OPTION_THRESHOLD then (True, False, False)
      else if t = EVENT_OPTION_EDGE then (False, True, False)
      else if t = EVENT_OPTION_INVERT then (False, False, True)
      else scan_same_type j t)"

fun scan_threshold :: "nat \<Rightarrow> EventOptionType \<Rightarrow> bool" where
  "scan_threshold 0 t = False"
| "scan_threshold (Suc j) t = (t = EVENT_OPTION_THRESHOLD \<or> scan_threshold j t)"

function default_thresholds :: "nat \<Rightarrow> PerfmonEvent \<Rightarrow> PerfmonEvent option" where
  "default_thresholds i event =
     (if i < ev_numberOfOptions event then
        if i < MAX_EVENT_OPTIONS \<and> i < length (ev_options event) then
          (let t = po_type (ev_options event ! i); n = ev_numberOfOptions event in
           if t = EVENT_OPTION_EDGE then
             default_thresholds (Suc i)
               (if \<not> scan_threshold n t \<and> n < MAX_EVENT_OPTIONS then add_threshold event else event)
           else if t = EVENT_OPTION_OCCUPANCY then
             (let (threshold_set, edge_set, invert_set) = scan_same_type n t in
              default_thresholds (Suc i)
                (if \<not> threshold_set \<and> n < MAX_EVENT_OPTIONS \<and> (edge_set \<or> invert_set)
                 then add_threshold event else event))
           else default_thresholds (Suc i) event)
        else None
      else Some event)"
  by pat_completeness auto
termination
  by (relation "measure (\<lambda>(i, event). MAX_EVENT_OPTIONS - i)") auto

declare default_thresholds.simps [simp del]

text \<open>The whole parser: an error code, or the number of options. \<open>regMask\<close> are the options of the register.\<close>

definition parseOptions :: "string list \<Rightarrow> PerfmonEvent \<Rightarrow> u64 \<Rightarrow> (int \<times> PerfmonEvent) option" where
  "parseOptions tokens event regMask =
     (let ev0 = event\<lparr>ev_options := map (\<lambda>i. if ev_numberOfOptions event \<le> i
                                              then (ev_options event ! i)\<lparr>po_type := EVENT_OPTION_NONE\<rparr>
                                              else ev_options event ! i) [0..<length (ev_options event)]\<rparr> in
      if length tokens - 2 > MAX_EVENT_OPTIONS then Some (- ERANGE, ev0)
      else do {
        ev1 \<leftarrow> parse_tokens (drop 2 tokens) ev0;
        let ev2 = remove_invalid (ev_numberOfOptions ev1) (regMask OR ev_optionMask ev1) ev1;
        ev3 \<leftarrow> default_thresholds 0 ev2;
        Some (int (ev_numberOfOptions ev3), ev3) })"

section \<open>Well-formed options\<close>

text \<open>
  The option array has its full size and the used slots have different types, none of them the
  two pseudo types; hence at least one slot is unused.
\<close>

definition options_wf :: "PerfmonEvent \<Rightarrow> bool" where
  "options_wf event \<longleftrightarrow> length (ev_options event) = MAX_EVENT_OPTIONS \<and>
     ev_numberOfOptions event \<le> MAX_EVENT_OPTIONS \<and>
     (let used = map po_type (take (ev_numberOfOptions event) (ev_options event)) in
      distinct used \<and> EVENT_OPTION_NONE \<notin> set used \<and> NUM_EVENT_OPTIONS \<notin> set used)"

lemma real_option_number:
  "\<lbrakk>t \<noteq> EVENT_OPTION_NONE; t \<noteq> NUM_EVENT_OPTIONS\<rbrakk> \<Longrightarrow> option_number t \<in> {1..23}"
  by (cases t) simp_all

lemma options_wf_room:
  assumes "options_wf event"
  shows "ev_numberOfOptions event < MAX_EVENT_OPTIONS"
proof -
  let ?used = "map po_type (take (ev_numberOfOptions event) (ev_options event))"
  have d: "distinct ?used" "EVENT_OPTION_NONE \<notin> set ?used" "NUM_EVENT_OPTIONS \<notin> set ?used"
      "ev_numberOfOptions event = length ?used"
    using assms by (simp_all add: options_wf_def Let_def)
  have "option_number t \<in> {1..23}" if "t \<in> set ?used" for t
    using d(2,3) that by (intro real_option_number) metis+
  then have "option_number ` set ?used \<subseteq> {1..23}" by (rule image_subsetI)
  then have "card (option_number ` set ?used) \<le> 23"
    using card_mono [of "{1..23::nat}" "option_number ` set ?used"] by simp
  moreover have "inj_on option_number (set ?used)" by (simp add: inj_on_def)
  ultimately have "card (set ?used) \<le> 23" by (simp only: card_image)
  then have "length ?used \<le> 23" using distinct_card [OF d(1)] by simp
  then show ?thesis using d(4) by (simp add: MAX_EVENT_OPTIONS_def)
qed

lemma find_type_index:
  "find (\<lambda>k. f k = t) [0..<n] = Some k \<Longrightarrow> k < n \<and> f k = t"
  "find (\<lambda>k. f k = t) [0..<n] = None \<Longrightarrow> \<forall>k<n. f k \<noteq> t"
  by (auto simp: find_Some_iff find_None_iff)

lemma take_update_same: "map f (take n (xs[k := v])) = map f (take n xs)" if "f v = f (xs ! k)"
proof -
  have "map f (xs[k := v]) = map f xs"
    using that by (cases "k < length xs") (auto intro!: nth_equalityI simp: nth_list_update)
  then show ?thesis by (simp add: take_map [symmetric])
qed

text \<open>Assigning a real option type keeps the options well formed and succeeds.\<close>

lemma assignOption_wf:
  assumes wf: "options_wf event" and t: "t \<noteq> EVENT_OPTION_NONE" "t \<noteq> NUM_EVENT_OPTIONS"
  shows "\<exists>n ev. assignOption event e (ev_numberOfOptions event) t z = Some (n, ev) \<and>
    options_wf (ev\<lparr>ev_numberOfOptions := n\<rparr>) \<and> ev_optionMask ev = ev_optionMask event"
proof -
  let ?n = "ev_numberOfOptions event" and ?o = "ev_options event"
  let ?v = "\<lparr>po_type = t, po_value = (if z then 0 else scan_hex e)\<rparr>"
  have room: "?n < length ?o" and len: "length ?o = MAX_EVENT_OPTIONS"
    using options_wf_room [OF wf] wf by (auto simp: options_wf_def)
  show ?thesis
  proof (cases "find (\<lambda>k. po_type (?o ! k) = t) [0..<?n]")
    case None
    then have new: "t \<notin> set (map po_type (take ?n ?o))"
      using find_type_index(2) [OF None] by (fastforce simp: in_set_conv_nth)
    have "take (?n + 1) (?o[?n := ?v]) = take ?n ?o @ [?v]"
      using room by (simp add: take_Suc_conv_app_nth)
    then have "options_wf (event\<lparr>ev_options := ?o[?n := ?v], ev_numberOfOptions := ?n + 1\<rparr>)"
      using wf new t room len by (auto simp: options_wf_def Let_def)
    then show ?thesis
      using None room by (simp add: assignOption_def Let_def arr_set_def)
  next
    case (Some k)
    then have k: "k < ?n" "po_type (?o ! k) = t" using find_type_index(1) [OF Some] by auto
    have "map po_type (take ?n (?o[k := ?v])) = map po_type (take ?n ?o)"
      using k(2) by (intro take_update_same) simp
    then have "options_wf (event\<lparr>ev_options := ?o[k := ?v]\<rparr>)"
      using wf by (simp add: options_wf_def Let_def)
    then show ?thesis
      using Some room k(1) by (simp add: assignOption_def Let_def arr_set_def)
  qed
qed

lemma flag_options_real: "map_of flag_options name = Some t \<Longrightarrow> t \<noteq> EVENT_OPTION_NONE \<and> t \<noteq> NUM_EVENT_OPTIONS"
  by (drule map_of_SomeD) (auto simp: flag_options_def)

lemma value_options_real: "map_of value_options name = Some t \<Longrightarrow> t \<noteq> EVENT_OPTION_NONE \<and> t \<noteq> NUM_EVENT_OPTIONS"
  by (drule map_of_SomeD) (auto simp: value_options_def)

lemma wf_value_update:
  assumes "options_wf ev" "opt = ev_options ev ! n"
  shows "options_wf (ev\<lparr>ev_options := (ev_options ev)[n := opt\<lparr>po_value := v\<rparr>]\<rparr>)"
  using assms take_update_same [of po_type "opt\<lparr>po_value := v\<rparr>" "ev_options ev" n]
  by (simp add: options_wf_def Let_def)

lemma parse_token_wf:
  assumes wf: "options_wf event"
  shows "\<exists>ev. parse_token tok event = Some ev \<and> options_wf ev \<and> ev_optionMask ev = ev_optionMask event"
proof -
  let ?subs = "bsplit CHR ''='' tok"
  let ?name = "map tolower (hd ?subs)"
  consider (flag) t where "length ?subs = 1" "map_of flag_options ?name = Some t"
    | (setting) t where "length ?subs = 2" "map_of value_options ?name = Some t"
    | (none) "parse_token tok event = Some event"
    by (cases "length ?subs = 1"; cases "length ?subs = 2"; cases "map_of flag_options ?name";
        cases "map_of value_options ?name") (auto simp: parse_token_def Let_def)
  then show ?thesis
  proof cases
    case flag
    obtain n ev where ev: "assignOption event [] (ev_numberOfOptions event) t True = Some (n, ev)"
        "options_wf (ev\<lparr>ev_numberOfOptions := n\<rparr>)" "ev_optionMask ev = ev_optionMask event"
      using assignOption_wf [OF wf] flag_options_real [OF flag(2)] by blast
    have n: "n < length (ev_options ev)"
      using options_wf_room [OF ev(2)] ev(2) by (simp add: options_wf_def)
    have "options_wf (ev\<lparr>ev_numberOfOptions := n, ev_options := (ev_options ev)[n := (ev_options ev ! n)\<lparr>po_value := 0\<rparr>]\<rparr>)"
      using wf_value_update [OF ev(2), of "ev_options ev ! n" n 0] by simp
    then show ?thesis
      using flag ev n by (simp add: parse_token_def Let_def arr_get_def arr_set_def)
  next
    case setting
    obtain n ev where "assignOption event (?subs ! 1) (ev_numberOfOptions event) t False = Some (n, ev)"
        "options_wf (ev\<lparr>ev_numberOfOptions := n\<rparr>)" "ev_optionMask ev = ev_optionMask event"
      using assignOption_wf [OF wf] value_options_real [OF setting(2)] by blast
    then show ?thesis using setting by (simp add: parse_token_def Let_def)
  qed (use wf in blast)
qed

lemma parse_tokens_wf:
  "options_wf event \<Longrightarrow>
     \<exists>ev. parse_tokens toks event = Some ev \<and> options_wf ev \<and> ev_optionMask ev = ev_optionMask event"
proof (induction toks arbitrary: event)
  case (Cons t ts)
  obtain ev where ev: "parse_token t event = Some ev" "options_wf ev" "ev_optionMask ev = ev_optionMask event"
    using parse_token_wf [OF Cons.prems] by blast
  show ?case using Cons.IH [OF ev(2)] ev by auto
qed simp

section \<open>Removing options\<close>

definition blank :: "u64 \<Rightarrow> PerfmonEventOption \<Rightarrow> PerfmonEventOption" where
  "blank valid opt = (if option_valid valid opt then opt else opt\<lparr>po_type := EVENT_OPTION_NONE\<rparr>)"

lemma remove_invalid_eq:
  assumes "i \<le> length (ev_options event)"
  shows "remove_invalid i valid event = event\<lparr>
    ev_options := map (blank valid) (take i (ev_options event)) @ drop i (ev_options event),
    ev_numberOfOptions := ev_numberOfOptions event - length (filter (\<lambda>opt. \<not> option_valid valid opt) (take i (ev_options event)))\<rparr>"
  using assms
proof (induction i arbitrary: event)
  case (Suc i)
  let ?o = "ev_options event"
  have o: "take (Suc i) ?o = take i ?o @ [?o ! i]" "drop i ?o = ?o ! i # drop (Suc i) ?o"
    using Suc.prems by (simp_all add: take_Suc_conv_app_nth Cons_nth_drop_Suc)
  show ?case
    using Suc.prems o
    by (simp add: Suc.IH blank_def drop_update_swap)
qed simp

lemma remove_invalid_used_eq:
  assumes "options_wf event"
  defines "n \<equiv> ev_numberOfOptions event"
  shows "ev_numberOfOptions (remove_invalid n valid event) = length (filter (option_valid valid) (take n (ev_options event)))"
    "take (length (filter (option_valid valid) (take n (ev_options event)))) (ev_options (remove_invalid n valid event)) =
     map (blank valid) (take (length (filter (option_valid valid) (take n (ev_options event)))) (ev_options event))"
proof -
  define k where "k = length (filter (option_valid valid) (take n (ev_options event)))"
  have n: "n \<le> length (ev_options event)" using assms(1) by (auto simp: options_wf_def n_def)
  have "k + length (filter (\<lambda>opt. \<not> option_valid valid opt) (take n (ev_options event))) = n"
    using sum_length_filter_compl [of "option_valid valid" "take n (ev_options event)"] n by (simp add: k_def)
  moreover from this have "k \<le> n" by simp
  ultimately show "ev_numberOfOptions (remove_invalid n valid event) = length (filter (option_valid valid) (take n (ev_options event)))"
    "take (length (filter (option_valid valid) (take n (ev_options event)))) (ev_options (remove_invalid n valid event)) =
     map (blank valid) (take (length (filter (option_valid valid) (take n (ev_options event)))) (ev_options event))"
    unfolding k_def [symmetric]
    using n remove_invalid_eq [OF n, of valid] by (auto simp: n_def [symmetric] take_map min_absorb1)
qed

text \<open>
  Removing the options that the register and the event do not support keeps the number of
  supported options as the new count, but not the options themselves: the first slots stay where they
  are, the unsupported ones among them blanked, and as many options are cut off at the end as
  unsupported ones were found.
\<close>

theorem remove_invalid_used:
  assumes "options_wf event"
  shows "let n = ev_numberOfOptions event;
      k = length (filter (option_valid valid) (take n (ev_options event)))
    in ev_numberOfOptions (remove_invalid n valid event) = k \<and>
       take k (ev_options (remove_invalid n valid event)) = map (blank valid) (take k (ev_options event))"
  using remove_invalid_used_eq [OF assms] by (simp add: Let_def)

definition demo_event :: PerfmonEvent where
  "demo_event = \<lparr>ev_name = ''INSTR_RETIRED'', ev_limit = ''PMC'', ev_eventId = 0xC0, ev_umask = 0, ev_cfgBits = 0,
     ev_cmask = 0, ev_numberOfOptions = 2, ev_optionMask = 0,
     ev_options = [\<lparr>po_type = EVENT_OPTION_NID, po_value = 3\<rparr>, \<lparr>po_type = EVENT_OPTION_THRESHOLD, po_value = 5\<rparr>] @
       replicate 22 \<lparr>po_type = EVENT_OPTION_NONE, po_value = 0\<rparr>\<rparr>"

lemma demo_event_wf: "options_wf demo_event"
  by (simp add: options_wf_def demo_event_def MAX_EVENT_OPTIONS_def)

theorem remove_invalid_used_witness:
  "ev_numberOfOptions (remove_invalid 2 (OPTIONS_TYPE_MASK EVENT_OPTION_THRESHOLD) demo_event) = 1 \<and>
   map po_type (take 1 (ev_options (remove_invalid 2 (OPTIONS_TYPE_MASK EVENT_OPTION_THRESHOLD) demo_event))) =
     [EVENT_OPTION_NONE]"
proof -
  have v: "option_valid (OPTIONS_TYPE_MASK EVENT_OPTION_THRESHOLD) \<lparr>po_type = EVENT_OPTION_THRESHOLD, po_value = 5\<rparr>"
      "\<not> option_valid (OPTIONS_TYPE_MASK EVENT_OPTION_THRESHOLD) \<lparr>po_type = EVENT_OPTION_NID, po_value = 3\<rparr>"
    by (simp_all add: option_valid_def OPTIONS_TYPE_MASK_def NUM_EVENT_OPTIONS_le)
  show ?thesis
    using remove_invalid_used [OF demo_event_wf, of "OPTIONS_TYPE_MASK EVENT_OPTION_THRESHOLD"] v
    by (simp add: Let_def demo_event_def blank_def numeral_2_eq_2)
qed

section \<open>Default thresholds\<close>

lemma scan_threshold_edge: "\<not> scan_threshold j EVENT_OPTION_EDGE"
  by (induction j) auto

lemma scan_same_type_occupancy: "scan_same_type j EVENT_OPTION_OCCUPANCY = (False, False, False)"
  by (induction j) auto

definition edges :: "nat \<Rightarrow> PerfmonEvent \<Rightarrow> nat" where
  "edges i event = length (filter (\<lambda>opt. po_type opt = EVENT_OPTION_EDGE)
     (drop i (take (ev_numberOfOptions event) (ev_options event))))"

lemma edges_step:
  assumes "i < ev_numberOfOptions event" "ev_numberOfOptions event \<le> length (ev_options event)"
  shows "edges i event = (if po_type (ev_options event ! i) = EVENT_OPTION_EDGE then 1 else 0) + edges (Suc i) event"
proof -
  have "drop i (take (ev_numberOfOptions event) (ev_options event)) =
      ev_options event ! i # drop (Suc i) (take (ev_numberOfOptions event) (ev_options event))"
    using assms by (simp add: Cons_nth_drop_Suc [symmetric])
  then show ?thesis by (simp add: edges_def)
qed

lemma add_threshold_sel [simp]:
  "length (ev_options (add_threshold event)) = length (ev_options event)"
  "ev_numberOfOptions (add_threshold event) = Suc (ev_numberOfOptions event)"
  "ev_optionMask (add_threshold event) = ev_optionMask event"
  by (simp_all add: add_threshold_def)

lemma edges_add_threshold:
  assumes "ev_numberOfOptions event < length (ev_options event)" "i \<le> ev_numberOfOptions event"
  shows "edges i (add_threshold event) = edges i event"
  using assms by (simp add: edges_def add_threshold_def take_Suc_conv_app_nth)

lemma default_thresholds_eq:
  assumes "length (ev_options event) = MAX_EVENT_OPTIONS"
    and "ev_numberOfOptions event + edges i event \<le> MAX_EVENT_OPTIONS"
  shows "default_thresholds i event = Some ((add_threshold ^^ edges i event) event)"
  using assms
proof (induction i event rule: default_thresholds.induct)
  case (1 i event)
  let ?n = "ev_numberOfOptions event"
  show ?case
  proof (cases "i < ?n")
    case False
    then have "edges i event = 0" by (simp add: edges_def)
    then show ?thesis using False by (simp add: default_thresholds.simps)
  next
    case True
    have b: "?n \<le> MAX_EVENT_OPTIONS" using "1.prems" by simp
    note step = edges_step [OF True, unfolded "1.prems"(1), OF b]
    show ?thesis
    proof (cases "po_type (ev_options event ! i) = EVENT_OPTION_EDGE")
      case edge: True
      have room: "?n < MAX_EVENT_OPTIONS" using step edge "1.prems"(2) by simp
      have e': "edges (Suc i) (add_threshold event) = edges (Suc i) event"
        using room True "1.prems"(1) by (intro edges_add_threshold) auto
      have "default_thresholds (Suc i) (add_threshold event) =
          Some ((add_threshold ^^ edges (Suc i) (add_threshold event)) (add_threshold event))"
        using "1.IH"(1) [OF True _ refl refl edge] room scan_threshold_edge "1.prems" step edge True e'
        by simp
      then show ?thesis
        using True room edge "1.prems"(1) step e' scan_threshold_edge
        by (subst default_thresholds.simps) (simp add: funpow_swap1)
    next
      case False
      then have "default_thresholds (Suc i) event = Some ((add_threshold ^^ edges (Suc i) event) event)"
        using "1.IH"(2,3) "1.prems" step True b scan_same_type_occupancy by fastforce
      then show ?thesis
        using True False b "1.prems"(1) step scan_same_type_occupancy
        by (subst default_thresholds.simps)
          (cases "po_type (ev_options event ! i) = EVENT_OPTION_OCCUPANCY"; simp)
    qed
  qed
qed

lemma edges_wf: "options_wf event \<Longrightarrow> edges 0 event \<le> 1"
proof -
  assume "options_wf event"
  then have "distinct (map po_type (take (ev_numberOfOptions event) (ev_options event)))"
    by (simp add: options_wf_def Let_def)
  moreover have "distinct (map po_type os) \<Longrightarrow> length (filter (\<lambda>opt. po_type opt = EVENT_OPTION_EDGE) os) \<le> 1" for os
    by (induction os) (auto simp: filter_empty_conv image_iff)
  ultimately show ?thesis by (simp add: edges_def)
qed

text \<open>
  An event with edge detection gets a threshold of 1 as an additional, last option, also
  when a threshold was given: the test whether one is set looks at the edge option itself. All
  other options stay as they are, and an event without edge detection gets no threshold.
\<close>

theorem default_thresholds_edge:
  assumes "options_wf event"
  shows "default_thresholds 0 event = Some
    (if EVENT_OPTION_EDGE \<in> po_type ` set (take (ev_numberOfOptions event) (ev_options event))
     then add_threshold event else event)"
proof -
  have "ev_numberOfOptions event + edges 0 event \<le> MAX_EVENT_OPTIONS"
    using edges_wf [OF assms] options_wf_room [OF assms] by simp
  then have "default_thresholds 0 event = Some ((add_threshold ^^ edges 0 event) event)"
    using assms by (intro default_thresholds_eq) (simp_all add: options_wf_def)
  moreover have "edges 0 event = (if EVENT_OPTION_EDGE \<in> po_type ` set (take (ev_numberOfOptions event) (ev_options event)) then 1 else 0)"
    using edges_wf [OF assms] by (auto simp: edges_def le_Suc_eq filter_empty_conv image_iff)
  ultimately show ?thesis by auto
qed

theorem default_thresholds_edge_witness:
  "let ev = demo_event\<lparr>ev_options := (ev_options demo_event)[0 := \<lparr>po_type = EVENT_OPTION_EDGE, po_value = 0\<rparr>]\<rparr>;
       ev' = the (default_thresholds 0 ev)
   in map (\<lambda>opt. (po_type opt, po_value opt)) (take (ev_numberOfOptions ev') (ev_options ev')) =
        [(EVENT_OPTION_EDGE, 0), (EVENT_OPTION_THRESHOLD, 5), (EVENT_OPTION_THRESHOLD, 1)]"
proof -
  let ?ev = "demo_event\<lparr>ev_options := (ev_options demo_event)[0 := \<lparr>po_type = EVENT_OPTION_EDGE, po_value = 0\<rparr>]\<rparr>"
  have "options_wf ?ev"
    by (simp add: options_wf_def demo_event_def MAX_EVENT_OPTIONS_def)
  from default_thresholds_edge [OF this] show ?thesis
    by (simp add: demo_event_def add_threshold_def numeral_2_eq_2 numeral_eq_Suc)
qed

section \<open>The parser stays inside the option array\<close>

lemma clear_unused_wf:
  assumes "options_wf event"
  shows "options_wf (event\<lparr>ev_options := map (\<lambda>i. if ev_numberOfOptions event \<le> i
    then (ev_options event ! i)\<lparr>po_type := EVENT_OPTION_NONE\<rparr> else ev_options event ! i) [0..<length (ev_options event)]\<rparr>)"
proof -
  have "take (ev_numberOfOptions event) (map (\<lambda>i. if ev_numberOfOptions event \<le> i
    then (ev_options event ! i)\<lparr>po_type := EVENT_OPTION_NONE\<rparr> else ev_options event ! i) [0..<length (ev_options event)]) =
    take (ev_numberOfOptions event) (ev_options event)"
    by (rule nth_equalityI) auto
  then show ?thesis using assms by (simp add: options_wf_def)
qed

lemma remove_invalid_edges:
  assumes "options_wf event"
  shows "ev_numberOfOptions (remove_invalid (ev_numberOfOptions event) valid event) +
    edges 0 (remove_invalid (ev_numberOfOptions event) valid event) \<le> MAX_EVENT_OPTIONS"
proof -
  let ?n = "ev_numberOfOptions event" and ?r = "remove_invalid (ev_numberOfOptions event) valid event"
  define k where "k = length (filter (option_valid valid) (take ?n (ev_options event)))"
  have r: "ev_numberOfOptions ?r = k" "take k (ev_options ?r) = map (blank valid) (take k (ev_options event))"
    using remove_invalid_used_eq [OF assms, of valid] by (simp_all add: k_def)
  have kn: "k \<le> ?n" using length_filter_le [of "option_valid valid" "take ?n (ev_options event)"] by (simp add: k_def)
  have "filter (\<lambda>opt. po_type opt = EVENT_OPTION_EDGE) (map (blank valid) os) =
      map (blank valid) (filter (\<lambda>opt. po_type (blank valid opt) = EVENT_OPTION_EDGE) os)" for os
    by (simp add: filter_map comp_def)
  moreover have "length (filter (\<lambda>opt. po_type (blank valid opt) = EVENT_OPTION_EDGE) os) \<le>
      length (filter (\<lambda>opt. po_type opt = EVENT_OPTION_EDGE) os)" for os
    by (induction os) (auto simp: blank_def)
  ultimately have "edges 0 ?r \<le> length (filter (\<lambda>opt. po_type opt = EVENT_OPTION_EDGE) (take k (ev_options event)))"
    using r by (simp add: edges_def)
  also have "\<dots> \<le> edges 0 event"
  proof -
    have "take ?n (ev_options event) = take k (ev_options event) @ take (?n - k) (drop k (ev_options event))"
      using kn by (metis le_add_diff_inverse take_add)
    then show ?thesis by (simp add: edges_def)
  qed
  finally have "edges 0 ?r \<le> 1" using edges_wf [OF assms] by simp
  then show ?thesis using options_wf_room [OF assms] r(1) kn by simp
qed

text \<open>Parsing changes the options of an event only.\<close>

definition event_kept :: "PerfmonEvent \<Rightarrow> PerfmonEvent \<Rightarrow> bool" where
  "event_kept event ev \<longleftrightarrow> ev_name ev = ev_name event \<and> ev_limit ev = ev_limit event \<and> ev_eventId ev = ev_eventId event \<and>
     ev_umask ev = ev_umask event \<and> ev_cfgBits ev = ev_cfgBits event \<and> ev_cmask ev = ev_cmask event \<and> ev_optionMask ev = ev_optionMask event"

lemma event_kept_trans: "\<lbrakk>event_kept a b; event_kept b c\<rbrakk> \<Longrightarrow> event_kept a c"
  by (simp add: event_kept_def)

lemma parse_token_kept: "parse_token tok event = Some ev \<Longrightarrow> event_kept event ev"
  by (auto simp: parse_token_def assignOption_def event_kept_def Let_def bind_Some_iff split: if_splits option.splits)

lemma parse_tokens_kept: "parse_tokens ts event = Some ev \<Longrightarrow> event_kept event ev"
proof (induction ts arbitrary: event)
  case Nil
  then show ?case by (simp add: event_kept_def)
next
  case (Cons t ts)
  then obtain ev1 where "parse_token t event = Some ev1" "parse_tokens ts ev1 = Some ev" by (auto simp: bind_Some_iff)
  then show ?case using Cons.IH parse_token_kept event_kept_trans by blast
qed

lemma remove_invalid_kept: "event_kept event (remove_invalid i valid event)"
proof (induction i arbitrary: event)
  case 0
  then show ?case by (simp add: event_kept_def)
next
  case (Suc i)
  define ev1 where "ev1 = (if option_valid valid (ev_options event ! i) then event
    else event\<lparr>ev_options := (ev_options event)[i := (ev_options event ! i)\<lparr>po_type := EVENT_OPTION_NONE\<rparr>],
      ev_numberOfOptions := ev_numberOfOptions event - 1\<rparr>)"
  have "remove_invalid (Suc i) valid event = remove_invalid i valid ev1" by (simp only: remove_invalid.simps ev1_def)
  moreover have "event_kept event ev1" by (simp add: event_kept_def ev1_def)
  ultimately show ?case using Suc [of ev1] event_kept_trans by metis
qed

lemma default_thresholds_step:
  assumes "default_thresholds i event = Some ev"
  shows "ev = event \<or> i < MAX_EVENT_OPTIONS \<and>
    (default_thresholds (Suc i) event = Some ev \<or> default_thresholds (Suc i) (add_threshold event) = Some ev)"
proof -
  note d = assms [unfolded default_thresholds.simps [of i event] Let_def]
  show ?thesis
    using d by (cases "scan_same_type (ev_numberOfOptions event) (po_type (ev_options event ! i))") (simp split: if_splits)
qed

lemma default_thresholds_kept: "default_thresholds i event = Some ev \<Longrightarrow> event_kept event ev"
proof (induction "MAX_EVENT_OPTIONS - i" arbitrary: i event rule: less_induct)
  case less
  have k: "event_kept event event" "event_kept event (add_threshold event)" by (simp_all add: event_kept_def add_threshold_def)
  have IH: "event_kept e ev" if "i < MAX_EVENT_OPTIONS" "default_thresholds (Suc i) e = Some ev" for e
    using less.hyps [OF _ that(2)] that(1) by simp
  from default_thresholds_step [OF less.prems] show ?case
    using k IH event_kept_trans by blast
qed

lemma parseOptions_kept:
  assumes "parseOptions tokens event regMask = Some (r, ev)"
  shows "event_kept event ev"
proof -
  let ?ev0 = "event\<lparr>ev_options := map (\<lambda>i. if ev_numberOfOptions event \<le> i
    then (ev_options event ! i)\<lparr>po_type := EVENT_OPTION_NONE\<rparr> else ev_options event ! i) [0..<length (ev_options event)]\<rparr>"
  have 0: "event_kept event ?ev0" by (simp add: event_kept_def)
  show ?thesis
  proof (cases "length tokens - 2 > MAX_EVENT_OPTIONS")
    case True
    then show ?thesis using assms 0 by (simp add: parseOptions_def Let_def)
  next
    case False
    then obtain ev1 where 1: "parse_tokens (drop 2 tokens) ?ev0 = Some ev1"
        "default_thresholds 0 (remove_invalid (ev_numberOfOptions ev1) (regMask OR ev_optionMask ev1) ev1) = Some ev"
      using assms by (auto simp: parseOptions_def Let_def bind_Some_iff)
    then show ?thesis
      by (intro event_kept_trans [OF 0] event_kept_trans [OF parse_tokens_kept [OF 1(1)]]
        event_kept_trans [OF remove_invalid_kept default_thresholds_kept [OF 1(2)]])
  qed
qed

lemma parseOptions_result:
  assumes "options_wf event"
  shows "\<exists>r ev. parseOptions tokens event regMask = Some (r, ev) \<and> length (ev_options ev) = MAX_EVENT_OPTIONS \<and>
    (if length tokens - 2 > MAX_EVENT_OPTIONS then r = - ERANGE
     else r = int (ev_numberOfOptions ev) \<and> ev_numberOfOptions ev \<le> MAX_EVENT_OPTIONS)"
proof -
  let ?ev0 = "event\<lparr>ev_options := map (\<lambda>i. if ev_numberOfOptions event \<le> i
    then (ev_options event ! i)\<lparr>po_type := EVENT_OPTION_NONE\<rparr> else ev_options event ! i) [0..<length (ev_options event)]\<rparr>"
  obtain ev1 where ev1: "parse_tokens (drop 2 tokens) ?ev0 = Some ev1" "options_wf ev1"
    using parse_tokens_wf [OF clear_unused_wf [OF assms]] by blast
  let ?ev2 = "remove_invalid (ev_numberOfOptions ev1) (regMask OR ev_optionMask ev1) ev1"
  have len: "length (ev_options ?ev2) = MAX_EVENT_OPTIONS"
    using ev1(2) remove_invalid_eq [of "ev_numberOfOptions ev1" ev1] by (simp add: options_wf_def)
  note ed = remove_invalid_edges [OF ev1(2), of "regMask OR ev_optionMask ev1"]
  have d: "default_thresholds 0 ?ev2 = Some ((add_threshold ^^ edges 0 ?ev2) ?ev2)"
    by (rule default_thresholds_eq [OF len ed])
  have "ev_numberOfOptions ((add_threshold ^^ k) ev) = ev_numberOfOptions ev + k \<and>
      length (ev_options ((add_threshold ^^ k) ev)) = length (ev_options ev)" for k ev
    by (induction k) (auto simp: add_threshold_def)
  then show ?thesis
    using ev1(1) d ed len assms by (auto simp: parseOptions_def Let_def options_wf_def)
qed

text \<open>
  Property C40. Parsing the options of an event descriptor always ends without an access outside the
  option array, whatever the descriptor: it returns an error for too many options and otherwise
  the number of options, which is at most the size of the array.
\<close>

theorem parseOptions_total:
  assumes "options_wf event"
  shows "\<exists>r ev. parseOptions tokens event regMask = Some (r, ev) \<and>
    (if length tokens - 2 > MAX_EVENT_OPTIONS then r = - ERANGE
     else r = int (ev_numberOfOptions ev) \<and> ev_numberOfOptions ev \<le> MAX_EVENT_OPTIONS)"
  using parseOptions_result [OF assms] by blast

theorem parseOptions_total_witness:
  "\<exists>r ev. parseOptions [''INSTR_RETIRED'', ''PMC0'', ''EDGEDETECT'', ''NID=0x3''] demo_event 0 = Some (r, ev) \<and> r \<le> 24"
  using parseOptions_total [OF demo_event_wf, of "[''INSTR_RETIRED'', ''PMC0'', ''EDGEDETECT'', ''NID=0x3'']" 0]
  by (auto simp: MAX_EVENT_OPTIONS_def)

end
