(* ===== verification/Access.thy ===== *)
theory Access
  imports AccessDaemon_Properties
begin

text \<open>
  Register access of the library: the client of the access daemon (\<open>src/src/access_client.c\<close>), direct
  access to the device files (\<open>access_x86.c\<close>, \<open>access_x86_msr.c\<close>, \<open>access_x86_pci.c\<close>) and the common interface
  in front of them (\<open>access.c\<close>). Starting a daemon and the exchange of one request and one reply over
  its socket are a parameter \<open>'w link_ops\<close>; device files are accessed through the \<open>'w kernel_ops\<close> of the
  daemon theory. A call holds the lock of its socket for the whole exchange, so an exchange is one
  step. Record members that a request does not set are 0, the daemon does not read them.
\<close>

section \<open>State\<close>

record 'w link_ops =
  lk_start :: "nat \<Rightarrow> 'w \<Rightarrow> (int \<times> 'w) option"
  lk_exchange :: "int \<Rightarrow> AccessDataRecord \<Rightarrow> 'w \<Rightarrow> (AccessDataRecord \<times> 'w) option"
  lk_exit :: "int \<Rightarrow> AccessDataRecord \<Rightarrow> 'w \<Rightarrow> 'w"
  lk_rdpmc :: "nat \<Rightarrow> u32 \<Rightarrow> 'w \<Rightarrow> u64 \<times> 'w"
  lk_test_rdpmc :: "nat \<Rightarrow> u32 \<Rightarrow> 'w \<Rightarrow> int \<times> 'w"

record access_client =
  cpuSockets :: "int list"
  cpuSockets_open :: int
  globalSocket :: int

record access_direct =
  MSR_FD :: "int list"
  rdpmc_works_pmc :: int
  rdpmc_works_fixed :: int
  PCI_FD :: "int list list"
  pci_socket_bus :: "string list"
  pci_devs :: "PciDevice list"

text \<open>The function pointers that \<open>HPMinit\<close> sets, all together.\<close>

datatype access_funs = NoAccess | ClientAccess | DirectAccess

record 'w hpm =
  daemonMode :: int
  access_mode :: access_funs
  registeredCpus :: int
  registeredCpuList :: "bool list"
  topo_numHWThreads :: nat
  supportUncore :: bool
  affinity_core2node_lookup :: "nat list"
  client :: access_client
  direct :: access_direct
  world :: 'w

abbreviation (input) ACCESSMODE_DIRECT :: int where "ACCESSMODE_DIRECT \<equiv> 0"
abbreviation (input) ACCESSMODE_DAEMON :: int where "ACCESSMODE_DAEMON \<equiv> 1"

section \<open>The daemon's client\<close>

fun access_client_errno :: "AccessErrorType \<Rightarrow> int" where
  "access_client_errno ERR_NOERROR = 0"
| "access_client_errno ERR_UNKNOWN = - EFAULT"
| "access_client_errno ERR_RESTREG = - EPERM"
| "access_client_errno ERR_OPENFAIL = - ENXIO"
| "access_client_errno ERR_RWFAIL = - EIO"
| "access_client_errno ERR_DAEMONBUSY = - EBUSY"
| "access_client_errno ERR_NODEV = - ENODEV"

definition access_client_init :: "'w link_ops \<Rightarrow> nat \<Rightarrow> 'w hpm \<Rightarrow> (int \<times> 'w hpm) option" where
  "access_client_init L cpu_id s = do {
     sock \<leftarrow> arr_get (cpuSockets (client s)) (int cpu_id);
     if sock < 0 then do {
       (fd, w) \<leftarrow> lk_start L cpu_id (world s);
       socks \<leftarrow> arr_set (cpuSockets (client s)) (int cpu_id) fd;
       let c = \<lparr>cpuSockets = socks, cpuSockets_open = cpuSockets_open (client s) + 1,
                globalSocket = (if globalSocket (client s) = - 1 then fd else globalSocket (client s))\<rparr>;
       Some (0, s\<lparr>client := c, world := w\<rparr>) }
     else Some (0, s) }"

text \<open>The socket of a request: the one of the processor when it has one, else the first one opened.\<close>

definition client_socket :: "access_client \<Rightarrow> nat \<Rightarrow> int option" where
  "client_socket c cpu_id = do {
     sock \<leftarrow> arr_get (cpuSockets c) (int cpu_id);
     Some (if sock \<ge> 0 \<and> sock \<noteq> globalSocket c then sock else globalSocket c) }"

text \<open>PCI requests name the socket of the processor instead of the processor.\<close>

definition request_cpu :: "'w hpm \<Rightarrow> u32 \<Rightarrow> nat \<Rightarrow> u32 option" where
  "request_cpu s dev cpu_id =
     (if dev \<noteq> MSR_DEV
      then map_option of_nat (arr_get (affinity_core2node_lookup s) (int cpu_id))
      else Some (of_nat cpu_id))"

definition access_client_read ::
  "'w link_ops \<Rightarrow> u32 \<Rightarrow> nat \<Rightarrow> u32 \<Rightarrow> 'w hpm \<Rightarrow> (int \<times> u64 \<times> 'w hpm) option" where
  "access_client_read L dev cpu_id reg s =
     (if cpuSockets_open (client s) = 0 then Some (- ENOENT, 0, s)
      else do {
        socket \<leftarrow> client_socket (client s) cpu_id;
        c \<leftarrow> request_cpu s dev cpu_id;
        if socket \<noteq> - 1 then do {
          (r, w) \<leftarrow> lk_exchange L socket \<lparr>ad_cpu = c, ad_reg = reg, ad_data = 0,
            ad_device = (if dev \<noteq> MSR_DEV then dev else MSR_DEV), ad_type = DAEMON_READ,
            ad_errorcode = ERR_NOERROR\<rparr> (world s);
          Some (if ad_errorcode r \<noteq> ERR_NOERROR
                then (access_client_errno (ad_errorcode r), 0, s\<lparr>world := w\<rparr>)
                else (0, ad_data r, s\<lparr>world := w\<rparr>)) }
        else Some (- EBADFD, 0, s) })"

definition access_client_write ::
  "'w link_ops \<Rightarrow> u32 \<Rightarrow> nat \<Rightarrow> u32 \<Rightarrow> u64 \<Rightarrow> 'w hpm \<Rightarrow> (int \<times> 'w hpm) option" where
  "access_client_write L dev cpu_id reg data s =
     (if cpuSockets_open (client s) = 0 then Some (- ENOENT, s)
      else do {
        socket \<leftarrow> client_socket (client s) cpu_id;
        c \<leftarrow> request_cpu s dev cpu_id;
        if socket \<noteq> - 1 then do {
          (r, w) \<leftarrow> lk_exchange L socket \<lparr>ad_cpu = c, ad_reg = reg, ad_data = data,
            ad_device = (if dev \<noteq> MSR_DEV then dev else MSR_DEV), ad_type = DAEMON_WRITE,
            ad_errorcode = ERR_NOERROR\<rparr> (world s);
          Some (if ad_errorcode r \<noteq> ERR_NOERROR
                then (access_client_errno (ad_errorcode r), s\<lparr>world := w\<rparr>)
                else (0, s\<lparr>world := w\<rparr>)) }
        else Some (- EBADFD, s) })"

definition access_client_finalize :: "'w link_ops \<Rightarrow> nat \<Rightarrow> 'w hpm \<Rightarrow> 'w hpm option" where
  "access_client_finalize L cpu_id s = do {
     sock \<leftarrow> arr_get (cpuSockets (client s)) (int cpu_id);
     s' \<leftarrow> (if sock > 0 then do {
              socks \<leftarrow> arr_set (cpuSockets (client s)) (int cpu_id) (- 1);
              let w = lk_exit L sock \<lparr>ad_cpu = 0, ad_reg = 0, ad_data = 0, ad_device = 0,
                        ad_type = DAEMON_EXIT, ad_errorcode = ERR_NOERROR\<rparr> (world s);
              Some (s\<lparr>client := (client s)\<lparr>cpuSockets := socks,
                        cpuSockets_open := cpuSockets_open (client s) - 1\<rparr>, world := w\<rparr>) }
            else Some s);
     Some (if cpuSockets_open (client s') = 0 then s'\<lparr>client := (client s')\<lparr>globalSocket := - 1\<rparr>\<rparr> else s') }"

definition access_client_check :: "'w link_ops \<Rightarrow> u32 \<Rightarrow> nat \<Rightarrow> 'w hpm \<Rightarrow> (int \<times> 'w hpm) option" where
  "access_client_check L dev cpu_id s = do {
     sock \<leftarrow> arr_get (cpuSockets (client s)) (int cpu_id);
     c \<leftarrow> request_cpu s dev cpu_id;
     let socket = (if sock > 0 \<and> sock \<noteq> globalSocket (client s) then sock else globalSocket (client s));
     if sock > 0 \<or> cpuSockets_open (client s) = 1 \<and> globalSocket (client s) > 0 then do {
       (r, w) \<leftarrow> lk_exchange L socket \<lparr>ad_cpu = c, ad_reg = 0, ad_data = 0, ad_device = dev,
         ad_type = DAEMON_CHECK, ad_errorcode = ERR_NOERROR\<rparr> (world s);
       Some (if ad_errorcode r = ERR_NOERROR then 1 else 0, s\<lparr>world := w\<rparr>) }
     else Some (0, s) }"

section \<open>Direct access\<close>

text \<open>A write of a register file that fails, or is short, is reported with the result of \<open>pwrite\<close>.\<close>

definition access_x86_msr_read ::
  "'w link_ops \<Rightarrow> 'w kernel_ops \<Rightarrow> nat \<Rightarrow> u32 \<Rightarrow> 'w hpm \<Rightarrow> (int \<times> u64 \<times> 'w hpm) option" where
  "access_x86_msr_read L K cpu_id reg s =
     (if rdpmc_works_pmc (direct s) = 1 \<and> MSR_PMC0 \<le> reg \<and> reg \<le> MSR_PMC7 then
        (let (v, w) = lk_rdpmc L cpu_id (reg - MSR_PMC0) (world s) in Some (0, v, s\<lparr>world := w\<rparr>))
      else if rdpmc_works_fixed (direct s) = 1 \<and> MSR_PERF_FIXED_CTR0 \<le> reg \<and> reg \<le> MSR_PERF_FIXED_CTR2 then
        (let (v, w) = lk_rdpmc L cpu_id (push_bit 30 1 + (reg - MSR_PERF_FIXED_CTR0)) (world s)
         in Some (0, v, s\<lparr>world := w\<rparr>))
      else do {
        fd \<leftarrow> arr_get (MSR_FD (direct s)) (int cpu_id);
        if fd > 0 then
          Some (case sys_pread K fd 8 reg (world s) of
                  (None, w) \<Rightarrow> (- EIO, 0, s\<lparr>world := w\<rparr>)
                | (Some v, w) \<Rightarrow> (0, v, s\<lparr>world := w\<rparr>))
        else Some (0, 0, s) })"

definition access_x86_msr_write ::
  "'w kernel_ops \<Rightarrow> nat \<Rightarrow> u32 \<Rightarrow> u64 \<Rightarrow> 'w hpm \<Rightarrow> (int \<times> 'w hpm) option" where
  "access_x86_msr_write K cpu_id reg data s = do {
     fd \<leftarrow> arr_get (MSR_FD (direct s)) (int cpu_id);
     if fd > 0 then
       Some (case sys_pwrite K fd 8 reg data (world s) of
               (ret, w) \<Rightarrow> (if ret \<noteq> 8 then ret else 0, s\<lparr>world := w\<rparr>))
     else Some (0, s) }"

definition access_x86_msr_check :: "u32 \<Rightarrow> nat \<Rightarrow> 'w hpm \<Rightarrow> int option" where
  "access_x86_msr_check dev cpu_id s =
     (if dev = MSR_DEV then do {
        fd \<leftarrow> arr_get (MSR_FD (direct s)) (int cpu_id);
        Some (if fd > 0 then 1 else 0) }
      else Some 0)"

definition pci_slot :: "'w hpm \<Rightarrow> int \<Rightarrow> int \<Rightarrow> int option" where
  "pci_slot s socket dev = do { row \<leftarrow> arr_get (PCI_FD (direct s)) socket; arr_get row dev }"

text \<open>Opening a device file on first use, in both access functions.\<close>

definition pci_slot_open ::
  "'w kernel_ops \<Rightarrow> int \<Rightarrow> int \<Rightarrow> 'w hpm \<Rightarrow> (int \<times> 'w hpm) option" where
  "pci_slot_open K socket dev s = do {
     bus \<leftarrow> arr_get (pci_socket_bus (direct s)) socket;
     pd \<leftarrow> arr_get (pci_devs (direct s)) dev;
     p \<leftarrow> pci_path pd;
     row \<leftarrow> arr_get (PCI_FD (direct s)) socket;
     let (fd, w) = sys_open K (PCI_ROOT_PATH @ bus @ p) (world s);
     row' \<leftarrow> arr_set row dev fd;
     tab \<leftarrow> arr_set (PCI_FD (direct s)) socket row';
     Some (fd, s\<lparr>direct := (direct s)\<lparr>PCI_FD := tab\<rparr>, world := w\<rparr>) }"

text \<open>A descriptor 0 after the opening leaves the local variable unread: an indeterminate value.\<close>

definition access_x86_pci_read ::
  "'w kernel_ops \<Rightarrow> int \<Rightarrow> int \<Rightarrow> u32 \<Rightarrow> 'w hpm \<Rightarrow> (int \<times> u64 \<times> 'w hpm) option" where
  "access_x86_pci_read K dev socket reg s =
     (if dev = 0 then Some (- ENODEV, 0, s)
      else do {
        fd \<leftarrow> pci_slot s socket dev;
        if fd < 0 then Some (- ENODEV, 0, s)
        else do {
          (fd', s') \<leftarrow> (if fd = 0 then pci_slot_open K socket dev s else Some (fd, s));
          if fd' < 0 then Some (- EACCES, 0, s')
          else if fd' > 0 then
            Some (case sys_pread K fd' 4 reg (world s') of
                    (None, w) \<Rightarrow> (- EIO, 0, s'\<lparr>world := w\<rparr>)
                  | (Some v, w) \<Rightarrow> (0, ucast (ucast v :: u32), s'\<lparr>world := w\<rparr>))
          else None }})"

definition access_x86_pci_write ::
  "'w kernel_ops \<Rightarrow> int \<Rightarrow> int \<Rightarrow> u32 \<Rightarrow> u64 \<Rightarrow> 'w hpm \<Rightarrow> (int \<times> 'w hpm) option" where
  "access_x86_pci_write K dev socket reg data s =
     (if dev = 0 then Some (- ENODEV, s)
      else do {
        fd \<leftarrow> pci_slot s socket dev;
        if fd < 0 then Some (- ENODEV, s)
        else do {
          (fd', s') \<leftarrow> (if fd = 0 then pci_slot_open K socket dev s else Some (fd, s));
          if fd' < 0 then Some (- EACCES, s')
          else if fd' > 0 then
            Some (case sys_pwrite K fd' 4 reg (ucast (ucast data :: u32)) (world s') of
                    (ret, w) \<Rightarrow> (if ret \<noteq> 4 then - EIO else 0, s'\<lparr>world := w\<rparr>))
          else Some (0, s') }})"

text \<open>
  The first condition of the source compares the address of the library function \<open>index\<close> with
  \<open>MSR_DEV\<close>, which is false.
\<close>

definition access_x86_pci_check :: "u32 \<Rightarrow> nat \<Rightarrow> 'w hpm \<Rightarrow> bool option" where
  "access_x86_pci_check dev socket s = do {
     pd \<leftarrow> arr_get (pci_devs (direct s)) (uint dev);
     if pci_online pd then Some True
     else do { fd \<leftarrow> pci_slot s (int socket) (uint dev); Some (fd \<ge> 0) } }"

text \<open>
  The PCI functions take the device first and the socket second; both calls pass the socket first.
  When the check fails, the result was never written.
\<close>

definition access_x86_read ::
  "'w link_ops \<Rightarrow> 'w kernel_ops \<Rightarrow> u32 \<Rightarrow> nat \<Rightarrow> u32 \<Rightarrow> 'w hpm \<Rightarrow> (int \<times> u64 \<times> 'w hpm) option" where
  "access_x86_read L K dev cpu_id reg s =
     (if dev = MSR_DEV then access_x86_msr_read L K cpu_id reg s
      else do {
        node \<leftarrow> arr_get (affinity_core2node_lookup s) (int cpu_id);
        ok \<leftarrow> access_x86_pci_check dev node s;
        if ok then access_x86_pci_read K (int node) (uint dev) reg s else None })"

definition access_x86_write ::
  "'w kernel_ops \<Rightarrow> u32 \<Rightarrow> nat \<Rightarrow> u32 \<Rightarrow> u64 \<Rightarrow> 'w hpm \<Rightarrow> (int \<times> 'w hpm) option" where
  "access_x86_write K dev cpu_id reg data s =
     (if dev = MSR_DEV then access_x86_msr_write K cpu_id reg data s
      else do {
        node \<leftarrow> arr_get (affinity_core2node_lookup s) (int cpu_id);
        ok \<leftarrow> access_x86_pci_check dev node s;
        if ok then access_x86_pci_write K (int node) (uint dev) reg data s else None })"

definition access_x86_check :: "u32 \<Rightarrow> nat \<Rightarrow> 'w hpm \<Rightarrow> int option" where
  "access_x86_check dev cpu_id s =
     (if dev = MSR_DEV then access_x86_msr_check dev cpu_id s
      else do {
        node \<leftarrow> arr_get (affinity_core2node_lookup s) (int cpu_id);
        ok \<leftarrow> access_x86_pci_check dev node s;
        Some (if ok then 1 else 0) })"

text \<open>The MSR file has one of two names; it is opened twice for tests and once for use.\<close>

definition msr_file_name :: "'w kernel_ops \<Rightarrow> nat \<Rightarrow> 'w \<Rightarrow> string \<times> 'w" where
  "msr_file_name K cpu_id w =
     (let (fd, w1) = sys_open K (''/dev/msr'' @ dec_string cpu_id) w in
      if fd < 0 then (''/dev/cpu/'' @ dec_string cpu_id @ ''/msr'', w1)
      else (''/dev/msr'' @ dec_string cpu_id, sys_close K fd w1))"

definition access_x86_msr_init ::
  "'w link_ops \<Rightarrow> 'w kernel_ops \<Rightarrow> nat \<Rightarrow> 'w hpm \<Rightarrow> (int \<times> 'w hpm) option" where
  "access_x86_msr_init L K cpu_id s = do {
     fd0 \<leftarrow> arr_get (MSR_FD (direct s)) (int cpu_id);
     if fd0 > 0 then Some (0, s)
     else do {
       let (name, w1) = msr_file_name K cpu_id (world s);
       let (fd, w2) = sys_open K name w1;
       if fd < 0 then Some (- EPERM, s\<lparr>world := w2\<rparr>)
       else do {
         let w3 = sys_close K fd w2;
         let (pmc, w4) = (if rdpmc_works_pmc (direct s) < 0 then lk_test_rdpmc L cpu_id 0 w3
                          else (rdpmc_works_pmc (direct s), w3));
         let (fixed, w5) = (if rdpmc_works_fixed (direct s) < 0 then lk_test_rdpmc L cpu_id (push_bit 30 1) w4
                            else (rdpmc_works_fixed (direct s), w4));
         let (name', w6) = msr_file_name K cpu_id w5;
         let (fd', w7) = sys_open K name' w6;
         fds \<leftarrow> arr_set (MSR_FD (direct s)) (int cpu_id) fd';
         Some (if fd' < 0 then - EPERM else 0,
               s\<lparr>direct := (direct s)\<lparr>MSR_FD := fds, rdpmc_works_pmc := pmc, rdpmc_works_fixed := fixed\<rparr>,
                 world := w7\<rparr>) }}}"

definition access_x86_msr_finalize :: "'w kernel_ops \<Rightarrow> nat \<Rightarrow> 'w hpm \<Rightarrow> 'w hpm option" where
  "access_x86_msr_finalize K cpu_id s = do {
     fd \<leftarrow> arr_get (MSR_FD (direct s)) (int cpu_id);
     if fd > 0 then do {
       fds \<leftarrow> arr_set (MSR_FD (direct s)) (int cpu_id) 0;
       Some (s\<lparr>direct := (direct s)\<lparr>MSR_FD := fds\<rparr>, world := sys_close K fd (world s)\<rparr>) }
     else Some s }"

text \<open>The descriptors of the device files are closed and kept.\<close>

definition access_x86_pci_finalize :: "'w kernel_ops \<Rightarrow> nat \<Rightarrow> 'w hpm \<Rightarrow> 'w hpm option" where
  "access_x86_pci_finalize K socket s = do {
     row \<leftarrow> arr_get (PCI_FD (direct s)) (int socket);
     Some (s\<lparr>world := fold (\<lambda>fd w. if fd > 0 then sys_close K fd w else w) (tl row) (world s)\<rparr>) }"

definition access_x86_finalize :: "'w kernel_ops \<Rightarrow> nat \<Rightarrow> 'w hpm \<Rightarrow> 'w hpm option" where
  "access_x86_finalize K cpu_id s = do {
     s1 \<leftarrow> access_x86_msr_finalize K cpu_id s;
     if supportUncore s1 then do {
       node \<leftarrow> arr_get (affinity_core2node_lookup s1) (int cpu_id);
       access_x86_pci_finalize K node s1 }
     else Some s1 }"

text \<open>\<open>pciInit\<close> stands for \<open>access_x86_pci_init\<close>, the discovery of the PCI devices in direct mode.\<close>

definition access_x86_init ::
  "'w link_ops \<Rightarrow> 'w kernel_ops \<Rightarrow> (nat \<Rightarrow> 'w hpm \<Rightarrow> (int \<times> 'w hpm) option) \<Rightarrow> nat \<Rightarrow> 'w hpm \<Rightarrow>
   (int \<times> 'w hpm) option" where
  "access_x86_init L K pciInit cpu_id s = do {
     (ret, s1) \<leftarrow> access_x86_msr_init L K cpu_id s;
     if ret = 0 \<and> supportUncore s1 then do {
       node \<leftarrow> arr_get (affinity_core2node_lookup s1) (int cpu_id);
       pciInit node s1 }
     else Some (ret, s1) }"

section \<open>The common interface\<close>

definition HPMmode :: "int \<Rightarrow> 'w hpm \<Rightarrow> 'w hpm" where
  "HPMmode mode s = (if mode = ACCESSMODE_DIRECT \<or> mode = ACCESSMODE_DAEMON then s\<lparr>daemonMode := mode\<rparr> else s)"

definition HPMinit :: "'w hpm \<Rightarrow> int \<times> 'w hpm" where
  "HPMinit s =
     (if access_mode s = NoAccess then
        (let s1 = (if daemonMode s = - 1 then s\<lparr>daemonMode := ACCESSMODE_DAEMON\<rparr> else s) in
         if daemonMode s1 = ACCESSMODE_DAEMON then (0, s1\<lparr>access_mode := ClientAccess\<rparr>)
         else if daemonMode s1 = ACCESSMODE_DIRECT then (0, s1\<lparr>access_mode := DirectAccess\<rparr>)
         else (0, s1))
      else (0, s))"

definition HPMaddThread ::
  "'w link_ops \<Rightarrow> 'w kernel_ops \<Rightarrow> (nat \<Rightarrow> 'w hpm \<Rightarrow> (int \<times> 'w hpm) option) \<Rightarrow> nat \<Rightarrow> 'w hpm \<Rightarrow>
   (int \<times> 'w hpm) option" where
  "HPMaddThread L K pciInit cpu_id s = do {
     reg \<leftarrow> arr_get (registeredCpuList s) (int cpu_id);
     if reg then Some (0, s)
     else (case access_mode s of
             NoAccess \<Rightarrow> Some (- ENODEV, s)
           | m \<Rightarrow> do {
               (ret, s1) \<leftarrow> (if m = ClientAccess then access_client_init L cpu_id s
                            else access_x86_init L K pciInit cpu_id s);
               if ret = 0 then do {
                 regs \<leftarrow> arr_set (registeredCpuList s1) (int cpu_id) True;
                 Some (0, s1\<lparr>registeredCpus := registeredCpus s1 + 1, registeredCpuList := regs\<rparr>) }
               else Some (ret, s1) }) }"

fun finalize_cpus :: "'w link_ops \<Rightarrow> 'w kernel_ops \<Rightarrow> nat list \<Rightarrow> 'w hpm \<Rightarrow> 'w hpm option" where
  "finalize_cpus L K [] s = Some s"
| "finalize_cpus L K (i # is) s = do {
     reg \<leftarrow> arr_get (registeredCpuList s) (int i);
     s' \<leftarrow> (if reg then do {
              s1 \<leftarrow> (case access_mode s of
                       ClientAccess \<Rightarrow> access_client_finalize L i s
                     | DirectAccess \<Rightarrow> access_x86_finalize K i s
                     | NoAccess \<Rightarrow> None);
              regs \<leftarrow> arr_set (registeredCpuList s1) (int i) False;
              Some (s1\<lparr>registeredCpus := registeredCpus s1 - 1, registeredCpuList := regs\<rparr>) }
            else Some s);
     finalize_cpus L K is s' }"

definition HPMfinalize :: "'w link_ops \<Rightarrow> 'w kernel_ops \<Rightarrow> 'w hpm \<Rightarrow> 'w hpm option" where
  "HPMfinalize L K s = do {
     s1 \<leftarrow> (if registeredCpus s \<noteq> 0 then finalize_cpus L K [0..<topo_numHWThreads s] s else Some s);
     Some (s1\<lparr>access_mode := NoAccess\<rparr>) }"

text \<open>Without an access function the call goes through a NULL pointer.\<close>

definition HPMread ::
  "'w link_ops \<Rightarrow> 'w kernel_ops \<Rightarrow> int \<Rightarrow> u32 \<Rightarrow> u32 \<Rightarrow> 'w hpm \<Rightarrow> (int \<times> u64 \<times> 'w hpm) option" where
  "HPMread L K cpu_id dev reg s =
     (if MAX_NUM_PCI_DEVICES \<le> unat dev then Some (- EFAULT, 0, s)
      else if cpu_id < 0 \<or> int (topo_numHWThreads s) \<le> cpu_id then Some (- ERANGE, 0, s)
      else do {
        registered \<leftarrow> arr_get (registeredCpuList s) cpu_id;
        if \<not> registered then Some (- ENODEV, 0, s)
        else (case access_mode s of
                ClientAccess \<Rightarrow> access_client_read L dev (nat cpu_id) reg s
              | DirectAccess \<Rightarrow> access_x86_read L K dev (nat cpu_id) reg s
              | NoAccess \<Rightarrow> None) })"

definition HPMwrite ::
  "'w link_ops \<Rightarrow> 'w kernel_ops \<Rightarrow> int \<Rightarrow> u32 \<Rightarrow> u32 \<Rightarrow> u64 \<Rightarrow> 'w hpm \<Rightarrow> (int \<times> 'w hpm) option" where
  "HPMwrite L K cpu_id dev reg data s =
     (if MAX_NUM_PCI_DEVICES \<le> unat dev then Some (- EFAULT, s)
      else if cpu_id < 0 \<or> int (topo_numHWThreads s) \<le> cpu_id then Some (- ERANGE, s)
      else do {
        registered \<leftarrow> arr_get (registeredCpuList s) cpu_id;
        if \<not> registered then Some (- ENODEV, s)
        else (case access_mode s of
                ClientAccess \<Rightarrow> access_client_write L dev (nat cpu_id) reg data s
              | DirectAccess \<Rightarrow> access_x86_write K dev (nat cpu_id) reg data s
              | NoAccess \<Rightarrow> None) })"

definition HPMcheck :: "'w link_ops \<Rightarrow> u32 \<Rightarrow> int \<Rightarrow> 'w hpm \<Rightarrow> (int \<times> 'w hpm) option" where
  "HPMcheck L dev cpu_id s = do {
     registered \<leftarrow> arr_get (registeredCpuList s) cpu_id;
     if \<not> registered then Some (- ENODEV, s)
     else (case access_mode s of
             ClientAccess \<Rightarrow> access_client_check L dev (nat cpu_id) s
           | DirectAccess \<Rightarrow> map_option (\<lambda>r. (r, s)) (access_x86_check dev (nat cpu_id) s)
           | NoAccess \<Rightarrow> None) }"

section \<open>The link to the daemons\<close>

text \<open>
  The world of the client: a map from connected sockets to the daemons behind them, and the kernel
  they share. An exchange is one step of the daemon.
\<close>

type_synonym 'k daemons = "(int \<rightharpoonup> daemon) \<times> int \<times> 'k"

definition daemon_link :: "'k kernel_ops \<Rightarrow> nat \<Rightarrow> u32 \<Rightarrow> 'k daemons link_ops" where
  "daemon_link K numHWThreads eax = \<lparr>
     lk_start = (\<lambda>cpu (ds, next, k).
       case daemon_start K numHWThreads eax 3 4 k of
         Some (Some (d, k')) \<Rightarrow> Some (next, (ds(next \<mapsto> d), next + 1, k'))
       | _ \<Rightarrow> None),
     lk_exchange = (\<lambda>fd r (ds, next, k).
       case ds fd of
         None \<Rightarrow> None
       | Some d \<Rightarrow>
           (case daemon_step K d (ReadRecord r) k of
              Some (Replied r', d', k') \<Rightarrow> Some (r', (ds(fd \<mapsto> d'), next, k'))
            | _ \<Rightarrow> None)),
     lk_exit = (\<lambda>fd r (ds, next, k). (ds(fd := None), next, k)),
     lk_rdpmc = (\<lambda>cpu i w. (0, w)),
     lk_test_rdpmc = (\<lambda>cpu i w. (0, w))\<rparr>"

text \<open>The same kernel, for the process of the client.\<close>

definition world_kernel :: "'k kernel_ops \<Rightarrow> 'k daemons kernel_ops" where
  "world_kernel K = \<lparr>
     sys_open = (\<lambda>p (ds, nx, k). let (fd, k') = sys_open K p k in (fd, (ds, nx, k'))),
     sys_close = (\<lambda>fd (ds, nx, k). (ds, nx, sys_close K fd k)),
     sys_pread = (\<lambda>fd n r (ds, nx, k). let (v, k') = sys_pread K fd n r k in (v, (ds, nx, k'))),
     sys_pwrite = (\<lambda>fd n r w (ds, nx, k). let (b, k') = sys_pwrite K fd n r w k in (b, (ds, nx, k'))),
     sys_send = (\<lambda>fd m (ds, nx, k). let (b, k') = sys_send K fd m k in (b, (ds, nx, k')))\<rparr>"

end
