(* ===== verification/Access_Properties.thy ===== *)
theory Access_Properties
  imports Access
begin

text \<open>
  Properties of register access. Through the whole stack (the interface, the client, the daemon and
  the kernel) the registers of the allow-list behave like a register file; direct access to PCI
  devices does not work; the registration of processors is counted correctly.
\<close>

section \<open>Registers as a register file\<close>

text \<open>
  What a client of the access layer relies on: accessible registers can be read and written, and a
  write changes that register of that processor only.
\<close>

locale register_access =
  fixes inv :: "'s \<Rightarrow> bool"
    and acc :: "'s \<Rightarrow> nat \<Rightarrow> u32 \<Rightarrow> bool"
    and regs :: "'s \<Rightarrow> nat \<Rightarrow> u32 \<Rightarrow> u64"
    and hread :: "nat \<Rightarrow> u32 \<Rightarrow> 's \<Rightarrow> (int \<times> u64 \<times> 's) option"
    and hwrite :: "nat \<Rightarrow> u32 \<Rightarrow> u64 \<Rightarrow> 's \<Rightarrow> (int \<times> 's) option"
  assumes read_law: "\<lbrakk>inv s; acc s c r\<rbrakk> \<Longrightarrow> hread c r s = Some (0, regs s c r, s)"
    and write_law: "\<lbrakk>inv s; acc s c r\<rbrakk> \<Longrightarrow>
      \<exists>s'. hwrite c r v s = Some (0, s') \<and> inv s' \<and> acc s' = acc s \<and>
        (\<forall>c' r'. acc s c' r' \<longrightarrow> regs s' c' r' = (if c' = c \<and> r' = r then v else regs s c' r'))"
begin

lemma write_then_read:
  assumes "inv s" "acc s c r"
  shows "\<exists>s'. hwrite c r v s = Some (0, s') \<and> inv s' \<and> acc s' = acc s \<and> hread c r s' = Some (0, v, s')"
  using write_law [OF assms, of v] assms(2) read_law by fastforce

lemma write_keeps_others:
  assumes "inv s" "acc s c r" "acc s c' r'" "(c', r') \<noteq> (c, r)"
  shows "\<exists>s'. hwrite c r v s = Some (0, s') \<and> hread c' r' s' = Some (0, regs s c' r', s')"
  using write_law [OF assms(1,2), of v] assms(3,4) read_law by fastforce

end

text \<open>The documented behaviour of the MSR device files, on the registers the kernel state \<open>mem\<close> stores.\<close>

locale msr_kernel =
  fixes K :: "'k kernel_ops"
    and mem :: "'k \<Rightarrow> int \<Rightarrow> u32 \<Rightarrow> u64"
    and numHWThreads :: nat
    and eax :: u32
  assumes pread_law: "sys_pread K fd 8 r k = (Some (mem k fd r), k)"
    and pwrite_law: "\<exists>k'. sys_pwrite K fd 8 r v k = (8, k') \<and> mem k' = (mem k)(fd := (mem k fd)(r := v))"
    and send_law: "sys_send K fd m k = (True, k)"

definition stack_fd :: "'k daemons hpm \<Rightarrow> nat \<Rightarrow> int option" where
  "stack_fd s c = do {
     sock \<leftarrow> client_socket (client s) c;
     d \<leftarrow> fst (world s) sock;
     arr_get (FD_MSR d) (int c) }"

definition stack_acc :: "'k daemons hpm \<Rightarrow> nat \<Rightarrow> u32 \<Rightarrow> bool" where
  "stack_acc s c r \<longleftrightarrow> c < topo_numHWThreads s \<and> arr_get (registeredCpuList s) (int c) = Some True \<and>
     (\<exists>sock d fd. client_socket (client s) c = Some sock \<and> sock \<noteq> - 1 \<and> fst (world s) sock = Some d \<and>
        arr_get (FD_MSR d) (int c) = Some fd \<and> 0 < fd \<and> allowed d r)"

definition stack_inv :: "'k daemons hpm \<Rightarrow> bool" where
  "stack_inv s \<longleftrightarrow> access_mode s = ClientAccess \<and> cpuSockets_open (client s) \<noteq> 0 \<and>
     topo_numHWThreads s \<le> MAX_NUM_THREADS \<and>
     (\<forall>c c' fd. stack_fd s c = Some fd \<and> stack_fd s c' = Some fd \<and> 0 < fd \<longrightarrow> c = c')"

definition stack_regs :: "('k \<Rightarrow> int \<Rightarrow> u32 \<Rightarrow> u64) \<Rightarrow> 'k daemons hpm \<Rightarrow> nat \<Rightarrow> u32 \<Rightarrow> u64" where
  "stack_regs mem s c r = mem (snd (snd (world s))) (the (stack_fd s c)) r"

lemma uint_cpu: "c < MAX_NUM_THREADS \<Longrightarrow> uint (of_nat c :: u32) = int c"
  by (simp add: MAX_NUM_THREADS_def unsigned_of_nat take_bit_nat_eq_self)

text \<open>One exchange with the daemon for a readable and writable register.\<close>

lemma stack_read:
  assumes "stack_inv s" "stack_acc s c r"
    and "\<And>fd. sys_pread K fd 8 r k = (Some (mem k fd r), k)" "\<And>fd m. sys_send K fd m k = (True, k)"
    and "k = snd (snd (world s))"
  shows "HPMread (daemon_link K n eax) (world_kernel K) (int c) MSR_DEV r s = Some (0, stack_regs mem s c r, s)"
proof -
  obtain sock d fd where a: "client_socket (client s) c = Some sock" "sock \<noteq> - 1" "fst (world s) sock = Some d"
      "arr_get (FD_MSR d) (int c) = Some fd" "0 < fd" "allowed d r" "c < topo_numHWThreads s"
      "arr_get (registeredCpuList s) (int c) = Some True"
    using assms(2) by (auto simp: stack_acc_def)
  have m: "access_mode s = ClientAccess" "cpuSockets_open (client s) \<noteq> 0" "topo_numHWThreads s \<le> MAX_NUM_THREADS"
    using assms(1) by (auto simp: stack_inv_def)
  have u: "uint (of_nat c :: u32) = int c" using a(7) m(3) by (intro uint_cpu) simp
  obtain ds nx where w: "world s = (ds, nx, k)" using assms(5) by (cases "world s") auto
  let ?r = "\<lparr>ad_cpu = of_nat c, ad_reg = r, ad_data = 0, ad_device = MSR_DEV, ad_type = DAEMON_READ, ad_errorcode = ERR_NOERROR\<rparr>"
  have st: "daemon_step K d (ReadRecord ?r) k = Some (Replied (?r\<lparr>ad_data := mem k fd r\<rparr>), d, k)"
    using a(4,5,6) u assms(3,4) by (simp add: daemon_step_def handle_record_def msr_read_def)
  have "ds(sock \<mapsto> d) = ds" using a(3) w by (simp add: fun_upd_idem)
  then have ex: "lk_exchange (daemon_link K n eax) sock ?r (world s) = Some (?r\<lparr>ad_data := mem k fd r\<rparr>, world s)"
    using a(3) w st by (simp add: daemon_link_def)
  have "stack_fd s c = Some fd" using a by (simp add: stack_fd_def)
  then have "stack_regs mem s c r = mem k fd r" using w by (simp add: stack_regs_def)
  then show ?thesis
    using a(1,2,7,8) m ex
    by (simp add: HPMread_def access_client_read_def request_cpu_def MAX_NUM_PCI_DEVICES_def)
qed

lemma stack_write:
  assumes "stack_inv s" "stack_acc s c r"
    and "\<And>fd. sys_pwrite K fd 8 r v k = (8, k1 fd)" "\<And>fd m k. sys_send K fd m k = (True, k)"
    and "k = snd (snd (world s))"
  shows "HPMwrite (daemon_link K n eax) (world_kernel K) (int c) MSR_DEV r v s =
    Some (0, s\<lparr>world := (fst (world s), fst (snd (world s)), k1 (the (stack_fd s c)))\<rparr>)"
proof -
  obtain sock d fd where a: "client_socket (client s) c = Some sock" "sock \<noteq> - 1" "fst (world s) sock = Some d"
      "arr_get (FD_MSR d) (int c) = Some fd" "0 < fd" "allowed d r" "c < topo_numHWThreads s"
      "arr_get (registeredCpuList s) (int c) = Some True"
    using assms(2) by (auto simp: stack_acc_def)
  have m: "access_mode s = ClientAccess" "cpuSockets_open (client s) \<noteq> 0" "topo_numHWThreads s \<le> MAX_NUM_THREADS"
    using assms(1) by (auto simp: stack_inv_def)
  have u: "uint (of_nat c :: u32) = int c" using a(7) m(3) by (intro uint_cpu) simp
  obtain ds nx where w: "world s = (ds, nx, k)" using assms(5) by (cases "world s") auto
  let ?r = "\<lparr>ad_cpu = of_nat c, ad_reg = r, ad_data = v, ad_device = MSR_DEV, ad_type = DAEMON_WRITE, ad_errorcode = ERR_NOERROR\<rparr>"
  have st: "daemon_step K d (ReadRecord ?r) k = Some (Replied (?r\<lparr>ad_data := 0\<rparr>), d, k1 fd)"
    using a(4,5,6) u assms(3,4) by (simp add: daemon_step_def handle_record_def msr_write_def)
  have "ds(sock \<mapsto> d) = ds" using a(3) w by (simp add: fun_upd_idem)
  then have ex: "lk_exchange (daemon_link K n eax) sock ?r (world s) = Some (?r\<lparr>ad_data := 0\<rparr>, (ds, nx, k1 fd))"
    using a(3) w st by (simp add: daemon_link_def)
  have "stack_fd s c = Some fd" using a by (simp add: stack_fd_def)
  then have "(ds, nx, k1 fd) = (fst (world s), fst (snd (world s)), k1 (the (stack_fd s c)))" using w by simp
  then show ?thesis
    using a(1,2,7,8) m ex
    by (simp add: HPMwrite_def access_client_write_def request_cpu_def MAX_NUM_PCI_DEVICES_def)
qed

lemma stack_world:
  "stack_fd (s\<lparr>world := (fst (world s), x, k')\<rparr>) = stack_fd s"
  "stack_inv (s\<lparr>world := (fst (world s), x, k')\<rparr>) = stack_inv s"
  "stack_acc (s\<lparr>world := (fst (world s), x, k')\<rparr>) = stack_acc s"
  by (simp_all add: fun_eq_iff stack_fd_def stack_inv_def stack_acc_def)

lemma stack_acc_fd: "stack_acc s c r \<Longrightarrow> \<exists>fd. stack_fd s c = Some fd \<and> 0 < fd"
  by (auto simp: stack_acc_def stack_fd_def)

sublocale msr_kernel \<subseteq> hp: register_access stack_inv stack_acc "stack_regs mem"
  "\<lambda>c r. HPMread (daemon_link K numHWThreads eax) (world_kernel K) (int c) MSR_DEV r"
  "\<lambda>c r v. HPMwrite (daemon_link K numHWThreads eax) (world_kernel K) (int c) MSR_DEV r v"
proof
  fix s :: "'k daemons hpm" and c r v
  assume inv: "stack_inv s" "stack_acc s c r"
  let ?k = "snd (snd (world s))"
  show "HPMread (daemon_link K numHWThreads eax) (world_kernel K) (int c) MSR_DEV r s = Some (0, stack_regs mem s c r, s)"
    by (rule stack_read [OF inv]) (simp_all add: pread_law send_law)
  obtain k1 where k1: "\<And>fd. sys_pwrite K fd 8 r v ?k = (8, k1 fd)"
      "\<And>fd. mem (k1 fd) = (mem ?k)(fd := (mem ?k fd)(r := v))"
    using pwrite_law [of _ r v ?k] by metis
  obtain fd where fd: "stack_fd s c = Some fd" "0 < fd" using stack_acc_fd [OF inv(2)] by blast
  let ?s = "s\<lparr>world := (fst (world s), fst (snd (world s)), k1 fd)\<rparr>"
  have "HPMwrite (daemon_link K numHWThreads eax) (world_kernel K) (int c) MSR_DEV r v s = Some (0, ?s)"
    using stack_write [OF inv k1(1) send_law refl, where n = numHWThreads and eax = eax] fd by simp
  moreover have "stack_regs mem ?s c' r' = (if c' = c \<and> r' = r then v else stack_regs mem s c' r')"
    if other: "stack_acc s c' r'" for c' r'
  proof -
    obtain fd' where fd': "stack_fd s c' = Some fd'" "0 < fd'" using stack_acc_fd [OF other] by blast
    then have "fd' = fd \<longleftrightarrow> c' = c" using inv(1) fd by (auto simp: stack_inv_def)
    then show ?thesis using fd fd' k1(2) by (auto simp: stack_regs_def stack_world)
  qed
  ultimately show "\<exists>s'. HPMwrite (daemon_link K numHWThreads eax) (world_kernel K) (int c) MSR_DEV r v s = Some (0, s') \<and>
      stack_inv s' \<and> stack_acc s' = stack_acc s \<and>
      (\<forall>c' r'. stack_acc s c' r' \<longrightarrow> stack_regs mem s' c' r' = (if c' = c \<and> r' = r then v else stack_regs mem s c' r'))"
    using inv(1) by (intro exI [of _ ?s]) (simp add: stack_world)
qed

context msr_kernel
begin

lemma stack_write_read:
  assumes "stack_inv s" "stack_acc s c r"
  shows "\<exists>s'. HPMwrite (daemon_link K numHWThreads eax) (world_kernel K) (int c) MSR_DEV r v s = Some (0, s') \<and>
    HPMread (daemon_link K numHWThreads eax) (world_kernel K) (int c) MSR_DEV r s' = Some (0, v, s') \<and>
    (\<forall>c' r'. stack_acc s c' r' \<and> (c', r') \<noteq> (c, r) \<longrightarrow>
       HPMread (daemon_link K numHWThreads eax) (world_kernel K) (int c') MSR_DEV r' s' =
       Some (0, stack_regs mem s c' r', s'))"
  using hp.write_then_read [OF assms, of v] hp.write_keeps_others [OF assms, of _ _ v] by fastforce

end

section \<open>The stack on a concrete register file\<close>

text \<open>A kernel whose state is the content of the registers, with one MSR file per hardware thread.\<close>

definition reg_kernel :: "(int \<Rightarrow> u32 \<Rightarrow> u64) kernel_ops" where
  "reg_kernel = \<lparr>
     sys_open = (\<lambda>p k. (if p = ''/dev/cpu/0/msr'' then 10 else if p = ''/dev/cpu/1/msr'' then 11 else - 1, k)),
     sys_close = (\<lambda>fd k. k),
     sys_pread = (\<lambda>fd n r k. (Some (k fd r), k)),
     sys_pwrite = (\<lambda>fd n r w k. (int n, k(fd := (k fd)(r := w)))),
     sys_send = (\<lambda>fd m k. (True, k))\<rparr>"

interpretation rk: msr_kernel reg_kernel "\<lambda>k. k" 2 "0x306C3"
  by unfold_locales (auto simp: reg_kernel_def)

definition stack_daemon :: daemon where
  "stack_daemon = demo_daemon\<lparr>sockfd := 3, connfd := 4, FD_MSR := (replicate MAX_NUM_THREADS (- 1))[0 := 10, 1 := 11]\<rparr>"

definition stack_start :: "(int \<Rightarrow> u32 \<Rightarrow> u64) daemons hpm" where
  "stack_start = \<lparr>daemonMode = - 1, access_mode = NoAccess, registeredCpus = 0,
     registeredCpuList = replicate MAX_NUM_THREADS False, topo_numHWThreads = 2, supportUncore = False,
     affinity_core2node_lookup = replicate MAX_NUM_THREADS 0,
     client = \<lparr>cpuSockets = replicate MAX_NUM_THREADS (- 1), cpuSockets_open = 0, globalSocket = - 1\<rparr>,
     direct = \<lparr>MSR_FD = replicate MAX_NUM_THREADS (- 1), rdpmc_works_pmc = - 1, rdpmc_works_fixed = - 1,
       PCI_FD = [], pci_socket_bus = [], pci_devs = []\<rparr>,
     world = (Map.empty, 7, \<lambda>fd r. 0)\<rparr>"

definition stack_ready :: "(int \<Rightarrow> u32 \<Rightarrow> u64) daemons hpm" where
  "stack_ready = stack_start\<lparr>daemonMode := 1, access_mode := ClientAccess, registeredCpus := 1,
     registeredCpuList := (replicate MAX_NUM_THREADS False)[0 := True],
     client := \<lparr>cpuSockets = (replicate MAX_NUM_THREADS (- 1))[0 := 7], cpuSockets_open = 1, globalSocket = 7\<rparr>,
     world := ([7 \<mapsto> stack_daemon], 8, \<lambda>fd r. 0)\<rparr>"

lemma stack_daemon_start:
  "daemon_start reg_kernel 2 0x306C3 3 4 k = Some (Some (stack_daemon, k))"
proof -
  have u: "[0..<2] = [0, 1 :: nat]" by (simp add: upt_rec)
  show ?thesis
    by (simp add: daemon_start_def select_policy_def cpuid_family_def cpuid_model_def stack_daemon_def demo_daemon_def
        daemon_initial_def reg_kernel_def dec_string_zero dec_string_one [simplified] u MAX_NUM_THREADS_def)
qed

lemma stack_ready_reached:
  "HPMaddThread (daemon_link reg_kernel 2 0x306C3) (world_kernel reg_kernel) pciInit 0 (snd (HPMinit stack_start)) =
     Some (0, stack_ready)"
  by (simp add: HPMinit_def stack_start_def HPMaddThread_def access_client_init_def arr_get_def arr_set_def
      daemon_link_def stack_daemon_start stack_ready_def MAX_NUM_THREADS_def)

lemma stack_ready_socket: "client_socket (client stack_ready) c = (if c < MAX_NUM_THREADS then Some 7 else None)"
  by (auto simp: client_socket_def stack_ready_def arr_get_def nth_list_update bind_eq_None_conv)

lemma stack_ready_fd: "stack_fd stack_ready c = Some fd \<and> 0 < fd \<longleftrightarrow> c = 0 \<and> fd = 10 \<or> c = 1 \<and> fd = 11"
proof -
  have "fst (world stack_ready) 7 = Some stack_daemon" by (simp add: stack_ready_def)
  then have "stack_fd stack_ready c =
      (if c < MAX_NUM_THREADS then Some ((replicate MAX_NUM_THREADS (- 1))[0 := 10, 1 := 11] ! c) else None)"
    by (simp add: stack_fd_def stack_ready_socket stack_daemon_def arr_get_def)
  then show ?thesis by (auto simp: nth_list_update MAX_NUM_THREADS_def split: if_splits)
qed

lemma stack_ready_inv: "stack_inv stack_ready"
proof -
  have "\<forall>c c' fd. stack_fd stack_ready c = Some fd \<and> stack_fd stack_ready c' = Some fd \<and> 0 < fd \<longrightarrow> c = c'"
    using stack_ready_fd by (metis numeral_eq_iff semiring_norm(86,88,90))
  then show ?thesis
    by (simp add: stack_inv_def) (simp add: stack_ready_def stack_start_def MAX_NUM_THREADS_def)
qed

lemma stack_ready_acc: "allowed_haswell r \<Longrightarrow> stack_acc stack_ready 0 r"
  using stack_ready_socket [of 0]
  by (simp add: stack_acc_def) (simp add: stack_ready_def stack_start_def stack_daemon_def demo_daemon_def arr_get_def MAX_NUM_THREADS_def)

text \<open>
  Property C19. Through the interface, the client, the daemon and the MSR files, a write to an
  accessible register succeeds, reading it back returns the written value, and every other
  accessible register of every processor keeps its value.
\<close>

theorem hpm_write_read:
  assumes "msr_kernel K mem" "stack_inv s" "stack_acc s c r"
  shows "\<exists>s'. HPMwrite (daemon_link K numHWThreads eax) (world_kernel K) (int c) MSR_DEV r v s = Some (0, s') \<and>
    HPMread (daemon_link K numHWThreads eax) (world_kernel K) (int c) MSR_DEV r s' = Some (0, v, s') \<and>
    (\<forall>c' r'. stack_acc s c' r' \<and> (c', r') \<noteq> (c, r) \<longrightarrow>
       HPMread (daemon_link K numHWThreads eax) (world_kernel K) (int c') MSR_DEV r' s' =
       Some (0, stack_regs mem s c' r', s'))"
  by (rule msr_kernel.stack_write_read [OF assms])

theorem hpm_write_read_witness:
  "\<exists>s'. HPMwrite (daemon_link reg_kernel 2 0x306C3) (world_kernel reg_kernel) (int 0) MSR_DEV 0x186 42 stack_ready = Some (0, s') \<and>
     HPMread (daemon_link reg_kernel 2 0x306C3) (world_kernel reg_kernel) (int 0) MSR_DEV 0x186 s' = Some (0, 42, s')"
proof -
  have "stack_acc stack_ready 0 0x186" by (rule stack_ready_acc) (simp add: msr_policy_defs)
  from hpm_write_read [OF rk.msr_kernel_axioms stack_ready_inv this] show ?thesis by blast
qed

section \<open>Direct access to PCI devices\<close>

text \<open>
  In direct mode, a read of a PCI device for a processor of socket 0 fails with
  \<open>-ENODEV\<close> even when the device is available: socket and device are exchanged in the call, and
  device 0 is rejected.
\<close>

theorem direct_pci_read_socket0:
  assumes "access_mode s = DirectAccess" "dev \<noteq> MSR_DEV" "unat dev < MAX_NUM_PCI_DEVICES"
    and "0 \<le> cpu" "cpu < int (topo_numHWThreads s)" "arr_get (registeredCpuList s) cpu = Some True"
    and "arr_get (affinity_core2node_lookup s) cpu = Some 0"
    and "access_x86_pci_check dev 0 s = Some True"
  shows "HPMread L K cpu dev reg s = Some (- ENODEV, 0, s)"
  using assms by (simp add: HPMread_def access_x86_read_def access_x86_pci_read_def)

definition direct_demo :: "unit hpm" where
  "direct_demo = \<lparr>daemonMode = 0, access_mode = DirectAccess, registeredCpus = 1, registeredCpuList = [True],
     topo_numHWThreads = 1, supportUncore = True, affinity_core2node_lookup = [0],
     client = \<lparr>cpuSockets = [], cpuSockets_open = 0, globalSocket = - 1\<rparr>,
     direct = \<lparr>MSR_FD = [3], rdpmc_works_pmc = 0, rdpmc_works_fixed = 0, PCI_FD = [replicate 25 0],
       pci_socket_bus = [''7f/''], pci_devs = replicate 25 (pci_zero\<lparr>pci_online := True\<rparr>)\<rparr>,
     world = ()\<rparr>"

theorem direct_pci_read_socket0_witness:
  "\<forall>L K. HPMread L K 0 5 0xF4 direct_demo = Some (- ENODEV, 0, direct_demo)"
proof (intro allI)
  fix L and K :: "unit kernel_ops"
  show "HPMread L K 0 5 0xF4 direct_demo = Some (- ENODEV, 0, direct_demo)"
    by (rule direct_pci_read_socket0)
      (simp_all add: direct_demo_def MAX_NUM_PCI_DEVICES_def arr_get_def access_x86_pci_check_def)
qed

section \<open>Registration of processors\<close>

definition registered_count :: "'w hpm \<Rightarrow> bool" where
  "registered_count s \<longleftrightarrow> registeredCpus s = int (length (filter (\<lambda>b. b) (registeredCpuList s)))"

lemma filter_update_count:
  "i < length xs \<Longrightarrow> int (length (filter (\<lambda>b. b) (xs[i := v]))) =
     int (length (filter (\<lambda>b. b) xs)) + (if v then 1 else 0) - (if xs ! i then 1 else 0)"
proof -
  assume i: "i < length xs"
  have "filter (\<lambda>b. b) xs = filter (\<lambda>b. b) (take i xs) @ filter (\<lambda>b. b) [xs ! i] @ filter (\<lambda>b. b) (drop (Suc i) xs)"
    by (subst id_take_nth_drop [OF i]) simp
  moreover have "filter (\<lambda>b. b) (xs[i := v]) = filter (\<lambda>b. b) (take i xs) @ filter (\<lambda>b. b) [v] @ filter (\<lambda>b. b) (drop (Suc i) xs)"
    by (subst upd_conv_take_nth_drop [OF i]) simp
  ultimately show ?thesis by simp
qed

lemma client_init_keeps:
  "access_client_init L cpu s = Some (ret, s') \<Longrightarrow>
     ret = 0 \<and> registeredCpus s' = registeredCpus s \<and> registeredCpuList s' = registeredCpuList s \<and>
     access_mode s' = access_mode s \<and> topo_numHWThreads s' = topo_numHWThreads s"
  by (auto simp: access_client_init_def bind_Some_iff Let_def split: if_splits)

text \<open>
  In daemon mode, adding a processor that exists registers it and keeps the number of
  registered processors equal to the number of marked entries, also when it is added again.
\<close>

theorem HPMaddThread_registers:
  assumes "access_mode s = ClientAccess" "registered_count s"
    and "HPMaddThread L K pciInit cpu s = Some (ret, s')"
  shows "ret = 0 \<and> registered_count s' \<and> arr_get (registeredCpuList s') (int cpu) = Some True"
proof -
  obtain b where b: "arr_get (registeredCpuList s) (int cpu) = Some b"
    using assms(3) by (auto simp: HPMaddThread_def bind_Some_iff)
  show ?thesis
  proof (cases b)
    case True
    then show ?thesis using assms b by (simp add: HPMaddThread_def)
  next
    case False
    then obtain r1 s1 regs where s1: "access_client_init L cpu s = Some (r1, s1)"
        "arr_set (registeredCpuList s1) (int cpu) True = Some regs"
        "ret = 0" "s' = s1\<lparr>registeredCpus := registeredCpus s1 + 1, registeredCpuList := regs\<rparr>"
      using assms b client_init_keeps
      by (fastforce simp: HPMaddThread_def bind_Some_iff split: if_splits)
    then show ?thesis
      using client_init_keeps [OF s1(1)] b False assms(2)
      by (auto simp: registered_count_def arr_set_def arr_get_def filter_update_count split: if_splits)
  qed
qed

lemma stack_start_count: "registered_count stack_start"
  by (simp add: registered_count_def stack_start_def)

theorem HPMaddThread_registers_witness:
  "registered_count stack_ready \<and> arr_get (registeredCpuList stack_ready) (int 0) = Some True"
proof -
  have "access_mode (snd (HPMinit stack_start)) = ClientAccess" "registered_count (snd (HPMinit stack_start))"
    using stack_start_count by (simp_all add: HPMinit_def stack_start_def registered_count_def)
  from HPMaddThread_registers [OF this stack_ready_reached] show ?thesis by blast
qed

end
