(* ===== verification/Perfmon_Arch.thy ===== *)
theory Perfmon_Arch
  imports Perfmon_Options BitUtil
begin

text \<open>
  What the architecture modules of the performance monitoring module (\<open>src/src/includes/perfmon_*.h\<close>)
  share: the tables of an architecture, the registers they program through the access layer, the
  cached configuration \<open>currentConfig\<close>, the error macros of \<open>error.h\<close>, and the loop over the events of a
  group. The access layer is a parameter \<open>'m hpm_ops\<close>; \<open>hp_errno\<close> is the value of \<open>errno\<close>.
\<close>

section \<open>Environment\<close>

record 'm hpm_ops =
  hp_read :: "int \<Rightarrow> u32 \<Rightarrow> u32 \<Rightarrow> 'm \<Rightarrow> (int \<times> u64 \<times> 'm) option"
  hp_write :: "int \<Rightarrow> u32 \<Rightarrow> u32 \<Rightarrow> u64 \<Rightarrow> 'm \<Rightarrow> (int \<times> 'm) option"
  hp_check :: "u32 \<Rightarrow> int \<Rightarrow> 'm \<Rightarrow> (int \<times> 'm) option"
  hp_errno :: "'m \<Rightarrow> int"
  hp_init :: "'m \<Rightarrow> int \<times> 'm"
  hp_addThread :: "int \<Rightarrow> 'm \<Rightarrow> (int \<times> 'm) option"
  hp_finalize :: "'m \<Rightarrow> 'm option"

text \<open>The tables that \<open>perfmon_init_maps\<close> selects; \<open>box_map\<close> may be NULL.\<close>

record arch_tables =
  counter_map :: "RegisterMap list"
  box_map :: "BoxMap list option"
  eventHash :: "PerfmonEvent list"

definition NUM_PMC :: nat where
  "NUM_PMC = 205"

text \<open>The registers and the configuration that was last written to each control register.\<close>

record 'm pm_state =
  machine :: 'm
  currentConfig :: "nat \<Rightarrow> nat \<Rightarrow> u64"

definition config_get :: "int \<Rightarrow> nat \<Rightarrow> 'm pm_state \<Rightarrow> u64 option" where
  "config_get cpu_id index a =
     (if 0 \<le> cpu_id \<and> cpu_id < int MAX_NUM_THREADS \<and> index < NUM_PMC
      then Some (currentConfig a (nat cpu_id) index) else None)"

definition config_set :: "int \<Rightarrow> nat \<Rightarrow> u64 \<Rightarrow> 'm pm_state \<Rightarrow> 'm pm_state option" where
  "config_set cpu_id index flags a =
     (if 0 \<le> cpu_id \<and> cpu_id < int MAX_NUM_THREADS \<and> index < NUM_PMC
      then Some (a\<lparr>currentConfig := (currentConfig a)(nat cpu_id := (currentConfig a (nat cpu_id))(index := flags))\<rparr>)
      else None)"

definition box_at :: "arch_tables \<Rightarrow> RegisterType \<Rightarrow> BoxMap option" where
  "box_at T type = do { boxes \<leftarrow> box_map T; arr_get boxes (int (register_number type)) }"

section \<open>Statements with an early return\<close>

text \<open>
  The outcome of the statements for one entry: \<^term>\<open>Some ret\<close> when they return from the function,
  \<^term>\<open>None\<close> when the loop goes on. The macros return \<open>errno\<close> when the call has a negative result.
\<close>

type_synonym ('e, 'a) outcome = "(int option \<times> 'e \<times> 'a) option"

definition CHECK_MSR_READ_ERROR ::
  "'m hpm_ops \<Rightarrow> int \<Rightarrow> u32 \<Rightarrow> u32 \<Rightarrow> 'e \<Rightarrow> (u64 \<Rightarrow> 'm pm_state \<Rightarrow> ('e, 'm pm_state) outcome) \<Rightarrow>
   'm pm_state \<Rightarrow> ('e, 'm pm_state) outcome" where
  "CHECK_MSR_READ_ERROR H cpu dev reg e rest a = do {
     (ret, v, m) \<leftarrow> hp_read H cpu dev reg (machine a);
     if ret < 0 then Some (Some (hp_errno H m), e, a\<lparr>machine := m\<rparr>)
     else rest v (a\<lparr>machine := m\<rparr>) }"

definition CHECK_MSR_WRITE_ERROR ::
  "'m hpm_ops \<Rightarrow> int \<Rightarrow> u32 \<Rightarrow> u32 \<Rightarrow> u64 \<Rightarrow> 'e \<Rightarrow> ('m pm_state \<Rightarrow> ('e, 'm pm_state) outcome) \<Rightarrow>
   'm pm_state \<Rightarrow> ('e, 'm pm_state) outcome" where
  "CHECK_MSR_WRITE_ERROR H cpu dev reg v e rest a = do {
     (ret, m) \<leftarrow> hp_write H cpu dev reg v (machine a);
     if ret < 0 then Some (Some (hp_errno H m), e, a\<lparr>machine := m\<rparr>)
     else rest (a\<lparr>machine := m\<rparr>) }"

text \<open>The loop over the first \<open>n\<close> events of a group; the statements of an event change that event only.\<close>

fun each_event ::
  "('e \<Rightarrow> 'a \<Rightarrow> ('e, 'a) outcome) \<Rightarrow> nat \<Rightarrow> 'e list \<Rightarrow> 'a \<Rightarrow> (int \<times> 'e list \<times> 'a) option" where
  "each_event body 0 es a = Some (0, es, a)"
| "each_event body (Suc n) [] a = None"
| "each_event body (Suc n) (e # es) a = do {
     (ret, e', a') \<leftarrow> body e a;
     (case ret of
        Some v \<Rightarrow> Some (v, e' # es, a')
      | None \<Rightarrow> do {
          (v, es', a'') \<leftarrow> each_event body n es a';
          Some (v, e' # es', a'') }) }"

definition each_group_event ::
  "(PerfmonEventSetEntry \<Rightarrow> 'a \<Rightarrow> (PerfmonEventSetEntry, 'a) outcome) \<Rightarrow> PerfmonEventSet \<Rightarrow> 'a \<Rightarrow>
   (int \<times> PerfmonEventSet \<times> 'a) option" where
  "each_group_event body eventSet a = do {
     (ret, es, a') \<leftarrow> each_event body (gs_numberOfEvents eventSet) (gs_events eventSet) a;
     Some (ret, eventSet\<lparr>gs_events := es\<rparr>, a') }"

section \<open>The counter of a thread\<close>

definition counter_get :: "nat \<Rightarrow> PerfmonEventSetEntry \<Rightarrow> PerfmonCounter option" where
  "counter_get thread_id e = do { cs \<leftarrow> es_threadCounter e; arr_get cs (int thread_id) }"

definition counter_set :: "nat \<Rightarrow> PerfmonCounter \<Rightarrow> PerfmonEventSetEntry \<Rightarrow> PerfmonEventSetEntry option" where
  "counter_set thread_id c e = do {
     cs \<leftarrow> es_threadCounter e;
     cs' \<leftarrow> arr_set cs (int thread_id) c;
     Some (e\<lparr>es_threadCounter := Some cs'\<rparr>) }"

definition type_in_set :: "PerfmonEventSet \<Rightarrow> RegisterType \<Rightarrow> bool" where
  "type_in_set eventSet type \<longleftrightarrow> gs_regTypeMask eventSet AND ucast (REG_TYPE_MASK type) \<noteq> 0"

text \<open>Setting an existing counter, as a total function.\<close>

definition with_counter :: "nat \<Rightarrow> PerfmonCounter \<Rightarrow> PerfmonEventSetEntry \<Rightarrow> PerfmonEventSetEntry" where
  "with_counter t c e = e\<lparr>es_threadCounter := map_option (\<lambda>cs. cs[t := c]) (es_threadCounter e)\<rparr>"

lemma counter_set_eq: "counter_get t e = Some c0 \<Longrightarrow> counter_set t c e = Some (with_counter t c e)"
  by (auto simp: counter_get_def counter_set_def with_counter_def bind_Some_iff arr_get_def arr_set_def split: if_splits)

lemma with_counter_get:
  "counter_get t e = Some c0 \<Longrightarrow> counter_get t (with_counter t c e) = Some c"
  by (auto simp: counter_get_def with_counter_def bind_Some_iff arr_get_def split: if_splits)

lemma with_counter_other: "t' \<noteq> t \<Longrightarrow> counter_get t' (with_counter t c e) = counter_get t' e"
  by (cases "es_threadCounter e") (auto simp: counter_get_def with_counter_def arr_get_def)

lemma with_counter_sel [simp]:
  "es_event (with_counter t c e) = es_event e" "es_index (with_counter t c e) = es_index e"
  "es_type (with_counter t c e) = es_type e"
  "with_counter t c (with_counter t c' e) = with_counter t c e"
  by (cases "es_threadCounter e"; simp add: with_counter_def)+

section \<open>The loop\<close>

text \<open>
  When no entry makes the loop return and \<open>J k\<close> describes the state after \<open>k\<close> entries, the loop ends with
  result 0, every used entry \<open>e\<close> replaced by \<open>f e\<close>.
\<close>

lemma each_event_invariant:
  assumes "n \<le> length es" "J 0 a"
    and "\<And>k a. \<lbrakk>k < n; J k a\<rbrakk> \<Longrightarrow> \<exists>a'. body (es ! k) a = Some (None, f (es ! k), a') \<and> J (Suc k) a'"
  shows "\<exists>a'. each_event body n es a = Some (0, map f (take n es) @ drop n es, a') \<and> J n a'"
  using assms
proof (induction n arbitrary: es J a)
  case (Suc n)
  then obtain e es' where es: "es = e # es'" by (cases es) auto
  obtain a1 where a1: "body e a = Some (None, f e, a1)" "J 1 a1"
    using Suc.prems(3) [of 0 a] Suc.prems(2) es by auto
  have "\<exists>a'. each_event body n es' a1 = Some (0, map f (take n es') @ drop n es', a') \<and> J (Suc n) a'"
    by (rule Suc.IH) (use Suc.prems(1,3) a1(2) es in fastforce)+
  then show ?case using a1 es by auto
qed simp

lemma each_group_event_invariant:
  assumes "gs_numberOfEvents g \<le> length (gs_events g)" "J 0 a"
    and "\<And>k a. \<lbrakk>k < gs_numberOfEvents g; J k a\<rbrakk> \<Longrightarrow>
      \<exists>a'. body (gs_events g ! k) a = Some (None, f (gs_events g ! k), a') \<and> J (Suc k) a'"
  shows "\<exists>a'. each_group_event body g a =
      Some (0, g\<lparr>gs_events := map f (take (gs_numberOfEvents g) (gs_events g)) @ drop (gs_numberOfEvents g) (gs_events g)\<rparr>, a') \<and>
    J (gs_numberOfEvents g) a'"
  using each_event_invariant [of _ _ J a body f, OF assms] by (auto simp: each_group_event_def)

end
