(* ===== verification/Perfmon.thy ===== *)
theory Perfmon
  imports Perfmon_Arch
begin

text \<open>
  The core of the performance monitoring module, \<open>src/src/perfmon.c\<close>: event groups and their life cycle
  (add, set up, start, read, stop, switch) and the results of the counters. The functions of the
  architecture, which the source calls through pointers, and its tables are the environment that
  \<open>perfmon_init_maps\<close> and \<open>perfmon_init_funcs\<close> select. Memory that was allocated and not yet written has the
  content the environment gives it. Allocation succeeds; output to the user is left out. The rounding of
  \<open>double\<close> is left out.
\<close>

section \<open>State and environment\<close>

type_synonym 'm thread_fun =
  "PerfmonThread list \<Rightarrow> nat \<Rightarrow> PerfmonEventSet \<Rightarrow> 'm pm_state \<Rightarrow> (int \<times> PerfmonEventSet \<times> 'm pm_state) option"

text \<open>The function pointers.\<close>

record 'm arch_funs =
  initThreadArch :: "int \<Rightarrow> 'm pm_state \<Rightarrow> (int \<times> 'm pm_state) option"
  perfmon_setupCountersThread :: "'m thread_fun"
  perfmon_startCountersThread :: "'m thread_fun"
  perfmon_stopCountersThread :: "'m thread_fun"
  perfmon_readCountersThread :: "'m thread_fun"
  perfmon_finalizeCountersThread :: "'m thread_fun"

text \<open>
  \<open>env_power_init\<close> and \<open>env_thermal_init\<close> are \<open>power_init\<close> and \<open>thermal_init\<close> where the architecture has them;
  \<open>energyUnits\<close> are the units of \<open>power_info.domains\<close>.
\<close>

record ('m, 'c) perfmon_env =
  hpm_funs :: "'m hpm_ops"
  arch_funs :: "'m arch_funs"
  tables :: arch_tables
  clocks :: "'c clock_ops"
  energyUnits :: "real list"
  getenv :: "string \<Rightarrow> string option"
  lock_check :: bool
  topology_known :: bool
  has_rdtscp :: bool
  env_power_init :: "int \<Rightarrow> 'm \<Rightarrow> 'm option"
  env_thermal_init :: "int \<Rightarrow> 'm \<Rightarrow> 'm option"
  fresh_group :: PerfmonEventSet
  fresh_entry :: PerfmonEventSetEntry
  fresh_counter :: PerfmonCounter
  fresh_thread :: PerfmonThread

record ('m, 'c) perfmon =
  perfmon_initialized :: bool
  groupSet :: "PerfmonGroupSet option"
  pm :: "'m pm_state"
  timers :: timer_state
  clock :: 'c
  perfmon_verbosity :: int

definition perfmon_setVerbosity :: "int \<Rightarrow> ('m, 'c) perfmon \<Rightarrow> ('m, 'c) perfmon" where
  "perfmon_setVerbosity level s = (if 0 \<le> level \<and> level \<le> 3 then s\<lparr>perfmon_verbosity := level\<rparr> else s)"

section \<open>The register of an event\<close>

definition no_config :: "RegisterType \<Rightarrow> bool" where
  "no_config type \<longleftrightarrow> type = THERMAL \<or> type = POWER \<or> type = WBOX0FIX"

text \<open>
  The test of the register of a core or uncore counter: it is read, an empty one is written, and one
  that is in use is cleared when forced and ends the process otherwise.
\<close>

definition test_register ::
  "'m hpm_ops \<Rightarrow> int \<Rightarrow> RegisterMap \<Rightarrow> RegisterType \<Rightarrow> int \<Rightarrow> 'm \<Rightarrow> (bool proc \<times> RegisterType \<times> 'm) option" where
  "test_register H testcpu rm type force m = do {
     let config = (ucast (rm_configRegister rm) :: u32);
     let reg = (if config = 0 then ucast (rm_counterRegister rm) else config);
     (err, tmp, m1) \<leftarrow> hp_read H testcpu (rm_device rm) reg m;
     (ret, type', check_settings, m2) \<leftarrow>
       (if err \<noteq> 0 then Some (False, NOTYPE, config \<noteq> 0, m1)
        else if tmp = 0 then do {
          (err', m') \<leftarrow> hp_write H testcpu (rm_device rm) reg 0 m1;
          if err' \<noteq> 0 then Some (False, NOTYPE, False, m') else Some (True, type, False, m') }
        else Some (True, type, config \<noteq> 0, m1));
     if check_settings \<and> tmp \<noteq> 0 then
       if force = 1 then do {
         (_, m3) \<leftarrow> hp_write H testcpu (rm_device rm) reg 0 m2;
         Some (Ret ret, type', m3) }
       else if force = 0 \<and> type' \<noteq> FIXED \<and> \<not> no_config type' then Some (Exit 0, type', m2)
       else Some (Ret ret, type', m2)
     else Some (Ret ret, type', m2) }"

text \<open>
  An unknown register leaves \<open>index\<close> as it was, and the table is read at that index. The result of \<open>HPMcheck\<close>
  is taken as a truth value.
\<close>

definition getIndexAndType ::
  "'m hpm_ops \<Rightarrow> RegisterMap list \<Rightarrow> PerfmonThread list \<Rightarrow> string \<Rightarrow> int \<Rightarrow> nat \<times> RegisterType \<Rightarrow> 'm \<Rightarrow>
   (bool proc \<times> (nat \<times> RegisterType) \<times> 'm) option" where
  "getIndexAndType H cm ts reg force it m = do {
     th \<leftarrow> arr_get ts 0;
     let (ret, index, type) =
       (case find (\<lambda>rm. rm_key rm = reg) cm of
          Some rm \<Rightarrow> (True, rm_index rm, rm_type rm)
        | None \<Rightarrow> (False, it));
     rm \<leftarrow> arr_get cm (int index);
     if ret \<and> rm_key rm \<noteq> reg then Some (Ret False, (index, NOTYPE), m)
     else do {
       (err, m1) \<leftarrow> hp_check H (rm_device rm) 0 m;
       if err = 0 then Some (Ret False, (index, NOTYPE), m1)
       else if ret \<and> \<not> no_config type then do {
         (r, type', m2) \<leftarrow> test_register H (th_processorId th) rm type force m1;
         Some (r, (index, type'), m2) }
       else if ret then do {
         (err', _, m2) \<leftarrow> hp_read H (th_processorId th) 0 (ucast (rm_counterRegister rm)) m1;
         if err' \<noteq> 0 then Some (Ret False, (index, NOTYPE), m2)
         else Some (Ret True, (index, type), m2) }
       else Some (Ret False, (index, NOTYPE), m1) } }"

section \<open>Adding a group\<close>

record add_state =
  ad_numberOfEvents :: nat
  ad_regTypeMask :: "128 word"
  ad_subtokens_freed :: bool

definition new_counters :: "('m, 'c) perfmon_env \<Rightarrow> nat \<Rightarrow> PerfmonCounter list" where
  "new_counters E n = replicate n ((fresh_counter E)\<lparr>pc_counterData := 0, pc_startData := 0, pc_fullData := 0,
     pc_overflows := 0, pc_init := False\<rparr>)"

text \<open>The checks of one event descriptor; a failed one marks the entry with \<open>NOTYPE\<close>.\<close>

definition check_event ::
  "('m, 'c) perfmon_env \<Rightarrow> PerfmonThread list \<Rightarrow> int \<Rightarrow> string list \<Rightarrow> PerfmonEventSetEntry \<Rightarrow> 'm \<Rightarrow>
   ((PerfmonEventSetEntry \<times> bool) proc \<times> 'm) option" where
  "check_event E ts force subtokens e m = do {
     let cm = counter_map (tables E);
     (r, (index, type), m1) \<leftarrow> getIndexAndType (hpm_funs E) cm ts (subtokens ! 1) force (es_index e, es_type e) m;
     case r of
       Exit n \<Rightarrow> Some (Exit n, m1)
     | Ret ok \<Rightarrow>
         (let e1 = e\<lparr>es_index := index, es_type := type\<rparr> in
          if \<not> ok then Some (Ret (e1\<lparr>es_type := NOTYPE\<rparr>, False), m1)
          else (case getEvent (eventHash (tables E)) (subtokens ! 0) (subtokens ! 1) of
                  None \<Rightarrow> Some (Ret (e1\<lparr>es_type := NOTYPE\<rparr>, False), m1)
                | Some ev \<Rightarrow>
                    if \<not> checkCounter (subtokens ! 1) (ev_limit ev)
                    then Some (Ret (e1\<lparr>es_event := ev, es_type := NOTYPE\<rparr>, False), m1)
                    else do {
                      rm \<leftarrow> arr_get cm (int index);
                      (n, ev') \<leftarrow> parseOptions subtokens ev (rm_optionMask rm);
                      Some (Ret (e1\<lparr>es_event := ev', es_type := (if n < 0 then NOTYPE else type)\<rparr>, n = - ERANGE), m1) })) }"

text \<open>
  One descriptor. One without a register is skipped and leaves its entry as it was allocated. Too many
  options make \<open>parseOptions\<close> free the list of tokens.
\<close>

definition add_event ::
  "('m, 'c) perfmon_env \<Rightarrow> PerfmonThread list \<Rightarrow> int \<Rightarrow> string \<Rightarrow> add_state \<Rightarrow> 'm \<Rightarrow>
   ((PerfmonEventSetEntry \<times> add_state) proc \<times> 'm) option" where
  "add_event E ts force token st m = do {
     let e = (fresh_entry E)\<lparr>es_threadCounter := None\<rparr>;
     let subtokens = bsplit CHR '':'' token;
     if length subtokens < 2 then Some (Ret (e, st\<lparr>ad_subtokens_freed := False\<rparr>), m)
     else do {
       (r, m') \<leftarrow> check_event E ts force subtokens e m;
       Some ((case r of
          Exit n \<Rightarrow> Exit n
        | Ret (e', freed) \<Rightarrow>
            Ret (e'\<lparr>es_threadCounter := Some (new_counters E (length ts))\<rparr>,
              st\<lparr>ad_numberOfEvents := ad_numberOfEvents st + 1,
                 ad_regTypeMask := ad_regTypeMask st OR ucast (REG_TYPE_MASK (es_type e')),
                 ad_subtokens_freed := freed\<rparr>)), m') } }"

fun add_events ::
  "('m, 'c) perfmon_env \<Rightarrow> PerfmonThread list \<Rightarrow> int \<Rightarrow> string list \<Rightarrow> add_state \<Rightarrow> 'm \<Rightarrow>
   ((PerfmonEventSetEntry list \<times> add_state) proc \<times> 'm) option" where
  "add_events E ts force [] st m = Some (Ret ([], st), m)"
| "add_events E ts force (token # tokens) st m = do {
     (r, m1) \<leftarrow> add_event E ts force token st m;
     case r of
       Exit n \<Rightarrow> Some (Exit n, m1)
     | Ret (e, st1) \<Rightarrow> do {
         (r2, m2) \<leftarrow> add_events E ts force tokens st1 m1;
         Some ((case r2 of Exit n \<Rightarrow> Exit n | Ret (es, st2) \<Rightarrow> Ret (e # es, st2)), m2) } }"

text \<open>The array of groups with an unused slot at \<open>numberOfActiveGroups\<close>.\<close>

definition slot_group :: "('m, 'c) perfmon_env \<Rightarrow> PerfmonGroupSet \<Rightarrow> PerfmonGroupSet" where
  "slot_group E gs =
     (let g0 = (fresh_group E)\<lparr>gs_rdtscTime := 0, gs_runTime := 0, gs_numberOfEvents := 0\<rparr> in
      if numberOfActiveGroups gs = 0 then gs\<lparr>groups := [g0], activeGroup := - 1\<rparr>
      else if numberOfActiveGroups gs = length (groups gs) then gs\<lparr>groups := groups gs @ [g0]\<rparr>
      else gs)"

definition perfmon_addEventSet ::
  "('m, 'c) perfmon_env \<Rightarrow> string option \<Rightarrow> ('m, 'c) perfmon \<Rightarrow> (int proc \<times> ('m, 'c) perfmon) option" where
  "perfmon_addEventSet E eventCString s =
     (if \<not> perfmon_initialized s then Some (Ret (- EINVAL), s)
      else (case (case eventCString of None \<Rightarrow> getenv E ''LIKWID_EVENTS'' | Some str \<Rightarrow> Some str) of
              None \<Rightarrow> Some (Ret (- EINVAL), s)
            | Some str \<Rightarrow>
                if CHR ''-'' \<in> set str \<or> CHR ''.'' \<in> set str then Some (Ret (- EINVAL), s)
                else do {
                  gs0 \<leftarrow> groupSet s;
                  let gs = slot_group E gs0;
                  let slot = numberOfActiveGroups gs;
                  g \<leftarrow> arr_get (groups gs) (int slot);
                  let tokens = bsplit CHR '','' str;
                  let force = (case getenv E ''LIKWID_FORCE'' of None \<Rightarrow> 0 | Some f \<Rightarrow> atoi f);
                  (r, m) \<leftarrow> add_events E (threads gs) force tokens
                    \<lparr>ad_numberOfEvents = 0, ad_regTypeMask = 0, ad_subtokens_freed = False\<rparr> (machine (pm s));
                  (case r of
                     Exit n \<Rightarrow> Some (Exit n, s\<lparr>pm := (pm s)\<lparr>machine := m\<rparr>\<rparr>)
                   | Ret (es, st) \<Rightarrow>
                       if ad_subtokens_freed st then None
                       else (let ok = (0 < ad_numberOfEvents st \<and> ad_regTypeMask st \<noteq> 0);
                                 g1 = g\<lparr>gs_events := es, gs_numberOfEvents := ad_numberOfEvents st, gs_regTypeMask := ad_regTypeMask st\<rparr>;
                                 g2 = (if ok then g1\<lparr>gs_state := STATE_NONE\<rparr> else g1);
                                 gs1 = gs\<lparr>groups := (groups gs)[slot := g2],
                                   numberOfActiveGroups := (if ok then slot + 1 else slot)\<rparr>
                             in Some (Ret (if ok then int slot else - EINVAL),
                                  s\<lparr>groupSet := Some gs1, pm := (pm s)\<lparr>machine := m\<rparr>\<rparr>))) }))"

section \<open>Results\<close>

text \<open>\<open>tmp |= (1ULL << i)\<close> for every \<open>i\<close> below the width.\<close>

fun max_value_loop :: "nat list \<Rightarrow> u64 \<Rightarrow> u64 option" where
  "max_value_loop [] tmp = Some tmp"
| "max_value_loop (i # is) tmp = do { b \<leftarrow> c_shl 1 (int i); max_value_loop is (tmp OR b) }"

definition perfmon_getMaxCounterValue :: "arch_tables \<Rightarrow> RegisterType \<Rightarrow> u64 option" where
  "perfmon_getMaxCounterValue T type = do {
     width \<leftarrow> (case box_map T of
                None \<Rightarrow> Some 48
              | Some boxes \<Rightarrow> map_option (\<lambda>b. if 0 < bm_regWidth b then unat (bm_regWidth b) else 48)
                                (arr_get boxes (int (register_number type))));
     max_value_loop [0..<width] 0 }"

text \<open>How many entries of the same type stand directly before the entry.\<close>

definition getCounterTypeOffset :: "RegisterMap list \<Rightarrow> nat \<Rightarrow> nat option" where
  "getCounterTypeOffset cm index = do {
     rm \<leftarrow> arr_get cm (int index);
     Some (length (takeWhile (\<lambda>j. rm_type (cm ! j) = rm_type rm) (rev [0..<index]))) }"

definition power_getEnergyUnit :: "real list \<Rightarrow> nat \<Rightarrow> real option" where
  "power_getEnergyUnit units domain = arr_get units (int domain)"

text \<open>The result of a counter; the number of overflows is decremented.\<close>

definition calculateResult ::
  "('m, 'c) perfmon_env \<Rightarrow> nat \<Rightarrow> PerfmonEventSetEntry \<Rightarrow> (real \<times> PerfmonEventSetEntry) option" where
  "calculateResult E threadId event = do {
     counter \<leftarrow> counter_get threadId event;
     rm \<leftarrow> arr_get (counter_map (tables E)) (int (es_index event));
     (result, counter') \<leftarrow>
       (if pc_overflows counter = 0 then Some (real (unat (pc_counterData counter - pc_startData counter)), counter)
        else if 0 < pc_overflows counter then do {
          maxv \<leftarrow> perfmon_getMaxCounterValue (tables E) (rm_type rm);
          Some (real (unat (maxv - pc_startData counter + pc_counterData counter)),
                counter\<lparr>pc_overflows := pc_overflows counter - 1\<rparr>) }
        else Some (0, counter));
     maxv \<leftarrow> perfmon_getMaxCounterValue (tables E) (rm_type rm);
     let result1 = result + real (unat (of_int (pc_overflows counter') * maxv :: u64));
     event' \<leftarrow> counter_set threadId counter' event;
     if rm_type rm = POWER then do {
       off \<leftarrow> getCounterTypeOffset (counter_map (tables E)) (es_index event);
       unit \<leftarrow> power_getEnergyUnit (energyUnits E) off;
       Some (result1 * unit, event') }
     else if rm_type rm = THERMAL then Some (real (unat (pc_counterData counter)), event')
     else Some (result1, event') }"

section \<open>Calling the architecture\<close>

text \<open>Call a function of the architecture for one thread with the address of a group.\<close>

definition call_arch :: "'m thread_fun \<Rightarrow> int \<Rightarrow> nat \<Rightarrow> ('m, 'c) perfmon \<Rightarrow> (int \<times> ('m, 'c) perfmon) option" where
  "call_arch fn groupId thread_id s = do {
     gs \<leftarrow> groupSet s;
     g \<leftarrow> arr_get (groups gs) groupId;
     (ret, g', a) \<leftarrow> fn (threads gs) thread_id g (pm s);
     Some (ret, s\<lparr>groupSet := Some (gs\<lparr>groups := (groups gs)[nat groupId := g']\<rparr>), pm := a\<rparr>) }"

definition update_group :: "int \<Rightarrow> (PerfmonEventSet \<Rightarrow> PerfmonEventSet) \<Rightarrow> ('m, 'c) perfmon \<Rightarrow> ('m, 'c) perfmon option" where
  "update_group groupId f s = do {
     gs \<leftarrow> groupSet s;
     g \<leftarrow> arr_get (groups gs) groupId;
     Some (s\<lparr>groupSet := Some (gs\<lparr>groups := (groups gs)[nat groupId := f g]\<rparr>)\<rparr>) }"

definition group_state :: "int \<Rightarrow> ('m, 'c) perfmon \<Rightarrow> GroupState option" where
  "group_state groupId s = do { gs \<leftarrow> groupSet s; g \<leftarrow> arr_get (groups gs) groupId; Some (gs_state g) }"

text \<open>The loop over the threads ends at the first one with a result other than 0, and tells which one.\<close>

fun each_thread :: "(nat \<Rightarrow> 's \<Rightarrow> (int \<times> 's) option) \<Rightarrow> nat list \<Rightarrow> 's \<Rightarrow> ((nat \<times> int) option \<times> 's) option" where
  "each_thread body [] s = Some (None, s)"
| "each_thread body (t # ts) s = do {
     (ret, s') \<leftarrow> body t s;
     if ret \<noteq> 0 then Some (Some (t, ret), s') else each_thread body ts s' }"

definition thread_ids :: "PerfmonGroupSet \<Rightarrow> nat list" where
  "thread_ids gs = map th_thread_id (threads gs)"

section \<open>Setting up\<close>

text \<open>A negative \<open>groupId\<close> passes the check.\<close>

definition setupCountersThread ::
  "('m, 'c) perfmon_env \<Rightarrow> int \<Rightarrow> nat \<Rightarrow> ('m, 'c) perfmon \<Rightarrow> (int \<times> ('m, 'c) perfmon) option" where
  "setupCountersThread E groupId thread_id s = do {
     gs \<leftarrow> groupSet s;
     if int (numberOfActiveGroups gs) \<le> groupId then Some (- ENOENT, s)
     else do {
       (ret, s') \<leftarrow> call_arch (perfmon_setupCountersThread (arch_funs E)) groupId thread_id s;
       if ret < 0 then Some (hp_errno (hpm_funs E) (machine (pm s')), s')
       else Some (0, s'\<lparr>groupSet := map_option (\<lambda>gs. gs\<lparr>activeGroup := groupId\<rparr>) (groupSet s')\<rparr>) } }"

definition perfmon_setupCounters ::
  "('m, 'c) perfmon_env \<Rightarrow> int \<Rightarrow> ('m, 'c) perfmon \<Rightarrow> (int \<times> ('m, 'c) perfmon) option" where
  "perfmon_setupCounters E groupId s =
     (if \<not> perfmon_initialized s then Some (- EINVAL, s)
      else (case groupSet s of
              None \<Rightarrow> Some (- EINVAL, s)
            | Some gs \<Rightarrow>
                if int (numberOfActiveGroups gs) \<le> groupId then Some (- ENOENT, s)
                else do {
                  (r, s1) \<leftarrow> each_thread (setupCountersThread E groupId) (thread_ids gs) s;
                  (case r of
                     Some (t, ret) \<Rightarrow> Some (ret, s1)
                   | None \<Rightarrow> do {
                       s2 \<leftarrow> update_group groupId (\<lambda>g. g\<lparr>gs_state := STATE_SETUP\<rparr>) s1;
                       Some (0, s2) }) }))"

section \<open>Starting\<close>

definition start_timer :: "('m, 'c) perfmon_env \<Rightarrow> int \<Rightarrow> ('m, 'c) perfmon \<Rightarrow> ('m, 'c) perfmon option" where
  "start_timer E groupId s = do {
     gs \<leftarrow> groupSet s;
     g \<leftarrow> arr_get (groups gs) groupId;
     let (time, c) = timer_start (clocks E) (timers s) (gs_timer g) (clock s);
     update_group groupId (\<lambda>g. g\<lparr>gs_timer := time\<rparr>) (s\<lparr>clock := c\<rparr>) }"

definition stop_timer :: "('m, 'c) perfmon_env \<Rightarrow> int \<Rightarrow> ('m, 'c) perfmon \<Rightarrow> ('m, 'c) perfmon option" where
  "stop_timer E groupId s = do {
     gs \<leftarrow> groupSet s;
     g \<leftarrow> arr_get (groups gs) groupId;
     let (time, c) = timer_stop (clocks E) (timers s) (gs_timer g) (clock s);
     update_group groupId (\<lambda>g. g\<lparr>gs_timer := time\<rparr>) (s\<lparr>clock := c\<rparr>) }"

definition add_time :: "timer_state \<Rightarrow> PerfmonEventSet \<Rightarrow> PerfmonEventSet" where
  "add_time ts g = g\<lparr>gs_rdtscTime := timer_print ts (gs_timer g), gs_runTime := gs_runTime g + timer_print ts (gs_timer g)\<rparr>"

text \<open>\<open>__perfmon_startCounters\<close>.\<close>

definition startCounters ::
  "('m, 'c) perfmon_env \<Rightarrow> int \<Rightarrow> ('m, 'c) perfmon \<Rightarrow> (int \<times> ('m, 'c) perfmon) option" where
  "startCounters E groupId s = do {
     st \<leftarrow> group_state groupId s;
     if st \<noteq> STATE_SETUP then Some (- EINVAL, s)
     else do {
       gs \<leftarrow> groupSet s;
       (r, s1) \<leftarrow> each_thread (call_arch (perfmon_startCountersThread (arch_funs E)) groupId) (thread_ids gs) s;
       (case r of
          Some (t, ret) \<Rightarrow> Some (- int t - 1, s1)
        | None \<Rightarrow> do {
            s2 \<leftarrow> update_group groupId (\<lambda>g. g\<lparr>gs_state := STATE_START\<rparr>) s1;
            s3 \<leftarrow> start_timer E groupId s2;
            Some (0, s3) }) } }"

definition perfmon_startCounters :: "('m, 'c) perfmon_env \<Rightarrow> ('m, 'c) perfmon \<Rightarrow> (int \<times> ('m, 'c) perfmon) option" where
  "perfmon_startCounters E s =
     (if \<not> perfmon_initialized s then Some (- EINVAL, s)
      else (case groupSet s of
              None \<Rightarrow> Some (- EINVAL, s)
            | Some gs \<Rightarrow> if activeGroup gs < 0 then Some (- EINVAL, s) else startCounters E (activeGroup gs) s))"

definition perfmon_startGroupCounters ::
  "('m, 'c) perfmon_env \<Rightarrow> int \<Rightarrow> ('m, 'c) perfmon \<Rightarrow> (int \<times> ('m, 'c) perfmon) option" where
  "perfmon_startGroupCounters E groupId s =
     (if \<not> perfmon_initialized s then Some (- EINVAL, s)
      else (case groupSet s of
              None \<Rightarrow> Some (- EINVAL, s)
            | Some gs \<Rightarrow>
                if (groupId < 0 \<or> int (numberOfActiveGroups gs) \<le> groupId) \<and> 0 \<le> activeGroup gs
                then startCounters E (activeGroup gs) s
                else Some (- EINVAL, s)))"

section \<open>Stopping\<close>

text \<open>The results of all events and threads of a group are added to the counters.\<close>

fun add_results :: "('m, 'c) perfmon_env \<Rightarrow> nat list \<Rightarrow> PerfmonEventSetEntry \<Rightarrow> PerfmonEventSetEntry option" where
  "add_results E [] e = Some e"
| "add_results E (j # js) e = do {
     (result, e1) \<leftarrow> calculateResult E j e;
     c \<leftarrow> counter_get j e1;
     e2 \<leftarrow> counter_set j (c\<lparr>pc_fullData := pc_fullData c + result\<rparr>) e1;
     add_results E js e2 }"

fun add_group_results ::
  "('m, 'c) perfmon_env \<Rightarrow> nat \<Rightarrow> nat \<Rightarrow> PerfmonEventSetEntry list \<Rightarrow> PerfmonEventSetEntry list option" where
  "add_group_results E nthreads 0 es = Some es"
| "add_group_results E nthreads (Suc n) [] = None"
| "add_group_results E nthreads (Suc n) (e # es) = do {
     e' \<leftarrow> add_results E [0..<nthreads] e;
     es' \<leftarrow> add_group_results E nthreads n es;
     Some (e' # es') }"

text \<open>\<open>__perfmon_stopCounters\<close>.\<close>

definition stopCounters ::
  "('m, 'c) perfmon_env \<Rightarrow> int \<Rightarrow> ('m, 'c) perfmon \<Rightarrow> (int \<times> ('m, 'c) perfmon) option" where
  "stopCounters E groupId s = do {
     s0 \<leftarrow> stop_timer E groupId s;
     gs \<leftarrow> groupSet s0;
     (r, s1) \<leftarrow> each_thread (call_arch (perfmon_stopCountersThread (arch_funs E)) groupId) (thread_ids gs) s0;
     (case r of
        Some (t, ret) \<Rightarrow> Some (- int t - 1, s1)
      | None \<Rightarrow> do {
          gs1 \<leftarrow> groupSet s1;
          g \<leftarrow> arr_get (groups gs1) groupId;
          es \<leftarrow> add_group_results E (length (threads gs1)) (gs_numberOfEvents g) (gs_events g);
          s2 \<leftarrow> update_group groupId (\<lambda>g. add_time (timers s1) (g\<lparr>gs_events := es, gs_state := STATE_SETUP\<rparr>)) s1;
          Some (0, s2) }) }"

definition perfmon_stopCounters :: "('m, 'c) perfmon_env \<Rightarrow> ('m, 'c) perfmon \<Rightarrow> (int \<times> ('m, 'c) perfmon) option" where
  "perfmon_stopCounters E s =
     (if \<not> perfmon_initialized s then Some (- EINVAL, s)
      else (case groupSet s of
              None \<Rightarrow> Some (- EINVAL, s)
            | Some gs \<Rightarrow>
                if activeGroup gs < 0 then Some (- EINVAL, s)
                else do {
                  st \<leftarrow> group_state (activeGroup gs) s;
                  if st \<noteq> STATE_START then Some (- EINVAL, s) else stopCounters E (activeGroup gs) s }))"

definition perfmon_stopGroupCounters ::
  "('m, 'c) perfmon_env \<Rightarrow> int \<Rightarrow> ('m, 'c) perfmon \<Rightarrow> (int \<times> ('m, 'c) perfmon) option" where
  "perfmon_stopGroupCounters E groupId s =
     (if \<not> perfmon_initialized s then Some (- EINVAL, s)
      else (case groupSet s of
              None \<Rightarrow> Some (- EINVAL, s)
            | Some gs \<Rightarrow>
                if (groupId < 0 \<or> int (numberOfActiveGroups gs) \<le> groupId) \<and> 0 \<le> activeGroup gs then do {
                  st \<leftarrow> group_state (activeGroup gs) s;
                  if st \<noteq> STATE_START then Some (- EINVAL, s) else stopCounters E (activeGroup gs) s }
                else Some (- EINVAL, s)))"

section \<open>Reading\<close>

text \<open>\<open>__perfmon_readCounters\<close>; \<open>threadId\<close> is - 1 for all threads, any other number outside the threads reads nothing.\<close>

definition readCounters ::
  "('m, 'c) perfmon_env \<Rightarrow> int \<Rightarrow> int \<Rightarrow> ('m, 'c) perfmon \<Rightarrow> (int \<times> ('m, 'c) perfmon) option" where
  "readCounters E groupId threadId s =
     (if \<not> perfmon_initialized s then Some (- EINVAL, s)
      else do {
        gs \<leftarrow> groupSet s;
        let group = (if (groupId < 0 \<or> int (numberOfActiveGroups gs) \<le> groupId) \<and> 0 \<le> activeGroup gs
                     then activeGroup gs else groupId);
        st \<leftarrow> group_state group s;
        if st \<noteq> STATE_START then Some (- EINVAL, s)
        else do {
          let ts = (if threadId = - 1 then [0..<length (threads gs)]
                    else if 0 \<le> threadId \<and> threadId < int (length (threads gs)) then [nat threadId] else []);
          (r, s1) \<leftarrow> each_thread (call_arch (perfmon_readCountersThread (arch_funs E)) group) ts s;
          Some (case r of Some (t, ret) \<Rightarrow> - int t - 1 | None \<Rightarrow> 0, s1) } })"

definition perfmon_readCounters :: "('m, 'c) perfmon_env \<Rightarrow> ('m, 'c) perfmon \<Rightarrow> (int \<times> ('m, 'c) perfmon) option" where
  "perfmon_readCounters E = readCounters E (- 1) (- 1)"

definition perfmon_readGroupCounters ::
  "('m, 'c) perfmon_env \<Rightarrow> int \<Rightarrow> ('m, 'c) perfmon \<Rightarrow> (int \<times> ('m, 'c) perfmon) option" where
  "perfmon_readGroupCounters E groupId = readCounters E groupId (- 1)"

definition perfmon_readGroupThreadCounters ::
  "('m, 'c) perfmon_env \<Rightarrow> int \<Rightarrow> int \<Rightarrow> ('m, 'c) perfmon \<Rightarrow> (int \<times> ('m, 'c) perfmon) option" where
  "perfmon_readGroupThreadCounters E = readCounters E"

text \<open>A processor without thread reads the counters of thread 0; the state of the group is not checked.\<close>

definition perfmon_readCountersCpu ::
  "('m, 'c) perfmon_env \<Rightarrow> int \<Rightarrow> ('m, 'c) perfmon \<Rightarrow> (int \<times> ('m, 'c) perfmon) option" where
  "perfmon_readCountersCpu E cpu_id s =
     (if \<not> perfmon_initialized s then Some (- EINVAL, s)
      else do {
        gs \<leftarrow> groupSet s;
        let thread_id = (case find (\<lambda>th. th_processorId th = cpu_id) (threads gs) of Some th \<Rightarrow> th_thread_id th | None \<Rightarrow> 0);
        call_arch (perfmon_readCountersThread (arch_funs E)) (activeGroup gs) thread_id s })"

definition perfmon_getResult ::
  "('m, 'c) perfmon_env \<Rightarrow> int \<Rightarrow> int \<Rightarrow> int \<Rightarrow> ('m, 'c) perfmon \<Rightarrow> (real \<times> ('m, 'c) perfmon) option" where
  "perfmon_getResult E groupId eventId threadId s =
     (case groupSet s of
        None \<Rightarrow> Some (0, s)
      | Some gs \<Rightarrow>
          if \<not> perfmon_initialized s \<or> numberOfActiveGroups gs = 0 then Some (0, s)
          else do {
            let group = (if groupId < 0 \<and> 0 \<le> activeGroup gs then activeGroup gs else groupId);
            g \<leftarrow> arr_get (groups gs) group;
            if int (gs_numberOfEvents g) \<le> eventId \<or> int (length (threads gs)) \<le> threadId then Some (0, s)
            else if threadId < 0 then None
            else do {
              e \<leftarrow> arr_get (gs_events g) eventId;
              c \<leftarrow> counter_get (nat threadId) e;
              if pc_fullData c = 0 then do {
                (result, e') \<leftarrow> calculateResult E (nat threadId) e;
                s' \<leftarrow> update_group group (\<lambda>g. g\<lparr>gs_events := (gs_events g)[nat eventId := e']\<rparr>) s;
                Some (result, s') }
              else Some (pc_fullData c, s) } })"

section \<open>Switching the active group\<close>

definition clear_init :: "nat \<Rightarrow> PerfmonEventSetEntry \<Rightarrow> PerfmonEventSetEntry option" where
  "clear_init thread_id e = do { c \<leftarrow> counter_get thread_id e; counter_set thread_id (c\<lparr>pc_init := False\<rparr>) e }"

fun clear_inits :: "nat \<Rightarrow> nat \<Rightarrow> PerfmonEventSetEntry list \<Rightarrow> PerfmonEventSetEntry list option" where
  "clear_inits thread_id 0 es = Some es"
| "clear_inits thread_id (Suc n) [] = None"
| "clear_inits thread_id (Suc n) (e # es) = do {
     e' \<leftarrow> clear_init thread_id e;
     es' \<leftarrow> clear_inits thread_id n es;
     Some (e' # es') }"

text \<open>A running group is stopped, whatever the result; in one that is set up, the thread is not set up any more.\<close>

definition leave_group ::
  "('m, 'c) perfmon_env \<Rightarrow> int \<Rightarrow> nat \<Rightarrow> GroupState \<Rightarrow> ('m, 'c) perfmon \<Rightarrow> ('m, 'c) perfmon option" where
  "leave_group E old thread_id state s =
     (if state = STATE_START then map_option snd (perfmon_stopCounters E s)
      else if state = STATE_SETUP then do {
        gs \<leftarrow> groupSet s;
        g \<leftarrow> arr_get (groups gs) old;
        es \<leftarrow> clear_inits thread_id (gs_numberOfEvents g) (gs_events g);
        update_group old (\<lambda>g. g\<lparr>gs_events := es\<rparr>) s }
      else Some s)"

text \<open>\<open>__perfmon_switchActiveGroupThread\<close>.\<close>

definition switchActiveGroupThread ::
  "('m, 'c) perfmon_env \<Rightarrow> int \<Rightarrow> nat \<Rightarrow> ('m, 'c) perfmon \<Rightarrow> (int \<times> ('m, 'c) perfmon) option" where
  "switchActiveGroupThread E new_group thread_id s =
     (if \<not> perfmon_initialized s then Some (- EINVAL, s)
      else do {
        gs \<leftarrow> groupSet s;
        let old = activeGroup gs;
        s1 \<leftarrow> stop_timer E old s;
        s2 \<leftarrow> update_group old (add_time (timers s1)) s1;
        state \<leftarrow> group_state old s2;
        s3 \<leftarrow> leave_group E old thread_id state s2;
        (ret, s4) \<leftarrow> perfmon_setupCounters E new_group s3;
        if ret \<noteq> 0 then Some (ret, s4)
        else if state = STATE_START then perfmon_startCounters E s4
        else Some (0, s4) })"

definition perfmon_switchActiveGroup ::
  "('m, 'c) perfmon_env \<Rightarrow> int \<Rightarrow> ('m, 'c) perfmon \<Rightarrow> (int \<times> ('m, 'c) perfmon) option" where
  "perfmon_switchActiveGroup E new_group s = do {
     gs \<leftarrow> groupSet s;
     (r, s1) \<leftarrow> each_thread (switchActiveGroupThread E new_group) (thread_ids gs) s;
     Some (case r of Some (t, ret) \<Rightarrow> ret | None \<Rightarrow> 0, s1) }"

section \<open>Inspecting the groups\<close>

definition perfmon_getNumberOfGroups :: "('m, 'c) perfmon \<Rightarrow> int option" where
  "perfmon_getNumberOfGroups s =
     (if \<not> perfmon_initialized s then Some (- EINVAL) else map_option (\<lambda>gs. int (numberOfActiveGroups gs)) (groupSet s))"

definition perfmon_getIdOfActiveGroup :: "('m, 'c) perfmon \<Rightarrow> int option" where
  "perfmon_getIdOfActiveGroup s =
     (if \<not> perfmon_initialized s then Some (- EINVAL) else map_option activeGroup (groupSet s))"

definition perfmon_getNumberOfThreads :: "('m, 'c) perfmon \<Rightarrow> int option" where
  "perfmon_getNumberOfThreads s =
     (if \<not> perfmon_initialized s then Some (- EINVAL) else map_option (\<lambda>gs. int (length (threads gs))) (groupSet s))"

definition perfmon_getNumberOfEvents :: "int \<Rightarrow> ('m, 'c) perfmon \<Rightarrow> int option" where
  "perfmon_getNumberOfEvents groupId s =
     (if \<not> perfmon_initialized s then Some (- EINVAL)
      else do {
        gs \<leftarrow> groupSet s;
        g \<leftarrow> arr_get (groups gs) (if groupId < 0 then activeGroup gs else groupId);
        Some (int (gs_numberOfEvents g)) })"

definition perfmon_getTimeOfGroup :: "int \<Rightarrow> ('m, 'c) perfmon \<Rightarrow> real option" where
  "perfmon_getTimeOfGroup groupId s =
     (if \<not> perfmon_initialized s then Some (- real_of_int EINVAL)
      else do {
        gs \<leftarrow> groupSet s;
        g \<leftarrow> arr_get (groups gs) (if groupId < 0 then activeGroup gs else groupId);
        Some (gs_runTime g) })"

section \<open>Initialization\<close>

text \<open>One thread: its access, its power and thermal data and its architecture. Errors are ignored.\<close>

definition init_thread ::
  "('m, 'c) perfmon_env \<Rightarrow> nat \<Rightarrow> int \<Rightarrow> PerfmonThread list \<Rightarrow> 'm pm_state \<Rightarrow> (PerfmonThread list \<times> 'm pm_state) option" where
  "init_thread E i cpu_id ts a = do {
     (_, m1) \<leftarrow> hp_addThread (hpm_funs E) cpu_id (machine a);
     ts' \<leftarrow> arr_set ts (int i) \<lparr>th_thread_id = i, th_processorId = cpu_id\<rparr>;
     m2 \<leftarrow> env_power_init E cpu_id m1;
     m3 \<leftarrow> env_thermal_init E cpu_id m2;
     (_, a') \<leftarrow> initThreadArch (arch_funs E) cpu_id (a\<lparr>machine := m3\<rparr>);
     Some (ts', a') }"

fun init_threads ::
  "('m, 'c) perfmon_env \<Rightarrow> nat list \<Rightarrow> int list \<Rightarrow> PerfmonThread list \<Rightarrow> 'm pm_state \<Rightarrow> (PerfmonThread list \<times> 'm pm_state) option" where
  "init_threads E [] cpus ts a = Some (ts, a)"
| "init_threads E (i # is) cpus ts a = do {
     cpu_id \<leftarrow> arr_get cpus (int i);
     (ts', a') \<leftarrow> init_thread E i cpu_id ts a;
     init_threads E is cpus ts' a' }"

definition perfmon_init ::
  "('m, 'c) perfmon_env \<Rightarrow> int \<Rightarrow> int list \<Rightarrow> ('m, 'c) perfmon \<Rightarrow> (int proc \<times> ('m, 'c) perfmon) option" where
  "perfmon_init E nrThreads threadsToCpu s =
     (if perfmon_initialized s then Some (Ret 0, s)
      else if nrThreads \<le> 0 then Some (Ret (- EINVAL), s)
      else if \<not> lock_check E then Some (Ret (- EINVAL), s)
      else if \<not> topology_known E then Some (Ret (- ENODEV), s)
      else if groupSet s \<noteq> None then Some (Ret (- EEXIST), s)
      else
        (let (ret, m) = hp_init (hpm_funs E) (machine (pm s)) in
         if ret \<noteq> 0 then Some (Exit 1, s\<lparr>pm := (pm s)\<lparr>machine := m\<rparr>\<rparr>)
         else do {
           (tm, c) \<leftarrow> timer_init (clocks E) (has_rdtscp E) (timers s) (clock s);
           (ts, a) \<leftarrow> init_threads E [0..<nat nrThreads] threadsToCpu (replicate (nat nrThreads) (fresh_thread E)) ((pm s)\<lparr>machine := m\<rparr>);
           Some (Ret 0, s\<lparr>perfmon_initialized := True, timers := tm, clock := c, pm := a,
             groupSet := Some \<lparr>numberOfActiveGroups = 0, activeGroup = - 1, groups = [], threads = ts\<rparr>\<rparr>) }))"

text \<open>The counters of all threads of a group; the results of the architecture are ignored.\<close>

fun finalize_threads ::
  "'m thread_fun \<Rightarrow> PerfmonThread list \<Rightarrow> nat list \<Rightarrow> PerfmonEventSet \<Rightarrow> 'm pm_state \<Rightarrow> (PerfmonEventSet \<times> 'm pm_state) option" where
  "finalize_threads fn ths [] g a = Some (g, a)"
| "finalize_threads fn ths (t # ts) g a = do {
     (_, g', a') \<leftarrow> fn ths t g a;
     finalize_threads fn ths ts g' a' }"

text \<open>Freeing the counters of an entry whose pointer was never set is undefined.\<close>

fun finalize_groups ::
  "'m thread_fun \<Rightarrow> PerfmonThread list \<Rightarrow> PerfmonEventSet list \<Rightarrow> 'm pm_state \<Rightarrow> 'm pm_state option" where
  "finalize_groups fn ths [] a = Some a"
| "finalize_groups fn ths (g # gs) a = do {
     (g', a') \<leftarrow> finalize_threads fn ths [0..<length ths] g a;
     if \<exists>e\<in>set (take (gs_numberOfEvents g') (gs_events g')). es_threadCounter e = None then None
     else finalize_groups fn ths gs a' }"

definition perfmon_finalize :: "('m, 'c) perfmon_env \<Rightarrow> ('m, 'c) perfmon \<Rightarrow> ('m, 'c) perfmon option" where
  "perfmon_finalize E s =
     (case groupSet s of
        None \<Rightarrow> Some s
      | Some gs \<Rightarrow>
          if \<not> perfmon_initialized s then Some s
          else do {
            a \<leftarrow> finalize_groups (perfmon_finalizeCountersThread (arch_funs E)) (threads gs)
                   (take (numberOfActiveGroups gs) (groups gs)) (pm s);
            m \<leftarrow> hp_finalize (hpm_funs E) (machine a);
            Some (s\<lparr>perfmon_initialized := False, groupSet := None,
              pm := \<lparr>machine = m, currentConfig = (\<lambda>cpu i. 0)\<rparr>\<rparr>) })"

end
