(* ===== verification/Perfmon_Lifecycle.thy ===== *)
theory Perfmon_Lifecycle
  imports Perfmon
begin

text \<open>
  The life cycle of event groups. The locale \<open>counter_module\<close> is the contract between the core and an
  architecture module. Over it, any sequence of calls is shown to return the same values as an
  automaton that only knows the state of each group and the active group.
\<close>

section \<open>The automaton\<close>

record life =
  lf_active :: int
  lf_states :: "GroupState list"

datatype call = Setup int | Start | StartGroup int | Stop | StopGroup int | Read | Switch int

definition life_state :: "life \<Rightarrow> GroupState option" where
  "life_state l = arr_get (lf_states l) (lf_active l)"

definition life_setup :: "int \<Rightarrow> life \<Rightarrow> (int \<times> life) option" where
  "life_setup g l =
     (if int (length (lf_states l)) \<le> g then Some (- ENOENT, l)
      else if g < 0 then None
      else Some (0, l\<lparr>lf_active := g, lf_states := (lf_states l)[nat g := STATE_SETUP]\<rparr>))"

definition life_start :: "life \<Rightarrow> (int \<times> life) option" where
  "life_start l =
     (if life_state l = Some STATE_SETUP then Some (0, l\<lparr>lf_states := (lf_states l)[nat (lf_active l) := STATE_START]\<rparr>)
      else Some (- EINVAL, l))"

definition life_stop :: "life \<Rightarrow> (int \<times> life) option" where
  "life_stop l =
     (if life_state l = Some STATE_START then Some (0, l\<lparr>lf_states := (lf_states l)[nat (lf_active l) := STATE_SETUP]\<rparr>)
      else Some (- EINVAL, l))"

definition life_read :: "life \<Rightarrow> (int \<times> life) option" where
  "life_read l = (case life_state l of None \<Rightarrow> None | Some st \<Rightarrow> Some (if st = STATE_START then 0 else - EINVAL, l))"

text \<open>One thread of a switch: a running group is stopped, and the new one started in its place.\<close>

definition life_switch_thread :: "int \<Rightarrow> life \<Rightarrow> (int \<times> life) option" where
  "life_switch_thread g l = do {
     st \<leftarrow> life_state l;
     l1 \<leftarrow> (if st = STATE_START then map_option snd (life_stop l) else Some l);
     (ret, l2) \<leftarrow> life_setup g l1;
     if ret \<noteq> 0 then Some (ret, l2) else if st = STATE_START then life_start l2 else Some (0, l2) }"

definition life_switch :: "nat \<Rightarrow> int \<Rightarrow> life \<Rightarrow> (int \<times> life) option" where
  "life_switch n g l = do {
     (r, l') \<leftarrow> each_thread (\<lambda>t. life_switch_thread g) [0..<n] l;
     Some (case r of Some (t, ret) \<Rightarrow> ret | None \<Rightarrow> 0, l') }"

fun life_call :: "nat \<Rightarrow> call \<Rightarrow> life \<Rightarrow> (int \<times> life) option" where
  "life_call n (Setup g) l = life_setup g l"
| "life_call n Start l = life_start l"
| "life_call n (StartGroup g) l = (if 0 \<le> g \<and> g < int (length (lf_states l)) then Some (- EINVAL, l) else life_start l)"
| "life_call n Stop l = life_stop l"
| "life_call n (StopGroup g) l = (if 0 \<le> g \<and> g < int (length (lf_states l)) then Some (- EINVAL, l) else life_stop l)"
| "life_call n Read l = life_read l"
| "life_call n (Switch g) l = life_switch n g l"

fun life_run :: "nat \<Rightarrow> call list \<Rightarrow> life \<Rightarrow> (int list \<times> life) option" where
  "life_run n [] l = Some ([], l)"
| "life_run n (c # cs) l = do { (r, l') \<leftarrow> life_call n c l; (rs, l'') \<leftarrow> life_run n cs l'; Some (r # rs, l'') }"

fun perfmon_call :: "('m, 'c) perfmon_env \<Rightarrow> call \<Rightarrow> ('m, 'c) perfmon \<Rightarrow> (int \<times> ('m, 'c) perfmon) option" where
  "perfmon_call E (Setup g) s = perfmon_setupCounters E g s"
| "perfmon_call E Start s = perfmon_startCounters E s"
| "perfmon_call E (StartGroup g) s = perfmon_startGroupCounters E g s"
| "perfmon_call E Stop s = perfmon_stopCounters E s"
| "perfmon_call E (StopGroup g) s = perfmon_stopGroupCounters E g s"
| "perfmon_call E Read s = perfmon_readCounters E s"
| "perfmon_call E (Switch g) s = perfmon_switchActiveGroup E g s"

fun perfmon_run ::
  "('m, 'c) perfmon_env \<Rightarrow> call list \<Rightarrow> ('m, 'c) perfmon \<Rightarrow> (int list \<times> ('m, 'c) perfmon) option" where
  "perfmon_run E [] s = Some ([], s)"
| "perfmon_run E (c # cs) s = do { (r, s') \<leftarrow> perfmon_call E c s; (rs, s'') \<leftarrow> perfmon_run E cs s'; Some (r # rs, s'') }"

definition perfmon_life :: "('m, 'c) perfmon \<Rightarrow> life" where
  "perfmon_life s = (case groupSet s of
     Some gs \<Rightarrow> \<lparr>lf_active = activeGroup gs, lf_states = map gs_state (take (numberOfActiveGroups gs) (groups gs))\<rparr>
   | None \<Rightarrow> \<lparr>lf_active = - 1, lf_states = []\<rparr>)"

section \<open>Sessions\<close>

text \<open>
  A session with threads \<open>ts\<close> and life cycle \<open>l\<close>, for the groups \<open>ok\<close> and the register states \<open>ready\<close> that an
  architecture module works with.
\<close>

definition gs_inv :: "(PerfmonThread list \<Rightarrow> PerfmonEventSet \<Rightarrow> bool) \<Rightarrow> PerfmonGroupSet \<Rightarrow> bool" where
  "gs_inv ok gs \<longleftrightarrow> numberOfActiveGroups gs \<le> length (groups gs) \<and>
     (activeGroup gs = - 1 \<or> 0 \<le> activeGroup gs \<and> activeGroup gs < int (numberOfActiveGroups gs)) \<and>
     (\<forall>i<numberOfActiveGroups gs. ok (threads gs) (groups gs ! i)) \<and>
     threads gs \<noteq> [] \<and> thread_ids gs = [0..<length (threads gs)]"

definition living ::
  "(PerfmonThread list \<Rightarrow> 'm pm_state \<Rightarrow> bool) \<Rightarrow> (PerfmonThread list \<Rightarrow> PerfmonEventSet \<Rightarrow> bool) \<Rightarrow>
   PerfmonThread list \<Rightarrow> life \<Rightarrow> ('m, 'c) perfmon \<Rightarrow> bool" where
  "living ready ok ts l s \<longleftrightarrow> perfmon_initialized s \<and> perfmon_life s = l \<and>
     (\<exists>gs. groupSet s = Some gs \<and> gs_inv ok gs \<and> threads gs = ts \<and> ready ts (pm s))"

text \<open>A call refines the automaton: it is undefined where the automaton is, and returns the same value.\<close>

definition refines ::
  "(PerfmonThread list \<Rightarrow> 'm pm_state \<Rightarrow> bool) \<Rightarrow> (PerfmonThread list \<Rightarrow> PerfmonEventSet \<Rightarrow> bool) \<Rightarrow>
   PerfmonThread list \<Rightarrow> ('r \<times> ('m, 'c) perfmon) option \<Rightarrow> ('r \<times> life) option \<Rightarrow> bool" where
  "refines ready ok ts r rl \<longleftrightarrow> (case rl of
     None \<Rightarrow> r = None
   | Some (v, l) \<Rightarrow> (\<exists>s. r = Some (v, s) \<and> living ready ok ts l s))"

section \<open>The contract of an architecture\<close>

text \<open>The function changes the counter data of the entries only.\<close>

definition same_frame :: "PerfmonEventSet \<Rightarrow> PerfmonEventSet \<Rightarrow> bool" where
  "same_frame g g' \<longleftrightarrow> g' = g\<lparr>gs_events := gs_events g'\<rparr>"

lemma same_frame_state: "same_frame g g' \<Longrightarrow> gs_state g' = gs_state g"
  unfolding same_frame_def by (drule arg_cong [where f = gs_state]) simp

text \<open>
  \<open>ready\<close> are the threads and register states the module works with, \<open>ok\<close> the groups. Every function
  succeeds for every thread; the results of a group can be calculated. \<open>ok\<close> does not depend on the state
  and the times of the group.
\<close>

locale counter_module =
  fixes E :: "('m, 'c) perfmon_env"
    and ready :: "PerfmonThread list \<Rightarrow> 'm pm_state \<Rightarrow> bool"
    and ok :: "PerfmonThread list \<Rightarrow> PerfmonEventSet \<Rightarrow> bool"
  assumes module_law: "\<lbrakk>fn \<in> {perfmon_setupCountersThread (arch_funs E), perfmon_startCountersThread (arch_funs E),
        perfmon_stopCountersThread (arch_funs E), perfmon_readCountersThread (arch_funs E)};
      ready ts a; ok ts g; t < length ts\<rbrakk> \<Longrightarrow>
      \<exists>g' a'. fn ts t g a = Some (0, g', a') \<and> ready ts a' \<and> ok ts g' \<and> same_frame g g'"
    and ok_frame: "ok ts (g\<lparr>gs_state := st\<rparr>) = ok ts g" "ok ts (g\<lparr>gs_timer := tm\<rparr>) = ok ts g"
      "ok ts (g\<lparr>gs_rdtscTime := x\<rparr>) = ok ts g" "ok ts (g\<lparr>gs_runTime := x\<rparr>) = ok ts g"
    and results_law: "ok ts g \<Longrightarrow> \<exists>es. add_group_results E (length ts) (gs_numberOfEvents g) (gs_events g) = Some es \<and> ok ts (g\<lparr>gs_events := es\<rparr>)"
    and clear_law: "\<lbrakk>ok ts g; t < length ts\<rbrakk> \<Longrightarrow>
      \<exists>es. clear_inits t (gs_numberOfEvents g) (gs_events g) = Some es \<and> ok ts (g\<lparr>gs_events := es\<rparr>)"

begin

lemma livingE:
  assumes "living ready ok ts l s"
  obtains gs where "groupSet s = Some gs" "gs_inv ok gs" "threads gs = ts" "ready ts (pm s)" "perfmon_initialized s"
    "lf_active l = activeGroup gs" "lf_states l = map gs_state (take (numberOfActiveGroups gs) (groups gs))"
    "length (lf_states l) = numberOfActiveGroups gs"
proof -
  obtain gs where gs: "groupSet s = Some gs" "gs_inv ok gs" "threads gs = ts" "ready ts (pm s)" "perfmon_initialized s"
    using assms unfolding living_def by blast
  have t: "\<lparr>lf_active = activeGroup gs, lf_states = map gs_state (take (numberOfActiveGroups gs) (groups gs))\<rparr> = l"
    using assms gs(1) by (simp add: living_def perfmon_life_def)
  have "length (lf_states l) = numberOfActiveGroups gs" using gs(2) t by (auto simp: gs_inv_def)
  then show thesis using that [OF gs] t by auto
qed

lemma livingI:
  "\<lbrakk>groupSet s = Some gs; gs_inv ok gs; threads gs = ts; ready ts (pm s); perfmon_initialized s;
    l = \<lparr>lf_active = activeGroup gs, lf_states = map gs_state (take (numberOfActiveGroups gs) (groups gs))\<rparr>\<rbrakk> \<Longrightarrow> living ready ok ts l s"
  by (simp add: living_def perfmon_life_def)

text \<open>Replacing a group by one that the module accepts.\<close>

lemma living_replace:
  assumes "living ready ok ts l s" "groupSet s = Some gs" "0 \<le> g" "g < int (length (lf_states l))" "ok ts x"
    and "s' = s\<lparr>groupSet := Some (gs\<lparr>groups := (groups gs)[nat g := x]\<rparr>), pm := a\<rparr>" "ready ts a"
  shows "living ready ok ts (l\<lparr>lf_states := (lf_states l)[nat g := gs_state x]\<rparr>) s'"
proof -
  have gs: "gs_inv ok gs" "threads gs = ts" "perfmon_initialized s"
      "l = \<lparr>lf_active = activeGroup gs, lf_states = map gs_state (take (numberOfActiveGroups gs) (groups gs))\<rparr>"
    using assms(1,2) by (auto simp: living_def perfmon_life_def)
  have n: "nat g < numberOfActiveGroups gs" using assms(3,4) gs(1,4) by (simp add: gs_inv_def)
  have "gs_inv ok (gs\<lparr>groups := (groups gs)[nat g := x]\<rparr>)"
    using gs(1,2) assms(5) n by (auto simp: gs_inv_def nth_list_update thread_ids_def)
  then show ?thesis
    using gs assms(6,7) n by (intro livingI [OF _ \<open>gs_inv ok (gs\<lparr>groups := _\<rparr>)\<close>]) (simp_all add: take_update_swap map_update)
qed

lemma update_group_living:
  assumes "living ready ok ts l s" "0 \<le> g" "g < int (length (lf_states l))" "\<And>x. ok ts x \<Longrightarrow> ok ts (f x)" "\<And>x. gs_state (f x) = h (gs_state x)"
  shows "\<exists>s'. update_group g f s = Some s' \<and> living ready ok ts (l\<lparr>lf_states := (lf_states l)[nat g := h (lf_states l ! nat g)]\<rparr>) s'"
proof -
  obtain gs where gs: "groupSet s = Some gs" "gs_inv ok gs" "threads gs = ts" "ready ts (pm s)"
      "lf_states l = map gs_state (take (numberOfActiveGroups gs) (groups gs))" "length (lf_states l) = numberOfActiveGroups gs"
    using assms(1) by (rule livingE)
  then have n: "nat g < numberOfActiveGroups gs" "nat g < length (groups gs)" using assms(2,3) by (auto simp: gs_inv_def)
  let ?s = "s\<lparr>groupSet := Some (gs\<lparr>groups := (groups gs)[nat g := f (groups gs ! nat g)]\<rparr>), pm := pm s\<rparr>"
  have "ok ts (f (groups gs ! nat g))" using gs(2,3) n assms(4) by (auto simp: gs_inv_def)
  from living_replace [OF assms(1) gs(1) assms(2,3) this refl gs(4)]
  have "living ready ok ts (l\<lparr>lf_states := (lf_states l)[nat g := h (lf_states l ! nat g)]\<rparr>) ?s"
    using n gs(5) assms(5) by simp
  moreover have "update_group g f s = Some ?s" using gs(1) n assms(2) by (simp add: update_group_def arr_get_def)
  ultimately show ?thesis by blast
qed

lemma call_arch_living:
  assumes "living ready ok ts l s" "0 \<le> g" "g < int (length (lf_states l))" "t < length ts"
    and "fn \<in> {perfmon_setupCountersThread (arch_funs E), perfmon_startCountersThread (arch_funs E),
        perfmon_stopCountersThread (arch_funs E), perfmon_readCountersThread (arch_funs E)}"
  shows "\<exists>s'. call_arch fn g t s = Some (0, s') \<and> living ready ok ts l s'"
proof -
  obtain gs where gs: "groupSet s = Some gs" "gs_inv ok gs" "threads gs = ts" "ready ts (pm s)"
      "lf_states l = map gs_state (take (numberOfActiveGroups gs) (groups gs))" "length (lf_states l) = numberOfActiveGroups gs"
    using assms(1) by (rule livingE)
  then have n: "nat g < numberOfActiveGroups gs" "nat g < length (groups gs)" using assms(2,3) by (auto simp: gs_inv_def)
  then have okg: "ok ts (groups gs ! nat g)" using gs(2,3) by (auto simp: gs_inv_def)
  obtain g' a' where r: "fn ts t (groups gs ! nat g) (pm s) = Some (0, g', a')" "ready ts a'" "ok ts g'" "same_frame (groups gs ! nat g) g'"
    using module_law [OF assms(5) gs(4) okg assms(4)] by blast
  have st: "gs_state g' = lf_states l ! nat g" using same_frame_state [OF r(4)] gs(5) n by simp
  let ?s = "s\<lparr>groupSet := Some (gs\<lparr>groups := (groups gs)[nat g := g']\<rparr>), pm := a'\<rparr>"
  have "living ready ok ts l ?s"
    using living_replace [OF assms(1) gs(1) assms(2,3) r(3) refl r(2)] by (simp add: st)
  moreover have "call_arch fn g t s = Some (0, ?s)" using gs n r(1) assms(2) by (simp add: call_arch_def arr_get_def)
  ultimately show ?thesis by blast
qed

lemma upt_threads: "set [0..<n] \<subseteq> {..<n}"
  by auto

lemma each_thread_living:
  assumes "living ready ok ts l s" "set js \<subseteq> {..<length ts}"
    and "\<And>t s. \<lbrakk>living ready ok ts l s; t < length ts\<rbrakk> \<Longrightarrow> \<exists>s'. body t s = Some (0, s') \<and> living ready ok ts l s'"
  shows "\<exists>s'. each_thread body js s = Some (None, s') \<and> living ready ok ts l s'"
  using assms(1,2)
proof (induction js arbitrary: s)
  case (Cons t js)
  obtain s1 where "body t s = Some (0, s1)" "living ready ok ts l s1" using assms(3) [of s t] Cons.prems by auto
  then show ?case using Cons.IH [of s1] Cons.prems(2) by auto
qed simp

text \<open>A call of the architecture for all threads keeps the life cycle.\<close>

lemma all_threads_living:
  assumes "living ready ok ts l s" "0 \<le> g" "g < int (length (lf_states l))" "set js \<subseteq> {..<length ts}"
    and "fn \<in> {perfmon_setupCountersThread (arch_funs E), perfmon_startCountersThread (arch_funs E),
        perfmon_stopCountersThread (arch_funs E), perfmon_readCountersThread (arch_funs E)}"
  shows "\<exists>s'. each_thread (call_arch fn g) js s = Some (None, s') \<and> living ready ok ts l s'"
  by (rule each_thread_living [OF assms(1,4)]) (rule call_arch_living [OF _ assms(2,3) _ assms(5)])

lemma living_thread_ids: "\<lbrakk>living ready ok ts l s; groupSet s = Some gs\<rbrakk> \<Longrightarrow> thread_ids gs = [0..<length ts] \<and> ts \<noteq> []"
  by (auto simp: living_def gs_inv_def)

lemma group_state_living:
  assumes "living ready ok ts l s" "g < int (length (lf_states l))"
  shows "group_state g s = (if 0 \<le> g then Some (lf_states l ! nat g) else None)"
proof -
  obtain gs where gs: "groupSet s = Some gs" "gs_inv ok gs" "threads gs = ts" "ready ts (pm s)"
      "lf_states l = map gs_state (take (numberOfActiveGroups gs) (groups gs))" "length (lf_states l) = numberOfActiveGroups gs"
    using assms(1) by (rule livingE)
  then show ?thesis using assms(2) by (auto simp: group_state_def arr_get_def gs_inv_def)
qed

lemma living_active:
  assumes "living ready ok ts l s"
  shows "lf_active l = - 1 \<or> 0 \<le> lf_active l \<and> lf_active l < int (length (lf_states l))"
  using assms by (rule livingE) (auto simp: gs_inv_def)

lemma set_active_living:
  assumes "living ready ok ts l s" "0 \<le> g" "g < int (length (lf_states l))"
  shows "living ready ok ts (l\<lparr>lf_active := g\<rparr>) (s\<lparr>groupSet := map_option (\<lambda>gs. gs\<lparr>activeGroup := g\<rparr>) (groupSet s)\<rparr>)"
proof -
  obtain gs where gs: "groupSet s = Some gs" "gs_inv ok gs" "threads gs = ts" "ready ts (pm s)" "perfmon_initialized s"
      "lf_states l = map gs_state (take (numberOfActiveGroups gs) (groups gs))" "length (lf_states l) = numberOfActiveGroups gs"
    using assms(1) by (rule livingE)
  have "gs_inv ok (gs\<lparr>activeGroup := g\<rparr>)" using gs(2,7) assms(2,3) by (simp add: gs_inv_def thread_ids_def)
  then show ?thesis using gs by (intro livingI [of _ "gs\<lparr>activeGroup := g\<rparr>"]) simp_all
qed

lemma setup_thread_living:
  assumes "living ready ok ts l s" "0 \<le> g" "g < int (length (lf_states l))" "t < length ts"
  shows "\<exists>s'. setupCountersThread E g t s = Some (0, s') \<and> living ready ok ts (l\<lparr>lf_active := g\<rparr>) s'"
proof -
  obtain gs where gs: "groupSet s = Some gs" "length (lf_states l) = numberOfActiveGroups gs" using assms(1) by (rule livingE)
  obtain s1 where s1: "call_arch (perfmon_setupCountersThread (arch_funs E)) g t s = Some (0, s1)" "living ready ok ts l s1"
    using call_arch_living [OF assms] by blast
  show ?thesis using set_active_living [OF s1(2) assms(2,3)] gs s1(1) assms(3) by (simp add: setupCountersThread_def)
qed

text \<open>After the first thread the group is the active one.\<close>

lemma setup_threads_living:
  assumes "living ready ok ts l s" "0 \<le> g" "g < int (length (lf_states l))" "set js \<subseteq> {..<length ts}" "js \<noteq> []"
  shows "\<exists>s'. each_thread (setupCountersThread E g) js s = Some (None, s') \<and> living ready ok ts (l\<lparr>lf_active := g\<rparr>) s'"
proof -
  obtain t js' where js: "js = t # js'" using assms(5) by (cases js) auto
  obtain s1 where s1: "setupCountersThread E g t s = Some (0, s1)" "living ready ok ts (l\<lparr>lf_active := g\<rparr>) s1"
    using setup_thread_living [OF assms(1-3), of t] assms(4) js by auto
  have "\<exists>s'. each_thread (setupCountersThread E g) js' s1 = Some (None, s') \<and> living ready ok ts (l\<lparr>lf_active := g\<rparr>) s'"
  proof (rule each_thread_living [OF s1(2)])
    show "set js' \<subseteq> {..<length ts}" using assms(4) js by simp
    show "\<exists>s'. setupCountersThread E g t s = Some (0, s') \<and> living ready ok ts (l\<lparr>lf_active := g\<rparr>) s'"
      if h: "living ready ok ts (l\<lparr>lf_active := g\<rparr>) s" "t < length ts" for t s
      using setup_thread_living [OF h(1) assms(2) _ h(2)] assms(3) by simp
  qed
  then show ?thesis using s1(1) js by auto
qed

lemma setup_refines:
  assumes "living ready ok ts l s"
  shows "refines ready ok ts (perfmon_setupCounters E g s) (life_setup g l)"
proof -
  obtain gs where gs: "groupSet s = Some gs" "gs_inv ok gs" "perfmon_initialized s" "length (lf_states l) = numberOfActiveGroups gs"
      "threads gs = ts" using assms by (rule livingE)
  have ids: "thread_ids gs = [0..<length ts]" "ts \<noteq> []" using living_thread_ids [OF assms gs(1)] by auto
  consider "int (length (lf_states l)) \<le> g" | "g < int (length (lf_states l))" "g < 0" | "0 \<le> g" "g < int (length (lf_states l))" by linarith
  then show ?thesis
  proof cases
    case 1
    then show ?thesis using assms gs by (simp add: refines_def perfmon_setupCounters_def life_setup_def)
  next
    case 2
    have "thread_ids gs = 0 # [1..<length ts]" using ids by (simp add: upt_conv_Cons)
    then have "each_thread (setupCountersThread E g) (thread_ids gs) s = None"
      using gs(1,4) 2 by (simp add: setupCountersThread_def call_arch_def arr_get_def)
    then show ?thesis using 2 gs by (simp add: refines_def perfmon_setupCounters_def life_setup_def)
  next
    case 3
    obtain s1 where s1: "each_thread (setupCountersThread E g) (thread_ids gs) s = Some (None, s1)" "living ready ok ts (l\<lparr>lf_active := g\<rparr>) s1"
      using setup_threads_living [OF assms 3 upt_threads] ids by auto
    obtain s2 where "update_group g (\<lambda>g. g\<lparr>gs_state := STATE_SETUP\<rparr>) s1 = Some s2"
        "living ready ok ts (l\<lparr>lf_active := g, lf_states := (lf_states l)[nat g := STATE_SETUP]\<rparr>) s2"
      using update_group_living [OF s1(2) 3(1), of "\<lambda>g. g\<lparr>gs_state := STATE_SETUP\<rparr>" "\<lambda>x. STATE_SETUP"] 3(2) ok_frame(1) by auto
    then show ?thesis using 3 gs s1(1) by (simp add: refines_def perfmon_setupCounters_def life_setup_def)
  qed
qed

text \<open>The timers do not touch the life cycle.\<close>

lemma timer_living:
  assumes "living ready ok ts l s" "0 \<le> g" "g < int (length (lf_states l))"
  shows "\<exists>s'. start_timer E g s = Some s' \<and> living ready ok ts l s'" "\<exists>s'. stop_timer E g s = Some s' \<and> living ready ok ts l s'"
proof -
  obtain gs where gs: "groupSet s = Some gs" "gs_inv ok gs" "threads gs = ts" "ready ts (pm s)" "perfmon_initialized s"
      "lf_active l = activeGroup gs" "lf_states l = map gs_state (take (numberOfActiveGroups gs) (groups gs))"
      "length (lf_states l) = numberOfActiveGroups gs"
    using assms(1) by (rule livingE)
  have ar: "arr_get (groups gs) g = Some (groups gs ! nat g)" using gs(2,8) assms(2,3) by (simp add: arr_get_def gs_inv_def)
  have cl: "living ready ok ts l (s\<lparr>clock := c\<rparr>)" for c
    using gs by (intro livingI [OF _ gs(2)]) simp_all
  have up: "\<exists>s'. update_group g (\<lambda>g. g\<lparr>gs_timer := tm\<rparr>) (s\<lparr>clock := c\<rparr>) = Some s' \<and> living ready ok ts l s'" for tm c
    using update_group_living [OF cl assms(2,3), of "\<lambda>g. g\<lparr>gs_timer := tm\<rparr>" "\<lambda>x. x"] ok_frame(2) by auto
  show "\<exists>s'. start_timer E g s = Some s' \<and> living ready ok ts l s'" "\<exists>s'. stop_timer E g s = Some s' \<and> living ready ok ts l s'"
    using gs(1) ar up by (simp_all add: start_timer_def stop_timer_def split_def Let_def)
qed

lemma life_state_Some: "life_state l = Some x \<longleftrightarrow> 0 \<le> lf_active l \<and> lf_active l < int (length (lf_states l)) \<and> lf_states l ! nat (lf_active l) = x"
  by (simp add: life_state_def arr_get_Some)

lemma life_update_same: "l\<lparr>lf_states := (lf_states l)[nat g := lf_states l ! nat g]\<rparr> = l"
  by simp

lemma start_living:
  assumes "living ready ok ts l s" "0 \<le> lf_active l" "lf_active l < int (length (lf_states l))"
  shows "refines ready ok ts (startCounters E (lf_active l) s) (life_start l)"
proof (cases "lf_states l ! nat (lf_active l) = STATE_SETUP")
  case False
  then show ?thesis using assms group_state_living [OF assms(1,3)]
    by (auto simp: refines_def startCounters_def life_start_def life_state_Some)
next
  case True
  let ?g = "lf_active l"
  obtain gs where gs: "groupSet s = Some gs" using assms(1) by (rule livingE)
  obtain s1 where s1: "each_thread (call_arch (perfmon_startCountersThread (arch_funs E)) ?g) (thread_ids gs) s = Some (None, s1)" "living ready ok ts l s1"
    using all_threads_living [OF assms upt_threads] living_thread_ids [OF assms(1) gs] by auto
  obtain s2 where s2: "update_group ?g (\<lambda>g. g\<lparr>gs_state := STATE_START\<rparr>) s1 = Some s2"
      "living ready ok ts (l\<lparr>lf_states := (lf_states l)[nat ?g := STATE_START]\<rparr>) s2"
    using update_group_living [OF s1(2) assms(2,3), of "\<lambda>g. g\<lparr>gs_state := STATE_START\<rparr>" "\<lambda>x. STATE_START"] ok_frame(1) by auto
  obtain s3 where "start_timer E ?g s2 = Some s3" "living ready ok ts (l\<lparr>lf_states := (lf_states l)[nat ?g := STATE_START]\<rparr>) s3"
    using timer_living(1) [OF s2(2) assms(2)] assms(3) by auto
  then show ?thesis using True gs s1(1) s2(1) assms group_state_living [OF assms(1,3)]
    by (simp add: refines_def startCounters_def life_start_def life_state_Some)
qed

lemma stop_living:
  assumes "living ready ok ts l s" "0 \<le> lf_active l" "lf_active l < int (length (lf_states l))"
  shows "refines ready ok ts (stopCounters E (lf_active l) s) (Some (0, l\<lparr>lf_states := (lf_states l)[nat (lf_active l) := STATE_SETUP]\<rparr>))"
proof -
  let ?g = "lf_active l"
  obtain s0 where s0: "stop_timer E ?g s = Some s0" "living ready ok ts l s0" using timer_living(2) [OF assms] by blast
  obtain gs where gs: "groupSet s0 = Some gs" using s0(2) by (rule livingE)
  obtain s1 where s1: "each_thread (call_arch (perfmon_stopCountersThread (arch_funs E)) ?g) (thread_ids gs) s0 = Some (None, s1)" "living ready ok ts l s1"
    using all_threads_living [OF s0(2) assms(2,3) upt_threads] living_thread_ids [OF s0(2) gs] by auto
  obtain gs1 where gs1: "groupSet s1 = Some gs1" "gs_inv ok gs1" "threads gs1 = ts" "ready ts (pm s1)" "length (lf_states l) = numberOfActiveGroups gs1"
    using s1(2) by (rule livingE)
  let ?x = "groups gs1 ! nat ?g"
  have x: "arr_get (groups gs1) ?g = Some ?x" "ok ts ?x"
    using gs1 assms(2,3) by (auto simp: arr_get_def gs_inv_def)
  obtain es where es: "add_group_results E (length ts) (gs_numberOfEvents ?x) (gs_events ?x) = Some es" "ok ts (?x\<lparr>gs_events := es\<rparr>)"
    using results_law [OF x(2)] by blast
  let ?y = "add_time (timers s1) (?x\<lparr>gs_events := es, gs_state := STATE_SETUP\<rparr>)"
  let ?s = "s1\<lparr>groupSet := Some (gs1\<lparr>groups := (groups gs1)[nat ?g := ?y]\<rparr>), pm := pm s1\<rparr>"
  have "ok ts ?y" using es(2) by (simp add: add_time_def ok_frame)
  from living_replace [OF s1(2) gs1(1) assms(2,3) this refl gs1(4)]
  have "living ready ok ts (l\<lparr>lf_states := (lf_states l)[nat ?g := STATE_SETUP]\<rparr>) ?s" by (simp add: add_time_def)
  then show ?thesis
    using s0(1) gs s1(1) gs1(1,3) x(1) es(1)
    by (simp add: refines_def stopCounters_def update_group_def)
qed

lemmas call_defs = perfmon_startCounters_def perfmon_startGroupCounters_def perfmon_stopCounters_def perfmon_stopGroupCounters_def

lemma start_refines:
  assumes "living ready ok ts l s"
  shows "refines ready ok ts (perfmon_startCounters E s) (life_start l)"
proof -
  obtain gs where gs: "groupSet s = Some gs" "perfmon_initialized s" "lf_active l = activeGroup gs" using assms by (rule livingE)
  consider "lf_active l = - 1" | "0 \<le> lf_active l" "lf_active l < int (length (lf_states l))" using living_active [OF assms] by blast
  then show ?thesis
  proof cases
    case 1
    then show ?thesis using gs assms by (simp add: call_defs refines_def life_start_def life_state_Some)
  next
    case 2
    then show ?thesis using gs start_living [OF assms 2] by (simp add: call_defs)
  qed
qed

lemma stop_refines:
  assumes "living ready ok ts l s"
  shows "refines ready ok ts (perfmon_stopCounters E s) (life_stop l)"
proof -
  obtain gs where gs: "groupSet s = Some gs" "perfmon_initialized s" "lf_active l = activeGroup gs" using assms by (rule livingE)
  consider "lf_active l = - 1" | "0 \<le> lf_active l" "lf_active l < int (length (lf_states l))" using living_active [OF assms] by blast
  then show ?thesis
  proof cases
    case 1
    then show ?thesis using gs assms by (simp add: call_defs refines_def life_stop_def life_state_Some)
  next
    case 2
    then show ?thesis using gs assms stop_living [OF assms 2] group_state_living [OF assms 2(2)]
      by (auto simp: call_defs life_stop_def life_state_Some refines_def)
  qed
qed

lemma group_calls_refine:
  assumes "living ready ok ts l s"
  shows "refines ready ok ts (perfmon_startGroupCounters E g s) (life_call n (StartGroup g) l)"
    "refines ready ok ts (perfmon_stopGroupCounters E g s) (life_call n (StopGroup g) l)"
proof -
  obtain gs where gs: "groupSet s = Some gs" "perfmon_initialized s" "lf_active l = activeGroup gs"
      "length (lf_states l) = numberOfActiveGroups gs" using assms by (rule livingE)
  have eq: "perfmon_startGroupCounters E g s =
        (if 0 \<le> g \<and> g < int (length (lf_states l)) then Some (- EINVAL, s) else perfmon_startCounters E s)"
      "perfmon_stopGroupCounters E g s =
        (if 0 \<le> g \<and> g < int (length (lf_states l)) then Some (- EINVAL, s) else perfmon_stopCounters E s)"
    using gs by (auto simp: call_defs)
  show "refines ready ok ts (perfmon_startGroupCounters E g s) (life_call n (StartGroup g) l)"
    "refines ready ok ts (perfmon_stopGroupCounters E g s) (life_call n (StopGroup g) l)"
    using start_refines [OF assms] stop_refines [OF assms] assms unfolding eq by (simp_all add: refines_def)
qed

lemma read_refines:
  assumes "living ready ok ts l s"
  shows "refines ready ok ts (perfmon_readCounters E s) (life_read l)"
proof -
  obtain gs where gs: "groupSet s = Some gs" "perfmon_initialized s" "lf_active l = activeGroup gs" "threads gs = ts"
      "length (lf_states l) = numberOfActiveGroups gs" using assms by (rule livingE)
  consider "lf_active l = - 1" | "0 \<le> lf_active l" "lf_active l < int (length (lf_states l))" using living_active [OF assms] by blast
  then show ?thesis
  proof cases
    case 1
    then show ?thesis using gs
      by (simp add: perfmon_readCounters_def readCounters_def refines_def life_read_def life_state_def group_state_def arr_get_def)
  next
    case 2
    then have st: "life_state l = Some (lf_states l ! nat (lf_active l))" by (simp add: life_state_Some)
    obtain s1 where "each_thread (call_arch (perfmon_readCountersThread (arch_funs E)) (lf_active l)) [0..<length ts] s = Some (None, s1)" "living ready ok ts l s1"
      using all_threads_living [OF assms 2 upt_threads] by auto
    then show ?thesis using gs 2 st assms group_state_living [OF assms 2(2)]
      by (simp add: perfmon_readCounters_def readCounters_def refines_def life_read_def)
  qed
qed

lemma refines_Some: "refines ready ok ts r (Some (v, l)) \<longleftrightarrow> (\<exists>s. r = Some (v, s) \<and> living ready ok ts l s)"
  by (simp add: refines_def)

lemma refines_None: "refines ready ok ts r None \<longleftrightarrow> r = None"
  by (simp add: refines_def)

lemma refines_bind:
  assumes "refines ready ok ts r rl" "\<And>v s l. \<lbrakk>r = Some (v, s); rl = Some (v, l); living ready ok ts l s\<rbrakk> \<Longrightarrow> refines ready ok ts (k v s) (kl v l)"
  shows "refines ready ok ts (do { (v, s) \<leftarrow> r; k v s }) (do { (v, l) \<leftarrow> rl; kl v l })"
  using assms by (cases rl) (auto simp: refines_Some refines_None)

text \<open>The first part of a switch for a thread, until the new group is set up.\<close>

lemma switch_stop_living:
  assumes "living ready ok ts l s" "life_state l = Some st" "t < length ts"
  shows "\<exists>s1 s2 s3. stop_timer E (lf_active l) s = Some s1 \<and> update_group (lf_active l) (add_time (timers s1)) s1 = Some s2 \<and>
    group_state (lf_active l) s2 = Some st \<and>
    leave_group E (lf_active l) t st s2 = Some s3 \<and>
    living ready ok ts (if st = STATE_START then snd (the (life_stop l)) else l) s3"
proof -
  let ?g = "lf_active l"
  have g: "0 \<le> ?g" "?g < int (length (lf_states l))" "lf_states l ! nat ?g = st" using assms(2) by (auto simp: life_state_Some)
  obtain s1 where s1: "stop_timer E ?g s = Some s1" "living ready ok ts l s1" using timer_living(2) [OF assms(1) g(1,2)] by blast
  obtain s2 where s2: "update_group ?g (add_time (timers s1)) s1 = Some s2" "living ready ok ts l s2"
    using update_group_living [OF s1(2) g(1,2), of "add_time (timers s1)" "\<lambda>x. x"] by (auto simp: add_time_def ok_frame)
  have st: "group_state ?g s2 = Some st" using group_state_living [OF s2(2) g(2)] g by simp
  obtain gs2 where gs2: "groupSet s2 = Some gs2" "gs_inv ok gs2" "threads gs2 = ts" "length (lf_states l) = numberOfActiveGroups gs2"
      "lf_states l = map gs_state (take (numberOfActiveGroups gs2) (groups gs2))" "ready ts (pm s2)"
    using s2(2) by (rule livingE)
  let ?x = "groups gs2 ! nat ?g"
  have x: "arr_get (groups gs2) ?g = Some ?x" "ok ts ?x" "gs_state ?x = st"
    using gs2 g by (auto simp: arr_get_def gs_inv_def)
  obtain es where es: "clear_inits t (gs_numberOfEvents ?x) (gs_events ?x) = Some es" "ok ts (?x\<lparr>gs_events := es\<rparr>)"
    using clear_law [OF x(2) assms(3)] by blast
  let ?c = "s2\<lparr>groupSet := Some (gs2\<lparr>groups := (groups gs2)[nat ?g := ?x\<lparr>gs_events := es\<rparr>]\<rparr>), pm := pm s2\<rparr>"
  have "gs_state (?x\<lparr>gs_events := es\<rparr>) = lf_states l ! nat ?g" using x(3) g(3) by simp
  then have c: "living ready ok ts l ?c"
    using living_replace [OF s2(2) gs2(1) g(1,2) es(2) refl gs2(6)] by (simp only: life_update_same)
  obtain s3 where s3: "perfmon_stopCounters E s2 = Some (fst (the (life_stop l)), s3)" "living ready ok ts (snd (the (life_stop l))) s3"
    using stop_refines [OF s2(2)] by (auto simp: refines_def life_stop_def split: if_splits)
  have "\<exists>s'. leave_group E ?g t st s2 = Some s' \<and> living ready ok ts (if st = STATE_START then snd (the (life_stop l)) else l) s'"
  proof (cases st)
    case STATE_SETUP
    then show ?thesis using gs2(1) x(1) es(1) c by (simp add: leave_group_def update_group_def)
  qed (use s2(2) s3 in \<open>simp_all add: leave_group_def\<close>)
  then show ?thesis using s1(1) s2(1) st by blast
qed

lemma switch_thread_refines:
  assumes "living ready ok ts l s" "t < length ts"
  shows "refines ready ok ts (switchActiveGroupThread E g t s) (life_switch_thread g l)"
proof -
  obtain gs where gs: "groupSet s = Some gs" "perfmon_initialized s" "lf_active l = activeGroup gs" using assms(1) by (rule livingE)
  show ?thesis
  proof (cases "life_state l")
    case None
    then have "lf_active l = - 1" using living_active [OF assms(1)] by (auto simp: life_state_def arr_get_None)
    then show ?thesis using gs None
      by (simp add: refines_def switchActiveGroupThread_def life_switch_thread_def stop_timer_def arr_get_def)
  next
    case (Some st)
    let ?l = "if st = STATE_START then snd (the (life_stop l)) else l"
    obtain s1 s2 s3 where s: "stop_timer E (lf_active l) s = Some s1" "update_group (lf_active l) (add_time (timers s1)) s1 = Some s2"
        "group_state (lf_active l) s2 = Some st"
        "leave_group E (lf_active l) t st s2 = Some s3" "living ready ok ts ?l s3"
      using switch_stop_living [OF assms(1) Some assms(2)] by blast
    have s3: "switchActiveGroupThread E g t s = do {
          (ret, s4) \<leftarrow> perfmon_setupCounters E g s3;
          if ret \<noteq> 0 then Some (ret, s4) else if st = STATE_START then perfmon_startCounters E s4 else Some (0, s4) }"
      using gs s(1-4) by (simp add: switchActiveGroupThread_def Let_def)
    have l: "life_switch_thread g l = do {
        (ret, l2) \<leftarrow> life_setup g ?l;
        if ret \<noteq> 0 then Some (ret, l2) else if st = STATE_START then life_start l2 else Some (0, l2) }"
      using Some by (simp add: life_switch_thread_def life_stop_def)
    show ?thesis
      unfolding s3 l
      by (rule refines_bind [OF setup_refines [OF s(5)]]) (use start_refines in \<open>auto simp: refines_Some\<close>)
  qed
qed

lemma each_thread_refines:
  assumes "living ready ok ts l s" "set js \<subseteq> {..<length ts}"
    and "\<And>t l s. \<lbrakk>living ready ok ts l s; t < length ts\<rbrakk> \<Longrightarrow> refines ready ok ts (body t s) (lbody t l)"
  shows "case each_thread lbody js l of
      None \<Rightarrow> each_thread body js s = None
    | Some (r, l') \<Rightarrow> \<exists>s'. each_thread body js s = Some (r, s') \<and> living ready ok ts l' s'"
  using assms(1,2)
proof (induction js arbitrary: l s)
  case (Cons t js)
  have t: "refines ready ok ts (body t s) (lbody t l)" using assms(3) Cons.prems by simp
  show ?case
  proof (cases "lbody t l")
    case None
    then show ?thesis using t by (simp add: refines_None)
  next
    case (Some vl)
    obtain v l1 where v: "vl = (v, l1)" by fastforce
    then obtain s1 where s1: "body t s = Some (v, s1)" "living ready ok ts l1 s1" using t Some by (auto simp: refines_Some)
    show ?thesis using Some v s1 Cons.IH [OF s1(2)] Cons.prems(2) by (auto split: option.splits)
  qed
qed simp

lemma switch_refines:
  assumes "living ready ok ts l s"
  shows "refines ready ok ts (perfmon_switchActiveGroup E g s) (life_switch (length ts) g l)"
proof -
  obtain gs where gs: "groupSet s = Some gs" using assms by (rule livingE)
  show ?thesis
    using each_thread_refines [where body = "switchActiveGroupThread E g" and lbody = "\<lambda>t. life_switch_thread g",
        OF assms upt_threads switch_thread_refines] gs living_thread_ids [OF assms gs]
    by (auto simp: perfmon_switchActiveGroup_def life_switch_def refines_def split: option.splits)
qed

lemma call_refines: "living ready ok ts l s \<Longrightarrow> refines ready ok ts (perfmon_call E c s) (life_call (length ts) c l)"
  using setup_refines start_refines stop_refines read_refines switch_refines
    group_calls_refine [where n = "length ts"] by (cases c) simp_all

lemma run_refines:
  assumes "living ready ok ts l s"
  shows "refines ready ok ts (perfmon_run E cs s) (life_run (length ts) cs l)"
  using assms
proof (induction cs arbitrary: l s)
  case (Cons c cs)
  show ?case
  proof (cases "life_call (length ts) c l")
    case None
    then show ?thesis using call_refines [OF Cons.prems, of c] by (simp add: refines_def)
  next
    case (Some vl)
    obtain v l1 where v: "vl = (v, l1)" by fastforce
    then obtain s1 where s1: "perfmon_call E c s = Some (v, s1)" "living ready ok ts l1 s1"
      using call_refines [OF Cons.prems, of c] Some by (auto simp: refines_def)
    show ?thesis using Cons.IH [OF s1(2)] Some v s1(1) by (auto simp: refines_def split: option.splits)
  qed
qed (simp add: refines_def)

end

end
