(* ===== verification/Perfmon_K10.thy ===== *)
theory Perfmon_K10
  imports Perfmon_Arch Access_Properties
begin

text \<open>
  The module for AMD K10 (and K8) processors, \<open>src/src/includes/perfmon_k10.h\<close>, with its tables in
  \<open>perfmon_k10_counters.h\<close>. The locale \<open>msr_machine\<close> shows, over any register file that satisfies the
  contract of the access layer, what setting up, starting, reading, stopping and finalizing the
  counters of one thread do to the registers and to the counter data.
\<close>

section \<open>Tables\<close>

definition K10_VALID_OPTIONS_PMC :: u64 where
  "K10_VALID_OPTIONS_PMC =
     OPTIONS_TYPE_MASK EVENT_OPTION_EDGE OR OPTIONS_TYPE_MASK EVENT_OPTION_COUNT_KERNEL OR
     OPTIONS_TYPE_MASK EVENT_OPTION_INVERT OR of_nat (option_number EVENT_OPTION_THRESHOLD)"

definition k10_counter :: "string \<Rightarrow> nat \<Rightarrow> u32 \<Rightarrow> u32 \<Rightarrow> RegisterMap" where
  "k10_counter key index config counter =
     \<lparr>rm_key = key, rm_index = index, rm_type = PMC, rm_configRegister = ucast config, rm_counterRegister = ucast counter,
      rm_counterRegister2 = 0, rm_device = 0, rm_optionMask = K10_VALID_OPTIONS_PMC\<rparr>"

definition k10_counter_map :: "RegisterMap list" where
  "k10_counter_map = [
     k10_counter ''PMC0'' 0 MSR_AMD_PERFEVTSEL0 MSR_AMD_PMC0,
     k10_counter ''PMC1'' 1 MSR_AMD_PERFEVTSEL1 MSR_AMD_PMC1,
     k10_counter ''PMC2'' 2 MSR_AMD_PERFEVTSEL2 MSR_AMD_PMC2,
     k10_counter ''PMC3'' 3 MSR_AMD_PERFEVTSEL3 MSR_AMD_PMC3]"

definition box_zero :: BoxMap where
  "box_zero = \<lparr>bm_ctrlRegister = 0, bm_statusRegister = 0, bm_ovflRegister = 0, bm_ovflOffset = 0, bm_isPci = False,
     bm_device = 0, bm_regWidth = 0, bm_filterRegister1 = 0, bm_filterRegister2 = 0\<rparr>"

definition k10_box_map :: "BoxMap list" where
  "k10_box_map = (replicate (register_number NUM_UNITS) box_zero)
     [register_number PMC := box_zero\<lparr>bm_regWidth := 48\<rparr>]"

section \<open>Operations\<close>

text \<open>The bits an option sets in the control register.\<close>

definition k10_option_flags :: "PerfmonEventOption \<Rightarrow> u64" where
  "k10_option_flags opt =
     (case po_type opt of
        EVENT_OPTION_EDGE \<Rightarrow> push_bit 18 1
      | EVENT_OPTION_COUNT_KERNEL \<Rightarrow> push_bit 17 1
      | EVENT_OPTION_INVERT \<Rightarrow> push_bit 23 1
      | EVENT_OPTION_THRESHOLD \<Rightarrow>
          (if po_value opt AND 0xFF < 0x04 then push_bit 24 (po_value opt AND 0xFF) else 0)
      | _ \<Rightarrow> 0)"

definition k10_pmc_flags :: "PerfmonEvent \<Rightarrow> u64 option" where
  "k10_pmc_flags event =
     (if ev_numberOfOptions event \<le> length (ev_options event) then
        Some (foldl (\<lambda>flags opt. flags OR k10_option_flags opt)
          (push_bit 16 1 OR
           (push_bit 32 (ucast (drop_bit 8 (ev_eventId event))) + push_bit 8 (ucast (ev_umask event)) +
            ucast ((ucast (ev_eventId event) :: u32) AND NOT 0xF00)))
          (take (ev_numberOfOptions event) (ev_options event)))
      else None)"

definition k10_pmc_setup ::
  "'m hpm_ops \<Rightarrow> RegisterMap list \<Rightarrow> int \<Rightarrow> nat \<Rightarrow> PerfmonEvent \<Rightarrow> 'm pm_state \<Rightarrow> (int \<times> 'm pm_state) option" where
  "k10_pmc_setup H cm cpu_id index event a = do {
     flags \<leftarrow> k10_pmc_flags event;
     config \<leftarrow> config_get cpu_id index a;
     if flags \<noteq> config then do {
       rm \<leftarrow> arr_get cm (int index);
       (ret, m) \<leftarrow> hp_write H cpu_id 0 (ucast (rm_configRegister rm)) flags (machine a);
       if ret < 0 then Some (hp_errno H m, a\<lparr>machine := m\<rparr>)
       else do {
         a' \<leftarrow> config_set cpu_id index flags (a\<lparr>machine := m\<rparr>);
         Some (0, a') } }
     else Some (0, a) }"

definition thread_cpu :: "PerfmonThread list \<Rightarrow> nat \<Rightarrow> int option" where
  "thread_cpu ts thread_id = map_option th_processorId (arr_get ts (int thread_id))"

text \<open>
  For each operation, the statements for one event and the loop over the events of the group. The
  result of \<open>k10_pmc_setup\<close> is ignored.
\<close>

definition k10_setup_event ::
  "'m hpm_ops \<Rightarrow> arch_tables \<Rightarrow> int \<Rightarrow> nat \<Rightarrow> PerfmonEventSet \<Rightarrow> PerfmonEventSetEntry \<Rightarrow> 'm pm_state \<Rightarrow>
   (PerfmonEventSetEntry, 'm pm_state) outcome" where
  "k10_setup_event H T cpu_id thread_id eventSet e a =
     (if \<not> type_in_set eventSet (es_type e) then Some (None, e, a)
      else if es_type e = PMC then do {
        (_, a') \<leftarrow> k10_pmc_setup H (counter_map T) cpu_id (es_index e) (es_event e) a;
        c \<leftarrow> counter_get thread_id e;
        e' \<leftarrow> counter_set thread_id (c\<lparr>pc_init := True\<rparr>) e;
        Some (None, e', a') }
      else Some (None, e, a))"

definition perfmon_setupCounterThread_k10 ::
  "'m hpm_ops \<Rightarrow> arch_tables \<Rightarrow> PerfmonThread list \<Rightarrow> nat \<Rightarrow> PerfmonEventSet \<Rightarrow> 'm pm_state \<Rightarrow>
   (int \<times> PerfmonEventSet \<times> 'm pm_state) option" where
  "perfmon_setupCounterThread_k10 H T ts thread_id eventSet a = do {
     cpu_id \<leftarrow> thread_cpu ts thread_id;
     each_group_event (k10_setup_event H T cpu_id thread_id eventSet) eventSet a }"

definition k10_start_event ::
  "'m hpm_ops \<Rightarrow> arch_tables \<Rightarrow> int \<Rightarrow> nat \<Rightarrow> PerfmonEventSet \<Rightarrow> PerfmonEventSetEntry \<Rightarrow> 'm pm_state \<Rightarrow>
   (PerfmonEventSetEntry, 'm pm_state) outcome" where
  "k10_start_event H T cpu_id thread_id eventSet e a =
     do {
       c \<leftarrow> counter_get thread_id e;
       if \<not> pc_init c then Some (None, e, a)
       else if \<not> type_in_set eventSet (es_type e) then Some (None, e, a)
       else do {
         rm \<leftarrow> arr_get (counter_map T) (int (es_index e));
         let reg = ucast (rm_configRegister rm);
         let counter = ucast (rm_counterRegister rm);
         e' \<leftarrow> counter_set thread_id (c\<lparr>pc_startData := 0, pc_counterData := 0, pc_fullData := 0\<rparr>) e;
         CHECK_MSR_WRITE_ERROR H cpu_id 0 counter 0 e'
           (CHECK_MSR_READ_ERROR H cpu_id 0 reg e' (\<lambda>flags.
              CHECK_MSR_WRITE_ERROR H cpu_id 0 reg (flags OR push_bit 22 1) e' (\<lambda>a. Some (None, e', a)))) a } }"

definition perfmon_startCountersThread_k10 ::
  "'m hpm_ops \<Rightarrow> arch_tables \<Rightarrow> PerfmonThread list \<Rightarrow> nat \<Rightarrow> PerfmonEventSet \<Rightarrow> 'm pm_state \<Rightarrow>
   (int \<times> PerfmonEventSet \<times> 'm pm_state) option" where
  "perfmon_startCountersThread_k10 H T ts thread_id eventSet a = do {
     cpu_id \<leftarrow> thread_cpu ts thread_id;
     each_group_event (k10_start_event H T cpu_id thread_id eventSet) eventSet a }"

text \<open>Taking over the value of a counter register, with the overflow check.\<close>

definition take_count :: "BoxMap \<Rightarrow> nat \<Rightarrow> u64 \<Rightarrow> PerfmonEventSetEntry \<Rightarrow> PerfmonEventSetEntry option" where
  "take_count box thread_id tmp e = do {
     c \<leftarrow> counter_get thread_id e;
     let c' = (if tmp < pc_counterData c then c\<lparr>pc_overflows := pc_overflows c + 1\<rparr> else c);
     data \<leftarrow> field64 tmp 0 (uint (bm_regWidth box));
     counter_set thread_id (c'\<lparr>pc_counterData := data\<rparr>) e }"

definition k10_stop_event ::
  "'m hpm_ops \<Rightarrow> arch_tables \<Rightarrow> int \<Rightarrow> nat \<Rightarrow> PerfmonEventSet \<Rightarrow> PerfmonEventSetEntry \<Rightarrow> 'm pm_state \<Rightarrow>
   (PerfmonEventSetEntry, 'm pm_state) outcome" where
  "k10_stop_event H T cpu_id thread_id eventSet e a =
     do {
       c \<leftarrow> counter_get thread_id e;
       if \<not> pc_init c then Some (None, e, a)
       else if \<not> type_in_set eventSet (es_type e) then Some (None, e, a)
       else do {
         rm \<leftarrow> arr_get (counter_map T) (int (es_index e));
         let reg = ucast (rm_configRegister rm);
         let counter = ucast (rm_counterRegister rm);
         CHECK_MSR_READ_ERROR H cpu_id 0 reg e (\<lambda>flags.
           CHECK_MSR_WRITE_ERROR H cpu_id 0 reg (flags AND NOT (push_bit 22 1)) e
             (CHECK_MSR_READ_ERROR H cpu_id 0 counter e (\<lambda>tmp a. do {
                box \<leftarrow> box_at T (es_type e);
                e' \<leftarrow> take_count box thread_id tmp e;
                Some (None, e', a) }))) a } }"

definition perfmon_stopCountersThread_k10 ::
  "'m hpm_ops \<Rightarrow> arch_tables \<Rightarrow> PerfmonThread list \<Rightarrow> nat \<Rightarrow> PerfmonEventSet \<Rightarrow> 'm pm_state \<Rightarrow>
   (int \<times> PerfmonEventSet \<times> 'm pm_state) option" where
  "perfmon_stopCountersThread_k10 H T ts thread_id eventSet a = do {
     cpu_id \<leftarrow> thread_cpu ts thread_id;
     each_group_event (k10_stop_event H T cpu_id thread_id eventSet) eventSet a }"

definition k10_read_event ::
  "'m hpm_ops \<Rightarrow> arch_tables \<Rightarrow> int \<Rightarrow> nat \<Rightarrow> PerfmonEventSet \<Rightarrow> PerfmonEventSetEntry \<Rightarrow> 'm pm_state \<Rightarrow>
   (PerfmonEventSetEntry, 'm pm_state) outcome" where
  "k10_read_event H T cpu_id thread_id eventSet e a =
     do {
       c \<leftarrow> counter_get thread_id e;
       if \<not> pc_init c then Some (None, e, a)
       else if \<not> type_in_set eventSet (es_type e) then Some (None, e, a)
       else do {
         rm \<leftarrow> arr_get (counter_map T) (int (es_index e));
         CHECK_MSR_READ_ERROR H cpu_id 0 (ucast (rm_counterRegister rm)) e (\<lambda>tmp a. do {
           box \<leftarrow> box_at T (es_type e);
           e' \<leftarrow> take_count box thread_id tmp e;
           Some (None, e', a) }) a } }"

definition perfmon_readCountersThread_k10 ::
  "'m hpm_ops \<Rightarrow> arch_tables \<Rightarrow> PerfmonThread list \<Rightarrow> nat \<Rightarrow> PerfmonEventSet \<Rightarrow> 'm pm_state \<Rightarrow>
   (int \<times> PerfmonEventSet \<times> 'm pm_state) option" where
  "perfmon_readCountersThread_k10 H T ts thread_id eventSet a = do {
     cpu_id \<leftarrow> thread_cpu ts thread_id;
     each_group_event (k10_read_event H T cpu_id thread_id eventSet) eventSet a }"

definition k10_finalize_event ::
  "'m hpm_ops \<Rightarrow> arch_tables \<Rightarrow> int \<Rightarrow> nat \<Rightarrow> PerfmonEventSet \<Rightarrow> PerfmonEventSetEntry \<Rightarrow> 'm pm_state \<Rightarrow>
   (PerfmonEventSetEntry, 'm pm_state) outcome" where
  "k10_finalize_event H T cpu_id thread_id eventSet e a =
     (if \<not> type_in_set eventSet (es_type e) then Some (None, e, a)
      else do {
        rm \<leftarrow> arr_get (counter_map T) (int (es_index e));
        let reg = ucast (rm_configRegister rm);
        let clear = (\<lambda>a. do {
          c \<leftarrow> counter_get thread_id e;
          e' \<leftarrow> counter_set thread_id (c\<lparr>pc_init := False\<rparr>) e;
          Some (None, e', a) });
        if reg \<noteq> 0 then CHECK_MSR_WRITE_ERROR H cpu_id 0 reg 0 e clear a else clear a })"

definition perfmon_finalizeCountersThread_k10 ::
  "'m hpm_ops \<Rightarrow> arch_tables \<Rightarrow> PerfmonThread list \<Rightarrow> nat \<Rightarrow> PerfmonEventSet \<Rightarrow> 'm pm_state \<Rightarrow>
   (int \<times> PerfmonEventSet \<times> 'm pm_state) option" where
  "perfmon_finalizeCountersThread_k10 H T ts thread_id eventSet a = do {
     cpu_id \<leftarrow> thread_cpu ts thread_id;
     each_group_event (k10_finalize_event H T cpu_id thread_id eventSet) eventSet a }"

section \<open>The registers of the counters\<close>

definition k10_ctl :: "nat \<Rightarrow> u32" where
  "k10_ctl i = MSR_AMD_PERFEVTSEL0 + of_nat i"

definition k10_ctr :: "nat \<Rightarrow> u32" where
  "k10_ctr i = MSR_AMD_PMC0 + of_nat i"

lemma less_4_cases: "i < (4 :: nat) \<longleftrightarrow> i = 0 \<or> i = 1 \<or> i = 2 \<or> i = 3"
  by auto

lemma k10_map_at:
  "i < 4 \<Longrightarrow> \<exists>rm. arr_get k10_counter_map (int i) = Some rm \<and>
     ucast (rm_configRegister rm) = k10_ctl i \<and> ucast (rm_counterRegister rm) = k10_ctr i"
  by (auto simp: less_4_cases k10_counter_map_def k10_counter_def arr_get_def k10_ctl_def k10_ctr_def)

lemma k10_regs_distinct [simp]:
  "\<lbrakk>i < 4; j < 4\<rbrakk> \<Longrightarrow> k10_ctl i = k10_ctl j \<longleftrightarrow> i = j"
  "\<lbrakk>i < 4; j < 4\<rbrakk> \<Longrightarrow> k10_ctr i = k10_ctr j \<longleftrightarrow> i = j"
  "\<lbrakk>i < 4; j < 4\<rbrakk> \<Longrightarrow> k10_ctl i \<noteq> k10_ctr j"
  "\<lbrakk>i < 4; j < 4\<rbrakk> \<Longrightarrow> k10_ctr i \<noteq> k10_ctl j"
  by (auto simp: less_4_cases k10_ctl_def k10_ctr_def)

definition k10_tables :: "arch_tables \<Rightarrow> bool" where
  "k10_tables T \<longleftrightarrow> counter_map T = k10_counter_map \<and> box_map T = Some k10_box_map"

lemma register_number_PMC [simp]: "register_number PMC = 0"
  by (simp add: register_number_def RegisterTypes_def)

lemma register_number_NUM_UNITS [simp]: "register_number NUM_UNITS = 64"
  by (simp add: register_number_def RegisterTypes_def)

lemma k10_box_PMC: "k10_tables T \<Longrightarrow> box_at T PMC = Some (box_zero\<lparr>bm_regWidth := 48\<rparr>)"
  by (simp add: k10_tables_def box_at_def k10_box_map_def arr_get_def)

text \<open>Groups of K10 events: every used entry has counters for the thread, and is a core counter or skipped.\<close>

definition k10_entry :: "nat \<Rightarrow> PerfmonEventSetEntry \<Rightarrow> bool" where
  "k10_entry t e \<longleftrightarrow> counter_get t e \<noteq> None \<and> es_index e < 4 \<and>
     (es_type e = NOTYPE \<or> es_type e = PMC \<and> ev_numberOfOptions (es_event e) \<le> length (ev_options (es_event e)))"

definition k10_group :: "nat \<Rightarrow> PerfmonEventSet \<Rightarrow> bool" where
  "k10_group t eventSet \<longleftrightarrow> gs_numberOfEvents eventSet \<le> length (gs_events eventSet) \<and>
     (\<forall>e\<in>set (take (gs_numberOfEvents eventSet) (gs_events eventSet)). k10_entry t e)"

text \<open>The entries that are measured for a thread, and their counters.\<close>

definition k10_counting :: "PerfmonEventSet \<Rightarrow> nat \<Rightarrow> PerfmonEventSetEntry \<Rightarrow> bool" where
  "k10_counting eventSet t e \<longleftrightarrow> type_in_set eventSet (es_type e) \<and> (\<exists>c. counter_get t e = Some c \<and> pc_init c)"

lemma type_in_set_NOTYPE [simp]: "\<not> type_in_set eventSet NOTYPE"
  by (simp add: type_in_set_def REG_TYPE_MASK_def register_number_def RegisterTypes_def)

section \<open>Abstract effect\<close>

text \<open>The indices of the counters that are measured for thread \<open>t\<close> among the entries \<open>es\<close>.\<close>

definition k10_used :: "PerfmonEventSet \<Rightarrow> nat \<Rightarrow> PerfmonEventSetEntry list \<Rightarrow> nat set" where
  "k10_used eventSet t es = es_index ` {e \<in> set es. k10_counting eventSet t e}"

definition k10_started :: "nat set \<Rightarrow> (u32 \<Rightarrow> u64) \<Rightarrow> u32 \<Rightarrow> u64" where
  "k10_started A R r = (if r \<in> k10_ctr ` A then 0 else if r \<in> k10_ctl ` A then R r OR push_bit 22 1 else R r)"

definition k10_stopped :: "nat set \<Rightarrow> (u32 \<Rightarrow> u64) \<Rightarrow> u32 \<Rightarrow> u64" where
  "k10_stopped A R r = (if r \<in> k10_ctl ` A then R r AND NOT (push_bit 22 1) else R r)"

definition k10_start_entry :: "PerfmonEventSet \<Rightarrow> nat \<Rightarrow> PerfmonEventSetEntry \<Rightarrow> PerfmonEventSetEntry" where
  "k10_start_entry eventSet t e =
     (if k10_counting eventSet t e
      then with_counter t ((the (counter_get t e))\<lparr>pc_startData := 0, pc_counterData := 0, pc_fullData := 0\<rparr>) e else e)"

definition k10_count :: "u64 \<Rightarrow> PerfmonCounter \<Rightarrow> PerfmonCounter" where
  "k10_count v c = c\<lparr>pc_overflows := (if v < pc_counterData c then pc_overflows c + 1 else pc_overflows c),
     pc_counterData := v AND mask 48\<rparr>"

definition k10_read_entry :: "PerfmonEventSet \<Rightarrow> nat \<Rightarrow> (u32 \<Rightarrow> u64) \<Rightarrow> PerfmonEventSetEntry \<Rightarrow> PerfmonEventSetEntry" where
  "k10_read_entry eventSet t R e =
     (if k10_counting eventSet t e then with_counter t (k10_count (R (k10_ctr (es_index e))) (the (counter_get t e))) e else e)"

definition k10_cleared :: "nat set \<Rightarrow> (u32 \<Rightarrow> u64) \<Rightarrow> u32 \<Rightarrow> u64" where
  "k10_cleared A R r = (if r \<in> k10_ctl ` A then 0 else R r)"

definition k10_clear_entry :: "PerfmonEventSet \<Rightarrow> nat \<Rightarrow> PerfmonEventSetEntry \<Rightarrow> PerfmonEventSetEntry" where
  "k10_clear_entry eventSet t e =
     (if type_in_set eventSet (es_type e) then with_counter t ((the (counter_get t e))\<lparr>pc_init := False\<rparr>) e else e)"

definition k10_setup_entry :: "PerfmonEventSet \<Rightarrow> nat \<Rightarrow> PerfmonEventSetEntry \<Rightarrow> PerfmonEventSetEntry" where
  "k10_setup_entry eventSet t e =
     (if type_in_set eventSet (es_type e) \<and> es_type e = PMC
      then with_counter t ((the (counter_get t e))\<lparr>pc_init := True\<rparr>) e else e)"

definition k10_indices :: "PerfmonEventSet \<Rightarrow> nat set" where
  "k10_indices g = es_index ` {e \<in> set (take (gs_numberOfEvents g) (gs_events g)). type_in_set g (es_type e)}"

text \<open>No two events of the group use the same counter.\<close>

definition k10_distinct :: "PerfmonEventSet \<Rightarrow> bool" where
  "k10_distinct g \<longleftrightarrow> (\<forall>j<gs_numberOfEvents g. \<forall>i<j. type_in_set g (es_type (gs_events g ! i)) \<and> type_in_set g (es_type (gs_events g ! j)) \<longrightarrow>
     es_index (gs_events g ! i) \<noteq> es_index (gs_events g ! j))"

lemma k10_group_nth:
  "\<lbrakk>k10_group t g; k < gs_numberOfEvents g\<rbrakk> \<Longrightarrow> k < length (gs_events g) \<and> k10_entry t (gs_events g ! k)"
  by (force simp: k10_group_def in_set_conv_nth)

text \<open>A group whose used entries are mapped by \<open>f\<close>.\<close>

definition loop_result :: "PerfmonEventSet \<Rightarrow> (PerfmonEventSetEntry \<Rightarrow> PerfmonEventSetEntry) \<Rightarrow> PerfmonEventSet" where
  "loop_result g f = g\<lparr>gs_events := map f (take (gs_numberOfEvents g) (gs_events g)) @ drop (gs_numberOfEvents g) (gs_events g)\<rparr>"

lemma image_filter_take_Suc:
  "k < length es \<Longrightarrow> f ` {e \<in> set (take (Suc k) es). Q e} =
     (if Q (es ! k) then insert (f (es ! k)) (f ` {e \<in> set (take k es). Q e}) else f ` {e \<in> set (take k es). Q e})"
  by (auto simp: take_Suc_conv_app_nth)

lemma k10_started_insert:
  assumes "A \<subseteq> {..<4}" "i < 4"
  shows "(k10_started A R)(k10_ctr i := 0, k10_ctl i := k10_started A R (k10_ctl i) OR push_bit 22 1) = k10_started (insert i A) R"
  using assms by (fastforce simp: k10_started_def fun_eq_iff subset_iff or.assoc)

lemma k10_stopped_insert:
  assumes "A \<subseteq> {..<4}" "i < 4"
  shows "(k10_stopped A R)(k10_ctl i := k10_stopped A R (k10_ctl i) AND NOT (push_bit 22 1)) = k10_stopped (insert i A) R"
  using assms by (fastforce simp: k10_stopped_def fun_eq_iff subset_iff and.assoc)

lemma k10_cleared_insert: "(k10_cleared A R)(k10_ctl i := 0) = k10_cleared (insert i A) R"
  by (auto simp: k10_cleared_def fun_eq_iff)

lemma k10_ctl_nonzero: "i < 4 \<Longrightarrow> k10_ctl i \<noteq> 0"
  by (auto simp: less_4_cases k10_ctl_def)

lemma field64_48: "field64 v 0 48 = Some (v AND mask 48)"
  by (simp add: field64_def c_shr_def drop_bit_minus_one_mask)

lemma take_count_k10:
  "counter_get t e = Some c \<Longrightarrow>
     take_count (box_zero\<lparr>bm_regWidth := 48\<rparr>) t v e = Some (with_counter t (k10_count v c) e)"
  by (simp add: take_count_def field64_48 counter_set_eq k10_count_def)

section \<open>The value of a control register\<close>

lemma foldl_or_bit: "bit (foldl (\<lambda>a x. a OR f x) a xs :: u64) n \<longleftrightarrow> bit a n \<or> (\<exists>x\<in>set xs. bit (f x) n)"
  by (induction xs arbitrary: a) (auto simp: bit_simps)

lemma small_word_bits:
  assumes "unat (w :: 'a::len word) < 2 ^ k" "bit w n"
  shows "n < k"
proof -
  have "bit (unat w) n" using assms(2) by (simp add: bit_unsigned_iff)
  then have "unat w div 2 ^ n \<noteq> 0" unfolding bit_iff_odd by (metis even_zero)
  then have "2 ^ n \<le> unat w" by (metis div_less linorder_not_less)
  then have "(2 :: nat) ^ n < 2 ^ k" using assms(1) by (rule le_less_trans)
  then show ?thesis by (simp add: power_strict_increasing_iff)
qed

lemma k10_option_flags_bits:
  "bit (k10_option_flags opt) n \<Longrightarrow> n \<in> {17, 18, 23, 24, 25}"
proof -
  assume n: "bit (k10_option_flags opt) n"
  have t: "n \<in> {24, 25}" if "po_value opt AND 0xFF < 0x04" "bit (push_bit 24 (po_value opt AND 0xFF) :: u64) n"
  proof -
    have "unat (po_value opt AND 0xFF) < 2 ^ 2" using that(1) by (simp add: word_less_nat_alt)
    moreover have "24 \<le> n" "bit (po_value opt AND 0xFF) (n - 24)" using that(2) unfolding bit_push_bit_iff by blast+
    ultimately have "24 \<le> n" "n - 24 < 2" using small_word_bits by blast+
    then show ?thesis by auto
  qed
  have one: "bit (push_bit k 1 :: u64) n \<Longrightarrow> n = k" for k
    unfolding bit_push_bit_iff bit_1_iff by auto
  have "k10_option_flags opt = 0 \<or> k10_option_flags opt = push_bit 17 1 \<or> k10_option_flags opt = push_bit 18 1 \<or>
      k10_option_flags opt = push_bit 23 1 \<or>
      po_value opt AND 0xFF < 0x04 \<and> k10_option_flags opt = push_bit 24 (po_value opt AND 0xFF)"
    by (cases "po_type opt") (simp_all add: k10_option_flags_def)
  then show ?thesis
    using n t one [of 17] one [of 18] one [of 23] by (elim disjE conjE) (simp_all only: bit_0_eq, blast+)
qed

text \<open>The part of the control register that does not depend on the options.\<close>

definition k10_base :: "PerfmonEvent \<Rightarrow> u64" where
  "k10_base event = push_bit 16 1 OR
     (push_bit 32 (ucast (drop_bit 8 (ev_eventId event))) + push_bit 8 (ucast (ev_umask event)) +
      ucast ((ucast (ev_eventId event) :: u32) AND NOT 0xF00))"

lemma take_bit_self_bound:
  assumes "take_bit k w = (w :: 'a::len word)"
  shows "unat w < 2 ^ k"
proof -
  have "unat w = take_bit k (unat w)" using unsigned_take_bit_eq [of k w, where 'a = nat] assms by simp
  then show ?thesis using take_bit_nat_less_exp [of k "unat w"] by simp
qed

lemma k10_low_bits:
  "bit (ucast ((ucast eventId :: u32) AND NOT 0xF00) :: u64) n \<longleftrightarrow> bit (eventId :: u16) n \<and> \<not> (8 \<le> n \<and> n < 12)"
proof -
  have eq: "(0xF00 :: u32) = push_bit 8 (mask 4)" by (simp add: mask_eq_exp_minus_1)
  have f: "bit (0xF00 :: u32) n \<longleftrightarrow> 8 \<le> n \<and> n < 12" unfolding eq bit_push_bit_iff bit_mask_iff by auto
  show ?thesis
    unfolding bit_ucast_iff bit_and_iff bit_not_iff f by (auto dest: bit_imp_le_length)
qed

lemma k10_low_part:
  "unat (push_bit 8 (ucast (umask :: u8)) + ucast ((ucast (eventId :: u16) :: u32) AND NOT 0xF00) :: u64) < 2 ^ 17"
proof -
  let ?a = "push_bit 8 (ucast umask) :: u64" and ?b = "ucast ((ucast eventId :: u32) AND NOT 0xF00) :: u64"
  have "take_bit 16 ?a = ?a"
    by (rule bit_word_eqI) (auto simp: bit_take_bit_iff bit_push_bit_iff bit_ucast_iff dest: bit_imp_le_length)
  moreover have "take_bit 16 ?b = ?b"
    by (rule bit_word_eqI) (simp only: bit_take_bit_iff k10_low_bits, auto dest: bit_imp_le_length)
  ultimately have "take_bit 16 ?a = ?a" "take_bit 16 ?b = ?b" .
  then have "unat ?a < 2 ^ 16" "unat ?b < 2 ^ 16"
    by (simp_all only: take_bit_self_bound)
  moreover have "unat (?a + ?b) \<le> unat ?a + unat ?b" by (simp add: unat_word_ariths(1))
  moreover have "\<lbrakk>x < 2 ^ 16; y < 2 ^ 16; z \<le> x + y\<rbrakk> \<Longrightarrow> z < 2 ^ 17" for x y z :: nat by simp
  ultimately show ?thesis by blast
qed

lemma k10_base_bit:
  "bit (k10_base event) n \<longleftrightarrow> n = 16 \<or> 32 \<le> n \<and> bit (ev_eventId event) (n - 24) \<or>
     bit (push_bit 8 (ucast (ev_umask event)) + ucast ((ucast (ev_eventId event) :: u32) AND NOT 0xF00) :: u64) n"
proof -
  let ?h = "push_bit 32 (ucast (drop_bit 8 (ev_eventId event))) :: u64"
    and ?l = "push_bit 8 (ucast (ev_umask event)) + ucast ((ucast (ev_eventId event) :: u32) AND NOT 0xF00) :: u64"
  have "?h AND ?l = 0"
  proof (rule bit_word_eqI)
    fix n show "bit (?h AND ?l) n \<longleftrightarrow> bit (0 :: u64) n"
      using small_word_bits [OF k10_low_part, of "ev_umask event" "ev_eventId event" n]
      unfolding bit_and_iff bit_push_bit_iff by auto
  qed
  then have "k10_base event = push_bit 16 1 OR (?h OR ?l)"
    unfolding k10_base_def by (simp only: add.assoc disjunctive_add_eq_or)
  moreover have "bit ?h n \<longleftrightarrow> 32 \<le> n \<and> bit (ev_eventId event) (n - 24)"
    unfolding bit_push_bit_iff bit_ucast_iff bit_drop_bit_eq comp_def
    by (auto dest: bit_imp_le_length simp: le_diff_conv2 add.commute)
  moreover have "bit (push_bit 16 1 :: u64) n \<longleftrightarrow> n = 16"
    unfolding bit_push_bit_iff bit_1_iff by auto
  ultimately show ?thesis by (simp only: bit_or_iff)
qed

lemma k10_flags_bit:
  assumes "k10_pmc_flags event = Some flags"
  shows "bit flags n \<longleftrightarrow> bit (k10_base event) n \<or>
    (\<exists>opt\<in>set (take (ev_numberOfOptions event) (ev_options event)). bit (k10_option_flags opt) n)"
  using assms unfolding k10_pmc_flags_def k10_base_def [symmetric] by (auto simp: foldl_or_bit split: if_splits)

lemma k10_pmc_flags_enable:
  assumes "k10_pmc_flags event = Some flags"
  shows "bit flags 16" "\<not> bit flags 22"
  using small_word_bits [OF k10_low_part, of "ev_umask event" "ev_eventId event" 22]
  by (auto simp: k10_flags_bit [OF assms] k10_base_bit dest: k10_option_flags_bits)

lemma and_not_single: "\<not> bit w n \<Longrightarrow> w AND NOT (push_bit n 1) = (w :: 'a::len word)"
  by (rule bit_word_eqI) (auto simp: bit_simps)

text \<open>Event ids of at most 12 bits.\<close>

lemma k10_base_fields:
  assumes "ev_eventId event < 0x1000"
  shows "bit (k10_base event) n \<longleftrightarrow> n < 8 \<and> bit (ev_eventId event) n \<or> 8 \<le> n \<and> bit (ev_umask event) (n - 8) \<or>
    n = 16 \<or> 32 \<le> n \<and> bit (ev_eventId event) (n - 24)"
proof -
  let ?a = "push_bit 8 (ucast (ev_umask event)) :: u64" and ?b = "ucast ((ucast (ev_eventId event) :: u32) AND NOT 0xF00) :: u64"
  have "unat (ev_eventId event) < 2 ^ 12" using assms by (simp add: word_less_nat_alt)
  then have b: "bit ?b n \<longleftrightarrow> n < 8 \<and> bit (ev_eventId event) n" for n
    using small_word_bits [of "ev_eventId event" 12 n] unfolding k10_low_bits by auto
  have a: "bit ?a n \<longleftrightarrow> 8 \<le> n \<and> bit (ev_umask event) (n - 8)" for n
    unfolding bit_push_bit_iff bit_ucast_iff by (auto dest: bit_imp_le_length)
  have "?a AND ?b = 0" by (rule bit_word_eqI) (simp only: bit_and_iff a b, auto)
  then have "bit (?a + ?b) n \<longleftrightarrow> n < 8 \<and> bit (ev_eventId event) n \<or> 8 \<le> n \<and> bit (ev_umask event) (n - 8)"
    by (simp only: disjunctive_add_eq_or bit_or_iff a b) blast
  then show ?thesis unfolding k10_base_bit by blast
qed

lemma k10_option_flags_bit:
  "bit (k10_option_flags opt) 17 \<longleftrightarrow> po_type opt = EVENT_OPTION_COUNT_KERNEL"
  "bit (k10_option_flags opt) 18 \<longleftrightarrow> po_type opt = EVENT_OPTION_EDGE"
  "bit (k10_option_flags opt) 23 \<longleftrightarrow> po_type opt = EVENT_OPTION_INVERT"
  by (cases "po_type opt"; simp add: k10_option_flags_def bit_simps)+

section \<open>Effect on a register file\<close>

text \<open>
  Over any register file: \<open>good\<close> holds of its states, \<open>acc\<close> tells the accessible registers and \<open>regs\<close> their
  values. In \<open>holds\<close>, the registers of processor \<open>c\<close> are \<open>F\<close>, those of the others as in \<open>m0\<close>.
\<close>

definition holds ::
  "('m \<Rightarrow> bool) \<Rightarrow> ('m \<Rightarrow> nat \<Rightarrow> u32 \<Rightarrow> bool) \<Rightarrow> ('m \<Rightarrow> nat \<Rightarrow> u32 \<Rightarrow> u64) \<Rightarrow> 'm \<Rightarrow> nat \<Rightarrow> (u32 \<Rightarrow> u64) \<Rightarrow> 'm \<Rightarrow> bool" where
  "holds good acc regs m0 c F m \<longleftrightarrow> good m \<and> acc m = acc m0 \<and>
     (\<forall>c' r. acc m0 c' r \<longrightarrow> regs m c' r = (if c' = c then F r else regs m0 c' r))"

definition k10_acc :: "('m \<Rightarrow> nat \<Rightarrow> u32 \<Rightarrow> bool) \<Rightarrow> 'm \<Rightarrow> nat \<Rightarrow> bool" where
  "k10_acc acc m c \<longleftrightarrow> (\<forall>i<4. acc m c (k10_ctl i) \<and> acc m c (k10_ctr i))"

text \<open>The cached configuration agrees with the control registers, up to the enable bit.\<close>

definition coherent :: "('m \<Rightarrow> nat \<Rightarrow> u32 \<Rightarrow> u64) \<Rightarrow> nat \<Rightarrow> 'm pm_state \<Rightarrow> bool" where
  "coherent regs c a \<longleftrightarrow> (\<forall>i<4. currentConfig a c i \<noteq> 0 \<longrightarrow> regs (machine a) c (k10_ctl i) AND NOT (push_bit 22 1) = currentConfig a c i)"

text \<open>Only the control registers of the counters \<open>A\<close> of processor \<open>c\<close> differ.\<close>

definition same_except ::
  "('m \<Rightarrow> bool) \<Rightarrow> ('m \<Rightarrow> nat \<Rightarrow> u32 \<Rightarrow> bool) \<Rightarrow> ('m \<Rightarrow> nat \<Rightarrow> u32 \<Rightarrow> u64) \<Rightarrow> nat set \<Rightarrow> nat \<Rightarrow>
   'm pm_state \<Rightarrow> 'm pm_state \<Rightarrow> bool" where
  "same_except good acc regs A c a b \<longleftrightarrow> good (machine b) \<and> acc (machine b) = acc (machine a) \<and>
     (\<forall>c' i. c' \<noteq> c \<or> i \<notin> A \<longrightarrow> currentConfig b c' i = currentConfig a c' i) \<and>
     (\<forall>c' r. acc (machine a) c' r \<and> (c' \<noteq> c \<or> r \<notin> k10_ctl ` A) \<longrightarrow> regs (machine b) c' r = regs (machine a) c' r)"

locale msr_machine = register_access inv acc regs "\<lambda>c r. hp_read H (int c) MSR_DEV r" "\<lambda>c r v. hp_write H (int c) MSR_DEV r v"
  for inv :: "'m \<Rightarrow> bool" and acc :: "'m \<Rightarrow> nat \<Rightarrow> u32 \<Rightarrow> bool" and regs :: "'m \<Rightarrow> nat \<Rightarrow> u32 \<Rightarrow> u64"
    and H :: "'m hpm_ops"
begin

lemma holds_refl: "inv m \<Longrightarrow> holds inv acc regs m c (regs m c) m"
  by (simp add: holds_def)

lemma holds_read: "\<lbrakk>holds inv acc regs m0 c F m; acc m0 c r\<rbrakk> \<Longrightarrow> hp_read H (int c) MSR_DEV r m = Some (0, F r, m)"
  using read_law [of m c r] by (simp add: holds_def)

lemma holds_write:
  assumes "holds inv acc regs m0 c F m" "acc m0 c r"
  shows "\<exists>m'. hp_write H (int c) MSR_DEV r v m = Some (0, m') \<and> holds inv acc regs m0 c (F(r := v)) m'"
proof -
  have i: "inv m" "acc m = acc m0" "\<And>c' r. acc m0 c' r \<Longrightarrow> regs m c' r = (if c' = c then F r else regs m0 c' r)"
    using assms(1) by (auto simp: holds_def)
  obtain m' where m': "hp_write H (int c) MSR_DEV r v m = Some (0, m')" "inv m'" "acc m' = acc m"
      "\<And>c' r'. acc m c' r' \<Longrightarrow> regs m' c' r' = (if c' = c \<and> r' = r then v else regs m c' r')"
    using write_law [of m c r v] i(1,2) assms(2) by metis
  then have "holds inv acc regs m0 c (F(r := v)) m'" using i by (auto simp: holds_def)
  then show ?thesis using m'(1) by blast
qed

lemma checked_read:
  "\<lbrakk>holds inv acc regs m0 c F (machine a); acc m0 c r\<rbrakk> \<Longrightarrow> CHECK_MSR_READ_ERROR H (int c) 0 r e rest a = rest (F r) a"
  by (simp add: CHECK_MSR_READ_ERROR_def holds_read)

lemma checked_write:
  assumes "holds inv acc regs m0 c F (machine a)" "acc m0 c r"
  obtains m' where "CHECK_MSR_WRITE_ERROR H (int c) 0 r v e rest a = rest (a\<lparr>machine := m'\<rparr>)" "holds inv acc regs m0 c (F(r := v)) m'"
  using holds_write [OF assms, of v] by (auto simp: CHECK_MSR_WRITE_ERROR_def)

text \<open>The table entry of a counter that is measured.\<close>

lemma counting_map:
  assumes "k10_tables T" "k10_entry t e" "k10_counting g t e"
  obtains rm cn where "arr_get (counter_map T) (int (es_index e)) = Some rm"
    "ucast (rm_configRegister rm) = k10_ctl (es_index e)" "ucast (rm_counterRegister rm) = k10_ctr (es_index e)"
    "counter_get t e = Some cn" "pc_init cn" "type_in_set g PMC" "es_type e = PMC" "es_index e < 4"
  using k10_map_at [of "es_index e"] assms by (auto simp: k10_tables_def k10_entry_def k10_counting_def)

lemma not_counting:
  assumes "k10_entry t e" "\<not> k10_counting g t e"
  shows "k10_start_event H T cpu t g e a = Some (None, e, a)" "k10_stop_event H T cpu t g e a = Some (None, e, a)"
    "k10_read_event H T cpu t g e a = Some (None, e, a)"
  using assms by (auto simp: k10_entry_def k10_counting_def k10_start_event_def k10_stop_event_def k10_read_event_def)

lemma start_event:
  assumes "k10_tables T" "k10_acc acc m0 c" "k10_entry t e" "k10_counting g t e" "holds inv acc regs m0 c F (machine a)"
  shows "\<exists>m'. k10_start_event H T (int c) t g e a = Some (None, k10_start_entry g t e, a\<lparr>machine := m'\<rparr>) \<and>
    holds inv acc regs m0 c (F(k10_ctr (es_index e) := 0, k10_ctl (es_index e) := F (k10_ctl (es_index e)) OR push_bit 22 1)) m'"
proof -
  obtain rm cn where rm: "arr_get (counter_map T) (int (es_index e)) = Some rm"
    "ucast (rm_configRegister rm) = k10_ctl (es_index e)" "ucast (rm_counterRegister rm) = k10_ctr (es_index e)"
    "counter_get t e = Some cn" "pc_init cn" "type_in_set g PMC" "es_type e = PMC" "es_index e < 4"
    using assms(1,3,4) by (rule counting_map)
  then have ac: "acc m0 c (k10_ctr (es_index e))" "acc m0 c (k10_ctl (es_index e))"
    using assms(2) by (auto simp: k10_acc_def)
  let ?i = "es_index e" and ?F = "F(k10_ctr (es_index e) := 0)"
  obtain m1 where m1: "hp_write H (int c) 0 (k10_ctr ?i) 0 (machine a) = Some (0, m1)" "holds inv acc regs m0 c ?F m1"
    using holds_write [OF assms(5) ac(1)] by blast
  obtain m2 where m2: "hp_write H (int c) 0 (k10_ctl ?i) (F (k10_ctl ?i) OR push_bit 22 1) m1 = Some (0, m2)"
      "holds inv acc regs m0 c (?F(k10_ctl ?i := F (k10_ctl ?i) OR push_bit 22 1)) m2"
    using holds_write [OF m1(2) ac(2)] by blast
  have eq: "k10_start_entry g t e = with_counter t (cn\<lparr>pc_startData := 0, pc_counterData := 0, pc_fullData := 0\<rparr>) e"
    using assms(4) rm(4) by (simp add: k10_start_entry_def)
  show ?thesis
    using rm m1(1) m2 holds_read [OF m1(2) ac(2)] counter_set_eq [OF rm(4)]
    by (intro exI [of _ m2])
      (simp add: k10_start_event_def eq CHECK_MSR_WRITE_ERROR_def CHECK_MSR_READ_ERROR_def)
qed

text \<open>
  The loop over the events of a thread, when the statements of an event with property \<open>Q\<close> turn the
  registers \<open>S A\<close> into \<open>S (insert i A)\<close> for its counter \<open>i\<close> and the other events are skipped.
\<close>

lemma group_loop:
  fixes a :: "'m pm_state"
  assumes g: "k10_group t g" "inv (machine a)" "S {} = regs (machine a) c"
    and skip: "\<And>e b. \<lbrakk>k10_entry t e; \<not> Q e\<rbrakk> \<Longrightarrow> event e b = Some (None, f e, b)"
    and step: "\<And>e A b. \<lbrakk>k10_entry t e; Q e; A \<subseteq> {..<4}; holds inv acc regs (machine a) c (S A) (machine b)\<rbrakk> \<Longrightarrow>
      es_index e < 4 \<and> (\<exists>m'. event e b = Some (None, f e, b\<lparr>machine := m'\<rparr>) \<and> holds inv acc regs (machine a) c (S (insert (es_index e) A)) m')"
  shows "\<exists>a'. each_group_event event g a = Some (0, loop_result g f, a') \<and>
    currentConfig a' = currentConfig a \<and>
    holds inv acc regs (machine a) c (S (es_index ` {e \<in> set (take (gs_numberOfEvents g) (gs_events g)). Q e})) (machine a')"
proof -
  let ?U = "\<lambda>k. es_index ` {e \<in> set (take k (gs_events g)). Q e}"
  let ?J = "\<lambda>k (b :: 'm pm_state). currentConfig b = currentConfig a \<and> ?U k \<subseteq> {..<4} \<and> holds inv acc regs (machine a) c (S (?U k)) (machine b)"
  have J0: "?J 0 a" using holds_refl [OF g(2), of c] g(3) by simp
  have "\<exists>a'. each_group_event event g a = Some (0, loop_result g f, a') \<and> ?J (gs_numberOfEvents g) a'"
    unfolding loop_result_def
  proof (rule each_group_event_invariant [where J = ?J, OF _ J0])
    show "gs_numberOfEvents g \<le> length (gs_events g)" using g(1) by (simp add: k10_group_def)
    fix k b
    assume k: "k < gs_numberOfEvents g" and J: "?J k b"
    let ?e = "gs_events g ! k"
    have e: "k < length (gs_events g)" "k10_entry t ?e" using k10_group_nth [OF g(1) k] by simp_all
    have U: "?U (Suc k) = (if Q ?e then insert (es_index ?e) (?U k) else ?U k)"
      using e(1) by (rule image_filter_take_Suc)
    show "\<exists>a'. event ?e b = Some (None, f ?e, a') \<and> ?J (Suc k) a'"
      using J skip [OF e(2), of b] step [OF e(2), of "?U k" b] unfolding U by (cases "Q ?e") auto
  qed
  then show ?thesis by blast
qed

lemma used_eq: "es_index ` {e \<in> set es. k10_counting g t e} = k10_used g t es"
  by (simp add: k10_used_def)

lemma start_correct:
  assumes "k10_tables T" "k10_group t g" "thread_cpu ts t = Some (int c)" "inv (machine a)" "k10_acc acc (machine a) c"
  shows "\<exists>a'. perfmon_startCountersThread_k10 H T ts t g a = Some (0, loop_result g (k10_start_entry g t), a') \<and>
    currentConfig a' = currentConfig a \<and>
    holds inv acc regs (machine a) c (k10_started (k10_used g t (take (gs_numberOfEvents g) (gs_events g))) (regs (machine a) c)) (machine a')"
  unfolding perfmon_startCountersThread_k10_def assms(3) Option.bind.bind_lunit used_eq [symmetric]
proof (rule group_loop [OF assms(2,4)])
  show "k10_started {} (regs (machine a) c) = regs (machine a) c" by (simp add: k10_started_def fun_eq_iff)
  fix e b A
  assume e: "k10_entry t e"
  show "k10_start_event H T (int c) t g e b = Some (None, k10_start_entry g t e, b)" if "\<not> k10_counting g t e"
    using not_counting(1) [OF e that] that by (simp add: k10_start_entry_def)
  assume Q: "k10_counting g t e" and A: "A \<subseteq> {..<4}"
    and h: "holds inv acc regs (machine a) c (k10_started A (regs (machine a) c)) (machine b)"
  have i: "es_index e < 4" using e Q by (auto simp: k10_entry_def k10_counting_def)
  show "es_index e < 4 \<and> (\<exists>m'. k10_start_event H T (int c) t g e b = Some (None, k10_start_entry g t e, b\<lparr>machine := m'\<rparr>) \<and>
      holds inv acc regs (machine a) c (k10_started (insert (es_index e) A) (regs (machine a) c)) m')"
    using start_event [OF assms(1,5) e Q h] i unfolding k10_started_insert [OF A i] by blast
qed

lemma stop_event:
  assumes "k10_tables T" "k10_acc acc m0 c" "k10_entry t e" "k10_counting g t e" "holds inv acc regs m0 c F (machine a)"
    and R: "F (k10_ctr (es_index e)) = R (k10_ctr (es_index e))"
  shows "\<exists>m'. k10_stop_event H T (int c) t g e a = Some (None, k10_read_entry g t R e, a\<lparr>machine := m'\<rparr>) \<and>
    holds inv acc regs m0 c (F(k10_ctl (es_index e) := F (k10_ctl (es_index e)) AND NOT (push_bit 22 1))) m'"
proof -
  obtain rm cn where rm: "arr_get (counter_map T) (int (es_index e)) = Some rm"
    "ucast (rm_configRegister rm) = k10_ctl (es_index e)" "ucast (rm_counterRegister rm) = k10_ctr (es_index e)"
    "counter_get t e = Some cn" "pc_init cn" "type_in_set g PMC" "es_type e = PMC" "es_index e < 4"
    using assms(1,3,4) by (rule counting_map)
  then have ac: "acc m0 c (k10_ctr (es_index e))" "acc m0 c (k10_ctl (es_index e))"
    using assms(2) by (auto simp: k10_acc_def)
  let ?i = "es_index e"
  obtain m1 where m1: "hp_write H (int c) 0 (k10_ctl ?i) (F (k10_ctl ?i) AND NOT (push_bit 22 1)) (machine a) = Some (0, m1)"
      "holds inv acc regs m0 c (F(k10_ctl ?i := F (k10_ctl ?i) AND NOT (push_bit 22 1))) m1"
    using holds_write [OF assms(5) ac(2)] by blast
  have eq: "k10_read_entry g t R e = with_counter t (k10_count (F (k10_ctr ?i)) cn) e"
    using assms(4) rm(4) R by (simp add: k10_read_entry_def)
  show ?thesis
    using rm m1 holds_read [OF assms(5) ac(2)] holds_read [OF m1(2) ac(1)] k10_box_PMC [OF assms(1)] take_count_k10 [OF rm(4)]
    by (intro exI [of _ m1])
      (simp add: k10_stop_event_def eq CHECK_MSR_WRITE_ERROR_def CHECK_MSR_READ_ERROR_def)
qed

lemma read_event:
  assumes "k10_tables T" "k10_acc acc m0 c" "k10_entry t e" "k10_counting g t e" "holds inv acc regs m0 c R (machine a)"
  shows "k10_read_event H T (int c) t g e a = Some (None, k10_read_entry g t R e, a)"
proof -
  obtain rm cn where rm: "arr_get (counter_map T) (int (es_index e)) = Some rm"
    "ucast (rm_configRegister rm) = k10_ctl (es_index e)" "ucast (rm_counterRegister rm) = k10_ctr (es_index e)"
    "counter_get t e = Some cn" "pc_init cn" "type_in_set g PMC" "es_type e = PMC" "es_index e < 4"
    using assms(1,3,4) by (rule counting_map)
  then have "acc m0 c (k10_ctr (es_index e))" using assms(2) by (auto simp: k10_acc_def)
  then show ?thesis
    using rm holds_read [OF assms(5)] k10_box_PMC [OF assms(1)] take_count_k10 [OF rm(4)] assms(4)
    by (simp add: k10_read_event_def CHECK_MSR_READ_ERROR_def k10_read_entry_def)
qed

lemma finalize_event:
  assumes "k10_tables T" "k10_acc acc m0 c" "k10_entry t e" "type_in_set g (es_type e)" "holds inv acc regs m0 c F (machine a)"
  shows "\<exists>m'. k10_finalize_event H T (int c) t g e a = Some (None, k10_clear_entry g t e, a\<lparr>machine := m'\<rparr>) \<and>
    holds inv acc regs m0 c (F(k10_ctl (es_index e) := 0)) m'"
proof -
  have i: "es_index e < 4" "es_type e = PMC" using assms(3,4) by (auto simp: k10_entry_def)
  then obtain rm where rm: "arr_get (counter_map T) (int (es_index e)) = Some rm" "ucast (rm_configRegister rm) = k10_ctl (es_index e)"
    using k10_map_at [of "es_index e"] assms(1) by (auto simp: k10_tables_def)
  obtain cn where cn: "counter_get t e = Some cn" using assms(3) by (auto simp: k10_entry_def)
  have ac: "acc m0 c (k10_ctl (es_index e))" using assms(2) i(1) by (auto simp: k10_acc_def)
  obtain m1 where m1: "hp_write H (int c) 0 (k10_ctl (es_index e)) 0 (machine a) = Some (0, m1)"
      "holds inv acc regs m0 c (F(k10_ctl (es_index e) := 0)) m1"
    using holds_write [OF assms(5) ac] by blast
  show ?thesis
    using rm i m1 cn assms(4) counter_set_eq [OF cn] k10_ctl_nonzero [OF i(1)]
    by (intro exI [of _ m1]) (simp add: k10_finalize_event_def CHECK_MSR_WRITE_ERROR_def k10_clear_entry_def)
qed

lemma stop_correct:
  assumes "k10_tables T" "k10_group t g" "thread_cpu ts t = Some (int c)" "inv (machine a)" "k10_acc acc (machine a) c"
  shows "\<exists>a'. perfmon_stopCountersThread_k10 H T ts t g a =
      Some (0, loop_result g (k10_read_entry g t (regs (machine a) c)), a') \<and>
    currentConfig a' = currentConfig a \<and>
    holds inv acc regs (machine a) c (k10_stopped (k10_used g t (take (gs_numberOfEvents g) (gs_events g))) (regs (machine a) c)) (machine a')"
  unfolding perfmon_stopCountersThread_k10_def assms(3) Option.bind.bind_lunit used_eq [symmetric]
proof (rule group_loop [OF assms(2,4)])
  let ?R = "regs (machine a) c"
  show "k10_stopped {} ?R = ?R" by (simp add: k10_stopped_def fun_eq_iff)
  fix e b A
  assume e: "k10_entry t e"
  show "k10_stop_event H T (int c) t g e b = Some (None, k10_read_entry g t ?R e, b)" if "\<not> k10_counting g t e"
    using not_counting(2) [OF e that] that by (simp add: k10_read_entry_def)
  assume Q: "k10_counting g t e" and A: "A \<subseteq> {..<4}"
    and h: "holds inv acc regs (machine a) c (k10_stopped A ?R) (machine b)"
  have i: "es_index e < 4" using e Q by (auto simp: k10_entry_def k10_counting_def)
  have "k10_stopped A ?R (k10_ctr (es_index e)) = ?R (k10_ctr (es_index e))"
    using A i by (auto simp: k10_stopped_def)
  from stop_event [where R = ?R, OF assms(1,5) e Q h this]
  show "es_index e < 4 \<and> (\<exists>m'. k10_stop_event H T (int c) t g e b = Some (None, k10_read_entry g t ?R e, b\<lparr>machine := m'\<rparr>) \<and>
      holds inv acc regs (machine a) c (k10_stopped (insert (es_index e) A) ?R) m')"
    using i unfolding k10_stopped_insert [OF A i] by blast
qed

lemma read_correct:
  assumes "k10_tables T" "k10_group t g" "thread_cpu ts t = Some (int c)" "inv (machine a)" "k10_acc acc (machine a) c"
  shows "\<exists>a'. perfmon_readCountersThread_k10 H T ts t g a =
      Some (0, loop_result g (k10_read_entry g t (regs (machine a) c)), a') \<and>
    currentConfig a' = currentConfig a \<and> holds inv acc regs (machine a) c (regs (machine a) c) (machine a')"
  unfolding perfmon_readCountersThread_k10_def assms(3) Option.bind.bind_lunit
proof (rule group_loop [where S = "\<lambda>A. regs (machine a) c" and Q = "k10_counting g t", OF assms(2,4) refl])
  fix e b
  assume e: "k10_entry t e"
  show "k10_read_event H T (int c) t g e b = Some (None, k10_read_entry g t (regs (machine a) c) e, b)" if "\<not> k10_counting g t e"
    using not_counting(3) [OF e that] that by (simp add: k10_read_entry_def)
  assume Q: "k10_counting g t e" and h: "holds inv acc regs (machine a) c (regs (machine a) c) (machine b)"
  have i: "es_index e < 4" using e Q by (auto simp: k10_entry_def k10_counting_def)
  show "es_index e < 4 \<and> (\<exists>m'. k10_read_event H T (int c) t g e b =
      Some (None, k10_read_entry g t (regs (machine a) c) e, b\<lparr>machine := m'\<rparr>) \<and> holds inv acc regs (machine a) c (regs (machine a) c) m')"
    using read_event [OF assms(1,5) e Q h] i h by (intro conjI exI [of _ "machine b"]) simp_all
qed

lemma finalize_correct:
  assumes "k10_tables T" "k10_group t g" "thread_cpu ts t = Some (int c)" "inv (machine a)" "k10_acc acc (machine a) c"
  shows "\<exists>a'. perfmon_finalizeCountersThread_k10 H T ts t g a = Some (0, loop_result g (k10_clear_entry g t), a') \<and>
    currentConfig a' = currentConfig a \<and>
    holds inv acc regs (machine a) c (k10_cleared (es_index ` {e \<in> set (take (gs_numberOfEvents g) (gs_events g)). type_in_set g (es_type e)})
      (regs (machine a) c)) (machine a')"
  unfolding perfmon_finalizeCountersThread_k10_def assms(3) Option.bind.bind_lunit
proof (rule group_loop [OF assms(2,4)])
  show "k10_cleared {} (regs (machine a) c) = regs (machine a) c" by (simp add: k10_cleared_def fun_eq_iff)
  fix e b A
  assume e: "k10_entry t e"
  show "k10_finalize_event H T (int c) t g e b = Some (None, k10_clear_entry g t e, b)" if "\<not> type_in_set g (es_type e)"
    using that by (simp add: k10_finalize_event_def k10_clear_entry_def)
  assume Q: "type_in_set g (es_type e)" and A: "A \<subseteq> {..<4}"
    and h: "holds inv acc regs (machine a) c (k10_cleared A (regs (machine a) c)) (machine b)"
  have i: "es_index e < 4" using e Q by (auto simp: k10_entry_def)
  show "es_index e < 4 \<and> (\<exists>m'. k10_finalize_event H T (int c) t g e b = Some (None, k10_clear_entry g t e, b\<lparr>machine := m'\<rparr>) \<and>
      holds inv acc regs (machine a) c (k10_cleared (insert (es_index e) A) (regs (machine a) c)) m')"
    using finalize_event [OF assms(1,5) e Q h] i unfolding k10_cleared_insert by blast
qed

lemma same_except_trans: "\<lbrakk>same_except inv acc regs A c a b; same_except inv acc regs B c b d\<rbrakk> \<Longrightarrow> same_except inv acc regs (A \<union> B) c a d"
  unfolding same_except_def image_Un by (metis Un_iff)

text \<open>Setting up an event writes its control register unless it has been written with the same value before.\<close>

lemma setup_event_cases:
  assumes "k10_tables T" "k10_acc acc (machine a) c" "k10_entry t e" "type_in_set g (es_type e)" "c < MAX_NUM_THREADS"
    and "inv (machine a)" "k10_pmc_flags (es_event e) = Some flags"
  obtains (cached) "k10_setup_event H T (int c) t g e a = Some (None, k10_setup_entry g t e, a)" "flags = currentConfig a c (es_index e)"
  | (written) m where "k10_setup_event H T (int c) t g e a = Some (None, k10_setup_entry g t e,
        a\<lparr>machine := m, currentConfig := (currentConfig a)(c := (currentConfig a c)(es_index e := flags))\<rparr>)"
      "holds inv acc regs (machine a) c ((regs (machine a) c)(k10_ctl (es_index e) := flags)) m"
proof -
  let ?i = "es_index e"
  have i: "?i < 4" "es_type e = PMC" "?i < NUM_PMC" using assms(3,4) by (auto simp: k10_entry_def NUM_PMC_def)
  obtain rm where rm: "arr_get (counter_map T) (int ?i) = Some rm" "ucast (rm_configRegister rm) = k10_ctl ?i"
    using k10_map_at [OF i(1)] assms(1) by (auto simp: k10_tables_def)
  obtain cn where cn: "counter_get t e = Some cn" using assms(3) by (auto simp: k10_entry_def)
  have ac: "acc (machine a) c (k10_ctl ?i)" using assms(2) i(1) by (auto simp: k10_acc_def)
  have event: "k10_setup_event H T (int c) t g e a = Some (None, k10_setup_entry g t e, b)"
    if h: "k10_pmc_setup H (counter_map T) (int c) ?i (es_event e) a = Some (0, b)" for b
    using assms(4) i(2) cn h counter_set_eq [OF cn] by (simp add: k10_setup_event_def k10_setup_entry_def)
  show thesis
  proof (cases "flags = currentConfig a c ?i")
    case True
    then have "k10_pmc_setup H (counter_map T) (int c) ?i (es_event e) a = Some (0, a)"
      using assms(5,7) i(3) by (simp add: k10_pmc_setup_def config_get_def)
    then show thesis using event True by (intro cached)
  next
    case False
    obtain m where m: "hp_write H (int c) 0 (k10_ctl ?i) flags (machine a) = Some (0, m)"
        "holds inv acc regs (machine a) c ((regs (machine a) c)(k10_ctl ?i := flags)) m"
      using holds_write [OF holds_refl [OF assms(6)] ac] by blast
    have "k10_pmc_setup H (counter_map T) (int c) ?i (es_event e) a =
        Some (0, a\<lparr>machine := m, currentConfig := (currentConfig a)(c := (currentConfig a c)(?i := flags))\<rparr>)"
      using False assms(5,7) i(3) rm m(1) by (simp add: k10_pmc_setup_def config_get_def config_set_def)
    then show thesis using event m(2) by (intro written)
  qed
qed

lemma setup_event_total:
  assumes "k10_tables T" "k10_acc acc (machine a) c" "k10_entry t e" "c < MAX_NUM_THREADS" "inv (machine a)"
  shows "\<exists>b. k10_setup_event H T (int c) t g e a = Some (None, k10_setup_entry g t e, b) \<and> same_except inv acc regs {es_index e} c a b"
proof (cases "type_in_set g (es_type e)")
  case False
  then show ?thesis using assms(5) by (simp add: k10_setup_event_def k10_setup_entry_def same_except_def)
next
  case True
  obtain flags where fl: "k10_pmc_flags (es_event e) = Some flags"
    using assms(3) True by (auto simp: k10_entry_def k10_pmc_flags_def)
  show ?thesis
    using assms(1-3) True assms(4,5) fl
  proof (cases rule: setup_event_cases)
    case cached
    then show ?thesis using assms(5) by (auto simp: same_except_def)
  next
    case (written m)
    then show ?thesis by (auto simp: same_except_def holds_def)
  qed
qed

lemma setup_event:
  assumes "k10_tables T" "k10_acc acc (machine a) c" "k10_entry t e" "type_in_set g (es_type e)" "c < MAX_NUM_THREADS"
    and "inv (machine a)" "coherent regs c a" "k10_pmc_flags (es_event e) = Some flags"
  shows "\<exists>b. k10_setup_event H T (int c) t g e a = Some (None, k10_setup_entry g t e, b) \<and>
    same_except inv acc regs {es_index e} c a b \<and> coherent regs c b \<and>
    regs (machine b) c (k10_ctl (es_index e)) AND NOT (push_bit 22 1) = flags"
proof -
  have i: "es_index e < 4" using assms(3) by (simp add: k10_entry_def)
  have nz: "flags \<noteq> 0" using k10_pmc_flags_enable(1) [OF assms(8)] by auto
  have en: "flags AND NOT (push_bit 22 1) = flags" by (rule and_not_single [OF k10_pmc_flags_enable(2) [OF assms(8)]])
  show ?thesis
    using assms(1-6,8)
  proof (cases rule: setup_event_cases)
    case cached
    then show ?thesis using assms(6,7) i nz by (auto simp: same_except_def coherent_def)
  next
    case (written m)
    let ?b = "a\<lparr>machine := m, currentConfig := (currentConfig a)(c := (currentConfig a c)(es_index e := flags))\<rparr>"
    have "same_except inv acc regs {es_index e} c a ?b" using written(2) by (auto simp: same_except_def holds_def)
    moreover have "coherent regs c ?b"
      using written(2) assms(2,7) i en by (auto simp: coherent_def holds_def k10_acc_def)
    moreover have "regs (machine ?b) c (k10_ctl (es_index e)) AND NOT (push_bit 22 1) = flags"
      using written(2) assms(2) i en by (simp add: holds_def k10_acc_def)
    ultimately show ?thesis using written(1) by blast
  qed
qed

text \<open>Setting up a group never fails, also when the cached configuration is wrong.\<close>

lemma setup_total:
  assumes "k10_tables T" "k10_group t g" "thread_cpu ts t = Some (int c)" "c < MAX_NUM_THREADS"
    and "inv (machine a)" "k10_acc acc (machine a) c"
  shows "\<exists>b. perfmon_setupCounterThread_k10 H T ts t g a = Some (0, loop_result g (k10_setup_entry g t), b) \<and>
    same_except inv acc regs UNIV c a b"
proof -
  have J0: "same_except inv acc regs UNIV c a a" using assms(5) by (simp add: same_except_def)
  have "\<exists>b. each_group_event (k10_setup_event H T (int c) t g) g a = Some (0, loop_result g (k10_setup_entry g t), b) \<and>
      same_except inv acc regs UNIV c a b"
    unfolding loop_result_def
  proof (rule each_group_event_invariant [where J = "\<lambda>k. same_except inv acc regs UNIV c a", OF _ J0])
    show "gs_numberOfEvents g \<le> length (gs_events g)" using assms(2) by (simp add: k10_group_def)
    fix k b
    assume k: "k < gs_numberOfEvents g" and J: "same_except inv acc regs UNIV c a b"
    have b: "inv (machine b)" "k10_acc acc (machine b) c" using J assms(6) by (auto simp: same_except_def k10_acc_def)
    obtain b' where b': "k10_setup_event H T (int c) t g (gs_events g ! k) b = Some (None, k10_setup_entry g t (gs_events g ! k), b')"
        "same_except inv acc regs {es_index (gs_events g ! k)} c b b'"
      using setup_event_total [OF assms(1) b(2) _ assms(4) b(1)] k10_group_nth [OF assms(2) k] by blast
    show "\<exists>a'. k10_setup_event H T (int c) t g (gs_events g ! k) b = Some (None, k10_setup_entry g t (gs_events g ! k), a') \<and>
        same_except inv acc regs UNIV c a a'"
      using b'(1) same_except_trans [OF J b'(2)] by (simp del: split_paired_Ex)
  qed
  then show ?thesis by (simp add: perfmon_setupCounterThread_k10_def assms(3))
qed

text \<open>
  Setting up a group whose counters are distinct: every control register of the group has the
  configuration of its event, up to the enable bit; nothing else changes.
\<close>

lemma setup_correct:
  assumes "k10_tables T" "k10_group t g" "thread_cpu ts t = Some (int c)" "c < MAX_NUM_THREADS"
    and "inv (machine a)" "k10_acc acc (machine a) c" "coherent regs c a" "k10_distinct g"
  shows "\<exists>b. perfmon_setupCounterThread_k10 H T ts t g a = Some (0, loop_result g (k10_setup_entry g t), b) \<and>
    same_except inv acc regs (k10_indices g) c a b \<and> coherent regs c b \<and>
    (\<forall>e\<in>set (take (gs_numberOfEvents g) (gs_events g)). type_in_set g (es_type e) \<longrightarrow>
       k10_pmc_flags (es_event e) = Some (regs (machine b) c (k10_ctl (es_index e)) AND NOT (push_bit 22 1)))"
proof -
  let ?n = "gs_numberOfEvents g" and ?es = "gs_events g"
  let ?J = "\<lambda>k (b :: 'm pm_state). same_except inv acc regs (es_index ` {e \<in> set (take k ?es). type_in_set g (es_type e)}) c a b \<and> coherent regs c b \<and>
    (\<forall>j<k. type_in_set g (es_type (?es ! j)) \<longrightarrow>
       k10_pmc_flags (es_event (?es ! j)) = Some (regs (machine b) c (k10_ctl (es_index (?es ! j))) AND NOT (push_bit 22 1)))"
  have J0: "?J 0 a" using assms(5,7) by (simp add: same_except_def)
  have len: "?n \<le> length ?es" using assms(2) by (simp add: k10_group_def)
  have "\<exists>b. each_group_event (k10_setup_event H T (int c) t g) g a = Some (0, loop_result g (k10_setup_entry g t), b) \<and> ?J ?n b"
    unfolding loop_result_def
  proof (rule each_group_event_invariant [where J = ?J, OF len J0])
    fix k b
    assume k: "k < ?n" and J: "?J k b"
    let ?e = "?es ! k" and ?U = "\<lambda>k. es_index ` {e \<in> set (take k ?es). type_in_set g (es_type e)}"
    have e: "k < length ?es" "k10_entry t ?e" using k10_group_nth [OF assms(2) k] by simp_all
    have U: "?U (Suc k) = (if type_in_set g (es_type ?e) then insert (es_index ?e) (?U k) else ?U k)"
      using e(1) by (rule image_filter_take_Suc)
    show "\<exists>a'. k10_setup_event H T (int c) t g ?e b = Some (None, k10_setup_entry g t ?e, a') \<and> ?J (Suc k) a'"
    proof (cases "type_in_set g (es_type ?e)")
      case False
      then show ?thesis unfolding U using J
        by (intro exI [of _ b]) (auto simp: k10_setup_event_def k10_setup_entry_def less_Suc_eq)
    next
      case True
      obtain flags where fl: "k10_pmc_flags (es_event ?e) = Some flags"
        using e(2) True by (auto simp: k10_entry_def k10_pmc_flags_def)
      have b: "inv (machine b)" "acc (machine b) = acc (machine a)" using J by (auto simp: same_except_def)
      then have "k10_acc acc (machine b) c" using assms(6) by (simp add: k10_acc_def)
      then obtain b' where b': "k10_setup_event H T (int c) t g ?e b = Some (None, k10_setup_entry g t ?e, b')"
          "same_except inv acc regs {es_index ?e} c b b'" "coherent regs c b'" "regs (machine b') c (k10_ctl (es_index ?e)) AND NOT (push_bit 22 1) = flags"
        using setup_event [OF assms(1) _ e(2) True assms(4) b(1) _ fl] J by blast
      have earlier: "regs (machine b') c (k10_ctl (es_index (?es ! j))) = regs (machine b) c (k10_ctl (es_index (?es ! j)))"
        if h: "j < k" "type_in_set g (es_type (?es ! j))" for j
      proof -
        have j: "k10_entry t (?es ! j)" using k10_group_nth [OF assms(2), of j] h(1) k by simp
        have lt: "es_index (?es ! j) < 4" "es_index ?e < 4" using j e(2) h(2) True by (auto simp: k10_entry_def)
        have "es_index (?es ! j) \<noteq> es_index ?e" using assms(8) h k True by (auto simp: k10_distinct_def)
        then show ?thesis using b'(2) lt assms(6) b(2) by (auto simp: same_except_def k10_acc_def)
      qed
      have "same_except inv acc regs (?U (Suc k)) c a b'"
        using same_except_trans [OF conjunct1 [OF J] b'(2)] True unfolding U by simp
      then show ?thesis using b'(1,3,4) J fl earlier by (auto simp: less_Suc_eq)
    qed
  qed
  then obtain b where b: "each_group_event (k10_setup_event H T (int c) t g) g a = Some (0, loop_result g (k10_setup_entry g t), b)" "?J ?n b"
    by blast
  have "k10_pmc_flags (es_event e) = Some (regs (machine b) c (k10_ctl (es_index e)) AND NOT (push_bit 22 1))"
    if h: "e \<in> set (take ?n ?es)" "type_in_set g (es_type e)" for e
    using b(2) h by (auto simp: in_set_conv_nth)
  then show ?thesis
    using b by (intro exI [of _ b]) (simp add: perfmon_setupCounterThread_k10_def assms(3) k10_indices_def)
qed

end

end
