(* ===== verification/Perfmon_Session.thy ===== *)
theory Perfmon_Session
  imports Perfmon_Lifecycle Perfmon_K10
begin

text \<open>
  The K10 module as a module of the core: it satisfies the contract \<open>counter_module\<close> over any register file,
  and in particular over the registers behind the access daemon. Hence every sequence of calls behaves
  like the automaton of the life cycle.
\<close>

section \<open>The module\<close>

definition k10_funs :: "'m hpm_ops \<Rightarrow> arch_tables \<Rightarrow> 'm arch_funs" where
  "k10_funs H T = \<lparr>
     initThreadArch = (\<lambda>cpu_id a. Some (0, a)),
     perfmon_setupCountersThread = perfmon_setupCounterThread_k10 H T,
     perfmon_startCountersThread = perfmon_startCountersThread_k10 H T,
     perfmon_stopCountersThread = perfmon_stopCountersThread_k10 H T,
     perfmon_readCountersThread = perfmon_readCountersThread_k10 H T,
     perfmon_finalizeCountersThread = perfmon_finalizeCountersThread_k10 H T\<rparr>"

text \<open>The processors of the threads are in range and their counters are accessible.\<close>

definition k10_ready ::
  "('m \<Rightarrow> bool) \<Rightarrow> ('m \<Rightarrow> nat \<Rightarrow> u32 \<Rightarrow> bool) \<Rightarrow> PerfmonThread list \<Rightarrow> 'm pm_state \<Rightarrow> bool" where
  "k10_ready good acc ts a \<longleftrightarrow> good (machine a) \<and>
     (\<forall>th\<in>set ts. 0 \<le> th_processorId th \<and> th_processorId th < int MAX_NUM_THREADS \<and> k10_acc acc (machine a) (nat (th_processorId th)))"

definition k10_ok :: "PerfmonThread list \<Rightarrow> PerfmonEventSet \<Rightarrow> bool" where
  "k10_ok ts g \<longleftrightarrow> gs_numberOfEvents g \<le> length (gs_events g) \<and> (\<forall>t<length ts. k10_group t g)"

lemma k10_ready_cpu:
  assumes "k10_ready good acc ts a" "t < length ts"
  obtains c where "thread_cpu ts t = Some (int c)" "c < MAX_NUM_THREADS" "k10_acc acc (machine a) c" "good (machine a)"
proof -
  let ?p = "th_processorId (ts ! t)"
  have p: "0 \<le> ?p" "?p < int MAX_NUM_THREADS" "k10_acc acc (machine a) (nat ?p)" "good (machine a)"
    using assms nth_mem [OF assms(2)] by (auto simp: k10_ready_def)
  have "thread_cpu ts t = Some (int (nat ?p))" using assms(2) p(1) by (simp add: thread_cpu_def arr_get_def)
  then show thesis using that p by (metis nat_less_iff)
qed

lemma k10_ready_step:
  "\<lbrakk>k10_ready good acc ts a; good (machine b); acc (machine b) = acc (machine a)\<rbrakk> \<Longrightarrow> k10_ready good acc ts b"
  by (simp add: k10_ready_def k10_acc_def)

section \<open>Entries keep their shape\<close>

lemma k10_entry_with_counter: "\<lbrakk>k10_entry t' e; k10_entry t e\<rbrakk> \<Longrightarrow> k10_entry t' (with_counter t c e)"
  using with_counter_get [of t e] with_counter_other [of t' t c e] by (cases "t' = t") (auto simp: k10_entry_def)

lemma k10_group_loop:
  assumes "k10_group t' g" "\<And>e. k10_entry t' e \<Longrightarrow> e \<in> set (take (gs_numberOfEvents g) (gs_events g)) \<Longrightarrow> k10_entry t' (f e)"
  shows "k10_group t' (loop_result g f)"
  using assms by (auto simp: k10_group_def loop_result_def)

lemma k10_ok_loop:
  assumes "k10_ok ts g" "t < length ts" "\<And>e. \<exists>c. f e = with_counter t c e \<or> f e = e"
  shows "k10_ok ts (loop_result g f)"
  unfolding k10_ok_def
proof (intro conjI allI impI k10_group_loop)
  show "gs_numberOfEvents (loop_result g f) \<le> length (gs_events (loop_result g f))"
    using assms(1) by (simp add: k10_ok_def loop_result_def)
  fix t' e
  assume t': "t' < length ts"
  show "k10_group t' g" using assms(1) t' by (simp add: k10_ok_def)
  assume e: "k10_entry t' e" "e \<in> set (take (gs_numberOfEvents g) (gs_events g))"
  then have "k10_entry t e" using assms(1,2) by (auto simp: k10_ok_def k10_group_def)
  then show "k10_entry t' (f e)" using assms(3) [of e] e(1) k10_entry_with_counter by metis
qed

lemma k10_entry_funs:
  "\<exists>c. k10_setup_entry g t e = with_counter t c e \<or> k10_setup_entry g t e = e"
  "\<exists>c. k10_start_entry g t e = with_counter t c e \<or> k10_start_entry g t e = e"
  "\<exists>c. k10_read_entry g t R e = with_counter t c e \<or> k10_read_entry g t R e = e"
  by (auto simp: k10_setup_entry_def k10_start_entry_def k10_read_entry_def)

lemma same_frame_loop: "same_frame g (loop_result g f)"
  by (simp add: same_frame_def loop_result_def)

section \<open>Results\<close>

lemma max_value_loop_mask:
  "w \<le> 64 \<Longrightarrow> max_value_loop [0..<w] 0 = Some (mask w)"
proof -
  have step: "max_value_loop (xs @ [k]) v = do { u \<leftarrow> max_value_loop xs v; b \<leftarrow> c_shl 1 (int k); Some (u OR b) }" for xs k v
  proof (induction xs arbitrary: v)
    case (Cons a xs)
    then show ?case by (cases "c_shl 1 (int a) :: u64 option") simp_all
  qed simp
  show "w \<le> 64 \<Longrightarrow> max_value_loop [0..<w] 0 = Some (mask w)"
    by (induction w) (simp_all add: step c_shl_def mask_Suc_exp or.commute)
qed

lemma k10_max_value: "k10_tables T \<Longrightarrow> perfmon_getMaxCounterValue T PMC = Some (mask 48)"
  by (simp add: k10_tables_def perfmon_getMaxCounterValue_def k10_box_map_def arr_get_def max_value_loop_mask)

text \<open>The result of an event without overflow is the difference of its two values.\<close>

lemma k10_map_type: "i < 4 \<Longrightarrow> \<exists>rm. arr_get k10_counter_map (int i) = Some rm \<and> rm_type rm = PMC"
  by (auto simp: less_4_cases k10_counter_map_def k10_counter_def arr_get_def)

definition k10_result :: "PerfmonCounter \<Rightarrow> real" where
  "k10_result c = (if pc_overflows c = 0 then real (unat (pc_counterData c - pc_startData c))
     else if 0 < pc_overflows c then real (unat (mask 48 - pc_startData c + pc_counterData c)) +
       real (unat (of_int (pc_overflows c - 1) * mask 48 :: u64))
     else real (unat (of_int (pc_overflows c) * mask 48 :: u64)))"

definition k10_resulted :: "PerfmonCounter \<Rightarrow> PerfmonCounter" where
  "k10_resulted c = (if 0 < pc_overflows c then c\<lparr>pc_overflows := pc_overflows c - 1\<rparr> else c)"

lemma k10_calculateResult:
  assumes "k10_tables (tables E)" "k10_entry t e" "counter_get t e = Some c"
  shows "calculateResult E t e = Some (k10_result c, with_counter t (k10_resulted c) e)"
proof -
  obtain rm where "arr_get (counter_map (tables E)) (int (es_index e)) = Some rm" "rm_type rm = PMC"
    using k10_map_type [of "es_index e"] assms(1,2) by (auto simp: k10_tables_def k10_entry_def)
  then show ?thesis
    using assms(3) k10_max_value [OF assms(1)] counter_set_eq [OF assms(3)]
    by (auto simp: calculateResult_def k10_result_def k10_resulted_def Let_def)
qed

text \<open>The result of a thread is added to its counter.\<close>

definition k10_totalled :: "PerfmonCounter \<Rightarrow> PerfmonCounter" where
  "k10_totalled c = (k10_resulted c)\<lparr>pc_fullData := pc_fullData c + k10_result c\<rparr>"

definition k10_total :: "nat \<Rightarrow> PerfmonEventSetEntry \<Rightarrow> PerfmonEventSetEntry" where
  "k10_total j e = with_counter j (k10_totalled (the (counter_get j e))) e"

lemma k10_total_entry: "\<lbrakk>k10_entry t e; k10_entry j e\<rbrakk> \<Longrightarrow> k10_entry t (k10_total j e)"
  by (simp add: k10_total_def k10_entry_with_counter)

lemma add_results_k10:
  assumes "k10_tables (tables E)" "\<forall>j\<in>set js. k10_entry j e"
  shows "add_results E js e = Some (fold k10_total js e)"
  using assms(2)
proof (induction js arbitrary: e)
  case (Cons j js)
  obtain c where c: "counter_get j e = Some c" using Cons.prems by (auto simp: k10_entry_def)
  have 1: "calculateResult E j e = Some (k10_result c, with_counter j (k10_resulted c) e)"
    using k10_calculateResult [OF assms(1) _ c] Cons.prems by simp
  have g: "counter_get j (with_counter j (k10_resulted c) e) = Some (k10_resulted c)" using with_counter_get [OF c] .
  have f: "pc_fullData (k10_resulted c) = pc_fullData c" by (simp add: k10_resulted_def)
  have "\<forall>i\<in>set js. k10_entry i (k10_total j e)" using Cons.prems by (auto intro: k10_total_entry)
  then show ?case
    using Cons.IH 1 g f counter_set_eq [OF g] c by (simp add: k10_total_def k10_totalled_def)
qed simp

lemma fold_total_entry:
  "\<lbrakk>k10_entry t e; \<forall>j\<in>set js. k10_entry j e\<rbrakk> \<Longrightarrow> k10_entry t (fold k10_total js e)"
proof (induction js arbitrary: e)
  case (Cons j js)
  then show ?case using k10_total_entry by simp
qed simp

lemma add_group_results_k10:
  assumes "k10_tables (tables E)" "n \<le> length es" "\<forall>e\<in>set (take n es). \<forall>j<m. k10_entry j e"
  shows "add_group_results E m n es = Some (map (fold k10_total [0..<m]) (take n es) @ drop n es)"
  using assms(2,3)
proof (induction n arbitrary: es)
  case (Suc n)
  then obtain e es' where es: "es = e # es'" by (cases es) auto
  then show ?case using Suc add_results_k10 [OF assms(1), of "[0..<m]" e] by simp
qed simp

lemma clear_inits_k10:
  assumes "n \<le> length es" "\<forall>e\<in>set (take n es). k10_entry t e"
  shows "clear_inits t n es = Some (map (\<lambda>e. with_counter t ((the (counter_get t e))\<lparr>pc_init := False\<rparr>) e) (take n es) @ drop n es)"
  using assms
proof (induction n arbitrary: es)
  case (Suc n)
  then obtain e es' where es: "es = e # es'" by (cases es) auto
  obtain c where c: "counter_get t e = Some c" using Suc.prems es by (auto simp: k10_entry_def)
  show ?case using Suc es c counter_set_eq [OF c] by (simp add: clear_init_def)
qed simp

section \<open>The contract holds\<close>

locale k10_env = msr_machine inv acc regs H
  for inv :: "'m \<Rightarrow> bool" and acc :: "'m \<Rightarrow> nat \<Rightarrow> u32 \<Rightarrow> bool" and regs :: "'m \<Rightarrow> nat \<Rightarrow> u32 \<Rightarrow> u64"
    and H :: "'m hpm_ops" +
  fixes E :: "('m, 'c) perfmon_env"
  assumes env_tables: "k10_tables (tables E)"
    and env_funs: "arch_funs E = k10_funs H (tables E)"

sublocale k10_env \<subseteq> cm: counter_module E "k10_ready inv acc" k10_ok
proof
  fix fn ts a g t
  assume fn: "fn \<in> {perfmon_setupCountersThread (arch_funs E), perfmon_startCountersThread (arch_funs E),
      perfmon_stopCountersThread (arch_funs E), perfmon_readCountersThread (arch_funs E)}"
    and r: "k10_ready inv acc ts a" and ok: "k10_ok ts g" and t: "t < length ts"
  obtain c where c: "thread_cpu ts t = Some (int c)" "c < MAX_NUM_THREADS" "k10_acc acc (machine a) c" "inv (machine a)"
    using r t by (rule k10_ready_cpu)
  have g: "k10_group t g" using ok t by (simp add: k10_ok_def)
  note ops = setup_total [OF env_tables g c(1,2,4,3)] start_correct [OF env_tables g c(1,4,3)]
    stop_correct [OF env_tables g c(1,4,3)] read_correct [OF env_tables g c(1,4,3)]
  have "\<exists>f a'. fn ts t g a = Some (0, loop_result g f, a') \<and> inv (machine a') \<and> acc (machine a') = acc (machine a) \<and>
      (\<forall>e. \<exists>c. f e = with_counter t c e \<or> f e = e)"
    using fn ops k10_entry_funs unfolding env_funs k10_funs_def same_except_def holds_def
    by (simp add: ex_simps) metis
  then show "\<exists>g' a'. fn ts t g a = Some (0, g', a') \<and> k10_ready inv acc ts a' \<and> k10_ok ts g' \<and> same_frame g g'"
    using k10_ok_loop [OF ok t] k10_ready_step [OF r] same_frame_loop by metis
next
  fix ts g
  assume ok: "k10_ok ts g"
  show "\<exists>es. add_group_results E (length ts) (gs_numberOfEvents g) (gs_events g) = Some es \<and> k10_ok ts (g\<lparr>gs_events := es\<rparr>)"
  proof -
    have n: "gs_numberOfEvents g \<le> length (gs_events g)"
        "\<forall>e\<in>set (take (gs_numberOfEvents g) (gs_events g)). \<forall>j<length ts. k10_entry j e"
      using ok by (auto simp: k10_ok_def k10_group_def)
    have "k10_group t (loop_result g (fold k10_total [0..<length ts]))" if "t < length ts" for t
      using ok that n(2) unfolding k10_ok_def by (intro k10_group_loop) (auto intro: fold_total_entry)
    then have "k10_ok ts (loop_result g (fold k10_total [0..<length ts]))"
      using n(1) by (simp add: k10_ok_def) (simp add: loop_result_def)
    then show ?thesis using add_group_results_k10 [OF env_tables n] by (simp add: loop_result_def)
  qed
next
  fix ts g t
  assume ok: "k10_ok ts g" and t: "t < length ts"
  have n: "gs_numberOfEvents g \<le> length (gs_events g)" "\<forall>e\<in>set (take (gs_numberOfEvents g) (gs_events g)). k10_entry t e"
    using ok t by (auto simp: k10_ok_def k10_group_def)
  let ?f = "\<lambda>e. with_counter t ((the (counter_get t e))\<lparr>pc_init := False\<rparr>) e"
  have "k10_ok ts (loop_result g ?f)" by (rule k10_ok_loop [OF ok t]) blast
  then show "\<exists>es. clear_inits t (gs_numberOfEvents g) (gs_events g) = Some es \<and> k10_ok ts (g\<lparr>gs_events := es\<rparr>)"
    using clear_inits_k10 [OF n] by (simp add: loop_result_def)
qed (simp_all add: k10_ok_def k10_group_def k10_counting_def type_in_set_def)

end
