(* ===== verification/Perfmon_Measure.thy ===== *)
theory Perfmon_Measure
  imports Perfmon_Session
begin

text \<open>
  What a measurement returns: between starting and stopping a group the hardware may change the
  registers; the result of every event and thread is the value its counter register has when the group is
  stopped.
\<close>

section \<open>Functions of one counter\<close>

definition on_counter :: "nat \<Rightarrow> (PerfmonCounter \<Rightarrow> PerfmonCounter) \<Rightarrow> PerfmonEventSetEntry \<Rightarrow> PerfmonEventSetEntry" where
  "on_counter t h e = with_counter t (h (the (counter_get t e))) e"

lemma on_counter_sel [simp]:
  "es_event (on_counter t h e) = es_event e" "es_index (on_counter t h e) = es_index e" "es_type (on_counter t h e) = es_type e"
  by (simp_all add: on_counter_def)

lemma on_counter_get:
  assumes "counter_get t e \<noteq> None"
  shows "counter_get t' (on_counter t h e) = (if t' = t then map_option h (counter_get t e) else counter_get t' e)"
  using assms with_counter_get [of t e] with_counter_other [of t' t _ e] by (auto simp: on_counter_def)

lemma with_counter_same: "counter_get t e = Some c \<Longrightarrow> with_counter t c e = e"
  by (cases "es_threadCounter e") (auto simp: with_counter_def counter_get_def arr_get_def split: if_splits)

text \<open>The operations of the module as functions of one counter; \<open>active\<close> tells whether the type is measured.\<close>

definition setup_counter :: "bool \<Rightarrow> PerfmonCounter \<Rightarrow> PerfmonCounter" where
  "setup_counter active c = (if active then c\<lparr>pc_init := True\<rparr> else c)"

definition start_counter :: "bool \<Rightarrow> PerfmonCounter \<Rightarrow> PerfmonCounter" where
  "start_counter active c = (if active \<and> pc_init c then c\<lparr>pc_startData := 0, pc_counterData := 0, pc_fullData := 0\<rparr> else c)"

definition stop_counter :: "bool \<Rightarrow> u64 \<Rightarrow> PerfmonCounter \<Rightarrow> PerfmonCounter" where
  "stop_counter active v c = (if active \<and> pc_init c then k10_count v c else c)"

lemma k10_entry_type: "\<lbrakk>k10_entry t e; type_in_set g (es_type e)\<rbrakk> \<Longrightarrow> es_type e = PMC"
  by (auto simp: k10_entry_def)

lemma setup_entry_eq:
  "k10_entry t e \<Longrightarrow> k10_setup_entry g t e = on_counter t (setup_counter (type_in_set g (es_type e))) e"
  using k10_entry_type [of t e g]
  by (auto simp: k10_entry_def k10_setup_entry_def on_counter_def setup_counter_def with_counter_same)

lemma start_entry_eq:
  "k10_entry t e \<Longrightarrow> k10_start_entry g t e = on_counter t (start_counter (type_in_set g (es_type e))) e"
  by (auto simp: k10_entry_def k10_start_entry_def on_counter_def start_counter_def k10_counting_def with_counter_same)

lemma read_entry_eq:
  "k10_entry t e \<Longrightarrow> k10_read_entry g t R e = on_counter t (stop_counter (type_in_set g (es_type e)) (R (k10_ctr (es_index e)))) e"
  by (auto simp: k10_entry_def k10_read_entry_def on_counter_def stop_counter_def k10_counting_def with_counter_same)

lemma k10_total_eq: "k10_total t = on_counter t k10_totalled"
  by (simp add: k10_total_def on_counter_def fun_eq_iff)

text \<open>Entries that have the same event and register.\<close>

definition same_event :: "PerfmonEventSetEntry \<Rightarrow> PerfmonEventSetEntry \<Rightarrow> bool" where
  "same_event e e' \<longleftrightarrow> es_event e' = es_event e \<and> es_index e' = es_index e \<and> es_type e' = es_type e"

text \<open>
  \<open>counters_by ts h g g'\<close>: \<open>g'\<close> is \<open>g\<close> with \<open>h t e\<close> applied to the counter of every thread \<open>t\<close> in \<open>ts\<close> of every used
  entry \<open>e\<close>.
\<close>

definition counters_by ::
  "nat set \<Rightarrow> (nat \<Rightarrow> PerfmonEventSetEntry \<Rightarrow> PerfmonCounter \<Rightarrow> PerfmonCounter) \<Rightarrow> PerfmonEventSet \<Rightarrow> PerfmonEventSet \<Rightarrow> bool" where
  "counters_by ts h g g' \<longleftrightarrow> same_frame g g' \<and> length (gs_events g') = length (gs_events g) \<and>
     (\<forall>i<gs_numberOfEvents g. same_event (gs_events g ! i) (gs_events g' ! i) \<and>
        (\<forall>t. counter_get t (gs_events g' ! i) =
           (if t \<in> ts then map_option (h t (gs_events g ! i)) (counter_get t (gs_events g ! i)) else counter_get t (gs_events g ! i))))"

lemma counters_by_refl: "counters_by {} h g g"
  by (simp add: counters_by_def same_frame_def same_event_def)

lemma same_frame_sel:
  assumes "same_frame g g'"
  shows "gs_numberOfEvents g' = gs_numberOfEvents g" "gs_regTypeMask g' = gs_regTypeMask g" "gs_timer g' = gs_timer g"
    "gs_state g' = gs_state g" "type_in_set g' = type_in_set g"
proof -
  have eq: "g' = g\<lparr>gs_events := gs_events g'\<rparr>" using assms by (simp add: same_frame_def)
  show "gs_numberOfEvents g' = gs_numberOfEvents g" "gs_timer g' = gs_timer g" "gs_state g' = gs_state g"
    by (subst eq, simp)+
  show m: "gs_regTypeMask g' = gs_regTypeMask g" by (subst eq, simp)
  show "type_in_set g' = type_in_set g" by (simp add: type_in_set_def fun_eq_iff m)
qed

lemma same_frame_trans: "\<lbrakk>same_frame g g'; same_frame g' g''\<rbrakk> \<Longrightarrow> same_frame g g''"
  unfolding same_frame_def by (metis PerfmonEventSet.surjective PerfmonEventSet.update_convs(2))

text \<open>One more thread.\<close>

lemma counters_by_insert:
  assumes "counters_by T h g g1" "k10_group t g" "k10_group t g1" "t \<notin> T"
    and h: "\<And>e e'. same_event e e' \<Longrightarrow> h t e' = h t e"
    and f: "\<And>e. k10_entry t e \<Longrightarrow> f e = on_counter t (h t e) e"
  shows "counters_by (insert t T) h g (loop_result g1 f)"
proof -
  let ?n = "gs_numberOfEvents g"
  have n: "gs_numberOfEvents g1 = ?n" using assms(1) same_frame_sel(1) by (auto simp: counters_by_def)
  have len: "?n \<le> length (gs_events g1)" using assms(3) n by (simp add: k10_group_def)
  have entry: "same_event (gs_events g ! i) (gs_events (loop_result g1 f) ! i) \<and>
      counter_get t' (gs_events (loop_result g1 f) ! i) = (if t' \<in> insert t T
        then map_option (h t' (gs_events g ! i)) (counter_get t' (gs_events g ! i)) else counter_get t' (gs_events g ! i))"
    if i: "i < ?n" for i t'
  proof -
    let ?e = "gs_events g ! i" and ?e1 = "gs_events g1 ! i"
    have e1: "k10_entry t ?e1" using k10_group_nth [OF assms(3)] i n by simp
    have s: "same_event ?e ?e1" "counter_get t ?e1 = counter_get t ?e"
        "counter_get t' ?e1 = (if t' \<in> T then map_option (h t' ?e) (counter_get t' ?e) else counter_get t' ?e)"
      using assms(1,4) i by (auto simp: counters_by_def)
    have ev: "gs_events (loop_result g1 f) ! i = on_counter t (h t ?e) ?e1"
      using i n len f [OF e1] h [OF s(1)] by (simp add: loop_result_def nth_append)
    have "counter_get t ?e1 \<noteq> None" using e1 by (simp add: k10_entry_def)
    then show ?thesis using s ev on_counter_get [of t ?e1 t' "h t ?e"] by (auto simp: same_event_def)
  qed
  have "same_frame g (loop_result g1 f)"
    using assms(1) same_frame_loop same_frame_trans by (auto simp: counters_by_def)
  moreover have "length (gs_events (loop_result g1 f)) = length (gs_events g)"
    using assms(1) len n by (simp add: counters_by_def loop_result_def)
  ultimately show ?thesis using entry by (auto simp: counters_by_def)
qed

section \<open>All threads of a group\<close>

text \<open>The state with another group and other registers.\<close>

definition with_group :: "('m, 'c) perfmon \<Rightarrow> PerfmonGroupSet \<Rightarrow> int \<Rightarrow> PerfmonEventSet \<Rightarrow> 'm pm_state \<Rightarrow> ('m, 'c) perfmon" where
  "with_group s gs gid g a = s\<lparr>groupSet := Some (gs\<lparr>groups := (groups gs)[nat gid := g]\<rparr>), pm := a\<rparr>"

lemma call_arch_with_group:
  assumes "0 \<le> gid" "gid < int (length (groups gs))" "fn (threads gs) t g a = Some (ret, g', a')"
  shows "call_arch fn gid t (with_group s gs gid g a) = Some (ret, with_group s gs gid g' a')"
  using assms by (simp add: call_arch_def with_group_def arr_get_def)

lemma all_threads_counters:
  assumes law: "\<And>t g a. \<lbrakk>t < length (threads gs); k10_ok (threads gs) g; J a\<rbrakk> \<Longrightarrow>
      \<exists>f a'. fn (threads gs) t g a = Some (0, loop_result g f, a') \<and> J a' \<and> (\<forall>e. k10_entry t e \<longrightarrow> f e = on_counter t (h t (type_in_set g) e) e)"
    and h: "\<And>t S e e'. same_event e e' \<Longrightarrow> h t S e' = h t S e"
    and gid: "0 \<le> gid" "gid < int (length (groups gs))" and g0: "k10_ok (threads gs) g0"
  shows "\<lbrakk>set js \<subseteq> {..<length (threads gs)}; distinct js; set js \<inter> T = {}; J a; k10_ok (threads gs) g;
      counters_by T (\<lambda>t. h t (type_in_set g0)) g0 g\<rbrakk> \<Longrightarrow>
    \<exists>g' a'. each_thread (call_arch fn gid) js (with_group s gs gid g a) = Some (None, with_group s gs gid g' a') \<and>
      J a' \<and> k10_ok (threads gs) g' \<and> counters_by (T \<union> set js) (\<lambda>t. h t (type_in_set g0)) g0 g'"
proof (induction js arbitrary: T g a)
  case Nil
  then show ?case by auto
next
  case (Cons t js)
  have t: "t < length (threads gs)" "t \<notin> T" using Cons.prems by auto
  obtain f a1 where f: "fn (threads gs) t g a = Some (0, loop_result g f, a1)" "J a1"
      "\<And>e. k10_entry t e \<Longrightarrow> f e = on_counter t (h t (type_in_set g) e) e"
    using law [OF t(1) Cons.prems(5,4)] by blast
  have ts: "type_in_set g = type_in_set g0" using Cons.prems(6) same_frame_sel(5) by (auto simp: counters_by_def)
  have cb: "counters_by (insert t T) (\<lambda>t. h t (type_in_set g0)) g0 (loop_result g f)"
    using g0 Cons.prems(5) t f(3) h
    by (intro counters_by_insert [OF Cons.prems(6)]) (auto simp: k10_ok_def ts)
  have ok: "k10_ok (threads gs) (loop_result g f)"
    unfolding k10_ok_def
  proof (intro conjI allI impI k10_group_loop)
    show "gs_numberOfEvents (loop_result g f) \<le> length (gs_events (loop_result g f))"
      using Cons.prems(5) by (simp add: k10_ok_def loop_result_def)
    fix t' e
    assume "t' < length (threads gs)"
    then show "k10_group t' g" using Cons.prems(5) by (simp add: k10_ok_def)
    assume e: "k10_entry t' e" "e \<in> set (take (gs_numberOfEvents g) (gs_events g))"
    then have "k10_entry t e" using Cons.prems(5) t(1) by (auto simp: k10_ok_def k10_group_def)
    then show "k10_entry t' (f e)" using f(3) e(1) by (simp add: on_counter_def k10_entry_with_counter)
  qed
  obtain g' a' where r: "each_thread (call_arch fn gid) js (with_group s gs gid (loop_result g f) a1) = Some (None, with_group s gs gid g' a')"
      "J a'" "k10_ok (threads gs) g'" "counters_by (insert t T \<union> set js) (\<lambda>t. h t (type_in_set g0)) g0 g'"
    using Cons.IH [OF _ _ _ f(2) ok cb] Cons.prems by auto
  have "call_arch fn gid t (with_group s gs gid g a) = Some (0, with_group s gs gid (loop_result g f) a1)"
    by (rule call_arch_with_group [where fn = fn, OF gid f(1)])
  then have "each_thread (call_arch fn gid) (t # js) (with_group s gs gid g a) = Some (None, with_group s gs gid g' a')"
    using r(1) by simp
  moreover have "T \<union> set (t # js) = insert t T \<union> set js" by auto
  ultimately show ?case using r(2-4) by metis
qed

lemma all_threads_run:
  assumes "\<And>t g a. \<lbrakk>t < length (threads gs); k10_ok (threads gs) g; J a\<rbrakk> \<Longrightarrow>
      \<exists>f a'. fn (threads gs) t g a = Some (0, loop_result g f, a') \<and> J a' \<and> (\<forall>e. k10_entry t e \<longrightarrow> f e = on_counter t (h t (type_in_set g) e) e)"
    and "\<And>t S e e'. same_event e e' \<Longrightarrow> h t S e' = h t S e"
    and "0 \<le> gid" "gid < int (length (groups gs))" "k10_ok (threads gs) g" "J a"
  obtains g' a' where
    "each_thread (call_arch fn gid) [0..<length (threads gs)] (with_group s gs gid g a) = Some (None, with_group s gs gid g' a')"
    "J a'" "k10_ok (threads gs) g'" "counters_by {..<length (threads gs)} (\<lambda>t. h t (type_in_set g)) g g'"
proof -
  have "\<exists>g' a'. each_thread (call_arch fn gid) [0..<length (threads gs)] (with_group s gs gid g a) = Some (None, with_group s gs gid g' a') \<and>
      J a' \<and> k10_ok (threads gs) g' \<and> counters_by ({} \<union> set [0..<length (threads gs)]) (\<lambda>t. h t (type_in_set g)) g g'"
    by (rule all_threads_counters [where J = J and fn = fn]) (use assms counters_by_refl in auto)
  then show thesis using that by (auto simp: atLeast0LessThan)
qed

text \<open>Setting up calls the architecture for every thread and makes the group the active one.\<close>

definition activate :: "int \<Rightarrow> ('m, 'c) perfmon \<Rightarrow> ('m, 'c) perfmon" where
  "activate gid s = s\<lparr>groupSet := map_option (\<lambda>gs. gs\<lparr>activeGroup := gid\<rparr>) (groupSet s)\<rparr>"

lemma activate_idem [simp]: "activate gid (activate gid s) = activate gid s"
  by (cases "groupSet s") (simp_all add: activate_def)

lemma call_arch_activate:
  assumes "call_arch fn gid t s = Some (ret, s')"
  shows "call_arch fn gid t (activate gid s) = Some (ret, activate gid s')"
  using assms by (auto simp: call_arch_def activate_def bind_Some_iff)

definition group_known :: "int \<Rightarrow> ('m, 'c) perfmon \<Rightarrow> bool" where
  "group_known gid s \<longleftrightarrow> (\<exists>gs. groupSet s = Some gs \<and> gid < int (numberOfActiveGroups gs))"

lemma setup_thread_eq:
  assumes "call_arch (perfmon_setupCountersThread (arch_funs E)) gid t s = Some (0, s')" "group_known gid s"
  shows "setupCountersThread E gid t s = Some (0, activate gid s')" "group_known gid (activate gid s')"
proof -
  show "setupCountersThread E gid t s = Some (0, activate gid s')"
    using assms by (auto simp: setupCountersThread_def group_known_def activate_def)
  show "group_known gid (activate gid s')"
    using assms by (auto simp: call_arch_def group_known_def activate_def bind_Some_iff)
qed

lemma setup_threads_eq:
  assumes "each_thread (call_arch (perfmon_setupCountersThread (arch_funs E)) gid) js s = Some (None, s')" "group_known gid s" "js \<noteq> []"
  shows "each_thread (setupCountersThread E gid) js s = Some (None, activate gid s')"
proof -
  have active: "each_thread (setupCountersThread E gid) js (activate gid s) = Some (None, activate gid s')"
    if "each_thread (call_arch (perfmon_setupCountersThread (arch_funs E)) gid) js s = Some (None, s')" "group_known gid (activate gid s)" for js s
    using that
  proof (induction js arbitrary: s)
    case (Cons t js)
    then obtain s1 where s1: "call_arch (perfmon_setupCountersThread (arch_funs E)) gid t s = Some (0, s1)"
        "each_thread (call_arch (perfmon_setupCountersThread (arch_funs E)) gid) js s1 = Some (None, s')"
      by (auto simp: bind_Some_iff split: if_splits)
    show ?case using setup_thread_eq [OF call_arch_activate [OF s1(1)] Cons.prems(2)] Cons.IH [OF s1(2)] by simp
  qed simp
  obtain t js' where js: "js = t # js'" using assms(3) by (cases js) auto
  then obtain s1 where s1: "call_arch (perfmon_setupCountersThread (arch_funs E)) gid t s = Some (0, s1)"
      "each_thread (call_arch (perfmon_setupCountersThread (arch_funs E)) gid) js' s1 = Some (None, s')"
    using assms(1) by (auto simp: bind_Some_iff split: if_splits)
  show ?thesis using setup_thread_eq [OF s1(1) assms(2)] active [OF s1(2)] js by simp
qed

section \<open>The results of all threads\<close>

lemma same_event_total: "same_event e (fold k10_total js e)"
proof (induction js arbitrary: e)
  case (Cons j js)
  show ?case using Cons.IH [of "k10_total j e"] by (simp add: same_event_def k10_total_eq)
qed (simp add: same_event_def)

lemma fold_total_get:
  assumes "distinct js" "\<forall>j\<in>set js. k10_entry j e"
  shows "counter_get t (fold k10_total js e) = (if t \<in> set js then map_option k10_totalled (counter_get t e) else counter_get t e)"
  using assms
proof (induction js arbitrary: e)
  case (Cons j js)
  have j: "counter_get j e \<noteq> None" using Cons.prems(2) by (auto simp: k10_entry_def)
  have "\<forall>i\<in>set js. k10_entry i (k10_total j e)" using Cons.prems(2) by (auto intro: k10_total_entry)
  then show ?case
    using Cons on_counter_get [OF j, of t k10_totalled] by (auto simp: k10_total_eq)
qed simp

section \<open>The result of a measurement\<close>

lemma unat_mask64:
  assumes "w < 64"
  shows "unat (mask w :: u64) = 2 ^ w - 1"
proof (rule of_nat_inverse)
  show "word_of_nat (2 ^ w - 1) = (mask w :: u64)" by (simp add: mask_eq_exp_minus_1 of_nat_diff)
  have "(2 :: nat) ^ w < 2 ^ 64" using assms by (rule power_strict_increasing) simp
  then show "(2 :: nat) ^ w - 1 < 2 ^ LENGTH(64)" by simp
qed

lemma overflow_word:
  assumes "w < 64" "unat (x :: u64) < 2 ^ w" "unat (y :: u64) < 2 ^ w"
  shows "unat (mask w - x + y) = 2 ^ w - 1 - unat x + unat y"
proof -
  have m: "unat (mask w :: u64) = 2 ^ w - 1" by (rule unat_mask64 [OF assms(1)])
  have le: "x \<le> mask w" using assms(2) m by (simp add: word_le_nat_alt)
  have d: "unat (mask w - x) = 2 ^ w - 1 - unat x" using le m by (simp add: unat_sub)
  have "(2 :: nat) ^ Suc w \<le> 2 ^ 64" using assms(1) by (intro power_increasing) simp_all
  then have "unat (mask w - x) + unat y < 2 ^ 64" using assms(2,3) d by simp
  then show ?thesis using d by (simp add: unat_word_ariths(1))
qed

lemma product_word:
  assumes "w < 64" "k * 2 ^ w \<le> 2 ^ 64" "0 < k"
  shows "unat (of_int (int k - 1) * mask w :: u64) = (k - 1) * (2 ^ w - 1)"
proof -
  have m: "unat (mask w :: u64) = 2 ^ w - 1" by (rule unat_mask64 [OF assms(1)])
  have k: "(of_int (int k - 1) :: u64) = of_nat (k - 1)" using assms(3) by (simp add: of_nat_diff)
  have "(k - 1) * 2 ^ w < k * 2 ^ w" using assms(3) by simp
  then have lt: "(k - 1) * (2 ^ w - 1) < 2 ^ 64" using assms(2) by (meson diff_le_self le_less_trans less_le_trans mult_le_mono2)
  have "(of_nat (k - 1) :: u64) * mask w = of_nat ((k - 1) * (2 ^ w - 1))" by (simp add: mask_eq_exp_minus_1 of_nat_diff)
  then show ?thesis unfolding k using lt by (simp only: unat_of_nat) (simp add: take_bit_nat_eq_self)
qed

text \<open>Starting does not clear the overflows that an earlier measurement has left.\<close>

lemma measured_counter:
  assumes "pc_overflows c = int k" "k \<le> 65536" "c' = k10_totalled (stop_counter True v (start_counter True (setup_counter True c)))"
  shows "(if pc_fullData c' = 0 then k10_result c' else pc_fullData c') = real k * (2 ^ 48 - 1) + real (unat (v AND mask 48))"
proof (cases "k = 0")
  case True
  then show ?thesis
    using assms by (simp add: k10_totalled_def stop_counter_def start_counter_def setup_counter_def k10_count_def k10_resulted_def k10_result_def)
next
  case False
  have "v AND mask 48 \<le> mask 48" by (rule word_and_le1)
  then have d: "unat (v AND mask 48) < 2 ^ 48" using unat_mask64 [of 48] by (simp add: word_le_nat_alt)
  have v: "unat (mask 48 - 0 + (v AND mask 48)) = 2 ^ 48 - 1 - unat (0 :: u64) + unat (v AND mask 48)"
    using d by (intro overflow_word) simp_all
  have p: "unat (of_int (int k - 1) * mask 48 :: u64) = (k - 1) * (2 ^ 48 - 1)"
    using False assms(2) by (intro product_word) simp_all
  have f: "pc_fullData c' = real (unat (mask 48 - 0 + (v AND mask 48))) + real (unat (of_int (int k - 1) * mask 48 :: u64))"
    using False assms(1,3)
    by (simp add: k10_totalled_def stop_counter_def start_counter_def setup_counter_def k10_count_def k10_resulted_def k10_result_def)
  have "pc_fullData c' = real k * (2 ^ 48 - 1) + real (unat (v AND mask 48))"
    unfolding f v p using False by (cases k) (simp_all add: algebra_simps)
  moreover have "(0 :: real) < real k * (2 ^ 48 - 1) + real (unat (v AND mask 48))" using False by (intro add_pos_nonneg of_nat_0_le_iff) simp
  ultimately show ?thesis by (metis less_irrefl)
qed

lemma getResult_k10:
  assumes "k10_tables (tables E)" "perfmon_initialized s" "groupSet s = Some gs" "0 < numberOfActiveGroups gs"
    and "0 \<le> activeGroup gs" "activeGroup gs < int (length (groups gs))" "groups gs ! nat (activeGroup gs) = g"
    and "i < gs_numberOfEvents g" "i < length (gs_events g)" "t < length (threads gs)"
    and "k10_entry t (gs_events g ! i)" "counter_get t (gs_events g ! i) = Some c"
  shows "\<exists>s'. perfmon_getResult E (- 1) (int i) (int t) s = Some (if pc_fullData c = 0 then k10_result c else pc_fullData c, s')"
  using assms k10_calculateResult [OF assms(1,11,12)]
  by (simp add: perfmon_getResult_def arr_get_def update_group_def)

section \<open>The active group\<close>

text \<open>The session \<open>s\<close> with threads \<open>ts\<close> has the active group \<open>g\<close>.\<close>

definition active_group ::
  "(PerfmonThread list \<Rightarrow> 'm pm_state \<Rightarrow> bool) \<Rightarrow> PerfmonThread list \<Rightarrow> ('m, 'c) perfmon \<Rightarrow> PerfmonEventSet \<Rightarrow> bool" where
  "active_group rdy ts s g \<longleftrightarrow> perfmon_initialized s \<and> rdy ts (pm s) \<and> k10_ok ts g \<and>
     (\<exists>gs. groupSet s = Some gs \<and> threads gs = ts \<and> thread_ids gs = [0..<length ts] \<and> 0 < numberOfActiveGroups gs \<and>
        0 \<le> activeGroup gs \<and> activeGroup gs < int (length (groups gs)) \<and> groups gs ! nat (activeGroup gs) = g)"

text \<open>The counters of the first \<open>n\<close> threads have changed by \<open>h\<close>.\<close>

definition counters_map ::
  "nat \<Rightarrow> (nat \<Rightarrow> PerfmonEventSetEntry \<Rightarrow> PerfmonCounter \<Rightarrow> PerfmonCounter) \<Rightarrow> PerfmonEventSet \<Rightarrow> PerfmonEventSet \<Rightarrow> bool" where
  "counters_map n h g g' \<longleftrightarrow> gs_numberOfEvents g' = gs_numberOfEvents g \<and> gs_regTypeMask g' = gs_regTypeMask g \<and>
     (\<forall>i<gs_numberOfEvents g. \<forall>t<n. same_event (gs_events g ! i) (gs_events g' ! i) \<and>
        counter_get t (gs_events g' ! i) = map_option (h t (gs_events g ! i)) (counter_get t (gs_events g ! i)))"

lemma counters_by_map:
  assumes "counters_by {..<n} h g g'" "gs_events g1 = gs_events g'" "gs_numberOfEvents g1 = gs_numberOfEvents g'"
    "gs_regTypeMask g1 = gs_regTypeMask g'"
  shows "counters_map n h g g1"
  using assms same_frame_sel [of g g'] by (auto simp: counters_by_def counters_map_def)

lemma counters_map_trans:
  assumes "counters_map n h g g1" "counters_map n k g1 g2" "\<And>t e e'. same_event e e' \<Longrightarrow> k t e' = k t e"
  shows "counters_map n (\<lambda>t e c. k t e (h t e c)) g g2"
proof -
  have "same_event (gs_events g ! i) (gs_events g2 ! i) \<and>
      counter_get t (gs_events g2 ! i) = map_option (\<lambda>c. k t (gs_events g ! i) (h t (gs_events g ! i) c)) (counter_get t (gs_events g ! i))"
    if "i < gs_numberOfEvents g" "t < n" for i t
  proof -
    have 1: "same_event (gs_events g ! i) (gs_events g1 ! i)" "same_event (gs_events g1 ! i) (gs_events g2 ! i)"
        "counter_get t (gs_events g1 ! i) = map_option (h t (gs_events g ! i)) (counter_get t (gs_events g ! i))"
        "counter_get t (gs_events g2 ! i) = map_option (k t (gs_events g1 ! i)) (counter_get t (gs_events g1 ! i))"
      using assms(1,2) that by (auto simp: counters_map_def)
    then show ?thesis using assms(3) [OF 1(1), of t] by (simp add: same_event_def option.map_comp comp_def)
  qed
  then show ?thesis using assms(1,2) by (simp add: counters_map_def)
qed

lemma counters_map_types: "counters_map n h g g' \<Longrightarrow> type_in_set g' = type_in_set g"
  by (simp add: counters_map_def type_in_set_def fun_eq_iff)

section \<open>Starting and stopping over a register file\<close>

context k10_env
begin

abbreviation ready :: "PerfmonThread list \<Rightarrow> 'm pm_state \<Rightarrow> bool" where
  "ready \<equiv> k10_ready inv acc"

text \<open>The value of the counter register of a thread.\<close>

definition counter_value :: "PerfmonThread list \<Rightarrow> 'm \<Rightarrow> nat \<Rightarrow> nat \<Rightarrow> u64" where
  "counter_value ts m t i = regs m (nat (th_processorId (ts ! t))) (k10_ctr i)"

lemma thread_cpu_nth:
  "\<lbrakk>t < length ts; thread_cpu ts t = Some (int c)\<rbrakk> \<Longrightarrow> nat (th_processorId (ts ! t)) = c"
  by (simp add: thread_cpu_def arr_get_def)

lemma start_law:
  assumes "t < length ts" "k10_ok ts g" "ready ts a"
  shows "\<exists>f a'. perfmon_startCountersThread (arch_funs E) ts t g a = Some (0, loop_result g f, a') \<and> ready ts a' \<and>
    (\<forall>e. k10_entry t e \<longrightarrow> f e = on_counter t (start_counter (type_in_set g (es_type e))) e)"
proof -
  obtain c where c: "thread_cpu ts t = Some (int c)" "c < MAX_NUM_THREADS" "k10_acc acc (machine a) c" "inv (machine a)"
    using assms(3,1) by (rule k10_ready_cpu)
  have g: "k10_group t g" using assms(1,2) by (simp add: k10_ok_def)
  obtain a' where a': "perfmon_startCountersThread (arch_funs E) ts t g a = Some (0, loop_result g (k10_start_entry g t), a')"
      "inv (machine a')" "acc (machine a') = acc (machine a)"
    using start_correct [OF env_tables g c(1,4,3)] by (auto simp: env_funs k10_funs_def holds_def)
  then show ?thesis using k10_ready_step [OF assms(3)] start_entry_eq by blast
qed

lemma stopped_counter:
  assumes "holds inv acc regs m0 c (k10_stopped A (regs m0 c)) m" "acc m0 c' (k10_ctr i)" "i < 4" "A \<subseteq> {..<4}"
  shows "regs m c' (k10_ctr i) = regs m0 c' (k10_ctr i)"
proof -
  have "k10_ctr i \<notin> k10_ctl ` A" using assms(3,4) k10_regs_distinct(4) by blast
  then show ?thesis using assms(1,2) by (auto simp: holds_def k10_stopped_def)
qed

text \<open>Stopping does not change the counter registers, so each thread reads the value from before the stop.\<close>

lemma stop_law:
  assumes "t < length ts" "k10_ok ts g" "ready ts a" "\<forall>t<length ts. \<forall>i<4. counter_value ts (machine a) t i = V t i"
  shows "\<exists>f a'. perfmon_stopCountersThread (arch_funs E) ts t g a = Some (0, loop_result g f, a') \<and>
    (ready ts a' \<and> (\<forall>t<length ts. \<forall>i<4. counter_value ts (machine a') t i = V t i)) \<and>
    (\<forall>e. k10_entry t e \<longrightarrow> f e = on_counter t (stop_counter (type_in_set g (es_type e)) (V t (es_index e))) e)"
proof -
  obtain c where c: "thread_cpu ts t = Some (int c)" "c < MAX_NUM_THREADS" "k10_acc acc (machine a) c" "inv (machine a)"
    using assms(3,1) by (rule k10_ready_cpu)
  have g: "k10_group t g" using assms(1,2) by (simp add: k10_ok_def)
  let ?A = "k10_used g t (take (gs_numberOfEvents g) (gs_events g))"
  have A: "?A \<subseteq> {..<4}" using g by (auto simp: k10_used_def k10_group_def k10_entry_def)
  obtain a' where a': "perfmon_stopCountersThread (arch_funs E) ts t g a = Some (0, loop_result g (k10_read_entry g t (regs (machine a) c)), a')"
      "holds inv acc regs (machine a) c (k10_stopped ?A (regs (machine a) c)) (machine a')"
    using stop_correct [OF env_tables g c(1,4,3)] by (auto simp: env_funs k10_funs_def)
  have "counter_value ts (machine a') t' i = V t' i" if h: "t' < length ts" "i < 4" for t' i
  proof -
    obtain c' where c': "thread_cpu ts t' = Some (int c')" "k10_acc acc (machine a) c'" using assms(3) h(1) by (rule k10_ready_cpu)
    then have "regs (machine a') c' (k10_ctr i) = regs (machine a) c' (k10_ctr i)"
      using stopped_counter [OF a'(2) _ h(2) A, of c'] h(2) by (simp add: k10_acc_def)
    then show ?thesis using assms(4) h thread_cpu_nth [OF h(1) c'(1)] by (auto simp: counter_value_def)
  qed
  moreover have "ready ts a'" using a'(2) k10_ready_step [OF assms(3)] by (simp add: holds_def)
  moreover have "k10_read_entry g t (regs (machine a) c) e = on_counter t (stop_counter (type_in_set g (es_type e)) (V t (es_index e))) e"
    if h: "k10_entry t e" for e
    using read_entry_eq [OF h] h assms(1,4) thread_cpu_nth [OF assms(1) c(1)] by (auto simp: counter_value_def k10_entry_def)
  ultimately show ?thesis using a'(1) by blast
qed

lemma setup_law:
  assumes "t < length ts" "k10_ok ts g" "ready ts a"
  shows "\<exists>f a'. perfmon_setupCountersThread (arch_funs E) ts t g a = Some (0, loop_result g f, a') \<and> ready ts a' \<and>
    (\<forall>e. k10_entry t e \<longrightarrow> f e = on_counter t (setup_counter (type_in_set g (es_type e))) e)"
proof -
  obtain c where c: "thread_cpu ts t = Some (int c)" "c < MAX_NUM_THREADS" "k10_acc acc (machine a) c" "inv (machine a)"
    using assms(3,1) by (rule k10_ready_cpu)
  have g: "k10_group t g" using assms(1,2) by (simp add: k10_ok_def)
  obtain a' where a': "perfmon_setupCountersThread (arch_funs E) ts t g a = Some (0, loop_result g (k10_setup_entry g t), a')"
      "inv (machine a')" "acc (machine a') = acc (machine a)"
    using setup_total [OF env_tables g c(1,2,4,3)] by (auto simp: env_funs k10_funs_def same_except_def)
  then show ?thesis using k10_ready_step [OF assms(3)] setup_entry_eq by blast
qed

lemma with_group_self:
  "\<lbrakk>groupSet s = Some gs; groups gs ! nat gid = g\<rbrakk> \<Longrightarrow> with_group s gs gid g (pm s) = s"
  by (auto simp: with_group_def)

lemma all_ids: "set [0..<length ts] = {..<length ts}"
  by auto

lemma k10_ok_frame: "\<lbrakk>k10_ok ts g; gs_events g' = gs_events g; gs_numberOfEvents g' = gs_numberOfEvents g\<rbrakk> \<Longrightarrow> k10_ok ts g'"
  by (simp add: k10_ok_def k10_group_def)

lemma setupCounters_effect:
  assumes gs: "groupSet s = Some gs" "thread_ids gs = [0..<length (threads gs)]" "threads gs \<noteq> []" "perfmon_initialized s"
    and gid: "0 \<le> gid" "gid < int (numberOfActiveGroups gs)" "numberOfActiveGroups gs \<le> length (groups gs)" "groups gs ! nat gid = g"
    and ok: "k10_ok (threads gs) g" "ready (threads gs) (pm s)"
  obtains g' a' where
    "perfmon_setupCounters E gid s = Some (0, with_group s (gs\<lparr>activeGroup := gid\<rparr>) gid (g'\<lparr>gs_state := STATE_SETUP\<rparr>) a')"
    "ready (threads gs) a'" "k10_ok (threads gs) g'"
    "counters_by {..<length (threads gs)} (\<lambda>t e. setup_counter (type_in_set g (es_type e))) g g'"
proof -
  have len: "gid < int (length (groups gs))" using gid by simp
  obtain g' a' where th: "each_thread (call_arch (perfmon_setupCountersThread (arch_funs E)) gid) [0..<length (threads gs)] (with_group s gs gid g (pm s)) =
        Some (None, with_group s gs gid g' a')"
      "ready (threads gs) a'" "k10_ok (threads gs) g'"
      "counters_by {..<length (threads gs)} (\<lambda>t e. setup_counter (type_in_set g (es_type e))) g g'"
  proof (rule all_threads_run [where gs = gs and J = "ready (threads gs)" and fn = "perfmon_setupCountersThread (arch_funs E)"
      and h = "\<lambda>t S e. setup_counter (S (es_type e))" and gid = gid and g = g and a = "pm s" and s = s])
  qed (use setup_law gid(1) len ok in \<open>auto simp: same_event_def\<close>)
  have "each_thread (setupCountersThread E gid) [0..<length (threads gs)] s = Some (None, activate gid (with_group s gs gid g' a'))"
    using th(1) gs gid unfolding with_group_self [OF gs(1) gid(4)]
    by (intro setup_threads_eq) (auto simp: group_known_def)
  then have "perfmon_setupCounters E gid s = Some (0, with_group s (gs\<lparr>activeGroup := gid\<rparr>) gid (g'\<lparr>gs_state := STATE_SETUP\<rparr>) a')"
    using gs gid len by (simp add: perfmon_setupCounters_def update_group_def activate_def with_group_def arr_get_def)
  then show thesis using that th(2-4) by blast
qed

lemma startCounters_effect:
  assumes gs: "groupSet s = Some gs" "thread_ids gs = [0..<length (threads gs)]"
    and gid: "0 \<le> gid" "gid < int (length (groups gs))" "groups gs ! nat gid = g" "gs_state g = STATE_SETUP"
    and ok: "k10_ok (threads gs) g" "ready (threads gs) (pm s)"
  obtains g' a' tm c where
    "startCounters E gid s = Some (0, (with_group s gs gid (g'\<lparr>gs_state := STATE_START, gs_timer := tm\<rparr>) a')\<lparr>clock := c\<rparr>)"
    "ready (threads gs) a'" "k10_ok (threads gs) g'"
    "counters_by {..<length (threads gs)} (\<lambda>t e. start_counter (type_in_set g (es_type e))) g g'"
proof -
  obtain g' a' where th: "each_thread (call_arch (perfmon_startCountersThread (arch_funs E)) gid) [0..<length (threads gs)] (with_group s gs gid g (pm s)) =
        Some (None, with_group s gs gid g' a')"
      "ready (threads gs) a'" "k10_ok (threads gs) g'"
      "counters_by {..<length (threads gs)} (\<lambda>t e. start_counter (type_in_set g (es_type e))) g g'"
  proof (rule all_threads_run [where gs = gs and J = "ready (threads gs)" and fn = "perfmon_startCountersThread (arch_funs E)"
      and h = "\<lambda>t S e. start_counter (S (es_type e))" and gid = gid and g = g and a = "pm s" and s = s])
  qed (use start_law gid ok in \<open>auto simp: same_event_def\<close>)
  obtain tm c where tm: "timer_start (clocks E) (timers s) (gs_timer g') (clock s) = (tm, c)" by fastforce
  have "startCounters E gid s = Some (0, (with_group s gs gid (g'\<lparr>gs_state := STATE_START, gs_timer := tm\<rparr>) a')\<lparr>clock := c\<rparr>)"
    using gs gid th(1) tm unfolding with_group_self [OF gs(1) gid(3)]
    by (simp add: startCounters_def group_state_def arr_get_def update_group_def start_timer_def with_group_def)
  then show thesis using that th(2-4) by blast
qed

lemma stopCounters_effect:
  assumes gs: "groupSet s = Some gs" "thread_ids gs = [0..<length (threads gs)]"
    and gid: "0 \<le> gid" "gid < int (length (groups gs))" "groups gs ! nat gid = g"
    and ok: "k10_ok (threads gs) g" "ready (threads gs) (pm s)"
  obtains g' s' where "stopCounters E gid s = Some (0, s')"
    "groupSet s' = Some (gs\<lparr>groups := (groups gs)[nat gid := g']\<rparr>)"
    "perfmon_initialized s' = perfmon_initialized s" "ready (threads gs) (pm s')" "k10_ok (threads gs) g'" "gs_state g' = STATE_SETUP"
    "counters_map (length (threads gs)) (\<lambda>t e c. k10_totalled (stop_counter (type_in_set g (es_type e))
       (counter_value (threads gs) (machine (pm s)) t (es_index e)) c)) g g'"
proof -
  let ?ts = "threads gs" and ?V = "counter_value (threads gs) (machine (pm s))"
  obtain tm c1 where tm: "timer_stop (clocks E) (timers s) (gs_timer g) (clock s) = (tm, c1)" by fastforce
  let ?g0 = "g\<lparr>gs_timer := tm\<rparr>" and ?s0 = "s\<lparr>clock := c1\<rparr>"
  let ?J = "\<lambda>a. ready ?ts a \<and> (\<forall>t<length ?ts. \<forall>i<4. counter_value ?ts (machine a) t i = ?V t i)"
  have st: "stop_timer E gid s = Some (with_group ?s0 gs gid ?g0 (pm s))"
    using gs(1) gid tm by (simp add: stop_timer_def arr_get_def update_group_def with_group_def)
  have ok0: "k10_ok ?ts ?g0" using ok(1) by (rule k10_ok_frame) simp_all
  obtain g1 a1 where th: "each_thread (call_arch (perfmon_stopCountersThread (arch_funs E)) gid) [0..<length ?ts] (with_group ?s0 gs gid ?g0 (pm s)) =
        Some (None, with_group ?s0 gs gid g1 a1)" "?J a1" "k10_ok ?ts g1"
      "counters_by {..<length ?ts} (\<lambda>t e. stop_counter (type_in_set ?g0 (es_type e)) (?V t (es_index e))) ?g0 g1"
  proof (rule all_threads_run [where gs = gs and J = ?J and fn = "perfmon_stopCountersThread (arch_funs E)" and s = ?s0
      and h = "\<lambda>t S e. stop_counter (S (es_type e)) (?V t (es_index e))" and gid = gid and g = ?g0 and a = "pm s"])
    show "\<exists>f a'. perfmon_stopCountersThread (arch_funs E) ?ts t g a = Some (0, loop_result g f, a') \<and> ?J a' \<and>
        (\<forall>e. k10_entry t e \<longrightarrow> f e = on_counter t (stop_counter (type_in_set g (es_type e)) (?V t (es_index e))) e)"
      if "t < length ?ts" "k10_ok ?ts g" "?J a" for t g a
      using stop_law [of t ?ts g a ?V] that by blast
  qed (use gid ok ok0 in \<open>auto simp: same_event_def\<close>)
  let ?n = "gs_numberOfEvents g"
  have n: "gs_numberOfEvents g1 = ?n" "gs_regTypeMask g1 = gs_regTypeMask g" "type_in_set ?g0 = type_in_set g"
    using th(4) same_frame_sel(1,2) [of ?g0 g1] by (auto simp: counters_by_def type_in_set_def fun_eq_iff)
  have es1: "?n \<le> length (gs_events g1)" "\<forall>e\<in>set (take ?n (gs_events g1)). \<forall>j<length ?ts. k10_entry j e"
    using th(3) n(1) by (auto simp: k10_ok_def k10_group_def)
  let ?f = "fold k10_total [0..<length ?ts]"
  let ?es = "map ?f (take ?n (gs_events g1)) @ drop ?n (gs_events g1)"
  let ?g' = "add_time (timers s) (g1\<lparr>gs_events := ?es, gs_state := STATE_SETUP\<rparr>)"
  have res: "add_group_results E (length ?ts) ?n (gs_events g1) = Some ?es" by (rule add_group_results_k10 [OF env_tables es1])
  have stop: "stopCounters E gid s = Some (0, with_group ?s0 gs gid ?g' a1)"
    using st th(1) gs(2) gid res n(1)
    by (simp add: stopCounters_def) (simp add: with_group_def arr_get_def update_group_def thread_ids_def)
  have "k10_ok ?ts (g1\<lparr>gs_events := ?es\<rparr>)" using cm.results_law [OF th(3)] res n(1) by simp
  then have ok': "k10_ok ?ts ?g'" by (rule k10_ok_frame) (simp_all add: add_time_def)
  have cs: "same_event (gs_events g ! i) (gs_events ?g' ! i) \<and>
       counter_get t (gs_events ?g' ! i) = map_option (\<lambda>c. k10_totalled (stop_counter (type_in_set g (es_type (gs_events g ! i)))
         (?V t (es_index (gs_events g ! i))) c)) (counter_get t (gs_events g ! i))"
    if i: "i < ?n" and t: "t < length ?ts" for i t
  proof -
    have ev: "gs_events ?g' ! i = ?f (gs_events g1 ! i)" using i es1(1) by (simp add: add_time_def nth_append)
    have "gs_events g1 ! i \<in> set (take ?n (gs_events g1))" using i es1(1) by (auto simp: in_set_conv_nth)
    then have "counter_get t (?f (gs_events g1 ! i)) = map_option k10_totalled (counter_get t (gs_events g1 ! i))"
      using fold_total_get [of "[0..<length ?ts]" "gs_events g1 ! i" t] es1(2) t by auto
    then show ?thesis
      using th(4) i t ev n(3) same_event_total [of "gs_events g1 ! i" "[0..<length ?ts]"]
      by (auto simp: counters_by_def same_event_def option.map_comp comp_def)
  qed
  show thesis
    by (rule that [OF stop, of ?g']) (use th(2) n ok' cs in \<open>simp_all add: with_group_def add_time_def counters_map_def\<close>)
qed

lemma setup_active:
  assumes live: "living ready k10_ok ts l s" and gs: "groupSet s = Some gs"
    and gid: "0 \<le> gid" "gid < int (numberOfActiveGroups gs)" "g = groups gs ! nat gid"
  obtains s' g' where "perfmon_setupCounters E gid s = Some (0, s')" "active_group ready ts s' g'" "gs_state g' = STATE_SETUP"
    "counters_map (length ts) (\<lambda>t e. setup_counter (type_in_set g (es_type e))) g g'"
proof -
  have i: "perfmon_initialized s" "threads gs = ts" "thread_ids gs = [0..<length (threads gs)]" "threads gs \<noteq> []"
      "numberOfActiveGroups gs \<le> length (groups gs)" "k10_ok (threads gs) g" "ready (threads gs) (pm s)"
    using live gs gid by (auto simp: living_def gs_inv_def)
  obtain g0 a0 where s0: "perfmon_setupCounters E gid s = Some (0, with_group s (gs\<lparr>activeGroup := gid\<rparr>) gid (g0\<lparr>gs_state := STATE_SETUP\<rparr>) a0)"
      "ready (threads gs) a0" "k10_ok (threads gs) g0"
      "counters_by {..<length (threads gs)} (\<lambda>t e. setup_counter (type_in_set g (es_type e))) g g0"
    by (rule setupCounters_effect [OF gs i(3,4,1) gid(1,2) i(5) gid(3) [symmetric] i(6,7)])
  show thesis
  proof (rule that [OF s0(1), of "g0\<lparr>gs_state := STATE_SETUP\<rparr>"])
    show "active_group ready ts (with_group s (gs\<lparr>activeGroup := gid\<rparr>) gid (g0\<lparr>gs_state := STATE_SETUP\<rparr>) a0) (g0\<lparr>gs_state := STATE_SETUP\<rparr>)"
      using i s0(2) gid k10_ok_frame [OF s0(3)] by (simp add: active_group_def with_group_def thread_ids_def)
    show "counters_map (length ts) (\<lambda>t e. setup_counter (type_in_set g (es_type e))) g (g0\<lparr>gs_state := STATE_SETUP\<rparr>)"
      using counters_by_map [OF s0(4)] i(2) by simp
  qed simp
qed

lemma start_active:
  assumes "active_group ready ts s g" "gs_state g = STATE_SETUP"
  obtains s' g' where "perfmon_startCounters E s = Some (0, s')" "active_group ready ts s' g'" "gs_state g' = STATE_START"
    "counters_map (length ts) (\<lambda>t e. start_counter (type_in_set g (es_type e))) g g'"
proof -
  obtain gs where i: "perfmon_initialized s" "ready (threads gs) (pm s)" "k10_ok (threads gs) g" "groupSet s = Some gs" "threads gs = ts"
      "thread_ids gs = [0..<length (threads gs)]" "0 < numberOfActiveGroups gs" "0 \<le> activeGroup gs"
      "activeGroup gs < int (length (groups gs))" "groups gs ! nat (activeGroup gs) = g"
    using assms(1) by (auto simp: active_group_def)
  obtain g1 a1 tm c where s1: "startCounters E (activeGroup gs) s =
        Some (0, (with_group s gs (activeGroup gs) (g1\<lparr>gs_state := STATE_START, gs_timer := tm\<rparr>) a1)\<lparr>clock := c\<rparr>)"
      "ready (threads gs) a1" "k10_ok (threads gs) g1"
      "counters_by {..<length (threads gs)} (\<lambda>t e. start_counter (type_in_set g (es_type e))) g g1"
    by (rule startCounters_effect [OF i(4,6,8-10) assms(2) i(3,2)])
  show thesis
  proof (rule that [of _ "g1\<lparr>gs_state := STATE_START, gs_timer := tm\<rparr>"])
    show "perfmon_startCounters E s = Some (0, (with_group s gs (activeGroup gs) (g1\<lparr>gs_state := STATE_START, gs_timer := tm\<rparr>) a1)\<lparr>clock := c\<rparr>)"
      using s1(1) i by (simp add: perfmon_startCounters_def)
    show "active_group ready ts ((with_group s gs (activeGroup gs) (g1\<lparr>gs_state := STATE_START, gs_timer := tm\<rparr>) a1)\<lparr>clock := c\<rparr>)
        (g1\<lparr>gs_state := STATE_START, gs_timer := tm\<rparr>)"
      using i s1(2) k10_ok_frame [OF s1(3)] by (simp add: active_group_def with_group_def thread_ids_def)
    show "counters_map (length ts) (\<lambda>t e. start_counter (type_in_set g (es_type e))) g (g1\<lparr>gs_state := STATE_START, gs_timer := tm\<rparr>)"
      using counters_by_map [OF s1(4)] i(5) by simp
  qed simp
qed

lemma stop_active:
  assumes "active_group ready ts s g" "gs_state g = STATE_START"
  obtains s' g' where "perfmon_stopCounters E s = Some (0, s')" "active_group ready ts s' g'" "gs_state g' = STATE_SETUP"
    "counters_map (length ts) (\<lambda>t e c. k10_totalled (stop_counter (type_in_set g (es_type e)) (counter_value ts (machine (pm s)) t (es_index e)) c)) g g'"
proof -
  obtain gs where i: "perfmon_initialized s" "ready (threads gs) (pm s)" "k10_ok (threads gs) g" "groupSet s = Some gs" "threads gs = ts"
      "thread_ids gs = [0..<length (threads gs)]" "0 < numberOfActiveGroups gs" "0 \<le> activeGroup gs"
      "activeGroup gs < int (length (groups gs))" "groups gs ! nat (activeGroup gs) = g"
    using assms(1) by (auto simp: active_group_def)
  obtain g' s' where s': "stopCounters E (activeGroup gs) s = Some (0, s')"
      "groupSet s' = Some (gs\<lparr>groups := (groups gs)[nat (activeGroup gs) := g']\<rparr>)"
      "perfmon_initialized s' = perfmon_initialized s" "ready (threads gs) (pm s')" "k10_ok (threads gs) g'" "gs_state g' = STATE_SETUP"
      "counters_map (length (threads gs)) (\<lambda>t e c. k10_totalled (stop_counter (type_in_set g (es_type e))
         (counter_value (threads gs) (machine (pm s)) t (es_index e)) c)) g g'"
    by (rule stopCounters_effect [OF i(4,6,8-10,3,2)])
  show thesis
  proof (rule that [OF _ _ s'(6)])
    show "perfmon_stopCounters E s = Some (0, s')"
      using s'(1) i assms(2) by (simp add: perfmon_stopCounters_def group_state_def arr_get_def)
    show "active_group ready ts s' g'"
      using s' i by (simp add: active_group_def thread_ids_def)
  qed (use s'(7) i(5) in simp)
qed

text \<open>
  Setting up, starting and stopping a group: whatever the hardware does between start and stop to the
  registers of the machine, the result of an event is the value of its counter register, and one largest value for
  every overflow that was left.
\<close>

lemma measurement:
  assumes live: "living ready k10_ok ts l s" and gs: "groupSet s = Some gs"
    and gid: "0 \<le> gid" "gid < int (numberOfActiveGroups gs)" "g = groups gs ! nat gid"
    and ev: "i < gs_numberOfEvents g" "e = gs_events g ! i" "type_in_set g (es_type e)"
    and t: "t < length ts" "counter_get t e = Some c" "pc_overflows c = int k" "k \<le> 65536"
  shows "\<exists>s0 s1. perfmon_setupCounters E gid s = Some (0, s0) \<and> perfmon_startCounters E s0 = Some (0, s1) \<and>
    (\<forall>m. inv m \<and> acc m = acc (machine (pm s1)) \<longrightarrow>
      (\<exists>s2 s3. perfmon_stopCounters E (s1\<lparr>pm := (pm s1)\<lparr>machine := m\<rparr>\<rparr>) = Some (0, s2) \<and>
        perfmon_getResult E (- 1) (int i) (int t) s2 =
          Some (real k * (2 ^ 48 - 1) + real (unat (regs m (nat (th_processorId (ts ! t))) (k10_ctr (es_index e)) AND mask 48)), s3)))"
proof -
  let ?act = "\<lambda>e. type_in_set g (es_type e)"
  obtain s0 g0 where s0: "perfmon_setupCounters E gid s = Some (0, s0)" "active_group ready ts s0 g0" "gs_state g0 = STATE_SETUP"
      "counters_map (length ts) (\<lambda>t e. setup_counter (?act e)) g g0"
    by (rule setup_active [OF live gs gid])
  have ty0: "type_in_set g0 = type_in_set g" using s0(4) by (rule counters_map_types)
  obtain s1 g1 where s1: "perfmon_startCounters E s0 = Some (0, s1)" "active_group ready ts s1 g1" "gs_state g1 = STATE_START"
      "counters_map (length ts) (\<lambda>t e. start_counter (?act e)) g0 g1"
    using start_active [OF s0(2,3)] unfolding ty0 by blast
  have ty1: "type_in_set g1 = type_in_set g" using counters_map_types [OF s1(4)] ty0 by simp
  have "\<exists>s2 s3. perfmon_stopCounters E (s1\<lparr>pm := (pm s1)\<lparr>machine := m\<rparr>\<rparr>) = Some (0, s2) \<and>
        perfmon_getResult E (- 1) (int i) (int t) s2 =
          Some (real k * (2 ^ 48 - 1) + real (unat (regs m (nat (th_processorId (ts ! t))) (k10_ctr (es_index e)) AND mask 48)), s3)"
    if m: "inv m" "acc m = acc (machine (pm s1))" for m
  proof -
    let ?s = "s1\<lparr>pm := (pm s1)\<lparr>machine := m\<rparr>\<rparr>" and ?v = "\<lambda>t e. counter_value ts m t (es_index e)"
    have "active_group ready ts ?s g1"
      using s1(2) m k10_ready_step [of inv acc ts "pm s1" "(pm s1)\<lparr>machine := m\<rparr>"] by (auto simp: active_group_def)
    from stop_active [OF this s1(3)]
    obtain s2 g2 where s2: "perfmon_stopCounters E ?s = Some (0, s2)" "active_group ready ts s2 g2"
        "counters_map (length ts) (\<lambda>t e c. k10_totalled (stop_counter (?act e) (?v t e) c)) g1 g2"
      unfolding ty1 by simp blast
    have "counters_map (length ts) (\<lambda>t e c. start_counter (?act e) (setup_counter (?act e) c)) g g1"
      by (rule counters_map_trans [OF s0(4) s1(4)]) (simp add: same_event_def)
    from counters_map_trans [OF this s2(3)]
    have "counters_map (length ts) (\<lambda>t e c. k10_totalled (stop_counter (?act e) (?v t e) (start_counter (?act e) (setup_counter (?act e) c)))) g g2"
      by (simp add: same_event_def)
    then have e2: "counter_get t (gs_events g2 ! i) = Some (k10_totalled (stop_counter True (?v t e) (start_counter True (setup_counter True c))))"
        "i < gs_numberOfEvents g2"
      using ev t by (auto simp: counters_map_def)
    obtain gs2 where i: "perfmon_initialized s2" "k10_ok ts g2" "groupSet s2 = Some gs2" "threads gs2 = ts" "0 < numberOfActiveGroups gs2"
        "0 \<le> activeGroup gs2" "activeGroup gs2 < int (length (groups gs2))" "groups gs2 ! nat (activeGroup gs2) = g2"
      using s2(2) by (auto simp: active_group_def)
    have "i < length (gs_events g2)" "k10_entry t (gs_events g2 ! i)" "t < length (threads gs2)"
      using i(2,4) t(1) e2(2) k10_group_nth [of t g2 i] by (auto simp: k10_ok_def)
    then show ?thesis
      using s2(1) getResult_k10 [OF env_tables i(1,3,5-8) e2(2) _ _ _ e2(1)] measured_counter [OF t(3,4) refl, of "?v t e"]
      by (auto simp: counter_value_def)
  qed
  then show ?thesis using s0(1) s1(1) by blast
qed

end

end
