(* ===== verification/Perfmon_Stack.thy ===== *)
theory Perfmon_Stack
  imports Perfmon_Measure
begin

text \<open>
  The performance monitoring module on top of the register access layer: the calls of \<open>access.c\<close>, the
  client, the access daemon and the MSR device files are the register file of the K10 module. The
  properties of sessions hold for this whole stack, and there is a concrete AMD machine for which they
  are evaluated.
\<close>

section \<open>The access layer as register file\<close>

definition stack_ops ::
  "'k kernel_ops \<Rightarrow> nat \<Rightarrow> u32 \<Rightarrow> ('k daemons hpm \<Rightarrow> int) \<Rightarrow> (nat \<Rightarrow> 'k daemons hpm \<Rightarrow> (int \<times> 'k daemons hpm) option) \<Rightarrow>
   'k daemons hpm hpm_ops" where
  "stack_ops K n eax err pciInit = \<lparr>
     hp_read = HPMread (daemon_link K n eax) (world_kernel K),
     hp_write = HPMwrite (daemon_link K n eax) (world_kernel K),
     hp_check = HPMcheck (daemon_link K n eax),
     hp_errno = err,
     hp_init = HPMinit,
     hp_addThread = (\<lambda>cpu s. if cpu < 0 then None else HPMaddThread (daemon_link K n eax) (world_kernel K) pciInit (nat cpu) s),
     hp_finalize = HPMfinalize (daemon_link K n eax) (world_kernel K)\<rparr>"

locale k10_stack = msr_kernel K mem numHWThreads eax
  for K :: "'k kernel_ops" and mem :: "'k \<Rightarrow> int \<Rightarrow> u32 \<Rightarrow> u64" and numHWThreads :: nat and eax :: u32 +
  fixes err :: "'k daemons hpm \<Rightarrow> int"
    and pciInit :: "nat \<Rightarrow> 'k daemons hpm \<Rightarrow> (int \<times> 'k daemons hpm) option"
    and E :: "('k daemons hpm, 'c) perfmon_env"
  assumes stack_tables: "k10_tables (tables E)"
    and stack_funs: "arch_funs E = k10_funs (stack_ops K numHWThreads eax err pciInit) (tables E)"

sublocale k10_stack \<subseteq> st: k10_env stack_inv stack_acc "stack_regs mem" "stack_ops K numHWThreads eax err pciInit" E
proof -
  have "msr_machine stack_inv stack_acc (stack_regs mem) (stack_ops K numHWThreads eax err pciInit)"
    using hp.register_access_axioms by (simp add: msr_machine_def stack_ops_def)
  then show "k10_env stack_inv stack_acc (stack_regs mem) (stack_ops K numHWThreads eax err pciInit) E"
    using stack_tables stack_funs by (simp add: k10_env_def k10_env_axioms_def)
qed

context k10_stack
begin

lemmas session_run = st.cm.run_refines
lemmas session_result = st.measurement
lemmas session_read = st.read_law
lemmas session_write = st.write_law
lemmas session_setup = st.setup_correct
lemmas session_start = st.start_correct
lemmas session_stop = st.stop_correct
lemmas session_read_counters = st.read_correct

end

section \<open>A concrete AMD machine\<close>

text \<open>Two hardware threads of family 0x10; the first one is registered.\<close>

definition amd_daemon :: daemon where
  "amd_daemon = stack_daemon\<lparr>allowed := allowed_amd\<rparr>"

lemma amd_daemon_start: "daemon_start reg_kernel 2 0x100F42 3 4 k = Some (Some (amd_daemon, k))"
proof -
  have u: "[0..<2] = [0, 1 :: nat]" by (simp add: upt_rec)
  show ?thesis
    by (simp add: daemon_start_def select_policy_def cpuid_family_def cpuid_model_def amd_daemon_def stack_daemon_def demo_daemon_def
        daemon_initial_def reg_kernel_def dec_string_zero dec_string_one [simplified] u MAX_NUM_THREADS_def)
qed

definition amd_ready :: "(int \<Rightarrow> u32 \<Rightarrow> u64) daemons hpm" where
  "amd_ready = stack_ready\<lparr>world := ([7 \<mapsto> amd_daemon], 8, \<lambda>fd r. 0)\<rparr>"

lemma amd_ready_reached:
  "HPMaddThread (daemon_link reg_kernel 2 0x100F42) (world_kernel reg_kernel) pciInit 0 (snd (HPMinit stack_start)) = Some (0, amd_ready)"
  by (simp add: HPMinit_def stack_start_def HPMaddThread_def access_client_init_def arr_get_def arr_set_def
      daemon_link_def amd_daemon_start amd_ready_def stack_ready_def MAX_NUM_THREADS_def)

lemma amd_ready_fd: "stack_fd amd_ready = stack_fd stack_ready"
proof
  fix c
  have "client amd_ready = client stack_ready" "fst (world amd_ready) 7 = Some amd_daemon" "fst (world stack_ready) 7 = Some stack_daemon"
    by (simp_all add: amd_ready_def stack_ready_def)
  then show "stack_fd amd_ready c = stack_fd stack_ready c"
    by (simp add: stack_fd_def stack_ready_socket amd_daemon_def)
qed

lemma amd_ready_inv: "stack_inv amd_ready"
  using stack_ready_inv by (simp add: stack_inv_def amd_ready_fd) (simp add: amd_ready_def)

lemma amd_ready_acc: "allowed_amd r \<Longrightarrow> stack_acc amd_ready 0 r"
  using stack_ready_socket [of 0]
  by (simp add: stack_acc_def)
    (simp add: amd_ready_def amd_daemon_def stack_ready_def stack_start_def stack_daemon_def demo_daemon_def arr_get_def MAX_NUM_THREADS_def)

lemma amd_ready_k10: "k10_acc stack_acc amd_ready 0"
  by (auto simp: k10_acc_def less_4_cases k10_ctl_def k10_ctr_def allowed_amd_def intro!: amd_ready_acc)

text \<open>An environment of the module; the clock counts its readings.\<close>

definition tick_clock :: "nat clock_ops" where
  "tick_clock = \<lparr>ck_tsc = (\<lambda>c. (of_nat c, c + 1)), ck_usec = (\<lambda>c. (of_nat c, c + 1)),
     ck_sleep = (\<lambda>u c. (0, c)), ck_nanosleep = (\<lambda>u c. (0, c))\<rparr>"

definition amd_option :: PerfmonEventOption where
  "amd_option = \<lparr>po_type = EVENT_OPTION_NONE, po_value = 0\<rparr>"

definition amd_event :: "string \<Rightarrow> u16 \<Rightarrow> PerfmonEvent" where
  "amd_event name eventId = \<lparr>ev_name = name, ev_limit = ''PMC'', ev_eventId = eventId, ev_umask = 0, ev_cfgBits = 0, ev_cmask = 0,
     ev_numberOfOptions = 0, ev_optionMask = 0, ev_options = replicate MAX_EVENT_OPTIONS amd_option\<rparr>"

definition amd_tables :: arch_tables where
  "amd_tables = \<lparr>counter_map = k10_counter_map, box_map = Some k10_box_map,
     eventHash = [amd_event ''INSTRUCTIONS_RETIRED'' 0xC0, amd_event ''CPU_CLOCKS_UNHALTED'' 0x76]\<rparr>"

definition amd_counter :: PerfmonCounter where
  "amd_counter = \<lparr>pc_init = False, pc_id = 0, pc_overflows = 0, pc_startData = 0, pc_counterData = 0, pc_fullData = 0\<rparr>"

definition amd_entry :: "nat \<Rightarrow> PerfmonEvent \<Rightarrow> PerfmonEventSetEntry" where
  "amd_entry index event = \<lparr>es_event = event, es_index = index, es_type = PMC, es_threadCounter = Some [amd_counter]\<rparr>"

definition amd_group :: PerfmonEventSet where
  "amd_group = \<lparr>gs_numberOfEvents = 2,
     gs_events = [amd_entry 0 (amd_event ''INSTRUCTIONS_RETIRED'' 0xC0), amd_entry 1 (amd_event ''CPU_CLOCKS_UNHALTED'' 0x76)],
     gs_timer = \<lparr>tm_start = 0, tm_stop = 0\<rparr>, gs_rdtscTime = 0, gs_runTime = 0,
     gs_regTypeMask = ucast (REG_TYPE_MASK PMC), gs_state = STATE_NONE\<rparr>"

definition amd_threads :: "PerfmonThread list" where
  "amd_threads = [\<lparr>th_thread_id = 0, th_processorId = 0\<rparr>]"

definition amd_env :: "((int \<Rightarrow> u32 \<Rightarrow> u64) daemons hpm, nat) perfmon_env" where
  "amd_env =
     (let H = stack_ops reg_kernel 2 0x100F42 (\<lambda>s. 0) (\<lambda>cpu s. Some (0, s)) in
      \<lparr>hpm_funs = H, arch_funs = k10_funs H amd_tables, tables = amd_tables, clocks = tick_clock, energyUnits = [],
       getenv = (\<lambda>v. None), lock_check = True, topology_known = True, has_rdtscp = True,
       env_power_init = (\<lambda>c m. Some m), env_thermal_init = (\<lambda>c m. Some m),
       fresh_group = amd_group, fresh_entry = amd_entry 0 (amd_event [] 0), fresh_counter = amd_counter,
       fresh_thread = \<lparr>th_thread_id = 0, th_processorId = 0\<rparr>\<rparr>)"

interpretation amd: k10_stack reg_kernel "\<lambda>k. k" 2 "0x100F42" "\<lambda>s. 0" "\<lambda>cpu s. Some (0, s)" amd_env
  by unfold_locales (auto simp: reg_kernel_def amd_env_def amd_tables_def k10_tables_def Let_def)

text \<open>A session with two groups, none of them set up yet.\<close>

definition amd_session :: "((int \<Rightarrow> u32 \<Rightarrow> u64) daemons hpm, nat) perfmon" where
  "amd_session = \<lparr>perfmon_initialized = True,
     groupSet = Some \<lparr>numberOfActiveGroups = 2, activeGroup = - 1, groups = [amd_group, amd_group], threads = amd_threads\<rparr>,
     pm = \<lparr>machine = amd_ready, currentConfig = (\<lambda>cpu i. 0)\<rparr>,
     timers = \<lparr>baseline = 0, cpuClock = 1000, sleepbase = 0, timer_initialized = True, TSTART = Some RDTSC, TSTOP = Some RDTSC\<rparr>, clock = 5, perfmon_verbosity = 0\<rparr>"

abbreviation amd_life :: life where
  "amd_life \<equiv> \<lparr>lf_active = - 1, lf_states = [STATE_NONE, STATE_NONE]\<rparr>"

lemma amd_group_type [simp]: "type_in_set amd_group PMC"
  by (simp add: type_in_set_def amd_group_def REG_TYPE_MASK_def)

lemma amd_group_ok: "k10_ok amd_threads amd_group"
  by (auto simp: k10_ok_def k10_group_def k10_entry_def amd_threads_def amd_group_def amd_entry_def amd_event_def counter_get_def arr_get_def)

lemma amd_session_living: "living (k10_ready stack_inv stack_acc) k10_ok amd_threads amd_life amd_session"
proof -
  have "k10_ready stack_inv stack_acc amd_threads (pm amd_session)"
    using amd_ready_inv amd_ready_k10 by (simp add: k10_ready_def amd_threads_def amd_session_def MAX_NUM_THREADS_def)
  moreover have "\<forall>i<2. k10_ok amd_threads ([amd_group, amd_group] ! i)"
    using amd_group_ok by (simp add: nth_Cons split: nat.split)
  ultimately show ?thesis
    by (simp add: living_def perfmon_life_def gs_inv_def) (simp add: amd_session_def thread_ids_def amd_threads_def amd_group_def)
qed

section \<open>Sessions\<close>

text \<open>
  Property C3. Any sequence of calls to set up, start, read, stop and switch groups, on K10 counters
  behind the access daemon, returns call by call the values of the life cycle automaton, leaves the
  groups in its states, and is undefined exactly when the automaton is. The hypotheses are a session whose groups are well formed and whose registers are accessible,
  and the documented behaviour of the MSR device files.
\<close>

theorem session_refines_life:
  assumes "k10_stack K mem n eax err pciInit E"
    and "living (k10_ready stack_inv stack_acc) k10_ok ts l s"
  shows "refines (k10_ready stack_inv stack_acc) k10_ok ts (perfmon_run E calls s) (life_run (length ts) calls l)"
  using assms by (rule k10_stack.session_run)

lemma refines_run: "refines rdy ok ts r (Some (v, l)) \<Longrightarrow> \<exists>s. r = Some (v, s) \<and> perfmon_life s = l"
  by (auto simp: refines_def living_def)

theorem session_refines_life_witness:
  "\<exists>s. perfmon_run amd_env [Start, Setup 1, Start, Read, Switch 0, Stop, Stop, Setup 2, StartGroup 0] amd_session =
     Some ([- EINVAL, 0, 0, 0, 0, 0, - EINVAL, - ENOENT, - EINVAL], s) \<and>
     perfmon_life s = \<lparr>lf_active = 0, lf_states = [STATE_SETUP, STATE_SETUP]\<rparr>"
proof -
  have "life_run (length amd_threads) [Start, Setup 1, Start, Read, Switch 0, Stop, Stop, Setup 2, StartGroup 0] amd_life =
      Some ([- EINVAL, 0, 0, 0, 0, 0, - EINVAL, - ENOENT, - EINVAL], \<lparr>lf_active = 0, lf_states = [STATE_SETUP, STATE_SETUP]\<rparr>)"
    by (simp add: life_start_def life_setup_def life_stop_def life_read_def life_state_def life_switch_def life_switch_thread_def
        amd_threads_def arr_get_def)
  then show ?thesis
    using session_refines_life [OF amd.k10_stack_axioms amd_session_living] refines_run by metis
qed

text \<open>
  Property C4. After setting up a group, starting it and stopping it, the result of an event for a thread is the
  48-bit value that the counter register of the event has on the processor of the thread when the group is stopped,
  whatever the hardware did to the registers in between, when no earlier measurement has left an overflow in the
  counter, as in a new group. Starting does not clear the overflows: each of \<open>k \<le> 65536\<close> that are left adds
  the largest value of the counter to the result.
\<close>

theorem session_measurement:
  assumes "k10_stack K mem n eax err pciInit E"
    and "living (k10_ready stack_inv stack_acc) k10_ok ts l s" "groupSet s = Some gs"
    and "0 \<le> gid" "gid < int (numberOfActiveGroups gs)" "g = groups gs ! nat gid"
    and "i < gs_numberOfEvents g" "e = gs_events g ! i" "type_in_set g (es_type e)"
    and "t < length ts" "counter_get t e = Some c" "pc_overflows c = int k" "k \<le> 65536"
  shows "\<exists>s0 s1. perfmon_setupCounters E gid s = Some (0, s0) \<and> perfmon_startCounters E s0 = Some (0, s1) \<and>
    (\<forall>m. stack_inv m \<and> stack_acc m = stack_acc (machine (pm s1)) \<longrightarrow>
      (\<exists>s2 s3. perfmon_stopCounters E (s1\<lparr>pm := (pm s1)\<lparr>machine := m\<rparr>\<rparr>) = Some (0, s2) \<and>
        perfmon_getResult E (- 1) (int i) (int t) s2 =
          Some (real k * (2 ^ 48 - 1) + real (unat (stack_regs mem m (nat (th_processorId (ts ! t))) (k10_ctr (es_index e)) AND mask 48)), s3)))"
  using assms by (rule k10_stack.session_result)

theorem session_measurement_witness:
  "\<exists>s0 s1. perfmon_setupCounters amd_env 1 amd_session = Some (0, s0) \<and> perfmon_startCounters amd_env s0 = Some (0, s1) \<and>
    (\<forall>m. stack_inv m \<and> stack_acc m = stack_acc (machine (pm s1)) \<longrightarrow>
      (\<exists>s2 s3. perfmon_stopCounters amd_env (s1\<lparr>pm := (pm s1)\<lparr>machine := m\<rparr>\<rparr>) = Some (0, s2) \<and>
        perfmon_getResult amd_env (- 1) 1 0 s2 = Some (real (unat (stack_regs (\<lambda>k. k) m 0 MSR_AMD_PMC1 AND mask 48)), s3)))"
proof -
  let ?gs = "\<lparr>numberOfActiveGroups = 2, activeGroup = - 1, groups = [amd_group, amd_group], threads = amd_threads\<rparr>"
  have h: "groupSet amd_session = Some ?gs" by (simp add: amd_session_def)
  have e: "1 < gs_numberOfEvents amd_group" "gs_events amd_group ! 1 = amd_entry 1 (amd_event ''CPU_CLOCKS_UNHALTED'' 0x76)"
    by (simp_all add: amd_group_def)
  have c: "counter_get 0 (amd_entry 1 (amd_event ''CPU_CLOCKS_UNHALTED'' 0x76)) = Some amd_counter"
      "es_index (amd_entry 1 (amd_event ''CPU_CLOCKS_UNHALTED'' 0x76)) = 1" "es_type (amd_entry 1 (amd_event ''CPU_CLOCKS_UNHALTED'' 0x76)) = PMC"
    by (simp_all add: amd_entry_def counter_get_def arr_get_def)
  have r: "k10_ctr 1 = MSR_AMD_PMC1" by (simp add: k10_ctr_def)
  show ?thesis
    using session_measurement [OF amd.k10_stack_axioms amd_session_living h, of 1 amd_group 1 _ 0 amd_counter 0, OF _ _ _ e(1) e(2) [symmetric]]
      c r by (simp add: amd_threads_def amd_counter_def)
qed

end
