(* ===== verification/Perfmon_Properties.thy ===== *)
theory Perfmon_Properties
  imports Perfmon_Stack
begin

text \<open>
  Further properties of the performance monitoring core and its K10 module: the registers that setting
  up and starting program, the encoding of events, the calculation of results, the calls that start and
  stop one group, and what happens to errors of the access layer.
\<close>

section \<open>The registers of a measurement\<close>

lemma amd_thread_cpu: "thread_cpu amd_threads 0 = Some (int 0)"
  by (simp add: thread_cpu_def amd_threads_def arr_get_def)

lemma amd_k10_group: "k10_group 0 amd_group"
  using amd_group_ok by (simp add: k10_ok_def amd_threads_def)

abbreviation amd_hpm :: "(int \<Rightarrow> u32 \<Rightarrow> u64) daemons hpm hpm_ops" where
  "amd_hpm \<equiv> stack_ops reg_kernel 2 0x100F42 (\<lambda>s. 0) (\<lambda>cpu s. Some (0, s))"

abbreviation amd_pm :: "(int \<Rightarrow> u32 \<Rightarrow> u64) daemons hpm pm_state" where
  "amd_pm \<equiv> \<lparr>machine = amd_ready, currentConfig = (\<lambda>cpu i. 0)\<rparr>"

text \<open>
  Property C18. Setting up a group whose events use different counters gives the control register of
  every event the configuration of the event (apart from the enable bit, which stays as it was),
  changes no other accessible register of any processor, and keeps the cached configuration true.
\<close>

theorem setup_configures_registers:
  assumes "k10_stack K mem n eax err pciInit E"
    and "k10_group t g" "thread_cpu ts t = Some (int c)" "c < MAX_NUM_THREADS"
    and "stack_inv (machine a)" "k10_acc stack_acc (machine a) c" "coherent (stack_regs mem) c a" "k10_distinct g"
  shows "\<exists>b. perfmon_setupCounterThread_k10 (stack_ops K n eax err pciInit) (tables E) ts t g a =
      Some (0, loop_result g (k10_setup_entry g t), b) \<and>
    same_except stack_inv stack_acc (stack_regs mem) (k10_indices g) c a b \<and> coherent (stack_regs mem) c b \<and>
    (\<forall>e\<in>set (take (gs_numberOfEvents g) (gs_events g)). type_in_set g (es_type e) \<longrightarrow>
       k10_pmc_flags (es_event e) = Some (stack_regs mem (machine b) c (k10_ctl (es_index e)) AND NOT (push_bit 22 1)))"
  using k10_stack.session_setup [OF assms(1) k10_stack.stack_tables [OF assms(1)] assms(2-8)] .

lemma amd_distinct: "k10_distinct amd_group"
  by (auto simp: k10_distinct_def amd_group_def amd_entry_def less_Suc_eq numeral_2_eq_2)

theorem setup_configures_registers_witness:
  "\<exists>b. perfmon_setupCounterThread_k10 amd_hpm amd_tables amd_threads 0 amd_group amd_pm =
      Some (0, loop_result amd_group (k10_setup_entry amd_group 0), b) \<and>
    coherent (stack_regs (\<lambda>k. k)) 0 b \<and>
    stack_regs (\<lambda>k. k) (machine b) 0 MSR_AMD_PERFEVTSEL0 AND NOT (push_bit 22 1) = 0x100C0"
proof -
  have T: "tables amd_env = amd_tables" by (simp add: amd_env_def Let_def)
  have c: "coherent (stack_regs (\<lambda>k. k)) 0 amd_pm" by (simp add: coherent_def)
  have r: "k10_pmc_flags (amd_event ''INSTRUCTIONS_RETIRED'' 0xC0) = Some 0x100C0" by (simp add: k10_pmc_flags_def amd_event_def)
  let ?e = "amd_entry 0 (amd_event ''INSTRUCTIONS_RETIRED'' 0xC0)"
  have e: "?e \<in> set (take (gs_numberOfEvents amd_group) (gs_events amd_group))" "es_event ?e = amd_event ''INSTRUCTIONS_RETIRED'' 0xC0"
      "k10_ctl (es_index ?e) = MSR_AMD_PERFEVTSEL0" "type_in_set amd_group (es_type ?e)"
    by (simp_all add: amd_group_def [THEN arg_cong, of gs_events] amd_group_def [THEN arg_cong, of gs_numberOfEvents] amd_entry_def k10_ctl_def)
  obtain b where b: "perfmon_setupCounterThread_k10 amd_hpm amd_tables amd_threads 0 amd_group amd_pm =
        Some (0, loop_result amd_group (k10_setup_entry amd_group 0), b)" "coherent (stack_regs (\<lambda>k. k)) 0 b"
      "\<forall>e\<in>set (take (gs_numberOfEvents amd_group) (gs_events amd_group)). type_in_set amd_group (es_type e) \<longrightarrow>
         k10_pmc_flags (es_event e) = Some (stack_regs (\<lambda>k. k) (machine b) 0 (k10_ctl (es_index e)) AND NOT (push_bit 22 1))"
    using setup_configures_registers [OF amd.k10_stack_axioms amd_k10_group amd_thread_cpu, of amd_pm]
      amd_ready_inv amd_ready_k10 c amd_distinct unfolding T by (auto simp: MAX_NUM_THREADS_def)
  from b(3) [rule_format, OF e(1,4)] have "stack_regs (\<lambda>k. k) (machine b) 0 MSR_AMD_PERFEVTSEL0 AND NOT (push_bit 22 1) = 0x100C0"
    unfolding e(2,3) r by simp
  then show ?thesis using b(1,2) by blast
qed

text \<open>
  Property C28. Starting a group for a thread sets the counter register of each of its initialized
  events to 0 and the enable bit of its control register to 1, and changes no other accessible
  register of any processor.
\<close>

theorem start_enables_counters:
  assumes "k10_stack K mem n eax err pciInit E"
    and "k10_group t g" "thread_cpu ts t = Some (int c)" "stack_inv (machine a)" "k10_acc stack_acc (machine a) c"
  shows "\<exists>b. perfmon_startCountersThread_k10 (stack_ops K n eax err pciInit) (tables E) ts t g a =
      Some (0, loop_result g (k10_start_entry g t), b) \<and>
    holds stack_inv stack_acc (stack_regs mem) (machine a) c
      (k10_started (k10_used g t (take (gs_numberOfEvents g) (gs_events g))) (stack_regs mem (machine a) c)) (machine b)"
  using k10_stack.session_start [OF assms(1) k10_stack.stack_tables [OF assms(1)] assms(2-5)] by blast

definition amd_armed :: PerfmonEventSet where
  "amd_armed = loop_result amd_group (k10_setup_entry amd_group 0)"

lemma amd_armed_group: "k10_group 0 amd_armed"
  unfolding amd_armed_def using amd_k10_group
  by (rule k10_group_loop) (auto simp: k10_setup_entry_def k10_entry_with_counter)

lemma amd_armed_used: "k10_used amd_armed 0 (take (gs_numberOfEvents amd_armed) (gs_events amd_armed)) = {0, 1}"
proof -
  have "gs_regTypeMask amd_armed = ucast (REG_TYPE_MASK PMC)" by (simp add: amd_armed_def loop_result_def amd_group_def)
  then have t: "type_in_set amd_armed PMC" by (simp add: type_in_set_def REG_TYPE_MASK_def)
  let ?e = "\<lambda>i ev. (amd_entry i ev)\<lparr>es_threadCounter := Some [amd_counter\<lparr>pc_init := True\<rparr>]\<rparr>"
  have ev: "take (gs_numberOfEvents amd_armed) (gs_events amd_armed) =
      [?e 0 (amd_event ''INSTRUCTIONS_RETIRED'' 0xC0), ?e 1 (amd_event ''CPU_CLOCKS_UNHALTED'' 0x76)]"
    unfolding amd_armed_def loop_result_def k10_setup_entry_def
    by (simp add: amd_group_def [THEN arg_cong, of gs_events] amd_group_def [THEN arg_cong, of gs_numberOfEvents])
      (simp add: amd_entry_def with_counter_def counter_get_def arr_get_def)
  have c: "k10_counting amd_armed 0 (?e i ev)" for i ev
    using t by (simp add: k10_counting_def amd_entry_def counter_get_def arr_get_def)
  have "{e \<in> set (take (gs_numberOfEvents amd_armed) (gs_events amd_armed)). k10_counting amd_armed 0 e} =
      {?e 0 (amd_event ''INSTRUCTIONS_RETIRED'' 0xC0), ?e 1 (amd_event ''CPU_CLOCKS_UNHALTED'' 0x76)}"
    unfolding ev using c by auto
  then show ?thesis by (simp add: k10_used_def amd_entry_def)
qed

theorem start_enables_counters_witness:
  "\<exists>b. perfmon_startCountersThread_k10 amd_hpm amd_tables amd_threads 0 amd_armed amd_pm =
      Some (0, loop_result amd_armed (k10_start_entry amd_armed 0), b) \<and>
    stack_regs (\<lambda>k. k) (machine b) 0 MSR_AMD_PMC1 = 0 \<and>
    stack_regs (\<lambda>k. k) (machine b) 0 MSR_AMD_PERFEVTSEL1 = push_bit 22 1"
proof -
  have T: "tables amd_env = amd_tables" by (simp add: amd_env_def Let_def)
  have r: "MSR_AMD_PMC1 = k10_ctr 1" "MSR_AMD_PERFEVTSEL1 = k10_ctl 1" by (simp_all add: k10_ctr_def k10_ctl_def)
  have z: "stack_regs (\<lambda>k. k) amd_ready 0 x = 0" for x by (simp add: stack_regs_def amd_ready_def)
  have acc: "stack_acc amd_ready 0 (k10_ctr 1)" "stack_acc amd_ready 0 (k10_ctl 1)" using amd_ready_k10 by (auto simp: k10_acc_def)
  have d: "k10_ctl 1 \<notin> k10_ctr ` {0, 1}" by (simp add: k10_ctl_def k10_ctr_def)
  obtain b where b: "perfmon_startCountersThread_k10 amd_hpm amd_tables amd_threads 0 amd_armed amd_pm =
        Some (0, loop_result amd_armed (k10_start_entry amd_armed 0), b)"
      "holds stack_inv stack_acc (stack_regs (\<lambda>k. k)) amd_ready 0 (k10_started {0, 1} (stack_regs (\<lambda>k. k) amd_ready 0)) (machine b)"
    using start_enables_counters [OF amd.k10_stack_axioms amd_armed_group amd_thread_cpu, of amd_pm] amd_ready_inv amd_ready_k10
    unfolding T amd_armed_used by auto
  have "stack_regs (\<lambda>k. k) (machine b) 0 (k10_ctr 1) = 0" "stack_regs (\<lambda>k. k) (machine b) 0 (k10_ctl 1) = push_bit 22 1"
    using b(2) acc d z unfolding holds_def k10_started_def by (auto simp del: push_bit_of_1)
  then show ?thesis using b(1) unfolding r by blast
qed

text \<open>
  Property C36. Stopping the counters of a thread takes over the same counter values as reading them would
  have done at that moment; reading changes no register, and stopping only clears the enable bits of
  the counters that are measured.
\<close>

theorem stop_reads_like_read:
  assumes "k10_stack K mem n eax err pciInit E"
    and "k10_group t g" "thread_cpu ts t = Some (int c)" "stack_inv (machine a)" "k10_acc stack_acc (machine a) c"
  shows "\<exists>g' a1 a2. perfmon_stopCountersThread_k10 (stack_ops K n eax err pciInit) (tables E) ts t g a = Some (0, g', a1) \<and>
    perfmon_readCountersThread_k10 (stack_ops K n eax err pciInit) (tables E) ts t g a = Some (0, g', a2) \<and>
    holds stack_inv stack_acc (stack_regs mem) (machine a) c
      (k10_stopped (k10_used g t (take (gs_numberOfEvents g) (gs_events g))) (stack_regs mem (machine a) c)) (machine a1) \<and>
    holds stack_inv stack_acc (stack_regs mem) (machine a) c (stack_regs mem (machine a) c) (machine a2)"
  using k10_stack.session_stop [OF assms(1) k10_stack.stack_tables [OF assms(1)] assms(2-5)]
    k10_stack.session_read_counters [OF assms(1) k10_stack.stack_tables [OF assms(1)] assms(2-5)] by blast

theorem stop_reads_like_read_witness:
  "\<exists>g' a1 a2. perfmon_stopCountersThread_k10 amd_hpm amd_tables amd_threads 0 amd_armed amd_pm = Some (0, g', a1) \<and>
    perfmon_readCountersThread_k10 amd_hpm amd_tables amd_threads 0 amd_armed amd_pm = Some (0, g', a2)"
proof -
  have T: "tables amd_env = amd_tables" by (simp add: amd_env_def Let_def)
  show ?thesis
    using stop_reads_like_read [OF amd.k10_stack_axioms amd_armed_group amd_thread_cpu, of amd_pm] amd_ready_inv amd_ready_k10
    unfolding T by auto
qed

section \<open>The encoding of an event\<close>

lemma bit_beyond: "bit (w :: 'a::len word) n \<Longrightarrow> n < LENGTH('a)"
  by (rule bit_imp_le_length)

lemma k10_threshold_bit:
  assumes "i < 2"
  shows "bit (k10_option_flags opt) (24 + i) \<longleftrightarrow> po_type opt = EVENT_OPTION_THRESHOLD \<and> po_value opt AND 0xFF < 0x04 \<and> bit (po_value opt) i"
proof -
  have "i = 0 \<or> i = 1" using assms by arith
  then show ?thesis by (elim disjE; cases "po_type opt"; simp add: k10_option_flags_def bit_simps)
qed

text \<open>
  Property C29. For an event id of at most 12 bits, as the K10 has them, every bit of the control register is determined: it
  has the id in bits 0 to 7 and 32 to 35, the unit mask in bits 8 to 15, counts user mode (bit 16), has the bits 17, 18 and 23
  exactly when the options ask for kernel mode, edge detection and inversion, and has the values of the threshold options whose
  low byte is below 4 in bits 24 and 25. All other bits are 0; the counter is not enabled (bit 22).
\<close>

theorem k10_event_encoding:
  assumes "ev_eventId event < 0x1000" "ev_numberOfOptions event \<le> length (ev_options event)"
  shows "\<exists>flags. k10_pmc_flags event = Some flags \<and>
    (let opts = set (take (ev_numberOfOptions event) (ev_options event)) in
     \<forall>n. bit flags n \<longleftrightarrow> n < 8 \<and> bit (ev_eventId event) n \<or> 8 \<le> n \<and> n < 16 \<and> bit (ev_umask event) (n - 8) \<or> n = 16 \<or>
       32 \<le> n \<and> n < 36 \<and> bit (ev_eventId event) (n - 24) \<or>
       n = 17 \<and> EVENT_OPTION_COUNT_KERNEL \<in> po_type ` opts \<or> n = 18 \<and> EVENT_OPTION_EDGE \<in> po_type ` opts \<or>
       n = 23 \<and> EVENT_OPTION_INVERT \<in> po_type ` opts \<or>
       24 \<le> n \<and> n < 26 \<and> (\<exists>opt\<in>opts. po_type opt = EVENT_OPTION_THRESHOLD \<and> po_value opt AND 0xFF < 0x04 \<and> bit (po_value opt) (n - 24)))"
proof -
  obtain flags where fl: "k10_pmc_flags event = Some flags" using assms(2) by (simp add: k10_pmc_flags_def)
  let ?os = "set (take (ev_numberOfOptions event) (ev_options event))"
  have "unat (ev_eventId event) < 2 ^ 12" using assms(1) by (simp add: word_less_nat_alt)
  then have id: "bit (ev_eventId event) n \<Longrightarrow> n < 12" for n by (rule small_word_bits)
  have um: "bit (ev_umask event) n \<Longrightarrow> n < 8" for n using bit_beyond [of "ev_umask event" n] by auto
  have im: "x \<in> po_type ` ?os \<longleftrightarrow> (\<exists>opt\<in>?os. po_type opt = x)" for x by force
  have opt: "(\<exists>opt\<in>?os. bit (k10_option_flags opt) n) \<longleftrightarrow>
      n = 17 \<and> EVENT_OPTION_COUNT_KERNEL \<in> po_type ` ?os \<or> n = 18 \<and> EVENT_OPTION_EDGE \<in> po_type ` ?os \<or>
      n = 23 \<and> EVENT_OPTION_INVERT \<in> po_type ` ?os \<or> 24 \<le> n \<and> n < 26 \<and>
        (\<exists>opt\<in>?os. po_type opt = EVENT_OPTION_THRESHOLD \<and> po_value opt AND 0xFF < 0x04 \<and> bit (po_value opt) (n - 24))" for n
  proof -
    consider "n = 17" | "n = 18" | "n = 23" | i where "n = 24 + i" "i < 2" | "n \<notin> {17, 18, 23, 24, 25}"
    proof (cases "24 \<le> n \<and> n < 26")
      case True
      then have "n - 24 < 2" by arith
      then show ?thesis using that(4) [of "n - 24"] True by simp
    next
      case False
      then show ?thesis using that(1-3,5) by force
    qed
    then show ?thesis
    proof cases
      case 4
      then show ?thesis by (simp add: k10_threshold_bit)
    next
      case 5
      then have "\<not> bit (k10_option_flags opt) n" for opt using k10_option_flags_bits by blast
      then show ?thesis using 5 by auto
    qed (unfold im, simp_all add: k10_option_flags_bit)
  qed
  have "bit flags n \<longleftrightarrow> (n < 8 \<and> bit (ev_eventId event) n \<or> 8 \<le> n \<and> n < 16 \<and> bit (ev_umask event) (n - 8) \<or> n = 16 \<or>
      32 \<le> n \<and> n < 36 \<and> bit (ev_eventId event) (n - 24)) \<or> (\<exists>opt\<in>?os. bit (k10_option_flags opt) n)" for n
    unfolding k10_flags_bit [OF fl] k10_base_fields [OF assms(1)] using id [of "n - 24"] um [of "n - 8"] by auto
  then show ?thesis using fl unfolding opt Let_def disj_assoc by (intro exI [of _ flags] conjI allI)
qed

theorem k10_event_encoding_witness:
  "\<exists>flags. k10_pmc_flags ((amd_event ''RETIRED_MMX'' 0xCB)\<lparr>ev_umask := 7, ev_numberOfOptions := 2,
       ev_options := [\<lparr>po_type = EVENT_OPTION_EDGE, po_value = 0\<rparr>, \<lparr>po_type = EVENT_OPTION_THRESHOLD, po_value = 2\<rparr>]\<rparr>) = Some flags \<and>
     bit flags 18 \<and> bit flags 8 \<and> \<not> bit flags 17 \<and> bit flags 25 \<and> \<not> bit flags 24"
proof -
  let ?os = "[\<lparr>po_type = EVENT_OPTION_EDGE, po_value = 0\<rparr>, \<lparr>po_type = EVENT_OPTION_THRESHOLD, po_value = 2\<rparr>]"
  let ?ev = "(amd_event ''RETIRED_MMX'' 0xCB)\<lparr>ev_umask := 7, ev_numberOfOptions := 2, ev_options := ?os\<rparr>"
  have e: "ev_eventId ?ev < 0x1000" "ev_numberOfOptions ?ev \<le> length (ev_options ?ev)" by (simp_all add: amd_event_def)
  have t: "set (take (ev_numberOfOptions ?ev) (ev_options ?ev)) = set ?os" "ev_umask ?ev = 7" by simp_all
  have b: "bit (2 :: u64) 1" "\<not> bit (2 :: u64) 0" "(2 AND 0xFF :: u64) < 4" "bit (7 :: u8) 0" by simp_all
  from k10_event_encoding [OF e, unfolded t Let_def] obtain flags where f: "k10_pmc_flags ?ev = Some flags" and n: "\<And>n. bit flags n \<longleftrightarrow>
       n < 8 \<and> bit (ev_eventId ?ev) n \<or> 8 \<le> n \<and> n < 16 \<and> bit (7 :: u8) (n - 8) \<or> n = 16 \<or>
       32 \<le> n \<and> n < 36 \<and> bit (ev_eventId ?ev) (n - 24) \<or>
       n = 17 \<and> EVENT_OPTION_COUNT_KERNEL \<in> po_type ` set ?os \<or> n = 18 \<and> EVENT_OPTION_EDGE \<in> po_type ` set ?os \<or>
       n = 23 \<and> EVENT_OPTION_INVERT \<in> po_type ` set ?os \<or>
       24 \<le> n \<and> n < 26 \<and> (\<exists>opt\<in>set ?os. po_type opt = EVENT_OPTION_THRESHOLD \<and> po_value opt AND 0xFF < 0x04 \<and> bit (po_value opt) (n - 24))" by blast
  have "bit flags 18" "bit flags 8" "\<not> bit flags 17" "bit flags 25" "\<not> bit flags 24"
    unfolding n using b by simp_all
  then show ?thesis using f by blast
qed

section \<open>Results\<close>

text \<open>
  The largest value of a counter is the one with as many low bits set as the width the
  box table gives for its type, and 48 without a table or without a width; a width over 64 makes the
  shift undefined.
\<close>

theorem max_counter_value:
  assumes "box_map T = None \<and> w = 48 \<or> (\<exists>boxes b. box_map T = Some boxes \<and> arr_get boxes (int (register_number type)) = Some b \<and>
      w = (if bm_regWidth b = 0 then 48 else unat (bm_regWidth b)))"
  shows "perfmon_getMaxCounterValue T type = (if w \<le> 64 then Some (mask w) else None)"
proof -
  have over: "max_value_loop [0..<w] 0 = None" if "64 < w"
  proof -
    have "max_value_loop xs v = None" if "64 \<in> set xs" for xs :: "nat list" and v
      using that by (induction xs arbitrary: v) (auto simp: c_shl_def)
    then show ?thesis using that by simp
  qed
  have "perfmon_getMaxCounterValue T type = max_value_loop [0..<w] 0"
    using assms by (auto simp: perfmon_getMaxCounterValue_def word_gt_0)
  then show ?thesis using max_value_loop_mask [of w] over by auto
qed

theorem max_counter_value_witness:
  "perfmon_getMaxCounterValue amd_tables PMC = (if 48 \<le> (64 :: nat) then Some (mask 48) else None)"
  by (rule max_counter_value) (simp add: amd_tables_def k10_box_map_def arr_get_def)

text \<open>
  The result of a counter of width \<open>w\<close> that overflowed \<open>k > 0\<close> times is the number of
  counted events, \<open>k * 2 ^ w + data - start\<close>, less \<open>k\<close>: every overflow loses one event, because the
  largest value of the counter is used in place of the number of its values.
\<close>

theorem overflow_undercounts:
  assumes "counter_get t e = Some c" "arr_get (counter_map (tables E)) (int (es_index e)) = Some rm"
    and "rm_type rm \<noteq> POWER" "rm_type rm \<noteq> THERMAL" "perfmon_getMaxCounterValue (tables E) (rm_type rm) = Some (mask w)" "w < 64"
    and "pc_overflows c = int k" "0 < k" "k * 2 ^ w \<le> 2 ^ 64"
    and "unat (pc_startData c) < 2 ^ w" "unat (pc_counterData c) < 2 ^ w"
  shows "\<exists>e'. calculateResult E t e = Some (real (k * 2 ^ w + unat (pc_counterData c)) - real (unat (pc_startData c)) - real k, e')"
proof -
  have v: "unat (mask w - pc_startData c + pc_counterData c) = 2 ^ w - 1 - unat (pc_startData c) + unat (pc_counterData c)"
    using overflow_word [OF assms(6,10,11)] .
  have p: "unat (of_int (int k - 1) * mask w :: u64) = (k - 1) * (2 ^ w - 1)" using product_word [OF assms(6,9,8)] .
  have r: "real (2 ^ w - 1 - unat (pc_startData c) + unat (pc_counterData c)) + real ((k - 1) * (2 ^ w - 1)) =
      real (k * 2 ^ w + unat (pc_counterData c)) - real (unat (pc_startData c)) - real k"
  proof -
    obtain j where j: "k = Suc j" using assms(8) by (cases k) auto
    have "real (2 ^ w - 1 - unat (pc_startData c)) = 2 ^ w - 1 - real (unat (pc_startData c))" using assms(10) by (simp add: of_nat_diff)
    moreover have "real ((k - 1) * (2 ^ w - 1)) = real j * (2 ^ w - 1)" using j by (simp add: of_nat_diff)
    ultimately show ?thesis using j by (simp add: algebra_simps)
  qed
  have "calculateResult E t e = Some (real (unat (mask w - pc_startData c + pc_counterData c)) +
      real (unat (of_int (int k - 1) * mask w :: u64)), with_counter t (c\<lparr>pc_overflows := int k - 1\<rparr>) e)"
    using assms(1-5,7,8) counter_set_eq [OF assms(1)] by (simp add: calculateResult_def)
  then show ?thesis unfolding v p r by blast
qed

theorem overflow_undercounts_witness:
  "\<exists>e'. calculateResult amd_env 0 ((amd_entry 0 (amd_event [] 0))\<lparr>es_threadCounter := Some [amd_counter\<lparr>pc_overflows := 2, pc_counterData := 5\<rparr>]\<rparr>) =
     Some (real (2 * 2 ^ 48 + 5) - 2, e')"
proof -
  let ?c = "amd_counter\<lparr>pc_overflows := 2, pc_counterData := 5\<rparr>"
  let ?e = "(amd_entry 0 (amd_event [] 0))\<lparr>es_threadCounter := Some [?c]\<rparr>"
  obtain rm where rm: "arr_get (counter_map (tables amd_env)) (int (es_index ?e)) = Some rm" "rm_type rm = PMC"
    using k10_map_type [of 0] by (auto simp: amd_env_def Let_def amd_tables_def amd_entry_def)
  have "perfmon_getMaxCounterValue (tables amd_env) (rm_type rm) = Some (mask 48)" "counter_get 0 ?e = Some ?c"
    using k10_max_value [OF amd.stack_tables] rm(2) by (simp_all add: amd_entry_def counter_get_def arr_get_def)
  from overflow_undercounts [OF this(2) rm(1) _ _ this(1), of 2] rm(2) show ?thesis by (simp add: amd_counter_def)
qed

section \<open>Starting and stopping one group\<close>

text \<open>
  The calls that start and stop one group reject the id of every existing group, and for
  any other id they start and stop the active group: the test of the id is inverted.
\<close>

theorem group_calls_reject_existing:
  assumes "perfmon_initialized s" "groupSet s = Some gs"
  shows "if 0 \<le> g \<and> g < int (numberOfActiveGroups gs)
     then perfmon_startGroupCounters E g s = Some (- EINVAL, s) \<and> perfmon_stopGroupCounters E g s = Some (- EINVAL, s)
     else perfmon_startGroupCounters E g s = perfmon_startCounters E s \<and> perfmon_stopGroupCounters E g s = perfmon_stopCounters E s"
  using assms
  by (auto simp: perfmon_startGroupCounters_def perfmon_stopGroupCounters_def perfmon_startCounters_def perfmon_stopCounters_def)

theorem group_calls_reject_existing_witness:
  "perfmon_startGroupCounters amd_env 1 amd_session = Some (- EINVAL, amd_session)"
proof -
  let ?gs = "\<lparr>numberOfActiveGroups = 2, activeGroup = - 1, groups = [amd_group, amd_group], threads = amd_threads\<rparr>"
  have "perfmon_initialized amd_session" "groupSet amd_session = Some ?gs" by (simp_all add: amd_session_def)
  from group_calls_reject_existing [OF this, of 1 amd_env] show ?thesis by simp
qed

section \<open>Errors of the access layer\<close>

text \<open>
  When the first register write of starting a group fails and the access layer does not set
  \<open>errno\<close> (a refusal of the daemon does not), the call still returns 0 and the group counts as
  started: the macro that checks the write returns \<open>errno\<close> and not the result.
\<close>

theorem start_error_masked:
  assumes "arch_funs E = k10_funs H T" "k10_tables T" "perfmon_initialized s" "groupSet s = Some gs"
    and "0 \<le> activeGroup gs" "activeGroup gs < int (length (groups gs))" "groups gs ! nat (activeGroup gs) = g" "gs_state g = STATE_SETUP"
    and "threads gs = [th]" "th_thread_id th = 0" "gs_events g = e # es" "0 < gs_numberOfEvents g"
    and "counter_get 0 e = Some c" "pc_init c" "type_in_set g (es_type e)" "es_index e < 4"
    and "hp_write H (th_processorId th) 0 (k10_ctr (es_index e)) 0 (machine (pm s)) = Some (ret, m)" "ret < 0" "hp_errno H m = 0"
  shows "\<exists>s'. perfmon_startCounters E s = Some (0, s') \<and> group_state (activeGroup gs) s' = Some STATE_START \<and> machine (pm s') = m"
proof -
  obtain rm where rm: "arr_get (counter_map T) (int (es_index e)) = Some rm" "ucast (rm_counterRegister rm) = k10_ctr (es_index e)"
    using k10_map_at [OF assms(16)] assms(2) by (auto simp: k10_tables_def)
  obtain k where k: "gs_numberOfEvents g = Suc k" using assms(12) by (cases "gs_numberOfEvents g") auto
  have thread: "\<exists>g' a'. perfmon_startCountersThread_k10 H T [th] 0 g (pm s) = Some (0, g', a') \<and> machine a' = m"
    using assms(11,13-15,17-19) rm k counter_set_eq [OF assms(13)]
    by (simp add: perfmon_startCountersThread_k10_def thread_cpu_def arr_get_def each_group_event_def k10_start_event_def CHECK_MSR_WRITE_ERROR_def Let_def)
  then obtain g' a' where r: "perfmon_startCountersThread_k10 H T [th] 0 g (pm s) = Some (0, g', a')" "machine a' = m" by blast
  obtain tm cl where tm: "timer_start (clocks E) (timers s) (gs_timer g') (clock s) = (tm, cl)" by fastforce
  show ?thesis
    using assms(1,3-10) r tm
    by (simp add: perfmon_startCounters_def startCounters_def group_state_def arr_get_def thread_ids_def call_arch_def k10_funs_def
        update_group_def start_timer_def)
qed

definition amd_masked :: "((int \<Rightarrow> u32 \<Rightarrow> u64) daemons hpm, nat) perfmon" where
  "amd_masked = amd_session\<lparr>groupSet := Some \<lparr>numberOfActiveGroups = 1, activeGroup = 0, groups = [amd_armed\<lparr>gs_state := STATE_SETUP\<rparr>],
     threads = [\<lparr>th_thread_id = 0, th_processorId = 1\<rparr>]\<rparr>\<rparr>"

theorem start_error_masked_witness:
  "\<exists>s'. perfmon_startCounters amd_env amd_masked = Some (0, s') \<and> group_state 0 s' = Some STATE_START \<and> machine (pm s') = amd_ready"
proof -
  let ?g = "amd_armed\<lparr>gs_state := STATE_SETUP\<rparr>" and ?th = "\<lparr>th_thread_id = 0, th_processorId = 1\<rparr> :: PerfmonThread"
  let ?gs = "\<lparr>numberOfActiveGroups = 1, activeGroup = 0, groups = [?g], threads = [?th]\<rparr>"
  have env: "arch_funs amd_env = k10_funs amd_hpm amd_tables" "k10_tables amd_tables"
    by (simp_all add: amd_env_def Let_def k10_tables_def amd_tables_def)
  have s: "perfmon_initialized amd_masked" "groupSet amd_masked = Some ?gs" "machine (pm amd_masked) = amd_ready"
    by (simp_all add: amd_masked_def amd_session_def)
  let ?e = "(amd_entry 0 (amd_event ''INSTRUCTIONS_RETIRED'' 0xC0))\<lparr>es_threadCounter := Some [amd_counter\<lparr>pc_init := True\<rparr>]\<rparr>"
  have "\<exists>es. gs_events ?g = ?e # es \<and> gs_numberOfEvents ?g = 2"
    unfolding amd_armed_def loop_result_def k10_setup_entry_def
    by (simp add: amd_group_def [THEN arg_cong, of gs_events] amd_group_def [THEN arg_cong, of gs_numberOfEvents])
      (simp add: amd_entry_def with_counter_def counter_get_def arr_get_def)
  then obtain es where g: "gs_events ?g = ?e # es" "0 < gs_numberOfEvents ?g" by auto
  have e: "counter_get 0 ?e = Some (amd_counter\<lparr>pc_init := True\<rparr>)" "es_type ?e = PMC" "es_index ?e = 0"
    by (simp_all add: amd_entry_def counter_get_def arr_get_def)
  have t: "type_in_set ?g PMC"
    by (simp add: type_in_set_def amd_armed_def loop_result_def amd_group_def REG_TYPE_MASK_def)
  have w: "hp_write amd_hpm 1 0 (k10_ctr 0) 0 amd_ready = Some (- ENODEV, amd_ready)"
    by (simp add: stack_ops_def HPMwrite_def MAX_NUM_PCI_DEVICES_def amd_ready_def stack_ready_def stack_start_def arr_get_def MAX_NUM_THREADS_def)
  show ?thesis
    using start_error_masked [OF env s(1,2), of ?g ?th ?e es "amd_counter\<lparr>pc_init := True\<rparr>" "- ENODEV" amd_ready] g e t w s(3)
    by (simp add: stack_ops_def)
qed

section \<open>Adding a group\<close>

text \<open>
  Forcing the use of a counter (\<open>LIKWID_FORCE\<close>) that already has a configuration clears its
  control register behind the back of the cached configuration: setting the same event up again
  writes nothing, and the counter does not count.
\<close>

theorem forced_counter_stays_cleared:
  assumes "k10_stack K mem n eax err pciInit E" "stack_inv (machine a)" "k10_acc stack_acc (machine a) c" "c < MAX_NUM_THREADS"
    and "i < 4" "arr_get k10_counter_map (int i) = Some rm" "stack_regs mem (machine a) c (k10_ctl i) \<noteq> 0"
    and "k10_pmc_flags event = Some (currentConfig a c i)"
  shows "\<exists>m. test_register (stack_ops K n eax err pciInit) (int c) rm PMC 1 (machine a) = Some (Ret True, PMC, m) \<and>
    stack_regs mem m c (k10_ctl i) = 0 \<and>
    k10_pmc_setup (stack_ops K n eax err pciInit) k10_counter_map (int c) i event (a\<lparr>machine := m\<rparr>) = Some (0, a\<lparr>machine := m\<rparr>)"
proof -
  let ?H = "stack_ops K n eax err pciInit"
  have rm: "ucast (rm_configRegister rm) = k10_ctl i" "rm_device rm = 0"
    using k10_map_at [OF assms(5)] assms(5,6) by (auto simp: less_4_cases k10_counter_map_def k10_counter_def arr_get_def)
  have acc: "stack_acc (machine a) c (k10_ctl i)" using assms(3,5) by (simp add: k10_acc_def)
  have rd: "hp_read ?H (int c) 0 (k10_ctl i) (machine a) = Some (0, stack_regs mem (machine a) c (k10_ctl i), machine a)"
    using k10_stack.session_read [OF assms(1,2) acc] by simp
  obtain m where m: "hp_write ?H (int c) 0 (k10_ctl i) 0 (machine a) = Some (0, m)" "stack_regs mem m c (k10_ctl i) = 0"
    using k10_stack.session_write [OF assms(1,2) acc, of 0] acc by auto
  have "test_register ?H (int c) rm PMC 1 (machine a) = Some (Ret True, PMC, m)"
    using rd m(1) rm assms(5,7) k10_ctl_nonzero by (simp add: test_register_def)
  moreover have "k10_pmc_setup ?H k10_counter_map (int c) i event (a\<lparr>machine := m\<rparr>) = Some (0, a\<lparr>machine := m\<rparr>)"
    using assms(4,5,8) by (simp add: k10_pmc_setup_def config_get_def NUM_PMC_def)
  ultimately show ?thesis using m(2) by blast
qed

definition amd_used :: "(int \<Rightarrow> u32 \<Rightarrow> u64) daemons hpm" where
  "amd_used = amd_ready\<lparr>world := (fst (world amd_ready), 8, \<lambda>fd r. 0x100C0)\<rparr>"

theorem forced_counter_stays_cleared_witness:
  "\<exists>m. test_register amd_hpm 0 (k10_counter ''PMC0'' 0 MSR_AMD_PERFEVTSEL0 MSR_AMD_PMC0) PMC 1 amd_used = Some (Ret True, PMC, m) \<and>
    stack_regs (\<lambda>k. k) m 0 MSR_AMD_PERFEVTSEL0 = 0 \<and>
    k10_pmc_setup amd_hpm k10_counter_map 0 0 (amd_event ''INSTRUCTIONS_RETIRED'' 0xC0) \<lparr>machine = m, currentConfig = (\<lambda>cpu i. 0x100C0)\<rparr> =
      Some (0, \<lparr>machine = m, currentConfig = (\<lambda>cpu i. 0x100C0)\<rparr>)"
proof -
  let ?a = "\<lparr>machine = amd_used, currentConfig = (\<lambda>cpu i. 0x100C0)\<rparr>"
  have inv: "stack_inv amd_used" "k10_acc stack_acc amd_used 0"
    using amd_ready_inv amd_ready_k10 by (simp_all add: amd_used_def stack_world k10_acc_def)
  have r: "stack_regs (\<lambda>k. k) amd_used 0 (k10_ctl 0) \<noteq> 0" by (simp add: stack_regs_def amd_used_def)
  have f: "k10_pmc_flags (amd_event ''INSTRUCTIONS_RETIRED'' 0xC0) = Some 0x100C0" by (simp add: k10_pmc_flags_def amd_event_def)
  have c: "k10_ctl 0 = MSR_AMD_PERFEVTSEL0" by (simp add: k10_ctl_def)
  show ?thesis
    using forced_counter_stays_cleared [OF amd.k10_stack_axioms, of ?a 0 0 "k10_counter ''PMC0'' 0 MSR_AMD_PERFEVTSEL0 MSR_AMD_PMC0"
        "amd_event ''INSTRUCTIONS_RETIRED'' 0xC0"] inv r f
    unfolding c by (simp add: MAX_NUM_THREADS_def k10_counter_map_def arr_get_def)
qed

end
