(* ===== verification/Perfmon_Groups.thy ===== *)
theory Perfmon_Groups
  imports Perfmon_Properties
begin

text \<open>
  Adding groups. For well-formed event descriptors on K10 counters, \<open>perfmon_addEventSet\<close> extends a session by
  a group that the other calls work with; a descriptor without a counter leaves an entry that they
  cannot work with.
\<close>

section \<open>Adding on a register file\<close>

text \<open>
  The laws of the access layer that adding relies on besides reading and writing: the check of the MSR
  device for processor 0 does not fail in the states \<open>chk\<close>, and writing registers keeps them. Events of the
  table have well-formed options.
\<close>

locale k10_groups = k10_env inv acc regs H E
  for inv :: "'m \<Rightarrow> bool" and acc :: "'m \<Rightarrow> nat \<Rightarrow> u32 \<Rightarrow> bool" and regs :: "'m \<Rightarrow> nat \<Rightarrow> u32 \<Rightarrow> u64"
    and H :: "'m hpm_ops" and E :: "('m, 'c) perfmon_env" +
  fixes chk :: "'m \<Rightarrow> bool"
  assumes env_hpm: "hpm_funs E = H"
    and check_law: "\<lbrakk>inv m; chk m\<rbrakk> \<Longrightarrow> \<exists>r. hp_check H MSR_DEV 0 m = Some (r, m) \<and> r \<noteq> 0"
    and write_check: "\<lbrakk>inv m; acc m c r; chk m; hp_write H (int c) MSR_DEV r v m = Some (x, m')\<rbrakk> \<Longrightarrow> chk m'"
    and events_wf: "\<forall>ev\<in>set (eventHash (tables E)). options_wf ev"

definition k10_counter_name :: "string \<Rightarrow> bool" where
  "k10_counter_name reg \<longleftrightarrow> reg \<in> set (map rm_key k10_counter_map)"

text \<open>A descriptor \<open>event:counter:options\<close> for a counter of the module.\<close>

definition k10_descriptor :: "string \<Rightarrow> bool" where
  "k10_descriptor token \<longleftrightarrow> (let sub = bsplit CHR '':'' token in
     2 \<le> length sub \<and> length sub \<le> 2 + MAX_EVENT_OPTIONS \<and> k10_counter_name (sub ! 1))"

text \<open>The counter that a descriptor names, and its event, when the table has it for this counter.\<close>

definition descriptor_index :: "string \<Rightarrow> nat" where
  "descriptor_index token = (case find (\<lambda>rm. rm_key rm = bsplit CHR '':'' token ! 1) k10_counter_map of None \<Rightarrow> 0 | Some rm \<Rightarrow> rm_index rm)"

definition descriptor_event :: "arch_tables \<Rightarrow> string \<Rightarrow> PerfmonEvent option" where
  "descriptor_event T token = (let sub = bsplit CHR '':'' token in case getEvent (eventHash T) (sub ! 0) (sub ! 1) of
     None \<Rightarrow> None | Some ev \<Rightarrow> if checkCounter (sub ! 1) (ev_limit ev) then Some ev else None)"

text \<open>
  A counter is in use when its control register is not 0 on the processor of the first thread. The entry of a
  descriptor measures the event on the counter, or nothing.
\<close>

definition counter_in_use :: "(nat \<Rightarrow> u32 \<Rightarrow> u64) \<Rightarrow> PerfmonThread list \<Rightarrow> string \<Rightarrow> bool" where
  "counter_in_use R ts token \<longleftrightarrow> R (nat (th_processorId (hd ts))) (k10_ctl (descriptor_index token)) \<noteq> 0"

definition entry_of :: "arch_tables \<Rightarrow> string \<Rightarrow> PerfmonEventSetEntry \<Rightarrow> bool" where
  "entry_of T token e \<longleftrightarrow> es_index e = descriptor_index token \<and> (case descriptor_event T token of
     None \<Rightarrow> es_type e = NOTYPE
   | Some ev \<Rightarrow> es_type e = PMC \<and> event_kept ev (es_event e))"

definition forced :: "('m, 'c) perfmon_env \<Rightarrow> int" where
  "forced E = (case getenv E ''LIKWID_FORCE'' of None \<Rightarrow> 0 | Some f \<Rightarrow> atoi f)"

lemma entry_of_counter: "entry_of T token (e\<lparr>es_threadCounter := c\<rparr>) = entry_of T token e"
  by (simp add: entry_of_def split: option.split)

lemma k10_find_counter:
  assumes "k10_counter_name reg"
  shows "\<exists>i<4. \<exists>rm. find (\<lambda>rm. rm_key rm = reg) k10_counter_map = Some rm \<and> arr_get k10_counter_map (int i) = Some rm \<and>
    rm_key rm = reg \<and> rm_index rm = i \<and> rm_type rm = PMC \<and> rm_device rm = MSR_DEV \<and>
    ucast (rm_configRegister rm) = k10_ctl i \<and> ucast (rm_counterRegister rm) = k10_ctr i"
proof -
  have "reg = ''PMC0'' \<or> reg = ''PMC1'' \<or> reg = ''PMC2'' \<or> reg = ''PMC3''"
    using assms by (auto simp: k10_counter_name_def k10_counter_map_def k10_counter_def)
  then show ?thesis
    by (elim disjE; simp add: k10_counter_map_def k10_counter_def arr_get_def k10_ctl_def k10_ctr_def less_4_cases ex_disj_distrib)
qed

lemma slot_group_facts:
  assumes "gs_inv ok gs"
  shows "numberOfActiveGroups (slot_group E gs) = numberOfActiveGroups gs" "threads (slot_group E gs) = threads gs"
    "activeGroup (slot_group E gs) = activeGroup gs" "numberOfActiveGroups gs < length (groups (slot_group E gs))"
    "take (numberOfActiveGroups gs) (groups (slot_group E gs)) = take (numberOfActiveGroups gs) (groups gs)"
  using assms by (auto simp: slot_group_def gs_inv_def Let_def)

text \<open>The group array with a new group in its free slot, which counts or not.\<close>

lemma gs_inv_slot:
  assumes "gs_inv ok gs" "n = numberOfActiveGroups gs" "count \<longrightarrow> ok (threads gs) x"
  shows "gs_inv ok ((slot_group E gs)\<lparr>groups := (groups (slot_group E gs))[n := x], numberOfActiveGroups := (if count then n + 1 else n)\<rparr>)"
proof -
  note f = slot_group_facts [OF assms(1), of E]
  have old: "groups (slot_group E gs) ! i = groups gs ! i" if "i < n" for i
    using f(5) that assms(2) by (metis nth_take)
  have "ok (threads gs) ((groups (slot_group E gs))[n := x] ! i)" if "i < (if count then n + 1 else n)" for i
    using that old assms f(4) by (auto simp: gs_inv_def nth_list_update less_Suc_eq split: if_splits)
  then show ?thesis using assms(1,2) f by (auto simp: gs_inv_def thread_ids_def)
qed

context k10_groups
begin

abbreviation usable :: "PerfmonThread list \<Rightarrow> 'm \<Rightarrow> bool" where
  "usable ts m \<equiv> inv m \<and> chk m \<and> (\<forall>th\<in>set ts. 0 \<le> th_processorId th \<and> k10_acc acc m (nat (th_processorId th)))"

abbreviation same_regs :: "'m \<Rightarrow> 'm \<Rightarrow> bool" where
  "same_regs m m' \<equiv> \<forall>c r. acc m c r \<longrightarrow> regs m' c r = regs m c r"

text \<open>Without force, a register in use ends the process, and the registers keep their values.\<close>

lemma test_register_total:
  assumes "inv m" "chk m" "k10_acc acc m c" "i < 4" "ucast (rm_configRegister rm) = k10_ctl i" "rm_device rm = MSR_DEV"
  obtains m' where "test_register H (int c) rm PMC force m = Some (if force = 0 \<and> regs m c (k10_ctl i) \<noteq> 0 then Exit 0 else Ret True, PMC, m')"
    "inv m' \<and> chk m'" "acc m' = acc m" "force = 0 \<longrightarrow> same_regs m m'"
proof -
  have a: "acc m c (k10_ctl i)" using assms(3,4) by (simp add: k10_acc_def)
  have rd: "hp_read H (int c) 0 (k10_ctl i) m = Some (0, regs m c (k10_ctl i), m)" using read_law [OF assms(1) a] by simp
  obtain m1 where wr: "hp_write H (int c) 0 (k10_ctl i) 0 m = Some (0, m1)" "inv m1 \<and> chk m1" "acc m1 = acc m"
      "\<forall>c' r'. acc m c' r' \<longrightarrow> regs m1 c' r' = (if c' = c \<and> r' = k10_ctl i then 0 else regs m c' r')"
    using write_law [OF assms(1) a, of 0] write_check [OF assms(1) a assms(2), of 0] by auto
  have eq: "test_register H (int c) rm PMC force m =
      Some (if regs m c (k10_ctl i) = 0 \<or> force = 1 then (Ret True, PMC, m1) else if force = 0 then (Exit 0, PMC, m) else (Ret True, PMC, m))"
    using rd wr(1) assms(5,6) k10_ctl_nonzero [OF assms(4)]
    by (cases "regs m c (k10_ctl i) = 0") (simp_all add: test_register_def no_config_def Let_def)
  show thesis
  proof (cases "regs m c (k10_ctl i) = 0 \<or> force = 1")
    case True
    then show thesis using eq wr(2-4) by (intro that [of m1]) auto
  next
    case False
    then show thesis using eq assms(1,2) by (intro that [of m]) simp_all
  qed
qed

lemma getIndexAndType_total:
  assumes "usable ts m" "ts \<noteq> []" "k10_counter_name (bsplit CHR '':'' token ! 1)"
  obtains m' where "getIndexAndType H k10_counter_map ts (bsplit CHR '':'' token ! 1) force it m =
      Some (if force = 0 \<and> counter_in_use (regs m) ts token then Exit 0 else Ret True, (descriptor_index token, PMC), m')"
    "descriptor_index token < 4" "inv m' \<and> chk m'" "acc m' = acc m" "force = 0 \<longrightarrow> same_regs m m'"
proof -
  let ?reg = "bsplit CHR '':'' token ! 1"
  obtain th ts' where ts: "ts = th # ts'" using assms(2) by (cases ts) auto
  obtain i rm where rm: "i < 4" "find (\<lambda>rm. rm_key rm = ?reg) k10_counter_map = Some rm" "arr_get k10_counter_map (int i) = Some rm"
      "rm_key rm = ?reg" "rm_index rm = i" "rm_type rm = PMC" "rm_device rm = MSR_DEV" "ucast (rm_configRegister rm) = k10_ctl i"
    using k10_find_counter [OF assms(3)] by blast
  have i: "descriptor_index token = i" using rm(2,5) by (simp add: descriptor_index_def)
  obtain v where ck: "hp_check H MSR_DEV 0 m = Some (v, m)" "v \<noteq> 0" using check_law assms(1) by blast
  let ?c = "nat (th_processorId th)"
  have th: "arr_get ts 0 = Some th" "int ?c = th_processorId th" "inv m" "chk m" "k10_acc acc m ?c"
    using assms(1) ts by (auto simp: arr_get_def)
  obtain m' where t: "test_register H (int ?c) rm PMC force m = Some (if force = 0 \<and> regs m ?c (k10_ctl i) \<noteq> 0 then Exit 0 else Ret True, PMC, m')"
      "inv m' \<and> chk m'" "acc m' = acc m" "force = 0 \<longrightarrow> same_regs m m'"
    by (rule test_register_total [OF th(3,4,5) rm(1,8,7)])
  have "counter_in_use (regs m) ts token \<longleftrightarrow> regs m ?c (k10_ctl i) \<noteq> 0" by (simp add: counter_in_use_def i ts)
  then have "getIndexAndType H k10_counter_map ts ?reg force it m =
      Some (if force = 0 \<and> counter_in_use (regs m) ts token then Exit 0 else Ret True, (i, PMC), m')"
    using th(1) rm(2-7) ck t(1) unfolding th(2) by (simp add: getIndexAndType_def no_config_def)
  then show thesis using that rm(1) t(2-4) i by blast
qed

lemma getEvent_wf: "getEvent (eventHash (tables E)) n r = Some ev \<Longrightarrow> options_wf ev"
  using events_wf unfolding getEvent_def find_Some_iff by force

text \<open>What an entry has after its descriptor was checked.\<close>

definition checked_entry :: "PerfmonEventSetEntry \<Rightarrow> bool" where
  "checked_entry e \<longleftrightarrow> es_index e < 4 \<and>
     (es_type e = NOTYPE \<or> es_type e = PMC \<and> ev_numberOfOptions (es_event e) \<le> length (ev_options (es_event e)))"

lemma check_event_total:
  assumes "usable ts m" "ts \<noteq> []" "k10_descriptor token"
  obtains (exit) m' where "force = 0 \<and> counter_in_use (regs m) ts token"
      "check_event E ts force (bsplit CHR '':'' token) e m = Some (Exit 0, m')"
  | (ok) e' m' where "\<not> (force = 0 \<and> counter_in_use (regs m) ts token)"
      "check_event E ts force (bsplit CHR '':'' token) e m = Some (Ret (e', False), m')" "checked_entry e'" "entry_of (tables E) token e'"
      "inv m' \<and> chk m'" "acc m' = acc m" "force = 0 \<longrightarrow> same_regs m m'"
proof -
  let ?sub = "bsplit CHR '':'' token" and ?i = "descriptor_index token"
  have sub: "2 \<le> length ?sub" "length ?sub \<le> 2 + MAX_EVENT_OPTIONS" "k10_counter_name (?sub ! 1)"
    using assms(3) by (simp_all add: k10_descriptor_def Let_def)
  obtain m' where g: "getIndexAndType H k10_counter_map ts (?sub ! 1) force (es_index e, es_type e) m =
        Some (if force = 0 \<and> counter_in_use (regs m) ts token then Exit 0 else Ret True, (?i, PMC), m')"
      "?i < 4" "inv m' \<and> chk m'" "acc m' = acc m" "force = 0 \<longrightarrow> same_regs m m'"
    by (rule getIndexAndType_total [OF assms(1,2) sub(3)])
  have T: "counter_map (tables E) = k10_counter_map" using env_tables by (simp add: k10_tables_def)
  show thesis
  proof (cases "force = 0 \<and> counter_in_use (regs m) ts token")
    case True
    then show thesis using g(1) by (intro exit [of m']) (simp_all add: check_event_def T env_hpm del: One_nat_def)
  next
    case False
    then have g1: "getIndexAndType H k10_counter_map ts (?sub ! 1) force (es_index e, es_type e) m = Some (Ret True, (?i, PMC), m')"
      unfolding g(1) by auto
    note d = check_event_def T env_hpm g1 checked_entry_def entry_of_def descriptor_event_def Let_def
    show thesis
    proof (cases "getEvent (eventHash (tables E)) (?sub ! 0) (?sub ! 1)")
      case None
      then show thesis using False g(2-5)
        by (intro ok [of "e\<lparr>es_index := ?i, es_type := NOTYPE\<rparr>" m']) (simp_all add: d del: One_nat_def)
    next
      case (Some ev)
      show thesis
      proof (cases "checkCounter (?sub ! 1) (ev_limit ev)")
        case c: False
        then show thesis using Some False g(2-5)
          by (intro ok [of "e\<lparr>es_index := ?i, es_event := ev, es_type := NOTYPE\<rparr>" m']) (simp_all add: d del: One_nat_def)
      next
        case c: True
        obtain rm where rm: "arr_get k10_counter_map (int ?i) = Some rm" using k10_map_at [OF g(2)] by blast
        obtain k ev' where p: "parseOptions ?sub ev (rm_optionMask rm) = Some (k, ev')" "length (ev_options ev') = MAX_EVENT_OPTIONS"
            "k = int (ev_numberOfOptions ev')" "ev_numberOfOptions ev' \<le> MAX_EVENT_OPTIONS"
          using parseOptions_result [OF getEvent_wf [OF Some], of ?sub "rm_optionMask rm"] sub(2) by auto
        have "\<not> k < 0" "k \<noteq> - ERANGE" using p(3) by simp_all
        then show thesis using Some c False rm p g(2-5) parseOptions_kept [OF p(1)]
          by (intro ok [of "e\<lparr>es_index := ?i, es_event := ev', es_type := PMC\<rparr>" m']) (simp_all add: d del: One_nat_def)
      qed
    qed
  qed
qed

lemma new_counters_get: "t < n \<Longrightarrow> arr_get (new_counters E n) (int t) \<noteq> None"
  by (simp add: new_counters_def arr_get_def)

lemma type_mask_nonzero: "(ucast (REG_TYPE_MASK PMC) :: 128 word) \<noteq> 0" "REG_TYPE_MASK NOTYPE = 0"
  by (simp_all add: REG_TYPE_MASK_def register_number_def RegisterTypes_def)

lemma add_event_total:
  assumes "usable ts m" "ts \<noteq> []" "k10_descriptor token"
  obtains (exit) m' where "force = 0 \<and> counter_in_use (regs m) ts token" "add_event E ts force token st m = Some (Exit 0, m')"
  | (ok) e' st' m' where "\<not> (force = 0 \<and> counter_in_use (regs m) ts token)" "add_event E ts force token st m = Some (Ret (e', st'), m')"
      "\<forall>t<length ts. k10_entry t e'" "entry_of (tables E) token e'" "ad_numberOfEvents st' = Suc (ad_numberOfEvents st)"
      "\<not> ad_subtokens_freed st'" "ad_regTypeMask st' \<noteq> 0 \<longleftrightarrow> ad_regTypeMask st \<noteq> 0 \<or> descriptor_event (tables E) token \<noteq> None"
      "inv m' \<and> chk m'" "acc m' = acc m" "force = 0 \<longrightarrow> same_regs m m'"
proof -
  have sub: "2 \<le> length (bsplit CHR '':'' token)" using assms(3) by (simp add: k10_descriptor_def Let_def)
  show thesis
    using assms
  proof (cases rule: check_event_total [where force = force and e = "(fresh_entry E)\<lparr>es_threadCounter := None\<rparr>"])
    case (exit m')
    then show thesis using sub by (intro that(1) [of m']) (simp_all add: add_event_def Let_def)
  next
    case (ok e' m')
    let ?e = "e'\<lparr>es_threadCounter := Some (new_counters E (length ts))\<rparr>"
    let ?st = "st\<lparr>ad_numberOfEvents := ad_numberOfEvents st + 1,
      ad_regTypeMask := ad_regTypeMask st OR ucast (REG_TYPE_MASK (es_type e')), ad_subtokens_freed := False\<rparr>"
    have k: "k10_entry t ?e" if "t < length ts" for t
      using ok(3) new_counters_get [OF that] by (simp add: k10_entry_def checked_entry_def counter_get_def)
    have "(ucast (REG_TYPE_MASK (es_type e')) :: 128 word) \<noteq> 0 \<longleftrightarrow> descriptor_event (tables E) token \<noteq> None"
      using ok(4) type_mask_nonzero by (auto simp: entry_of_def split: option.splits)
    then have m: "ad_regTypeMask ?st \<noteq> 0 \<longleftrightarrow> ad_regTypeMask st \<noteq> 0 \<or> descriptor_event (tables E) token \<noteq> None"
      by (simp add: or_eq_0_iff)
    show thesis
    proof (rule that(2) [OF ok(1) _ _ _ _ _ m ok(5-7)])
      show "add_event E ts force token st m = Some (Ret (?e, ?st), m')" using ok(2) sub by (simp add: add_event_def Let_def)
      show "entry_of (tables E) token ?e" using ok(4) by (simp only: entry_of_counter)
    qed (use k in simp_all)
  qed
qed

lemma usable_acc: "\<lbrakk>usable ts m; inv m' \<and> chk m'; acc m' = acc m\<rbrakk> \<Longrightarrow> usable ts m'"
  by (simp add: k10_acc_def)

lemma in_use_same:
  assumes "usable ts m" "ts \<noteq> []" "k10_descriptor token" "same_regs m m'"
  shows "counter_in_use (regs m') ts token = counter_in_use (regs m) ts token"
proof -
  have "k10_acc acc m (nat (th_processorId (hd ts)))" using assms(1,2) by auto
  moreover have "k10_counter_name (bsplit CHR '':'' token ! 1)" using assms(3) by (simp add: k10_descriptor_def Let_def)
  then have "descriptor_index token < 4" using k10_find_counter by (force simp: descriptor_index_def)
  ultimately show ?thesis using assms(4) by (simp add: counter_in_use_def k10_acc_def)
qed

lemma add_events_total:
  assumes "usable ts m" "ts \<noteq> []" "\<forall>token\<in>set tokens. k10_descriptor token" "\<not> ad_subtokens_freed st"
  shows "if force = 0 \<and> (\<exists>token\<in>set tokens. counter_in_use (regs m) ts token)
    then \<exists>m'. add_events E ts force tokens st m = Some (Exit 0, m')
    else \<exists>es st' m'. add_events E ts force tokens st m = Some (Ret (es, st'), m') \<and> inv m' \<and> acc m' = acc m \<and>
       list_all2 (entry_of (tables E)) tokens es \<and> ad_numberOfEvents st' = ad_numberOfEvents st + length tokens \<and> \<not> ad_subtokens_freed st' \<and>
       (ad_regTypeMask st' \<noteq> 0 \<longleftrightarrow> ad_regTypeMask st \<noteq> 0 \<or> (\<exists>token\<in>set tokens. descriptor_event (tables E) token \<noteq> None)) \<and>
       (\<forall>e\<in>set es. \<forall>t<length ts. k10_entry t e)"
  using assms(1,3,4)
proof (induction tokens arbitrary: st m)
  case Nil
  then show ?case by simp
next
  case (Cons token tokens)
  have tok: "k10_descriptor token" using Cons.prems(2) by simp
  from Cons.prems(1) assms(2) tok show ?case
  proof (cases rule: add_event_total [where force = force and st = st])
    case (exit m')
    then show ?thesis by simp
  next
    case (ok e st1 m1)
    have u: "usable ts m1" by (rule usable_acc [OF Cons.prems(1) ok(8,9)])
    have same: "force = 0 \<longrightarrow> (\<forall>t\<in>set tokens. counter_in_use (regs m1) ts t = counter_in_use (regs m) ts t)"
    proof (intro impI ballI)
      fix t
      assume "force = 0" "t \<in> set tokens"
      then show "counter_in_use (regs m1) ts t = counter_in_use (regs m) ts t"
        using Cons.prems(2) by (intro in_use_same [OF Cons.prems(1) assms(2) _ mp [OF ok(10)]]) simp_all
    qed
    note IH = Cons.IH [OF u _ ok(6)]
    show ?thesis
    proof (cases "force = 0 \<and> (\<exists>t\<in>set (token # tokens). counter_in_use (regs m) ts t)")
      case True
      then obtain m' where "add_events E ts force tokens st1 m1 = Some (Exit 0, m')"
        using IH Cons.prems(2) same ok(1) by auto
      then show ?thesis using ok(2) True by simp
    next
      case False
      then have n: "\<not> (force = 0 \<and> (\<exists>t\<in>set tokens. counter_in_use (regs m1) ts t))" using same by auto
      have "\<forall>token\<in>set tokens. k10_descriptor token" using Cons.prems(2) by simp
      from IH [OF this, unfolded if_not_P [OF n]] obtain es st' m' where r: "add_events E ts force tokens st1 m1 = Some (Ret (es, st'), m')" "inv m'" "acc m' = acc m1"
          "list_all2 (entry_of (tables E)) tokens es" "ad_numberOfEvents st' = ad_numberOfEvents st1 + length tokens" "\<not> ad_subtokens_freed st'"
          "ad_regTypeMask st' \<noteq> 0 \<longleftrightarrow> ad_regTypeMask st1 \<noteq> 0 \<or> (\<exists>t\<in>set tokens. descriptor_event (tables E) t \<noteq> None)"
          "\<forall>e\<in>set es. \<forall>t<length ts. k10_entry t e"
        by blast
      then have "add_events E ts force (token # tokens) st m = Some (Ret (e # es, st'), m')" using ok(2) by simp
      moreover have "ad_regTypeMask st' \<noteq> 0 \<longleftrightarrow>
          ad_regTypeMask st \<noteq> 0 \<or> (\<exists>t\<in>set (token # tokens). descriptor_event (tables E) t \<noteq> None)"
        using r(7) ok(7) by simp
      moreover have "acc m' = acc m" "ad_numberOfEvents st' = ad_numberOfEvents st + length (token # tokens)"
          "list_all2 (entry_of (tables E)) (token # tokens) (e # es)" "\<forall>x\<in>set (e # es). \<forall>t<length ts. k10_entry t x"
        using r(3-5,8) ok(3-5,9) by simp_all
      ultimately show ?thesis using False r(2,6) by metis
    qed
  qed
qed

lemma add_group_exact:
  assumes live: "living ready k10_ok ts l s" and "chk (machine (pm s))"
    and str: "CHR ''-'' \<notin> set str" "CHR ''.'' \<notin> set str" "\<forall>token\<in>set (bsplit CHR '','' str). k10_descriptor token"
  shows "if forced E = 0 \<and> (\<exists>token\<in>set (bsplit CHR '','' str). counter_in_use (regs (machine (pm s))) ts token)
    then \<exists>s'. perfmon_addEventSet E (Some str) s = Some (Exit 0, s')
    else if \<forall>token\<in>set (bsplit CHR '','' str). descriptor_event (tables E) token = None
    then \<exists>s'. perfmon_addEventSet E (Some str) s = Some (Ret (- EINVAL), s') \<and> living ready k10_ok ts l s'
    else \<exists>s' gs'. perfmon_addEventSet E (Some str) s = Some (Ret (int (length (lf_states l))), s') \<and>
      living ready k10_ok ts (l\<lparr>lf_states := lf_states l @ [STATE_NONE]\<rparr>) s' \<and> groupSet s' = Some gs' \<and>
      gs_numberOfEvents (groups gs' ! length (lf_states l)) = length (bsplit CHR '','' str) \<and>
      list_all2 (entry_of (tables E)) (bsplit CHR '','' str) (gs_events (groups gs' ! length (lf_states l)))"
proof -
  let ?tokens = "bsplit CHR '','' str" and ?m = "machine (pm s)"
  obtain gs where gs: "groupSet s = Some gs" "gs_inv k10_ok gs" "threads gs = ts" "ready ts (pm s)" "perfmon_initialized s"
      "lf_active l = activeGroup gs" "lf_states l = map gs_state (take (numberOfActiveGroups gs) (groups gs))"
      "length (lf_states l) = numberOfActiveGroups gs"
    using live by (rule cm.livingE)
  let ?gs = "slot_group E gs" and ?n = "numberOfActiveGroups gs"
  note f = slot_group_facts [OF gs(2), of E]
  have ts: "ts \<noteq> []" using gs(2,3) by (simp add: gs_inv_def)
  have us: "usable ts ?m" using gs(4) assms(2) by (auto simp: k10_ready_def)
  let ?st = "\<lparr>ad_numberOfEvents = 0, ad_regTypeMask = 0, ad_subtokens_freed = False\<rparr>"
  have slot: "arr_get (groups ?gs) (int ?n) = Some (groups ?gs ! ?n)" using f(4) by (simp add: arr_get_def)
  note call = gs(1,3,5) str(1,2) f(1,2) slot
  have nf: "\<not> ad_subtokens_freed ?st" by simp
  have add: "if forced E = 0 \<and> (\<exists>token\<in>set ?tokens. counter_in_use (regs ?m) ts token)
    then \<exists>m'. add_events E ts (forced E) ?tokens ?st ?m = Some (Exit 0, m')
    else \<exists>es st' m'. add_events E ts (forced E) ?tokens ?st ?m = Some (Ret (es, st'), m') \<and> inv m' \<and> acc m' = acc ?m \<and>
       list_all2 (entry_of (tables E)) ?tokens es \<and> ad_numberOfEvents st' = length ?tokens \<and> \<not> ad_subtokens_freed st' \<and>
       (ad_regTypeMask st' \<noteq> 0 \<longleftrightarrow> (\<exists>token\<in>set ?tokens. descriptor_event (tables E) token \<noteq> None)) \<and>
       (\<forall>e\<in>set es. \<forall>t<length ts. k10_entry t e)"
    using add_events_total [OF us ts str(3) nf, of "forced E", unfolded add_state.select_convs add_0] by (simp only: simp_thms)
  show ?thesis
  proof (cases "forced E = 0 \<and> (\<exists>token\<in>set ?tokens. counter_in_use (regs ?m) ts token)")
    case True
    then obtain m' where "add_events E ts (forced E) ?tokens ?st ?m = Some (Exit 0, m')" using add by auto
    then show ?thesis using True call by (simp add: perfmon_addEventSet_def Let_def forced_def)
  next
    case False
    then obtain es st m' where ok: "add_events E ts (forced E) ?tokens ?st ?m = Some (Ret (es, st), m')" "inv m'" "acc m' = acc ?m"
        "list_all2 (entry_of (tables E)) ?tokens es" "ad_numberOfEvents st = length ?tokens" "\<not> ad_subtokens_freed st"
        "ad_regTypeMask st \<noteq> 0 \<longleftrightarrow> (\<exists>token\<in>set ?tokens. descriptor_event (tables E) token \<noteq> None)"
        "\<forall>e\<in>set es. \<forall>t<length ts. k10_entry t e"
      using add unfolding if_not_P [OF False] by blast
    have len: "length es = ad_numberOfEvents st" using list_all2_lengthD [OF ok(4)] ok(5) by simp
    have tok: "?tokens \<noteq> []" by (cases str) (auto split: list.splits if_splits)
    let ?ok = "0 < ad_numberOfEvents st \<and> ad_regTypeMask st \<noteq> 0"
    have o: "?ok \<longleftrightarrow> \<not> (\<forall>token\<in>set ?tokens. descriptor_event (tables E) token = None)" using ok(5,7) tok by auto
    let ?g1 = "(groups ?gs ! ?n)\<lparr>gs_events := es, gs_numberOfEvents := ad_numberOfEvents st, gs_regTypeMask := ad_regTypeMask st\<rparr>"
    let ?g = "if ?ok then ?g1\<lparr>gs_state := STATE_NONE\<rparr> else ?g1"
    let ?gs1 = "?gs\<lparr>groups := (groups ?gs)[?n := ?g], numberOfActiveGroups := (if ?ok then ?n + 1 else ?n)\<rparr>"
    let ?s = "s\<lparr>groupSet := Some ?gs1, pm := (pm s)\<lparr>machine := m'\<rparr>\<rparr>"
    have r: "perfmon_addEventSet E (Some str) s = Some (Ret (if ?ok then int ?n else - EINVAL), ?s)"
      using call ok(1,6) by (simp add: perfmon_addEventSet_def Let_def forced_def)
    have "k10_ok ts ?g" using len ok(8) by (auto simp: k10_ok_def k10_group_def)
    then have inv1: "gs_inv k10_ok ?gs1" unfolding gs(3) [symmetric] by (intro gs_inv_slot [OF gs(2) refl] impI)
    have rdy: "ready ts (pm ?s)" using k10_ready_step [OF gs(4), of "pm ?s"] ok(2,3) by simp
    have "living ready k10_ok ts \<lparr>lf_active = activeGroup ?gs1, lf_states = map gs_state (take (numberOfActiveGroups ?gs1) (groups ?gs1))\<rparr> ?s"
      using rdy gs(3,5) f(2) by (intro cm.livingI [OF _ inv1]) simp_all
    moreover have "\<lparr>lf_active = activeGroup ?gs1, lf_states = map gs_state (take (numberOfActiveGroups ?gs1) (groups ?gs1))\<rparr> =
        (if ?ok then l\<lparr>lf_states := lf_states l @ [STATE_NONE]\<rparr> else l)"
      using gs(6,7) f(3-5) by (simp add: take_Suc_conv_app_nth)
    ultimately have live': "living ready k10_ok ts (if ?ok then l\<lparr>lf_states := lf_states l @ [STATE_NONE]\<rparr> else l) ?s" by simp
    have ev: "?ok \<longrightarrow> gs_numberOfEvents (groups ?gs1 ! ?n) = length ?tokens \<and> gs_events (groups ?gs1 ! ?n) = es"
      using f(4) ok(5) by simp
    have grp: "groupSet ?s = Some ?gs1" by simp
    from r live' grp ev
    obtain s1 gs1 where s1: "perfmon_addEventSet E (Some str) s = Some (Ret (if ?ok then int ?n else - EINVAL), s1)"
        "living ready k10_ok ts (if ?ok then l\<lparr>lf_states := lf_states l @ [STATE_NONE]\<rparr> else l) s1" "groupSet s1 = Some gs1"
        "?ok \<longrightarrow> gs_numberOfEvents (groups gs1 ! ?n) = length ?tokens \<and> gs_events (groups gs1 ! ?n) = es"
      by blast
    show ?thesis
      unfolding if_not_P [OF False] gs(8) using s1 ok(4) o by (cases ?ok) auto
  qed
qed

lemma add_group_living:
  assumes "living ready k10_ok ts l s" "chk (machine (pm s))"
    and "CHR ''-'' \<notin> set str" "CHR ''.'' \<notin> set str" "\<forall>token\<in>set (bsplit CHR '','' str). k10_descriptor token"
    and "perfmon_addEventSet E (Some str) s = Some (Ret v, s')"
  shows "living ready k10_ok ts l s' \<or> living ready k10_ok ts (l\<lparr>lf_states := lf_states l @ [STATE_NONE]\<rparr>) s'"
  using add_group_exact [OF assms(1-5)] assms(6) by (auto split: if_splits)

end

section \<open>Adding through the access daemon\<close>

locale k10_group_stack = k10_stack K mem numHWThreads eax err pciInit E
  for K :: "'k kernel_ops" and mem :: "'k \<Rightarrow> int \<Rightarrow> u32 \<Rightarrow> u64" and numHWThreads :: nat and eax :: u32
    and err :: "'k daemons hpm \<Rightarrow> int" and pciInit :: "nat \<Rightarrow> 'k daemons hpm \<Rightarrow> (int \<times> 'k daemons hpm) option"
    and E :: "('k daemons hpm, 'c) perfmon_env" +
  assumes stack_hpm: "hpm_funs E = stack_ops K numHWThreads eax err pciInit"
    and stack_events: "\<forall>ev\<in>set (eventHash (tables E)). options_wf ev"

definition stack_chk :: "'k daemons hpm \<Rightarrow> bool" where
  "stack_chk s \<longleftrightarrow> (\<exists>r. stack_acc s 0 r) \<and> (\<exists>sock>0. arr_get (cpuSockets (client s)) 0 = Some sock)"

lemma stack_check:
  assumes "stack_inv s" "stack_chk s" "\<And>fd m k. sys_send K fd m k = (True, k)"
  shows "HPMcheck (daemon_link K n eax) MSR_DEV 0 s = Some (1, s)"
proof -
  obtain sock0 where k: "arr_get (cpuSockets (client s)) 0 = Some sock0" "0 < sock0" using assms(2) by (auto simp: stack_chk_def)
  obtain sock d fd where a: "client_socket (client s) 0 = Some sock" "fst (world s) sock = Some d"
      "arr_get (FD_MSR d) 0 = Some fd" "0 < fd" "arr_get (registeredCpuList s) 0 = Some True"
    using assms(2) by (auto simp: stack_acc_def stack_chk_def)
  have sock: "sock = sock0" using a(1) k by (auto simp: client_socket_def split: if_splits)
  have m: "access_mode s = ClientAccess" using assms(1) by (auto simp: stack_inv_def)
  obtain ds nx k0 where w: "world s = (ds, nx, k0)" by (cases "world s") auto
  let ?r = "\<lparr>ad_cpu = 0, ad_reg = 0, ad_data = 0, ad_device = MSR_DEV, ad_type = DAEMON_CHECK, ad_errorcode = ERR_NOERROR\<rparr>"
  have st: "daemon_step K d (ReadRecord ?r) k0 = Some (Replied ?r, d, k0)"
    using a(3,4) assms(3) by (simp add: daemon_step_def handle_record_def msr_check_def)
  have "ds(sock0 \<mapsto> d) = ds" using a(2) w sock by (simp add: fun_upd_idem)
  then have "lk_exchange (daemon_link K n eax) sock0 ?r (world s) = Some (?r, world s)"
    using a(2) w st sock by (simp add: daemon_link_def)
  then show ?thesis using a(5) m k sock
    by (cases "sock0 = globalSocket (client s)") (simp_all add: HPMcheck_def access_client_check_def request_cpu_def)
qed

lemma stack_chk_world: "stack_chk (s\<lparr>world := (fst (world s), x, k)\<rparr>) = stack_chk s"
  by (simp add: stack_chk_def stack_world)

sublocale k10_group_stack \<subseteq> gst: k10_groups stack_inv stack_acc "stack_regs mem" "stack_ops K numHWThreads eax err pciInit" E stack_chk
proof
  show "hpm_funs E = stack_ops K numHWThreads eax err pciInit" "\<forall>ev\<in>set (eventHash (tables E)). options_wf ev"
    using stack_hpm stack_events by simp_all
  fix m m' :: "'k daemons hpm" and c r v x
  assume m: "stack_inv m" "stack_chk m"
  show "\<exists>r. hp_check (stack_ops K numHWThreads eax err pciInit) MSR_DEV 0 m = Some (r, m) \<and> r \<noteq> 0"
    using stack_check [OF m send_law, of numHWThreads eax] by (simp add: stack_ops_def)
  assume w: "stack_acc m c r" "hp_write (stack_ops K numHWThreads eax err pciInit) (int c) MSR_DEV r v m = Some (x, m')"
  obtain k1 where "\<And>fd. sys_pwrite K fd 8 r v (snd (snd (world m))) = (8, k1 fd)"
    using pwrite_law [of _ r v "snd (snd (world m))"] by metis
  from stack_write [OF m(1) w(1) this send_law refl, where n = numHWThreads and eax = eax] w(2)
  show "stack_chk m'" using m(2) by (auto simp: stack_ops_def stack_chk_world)
qed

context k10_group_stack
begin

lemmas session_add = gst.add_group_living
lemmas session_add_exact = gst.add_group_exact

end

section \<open>Properties\<close>


interpretation amdg: k10_group_stack reg_kernel "\<lambda>k. k" 2 "0x100F42" "\<lambda>s. 0" "\<lambda>cpu s. Some (0, s)" amd_env
  by unfold_locales (auto simp: amd_env_def amd_tables_def amd_event_def options_wf_def Let_def)

lemma amd_ready_chk: "stack_chk amd_ready"
proof -
  have "stack_acc amd_ready 0 (k10_ctl 0)" using amd_ready_k10 by (simp add: k10_acc_def)
  moreover have "arr_get (cpuSockets (client amd_ready)) 0 = Some 7"
    by (simp add: amd_ready_def stack_ready_def arr_get_def MAX_NUM_THREADS_def)
  ultimately show ?thesis unfolding stack_chk_def by (metis zero_less_numeral)
qed

text \<open>Checking the two events on the machine, whose registers are all 0.\<close>

lemma amd_write_zero:
  assumes "i < 4"
  shows "hp_write amd_hpm 0 0 (k10_ctl i) 0 amd_ready = Some (0, amd_ready)"
proof -
  have a: "stack_acc amd_ready 0 (k10_ctl i)" using amd_ready_k10 assms by (simp add: k10_acc_def)
  have z: "snd (snd (world amd_ready)) = (\<lambda>fd r. 0)" by (simp add: amd_ready_def)
  have w: "(fst (world amd_ready), fst (snd (world amd_ready)), (\<lambda>fd r. 0)) = world amd_ready" by (simp add: amd_ready_def)
  have "HPMwrite (daemon_link reg_kernel 2 0x100F42) (world_kernel reg_kernel) (int 0) MSR_DEV (k10_ctl i) 0 amd_ready =
      Some (0, amd_ready\<lparr>world := (fst (world amd_ready), fst (snd (world amd_ready)), (\<lambda>fd r. 0))\<rparr>)"
    by (rule stack_write [OF amd_ready_inv a, where ?k1.0 = "\<lambda>fd. (\<lambda>fd r. 0)"]) (auto simp: reg_kernel_def z)
  then show ?thesis unfolding w by (simp add: stack_ops_def)
qed

lemma amd_getIndex:
  assumes "k10_counter_name reg"
  shows "\<exists>i<4. find (\<lambda>rm. rm_key rm = reg) k10_counter_map = Some (k10_counter_map ! i) \<and>
    getIndexAndType amd_hpm k10_counter_map amd_threads reg 0 it amd_ready = Some (Ret True, (i, PMC), amd_ready)"
proof -
  obtain i rm where rm: "i < 4" "find (\<lambda>rm. rm_key rm = reg) k10_counter_map = Some rm" "arr_get k10_counter_map (int i) = Some rm"
      "rm_key rm = reg" "rm_index rm = i" "rm_type rm = PMC" "rm_device rm = MSR_DEV" "ucast (rm_configRegister rm) = k10_ctl i"
    using k10_find_counter [OF assms] by blast
  have a: "stack_acc amd_ready 0 (k10_ctl i)" using amd_ready_k10 rm(1) by (simp add: k10_acc_def)
  have z: "stack_regs (\<lambda>k. k) amd_ready 0 (k10_ctl i) = 0" by (simp add: stack_regs_def amd_ready_def)
  have rd: "hp_read amd_hpm 0 0 (k10_ctl i) amd_ready = Some (0, 0, amd_ready)"
    using amd.session_read [OF amd_ready_inv a] unfolding z by simp
  have ck: "hp_check amd_hpm MSR_DEV 0 amd_ready = Some (1, amd_ready)"
    using stack_check [OF amd_ready_inv amd_ready_chk, of reg_kernel 2 "0x100F42"] by (simp add: stack_ops_def reg_kernel_def)
  have "test_register amd_hpm 0 rm PMC 0 amd_ready = Some (Ret True, PMC, amd_ready)"
    using rd amd_write_zero [OF rm(1)] rm(7,8) k10_ctl_nonzero [OF rm(1)] by (simp add: test_register_def Let_def)
  then have "getIndexAndType amd_hpm k10_counter_map amd_threads reg 0 it amd_ready = Some (Ret True, (i, PMC), amd_ready)"
    using rm ck by (simp add: getIndexAndType_def no_config_def amd_threads_def arr_get_def)
  moreover have "rm = k10_counter_map ! i" using rm(3) by (simp add: arr_get_def split: if_splits)
  ultimately show ?thesis using rm(1,2) by blast
qed

lemma amd_parse:
  "\<exists>ev. getEvent (eventHash amd_tables) ''INSTRUCTIONS_RETIRED'' ''PMC0'' = Some ev \<and> checkCounter ''PMC0'' (ev_limit ev) \<and>
     (\<exists>ev'. parseOptions [''INSTRUCTIONS_RETIRED'', ''PMC0''] ev msk = Some (0, ev'))"
proof -
  let ?ev = "amd_event ''INSTRUCTIONS_RETIRED'' 0xC0"
  have e: "getEvent (eventHash amd_tables) ''INSTRUCTIONS_RETIRED'' ''PMC0'' = Some ?ev" "checkCounter ''PMC0'' (ev_limit ?ev)"
    by (simp_all add: getEvent_def amd_tables_def amd_event_def checkCounter_def)
  have "parseOptions [''INSTRUCTIONS_RETIRED'', ''PMC0''] ?ev msk = Some (0, ?ev\<lparr>ev_options := map (\<lambda>i. (ev_options ?ev ! i)\<lparr>po_type := EVENT_OPTION_NONE\<rparr>) [0..<MAX_EVENT_OPTIONS]\<rparr>)"
    by (simp add: parseOptions_def amd_event_def default_thresholds.simps)
  then show ?thesis using e by blast
qed

lemma amd_check_event:
  "\<exists>e'. check_event amd_env amd_threads 0 [''INSTRUCTIONS_RETIRED'', ''PMC0''] e amd_ready = Some (Ret (e', False), amd_ready) \<and> es_type e' = PMC"
proof -
  have n: "k10_counter_name ''PMC0''" by (simp add: k10_counter_name_def k10_counter_map_def k10_counter_def)
  obtain i where g: "i < 4" "getIndexAndType amd_hpm k10_counter_map amd_threads ''PMC0'' 0 (es_index e, es_type e) amd_ready = Some (Ret True, (i, PMC), amd_ready)"
    using amd_getIndex [OF n] by blast
  obtain rm where rm: "arr_get k10_counter_map (int i) = Some rm" using k10_map_at [OF g(1)] by blast
  have T: "tables amd_env = amd_tables" "hpm_funs amd_env = amd_hpm" "counter_map amd_tables = k10_counter_map"
    by (simp_all add: amd_env_def Let_def amd_tables_def)
  show ?thesis using g(2) rm amd_parse [of "rm_optionMask rm"] by (auto simp: check_event_def T)
qed

lemma amd_add_events:
  "\<exists>es st. add_events amd_env amd_threads 0 [''X'', ''INSTRUCTIONS_RETIRED:PMC0'']
      \<lparr>ad_numberOfEvents = 0, ad_regTypeMask = 0, ad_subtokens_freed = False\<rparr> amd_ready = Some (Ret (es, st), amd_ready) \<and>
    ad_numberOfEvents st = 1 \<and> ad_regTypeMask st \<noteq> 0 \<and> \<not> ad_subtokens_freed st"
proof -
  have b: "bsplit CHR '':'' ''X'' = [''X'']" "bsplit CHR '':'' ''INSTRUCTIONS_RETIRED:PMC0'' = [''INSTRUCTIONS_RETIRED'', ''PMC0'']"
    by simp_all
  obtain e' where "check_event amd_env amd_threads 0 [''INSTRUCTIONS_RETIRED'', ''PMC0''] ((fresh_entry amd_env)\<lparr>es_threadCounter := None\<rparr>) amd_ready =
      Some (Ret (e', False), amd_ready)" "es_type e' = PMC"
    using amd_check_event by blast
  then show ?thesis by (simp add: add_event_def b REG_TYPE_MASK_def del: bsplit.simps)
qed

lemma amd_addEventSet:
  "\<exists>s. perfmon_addEventSet amd_env (Some ''X,INSTRUCTIONS_RETIRED:PMC0'') amd_session = Some (Ret 2, s)"
proof -
  have b: "bsplit CHR '','' ''X,INSTRUCTIONS_RETIRED:PMC0'' = [''X'', ''INSTRUCTIONS_RETIRED:PMC0'']" by simp
  have s: "perfmon_initialized amd_session" "groupSet amd_session = Some \<lparr>numberOfActiveGroups = 2, activeGroup = - 1,
      groups = [amd_group, amd_group], threads = amd_threads\<rparr>" "machine (pm amd_session) = amd_ready" "getenv amd_env x = None" for x
    by (simp_all add: amd_session_def amd_env_def Let_def)
  obtain es st where "add_events amd_env amd_threads 0 [''X'', ''INSTRUCTIONS_RETIRED:PMC0'']
      \<lparr>ad_numberOfEvents = 0, ad_regTypeMask = 0, ad_subtokens_freed = False\<rparr> amd_ready = Some (Ret (es, st), amd_ready)"
      "ad_numberOfEvents st = 1" "ad_regTypeMask st \<noteq> 0" "\<not> ad_subtokens_freed st"
    using amd_add_events by blast
  then show ?thesis
    by (simp add: perfmon_addEventSet_def s b slot_group_def arr_get_def del: bsplit.simps add_events.simps)
qed


lemma add_events_skipped:
  assumes "add_events E ts force (token # tokens) st m = Some (Ret (es, st'), m')" "length (bsplit CHR '':'' token) < 2"
  shows "\<exists>e es'. es = e # es' \<and> es_threadCounter e = None"
proof -
  let ?e = "(fresh_entry E)\<lparr>es_threadCounter := None\<rparr>" and ?st = "st\<lparr>ad_subtokens_freed := False\<rparr>"
  have 1: "add_event E ts force token st m = Some (Ret (?e, ?st), m)" using assms(2) by (simp add: add_event_def)
  obtain r m2 where 2: "add_events E ts force tokens ?st m = Some (r, m2)" using assms(1) 1 by (auto simp: bind_Some_iff)
  then show ?thesis using assms(1) 1 by (cases r) auto
qed

lemma addEventSet_accepted:
  assumes "perfmon_addEventSet E (Some str) s = Some (Ret v, s')" "0 \<le> v"
  obtains gs g es st m where "groupSet s = Some gs" "arr_get (groups (slot_group E gs)) v = Some g"
    "add_events E (threads (slot_group E gs)) (case getenv E ''LIKWID_FORCE'' of None \<Rightarrow> 0 | Some f \<Rightarrow> atoi f) (bsplit CHR '','' str)
       \<lparr>ad_numberOfEvents = 0, ad_regTypeMask = 0, ad_subtokens_freed = False\<rparr> (machine (pm s)) = Some (Ret (es, st), m)"
    "0 < ad_numberOfEvents st"
    "groupSet s' = Some ((slot_group E gs)\<lparr>groups := (groups (slot_group E gs))[nat v := g\<lparr>gs_events := es,
       gs_numberOfEvents := ad_numberOfEvents st, gs_regTypeMask := ad_regTypeMask st, gs_state := STATE_NONE\<rparr>],
       numberOfActiveGroups := nat v + 1\<rparr>)"
proof -
  note def = perfmon_addEventSet_def
  have i: "perfmon_initialized s" using assms by (cases "perfmon_initialized s") (simp_all add: def)
  have c: "\<not> (CHR ''-'' \<in> set str \<or> CHR ''.'' \<in> set str)"
    using assms i by (cases "CHR ''-'' \<in> set str \<or> CHR ''.'' \<in> set str") (simp_all add: def)
  obtain gs where gs: "groupSet s = Some gs" using assms(1) i c by (cases "groupSet s") (simp_all add: def)
  let ?n = "numberOfActiveGroups (slot_group E gs)"
  obtain g where g: "arr_get (groups (slot_group E gs)) (int ?n) = Some g"
    using assms(1) i c gs by (cases "arr_get (groups (slot_group E gs)) (int ?n)") (simp_all add: def Let_def)
  let ?A = "add_events E (threads (slot_group E gs)) (case getenv E ''LIKWID_FORCE'' of None \<Rightarrow> 0 | Some f \<Rightarrow> atoi f) (bsplit CHR '','' str)
       \<lparr>ad_numberOfEvents = 0, ad_regTypeMask = 0, ad_subtokens_freed = False\<rparr> (machine (pm s))"
  obtain r m where r: "?A = Some (r, m)" using assms(1) i c gs g by (cases ?A) (auto simp: def Let_def)
  obtain es st where es: "r = Ret (es, st)" using assms(1) i c gs g r by (cases r) (auto simp: def Let_def)
  have ok: "0 < ad_numberOfEvents st \<and> ad_regTypeMask st \<noteq> 0"
    using assms i c gs g r es by (auto simp: def Let_def split: if_splits)
  have v: "v = int ?n" "groupSet s' = Some ((slot_group E gs)\<lparr>groups := (groups (slot_group E gs))[?n := g\<lparr>gs_events := es,
       gs_numberOfEvents := ad_numberOfEvents st, gs_regTypeMask := ad_regTypeMask st, gs_state := STATE_NONE\<rparr>],
       numberOfActiveGroups := ?n + 1\<rparr>)"
    using assms(1) i c gs g r es ok by (auto simp: def Let_def split: if_splits)
  show thesis by (rule that [of gs g es st m]) (use gs g r es ok v in simp_all)
qed

text \<open>
  A descriptor without a counter is skipped but keeps its place in the event array, while
  it is not counted: when the first descriptor has no counter and the group is accepted, starting it
  dereferences the counter array that this entry never got.
\<close>

theorem malformed_descriptor_undefined:
  fixes E :: "('m, 'c) perfmon_env"
  assumes "perfmon_addEventSet E (Some str) s = Some (Ret v, s')" "0 \<le> v"
    and "bsplit CHR '','' str = token # tokens" "length (bsplit CHR '':'' token) < 2"
  shows "\<exists>gs. groupSet s' = Some gs \<and> nat v < length (groups gs) \<and> 
    (\<forall>(H :: 'm hpm_ops) T ts t a. perfmon_startCountersThread_k10 H T ts t (groups gs ! nat v) a = None)"
proof -
  obtain gs g es st m where r: "groupSet s = Some gs" "arr_get (groups (slot_group E gs)) v = Some g"
    "add_events E (threads (slot_group E gs)) (case getenv E ''LIKWID_FORCE'' of None \<Rightarrow> 0 | Some f \<Rightarrow> atoi f) (bsplit CHR '','' str)
       \<lparr>ad_numberOfEvents = 0, ad_regTypeMask = 0, ad_subtokens_freed = False\<rparr> (machine (pm s)) = Some (Ret (es, st), m)"
    "0 < ad_numberOfEvents st"
    "groupSet s' = Some ((slot_group E gs)\<lparr>groups := (groups (slot_group E gs))[nat v := g\<lparr>gs_events := es,
       gs_numberOfEvents := ad_numberOfEvents st, gs_regTypeMask := ad_regTypeMask st, gs_state := STATE_NONE\<rparr>],
       numberOfActiveGroups := nat v + 1\<rparr>)"
    by (rule addEventSet_accepted [OF assms(1,2)])
  obtain e es' where es: "es = e # es'" "es_threadCounter e = None"
    using add_events_skipped [OF r(3) [unfolded assms(3)] assms(4)] by blast
  obtain k where k: "ad_numberOfEvents st = Suc k" using r(4) by (cases "ad_numberOfEvents st") auto
  have len: "nat v < length (groups (slot_group E gs))" using r(2) by (auto simp: arr_get_def split: if_splits)
  have "perfmon_startCountersThread_k10 H T ts t (g\<lparr>gs_events := es, gs_numberOfEvents := ad_numberOfEvents st,
      gs_regTypeMask := ad_regTypeMask st, gs_state := STATE_NONE\<rparr>) a = None" for H :: "'m hpm_ops" and T ts t a
    using es k by (cases "thread_cpu ts t")
      (simp_all add: perfmon_startCountersThread_k10_def each_group_event_def k10_start_event_def counter_get_def)
  then show ?thesis using r(5) len by simp
qed

theorem malformed_descriptor_undefined_witness:
  "\<exists>s gs. perfmon_addEventSet amd_env (Some ''X,INSTRUCTIONS_RETIRED:PMC0'') amd_session = Some (Ret 2, s) \<and> groupSet s = Some gs \<and>
     (\<forall>a. perfmon_startCountersThread_k10 amd_hpm amd_tables amd_threads 0 (groups gs ! 2) a = None)"
proof -
  obtain s where s: "perfmon_addEventSet amd_env (Some ''X,INSTRUCTIONS_RETIRED:PMC0'') amd_session = Some (Ret 2, s)"
    using amd_addEventSet by blast
  have "bsplit CHR '','' ''X,INSTRUCTIONS_RETIRED:PMC0'' = ''X'' # [''INSTRUCTIONS_RETIRED:PMC0'']" by simp
  from malformed_descriptor_undefined [OF s _ this] s show ?thesis by auto
qed

end
