(* ===== verification/Perfmon_Reach.thy ===== *)
theory Perfmon_Reach
  imports Perfmon_Groups
begin

text \<open>
  Whole sessions as a transition system: calls of the module, adding groups, and the hardware, which may
  change the registers between any two calls. Every state that can be reached is a well-formed
  session, in which the calls are defined exactly for the ids that are not negative and, where they need one, an
  active group.
\<close>

section \<open>Steps of a session\<close>

datatype step = Call call | AddGroup string | Hardware

text \<open>
  The hardware may replace the contents of the registers; which registers are accessible does not
  change. Groups are added with well-formed descriptors for K10 counters.
\<close>

inductive session_step ::
  "('k daemons hpm, 'c) perfmon_env \<Rightarrow> ('k daemons hpm, 'c) perfmon \<Rightarrow> step \<Rightarrow> ('k daemons hpm, 'c) perfmon \<Rightarrow> bool"
  for E :: "('k daemons hpm, 'c) perfmon_env" where
  call: "perfmon_call E c s = Some (r, s') \<Longrightarrow> session_step E s (Call c) s'"
| add: "\<lbrakk>perfmon_addEventSet E (Some str) s = Some (Ret v, s'); stack_chk (machine (pm s)); CHR ''-'' \<notin> set str; CHR ''.'' \<notin> set str;
    \<forall>token\<in>set (bsplit CHR '','' str). k10_descriptor token\<rbrakk> \<Longrightarrow> session_step E s (AddGroup str) s'"
| hardware: "\<lbrakk>stack_inv m; stack_acc m = stack_acc (machine (pm s))\<rbrakk> \<Longrightarrow>
    session_step E s Hardware (s\<lparr>pm := (pm s)\<lparr>machine := m\<rparr>\<rparr>)"

inductive_cases call_stepE: "session_step E s (Call c) s'"
inductive_cases add_stepE: "session_step E s (AddGroup str) s'"
inductive_cases hardware_stepE: "session_step E s Hardware s'"

inductive reachable ::
  "('k daemons hpm, 'c) perfmon_env \<Rightarrow> ('k daemons hpm, 'c) perfmon \<Rightarrow> step list \<Rightarrow> ('k daemons hpm, 'c) perfmon \<Rightarrow> bool"
  for E :: "('k daemons hpm, 'c) perfmon_env" and s0 :: "('k daemons hpm, 'c) perfmon" where
  start: "reachable E s0 [] s0"
| step: "\<lbrakk>reachable E s0 steps s; session_step E s x s'\<rbrakk> \<Longrightarrow> reachable E s0 (steps @ [x]) s'"

section \<open>The life cycle along the steps\<close>

text \<open>No call changes the number of groups.\<close>

lemma each_thread_keeps:
  assumes "\<And>t s r s'. \<lbrakk>body t s = Some (r, s'); P s\<rbrakk> \<Longrightarrow> P s'"
  shows "\<lbrakk>each_thread body ts s = Some (x, s'); P s\<rbrakk> \<Longrightarrow> P s'"
proof (induction ts arbitrary: s)
  case (Cons t ts)
  then show ?case using assms by (auto simp: bind_Some_iff split: if_splits)
qed simp

lemma life_basic_length:
  "life_setup g l = Some (r, l') \<Longrightarrow> length (lf_states l') = length (lf_states l)"
  "life_start l = Some (r, l') \<Longrightarrow> length (lf_states l') = length (lf_states l)"
  "life_stop l = Some (r, l') \<Longrightarrow> length (lf_states l') = length (lf_states l)"
  "life_read l = Some (r, l') \<Longrightarrow> length (lf_states l') = length (lf_states l)"
  by (auto simp: life_setup_def life_start_def life_stop_def life_read_def split: if_splits option.splits)

lemma life_switch_thread_length:
  "life_switch_thread g l = Some (r, l') \<Longrightarrow> length (lf_states l') = length (lf_states l)"
  by (auto simp: life_switch_thread_def bind_Some_iff split: if_splits dest!: life_basic_length)

lemma life_call_length: "life_call n c l = Some (r, l') \<Longrightarrow> length (lf_states l') = length (lf_states l)"
proof (cases c)
  case (Switch g)
  assume "life_call n c l = Some (r, l')"
  then obtain x where "each_thread (\<lambda>t. life_switch_thread g) [0..<n] l = Some (x, l')"
    using Switch by (auto simp: life_switch_def bind_Some_iff)
  then show ?thesis
    by (rule each_thread_keeps [where P = "\<lambda>l'. length (lf_states l') = length (lf_states l)", rotated])
      (auto dest: life_switch_thread_length)
qed (auto split: if_splits dest: life_basic_length)

text \<open>Calls that have no defined result: negative ids, and reading or switching without an active group.\<close>

fun call_undefined :: "int \<Rightarrow> call \<Rightarrow> bool" where
  "call_undefined active (Setup g) = (g < 0)"
| "call_undefined active Read = (active < 0)"
| "call_undefined active (Switch g) = (active < 0 \<or> g < 0)"
| "call_undefined active c = False"

lemma life_state_None: "life_state l = None \<longleftrightarrow> lf_active l < 0 \<or> int (length (lf_states l)) \<le> lf_active l"
  by (simp add: life_state_def arr_get_None)

lemma life_switch_thread_defined:
  assumes "life_state l \<noteq> None" "0 \<le> g"
  shows "\<exists>r l'. life_switch_thread g l = Some (r, l') \<and> life_state l' \<noteq> None"
  using assms
  by (auto simp: life_switch_thread_def life_stop_def life_setup_def life_start_def life_state_def arr_get_def split: if_splits)

lemma life_switch_threads_defined:
  "\<lbrakk>life_state l \<noteq> None; 0 \<le> g\<rbrakk> \<Longrightarrow> each_thread (\<lambda>t. life_switch_thread g) js l \<noteq> None"
proof (induction js arbitrary: l)
  case (Cons t js)
  obtain r l' where "life_switch_thread g l = Some (r, l')" "life_state l' \<noteq> None"
    using life_switch_thread_defined [OF Cons.prems] by blast
  then show ?case using Cons.IH [OF _ Cons.prems(2)] by simp
qed simp

lemma life_switch_None:
  assumes "0 < n"
  shows "life_switch n g l = None \<longleftrightarrow> life_state l = None \<or> g < 0"
proof -
  have up: "[0..<n] = 0 # [1..<n]" using assms by (simp add: upt_conv_Cons)
  have "life_switch_thread g l = None" if "life_state l = None \<or> g < 0"
    using that by (cases "life_state l") (auto simp: life_switch_thread_def life_setup_def life_stop_def bind_None_iff)
  then have "life_switch n g l = None" if "life_state l = None \<or> g < 0"
    using that by (simp add: life_switch_def up)
  moreover have "life_switch n g l \<noteq> None" if "\<not> (life_state l = None \<or> g < 0)"
    using life_switch_threads_defined [of l g "[0..<n]"] that by (auto simp: life_switch_def bind_None_iff)
  ultimately show ?thesis by blast
qed

lemma life_call_None:
  assumes "0 < n" "lf_active l = - 1 \<or> 0 \<le> lf_active l \<and> lf_active l < int (length (lf_states l))"
  shows "life_call n c l = None \<longleftrightarrow> call_undefined (lf_active l) c"
proof -
  have st: "life_state l = None \<longleftrightarrow> lf_active l < 0" using assms(2) by (auto simp: life_state_None)
  show ?thesis
  proof (cases c)
    case (Switch g)
    then show ?thesis using life_switch_None [OF assms(1)] st by simp
  qed (use st in \<open>auto simp: life_setup_def life_start_def life_stop_def life_read_def split: option.splits\<close>)
qed

context k10_group_stack
begin

abbreviation session :: "PerfmonThread list \<Rightarrow> life \<Rightarrow> ('k daemons hpm, 'c) perfmon \<Rightarrow> bool" where
  "session ts l s \<equiv> living (k10_ready stack_inv stack_acc) k10_ok ts l s"

lemma hardware_session:
  assumes "session ts l s" "stack_inv m" "stack_acc m = stack_acc (machine (pm s))"
  shows "session ts l (s\<lparr>pm := (pm s)\<lparr>machine := m\<rparr>\<rparr>)"
proof -
  have "k10_ready stack_inv stack_acc ts ((pm s)\<lparr>machine := m\<rparr>)" if "k10_ready stack_inv stack_acc ts (pm s)"
    using k10_ready_step [OF that, of "(pm s)\<lparr>machine := m\<rparr>"] assms(2,3) by simp
  then show ?thesis using assms(1) by (auto simp: living_def perfmon_life_def)
qed

lemma step_session:
  assumes "session_step E s x s'" "session ts l s"
  shows "\<exists>l'. session ts l' s' \<and>
    (case x of
       Call c \<Rightarrow> \<exists>r. life_call (length ts) c l = Some (r, l')
     | AddGroup str \<Rightarrow> l' = l \<or> l' = l\<lparr>lf_states := lf_states l @ [STATE_NONE]\<rparr>
     | Hardware \<Rightarrow> l' = l)"
  using assms(1)
proof cases
  case (call c r)
  have "refines (k10_ready stack_inv stack_acc) k10_ok ts (perfmon_call E c s) (life_call (length ts) c l)"
    using st.cm.call_refines [OF assms(2)] .
  then show ?thesis using call by (auto simp: refines_def split: option.splits)
next
  case (add str v)
  from session_add [OF assms(2) add(3-6,2)] add(1) show ?thesis by auto
next
  case (hardware m)
  then show ?thesis using hardware_session [OF assms(2)] by auto
qed

lemma reachable_session:
  assumes "reachable E s0 steps s" "session ts l0 s0"
  shows "\<exists>l. session ts l s \<and> length (lf_states l0) \<le> length (lf_states l)"
  using assms(1)
proof (induction rule: reachable.induct)
  case start
  then show ?case using assms(2) by blast
next
  case (step steps s x s')
  then obtain l where l: "session ts l s" "length (lf_states l0) \<le> length (lf_states l)" by blast
  obtain l' where l': "session ts l' s'" "case x of
       Call c \<Rightarrow> \<exists>r. life_call (length ts) c l = Some (r, l')
     | AddGroup str \<Rightarrow> l' = l \<or> l' = l\<lparr>lf_states := lf_states l @ [STATE_NONE]\<rparr>
     | Hardware \<Rightarrow> l' = l"
    using step_session [OF step(2) l(1)] by blast
  then have "length (lf_states l) \<le> length (lf_states l')" by (cases x) (auto dest: life_call_length)
  then show ?case using l'(1) l(2) by (intro exI [of _ l']) simp
qed

lemma session_call:
  assumes "session ts l s"
  shows "perfmon_call E c s = None \<longleftrightarrow> life_call (length ts) c l = None"
    "life_call (length ts) c l = Some (r, l') \<Longrightarrow> \<exists>s'. perfmon_call E c s = Some (r, s') \<and> session ts l' s'"
  using st.cm.call_refines [OF assms, of c] by (auto simp: refines_def split: option.splits)

lemma session_groups:
  assumes "session ts l s"
  obtains gs where "groupSet s = Some gs" "lf_active l = activeGroup gs" "length (lf_states l) = numberOfActiveGroups gs" "0 < length ts"
    "lf_active l = - 1 \<or> 0 \<le> lf_active l \<and> lf_active l < int (length (lf_states l))"
  using assms by (force simp: living_def gs_inv_def perfmon_life_def)

text \<open>A group of the session can be set up, started and stopped.\<close>

lemma session_cycle:
  assumes "session ts l s" "0 \<le> g" "g < int (length (lf_states l))"
  shows "\<exists>s1 s2 s3. perfmon_setupCounters E g s = Some (0, s1) \<and> perfmon_startCounters E s1 = Some (0, s2) \<and>
    perfmon_stopCounters E s2 = Some (0, s3)"
proof -
  obtain s1 l1 where s1: "perfmon_setupCounters E g s = Some (0, s1)" "session ts l1 s1" "life_state l1 = Some STATE_SETUP"
    using session_call(2) [OF assms(1), of "Setup g"] assms(2,3) by (fastforce simp: life_setup_def life_state_def arr_get_def)
  obtain s2 l2 where s2: "perfmon_startCounters E s1 = Some (0, s2)" "session ts l2 s2" "life_state l2 = Some STATE_START"
    using session_call(2) [OF s1(2), of Start] s1(3) by (fastforce simp: life_start_def life_state_def arr_get_def split: if_splits)
  obtain s3 where "perfmon_stopCounters E s2 = Some (0, s3)"
    using session_call(2) [OF s2(2), of Stop] s2(3) by (auto simp: life_stop_def)
  then show ?thesis using s1(1) s2(1) by blast
qed

lemma reachable_control:
  assumes "reachable E s0 steps s" "session ts l0 s0" "groupSet s0 = Some gs0"
  shows "\<exists>gs. groupSet s = Some gs \<and> numberOfActiveGroups gs0 \<le> numberOfActiveGroups gs \<and>
    (\<forall>c. perfmon_call E c s = None \<longleftrightarrow> call_undefined (activeGroup gs) c) \<and>
    (\<forall>g. 0 \<le> g \<and> g < int (numberOfActiveGroups gs) \<longrightarrow>
      (\<exists>s1 s2 s3. perfmon_setupCounters E g s = Some (0, s1) \<and> perfmon_startCounters E s1 = Some (0, s2) \<and>
         perfmon_stopCounters E s2 = Some (0, s3)))"
proof -
  obtain l where l: "session ts l s" "length (lf_states l0) \<le> length (lf_states l)" using reachable_session [OF assms(1,2)] by blast
  obtain gs where gs: "groupSet s = Some gs" "lf_active l = activeGroup gs" "length (lf_states l) = numberOfActiveGroups gs" "0 < length ts"
      "lf_active l = - 1 \<or> 0 \<le> lf_active l \<and> lf_active l < int (length (lf_states l))"
    using session_groups [OF l(1)] by blast
  have "length (lf_states l0) = numberOfActiveGroups gs0" using session_groups [OF assms(2)] assms(3) by force
  moreover have "perfmon_call E c s = None \<longleftrightarrow> call_undefined (activeGroup gs) c" for c
    using session_call(1) [OF l(1)] life_call_None [OF gs(4,5)] gs(2) by simp
  ultimately show ?thesis using gs(1,3) l(2) session_cycle [OF l(1)] by auto
qed

end

section \<open>Reachable sessions\<close>

text \<open>
  Property C5. From a well-formed session, after any interleaving of calls that are defined, of adding groups with
  well-formed descriptors and of register changes by the hardware: no group is lost; a call is defined, except setting up
  or switching to a negative id, and reading or switching while no group is active; and every group of the reached
  session, an added one as well, can be set up, started and stopped with result 0.
\<close>

theorem reachable_sessions_controllable:
  assumes "k10_group_stack K mem n eax err pciInit E"
    and "living (k10_ready stack_inv stack_acc) k10_ok ts l0 s0" "groupSet s0 = Some gs0" "reachable E s0 steps s"
  shows "\<exists>gs. groupSet s = Some gs \<and> numberOfActiveGroups gs0 \<le> numberOfActiveGroups gs \<and>
    (\<forall>c. perfmon_call E c s = None \<longleftrightarrow> call_undefined (activeGroup gs) c) \<and>
    (\<forall>g. 0 \<le> g \<and> g < int (numberOfActiveGroups gs) \<longrightarrow>
      (\<exists>s1 s2 s3. perfmon_setupCounters E g s = Some (0, s1) \<and> perfmon_startCounters E s1 = Some (0, s2) \<and>
         perfmon_stopCounters E s2 = Some (0, s3)))"
  using assms(4,2,3) by (rule k10_group_stack.reachable_control [OF assms(1)])

lemma amd_reachable:
  "\<exists>s. reachable amd_env amd_session [Call (Setup 1), Hardware, Call Start] s"
proof -
  obtain s1 where s1: "perfmon_call amd_env (Setup 1) amd_session = Some (0, s1)"
      "living (k10_ready stack_inv stack_acc) k10_ok amd_threads \<lparr>lf_active = 1, lf_states = [STATE_NONE, STATE_SETUP]\<rparr> s1"
    using amdg.session_call(2) [OF amd_session_living, of "Setup 1" 0] by (auto simp: life_setup_def)
  have inv: "stack_inv (machine (pm s1))" using s1(2) by (auto simp: living_def k10_ready_def)
  obtain s2 where s2: "perfmon_call amd_env Start s1 = Some (0, s2)"
    using amdg.session_call(2) [OF s1(2), of Start 0] by (auto simp: life_start_def life_state_def arr_get_def)
  have h: "session_step amd_env s1 Hardware s1" using session_step.hardware [OF inv, of s1 amd_env] by simp
  have "reachable amd_env amd_session [Call (Setup 1)] s1"
    using reachable.step [OF reachable.start session_step.call [OF s1(1)]] by simp
  from reachable.step [OF this h] have "reachable amd_env amd_session [Call (Setup 1), Hardware] s1" by simp
  from reachable.step [OF this session_step.call [OF s2]] show ?thesis by auto
qed

theorem reachable_sessions_controllable_witness:
  "\<exists>s. reachable amd_env amd_session [Call (Setup 1), Hardware, Call Start] s \<and> perfmon_call amd_env Stop s \<noteq> None \<and>
     perfmon_call amd_env (Setup (- 1)) s = None \<and>
     (\<exists>s1 s2. perfmon_setupCounters amd_env 0 s = Some (0, s1) \<and> perfmon_startCounters amd_env s1 = Some (0, s2))"
proof -
  let ?gs = "\<lparr>numberOfActiveGroups = 2, activeGroup = - 1, groups = [amd_group, amd_group], threads = amd_threads\<rparr>"
  have h: "groupSet amd_session = Some ?gs" by (simp add: amd_session_def)
  obtain s where s: "reachable amd_env amd_session [Call (Setup 1), Hardware, Call Start] s" using amd_reachable by blast
  from reachable_sessions_controllable [OF amdg.k10_group_stack_axioms amd_session_living h s]
  obtain gs where gs: "groupSet s = Some gs \<and> numberOfActiveGroups ?gs \<le> numberOfActiveGroups gs \<and>
      (\<forall>c. perfmon_call amd_env c s = None \<longleftrightarrow> call_undefined (activeGroup gs) c) \<and>
      (\<forall>g. 0 \<le> g \<and> g < int (numberOfActiveGroups gs) \<longrightarrow> (\<exists>s1 s2 s3. perfmon_setupCounters amd_env g s = Some (0, s1) \<and>
         perfmon_startCounters amd_env s1 = Some (0, s2) \<and> perfmon_stopCounters amd_env s2 = Some (0, s3)))" ..
  have c: "perfmon_call amd_env c s = None \<longleftrightarrow> call_undefined (activeGroup gs) c" for c using gs by blast
  have n: "0 < numberOfActiveGroups gs" using gs by simp
  obtain s1 s2 where r: "perfmon_setupCounters amd_env 0 s = Some (0, s1)" "perfmon_startCounters amd_env s1 = Some (0, s2)"
    using gs n by (metis of_nat_0_less_iff order.refl)
  have "perfmon_call amd_env Stop s \<noteq> None" "perfmon_call amd_env (Setup (- 1)) s = None" unfolding c by simp_all
  then show ?thesis using s r by blast
qed

end
