(* ===== verification/CpuFeatures.thy ===== *)
theory CpuFeatures
  imports Perfmon_Stack
begin

text \<open>
  The processor features, \<open>src/src/cpuFeatures.c\<close>: querying features and switching prefetchers through
  the registers \<open>MSR_IA32_MISC_ENABLE\<close> and \<open>MSR_PREFETCH_ENABLE\<close>, with the cached feature masks. The access layer is
  the parameter \<open>'m hpm_ops\<close> of the performance monitoring module; \<open>model\<close> is \<open>cpuid_info.model\<close>. Messages are left
  out; what \<open>cpuFeatures_print\<close> prints is its result.
\<close>

section \<open>Features and state\<close>

datatype CpuFeature =
    FEAT_HW_PREFETCHER | FEAT_CL_PREFETCHER | FEAT_DCU_PREFETCHER | FEAT_IP_PREFETCHER | FEAT_FAST_STRINGS
  | FEAT_THERMAL_CONTROL | FEAT_PERF_MON | FEAT_FERR_MULTIPLEX | FEAT_BRANCH_TRACE_STORAGE | FEAT_XTPR_MESSAGE
  | FEAT_PEBS | FEAT_SPEEDSTEP | FEAT_MONITOR | FEAT_SPEEDSTEP_LOCK | FEAT_CPUID_MAX_VAL | FEAT_XD_BIT
  | FEAT_DYN_ACCEL | FEAT_TURBO_MODE | FEAT_TM2

fun feature_number :: "CpuFeature \<Rightarrow> nat" where
  "feature_number FEAT_HW_PREFETCHER = 0"
| "feature_number FEAT_CL_PREFETCHER = 1"
| "feature_number FEAT_DCU_PREFETCHER = 2"
| "feature_number FEAT_IP_PREFETCHER = 3"
| "feature_number FEAT_FAST_STRINGS = 4"
| "feature_number FEAT_THERMAL_CONTROL = 5"
| "feature_number FEAT_PERF_MON = 6"
| "feature_number FEAT_FERR_MULTIPLEX = 7"
| "feature_number FEAT_BRANCH_TRACE_STORAGE = 8"
| "feature_number FEAT_XTPR_MESSAGE = 9"
| "feature_number FEAT_PEBS = 10"
| "feature_number FEAT_SPEEDSTEP = 11"
| "feature_number FEAT_MONITOR = 12"
| "feature_number FEAT_SPEEDSTEP_LOCK = 13"
| "feature_number FEAT_CPUID_MAX_VAL = 14"
| "feature_number FEAT_XD_BIT = 15"
| "feature_number FEAT_DYN_ACCEL = 16"
| "feature_number FEAT_TURBO_MODE = 17"
| "feature_number FEAT_TM2 = 18"

definition all_features :: "CpuFeature list" where
  "all_features = [FEAT_HW_PREFETCHER, FEAT_CL_PREFETCHER, FEAT_DCU_PREFETCHER, FEAT_IP_PREFETCHER, FEAT_FAST_STRINGS,
     FEAT_THERMAL_CONTROL, FEAT_PERF_MON, FEAT_FERR_MULTIPLEX, FEAT_BRANCH_TRACE_STORAGE, FEAT_XTPR_MESSAGE,
     FEAT_PEBS, FEAT_SPEEDSTEP, FEAT_MONITOR, FEAT_SPEEDSTEP_LOCK, FEAT_CPUID_MAX_VAL, FEAT_XD_BIT,
     FEAT_DYN_ACCEL, FEAT_TURBO_MODE, FEAT_TM2]"

record 'm cpu_features =
  cpuFeatureMask :: "u64 list"
  features_initialized :: bool
  cf_machine :: 'm

abbreviation (input) MSR_IA32_MISC_ENABLE :: u32 where "MSR_IA32_MISC_ENABLE \<equiv> 0x1A0"
abbreviation (input) MSR_PREFETCH_ENABLE :: u32 where "MSR_PREFETCH_ENABLE \<equiv> 0x1A4"

section \<open>Reading the features\<close>

definition TEST_FLAG :: "u64 \<Rightarrow> CpuFeature \<Rightarrow> nat \<Rightarrow> u64 \<Rightarrow> u64" where
  "TEST_FLAG flags feature flag m =
     (if flags AND push_bit flag 1 \<noteq> 0 then m OR push_bit (feature_number feature) 1
      else m AND NOT (push_bit (feature_number feature) 1))"

definition TEST_FLAG_INV :: "u64 \<Rightarrow> CpuFeature \<Rightarrow> nat \<Rightarrow> u64 \<Rightarrow> u64" where
  "TEST_FLAG_INV flags feature flag m =
     (if flags AND push_bit flag 1 \<noteq> 0 then m AND NOT (push_bit (feature_number feature) 1)
      else m OR push_bit (feature_number feature) 1)"

definition core2_model :: "u32 \<Rightarrow> bool" where
  "core2_model model \<longleftrightarrow> model = CORE2_45 \<or> model = CORE2_65"

definition prefetch_model :: "u32 \<Rightarrow> bool" where
  "prefetch_model model \<longleftrightarrow> model \<in> {NEHALEM, NEHALEM_BLOOMFIELD, NEHALEM_LYNNFIELD, NEHALEM_WESTMERE, NEHALEM_WESTMERE_M,
     NEHALEM_EX, WESTMERE_EX, SANDYBRIDGE, SANDYBRIDGE_EP, IVYBRIDGE, IVYBRIDGE_EP, HASWELL, HASWELL_M1, HASWELL_M2,
     HASWELL_EP, BROADWELL, BROADWELL_D, BROADWELL_E, SKYLAKE1, SKYLAKE2}"

definition turbo_model :: "u32 \<Rightarrow> bool" where
  "turbo_model model \<longleftrightarrow> prefetch_model model \<or> model \<in> {ATOM_SILVERMONT_E, ATOM_SILVERMONT_C, ATOM_SILVERMONT_Z1,
     ATOM_SILVERMONT_Z2, ATOM_SILVERMONT_F, ATOM_SILVERMONT_AIR}"

text \<open>The part of \<open>cpuFeatures_update\<close> for each of the two registers.\<close>

definition misc_features :: "u32 \<Rightarrow> u64 \<Rightarrow> u64 \<Rightarrow> u64" where
  "misc_features model flags m0 =
     (let m1 = fold (\<lambda>(f, b) m. TEST_FLAG flags f b m) [(FEAT_FAST_STRINGS, 0), (FEAT_THERMAL_CONTROL, 3), (FEAT_PERF_MON, 7)] m0;
          m2 = fold (\<lambda>(f, b) m. TEST_FLAG_INV flags f b m) [(FEAT_BRANCH_TRACE_STORAGE, 11), (FEAT_PEBS, 12)] m1;
          m3 = fold (\<lambda>(f, b) m. TEST_FLAG flags f b m) [(FEAT_SPEEDSTEP, 16), (FEAT_MONITOR, 18), (FEAT_CPUID_MAX_VAL, 22)] m2;
          m4 = fold (\<lambda>(f, b) m. TEST_FLAG_INV flags f b m) [(FEAT_XTPR_MESSAGE, 23), (FEAT_XD_BIT, 34)] m3
      in if core2_model model then
           (let m5 = TEST_FLAG_INV flags FEAT_HW_PREFETCHER 9 m4;
                m6 = TEST_FLAG flags FEAT_FERR_MULTIPLEX 10 m5;
                m7 = TEST_FLAG flags FEAT_TM2 13 m6;
                m8 = TEST_FLAG_INV flags FEAT_CL_PREFETCHER 19 m7;
                m9 = TEST_FLAG flags FEAT_SPEEDSTEP_LOCK 20 m8
            in fold (\<lambda>(f, b) m. TEST_FLAG_INV flags f b m) [(FEAT_DCU_PREFETCHER, 37), (FEAT_DYN_ACCEL, 38), (FEAT_IP_PREFETCHER, 39)] m9)
         else if turbo_model model then TEST_FLAG_INV flags FEAT_TURBO_MODE 38 m4
         else m4)"

definition prefetch_features :: "u64 \<Rightarrow> u64 \<Rightarrow> u64" where
  "prefetch_features flags m =
     TEST_FLAG_INV flags FEAT_HW_PREFETCHER 0 (TEST_FLAG_INV flags FEAT_CL_PREFETCHER 1
       (TEST_FLAG_INV flags FEAT_DCU_PREFETCHER 2 (TEST_FLAG_INV flags FEAT_IP_PREFETCHER 3 m)))"

text \<open>A failed read is reported and its value, 0, used.\<close>

definition cpuFeatures_update :: "'m hpm_ops \<Rightarrow> u32 \<Rightarrow> int \<Rightarrow> 'm cpu_features \<Rightarrow> 'm cpu_features option" where
  "cpuFeatures_update H model cpu s = do {
     (_, flags, m1) \<leftarrow> hp_read H cpu MSR_DEV MSR_IA32_MISC_ENABLE (cf_machine s);
     v \<leftarrow> arr_get (cpuFeatureMask s) cpu;
     let v1 = misc_features model flags v;
     (v2, m2) \<leftarrow>
       (if prefetch_model model then do {
          (_, flags', m2) \<leftarrow> hp_read H cpu MSR_DEV MSR_PREFETCH_ENABLE m1;
          Some (prefetch_features flags' v1, m2) }
        else Some (v1, m1));
     ms \<leftarrow> arr_set (cpuFeatureMask s) cpu v2;
     Some (s\<lparr>cpuFeatureMask := ms, cf_machine := m2\<rparr>) }"

fun init_features :: "'m hpm_ops \<Rightarrow> u32 \<Rightarrow> nat list \<Rightarrow> 'm cpu_features \<Rightarrow> 'm cpu_features option" where
  "init_features H model [] s = Some s"
| "init_features H model (apicId # ids) s = do {
     (_, m) \<leftarrow> hp_addThread H (int apicId) (cf_machine s);
     s' \<leftarrow> cpuFeatures_update H model (int apicId) (s\<lparr>cf_machine := m\<rparr>);
     init_features H model ids s' }"

text \<open>\<open>registered\<close> is \<open>HPMinitialized\<close>, \<open>apicIds\<close> the ids of the thread pool.\<close>

definition cpuFeatures_init ::
  "'m hpm_ops \<Rightarrow> ('m \<Rightarrow> int) \<Rightarrow> u32 \<Rightarrow> nat list \<Rightarrow> 'm cpu_features \<Rightarrow> 'm cpu_features option" where
  "cpuFeatures_init H registered model apicIds s =
     (if features_initialized s then Some s
      else do {
        let s0 = (if registered (cf_machine s) = 0 then s\<lparr>cf_machine := snd (hp_init H (cf_machine s))\<rparr> else s);
        s1 \<leftarrow> init_features H model apicIds s0;
        Some (s1\<lparr>features_initialized := True\<rparr>) })"

definition feature_set :: "u64 \<Rightarrow> CpuFeature \<Rightarrow> bool" where
  "feature_set m type \<longleftrightarrow> m AND push_bit (feature_number type) 1 \<noteq> 0"

definition cpuFeatures_print ::
  "'m hpm_ops \<Rightarrow> u32 \<Rightarrow> int \<Rightarrow> 'm cpu_features \<Rightarrow> ((CpuFeature \<times> bool) list \<times> 'm cpu_features) option" where
  "cpuFeatures_print H model cpu s =
     (if \<not> features_initialized s then Some ([], s)
      else do {
        s' \<leftarrow> cpuFeatures_update H model cpu s;
        m \<leftarrow> arr_get (cpuFeatureMask s') cpu;
        Some (map (\<lambda>f. (f, feature_set m f))
          (filter (\<lambda>f. core2_model model \<or> f \<notin> {FEAT_FERR_MULTIPLEX, FEAT_DYN_ACCEL, FEAT_SPEEDSTEP_LOCK, FEAT_TM2}) all_features), s') })"

section \<open>Switching prefetchers\<close>

text \<open>The bit that disables a prefetcher, in the register of the model.\<close>

definition feature_reg :: "u32 \<Rightarrow> u32" where
  "feature_reg model = (if prefetch_model model then MSR_PREFETCH_ENABLE else MSR_IA32_MISC_ENABLE)"

definition feature_offset :: "u32 \<Rightarrow> CpuFeature \<Rightarrow> nat option" where
  "feature_offset model type =
     (let newOffsets = prefetch_model model in
      case type of
        FEAT_HW_PREFETCHER \<Rightarrow> Some (if newOffsets then 0 else 9)
      | FEAT_CL_PREFETCHER \<Rightarrow> Some (if newOffsets then 1 else 19)
      | FEAT_DCU_PREFETCHER \<Rightarrow> Some (if newOffsets then 2 else 37)
      | FEAT_IP_PREFETCHER \<Rightarrow> Some (if newOffsets then 3 else 39)
      | _ \<Rightarrow> None)"

definition cpuFeatures_enable ::
  "'m hpm_ops \<Rightarrow> u32 \<Rightarrow> int \<Rightarrow> CpuFeature \<Rightarrow> 'm cpu_features \<Rightarrow> (int \<times> 'm cpu_features) option" where
  "cpuFeatures_enable H model cpu type s = do {
     m \<leftarrow> arr_get (cpuFeatureMask s) cpu;
     if feature_set m type then Some (0, s)
     else do {
       (ret, flags, m1) \<leftarrow> hp_read H cpu MSR_DEV (feature_reg model) (cf_machine s);
       if ret \<noteq> 0 then Some (ret, s\<lparr>cf_machine := m1\<rparr>)
       else (case feature_offset model type of
               None \<Rightarrow> Some (- EINVAL, s\<lparr>cf_machine := m1\<rparr>)
             | Some b \<Rightarrow> do {
                 (_, m2) \<leftarrow> hp_write H cpu MSR_DEV (feature_reg model) (flags AND NOT (push_bit b 1)) m1;
                 s' \<leftarrow> cpuFeatures_update H model cpu (s\<lparr>cf_machine := m2\<rparr>);
                 Some (0, s') }) } }"

definition cpuFeatures_disable ::
  "'m hpm_ops \<Rightarrow> u32 \<Rightarrow> int \<Rightarrow> CpuFeature \<Rightarrow> 'm cpu_features \<Rightarrow> (int \<times> 'm cpu_features) option" where
  "cpuFeatures_disable H model cpu type s = do {
     m \<leftarrow> arr_get (cpuFeatureMask s) cpu;
     if \<not> feature_set m type then Some (0, s)
     else do {
       (ret, flags, m1) \<leftarrow> hp_read H cpu MSR_DEV (feature_reg model) (cf_machine s);
       if ret \<noteq> 0 then Some (ret, s\<lparr>cf_machine := m1\<rparr>)
       else (case feature_offset model type of
               None \<Rightarrow> Some (- EINVAL, s\<lparr>cf_machine := m1\<rparr>)
             | Some b \<Rightarrow> do {
                 (ret', m2) \<leftarrow> hp_write H cpu MSR_DEV (feature_reg model) (flags OR push_bit b 1) m1;
                 s' \<leftarrow> cpuFeatures_update H model cpu (s\<lparr>cf_machine := m2\<rparr>);
                 Some (if ret' \<noteq> 0 then - EFAULT else 0, s') }) } }"

text \<open>The features are values of the type, so the range check always succeeds.\<close>

definition cpuFeatures_get :: "int \<Rightarrow> CpuFeature \<Rightarrow> 'm cpu_features \<Rightarrow> int option" where
  "cpuFeatures_get cpu type s = map_option (\<lambda>m. if feature_set m type then 1 else 0) (arr_get (cpuFeatureMask s) cpu)"

section \<open>The feature mask\<close>

lemma feature_set_bit: "feature_set m f \<longleftrightarrow> bit m (feature_number f)"
  by (simp add: feature_set_def bit_iff_and_push_bit_not_eq_0)

lemma feature_number_inj [simp]: "feature_number f = feature_number g \<longleftrightarrow> f = g"
  by (cases f; cases g; simp)

lemma feature_number_less: "feature_number f < 64"
  by (cases f) simp_all

lemma bit_one_shift: "bit (push_bit b 1 :: u64) n \<longleftrightarrow> n = b \<and> n < 64"
  unfolding bit_push_bit_iff bit_1_iff by auto

lemma TEST_FLAG_set:
  "feature_set (TEST_FLAG flags f b m) g \<longleftrightarrow> (if g = f then bit flags b else feature_set m g)"
  "feature_set (TEST_FLAG_INV flags f b m) g \<longleftrightarrow> (if g = f then \<not> bit flags b else feature_set m g)"
proof -
  have eq: "flags AND push_bit b 1 \<noteq> 0 \<longleftrightarrow> bit flags b" by (simp add: bit_iff_and_push_bit_not_eq_0)
  have p: "bit (push_bit (feature_number f) 1 :: u64) (feature_number g) \<longleftrightarrow> g = f"
    using feature_number_less [of f] unfolding bit_one_shift by auto
  show "feature_set (TEST_FLAG flags f b m) g \<longleftrightarrow> (if g = f then bit flags b else feature_set m g)"
    unfolding TEST_FLAG_def eq feature_set_bit using p feature_number_less [of g]
    by (auto simp: bit_or_iff bit_and_iff bit_not_iff)
  show "feature_set (TEST_FLAG_INV flags f b m) g \<longleftrightarrow> (if g = f then \<not> bit flags b else feature_set m g)"
    unfolding TEST_FLAG_INV_def eq feature_set_bit using p feature_number_less [of g]
    by (auto simp: bit_or_iff bit_and_iff bit_not_iff)
qed

text \<open>The mask tells the state of the prefetchers.\<close>

lemma prefetch_features_set:
  assumes "prefetch_model model" "feature_offset model type = Some b"
  shows "feature_set (prefetch_features flags m) type \<longleftrightarrow> \<not> bit flags b"
  using assms by (cases type) (auto simp: feature_offset_def prefetch_features_def TEST_FLAG_set)

lemma misc_features_set:
  assumes "core2_model model" "\<not> prefetch_model model" "feature_offset model type = Some b"
  shows "feature_set (misc_features model flags m) type \<longleftrightarrow> \<not> bit flags b"
  using assms by (cases type) (auto simp: feature_offset_def misc_features_def TEST_FLAG_set Let_def)

lemma core2_not_prefetch: "core2_model model \<Longrightarrow> \<not> prefetch_model model"
  by (auto simp: core2_model_def prefetch_model_def)

section \<open>Switching over a register file\<close>

locale feature_machine = register_access inv acc regs "\<lambda>c r. hp_read H (int c) MSR_DEV r" "\<lambda>c r v. hp_write H (int c) MSR_DEV r v"
  for inv :: "'m \<Rightarrow> bool" and acc :: "'m \<Rightarrow> nat \<Rightarrow> u32 \<Rightarrow> bool" and regs :: "'m \<Rightarrow> nat \<Rightarrow> u32 \<Rightarrow> u64"
    and H :: "'m hpm_ops"

definition feature_acc :: "('m \<Rightarrow> nat \<Rightarrow> u32 \<Rightarrow> bool) \<Rightarrow> 'm \<Rightarrow> nat \<Rightarrow> bool" where
  "feature_acc acc m c \<longleftrightarrow> acc m c MSR_IA32_MISC_ENABLE \<and> acc m c MSR_PREFETCH_ENABLE"

text \<open>The cached mask of processor \<open>c\<close> agrees with its register on the prefetchers.\<close>

definition feature_coherent :: "('m \<Rightarrow> nat \<Rightarrow> u32 \<Rightarrow> u64) \<Rightarrow> u32 \<Rightarrow> nat \<Rightarrow> 'm cpu_features \<Rightarrow> bool" where
  "feature_coherent regs model c s \<longleftrightarrow> c < length (cpuFeatureMask s) \<and>
     (\<forall>type b. feature_offset model type = Some b \<longrightarrow>
        feature_set (cpuFeatureMask s ! c) type = (\<not> bit (regs (cf_machine s) c (feature_reg model)) b))"

context feature_machine
begin

lemma update_coherent:
  assumes "inv (cf_machine s)" "feature_acc acc (cf_machine s) c" "c < length (cpuFeatureMask s)" "core2_model model \<or> prefetch_model model"
  shows "\<exists>s'. cpuFeatures_update H model (int c) s = Some s' \<and> cf_machine s' = cf_machine s \<and> feature_coherent regs model c s'"
proof -
  let ?m = "cf_machine s"
  have rd: "hp_read H (int c) 0 MSR_IA32_MISC_ENABLE ?m = Some (0, regs ?m c MSR_IA32_MISC_ENABLE, ?m)"
      "hp_read H (int c) 0 MSR_PREFETCH_ENABLE ?m = Some (0, regs ?m c MSR_PREFETCH_ENABLE, ?m)"
    using assms(1,2) read_law by (simp_all add: feature_acc_def)
  let ?v1 = "misc_features model (regs ?m c MSR_IA32_MISC_ENABLE) (cpuFeatureMask s ! c)"
  let ?v = "if prefetch_model model then prefetch_features (regs ?m c MSR_PREFETCH_ENABLE) ?v1 else ?v1"
  let ?s = "s\<lparr>cpuFeatureMask := (cpuFeatureMask s)[c := ?v]\<rparr>"
  have "cpuFeatures_update H model (int c) s = Some ?s"
    using rd assms(3) by (simp add: cpuFeatures_update_def arr_get_def arr_set_def)
  moreover have "feature_set ?v type = (\<not> bit (regs ?m c (feature_reg model)) b)" if "feature_offset model type = Some b" for type b
    using that assms(4) prefetch_features_set [OF _ that] misc_features_set [OF _ _ that] by (auto simp: feature_reg_def)
  then have "feature_coherent regs model c ?s" using assms(3) by (simp add: feature_coherent_def)
  ultimately show ?thesis by (intro exI [of _ ?s]) simp
qed

text \<open>Writing the register with one bit changed.\<close>

lemma switch_bit:
  assumes "inv (cf_machine s)" "feature_acc acc (cf_machine s) c" "c < length (cpuFeatureMask s)" "core2_model model \<or> prefetch_model model"
  shows "\<exists>m s'. hp_write H (int c) 0 (feature_reg model) v (cf_machine s) = Some (0, m) \<and>
    cpuFeatures_update H model (int c) (s\<lparr>cf_machine := m\<rparr>) = Some s' \<and> feature_coherent regs model c s' \<and> inv (cf_machine s') \<and>
    acc (cf_machine s') = acc (cf_machine s) \<and>
    (\<forall>c' r. acc (cf_machine s) c' r \<longrightarrow> regs (cf_machine s') c' r = (if c' = c \<and> r = feature_reg model then v else regs (cf_machine s) c' r))"
proof -
  have a: "acc (cf_machine s) c (feature_reg model)" using assms(2) by (simp add: feature_acc_def feature_reg_def)
  obtain m where m: "hp_write H (int c) 0 (feature_reg model) v (cf_machine s) = Some (0, m)" "inv m" "acc m = acc (cf_machine s)"
      "\<forall>c' r. acc (cf_machine s) c' r \<longrightarrow> regs m c' r = (if c' = c \<and> r = feature_reg model then v else regs (cf_machine s) c' r)"
    using write_law [OF assms(1) a, of v] by auto
  obtain s' where "cpuFeatures_update H model (int c) (s\<lparr>cf_machine := m\<rparr>) = Some s'" "cf_machine s' = m" "feature_coherent regs model c s'"
    using update_coherent [of "s\<lparr>cf_machine := m\<rparr>" c model] assms(2-4) m(2,3) by (auto simp: feature_acc_def)
  then show ?thesis using m by blast
qed

lemma switch_prefetcher:
  assumes "inv (cf_machine s)" "feature_acc acc (cf_machine s) c" "core2_model model \<or> prefetch_model model"
    and co: "feature_coherent regs model c s" and off: "feature_offset model type = Some b"
  shows "\<exists>s'. (if on then cpuFeatures_enable H model (int c) type s else cpuFeatures_disable H model (int c) type s) = Some (0, s') \<and>
    cpuFeatures_get (int c) type s' = Some (if on then 1 else 0) \<and> feature_coherent regs model c s' \<and>
    (\<forall>c' r n. acc (cf_machine s) c' r \<longrightarrow> bit (regs (cf_machine s') c' r) n =
       (if c' = c \<and> r = feature_reg model \<and> n = b then \<not> on else bit (regs (cf_machine s) c' r) n))"
proof -
  let ?r = "feature_reg model" and ?R = "regs (cf_machine s) c (feature_reg model)"
  have len: "c < length (cpuFeatureMask s)" and set: "feature_set (cpuFeatureMask s ! c) type = (\<not> bit ?R b)"
    using co off by (auto simp: feature_coherent_def)
  have b: "b < 64" using off by (cases type) (auto simp: feature_offset_def Let_def split: if_splits)
  have a: "acc (cf_machine s) c ?r" using assms(2) by (simp add: feature_acc_def feature_reg_def)
  have rd: "hp_read H (int c) 0 ?r (cf_machine s) = Some (0, ?R, cf_machine s)" using read_law [OF assms(1) a] by simp
  show ?thesis
  proof (cases "bit ?R b = (\<not> on)")
    case True
    then show ?thesis using set len co
      by (intro exI [of _ s]) (auto simp: cpuFeatures_enable_def cpuFeatures_disable_def cpuFeatures_get_def arr_get_def)
  next
    case False
    let ?v = "if on then ?R AND NOT (push_bit b 1) else ?R OR push_bit b 1"
    obtain m s' where s': "hp_write H (int c) 0 ?r ?v (cf_machine s) = Some (0, m)"
        "cpuFeatures_update H model (int c) (s\<lparr>cf_machine := m\<rparr>) = Some s'" "feature_coherent regs model c s'"
        "\<forall>c' r. acc (cf_machine s) c' r \<longrightarrow> regs (cf_machine s') c' r = (if c' = c \<and> r = ?r then ?v else regs (cf_machine s) c' r)"
      using switch_bit [OF assms(1,2) len assms(3), of ?v] by blast
    have v: "bit ?v n = (if n = b then \<not> on else bit ?R n)" for n
      using b by (auto simp: bit_or_iff bit_and_iff bit_not_iff bit_one_shift simp del: push_bit_of_1 dest: bit_imp_le_length)
    have regs': "bit (regs (cf_machine s') c' r) n = (if c' = c \<and> r = ?r \<and> n = b then \<not> on else bit (regs (cf_machine s) c' r) n)"
      if "acc (cf_machine s) c' r" for c' r n using s'(4) that v [of n] by auto
    have get: "cpuFeatures_get (int c) type s' = Some (if on then 1 else 0)"
      using s'(3) off regs' [OF a, of b] by (auto simp: cpuFeatures_get_def feature_coherent_def arr_get_def)
    have "(if on then cpuFeatures_enable H model (int c) type s else cpuFeatures_disable H model (int c) type s) = Some (0, s')"
      using False set len rd off s'(1,2)
      by (cases on) (simp_all add: cpuFeatures_enable_def cpuFeatures_disable_def arr_get_def del: push_bit_of_1)
    then show ?thesis using get s'(3) regs' by blast
  qed
qed

end

section \<open>Switching through the access daemon\<close>

locale feature_stack = msr_kernel K mem numHWThreads eax
  for K :: "'k kernel_ops" and mem :: "'k \<Rightarrow> int \<Rightarrow> u32 \<Rightarrow> u64" and numHWThreads :: nat and eax :: u32 +
  fixes err :: "'k daemons hpm \<Rightarrow> int"
    and pciInit :: "nat \<Rightarrow> 'k daemons hpm \<Rightarrow> (int \<times> 'k daemons hpm) option"

sublocale feature_stack \<subseteq> fs: feature_machine stack_inv stack_acc "stack_regs mem" "stack_ops K numHWThreads eax err pciInit"
  using hp.register_access_axioms by (simp add: feature_machine_def stack_ops_def)

context feature_stack
begin

lemmas session_switch = fs.switch_prefetcher

end

interpretation hsw: feature_stack reg_kernel "\<lambda>k. k" 2 "0x306C3" "\<lambda>s. 0" "\<lambda>cpu s. Some (0, s)"
  by unfold_locales

text \<open>
  Property C31. On a processor whose prefetchers can be switched, enabling and disabling a prefetcher through
  the access daemon succeeds, querying it afterwards tells its new state, the cached mask stays true,
  and of all accessible registers of all processors only the one bit that controls the prefetcher changes.
\<close>

theorem prefetcher_switch:
  assumes "msr_kernel K mem" "stack_inv (cf_machine s)" "feature_acc stack_acc (cf_machine s) c"
    and "core2_model model \<or> prefetch_model model" "feature_coherent (stack_regs mem) model c s" "feature_offset model type = Some b"
    and "H = stack_ops K n eax err pciInit"
  shows "\<exists>s'. (if on then cpuFeatures_enable H model (int c) type s else cpuFeatures_disable H model (int c) type s) = Some (0, s') \<and>
    cpuFeatures_get (int c) type s' = Some (if on then 1 else 0) \<and> feature_coherent (stack_regs mem) model c s' \<and>
    (\<forall>c' r n. stack_acc (cf_machine s) c' r \<longrightarrow> bit (stack_regs mem (cf_machine s') c' r) n =
       (if c' = c \<and> r = feature_reg model \<and> n = b then \<not> on else bit (stack_regs mem (cf_machine s) c' r) n))"
  unfolding assms(7) by (rule feature_stack.session_switch) (use assms in \<open>simp_all add: feature_stack_def\<close>)

definition hsw_features :: "(int \<Rightarrow> u32 \<Rightarrow> u64) daemons hpm cpu_features" where
  "hsw_features = \<lparr>cpuFeatureMask = replicate MAX_NUM_THREADS 0xF, features_initialized = True, cf_machine = stack_ready\<rparr>"

abbreviation hsw_hpm :: "(int \<Rightarrow> u32 \<Rightarrow> u64) daemons hpm hpm_ops" where
  "hsw_hpm \<equiv> stack_ops reg_kernel 2 0x306C3 (\<lambda>s. 0) (\<lambda>cpu s. Some (0, s))"

lemma hsw_coherent: "feature_coherent (stack_regs (\<lambda>k. k)) HASWELL 0 hsw_features"
proof -
  have z: "stack_regs (\<lambda>k. k) (cf_machine hsw_features) 0 r = 0" for r by (simp add: stack_regs_def hsw_features_def stack_ready_def)
  have "feature_set 0xF type" if "feature_offset HASWELL type = Some b" for type b
    using that by (cases type) (simp_all add: feature_offset_def feature_set_def)
  then show ?thesis unfolding feature_coherent_def z by (simp add: hsw_features_def MAX_NUM_THREADS_def)
qed

theorem prefetcher_switch_witness:
  "\<exists>s'. cpuFeatures_disable hsw_hpm HASWELL 0 FEAT_DCU_PREFETCHER hsw_features = Some (0, s') \<and>
     cpuFeatures_get 0 FEAT_DCU_PREFETCHER s' = Some 0 \<and> bit (stack_regs (\<lambda>k. k) (cf_machine s') 0 MSR_PREFETCH_ENABLE) 2"
proof -
  have a: "stack_acc stack_ready 0 MSR_IA32_MISC_ENABLE" "stack_acc stack_ready 0 MSR_PREFETCH_ENABLE"
    by (rule stack_ready_acc; simp add: msr_policy_defs)+
  have i: "stack_inv (cf_machine hsw_features)" "feature_acc stack_acc (cf_machine hsw_features) 0"
    using a stack_ready_inv by (simp_all add: hsw_features_def feature_acc_def)
  have m: "prefetch_model HASWELL" "feature_reg HASWELL = MSR_PREFETCH_ENABLE" "feature_offset HASWELL FEAT_DCU_PREFETCHER = Some 2"
    by (simp_all add: prefetch_model_def feature_reg_def feature_offset_def)
  have c: "stack_acc (cf_machine hsw_features) 0 MSR_PREFETCH_ENABLE" using a by (simp add: hsw_features_def)
  obtain s' where s': "cpuFeatures_disable hsw_hpm HASWELL 0 FEAT_DCU_PREFETCHER hsw_features = Some (0, s')"
      "cpuFeatures_get 0 FEAT_DCU_PREFETCHER s' = Some 0"
      "\<forall>c' r n. stack_acc (cf_machine hsw_features) c' r \<longrightarrow> bit (stack_regs (\<lambda>k. k) (cf_machine s') c' r) n =
         (if c' = 0 \<and> r = MSR_PREFETCH_ENABLE \<and> n = 2 then \<not> False else bit (stack_regs (\<lambda>k. k) (cf_machine hsw_features) c' r) n)"
    using prefetcher_switch [OF rk.msr_kernel_axioms i disjI2 [OF m(1)] hsw_coherent m(3) refl, where on = False and n = 2 and eax = "0x306C3"
        and err = "\<lambda>s. 0" and pciInit = "\<lambda>cpu s. Some (0, s)"]
    unfolding m(2) by auto
  from s'(3) [rule_format, OF c, of 2] s'(1,2) show ?thesis by auto
qed

text \<open>
  Enabling a feature returns 0 also when the write of the register fails, while disabling
  it returns an error then.
\<close>

lemma enable_hides_write_error:
  assumes "arr_get (cpuFeatureMask s) cpu = Some v" "feature_offset model type = Some b"
    and "hp_read H cpu MSR_DEV (feature_reg model) (cf_machine s) = Some (0, flags, m1)"
    and "\<And>x. hp_write H cpu MSR_DEV (feature_reg model) x m1 = Some (ret, m2)" "ret \<noteq> 0"
    and "cpuFeatures_update H model cpu (s\<lparr>cf_machine := m2\<rparr>) = Some s'"
  shows "if feature_set v type then cpuFeatures_disable H model cpu type s = Some (- EFAULT, s')
    else cpuFeatures_enable H model cpu type s = Some (0, s')"
  using assms by (simp add: cpuFeatures_enable_def cpuFeatures_disable_def)

definition broken_hpm :: "unit hpm_ops" where
  "broken_hpm = \<lparr>hp_read = (\<lambda>c d r m. Some (0, 0xF, m)), hp_write = (\<lambda>c d r v m. Some (- EFAULT, m)), hp_check = (\<lambda>d c m. Some (1, m)),
     hp_errno = (\<lambda>m. 0), hp_init = (\<lambda>m. (0, m)), hp_addThread = (\<lambda>c m. Some (0, m)), hp_finalize = (\<lambda>m. Some m)\<rparr>"

lemma enable_hides_write_error_witness:
  "\<exists>s'. cpuFeatures_enable broken_hpm HASWELL 0 FEAT_HW_PREFETCHER \<lparr>cpuFeatureMask = [0], features_initialized = True, cf_machine = ()\<rparr> = Some (0, s') \<and>
     cpuFeatures_get 0 FEAT_HW_PREFETCHER s' = Some 0"
proof -
  let ?s = "\<lparr>cpuFeatureMask = [0], features_initialized = True, cf_machine = ()\<rparr>"
  let ?s' = "\<lparr>cpuFeatureMask = [prefetch_features 0xF (misc_features HASWELL 0xF 0)], features_initialized = True, cf_machine = ()\<rparr>"
  have h: "arr_get (cpuFeatureMask ?s) 0 = Some 0" "feature_offset HASWELL FEAT_HW_PREFETCHER = Some 0" "prefetch_model HASWELL"
    by (simp_all add: arr_get_def feature_offset_def prefetch_model_def)
  have u: "cpuFeatures_update broken_hpm HASWELL 0 (?s\<lparr>cf_machine := ()\<rparr>) = Some ?s'"
    using h(3) by (simp add: cpuFeatures_update_def broken_hpm_def arr_get_def arr_set_def)
  have "cpuFeatures_enable broken_hpm HASWELL 0 FEAT_HW_PREFETCHER ?s = Some (0, ?s')"
    using enable_hides_write_error [OF h(1,2), where H = broken_hpm and flags = "0xF" and ret = "- EFAULT" and ?s' = ?s' and ?m1.0 = "()" and ?m2.0 = "()"] u
    by (simp add: broken_hpm_def feature_set_def)
  moreover have "\<not> feature_set (prefetch_features 0xF (misc_features HASWELL 0xF 0)) FEAT_HW_PREFETCHER"
    using prefetch_features_set [OF h(3,2)] by simp
  ultimately show ?thesis by (auto simp: cpuFeatures_get_def arr_get_def)
qed

end
