(* ===== verification/Rapl.thy ===== *)
theory Rapl
  imports CpuFeatures
begin

text \<open>
  Energy and temperature: the RAPL interface (\<open>src/src/power.c\<close>, \<open>includes/power.h\<close>) and the thermal sensor
  (\<open>src/src/thermal.c\<close>, \<open>includes/thermal.h\<close>). The processor model and its topology are arguments. Allocation
  succeeds; the tables that \<open>perfmon_init_maps\<close> selects are those of the performance monitoring module and are not
  repeated here. The rounding of \<open>double\<close> is left out.
\<close>

section \<open>State\<close>

record PowerDomain =
  dm_type :: nat
  dm_supportFlags :: u32
  dm_energyUnit :: real
  dm_tdp :: real
  dm_minPower :: real
  dm_maxPower :: real
  dm_maxTimeWindow :: real

record TurboBoost =
  tb_numSteps :: nat
  tb_steps :: "real list option"

record PowerInfo =
  pi_baseFrequency :: real
  pi_minFrequency :: real
  pi_turbo :: TurboBoost
  pi_hasRAPL :: bool
  pi_powerUnit :: real
  pi_timeUnit :: real
  pi_domains :: "PowerDomain list"

record PowerData =
  pd_domain :: int
  pd_before :: u32
  pd_after :: u32

text \<open>The four lists of registers are variables: a register that cannot be read is taken out by writing 0.\<close>

record 'm power =
  power_initialized :: bool
  power_info :: PowerInfo
  limit_regs :: "u32 list"
  policy_regs :: "u32 list"
  perf_regs :: "u32 list"
  info_regs :: "u32 list"
  pw_machine :: 'm

definition NUM_POWER_DOMAINS :: nat where
  "NUM_POWER_DOMAINS = 4"

definition POWER_DOMAIN_SUPPORT_STATUS :: u32 where "POWER_DOMAIN_SUPPORT_STATUS = 1"
definition POWER_DOMAIN_SUPPORT_LIMIT :: u32 where "POWER_DOMAIN_SUPPORT_LIMIT = 2"
definition POWER_DOMAIN_SUPPORT_POLICY :: u32 where "POWER_DOMAIN_SUPPORT_POLICY = 4"
definition POWER_DOMAIN_SUPPORT_PERF :: u32 where "POWER_DOMAIN_SUPPORT_PERF = 8"
definition POWER_DOMAIN_SUPPORT_INFO :: u32 where "POWER_DOMAIN_SUPPORT_INFO = 16"

definition power_regs :: "u32 list" where
  "power_regs = [MSR_PKG_ENERGY_STATUS, MSR_PP0_ENERGY_STATUS, MSR_PP1_ENERGY_STATUS, MSR_DRAM_ENERGY_STATUS]"

definition init_limit_regs :: "u32 list" where
  "init_limit_regs = [MSR_PKG_RAPL_POWER_LIMIT, MSR_PP0_RAPL_POWER_LIMIT, MSR_PP1_RAPL_POWER_LIMIT, MSR_DRAM_RAPL_POWER_LIMIT]"

definition init_policy_regs :: "u32 list" where
  "init_policy_regs = [0, MSR_PP0_ENERGY_POLICY, MSR_PP1_ENERGY_POLICY, 0]"

definition init_perf_regs :: "u32 list" where
  "init_perf_regs = [MSR_PKG_PERF_STATUS, MSR_PP0_PERF_STATUS, 0, MSR_DRAM_PERF_STATUS]"

definition init_info_regs :: "u32 list" where
  "init_info_regs = [MSR_PKG_POWER_INFO, 0, 0, MSR_DRAM_POWER_INFO]"

section \<open>Measuring energy\<close>

definition power_printEnergy :: "PowerInfo \<Rightarrow> PowerData \<Rightarrow> real option" where
  "power_printEnergy info data = do {
     d \<leftarrow> arr_get (pi_domains info) (pd_domain data);
     Some (real (unat (pd_after data - pd_before data)) * dm_energyUnit d) }"

text \<open>The counter of a domain, or what is returned instead; \<open>domains[type]\<close> is not checked.\<close>

definition read_energy :: "'m hpm_ops \<Rightarrow> int \<Rightarrow> u32 \<Rightarrow> 'm power \<Rightarrow> ((int + u32) \<times> 'm power) option" where
  "read_energy H cpuId reg s = do {
     (ret, result, m) \<leftarrow> hp_read H cpuId MSR_DEV reg (pw_machine s);
     let s' = s\<lparr>pw_machine := m\<rparr>;
     if ret < 0 then Some (Inl (hp_errno H m), s')
     else do { v \<leftarrow> field64 result 0 32; Some (Inr (ucast v), s') } }"

definition power_start ::
  "'m hpm_ops \<Rightarrow> PowerData \<Rightarrow> int \<Rightarrow> u32 \<Rightarrow> 'm power \<Rightarrow> (int \<times> PowerData \<times> 'm power) option" where
  "power_start H data cpuId type s =
     (if \<not> pi_hasRAPL (power_info s) then Some (- EIO, data, s)
      else do {
        d \<leftarrow> arr_get (pi_domains (power_info s)) (uint type);
        if dm_supportFlags d AND POWER_DOMAIN_SUPPORT_STATUS \<noteq> 0 then do {
          reg \<leftarrow> arr_get power_regs (uint type);
          (r, s') \<leftarrow> read_energy H cpuId reg s;
          case r of
            Inl e \<Rightarrow> Some (e, data\<lparr>pd_before := 0\<rparr>, s')
          | Inr v \<Rightarrow> Some (0, data\<lparr>pd_before := v, pd_domain := uint type\<rparr>, s') }
        else Some (- EFAULT, data, s) })"

definition power_stop ::
  "'m hpm_ops \<Rightarrow> PowerData \<Rightarrow> int \<Rightarrow> u32 \<Rightarrow> 'm power \<Rightarrow> (int \<times> PowerData \<times> 'm power) option" where
  "power_stop H data cpuId type s =
     (if \<not> pi_hasRAPL (power_info s) then Some (- EIO, data, s)
      else do {
        d \<leftarrow> arr_get (pi_domains (power_info s)) (uint type);
        if dm_supportFlags d AND POWER_DOMAIN_SUPPORT_STATUS \<noteq> 0 then do {
          reg \<leftarrow> arr_get power_regs (uint type);
          (r, s') \<leftarrow> read_energy H cpuId reg s;
          case r of
            Inl e \<Rightarrow> Some (e, data\<lparr>pd_after := 0\<rparr>, s')
          | Inr v \<Rightarrow> Some (0, data\<lparr>pd_after := v, pd_domain := uint type\<rparr>, s') }
        else Some (- EFAULT, data, s) })"

text \<open>The domain of a register; one that is not found is the number \<open>-1\<close>, which is outside the array.\<close>

definition domain_of :: "u64 \<Rightarrow> int" where
  "domain_of reg =
     (let i = length (takeWhile (\<lambda>r. ucast r \<noteq> reg) power_regs) in if i < NUM_POWER_DOMAINS then int i else - 1)"

definition power_read ::
  "'m hpm_ops \<Rightarrow> int \<Rightarrow> u64 \<Rightarrow> u32 \<Rightarrow> 'm power \<Rightarrow> (int \<times> u32 \<times> 'm power) option" where
  "power_read H cpuId reg data s =
     (if \<not> pi_hasRAPL (power_info s) then Some (- EIO, data, s)
      else do {
        d \<leftarrow> arr_get (pi_domains (power_info s)) (domain_of reg);
        if dm_supportFlags d AND POWER_DOMAIN_SUPPORT_STATUS \<noteq> 0 then do {
          (r, s') \<leftarrow> read_energy H cpuId (ucast reg) s;
          Some (case r of Inl e \<Rightarrow> (e, 0, s') | Inr v \<Rightarrow> (0, v, s')) }
        else Some (- EFAULT, data, s) })"

text \<open>The same for a given socket, which is not used; the type of an unknown register is not initialized.\<close>

definition power_tread ::
  "'m hpm_ops \<Rightarrow> int \<Rightarrow> int \<Rightarrow> u64 \<Rightarrow> u32 \<Rightarrow> 'm power \<Rightarrow> (int \<times> u32 \<times> 'm power) option" where
  "power_tread H socket_fd cpuId reg data s =
     (if \<not> pi_hasRAPL (power_info s) then Some (- EIO, data, s)
      else if domain_of reg < 0 then None
      else do {
        d \<leftarrow> arr_get (pi_domains (power_info s)) (domain_of reg);
        if dm_supportFlags d AND POWER_DOMAIN_SUPPORT_STATUS \<noteq> 0 then do {
          (r, s') \<leftarrow> read_energy H cpuId (ucast reg) s;
          Some (case r of Inl e \<Rightarrow> (e, 0, s') | Inr v \<Rightarrow> (0, v, s')) }
        else Some (- EFAULT, data, s) })"

section \<open>Initialization\<close>

definition rapl_model :: "u32 \<Rightarrow> bool" where
  "rapl_model model \<longleftrightarrow> model \<in> {SANDYBRIDGE, IVYBRIDGE, HASWELL, SANDYBRIDGE_EP, IVYBRIDGE_EP, HASWELL_EP, ATOM_SILVERMONT_E,
     ATOM_SILVERMONT_Z1, ATOM_SILVERMONT_Z2, ATOM_SILVERMONT_F, BROADWELL, BROADWELL_E, BROADWELL_D, HASWELL_M1, HASWELL_M2,
     SKYLAKE1, SKYLAKE2, ATOM_SILVERMONT_C}"

fun turbo_loop :: "real \<Rightarrow> u64 \<Rightarrow> nat list \<Rightarrow> real list \<Rightarrow> real list option" where
  "turbo_loop busSpeed flags [] steps = Some steps"
| "turbo_loop busSpeed flags (i # is) steps = do {
     v \<leftarrow> (if i < 8 then do { w \<leftarrow> field64 flags (int (i * 8)) 8; Some (busSpeed * real (unat w)) } else arr_get steps 7);
     steps' \<leftarrow> arr_set steps (int i) v;
     turbo_loop busSpeed flags is steps' }"

text \<open>The turbo mode; \<open>fresh\<close> is the content of new memory.\<close>

definition init_turbo :: "'m hpm_ops \<Rightarrow> int \<Rightarrow> u32 \<Rightarrow> nat \<Rightarrow> real \<Rightarrow> real \<Rightarrow> 'm power \<Rightarrow> 'm power option" where
  "init_turbo H cpuId model numCoresPerSocket fresh busSpeed s = do {
     (err, flags, m) \<leftarrow> hp_read H cpuId MSR_DEV MSR_PLATFORM_INFO (pw_machine s);
     let s1 = s\<lparr>pw_machine := m\<rparr>;
     if err \<noteq> 0 then Some s1
     else do {
       base \<leftarrow> extractBitField (ucast flags) 8 8;
       least \<leftarrow> extractBitField (ucast (drop_bit 32 flags)) 8 8;
       let numSteps = (if model = WESTMERE_EX then 4 else numCoresPerSocket);
       let steps = replicate numSteps fresh;
       (err', flags', m') \<leftarrow> hp_read H cpuId MSR_DEV MSR_TURBO_RATIO_LIMIT m;
       steps' \<leftarrow> (if err' \<noteq> 0 then Some steps else turbo_loop busSpeed flags' [0..<numSteps] steps);
       Some (s1\<lparr>pw_machine := m', power_info := (power_info s1)\<lparr>pi_baseFrequency := busSpeed * real (unat base),
         pi_minFrequency := busSpeed * real (unat least), pi_turbo := \<lparr>tb_numSteps = numSteps, tb_steps = Some steps'\<rparr>\<rparr>\<rparr>) } }"

text \<open>\<open>1 << n\<close> on \<open>int\<close>.\<close>

definition c_bit :: "u64 \<Rightarrow> int option" where
  "c_bit n = (if unat n < 31 then Some (2 ^ unat n) else None)"

definition new_domain :: "real \<Rightarrow> nat \<Rightarrow> PowerDomain" where
  "new_domain energyUnit i = \<lparr>dm_type = i, dm_supportFlags = 0, dm_energyUnit = energyUnit, dm_tdp = 0, dm_minPower = 0,
     dm_maxPower = 0, dm_maxTimeWindow = 0\<rparr>"

text \<open>The units and the domains, from the register of the units.\<close>

definition init_units :: "u32 \<Rightarrow> u64 \<Rightarrow> PowerInfo \<Rightarrow> PowerInfo option" where
  "init_units model flags info = do {
     p \<leftarrow> c_bit (flags AND 0xF);
     t \<leftarrow> c_bit (drop_bit 16 flags AND 0xF);
     e \<leftarrow> c_bit (drop_bit 8 flags AND 0x1F);
     let energyUnit = (if model \<noteq> ATOM_SILVERMONT_E then 1 / real_of_int e else real_of_int e / 1000000);
     let domains = map (new_domain energyUnit) [0..<NUM_POWER_DOMAINS];
     Some (info\<lparr>pi_powerUnit := real_of_int (1000000 div p), pi_timeUnit := real_of_int (1000000 div t),
       pi_domains := (if model = HASWELL_EP \<or> model = HASWELL_M1 \<or> model = HASWELL_M2
         then domains[3 := (domains ! 3)\<lparr>dm_energyUnit := 15.3 / 1000000\<rparr>] else domains)\<rparr>) }"

definition update_domain :: "nat \<Rightarrow> (PowerDomain \<Rightarrow> PowerDomain) \<Rightarrow> 'm power \<Rightarrow> 'm power option" where
  "update_domain i f s = do {
     d \<leftarrow> arr_get (pi_domains (power_info s)) (int i);
     Some (s\<lparr>power_info := (power_info s)\<lparr>pi_domains := (pi_domains (power_info s))[i := f d]\<rparr>\<rparr>) }"

definition add_support :: "u32 \<Rightarrow> PowerDomain \<Rightarrow> PowerDomain" where
  "add_support flag d = d\<lparr>dm_supportFlags := dm_supportFlags d OR flag\<rparr>"

text \<open>One optional register of a domain: it is read, and taken out of its list when that fails.\<close>

definition probe_reg ::
  "'m hpm_ops \<Rightarrow> int \<Rightarrow> ('m power \<Rightarrow> u32 list) \<Rightarrow> ((u32 list \<Rightarrow> u32 list) \<Rightarrow> 'm power \<Rightarrow> 'm power) \<Rightarrow> u32 \<Rightarrow>
   (u64 \<Rightarrow> 'm power \<Rightarrow> 'm power option) \<Rightarrow> nat \<Rightarrow> 'm power \<Rightarrow> 'm power option" where
  "probe_reg H cpuId regs regs_update flag found i s = do {
     reg \<leftarrow> arr_get (regs s) (int i);
     if reg = 0 then Some s
     else do {
       (err, flags, m) \<leftarrow> hp_read H cpuId MSR_DEV reg (pw_machine s);
       let s1 = s\<lparr>pw_machine := m\<rparr>;
       if err = 0 then do { s2 \<leftarrow> update_domain i (add_support flag) s1; found flags s2 }
       else Some (regs_update (\<lambda>rs. rs[i := 0]) s1) } }"

text \<open>The info register; the argument of \<open>extractBitField\<close> has 32 bits.\<close>

definition read_info :: "u32 \<Rightarrow> nat \<Rightarrow> u64 \<Rightarrow> 'm power \<Rightarrow> 'm power option" where
  "read_info model i flags s = do {
     let pu = pi_powerUnit (power_info s);
     tdp \<leftarrow> extractBitField (ucast flags) 15 0;
     s1 \<leftarrow> update_domain i (\<lambda>d. d\<lparr>dm_tdp := real (unat tdp) * pu\<rparr>) s;
     if model \<noteq> ATOM_SILVERMONT_C then do {
       minPower \<leftarrow> extractBitField (ucast flags) 15 16;
       maxPower \<leftarrow> extractBitField (ucast flags) 15 32;
       window \<leftarrow> extractBitField (ucast flags) 7 48;
       update_domain i (\<lambda>d. d\<lparr>dm_minPower := real (unat minPower) * pu, dm_maxPower := real (unat maxPower) * pu,
         dm_maxTimeWindow := real (unat window) * pi_timeUnit (power_info s)\<rparr>) s1 }
     else Some s1 }"

definition probe_domain :: "'m hpm_ops \<Rightarrow> int \<Rightarrow> u32 \<Rightarrow> nat \<Rightarrow> 'm power \<Rightarrow> 'm power option" where
  "probe_domain H cpuId model i s = do {
     reg \<leftarrow> arr_get power_regs (int i);
     (err, _, m) \<leftarrow> hp_read H cpuId MSR_DEV reg (pw_machine s);
     let s0 = s\<lparr>pw_machine := m\<rparr>;
     if err \<noteq> 0 then Some s0
     else do {
       s1 \<leftarrow> update_domain i (add_support POWER_DOMAIN_SUPPORT_STATUS) s0;
       s2 \<leftarrow> probe_reg H cpuId limit_regs limit_regs_update POWER_DOMAIN_SUPPORT_LIMIT (\<lambda>_. Some) i s1;
       s3 \<leftarrow> probe_reg H cpuId info_regs info_regs_update POWER_DOMAIN_SUPPORT_INFO (read_info model i) i s2;
       s4 \<leftarrow> probe_reg H cpuId policy_regs policy_regs_update POWER_DOMAIN_SUPPORT_POLICY (\<lambda>_. Some) i s3;
       probe_reg H cpuId perf_regs perf_regs_update POWER_DOMAIN_SUPPORT_PERF (\<lambda>_. Some) i s4 } }"

fun probe_domains :: "'m hpm_ops \<Rightarrow> int \<Rightarrow> u32 \<Rightarrow> nat list \<Rightarrow> 'm power \<Rightarrow> 'm power option" where
  "probe_domains H cpuId model [] s = Some s"
| "probe_domains H cpuId model (i # is) s = do { s' \<leftarrow> probe_domain H cpuId model i s; probe_domains H cpuId model is s' }"

definition init_rapl :: "'m hpm_ops \<Rightarrow> int \<Rightarrow> u32 \<Rightarrow> 'm power \<Rightarrow> (int \<times> 'm power) option" where
  "init_rapl H cpuId model s = do {
     (err, flags, m) \<leftarrow> hp_read H cpuId MSR_DEV MSR_RAPL_POWER_UNIT (pw_machine s);
     let s1 = s\<lparr>pw_machine := m\<rparr>;
     s2 \<leftarrow> (if err = 0 then do {
              info \<leftarrow> init_units model flags (power_info s1);
              probe_domains H cpuId model [0..<NUM_POWER_DOMAINS] (s1\<lparr>power_info := info\<rparr>) }
            else Some (s1\<lparr>power_info := (power_info s1)\<lparr>pi_hasRAPL := False\<rparr>\<rparr>));
     Some (if pi_hasRAPL (power_info s2) then 1 else 0, s2\<lparr>power_initialized := True\<rparr>) }"

definition clear_info :: "PowerInfo \<Rightarrow> PowerInfo" where
  "clear_info info = info\<lparr>pi_baseFrequency := 0, pi_minFrequency := 0, pi_turbo := \<lparr>tb_numSteps = 0, tb_steps = None\<rparr>,
     pi_powerUnit := 0, pi_timeUnit := 0, pi_hasRAPL := False\<rparr>"

definition power_init ::
  "'m hpm_ops \<Rightarrow> ('m \<Rightarrow> bool) \<Rightarrow> u32 \<Rightarrow> bool \<Rightarrow> nat \<Rightarrow> real \<Rightarrow> int \<Rightarrow> 'm power \<Rightarrow> (int \<times> 'm power) option" where
  "power_init H initialized model turbo numCoresPerSocket fresh cpuId s =
     (if power_initialized s then Some (0, s)
      else (let s1 = s\<lparr>power_info := clear_info (power_info s)\<rparr> in
        if \<not> rapl_model model then Some (0, s1)
        else do {
          let s2 = s1\<lparr>power_info := (power_info s1)\<lparr>pi_hasRAPL := True\<rparr>,
            info_regs := (if model = ATOM_SILVERMONT_C then (info_regs s1)[0 := MSR_PKG_POWER_INFO_SILVERMONT] else info_regs s1)\<rparr>;
          m \<leftarrow> (if initialized (pw_machine s2) then Some (pw_machine s2)
                else map_option snd (hp_addThread H cpuId (snd (hp_init H (pw_machine s2)))));
          let s3 = s2\<lparr>pw_machine := m\<rparr>;
          s4 \<leftarrow> (if turbo then init_turbo H cpuId model numCoresPerSocket fresh 100 s3 else Some s3);
          init_rapl H cpuId model s4 }))"

definition power_finalize :: "'m power \<Rightarrow> 'm power" where
  "power_finalize s =
     (if \<not> power_initialized s then s
      else s\<lparr>power_info := (clear_info (power_info s))\<lparr>pi_domains := replicate NUM_POWER_DOMAINS (new_domain 0 0)\<rparr>\<rparr>)"

section \<open>Limits and policies\<close>

definition domain_supports :: "u32 \<Rightarrow> u32 \<Rightarrow> 'm power \<Rightarrow> bool option" where
  "domain_supports domain flag s = do {
     d \<leftarrow> arr_get (pi_domains (power_info s)) (uint domain);
     Some (dm_supportFlags d AND flag \<noteq> 0) }"

text \<open>
  The two functions that read a register into a variable of 32 bits: \<open>HPMread\<close> writes 64 bits there, which is
  undefined.
\<close>

definition power_perfGet :: "u32 \<Rightarrow> 'm power \<Rightarrow> (int \<times> u32 \<times> 'm power) option" where
  "power_perfGet domain s =
     (if NUM_POWER_DOMAINS \<le> unat domain then Some (- EINVAL, 0, s)
      else do {
        b \<leftarrow> domain_supports domain POWER_DOMAIN_SUPPORT_PERF s;
        if b then None else Some (0, 0, s) })"

definition power_policyGet :: "u32 \<Rightarrow> 'm power \<Rightarrow> (int \<times> u32 \<times> 'm power) option" where
  "power_policyGet domain s =
     (if NUM_POWER_DOMAINS \<le> unat domain then Some (- EINVAL, 0, s)
      else do {
        b \<leftarrow> domain_supports domain POWER_DOMAIN_SUPPORT_POLICY s;
        if b then None else Some (0, 0, s) })"

text \<open>The part after the first \<open>return 0\<close> is never executed.\<close>

definition power_limitSet :: "u32 \<Rightarrow> int" where
  "power_limitSet domain = (if NUM_POWER_DOMAINS \<le> unat domain then - EINVAL else 0)"

definition power_limitGet :: "'m hpm_ops \<Rightarrow> int \<Rightarrow> u32 \<Rightarrow> 'm power \<Rightarrow> (int \<times> real \<times> real \<times> 'm power) option" where
  "power_limitGet H cpuId domain s =
     (if NUM_POWER_DOMAINS \<le> unat domain then Some (- EINVAL, 0, 0, s)
      else do {
        d \<leftarrow> arr_get (pi_domains (power_info s)) (uint domain);
        if dm_supportFlags d AND POWER_DOMAIN_SUPPORT_LIMIT \<noteq> 0 then do {
          reg \<leftarrow> arr_get (limit_regs s) (uint domain);
          (err, flags, m) \<leftarrow> hp_read H cpuId MSR_DEV reg (pw_machine s);
          let s' = s\<lparr>pw_machine := m\<rparr>;
          if err \<noteq> 0 then Some (- EFAULT, 0, 0, s')
          else do {
            p \<leftarrow> extractBitField (ucast flags) 15 0;
            Y \<leftarrow> extractBitField (ucast flags) 5 17;
            Z \<leftarrow> extractBitField (ucast flags) 2 22;
            Some (0, real (unat p) * dm_energyUnit d,
              2 ^ unat Y * (1 + real (unat Z) / 4) * pi_timeUnit (power_info s), s') } }
        else Some (0, 0, 0, s) })"

definition power_limitState :: "'m hpm_ops \<Rightarrow> int \<Rightarrow> u32 \<Rightarrow> 'm power \<Rightarrow> (int \<times> 'm power) option" where
  "power_limitState H cpuId domain s =
     (if NUM_POWER_DOMAINS \<le> unat domain then Some (- EINVAL, s)
      else do {
        b \<leftarrow> domain_supports domain POWER_DOMAIN_SUPPORT_LIMIT s;
        if b then do {
          reg \<leftarrow> arr_get (limit_regs s) (uint domain);
          (err, flags, m) \<leftarrow> hp_read H cpuId MSR_DEV reg (pw_machine s);
          let s' = s\<lparr>pw_machine := m\<rparr>;
          if err \<noteq> 0 then Some (- EFAULT, s')
          else Some (if flags AND push_bit 15 1 \<noteq> 0 then 1 else 0, s') }
        else Some (0, s) })"

definition change_limit :: "'m hpm_ops \<Rightarrow> int \<Rightarrow> u32 \<Rightarrow> (u64 \<Rightarrow> u64) \<Rightarrow> 'm power \<Rightarrow> (int \<times> 'm power) option" where
  "change_limit H cpuId domain f s = do {
     b \<leftarrow> domain_supports domain POWER_DOMAIN_SUPPORT_LIMIT s;
     if b then do {
       reg \<leftarrow> arr_get (limit_regs s) (uint domain);
       (err, flags, m) \<leftarrow> hp_read H cpuId MSR_DEV reg (pw_machine s);
       if err \<noteq> 0 then Some (- EFAULT, s\<lparr>pw_machine := m\<rparr>)
       else do {
         (err', m') \<leftarrow> hp_write H cpuId MSR_DEV reg (f flags) m;
         Some (if err' \<noteq> 0 then - EFAULT else 0, s\<lparr>pw_machine := m'\<rparr>) } }
     else Some (0, s) }"

definition power_limitActivate :: "'m hpm_ops \<Rightarrow> int \<Rightarrow> u32 \<Rightarrow> 'm power \<Rightarrow> (int \<times> 'm power) option" where
  "power_limitActivate H cpuId domain s =
     (if NUM_POWER_DOMAINS \<le> unat domain then Some (- EINVAL, s)
      else change_limit H cpuId domain (\<lambda>flags. flags OR push_bit 15 1) s)"

text \<open>Here the number of the domain is not checked.\<close>

definition power_limitDectivate :: "'m hpm_ops \<Rightarrow> int \<Rightarrow> u32 \<Rightarrow> 'm power \<Rightarrow> (int \<times> 'm power) option" where
  "power_limitDectivate H cpuId domain s = change_limit H cpuId domain (\<lambda>flags. flags AND NOT (push_bit 15 1)) s"

definition power_policySet :: "'m hpm_ops \<Rightarrow> int \<Rightarrow> u32 \<Rightarrow> u32 \<Rightarrow> 'm power \<Rightarrow> (int \<times> 'm power) option" where
  "power_policySet H cpuId domain priority s =
     (if NUM_POWER_DOMAINS \<le> unat domain then Some (- EINVAL, s)
      else do {
        priority' \<leftarrow> extractBitField priority 5 0;
        b \<leftarrow> domain_supports domain POWER_DOMAIN_SUPPORT_POLICY s;
        if b then do {
          reg \<leftarrow> arr_get (policy_regs s) (uint domain);
          (err, m) \<leftarrow> hp_write H cpuId MSR_DEV reg (ucast priority') (pw_machine s);
          Some (if err \<noteq> 0 then - EFAULT else 0, s\<lparr>pw_machine := m\<rparr>) }
        else Some (0, s) })"

section \<open>Temperature\<close>

record ThermalInfo =
  th_highT :: bool
  th_resolution :: u32
  th_activationT :: u32
  th_offset :: u32

definition thermal_init :: "'m hpm_ops \<Rightarrow> bool \<Rightarrow> int \<Rightarrow> ThermalInfo \<times> 'm \<Rightarrow> (ThermalInfo \<times> 'm) option" where
  "thermal_init H hasTM2 cpuId s = do {
     let (info, m) = s;
     (_, m0) \<leftarrow> hp_addThread H cpuId (snd (hp_init H m));
     if \<not> hasTM2 then Some (info, m0)
     else do {
       (err, flags, m1) \<leftarrow> hp_read H cpuId MSR_DEV IA32_THERM_STATUS m0;
       if err \<noteq> 0 then Some (info, m1)
       else do {
         res \<leftarrow> extractBitField (ucast flags) 4 27;
         let info1 = info\<lparr>th_highT := flags AND 1 \<noteq> 0, th_resolution := res\<rparr>;
         (err', flags', m2) \<leftarrow> hp_read H cpuId MSR_DEV MSR_TEMPERATURE_TARGET m1;
         if err' \<noteq> 0 then Some (info1, m2)
         else do {
           act \<leftarrow> extractBitField (ucast flags') 8 16;
           off \<leftarrow> extractBitField (ucast flags') 6 24;
           Some (info1\<lparr>th_activationT := act, th_offset := off\<rparr>, m2) } } } }"

definition thermal_read :: "'m hpm_ops \<Rightarrow> int \<Rightarrow> ThermalInfo \<Rightarrow> 'm \<Rightarrow> (int \<times> u32 \<times> 'm) option" where
  "thermal_read H cpuId info m = do {
     (err, result, m') \<leftarrow> hp_read H cpuId MSR_DEV IA32_THERM_STATUS m;
     if err \<noteq> 0 then Some (- EIO, 0, m')
     else do {
       readout \<leftarrow> extractBitField (ucast result) 7 16;
       Some (0, if readout = 0 then th_activationT info - th_offset info else th_activationT info - th_offset info - readout, m') } }"

text \<open>The same for a given socket, which is not used.\<close>

definition thermal_tread :: "'m hpm_ops \<Rightarrow> int \<Rightarrow> int \<Rightarrow> ThermalInfo \<Rightarrow> 'm \<Rightarrow> (int \<times> u32 \<times> 'm) option" where
  "thermal_tread H socket_fd cpuId info m = thermal_read H cpuId info m"

end
