(* ===== verification/Perfmon_Select.thy ===== *)
theory Perfmon_Select
  imports Perfmon_Types Registers AccessDaemon Rapl
begin

text \<open>
  The choice of tables and functions for a processor: \<open>perfmon_init_maps\<close> and \<open>perfmon_init_funcs\<close> of
  \<open>src/src/perfmon.c\<close>, and its name, \<open>topology_setName\<close> of \<open>src/src/topology.c\<close>. A table, its length or a function
  is represented by the architecture in its name; \<^term>\<open>None\<close> are pointers and numbers that are left as they were, that is NULL and 0.
\<close>

datatype (plugins only:) arch = Pm | Atom | Silvermont | Core2 | NehalemEX | WestmereEX | Nehalem | Westmere | IvybridgeEP | Ivybridge
  | HaswellEP | Haswell | SandybridgeEP | Sandybridge | Broadwell | Broadwelld | Skylake | Phi | K8 | K10 | Interlagos | Kabini

section \<open>Tables\<close>

record maps =
  mp_eventHash :: arch
  mp_numArchEvents :: arch
  mp_counter_map :: arch
  mp_numCounters :: arch
  mp_box_map :: arch
  mp_numCoreCounters :: "arch option"
  mp_pci_devices :: "arch option"

text \<open>The assignments of one case: events and their number, counters and their number, boxes.\<close>

definition map_tables :: "arch \<Rightarrow> arch \<Rightarrow> arch \<Rightarrow> arch \<Rightarrow> arch \<Rightarrow> maps" where
  "map_tables events numEvents counters numCounters boxes =
     \<lparr>mp_eventHash = events, mp_numArchEvents = numEvents, mp_counter_map = counters, mp_numCounters = numCounters, mp_box_map = boxes,
      mp_numCoreCounters = None, mp_pci_devices = None\<rparr>"

definition init_maps_p6 :: "u32 \<Rightarrow> maps option" where
  "init_maps_p6 model =
     (if model = PENTIUM_M_BANIAS \<or> model = PENTIUM_M_DOTHAN then Some (map_tables Pm Pm Pm Pm Pm)
      else if model = ATOM_45 \<or> model = ATOM_32 \<or>
        model = ATOM_22 \<or> model = ATOM
        then Some (map_tables Atom Atom Core2 Core2 Core2)
      else if model = ATOM_SILVERMONT_E \<or> model = ATOM_SILVERMONT_C \<or> model = ATOM_SILVERMONT_Z1 \<or>
        model = ATOM_SILVERMONT_Z2 \<or> model = ATOM_SILVERMONT_F \<or> model = ATOM_SILVERMONT_AIR
        then Some ((map_tables Silvermont Silvermont Silvermont Silvermont Silvermont)\<lparr>mp_numCoreCounters := Some Silvermont\<rparr>)
      else if model = CORE_DUO then None
      else if model = XEON_MP \<or> model = CORE2_65 \<or> model = CORE2_45 then Some (map_tables Core2 Core2 Core2 Core2 Core2)
      else if model = NEHALEM_EX then Some (map_tables NehalemEX NehalemEX NehalemEX NehalemEX NehalemEX)
      else if model = WESTMERE_EX then Some (map_tables WestmereEX WestmereEX WestmereEX WestmereEX WestmereEX)
      else if model = NEHALEM_BLOOMFIELD \<or> model = NEHALEM_LYNNFIELD \<or>
        model = NEHALEM_LYNNFIELD_M
        then Some (map_tables Nehalem Nehalem Nehalem Nehalem Nehalem)
      else if model = NEHALEM_WESTMERE_M \<or> model = NEHALEM_WESTMERE then Some (map_tables Westmere Westmere Nehalem Nehalem Nehalem)
      else if model = IVYBRIDGE_EP
        then Some ((map_tables IvybridgeEP IvybridgeEP IvybridgeEP IvybridgeEP IvybridgeEP)\<lparr>mp_numCoreCounters := Some IvybridgeEP, mp_pci_devices := Some IvybridgeEP\<rparr>)
      else if model = IVYBRIDGE
        then Some ((map_tables Ivybridge Ivybridge Ivybridge Ivybridge Ivybridge)\<lparr>mp_numCoreCounters := Some Ivybridge\<rparr>)
      else if model = HASWELL_EP
        then Some ((map_tables HaswellEP HaswellEP HaswellEP HaswellEP HaswellEP)\<lparr>mp_numCoreCounters := Some HaswellEP, mp_pci_devices := Some HaswellEP\<rparr>)
      else if model = HASWELL \<or> model = HASWELL_M1 \<or>
        model = HASWELL_M2
        then Some ((map_tables Haswell Haswell Haswell Haswell Haswell)\<lparr>mp_numCoreCounters := Some Haswell\<rparr>)
      else if model = SANDYBRIDGE_EP
        then Some ((map_tables SandybridgeEP SandybridgeEP SandybridgeEP SandybridgeEP SandybridgeEP)\<lparr>mp_numCoreCounters := Some SandybridgeEP, mp_pci_devices := Some SandybridgeEP\<rparr>)
      else if model = SANDYBRIDGE
        then Some ((map_tables Sandybridge Sandybridge Sandybridge Sandybridge Sandybridge)\<lparr>mp_numCoreCounters := Some Sandybridge\<rparr>)
      else if model = BROADWELL \<or>
        model = BROADWELL_E
        then Some ((map_tables Broadwell Broadwell Broadwell Broadwell Broadwell)\<lparr>mp_numCoreCounters := Some Broadwell\<rparr>)
      else if model = BROADWELL_D
        then Some ((map_tables Broadwelld Broadwelld Broadwelld Broadwelld Broadwelld)\<lparr>mp_numCoreCounters := Some Broadwelld\<rparr>)
      else if model = SKYLAKE1 \<or>
        model = SKYLAKE2
        then Some ((map_tables Skylake Skylake Skylake Skylake Skylake)\<lparr>mp_numCoreCounters := Some Skylake\<rparr>)
      else None)"

definition perfmon_init_maps :: "u32 \<Rightarrow> u32 \<Rightarrow> maps option" where
  "perfmon_init_maps family model =
     (if family = P6_FAMILY then init_maps_p6 model
      else if family = MIC_FAMILY then (if model = XEON_PHI then Some (map_tables Phi Phi Phi Phi Phi) else None)
      else if family = K8_FAMILY then Some (map_tables K8 K8 K10 K10 K10)
      else if family = K10_FAMILY then Some (map_tables K10 K10 K10 K10 K10)
      else if family = K15_FAMILY then Some (map_tables Interlagos Interlagos Interlagos Interlagos Interlagos)
      else if family = K16_FAMILY then Some (map_tables Kabini Kabini Kabini Kabini Kabini)
      else None)"

section \<open>Functions\<close>

text \<open>The function pointers, and whether power and thermal measurements are initialized.\<close>

record funcs =
  fn_initThreadArch :: "arch option"
  fn_start :: "arch option"
  fn_stop :: "arch option"
  fn_setup :: "arch option"
  fn_read :: "arch option"
  fn_finalize :: "arch option"
  fn_power :: bool
  fn_thermal :: bool

definition no_funcs :: funcs where
  "no_funcs = \<lparr>fn_initThreadArch = None, fn_start = None, fn_stop = None, fn_setup = None, fn_read = None, fn_finalize = None,
     fn_power = False, fn_thermal = False\<rparr>"

text \<open>The assignments of one case: initialization, start, stop, set up, read and finalization.\<close>

definition map_funcs :: "arch \<Rightarrow> arch \<Rightarrow> arch \<Rightarrow> arch \<Rightarrow> arch \<Rightarrow> arch \<Rightarrow> bool \<Rightarrow> bool \<Rightarrow> funcs" where
  "map_funcs initThread start stop setup rd finalize pow thermal =
     \<lparr>fn_initThreadArch = Some initThread, fn_start = Some start, fn_stop = Some stop, fn_setup = Some setup, fn_read = Some rd,
      fn_finalize = Some finalize, fn_power = pow, fn_thermal = thermal\<rparr>"

definition init_funcs_p6 :: "u32 \<Rightarrow> funcs" where
  "init_funcs_p6 model =
     (if model = PENTIUM_M_BANIAS \<or> model = PENTIUM_M_DOTHAN then map_funcs Pm Pm Pm Pm Pm Pm False False
      else if model = ATOM_45 \<or> model = ATOM_32 \<or>
        model = ATOM_22 \<or> model = ATOM
        then map_funcs Core2 Core2 Core2 Core2 Core2 Core2 False False
      else if model = ATOM_SILVERMONT_E \<or> model = ATOM_SILVERMONT_C \<or> model = ATOM_SILVERMONT_Z1 \<or>
        model = ATOM_SILVERMONT_Z2 \<or> model = ATOM_SILVERMONT_F \<or> model = ATOM_SILVERMONT_AIR
        then map_funcs Silvermont Silvermont Silvermont Silvermont Silvermont Silvermont True True
      else if model = CORE_DUO then no_funcs
      else if model = XEON_MP \<or> model = CORE2_65 \<or> model = CORE2_45 then map_funcs Core2 Core2 Core2 Core2 Core2 Core2 False False
      else if model = NEHALEM_EX then map_funcs NehalemEX NehalemEX NehalemEX NehalemEX NehalemEX NehalemEX False False
      else if model = WESTMERE_EX then map_funcs WestmereEX WestmereEX WestmereEX WestmereEX WestmereEX WestmereEX False False
      else if model = NEHALEM_BLOOMFIELD \<or>
        model = NEHALEM_LYNNFIELD
        then map_funcs Nehalem Nehalem Nehalem Nehalem Nehalem Nehalem False True
      else if model = NEHALEM_WESTMERE_M \<or>
        model = NEHALEM_WESTMERE
        then map_funcs Nehalem Nehalem Nehalem Nehalem Nehalem Nehalem False True
      else if model = IVYBRIDGE_EP \<or>
        model = IVYBRIDGE
        then map_funcs Ivybridge Ivybridge Ivybridge Ivybridge Ivybridge Ivybridge True True
      else if model = HASWELL_EP \<or> model = HASWELL \<or>
        model = HASWELL_M1 \<or> model = HASWELL_M2
        then map_funcs Haswell Haswell Haswell Haswell Haswell Haswell True True
      else if model = SANDYBRIDGE_EP \<or>
        model = SANDYBRIDGE
        then map_funcs Sandybridge Sandybridge Sandybridge Sandybridge Sandybridge Sandybridge True True
      else if model = BROADWELL \<or> model = BROADWELL_E \<or>
        model = BROADWELL_D
        then map_funcs Broadwell Broadwell Broadwell Broadwell Broadwell Broadwell True True
      else if model = SKYLAKE1 \<or> model = SKYLAKE2 then map_funcs Skylake Skylake Skylake Skylake Skylake Skylake True True
      else no_funcs)"

definition perfmon_init_funcs :: "u32 \<Rightarrow> u32 \<Rightarrow> funcs" where
  "perfmon_init_funcs family model =
     (if family = P6_FAMILY then init_funcs_p6 model
      else if family = MIC_FAMILY then (if model = XEON_PHI then map_funcs Phi Phi Phi Phi Phi Phi False False else no_funcs)
      else if family = K8_FAMILY then map_funcs K10 K10 K10 K10 K10 K10 False False
      else if family = K10_FAMILY then map_funcs K10 K10 K10 K10 K10 K10 False False
      else if family = K15_FAMILY then map_funcs Interlagos Interlagos Interlagos Interlagos Interlagos Interlagos False False
      else if family = K16_FAMILY then map_funcs Kabini Kabini Kabini Kabini Kabini Kabini False False
      else no_funcs)"

section \<open>Names\<close>

text \<open>The parts of \<open>cpuid_info\<close> that \<open>topology_setName\<close> writes; the short name is the directory of the performance groups.\<close>

record cpu_name =
  ci_name :: "string option"
  ci_short_name :: "string option"
  ci_supportUncore :: bool

definition named :: "string \<Rightarrow> string \<Rightarrow> cpu_name \<Rightarrow> cpu_name" where
  "named name short c = c\<lparr>ci_name := Some name, ci_short_name := Some short\<rparr>"

definition uncore_named :: "string \<Rightarrow> string \<Rightarrow> cpu_name \<Rightarrow> cpu_name" where
  "uncore_named name short c = (named name short c)\<lparr>ci_supportUncore := True\<rparr>"

definition set_name_p6 :: "u32 \<Rightarrow> cpu_name \<Rightarrow> cpu_name" where
  "set_name_p6 model =
     (if model = PENTIUM_M_BANIAS then named ''Intel Pentium M Banias processor'' ''pentiumm''
      else if model = PENTIUM_M_DOTHAN then named ''Intel Pentium M Dothan processor'' ''pentiumm''
      else if model = CORE_DUO then named ''Intel Core Duo processor'' ''core2''
      else if model = CORE2_65 then named ''Intel Core 2 65nm processor'' ''core2''
      else if model = CORE2_45 then named ''Intel Core 2 45nm processor'' ''core2''
      else if model = NEHALEM_BLOOMFIELD then named ''Intel Core Bloomfield processor'' ''nehalem''
      else if model = NEHALEM_LYNNFIELD then named ''Intel Core Lynnfield processor'' ''nehalem''
      else if model = NEHALEM_WESTMERE_M \<or> model = NEHALEM_WESTMERE then named ''Intel Core Westmere processor'' ''westmere''
      else if model = SANDYBRIDGE then named ''Intel Core SandyBridge processor'' ''sandybridge''
      else if model = SANDYBRIDGE_EP then uncore_named ''Intel Xeon SandyBridge EN/EP processor'' ''sandybridgeEP''
      else if model = IVYBRIDGE then named ''Intel Core IvyBridge processor'' ''ivybridge''
      else if model = IVYBRIDGE_EP then uncore_named ''Intel Xeon IvyBridge EN/EP/EX processor'' ''ivybridgeEP''
      else if model = HASWELL_EP then uncore_named ''Intel Xeon Haswell EN/EP/EX processor'' ''haswellEP''
      else if model = HASWELL \<or> model = HASWELL_M1 \<or> model = HASWELL_M2 then named ''Intel Core Haswell processor'' ''haswell''
      else if model = BROADWELL then named ''Intel Core Broadwell processor'' ''broadwell''
      else if model = BROADWELL_D then named ''Intel Xeon D Broadwell processor'' ''broadwellD''
      else if model = BROADWELL_E then named ''Intel Xeon Broadwell EN/EP/EX processor'' ''broadwellEP''
      else if model = SKYLAKE1 \<or> model = SKYLAKE2 then named ''Intel Skylake processor'' ''skylake''
      else if model = XEON_PHI2 then named ''Intel Xeon Phi (Knights Landing) Coprocessor'' ''phi2''
      else if model = NEHALEM_EX then named ''Intel Nehalem EX processor'' ''nehalemEX''
      else if model = WESTMERE_EX then named ''Intel Westmere EX processor'' ''westmereEX''
      else if model = XEON_MP then named ''Intel Xeon MP processor'' ''core2''
      else if model = ATOM_45 \<or> model = ATOM then named ''Intel Atom 45nm processor'' ''atom''
      else if model = ATOM_32 then named ''Intel Atom 32nm processor'' ''atom''
      else if model = ATOM_22 then named ''Intel Atom 22nm processor'' ''atom''
      else if model = ATOM_SILVERMONT_E \<or> model = ATOM_SILVERMONT_C \<or> model = ATOM_SILVERMONT_Z1 \<or>
        model = ATOM_SILVERMONT_Z2 \<or> model = ATOM_SILVERMONT_F
        then named ''Intel Atom (Silvermont) processor'' ''silvermont''
      else if model = ATOM_SILVERMONT_AIR then named ''Intel Atom (Airmont) processor'' ''silvermont''
      else named ''Unknown Intel Processor'' ''unknown'')"

definition k8_name :: "u32 \<Rightarrow> string" where
  "k8_name model =
     (if model = OPTERON_DC_E then ''AMD Opteron Dual Core Rev E 90nm processor''
      else if model = OPTERON_DC_F then ''AMD Opteron Dual Core Rev F 90nm processor''
      else if model = ATHLON64_X2 \<or> model = ATHLON64_X2_F then ''AMD Athlon64 X2 (AM2) Rev F 90nm processor''
      else if model = ATHLON64_F1 \<or> model = ATHLON64_F2 then ''AMD Athlon64 (AM2) Rev F 90nm processor''
      else if model = ATHLON64_X2_G then ''AMD Athlon64 X2 (AM2) Rev G 65nm processor''
      else if model = ATHLON64_G1 \<or> model = ATHLON64_G2 then ''AMD Athlon64 (AM2) Rev G 65nm processor''
      else if model = OPTERON_SC_1MB then ''AMD Opteron single core 130nm processor''
      else ''AMD K8 architecture'')"

definition k10_name :: "u32 \<Rightarrow> string" where
  "k10_name model =
     (if model = BARCELONA then ''AMD Barcelona processor''
      else if model = SHANGHAI then ''AMD Shanghai processor''
      else if model = ISTANBUL then ''AMD Istanbul processor''
      else if model = MAGNYCOURS then ''AMD Magny Cours processor''
      else ''Unknown AMD Processor'')"

text \<open>The result is 1 for a family without a case.\<close>

definition topology_setName :: "u32 \<Rightarrow> u32 \<Rightarrow> cpu_name \<Rightarrow> int \<times> cpu_name" where
  "topology_setName family model c =
     (if family = P6_FAMILY then (0, set_name_p6 model c)
      else if family = MIC_FAMILY
      then (0, if model = XEON_PHI then named ''Intel Xeon Phi (Knights Corner) Coprocessor'' ''phi'' c else c)
      else if family = K8_FAMILY then (0, named (k8_name model) ''k8'' c)
      else if family = K10_FAMILY then (0, named (k10_name model) ''k10'' c)
      else if family = K15_FAMILY then (0, named ''AMD Interlagos processor'' ''interlagos'' c)
      else if family = K16_FAMILY then (0, named ''AMD Family 16 model - Kabini processor'' ''kabini'' c)
      else (1, c))"

section \<open>Whether the choices agree\<close>

text \<open>The functions that work with the counters of an architecture, and the name of an architecture.\<close>

fun functions_for :: "arch \<Rightarrow> arch" where
  "functions_for IvybridgeEP = Ivybridge"
| "functions_for HaswellEP = Haswell"
| "functions_for SandybridgeEP = Sandybridge"
| "functions_for Broadwelld = Broadwell"
| "functions_for a = a"

fun arch_name :: "arch \<Rightarrow> string" where
  "arch_name Pm = ''pentiumm''"
| "arch_name Atom = ''atom''"
| "arch_name Silvermont = ''silvermont''"
| "arch_name Core2 = ''core2''"
| "arch_name NehalemEX = ''nehalemEX''"
| "arch_name WestmereEX = ''westmereEX''"
| "arch_name Nehalem = ''nehalem''"
| "arch_name Westmere = ''westmere''"
| "arch_name IvybridgeEP = ''ivybridgeEP''"
| "arch_name Ivybridge = ''ivybridge''"
| "arch_name HaswellEP = ''haswellEP''"
| "arch_name Haswell = ''haswell''"
| "arch_name SandybridgeEP = ''sandybridgeEP''"
| "arch_name Sandybridge = ''sandybridge''"
| "arch_name Broadwell = ''broadwell''"
| "arch_name Broadwelld = ''broadwellD''"
| "arch_name Skylake = ''skylake''"
| "arch_name Phi = ''phi''"
| "arch_name K8 = ''k8''"
| "arch_name K10 = ''k10''"
| "arch_name Interlagos = ''interlagos''"
| "arch_name Kabini = ''kabini''"

definition same_funcs :: "funcs \<Rightarrow> arch option \<Rightarrow> bool" where
  "same_funcs f a \<longleftrightarrow> fn_initThreadArch f = a \<and> fn_start f = a \<and> fn_stop f = a \<and> fn_setup f = a \<and> fn_read f = a \<and> fn_finalize f = a"

text \<open>The access daemon serves requests for PCI devices.\<close>

definition daemon_pci :: "u32 \<Rightarrow> u32 \<Rightarrow> bool" where
  "daemon_pci family model = (case select_policy family model of None \<Rightarrow> False | Some p \<Rightarrow> dp_isPCIUncore p)"

lemmas select_defs = map_tables_def map_funcs_def no_funcs_def same_funcs_def named_def uncore_named_def

lemma p6_tables:
  "case init_maps_p6 model of
     None \<Rightarrow> init_funcs_p6 model = no_funcs
   | Some mp \<Rightarrow> mp_numArchEvents mp = mp_eventHash mp \<and> mp_numCounters mp = mp_counter_map mp \<and> mp_box_map mp = mp_counter_map mp \<and>
       mp_numCoreCounters mp \<in> {None, Some (mp_counter_map mp)} \<and>
       same_funcs (init_funcs_p6 model) (if model = NEHALEM_LYNNFIELD_M then None else Some (functions_for (mp_counter_map mp)))"
  unfolding init_maps_p6_def init_funcs_p6_def select_defs by simp

lemma p6_names:
  "case init_maps_p6 model of None \<Rightarrow> True | Some mp \<Rightarrow> ci_short_name (set_name_p6 model c) =
     Some (if model = NEHALEM_LYNNFIELD_M then ''unknown'' else if model = BROADWELL_E then ''broadwellEP'' else arch_name (mp_eventHash mp))"
  unfolding init_maps_p6_def set_name_p6_def select_defs by simp

lemma p6_pci:
  assumes "\<not> ci_supportUncore c"
  shows "case init_maps_p6 model of
     None \<Rightarrow> \<not> ci_supportUncore (set_name_p6 model c) \<and> \<not> daemon_pci P6_FAMILY model
   | Some mp \<Rightarrow> mp_pci_devices mp = (if ci_supportUncore (set_name_p6 model c) then Some (mp_counter_map mp) else None) \<and>
       (daemon_pci P6_FAMILY model \<longleftrightarrow> mp_pci_devices mp \<noteq> None \<or> model = BROADWELL_D)"
  using assms unfolding init_maps_p6_def set_name_p6_def daemon_pci_def select_policy_def select_defs by simp

lemma p6_power: "fn_power (init_funcs_p6 model) \<longleftrightarrow> rapl_model model \<or> model = ATOM_SILVERMONT_AIR"
  unfolding init_funcs_p6_def rapl_model_def select_defs by simp

text \<open>
  Property C30. Five choices that the program makes for a processor in different places agree. Without tables, no function is
  chosen and nothing accesses PCI devices. With tables: the lengths belong to the tables of events and counters, counters and
  boxes to the same architecture; all six functions are those of one module, which works with these counters; the short name, and so
  the directory of the performance groups, is that of the table of events; the table of PCI devices is
  the one of the counters exactly on the processors for which the topology module supports the uncore, and exactly on these the access daemon
  serves PCI devices; and power measurements are initialized exactly on the processors with RAPL. The exceptions are listed: the mobile Lynnfield
  has tables, but no functions and no name, so that the first call through a function pointer is a call through NULL; Broadwell E has a name
  of its own; Broadwell D has PCI devices in the daemon, but none in the library; and power measurements are started on Airmont, without RAPL.
\<close>

theorem tables_match_functions:
  assumes "\<not> ci_supportUncore c"
  shows "case perfmon_init_maps family model of
      None \<Rightarrow> perfmon_init_funcs family model = no_funcs \<and> \<not> ci_supportUncore (snd (topology_setName family model c)) \<and> \<not> daemon_pci family model
    | Some mp \<Rightarrow>
        mp_numArchEvents mp = mp_eventHash mp \<and> mp_numCounters mp = mp_counter_map mp \<and> mp_box_map mp = mp_counter_map mp \<and>
        mp_numCoreCounters mp \<in> {None, Some (mp_counter_map mp)} \<and>
        same_funcs (perfmon_init_funcs family model)
          (if family = P6_FAMILY \<and> model = NEHALEM_LYNNFIELD_M then None else Some (functions_for (mp_counter_map mp))) \<and>
        ci_short_name (snd (topology_setName family model c)) =
          Some (if family = P6_FAMILY \<and> model = NEHALEM_LYNNFIELD_M then ''unknown''
            else if family = P6_FAMILY \<and> model = BROADWELL_E then ''broadwellEP'' else arch_name (mp_eventHash mp)) \<and>
        mp_pci_devices mp = (if ci_supportUncore (snd (topology_setName family model c)) then Some (mp_counter_map mp) else None) \<and>
        (daemon_pci family model \<longleftrightarrow> mp_pci_devices mp \<noteq> None \<or> family = P6_FAMILY \<and> model = BROADWELL_D) \<and>
        (fn_power (perfmon_init_funcs family model) \<longleftrightarrow> family = P6_FAMILY \<and> (rapl_model model \<or> model = ATOM_SILVERMONT_AIR))"
proof (cases "family = P6_FAMILY")
  case True
  have u: "perfmon_init_maps family model = init_maps_p6 model" "perfmon_init_funcs family model = init_funcs_p6 model"
      "snd (topology_setName family model c) = set_name_p6 model c" "daemon_pci family model = daemon_pci P6_FAMILY model"
    by (simp_all add: True perfmon_init_maps_def perfmon_init_funcs_def topology_setName_def)
  show ?thesis
    unfolding u using p6_tables [of model] p6_names [of model c] p6_pci [OF assms, of model] p6_power [of model] True
    by (cases "init_maps_p6 model") simp_all
next
  case False
  then show ?thesis
    using assms unfolding perfmon_init_maps_def perfmon_init_funcs_def topology_setName_def daemon_pci_def select_policy_def select_defs by simp
qed

theorem tables_match_functions_witness:
  "ci_short_name (snd (topology_setName P6_FAMILY IVYBRIDGE_EP \<lparr>ci_name = None, ci_short_name = None, ci_supportUncore = False\<rparr>)) = Some ''ivybridgeEP'' \<and>
   same_funcs (perfmon_init_funcs P6_FAMILY IVYBRIDGE_EP) (Some Ivybridge) \<and> daemon_pci P6_FAMILY IVYBRIDGE_EP"
proof -
  let ?c = "\<lparr>ci_name = None, ci_short_name = None, ci_supportUncore = False\<rparr>"
  have "\<not> ci_supportUncore ?c" by simp
  moreover have "perfmon_init_maps P6_FAMILY IVYBRIDGE_EP = Some ((map_tables IvybridgeEP IvybridgeEP IvybridgeEP IvybridgeEP IvybridgeEP)
      \<lparr>mp_numCoreCounters := Some IvybridgeEP, mp_pci_devices := Some IvybridgeEP\<rparr>)"
    by (simp add: perfmon_init_maps_def init_maps_p6_def)
  ultimately show ?thesis using tables_match_functions [of ?c P6_FAMILY IVYBRIDGE_EP] by (simp add: map_tables_def)
qed

end
