(* ===== verification/Affinity.thy ===== *)
theory Affinity
  imports Topology CpuString
begin

text \<open>
  The affinity domains, \<open>src/src/affinity.c\<close>: the node, its sockets, its last level caches and its memory
  domains, each with the list of its processors, filled from the topology tree. The topology
  (\<open>cpuid_topology\<close>) and the NUMA nodes (\<open>numa_info\<close>) are input. Allocation succeeds; fresh memory holds the
  numbers \<open>junk\<close>, and a domain that was never written is \<^term>\<open>None\<close>.
\<close>

section \<open>Data\<close>

record affinity_domain =
  dm_tag :: string
  dm_numberOfProcessors :: nat
  dm_numberOfCores :: nat
  dm_processorList :: "int list"

text \<open>The part of \<open>cpuid_topology\<close> and \<open>numa_info\<close> that is used: \<open>tp_cacheThreads\<close> has the threads of every cache
  level, \<open>tp_nodeProcessors\<close> the number of processors of every NUMA node.\<close>

record affinity_topology =
  tp_tree :: tree_heap
  tp_counts :: topology_counts
  tp_threadPool :: "HWThread list"
  tp_numHWThreads :: nat
  tp_activeHWThreads :: nat
  tp_cacheThreads :: "nat list"
  tp_nodeProcessors :: "nat list"

record affinity_domains =
  numberOfSocketDomains :: nat
  numberOfNumaDomains :: nat
  numberOfProcessorsPerSocket :: nat
  numberOfCacheDomains :: nat
  numberOfCoresPerCache :: nat
  numberOfProcessorsPerCache :: nat
  numberOfAffinityDomains :: nat
  affinity_list :: "affinity_domain option list option"

record affinity =
  affinity_initialized :: bool
  affinity_numberOfDomains :: nat
  core2node_lookup :: "int list"
  affinityDomains :: affinity_domains

section \<open>Processors from the topology tree\<close>

text \<open>The threads of a core that are in the CPU set are written to the list; \<open>counter\<close> is what is left.\<close>

partial_function (option) fill_threads ::
  "tree_heap \<Rightarrow> HWThread list \<Rightarrow> int \<Rightarrow> int \<Rightarrow> nat \<Rightarrow> int list \<times> int \<Rightarrow> (int list \<times> int) option" where
  "fill_threads h pool base n thread s =
     (if thread = 0 then Some s
      else do {
        nd \<leftarrow> deref h thread;
        t \<leftarrow> arr_get pool (tn_id nd);
        s' \<leftarrow> (if inCpuSet t \<noteq> 0
              then do { list' \<leftarrow> arr_set (fst s) (base + (n - snd s)) (tn_id nd); Some (list', snd s - 1) }
              else Some s);
        next \<leftarrow> tree_getNextNode h thread;
        fill_threads h pool base n next s' })"

partial_function (option) fill_cores ::
  "tree_heap \<Rightarrow> HWThread list \<Rightarrow> int \<Rightarrow> int \<Rightarrow> nat \<Rightarrow> int list \<times> int \<Rightarrow> (int list \<times> int) option" where
  "fill_cores h pool base n node s =
     (if node = 0 \<or> snd s = 0 then Some s
      else do {
        thread \<leftarrow> tree_getChildNode h node;
        s' \<leftarrow> fill_threads h pool base n thread s;
        next \<leftarrow> tree_getNextNode h node;
        fill_cores h pool base n next s' })"

fun skip_nodes :: "tree_heap \<Rightarrow> nat \<Rightarrow> nat \<Rightarrow> nat option" where
  "skip_nodes h 0 node = Some node"
| "skip_nodes h (Suc k) node = do { next \<leftarrow> tree_getNextNode h node; skip_nodes h k next }"

text \<open>\<open>processorIds\<close> points to position \<open>base\<close> of the array.\<close>

definition treeFillNextEntries ::
  "affinity_topology \<Rightarrow> int list \<Rightarrow> nat \<Rightarrow> nat \<Rightarrow> nat \<Rightarrow> nat \<Rightarrow> (int list \<times> nat) option" where
  "treeFillNextEntries A processorIds base socketId offset numberOfEntries = do {
     node \<leftarrow> tree_getChildNode (tp_tree A) (topologyTree (tp_counts A));
     socket \<leftarrow> skip_nodes (tp_tree A) socketId node;
     core \<leftarrow> tree_getChildNode (tp_tree A) socket;
     core' \<leftarrow> skip_nodes (tp_tree A) offset core;
     (ids, counter) \<leftarrow> fill_cores (tp_tree A) (tp_threadPool A) (int base) (int numberOfEntries) core' (processorIds, int numberOfEntries);
     Some (ids, nat (int numberOfEntries - counter)) }"

section \<open>Initialization\<close>

definition malloc_ints :: "(nat \<Rightarrow> int) \<Rightarrow> nat \<Rightarrow> int list" where
  "malloc_ints junk n = map junk [0..<n]"

fun opt_fold :: "('x \<Rightarrow> 's \<Rightarrow> 's option) \<Rightarrow> 'x list \<Rightarrow> 's \<Rightarrow> 's option" where
  "opt_fold f [] s = Some s"
| "opt_fold f (x # xs) s = do { s' \<leftarrow> f x s; opt_fold f xs s' }"

abbreviation processors_per_socket :: "affinity_topology \<Rightarrow> nat" where
  "processors_per_socket A \<equiv> numCoresPerSocket (tp_counts A) * numThreadsPerCore (tp_counts A)"

text \<open>The domain N.\<close>

definition node_entries :: "affinity_topology \<Rightarrow> nat \<Rightarrow> int list \<times> nat \<Rightarrow> (int list \<times> nat) option" where
  "node_entries A i = (\<lambda>(list, offset). do {
     (list', tmp) \<leftarrow> treeFillNextEntries A list offset i 0 (processors_per_socket A);
     Some (list', offset + tmp) })"

definition node_domain :: "(nat \<Rightarrow> int) \<Rightarrow> affinity_topology \<Rightarrow> affinity_domain option" where
  "node_domain junk A = do {
     let sockets = numSockets (tp_counts A);
     let list = malloc_ints junk (tp_numHWThreads A);
     (list', n) \<leftarrow> (if 1 < sockets
       then do { (list', _) \<leftarrow> opt_fold (node_entries A) [0..<sockets] (list, 0); Some (list', tp_activeHWThreads A) }
       else treeFillNextEntries A list 0 0 0 (tp_activeHWThreads A));
     Some \<lparr>dm_tag = ''N'', dm_numberOfProcessors = n, dm_numberOfCores = sockets * numCoresPerSocket (tp_counts A),
           dm_processorList = list'\<rparr> }"

text \<open>The domains of the sockets; \<open>affinity_core2node_lookup\<close> gets the socket of every processor.\<close>

definition set_node :: "int \<Rightarrow> int \<Rightarrow> int list \<Rightarrow> int list option" where
  "set_node i cpu lookup = arr_set lookup cpu i"

definition socket_domain ::
  "(nat \<Rightarrow> int) \<Rightarrow> affinity_topology \<Rightarrow> nat \<Rightarrow> affinity_domain option list \<times> int list \<Rightarrow>
   (affinity_domain option list \<times> int list) option" where
  "socket_domain junk A i = (\<lambda>(ds, lookup). do {
     let n = processors_per_socket A;
     (list, tmp) \<leftarrow> treeFillNextEntries A (malloc_ints junk n) 0 i 0 n;
     let tmp' = min tmp n;
     lookup' \<leftarrow> opt_fold (set_node (int i)) (take tmp' list) lookup;
     ds' \<leftarrow> arr_set ds (1 + int i) (Some \<lparr>dm_tag = CHR ''S'' # dec_string i, dm_numberOfProcessors = tmp',
       dm_numberOfCores = numCoresPerSocket (tp_counts A), dm_processorList = list\<rparr>);
     Some (ds', lookup') })"

text \<open>The domains of the last level caches, from position \<open>first\<close> on; \<open>offset\<close> counts cores.\<close>

definition cache_domain ::
  "(nat \<Rightarrow> int) \<Rightarrow> affinity_topology \<Rightarrow> nat \<Rightarrow> nat \<Rightarrow> nat \<Rightarrow> nat \<Rightarrow> nat \<Rightarrow> affinity_domain option list \<times> nat \<times> nat \<Rightarrow>
   (affinity_domain option list \<times> nat \<times> nat) option" where
  "cache_domain junk A first perCache coresPerCache i j = (\<lambda>(ds, subCounter, offset). do {
     (list, tmp) \<leftarrow> treeFillNextEntries A (malloc_ints junk perCache) 0 i offset perCache;
     ds' \<leftarrow> arr_set ds (int (first + subCounter)) (Some \<lparr>dm_tag = CHR ''C'' # dec_string subCounter,
       dm_numberOfProcessors = tmp, dm_numberOfCores = coresPerCache, dm_processorList = list\<rparr>);
     Some (ds', subCounter + 1, offset + (if tmp < coresPerCache then tmp else coresPerCache)) })"

definition cache_domains ::
  "(nat \<Rightarrow> int) \<Rightarrow> affinity_topology \<Rightarrow> nat \<Rightarrow> nat \<Rightarrow> nat \<Rightarrow> nat \<Rightarrow> nat \<Rightarrow> affinity_domain option list \<times> nat \<Rightarrow>
   (affinity_domain option list \<times> nat) option" where
  "cache_domains junk A first perCache coresPerCache perSocket i = (\<lambda>(ds, subCounter). do {
     (ds', subCounter', _) \<leftarrow> opt_fold (cache_domain junk A first perCache coresPerCache i) [0..<perSocket] (ds, subCounter, 0);
     Some (ds', subCounter') })"

text \<open>The memory domains: one per NUMA node, or a single one.\<close>

definition memory_domain ::
  "(nat \<Rightarrow> int) \<Rightarrow> affinity_topology \<Rightarrow> nat \<Rightarrow> nat \<Rightarrow> nat \<Rightarrow> affinity_domain option list \<times> nat \<times> nat \<Rightarrow>
   (affinity_domain option list \<times> nat \<times> nat) option" where
  "memory_domain junk A first i j = (\<lambda>(ds, subCounter, offset). do {
     n \<leftarrow> arr_get (tp_nodeProcessors A) (int subCounter);
     let cores = n div numThreadsPerCore (tp_counts A);
     (list, tmp) \<leftarrow> treeFillNextEntries A (malloc_ints junk n) 0 i offset n;
     ds' \<leftarrow> arr_set ds (int (first + subCounter)) (Some \<lparr>dm_tag = CHR ''M'' # dec_string subCounter,
       dm_numberOfProcessors = tmp, dm_numberOfCores = cores, dm_processorList = list\<rparr>);
     Some (ds', subCounter + 1, offset + cores) })"

definition memory_domains ::
  "(nat \<Rightarrow> int) \<Rightarrow> affinity_topology \<Rightarrow> nat \<Rightarrow> nat \<Rightarrow> nat \<Rightarrow> affinity_domain option list \<times> nat \<Rightarrow>
   (affinity_domain option list \<times> nat) option" where
  "memory_domains junk A first perSocket i = (\<lambda>(ds, subCounter). do {
     (ds', subCounter', _) \<leftarrow> opt_fold (memory_domain junk A first i) [0..<perSocket] (ds, subCounter, 0);
     Some (ds', subCounter') })"

definition single_entries :: "affinity_topology \<Rightarrow> nat \<Rightarrow> int list \<times> nat \<times> nat \<Rightarrow> (int list \<times> nat \<times> nat) option" where
  "single_entries A i = (\<lambda>(list, offset, tmp). do {
     (list', t) \<leftarrow> treeFillNextEntries A list offset i 0 (processors_per_socket A);
     Some (list', offset + processors_per_socket A, tmp + t) })"

definition single_memory_domain :: "(nat \<Rightarrow> int) \<Rightarrow> affinity_topology \<Rightarrow> nat \<Rightarrow> affinity_domain option list \<Rightarrow>
    affinity_domain option list option" where
  "single_memory_domain junk A first ds = do {
     let sockets = numSockets (tp_counts A);
     let n = processors_per_socket A * sockets;
     (list, _, tmp) \<leftarrow> opt_fold (single_entries A) [0..<sockets] (malloc_ints junk n, 0, 0);
     arr_set ds (int first) (Some \<lparr>dm_tag = ''M0'', dm_numberOfProcessors = tmp,
       dm_numberOfCores = n div numThreadsPerCore (tp_counts A), dm_processorList = list\<rparr>) }"

text \<open>\<open>topology_init\<close> and \<open>numa_init\<close> have run; their result is \<open>A\<close>. Divisions by 0 are undefined.\<close>

definition affinity_init :: "(nat \<Rightarrow> int) \<Rightarrow> affinity_topology \<Rightarrow> affinity \<Rightarrow> affinity option" where
  "affinity_init junk A s =
     (if affinity_initialized s then Some s
      else do {
        let sockets = numSockets (tp_counts A);
        let numas = length (tp_nodeProcessors A);
        perCache \<leftarrow> arr_get (tp_cacheThreads A) (int (length (tp_cacheThreads A)) - 1);
        coresPerCache \<leftarrow> (if numThreadsPerCore (tp_counts A) = 0 then None else Some (perCache div numThreadsPerCore (tp_counts A)));
        caches \<leftarrow> (if coresPerCache = 0 then None else Some (sockets * (numCoresPerSocket (tp_counts A) div coresPerCache)));
        let total = 1 + sockets + caches + numas;
        node \<leftarrow> node_domain junk A;
        (ds1, lookup) \<leftarrow> opt_fold (socket_domain junk A) [0..<sockets] ((replicate total None)[0 := Some node], core2node_lookup s);
        (ds2, _) \<leftarrow> opt_fold (cache_domains junk A (1 + sockets) perCache coresPerCache (caches div sockets)) [0..<sockets] (ds1, 0);
        ds3 \<leftarrow> (if sockets \<le> numas \<and> 1 < numas
          then do {
            (ds3, _) \<leftarrow> opt_fold (memory_domains junk A (1 + sockets + caches) ((numas + sockets - 1) div sockets)) [0..<sockets] (ds2, 0);
            Some ds3 }
          else single_memory_domain junk A (1 + sockets + caches) ds2);
        Some \<lparr>affinity_initialized = True, affinity_numberOfDomains = total, core2node_lookup = lookup,
          affinityDomains = \<lparr>numberOfSocketDomains = sockets, numberOfNumaDomains = numas,
            numberOfProcessorsPerSocket = processors_per_socket A, numberOfCacheDomains = caches,
            numberOfCoresPerCache = coresPerCache, numberOfProcessorsPerCache = perCache,
            numberOfAffinityDomains = total, affinity_list = Some ds3\<rparr>\<rparr> })"

section \<open>Queries and finalization\<close>

text \<open>The position of a domain; comparing with the tag of a domain that was never written is undefined.\<close>

fun find_tag :: "string \<Rightarrow> affinity_domain option list \<Rightarrow> nat \<Rightarrow> nat option option" where
  "find_tag domain [] i = Some None"
| "find_tag domain (None # ds) i = None"
| "find_tag domain (Some d # ds) i = (if dm_tag d = domain then Some (Some i) else find_tag domain ds (i + 1))"

definition affinity_getDomain :: "string \<Rightarrow> affinity \<Rightarrow> nat option option" where
  "affinity_getDomain domain s =
     (if affinity_numberOfDomains s = 0 then Some None
      else do {
        ds \<leftarrow> affinity_list (affinityDomains s);
        if affinity_numberOfDomains s \<le> length ds then find_tag domain (take (affinity_numberOfDomains s) ds) 0 else None })"

definition affinity_finalize :: "affinity \<Rightarrow> affinity option" where
  "affinity_finalize s =
     (if \<not> affinity_initialized s then Some s
      else (case affinity_list (affinityDomains s) of
        None \<Rightarrow> Some s
      | Some ds \<Rightarrow>
          if numberOfAffinityDomains (affinityDomains s) \<le> length ds \<and>
             None \<notin> set (take (numberOfAffinityDomains (affinityDomains s)) ds)
          then Some (s\<lparr>affinity_initialized := False, affinity_numberOfDomains := 0,
            affinityDomains := \<lparr>numberOfSocketDomains = 0, numberOfNumaDomains = 0, numberOfProcessorsPerSocket = 0,
              numberOfCacheDomains = 0, numberOfCoresPerCache = 0, numberOfProcessorsPerCache = 0,
              numberOfAffinityDomains = 0, affinity_list = None\<rparr>\<rparr>)
          else None))"

text \<open>The domains as the processor strings use them.\<close>

definition as_domain :: "affinity_domain \<Rightarrow> AffinityDomain" where
  "as_domain d = \<lparr>tag = dm_tag d, processorList = take (dm_numberOfProcessors d) (dm_processorList d)\<rparr>"

definition written_domains :: "affinity \<Rightarrow> AffinityDomain list option" where
  "written_domains s = do {
     ds \<leftarrow> affinity_list (affinityDomains s);
     if None \<in> set ds then None else Some (map (\<lambda>d. as_domain (the d)) ds) }"

end
