(* ===== verification/Affinity_Fill.thy ===== *)
theory Affinity_Fill
  imports Affinity
begin

text \<open>
  Filling a list of processors from the topology tree, and the loops of the initialization of the affinity
  domains: a list gets the active processors of consecutive cores, whole cores until its counter is exactly 0,
  and is written behind its end when the counter never is.
\<close>

section \<open>The machine as nested lists\<close>

text \<open>The processors of every core of every socket, in the order of the tree.\<close>

definition tree_shape :: "affinity_topology \<Rightarrow> int list list list" where
  "tree_shape A = (let h = tp_tree A in
     map (\<lambda>s. map (\<lambda>c. map (nid h) (kids h c)) (kids h s)) (kids h (topologyTree (tp_counts A))))"

definition active :: "affinity_topology \<Rightarrow> int \<Rightarrow> bool" where
  "active A cpu \<longleftrightarrow> inCpuSet (tp_threadPool A ! nat cpu) \<noteq> 0"

definition active_cores :: "affinity_topology \<Rightarrow> nat \<Rightarrow> int list list" where
  "active_cores A i = map (filter (active A)) (tree_shape A ! i)"

definition tree_ok :: "affinity_topology \<Rightarrow> bool" where
  "tree_ok A \<longleftrightarrow> tree_wf (tp_tree A) \<and> topologyTree (tp_counts A) \<in> dom (cells (tp_tree A)) \<and>
     length (tree_shape A) = numSockets (tp_counts A) \<and>
     (\<forall>s\<in>set (tree_shape A). \<forall>c\<in>set s. \<forall>cpu\<in>set c. 0 \<le> cpu \<and> cpu < int (length (tp_threadPool A)))"

text \<open>What is taken from a list of cores: whole cores, until the counter is exactly 0.\<close>

fun next_entries :: "int \<Rightarrow> int list list \<Rightarrow> int list" where
  "next_entries n [] = []"
| "next_entries n (c # cs) = (if n = 0 then [] else c @ next_entries (n - int (length c)) cs)"

lemma next_entries_all: "int (length (concat cs)) \<le> n \<Longrightarrow> next_entries n cs = concat cs"
proof (induction cs arbitrary: n)
  case (Cons c cs)
  then have le: "int (length (concat cs)) \<le> n - int (length c)" by simp
  have "c = [] \<and> concat cs = []" if "n = 0" using Cons.prems that by (metis add_eq_0_iff_both_eq_0 concat.simps(2) le_zero_eq length_0_conv length_append of_nat_0_le_iff of_nat_eq_0_iff order_antisym)
  then show ?case using Cons.IH [OF le] by auto
qed simp

lemma next_entries_subset: "set (next_entries n cs) \<subseteq> set (concat cs)"
  by (induction cs arbitrary: n) auto

lemma next_entries_cores:
  assumes "\<forall>c\<in>set cs. length c = t" "0 < t" "k \<le> length cs"
  shows "next_entries (int (k * t)) cs = concat (take k cs)"
  using assms(1,3)
proof (induction cs arbitrary: k)
  case (Cons c cs)
  then show ?case
  proof (cases k)
    case (Suc k')
    have "int (k * t) - int (length c) = int (k' * t)" using Suc Cons.prems(1) by (simp add: algebra_simps)
    moreover have "int (k * t) \<noteq> 0" using Suc assms(2) by (simp del: of_nat_mult)
    ultimately show ?thesis using Cons Suc by (simp del: of_nat_mult)
  qed simp
qed simp

section \<open>Filling a list\<close>

definition overwrite :: "'a list \<Rightarrow> nat \<Rightarrow> 'a list \<Rightarrow> 'a list" where
  "overwrite xs b es = take b xs @ es @ drop (b + length es) xs"

lemma overwrite_length: "b + length es \<le> length xs \<Longrightarrow> length (overwrite xs b es) = length xs"
  by (simp add: overwrite_def)

lemma overwrite_Nil: "b \<le> length xs \<Longrightarrow> overwrite xs b [] = xs"
  by (simp add: overwrite_def)

lemma overwrite_overwrite:
  "b + length es + length fs \<le> length xs \<Longrightarrow> overwrite (overwrite xs b es) (b + length es) fs = overwrite xs b (es @ fs)"
  by (simp add: overwrite_def min.absorb2 ac_simps)

lemma overwrite_one: "b < length xs \<Longrightarrow> xs[b := e] = overwrite xs b [e]"
  by (simp add: overwrite_def upd_conv_take_nth_drop)

lemma overwrite_range: "b + length es \<le> length xs \<Longrightarrow> take (length es) (drop b (overwrite xs b es)) = es"
  by (simp add: overwrite_def)

lemma chain_next: "chain h p (a # as) \<Longrightarrow> tree_getNextNode h a = Some (nrl h a)"
  by (auto simp: tree_getNextNode_def deref_dom)

lemma chain_child: "\<lbrakk>tree_wf h; a \<in> dom (cells h)\<rbrakk> \<Longrightarrow> tree_getChildNode h a = Some (nll h a) \<and> chain h (nll h a) (kids h a)"
  using tree_wfD [of h a] by (auto simp: tree_getChildNode_def deref_dom)

lemma skip_nodes_chain:
  "chain h p as \<Longrightarrow> (if k \<le> length as then \<exists>q. skip_nodes h k p = Some q \<and> chain h q (drop k as) else skip_nodes h k p = None)"
proof (induction k arbitrary: p as)
  case (Suc k)
  show ?case
  proof (cases as)
    case Nil
    then show ?thesis using Suc.prems by (simp add: tree_getNextNode_def deref_def)
  next
    case (Cons a as')
    then have "p = a" "chain h (nrl h a) as'" "tree_getNextNode h a = Some (nrl h a)" using Suc.prems chain_next [of h p a as'] by simp_all
    then show ?thesis using Suc.IH [of "nrl h a" as'] Cons by simp
  qed
qed simp

definition pool_ok :: "HWThread list \<Rightarrow> int list \<Rightarrow> bool" where
  "pool_ok pool ids \<longleftrightarrow> (\<forall>i\<in>set ids. 0 \<le> i \<and> i < int (length pool))"

abbreviation in_pool :: "HWThread list \<Rightarrow> int \<Rightarrow> bool" where
  "in_pool pool cpu \<equiv> inCpuSet (pool ! nat cpu) \<noteq> 0"

lemma fill_threads_chain:
  assumes "chain h p as" "pool_ok pool (map (nid h) as)" "b + k \<le> length l"
  shows "fill_threads h pool (int b) n p (l, n - int k) =
    (let e = filter (in_pool pool) (map (nid h) as)
     in if b + k + length e \<le> length l then Some (overwrite l (b + k) e, n - int (k + length e)) else None)"
  using assms
proof (induction as arbitrary: p l k)
  case Nil
  then show ?case by (simp add: fill_threads.simps overwrite_Nil)
next
  case (Cons a as)
  have a: "p = a" "a \<noteq> 0" "a \<in> dom (cells h)" "chain h (nrl h a) as" using Cons.prems(1) by auto
  have g: "arr_get pool (nid h a) = Some (pool ! nat (nid h a))" using Cons.prems(2) by (simp add: pool_ok_def arr_get_def)
  have p: "pool_ok pool (map (nid h) as)" using Cons.prems(2) by (simp add: pool_ok_def)
  note step = fill_threads.simps [of h pool "int b" n a] deref_dom [OF a(2,3)] g chain_next [OF Cons.prems(1)]
  have pos: "int b + (n - (n - int k)) = int (b + k)" by simp
  show ?case
  proof (cases "in_pool pool (nid h a)")
    case False
    then show ?thesis using Cons.IH [OF a(4) p Cons.prems(3)] a(1,2) by (simp add: step)
  next
    case True
    show ?thesis
    proof (cases "b + k < length l")
      case False
      then show ?thesis using True a(1,2) by (simp add: step arr_set_def)
    next
      case less: True
      let ?l = "l[b + k := nid h a]"
      have set: "arr_set l (int b + (n - (n - int k))) (nid h a) = Some ?l" unfolding pos using less by (simp add: arr_set_def del: of_nat_add)
      have IH: "fill_threads h pool (int b) n (nrl h a) (?l, n - int (Suc k)) =
          (let e = filter (in_pool pool) (map (nid h) as)
           in if b + Suc k + length e \<le> length ?l then Some (overwrite ?l (b + Suc k) e, n - int (Suc k + length e)) else None)"
        by (rule Cons.IH [OF a(4) p]) (use less in simp)
      have ov: "overwrite ?l (b + Suc k) e = overwrite l (b + k) (nid h a # e)" if "b + Suc k + length e \<le> length l" for e
        using overwrite_overwrite [of "b + k" "[nid h a]" e l] that less by (simp add: overwrite_one)
      have "fill_threads h pool (int b) n p (l, n - int k) = fill_threads h pool (int b) n (nrl h a) (?l, n - int (Suc k))"
        using True a(1,2) set by (simp add: step algebra_simps)
      then show ?thesis unfolding IH using True ov by (simp add: Let_def)
    qed
  qed
qed

text \<open>The active processors of the cores of a sibling list.\<close>

definition core_lists :: "tree_heap \<Rightarrow> HWThread list \<Rightarrow> nat list \<Rightarrow> int list list" where
  "core_lists h pool as = map (\<lambda>c. filter (in_pool pool) (map (nid h) (kids h c))) as"

lemma fill_cores_chain:
  assumes "tree_wf h" "chain h p as" "\<forall>c\<in>set as. pool_ok pool (map (nid h) (kids h c))" "b + k \<le> length l"
  shows "fill_cores h pool (int b) n p (l, n - int k) =
    (let e = next_entries (n - int k) (core_lists h pool as)
     in if b + k + length e \<le> length l then Some (overwrite l (b + k) e, n - int (k + length e)) else None)"
  using assms(2-)
proof (induction as arbitrary: p l k)
  case Nil
  then show ?case by (simp add: fill_cores.simps core_lists_def overwrite_Nil)
next
  case (Cons a as)
  have a: "p = a" "a \<noteq> 0" "a \<in> dom (cells h)" "chain h (nrl h a) as" using Cons.prems(1) by auto
  note ch = chain_child [OF assms(1) a(3)]
  define e where "e = filter (in_pool pool) (map (nid h) (kids h a))"
  have p: "pool_ok pool (map (nid h) (kids h a))" "\<forall>c\<in>set as. pool_ok pool (map (nid h) (kids h c))" using Cons.prems(2) by simp_all
  show ?case
  proof (cases "n - int k = 0")
    case True
    then show ?thesis using Cons.prems(3) by (simp add: fill_cores.simps core_lists_def overwrite_Nil)
  next
    case False
    have step: "fill_cores h pool (int b) n p (l, n - int k) = Option.bind (fill_threads h pool (int b) n (nll h a) (l, n - int k))
        (\<lambda>s'. fill_cores h pool (int b) n (nrl h a) s')"
      using False a(1,2) ch chain_next [OF Cons.prems(1)] by (simp add: fill_cores.simps [of h pool "int b" n a] cong: bind_option_cong)
    have th: "fill_threads h pool (int b) n (nll h a) (l, n - int k) =
        (if b + k + length e \<le> length l then Some (overwrite l (b + k) e, n - int (k + length e)) else None)"
      using fill_threads_chain [OF conjunct2 [OF ch] p(1) Cons.prems(3), of n] unfolding e_def by (simp only: Let_def)
    define es where "es = next_entries (n - int (k + length e)) (core_lists h pool as)"
    have cl: "core_lists h pool (a # as) = e # core_lists h pool as" by (simp add: core_lists_def e_def)
    have es: "next_entries (n - int k) (core_lists h pool (a # as)) = e @ es"
      using False cl by (simp add: es_def algebra_simps)
    show ?thesis
    proof (cases "b + k + length e \<le> length l")
      case False
      then show ?thesis unfolding step th es by simp
    next
      case True
      have IH: "fill_cores h pool (int b) n (nrl h a) (overwrite l (b + k) e, n - int (k + length e)) =
          (if b + (k + length e) + length es \<le> length l
             then Some (overwrite (overwrite l (b + k) e) (b + (k + length e)) es, n - int (k + length e + length es)) else None)"
        using Cons.IH [OF a(4) p(2), of "k + length e" "overwrite l (b + k) e"] True
        unfolding es_def [symmetric] by (simp only: overwrite_length Let_def add.assoc)
      have ov: "overwrite (overwrite l (b + k) e) (b + (k + length e)) es = overwrite l (b + k) (e @ es)"
        if "b + (k + length e) + length es \<le> length l"
        using overwrite_overwrite [of "b + k" e es l] that by (simp add: add.assoc)
      show ?thesis unfolding step th es using True IH ov by (simp add: add.assoc)
    qed
  qed
qed

lemma tree_fill:
  assumes "tree_ok A" "i < numSockets (tp_counts A)" "b \<le> length l"
  shows "treeFillNextEntries A l b i off n = (if off \<le> length (tree_shape A ! i) then
    (let e = next_entries (int n) (drop off (active_cores A i)) in if b + length e \<le> length l then Some (overwrite l b e, length e) else None)
    else None)"
proof -
  define h where "h = tp_tree A"
  define root where "root = topologyTree (tp_counts A)"
  define pool where "pool = tp_threadPool A"
  define sock where "sock = kids h root ! i"
  have wf: "tree_wf h" "root \<in> dom (cells h)" using assms(1) by (simp_all add: tree_ok_def h_def root_def)
  have len: "i < length (kids h root)" using assms(1,2) by (simp add: tree_ok_def tree_shape_def h_def root_def Let_def)
  have shape: "tree_shape A ! i = map (\<lambda>c. map (nid h) (kids h c)) (kids h sock)" "tree_shape A ! i \<in> set (tree_shape A)"
    using len by (simp_all add: tree_shape_def h_def root_def sock_def Let_def)
  note r = chain_child [OF wf]
  obtain q where q: "skip_nodes h i (nll h root) = Some q" "chain h q (drop i (kids h root))"
    using skip_nodes_chain [OF conjunct2 [OF r], of i] len by auto
  have sd: "q = sock" "sock \<in> dom (cells h)" using q(2) len by (simp_all add: sock_def flip: Cons_nth_drop_Suc)
  note c = chain_child [OF wf(1) sd(2)]
  have ids: "\<forall>c\<in>set (kids h sock). pool_ok pool (map (nid h) (kids h c))"
    using assms(1) shape unfolding tree_ok_def pool_ok_def pool_def by fastforce
  have unfold: "treeFillNextEntries A l b i off n = do {
      core' \<leftarrow> skip_nodes h off (nll h sock);
      (ids, counter) \<leftarrow> fill_cores h pool (int b) (int n) core' (l, int n);
      Some (ids, nat (int n - counter)) }"
    using r c q(1) sd(1) by (simp add: treeFillNextEntries_def h_def [symmetric] root_def [symmetric] pool_def [symmetric])
  show ?thesis
  proof (cases "off \<le> length (kids h sock)")
    case False
    then show ?thesis using skip_nodes_chain [OF conjunct2 [OF c], of off] unfolding unfold shape(1) by simp
  next
    case True
    then obtain p where p: "skip_nodes h off (nll h sock) = Some p" "chain h p (drop off (kids h sock))"
      using skip_nodes_chain [OF conjunct2 [OF c], of off] by auto
    have act: "active A = in_pool pool" by (simp add: fun_eq_iff active_def pool_def)
    have cores: "core_lists h pool (drop off (kids h sock)) = drop off (active_cores A i)"
      unfolding active_cores_def act by (simp add: core_lists_def shape(1) drop_map)
    have "fill_cores h pool (int b) (int n) p (l, int n) = (let e = next_entries (int n) (drop off (active_cores A i))
        in if b + length e \<le> length l then Some (overwrite l b e, int n - int (length e)) else None)"
      using fill_cores_chain [OF wf(1) p(2), where k = 0 and n = "int n" and b = b and l = l and pool = pool] ids assms(3)
      by (simp add: cores set_drop_subset [THEN subsetD] Let_def)
    then show ?thesis using True p(1) unfolding unfold shape(1) by (simp add: Let_def)
  qed
qed

section \<open>Loops\<close>

lemma opt_fold_append: "opt_fold f (xs @ ys) s = Option.bind (opt_fold f xs s) (opt_fold f ys)"
  by (induction xs arbitrary: s) (auto split: bind_splits)

lemma opt_fold_upt:
  assumes "opt_fold f [0..<n] s = Some s'" "I 0 s" "\<And>i s s'. \<lbrakk>i < n; I i s; f i s = Some s'\<rbrakk> \<Longrightarrow> I (Suc i) s'"
  shows "I n s'"
  using assms
proof (induction n arbitrary: s')
  case (Suc n)
  then obtain s1 where s1: "opt_fold f [0..<n] s = Some s1" "f n s1 = Some s'"
    by (auto simp: opt_fold_append split: bind_splits)
  then have "I n s1" using Suc.IH Suc.prems(2,3) by simp
  then show ?case using Suc.prems(3) s1(2) by simp
qed simp

lemma opt_fold_total:
  assumes "I 0 s" "\<And>i s. \<lbrakk>i < n; I i s\<rbrakk> \<Longrightarrow> \<exists>s'. f i s = Some s' \<and> I (Suc i) s'"
  shows "\<exists>s'. opt_fold f [0..<n] s = Some s' \<and> I n s'"
  using assms
proof (induction n)
  case (Suc n)
  then obtain s1 where "opt_fold f [0..<n] s = Some s1" "I n s1" by auto
  moreover obtain s' where "f n s1 = Some s'" "I (Suc n) s'" using Suc.prems(2) calculation(2) by blast
  ultimately show ?case by (auto simp: opt_fold_append)
qed simp

lemma opt_fold_inv:
  "\<lbrakk>opt_fold f xs s = Some s'; I s; \<And>x s s'. \<lbrakk>x \<in> set xs; I s; f x s = Some s'\<rbrakk> \<Longrightarrow> I s'\<rbrakk> \<Longrightarrow> I s'"
proof (induction xs arbitrary: s)
  case (Cons x xs)
  then obtain s1 where "f x s = Some s1" "opt_fold f xs s1 = Some s'" by (auto split: bind_splits)
  then show ?case using Cons.IH [of s1] Cons.prems(2,3) by auto
qed simp

lemma opt_fold_None: "\<lbrakk>x \<in> set xs; \<And>s. f x s = None\<rbrakk> \<Longrightarrow> opt_fold f xs s = None"
  by (induction xs arbitrary: s) (auto split: bind_splits)

section \<open>The CPU set\<close>

text \<open>Whatever is filled is active; \<open>fresh_fill\<close> is about a list of its own.\<close>

lemma active_entries: "i < length (tree_shape A) \<Longrightarrow> \<forall>cpu\<in>set (next_entries n (drop off (active_cores A i))). active A cpu"
proof -
  have "set (concat (drop off (active_cores A i))) \<subseteq> set (concat (active_cores A i))" by (auto dest: in_set_dropD)
  moreover have "\<forall>cpu\<in>set (concat (active_cores A i)). active A cpu" by (auto simp: active_cores_def)
  ultimately show ?thesis using next_entries_subset by fastforce
qed

lemma tree_fill_Some:
  assumes "tree_ok A" "i < numSockets (tp_counts A)" "b \<le> length l" "treeFillNextEntries A l b i off n = Some (l', t)"
  shows "t = length (next_entries (int n) (drop off (active_cores A i)))" "b + t \<le> length l"
    "l' = overwrite l b (next_entries (int n) (drop off (active_cores A i)))"
    "\<forall>cpu\<in>set (next_entries (int n) (drop off (active_cores A i))). active A cpu"
  using assms(4) tree_fill [OF assms(1-3), of off n] active_entries [of i A "int n" off] assms(1,2)
  by (simp_all add: Let_def tree_ok_def split: if_splits)

definition active_domain :: "affinity_topology \<Rightarrow> affinity_domain \<Rightarrow> bool" where
  "active_domain A d \<longleftrightarrow> dm_numberOfProcessors d \<le> length (dm_processorList d) \<and>
     (\<forall>cpu\<in>set (take (dm_numberOfProcessors d) (dm_processorList d)). active A cpu)"

definition active_slots :: "affinity_topology \<Rightarrow> affinity_domain option list \<Rightarrow> bool" where
  "active_slots A ds \<longleftrightarrow> (\<forall>d. Some d \<in> set ds \<longrightarrow> active_domain A d)"

lemma active_slots_set: "\<lbrakk>arr_set ds k (Some d) = Some ds'; active_slots A ds; active_domain A d\<rbrakk> \<Longrightarrow> active_slots A ds'"
  unfolding active_slots_def arr_set_def by (auto split: if_splits dest!: set_update_subset_insert [THEN subsetD])

lemma fresh_fill:
  assumes "tree_ok A" "i < numSockets (tp_counts A)" "treeFillNextEntries A (malloc_ints junk m) 0 i off n = Some (l', t)"
  shows "active_domain A \<lparr>dm_tag = x, dm_numberOfProcessors = t, dm_numberOfCores = y, dm_processorList = l'\<rparr>"
    "active_domain A \<lparr>dm_tag = x, dm_numberOfProcessors = min t z, dm_numberOfCores = y, dm_processorList = l'\<rparr>"
proof -
  note f = tree_fill_Some [OF assms(1,2) le0 assms(3)]
  have "take t l' = next_entries (int n) (drop off (active_cores A i))" using f(1,3) by (simp add: overwrite_def)
  moreover have "length l' = length (malloc_ints junk m)" using f(1,2,3) by (simp add: overwrite_length)
  moreover have "set (take (min t z) l') \<subseteq> set (take t l')" by (rule set_take_subset_set_take) simp
  ultimately show "active_domain A \<lparr>dm_tag = x, dm_numberOfProcessors = t, dm_numberOfCores = y, dm_processorList = l'\<rparr>"
    "active_domain A \<lparr>dm_tag = x, dm_numberOfProcessors = min t z, dm_numberOfCores = y, dm_processorList = l'\<rparr>"
    using f(2,4) by (auto simp: active_domain_def)
qed

lemma socket_domain_active:
  assumes "tree_ok A" "i < numSockets (tp_counts A)" "active_slots A ds" "socket_domain junk A i (ds, lookup) = Some (ds', lookup')"
  shows "active_slots A ds'"
  using assms(4) by (auto simp: socket_domain_def Let_def split: bind_splits elim!: active_slots_set [OF _ assms(3) fresh_fill(2) [OF assms(1,2)]])

lemma cache_domains_active:
  assumes "tree_ok A" "i < numSockets (tp_counts A)" "active_slots A ds"
    and "cache_domains junk A first perCache coresPerCache perSocket i (ds, sub) = Some (ds', sub')"
  shows "active_slots A ds'"
proof -
  obtain o' where f: "opt_fold (cache_domain junk A first perCache coresPerCache i) [0..<perSocket] (ds, sub, 0) = Some (ds', sub', o')"
    using assms(4) by (auto simp: cache_domains_def split: bind_splits)
  have "active_slots A (fst (ds', sub', o'))"
    by (rule opt_fold_inv [OF f]) (use assms(3) in \<open>auto simp: cache_domain_def split: bind_splits elim!: active_slots_set [OF _ _ fresh_fill(1) [OF assms(1,2)]]\<close>)
  then show ?thesis by simp
qed

lemma memory_domains_active:
  assumes "tree_ok A" "i < numSockets (tp_counts A)" "active_slots A ds"
    and "memory_domains junk A first perSocket i (ds, sub) = Some (ds', sub')"
  shows "active_slots A ds'"
proof -
  obtain o' where f: "opt_fold (memory_domain junk A first i) [0..<perSocket] (ds, sub, 0) = Some (ds', sub', o')"
    using assms(4) by (auto simp: memory_domains_def split: bind_splits)
  have "active_slots A (fst (ds', sub', o'))"
    by (rule opt_fold_inv [OF f]) (use assms(3) in \<open>auto simp: memory_domain_def Let_def split: bind_splits elim!: active_slots_set [OF _ _ fresh_fill(1) [OF assms(1,2)]]\<close>)
  then show ?thesis by simp
qed

end
