(* ===== verification/Affinity_Properties.thy ===== *)
theory Affinity_Properties
  imports Affinity_Fill CpuString_Properties
begin

text \<open>
  What the affinity domains contain. On a regular machine the domains of the sockets have exactly their processors
  in the CPU set and no string selects a processor outside it; when all processors are in the CPU set, the
  domains are exactly the node, its sockets, its caches and its memory domains.
\<close>

section \<open>Regular machines\<close>

text \<open>All sockets have the same number of cores and all cores the same number of threads.\<close>

definition machine_leaves :: "affinity_topology \<Rightarrow> int list" where
  "machine_leaves A = concat (map concat (tree_shape A))"

definition regular :: "affinity_topology \<Rightarrow> bool" where
  "regular A \<longleftrightarrow> tree_ok A \<and> 0 < numSockets (tp_counts A) \<and> 0 < numThreadsPerCore (tp_counts A) \<and>
     (\<forall>s\<in>set (tree_shape A). length s = numCoresPerSocket (tp_counts A) \<and> (\<forall>c\<in>set s. length c = numThreadsPerCore (tp_counts A))) \<and>
     distinct (machine_leaves A) \<and> (\<forall>cpu\<in>set (machine_leaves A). cpu < int MAX_NUM_THREADS) \<and>
     tp_numHWThreads A = numSockets (tp_counts A) * processors_per_socket A"

text \<open>The active processors of a socket, and of the first \<open>n\<close> sockets.\<close>

definition socket_cpus :: "affinity_topology \<Rightarrow> nat \<Rightarrow> int list" where
  "socket_cpus A i = concat (active_cores A i)"

definition cpus_upto :: "affinity_topology \<Rightarrow> nat \<Rightarrow> int list" where
  "cpus_upto A n = concat (map (socket_cpus A) [0..<n])"

abbreviation machine_cpus :: "affinity_topology \<Rightarrow> int list" where
  "machine_cpus A \<equiv> cpus_upto A (numSockets (tp_counts A))"

lemma cpus_upto_simps [simp]: "cpus_upto A 0 = []" "cpus_upto A (Suc n) = cpus_upto A n @ socket_cpus A n"
  by (simp_all add: cpus_upto_def)

lemma length_concat_filter: "\<forall>c\<in>set cs. length c = t \<Longrightarrow> length (concat (map (filter P) cs)) \<le> length cs * t"
proof (induction cs)
  case (Cons c cs)
  then have "length (filter P c) \<le> t" using length_filter_le [of P c] by auto
  then show ?case using Cons by simp
qed simp

lemma regular_shape:
  assumes "regular A" "i < numSockets (tp_counts A)"
  shows "tree_ok A" "i < length (tree_shape A)" "length (tree_shape A ! i) = numCoresPerSocket (tp_counts A)"
    "\<forall>c\<in>set (tree_shape A ! i). length c = numThreadsPerCore (tp_counts A)" "length (active_cores A i) = numCoresPerSocket (tp_counts A)"
    "length (socket_cpus A i) \<le> processors_per_socket A"
proof -
  show 1: "tree_ok A" "i < length (tree_shape A)" using assms by (simp_all add: regular_def tree_ok_def)
  then have "tree_shape A ! i \<in> set (tree_shape A)" by simp
  then show 2: "length (tree_shape A ! i) = numCoresPerSocket (tp_counts A)" "\<forall>c\<in>set (tree_shape A ! i). length c = numThreadsPerCore (tp_counts A)"
    using assms(1) by (simp_all add: regular_def)
  show "length (active_cores A i) = numCoresPerSocket (tp_counts A)" using 2(1) by (simp add: active_cores_def)
  show "length (socket_cpus A i) \<le> processors_per_socket A"
    using length_concat_filter [OF 2(2), of "active A"] 2(1) by (simp add: socket_cpus_def active_cores_def)
qed

lemma socket_fill:
  assumes "regular A" "i < numSockets (tp_counts A)" "b \<le> length l" "length (socket_cpus A i) \<le> n"
  shows "treeFillNextEntries A l b i 0 n = (if b + length (socket_cpus A i) \<le> length l
    then Some (overwrite l b (socket_cpus A i), length (socket_cpus A i)) else None)"
proof -
  have "next_entries (int n) (active_cores A i) = socket_cpus A i"
    using assms(4) unfolding socket_cpus_def by (intro next_entries_all) simp
  then show ?thesis using tree_fill [OF regular_shape(1) [OF assms(1,2)] assms(2,3), of 0 n] by (simp add: Let_def)
qed

lemma cpus_upto_length: "\<lbrakk>regular A; n \<le> numSockets (tp_counts A)\<rbrakk> \<Longrightarrow> length (cpus_upto A n) \<le> n * processors_per_socket A"
proof (induction n)
  case (Suc n)
  then show ?case using regular_shape(6) [of A n] by simp
qed simp

lemma node_fold:
  assumes "regular A" "n \<le> numSockets (tp_counts A)" "n * processors_per_socket A \<le> length l"
  shows "opt_fold (node_entries A) [0..<n] (l, 0) = Some (overwrite l 0 (cpus_upto A n), length (cpus_upto A n))"
  using assms(2,3)
proof (induction n)
  case 0
  then show ?case by (simp add: overwrite_def)
next
  case (Suc n)
  have n: "n < numSockets (tp_counts A)" using Suc.prems(1) by simp
  have room: "length (cpus_upto A n) + length (socket_cpus A n) \<le> length l"
    using cpus_upto_length [OF assms(1), of "Suc n"] Suc.prems by simp
  have len: "length (overwrite l 0 (cpus_upto A n)) = length l" using room by (simp add: overwrite_length)
  have "treeFillNextEntries A (overwrite l 0 (cpus_upto A n)) (length (cpus_upto A n)) n 0 (processors_per_socket A) =
      Some (overwrite (overwrite l 0 (cpus_upto A n)) (length (cpus_upto A n)) (socket_cpus A n), length (socket_cpus A n))"
    using socket_fill [OF assms(1) n _ regular_shape(6) [OF assms(1) n], of "length (cpus_upto A n)"] room len by simp
  then show ?case
    using Suc overwrite_overwrite [of 0 "cpus_upto A n" "socket_cpus A n" l] room
    by (simp add: opt_fold_append node_entries_def)
qed

text \<open>The domain N has all active processors.\<close>

lemma node_domain_regular:
  assumes "regular A" "tp_activeHWThreads A = length (machine_cpus A)"
  shows "\<exists>d. node_domain junk A = Some d \<and> as_domain d = \<lparr>tag = ''N'', processorList = machine_cpus A\<rparr> \<and> active_domain A d"
proof -
  let ?S = "numSockets (tp_counts A)"
  let ?l = "malloc_ints junk (tp_numHWThreads A)"
  have l: "length ?l = ?S * processors_per_socket A" using assms(1) by (simp add: regular_def malloc_ints_def)
  have len: "length (machine_cpus A) \<le> length ?l" using cpus_upto_length [OF assms(1) le_refl] l by simp
  have act: "\<forall>cpu\<in>set (machine_cpus A). active A cpu"
    by (auto simp: cpus_upto_def socket_cpus_def active_cores_def)
  have fill: "(if 1 < ?S then do { (list', _) \<leftarrow> opt_fold (node_entries A) [0..<?S] (?l, 0); Some (list', tp_activeHWThreads A) }
      else treeFillNextEntries A ?l 0 0 0 (tp_activeHWThreads A)) = Some (overwrite ?l 0 (machine_cpus A), length (machine_cpus A))"
  proof (cases "1 < ?S")
    case True
    then show ?thesis using node_fold [OF assms(1) le_refl, of ?l] l assms(2) by simp
  next
    case False
    then have "?S = 1" using assms(1) by (auto simp: regular_def)
    then have "machine_cpus A = socket_cpus A 0" "0 < ?S" by (simp_all add: cpus_upto_def)
    then show ?thesis using False socket_fill [OF assms(1), of 0 0 ?l "tp_activeHWThreads A"] assms(2) len by simp
  qed
  show ?thesis
    unfolding node_domain_def fill Let_def
    using len act by (simp add: as_domain_def active_domain_def overwrite_def)
qed

section \<open>Filling the array of domains\<close>

definition slots :: "nat \<Rightarrow> affinity_domain list \<Rightarrow> affinity_domain option list" where
  "slots N pre = map Some pre @ replicate (N - length pre) None"

lemma slots_set:
  assumes "k = int (length pre)" "length pre < N"
  shows "arr_set (slots N pre) k (Some d) = Some (slots N (pre @ [d]))"
proof -
  obtain m where m: "N - length pre = Suc m" using assms(2) by (cases "N - length pre") auto
  then have "N - length (pre @ [d]) = m" by simp
  then show ?thesis using assms(1) m list_update_length [of "map Some pre" None "replicate m None" "Some d"] by (simp add: slots_def arr_set_def)
qed

lemma slots_one: "0 < N \<Longrightarrow> (replicate N None)[0 := Some d] = slots N [d]"
  by (cases N) (simp_all add: slots_def)

lemma slots_full: "length pre = N \<Longrightarrow> slots N pre = map Some pre"
  by (simp add: slots_def)

lemma set_nodes:
  assumes "\<forall>cpu\<in>set xs. 0 \<le> cpu \<and> cpu < int (length lookup)"
  shows "\<exists>lookup'. opt_fold (set_node v) xs lookup = Some lookup' \<and> length lookup' = length lookup \<and>
    (\<forall>j. lookup' ! j = (if int j \<in> set xs then v else lookup ! j))"
  using assms
proof (induction xs arbitrary: lookup)
  case (Cons x xs)
  let ?l = "lookup[nat x := v]"
  have st: "set_node v x lookup = Some ?l" using Cons.prems by (simp add: set_node_def arr_set_def)
  obtain lookup' where l': "opt_fold (set_node v) xs ?l = Some lookup'" "length lookup' = length lookup"
      "\<forall>j. lookup' ! j = (if int j \<in> set xs then v else ?l ! j)"
    using Cons.IH [of ?l] Cons.prems by auto
  have "lookup' ! j = (if int j \<in> set (x # xs) then v else lookup ! j)" for j
    using l'(3) Cons.prems by (auto simp: nth_list_update)
  then show ?case using st l'(1,2) by simp
qed simp

text \<open>The domain of a socket; its processors get its number.\<close>

definition socket_dom :: "(nat \<Rightarrow> int) \<Rightarrow> affinity_topology \<Rightarrow> nat \<Rightarrow> affinity_domain" where
  "socket_dom junk A i = \<lparr>dm_tag = CHR ''S'' # dec_string i, dm_numberOfProcessors = length (socket_cpus A i),
     dm_numberOfCores = numCoresPerSocket (tp_counts A),
     dm_processorList = overwrite (malloc_ints junk (processors_per_socket A)) 0 (socket_cpus A i)\<rparr>"

lemma malloc_length [simp]: "length (malloc_ints junk n) = n"
  by (simp add: malloc_ints_def)

lemma socket_dom_as:
  "\<lbrakk>regular A; i < numSockets (tp_counts A)\<rbrakk> \<Longrightarrow> as_domain (socket_dom junk A i) = \<lparr>tag = CHR ''S'' # dec_string i, processorList = socket_cpus A i\<rparr>"
  using regular_shape(6) [of A i] by (simp add: as_domain_def socket_dom_def overwrite_def)

lemma socket_cpus_range:
  assumes "regular A" "i < numSockets (tp_counts A)"
  shows "\<forall>cpu\<in>set (socket_cpus A i). 0 \<le> cpu \<and> cpu < int MAX_NUM_THREADS"
proof -
  have s: "tree_shape A ! i \<in> set (tree_shape A)" using regular_shape(2) [OF assms] by simp
  have "0 \<le> cpu \<and> cpu < int MAX_NUM_THREADS" if cpu: "cpu \<in> set (socket_cpus A i)" for cpu
  proof -
    obtain c where c: "c \<in> set (tree_shape A ! i)" "cpu \<in> set c" using cpu by (auto simp: socket_cpus_def active_cores_def)
    have "cpu \<in> set (machine_leaves A)" using s c by (auto simp: machine_leaves_def)
    then show ?thesis using assms(1) regular_shape(1) [OF assms] s c unfolding regular_def tree_ok_def by blast
  qed
  then show ?thesis by blast
qed

lemma socket_domain_regular:
  assumes "regular A" "i < numSockets (tp_counts A)" "length pre = 1 + i" "1 + i < N" "length lookup = MAX_NUM_THREADS"
  shows "\<exists>lookup'. socket_domain junk A i (slots N pre, lookup) = Some (slots N (pre @ [socket_dom junk A i]), lookup') \<and>
    length lookup' = MAX_NUM_THREADS \<and> (\<forall>j. lookup' ! j = (if int j \<in> set (socket_cpus A i) then int i else lookup ! j))"
proof -
  let ?n = "processors_per_socket A"
  note le = regular_shape(6) [OF assms(1,2)]
  have f: "treeFillNextEntries A (malloc_ints junk ?n) 0 i 0 ?n =
      Some (overwrite (malloc_ints junk ?n) 0 (socket_cpus A i), length (socket_cpus A i))"
    using socket_fill [OF assms(1,2) _ le] le by simp
  obtain lookup' where l: "opt_fold (set_node (int i)) (socket_cpus A i) lookup = Some lookup'" "length lookup' = MAX_NUM_THREADS"
      "\<forall>j. lookup' ! j = (if int j \<in> set (socket_cpus A i) then int i else lookup ! j)"
    using set_nodes [of "socket_cpus A i" lookup "int i"] socket_cpus_range [OF assms(1,2)] assms(5) by auto
  have t: "take (length (socket_cpus A i)) (overwrite (malloc_ints junk ?n) 0 (socket_cpus A i)) = socket_cpus A i"
    using le by (simp add: overwrite_def)
  show ?thesis
    using f l t le slots_set [of "1 + int i" pre N] assms(3,4)
    by (simp add: socket_domain_def Let_def min.absorb1 socket_dom_def)
qed

lemma distinct_concat_nth:
  "\<lbrakk>distinct (concat xss); i < length xss; j < length xss; x \<in> set (xss ! i); x \<in> set (xss ! j)\<rbrakk> \<Longrightarrow> i = j"
proof (induction xss arbitrary: i j)
  case (Cons xs xss)
  have m: "False" if "n < length xss" "x \<in> set (xss ! n)" "x \<in> set xs" for n
    using Cons.prems(1) nth_mem [OF that(1)] that(2,3) by auto
  have d: "distinct (concat xss)" using Cons.prems(1) by simp
  show ?case
  proof (cases i; cases j)
    fix i' j' assume "i = Suc i'" "j = Suc j'"
    then show ?thesis using Cons.IH [OF d] Cons.prems(2-5) by simp
  qed (use Cons.prems(2-5) m in auto)
qed simp

lemma distinct_sockets:
  assumes "regular A" "i < numSockets (tp_counts A)" "j < numSockets (tp_counts A)" "cpu \<in> set (socket_cpus A i)" "cpu \<in> set (socket_cpus A j)"
  shows "i = j"
proof (rule distinct_concat_nth)
  have sub: "set (socket_cpus A k) \<subseteq> set (concat (tree_shape A ! k))" for k by (auto simp: socket_cpus_def active_cores_def)
  show "distinct (concat (map concat (tree_shape A)))" using assms(1) by (simp add: regular_def machine_leaves_def)
  show "i < length (map concat (tree_shape A))" "j < length (map concat (tree_shape A))"
    using regular_shape(2) [OF assms(1,2)] regular_shape(2) [OF assms(1,3)] by simp_all
  then show "cpu \<in> set (map concat (tree_shape A) ! i)" "cpu \<in> set (map concat (tree_shape A) ! j)" using assms(4,5) sub by auto
qed

lemma socket_stage:
  assumes "regular A" "n \<le> numSockets (tp_counts A)" "1 + n \<le> N" "length lookup = MAX_NUM_THREADS"
  shows "\<exists>lookup'. opt_fold (socket_domain junk A) [0..<n] (slots N [node], lookup) = Some (slots N (node # map (socket_dom junk A) [0..<n]), lookup') \<and>
    length lookup' = MAX_NUM_THREADS \<and> (\<forall>i<n. \<forall>cpu\<in>set (socket_cpus A i). lookup' ! nat cpu = int i)"
  using assms(2,3)
proof (induction n)
  case 0
  then show ?case using assms(4) by simp
next
  case (Suc n)
  then obtain l where l: "opt_fold (socket_domain junk A) [0..<n] (slots N [node], lookup) = Some (slots N (node # map (socket_dom junk A) [0..<n]), l)"
      "length l = MAX_NUM_THREADS" "\<forall>i<n. \<forall>cpu\<in>set (socket_cpus A i). l ! nat cpu = int i" by auto
  have n: "n < numSockets (tp_counts A)" using Suc.prems by simp
  obtain l' where l': "socket_domain junk A n (slots N (node # map (socket_dom junk A) [0..<n]), l) =
        Some (slots N ((node # map (socket_dom junk A) [0..<n]) @ [socket_dom junk A n]), l')"
      "length l' = MAX_NUM_THREADS" "\<forall>j. l' ! j = (if int j \<in> set (socket_cpus A n) then int n else l ! j)"
    using socket_domain_regular [OF assms(1) n _ _ l(2), of "node # map (socket_dom junk A) [0..<n]" N] Suc.prems(2) by auto
  have "l' ! nat cpu = int i" if "i < Suc n" "cpu \<in> set (socket_cpus A i)" for i cpu
  proof -
    have i: "i < numSockets (tp_counts A)" using that(1) n by simp
    have r: "0 \<le> cpu" using socket_cpus_range [OF assms(1) i] that(2) by blast
    show ?thesis
    proof (cases "i = n")
      case True
      then show ?thesis using l'(3) that(2) r by simp
    next
      case False
      then have "cpu \<notin> set (socket_cpus A n)" using distinct_sockets [OF assms(1) i n that(2)] by blast
      then show ?thesis using l'(3) l(3) that False r by simp
    qed
  qed
  then show ?case using l(1) l'(1,2) by (simp add: opt_fold_append)
qed

section \<open>The result of the initialization\<close>

lemma init_cases:
  assumes "affinity_init junk A s = Some s'" "\<not> affinity_initialized s"
  obtains perCache coresPerCache caches total node ds1 lookup ds2 sub ds3 where
    "total = 1 + numSockets (tp_counts A) + caches + length (tp_nodeProcessors A)"
    "node_domain junk A = Some node"
    "opt_fold (socket_domain junk A) [0..<numSockets (tp_counts A)] ((replicate total None)[0 := Some node], core2node_lookup s) = Some (ds1, lookup)"
    "opt_fold (cache_domains junk A (1 + numSockets (tp_counts A)) perCache coresPerCache (caches div numSockets (tp_counts A)))
       [0..<numSockets (tp_counts A)] (ds1, 0) = Some (ds2, sub)"
    "(if numSockets (tp_counts A) \<le> length (tp_nodeProcessors A) \<and> 1 < length (tp_nodeProcessors A)
      then do {
        (ds3, _) \<leftarrow> opt_fold (memory_domains junk A (1 + numSockets (tp_counts A) + caches)
          ((length (tp_nodeProcessors A) + numSockets (tp_counts A) - 1) div numSockets (tp_counts A))) [0..<numSockets (tp_counts A)] (ds2, 0);
        Some ds3 }
      else single_memory_domain junk A (1 + numSockets (tp_counts A) + caches) ds2) = Some ds3"
    "affinity_list (affinityDomains s') = Some ds3" "core2node_lookup s' = lookup" "affinity_numberOfDomains s' = total"
  using assms by (auto simp only: affinity_init_def Let_def if_False split: bind_split_asm prod.splits) (auto split: if_splits)

lemma arr_set_take: "\<lbrakk>arr_set ds k (Some d) = Some ds'; int m \<le> k\<rbrakk> \<Longrightarrow> take m ds' = take m ds"
  by (auto simp: arr_set_def split: if_splits)

lemma arr_set_take_add: "arr_set ds (int m + int k) (Some d) = Some ds' \<Longrightarrow> take m ds' = take m ds"
  by (erule arr_set_take) simp

lemma cache_domains_take:
  assumes "cache_domains junk A first perCache coresPerCache perSocket i (ds, sub) = Some (ds', sub')"
  shows "take first ds' = take first ds"
proof -
  obtain o' where f: "opt_fold (cache_domain junk A first perCache coresPerCache i) [0..<perSocket] (ds, sub, 0) = Some (ds', sub', o')"
    using assms by (auto simp: cache_domains_def split: bind_splits)
  have "take first (fst (ds', sub', o')) = take first ds"
    by (rule opt_fold_inv [OF f, where I = "\<lambda>s. take first (fst s) = take first ds"])
      (auto simp: cache_domain_def split: bind_splits dest!: arr_set_take_add)
  then show ?thesis by simp
qed

lemma memory_domains_take:
  assumes "memory_domains junk A first perSocket i (ds, sub) = Some (ds', sub')"
  shows "take first ds' = take first ds"
proof -
  obtain o' where f: "opt_fold (memory_domain junk A first i) [0..<perSocket] (ds, sub, 0) = Some (ds', sub', o')"
    using assms by (auto simp: memory_domains_def split: bind_splits)
  have "take first (fst (ds', sub', o')) = take first ds"
    by (rule opt_fold_inv [OF f, where I = "\<lambda>s. take first (fst s) = take first ds"])
      (auto simp: memory_domain_def Let_def split: bind_splits dest!: arr_set_take_add)
  then show ?thesis by simp
qed

lemma caches_stage_take:
  assumes "opt_fold (cache_domains junk A first perCache coresPerCache perSocket) is (ds, sub) = Some (ds', sub')"
  shows "take first ds' = take first ds"
proof -
  have "take first (fst (ds', sub')) = take first ds"
    by (rule opt_fold_inv [OF assms, where I = "\<lambda>s. take first (fst s) = take first ds"]) (use cache_domains_take in \<open>fastforce+\<close>)
  then show ?thesis by simp
qed

lemma memory_stage_take:
  assumes "(if c then do { (ds3, _) \<leftarrow> opt_fold (memory_domains junk A first perSocket) is (ds, 0); Some ds3 }
    else single_memory_domain junk A first ds) = Some ds'"
  shows "take first ds' = take first ds"
proof (cases c)
  case True
  then obtain sub where f: "opt_fold (memory_domains junk A first perSocket) is (ds, 0) = Some (ds', sub)"
    using assms by (auto split: bind_splits)
  have "take first (fst (ds', sub)) = take first ds"
    by (rule opt_fold_inv [OF f, where I = "\<lambda>s. take first (fst s) = take first ds"]) (use memory_domains_take in \<open>fastforce+\<close>)
  then show ?thesis by simp
next
  case False
  then show ?thesis
    using assms by (auto simp: single_memory_domain_def Let_def split: bind_splits dest: arr_set_take [where m = first])
qed

text \<open>
  Property C14. On a regular machine, whatever its CPU set, the initialization of the affinity domains, when it is
  defined, lists in the domain of every socket exactly the processors of the socket that are in the CPU set, and
  records the socket of each of them for the locks of shared counters.
\<close>

theorem socket_domains_exact:
  assumes "regular A" "length (core2node_lookup s) = MAX_NUM_THREADS" "\<not> affinity_initialized s"
    and "affinity_init junk A s = Some s'" "i < numSockets (tp_counts A)"
  shows "(\<exists>ds d. affinity_list (affinityDomains s') = Some ds \<and> 1 + i < length ds \<and> ds ! (1 + i) = Some d \<and>
      as_domain d = \<lparr>tag = CHR ''S'' # dec_string i, processorList = filter (active A) (concat (tree_shape A ! i))\<rparr>) \<and>
    (\<forall>cpu\<in>set (concat (tree_shape A ! i)). active A cpu \<longrightarrow> core2node_lookup s' ! nat cpu = int i)"
proof -
  let ?S = "numSockets (tp_counts A)"
  obtain perCache coresPerCache caches total node ds1 lookup ds2 sub ds3 where I:
    "total = 1 + ?S + caches + length (tp_nodeProcessors A)" "node_domain junk A = Some node"
    "opt_fold (socket_domain junk A) [0..<?S] ((replicate total None)[0 := Some node], core2node_lookup s) = Some (ds1, lookup)"
    "opt_fold (cache_domains junk A (1 + ?S) perCache coresPerCache (caches div ?S)) [0..<?S] (ds1, 0) = Some (ds2, sub)"
    "(if ?S \<le> length (tp_nodeProcessors A) \<and> 1 < length (tp_nodeProcessors A)
      then do { (ds3, _) \<leftarrow> opt_fold (memory_domains junk A (1 + ?S + caches) ((length (tp_nodeProcessors A) + ?S - 1) div ?S)) [0..<?S] (ds2, 0); Some ds3 }
      else single_memory_domain junk A (1 + ?S + caches) ds2) = Some ds3"
    "affinity_list (affinityDomains s') = Some ds3" "core2node_lookup s' = lookup"
    by (rule init_cases [OF assms(4,3)]) blast
  have N: "1 + ?S \<le> total" "0 < total" using I(1) by simp_all
  obtain l where l: "opt_fold (socket_domain junk A) [0..<?S] (slots total [node], core2node_lookup s) =
      Some (slots total (node # map (socket_dom junk A) [0..<?S]), l)" "\<forall>i<?S. \<forall>cpu\<in>set (socket_cpus A i). l ! nat cpu = int i"
    using socket_stage [OF assms(1) le_refl N(1) assms(2)] by blast
  have ds1: "ds1 = slots total (node # map (socket_dom junk A) [0..<?S])" "lookup = l" using I(3) l(1) slots_one [OF N(2)] by simp_all
  have "take (1 + ?S) ds3 = take (1 + ?S) ds2"
    using arg_cong [OF memory_stage_take [OF I(5)], of "take (1 + ?S)"] by (simp add: min.absorb1)
  then have t: "take (1 + ?S) ds3 = map Some (node # map (socket_dom junk A) [0..<?S])"
    using caches_stage_take [OF I(4)] ds1(1) by (simp add: slots_def)
  have len: "1 + i < length ds3" using arg_cong [OF t, of length] assms(5) by simp
  have "ds3 ! (1 + i) = take (1 + ?S) ds3 ! (1 + i)" using assms(5) by simp
  then have d: "ds3 ! (1 + i) = Some (socket_dom junk A i)" unfolding t using assms(5) by simp
  have c: "socket_cpus A i = filter (active A) (concat (tree_shape A ! i))"
    by (simp add: socket_cpus_def active_cores_def filter_concat)
  have "cpu \<in> set (concat (tree_shape A ! i)) \<Longrightarrow> active A cpu \<Longrightarrow> core2node_lookup s' ! nat cpu = int i" for cpu
    using l(2) assms(5) ds1(2) I(7) by (simp add: c)
  then show ?thesis using I(6) len d socket_dom_as [OF assms(1,5)] c by auto
qed

section \<open>Selections respect the CPU set\<close>

lemma sockets_stage_active:
  assumes "tree_ok A" "opt_fold (socket_domain junk A) is (ds, lookup) = Some (ds', lookup')" "active_slots A ds"
    and "\<forall>i\<in>set is. i < numSockets (tp_counts A)"
  shows "active_slots A ds'"
proof -
  have "active_slots A (fst (ds', lookup'))"
    by (rule opt_fold_inv [OF assms(2), where I = "\<lambda>s. active_slots A (fst s)"])
      (use assms(3,4) socket_domain_active [OF assms(1)] in \<open>fastforce+\<close>)
  then show ?thesis by simp
qed

lemma caches_stage_active:
  assumes "tree_ok A" "opt_fold (cache_domains junk A first perCache coresPerCache perSocket) is (ds, sub) = Some (ds', sub')" "active_slots A ds"
    and "\<forall>i\<in>set is. i < numSockets (tp_counts A)"
  shows "active_slots A ds'"
proof -
  have "active_slots A (fst (ds', sub'))"
    by (rule opt_fold_inv [OF assms(2), where I = "\<lambda>s. active_slots A (fst s)"])
      (use assms(3,4) cache_domains_active [OF assms(1)] in \<open>fastforce+\<close>)
  then show ?thesis by simp
qed

lemma memory_stage_active:
  assumes "tree_ok A" "opt_fold (memory_domains junk A first perSocket) is (ds, sub) = Some (ds', sub')" "active_slots A ds"
    and "\<forall>i\<in>set is. i < numSockets (tp_counts A)"
  shows "active_slots A ds'"
proof -
  have "active_slots A (fst (ds', sub'))"
    by (rule opt_fold_inv [OF assms(2), where I = "\<lambda>s. active_slots A (fst s)"])
      (use assms(3,4) memory_domains_active [OF assms(1)] in \<open>fastforce+\<close>)
  then show ?thesis by simp
qed

lemma single_memory_active:
  assumes "tree_ok A" "numSockets (tp_counts A) = 1" "single_memory_domain junk A first ds = Some ds'" "active_slots A ds"
  shows "active_slots A ds'"
proof -
  let ?n = "processors_per_socket A"
  obtain list tmp cores where f: "treeFillNextEntries A (malloc_ints junk ?n) 0 0 0 ?n = Some (list, tmp)"
      "arr_set ds (int first) (Some \<lparr>dm_tag = ''M0'', dm_numberOfProcessors = tmp,
         dm_numberOfCores = cores, dm_processorList = list\<rparr>) = Some ds'"
    using assms(2,3) by (auto simp: single_memory_domain_def single_entries_def Let_def split: bind_splits)
  show ?thesis using active_slots_set [OF f(2) assms(4) fresh_fill(1) [OF assms(1) _ f(1)]] assms(2) by simp
qed

lemma init_active:
  assumes "regular A" "tp_activeHWThreads A = length (machine_cpus A)" "\<not> affinity_initialized s"
    and "numSockets (tp_counts A) = 1 \<or> numSockets (tp_counts A) \<le> length (tp_nodeProcessors A)"
    and "affinity_init junk A s = Some s'" "affinity_list (affinityDomains s') = Some ds"
  shows "active_slots A ds"
proof -
  let ?S = "numSockets (tp_counts A)"
  have ok: "tree_ok A" "0 < ?S" using assms(1) by (simp_all add: regular_def)
  obtain perCache coresPerCache caches total node ds1 lookup ds2 sub ds3 where I:
    "total = 1 + ?S + caches + length (tp_nodeProcessors A)" "node_domain junk A = Some node"
    "opt_fold (socket_domain junk A) [0..<?S] ((replicate total None)[0 := Some node], core2node_lookup s) = Some (ds1, lookup)"
    "opt_fold (cache_domains junk A (1 + ?S) perCache coresPerCache (caches div ?S)) [0..<?S] (ds1, 0) = Some (ds2, sub)"
    "(if ?S \<le> length (tp_nodeProcessors A) \<and> 1 < length (tp_nodeProcessors A)
      then do { (ds3, _) \<leftarrow> opt_fold (memory_domains junk A (1 + ?S + caches) ((length (tp_nodeProcessors A) + ?S - 1) div ?S)) [0..<?S] (ds2, 0); Some ds3 }
      else single_memory_domain junk A (1 + ?S + caches) ds2) = Some ds3"
    "affinity_list (affinityDomains s') = Some ds3"
    by (rule init_cases [OF assms(5,3)]) blast
  have "active_domain A node" using node_domain_regular [OF assms(1,2), of junk] I(2) by auto
  then have "active_slots A ((replicate total None)[0 := Some node])"
    unfolding active_slots_def by (auto dest!: set_update_subset_insert [THEN subsetD])
  then have 1: "active_slots A ds1" using sockets_stage_active [OF ok(1) I(3)] by auto
  have 2: "active_slots A ds2" using caches_stage_active [OF ok(1) I(4) 1] by auto
  have "active_slots A ds3"
  proof (cases "?S \<le> length (tp_nodeProcessors A) \<and> 1 < length (tp_nodeProcessors A)")
    case True
    then obtain sub' where "opt_fold (memory_domains junk A (1 + ?S + caches) ((length (tp_nodeProcessors A) + ?S - 1) div ?S)) [0..<?S] (ds2, 0) =
        Some (ds3, sub')" using I(5) by (auto split: bind_splits)
    then show ?thesis using memory_stage_active [OF ok(1) _ 2] by auto
  next
    case False
    then have "?S = 1" using assms(4) ok(2) by auto
    then show ?thesis using single_memory_active [OF ok(1) _ _ 2] I(5) False by auto
  qed
  then show ?thesis using I(6) assms(6) by simp
qed

text \<open>
  Property C11. A processor string never selects a processor outside the CPU set: after the initialization of the
  affinity domains on a regular machine with a memory domain for every socket, or with one socket, every processor
  that a string selects is in the CPU set of the process.
\<close>

theorem selection_within_cpuset:
  assumes "regular A" "tp_activeHWThreads A = length (machine_cpus A)" "\<not> affinity_initialized s"
    and "numSockets (tp_counts A) = 1 \<or> numSockets (tp_counts A) \<le> length (tp_nodeProcessors A)"
    and "affinity_init junk A s = Some s'" "written_domains s' = Some (domains env)"
    and "cpustr_to_cpulist env n cpustring = Some cpus"
  shows "\<forall>cpu\<in>set cpus. active A cpu"
proof -
  obtain ds where ds: "affinity_list (affinityDomains s') = Some ds" "None \<notin> set ds" "domains env = map (\<lambda>d. as_domain (the d)) ds"
    using assms(6) by (auto simp: written_domains_def split: bind_splits if_splits)
  have "active_slots A ds" by (rule init_active [OF assms(1-5) ds(1)])
  have "active A cpu" if cpu: "cpu \<in> all_cpus env" for cpu
  proof -
    obtain x where x: "x \<in> set ds" "cpu \<in> set (processorList (as_domain (the x)))" using cpu ds(3) by (auto simp: all_cpus_def)
    then have "x \<noteq> None" using ds(2) by metis
    then obtain d where "x = Some d" by blast
    then show ?thesis using x \<open>active_slots A ds\<close> by (auto simp: active_slots_def active_domain_def as_domain_def)
  qed
  moreover have "set cpus \<subseteq> all_cpus env"
    using assms(7) entries_sound [where out = "[]"] by (simp add: cpustr_to_cpulist_def)
  ultimately show ?thesis by blast
qed

section \<open>All processors in the CPU set\<close>

definition all_active :: "affinity_topology \<Rightarrow> bool" where
  "all_active A \<longleftrightarrow> (\<forall>cpu\<in>set (machine_leaves A). active A cpu) \<and> tp_activeHWThreads A = tp_numHWThreads A"

text \<open>The \<open>j\<close>-th group of \<open>k\<close> consecutive cores, when a socket has \<open>q\<close> of them.\<close>

definition core_group :: "affinity_topology \<Rightarrow> nat \<Rightarrow> nat \<Rightarrow> nat \<Rightarrow> int list" where
  "core_group A k q j = concat (take k (drop (j mod q * k) (tree_shape A ! (j div q))))"

lemma concat_uniform: "\<forall>c\<in>set cs. length c = t \<Longrightarrow> length (concat cs) = length cs * t"
  by (induction cs) auto

lemma all_active_cores:
  assumes "regular A" "all_active A" "i < numSockets (tp_counts A)"
  shows "active_cores A i = tree_shape A ! i" "socket_cpus A i = concat (tree_shape A ! i)"
    "length (socket_cpus A i) = processors_per_socket A"
proof -
  have s: "tree_shape A ! i \<in> set (tree_shape A)" using regular_shape(2) [OF assms(1,3)] by simp
  have "filter (active A) c = c" if "c \<in> set (tree_shape A ! i)" for c
    using assms(2) s that by (auto simp: all_active_def machine_leaves_def filter_id_conv)
  then show 1: "active_cores A i = tree_shape A ! i" by (simp add: active_cores_def map_idI)
  then show "socket_cpus A i = concat (tree_shape A ! i)" by (simp add: socket_cpus_def)
  show "length (socket_cpus A i) = processors_per_socket A"
    using regular_shape(3) [OF assms(1,3)] concat_uniform [OF regular_shape(4) [OF assms(1,3)]] 1 by (simp add: socket_cpus_def)
qed

lemma all_active_upto: "\<lbrakk>regular A; all_active A; n \<le> numSockets (tp_counts A)\<rbrakk> \<Longrightarrow> length (cpus_upto A n) = n * processors_per_socket A"
  by (induction n) (simp_all add: all_active_cores(3))

lemma all_active_machine: "\<lbrakk>regular A; all_active A\<rbrakk> \<Longrightarrow> machine_cpus A = machine_leaves A \<and> tp_activeHWThreads A = length (machine_cpus A)"
proof -
  assume A: "regular A" "all_active A"
  have "map (socket_cpus A) [0..<numSockets (tp_counts A)] = map concat (tree_shape A)"
    using A regular_shape(2) [OF A(1)] all_active_cores(2) [OF A]
    by (intro nth_equalityI) (auto simp: regular_def tree_ok_def)
  then show ?thesis using all_active_upto [OF A le_refl] A by (simp add: cpus_upto_def machine_leaves_def all_active_def regular_def)
qed

text \<open>A group of whole cores fills its list exactly.\<close>

lemma group_fill:
  assumes "regular A" "all_active A" "i < numSockets (tp_counts A)" "(j + 1) * k \<le> numCoresPerSocket (tp_counts A)" "j < q"
  shows "treeFillNextEntries A (malloc_ints junk (k * numThreadsPerCore (tp_counts A))) 0 i (j * k) (k * numThreadsPerCore (tp_counts A)) =
    Some (core_group A k q (i * q + j), k * numThreadsPerCore (tp_counts A))"
proof -
  let ?t = "numThreadsPerCore (tp_counts A)"
  let ?cs = "drop (j * k) (tree_shape A ! i)"
  note sh = regular_shape [OF assms(1,3)]
  have t: "0 < ?t" using assms(1) by (simp add: regular_def)
  have off: "j * k \<le> length (tree_shape A ! i)" "k \<le> length ?cs" using assms(4) sh(3) by (simp_all add: algebra_simps)
  have lens: "\<forall>c\<in>set ?cs. length c = ?t" using sh(4) by (meson in_set_dropD)
  have e: "next_entries (int (k * ?t)) (drop (j * k) (active_cores A i)) = concat (take k ?cs)"
    using next_entries_cores [OF lens t off(2)] all_active_cores(1) [OF assms(1-3)] by simp
  have len: "length (concat (take k ?cs)) = k * ?t"
    using concat_uniform [of "take k ?cs" ?t] lens off(2) by (auto dest: in_set_takeD)
  have g: "core_group A k q (i * q + j) = concat (take k ?cs)" using assms(5) by (simp add: core_group_def)
  show ?thesis
    using tree_fill [OF sh(1) assms(3), of 0 "malloc_ints junk (k * ?t)" "j * k" "k * ?t"] off(1) e len g
    by (simp add: Let_def overwrite_def)
qed

definition cache_dom :: "affinity_topology \<Rightarrow> nat \<Rightarrow> nat \<Rightarrow> nat \<Rightarrow> affinity_domain" where
  "cache_dom A k q j = \<lparr>dm_tag = CHR ''C'' # dec_string j, dm_numberOfProcessors = k * numThreadsPerCore (tp_counts A),
     dm_numberOfCores = k, dm_processorList = core_group A k q j\<rparr>"

lemma cache_inner:
  assumes "regular A" "all_active A" "i < numSockets (tp_counts A)" "numCoresPerSocket (tp_counts A) = q * k" "n \<le> q"
    and "length pre = first + i * q" "first + i * q + n \<le> N"
  shows "opt_fold (cache_domain junk A first (k * numThreadsPerCore (tp_counts A)) k i) [0..<n] (slots N pre, i * q, 0) =
    Some (slots N (pre @ map (cache_dom A k q) [i * q..<i * q + n]), i * q + n, n * k)"
  using assms(5,7)
proof (induction n)
  case (Suc n)
  let ?t = "numThreadsPerCore (tp_counts A)"
  have n: "n < q" "(n + 1) * k \<le> numCoresPerSocket (tp_counts A)"
    using Suc.prems(1) assms(4) mult_le_mono1 [of "n + 1" q k] by simp_all
  have t: "0 < ?t" using assms(1) by (simp add: regular_def)
  have m: "(if k * ?t < k then k * ?t else k) = k" using t by (cases k; cases ?t) auto
  let ?pre = "pre @ map (cache_dom A k q) [i * q..<i * q + n]"
  have d: "\<lparr>dm_tag = CHR ''C'' # dec_string (i * q + n), dm_numberOfProcessors = k * ?t, dm_numberOfCores = k,
      dm_processorList = core_group A k q (i * q + n)\<rparr> = cache_dom A k q (i * q + n)" by (simp add: cache_dom_def)
  have len: "int (first + (i * q + n)) = int (length ?pre)" "length ?pre < N" using assms(6) Suc.prems(2) by simp_all
  have "cache_domain junk A first (k * ?t) k i n (slots N ?pre, i * q + n, n * k) =
      Some (slots N (?pre @ [cache_dom A k q (i * q + n)]), i * q + n + 1, n * k + k)"
    unfolding cache_domain_def
    by (simp only: prod.case group_fill [OF assms(1-3) n(2,1), of junk] Option.bind.bind_lunit d slots_set [OF len] m)
  moreover have "n * k + k = Suc n * k" by simp
  ultimately show ?case using Suc by (simp add: opt_fold_append)
qed simp

lemma cache_stage:
  assumes "regular A" "all_active A" "numCoresPerSocket (tp_counts A) = q * k" "n \<le> numSockets (tp_counts A)"
    and "length pre = first" "first + n * q \<le> N"
  shows "opt_fold (cache_domains junk A first (k * numThreadsPerCore (tp_counts A)) k q) [0..<n] (slots N pre, 0) =
    Some (slots N (pre @ map (cache_dom A k q) [0..<n * q]), n * q)"
  using assms(4,6)
proof (induction n)
  case (Suc n)
  have e: "[0..<Suc n * q] = [0..<n * q] @ [n * q..<n * q + q]"
    using upt_add_eq_append [of 0 "n * q" q] by (simp add: add.commute)
  have "opt_fold (cache_domain junk A first (k * numThreadsPerCore (tp_counts A)) k n) [0..<q]
      (slots N (pre @ map (cache_dom A k q) [0..<n * q]), n * q, 0) =
    Some (slots N ((pre @ map (cache_dom A k q) [0..<n * q]) @ map (cache_dom A k q) [n * q..<n * q + q]), n * q + q, q * k)"
    by (rule cache_inner [OF assms(1,2) _ assms(3) le_refl]) (use Suc.prems assms(5) in simp_all)
  then show ?case using Suc e by (simp add: opt_fold_append cache_domains_def add.commute)
qed simp

definition memory_dom :: "affinity_topology \<Rightarrow> nat \<Rightarrow> nat \<Rightarrow> nat \<Rightarrow> affinity_domain" where
  "memory_dom A r m j = \<lparr>dm_tag = CHR ''M'' # dec_string j, dm_numberOfProcessors = r * numThreadsPerCore (tp_counts A),
     dm_numberOfCores = r, dm_processorList = core_group A r m j\<rparr>"

lemma memory_inner:
  assumes "regular A" "all_active A" "i < numSockets (tp_counts A)" "numCoresPerSocket (tp_counts A) = m * r" "n \<le> m"
    and "length pre = first + i * m" "first + i * m + n \<le> N"
    and "tp_nodeProcessors A = replicate (numSockets (tp_counts A) * m) (r * numThreadsPerCore (tp_counts A))"
  shows "opt_fold (memory_domain junk A first i) [0..<n] (slots N pre, i * m, 0) =
    Some (slots N (pre @ map (memory_dom A r m) [i * m..<i * m + n]), i * m + n, n * r)"
  using assms(5,7)
proof (induction n)
  case (Suc n)
  let ?t = "numThreadsPerCore (tp_counts A)"
  have n: "n < m" "(n + 1) * r \<le> numCoresPerSocket (tp_counts A)"
    using Suc.prems(1) assms(4) mult_le_mono1 [of "n + 1" m r] by simp_all
  have t: "r * ?t div ?t = r" using assms(1) by (simp add: regular_def)
  have "(i + 1) * m \<le> numSockets (tp_counts A) * m" by (rule mult_le_mono1) (use assms(3) in simp)
  then have "i * m + n < numSockets (tp_counts A) * m" using n(1) by simp
  then have g: "arr_get (tp_nodeProcessors A) (int (i * m + n)) = Some (r * ?t)"
    unfolding assms(8) by (simp add: arr_get_def del: of_nat_add of_nat_mult)
  let ?pre = "pre @ map (memory_dom A r m) [i * m..<i * m + n]"
  have d: "\<lparr>dm_tag = CHR ''M'' # dec_string (i * m + n), dm_numberOfProcessors = r * ?t, dm_numberOfCores = r,
      dm_processorList = core_group A r m (i * m + n)\<rparr> = memory_dom A r m (i * m + n)" by (simp add: memory_dom_def)
  have len: "int (first + (i * m + n)) = int (length ?pre)" "length ?pre < N" using assms(6) Suc.prems(2) by simp_all
  have "memory_domain junk A first i n (slots N ?pre, i * m + n, n * r) =
      Some (slots N (?pre @ [memory_dom A r m (i * m + n)]), i * m + n + 1, n * r + r)"
    unfolding memory_domain_def
    by (simp only: prod.case g Let_def t group_fill [OF assms(1-3) n(2,1), of junk] Option.bind.bind_lunit d slots_set [OF len])
  moreover have "n * r + r = Suc n * r" by simp
  ultimately show ?case using Suc by (simp add: opt_fold_append)
qed simp

lemma memory_stage:
  assumes "regular A" "all_active A" "numCoresPerSocket (tp_counts A) = m * r" "n \<le> numSockets (tp_counts A)"
    and "length pre = first" "first + n * m \<le> N"
    and "tp_nodeProcessors A = replicate (numSockets (tp_counts A) * m) (r * numThreadsPerCore (tp_counts A))"
  shows "opt_fold (memory_domains junk A first m) [0..<n] (slots N pre, 0) =
    Some (slots N (pre @ map (memory_dom A r m) [0..<n * m]), n * m)"
  using assms(4,6)
proof (induction n)
  case (Suc n)
  have e: "[0..<Suc n * m] = [0..<n * m] @ [n * m..<n * m + m]"
    using upt_add_eq_append [of 0 "n * m" m] by (simp add: add.commute)
  have "opt_fold (memory_domain junk A first n) [0..<m] (slots N (pre @ map (memory_dom A r m) [0..<n * m]), n * m, 0) =
    Some (slots N ((pre @ map (memory_dom A r m) [0..<n * m]) @ map (memory_dom A r m) [n * m..<n * m + m]), n * m + m, m * r)"
    by (rule memory_inner [OF assms(1,2) _ assms(3) le_refl]) (use Suc.prems assms(5,7) in simp_all)
  then show ?case using Suc e by (simp add: opt_fold_append memory_domains_def add.commute)
qed simp

lemma single_fold:
  assumes "regular A" "all_active A" "n \<le> numSockets (tp_counts A)" "n * processors_per_socket A \<le> length l"
  shows "opt_fold (single_entries A) [0..<n] (l, 0, 0) =
    Some (overwrite l 0 (cpus_upto A n), n * processors_per_socket A, n * processors_per_socket A)"
  using assms(3,4)
proof (induction n)
  case 0
  then show ?case by (simp add: overwrite_def)
next
  case (Suc n)
  have n: "n < numSockets (tp_counts A)" using Suc.prems(1) by simp
  have len: "length (cpus_upto A n) = n * processors_per_socket A" using all_active_upto [OF assms(1,2)] n by simp
  have room: "length (cpus_upto A n) + length (socket_cpus A n) \<le> length l"
    using Suc.prems(2) len all_active_cores(3) [OF assms(1,2) n] by simp
  have l: "length (overwrite l 0 (cpus_upto A n)) = length l" using room by (simp add: overwrite_length)
  have f: "treeFillNextEntries A (overwrite l 0 (cpus_upto A n)) (n * processors_per_socket A) n 0 (processors_per_socket A) =
      Some (overwrite (overwrite l 0 (cpus_upto A n)) (n * processors_per_socket A) (socket_cpus A n), processors_per_socket A)"
    using socket_fill [OF assms(1) n _ regular_shape(6) [OF assms(1) n], of "n * processors_per_socket A"] room l len
      all_active_cores(3) [OF assms(1,2) n] by simp
  have o: "overwrite (overwrite l 0 (cpus_upto A n)) (n * processors_per_socket A) (socket_cpus A n) = overwrite l 0 (cpus_upto A (Suc n))"
    using overwrite_overwrite [of 0 "cpus_upto A n" "socket_cpus A n" l] room len by simp
  have "single_entries A n (overwrite l 0 (cpus_upto A n), n * processors_per_socket A, n * processors_per_socket A) =
      Some (overwrite l 0 (cpus_upto A (Suc n)), Suc n * processors_per_socket A, Suc n * processors_per_socket A)"
    unfolding single_entries_def by (simp only: prod.case f o Option.bind.bind_lunit) (simp add: add.commute)
  then show ?case using Suc by (simp add: opt_fold_append del: cpus_upto_simps)
qed

lemma single_memory:
  assumes "regular A" "all_active A" "length pre = first" "first < N"
  shows "\<exists>d. single_memory_domain junk A first (slots N pre) = Some (slots N (pre @ [d])) \<and>
    as_domain d = \<lparr>tag = ''M0'', processorList = machine_leaves A\<rparr>"
proof -
  let ?S = "numSockets (tp_counts A)"
  let ?n = "processors_per_socket A * ?S"
  let ?l = "overwrite (malloc_ints junk ?n) 0 (machine_cpus A)"
  have f: "opt_fold (single_entries A) [0..<?S] (malloc_ints junk ?n, 0, 0) = Some (?l, ?S * processors_per_socket A, ?S * processors_per_socket A)"
    by (rule single_fold [OF assms(1,2) le_refl]) (simp add: mult.commute)
  have len: "length (machine_cpus A) = ?S * processors_per_socket A" using all_active_upto [OF assms(1,2) le_refl] .
  have t: "take (?S * processors_per_socket A) ?l = machine_leaves A"
    using len all_active_machine [OF assms(1,2)] by (simp add: overwrite_def)
  have k: "int first = int (length pre)" "length pre < N" using assms(3,4) by simp_all
  show ?thesis
    unfolding single_memory_domain_def Let_def f Option.bind.bind_lunit prod.case slots_set [OF k]
    by (rule exI, rule conjI [OF refl]) (use t in \<open>simp add: as_domain_def\<close>)
qed

text \<open>The domains of a machine whose caches have \<open>k\<close> cores and whose memory domains have \<open>r\<close> cores.\<close>

definition expected_domains :: "affinity_topology \<Rightarrow> nat \<Rightarrow> nat \<Rightarrow> nat \<Rightarrow> nat \<Rightarrow> AffinityDomain list" where
  "expected_domains A q k m r =
     \<lparr>tag = ''N'', processorList = machine_leaves A\<rparr> #
     map (\<lambda>i. \<lparr>tag = CHR ''S'' # dec_string i, processorList = concat (tree_shape A ! i)\<rparr>) [0..<numSockets (tp_counts A)] @
     map (\<lambda>j. \<lparr>tag = CHR ''C'' # dec_string j, processorList = core_group A k q j\<rparr>) [0..<numSockets (tp_counts A) * q] @
     (if length (tp_nodeProcessors A) = 1 then [\<lparr>tag = ''M0'', processorList = machine_leaves A\<rparr>]
      else map (\<lambda>j. \<lparr>tag = CHR ''M'' # dec_string j, processorList = core_group A r m j\<rparr>) [0..<numSockets (tp_counts A) * m])"

text \<open>The length of a group, and the domains as lists of processors.\<close>

lemma core_group_length:
  assumes "regular A" "numCoresPerSocket (tp_counts A) = q * k" "j < numSockets (tp_counts A) * q"
  shows "length (core_group A k q j) = k * numThreadsPerCore (tp_counts A)"
proof -
  have q: "0 < q" using assms(3) by (cases q) auto
  have i: "j div q < numSockets (tp_counts A)" using assms(3) by (simp add: less_mult_imp_div_less)
  note sh = regular_shape [OF assms(1) i]
  have "j mod q < q" using q by simp
  then have "(j mod q + 1) * k \<le> q * k" by (intro mult_le_mono1) simp
  then have "k \<le> length (drop (j mod q * k) (tree_shape A ! (j div q)))" using sh(3) assms(2) by simp
  then show ?thesis
    using concat_uniform [of "take k (drop (j mod q * k) (tree_shape A ! (j div q)))" "numThreadsPerCore (tp_counts A)"] sh(4)
    by (auto simp: core_group_def dest: in_set_takeD in_set_dropD)
qed

lemma group_domains:
  assumes "regular A" "numCoresPerSocket (tp_counts A) = q * k"
  shows "map (as_domain \<circ> cache_dom A k q) [0..<numSockets (tp_counts A) * q] =
      map (\<lambda>j. \<lparr>tag = CHR ''C'' # dec_string j, processorList = core_group A k q j\<rparr>) [0..<numSockets (tp_counts A) * q]"
    "map (as_domain \<circ> memory_dom A k q) [0..<numSockets (tp_counts A) * q] =
      map (\<lambda>j. \<lparr>tag = CHR ''M'' # dec_string j, processorList = core_group A k q j\<rparr>) [0..<numSockets (tp_counts A) * q]"
  using core_group_length [OF assms] by (simp_all add: as_domain_def cache_dom_def memory_dom_def)

lemma written_slots: "\<lbrakk>affinity_list (affinityDomains s) = Some (slots N pre); length pre = N\<rbrakk> \<Longrightarrow> written_domains s = Some (map as_domain pre)"
  by (auto simp: written_domains_def slots_full)

lemma memory_part:
  assumes "regular A" "all_active A" "length pre = first" "N = first + length (tp_nodeProcessors A)"
    and "tp_nodeProcessors A = [x] \<or> 1 < numSockets (tp_counts A) * m \<and> numCoresPerSocket (tp_counts A) = m * r \<and>
      tp_nodeProcessors A = replicate (numSockets (tp_counts A) * m) (r * numThreadsPerCore (tp_counts A))"
  shows "\<exists>new. (if numSockets (tp_counts A) \<le> length (tp_nodeProcessors A) \<and> 1 < length (tp_nodeProcessors A)
      then do { (ds3, _) \<leftarrow> opt_fold (memory_domains junk A first
          ((length (tp_nodeProcessors A) + numSockets (tp_counts A) - 1) div numSockets (tp_counts A))) [0..<numSockets (tp_counts A)] (slots N pre, 0);
        Some ds3 }
      else single_memory_domain junk A first (slots N pre)) = Some (slots N (pre @ new)) \<and> length (pre @ new) = N \<and>
    map as_domain new = (if length (tp_nodeProcessors A) = 1 then [\<lparr>tag = ''M0'', processorList = machine_leaves A\<rparr>]
      else map (\<lambda>j. \<lparr>tag = CHR ''M'' # dec_string j, processorList = core_group A r m j\<rparr>) [0..<numSockets (tp_counts A) * m])"
  using assms(5)
proof
  assume x: "tp_nodeProcessors A = [x]"
  obtain d where "single_memory_domain junk A first (slots N pre) = Some (slots N (pre @ [d]))"
      "as_domain d = \<lparr>tag = ''M0'', processorList = machine_leaves A\<rparr>"
    using single_memory [OF assms(1-3), of N junk] assms(4) x by auto
  then show ?thesis using x assms(3,4) by (intro exI [of _ "[d]"]) simp
next
  let ?S = "numSockets (tp_counts A)"
  assume h: "1 < ?S * m \<and> numCoresPerSocket (tp_counts A) = m * r \<and> tp_nodeProcessors A = replicate (?S * m) (r * numThreadsPerCore (tp_counts A))"
  have S: "0 < ?S" using assms(1) by (simp add: regular_def)
  have m: "0 < m" using h by (cases m) auto
  have le: "?S \<le> ?S * m" using m by (cases m) auto
  have per: "(?S * m + ?S - 1) div ?S = m"
  proof -
    have "?S * m + ?S - 1 = (?S - 1) + m * ?S" using S by (simp add: mult.commute)
    then show ?thesis using S by (simp only: div_mult_self1) simp
  qed
  have "opt_fold (memory_domains junk A first m) [0..<?S] (slots N pre, 0) = Some (slots N (pre @ map (memory_dom A r m) [0..<?S * m]), ?S * m)"
    by (rule memory_stage [OF assms(1,2) _ le_refl assms(3)]) (use h assms(4) in simp_all)
  moreover have "?S * m \<noteq> 1" using conjunct1 [OF h] by linarith
  ultimately show ?thesis
    using h le per group_domains(2) [OF assms(1), of m r] assms(3,4)
    by (intro exI [of _ "map (memory_dom A r m) [0..<?S * m]"]) (simp del: mult_eq_1_iff nat_mult_eq_1_iff)
qed

text \<open>
  Property C10. On a regular machine whose processors are all in the CPU set, whose last level caches and memory
  domains divide the cores of every socket evenly, the initialization succeeds, and its domains are exactly the node,
  the sockets, the groups of cores that share a cache, and the groups of cores of the memory domains, each with all
  hardware threads of its cores, in the order of the topology tree.
\<close>

theorem affinity_domains_exact:
  assumes "regular A" "all_active A" "length (core2node_lookup s) = MAX_NUM_THREADS" "\<not> affinity_initialized s"
    and "tp_cacheThreads A \<noteq> []" "last (tp_cacheThreads A) = k * numThreadsPerCore (tp_counts A)" "0 < k"
    and "numCoresPerSocket (tp_counts A) = q * k"
    and "tp_nodeProcessors A = [x] \<or> 1 < numSockets (tp_counts A) * m \<and> numCoresPerSocket (tp_counts A) = m * r \<and>
      tp_nodeProcessors A = replicate (numSockets (tp_counts A) * m) (r * numThreadsPerCore (tp_counts A))"
  shows "\<exists>s'. affinity_init junk A s = Some s' \<and> affinity_initialized s' \<and> written_domains s' = Some (expected_domains A q k m r)"
proof -
  let ?S = "numSockets (tp_counts A)"
  let ?T = "numThreadsPerCore (tp_counts A)"
  let ?N = "1 + ?S + ?S * q + length (tp_nodeProcessors A)"
  have pos: "0 < ?S" "0 < ?T" using assms(1) by (simp_all add: regular_def)
  have c: "arr_get (tp_cacheThreads A) (int (length (tp_cacheThreads A)) - 1) = Some (k * ?T)"
  proof -
    have "nat (int (length (tp_cacheThreads A)) - 1) = length (tp_cacheThreads A) - 1" by arith
    then show ?thesis using assms(5,6) by (simp add: arr_get_def last_conv_nth Suc_le_eq)
  qed
  have caches: "?S * (numCoresPerSocket (tp_counts A) div k) = ?S * q" "?S * q div ?S = q" "k * ?T div ?T = k"
    using assms(7,8) pos by simp_all
  obtain node where node: "node_domain junk A = Some node" "as_domain node = \<lparr>tag = ''N'', processorList = machine_leaves A\<rparr>"
    using node_domain_regular [OF assms(1)] all_active_machine [OF assms(1,2)] by auto
  let ?pre1 = "node # map (socket_dom junk A) [0..<?S]"
  let ?pre2 = "?pre1 @ map (cache_dom A k q) [0..<?S * q]"
  obtain lookup where lookup: "opt_fold (socket_domain junk A) [0..<?S] (slots ?N [node], core2node_lookup s) = Some (slots ?N ?pre1, lookup)"
    using socket_stage [OF assms(1) le_refl _ assms(3), of ?N junk node] by auto
  have cs: "opt_fold (cache_domains junk A (1 + ?S) (k * ?T) k q) [0..<?S] (slots ?N ?pre1, 0) = Some (slots ?N ?pre2, ?S * q)"
    by (rule cache_stage [OF assms(1,2,8) le_refl]) simp_all
  have l2: "length ?pre2 = 1 + ?S + ?S * q" by simp
  obtain new where new: "(if ?S \<le> length (tp_nodeProcessors A) \<and> 1 < length (tp_nodeProcessors A)
      then do { (ds3, _) \<leftarrow> opt_fold (memory_domains junk A (1 + ?S + ?S * q) ((length (tp_nodeProcessors A) + ?S - 1) div ?S)) [0..<?S] (slots ?N ?pre2, 0);
        Some ds3 }
      else single_memory_domain junk A (1 + ?S + ?S * q) (slots ?N ?pre2)) = Some (slots ?N (?pre2 @ new))" "length (?pre2 @ new) = ?N"
      "map as_domain new = (if length (tp_nodeProcessors A) = 1 then [\<lparr>tag = ''M0'', processorList = machine_leaves A\<rparr>]
        else map (\<lambda>j. \<lparr>tag = CHR ''M'' # dec_string j, processorList = core_group A r m j\<rparr>) [0..<?S * m])"
    using memory_part [OF assms(1,2) l2 refl assms(9), of junk] by blast
  have z: "\<not> affinity_initialized s" "?T \<noteq> 0" "k \<noteq> 0" using assms(4,7) pos by simp_all
  have so: "(replicate ?N None)[0 := Some node] = slots ?N [node]" by (rule slots_one) simp
  have "\<exists>s'. affinity_init junk A s = Some s' \<and> affinity_initialized s' \<and> affinity_list (affinityDomains s') = Some (slots ?N (?pre2 @ new))"
    unfolding affinity_init_def Let_def
    by (simp only: z if_False c caches Option.bind.bind_lunit node(1) so lookup prod.case cs new(1)) simp
  then obtain s' where s': "affinity_init junk A s = Some s'" "affinity_initialized s'" "affinity_list (affinityDomains s') = Some (slots ?N (?pre2 @ new))"
    by blast
  have "map as_domain (?pre2 @ new) = expected_domains A q k m r"
    using node(2) new(3) group_domains(1) [OF assms(1,8)] socket_dom_as [OF assms(1)] all_active_cores(2) [OF assms(1,2)]
    by (simp add: expected_domains_def)
  then show ?thesis using s'(1,2) written_slots [OF s'(3) new(2)] by auto
qed

end
