(* ===== verification/Affinity_Topology.thy ===== *)
theory Affinity_Topology
  imports Affinity_Properties
begin

text \<open>
  The affinity domains of the tree that \<open>topology_setupTree\<close> builds from a list of hardware threads, and the
  machines for which the initialization is undefined.
\<close>

section \<open>The tree of a regular list of hardware threads\<close>

text \<open>
  Hardware threads in the order of their processor numbers, with the same number of cores in every package and
  of threads in every core.
\<close>

definition pool_regular :: "HWThread list \<Rightarrow> bool" where
  "pool_regular pool \<longleftrightarrow> pool \<noteq> [] \<and> length pool \<le> MAX_NUM_THREADS \<and> (\<forall>i<length pool. apicId (pool ! i) = i) \<and>
     (\<exists>C T. \<forall>t\<in>set pool. card (coreId ` {u \<in> set pool. packageId u = packageId t}) = C \<and>
        card {u \<in> set pool. packageId u = packageId t \<and> coreId u = coreId t} = T)"

lemma pool_thread: "\<lbrakk>pool_regular pool; t \<in> set pool\<rbrakk> \<Longrightarrow> apicId t < length pool \<and> pool ! apicId t = t"
  by (auto simp: pool_regular_def in_set_conv_nth)

lemma pool_apic_inj: "pool_regular pool \<Longrightarrow> inj_on apicId (set pool)"
  using pool_thread by (metis inj_onI)

text \<open>The children of a node that is reached by a path are the ids that continue the path.\<close>

lemma kids_paths:
  assumes "topo_inv h root T" "tree_path (child h) root ps = Some a"
  shows "nid h ` set (kids h a) = {i. ps @ [i] \<in> T}" "distinct (kids h a)" "length (kids h a) = card {i. ps @ [i] \<in> T}"
    "\<And>b. b \<in> set (kids h a) \<Longrightarrow> tree_path (child h) root (ps @ [nid h b]) = Some b"
proof -
  have inv: "tree_wf h" "root \<in> dom (cells h)" "dom (tree_path (child h) root) = T" using assms(1) by (simp_all add: topo_inv_def)
  have a: "a \<in> dom (cells h)" by (rule nt.path_node [OF inv(1,2) assms(2)])
  note D = tree_wfD [OF inv(1) a]
  have "dom (child h a) = {i. ps @ [i] \<in> T}"
    using assms(2) unfolding inv(3) [symmetric] by (auto simp: tree_path_snoc)
  then show e: "nid h ` set (kids h a) = {i. ps @ [i] \<in> T}" by (simp add: child_dom)
  show "distinct (kids h a)" by (rule D(5))
  show "length (kids h a) = card {i. ps @ [i] \<in> T}"
    using D(4) unfolding e [symmetric] by (metis distinct_card length_map set_map)
  show "b \<in> set (kids h a) \<Longrightarrow> tree_path (child h) root (ps @ [nid h b]) = Some b" for b
    using assms(2) child_Some [OF inv(1) a, of "nid h b" b] by (simp add: tree_path_snoc)
qed

text \<open>What \<open>topology_setupTree\<close> returns.\<close>

lemma setupTree_inv:
  assumes "topology_setupTree empty_heap lookup pool = Some (topo, h, lookup')" "\<forall>t\<in>set pool. apicId t < length lookup"
  shows "topo_inv h (topologyTree topo) (insert [] (\<Union>t\<in>set pool. thread_paths (t, int (apicId t))))"
    "tree_countChildren h (topologyTree topo) = Some (numSockets topo)"
    "\<exists>s c. tree_getChildNode h (topologyTree topo) = Some s \<and> tree_countChildren h s = Some (numCoresPerSocket topo) \<and>
       tree_getChildNode h s = Some c \<and> tree_countChildren h c = Some (numThreadsPerCore topo)"
proof -
  obtain root h0 where h0: "tree_init empty_heap 0 = (root, h0)" "topo_inv h0 root {[]}" using init_inv by blast
  have ts: "\<forall>(t, leaf)\<in>set (map (\<lambda>t. (t, int (apicId t))) pool). apicId t < length lookup" using assms(2) by auto
  obtain h1 lookup1 where h1: "topology_addThreads root (map (\<lambda>t. (t, int (apicId t))) pool) (h0, lookup) = Some (h1, lookup1)"
      "topo_inv h1 root ({[]} \<union> (\<Union>x\<in>set (map (\<lambda>t. (t, int (apicId t))) pool). thread_paths x))"
    using addThreads_inv [OF h0(2) _ ts] by auto
  have eq: "h = h1 \<and> topologyTree topo = root \<and> tree_countChildren h1 root = Some (numSockets topo) \<and>
      (\<exists>s c. tree_getChildNode h root = Some s \<and> tree_countChildren h s = Some (numCoresPerSocket topo) \<and>
       tree_getChildNode h s = Some c \<and> tree_countChildren h c = Some (numThreadsPerCore topo))"
    using assms(1) h0(1) h1(1) by (auto simp: topology_setupTree_def split: bind_split_asm)
  then show "tree_countChildren h (topologyTree topo) = Some (numSockets topo)"
    "\<exists>s c. tree_getChildNode h (topologyTree topo) = Some s \<and> tree_countChildren h s = Some (numCoresPerSocket topo) \<and>
       tree_getChildNode h s = Some c \<and> tree_countChildren h c = Some (numThreadsPerCore topo)" by auto
  show "topo_inv h (topologyTree topo) (insert [] (\<Union>t\<in>set pool. thread_paths (t, int (apicId t))))"
    using eq h1(2) by (simp add: image_comp)
qed

definition from_pool :: "affinity_topology \<Rightarrow> HWThread list \<Rightarrow> int list \<Rightarrow> int list \<Rightarrow> bool" where
  "from_pool A pool lookup lookup' \<longleftrightarrow> topology_setupTree empty_heap lookup pool = Some (tp_counts A, tp_tree A, lookup') \<and>
     tp_threadPool A = pool \<and> tp_numHWThreads A = length pool"

abbreviation tree_sockets :: "affinity_topology \<Rightarrow> nat list" where
  "tree_sockets A \<equiv> kids (tp_tree A) (topologyTree (tp_counts A))"

lemma distinct_concat_map:
  "\<lbrakk>distinct xs; \<forall>x\<in>set xs. distinct (f x); \<forall>x\<in>set xs. \<forall>y\<in>set xs. x \<noteq> y \<longrightarrow> set (f x) \<inter> set (f y) = {}\<rbrakk> \<Longrightarrow>
     distinct (concat (map f xs))"
  by (induction xs) auto

text \<open>Packages, cores and threads of the list are the levels of the tree.\<close>

definition core_level :: "tree_heap \<Rightarrow> HWThread list \<Rightarrow> nat \<Rightarrow> nat \<Rightarrow> nat \<Rightarrow> bool" where
  "core_level h pool p c k \<longleftrightarrow> nid h c = int k \<and> k \<in> coreId ` {t \<in> set pool. packageId t = p} \<and> distinct (map (nid h) (kids h c)) \<and>
     nid h ` set (kids h c) = int ` apicId ` {t \<in> set pool. packageId t = p \<and> coreId t = k}"

definition socket_level :: "tree_heap \<Rightarrow> HWThread list \<Rightarrow> nat \<Rightarrow> nat \<Rightarrow> bool" where
  "socket_level h pool s p \<longleftrightarrow> nid h s = int p \<and> p \<in> packageId ` set pool \<and> distinct (map (nid h) (kids h s)) \<and>
     nid h ` set (kids h s) = int ` coreId ` {t \<in> set pool. packageId t = p} \<and>
     length (kids h s) = card (coreId ` {t \<in> set pool. packageId t = p}) \<and> (\<forall>c\<in>set (kids h s). \<exists>k. core_level h pool p c k)"

lemma kids_distinct: "\<lbrakk>topo_inv h root T; tree_path (child h) root ps = Some a\<rbrakk> \<Longrightarrow> distinct (map (nid h) (kids h a))"
  using nt.path_node [of h root ps a] tree_wfD(4) [of h a] by (simp add: topo_inv_def)

lemma nid_int: "\<lbrakk>x \<in> set xs; nid h ` set xs = int ` N\<rbrakk> \<Longrightarrow> \<exists>n\<in>N. nid h x = int n"
  by blast

lemma tree_levels:
  assumes "from_pool A pool lookup lookup'" "\<forall>t\<in>set pool. apicId t < length lookup"
  shows "nid (tp_tree A) ` set (tree_sockets A) = int ` packageId ` set pool" "distinct (map (nid (tp_tree A)) (tree_sockets A))"
    "\<And>s. s \<in> set (tree_sockets A) \<Longrightarrow> \<exists>p. socket_level (tp_tree A) pool s p"
proof -
  let ?h = "tp_tree A" and ?r = "topologyTree (tp_counts A)"
  define T where "T = insert [] (\<Union>t\<in>set pool. thread_paths (t, int (apicId t)))"
  have inv: "topo_inv ?h ?r T" using setupTree_inv(1) [OF _ assms(2)] assms(1) unfolding from_pool_def T_def by blast
  note paths = setup_paths [where pool = pool, folded T_def]
  have r: "tree_path (child ?h) ?r [] = Some ?r" by simp
  note K = kids_paths [OF inv r]
  show 1: "nid ?h ` set (tree_sockets A) = int ` packageId ` set pool" using K(1) paths(1) by simp
  show "distinct (map (nid ?h) (tree_sockets A))" by (rule kids_distinct [OF inv r])
  fix s assume s: "s \<in> set (tree_sockets A)"
  obtain p where p: "nid ?h s = int p" "p \<in> packageId ` set pool" using nid_int [OF s 1] by blast
  have sp: "tree_path (child ?h) ?r [int p] = Some s" using K(4) [OF s] p(1) by simp
  note Ks = kids_paths [OF inv sp, unfolded paths(2)]
  have c: "\<forall>c\<in>set (kids ?h s). \<exists>k. core_level ?h pool p c k"
  proof
    fix c
    assume c: "c \<in> set (kids ?h s)"
    obtain k where k: "nid ?h c = int k" "k \<in> coreId ` {t \<in> set pool. packageId t = p}" using nid_int [OF c Ks(1)] by blast
    have cp: "tree_path (child ?h) ?r [int p, int k] = Some c" using Ks(4) [OF c] k(1) by simp
    show "\<exists>k. core_level ?h pool p c k"
      using k kids_paths(1) [OF inv cp, unfolded paths(3)] kids_distinct [OF inv cp] unfolding core_level_def by (intro exI conjI)
  qed
  have l: "length (kids ?h s) = card (coreId ` {t \<in> set pool. packageId t = p})"
    using Ks(3) by (simp add: card_image)
  show "\<exists>p. socket_level ?h pool s p"
    unfolding socket_level_def using p kids_distinct [OF inv sp] Ks(1) l c by (intro exI conjI)
qed

text \<open>The processors of a socket are the threads of its package.\<close>

lemma socket_leaves:
  assumes "socket_level h pool s p"
  shows "(\<Union>c\<in>set (kids h s). nid h ` set (kids h c)) = int ` apicId ` {t \<in> set pool. packageId t = p}"
proof (intro equalityI subsetI)
  note L = assms [unfolded socket_level_def]
  {
    fix x assume "x \<in> (\<Union>c\<in>set (kids h s). nid h ` set (kids h c))"
    then obtain c k where "c \<in> set (kids h s)" "core_level h pool p c k" "x \<in> nid h ` set (kids h c)" using L by blast
    then show "x \<in> int ` apicId ` {t \<in> set pool. packageId t = p}" unfolding core_level_def by auto
  next
    fix x assume "x \<in> int ` apicId ` {t \<in> set pool. packageId t = p}"
    then obtain t where t: "t \<in> set pool" "packageId t = p" "x = int (apicId t)" by blast
    then have "int (coreId t) \<in> nid h ` set (kids h s)" using L by auto
    then obtain c where c: "c \<in> set (kids h s)" "nid h c = int (coreId t)" by force
    then obtain k where k: "core_level h pool p c k" using L by blast
    then have "k = coreId t" using c(2) by (simp add: core_level_def)
    then have "x \<in> nid h ` set (kids h c)" using t k unfolding core_level_def by auto
    then show "x \<in> (\<Union>c\<in>set (kids h s). nid h ` set (kids h c))" using c(1) by blast
  }
qed

lemma shape_leaves:
  assumes "from_pool A pool lookup lookup'" "\<forall>t\<in>set pool. apicId t < length lookup" "i < length (tree_sockets A)"
  obtains p where "socket_level (tp_tree A) pool (tree_sockets A ! i) p"
    "set (concat (tree_shape A ! i)) = int ` apicId ` {t \<in> set pool. packageId t = p}"
proof -
  have s: "tree_sockets A ! i \<in> set (tree_sockets A)" using assms(3) by simp
  obtain p where p: "socket_level (tp_tree A) pool (tree_sockets A ! i) p" using tree_levels(3) [OF assms(1,2) s] by blast
  have "set (concat (tree_shape A ! i)) = (\<Union>c\<in>set (kids (tp_tree A) (tree_sockets A ! i)). nid (tp_tree A) ` set (kids (tp_tree A) c))"
    using assms(3) by (simp add: tree_shape_def Let_def)
  then show thesis using that [OF p] socket_leaves [OF p] by simp
qed

text \<open>The leaves are the processors, each once.\<close>

lemma core_leaf:
  "\<lbrakk>core_level h pool p c k; x \<in> nid h ` set (kids h c)\<rbrakk> \<Longrightarrow> \<exists>t\<in>set pool. x = int (apicId t) \<and> packageId t = p \<and> coreId t = k"
  by (auto simp: core_level_def)

lemma leaves_distinct:
  assumes "from_pool A pool lookup lookup'" "\<forall>t\<in>set pool. apicId t < length lookup" "pool_regular pool"
  shows "distinct (machine_leaves A)"
proof -
  let ?h = "tp_tree A"
  have inj: "t = u" if "t \<in> set pool" "u \<in> set pool" "int (apicId t) = int (apicId u)" for t u
    using pool_apic_inj [OF assms(3)] that by (simp add: inj_on_def)
  have core: "distinct (concat (map (\<lambda>c. map (nid ?h) (kids ?h c)) (kids ?h s)))" if s: "s \<in> set (tree_sockets A)" for s
  proof (intro distinct_concat_map ballI impI)
    obtain p where p: "socket_level ?h pool s p" using tree_levels(3) [OF assms(1,2) s] by blast
    note L = p [unfolded socket_level_def]
    show "distinct (kids ?h s)" using L by (simp add: distinct_map)
    fix c assume c: "c \<in> set (kids ?h s)"
    then obtain k where k: "core_level ?h pool p c k" using L by blast
    then show "distinct (map (nid ?h) (kids ?h c))" by (simp add: core_level_def)
    fix d assume d: "d \<in> set (kids ?h s)" "c \<noteq> d"
    then obtain j where j: "core_level ?h pool p d j" using L by blast
    have "j \<noteq> k"
    proof
      assume "j = k"
      then have "nid ?h c = nid ?h d" using k j by (simp add: core_level_def)
      then show False using L c d by (auto simp: distinct_map inj_on_def)
    qed
    have False if x: "x \<in> nid ?h ` set (kids ?h c)" "x \<in> nid ?h ` set (kids ?h d)" for x
    proof -
      obtain t where t: "t \<in> set pool" "x = int (apicId t)" "coreId t = k" using core_leaf [OF k x(1)] by blast
      obtain u where u: "u \<in> set pool" "x = int (apicId u)" "coreId u = j" using core_leaf [OF j x(2)] by blast
      have "t = u" by (rule inj) (use t u in simp_all)
      then show False using t(3) u(3) \<open>j \<noteq> k\<close> by simp
    qed
    then show "set (map (nid ?h) (kids ?h c)) \<inter> set (map (nid ?h) (kids ?h d)) = {}" by auto
  qed
  have "distinct (concat (map (\<lambda>s. concat (map (\<lambda>c. map (nid ?h) (kids ?h c)) (kids ?h s))) (tree_sockets A)))"
  proof (rule distinct_concat_map; (intro ballI impI)?)
    show "distinct (tree_sockets A)" using tree_levels(2) [OF assms(1,2)] by (simp add: distinct_map)
    fix s assume s: "s \<in> set (tree_sockets A)"
    then show "distinct (concat (map (\<lambda>c. map (nid ?h) (kids ?h c)) (kids ?h s)))" by (rule core)
    fix r assume r: "r \<in> set (tree_sockets A)" "s \<noteq> r"
    obtain p where p: "socket_level ?h pool s p" using tree_levels(3) [OF assms(1,2) s] by blast
    obtain q where q: "socket_level ?h pool r q" using tree_levels(3) [OF assms(1,2) r(1)] by blast
    have ne: "p \<noteq> q"
    proof
      assume "p = q"
      then have "nid ?h s = nid ?h r" using p q by (simp add: socket_level_def)
      then show False using tree_levels(2) [OF assms(1,2)] s r by (auto simp: distinct_map inj_on_def)
    qed
    have sets: "set (concat (map (\<lambda>c. map (nid ?h) (kids ?h c)) (kids ?h s))) = int ` apicId ` {t \<in> set pool. packageId t = p}"
      "set (concat (map (\<lambda>c. map (nid ?h) (kids ?h c)) (kids ?h r))) = int ` apicId ` {t \<in> set pool. packageId t = q}"
      using socket_leaves [OF p] socket_leaves [OF q] by simp_all
    have no: False if x: "x \<in> int ` apicId ` {t \<in> set pool. packageId t = p}" "x \<in> int ` apicId ` {t \<in> set pool. packageId t = q}" for x
    proof -
      obtain t where t: "t \<in> set pool" "x = int (apicId t)" "packageId t = p" using x(1) by blast
      obtain u where u: "u \<in> set pool" "x = int (apicId u)" "packageId u = q" using x(2) by blast
      have "t = u" by (rule inj) (use t u in simp_all)
      then show False using t(3) u(3) ne by simp
    qed
    show "set (concat (map (\<lambda>c. map (nid ?h) (kids ?h c)) (kids ?h s))) \<inter>
        set (concat (map (\<lambda>c. map (nid ?h) (kids ?h c)) (kids ?h r))) = {}"
      unfolding sets by (rule equals0I, erule IntE) (rule no)
  qed
  then show ?thesis by (simp add: machine_leaves_def tree_shape_def Let_def comp_def)
qed

lemma leaves_set:
  assumes "from_pool A pool lookup lookup'" "\<forall>t\<in>set pool. apicId t < length lookup"
  shows "set (machine_leaves A) = int ` apicId ` set pool"
proof -
  let ?h = "tp_tree A"
  have e: "set (machine_leaves A) = (\<Union>s\<in>set (tree_sockets A). \<Union>c\<in>set (kids ?h s). nid ?h ` set (kids ?h c))"
    by (simp add: machine_leaves_def tree_shape_def Let_def)
  have "(\<Union>s\<in>set (tree_sockets A). \<Union>c\<in>set (kids ?h s). nid ?h ` set (kids ?h c)) \<subseteq> int ` apicId ` set pool"
  proof (intro UN_least)
    fix s c assume s: "s \<in> set (tree_sockets A)" "c \<in> set (kids ?h s)"
    obtain p where "socket_level ?h pool s p" using tree_levels(3) [OF assms s(1)] by blast
    from socket_leaves [OF this] s(2) show "nid ?h ` set (kids ?h c) \<subseteq> int ` apicId ` set pool" by blast
  qed
  moreover have "int (apicId t) \<in> (\<Union>s\<in>set (tree_sockets A). \<Union>c\<in>set (kids ?h s). nid ?h ` set (kids ?h c))" if t: "t \<in> set pool" for t
  proof -
    have "int (packageId t) \<in> nid ?h ` set (tree_sockets A)" using tree_levels(1) [OF assms] t by simp
    then obtain s where s: "s \<in> set (tree_sockets A)" "nid ?h s = int (packageId t)" by force
    obtain p where p: "socket_level ?h pool s p" using tree_levels(3) [OF assms s(1)] by blast
    then have "p = packageId t" using s(2) by (simp add: socket_level_def)
    then show ?thesis using socket_leaves [OF p] s(1) t by blast
  qed
  ultimately show ?thesis unfolding e by blast
qed

lemma child_length: "\<lbrakk>tree_wf h; a \<in> dom (cells h)\<rbrakk> \<Longrightarrow> tree_countChildren h a = Some (length (kids h a))"
  using child_count [of h a] tree_wfD(4) [of h a] by (simp add: child_dom distinct_card flip: set_map)

lemma first_kid: "\<lbrakk>tree_wf h; a \<in> dom (cells h); kids h a \<noteq> []; tree_getChildNode h a = Some b\<rbrakk> \<Longrightarrow> b \<in> set (kids h a)"
  using chain_child [of h a] by (cases "kids h a") auto

text \<open>A regular list of hardware threads gives a regular machine.\<close>

lemma topology_regular:
  assumes "from_pool A pool lookup lookup'" "pool_regular pool" "length lookup = MAX_NUM_THREADS"
  shows "regular A"
proof -
  let ?h = "tp_tree A" and ?r = "topologyTree (tp_counts A)"
  let ?C = "numCoresPerSocket (tp_counts A)" and ?T = "numThreadsPerCore (tp_counts A)" and ?S = "numSockets (tp_counts A)"
  have ap: "\<forall>t\<in>set pool. apicId t < length lookup"
    using pool_thread [OF assms(2)] assms(2,3) by (fastforce simp: pool_regular_def)
  obtain C T where CT: "\<And>t. t \<in> set pool \<Longrightarrow> card (coreId ` {u \<in> set pool. packageId u = packageId t}) = C"
      "\<And>t. t \<in> set pool \<Longrightarrow> card {u \<in> set pool. packageId u = packageId t \<and> coreId u = coreId t} = T"
    using assms(2) unfolding pool_regular_def by blast
  have pool: "tp_threadPool A = pool" "tp_numHWThreads A = length pool" "pool \<noteq> []" "length pool \<le> MAX_NUM_THREADS"
    using assms(1,2) by (simp_all add: from_pool_def pool_regular_def)
  obtain t0 where t0: "t0 \<in> set pool" using pool(3) by (meson list.set_sel(1))
  note run = setupTree_inv [OF conjunct1 [OF assms(1) [unfolded from_pool_def]] ap]
  have wf: "tree_wf ?h" "?r \<in> dom (cells ?h)" using run(1) by (simp_all add: topo_inv_def)
  note lev = tree_levels [OF assms(1) ap]
  have dom: "set (tree_sockets A) \<subseteq> dom (cells ?h)" by (rule tree_wfD(6) [OF wf])
  have sock: "length (kids ?h s) = C \<and> (\<forall>c\<in>set (kids ?h s). length (kids ?h c) = T \<and> kids ?h c \<noteq> []) \<and> kids ?h s \<noteq> []" if s: "s \<in> set (tree_sockets A)" for s
  proof -
    obtain p where p: "socket_level ?h pool s p" using lev(3) [OF s] by blast
    note L = p [unfolded socket_level_def]
    obtain t where t: "t \<in> set pool" "packageId t = p" using L by blast
    have "length (kids ?h c) = T \<and> kids ?h c \<noteq> []" if c: "c \<in> set (kids ?h s)" for c
    proof -
      obtain k where k: "core_level ?h pool p c k" using L c by blast
      then obtain u where u: "u \<in> set pool" "packageId u = p" "coreId u = k" unfolding core_level_def by blast
      have "length (kids ?h c) = card (nid ?h ` set (kids ?h c))"
        using k by (metis core_level_def distinct_card length_map set_map)
      also have "\<dots> = card {v \<in> set pool. packageId v = p \<and> coreId v = k}"
        using k pool_apic_inj [OF assms(2)] by (simp add: core_level_def card_image inj_on_subset)
      finally have len: "length (kids ?h c) = T" using CT(2) [OF u(1)] u by simp
      have "int (apicId u) \<in> nid ?h ` set (kids ?h c)" using k u by (auto simp: core_level_def)
      then show ?thesis using len by auto
    qed
    moreover have "length (kids ?h s) = C" using L CT(1) [OF t(1)] t(2) by simp
    moreover have "int (coreId t) \<in> nid ?h ` set (kids ?h s)" using L t by auto
    then have "kids ?h s \<noteq> []" by auto
    ultimately show ?thesis by blast
  qed
  have ne: "tree_sockets A \<noteq> []" using lev(1) t0 by auto
  obtain s c where sc: "tree_getChildNode ?h ?r = Some s" "tree_countChildren ?h s = Some ?C" "tree_getChildNode ?h s = Some c"
      "tree_countChildren ?h c = Some ?T" using run(3) by blast
  have s: "s \<in> set (tree_sockets A)" "s \<in> dom (cells ?h)" using first_kid [OF wf ne sc(1)] dom by auto
  have c: "c \<in> set (kids ?h s)" "c \<in> dom (cells ?h)"
    using first_kid [OF wf(1) s(2) _ sc(3)] sock [OF s(1)] tree_wfD(6) [OF wf(1) s(2)] by auto
  have CT': "?C = C" "?T = T"
    using sc(2,4) child_length [OF wf(1) s(2)] child_length [OF wf(1) c(2)] sock [OF s(1)] c(1) by simp_all
  have S: "?S = length (tree_sockets A)" using run(2) child_length [OF wf] by simp
  have shape: "\<forall>x\<in>set (tree_shape A). length x = ?C \<and> (\<forall>y\<in>set x. length y = ?T)"
    using sock unfolding CT' by (simp add: tree_shape_def Let_def)
  have leaf: "\<forall>cpu\<in>set (machine_leaves A). 0 \<le> cpu \<and> cpu < int (length pool)"
    using leaves_set [OF assms(1) ap] pool_thread [OF assms(2)] by auto
  have ok: "tree_ok A"
    using wf S leaf pool(1) by (auto simp: tree_ok_def machine_leaves_def) (simp_all add: tree_shape_def Let_def)
  have d: "distinct (machine_leaves A)" by (rule leaves_distinct [OF assms(1) ap assms(2)])
  have "length (machine_leaves A) = card (int ` apicId ` set pool)" using d leaves_set [OF assms(1) ap] distinct_card by metis
  also have "\<dots> = card (set pool)" using pool_apic_inj [OF assms(2)] by (simp add: card_image)
  also have "\<dots> = length pool"
  proof (rule distinct_card)
    show "distinct pool" using assms(2) by (auto simp: distinct_conv_nth pool_regular_def) (metis)
  qed
  finally have "length (machine_leaves A) = length pool" .
  moreover have "length (machine_leaves A) = ?S * (?C * ?T)"
  proof -
    have "length (concat x) = ?C * ?T" if "x \<in> set (tree_shape A)" for x using concat_uniform [of x ?T] shape that by auto
    then have "\<forall>x\<in>set (map concat (tree_shape A)). length x = ?C * ?T" by simp
    then show ?thesis using concat_uniform [of "map concat (tree_shape A)" "?C * ?T"] S by (simp add: machine_leaves_def tree_shape_def Let_def)
  qed
  moreover have "0 < ?S" using S ne by simp
  moreover have "0 < ?T" using sock [OF s(1)] c(1) CT'(2) by (metis length_greater_0_conv)
  ultimately show ?thesis
    using ok shape d leaf pool by (auto simp: regular_def)
qed

section \<open>Undefined initializations\<close>

lemma next_entries_never:
  "\<forall>m\<le>length cs. int (length (concat (take m cs))) \<noteq> n \<Longrightarrow> next_entries n cs = concat cs"
proof (induction cs arbitrary: n)
  case (Cons c cs)
  have "n \<noteq> 0" using Cons.prems by force
  moreover have "int (length (concat (take m cs))) \<noteq> n - int (length c)" if "m \<le> length cs" for m
    using Cons.prems [rule_format, of "Suc m"] that by simp
  ultimately show ?case using Cons.IH [of "n - int (length c)"] by simp
qed simp


lemma ceil_div_mult:
  fixes n k :: nat
  assumes "0 < k"
  shows "n \<le> k * ((n + k - 1) div k)"
proof -
  have "k * ((n + k - 1) div k) + (n + k - 1) mod k = n + k - 1" by (rule mult_div_mod_eq)
  moreover have "(n + k - 1) mod k < k" using assms by simp
  ultimately show ?thesis by linarith
qed

lemma memory_stage_nodes:
  assumes "opt_fold (memory_domains junk A first per) [0..<n] (ds, 0) = Some (ds', sub)"
  shows "sub = n * per \<and> n * per \<le> length (tp_nodeProcessors A)"
proof -
  have inner: "sub' = sub + m \<and> (0 < m \<longrightarrow> sub' \<le> length (tp_nodeProcessors A))"
    if f: "opt_fold (memory_domain junk A first i) [0..<m] (ds, sub, off) = Some (ds', sub', off')" for i m ds sub off ds' sub' off'
  proof -
    have "fst (snd (ds', sub', off')) = sub + m \<and> (0 < m \<longrightarrow> fst (snd (ds', sub', off')) \<le> length (tp_nodeProcessors A))"
      by (rule opt_fold_upt [OF f, where I = "\<lambda>k s. fst (snd s) = sub + k \<and> (0 < k \<longrightarrow> fst (snd s) \<le> length (tp_nodeProcessors A))"])
        (auto simp: memory_domain_def Let_def arr_get_def split: bind_split_asm if_splits)
    from this [unfolded fst_conv snd_conv] show ?thesis .
  qed
  have "snd (ds', sub) = n * per \<and> snd (ds', sub) \<le> length (tp_nodeProcessors A)"
  proof (rule opt_fold_upt [OF assms, where I = "\<lambda>k s. snd s = k * per \<and> snd s \<le> length (tp_nodeProcessors A)"])
    fix i s s'
    assume s: "snd s = i * per \<and> snd s \<le> length (tp_nodeProcessors A)" "memory_domains junk A first per i s = Some s'"
    then obtain off' where "opt_fold (memory_domain junk A first i) [0..<per] (fst s, snd s, 0) = Some (fst s', snd s', off')"
      by (cases s) (auto simp: memory_domains_def split: bind_split_asm)
    from inner [OF this] s(1) show "snd s' = Suc i * per \<and> snd s' \<le> length (tp_nodeProcessors A)" by (cases "per = 0") auto
  qed simp
  then show ?thesis by simp
qed


end
