(* ===== verification/Affinity_Example.thy ===== *)
theory Affinity_Example
  imports Affinity_Topology
begin

text \<open>
  The properties of the affinity domains on a small machine: one package with two cores of two threads, with all
  processors in the CPU set or without processor 0.
\<close>

section \<open>The machine\<close>

text \<open>Processor 0 is in the CPU set when \<open>c\<close> is not 0.\<close>

declare insert_walk.simps [code] find_sibling.simps [code] count_siblings.simps [code] fill_threads.simps [code] fill_cores.simps [code]

definition small_pool :: "nat \<Rightarrow> HWThread list" where
  "small_pool c = map (\<lambda>(cpu, thread, core). \<lparr>threadId = thread, coreId = core, packageId = 0, apicId = cpu, inCpuSet = if cpu = 0 then c else 1\<rparr>)
     [(0, 0, 0), (1, 0, 1), (2, 1, 0), (3, 1, 1)]"

definition small_setup :: "nat \<Rightarrow> topology_counts \<times> tree_heap \<times> int list" where
  "small_setup c = the (topology_setupTree empty_heap (replicate MAX_NUM_THREADS 0) (small_pool c))"

definition small_machine :: "nat \<Rightarrow> nat \<Rightarrow> affinity_topology" where
  "small_machine c llc = \<lparr>tp_tree = fst (snd (small_setup c)), tp_counts = fst (small_setup c), tp_threadPool = small_pool c,
     tp_numHWThreads = 4, tp_activeHWThreads = 3 + c, tp_cacheThreads = [2, llc], tp_nodeProcessors = [4]\<rparr>"

definition fresh_affinity :: affinity where
  "fresh_affinity = \<lparr>affinity_initialized = False, affinity_numberOfDomains = 0, core2node_lookup = replicate MAX_NUM_THREADS 0,
     affinityDomains = \<lparr>numberOfSocketDomains = 0, numberOfNumaDomains = 0, numberOfProcessorsPerSocket = 0, numberOfCacheDomains = 0,
       numberOfCoresPerCache = 0, numberOfProcessorsPerCache = 0, numberOfAffinityDomains = 0, affinity_list = None\<rparr>\<rparr>"

lemma small_setup:
  "map_option fst (topology_setupTree empty_heap (replicate MAX_NUM_THREADS 0) (small_pool 0)) =
     Some \<lparr>topologyTree = 1, numSockets = 1, numCoresPerSocket = 2, numThreadsPerCore = 2\<rparr>"
  "map_option fst (topology_setupTree empty_heap (replicate MAX_NUM_THREADS 0) (small_pool 1)) =
     Some \<lparr>topologyTree = 1, numSockets = 1, numCoresPerSocket = 2, numThreadsPerCore = 2\<rparr>"
  by code_simp+

lemma small_fields [simp]:
  "tp_threadPool (small_machine c n) = small_pool c" "tp_cacheThreads (small_machine c n) = [2, n]"
  "tp_nodeProcessors (small_machine c n) = [4]" "tp_activeHWThreads (small_machine c n) = 3 + c" "tp_numHWThreads (small_machine c n) = 4"
  "affinity_initialized fresh_affinity = False" "core2node_lookup fresh_affinity = replicate MAX_NUM_THREADS 0"
  by (simp_all add: small_machine_def fresh_affinity_def)

lemma small_counts:
  assumes "c = 0 \<or> c = 1"
  shows "tp_counts (small_machine c n) = \<lparr>topologyTree = 1, numSockets = 1, numCoresPerSocket = 2, numThreadsPerCore = 2\<rparr>"
    "\<exists>lookup'. from_pool (small_machine c n) (small_pool c) (replicate MAX_NUM_THREADS 0) lookup'"
  using assms small_setup by (auto simp: small_machine_def small_setup_def from_pool_def) (auto simp: small_pool_def)

lemma small_pool_regular: "pool_regular (small_pool c)"
proof -
  have f: "{t \<in> set (small_pool c). P t} = set (filter P (small_pool c))" for P by auto
  have "\<forall>i<4. apicId (small_pool c ! i) = i" by (simp add: small_pool_def less_Suc_eq numeral_eq_Suc)
  moreover have "\<forall>t\<in>set (small_pool c). card (coreId ` {u \<in> set (small_pool c). packageId u = packageId t}) = 2"
    unfolding f by (simp add: small_pool_def card_insert_if)
  moreover have "\<forall>t\<in>set (small_pool c). card {u \<in> set (small_pool c). packageId u = packageId t \<and> coreId u = coreId t} = 2"
    unfolding f by (simp add: small_pool_def card_insert_if)
  moreover have "length (small_pool c) = 4" by (simp add: small_pool_def)
  ultimately show ?thesis unfolding pool_regular_def by (auto simp: MAX_NUM_THREADS_def)
qed

lemma small_regular: "c = 0 \<or> c = 1 \<Longrightarrow> regular (small_machine c n)"
  using small_counts(2) [of c n] topology_regular [OF _ small_pool_regular] by fastforce

text \<open>The tree: the root, its package, the cores 0 and 1, and their threads.\<close>

definition small_nodes :: "TreeNode list" where
  "small_nodes =
    [\<lparr>tn_id = 0, tn_llink = 2, tn_rlink = 0\<rparr>, \<lparr>tn_id = 0, tn_llink = 3, tn_rlink = 0\<rparr>,
     \<lparr>tn_id = 0, tn_llink = 4, tn_rlink = 5\<rparr>, \<lparr>tn_id = 0, tn_llink = 0, tn_rlink = 7\<rparr>,
     \<lparr>tn_id = 1, tn_llink = 6, tn_rlink = 0\<rparr>, \<lparr>tn_id = 1, tn_llink = 0, tn_rlink = 8\<rparr>,
     \<lparr>tn_id = 2, tn_llink = 0, tn_rlink = 0\<rparr>, \<lparr>tn_id = 3, tn_llink = 0, tn_rlink = 0\<rparr>]"

lemma small_cells:
  "map (cells (tp_tree (small_machine 0 n))) [1..<9] = map Some small_nodes"
  "map (cells (tp_tree (small_machine 1 n))) [1..<9] = map Some small_nodes"
  by code_simp+

lemma small_shape:
  assumes "c = 0 \<or> c = 1"
  shows "tree_shape (small_machine c n) = [[[0, 2], [1, 3]]]"
proof -
  let ?h = "tp_tree (small_machine c n)"
  have cells: "map (cells ?h) [1..<9] = map Some small_nodes" using assms small_cells [of n] by blast
  have c: "cells ?h a = Some (small_nodes ! (a - 1))" if "a \<in> {1..<9}" for a
  proof -
    have i: "a - 1 < length [1..<9]" "[1..<9] ! (a - 1) = a" using that by (auto simp: nth_upt)
    have "cells ?h a = map (cells ?h) [1..<9] ! (a - 1)" by (simp only: nth_map [OF i(1)] i(2))
    also have "\<dots> = Some (small_nodes ! (a - 1))" unfolding cells using that by (intro nth_map) (auto simp: small_nodes_def)
    finally show ?thesis .
  qed
  have k: "kids ?h 1 = [2]" "kids ?h 2 = [3, 5]" "kids ?h 3 = [4, 7]" "kids ?h 5 = [6, 8]"
    by (rule kids_eq; simp add: field_defs c dom_def small_nodes_def)+
  have i: "nid ?h 4 = 0" "nid ?h 7 = 2" "nid ?h 6 = 1" "nid ?h 8 = 3" by (simp_all add: field_defs c small_nodes_def)
  show ?thesis using k i by (simp add: tree_shape_def small_counts(1) [OF assms] Let_def)
qed

lemma small_init:
  "affinity_init (\<lambda>_. 0) (small_machine 0 4) fresh_affinity \<noteq> None"
  by code_simp

lemma small_active: "active (small_machine c n) 0 \<longleftrightarrow> c \<noteq> 0" "0 < k \<Longrightarrow> k < 4 \<Longrightarrow> active (small_machine c n) k"
proof -
  show "active (small_machine c n) 0 \<longleftrightarrow> c \<noteq> 0" by (simp add: active_def small_pool_def)
  assume "0 < k" "k < 4"
  then have "k = 1 \<or> k = 2 \<or> k = 3" by arith
  then show "active (small_machine c n) k" by (auto simp: active_def small_pool_def)
qed

lemma small_active_cores: "active_cores (small_machine 0 n) 0 = [[2], [1, 3]]"
  by (simp add: active_cores_def small_shape small_active)

theorem socket_domains_exact_witness:
  "\<exists>s' ds d. affinity_init (\<lambda>_. 0) (small_machine 0 4) fresh_affinity = Some s' \<and> affinity_list (affinityDomains s') = Some ds \<and>
     ds ! 1 = Some d \<and> as_domain d = \<lparr>tag = ''S0'', processorList = [2, 1, 3]\<rparr>"
proof -
  obtain s' where s': "affinity_init (\<lambda>_. 0) (small_machine 0 4) fresh_affinity = Some s'" using small_init by blast
  have "0 < numSockets (tp_counts (small_machine 0 4))" by (simp add: small_counts(1))
  from socket_domains_exact [OF small_regular _ _ s' this] s' show ?thesis
    by (auto simp: dec_string_zero small_shape small_active)
qed

definition small_env :: cpu_env where
  "small_env = \<lparr>numHWThreads = 4, activeHWThreads = 3, env_threadsPerCore = 2,
     domains = map (\<lambda>t. \<lparr>tag = t, processorList = [2, 1, 3]\<rparr>) [''N'', ''S0'', ''C0'', ''M0'']\<rparr>"

lemma small_written:
  "map_option written_domains (affinity_init (\<lambda>_. 0) (small_machine 0 4) fresh_affinity) = Some (Some (domains small_env))"
  by code_simp

theorem selection_within_cpuset_witness:
  "\<exists>s' cpus. affinity_init (\<lambda>_. 0) (small_machine 0 4) fresh_affinity = Some s' \<and>
     cpustr_to_cpulist small_env 4 ''E:S0:2'' = Some cpus \<and> cpus \<noteq> [] \<and> (\<forall>cpu\<in>set cpus. active (small_machine 0 4) cpu)"
proof -
  obtain s' where s': "affinity_init (\<lambda>_. 0) (small_machine 0 4) fresh_affinity = Some s'" "written_domains s' = Some (domains small_env)"
    using small_written by auto
  have e: "cpustr_to_cpulist small_env 4 ''E:S0:2'' = Some [2, 1]" by code_simp
  have "tp_activeHWThreads (small_machine 0 4) = length (cpus_upto (small_machine 0 4) (numSockets (tp_counts (small_machine 0 4))))"
    by (simp add: small_counts(1) socket_cpus_def small_active_cores)
  from selection_within_cpuset [OF small_regular this _ _ s' e] s'(1) e show ?thesis by (simp add: small_counts(1))
qed

theorem affinity_domains_exact_witness:
  "\<exists>s'. affinity_init (\<lambda>_. 0) (small_machine 1 2) fresh_affinity = Some s' \<and>
     written_domains s' = Some (map (\<lambda>(t, cpus). \<lparr>tag = t, processorList = cpus\<rparr>)
       [(''N'', [0, 2, 1, 3]), (''S0'', [0, 2, 1, 3]), (''C0'', [0, 2]), (''C1'', [1, 3]), (''M0'', [0, 2, 1, 3])])"
proof -
  have a: "all_active (small_machine 1 2)"
    by (simp add: all_active_def machine_leaves_def small_shape small_active)
  have "dec_string (Suc 0) = ''1''" by code_simp
  then show ?thesis
    using affinity_domains_exact [OF small_regular a, of fresh_affinity 1 2 4 1 2 "\<lambda>_. 0"]
    by (auto simp: small_counts(1) expected_domains_def core_group_def machine_leaves_def small_shape dec_string_zero numeral_2_eq_2)
qed



end
