(* ===== verification/Perfmon_Loops.thy ===== *)
theory Perfmon_Loops
  imports Perfmon_Session
begin

text \<open>
  What the further architecture modules need beside \<open>Perfmon_Arch\<close>: loops over the events of a group that
  also change local variables, statements before and after such a loop, the locks with which one processor
  of a socket or tile is chosen, and the block that writes a changed configuration. The lemmas are about
  any register file: which registers a run of statements leaves alone, and that a loop whose statements
  succeed for every event succeeds.
\<close>

section \<open>Statements\<close>

text \<open>
  The loop over the first \<open>n\<close> events with local variables \<open>l\<close>. As in a single statement, the outcome is
  \<^term>\<open>Some ret\<close> when the function has returned.
\<close>

fun run_events ::
  "('e \<Rightarrow> 'l \<Rightarrow> 'a \<Rightarrow> ('e \<times> 'l, 'a) outcome) \<Rightarrow> nat \<Rightarrow> 'e list \<Rightarrow> 'l \<Rightarrow> 'a \<Rightarrow> ('e list \<times> 'l, 'a) outcome" where
  "run_events body 0 es l a = Some (None, (es, l), a)"
| "run_events body (Suc n) [] l a = None"
| "run_events body (Suc n) (e # es) l a = do {
     (ret, (e', l'), a') \<leftarrow> body e l a;
     (case ret of
        Some v \<Rightarrow> Some (Some v, (e' # es, l'), a')
      | None \<Rightarrow> do {
          (ret', (es', l''), a'') \<leftarrow> run_events body n es l' a';
          Some (ret', (e' # es', l''), a'') }) }"

definition for_events ::
  "(PerfmonEventSetEntry \<Rightarrow> 'l \<Rightarrow> 'a \<Rightarrow> (PerfmonEventSetEntry \<times> 'l, 'a) outcome) \<Rightarrow> PerfmonEventSet \<Rightarrow> 'l \<Rightarrow>
   (PerfmonEventSet \<Rightarrow> 'l \<Rightarrow> 'a \<Rightarrow> (PerfmonEventSet, 'a) outcome) \<Rightarrow> 'a \<Rightarrow> (PerfmonEventSet, 'a) outcome" where
  "for_events body g l rest a = do {
     (ret, (es, l'), a') \<leftarrow> run_events body (gs_numberOfEvents g) (gs_events g) l a;
     let g' = g\<lparr>gs_events := es\<rparr>;
     (case ret of Some v \<Rightarrow> Some (Some v, g', a') | None \<Rightarrow> rest g' l' a') }"

definition if_stmt :: "bool \<Rightarrow> (('a \<Rightarrow> ('e, 'a) outcome) \<Rightarrow> 'a \<Rightarrow> ('e, 'a) outcome) \<Rightarrow> ('a \<Rightarrow> ('e, 'a) outcome) \<Rightarrow> 'a \<Rightarrow> ('e, 'a) outcome" where
  "if_stmt b s rest a = (if b then s rest a else rest a)"

text \<open>The end of a function: \<open>return 0\<close> when no statement has returned before.\<close>

definition finish :: "'e \<Rightarrow> 'a \<Rightarrow> ('e, 'a) outcome" where
  "finish e a = Some (None, e, a)"

definition fun_result :: "('e, 'a) outcome \<Rightarrow> (int \<times> 'e \<times> 'a) option" where
  "fun_result r = map_option (\<lambda>(ret, e, a). (case ret of Some v \<Rightarrow> v | None \<Rightarrow> 0, e, a)) r"

text \<open>The block that writes the configuration of a counter when it differs from the cached one.\<close>

definition write_config ::
  "'m hpm_ops \<Rightarrow> RegisterMap list \<Rightarrow> int \<Rightarrow> nat \<Rightarrow> u64 \<Rightarrow> 'm pm_state \<Rightarrow> (int \<times> 'm pm_state) option" where
  "write_config H cm cpu_id index flags a = do {
     config \<leftarrow> config_get cpu_id index a;
     if flags \<noteq> config then do {
       rm \<leftarrow> arr_get cm (int index);
       (ret, m) \<leftarrow> hp_write H cpu_id 0 (ucast (rm_configRegister rm)) flags (machine a);
       if ret < 0 then Some (hp_errno H m, a\<lparr>machine := m\<rparr>)
       else do {
         a' \<leftarrow> config_set cpu_id index flags (a\<lparr>machine := m\<rparr>);
         Some (0, a') } }
     else Some (0, a) }"

section \<open>Locks\<close>

text \<open>
  \<open>socket_lock\<close> and \<open>tile_lock\<close> hold the processor that programs the shared counters of a socket or tile, or
  \<open>LOCK_INIT\<close>; the other two arrays are the socket and the tile of a processor.
\<close>

record arch_locks =
  socket_lock :: "int list"
  tile_lock :: "int list"
  affinity_core2node_lookup :: "int list"
  affinity_thread2tile_lookup :: "int list"

definition LOCK_INIT :: int where
  "LOCK_INIT = - 1"

definition lock_acquire :: "int list \<Rightarrow> int \<Rightarrow> int \<Rightarrow> int list option" where
  "lock_acquire vars i newval = do {
     v \<leftarrow> arr_get vars i;
     if v = LOCK_INIT then arr_set vars i newval else Some vars }"

text \<open>The loops of \<open>perfmon_init\<close> that release all locks.\<close>

definition init_locks :: "arch_locks \<Rightarrow> arch_locks" where
  "init_locks L = L\<lparr>socket_lock := replicate MAX_NUM_NODES LOCK_INIT, tile_lock := replicate MAX_NUM_THREADS LOCK_INIT\<rparr>"

definition lock_socket :: "int \<Rightarrow> arch_locks \<Rightarrow> arch_locks option" where
  "lock_socket cpu_id L = do {
     node \<leftarrow> arr_get (affinity_core2node_lookup L) cpu_id;
     ls \<leftarrow> lock_acquire (socket_lock L) node cpu_id;
     Some (L\<lparr>socket_lock := ls\<rparr>) }"

definition lock_tile :: "int \<Rightarrow> arch_locks \<Rightarrow> arch_locks option" where
  "lock_tile cpu_id L = do {
     tile \<leftarrow> arr_get (affinity_thread2tile_lookup L) cpu_id;
     ls \<leftarrow> lock_acquire (tile_lock L) tile cpu_id;
     Some (L\<lparr>tile_lock := ls\<rparr>) }"

definition have_socket_lock :: "arch_locks \<Rightarrow> int \<Rightarrow> bool option" where
  "have_socket_lock L cpu_id = do {
     node \<leftarrow> arr_get (affinity_core2node_lookup L) cpu_id;
     v \<leftarrow> arr_get (socket_lock L) node;
     Some (v = cpu_id) }"

definition have_tile_lock :: "arch_locks \<Rightarrow> int \<Rightarrow> bool option" where
  "have_tile_lock L cpu_id = do {
     tile \<leftarrow> arr_get (affinity_thread2tile_lookup L) cpu_id;
     v \<leftarrow> arr_get (tile_lock L) tile;
     Some (v = cpu_id) }"

section \<open>Loops that succeed\<close>

lemma run_events_total:
  assumes "n \<le> length es" "J 0 l a"
    and "\<And>k l a. \<lbrakk>k < n; J k l a\<rbrakk> \<Longrightarrow> \<exists>e' l' a'. body (es ! k) l a = Some (None, (e', l'), a') \<and> Q k (es ! k) e' \<and> J (Suc k) l' a'"
  shows "\<exists>es' l' a'. run_events body n es l a = Some (None, (es', l'), a') \<and> length es' = length es \<and>
    (\<forall>k<n. Q k (es ! k) (es' ! k)) \<and> drop n es' = drop n es \<and> J n l' a'"
  using assms
proof (induction n arbitrary: es J Q l a)
  case (Suc n)
  then obtain e es1 where es: "es = e # es1" by (cases es) auto
  obtain e' l1 a1 where e': "body e l a = Some (None, (e', l1), a1)" "Q 0 e e'" "J 1 l1 a1"
    using Suc.prems(3) [of 0 l a] Suc.prems(2) es by auto
  have "\<exists>es' l' a'. run_events body n es1 l1 a1 = Some (None, (es', l'), a') \<and> length es' = length es1 \<and>
      (\<forall>k<n. Q (Suc k) (es1 ! k) (es' ! k)) \<and> drop n es' = drop n es1 \<and> J (Suc n) l' a'"
    by (rule Suc.IH [where J = "\<lambda>k. J (Suc k)" and Q = "\<lambda>k. Q (Suc k)"]) (use Suc.prems(1,3) e'(3) es in fastforce)+
  then obtain es' l' a' where es': "run_events body n es1 l1 a1 = Some (None, (es', l'), a')" "length es' = length es1"
      "\<forall>k<n. Q (Suc k) (es1 ! k) (es' ! k)" "drop n es' = drop n es1" "J (Suc n) l' a'" by blast
  then have "\<forall>k<Suc n. Q k (es ! k) ((e' # es') ! k)" using e'(2) es by (simp add: nth_Cons split: nat.split)
  then show ?case using es e'(1) es' by (intro exI [of _ "e' # es'"] exI [of _ l'] exI [of _ a']) simp
qed simp

lemma for_events_total:
  assumes "gs_numberOfEvents g \<le> length (gs_events g)" "J 0 l a"
    and "\<And>k l a. \<lbrakk>k < gs_numberOfEvents g; J k l a\<rbrakk> \<Longrightarrow>
      \<exists>e' l' a'. body (gs_events g ! k) l a = Some (None, (e', l'), a') \<and> Q k (gs_events g ! k) e' \<and> J (Suc k) l' a'"
  obtains es l' a' where "for_events body g l rest a = rest (g\<lparr>gs_events := es\<rparr>) l' a'" "length es = length (gs_events g)"
    "\<forall>k<gs_numberOfEvents g. Q k (gs_events g ! k) (es ! k)" "drop (gs_numberOfEvents g) es = drop (gs_numberOfEvents g) (gs_events g)"
    "J (gs_numberOfEvents g) l' a'"
  using run_events_total [of "gs_numberOfEvents g" "gs_events g" J l a body Q, OF assms] by (auto simp: for_events_def)

text \<open>An entry whose counter for thread \<open>t\<close> may have changed, and a group of such entries.\<close>

definition counter_changed :: "nat \<Rightarrow> PerfmonEventSetEntry \<Rightarrow> PerfmonEventSetEntry \<Rightarrow> bool" where
  "counter_changed t e e' \<longleftrightarrow> e' = e \<or> (\<exists>c. e' = with_counter t c e)"

definition group_changed :: "nat \<Rightarrow> PerfmonEventSet \<Rightarrow> PerfmonEventSet \<Rightarrow> bool" where
  "group_changed t g g' \<longleftrightarrow> same_frame g g' \<and> length (gs_events g') = length (gs_events g) \<and>
     (\<forall>k<gs_numberOfEvents g. counter_changed t (gs_events g ! k) (gs_events g' ! k)) \<and>
     drop (gs_numberOfEvents g) (gs_events g') = drop (gs_numberOfEvents g) (gs_events g)"

lemma counter_changed_refl [simp]: "counter_changed t e e" "counter_changed t e (with_counter t c e)"
  by (auto simp: counter_changed_def)

lemma group_changedI:
  "\<lbrakk>length es = length (gs_events g); \<forall>k<gs_numberOfEvents g. counter_changed t (gs_events g ! k) (es ! k);
    drop (gs_numberOfEvents g) es = drop (gs_numberOfEvents g) (gs_events g)\<rbrakk> \<Longrightarrow> group_changed t g (g\<lparr>gs_events := es\<rparr>)"
  by (simp add: group_changed_def same_frame_def)

section \<open>Registers that stay as they are\<close>

text \<open>At most the registers \<open>W\<close> of processor \<open>c\<close> differ.\<close>

definition frame ::
  "('m \<Rightarrow> bool) \<Rightarrow> ('m \<Rightarrow> nat \<Rightarrow> u32 \<Rightarrow> bool) \<Rightarrow> ('m \<Rightarrow> nat \<Rightarrow> u32 \<Rightarrow> u64) \<Rightarrow> u32 set \<Rightarrow> nat \<Rightarrow> 'm pm_state \<Rightarrow> 'm pm_state \<Rightarrow> bool" where
  "frame good acc regs W c a b \<longleftrightarrow> good (machine b) \<and> acc (machine b) = acc (machine a) \<and>
     (\<forall>c' r. acc (machine a) c' r \<and> (c' \<noteq> c \<or> r \<notin> W) \<longrightarrow> regs (machine b) c' r = regs (machine a) c' r)"

lemma frame_refl: "good (machine a) \<Longrightarrow> frame good acc regs W c a a"
  by (simp add: frame_def)

lemma frame_trans: "\<lbrakk>frame good acc regs W c a b; frame good acc regs V c b d; V \<subseteq> W\<rbrakk> \<Longrightarrow> frame good acc regs W c a d"
  unfolding frame_def by (metis subsetD)

lemma frame_mono: "\<lbrakk>frame good acc regs V c a b; V \<subseteq> W\<rbrakk> \<Longrightarrow> frame good acc regs W c a b"
  unfolding frame_def by blast

lemma frame_good: "frame good acc regs W c a b \<Longrightarrow> good (machine b)"
  by (simp add: frame_def)

lemma frame_acc: "frame good acc regs W c a b \<Longrightarrow> acc (machine b) = acc (machine a)"
  by (simp add: frame_def)

lemma frame_reg: "\<lbrakk>frame good acc regs W c a b; acc (machine a) c r; r \<notin> W\<rbrakk> \<Longrightarrow> regs (machine b) c r = regs (machine a) c r"
  by (simp add: frame_def)

context msr_machine
begin

abbreviation keeps :: "u32 set \<Rightarrow> nat \<Rightarrow> 'm pm_state \<Rightarrow> 'm pm_state \<Rightarrow> bool" where
  "keeps \<equiv> frame inv acc regs"

lemma stmt_read:
  "\<lbrakk>inv (machine a); acc (machine a) c r\<rbrakk> \<Longrightarrow> CHECK_MSR_READ_ERROR H (int c) 0 r e rest a = rest (regs (machine a) c r) a"
  using read_law [of "machine a" c r] by (simp add: CHECK_MSR_READ_ERROR_def)

lemma stmt_write_all:
  assumes "inv (machine a)" "acc (machine a) c r"
  shows "\<exists>b. (\<forall>(e :: 'e) rest. CHECK_MSR_WRITE_ERROR H (int c) 0 r v e rest a = rest b) \<and> keeps {r} c a b \<and> regs (machine b) c r = v \<and>
    currentConfig b = currentConfig a"
proof -
  obtain m where m: "hp_write H (int c) 0 r v (machine a) = Some (0, m)" "inv m" "acc m = acc (machine a)"
      "\<And>c' r'. acc (machine a) c' r' \<Longrightarrow> regs m c' r' = (if c' = c \<and> r' = r then v else regs (machine a) c' r')"
    using write_law [OF assms, of v] by blast
  then show ?thesis using assms by (intro exI [of _ "a\<lparr>machine := m\<rparr>"]) (auto simp: CHECK_MSR_WRITE_ERROR_def frame_def)
qed

lemma stmt_write:
  assumes "inv (machine a)" "acc (machine a) c r"
  obtains b where "CHECK_MSR_WRITE_ERROR H (int c) 0 r v (e :: 'e) rest a = rest b" "keeps {r} c a b" "regs (machine b) c r = v"
    "currentConfig b = currentConfig a"
proof -
  obtain b where b: "\<And>(e :: 'e) rest. CHECK_MSR_WRITE_ERROR H (int c) 0 r v e rest a = rest b" "keeps {r} c a b" "regs (machine b) c r = v"
      "currentConfig b = currentConfig a"
    using stmt_write_all [OF assms, of v] by auto
  show thesis by (rule that [OF b])
qed

lemma write_config_total:
  assumes "inv (machine a)" "c < MAX_NUM_THREADS" "index < NUM_PMC" "arr_get cm (int index) = Some rm"
    "acc (machine a) c (ucast (rm_configRegister rm))"
  obtains b where "write_config H cm (int c) index flags a = Some (0, b)" "keeps {ucast (rm_configRegister rm)} c a b"
    "currentConfig b = (currentConfig a)(c := (currentConfig a c)(index := flags))"
    "currentConfig a c index \<noteq> flags \<Longrightarrow> regs (machine b) c (ucast (rm_configRegister rm)) = flags"
proof (cases "flags = currentConfig a c index")
  case True
  then show thesis using assms(1-3) by (intro that [of a]) (simp_all add: write_config_def config_get_def frame_refl)
next
  case False
  obtain m where m: "hp_write H (int c) 0 (ucast (rm_configRegister rm)) flags (machine a) = Some (0, m)" "inv m" "acc m = acc (machine a)"
      "\<And>c' r'. acc (machine a) c' r' \<Longrightarrow> regs m c' r' = (if c' = c \<and> r' = ucast (rm_configRegister rm) then flags else regs (machine a) c' r')"
    using write_law [OF assms(1,5), of flags] by blast
  let ?b = "a\<lparr>machine := m, currentConfig := (currentConfig a)(c := (currentConfig a c)(index := flags))\<rparr>"
  show thesis
  proof (rule that [of ?b])
    show "write_config H cm (int c) index flags a = Some (0, ?b)"
      using False m(1) assms(2-4) by (simp add: write_config_def config_get_def config_set_def)
  qed (use m assms in \<open>auto simp: frame_def\<close>)
qed

end

end
