(* ===== verification/Perfmon_Amd.thy ===== *)
theory Perfmon_Amd
  imports Perfmon_Loops
begin

text \<open>
  The modules for AMD family 15h (\<open>src/src/includes/perfmon_interlagos.h\<close>) and 16h (\<open>perfmon_kabini.h\<close>) with
  their tables. Beside the counters of a core they have counters of the northbridge and, on Kabini, of
  the L2 cache, which only the processor that holds the lock of its socket or tile programs. The locks are an
  argument of the functions; they change only during initialization.
\<close>

section \<open>Tables\<close>

definition counter_row :: "string \<Rightarrow> nat \<Rightarrow> RegisterType \<Rightarrow> u32 \<Rightarrow> u32 \<Rightarrow> u64 \<Rightarrow> RegisterMap" where
  "counter_row key index type config counter options =
     \<lparr>rm_key = key, rm_index = index, rm_type = type, rm_configRegister = ucast config, rm_counterRegister = ucast counter,
      rm_counterRegister2 = 0, rm_device = 0, rm_optionMask = options\<rparr>"

definition ILG_VALID_OPTIONS_PMC :: u64 where
  "ILG_VALID_OPTIONS_PMC =
     OPTIONS_TYPE_MASK EVENT_OPTION_EDGE OR OPTIONS_TYPE_MASK EVENT_OPTION_COUNT_KERNEL OR
     OPTIONS_TYPE_MASK EVENT_OPTION_INVERT OR of_nat (option_number EVENT_OPTION_THRESHOLD)"

definition interlagos_counter_map :: "RegisterMap list" where
  "interlagos_counter_map = [
     counter_row ''PMC0'' 0 PMC MSR_AMD15_PERFEVTSEL0 MSR_AMD15_PMC0 ILG_VALID_OPTIONS_PMC,
     counter_row ''PMC1'' 1 PMC MSR_AMD15_PERFEVTSEL1 MSR_AMD15_PMC1 ILG_VALID_OPTIONS_PMC,
     counter_row ''PMC2'' 2 PMC MSR_AMD15_PERFEVTSEL2 MSR_AMD15_PMC2 ILG_VALID_OPTIONS_PMC,
     counter_row ''PMC3'' 3 PMC MSR_AMD15_PERFEVTSEL3 MSR_AMD15_PMC3 ILG_VALID_OPTIONS_PMC,
     counter_row ''PMC4'' 4 PMC MSR_AMD15_PERFEVTSEL4 MSR_AMD15_PMC4 ILG_VALID_OPTIONS_PMC,
     counter_row ''PMC5'' 5 PMC MSR_AMD15_PERFEVTSEL5 MSR_AMD15_PMC5 ILG_VALID_OPTIONS_PMC,
     counter_row ''UPMC0'' 6 UNCORE MSR_AMD15_NB_PERFEVTSEL0 MSR_AMD15_NB_PMC0 0,
     counter_row ''UPMC1'' 7 UNCORE MSR_AMD15_NB_PERFEVTSEL1 MSR_AMD15_NB_PMC1 0,
     counter_row ''UPMC2'' 8 UNCORE MSR_AMD15_NB_PERFEVTSEL2 MSR_AMD15_NB_PMC2 0,
     counter_row ''UPMC3'' 9 UNCORE MSR_AMD15_NB_PERFEVTSEL3 MSR_AMD15_NB_PMC3 0]"

definition interlagos_box_map :: "BoxMap list" where
  "interlagos_box_map = (replicate (register_number NUM_UNITS) box_zero)
     [register_number PMC := box_zero\<lparr>bm_regWidth := 48\<rparr>, register_number UNCORE := box_zero\<lparr>bm_regWidth := 48\<rparr>]"

text \<open>The rows of Kabini name no options.\<close>

definition kabini_counter_map :: "RegisterMap list" where
  "kabini_counter_map = [
     counter_row ''PMC0'' 0 PMC MSR_AMD16_PERFEVTSEL0 MSR_AMD16_PMC0 0,
     counter_row ''PMC1'' 1 PMC MSR_AMD16_PERFEVTSEL1 MSR_AMD16_PMC1 0,
     counter_row ''PMC2'' 2 PMC MSR_AMD16_PERFEVTSEL2 MSR_AMD16_PMC2 0,
     counter_row ''PMC3'' 3 PMC MSR_AMD16_PERFEVTSEL3 MSR_AMD16_PMC3 0,
     counter_row ''CPMC0'' 4 CBOX0 MSR_AMD16_L2_PERFEVTSEL0 MSR_AMD16_L2_PMC0 0,
     counter_row ''CPMC1'' 5 CBOX0 MSR_AMD16_L2_PERFEVTSEL1 MSR_AMD16_L2_PMC1 0,
     counter_row ''CPMC2'' 6 CBOX0 MSR_AMD16_L2_PERFEVTSEL2 MSR_AMD16_L2_PMC2 0,
     counter_row ''CPMC3'' 7 CBOX0 MSR_AMD16_L2_PERFEVTSEL3 MSR_AMD16_L2_PMC3 0,
     counter_row ''UPMC0'' 8 UNCORE MSR_AMD16_NB_PERFEVTSEL0 MSR_AMD16_NB_PMC0 0,
     counter_row ''UPMC1'' 9 UNCORE MSR_AMD16_NB_PERFEVTSEL1 MSR_AMD16_NB_PMC1 0,
     counter_row ''UPMC2'' 10 UNCORE MSR_AMD16_NB_PERFEVTSEL2 MSR_AMD16_NB_PMC2 0,
     counter_row ''UPMC3'' 11 UNCORE MSR_AMD16_NB_PERFEVTSEL3 MSR_AMD16_NB_PMC3 0]"

definition kabini_box_map :: "BoxMap list" where
  "kabini_box_map = (replicate (register_number NUM_UNITS) box_zero)
     [register_number PMC := box_zero\<lparr>bm_regWidth := 48\<rparr>, register_number UNCORE := box_zero\<lparr>bm_regWidth := 48\<rparr>,
      register_number CBOX0 := box_zero\<lparr>bm_regWidth := 48\<rparr>]"

section \<open>Initialization\<close>

definition perfmon_init_interlagos :: "int \<Rightarrow> arch_locks \<Rightarrow> (int \<times> arch_locks) option" where
  "perfmon_init_interlagos cpu_id L = do { L1 \<leftarrow> lock_socket cpu_id L; Some (0, L1) }"

definition perfmon_init_kabini :: "int \<Rightarrow> arch_locks \<Rightarrow> (int \<times> arch_locks) option" where
  "perfmon_init_kabini cpu_id L = do {
     L1 \<leftarrow> lock_socket cpu_id L;
     L2 \<leftarrow> lock_tile cpu_id L1;
     Some (0, L2) }"

section \<open>Configurations\<close>

definition amd_event_flags :: "PerfmonEvent \<Rightarrow> u64" where
  "amd_event_flags event =
     push_bit 32 (ucast (drop_bit 8 (ev_eventId event))) + push_bit 8 (ucast (ev_umask event)) +
     ucast ((ucast (ev_eventId event) :: u32) AND NOT 0xF00)"

text \<open>The options of an event; only the used part of the array is read.\<close>

definition option_flags :: "(PerfmonEventOption \<Rightarrow> u64) \<Rightarrow> PerfmonEvent \<Rightarrow> u64 \<Rightarrow> u64 option" where
  "option_flags f event flags =
     (if ev_numberOfOptions event \<le> length (ev_options event)
      then Some (foldl (\<lambda>flags opt. flags OR f opt) flags (take (ev_numberOfOptions event) (ev_options event)))
      else None)"

text \<open>Core counters: the options are those of K10, with a threshold below \<open>limit\<close>.\<close>

definition amd_option_flags :: "u64 \<Rightarrow> PerfmonEventOption \<Rightarrow> u64" where
  "amd_option_flags limit opt =
     (case po_type opt of
        EVENT_OPTION_EDGE \<Rightarrow> push_bit 18 1
      | EVENT_OPTION_COUNT_KERNEL \<Rightarrow> push_bit 17 1
      | EVENT_OPTION_INVERT \<Rightarrow> push_bit 23 1
      | EVENT_OPTION_THRESHOLD \<Rightarrow>
          (if po_value opt AND 0xFF < limit then push_bit 24 (po_value opt AND 0xFF) else 0)
      | _ \<Rightarrow> 0)"

definition ilg_pmc_setup ::
  "'m hpm_ops \<Rightarrow> RegisterMap list \<Rightarrow> int \<Rightarrow> nat \<Rightarrow> PerfmonEvent \<Rightarrow> 'm pm_state \<Rightarrow> (int \<times> 'm pm_state) option" where
  "ilg_pmc_setup H cm cpu_id index event a = do {
     flags \<leftarrow> option_flags (amd_option_flags 0x20) event (push_bit 16 1 OR amd_event_flags event);
     write_config H cm cpu_id index flags a }"

definition k16_pmc_setup ::
  "'m hpm_ops \<Rightarrow> RegisterMap list \<Rightarrow> int \<Rightarrow> nat \<Rightarrow> PerfmonEvent \<Rightarrow> 'm pm_state \<Rightarrow> (int \<times> 'm pm_state) option" where
  "k16_pmc_setup H cm cpu_id index event a = do {
     flags \<leftarrow> option_flags (amd_option_flags 0x04) event (push_bit 16 1 OR amd_event_flags event);
     write_config H cm cpu_id index flags a }"

text \<open>The counters of the northbridge, the same on both.\<close>

definition ilg_uncore_setup ::
  "'m hpm_ops \<Rightarrow> RegisterMap list \<Rightarrow> arch_locks \<Rightarrow> int \<Rightarrow> nat \<Rightarrow> PerfmonEvent \<Rightarrow> 'm pm_state \<Rightarrow> (int \<times> 'm pm_state) option" where
  "ilg_uncore_setup H cm L cpu_id index event a = do {
     b \<leftarrow> have_socket_lock L cpu_id;
     if \<not> b then Some (0, a) else write_config H cm cpu_id index (amd_event_flags event) a }"

definition k16_uncore_setup ::
  "'m hpm_ops \<Rightarrow> RegisterMap list \<Rightarrow> arch_locks \<Rightarrow> int \<Rightarrow> nat \<Rightarrow> PerfmonEvent \<Rightarrow> 'm pm_state \<Rightarrow> (int \<times> 'm pm_state) option" where
  "k16_uncore_setup H cm L cpu_id index event a = do {
     b \<leftarrow> have_socket_lock L cpu_id;
     if \<not> b then Some (0, a) else write_config H cm cpu_id index (amd_event_flags event) a }"

definition k16_cache_option :: "PerfmonEventOption \<Rightarrow> u64" where
  "k16_cache_option opt =
     (case po_type opt of
        EVENT_OPTION_INVERT \<Rightarrow> push_bit 23 1
      | EVENT_OPTION_THRESHOLD \<Rightarrow>
          (if po_value opt AND 0xFF < 0x04 then push_bit 24 (po_value opt AND 0xFF) else 0)
      | EVENT_OPTION_TID \<Rightarrow> push_bit 56 (NOT (po_value opt AND 0xF))
      | EVENT_OPTION_NID \<Rightarrow> push_bit 48 (NOT (po_value opt AND 0xF))
      | _ \<Rightarrow> 0)"

definition k16_cache_setup ::
  "'m hpm_ops \<Rightarrow> RegisterMap list \<Rightarrow> arch_locks \<Rightarrow> int \<Rightarrow> nat \<Rightarrow> PerfmonEvent \<Rightarrow> 'm pm_state \<Rightarrow> (int \<times> 'm pm_state) option" where
  "k16_cache_setup H cm L cpu_id index event a = do {
     b \<leftarrow> have_tile_lock L cpu_id;
     if \<not> b then Some (0, a)
     else do {
       flags \<leftarrow> option_flags k16_cache_option event (amd_event_flags event);
       write_config H cm cpu_id index flags a } }"

section \<open>Counters of a thread\<close>

definition set_init :: "bool \<Rightarrow> nat \<Rightarrow> PerfmonEventSetEntry \<Rightarrow> PerfmonEventSetEntry option" where
  "set_init b thread_id e = do { c \<leftarrow> counter_get thread_id e; counter_set thread_id (c\<lparr>pc_init := b\<rparr>) e }"

text \<open>The results of the functions that write a configuration are ignored.\<close>

definition interlagos_setup_event ::
  "'m hpm_ops \<Rightarrow> arch_tables \<Rightarrow> arch_locks \<Rightarrow> int \<Rightarrow> nat \<Rightarrow> PerfmonEventSet \<Rightarrow> PerfmonEventSetEntry \<Rightarrow> 'm pm_state \<Rightarrow>
   (PerfmonEventSetEntry, 'm pm_state) outcome" where
  "interlagos_setup_event H T L cpu_id thread_id eventSet e a =
     (if \<not> type_in_set eventSet (es_type e) then Some (None, e, a)
      else do {
        e' \<leftarrow> set_init True thread_id e;
        (_, a') \<leftarrow> (if es_type e = PMC then ilg_pmc_setup H (counter_map T) cpu_id (es_index e) (es_event e) a
                   else if es_type e = UNCORE then ilg_uncore_setup H (counter_map T) L cpu_id (es_index e) (es_event e) a
                   else Some (0, a));
        Some (None, e', a') })"

definition kabini_setup_event ::
  "'m hpm_ops \<Rightarrow> arch_tables \<Rightarrow> arch_locks \<Rightarrow> int \<Rightarrow> nat \<Rightarrow> PerfmonEventSet \<Rightarrow> PerfmonEventSetEntry \<Rightarrow> 'm pm_state \<Rightarrow>
   (PerfmonEventSetEntry, 'm pm_state) outcome" where
  "kabini_setup_event H T L cpu_id thread_id eventSet e a =
     (if \<not> type_in_set eventSet (es_type e) then Some (None, e, a)
      else do {
        (_, a') \<leftarrow> (if es_type e = PMC then k16_pmc_setup H (counter_map T) cpu_id (es_index e) (es_event e) a
                   else if es_type e = UNCORE then k16_uncore_setup H (counter_map T) L cpu_id (es_index e) (es_event e) a
                   else if es_type e = CBOX0 then k16_cache_setup H (counter_map T) L cpu_id (es_index e) (es_event e) a
                   else Some (0, a));
        e' \<leftarrow> set_init True thread_id e;
        Some (None, e', a') })"

text \<open>The types of counters that the calling processor programs.\<close>

definition interlagos_held :: "arch_locks \<Rightarrow> int \<Rightarrow> (RegisterType \<Rightarrow> bool) option" where
  "interlagos_held L cpu_id = do {
     haveLock \<leftarrow> have_socket_lock L cpu_id;
     Some (\<lambda>type. type = PMC \<or> type = UNCORE \<and> haveLock) }"

definition kabini_held :: "arch_locks \<Rightarrow> int \<Rightarrow> (RegisterType \<Rightarrow> bool) option" where
  "kabini_held L cpu_id = do {
     haveSLock \<leftarrow> have_socket_lock L cpu_id;
     haveTLock \<leftarrow> have_tile_lock L cpu_id;
     Some (\<lambda>type. type = PMC \<or> type = UNCORE \<and> haveSLock \<or> type = CBOX0 \<and> haveTLock) }"

text \<open>Starting, the same on both.\<close>

definition amd_start_event ::
  "'m hpm_ops \<Rightarrow> arch_tables \<Rightarrow> (RegisterType \<Rightarrow> bool) \<Rightarrow> int \<Rightarrow> nat \<Rightarrow> PerfmonEventSet \<Rightarrow> PerfmonEventSetEntry \<Rightarrow> 'm pm_state \<Rightarrow>
   (PerfmonEventSetEntry, 'm pm_state) outcome" where
  "amd_start_event H T held cpu_id thread_id eventSet e a = do {
     c \<leftarrow> counter_get thread_id e;
     if \<not> pc_init c \<or> \<not> type_in_set eventSet (es_type e) then Some (None, e, a)
     else do {
       rm \<leftarrow> arr_get (counter_map T) (int (es_index e));
       let counter = ucast (rm_counterRegister rm);
       let reg = ucast (rm_configRegister rm);
       e' \<leftarrow> counter_set thread_id (c\<lparr>pc_startData := 0, pc_counterData := 0, pc_fullData := 0\<rparr>) e;
       if held (es_type e) then
         CHECK_MSR_WRITE_ERROR H cpu_id 0 counter 0 e'
           (CHECK_MSR_READ_ERROR H cpu_id 0 reg e' (\<lambda>flags.
              CHECK_MSR_WRITE_ERROR H cpu_id 0 reg (flags OR push_bit 22 1) e' (finish e'))) a
       else Some (None, e', a) } }"

text \<open>The enable bit is cleared and the counter read.\<close>

definition amd_stop_read ::
  "'m hpm_ops \<Rightarrow> int \<Rightarrow> RegisterMap \<Rightarrow> 'e \<Rightarrow> (u64 \<Rightarrow> 'm pm_state \<Rightarrow> ('e, 'm pm_state) outcome) \<Rightarrow> 'm pm_state \<Rightarrow> ('e, 'm pm_state) outcome" where
  "amd_stop_read H cpu_id rm e rest =
     CHECK_MSR_READ_ERROR H cpu_id 0 (ucast (rm_configRegister rm)) e (\<lambda>flags.
       CHECK_MSR_WRITE_ERROR H cpu_id 0 (ucast (rm_configRegister rm)) (flags AND NOT (push_bit 22 1)) e
         (CHECK_MSR_READ_ERROR H cpu_id 0 (ucast (rm_counterRegister rm)) e rest))"

definition take_data :: "arch_tables \<Rightarrow> nat \<Rightarrow> u64 \<Rightarrow> PerfmonEventSetEntry \<Rightarrow> PerfmonEventSetEntry option" where
  "take_data T thread_id tmp e = do {
     box \<leftarrow> box_at T (es_type e);
     data \<leftarrow> field64 tmp 0 (uint (bm_regWidth box));
     c \<leftarrow> counter_get thread_id e;
     counter_set thread_id (c\<lparr>pc_counterData := data\<rparr>) e }"

text \<open>On Interlagos overflows are not counted, and what is not read is taken as 0.\<close>

definition interlagos_stop_event ::
  "'m hpm_ops \<Rightarrow> arch_tables \<Rightarrow> (RegisterType \<Rightarrow> bool) \<Rightarrow> int \<Rightarrow> nat \<Rightarrow> PerfmonEventSet \<Rightarrow> PerfmonEventSetEntry \<Rightarrow> 'm pm_state \<Rightarrow>
   (PerfmonEventSetEntry, 'm pm_state) outcome" where
  "interlagos_stop_event H T held cpu_id thread_id eventSet e a = do {
     c \<leftarrow> counter_get thread_id e;
     if \<not> pc_init c \<or> \<not> type_in_set eventSet (es_type e) then Some (None, e, a)
     else do {
       rm \<leftarrow> arr_get (counter_map T) (int (es_index e));
       let store = (\<lambda>tmp a. do { e' \<leftarrow> take_data T thread_id tmp e; Some (None, e', a) });
       if held (es_type e) then amd_stop_read H cpu_id rm e store a else store 0 a } }"

definition interlagos_read_event ::
  "'m hpm_ops \<Rightarrow> arch_tables \<Rightarrow> int \<Rightarrow> nat \<Rightarrow> PerfmonEventSet \<Rightarrow> PerfmonEventSetEntry \<Rightarrow> 'm pm_state \<Rightarrow>
   (PerfmonEventSetEntry, 'm pm_state) outcome" where
  "interlagos_read_event H T cpu_id thread_id eventSet e a = do {
     c \<leftarrow> counter_get thread_id e;
     if \<not> pc_init c \<or> \<not> type_in_set eventSet (es_type e) then Some (None, e, a)
     else do {
       rm \<leftarrow> arr_get (counter_map T) (int (es_index e));
       let store = (\<lambda>tmp a. do { e' \<leftarrow> take_data T thread_id tmp e; Some (None, e', a) });
       if es_type e = PMC \<or> es_type e = UNCORE
       then CHECK_MSR_READ_ERROR H cpu_id 0 (ucast (rm_counterRegister rm)) e store a else store 0 a } }"

definition kabini_stop_event ::
  "'m hpm_ops \<Rightarrow> arch_tables \<Rightarrow> (RegisterType \<Rightarrow> bool) \<Rightarrow> int \<Rightarrow> nat \<Rightarrow> PerfmonEventSet \<Rightarrow> PerfmonEventSetEntry \<Rightarrow> 'm pm_state \<Rightarrow>
   (PerfmonEventSetEntry, 'm pm_state) outcome" where
  "kabini_stop_event H T held cpu_id thread_id eventSet e a = do {
     c \<leftarrow> counter_get thread_id e;
     if \<not> pc_init c \<or> \<not> type_in_set eventSet (es_type e) then Some (None, e, a)
     else do {
       rm \<leftarrow> arr_get (counter_map T) (int (es_index e));
       if held (es_type e) then
         amd_stop_read H cpu_id rm e (\<lambda>counter_result a. do {
           box \<leftarrow> box_at T (es_type e);
           e' \<leftarrow> take_count box thread_id counter_result e;
           Some (None, e', a) }) a
       else Some (None, e, a) } }"

definition kabini_read_event ::
  "'m hpm_ops \<Rightarrow> arch_tables \<Rightarrow> (RegisterType \<Rightarrow> bool) \<Rightarrow> int \<Rightarrow> nat \<Rightarrow> PerfmonEventSet \<Rightarrow> PerfmonEventSetEntry \<Rightarrow> 'm pm_state \<Rightarrow>
   (PerfmonEventSetEntry, 'm pm_state) outcome" where
  "kabini_read_event H T held cpu_id thread_id eventSet e a = do {
     c \<leftarrow> counter_get thread_id e;
     if \<not> pc_init c \<or> \<not> type_in_set eventSet (es_type e) then Some (None, e, a)
     else do {
       rm \<leftarrow> arr_get (counter_map T) (int (es_index e));
       if held (es_type e) then
         CHECK_MSR_READ_ERROR H cpu_id 0 (ucast (rm_counterRegister rm)) e (\<lambda>counter_result a. do {
           box \<leftarrow> box_at T (es_type e);
           e' \<leftarrow> take_count box thread_id counter_result e;
           Some (None, e', a) }) a
       else Some (None, e, a) } }"

definition interlagos_finalize_event ::
  "'m hpm_ops \<Rightarrow> arch_tables \<Rightarrow> bool \<Rightarrow> int \<Rightarrow> nat \<Rightarrow> PerfmonEventSet \<Rightarrow> PerfmonEventSetEntry \<Rightarrow> 'm pm_state \<Rightarrow>
   (PerfmonEventSetEntry, 'm pm_state) outcome" where
  "interlagos_finalize_event H T haveLock cpu_id thread_id eventSet e a =
     (if \<not> type_in_set eventSet (es_type e) then Some (None, e, a)
      else do {
        rm \<leftarrow> arr_get (counter_map T) (int (es_index e));
        let reg = ucast (rm_configRegister rm);
        let clear = (\<lambda>a. do { e' \<leftarrow> set_init False thread_id e; Some (None, e', a) });
        if reg \<noteq> 0 \<and> (es_type e = PMC \<or> es_type e = FIXED \<or> register_number UNCORE \<le> register_number (es_type e) \<and> haveLock)
        then CHECK_MSR_WRITE_ERROR H cpu_id 0 reg 0 e clear a else clear a })"

definition kabini_finalize_event ::
  "'m hpm_ops \<Rightarrow> arch_tables \<Rightarrow> (RegisterType \<Rightarrow> bool) \<Rightarrow> int \<Rightarrow> nat \<Rightarrow> PerfmonEventSet \<Rightarrow> PerfmonEventSetEntry \<Rightarrow> 'm pm_state \<Rightarrow>
   (PerfmonEventSetEntry, 'm pm_state) outcome" where
  "kabini_finalize_event H T held cpu_id thread_id eventSet e a =
     (if \<not> type_in_set eventSet (es_type e) then Some (None, e, a)
      else if held (es_type e) then do {
        rm \<leftarrow> arr_get (counter_map T) (int (es_index e));
        CHECK_MSR_WRITE_ERROR H cpu_id 0 (ucast (rm_configRegister rm)) 0 e
          (\<lambda>a. do { e' \<leftarrow> set_init False thread_id e; Some (None, e', a) }) a }
      else Some (None, e, a))"

section \<open>The functions of the modules\<close>

type_synonym 'm thread_fun =
  "PerfmonThread list \<Rightarrow> nat \<Rightarrow> PerfmonEventSet \<Rightarrow> 'm pm_state \<Rightarrow> (int \<times> PerfmonEventSet \<times> 'm pm_state) option"

definition perfmon_setupCounterThread_interlagos :: "'m hpm_ops \<Rightarrow> arch_tables \<Rightarrow> arch_locks \<Rightarrow> 'm thread_fun" where
  "perfmon_setupCounterThread_interlagos H T L ts thread_id eventSet a = do {
     cpu_id \<leftarrow> thread_cpu ts thread_id;
     _ \<leftarrow> have_socket_lock L cpu_id;
     each_group_event (interlagos_setup_event H T L cpu_id thread_id eventSet) eventSet a }"

definition perfmon_startCountersThread_interlagos :: "'m hpm_ops \<Rightarrow> arch_tables \<Rightarrow> arch_locks \<Rightarrow> 'm thread_fun" where
  "perfmon_startCountersThread_interlagos H T L ts thread_id eventSet a = do {
     cpu_id \<leftarrow> thread_cpu ts thread_id;
     held \<leftarrow> interlagos_held L cpu_id;
     each_group_event (amd_start_event H T held cpu_id thread_id eventSet) eventSet a }"

definition perfmon_stopCountersThread_interlagos :: "'m hpm_ops \<Rightarrow> arch_tables \<Rightarrow> arch_locks \<Rightarrow> 'm thread_fun" where
  "perfmon_stopCountersThread_interlagos H T L ts thread_id eventSet a = do {
     cpu_id \<leftarrow> thread_cpu ts thread_id;
     held \<leftarrow> interlagos_held L cpu_id;
     each_group_event (interlagos_stop_event H T held cpu_id thread_id eventSet) eventSet a }"

definition perfmon_readCountersThread_interlagos :: "'m hpm_ops \<Rightarrow> arch_tables \<Rightarrow> arch_locks \<Rightarrow> 'm thread_fun" where
  "perfmon_readCountersThread_interlagos H T L ts thread_id eventSet a = do {
     cpu_id \<leftarrow> thread_cpu ts thread_id;
     _ \<leftarrow> have_socket_lock L cpu_id;
     each_group_event (interlagos_read_event H T cpu_id thread_id eventSet) eventSet a }"

definition perfmon_finalizeCountersThread_interlagos :: "'m hpm_ops \<Rightarrow> arch_tables \<Rightarrow> arch_locks \<Rightarrow> 'm thread_fun" where
  "perfmon_finalizeCountersThread_interlagos H T L ts thread_id eventSet a = do {
     cpu_id \<leftarrow> thread_cpu ts thread_id;
     haveLock \<leftarrow> have_socket_lock L cpu_id;
     each_group_event (interlagos_finalize_event H T haveLock cpu_id thread_id eventSet) eventSet a }"

definition perfmon_setupCounterThread_kabini :: "'m hpm_ops \<Rightarrow> arch_tables \<Rightarrow> arch_locks \<Rightarrow> 'm thread_fun" where
  "perfmon_setupCounterThread_kabini H T L ts thread_id eventSet a = do {
     cpu_id \<leftarrow> thread_cpu ts thread_id;
     each_group_event (kabini_setup_event H T L cpu_id thread_id eventSet) eventSet a }"

definition perfmon_startCountersThread_kabini :: "'m hpm_ops \<Rightarrow> arch_tables \<Rightarrow> arch_locks \<Rightarrow> 'm thread_fun" where
  "perfmon_startCountersThread_kabini H T L ts thread_id eventSet a = do {
     cpu_id \<leftarrow> thread_cpu ts thread_id;
     held \<leftarrow> kabini_held L cpu_id;
     each_group_event (amd_start_event H T held cpu_id thread_id eventSet) eventSet a }"

definition perfmon_stopCountersThread_kabini :: "'m hpm_ops \<Rightarrow> arch_tables \<Rightarrow> arch_locks \<Rightarrow> 'm thread_fun" where
  "perfmon_stopCountersThread_kabini H T L ts thread_id eventSet a = do {
     cpu_id \<leftarrow> thread_cpu ts thread_id;
     held \<leftarrow> kabini_held L cpu_id;
     each_group_event (kabini_stop_event H T held cpu_id thread_id eventSet) eventSet a }"

definition perfmon_readCountersThread_kabini :: "'m hpm_ops \<Rightarrow> arch_tables \<Rightarrow> arch_locks \<Rightarrow> 'm thread_fun" where
  "perfmon_readCountersThread_kabini H T L ts thread_id eventSet a = do {
     cpu_id \<leftarrow> thread_cpu ts thread_id;
     held \<leftarrow> kabini_held L cpu_id;
     each_group_event (kabini_read_event H T held cpu_id thread_id eventSet) eventSet a }"

definition perfmon_finalizeCountersThread_kabini :: "'m hpm_ops \<Rightarrow> arch_tables \<Rightarrow> arch_locks \<Rightarrow> 'm thread_fun" where
  "perfmon_finalizeCountersThread_kabini H T L ts thread_id eventSet a = do {
     cpu_id \<leftarrow> thread_cpu ts thread_id;
     held \<leftarrow> kabini_held L cpu_id;
     each_group_event (kabini_finalize_event H T held cpu_id thread_id eventSet) eventSet a }"

end
