(* ===== verification/Perfmon_Amd_Registers.thy ===== *)
theory Perfmon_Amd_Registers
  imports Perfmon_Amd
begin

text \<open>
  What the functions of the Interlagos and Kabini modules do to the registers and to the counter data of a
  thread, over any register file. The locale \<open>amd_counters\<close> has the facts about the tables that the proofs
  need, for the counters \<open>I\<close> that are in use; it holds for both tables.
\<close>

section \<open>Counters in use\<close>

definition ctl_reg :: "arch_tables \<Rightarrow> nat \<Rightarrow> u32" where
  "ctl_reg T i = ucast (rm_configRegister (counter_map T ! i))"

definition ctr_reg :: "arch_tables \<Rightarrow> nat \<Rightarrow> u32" where
  "ctr_reg T i = ucast (rm_counterRegister (counter_map T ! i))"

definition counter_type :: "arch_tables \<Rightarrow> nat \<Rightarrow> RegisterType" where
  "counter_type T i = rm_type (counter_map T ! i)"

text \<open>An entry of a group: not a counter, or one of the counters \<open>I\<close>.\<close>

definition used_entry :: "arch_tables \<Rightarrow> nat set \<Rightarrow> nat \<Rightarrow> PerfmonEventSetEntry \<Rightarrow> bool" where
  "used_entry T I t e \<longleftrightarrow> counter_get t e \<noteq> None \<and>
     (es_type e = NOTYPE \<or> es_index e \<in> I \<and> es_type e = counter_type T (es_index e) \<and>
        ev_numberOfOptions (es_event e) \<le> length (ev_options (es_event e)))"

definition used_group :: "arch_tables \<Rightarrow> nat set \<Rightarrow> nat \<Rightarrow> PerfmonEventSet \<Rightarrow> bool" where
  "used_group T I t g \<longleftrightarrow> gs_numberOfEvents g \<le> length (gs_events g) \<and>
     (\<forall>e\<in>set (take (gs_numberOfEvents g) (gs_events g)). used_entry T I t e)"

definition can_access :: "('m \<Rightarrow> nat \<Rightarrow> u32 \<Rightarrow> bool) \<Rightarrow> arch_tables \<Rightarrow> nat set \<Rightarrow> 'm \<Rightarrow> nat \<Rightarrow> bool" where
  "can_access acc T I m c \<longleftrightarrow> (\<forall>i\<in>I. acc m c (ctl_reg T i) \<and> acc m c (ctr_reg T i))"

text \<open>The registers of the counters whose type is programmed.\<close>

definition regs_held :: "arch_tables \<Rightarrow> nat set \<Rightarrow> (RegisterType \<Rightarrow> bool) \<Rightarrow> u32 set" where
  "regs_held T I held = (\<Union>i\<in>{i\<in>I. held (counter_type T i)}. {ctl_reg T i, ctr_reg T i})"

definition counting :: "PerfmonEventSet \<Rightarrow> nat \<Rightarrow> PerfmonEventSetEntry \<Rightarrow> bool" where
  "counting g t e \<longleftrightarrow> type_in_set g (es_type e) \<and> (\<exists>c. counter_get t e = Some c \<and> pc_init c)"

lemma used_group_nth: "\<lbrakk>used_group T I t g; k < gs_numberOfEvents g\<rbrakk> \<Longrightarrow> used_entry T I t (gs_events g ! k)"
  by (force simp: used_group_def in_set_conv_nth)

lemma set_init_eq: "counter_get t e = Some c \<Longrightarrow> set_init b t e = Some (with_counter t (c\<lparr>pc_init := b\<rparr>) e)"
  by (simp add: set_init_def counter_set_eq)

section \<open>One event\<close>

locale amd_counters = msr_machine inv acc regs H
  for inv :: "'m \<Rightarrow> bool" and acc :: "'m \<Rightarrow> nat \<Rightarrow> u32 \<Rightarrow> bool" and regs :: "'m \<Rightarrow> nat \<Rightarrow> u32 \<Rightarrow> u64"
    and H :: "'m hpm_ops" +
  fixes T :: arch_tables and I :: "nat set"
  assumes in_map: "i \<in> I \<Longrightarrow> i < length (counter_map T) \<and> i < NUM_PMC"
    and box_width: "i \<in> I \<Longrightarrow> box_at T (counter_type T i) = Some (box_zero\<lparr>bm_regWidth := 48\<rparr>)"
    and ctl_not_ctr: "\<lbrakk>i \<in> I; j \<in> I\<rbrakk> \<Longrightarrow> ctl_reg T i \<noteq> ctr_reg T j"
begin

lemma row: "i \<in> I \<Longrightarrow> arr_get (counter_map T) (int i) = Some (counter_map T ! i)"
  using in_map by (simp add: arr_get_def)

lemma used_counting:
  assumes "used_entry T I t e" "type_in_set g (es_type e)"
  obtains c where "counter_get t e = Some c" "es_index e \<in> I" "es_type e = counter_type T (es_index e)"
    "arr_get (counter_map T) (int (es_index e)) = Some (counter_map T ! es_index e)"
    "ev_numberOfOptions (es_event e) \<le> length (ev_options (es_event e))"
    "box_at T (es_type e) = Some (box_zero\<lparr>bm_regWidth := 48\<rparr>)"
  using assms row box_width by (auto simp: used_entry_def)

lemma used_accessible: "\<lbrakk>can_access acc T I (machine a) c; i \<in> I\<rbrakk> \<Longrightarrow> acc (machine a) c (ctl_reg T i) \<and> acc (machine a) c (ctr_reg T i)"
  by (simp add: can_access_def)

lemma can_access_keeps: "\<lbrakk>can_access acc T I (machine a) c; keeps W c a b\<rbrakk> \<Longrightarrow> can_access acc T I (machine b) c"
  by (simp add: can_access_def frame_def)

text \<open>Setting up writes at most the control register of a counter that is programmed.\<close>

lemma config_event:
  assumes "inv (machine a)" "can_access acc T I (machine a) c" "c < MAX_NUM_THREADS" "i \<in> I"
  shows "\<exists>B. \<forall>flags. held (counter_type T i) \<longrightarrow>
    write_config H (counter_map T) (int c) i flags a = Some (0, B flags) \<and> keeps (regs_held T I held) c a (B flags)"
proof -
  have acc: "acc (machine a) c (ucast (rm_configRegister (counter_map T ! i)))"
    using used_accessible [OF assms(2,4)] by (simp add: ctl_reg_def)
  have "\<exists>b. write_config H (counter_map T) (int c) i flags a = Some (0, b) \<and> keeps (regs_held T I held) c a b"
    if "held (counter_type T i)" for flags
  proof -
    have W: "{ucast (rm_configRegister (counter_map T ! i))} \<subseteq> regs_held T I held"
      using assms(4) that by (auto simp: regs_held_def ctl_reg_def)
    obtain b where b: "write_config H (counter_map T) (int c) i flags a = Some (0, b)"
        "keeps {ucast (rm_configRegister (counter_map T ! i))} c a b"
      by (rule write_config_total [OF assms(1,3) conjunct2 [OF in_map [OF assms(4)]] row [OF assms(4)] acc])
    then show ?thesis using frame_mono [OF b(2) W] by blast
  qed
  then show ?thesis by metis
qed

text \<open>Starting an event: its counter register is cleared and its enable bit set.\<close>

lemma start_event_amd:
  assumes "inv (machine a)" "can_access acc T I (machine a) c" "used_entry T I t e"
  shows "\<exists>e' b. amd_start_event H T held (int c) t g e a = Some (None, e', b) \<and> keeps (regs_held T I held) c a b \<and>
    (if counting g t e
     then e' = with_counter t ((the (counter_get t e))\<lparr>pc_startData := 0, pc_counterData := 0, pc_fullData := 0\<rparr>) e \<and>
       (held (es_type e) \<longrightarrow> regs (machine b) c (ctr_reg T (es_index e)) = 0 \<and> bit (regs (machine b) c (ctl_reg T (es_index e))) 22) \<and>
       (\<forall>i\<in>I. (regs (machine a) c (ctr_reg T i) = 0 \<longrightarrow> regs (machine b) c (ctr_reg T i) = 0) \<and>
          (bit (regs (machine a) c (ctl_reg T i)) 22 \<longrightarrow> bit (regs (machine b) c (ctl_reg T i)) 22))
     else e' = e \<and> b = a)"
proof (cases "counting g t e")
  case False
  then show ?thesis using assms(1,3) by (auto simp: counting_def used_entry_def amd_start_event_def frame_refl)
next
  case True
  then have ty: "type_in_set g (es_type e)" by (simp add: counting_def)
  obtain cn where cn: "counter_get t e = Some cn" "es_index e \<in> I" "es_type e = counter_type T (es_index e)"
      "arr_get (counter_map T) (int (es_index e)) = Some (counter_map T ! es_index e)"
    using used_counting [OF assms(3) ty] by blast
  have init: "pc_init cn" using True cn(1) by (simp add: counting_def)
  let ?i = "es_index e" and ?e = "with_counter t (cn\<lparr>pc_startData := 0, pc_counterData := 0, pc_fullData := 0\<rparr>) e"
  have ac: "acc (machine a) c (ctl_reg T ?i)" "acc (machine a) c (ctr_reg T ?i)" using used_accessible [OF assms(2) cn(2)] by simp_all
  show ?thesis
  proof (cases "held (es_type e)")
    case False
    then show ?thesis using True assms(1) cn init ty counter_set_eq [OF cn(1)]
      by (simp add: amd_start_event_def frame_refl)
  next
    case held: True
    have W: "ctl_reg T ?i \<in> regs_held T I held" "ctr_reg T ?i \<in> regs_held T I held"
      using cn(2,3) held by (auto simp: regs_held_def)
    obtain b1 where b1: "\<And>rest. CHECK_MSR_WRITE_ERROR H (int c) 0 (ctr_reg T ?i) 0 ?e rest a = rest b1" "keeps {ctr_reg T ?i} c a b1"
        "regs (machine b1) c (ctr_reg T ?i) = 0"
      using stmt_write_all [OF assms(1) ac(2)] by metis
    have 1: "inv (machine b1)" "acc (machine b1) = acc (machine a)" using b1(2) by (simp_all add: frame_def)
    let ?v = "regs (machine b1) c (ctl_reg T ?i) OR push_bit 22 1"
    obtain b where b: "CHECK_MSR_WRITE_ERROR H (int c) 0 (ctl_reg T ?i) ?v ?e (finish ?e) b1 = finish ?e b" "keeps {ctl_reg T ?i} c b1 b"
        "regs (machine b) c (ctl_reg T ?i) = ?v"
      using stmt_write [of b1 c "ctl_reg T ?i" ?v ?e "finish ?e"] 1 ac(1) by metis
    have run: "amd_start_event H T held (int c) t g e a = Some (None, ?e, b)"
      using cn init ty held counter_set_eq [OF cn(1)] b1(1) b(1) ac(1) 1(2)
      by (simp add: amd_start_event_def ctl_reg_def [symmetric] ctr_reg_def [symmetric] finish_def Let_def stmt_read [OF 1(1), of c "ctl_reg T ?i"])
    have k: "keeps (regs_held T I held) c a b"
      using frame_trans [OF frame_mono [OF b1(2)] b(2), of "regs_held T I held"] W by simp
    have ctr: "regs (machine b) c (ctr_reg T i) = (if ctr_reg T i = ctr_reg T ?i then 0 else regs (machine a) c (ctr_reg T i))" if "i \<in> I" for i
    proof -
      have "regs (machine b) c (ctr_reg T i) = regs (machine b1) c (ctr_reg T i)"
        using frame_reg [OF b(2)] ctl_not_ctr [OF cn(2) that] used_accessible [OF assms(2) that] 1(2) by auto
      then show ?thesis using frame_reg [OF b1(2)] b1(3) used_accessible [OF assms(2) that] by auto
    qed
    have ctl: "regs (machine b) c (ctl_reg T i) = (if ctl_reg T i = ctl_reg T ?i then ?v else regs (machine a) c (ctl_reg T i))" if "i \<in> I" for i
      using frame_reg [OF b(2)] frame_reg [OF b1(2)] b(3) ctl_not_ctr [OF that cn(2)] used_accessible [OF assms(2) that] 1(2) by auto
    have v: "bit ?v 22" "bit (regs (machine a) c (ctl_reg T ?i)) 22 \<Longrightarrow> bit ?v 22" by (simp_all add: bit_simps)
    show ?thesis using True run k ctr ctl cn(1,2) v by (auto simp: held)
  qed
qed

text \<open>Stopping reads the counter and clears the enable bit.\<close>

lemma stop_read_amd:
  assumes "inv (machine a)" "can_access acc T I (machine a) c" "i \<in> I" "held (counter_type T i)"
  shows "\<exists>b. (\<forall>rest. amd_stop_read H (int c) (counter_map T ! i) (e :: PerfmonEventSetEntry) rest a = rest (regs (machine a) c (ctr_reg T i)) b) \<and>
    keeps (ctl_reg T ` {i\<in>I. held (counter_type T i)}) c a b \<and> \<not> bit (regs (machine b) c (ctl_reg T i)) 22"
proof -
  have ac: "acc (machine a) c (ctl_reg T i)" "acc (machine a) c (ctr_reg T i)" using used_accessible [OF assms(2,3)] by simp_all
  let ?v = "regs (machine a) c (ctl_reg T i) AND NOT (push_bit 22 1)"
  obtain b where b: "\<And>(e :: PerfmonEventSetEntry) rest. CHECK_MSR_WRITE_ERROR H (int c) 0 (ctl_reg T i) ?v e rest a = rest b" "keeps {ctl_reg T i} c a b"
      "regs (machine b) c (ctl_reg T i) = ?v"
    using stmt_write_all [OF assms(1) ac(1), of ?v] by auto
  have 1: "inv (machine b)" "acc (machine b) c (ctr_reg T i)" "regs (machine b) c (ctr_reg T i) = regs (machine a) c (ctr_reg T i)"
    using b(2) ac(2) ctl_not_ctr [OF assms(3,3)] by (simp_all add: frame_def)
  have "amd_stop_read H (int c) (counter_map T ! i) e rest a = rest (regs (machine a) c (ctr_reg T i)) b" for rest
    using b(1) by (simp add: amd_stop_read_def ctl_reg_def [symmetric] ctr_reg_def [symmetric] stmt_read [OF assms(1) ac(1)] stmt_read [OF 1(1,2)] 1(3))
  moreover have "keeps (ctl_reg T ` {i\<in>I. held (counter_type T i)}) c a b" by (rule frame_mono [OF b(2)]) (use assms(3,4) in auto)
  moreover have "\<not> bit ?v 22" by (simp add: bit_simps)
  ultimately show ?thesis using b(3) by auto
qed

lemma take_data_amd:
  "\<lbrakk>box_at T (es_type e) = Some (box_zero\<lparr>bm_regWidth := 48\<rparr>); counter_get t e = Some c\<rbrakk> \<Longrightarrow>
    take_data T t v e = Some (with_counter t (c\<lparr>pc_counterData := v AND mask 48\<rparr>) e)"
  by (simp add: take_data_def field64_48 counter_set_eq)

lemma ctl_subset_held: "ctl_reg T ` {i\<in>I. held (counter_type T i)} \<subseteq> regs_held T I held"
  by (auto simp: regs_held_def)

lemma stop_event_kabini:
  assumes "inv (machine a)" "can_access acc T I (machine a) c" "used_entry T I t e"
  shows "\<exists>b. kabini_stop_event H T held (int c) t g e a = Some (None,
      if counting g t e \<and> held (es_type e) then with_counter t (k10_count (regs (machine a) c (ctr_reg T (es_index e))) (the (counter_get t e))) e
      else e, b) \<and> keeps (ctl_reg T ` {i\<in>I. held (counter_type T i)}) c a b"
proof (cases "counting g t e \<and> held (es_type e)")
  case True
  then have ty: "type_in_set g (es_type e)" by (simp add: counting_def)
  obtain cn where cn: "counter_get t e = Some cn" "es_index e \<in> I" "es_type e = counter_type T (es_index e)"
      "arr_get (counter_map T) (int (es_index e)) = Some (counter_map T ! es_index e)" "box_at T (es_type e) = Some (box_zero\<lparr>bm_regWidth := 48\<rparr>)"
    using used_counting [OF assms(3) ty] by blast
  have init: "pc_init cn" "held (counter_type T (es_index e))" using True cn(1,3) by (auto simp: counting_def)
  obtain b where b: "\<And>rest. amd_stop_read H (int c) (counter_map T ! es_index e) e rest a = rest (regs (machine a) c (ctr_reg T (es_index e))) b"
      "keeps (ctl_reg T ` {i\<in>I. held (counter_type T i)}) c a b"
    using stop_read_amd [where e = e and held = held, OF assms(1,2) cn(2) init(2)] by auto
  show ?thesis using True cn init ty b take_count_k10 [OF cn(1)] by (auto simp: kabini_stop_event_def Let_def)
next
  case False
  then show ?thesis
  proof (cases "counting g t e")
    case True
    then have ty: "type_in_set g (es_type e)" by (simp add: counting_def)
    obtain cn where "counter_get t e = Some cn" "arr_get (counter_map T) (int (es_index e)) = Some (counter_map T ! es_index e)"
      using used_counting [OF assms(3) ty] by blast
    then show ?thesis using True False assms(1) by (auto simp: kabini_stop_event_def frame_refl counting_def)
  qed (use False assms in \<open>auto simp: counting_def used_entry_def kabini_stop_event_def frame_refl\<close>)
qed

lemma stop_event_interlagos:
  assumes "inv (machine a)" "can_access acc T I (machine a) c" "used_entry T I t e"
  shows "\<exists>b. interlagos_stop_event H T held (int c) t g e a = Some (None,
      if counting g t e then with_counter t ((the (counter_get t e))\<lparr>pc_counterData :=
        (if held (es_type e) then regs (machine a) c (ctr_reg T (es_index e)) AND mask 48 else 0)\<rparr>) e else e, b) \<and>
    keeps (ctl_reg T ` {i\<in>I. held (counter_type T i)}) c a b"
proof (cases "counting g t e")
  case False
  then show ?thesis using assms by (auto simp: counting_def used_entry_def interlagos_stop_event_def frame_refl)
next
  case True
  then have ty: "type_in_set g (es_type e)" by (simp add: counting_def)
  obtain cn where cn: "counter_get t e = Some cn" "es_index e \<in> I" "es_type e = counter_type T (es_index e)"
      "arr_get (counter_map T) (int (es_index e)) = Some (counter_map T ! es_index e)" "box_at T (es_type e) = Some (box_zero\<lparr>bm_regWidth := 48\<rparr>)"
    using used_counting [OF assms(3) ty] by blast
  have init: "pc_init cn" using True cn(1) by (auto simp: counting_def)
  show ?thesis
  proof (cases "held (es_type e)")
    case h: True
    then have h': "held (counter_type T (es_index e))" using cn(3) by simp
    obtain b where b: "\<And>rest. amd_stop_read H (int c) (counter_map T ! es_index e) e rest a = rest (regs (machine a) c (ctr_reg T (es_index e))) b"
        "keeps (ctl_reg T ` {i\<in>I. held (counter_type T i)}) c a b"
      using stop_read_amd [where e = e and held = held, OF assms(1,2) cn(2) h'] by auto
    show ?thesis using True h cn(1,4) init ty b take_data_amd [OF cn(5,1)] by (auto simp: interlagos_stop_event_def Let_def)
  next
    case False
    then show ?thesis using True cn(1,4) init ty assms(1) take_data_amd [OF cn(5,1), of 0] by (auto simp: interlagos_stop_event_def Let_def frame_refl)
  qed
qed

text \<open>The other operations, with the entry they leave.\<close>

definition init_entry :: "bool \<Rightarrow> nat \<Rightarrow> PerfmonEventSetEntry \<Rightarrow> PerfmonEventSetEntry" where
  "init_entry b t e = with_counter t ((the (counter_get t e))\<lparr>pc_init := b\<rparr>) e"

lemma setup_event_interlagos:
  assumes "inv (machine a)" "can_access acc T I (machine a) c" "used_entry T I t e" "c < MAX_NUM_THREADS" "interlagos_held L (int c) = Some held"
  shows "\<exists>b. interlagos_setup_event H T L (int c) t g e a = Some (None, if type_in_set g (es_type e) then init_entry True t e else e, b) \<and>
    keeps (regs_held T I held) c a b"
proof (cases "type_in_set g (es_type e)")
  case True
  obtain cn where cn: "counter_get t e = Some cn" "es_index e \<in> I" "es_type e = counter_type T (es_index e)"
      "ev_numberOfOptions (es_event e) \<le> length (ev_options (es_event e))"
    using used_counting [OF assms(3) True] by blast
  obtain lk where lk: "have_socket_lock L (int c) = Some lk" "held = (\<lambda>type. type = PMC \<or> type = UNCORE \<and> lk)"
    using assms(5) by (auto simp: interlagos_held_def split: bind_splits)
  obtain B where w: "\<And>flags. held (es_type e) \<Longrightarrow> write_config H (counter_map T) (int c) (es_index e) flags a = Some (0, B flags)"
      "\<And>flags. held (es_type e) \<Longrightarrow> keeps (regs_held T I held) c a (B flags)"
    using config_event [where held = held, OF assms(1,2,4) cn(2)] unfolding cn(3) [symmetric] by blast
  have "\<exists>x b. (if es_type e = PMC then ilg_pmc_setup H (counter_map T) (int c) (es_index e) (es_event e) a
      else if es_type e = UNCORE then ilg_uncore_setup H (counter_map T) L (int c) (es_index e) (es_event e) a
      else Some (0, a)) = Some (x, b) \<and> keeps (regs_held T I held) c a b"
    using w lk cn(4) assms(1)
    by (auto simp: ilg_pmc_setup_def ilg_uncore_setup_def option_flags_def frame_refl)
  then show ?thesis using True cn(1) set_init_eq [OF cn(1)] by (auto simp: interlagos_setup_event_def init_entry_def)
qed (use assms(1) in \<open>simp add: interlagos_setup_event_def frame_refl\<close>)

lemma setup_event_kabini:
  assumes "inv (machine a)" "can_access acc T I (machine a) c" "used_entry T I t e" "c < MAX_NUM_THREADS" "kabini_held L (int c) = Some held"
  shows "\<exists>b. kabini_setup_event H T L (int c) t g e a = Some (None, if type_in_set g (es_type e) then init_entry True t e else e, b) \<and>
    keeps (regs_held T I held) c a b"
proof (cases "type_in_set g (es_type e)")
  case True
  obtain cn where cn: "counter_get t e = Some cn" "es_index e \<in> I" "es_type e = counter_type T (es_index e)"
      "ev_numberOfOptions (es_event e) \<le> length (ev_options (es_event e))"
    using used_counting [OF assms(3) True] by blast
  obtain sl tl where lk: "have_socket_lock L (int c) = Some sl" "have_tile_lock L (int c) = Some tl"
      "held = (\<lambda>type. type = PMC \<or> type = UNCORE \<and> sl \<or> type = CBOX0 \<and> tl)"
    using assms(5) by (auto simp: kabini_held_def split: bind_splits)
  obtain B where w: "\<And>flags. held (es_type e) \<Longrightarrow> write_config H (counter_map T) (int c) (es_index e) flags a = Some (0, B flags)"
      "\<And>flags. held (es_type e) \<Longrightarrow> keeps (regs_held T I held) c a (B flags)"
    using config_event [where held = held, OF assms(1,2,4) cn(2)] unfolding cn(3) [symmetric] by blast
  have "\<exists>x b. (if es_type e = PMC then k16_pmc_setup H (counter_map T) (int c) (es_index e) (es_event e) a
      else if es_type e = UNCORE then k16_uncore_setup H (counter_map T) L (int c) (es_index e) (es_event e) a
      else if es_type e = CBOX0 then k16_cache_setup H (counter_map T) L (int c) (es_index e) (es_event e) a
      else Some (0, a)) = Some (x, b) \<and> keeps (regs_held T I held) c a b"
    using w lk cn(4) assms(1)
    by (auto simp: k16_pmc_setup_def k16_uncore_setup_def k16_cache_setup_def option_flags_def frame_refl)
  then show ?thesis using True cn(1) set_init_eq [OF cn(1)] by (auto simp: kabini_setup_event_def init_entry_def)
qed (use assms(1) in \<open>simp add: kabini_setup_event_def frame_refl\<close>)

lemma read_event_kabini:
  assumes "inv (machine a)" "can_access acc T I (machine a) c" "used_entry T I t e"
  shows "kabini_read_event H T held (int c) t g e a = Some (None,
      if counting g t e \<and> held (es_type e) then with_counter t (k10_count (regs (machine a) c (ctr_reg T (es_index e))) (the (counter_get t e))) e
      else e, a)"
proof (cases "counting g t e")
  case True
  then have ty: "type_in_set g (es_type e)" by (simp add: counting_def)
  obtain cn where cn: "counter_get t e = Some cn" "es_index e \<in> I" "es_type e = counter_type T (es_index e)"
      "arr_get (counter_map T) (int (es_index e)) = Some (counter_map T ! es_index e)" "box_at T (es_type e) = Some (box_zero\<lparr>bm_regWidth := 48\<rparr>)"
    using used_counting [OF assms(3) ty] by blast
  have "acc (machine a) c (ctr_reg T (es_index e))" using used_accessible [OF assms(2) cn(2)] by simp
  then show ?thesis
    using True cn ty take_count_k10 [OF cn(1)]
    by (auto simp: kabini_read_event_def counting_def ctr_reg_def [symmetric] stmt_read [OF assms(1)])
qed (use assms(3) in \<open>auto simp: counting_def used_entry_def kabini_read_event_def\<close>)

lemma read_event_interlagos:
  assumes "inv (machine a)" "can_access acc T I (machine a) c" "used_entry T I t e"
  shows "interlagos_read_event H T (int c) t g e a = Some (None,
      if counting g t e then with_counter t ((the (counter_get t e))\<lparr>pc_counterData :=
        (if es_type e = PMC \<or> es_type e = UNCORE then regs (machine a) c (ctr_reg T (es_index e)) AND mask 48 else 0)\<rparr>) e else e, a)"
proof (cases "counting g t e")
  case True
  then have ty: "type_in_set g (es_type e)" by (simp add: counting_def)
  obtain cn where cn: "counter_get t e = Some cn" "es_index e \<in> I" "es_type e = counter_type T (es_index e)"
      "arr_get (counter_map T) (int (es_index e)) = Some (counter_map T ! es_index e)" "box_at T (es_type e) = Some (box_zero\<lparr>bm_regWidth := 48\<rparr>)"
    using used_counting [OF assms(3) ty] by blast
  have "acc (machine a) c (ctr_reg T (es_index e))" using used_accessible [OF assms(2) cn(2)] by simp
  then show ?thesis
    using True cn(1,4) ty take_data_amd [OF cn(5,1)]
    by (auto simp: interlagos_read_event_def counting_def ctr_reg_def [symmetric] stmt_read [OF assms(1)] Let_def)
qed (use assms(3) in \<open>auto simp: counting_def used_entry_def interlagos_read_event_def\<close>)

lemma clear_event:
  assumes "inv (machine a)" "can_access acc T I (machine a) c" "used_entry T I t e" "type_in_set g (es_type e)" "held (es_type e)"
  shows "\<exists>b. CHECK_MSR_WRITE_ERROR H (int c) 0 (ctl_reg T (es_index e)) 0 e (\<lambda>a. do { e' \<leftarrow> set_init False t e; Some (None, e', a) }) a =
      Some (None, init_entry False t e, b) \<and> keeps (regs_held T I held) c a b"
proof -
  obtain cn where cn: "counter_get t e = Some cn" "es_index e \<in> I" "es_type e = counter_type T (es_index e)"
    using used_counting [OF assms(3,4)] by blast
  have ac: "acc (machine a) c (ctl_reg T (es_index e))" using used_accessible [OF assms(2) cn(2)] by simp
  have W: "{ctl_reg T (es_index e)} \<subseteq> regs_held T I held" using cn(2,3) assms(5) by (auto simp: regs_held_def)
  let ?rest = "\<lambda>a. do { e' \<leftarrow> set_init False t e; Some (None, e', a) }"
  obtain b where b: "CHECK_MSR_WRITE_ERROR H (int c) 0 (ctl_reg T (es_index e)) 0 e ?rest a = ?rest b" "keeps {ctl_reg T (es_index e)} c a b"
    by (rule stmt_write [OF assms(1) ac])
  show ?thesis using b(1) frame_mono [OF b(2) W] cn(1) set_init_eq [OF cn(1)] by (auto simp: init_entry_def)
qed

lemma finalize_event_kabini:
  assumes "inv (machine a)" "can_access acc T I (machine a) c" "used_entry T I t e"
  shows "\<exists>b. kabini_finalize_event H T held (int c) t g e a =
      Some (None, if type_in_set g (es_type e) \<and> held (es_type e) then init_entry False t e else e, b) \<and> keeps (regs_held T I held) c a b"
proof (cases "type_in_set g (es_type e) \<and> held (es_type e)")
  case True
  then have "arr_get (counter_map T) (int (es_index e)) = Some (counter_map T ! es_index e)"
    using used_counting [OF assms(3)] by blast
  then show ?thesis
    using clear_event [where held = held, OF assms, of g] True by (auto simp: kabini_finalize_event_def ctl_reg_def)
qed (use assms(1) in \<open>auto simp: kabini_finalize_event_def frame_refl\<close>)

lemma finalize_event_interlagos:
  assumes "inv (machine a)" "can_access acc T I (machine a) c" "used_entry T I t e" "interlagos_held L (int c) = Some held"
    "have_socket_lock L (int c) = Some lk" "\<And>i. i \<in> I \<Longrightarrow> counter_type T i = PMC \<or> counter_type T i = UNCORE"
  shows "\<exists>b. interlagos_finalize_event H T lk (int c) t g e a =
      Some (None, if type_in_set g (es_type e) then init_entry False t e else e, b) \<and> keeps (regs_held T I held) c a b"
proof (cases "type_in_set g (es_type e)")
  case True
  obtain cn where cn: "counter_get t e = Some cn" "arr_get (counter_map T) (int (es_index e)) = Some (counter_map T ! es_index e)"
      "es_type e = PMC \<or> es_type e = UNCORE"
    using used_counting [OF assms(3) True] assms(6) by metis
  have held: "held (es_type e) = (es_type e = PMC \<or> es_type e = FIXED \<or> register_number UNCORE \<le> register_number (es_type e) \<and> lk)"
    using cn(3) assms(4,5) by (auto simp: interlagos_held_def register_number_def RegisterTypes_def)
  show ?thesis
    using clear_event [where held = held, OF assms(1-3) True] True cn(1,2) set_init_eq [OF cn(1)] assms(1)
    unfolding interlagos_finalize_event_def held
    by (auto simp: ctl_reg_def [symmetric] Let_def init_entry_def frame_refl)
qed (use assms(1) in \<open>simp add: interlagos_finalize_event_def frame_refl\<close>)

end

end
