(* ===== verification/Perfmon_Amd_Properties.thy ===== *)
theory Perfmon_Amd_Properties
  imports Perfmon_Amd_Registers Perfmon_Stack
begin

text \<open>
  Properties of the Interlagos and Kabini modules: which processor programs the shared counters, what a
  measurement returns, that both are modules of the core, and which of their registers the access daemon
  admits.
\<close>

section \<open>The two modules\<close>

datatype amd_family = Family15 | Family16

datatype counter_op = OpSetup | OpStart | OpStop | OpRead | OpFinalize

definition amd_family_tables :: "amd_family \<Rightarrow> PerfmonEvent list \<Rightarrow> arch_tables" where
  "amd_family_tables f events = (case f of
     Family15 \<Rightarrow> \<lparr>counter_map = interlagos_counter_map, box_map = Some interlagos_box_map, eventHash = events\<rparr>
   | Family16 \<Rightarrow> \<lparr>counter_map = kabini_counter_map, box_map = Some kabini_box_map, eventHash = events\<rparr>)"

fun amd_init :: "amd_family \<Rightarrow> int \<Rightarrow> arch_locks \<Rightarrow> (int \<times> arch_locks) option" where
  "amd_init Family15 cpu_id L = perfmon_init_interlagos cpu_id L"
| "amd_init Family16 cpu_id L = perfmon_init_kabini cpu_id L"

fun amd_fun :: "amd_family \<Rightarrow> counter_op \<Rightarrow> 'm hpm_ops \<Rightarrow> arch_tables \<Rightarrow> arch_locks \<Rightarrow> 'm thread_fun" where
  "amd_fun Family15 OpSetup H T L = perfmon_setupCounterThread_interlagos H T L"
| "amd_fun Family15 OpStart H T L = perfmon_startCountersThread_interlagos H T L"
| "amd_fun Family15 OpStop H T L = perfmon_stopCountersThread_interlagos H T L"
| "amd_fun Family15 OpRead H T L = perfmon_readCountersThread_interlagos H T L"
| "amd_fun Family15 OpFinalize H T L = perfmon_finalizeCountersThread_interlagos H T L"
| "amd_fun Family16 OpSetup H T L = perfmon_setupCounterThread_kabini H T L"
| "amd_fun Family16 OpStart H T L = perfmon_startCountersThread_kabini H T L"
| "amd_fun Family16 OpStop H T L = perfmon_stopCountersThread_kabini H T L"
| "amd_fun Family16 OpRead H T L = perfmon_readCountersThread_kabini H T L"
| "amd_fun Family16 OpFinalize H T L = perfmon_finalizeCountersThread_kabini H T L"

definition amd_held :: "amd_family \<Rightarrow> arch_locks \<Rightarrow> int \<Rightarrow> (RegisterType \<Rightarrow> bool) option" where
  "amd_held f = (case f of Family15 \<Rightarrow> interlagos_held | Family16 \<Rightarrow> kabini_held)"

definition amd_size :: "amd_family \<Rightarrow> nat" where
  "amd_size f = (case f of Family15 \<Rightarrow> 10 | Family16 \<Rightarrow> 12)"

lemma less_amd_cases:
  "i < (10 :: nat) \<longleftrightarrow> i \<in> {0, 1, 2, 3, 4, 5, 6, 7, 8, 9}"
  "i < (12 :: nat) \<longleftrightarrow> i \<in> {0, 1, 2, 3, 4, 5, 6, 7, 8, 9, 10, 11}"
  unfolding insert_iff empty_iff by presburger+

lemma register_numbers: "register_number UNCORE = 4" "register_number CBOX0 = 37"
  by (simp_all add: register_number_def RegisterTypes_def)

lemma box_at_amd:
  "type = PMC \<or> type = UNCORE \<or> f = Family16 \<and> type = CBOX0 \<Longrightarrow> box_at (amd_family_tables f events) type = Some (box_zero\<lparr>bm_regWidth := 48\<rparr>)"
  by (cases f) (auto simp: box_at_def amd_family_tables_def interlagos_box_map_def kabini_box_map_def arr_get_def register_numbers)

lemma counter_type_amd:
  "i < amd_size f \<Longrightarrow> counter_type (amd_family_tables f events) i =
     (case f of Family15 \<Rightarrow> if i < 6 then PMC else UNCORE | Family16 \<Rightarrow> if i < 4 then PMC else if i < 8 then CBOX0 else UNCORE)"
  by (cases f) (auto simp: amd_size_def less_amd_cases counter_type_def amd_family_tables_def interlagos_counter_map_def kabini_counter_map_def counter_row_def)

lemma ctl_reg_amd:
  "i < amd_size f \<Longrightarrow> ctl_reg (amd_family_tables f events) i =
     (case f of Family15 \<Rightarrow> if i < 6 then 0xC0010200 + 2 * of_nat i else 0xC0010240 + 2 * of_nat (i - 6)
      | Family16 \<Rightarrow> if i < 4 then 0xC0010000 + of_nat i else if i < 8 then 0xC0010230 + 2 * of_nat (i - 4) else 0xC0010240 + 2 * of_nat (i - 8))"
  by (cases f) (auto simp: amd_size_def less_amd_cases ctl_reg_def amd_family_tables_def interlagos_counter_map_def kabini_counter_map_def counter_row_def)

lemma ctr_reg_amd:
  "i < amd_size f \<Longrightarrow> ctr_reg (amd_family_tables f events) i =
     (case f of Family15 \<Rightarrow> if i < 6 then 0xC0010201 + 2 * of_nat i else 0xC0010241 + 2 * of_nat (i - 6)
      | Family16 \<Rightarrow> if i < 4 then 0xC0010004 + of_nat i else if i < 8 then 0xC0010231 + 2 * of_nat (i - 4) else 0xC0010241 + 2 * of_nat (i - 8))"
  by (cases f) (auto simp: amd_size_def less_amd_cases ctr_reg_def amd_family_tables_def interlagos_counter_map_def kabini_counter_map_def counter_row_def)

lemma amd_ctl_not_ctr:
  "\<forall>x\<in>set (counter_map (amd_family_tables f events)). \<forall>y\<in>set (counter_map (amd_family_tables f events)).
     (ucast (rm_configRegister x) :: u32) \<noteq> ucast (rm_counterRegister y)"
  by (cases f) (simp_all add: amd_family_tables_def interlagos_counter_map_def kabini_counter_map_def counter_row_def)

lemma amd_counters_family:
  assumes "msr_machine good acc regs H" "I \<subseteq> {..<amd_size f}"
  shows "amd_counters good acc regs H (amd_family_tables f events) I"
proof -
  let ?T = "amd_family_tables f events"
  have size: "length (counter_map ?T) = amd_size f" "amd_size f < NUM_PMC"
    by (cases f; simp add: amd_family_tables_def amd_size_def interlagos_counter_map_def kabini_counter_map_def NUM_PMC_def)+
  have "i < length (counter_map ?T) \<and> i < NUM_PMC" if "i \<in> I" for i using that assms(2) size by auto
  moreover have "box_at ?T (counter_type ?T i) = Some (box_zero\<lparr>bm_regWidth := 48\<rparr>)" if "i \<in> I" for i
  proof -
    have "i < amd_size f" using that assms(2) by auto
    then show ?thesis by (intro box_at_amd) (simp add: counter_type_amd split: amd_family.splits)
  qed
  moreover have "ctl_reg ?T i \<noteq> ctr_reg ?T j" if "i \<in> I" "j \<in> I" for i j
  proof -
    have "i < length (counter_map ?T)" "j < length (counter_map ?T)" using that assms(2) size by auto
    then have "counter_map ?T ! i \<in> set (counter_map ?T)" "counter_map ?T ! j \<in> set (counter_map ?T)" by simp_all
    then show ?thesis using amd_ctl_not_ctr unfolding ctl_reg_def ctr_reg_def by blast
  qed
  ultimately show ?thesis using assms(1) by (simp add: amd_counters_def amd_counters_axioms_def)
qed

section \<open>The functions\<close>

context amd_counters
begin

lemma amd_loop:
  assumes "used_group T I t g" "inv (machine a)" "can_access acc T I (machine a) c"
    and "\<And>e b. \<lbrakk>used_entry T I t e; keeps W c a b; inv (machine b); can_access acc T I (machine b) c\<rbrakk> \<Longrightarrow>
      \<exists>b'. body e b = Some (None, h e, b') \<and> keeps W c b b'"
  shows "\<exists>b. each_group_event body g a = Some (0, loop_result g h, b) \<and> keeps W c a b"
  unfolding loop_result_def
proof (rule each_group_event_invariant [where J = "\<lambda>k. keeps W c a"])
  show "gs_numberOfEvents g \<le> length (gs_events g)" using assms(1) by (simp add: used_group_def)
  show "keeps W c a a" using assms(2) by (rule frame_refl)
  fix k b
  assume k: "k < gs_numberOfEvents g" and b: "keeps W c a b"
  have "inv (machine b)" "can_access acc T I (machine b) c" using b can_access_keeps [OF assms(3) b] by (simp_all add: frame_def)
  then obtain b' where "body (gs_events g ! k) b = Some (None, h (gs_events g ! k), b')" "keeps W c b b'"
    using assms(4) [OF used_group_nth [OF assms(1) k] b] by blast
  then show "\<exists>a'. body (gs_events g ! k) b = Some (None, h (gs_events g ! k), a') \<and> keeps W c a a'"
    using frame_trans [OF b _ subset_refl] by blast
qed

definition start_entry :: "PerfmonEventSet \<Rightarrow> nat \<Rightarrow> PerfmonEventSetEntry \<Rightarrow> PerfmonEventSetEntry" where
  "start_entry g t e = (if counting g t e
     then with_counter t ((the (counter_get t e))\<lparr>pc_startData := 0, pc_counterData := 0, pc_fullData := 0\<rparr>) e else e)"

lemma start_body:
  assumes "used_entry T I t e" "inv (machine b)" "can_access acc T I (machine b) c"
  shows "\<exists>b'. amd_start_event H T held (int c) t g e b = Some (None, start_entry g t e, b') \<and> keeps (regs_held T I held) c b b'"
  using start_event_amd [OF assms(2,3,1), of held g] by (auto simp: start_entry_def split: if_splits)

lemma op_loop:
  assumes "used_group T I t g" "inv (machine a)" "can_access acc T I (machine a) c"
    and "\<And>e b. \<lbrakk>inv (machine b); can_access acc T I (machine b) c; used_entry T I t e; keeps W c a b\<rbrakk> \<Longrightarrow>
      \<exists>b'. body e b = Some (None, h e, b') \<and> keeps W c b b'"
    and "\<And>e. counter_changed t e (h e)" "W \<subseteq> V"
  shows "\<exists>h b. each_group_event body g a = Some (0, loop_result g h, b) \<and> (\<forall>e. counter_changed t e (h e)) \<and> keeps V c a b"
proof -
  obtain b where "each_group_event body g a = Some (0, loop_result g h, b)" "keeps W c a b"
    using amd_loop [OF assms(1-3), of W body h] assms(4) by blast
  then show ?thesis using assms(5) frame_mono [OF _ assms(6)] by blast
qed

text \<open>The counter registers keep their values while only control registers are written.\<close>

lemma ctr_kept:
  assumes "can_access acc T I (machine a) c" "keeps (ctl_reg T ` {i\<in>I. held (counter_type T i)}) c a b" "used_entry T I t e" "counting g t e"
  shows "regs (machine b) c (ctr_reg T (es_index e)) = regs (machine a) c (ctr_reg T (es_index e))"
proof -
  have i: "es_index e \<in> I" using used_counting [OF assms(3)] assms(4) by (metis counting_def)
  show ?thesis by (rule frame_reg [OF assms(2)]) (use used_accessible [OF assms(1) i] ctl_not_ctr [OF _ i, THEN not_sym] in auto)
qed

definition kabini_entry :: "(RegisterType \<Rightarrow> bool) \<Rightarrow> PerfmonEventSet \<Rightarrow> nat \<Rightarrow> (u32 \<Rightarrow> u64) \<Rightarrow> PerfmonEventSetEntry \<Rightarrow> PerfmonEventSetEntry" where
  "kabini_entry held g t R e = (if counting g t e \<and> held (es_type e)
     then with_counter t (k10_count (R (ctr_reg T (es_index e))) (the (counter_get t e))) e else e)"

definition interlagos_entry :: "(RegisterType \<Rightarrow> bool) \<Rightarrow> PerfmonEventSet \<Rightarrow> nat \<Rightarrow> (u32 \<Rightarrow> u64) \<Rightarrow> PerfmonEventSetEntry \<Rightarrow> PerfmonEventSetEntry" where
  "interlagos_entry held g t R e = (if counting g t e then with_counter t ((the (counter_get t e))\<lparr>pc_counterData :=
     (if held (es_type e) then R (ctr_reg T (es_index e)) AND mask 48 else 0)\<rparr>) e else e)"

lemma entries_changed:
  "counter_changed t e (kabini_entry held g t R e)" "counter_changed t e (interlagos_entry held g t R e)"
  "counter_changed t e (start_entry g t e)" "counter_changed t e (if q then init_entry x t e else e)"
  by (simp_all add: kabini_entry_def interlagos_entry_def start_entry_def init_entry_def)

lemma stop_kabini_body:
  assumes "can_access acc T I (machine a) c" "inv (machine b)" "can_access acc T I (machine b) c" "used_entry T I t e"
    "keeps (ctl_reg T ` {i\<in>I. held (counter_type T i)}) c a b"
  shows "\<exists>b'. kabini_stop_event H T held (int c) t g e b = Some (None, kabini_entry held g t (regs (machine a) c) e, b') \<and>
    keeps (ctl_reg T ` {i\<in>I. held (counter_type T i)}) c b b'"
  using stop_event_kabini [OF assms(2-4), of held g] ctr_kept [OF assms(1,5,4)] by (auto simp: kabini_entry_def)

lemma stop_interlagos_body:
  assumes "can_access acc T I (machine a) c" "inv (machine b)" "can_access acc T I (machine b) c" "used_entry T I t e"
    "keeps (ctl_reg T ` {i\<in>I. held (counter_type T i)}) c a b"
  shows "\<exists>b'. interlagos_stop_event H T held (int c) t g e b = Some (None, interlagos_entry held g t (regs (machine a) c) e, b') \<and>
    keeps (ctl_reg T ` {i\<in>I. held (counter_type T i)}) c b b'"
  using stop_event_interlagos [OF assms(2-4), of held g] ctr_kept [OF assms(1,5,4)] by (auto simp: interlagos_entry_def)

lemma read_bodies:
  assumes "can_access acc T I (machine a) c" "inv (machine b)" "can_access acc T I (machine b) c" "used_entry T I t e" "keeps {} c a b"
  shows "\<exists>b'. kabini_read_event H T held (int c) t g e b = Some (None, kabini_entry held g t (regs (machine a) c) e, b') \<and> keeps {} c b b'"
    "\<exists>b'. interlagos_read_event H T (int c) t g e b =
      Some (None, interlagos_entry (\<lambda>type. type = PMC \<or> type = UNCORE) g t (regs (machine a) c) e, b') \<and> keeps {} c b b'"
proof -
  have r: "regs (machine b) c (ctr_reg T (es_index e)) = regs (machine a) c (ctr_reg T (es_index e))" if "counting g t e"
  proof (rule frame_reg [OF assms(5)])
    have "es_index e \<in> I" using used_counting [OF assms(4)] that by (metis counting_def)
    then show "acc (machine a) c (ctr_reg T (es_index e))" using used_accessible [OF assms(1)] by blast
  qed simp
  show "\<exists>b'. kabini_read_event H T held (int c) t g e b = Some (None, kabini_entry held g t (regs (machine a) c) e, b') \<and> keeps {} c b b'"
    using read_event_kabini [OF assms(2-4), of held g] r frame_refl [of inv b, OF assms(2)] by (auto simp: kabini_entry_def)
  show "\<exists>b'. interlagos_read_event H T (int c) t g e b =
      Some (None, interlagos_entry (\<lambda>type. type = PMC \<or> type = UNCORE) g t (regs (machine a) c) e, b') \<and> keeps {} c b b'"
    using read_event_interlagos [OF assms(2-4), of g] r frame_refl [of inv b, OF assms(2)] by (auto simp: interlagos_entry_def)
qed

lemma fun_total:
  assumes "inv (machine a)" "can_access acc T I (machine a) c" "used_group T I t g" "thread_cpu ts t = Some (int c)" "c < MAX_NUM_THREADS"
    and "amd_held f L (int c) = Some held" "f = Family15 \<Longrightarrow> \<forall>i\<in>I. counter_type T i = PMC \<or> counter_type T i = UNCORE"
  shows "\<exists>h b. amd_fun f op H T L ts t g a = Some (0, loop_result g h, b) \<and> (\<forall>e. counter_changed t e (h e)) \<and> keeps (regs_held T I held) c a b"
proof (cases f)
  case Family15
  obtain lk where lk: "have_socket_lock L (int c) = Some lk" and held: "interlagos_held L (int c) = Some held"
    using assms(6) Family15 by (auto simp: amd_held_def interlagos_held_def split: bind_splits)
  have ty: "\<And>i. i \<in> I \<Longrightarrow> counter_type T i = PMC \<or> counter_type T i = UNCORE" using assms(7) Family15 by blast
  note defs = perfmon_setupCounterThread_interlagos_def perfmon_startCountersThread_interlagos_def perfmon_stopCountersThread_interlagos_def
    perfmon_readCountersThread_interlagos_def perfmon_finalizeCountersThread_interlagos_def
  show ?thesis
    unfolding Family15
  proof (cases op; simp only: amd_fun.simps defs assms(4) lk held Option.bind.bind_lunit)
    show "\<exists>h b. each_group_event (interlagos_setup_event H T L (int c) t g) g a = Some (0, loop_result g h, b) \<and>
        (\<forall>e. counter_changed t e (h e)) \<and> keeps (regs_held T I held) c a b"
      by (rule op_loop [OF assms(3,1,2) _ entries_changed(4) subset_refl], rule setup_event_interlagos [OF _ _ _ assms(5) held])
    show "\<exists>h b. each_group_event (amd_start_event H T held (int c) t g) g a = Some (0, loop_result g h, b) \<and>
        (\<forall>e. counter_changed t e (h e)) \<and> keeps (regs_held T I held) c a b"
      by (rule op_loop [OF assms(3,1,2) _ entries_changed(3) subset_refl], rule start_body)
    show "\<exists>h b. each_group_event (interlagos_stop_event H T held (int c) t g) g a = Some (0, loop_result g h, b) \<and>
        (\<forall>e. counter_changed t e (h e)) \<and> keeps (regs_held T I held) c a b"
      by (rule op_loop [OF assms(3,1,2) _ entries_changed(2) ctl_subset_held], rule stop_interlagos_body [OF assms(2)])
    show "\<exists>h b. each_group_event (interlagos_read_event H T (int c) t g) g a = Some (0, loop_result g h, b) \<and>
        (\<forall>e. counter_changed t e (h e)) \<and> keeps (regs_held T I held) c a b"
      by (rule op_loop [OF assms(3,1,2) _ entries_changed(2) empty_subsetI], rule read_bodies(2) [OF assms(2)])
    show "\<exists>h b. each_group_event (interlagos_finalize_event H T lk (int c) t g) g a = Some (0, loop_result g h, b) \<and>
        (\<forall>e. counter_changed t e (h e)) \<and> keeps (regs_held T I held) c a b"
      by (rule op_loop [OF assms(3,1,2) _ entries_changed(4) subset_refl], rule finalize_event_interlagos [OF _ _ _ held lk ty])
  qed
next
  case Family16
  then have held: "kabini_held L (int c) = Some held" using assms(6) by (simp add: amd_held_def)
  note defs = perfmon_setupCounterThread_kabini_def perfmon_startCountersThread_kabini_def perfmon_stopCountersThread_kabini_def
    perfmon_readCountersThread_kabini_def perfmon_finalizeCountersThread_kabini_def
  show ?thesis
    unfolding Family16
  proof (cases op; simp only: amd_fun.simps defs assms(4) held Option.bind.bind_lunit)
    show "\<exists>h b. each_group_event (kabini_setup_event H T L (int c) t g) g a = Some (0, loop_result g h, b) \<and>
        (\<forall>e. counter_changed t e (h e)) \<and> keeps (regs_held T I held) c a b"
      by (rule op_loop [OF assms(3,1,2) _ entries_changed(4) subset_refl], rule setup_event_kabini [OF _ _ _ assms(5) held])
    show "\<exists>h b. each_group_event (amd_start_event H T held (int c) t g) g a = Some (0, loop_result g h, b) \<and>
        (\<forall>e. counter_changed t e (h e)) \<and> keeps (regs_held T I held) c a b"
      by (rule op_loop [OF assms(3,1,2) _ entries_changed(3) subset_refl], rule start_body)
    show "\<exists>h b. each_group_event (kabini_stop_event H T held (int c) t g) g a = Some (0, loop_result g h, b) \<and>
        (\<forall>e. counter_changed t e (h e)) \<and> keeps (regs_held T I held) c a b"
      by (rule op_loop [OF assms(3,1,2) _ entries_changed(1) ctl_subset_held], rule stop_kabini_body [OF assms(2)])
    show "\<exists>h b. each_group_event (kabini_read_event H T held (int c) t g) g a = Some (0, loop_result g h, b) \<and>
        (\<forall>e. counter_changed t e (h e)) \<and> keeps (regs_held T I held) c a b"
      by (rule op_loop [OF assms(3,1,2) _ entries_changed(1) empty_subsetI], rule read_bodies(1) [OF assms(2)])
    show "\<exists>h b. each_group_event (kabini_finalize_event H T held (int c) t g) g a = Some (0, loop_result g h, b) \<and>
        (\<forall>e. counter_changed t e (h e)) \<and> keeps (regs_held T I held) c a b"
      by (rule op_loop [OF assms(3,1,2) _ entries_changed(4) subset_refl], rule finalize_event_kabini)
  qed
qed

text \<open>Starting and stopping, with the registers and the data that they leave.\<close>

definition started :: "PerfmonEventSet \<Rightarrow> nat \<Rightarrow> (RegisterType \<Rightarrow> bool) \<Rightarrow> nat \<Rightarrow> 'm \<Rightarrow> PerfmonEventSetEntry \<Rightarrow> bool" where
  "started g t held c m e \<longleftrightarrow> (counting g t e \<and> held (es_type e) \<longrightarrow>
     regs m c (ctr_reg T (es_index e)) = 0 \<and> bit (regs m c (ctl_reg T (es_index e))) 22)"

lemma start_all:
  assumes "inv (machine a)" "can_access acc T I (machine a) c" "used_group T I t g"
  shows "\<exists>b. each_group_event (amd_start_event H T held (int c) t g) g a = Some (0, loop_result g (start_entry g t), b) \<and>
    keeps (regs_held T I held) c a b \<and> (\<forall>k<gs_numberOfEvents g. started g t held c (machine b) (gs_events g ! k))"
  unfolding loop_result_def
proof (rule each_group_event_invariant
    [where J = "\<lambda>k b. keeps (regs_held T I held) c a b \<and> (\<forall>j<k. started g t held c (machine b) (gs_events g ! j))"])
  show "gs_numberOfEvents g \<le> length (gs_events g)" using assms(3) by (simp add: used_group_def)
  show "keeps (regs_held T I held) c a a \<and> (\<forall>j<0. started g t held c (machine a) (gs_events g ! j))"
    using assms(1) by (simp add: frame_refl)
  fix k b
  let ?e = "gs_events g ! k"
  assume k: "k < gs_numberOfEvents g"
    and J: "keeps (regs_held T I held) c a b \<and> (\<forall>j<k. started g t held c (machine b) (gs_events g ! j))"
  have e: "used_entry T I t ?e" using used_group_nth [OF assms(3) k] .
  have b: "inv (machine b)" "can_access acc T I (machine b) c" using J can_access_keeps [OF assms(2)] by (auto simp: frame_def)
  obtain e' b' where r: "amd_start_event H T held (int c) t g ?e b = Some (None, e', b')" and k': "keeps (regs_held T I held) c b b'"
    and post: "if counting g t ?e
     then e' = with_counter t ((the (counter_get t ?e))\<lparr>pc_startData := 0, pc_counterData := 0, pc_fullData := 0\<rparr>) ?e \<and>
       (held (es_type ?e) \<longrightarrow> regs (machine b') c (ctr_reg T (es_index ?e)) = 0 \<and> bit (regs (machine b') c (ctl_reg T (es_index ?e))) 22) \<and>
       (\<forall>i\<in>I. (regs (machine b) c (ctr_reg T i) = 0 \<longrightarrow> regs (machine b') c (ctr_reg T i) = 0) \<and>
          (bit (regs (machine b) c (ctl_reg T i)) 22 \<longrightarrow> bit (regs (machine b') c (ctl_reg T i)) 22))
     else e' = ?e \<and> b' = b"
    using start_event_amd [OF b e, of held g] by blast
  have e': "e' = start_entry g t ?e" using post by (simp add: start_entry_def split: if_split_asm)
  note b' = r [unfolded e'] k'
  have new: "started g t held c (machine b') ?e" unfolding started_def using post by simp
  have stays: "counting g t ?e \<Longrightarrow> \<forall>i\<in>I. (regs (machine b) c (ctr_reg T i) = 0 \<longrightarrow> regs (machine b') c (ctr_reg T i) = 0) \<and>
      (bit (regs (machine b) c (ctl_reg T i)) 22 \<longrightarrow> bit (regs (machine b') c (ctl_reg T i)) 22)" "\<not> counting g t ?e \<Longrightarrow> b' = b"
    using post by simp_all
  have "started g t held c (machine b') (gs_events g ! j)" if j: "j < Suc k" for j
  proof (cases "j = k")
    case True
    then show ?thesis using new by simp
  next
    case False
    then have old: "started g t held c (machine b) (gs_events g ! j)" "used_entry T I t (gs_events g ! j)"
      using J j k used_group_nth [OF assms(3)] by auto
    show ?thesis
    proof (cases "counting g t ?e \<and> counting g t (gs_events g ! j)")
      case True
      then have "es_index (gs_events g ! j) \<in> I" using used_counting [OF old(2)] by (metis counting_def)
      then show ?thesis using stays(1) True old(1) unfolding started_def by blast
    qed (use stays(2) old(1) in \<open>auto simp: started_def\<close>)
  qed
  then show "\<exists>a'. amd_start_event H T held (int c) t g ?e b = Some (None, start_entry g t ?e, a') \<and>
      keeps (regs_held T I held) c a a' \<and> (\<forall>j<Suc k. started g t held c (machine a') (gs_events g ! j))"
    using b'(1) frame_trans [OF conjunct1 [OF J] b'(2) subset_refl] by blast
qed

lemma stop_all:
  assumes "inv (machine a)" "can_access acc T I (machine a) c" "used_group T I t g"
  shows "\<exists>b. each_group_event (kabini_stop_event H T held (int c) t g) g a =
      Some (0, loop_result g (kabini_entry held g t (regs (machine a) c)), b)"
    "\<exists>b. each_group_event (interlagos_stop_event H T held (int c) t g) g a =
      Some (0, loop_result g (interlagos_entry held g t (regs (machine a) c)), b)"
proof -
  have "\<exists>b. each_group_event (kabini_stop_event H T held (int c) t g) g a =
      Some (0, loop_result g (kabini_entry held g t (regs (machine a) c)), b) \<and> keeps (ctl_reg T ` {i\<in>I. held (counter_type T i)}) c a b"
    by (rule amd_loop [OF assms(3,1,2)], rule stop_kabini_body [OF assms(2)])
  then show "\<exists>b. each_group_event (kabini_stop_event H T held (int c) t g) g a =
      Some (0, loop_result g (kabini_entry held g t (regs (machine a) c)), b)" by blast
  have "\<exists>b. each_group_event (interlagos_stop_event H T held (int c) t g) g a =
      Some (0, loop_result g (interlagos_entry held g t (regs (machine a) c)), b) \<and> keeps (ctl_reg T ` {i\<in>I. held (counter_type T i)}) c a b"
    by (rule amd_loop [OF assms(3,1,2)], rule stop_interlagos_body [OF assms(2)])
  then show "\<exists>b. each_group_event (interlagos_stop_event H T held (int c) t g) g a =
      Some (0, loop_result g (interlagos_entry held g t (regs (machine a) c)), b)" by blast
qed

text \<open>A started group can be stopped, and what was not read counts as 0.\<close>

lemma start_entry_used: "used_entry T I t e \<Longrightarrow> used_entry T I t (start_entry g t e)"
  using with_counter_get [of t e] by (auto simp: start_entry_def used_entry_def)

lemma started_group: "used_group T I t g \<Longrightarrow> used_group T I t (loop_result g (start_entry g t))"
  by (auto simp: used_group_def loop_result_def start_entry_used)

lemma loop_result_nth: "\<lbrakk>used_group T I t g; k < gs_numberOfEvents g\<rbrakk> \<Longrightarrow> gs_events (loop_result g h) ! k = h (gs_events g ! k)"
  by (simp add: used_group_def loop_result_def nth_append)

lemma counting_loop: "counting (loop_result g h) t e = counting g t e"
  by (simp add: counting_def loop_result_def type_in_set_def)

lemma counted_entry:
  assumes "counting g t e"
  shows "\<exists>cn. counter_get t (kabini_entry held g t R (start_entry g t e)) = Some cn \<and>
      pc_counterData cn = (if held (es_type e) then R (ctr_reg T (es_index e)) AND mask 48 else 0)"
    "\<exists>cn. counter_get t (interlagos_entry held g t R (start_entry g t e)) = Some cn \<and>
      pc_counterData cn = (if held (es_type e) then R (ctr_reg T (es_index e)) AND mask 48 else 0)"
proof -
  obtain c where c: "counter_get t e = Some c" "pc_init c" using assms by (auto simp: counting_def)
  note w = with_counter_get [OF c(1)]
  have s: "start_entry g t e = with_counter t (c\<lparr>pc_startData := 0, pc_counterData := 0, pc_fullData := 0\<rparr>) e"
    using assms c(1) by (simp add: start_entry_def)
  have k: "counting g t (start_entry g t e)" using assms c(2) w by (simp add: s counting_def)
  show "\<exists>cn. counter_get t (kabini_entry held g t R (start_entry g t e)) = Some cn \<and>
      pc_counterData cn = (if held (es_type e) then R (ctr_reg T (es_index e)) AND mask 48 else 0)"
    using k with_counter_get [OF w] w by (auto simp: kabini_entry_def s k10_count_def)
  show "\<exists>cn. counter_get t (interlagos_entry held g t R (start_entry g t e)) = Some cn \<and>
      pc_counterData cn = (if held (es_type e) then R (ctr_reg T (es_index e)) AND mask 48 else 0)"
    using k with_counter_get [OF w] w by (auto simp: interlagos_entry_def s)
qed

lemma measured:
  assumes "inv (machine a)" "can_access acc T I (machine a) c" "used_group T I t g" "thread_cpu ts t = Some (int c)"
    and "amd_held f L (int c) = Some held"
  shows "\<exists>g1 b. amd_fun f OpStart H T L ts t g a = Some (0, g1, b) \<and>
    (\<forall>k<gs_numberOfEvents g. started g t held c (machine b) (gs_events g ! k)) \<and>
    (\<forall>m. inv m \<and> acc m = acc (machine b) \<longrightarrow> (\<exists>g2 b2. amd_fun f OpStop H T L ts t g1 (b\<lparr>machine := m\<rparr>) = Some (0, g2, b2) \<and>
      (\<forall>k<gs_numberOfEvents g. counting g t (gs_events g ! k) \<longrightarrow> (\<exists>cn. counter_get t (gs_events g2 ! k) = Some cn \<and>
        pc_counterData cn = (if held (es_type (gs_events g ! k)) then regs m c (ctr_reg T (es_index (gs_events g ! k))) AND mask 48 else 0)))))"
proof -
  let ?g1 = "loop_result g (start_entry g t)"
  obtain b where b: "each_group_event (amd_start_event H T held (int c) t g) g a = Some (0, ?g1, b)" "keeps (regs_held T I held) c a b"
      "\<forall>k<gs_numberOfEvents g. started g t held c (machine b) (gs_events g ! k)"
    using start_all [OF assms(1-3)] by blast
  have run: "amd_fun f OpStart H T L ts t g a = Some (0, ?g1, b)"
    using b(1) assms(4,5) by (cases f) (simp_all add: amd_held_def perfmon_startCountersThread_interlagos_def perfmon_startCountersThread_kabini_def)
  have u: "used_group T I t ?g1" using assms(3) by (rule started_group)
  have "\<exists>g2 b2. amd_fun f OpStop H T L ts t ?g1 (b\<lparr>machine := m\<rparr>) = Some (0, g2, b2) \<and>
      (\<forall>k<gs_numberOfEvents g. counting g t (gs_events g ! k) \<longrightarrow> (\<exists>cn. counter_get t (gs_events g2 ! k) = Some cn \<and>
        pc_counterData cn = (if held (es_type (gs_events g ! k)) then regs m c (ctr_reg T (es_index (gs_events g ! k))) AND mask 48 else 0)))"
    if m: "inv m" "acc m = acc (machine b)" for m
  proof -
    define x where "x = b\<lparr>machine := m\<rparr>"
    define h where "h = (case f of Family15 \<Rightarrow> interlagos_entry held ?g1 t (regs m c) | Family16 \<Rightarrow> kabini_entry held ?g1 t (regs m c))"
    have x: "machine x = m" "inv (machine x)" "can_access acc T I (machine x) c"
      using m can_access_keeps [OF assms(2) b(2)] by (simp_all add: x_def can_access_def)
    have "\<exists>b2. amd_fun f OpStop H T L ts t ?g1 x = Some (0, loop_result ?g1 h, b2)"
      using stop_all [OF x(2,3) u, of held] assms(4,5) unfolding x(1) h_def
      by (cases f) (simp_all add: amd_held_def perfmon_stopCountersThread_interlagos_def perfmon_stopCountersThread_kabini_def)
    then obtain b2 where b2: "amd_fun f OpStop H T L ts t ?g1 x = Some (0, loop_result ?g1 h, b2)" by blast
    have h: "h = (case f of Family15 \<Rightarrow> interlagos_entry held g t (regs m c) | Family16 \<Rightarrow> kabini_entry held g t (regs m c))"
      by (cases f) (simp_all add: h_def fun_eq_iff interlagos_entry_def kabini_entry_def counting_loop)
    have n: "gs_numberOfEvents ?g1 = gs_numberOfEvents g" by (simp add: loop_result_def)
    have nth: "gs_events (loop_result ?g1 h) ! k = h (start_entry g t (gs_events g ! k))" if "k < gs_numberOfEvents g" for k
      using loop_result_nth [OF u, of k h] loop_result_nth [OF assms(3) that] that n by simp
    have counted: "\<exists>cn. counter_get t (h (start_entry g t e)) = Some cn \<and>
        pc_counterData cn = (if held (es_type e) then regs m c (ctr_reg T (es_index e)) AND mask 48 else 0)" if "counting g t e" for e
      using counted_entry [OF that, of held "regs m c"] by (cases f) (simp_all only: h amd_family.case)
    have "\<forall>k<gs_numberOfEvents g. counting g t (gs_events g ! k) \<longrightarrow> (\<exists>cn. counter_get t (gs_events (loop_result ?g1 h) ! k) = Some cn \<and>
        pc_counterData cn = (if held (es_type (gs_events g ! k)) then regs m c (ctr_reg T (es_index (gs_events g ! k))) AND mask 48 else 0))"
    proof (intro allI impI)
      fix k
      assume k: "k < gs_numberOfEvents g" "counting g t (gs_events g ! k)"
      show "\<exists>cn. counter_get t (gs_events (loop_result ?g1 h) ! k) = Some cn \<and>
        pc_counterData cn = (if held (es_type (gs_events g ! k)) then regs m c (ctr_reg T (es_index (gs_events g ! k))) AND mask 48 else 0)"
        unfolding nth [OF k(1)] by (rule counted [OF k(2)])
    qed
    then show ?thesis using b2 unfolding x_def by blast
  qed
  then show ?thesis using run b(3) by blast
qed

end

section \<open>A concrete machine of family 16h\<close>

text \<open>Its first processor is registered and owns the lock of the socket; the daemon refuses the registers of the L2 cache.\<close>

definition kab_daemon :: daemon where
  "kab_daemon = stack_daemon\<lparr>allowed := allowed_amd16\<rparr>"

definition kab_ready :: "(int \<Rightarrow> u32 \<Rightarrow> u64) daemons hpm" where
  "kab_ready = stack_ready\<lparr>world := ([7 \<mapsto> kab_daemon], 8, \<lambda>fd r. 0)\<rparr>"

abbreviation kab_hpm :: "(int \<Rightarrow> u32 \<Rightarrow> u64) daemons hpm hpm_ops" where
  "kab_hpm \<equiv> stack_ops reg_kernel 2 0x700F01 (\<lambda>s. 0) (\<lambda>cpu s. Some (0, s))"

lemma kab_daemon_start: "daemon_start reg_kernel 2 0x700F01 3 4 k = Some (Some (kab_daemon, k))"
proof -
  have u: "[0..<2] = [0, 1 :: nat]" by (simp add: upt_rec)
  show ?thesis
    by (simp add: daemon_start_def select_policy_def cpuid_family_def cpuid_model_def kab_daemon_def stack_daemon_def demo_daemon_def
        daemon_initial_def reg_kernel_def dec_string_zero dec_string_one [simplified] u MAX_NUM_THREADS_def)
qed

lemma kab_ready_reached:
  "HPMaddThread (daemon_link reg_kernel 2 0x700F01) (world_kernel reg_kernel) pciInit 0 (snd (HPMinit stack_start)) = Some (0, kab_ready)"
  by (simp add: HPMinit_def stack_start_def HPMaddThread_def access_client_init_def arr_get_def arr_set_def
      daemon_link_def kab_daemon_start kab_ready_def stack_ready_def MAX_NUM_THREADS_def)

lemma kab_ready_fd: "stack_fd kab_ready = stack_fd stack_ready"
proof
  fix c
  have "client kab_ready = client stack_ready" "fst (world kab_ready) 7 = Some kab_daemon" "fst (world stack_ready) 7 = Some stack_daemon"
    by (simp_all add: kab_ready_def stack_ready_def)
  then show "stack_fd kab_ready c = stack_fd stack_ready c"
    by (simp add: stack_fd_def stack_ready_socket kab_daemon_def)
qed

lemma kab_ready_inv: "stack_inv kab_ready"
  using stack_ready_inv by (simp add: stack_inv_def kab_ready_fd) (simp add: kab_ready_def)

lemma kab_ready_acc: "allowed_amd16 r \<Longrightarrow> stack_acc kab_ready 0 r"
  using stack_ready_socket [of 0]
  by (simp add: stack_acc_def)
    (simp add: kab_ready_def kab_daemon_def stack_ready_def stack_start_def stack_daemon_def demo_daemon_def arr_get_def MAX_NUM_THREADS_def)

definition kab_counters :: "nat set" where
  "kab_counters = {0, 1, 2, 3, 8, 9, 10, 11}"

lemma kab_counters_size: "kab_counters \<subseteq> {..<amd_size Family16}"
  by (simp add: kab_counters_def amd_size_def)

interpretation kab_kernel: msr_kernel reg_kernel "\<lambda>k. k" 2 "0x700F01"
  by unfold_locales (auto simp: reg_kernel_def)

lemma kab_msr: "msr_machine stack_inv stack_acc (stack_regs (\<lambda>k. k)) kab_hpm"
  using kab_kernel.hp.register_access_axioms by (simp add: msr_machine_def stack_ops_def)

interpretation kab: amd_counters stack_inv stack_acc "stack_regs (\<lambda>k. k)" kab_hpm "amd_family_tables Family16 []" kab_counters
  by (rule amd_counters_family [OF kab_msr kab_counters_size])

lemma kab_can_access: "can_access stack_acc (amd_family_tables Family16 []) kab_counters kab_ready 0"
proof -
  have "allowed_amd16 (ctl_reg (amd_family_tables Family16 []) i) \<and> allowed_amd16 (ctr_reg (amd_family_tables Family16 []) i)"
    if "i \<in> kab_counters" for i
    using that by (auto simp: kab_counters_def ctl_reg_amd ctr_reg_amd amd_size_def allowed_amd16_def)
  then show ?thesis by (simp add: can_access_def kab_ready_acc)
qed

definition kab_locks :: arch_locks where
  "kab_locks = \<lparr>socket_lock = replicate MAX_NUM_NODES 0, tile_lock = replicate MAX_NUM_THREADS LOCK_INIT,
     affinity_core2node_lookup = [0, 0], affinity_thread2tile_lookup = [0, 0]\<rparr>"

definition kab_entry :: "nat \<Rightarrow> RegisterType \<Rightarrow> PerfmonEventSetEntry" where
  "kab_entry i type = \<lparr>es_event = amd_event [] 0xE0, es_index = i, es_type = type,
     es_threadCounter = Some [amd_counter\<lparr>pc_init := True\<rparr>]\<rparr>"

definition kab_group :: PerfmonEventSet where
  "kab_group = amd_group\<lparr>gs_numberOfEvents := 2, gs_events := [kab_entry 1 PMC, kab_entry 8 UNCORE],
     gs_regTypeMask := ucast (REG_TYPE_MASK PMC OR REG_TYPE_MASK UNCORE)\<rparr>"

lemma kab_group_used: "used_group (amd_family_tables Family16 []) kab_counters 0 kab_group"
  by (simp add: used_group_def used_entry_def kab_group_def kab_entry_def kab_counters_def counter_type_amd amd_size_def counter_get_def
      arr_get_def amd_event_def)

abbreviation kab_state :: "(int \<Rightarrow> u32 \<Rightarrow> u64) daemons hpm pm_state" where
  "kab_state \<equiv> \<lparr>machine = kab_ready, currentConfig = (\<lambda>cpu i. 0)\<rparr>"

lemma kab_setting:
  "stack_inv (machine kab_state)" "can_access stack_acc (amd_family_tables Family16 []) kab_counters (machine kab_state) 0"
  "thread_cpu amd_threads 0 = Some (int 0)" "have_socket_lock kab_locks (int 0) = Some True" "have_tile_lock kab_locks (int 0) = Some False"
  using kab_ready_inv kab_can_access
  by (simp_all add: thread_cpu_def amd_threads_def kab_locks_def have_socket_lock_def have_tile_lock_def arr_get_def MAX_NUM_NODES_def
      MAX_NUM_THREADS_def LOCK_INIT_def)

section \<open>Who programs the shared counters\<close>

lemma amd_heldI:
  assumes "have_socket_lock L c = Some sl" "have_tile_lock L c = Some tk"
  obtains held where "amd_held f L c = Some held"
    "\<And>type. held type \<longleftrightarrow> type = PMC \<or> type = UNCORE \<and> sl \<or> f = Family16 \<and> type = CBOX0 \<and> tk"
proof
  show "amd_held f L c = Some (\<lambda>type. type = PMC \<or> type = UNCORE \<and> sl \<or> f = Family16 \<and> type = CBOX0 \<and> tk)"
    using assms by (cases f) (auto simp: amd_held_def interlagos_held_def kabini_held_def)
qed simp

lemma family15_types: "I \<subseteq> {..<amd_size Family15} \<Longrightarrow> \<forall>i\<in>I. counter_type (amd_family_tables Family15 events) i = PMC \<or> counter_type (amd_family_tables Family15 events) i = UNCORE"
  by (auto simp: counter_type_amd subset_iff)

text \<open>
  Property C8. Whatever a thread does to its counters on Interlagos or Kabini (set up, start, stop, read or
  finalize), it succeeds, and changes only registers of its own processor: those of core counters, those of the
  northbridge only when its processor holds the lock of the socket, and those of the L2 cache only when it
  holds the lock of the tile.
\<close>

theorem shared_counters_owner:
  assumes "msr_machine good acc regs H" "T = amd_family_tables f events" "I \<subseteq> {..<amd_size f}"
    and "good (machine a)" "can_access acc T I (machine a) c" "used_group T I t g" "thread_cpu ts t = Some (int c)" "c < MAX_NUM_THREADS"
    and "have_socket_lock L (int c) = Some sl" "have_tile_lock L (int c) = Some tk"
  shows "\<exists>g' b. amd_fun f op H T L ts t g a = Some (0, g', b) \<and>
    (\<forall>c' r. acc (machine a) c' r \<and> regs (machine b) c' r \<noteq> regs (machine a) c' r \<longrightarrow>
       c' = c \<and> (\<exists>i\<in>I. r \<in> {ctl_reg T i, ctr_reg T i} \<and>
         (counter_type T i = PMC \<or> counter_type T i = UNCORE \<and> sl \<or> counter_type T i = CBOX0 \<and> tk)))"
proof -
  obtain held where held: "amd_held f L (int c) = Some held"
      "\<And>type. held type \<longleftrightarrow> type = PMC \<or> type = UNCORE \<and> sl \<or> f = Family16 \<and> type = CBOX0 \<and> tk"
    by (rule amd_heldI [OF assms(9,10)]) blast
  have C: "amd_counters good acc regs H T I" unfolding assms(2) by (rule amd_counters_family [OF assms(1,3)])
  obtain h b where b: "amd_fun f op H T L ts t g a = Some (0, loop_result g h, b)" "frame good acc regs (regs_held T I held) c a b"
    using amd_counters.fun_total [OF C assms(4-8) held(1)] family15_types assms(2,3) by blast
  have "c' = c \<and> (\<exists>i\<in>I. r \<in> {ctl_reg T i, ctr_reg T i} \<and>
      (counter_type T i = PMC \<or> counter_type T i = UNCORE \<and> sl \<or> counter_type T i = CBOX0 \<and> tk))"
    if r: "acc (machine a) c' r" "regs (machine b) c' r \<noteq> regs (machine a) c' r" for c' r
  proof -
    have "c' = c \<and> r \<in> regs_held T I held" using b(2) r unfolding frame_def by blast
    then show ?thesis unfolding regs_held_def using held(2) by blast
  qed
  then show ?thesis using b(1) by blast
qed

theorem shared_counters_owner_witness:
  "\<exists>g' b. amd_fun Family16 OpFinalize kab_hpm (amd_family_tables Family16 []) kab_locks amd_threads 0 kab_group kab_state = Some (0, g', b) \<and>
     stack_regs (\<lambda>k. k) (machine b) 0 0xC001000A = stack_regs (\<lambda>k. k) kab_ready 0 0xC001000A"
proof -
  have a: "stack_acc (machine kab_state) 0 0xC001000A = True"
    using kab_ready_acc [of "0xC001000A"] by (simp add: allowed_amd16_def)
  obtain g' b where b: "amd_fun Family16 OpFinalize kab_hpm (amd_family_tables Family16 []) kab_locks amd_threads 0 kab_group kab_state = Some (0, g', b)"
      "\<forall>c' r. stack_acc (machine kab_state) c' r \<and> stack_regs (\<lambda>k. k) (machine b) c' r \<noteq> stack_regs (\<lambda>k. k) (machine kab_state) c' r \<longrightarrow>
       c' = 0 \<and> (\<exists>i\<in>kab_counters. r \<in> {ctl_reg (amd_family_tables Family16 []) i, ctr_reg (amd_family_tables Family16 []) i} \<and>
         (counter_type (amd_family_tables Family16 []) i = PMC \<or> counter_type (amd_family_tables Family16 []) i = UNCORE \<and> True \<or>
          counter_type (amd_family_tables Family16 []) i = CBOX0 \<and> False))"
    using shared_counters_owner [OF kab_msr refl kab_counters_size kab_setting(1,2) kab_group_used kab_setting(3) _ kab_setting(4,5), of OpFinalize]
    unfolding MAX_NUM_THREADS_def by (simp del: split_paired_Ex) blast
  have "r \<noteq> 0xC001000A" if "i \<in> kab_counters" "r \<in> {ctl_reg (amd_family_tables Family16 []) i, ctr_reg (amd_family_tables Family16 []) i}" for i r
    using that by (auto simp: kab_counters_def ctl_reg_amd ctr_reg_amd amd_size_def)
  then show ?thesis using b a by fastforce
qed

text \<open>The initialization of the threads, in the order of their processors.\<close>

fun amd_init_all :: "amd_family \<Rightarrow> int list \<Rightarrow> arch_locks \<Rightarrow> arch_locks option" where
  "amd_init_all f [] L = Some L"
| "amd_init_all f (cpu # cpus) L = do { (_, L') \<leftarrow> amd_init f cpu L; amd_init_all f cpus L' }"

text \<open>The owner of a lock after processors \<open>cpus\<close> have tried to take the locks that \<open>where\<close> assigns them.\<close>

definition first_owner :: "(int \<Rightarrow> int) \<Rightarrow> int list \<Rightarrow> int \<Rightarrow> int" where
  "first_owner lookup cpus n = (case find (\<lambda>cpu. lookup cpu = n) cpus of None \<Rightarrow> LOCK_INIT | Some cpu \<Rightarrow> cpu)"

definition locks_taken :: "(int \<Rightarrow> int) \<Rightarrow> int list \<Rightarrow> int list \<Rightarrow> int list \<Rightarrow> bool" where
  "locks_taken lookup cpus vars vars' \<longleftrightarrow> length vars' = length vars \<and>
     (\<forall>n<length vars. vars' ! n = (if vars ! n = LOCK_INIT then first_owner lookup cpus (int n) else vars ! n))"

definition node_of :: "arch_locks \<Rightarrow> int \<Rightarrow> int" where
  "node_of L cpu = the (arr_get (affinity_core2node_lookup L) cpu)"

definition tile_of :: "arch_locks \<Rightarrow> int \<Rightarrow> int" where
  "tile_of L cpu = the (arr_get (affinity_thread2tile_lookup L) cpu)"

definition placed_cpu :: "arch_locks \<Rightarrow> int \<Rightarrow> bool" where
  "placed_cpu L cpu \<longleftrightarrow> 0 \<le> cpu \<and> arr_get (affinity_core2node_lookup L) cpu \<noteq> None \<and> arr_get (affinity_thread2tile_lookup L) cpu \<noteq> None \<and>
     0 \<le> node_of L cpu \<and> node_of L cpu < int MAX_NUM_NODES \<and> 0 \<le> tile_of L cpu \<and> tile_of L cpu < int MAX_NUM_THREADS"

lemma lock_acquire_taken:
  assumes "0 \<le> lookup cpu" "lookup cpu < int (length vars)" "0 \<le> cpu"
  obtains vars1 where "lock_acquire vars (lookup cpu) cpu = Some vars1" "length vars1 = length vars"
    "\<And>cpus vars'. locks_taken lookup cpus vars1 vars' \<Longrightarrow> locks_taken lookup (cpu # cpus) vars vars'"
proof (cases "vars ! nat (lookup cpu) = LOCK_INIT")
  case True
  show thesis
    by (rule that [of "vars[nat (lookup cpu) := cpu]"])
      (use True assms in \<open>auto simp: lock_acquire_def arr_get_def arr_set_def locks_taken_def first_owner_def nth_list_update LOCK_INIT_def\<close>)
next
  case False
  show thesis
    by (rule that [of vars]) (use False assms in \<open>auto simp: lock_acquire_def arr_get_def locks_taken_def first_owner_def\<close>)
qed

lemma amd_init_all_locks:
  assumes "\<forall>cpu\<in>set cpus. placed_cpu L cpu" "length (socket_lock L) = MAX_NUM_NODES" "length (tile_lock L) = MAX_NUM_THREADS"
  shows "\<exists>L'. amd_init_all f cpus L = Some L' \<and> affinity_core2node_lookup L' = affinity_core2node_lookup L \<and>
    affinity_thread2tile_lookup L' = affinity_thread2tile_lookup L \<and> locks_taken (node_of L) cpus (socket_lock L) (socket_lock L') \<and>
    (f = Family16 \<longrightarrow> locks_taken (tile_of L) cpus (tile_lock L) (tile_lock L'))"
  using assms
proof (induction cpus arbitrary: L)
  case Nil
  then show ?case by (simp add: locks_taken_def first_owner_def)
next
  case (Cons cpu cpus)
  have p: "placed_cpu L cpu" using Cons.prems(1) by simp
  then have g: "arr_get (affinity_core2node_lookup L) cpu = Some (node_of L cpu)" "arr_get (affinity_thread2tile_lookup L) cpu = Some (tile_of L cpu)"
    by (auto simp: placed_cpu_def node_of_def tile_of_def)
  obtain sl where sl: "lock_acquire (socket_lock L) (node_of L cpu) cpu = Some sl" "length sl = length (socket_lock L)"
      "\<And>vars'. locks_taken (node_of L) cpus sl vars' \<Longrightarrow> locks_taken (node_of L) (cpu # cpus) (socket_lock L) vars'"
    by (rule lock_acquire_taken [of "node_of L" cpu "socket_lock L"]) (use p Cons.prems(2) in \<open>auto simp: placed_cpu_def\<close>)
  obtain tl where tl: "lock_acquire (tile_lock L) (tile_of L cpu) cpu = Some tl" "length tl = length (tile_lock L)"
      "\<And>vars'. locks_taken (tile_of L) cpus tl vars' \<Longrightarrow> locks_taken (tile_of L) (cpu # cpus) (tile_lock L) vars'"
    by (rule lock_acquire_taken [of "tile_of L" cpu "tile_lock L"]) (use p Cons.prems(3) in \<open>auto simp: placed_cpu_def\<close>)
  define L1 where "L1 = (case f of Family15 \<Rightarrow> L\<lparr>socket_lock := sl\<rparr> | Family16 \<Rightarrow> L\<lparr>socket_lock := sl, tile_lock := tl\<rparr>)"
  have run: "amd_init f cpu L = Some (0, L1)"
    using g sl(1) tl(1) by (cases f) (simp_all add: L1_def perfmon_init_interlagos_def perfmon_init_kabini_def lock_socket_def lock_tile_def)
  have same: "node_of L1 = node_of L" "tile_of L1 = tile_of L" "affinity_core2node_lookup L1 = affinity_core2node_lookup L"
      "affinity_thread2tile_lookup L1 = affinity_thread2tile_lookup L" "socket_lock L1 = sl" "f = Family16 \<Longrightarrow> tile_lock L1 = tl"
      "length (tile_lock L1) = length (tile_lock L)"
    using tl(2) by (cases f; simp add: L1_def node_of_def tile_of_def fun_eq_iff)+
  have "\<forall>x\<in>set cpus. placed_cpu L1 x" using Cons.prems(1) same by (simp add: placed_cpu_def)
  then obtain L' where L': "amd_init_all f cpus L1 = Some L'" "affinity_core2node_lookup L' = affinity_core2node_lookup L1"
      "affinity_thread2tile_lookup L' = affinity_thread2tile_lookup L1" "locks_taken (node_of L1) cpus (socket_lock L1) (socket_lock L')"
      "f = Family16 \<longrightarrow> locks_taken (tile_of L1) cpus (tile_lock L1) (tile_lock L')"
    using Cons.IH [of L1] Cons.prems(2,3) sl(2) same(5,7) by auto
  then show ?case using run sl(3) tl(3) same by auto
qed

text \<open>
  After the initialization of the threads of a session, every socket with a thread has exactly one
  owner of its shared counters: the first thread initialized on it.
\<close>

lemma one_owner_per_socket:
  assumes "\<forall>cpu\<in>set cpus. placed_cpu L cpu"
  shows "\<exists>L'. amd_init_all f cpus (init_locks L) = Some L' \<and>
    (\<forall>cpu\<in>set cpus. have_socket_lock L' cpu = Some (find (\<lambda>x. node_of L x = node_of L cpu) cpus = Some cpu))"
proof -
  have p: "\<forall>cpu\<in>set cpus. placed_cpu (init_locks L) cpu" using assms by (simp add: placed_cpu_def init_locks_def node_of_def tile_of_def)
  have n: "node_of (init_locks L) = node_of L" by (simp add: node_of_def init_locks_def fun_eq_iff)
  obtain L' where L': "amd_init_all f cpus (init_locks L) = Some L'" "affinity_core2node_lookup L' = affinity_core2node_lookup L"
      "locks_taken (node_of L) cpus (replicate MAX_NUM_NODES LOCK_INIT) (socket_lock L')"
    using amd_init_all_locks [OF p, of f] unfolding n by (auto simp: init_locks_def)
  have "have_socket_lock L' cpu = Some (find (\<lambda>x. node_of L x = node_of L cpu) cpus = Some cpu)" if cpu: "cpu \<in> set cpus" for cpu
  proof -
    have pc: "0 \<le> node_of L cpu" "node_of L cpu < int MAX_NUM_NODES" "arr_get (affinity_core2node_lookup L) cpu = Some (node_of L cpu)"
      using assms cpu by (auto simp: placed_cpu_def node_of_def)
    have v: "arr_get (socket_lock L') (node_of L cpu) = Some (first_owner (node_of L) cpus (node_of L cpu))"
      using L'(3) pc(1,2) by (simp add: locks_taken_def arr_get_def)
    obtain x where "find (\<lambda>x. node_of L x = node_of L cpu) cpus = Some x"
      using cpu by (cases "find (\<lambda>x. node_of L x = node_of L cpu) cpus") (auto simp: find_None_iff)
    then show ?thesis using v pc(3) L'(2) by (simp add: have_socket_lock_def first_owner_def)
  qed
  then show ?thesis using L'(1) by blast
qed

section \<open>What the daemon admits\<close>

definition family_number :: "amd_family \<Rightarrow> u32" where
  "family_number f = (case f of Family15 \<Rightarrow> K15_FAMILY | Family16 \<Rightarrow> K16_FAMILY)"

text \<open>
  Property C13. The access daemon of a processor of family 15h or 16h admits every register of the table of
  counters except those of the L2 cache of family 16h, which it refuses all, although the module programs them.
\<close>

theorem policy_admits_amd:
  assumes "select_policy (family_number f) model = Some p" "i < amd_size f" "r \<in> {ctl_reg (amd_family_tables f events) i, ctr_reg (amd_family_tables f events) i}"
  shows "dp_allowed p r \<longleftrightarrow> counter_type (amd_family_tables f events) i \<noteq> CBOX0"
  using assms(1,3) unfolding insert_iff empty_iff ctl_reg_amd [OF assms(2)] ctr_reg_amd [OF assms(2)] counter_type_amd [OF assms(2)]
  using assms(2) by (cases f) (auto simp: family_number_def select_policy_def amd_size_def less_amd_cases allowed_amd15_def allowed_amd16_def)

theorem policy_admits_amd_witness:
  "\<exists>p. select_policy K16_FAMILY 0 = Some p \<and> \<not> dp_allowed p 0xC0010230 \<and> dp_allowed p 0xC0010240"
proof -
  obtain p where p: "select_policy (family_number Family16) 0 = Some p"
    by (simp add: select_policy_def family_number_def)
  have i: "4 < amd_size Family16" "8 < amd_size Family16" by (simp_all add: amd_size_def)
  show ?thesis
    using p policy_admits_amd [OF p i(1), of "0xC0010230" "[]"] policy_admits_amd [OF p i(2), of "0xC0010240" "[]"] i
    by (simp add: family_number_def ctl_reg_amd counter_type_amd)
qed

section \<open>Measurements\<close>

text \<open>The counters that a processor reads: core counters, and those whose lock it holds.\<close>

definition owned_type :: "amd_family \<Rightarrow> bool \<Rightarrow> bool \<Rightarrow> RegisterType \<Rightarrow> bool" where
  "owned_type f sl tk type \<longleftrightarrow> type = PMC \<or> type = UNCORE \<and> sl \<or> f = Family16 \<and> type = CBOX0 \<and> tk"

text \<open>
  Property C9. On Interlagos and Kabini, starting the counters of a thread clears and enables every counter of its
  events that its processor owns, and stopping them, whatever the hardware has counted in between, gives each
  event the low 48 bits of its counter register if the processor owns it, and 0 otherwise.
\<close>

theorem amd_measurement:
  assumes "msr_machine good acc regs H" "T = amd_family_tables f events" "I \<subseteq> {..<amd_size f}"
    and "good (machine a)" "can_access acc T I (machine a) c" "used_group T I t g" "thread_cpu ts t = Some (int c)"
    and "have_socket_lock L (int c) = Some sl" "have_tile_lock L (int c) = Some tk"
  shows "\<exists>g1 b. amd_fun f OpStart H T L ts t g a = Some (0, g1, b) \<and>
    (\<forall>k<gs_numberOfEvents g. counting g t (gs_events g ! k) \<and> owned_type f sl tk (es_type (gs_events g ! k)) \<longrightarrow>
       regs (machine b) c (ctr_reg T (es_index (gs_events g ! k))) = 0 \<and> bit (regs (machine b) c (ctl_reg T (es_index (gs_events g ! k)))) 22) \<and>
    (\<forall>m. good m \<and> acc m = acc (machine b) \<longrightarrow> (\<exists>g2 b2. amd_fun f OpStop H T L ts t g1 (b\<lparr>machine := m\<rparr>) = Some (0, g2, b2) \<and>
      (\<forall>k<gs_numberOfEvents g. counting g t (gs_events g ! k) \<longrightarrow> (\<exists>cn. counter_get t (gs_events g2 ! k) = Some cn \<and>
        pc_counterData cn = (if owned_type f sl tk (es_type (gs_events g ! k))
          then regs m c (ctr_reg T (es_index (gs_events g ! k))) AND mask 48 else 0)))))"
proof -
  have held: "amd_held f L (int c) = Some (owned_type f sl tk)"
    using assms(8,9) by (cases f) (auto simp: amd_held_def interlagos_held_def kabini_held_def owned_type_def fun_eq_iff)
  have C: "amd_counters good acc regs H T I" unfolding assms(2) by (rule amd_counters_family [OF assms(1,3)])
  show ?thesis
    using amd_counters.measured [OF C assms(4-7) held] unfolding amd_counters.started_def [OF C] .
qed

theorem amd_measurement_witness:
  "\<exists>g1 b. amd_fun Family16 OpStart kab_hpm (amd_family_tables Family16 []) kab_locks amd_threads 0 kab_group kab_state = Some (0, g1, b) \<and>
     bit (stack_regs (\<lambda>k. k) (machine b) 0 0xC0010001) 22 \<and> bit (stack_regs (\<lambda>k. k) (machine b) 0 0xC0010240) 22"
proof -
  have e: "gs_numberOfEvents kab_group = 2" "gs_events kab_group ! 0 = kab_entry 1 PMC" "gs_events kab_group ! 1 = kab_entry 8 UNCORE"
    by (simp_all add: kab_group_def)
  have ct: "counting kab_group 0 (kab_entry 1 PMC)" "counting kab_group 0 (kab_entry 8 UNCORE)"
    by (simp_all add: counting_def kab_group_def kab_entry_def type_in_set_def counter_get_def arr_get_def REG_TYPE_MASK_def register_number_def RegisterTypes_def)
  have r: "ctl_reg (amd_family_tables Family16 []) 1 = 0xC0010001" "ctl_reg (amd_family_tables Family16 []) 8 = 0xC0010240"
    by (simp_all add: ctl_reg_amd amd_size_def)
  obtain g1 b where b: "amd_fun Family16 OpStart kab_hpm (amd_family_tables Family16 []) kab_locks amd_threads 0 kab_group kab_state = Some (0, g1, b)"
      "\<forall>k<gs_numberOfEvents kab_group. counting kab_group 0 (gs_events kab_group ! k) \<and>
         owned_type Family16 True False (es_type (gs_events kab_group ! k)) \<longrightarrow>
       stack_regs (\<lambda>k. k) (machine b) 0 (ctr_reg (amd_family_tables Family16 []) (es_index (gs_events kab_group ! k))) = 0 \<and>
       bit (stack_regs (\<lambda>k. k) (machine b) 0 (ctl_reg (amd_family_tables Family16 []) (es_index (gs_events kab_group ! k)))) 22"
    using amd_measurement [OF kab_msr refl kab_counters_size kab_setting(1,2) kab_group_used kab_setting(3-5)] by blast
  have "bit (stack_regs (\<lambda>k. k) (machine b) 0 0xC0010001) 22" "bit (stack_regs (\<lambda>k. k) (machine b) 0 0xC0010240) 22"
    using b(2) [unfolded e(1), rule_format, of 0] b(2) [unfolded e(1), rule_format, of 1] e ct r
    by (simp_all add: owned_type_def kab_entry_def)
  then show ?thesis using b(1) by blast
qed

end
