(* ===== verification/Affinity_Locks.thy ===== *)
theory Affinity_Locks
  imports Affinity_Example Perfmon_Amd_Properties
begin

text \<open>
  From the topology to the locks of shared counters: \<open>topology_setupTree\<close> records the core of every processor,
  \<open>affinity_init\<close> its socket, and the initialization of the threads of a session takes the locks that these
  numbers index.
\<close>

section \<open>The recorded numbers\<close>

definition indices_below :: "nat \<Rightarrow> int list \<Rightarrow> bool" where
  "indices_below n xs \<longleftrightarrow> (\<forall>x\<in>set xs. 0 \<le> x \<and> x < int n)"

lemma addThreads_tiles:
  "\<lbrakk>topology_addThreads r ts (h, lookup) = Some (h', lookup'); \<forall>x\<in>set ts. coreId (fst x) < n; indices_below n lookup\<rbrakk> \<Longrightarrow>
     length lookup' = length lookup \<and> indices_below n lookup'"
proof (induction ts arbitrary: h lookup)
  case (Cons x ts)
  obtain t leaf where x: "x = (t, leaf)" by (cases x)
  obtain h1 lookup1 where st: "topology_addThread r t leaf (h, lookup) = Some (h1, lookup1)"
      "topology_addThreads r ts (h1, lookup1) = Some (h', lookup')"
    using Cons.prems(1) x by (auto split: bind_split_asm)
  have "length lookup1 = length lookup \<and> indices_below n lookup1"
    using st(1) Cons.prems(2,3) x
    by (auto simp: topology_addThread_def arr_set_def indices_below_def split: bind_split_asm if_splits dest!: set_update_subset_insert [THEN subsetD])
  then show ?case using Cons.IH [OF st(2)] Cons.prems(2) by simp
qed simp

lemma from_pool_tiles:
  assumes "from_pool A pool lookup lookup'" "\<forall>t\<in>set pool. coreId t < n" "indices_below n lookup"
  shows "length lookup' = length lookup \<and> indices_below n lookup'"
  using assms addThreads_tiles [of _ "map (\<lambda>t. (t, int (apicId t))) pool" _ lookup _ lookup' n]
  by (auto simp: from_pool_def topology_setupTree_def split: bind_split_asm prod.splits)

lemma init_sockets:
  assumes "regular A" "length (core2node_lookup s) = MAX_NUM_THREADS" "\<not> affinity_initialized s" "affinity_init junk A s = Some s'"
  shows "length (core2node_lookup s') = MAX_NUM_THREADS"
    "\<And>i cpu. \<lbrakk>i < numSockets (tp_counts A); cpu \<in> set (concat (tree_shape A ! i)); active A cpu\<rbrakk> \<Longrightarrow> core2node_lookup s' ! nat cpu = int i"
proof -
  let ?S = "numSockets (tp_counts A)"
  obtain caches total node ds1 lookup where I: "total = 1 + ?S + caches + length (tp_nodeProcessors A)"
    "opt_fold (socket_domain junk A) [0..<?S] ((replicate total None)[0 := Some node], core2node_lookup s) = Some (ds1, lookup)"
    "core2node_lookup s' = lookup"
    by (rule init_cases [OF assms(4,3)]) blast
  have N: "1 + ?S \<le> total" "0 < total" using I(1) by simp_all
  from socket_stage [OF assms(1) le_refl N(1) assms(2), of junk node] I(2,3) slots_one [OF N(2), of node]
  have l: "length (core2node_lookup s') = MAX_NUM_THREADS" "\<forall>i<?S. \<forall>cpu\<in>set (socket_cpus A i). core2node_lookup s' ! nat cpu = int i" by auto
  show "length (core2node_lookup s') = MAX_NUM_THREADS" by (rule l(1))
  fix i cpu
  assume "i < ?S" "cpu \<in> set (concat (tree_shape A ! i))" "active A cpu"
  then show "core2node_lookup s' ! nat cpu = int i"
    using l(2) by (auto simp: socket_cpus_def active_cores_def)
qed

section \<open>Sockets are packages\<close>

abbreviation package :: "HWThread list \<Rightarrow> int \<Rightarrow> nat" where
  "package pool cpu \<equiv> packageId (pool ! nat cpu)"

lemma socket_of_cpu:
  assumes "from_pool A pool lookup lookup'" "pool_regular pool" "length lookup = MAX_NUM_THREADS" "0 \<le> cpu" "nat cpu < length pool"
  obtains i where "i < numSockets (tp_counts A)" "cpu \<in> set (concat (tree_shape A ! i))"
    "\<And>x. \<lbrakk>0 \<le> x; nat x < length pool\<rbrakk> \<Longrightarrow> x \<in> set (concat (tree_shape A ! i)) \<longleftrightarrow> package pool x = package pool cpu"
proof -
  have ap: "\<forall>t\<in>set pool. apicId t < length lookup"
    using pool_thread [OF assms(2)] assms(2,3) by (fastforce simp: pool_regular_def)
  have reg: "regular A" by (rule topology_regular [OF assms(1-3)])
  have id: "int (apicId (pool ! nat x)) = x" if "0 \<le> x" "nat x < length pool" for x
    using assms(2) that by (simp add: pool_regular_def)
  have "cpu \<in> set (machine_leaves A)" unfolding leaves_set [OF assms(1) ap] using id [OF assms(4,5)] assms(5) by (metis image_eqI nth_mem)
  then obtain i where i: "i < length (tree_shape A)" "cpu \<in> set (concat (tree_shape A ! i))"
    by (fastforce simp: machine_leaves_def in_set_conv_nth [of _ "tree_shape A"])
  have S: "length (tree_shape A) = numSockets (tp_counts A)" using reg by (simp add: regular_def tree_ok_def)
  have "i < length (tree_sockets A)" using i(1) by (simp add: tree_shape_def Let_def)
  then obtain p where p: "set (concat (tree_shape A ! i)) = int ` apicId ` {t \<in> set pool. packageId t = p}"
    by (rule shape_leaves [OF assms(1) ap])
  have mem: "x \<in> set (concat (tree_shape A ! i)) \<longleftrightarrow> package pool x = p" if "0 \<le> x" "nat x < length pool" for x
  proof
    assume "x \<in> set (concat (tree_shape A ! i))"
    then obtain t where t: "t \<in> set pool" "packageId t = p" "x = int (apicId t)" unfolding p by blast
    then show "package pool x = p" using pool_thread [OF assms(2) t(1)] by simp
  next
    assume "package pool x = p"
    then show "x \<in> set (concat (tree_shape A ! i))" unfolding p using id [OF that] that(2) by (metis (mono_tags, lifting) image_eqI mem_Collect_eq nth_mem)
  qed
  have "package pool cpu = p" using mem [OF assms(4,5)] i(2) by simp
  then show thesis using that [of i] i mem S by simp
qed

section \<open>Owners\<close>

text \<open>
  Property C12. On a regular machine, after building the topology tree, initializing the affinity domains and
  initializing the threads of a session on processors of the CPU set, every package with a thread has exactly one
  owner of its shared counters: the first thread initialized on the package.
\<close>

theorem one_owner_per_package:
  assumes "from_pool A pool lookup lookup'" "pool_regular pool" "length lookup = MAX_NUM_THREADS" "indices_below MAX_NUM_THREADS lookup"
    and "\<forall>t\<in>set pool. coreId t < MAX_NUM_THREADS" "numSockets (tp_counts A) \<le> MAX_NUM_NODES"
    and "length (core2node_lookup s) = MAX_NUM_THREADS" "\<not> affinity_initialized s" "affinity_init junk A s = Some s'"
    and "\<forall>cpu\<in>set cpus. 0 \<le> cpu \<and> nat cpu < length pool \<and> active A cpu"
    and "affinity_core2node_lookup L = core2node_lookup s'" "affinity_thread2tile_lookup L = lookup'"
  shows "\<exists>L'. amd_init_all f cpus (init_locks L) = Some L' \<and>
    (\<forall>cpu\<in>set cpus. have_socket_lock L' cpu = Some (find (\<lambda>x. package pool x = package pool cpu) cpus = Some cpu))"
proof -
  have reg: "regular A" by (rule topology_regular [OF assms(1-3)])
  note sockets = init_sockets [OF reg assms(7-9)]
  note tiles = from_pool_tiles [OF assms(1,5,4)]
  have small: "length pool \<le> MAX_NUM_THREADS" using assms(2) by (simp add: pool_regular_def)
  have node: "0 \<le> node_of L cpu \<and> node_of L cpu < int MAX_NUM_NODES \<and>
      (\<forall>x\<in>set cpus. node_of L x = node_of L cpu \<longleftrightarrow> package pool x = package pool cpu)" if cpu: "cpu \<in> set cpus" for cpu
  proof -
    have get: "node_of L x = core2node_lookup s' ! nat x" if "x \<in> set cpus" for x
      using assms(10) that sockets(1) small unfolding node_of_def assms(11) by (fastforce simp: arr_get_def)
    have c: "0 \<le> cpu" "nat cpu < length pool" "active A cpu" using assms(10) cpu by auto
    obtain i where i: "i < numSockets (tp_counts A)" "cpu \<in> set (concat (tree_shape A ! i))"
      "\<And>x. \<lbrakk>0 \<le> x; nat x < length pool\<rbrakk> \<Longrightarrow> x \<in> set (concat (tree_shape A ! i)) \<longleftrightarrow> package pool x = package pool cpu"
      by (rule socket_of_cpu [OF assms(1-3) c(1,2)]) blast
    have n: "node_of L cpu = int i" using get [OF cpu] sockets(2) [OF i(1,2) c(3)] by simp
    have "node_of L x = int i \<longleftrightarrow> package pool x = package pool cpu" if x: "x \<in> set cpus" for x
    proof -
      have d: "0 \<le> x" "nat x < length pool" "active A x" using assms(10) x by auto
      obtain j where j: "j < numSockets (tp_counts A)" "x \<in> set (concat (tree_shape A ! j))"
        "\<And>y. \<lbrakk>0 \<le> y; nat y < length pool\<rbrakk> \<Longrightarrow> y \<in> set (concat (tree_shape A ! j)) \<longleftrightarrow> package pool y = package pool x"
        by (rule socket_of_cpu [OF assms(1-3) d(1,2)]) blast
      have "node_of L x = int j" using get [OF x] sockets(2) [OF j(1,2) d(3)] by simp
      moreover have "node_of L x = int i" if "package pool x = package pool cpu"
        using get [OF x] sockets(2) [OF i(1) _ d(3)] i(3) [OF d(1,2)] that by simp
      ultimately show ?thesis using i(3) [OF d(1,2)] j(2) by auto
    qed
    then show ?thesis using n i(1) assms(6) by auto
  qed
  have "placed_cpu L cpu" if cpu: "cpu \<in> set cpus" for cpu
  proof -
    have c: "0 \<le> cpu" "nat cpu < MAX_NUM_THREADS" "cpu < int MAX_NUM_THREADS" using assms(10) cpu small by fastforce+
    have t: "tile_of L cpu = lookup' ! nat cpu" "lookup' ! nat cpu \<in> set lookup'"
      using c tiles assms(3) unfolding tile_of_def assms(12) by (simp_all add: arr_get_def)
    then show ?thesis
      using node [OF cpu] c tiles sockets(1) assms(3) by (auto simp: placed_cpu_def assms(11,12) arr_get_def indices_below_def)
  qed
  then obtain L' where L': "amd_init_all f cpus (init_locks L) = Some L'"
      "\<forall>cpu\<in>set cpus. have_socket_lock L' cpu = Some (find (\<lambda>x. node_of L x = node_of L cpu) cpus = Some cpu)"
    using one_owner_per_socket [of cpus L f] by blast
  have "find (\<lambda>x. node_of L x = node_of L cpu) cpus = find (\<lambda>x. package pool x = package pool cpu) cpus" if "cpu \<in> set cpus" for cpu
    using node [OF that] by (intro find_cong) auto
  then show ?thesis using L' by auto
qed

lemma small_init_all: "affinity_init (\<lambda>_. 0) (small_machine 1 2) fresh_affinity \<noteq> None"
  by code_simp

theorem one_owner_per_package_witness:
  "\<exists>s' tiles L'. affinity_init (\<lambda>_. 0) (small_machine 1 2) fresh_affinity = Some s' \<and>
     amd_init_all Family16 [3, 0, 1] (init_locks \<lparr>socket_lock = [], tile_lock = [],
       affinity_core2node_lookup = core2node_lookup s', affinity_thread2tile_lookup = tiles\<rparr>) = Some L' \<and>
     have_socket_lock L' 3 = Some True \<and> have_socket_lock L' 0 = Some False"
proof -
  obtain s' where s': "affinity_init (\<lambda>_. 0) (small_machine 1 2) fresh_affinity = Some s'" using small_init_all by blast
  obtain tiles where t: "from_pool (small_machine 1 2) (small_pool 1) (replicate MAX_NUM_THREADS 0) tiles"
    using small_counts(2) [of 1 2] by auto
  let ?L = "\<lparr>socket_lock = [], tile_lock = [], affinity_core2node_lookup = core2node_lookup s', affinity_thread2tile_lookup = tiles\<rparr>"
  have cores: "\<forall>t\<in>set (small_pool 1). coreId t < MAX_NUM_THREADS" by (simp add: small_pool_def MAX_NUM_THREADS_def)
  have "\<exists>L'. amd_init_all Family16 [3, 0, 1] (init_locks ?L) = Some L' \<and> (\<forall>cpu\<in>set [3, 0, 1].
      have_socket_lock L' cpu = Some (find (\<lambda>x. package (small_pool 1) x = package (small_pool 1) cpu) [3, 0, 1] = Some cpu))"
    by (rule one_owner_per_package [OF t small_pool_regular _ _ cores _ _ _ s'])
      (simp_all add: indices_below_def MAX_NUM_THREADS_def MAX_NUM_NODES_def small_counts(1) small_active small_pool_def)
  then show ?thesis using s' by (fastforce simp: small_pool_def)
qed

end
