(* ===== verification/Numa.thy ===== *)
theory Numa
  imports BString
begin

text \<open>
  The NUMA nodes, \<open>src/src/numa.c\<close> and \<open>src/src/numa_proc.c\<close> compiled with \<open>HAS_MEMPOLICY\<close>: the nodes are read from
  the files of \<open>/sys/devices/system/node\<close>, which are input. \<open>errno\<close> is part of the state; library calls
  that succeed leave it as it is. Allocation succeeds, fresh memory holds the numbers \<open>junk\<close>.
\<close>

section \<open>Data\<close>

text \<open>A pointer is not initialised, \<open>NULL\<close>, or points to an array.\<close>

datatype 'a pointer = Wild | Null | Block 'a

record NumaNode =
  node_id :: u32
  totalMemory :: u64
  freeMemory :: u64
  numberOfProcessors :: u32
  processors :: "u32 list pointer"
  numberOfDistances :: u32
  distances :: "u32 list pointer"

record numa =
  numa_errno :: int
  numberOfNodes :: u32
  nodes :: "NumaNode list pointer"
  numaInitialized :: bool

text \<open>
  The system: whether \<open>get_mempolicy\<close> is not implemented, the names in the directory of the nodes when it
  can be opened, and of every node the content of its files, or the error number of opening them.
\<close>

record numa_system =
  ns_noMempolicy :: bool
  ns_names :: "string list option"
  ns_meminfo :: "int \<Rightarrow> int + string"
  ns_cpumap :: "int \<Rightarrow> int + string"
  ns_distance :: "int \<Rightarrow> int + string"

section \<open>Numbers\<close>

text \<open>
  \<open>strtoul\<close> in base 16 or 10: the value, whether there was a digit, and \<open>errno\<close>, which is written when the
  number does not fit.
\<close>

definition strtoul :: "bool \<Rightarrow> string \<Rightarrow> int \<Rightarrow> u64 \<times> bool \<times> int" where
  "strtoul hex s e =
     (let t = dropWhile isspace s;
          sign = (case t of [] \<Rightarrow> False | c # _ \<Rightarrow> c = CHR ''-'' \<or> c = CHR ''+'');
          u = (if sign then tl t else t);
          v = (if hex then skip_0x u else u);
          found = (case v of [] \<Rightarrow> False | c # _ \<Rightarrow> if hex then hex_value c \<noteq> None else isdigit c);
          n = (if hex then hex_digits 0 v else nat (digits_value 0 v))
      in if 2 ^ 64 \<le> n then (- 1, True, ERANGE)
         else (if sign \<and> hd t = CHR ''-'' then - of_nat n else of_nat n, found, e))"

definition LONG_MAX :: u64 where
  "LONG_MAX = 2 ^ 63 - 1"

text \<open>\<open>(int) val\<close> keeps the low 32 bits.\<close>

definition str2int :: "string \<Rightarrow> int \<times> int" where
  "str2int str =
     (let (val, found, e) = strtoul False str 0
      in if e = ERANGE \<and> val = LONG_MAX \<or> e \<noteq> 0 \<and> val = 0 then (- EINVAL, e)
         else if \<not> found then (- EINVAL, e)
         else (sint (ucast val :: u32), e))"

section \<open>Reading the files\<close>

fun max_node :: "string list \<Rightarrow> int \<Rightarrow> int \<Rightarrow> int \<times> int" where
  "max_node [] m e = (m, e)"
| "max_node (name # names) m e =
     (if has_prefix ''node'' name
      then (let (nd, e') = str2int (drop 4 name) in max_node names (max m nd) e')
      else max_node names m e)"

definition setConfiguredNodes :: "numa_system \<Rightarrow> int \<Rightarrow> int \<times> int" where
  "setConfiguredNodes N e = (case ns_names N of None \<Rightarrow> (0, e) | Some names \<Rightarrow> max_node names 0 e)"

text \<open>The numbers start at column 18. Without the file the macro \<open>ERROR\<close> ends the process.\<close>

definition meminfo_value :: "string \<Rightarrow> int \<times> int" where
  "meminfo_value line = str2int (hd (bsplit CHR '' '' (dropWhile isspace (drop 18 line))))"

fun meminfo_lines :: "string list \<Rightarrow> u64 \<times> u64 \<times> int \<Rightarrow> u64 \<times> u64 \<times> int" where
  "meminfo_lines [] s = s"
| "meminfo_lines (line # lines) (tot, fre, e) =
     (if binstr line ''MemTotal:''
      then (let (v, e') = meminfo_value line in meminfo_lines lines (of_int v, fre, e'))
      else if binstr line ''MemFree:''
      then (let (v, e') = meminfo_value line in meminfo_lines lines (tot, of_int v, e'))
      else meminfo_lines lines (tot, fre, e))"

definition nodeMeminfo :: "numa_system \<Rightarrow> int \<Rightarrow> u64 \<times> u64 \<times> int \<Rightarrow> (u64 \<times> u64 \<times> int) proc" where
  "nodeMeminfo N node s = (case ns_meminfo N node of
     Inl err \<Rightarrow> Exit 1
   | Inr src \<Rightarrow> Ret (meminfo_lines (bsplit CHR 0x0A src) s))"

text \<open>One word of the map of processors, its bits from the lowest; the first result tells whether they fit.\<close>

fun mask_bits :: "u64 \<Rightarrow> nat \<Rightarrow> nat list \<Rightarrow> u32 list \<times> nat \<Rightarrow> bool \<times> u32 list \<times> nat" where
  "mask_bits val cursor [] s = (True, s)"
| "mask_bits val cursor (j # js) (list, count) =
     (if bit val j
      then (if count < MAX_NUM_THREADS
            then mask_bits val cursor js (list[count := of_nat (j + cursor)], count + 1)
            else (False, list, count))
      else mask_bits val cursor js (list, count))"

fun map_words :: "string list \<Rightarrow> nat \<Rightarrow> u32 list \<times> nat \<Rightarrow> int \<Rightarrow> int \<times> u32 list \<times> int" where
  "map_words [] cursor (list, count) e = (int count, list, e)"
| "map_words (t # ts) cursor (list, count) e =
     (let (val, found, e') = strtoul True t e
      in if e' \<noteq> 0 \<and> (val = LONG_MAX \<or> val = 0) then (- EFAULT, list, e')
         else if \<not> found then (- EFAULT, list, e')
         else if val \<noteq> 0
         then (case mask_bits val cursor [0..<32] (list, count) of
                 (False, list', _) \<Rightarrow> (- EFAULT, list', e')
               | (True, s') \<Rightarrow> map_words ts (cursor + 32) s' e')
         else map_words ts (cursor + 32) (list, count) e')"

definition malloc_u32 :: "(nat \<Rightarrow> u32) \<Rightarrow> nat \<Rightarrow> u32 list" where
  "malloc_u32 junk n = map junk [0..<n]"

definition nodeProcessorList :: "(nat \<Rightarrow> u32) \<Rightarrow> numa_system \<Rightarrow> int \<Rightarrow> int \<Rightarrow> int \<times> u32 list \<times> int" where
  "nodeProcessorList junk N node e =
     (let list = malloc_u32 junk MAX_NUM_THREADS
      in case ns_cpumap N node of
           Inl err \<Rightarrow> (- 1, list, err)
         | Inr src \<Rightarrow> map_words (rev (bsplit CHR '','' src)) 0 (list, 0) e)"

fun distance_entries :: "string list \<Rightarrow> nat \<Rightarrow> u32 list \<Rightarrow> int \<Rightarrow> int \<times> u32 list \<times> int" where
  "distance_entries [] count list e = (int count, list, e)"
| "distance_entries (t # ts) count list e =
     (if count < length list
      then (let (val, _, e') = strtoul False t e in distance_entries ts (count + 1) (list[count := ucast val]) e')
      else (- EFAULT, list, e))"

definition nodeDistanceList :: "(nat \<Rightarrow> u32) \<Rightarrow> numa_system \<Rightarrow> int \<Rightarrow> nat \<Rightarrow> int \<Rightarrow> int \<times> u32 list \<times> int" where
  "nodeDistanceList junk N node n e =
     (let list = malloc_u32 junk n
      in case ns_distance N node of
           Inl err \<Rightarrow> (- 1, list, err)
         | Inr src \<Rightarrow> distance_entries (bsplit CHR '' '' src) 0 list e)"

section \<open>Initialization and finalization\<close>

text \<open>One node; a result that is not 0 ends the loop.\<close>

definition init_node :: "(nat \<Rightarrow> u32) \<Rightarrow> numa_system \<Rightarrow> nat \<Rightarrow> nat \<Rightarrow> NumaNode list \<times> int \<Rightarrow> (int \<times> NumaNode list \<times> int) proc option" where
  "init_node junk N n i = (\<lambda>(ns, e). do {
     nd \<leftarrow> arr_get ns (int i);
     case nodeMeminfo N (int i) (totalMemory nd, freeMemory nd, e) of
       Exit code \<Rightarrow> Some (Exit code)
     | Ret (tot, fre, e1) \<Rightarrow> do {
         let (count, list, e2) = nodeProcessorList junk N (int i) e1;
         let nd1 = nd\<lparr>node_id := of_nat i, totalMemory := tot, freeMemory := fre, numberOfProcessors := of_int count, processors := Block list\<rparr>;
         if numberOfProcessors nd1 = 0 then Some (Ret (- EFAULT, ns[i := nd1], e2))
         else do {
           let (dcount, dlist, e3) = nodeDistanceList junk N (int i) n e2;
           let nd2 = nd1\<lparr>numberOfDistances := of_int dcount, distances := Block dlist\<rparr>;
           if numberOfDistances nd2 = 0 then Some (Ret (- EFAULT, ns[i := nd2], e3)) else Some (Ret (0, ns[i := nd2], e3)) } } })"

fun init_nodes :: "(nat \<Rightarrow> u32) \<Rightarrow> numa_system \<Rightarrow> nat \<Rightarrow> nat list \<Rightarrow> NumaNode list \<times> int \<Rightarrow> (int \<times> NumaNode list \<times> int) proc option" where
  "init_nodes junk N n [] (ns, e) = Some (Ret (0, ns, e))"
| "init_nodes junk N n (i # is) (ns, e) = do {
     r \<leftarrow> init_node junk N n i (ns, e);
     case r of
       Exit code \<Rightarrow> Some (Exit code)
     | Ret (ret, ns', e') \<Rightarrow> if ret \<noteq> 0 then Some (Ret (ret, ns', e')) else init_nodes junk N n is (ns', e') }"

definition wild_node :: "(nat \<Rightarrow> u32) \<Rightarrow> NumaNode" where
  "wild_node junk = \<lparr>node_id = junk 0, totalMemory = ucast (junk 1), freeMemory = ucast (junk 2), numberOfProcessors = junk 3,
     processors = Wild, numberOfDistances = junk 4, distances = Wild\<rparr>"

definition proc_numa_init :: "(nat \<Rightarrow> u32) \<Rightarrow> numa_system \<Rightarrow> numa \<Rightarrow> (int \<times> numa) proc option" where
  "proc_numa_init junk N s =
     (if ns_noMempolicy N then Some (Ret (- 1, s\<lparr>numa_errno := ENOSYS, numberOfNodes := 0, nodes := Null\<rparr>))
      else do {
        let (m, e) = setConfiguredNodes N (numa_errno s);
        let n = unat (of_int (m + 1) :: u32);
        r \<leftarrow> init_nodes junk N n [0..<n] (replicate n (wild_node junk), e);
        Some (case r of
          Exit code \<Rightarrow> Exit code
        | Ret (ret, ns, e') \<Rightarrow> Ret (ret, s\<lparr>numa_errno := e', numberOfNodes := of_nat n, nodes := Block ns\<rparr>)) })"

text \<open>
  With a readable configuration file the nodes are those of the topology file. The kernel interface is read when
  the process is restricted to a CPU set, otherwise \<open>hwloc\<close> (\<open>other\<close>) where it is compiled in.
\<close>

definition numa_init ::
  "(nat \<Rightarrow> u32) \<Rightarrow> numa_system \<Rightarrow> (numa \<Rightarrow> (int \<times> numa) proc option) \<Rightarrow> string option \<Rightarrow> bool \<Rightarrow> nat \<Rightarrow> nat \<Rightarrow> numa \<Rightarrow> (int \<times> numa) proc option" where
  "numa_init junk N other topologyCfgFileName readable activeHWThreads numHWThreads s =
     (if numaInitialized s then Some (Ret (0, s))
      else do {
        r \<leftarrow> (if topologyCfgFileName = None \<or> \<not> readable \<and> numberOfNodes s = 0
          then (if activeHWThreads < numHWThreads then proc_numa_init junk N s else other s)
          else Some (Ret (0, s)));
        Some (case r of Exit code \<Rightarrow> Exit code | Ret (ret, s') \<Rightarrow> Ret (ret, s'\<lparr>numaInitialized := True\<rparr>)) })"

definition free_pointer :: "'a pointer \<Rightarrow> unit option" where
  "free_pointer p = (case p of Wild \<Rightarrow> None | _ \<Rightarrow> Some ())"

fun free_nodes :: "nat \<Rightarrow> NumaNode list \<Rightarrow> unit option" where
  "free_nodes 0 ns = Some ()"
| "free_nodes (Suc n) [] = None"
| "free_nodes (Suc n) (nd # ns) = do { free_pointer (processors nd); free_pointer (distances nd); free_nodes n ns }"

text \<open>The pointer to the nodes is kept, and dangles.\<close>

definition numa_finalize :: "numa \<Rightarrow> numa option" where
  "numa_finalize s =
     (if \<not> numaInitialized s then Some s
      else do {
        (case nodes s of
           Block ns \<Rightarrow> free_nodes (unat (numberOfNodes s)) ns
         | p \<Rightarrow> if numberOfNodes s = 0 then free_pointer p else None);
        Some (s\<lparr>numberOfNodes := 0, nodes := (if nodes s = Null then Null else Wild), numaInitialized := False\<rparr>) })"

definition likwid_getNumberOfNodes :: "numa \<Rightarrow> int" where
  "likwid_getNumberOfNodes s = (if numaInitialized s then sint (numberOfNodes s) else 0)"

section \<open>Memory policies\<close>

fun find_processor :: "u32 list \<Rightarrow> nat \<Rightarrow> u32 \<Rightarrow> bool option" where
  "find_processor list 0 coreId = Some False"
| "find_processor [] (Suc n) coreId = None"
| "find_processor (x # list) (Suc n) coreId = (if x = coreId then Some True else find_processor list n coreId)"

definition proc_findProcessor :: "numa \<Rightarrow> u32 \<Rightarrow> u32 \<Rightarrow> bool option" where
  "proc_findProcessor s nodeId coreId = (case nodes s of
     Block ns \<Rightarrow> do {
       nd \<leftarrow> arr_get ns (int (unat nodeId));
       if numberOfProcessors nd = 0 then Some False
       else (case processors nd of Block list \<Rightarrow> find_processor list (unat (numberOfProcessors nd)) coreId | _ \<Rightarrow> None) }
   | _ \<Rightarrow> None)"

fun node_has_any :: "numa \<Rightarrow> nat \<Rightarrow> int list \<Rightarrow> bool option" where
  "node_has_any s i [] = Some False"
| "node_has_any s i (c # cs) = do {
     found \<leftarrow> proc_findProcessor s (of_nat i) (of_int c);
     if found then Some True else node_has_any s i cs }"

fun interleave_mask :: "numa \<Rightarrow> int list \<Rightarrow> nat list \<Rightarrow> u64 \<Rightarrow> u64 option" where
  "interleave_mask s cpus [] m = Some m"
| "interleave_mask s cpus (i # is) m = do {
     found \<leftarrow> node_has_any s i cpus;
     m' \<leftarrow> (if found then if i < 64 then Some (m OR push_bit i 1) else None else Some m);
     interleave_mask s cpus is m' }"

text \<open>The masks that are given to \<open>set_mempolicy\<close> and \<open>mbind\<close>; a call that fails ends the process.\<close>

definition proc_numa_setInterleaved :: "numa \<Rightarrow> int list \<Rightarrow> u64 option" where
  "proc_numa_setInterleaved s processorList = interleave_mask s processorList [0..<unat (numberOfNodes s)] 0"

definition proc_numa_membind :: "int \<Rightarrow> u64 option" where
  "proc_numa_membind domainId = (if 0 \<le> domainId \<and> domainId < 64 then Some (push_bit (nat domainId) 1) else None)"

end
