(* ===== verification/Numa_Files.thy ===== *)
theory Numa_Files
  imports Numa
begin

text \<open>
  The files of the kernel about NUMA nodes as it writes them, and that reading them gives back what was written:
  maps of processors in groups of 32 bits, lists of distances, and the memory of a node.
\<close>

section \<open>Joining and splitting\<close>

fun join :: "char \<Rightarrow> string list \<Rightarrow> string" where
  "join c [] = []"
| "join c [t] = t"
| "join c (t # u # ts) = t @ c # join c (u # ts)"

lemma bsplit_append: "c \<notin> set xs \<Longrightarrow> bsplit c (xs @ c # ys) = xs # bsplit c ys"
  by (induction xs) auto

lemma bsplit_join: "\<lbrakk>ts \<noteq> []; \<forall>t\<in>set ts. c \<notin> set t\<rbrakk> \<Longrightarrow> bsplit c (join c ts) = ts"
  by (induction c ts rule: join.induct) (simp_all add: bsplit_one bsplit_append)

lemma join_snoc: "join c (ts @ [t]) @ s = join c (ts @ [t @ s])"
  by (induction c ts rule: join.induct) auto

section \<open>Hexadecimal numbers\<close>

text \<open>The conversion \<open>%0kx\<close> of a number that fits.\<close>

fun hex_string :: "nat \<Rightarrow> nat \<Rightarrow> string" where
  "hex_string 0 n = []"
| "hex_string (Suc k) n = hex_string k (n div 16) @ [hex_digit (n mod 16)]"

lemma hex_digit_facts:
  assumes "d < 16"
  shows "hex_value (hex_digit d) = Some d" "\<not> isspace (hex_digit d)" "hex_digit d \<notin> {CHR ''-'', CHR ''+'', CHR 0x2C, CHR 0x0A}"
    "tolower (hex_digit d) \<noteq> CHR ''x''"
proof -
  have v: "(of_char (hex_digit d) :: nat) = (if d < 10 then 48 + d else 87 + d)" using assms by (simp add: hex_digit_def)
  have ne: "hex_digit d \<noteq> c" if "(of_char c :: nat) < 48 \<or> of_char c = (120 :: nat)" for c
    using that v assms by (auto split: if_splits)
  show "hex_value (hex_digit d) = Some d" "\<not> isspace (hex_digit d)"
    using assms ne [of "CHR '' ''"] by (auto simp: hex_value_def isspace_def v Let_def)
  show "hex_digit d \<notin> {CHR ''-'', CHR ''+'', CHR 0x2C, CHR 0x0A}" using ne by simp
  have "tolower (hex_digit d) = hex_digit d" using assms by (simp add: tolower_def v)
  then show "tolower (hex_digit d) \<noteq> CHR ''x''" using ne [of "CHR ''x''"] by simp
qed

lemma hex_string_set: "c \<in> set (hex_string k n) \<Longrightarrow> \<exists>d<16. c = hex_digit d"
proof (induction k arbitrary: n)
  case (Suc k)
  have "\<exists>d<16. hex_digit (n mod 16) = hex_digit d" by (intro exI [of _ "n mod 16"]) simp
  then show ?case using Suc by auto
qed simp

lemma hex_string_Cons: "0 < k \<Longrightarrow> \<exists>d cs. d < 16 \<and> hex_string k n = hex_digit d # cs"
proof -
  assume "0 < k"
  then have "hex_string k n \<noteq> []" by (cases k) auto
  then show ?thesis using hex_string_set [of "hd (hex_string k n)" k n] by (metis list.collapse list.set_sel(1))
qed

lemma hex_digits_string: "n < 16 ^ k \<Longrightarrow> hex_digits acc (hex_string k n @ rest) = hex_digits (acc * 16 ^ k + n) rest"
proof (induction k arbitrary: n rest)
  case (Suc k)
  have "n div 16 < 16 ^ k" using Suc.prems by (simp add: less_mult_imp_div_less mult.commute)
  then have "hex_digits acc (hex_string (Suc k) n @ rest) = hex_digits (acc * 16 ^ k + n div 16) (hex_digit (n mod 16) # rest)"
    using Suc.IH [of "n div 16" "hex_digit (n mod 16) # rest"] by simp
  also have "\<dots> = hex_digits (acc * 16 ^ Suc k + n) rest"
    by (simp add: hex_digit_facts(1) algebra_simps)
  finally show ?case .
qed simp

lemma skip_0x_none: "\<forall>x\<in>set s. tolower x \<noteq> CHR ''x'' \<Longrightarrow> skip_0x s = s"
  by (auto simp: skip_0x_def split: list.split)

lemma strtoul_hex:
  assumes "n < 16 ^ k" "0 < k" "k \<le> 8" "rest = [] \<or> rest = [CHR 0x0A]"
  shows "strtoul True (hex_string k n @ rest) e = (of_nat n, True, e)"
proof -
  obtain d cs where d: "d < 16" "hex_string k n = hex_digit d # cs" using hex_string_Cons [OF assms(2)] by blast
  have "tolower x \<noteq> CHR ''x''" if "x \<in> set (hex_string k n @ rest)" for x
  proof (cases "x \<in> set (hex_string k n)")
    case True
    then show ?thesis using hex_string_set hex_digit_facts(4) by blast
  next
    case False
    then have "x = CHR 0x0A" using that assms(4) by auto
    then show ?thesis by (simp add: tolower_def)
  qed
  then have s: "skip_0x (hex_digit d # cs @ rest) = hex_digit d # cs @ rest" using skip_0x_none d(2) by simp
  have "hex_digits n rest = n" using assms(4) by (auto simp: hex_value_def)
  then have v: "hex_digits 0 (hex_digit d # cs @ rest) = n" using hex_digits_string [OF assms(1), of 0 rest] d(2) by simp
  have "n < 2 ^ 64"
  proof -
    have "(16 :: nat) ^ k \<le> 16 ^ 8" using assms(3) by (intro power_increasing) auto
    then show ?thesis using assms(1) by simp
  qed
  then show ?thesis
    using hex_digit_facts [OF d(1)] d(2) by (simp add: strtoul_def Let_def s v del: hex_digits.simps)
qed

section \<open>Decimal numbers\<close>

lemma dec_string_Cons: "\<exists>c cs. dec_string n = c # cs \<and> isdigit c"
proof -
  have "dec_string n \<noteq> []" by (subst dec_string.simps) simp
  then obtain c cs where "dec_string n = c # cs" by (cases "dec_string n") auto
  then show ?thesis using dec_string_digit [of c n] by (auto simp: isdigit_def)
qed

lemma digits_dec: "digits_value 0 (dec_string n @ rest) = digits_value (int n) rest"
proof (induction n arbitrary: rest rule: dec_string.induct)
  case (1 n)
  have digit: "isdigit (char_of (48 + m))" "of_char (char_of (48 + m) :: char) - (48 :: int) = int m" if "m < 10" for m :: nat
  proof -
    have "list_all (\<lambda>m. isdigit (char_of (48 + m)) \<and> of_char (char_of (48 + m) :: char) - (48 :: int) = int m) [0..<10]"
      by code_simp
    then show "isdigit (char_of (48 + m))" "of_char (char_of (48 + m) :: char) - (48 :: int) = int m"
      using that by (simp_all add: list_all_iff)
  qed
  show ?case
  proof (cases "n < 10")
    case True
    then show ?thesis using digit [OF True] by (subst dec_string.simps) simp
  next
    case False
    then have "digits_value 0 (dec_string n @ rest) = digits_value (int (n div 10)) (char_of (48 + n mod 10) # rest)"
      using 1 [OF False, of "char_of (48 + n mod 10) # rest"] by (subst dec_string.simps) simp
    also have "\<dots> = digits_value (int n) rest"
      using digit [of "n mod 10"] by (simp add: zdiv_int zmod_int)
    finally show ?thesis .
  qed
qed

lemma digit_not: "isdigit c \<Longrightarrow> \<not> isspace c \<and> c \<noteq> CHR ''-'' \<and> c \<noteq> CHR ''+''"
  by (auto simp: isdigit_def isspace_def)

lemma dropWhile_replicate: "\<lbrakk>P x; xs = [] \<or> \<not> P (hd xs)\<rbrakk> \<Longrightarrow> dropWhile P (replicate k x @ xs) = xs"
  by (induction k; cases xs) auto

lemma strtoul_dec:
  assumes "n < 2 ^ 64" "rest = [] \<or> \<not> isdigit (hd rest)"
  shows "strtoul False (dec_string n @ rest) e = (of_nat n, True, e)"
proof -
  obtain c cs where c: "dec_string n = c # cs" "isdigit c" using dec_string_Cons by blast
  have "digits_value (int n) rest = int n" using assms(2) by (cases rest) auto
  then have "digits_value 0 (c # cs @ rest) = int n" using digits_dec [of n rest] c(1) by simp
  then show ?thesis
    using digit_not [OF c(2)] c assms(1) by (simp add: strtoul_def Let_def del: digits_value.simps)
qed

lemma ucast_of_nat: "n < 2 ^ 64 \<Longrightarrow> ucast (of_nat n :: u64) = (of_nat n :: u32)"
  by (simp add: unsigned_of_nat take_bit_nat_eq_self)

lemma str2int_dec:
  assumes "n < 2 ^ 31" "rest = [] \<or> \<not> isdigit (hd rest)"
  shows "str2int (dec_string n @ rest) = (int n, 0)"
proof -
  have "sint (of_nat n :: u32) = int n" using assms(1) by (simp add: signed_of_nat signed_take_bit_int_eq_self)
  moreover have n: "n < 2 ^ 64" using assms(1) by simp
  ultimately show ?thesis using strtoul_dec [OF n assms(2), of 0] ucast_of_nat [OF n] by (simp add: str2int_def)
qed

section \<open>Maps of processors\<close>

text \<open>
  The map of the processors \<open>c < nbits\<close> with \<open>P c\<close>: words of 32 bits, the highest first and only as wide as it has
  to be, separated by commas.
\<close>

definition map_width :: "nat \<Rightarrow> nat \<Rightarrow> nat" where
  "map_width nbits i = min 32 (nbits - 32 * i)"

definition map_chunk :: "(nat \<Rightarrow> bool) \<Rightarrow> nat \<Rightarrow> nat \<Rightarrow> nat" where
  "map_chunk P nbits i = horner_sum of_bool 2 (map (\<lambda>j. P (32 * i + j)) [0..<map_width nbits i])"

definition map_word :: "(nat \<Rightarrow> bool) \<Rightarrow> nat \<Rightarrow> nat \<Rightarrow> string" where
  "map_word P nbits i = hex_string ((map_width nbits i + 3) div 4) (map_chunk P nbits i)"

definition cpumap_text :: "(nat \<Rightarrow> bool) \<Rightarrow> nat \<Rightarrow> string" where
  "cpumap_text P nbits = join CHR 0x2C (map (map_word P nbits) (rev [0..<(nbits + 31) div 32])) @ [CHR 0x0A]"

text \<open>The processors below the \<open>k\<close>-th word.\<close>

definition cpus_below :: "(nat \<Rightarrow> bool) \<Rightarrow> nat \<Rightarrow> nat \<Rightarrow> nat list" where
  "cpus_below P nbits k = filter P [0..<min (32 * k) nbits]"

lemma cpus_below_Suc:
  assumes "32 * k < nbits"
  shows "cpus_below P nbits (Suc k) = cpus_below P nbits k @ filter P [32 * k..<32 * k + map_width nbits k]"
proof -
  have "[0..<min (32 * Suc k) nbits] = [0..<32 * k] @ [32 * k..<32 * k + map_width nbits k]"
  proof -
    have "min (32 * Suc k) nbits = 32 * k + map_width nbits k" using assms by (auto simp: map_width_def min_def)
    then show ?thesis using upt_add_eq_append [of 0 "32 * k" "map_width nbits k"] by simp
  qed
  then show ?thesis using assms by (simp add: cpus_below_def min.absorb1)
qed

lemma bit_chunk: "bit (of_nat (map_chunk P nbits k) :: u64) j \<longleftrightarrow> j < map_width nbits k \<and> P (32 * k + j)"
proof -
  have "map_width nbits k \<le> 32" by (simp add: map_width_def)
  then show ?thesis by (auto simp: bit_of_nat_iff map_chunk_def bit_horner_sum_bit_iff)
qed

lemma chunk_filter:
  "map (\<lambda>j. j + 32 * k) (filter (bit (of_nat (map_chunk P nbits k) :: u64)) [0..<32]) = filter P [32 * k..<32 * k + map_width nbits k]"
proof -
  let ?m = "map_width nbits k"
  have m: "?m \<le> 32" by (simp add: map_width_def)
  have "[0..<32] = [0..<?m] @ [?m..<32]" using upt_add_eq_append [of 0 ?m "32 - ?m"] m by simp
  then have "filter (bit (of_nat (map_chunk P nbits k) :: u64)) [0..<32] = filter (\<lambda>j. P (32 * k + j)) [0..<?m]"
    by (simp add: bit_chunk) (rule filter_cong; simp add: bit_chunk)
  moreover have "[32 * k..<32 * k + ?m] = map (\<lambda>j. j + 32 * k) [0..<?m]" by (simp add: map_add_upt add.commute)
  ultimately show ?thesis by (simp add: filter_map comp_def add.commute)
qed

lemma mask_bits_fits:
  assumes "length list = MAX_NUM_THREADS" "count + length (filter (bit val) js) \<le> MAX_NUM_THREADS"
  shows "\<exists>list'. mask_bits val cursor js (list, count) = (True, list', count + length (filter (bit val) js)) \<and>
    length list' = MAX_NUM_THREADS \<and>
    take (count + length (filter (bit val) js)) list' = take count list @ map of_nat (map (\<lambda>j. j + cursor) (filter (bit val) js))"
  using assms
proof (induction js arbitrary: list count)
  case (Cons j js)
  show ?case
  proof (cases "bit val j")
    case True
    let ?l = "list[count := of_nat (j + cursor)]"
    have c: "count < MAX_NUM_THREADS" using Cons.prems True by simp
    then have "take (count + 1) ?l = take count list @ [of_nat (j + cursor)]"
      using Cons.prems(1) by (simp add: take_Suc_conv_app_nth)
    then show ?thesis using Cons.IH [of ?l "count + 1"] Cons.prems True c by auto
  next
    case False
    then show ?thesis using Cons by simp
  qed
qed simp

lemma mask_bits_full:
  "\<lbrakk>count \<le> MAX_NUM_THREADS; MAX_NUM_THREADS < count + length (filter (bit val) js)\<rbrakk> \<Longrightarrow>
     \<exists>list'. fst (mask_bits val cursor js (list, count)) = False \<and> fst (snd (mask_bits val cursor js (list, count))) = list' \<and>
       length list' = length list"
proof (induction js arbitrary: list count)
  case (Cons j js)
  then show ?case by (cases "bit val j"; cases "count < MAX_NUM_THREADS") auto
qed simp

lemma map_word_value:
  assumes "32 * i < nbits" "rest = [] \<or> rest = [CHR 0x0A]"
  shows "strtoul True (map_word P nbits i @ rest) e = (of_nat (map_chunk P nbits i), True, e)"
proof -
  let ?m = "map_width nbits i"
  have m: "0 < ?m" "?m \<le> 32" using assms(1) by (auto simp: map_width_def)
  have "map_chunk P nbits i < 2 ^ ?m"
    using horner_sum_of_bool_2_less [of "map (\<lambda>j. P (32 * i + j)) [0..<?m]", where ?'a = nat] by (simp add: map_chunk_def)
  also have "(2 :: nat) ^ ?m \<le> 2 ^ (4 * ((?m + 3) div 4))" by (intro power_increasing) auto
  finally have "map_chunk P nbits i < 16 ^ ((?m + 3) div 4)" by (simp add: power_mult)
  then show ?thesis unfolding map_word_def using assms(2) m by (intro strtoul_hex) auto
qed

text \<open>The words from the \<open>k\<close>-th one on, when the list already has the processors below it.\<close>

definition map_tokens :: "(nat \<Rightarrow> bool) \<Rightarrow> nat \<Rightarrow> string \<Rightarrow> nat list \<Rightarrow> string list" where
  "map_tokens P nbits rest ks = map (\<lambda>i. map_word P nbits i @ (if i = 0 then rest else [])) ks"

definition filled :: "u32 list \<Rightarrow> nat list \<Rightarrow> bool" where
  "filled list cpus \<longleftrightarrow> length list = MAX_NUM_THREADS \<and> length cpus \<le> MAX_NUM_THREADS \<and> take (length cpus) list = map of_nat cpus"

lemma map_step:
  assumes "32 * k < nbits" "rest = [] \<or> rest = [CHR 0x0A]" "filled list (cpus_below P nbits k)"
  shows "length (cpus_below P nbits (Suc k)) \<le> MAX_NUM_THREADS \<Longrightarrow>
      \<exists>list'. map_words (map_tokens P nbits rest (k # ks)) (32 * k) (list, length (cpus_below P nbits k)) 0 =
        map_words (map_tokens P nbits rest ks) (32 * Suc k) (list', length (cpus_below P nbits (Suc k))) 0 \<and> filled list' (cpus_below P nbits (Suc k))"
    and "MAX_NUM_THREADS < length (cpus_below P nbits (Suc k)) \<Longrightarrow>
      \<exists>list'. map_words (map_tokens P nbits rest (k # ks)) (32 * k) (list, length (cpus_below P nbits k)) 0 = (- EFAULT, list', 0) \<and>
        length list' = MAX_NUM_THREADS"
proof -
  let ?v = "of_nat (map_chunk P nbits k) :: u64"
  let ?new = "filter (bit ?v) [0..<32]"
  note F = assms(3) [unfolded filled_def]
  have tok: "strtoul True (map_word P nbits k @ (if k = 0 then rest else [])) 0 = (?v, True, 0)"
    by (rule map_word_value [OF assms(1)]) (use assms(2) in auto)
  have app: "cpus_below P nbits (Suc k) = cpus_below P nbits k @ map (\<lambda>j. j + 32 * k) ?new"
    unfolding chunk_filter by (rule cpus_below_Suc [OF assms(1)])
  then have len: "length (cpus_below P nbits (Suc k)) = length (cpus_below P nbits k) + length ?new" by simp
  have none: "?new = []" if "?v = 0" using that by simp
  show "\<exists>list'. map_words (map_tokens P nbits rest (k # ks)) (32 * k) (list, length (cpus_below P nbits k)) 0 =
        map_words (map_tokens P nbits rest ks) (32 * Suc k) (list', length (cpus_below P nbits (Suc k))) 0 \<and> filled list' (cpus_below P nbits (Suc k))"
    if fits: "length (cpus_below P nbits (Suc k)) \<le> MAX_NUM_THREADS"
  proof -
    obtain list' where l: "mask_bits ?v (32 * k) [0..<32] (list, length (cpus_below P nbits k)) = (True, list', length (cpus_below P nbits k) + length ?new)"
        "length list' = MAX_NUM_THREADS" "take (length (cpus_below P nbits k) + length ?new) list' =
          take (length (cpus_below P nbits k)) list @ map of_nat (map (\<lambda>j. j + 32 * k) ?new)"
      using mask_bits_fits [of list "length (cpus_below P nbits k)" ?v "[0..<32]" "32 * k"] F fits unfolding len by blast
    have "take (length (cpus_below P nbits (Suc k))) list' = map of_nat (cpus_below P nbits (Suc k))"
      unfolding len l(3) by (simp only: F app map_append)
    then have l': "filled list' (cpus_below P nbits (Suc k))" using l(2) fits by (simp add: filled_def)
    show ?thesis
    proof (cases "?v = 0")
      case True
      then show ?thesis using none app assms(3) tok by (intro exI [of _ list]) (simp add: map_tokens_def add.commute)
    next
      case False
      then show ?thesis using tok l(1) l' by (intro exI [of _ list']) (simp add: map_tokens_def len add.commute)
    qed
  qed
  show "\<exists>list'. map_words (map_tokens P nbits rest (k # ks)) (32 * k) (list, length (cpus_below P nbits k)) 0 = (- EFAULT, list', 0) \<and>
        length list' = MAX_NUM_THREADS"
    if over: "MAX_NUM_THREADS < length (cpus_below P nbits (Suc k))"
  proof -
    have "?v \<noteq> 0" using none over len F by auto
    moreover obtain b list' n where m: "mask_bits ?v (32 * k) [0..<32] (list, length (cpus_below P nbits k)) = (b, list', n)"
      by (metis prod.exhaust)
    moreover have "\<not> b \<and> length list' = MAX_NUM_THREADS"
      using mask_bits_full [of "length (cpus_below P nbits k)" ?v "[0..<32]" "32 * k" list] F over unfolding len m by auto
    ultimately show ?thesis using tok by (simp add: map_tokens_def)
  qed
qed

lemma cpus_below_mono: "i \<le> j \<Longrightarrow> length (cpus_below P nbits i) \<le> length (cpus_below P nbits j)"
proof -
  assume "i \<le> j"
  then have "[0..<min (32 * j) nbits] = [0..<min (32 * i) nbits] @ [min (32 * i) nbits..<min (32 * j) nbits]"
    using upt_add_eq_append [of 0 "min (32 * i) nbits" "min (32 * j) nbits - min (32 * i) nbits"] by (auto simp: min_def)
  then show ?thesis by (simp add: cpus_below_def)
qed

lemma map_words_read:
  assumes "rest = [] \<or> rest = [CHR 0x0A]" "32 * (k + n) < nbits + 32" "filled list (cpus_below P nbits k)"
  shows "\<exists>list'. map_words (map_tokens P nbits rest [k..<k + n]) (32 * k) (list, length (cpus_below P nbits k)) 0 =
      (if length (cpus_below P nbits (k + n)) \<le> MAX_NUM_THREADS then int (length (cpus_below P nbits (k + n))) else - EFAULT, list', 0) \<and>
    length list' = MAX_NUM_THREADS \<and> (length (cpus_below P nbits (k + n)) \<le> MAX_NUM_THREADS \<longrightarrow> filled list' (cpus_below P nbits (k + n)))"
  using assms(2,3)
proof (induction n arbitrary: k list)
  case 0
  then show ?case by (simp add: map_tokens_def filled_def)
next
  case (Suc n)
  have k: "32 * k < nbits" using Suc.prems(1) by simp
  have u: "[k..<k + Suc n] = k # [Suc k..<Suc k + n]" by (simp add: upt_conv_Cons del: upt_Suc)
  note step = map_step [OF k assms(1) Suc.prems(2), where ks = "[Suc k..<Suc k + n]", folded u]
  have mono: "length (cpus_below P nbits (Suc k)) \<le> length (cpus_below P nbits (k + Suc n))" by (rule cpus_below_mono) simp
  show ?case
  proof (cases "length (cpus_below P nbits (Suc k)) \<le> MAX_NUM_THREADS")
    case True
    from step(1) [OF this] obtain list1 where l: "map_words (map_tokens P nbits rest [k..<k + Suc n]) (32 * k) (list, length (cpus_below P nbits k)) 0 =
        map_words (map_tokens P nbits rest [Suc k..<Suc k + n]) (32 * Suc k) (list1, length (cpus_below P nbits (Suc k))) 0"
        "filled list1 (cpus_below P nbits (Suc k))" by blast
    from Suc.IH [OF _ l(2)] Suc.prems(1) show ?thesis unfolding l(1) add_Suc_shift by simp
  next
    case False
    then show ?thesis using step(2) mono by fastforce
  qed
qed

text \<open>What reading a map of the kernel gives.\<close>

lemma nodeProcessorList_map:
  assumes "ns_cpumap N node = Inr (cpumap_text P nbits)" "0 < nbits"
  shows "\<exists>list. nodeProcessorList junk N node 0 = (if length (filter P [0..<nbits]) \<le> MAX_NUM_THREADS then int (length (filter P [0..<nbits])) else - EFAULT, list, 0) \<and>
    length list = MAX_NUM_THREADS \<and> (length (filter P [0..<nbits]) \<le> MAX_NUM_THREADS \<longrightarrow> filled list (filter P [0..<nbits]))"
proof -
  define w where "w = (nbits + 31) div 32"
  have w: "0 < w" "32 * w < nbits + 32" "nbits \<le> 32 * w" using assms(2) unfolding w_def by linarith+
  obtain w' where w': "w = Suc w'" using w(1) by (cases w) auto
  let ?tok = "map_tokens P nbits [CHR 0x0A] [0..<w]"
  have m: "cpumap_text P nbits = join CHR 0x2C (rev ?tok)"
  proof -
    have "[0..<w] = 0 # [1..<w]" using w(1) by (simp add: upt_conv_Cons)
    moreover have "map (\<lambda>i. map_word P nbits i @ (if i = 0 then [CHR 0x0A] else [])) [Suc 0..<w] = map (map_word P nbits) [Suc 0..<w]"
      by (rule map_cong) auto
    ultimately show ?thesis
      by (simp only: cpumap_text_def map_tokens_def w_def [symmetric] rev_map map_append list.map rev.simps One_nat_def join_snoc simp_thms if_True)
  qed
  have comma: "CHR 0x2C \<notin> set t" if t: "t \<in> set ?tok" for t
  proof -
    obtain i where t: "t = map_word P nbits i @ (if i = 0 then [CHR 0x0A] else [])" using t by (auto simp: map_tokens_def)
    have "CHR 0x2C \<notin> set (map_word P nbits i)"
      using hex_string_set hex_digit_facts(3) by (fastforce simp: map_word_def)
    then show ?thesis using t by simp
  qed
  have split: "rev (bsplit CHR 0x2C (cpumap_text P nbits)) = ?tok"
    unfolding m using comma w' by (subst bsplit_join) (simp_all add: map_tokens_def)
  have all: "cpus_below P nbits w = filter P [0..<nbits]" using w(3) by (simp add: cpus_below_def)
  have e: "filled (malloc_u32 junk MAX_NUM_THREADS) (cpus_below P nbits 0)" by (simp add: filled_def cpus_below_def malloc_u32_def)
  have z: "length (cpus_below P nbits 0) = 0" by (simp add: cpus_below_def)
  from map_words_read [of "[CHR 0x0A]" 0 w nbits _ P, OF _ _ e, unfolded add_0 all z mult_0_right] w(2)
  show ?thesis by (simp add: nodeProcessorList_def assms(1) split)
qed

end
