(* ===== verification/Numa_Properties.thy ===== *)
theory Numa_Properties
  imports Numa_Files
begin

text \<open>
  Reading the NUMA nodes of a machine: with the files that the kernel writes, the nodes, their processors, memory and
  distances are what the kernel has; interleaving selects the nodes of the given processors; and the machines
  for which the initialization fails or is undefined.
\<close>

section \<open>The memory and the distances of a node\<close>

record node_data =
  nd_cpus :: "nat \<Rightarrow> bool"
  nd_total :: nat
  nd_free :: nat
  nd_distances :: "nat list"
  nd_lines :: "string list"

definition memory_line :: "nat \<Rightarrow> string \<Rightarrow> nat \<Rightarrow> nat \<Rightarrow> string" where
  "memory_line i label spaces n =
     ''Node '' @ dec_string i @ CHR '' '' # label @ replicate (spaces + (8 - length (dec_string n))) CHR '' '' @ dec_string n @ '' kB''"

definition meminfo_text :: "nat \<Rightarrow> node_data \<Rightarrow> string" where
  "meminfo_text i D = join CHR 0x0A (memory_line i ''MemTotal:'' 7 (nd_total D) # memory_line i ''MemFree:'' 8 (nd_free D) # nd_lines D)"

definition distance_text :: "node_data \<Rightarrow> string" where
  "distance_text D = join CHR '' '' (map dec_string (nd_distances D)) @ [CHR 0x0A]"

lemma binstr_set: "binstr s pat \<Longrightarrow> set pat \<subseteq> set s"
proof (induction s)
  case (Cons x s)
  have prefix: "has_prefix p t \<Longrightarrow> set p \<subseteq> set t" for p t by (induction p t rule: has_prefix.induct) auto
  from Cons show ?case using prefix [of pat "x # s"] by auto
qed simp

lemma binstr_append: "binstr (xs @ pat @ ys) pat"
proof (induction xs)
  case Nil
  have "has_prefix pat (pat @ ys)" by (induction pat) auto
  then show ?case by (cases "pat @ ys") auto
qed simp

lemma dec_string_chars: "c \<in> set (dec_string n) \<Longrightarrow> isdigit c"
  using dec_string_digit by (auto simp: isdigit_def)

lemma memory_line_facts:
  shows "binstr (memory_line i label k n) label"
    and "\<lbrakk>c \<in> set (memory_line i label k n); \<not> isdigit c\<rbrakk> \<Longrightarrow> c \<in> set label \<union> set ''Node kB''"
proof -
  have "memory_line i label k n = (''Node '' @ dec_string i @ '' '') @ label @ replicate (k + (8 - length (dec_string n))) CHR '' '' @ dec_string n @ '' kB''"
    by (simp add: memory_line_def)
  then show "binstr (memory_line i label k n) label" by (simp only: binstr_append)
  show "\<lbrakk>c \<in> set (memory_line i label k n); \<not> isdigit c\<rbrakk> \<Longrightarrow> c \<in> set label \<union> set ''Node kB''"
    by (auto simp: memory_line_def dest: dec_string_chars split: if_splits)
qed

lemma bsplit_dec: "bsplit CHR '' '' (dec_string n @ '' kB'') = [dec_string n, ''kB'']"
proof -
  have "CHR '' '' \<notin> set (dec_string n)" using dec_string_chars [of "CHR '' ''" n] by (auto simp: isdigit_def)
  then show ?thesis by (simp add: bsplit_append)
qed

lemma meminfo_value_line:
  assumes "n < 2 ^ 31" "length (dec_string i) + length label \<le> 12" "12 \<le> length label + k"
  shows "meminfo_value (memory_line i label k n) = (int n, 0)"
proof -
  obtain c cs where c: "dec_string n = c # cs" "isdigit c" using dec_string_Cons by blast
  have "drop 18 (memory_line i label k n) =
      replicate (k + (8 - length (dec_string n)) - (12 - (length (dec_string i) + length label))) CHR '' '' @ dec_string n @ '' kB''"
  proof -
    define m where "m = k + (8 - length (dec_string n))"
    define pre where "pre = ''Node '' @ dec_string i @ CHR '' '' # label"
    have l: "length pre \<le> 18" "18 - length pre = 12 - (length (dec_string i) + length label)" "18 - length pre \<le> m"
      using assms(2,3) by (simp_all add: pre_def m_def)
    have "memory_line i label k n = pre @ replicate m CHR '' '' @ dec_string n @ '' kB''" by (simp add: memory_line_def pre_def m_def)
    then show ?thesis using l by (simp add: m_def [symmetric])
  qed
  moreover have "dropWhile isspace (replicate m CHR '' '' @ dec_string n @ '' kB'') = dec_string n @ '' kB''" for m
    using c digit_not [of c] by (intro dropWhile_replicate) (auto simp: isspace_def)
  ultimately have "meminfo_value (memory_line i label k n) = str2int (dec_string n)" by (simp add: meminfo_value_def bsplit_dec)
  then show ?thesis using str2int_dec [OF assms(1), of "[]"] by simp
qed

lemma meminfo_lines_other:
  "\<forall>l\<in>set ls. \<not> binstr l ''MemTotal:'' \<and> \<not> binstr l ''MemFree:'' \<Longrightarrow> meminfo_lines ls s = s"
  by (induction ls s rule: meminfo_lines.induct) auto

text \<open>The files of node \<open>i\<close> of \<open>n\<close>.\<close>

definition lines_ok :: "node_data \<Rightarrow> bool" where
  "lines_ok D \<longleftrightarrow> (\<forall>l\<in>set (nd_lines D). \<not> binstr l ''MemTotal:'' \<and> \<not> binstr l ''MemFree:'' \<and> CHR 0x0A \<notin> set l)"

definition node_files :: "numa_system \<Rightarrow> nat \<Rightarrow> nat \<Rightarrow> nat \<Rightarrow> node_data \<Rightarrow> bool" where
  "node_files N nbits n i D \<longleftrightarrow> ns_meminfo N (int i) = Inr (meminfo_text i D) \<and> ns_cpumap N (int i) = Inr (cpumap_text (nd_cpus D) nbits) \<and>
     ns_distance N (int i) = Inr (distance_text D) \<and> nd_total D < 2 ^ 31 \<and> nd_free D < 2 ^ 31 \<and> lines_ok D \<and>
     length (nd_distances D) = n \<and> (\<forall>d\<in>set (nd_distances D). d < 2 ^ 32) \<and> length (dec_string i) \<le> 3"

abbreviation node_cpus :: "nat \<Rightarrow> node_data \<Rightarrow> nat list" where
  "node_cpus nbits D \<equiv> filter (nd_cpus D) [0..<nbits]"

lemma nodeMeminfo_read:
  assumes "ns_meminfo N (int i) = Inr (meminfo_text i D)" "nd_total D < 2 ^ 31" "nd_free D < 2 ^ 31" "lines_ok D" "length (dec_string i) \<le> 3"
  shows "nodeMeminfo N (int i) (t, f, e) = Ret (of_nat (nd_total D), of_nat (nd_free D), 0)"
proof -
  let ?l1 = "memory_line i ''MemTotal:'' 7 (nd_total D)" and ?l2 = "memory_line i ''MemFree:'' 8 (nd_free D)"
  have nl: "\<not> isdigit CHR 0x0A" "\<not> isdigit CHR ''T''" by (simp_all add: isdigit_def)
  have c: "CHR 0x0A \<notin> set ?l1" "CHR 0x0A \<notin> set ?l2" "CHR ''T'' \<notin> set ?l2"
    using memory_line_facts(2) [OF _ nl(1)] memory_line_facts(2) [OF _ nl(2)] by fastforce+
  have "\<not> binstr ?l2 ''MemTotal:''" using c(3) binstr_set [of ?l2 "''MemTotal:''"] by auto
  moreover have "bsplit CHR 0x0A (meminfo_text i D) = ?l1 # ?l2 # nd_lines D"
    unfolding meminfo_text_def using c assms(4) by (intro bsplit_join) (auto simp: lines_ok_def)
  moreover have "meminfo_value ?l1 = (int (nd_total D), 0)" "meminfo_value ?l2 = (int (nd_free D), 0)"
    using assms(2,3,5) by (simp_all add: meminfo_value_line)
  moreover have "meminfo_lines (nd_lines D) s = s" for s
    using assms(4) by (intro meminfo_lines_other) (auto simp: lines_ok_def)
  ultimately show ?thesis using memory_line_facts(1) assms(1) by (simp add: nodeMeminfo_def)
qed

lemma distance_entries_read:
  "\<lbrakk>list_all2 (\<lambda>d t. \<exists>rest. t = dec_string d @ rest \<and> (rest = [] \<or> \<not> isdigit (hd rest))) ds ts; \<forall>d\<in>set ds. d < 2 ^ 32;
     count + length ds = length list\<rbrakk> \<Longrightarrow>
   distance_entries ts count list e = (int (length list), take count list @ map of_nat ds, e)"
proof (induction ds arbitrary: ts count list)
  case (Cons d ds)
  obtain t ts' rest where ts: "ts = t # ts'" "t = dec_string d @ rest" "rest = [] \<or> \<not> isdigit (hd rest)"
      "list_all2 (\<lambda>d t. \<exists>rest. t = dec_string d @ rest \<and> (rest = [] \<or> \<not> isdigit (hd rest))) ds ts'"
    using Cons.prems(1) by (auto simp: list_all2_Cons1)
  have d: "d < 2 ^ 64" using Cons.prems(2) by (simp add: less_trans [of _ "2 ^ 32"])
  have "take (count + 1) (list[count := of_nat d]) = take count list @ [of_nat d]"
    using Cons.prems(3) by (simp add: take_Suc_conv_app_nth)
  then show ?case
    using Cons.IH [OF ts(4), of "count + 1" "list[count := of_nat d]"] Cons.prems ts(1,2) strtoul_dec [OF d ts(3)] ucast_of_nat [OF d] by simp
qed simp

lemma nodeDistanceList_read:
  assumes "ns_distance N (int i) = Inr (distance_text D)" "length (nd_distances D) = n" "0 < n" "\<forall>d\<in>set (nd_distances D). d < 2 ^ 32"
  shows "nodeDistanceList junk N (int i) n e = (int n, map of_nat (nd_distances D), e)"
proof -
  obtain ds d where ds: "nd_distances D = ds @ [d]" using assms(2,3) by (cases "nd_distances D" rule: rev_cases) auto
  have sp: "CHR '' '' \<notin> set (dec_string k)" for k using dec_string_chars [of "CHR '' ''" k] by (auto simp: isdigit_def)
  have "bsplit CHR '' '' (distance_text D) = map dec_string ds @ [dec_string d @ [CHR 0x0A]]"
    unfolding distance_text_def ds map_append list.map join_snoc by (rule bsplit_join) (use sp in auto)
  moreover have "list_all2 (\<lambda>d t. \<exists>rest. t = dec_string d @ rest \<and> (rest = [] \<or> \<not> isdigit (hd rest))) (ds @ [d]) (map dec_string ds @ [dec_string d @ [CHR 0x0A]])"
  proof (rule list_all2_appendI)
    show "list_all2 (\<lambda>d t. \<exists>rest. t = dec_string d @ rest \<and> (rest = [] \<or> \<not> isdigit (hd rest))) ds (map dec_string ds)"
      by (auto simp: list_all2_conv_all_nth)
  qed (simp add: isdigit_def)
  ultimately show ?thesis
    using distance_entries_read [of "ds @ [d]" _ 0 "malloc_u32 junk n" e] assms ds by (simp add: nodeDistanceList_def malloc_u32_def)
qed

section \<open>Initialization\<close>

definition node_read :: "nat \<Rightarrow> nat \<Rightarrow> nat \<Rightarrow> node_data \<Rightarrow> NumaNode \<Rightarrow> bool" where
  "node_read nbits n i D nd \<longleftrightarrow> node_id nd = of_nat i \<and> totalMemory nd = of_nat (nd_total D) \<and> freeMemory nd = of_nat (nd_free D) \<and>
     numberOfProcessors nd = of_nat (length (node_cpus nbits D)) \<and> (\<exists>list. processors nd = Block list \<and> filled list (node_cpus nbits D)) \<and>
     numberOfDistances nd = of_nat n \<and> distances nd = Block (map of_nat (nd_distances D))"

lemma of_nat_u32_zero: "k < 2 ^ 32 \<Longrightarrow> (of_nat k :: u32) = 0 \<longleftrightarrow> k = 0"
  by (auto simp: word_of_nat_eq_0_iff dest: dvd_imp_le)

lemma init_node_read:
  assumes "node_files N nbits n i D" "0 < nbits" "length (node_cpus nbits D) \<le> MAX_NUM_THREADS"
    and "i < length ns" "0 < n" "n < 2 ^ 32"
  shows "node_cpus nbits D \<noteq> [] \<Longrightarrow> \<exists>nd. init_node junk N n i (ns, e) = Some (Ret (0, ns[i := nd], 0)) \<and> node_read nbits n i D nd"
    and "node_cpus nbits D = [] \<Longrightarrow> \<exists>nd. init_node junk N n i (ns, e) = Some (Ret (- EFAULT, ns[i := nd], 0)) \<and> distances nd = distances (ns ! i)"
proof -
  note F = assms(1) [unfolded node_files_def]
  have mem: "nodeMeminfo N (int i) (t, f, e) = Ret (of_nat (nd_total D), of_nat (nd_free D), 0)" for t f
    by (rule nodeMeminfo_read) (use F in auto)
  obtain list where list: "nodeProcessorList junk N (int i) 0 = (int (length (node_cpus nbits D)), list, 0)" "filled list (node_cpus nbits D)"
    using nodeProcessorList_map [of N "int i" "nd_cpus D" nbits junk] F assms(2,3) by auto
  have dist: "nodeDistanceList junk N (int i) n 0 = (int n, map of_nat (nd_distances D), 0)"
    by (rule nodeDistanceList_read) (use F assms(5) in auto)
  have small: "length (node_cpus nbits D) < 2 ^ 32" using assms(3) by (simp add: MAX_NUM_THREADS_def)
  note zero = of_nat_u32_zero [OF small] of_nat_u32_zero [OF assms(6)]
  show "node_cpus nbits D \<noteq> [] \<Longrightarrow> \<exists>nd. init_node junk N n i (ns, e) = Some (Ret (0, ns[i := nd], 0)) \<and> node_read nbits n i D nd"
    using assms(4,5) zero
    by (simp add: init_node_def mem list(1) dist Let_def arr_get_def) (rule exI, rule conjI, rule refl, use list(2) in \<open>simp add: node_read_def\<close>)
  show "node_cpus nbits D = [] \<Longrightarrow> \<exists>nd. init_node junk N n i (ns, e) = Some (Ret (- EFAULT, ns[i := nd], 0)) \<and> distances nd = distances (ns ! i)"
    using assms(4) list(1) by (simp add: init_node_def mem Let_def arr_get_def) (rule exI, rule conjI, rule refl, simp)
qed

text \<open>The nodes before \<open>g\<close> are read; the loop goes on with node \<open>g\<close>.\<close>

lemma init_nodes_read:
  assumes "\<forall>i<g. node_files N nbits n i (D i) \<and> node_cpus nbits (D i) \<noteq> [] \<and> length (node_cpus nbits (D i)) \<le> MAX_NUM_THREADS"
    and "0 < nbits" "length ns = n" "n < 2 ^ 32" "g \<le> n"
  shows "\<exists>ns' e'. init_nodes junk N n [0..<n] (ns, e) = init_nodes junk N n [g..<n] (ns', e') \<and> length ns' = n \<and>
    (\<forall>i<g. node_read nbits n i (D i) (ns' ! i)) \<and> (\<forall>i. g \<le> i \<longrightarrow> ns' ! i = ns ! i)"
  using assms(1,5)
proof (induction g)
  case 0
  then show ?case using assms(3) by auto
next
  case (Suc g)
  have "\<forall>i<g. node_files N nbits n i (D i) \<and> node_cpus nbits (D i) \<noteq> [] \<and> length (node_cpus nbits (D i)) \<le> MAX_NUM_THREADS" "g \<le> n"
    using Suc.prems by simp_all
  from Suc.IH [OF this] obtain ns1 e1 where 1: "init_nodes junk N n [0..<n] (ns, e) = init_nodes junk N n [g..<n] (ns1, e1)" "length ns1 = n"
      "\<forall>i<g. node_read nbits n i (D i) (ns1 ! i)" "\<forall>i. g \<le> i \<longrightarrow> ns1 ! i = ns ! i" by blast
  have g: "g < n" "g < length ns1" "0 < n" using Suc.prems(2) 1(2) by simp_all
  have D: "node_files N nbits n g (D g)" "node_cpus nbits (D g) \<noteq> []" "length (node_cpus nbits (D g)) \<le> MAX_NUM_THREADS"
    using Suc.prems(1) by auto
  obtain nd where nd: "init_node junk N n g (ns1, e1) = Some (Ret (0, ns1[g := nd], 0))" "node_read nbits n g (D g) nd"
    using init_node_read(1) [OF D(1) assms(2) D(3) g(2,3) assms(4) D(2)] by blast
  have "init_nodes junk N n [0..<n] (ns, e) = init_nodes junk N n [Suc g..<n] (ns1[g := nd], 0)"
    unfolding 1(1) using g(1) nd(1) by (simp add: upt_conv_Cons)
  then show ?case
    using 1(2-4) nd(2) g by (intro exI [of _ "ns1[g := nd]"] exI [of _ 0]) (auto simp: nth_list_update less_Suc_eq)
qed

text \<open>The directory: nodes \<open>0\<close> to \<open>n - 1\<close>, of which the last one exists, and other names.\<close>

definition node_names :: "nat \<Rightarrow> string list \<Rightarrow> bool" where
  "node_names n names \<longleftrightarrow> ''node'' @ dec_string (n - 1) \<in> set names \<and>
     (\<forall>name\<in>set names. has_prefix ''node'' name \<longrightarrow> (\<exists>i<n. name = ''node'' @ dec_string i))"

lemma max_node_names:
  assumes "\<forall>name\<in>set names. has_prefix ''node'' name \<longrightarrow> (\<exists>i<n. name = ''node'' @ dec_string i)" "n \<le> 2 ^ 31"
  shows "\<exists>m e'. max_node names k e = (m, e') \<and> k \<le> m \<and> m \<le> max k (int n - 1) \<and> (\<forall>i<n. ''node'' @ dec_string i \<in> set names \<longrightarrow> int i \<le> m)"
  using assms(1)
proof (induction names arbitrary: k e)
  case (Cons name names)
  show ?case
  proof (cases "has_prefix ''node'' name")
    case True
    then obtain i where i: "i < n" "name = ''node'' @ dec_string i" using Cons.prems by auto
    have nd: "str2int (dec_string i) = (int i, 0)" using str2int_dec [of i "[]"] i(1) assms(2) by simp
    obtain m e' where m: "max_node names (max k (int i)) 0 = (m, e')" "max k (int i) \<le> m" "m \<le> max (max k (int i)) (int n - 1)"
        "\<forall>j<n. ''node'' @ dec_string j \<in> set names \<longrightarrow> int j \<le> m"
      using Cons.IH [of "max k (int i)" 0] Cons.prems by auto
    have "\<forall>j<n. ''node'' @ dec_string j \<in> set (name # names) \<longrightarrow> int j \<le> m"
      using m(2,4) i(2) dec_string_inj by auto
    moreover have "max_node (name # names) k e = (m, e')" using i(2) nd m(1) by simp
    moreover have "m \<le> max k (int n - 1)" "k \<le> m" using m(2,3) i(1) by auto
    ultimately show ?thesis by blast
  next
    case False
    have ne: "name \<noteq> ''node'' @ dec_string j" for j using False by auto
    have e: "max_node (name # names) k e = max_node names k e" using False by simp
    have "\<forall>name\<in>set names. has_prefix ''node'' name \<longrightarrow> (\<exists>i<n. name = ''node'' @ dec_string i)" using Cons.prems by simp
    from Cons.IH [OF this, of k e] show ?thesis unfolding e set_simps using ne by (metis insertE)
  qed
qed auto

lemma configured_nodes:
  assumes "ns_names N = Some names" "node_names n names" "0 < n" "n \<le> 2 ^ 31"
  shows "\<exists>e'. setConfiguredNodes N e = (int n - 1, e')"
proof -
  obtain m e' where m: "max_node names 0 e = (m, e')" "0 \<le> m" "m \<le> max 0 (int n - 1)" "\<forall>i<n. ''node'' @ dec_string i \<in> set names \<longrightarrow> int i \<le> m"
    using max_node_names [of names n 0 e] assms(2,4) by (auto simp: node_names_def)
  have "int (n - 1) \<le> m" using m(4) [rule_format, of "n - 1"] assms(2,3) unfolding node_names_def by simp
  then have "m = int n - 1" using m(3) assms(3) by auto
  then show ?thesis using m(1) assms(1) by (simp add: setConfiguredNodes_def)
qed

lemma proc_numa_init_names:
  assumes "\<not> ns_noMempolicy N" "ns_names N = Some names" "node_names n names" "0 < n" "n \<le> 2 ^ 31"
  shows "\<exists>e. proc_numa_init junk N s = (case init_nodes junk N n [0..<n] (replicate n (wild_node junk), e) of
    None \<Rightarrow> None | Some (Exit code) \<Rightarrow> Some (Exit code) |
    Some (Ret (ret, ns, e')) \<Rightarrow> Some (Ret (ret, s\<lparr>numa_errno := e', numberOfNodes := of_nat n, nodes := Block ns\<rparr>)))"
proof -
  obtain e where e: "setConfiguredNodes N (numa_errno s) = (int n - 1, e)" using configured_nodes [OF assms(2-5)] by blast
  have "unat (of_int (int n - 1 + 1) :: u32) = n" using assms(5) by (simp add: unat_of_nat)
  then show ?thesis using assms(1) e by (intro exI [of _ e]) (simp add: proc_numa_init_def split: option.splits proc.splits)
qed

section \<open>What is read\<close>

text \<open>
  Property C16. Reading the map of processors that the kernel writes for a node gives back the processors of the
  node, in ascending order, and their number.
\<close>

theorem cpumap_roundtrip:
  assumes "ns_cpumap N node = Inr (cpumap_text P nbits)" "0 < nbits" "length (filter P [0..<nbits]) \<le> MAX_NUM_THREADS"
  shows "\<exists>list. nodeProcessorList junk N node 0 = (int (length (filter P [0..<nbits])), list, 0) \<and>
    take (length (filter P [0..<nbits])) list = map of_nat (filter P [0..<nbits])"
  using nodeProcessorList_map [OF assms(1,2), of junk] assms(3) by (auto simp: filled_def)

text \<open>A machine with \<open>n\<close> nodes.\<close>

definition numa_machine :: "numa_system \<Rightarrow> nat \<Rightarrow> nat \<Rightarrow> (nat \<Rightarrow> node_data) \<Rightarrow> bool" where
  "numa_machine N nbits n D \<longleftrightarrow> \<not> ns_noMempolicy N \<and> (\<exists>names. ns_names N = Some names \<and> node_names n names) \<and>
     0 < nbits \<and> 0 < n \<and> n \<le> 1000 \<and>
     (\<forall>i<n. node_files N nbits n i (D i) \<and> length (node_cpus nbits (D i)) \<le> MAX_NUM_THREADS)"

lemma machine_init:
  assumes "numa_machine N nbits n D"
  obtains e where "\<And>junk. proc_numa_init junk N s = (case init_nodes junk N n [0..<n] (replicate n (wild_node junk), e) of
    None \<Rightarrow> None | Some (Exit code) \<Rightarrow> Some (Exit code) |
    Some (Ret (ret, ns, e')) \<Rightarrow> Some (Ret (ret, s\<lparr>numa_errno := e', numberOfNodes := of_nat n, nodes := Block ns\<rparr>)))"
proof -
  obtain names where n: "ns_names N = Some names" "node_names n names" "0 < n" "n \<le> 2 ^ 31" "\<not> ns_noMempolicy N"
    using assms by (auto simp: numa_machine_def)
  obtain e where e: "setConfiguredNodes N (numa_errno s) = (int n - 1, e)" using configured_nodes [OF n(1-4)] by blast
  have "unat (of_int (int n - 1 + 1) :: u32) = n" using n(4) by (simp add: unat_of_nat)
  then show thesis using that [of e] n(5) e by (simp add: proc_numa_init_def split: option.splits proc.splits)
qed

lemma machine_read:
  assumes "numa_machine N nbits n D" "\<forall>i<n. node_cpus nbits (D i) \<noteq> []"
  shows "\<exists>s' ns. proc_numa_init junk N s = Some (Ret (0, s')) \<and> numberOfNodes s' = of_nat n \<and> nodes s' = Block ns \<and> length ns = n \<and>
    (\<forall>i<n. node_read nbits n i (D i) (ns ! i))"
proof -
  note M = assms(1) [unfolded numa_machine_def]
  obtain e where e: "\<And>junk. proc_numa_init junk N s = (case init_nodes junk N n [0..<n] (replicate n (wild_node junk), e) of
    None \<Rightarrow> None | Some (Exit code) \<Rightarrow> Some (Exit code) |
    Some (Ret (ret, ns, e')) \<Rightarrow> Some (Ret (ret, s\<lparr>numa_errno := e', numberOfNodes := of_nat n, nodes := Block ns\<rparr>)))"
    by (rule machine_init [OF assms(1)]) blast
  obtain ns' e' where i: "init_nodes junk N n [0..<n] (replicate n (wild_node junk), e) = init_nodes junk N n [n..<n] (ns', e')"
      "length ns' = n" "\<forall>i<n. node_read nbits n i (D i) (ns' ! i)"
    using init_nodes_read [of n N nbits n D "replicate n (wild_node junk)" junk e] M assms(2) by auto
  have "init_nodes junk N n [0..<n] (replicate n (wild_node junk), e) = Some (Ret (0, ns', e'))" using i(1) by simp
  then show ?thesis using i(2,3) unfolding e by simp
qed

text \<open>
  Property C15. On a machine whose nodes all have processors, the initialization succeeds: it finds every node, and
  every node has its processors, its memory and its distances.
\<close>

theorem numa_init_reads:
  assumes "numa_machine N nbits n D" "\<forall>i<n. node_cpus nbits (D i) \<noteq> []"
  shows "\<exists>s' ns. proc_numa_init junk N s = Some (Ret (0, s')) \<and> numberOfNodes s' = of_nat n \<and> nodes s' = Block ns \<and> length ns = n \<and>
    (\<forall>i<n. node_read nbits n i (D i) (ns ! i))"
  by (rule machine_read [OF assms])

section \<open>Interleaving\<close>

lemma find_processor_take: "n \<le> length list \<Longrightarrow> find_processor list n c = Some (c \<in> set (take n list))"
  by (induction list n c rule: find_processor.induct) auto

lemma of_nat_u32_inject: "\<lbrakk>a < 2 ^ 32; b < 2 ^ 32\<rbrakk> \<Longrightarrow> (of_nat a :: u32) = of_nat b \<longleftrightarrow> a = b"
  by (simp add: word_of_nat_eq_iff take_bit_nat_eq_self)

lemma proc_findProcessor_read:
  assumes "nodes s = Block ns" "i < length ns" "length ns \<le> 2 ^ 31" "node_read nbits n i D (ns ! i)" "nbits \<le> 2 ^ 31" "c < 2 ^ 32"
  shows "proc_findProcessor s (of_nat i) (of_nat c) = Some (c < nbits \<and> nd_cpus D c)"
proof -
  note R = assms(4) [unfolded node_read_def]
  obtain list where list: "processors (ns ! i) = Block list" "filled list (node_cpus nbits D)" using R by blast
  have len: "length (node_cpus nbits D) \<le> length list" "length (node_cpus nbits D) < 2 ^ 32"
    using list(2) by (simp_all add: filled_def MAX_NUM_THREADS_def)
  have "of_nat c \<in> (of_nat :: nat \<Rightarrow> u32) ` set (node_cpus nbits D) \<longleftrightarrow> c \<in> set (node_cpus nbits D)"
  proof -
    have "x < 2 ^ 32" if "x \<in> set (node_cpus nbits D)" for x using that assms(5) by auto
    then have "(of_nat c :: u32) = of_nat x \<longleftrightarrow> c = x" if "x \<in> set (node_cpus nbits D)" for x
      using of_nat_u32_inject [OF assms(6)] that by blast
    then show ?thesis unfolding image_iff by blast
  qed
  moreover have "take (length (node_cpus nbits D)) list = map of_nat (node_cpus nbits D)" using list(2) by (simp add: filled_def)
  ultimately have "find_processor list (length (node_cpus nbits D)) (of_nat c) = Some (c < nbits \<and> nd_cpus D c)"
    using find_processor_take [OF len(1)] by auto
  moreover have "unat (of_nat i :: u32) = i" "unat (numberOfProcessors (ns ! i)) = length (node_cpus nbits D)"
    using R assms(2,3) len(2) by (simp_all add: unat_of_nat)
  ultimately show ?thesis
    using assms(1,2) list(1) by (auto simp: proc_findProcessor_def arr_get_def unat_eq_0 simp del: unat_eq_zero)
qed

lemma node_has_any_read:
  assumes "\<And>c. c < 2 ^ 32 \<Longrightarrow> proc_findProcessor s (of_nat i) (of_nat c) = Some (Q c)" "\<forall>c\<in>set cpus. 0 \<le> c \<and> c < 2 ^ 32"
  shows "node_has_any s i cpus = Some (\<exists>c\<in>set cpus. Q (nat c))"
  using assms(2)
proof (induction cpus)
  case (Cons c cpus)
  have "(of_int c :: u32) = of_nat (nat c)" "nat c < 2 ^ 32" using Cons.prems by (simp_all add: of_nat_nat nat_less_iff)
  then show ?case using Cons assms(1) [of "nat c"] by simp
qed simp

lemma interleave_bits:
  assumes "\<forall>i\<in>set is. i < 64 \<and> node_has_any s i cpus = Some (B i)"
  shows "\<exists>m'. interleave_mask s cpus is m = Some m' \<and> (\<forall>i<64. bit m' i \<longleftrightarrow> bit m i \<or> i \<in> set is \<and> B i)"
  using assms
proof (induction "is" arbitrary: m)
  case (Cons i "is")
  have b: "bit (m OR push_bit i 1) j \<longleftrightarrow> bit m j \<or> j = i" if "j < 64" for j
    using that by (auto simp: bit_or_iff bit_exp_iff push_bit_of_1)
  show ?case
  proof (cases "B i")
    case True
    obtain m' where m': "interleave_mask s cpus is (m OR push_bit i 1) = Some m'"
        "\<forall>j<64. bit m' j \<longleftrightarrow> bit (m OR push_bit i 1) j \<or> j \<in> set is \<and> B j"
      using Cons.IH [of "m OR push_bit i 1"] Cons.prems by auto
    then show ?thesis using True Cons.prems b by auto
  next
    case False
    then have n: "node_has_any s i cpus = Some False" using Cons.prems by simp
    obtain m' where "interleave_mask s cpus is m = Some m'" "\<forall>j<64. bit m' j \<longleftrightarrow> bit m j \<or> j \<in> set is \<and> B j"
      using Cons.IH [of m] Cons.prems by auto
    then show ?thesis using False n by (intro exI [of _ m']) auto
  qed
qed simp

text \<open>
  Property C17. On a machine with at most 64 nodes that all have processors, interleaving over a list of processors
  sets exactly the bits of the nodes that have one of them.
\<close>

theorem interleave_nodes:
  assumes "numa_machine N nbits n D" "\<forall>i<n. node_cpus nbits (D i) \<noteq> []" "n \<le> 64" "nbits \<le> 2 ^ 31"
    and "\<forall>c\<in>set processorList. 0 \<le> c \<and> c < 2 ^ 31"
  shows "\<exists>s' m. proc_numa_init junk N s = Some (Ret (0, s')) \<and> proc_numa_setInterleaved s' processorList = Some m \<and>
    (\<forall>i. bit m i \<longleftrightarrow> i < n \<and> (\<exists>c\<in>set processorList. nat c < nbits \<and> nd_cpus (D i) (nat c)))"
proof -
  obtain s' ns where s': "proc_numa_init junk N s = Some (Ret (0, s'))" "numberOfNodes s' = of_nat n" "nodes s' = Block ns" "length ns = n"
      "\<forall>i<n. node_read nbits n i (D i) (ns ! i)"
    using machine_read [OF assms(1,2)] by blast
  have any: "node_has_any s' i processorList = Some (\<exists>c\<in>set processorList. nat c < nbits \<and> nd_cpus (D i) (nat c))" if "i < n" for i
  proof (rule node_has_any_read)
    show "proc_findProcessor s' (of_nat i) (of_nat c) = Some (c < nbits \<and> nd_cpus (D i) c)" if "c < 2 ^ 32" for c
      by (rule proc_findProcessor_read [OF s'(3) _ _ _ assms(4) that]) (use s'(4,5) assms(3) \<open>i < n\<close> in auto)
    show "\<forall>c\<in>set processorList. 0 \<le> c \<and> c < 2 ^ 32" using assms(5) by fastforce
  qed
  have "unat (numberOfNodes s') = n" using s'(2) assms(3) by (simp add: unat_of_nat)
  moreover obtain m where m: "interleave_mask s' processorList [0..<n] 0 = Some m"
      "\<forall>i<64. bit m i \<longleftrightarrow> bit (0 :: u64) i \<or> i \<in> set [0..<n] \<and> (\<exists>c\<in>set processorList. nat c < nbits \<and> nd_cpus (D i) (nat c))"
    using interleave_bits [of "[0..<n]" s' processorList "\<lambda>i. \<exists>c\<in>set processorList. nat c < nbits \<and> nd_cpus (D i) (nat c)" 0] any assms(3) by auto
  moreover have "bit m i \<longleftrightarrow> i < n \<and> (\<exists>c\<in>set processorList. nat c < nbits \<and> nd_cpus (D i) (nat c))" for i
    using m(2) assms(3) bit_imp_le_length [of m i] by (cases "i < 64") auto
  ultimately show ?thesis using s'(1) by (auto simp: proc_numa_setInterleaved_def)
qed

section \<open>Nodes without processors, and missing nodes\<close>

lemma free_nodes_wild: "\<lbrakk>i < n; i < length ns; distances (ns ! i) = Wild\<rbrakk> \<Longrightarrow> free_nodes n ns = None"
proof (induction n ns arbitrary: i rule: free_nodes.induct)
  case (3 n nd ns)
  show ?case
  proof (cases i)
    case 0
    then show ?thesis using 3(4) by (simp add: free_pointer_def)
  next
    case (Suc j)
    then show ?thesis using 3 by (cases "free_pointer (processors nd)"; cases "free_pointer (distances nd)") auto
  qed
qed auto


text \<open>
  When the numbers of the nodes have a gap, so that there are no files of a node below the highest one,
  the initialization ends the process.
\<close>

theorem node_gap_exits:
  assumes "\<not> ns_noMempolicy N" "ns_names N = Some names" "node_names n names" "n \<le> 1000" "0 < nbits" "g < n" "ns_meminfo N (int g) = Inl err"
    and "\<forall>i<g. node_files N nbits n i (D i) \<and> node_cpus nbits (D i) \<noteq> [] \<and> length (node_cpus nbits (D i)) \<le> MAX_NUM_THREADS"
  shows "proc_numa_init junk N s = Some (Exit 1)"
proof -
  have n: "0 < n" "n \<le> 2 ^ 31" using assms(4,6) by simp_all
  obtain e where e: "proc_numa_init junk N s = (case init_nodes junk N n [0..<n] (replicate n (wild_node junk), e) of
    None \<Rightarrow> None | Some (Exit code) \<Rightarrow> Some (Exit code) |
    Some (Ret (ret, ns, e')) \<Rightarrow> Some (Ret (ret, s\<lparr>numa_errno := e', numberOfNodes := of_nat n, nodes := Block ns\<rparr>)))"
    using proc_numa_init_names [OF assms(1-3) n] by blast
  obtain ns' e' where i: "init_nodes junk N n [0..<n] (replicate n (wild_node junk), e) = init_nodes junk N n [g..<n] (ns', e')" "length ns' = n"
    using init_nodes_read [OF assms(8,5), of "replicate n (wild_node junk)" junk e] assms(4,6) by auto
  have "init_node junk N n g (ns', e') = Some (Exit 1)" using assms(6,7) i(2) by (simp add: init_node_def nodeMeminfo_def arr_get_def)
  then show ?thesis unfolding e i(1) using assms(6) by (simp add: upt_conv_Cons)
qed

end
