(* ===== verification/Numa_Example.thy ===== *)
theory Numa_Example
  imports Numa_Properties
begin

text \<open>
  The properties of the NUMA nodes on small machines: two nodes with the even and the odd processors, a second node
  without processors, and a machine with nodes 0 and 2 only.
\<close>

definition small_node :: "nat list \<Rightarrow> nat list \<Rightarrow> node_data" where
  "small_node cpus dist = \<lparr>nd_cpus = (\<lambda>c. c \<in> set cpus), nd_total = 2048, nd_free = 1024, nd_distances = dist, nd_lines = []\<rparr>"

definition two_nodes :: "nat list \<Rightarrow> nat \<Rightarrow> node_data" where
  "two_nodes cpus i = (if i = 0 then small_node [0, 2] [10, 20] else small_node cpus [20, 10])"

definition two_system :: "nat list \<Rightarrow> numa_system" where
  "two_system cpus = \<lparr>ns_noMempolicy = False, ns_names = Some [''.'', ''node1'', ''online'', ''node0''],
     ns_meminfo = (\<lambda>i. Inr (meminfo_text (nat i) (two_nodes cpus (nat i)))),
     ns_cpumap = (\<lambda>i. Inr (cpumap_text (nd_cpus (two_nodes cpus (nat i))) 40)),
     ns_distance = (\<lambda>i. Inr (distance_text (two_nodes cpus (nat i))))\<rparr>"

definition start_numa :: numa where
  "start_numa = \<lparr>numa_errno = 0, numberOfNodes = 0, nodes = Null, numaInitialized = False\<rparr>"

lemma dec_one: "dec_string (Suc 0) = ''1''"
  using dec_string_one by simp

lemma two_names: "node_names 2 [''.'', ''node1'', ''online'', ''node0'']"
proof -
  have "(\<exists>i<2. ''1'' = dec_string i)" "(\<exists>i<2. ''0'' = dec_string i)"
    using dec_string_one dec_string_zero by (metis one_less_numeral_iff semiring_norm(76)) (metis dec_string_zero zero_less_numeral)
  then show ?thesis by (simp add: node_names_def dec_one)
qed

lemma two_machine: "length cpus \<le> 10 \<Longrightarrow> numa_machine (two_system cpus) 40 2 (two_nodes cpus)"
proof -
  assume c: "length cpus \<le> 10"
  have len: "length (node_cpus 40 D) \<le> MAX_NUM_THREADS" for D
    using length_filter_le [of "nd_cpus D" "[0..<40]"] by (simp add: MAX_NUM_THREADS_def)
  have "node_files (two_system cpus) 40 2 i (two_nodes cpus i)" if "i < 2" for i
    using that by (auto simp: less_2_cases_iff node_files_def two_system_def lines_ok_def two_nodes_def small_node_def dec_one dec_string_zero)
  then show ?thesis using two_names len by (auto simp: numa_machine_def two_system_def)
qed

lemma two_cpus: "\<forall>i<2. node_cpus 40 (two_nodes [1, 3] i) \<noteq> []"
  by (auto simp: less_2_cases_iff two_nodes_def small_node_def filter_empty_conv)

lemma upto_32: "[0..<32] = [0, 1, 2, 3, 4, 5, 6, 7, 8, 9, 10, 11, 12, 13, 14, 15, 16, 17, 18, 19, 20, 21, 22, 23, 24, 25, 26, 27, 28, 29, 30, 31]"
  and upto_8: "[0..<8] = [0, 1, 2, 3, 4, 5, 6, 7]"
  by code_simp+

lemma map_example: "cpumap_text (\<lambda>c. c \<in> set [1, 33, 35]) 40 = ''0a,00000002'' @ [CHR 0x0A]"
proof -
  have w: "map_width 40 0 = 32" "map_width 40 1 = 8" "(40 + 31) div 32 = (2 :: nat)" by (simp_all add: map_width_def)
  have c: "map_chunk (\<lambda>c. c \<in> set [1, 33, 35]) 40 0 = 2" "map_chunk (\<lambda>c. c \<in> set [1, 33, 35]) 40 1 = 10"
    by (simp_all add: map_chunk_def w w(2) [unfolded One_nat_def] upto_32 upto_8)
  have h: "hex_string 8 2 = ''00000002''" "hex_string 2 10 = ''0a''" by code_simp+
  have "map_word (\<lambda>c. c \<in> set [1, 33, 35]) 40 0 = ''00000002''" "map_word (\<lambda>c. c \<in> set [1, 33, 35]) 40 1 = ''0a''"
    unfolding map_word_def w c using h by simp_all
  moreover have "rev [0..<2] = [1, 0 :: nat]" by code_simp
  ultimately show ?thesis unfolding cpumap_text_def w(3) by simp
qed

theorem cpumap_roundtrip_witness:
  "cpumap_text (\<lambda>c. c \<in> set [1, 33, 35]) 40 = ''0a,00000002'' @ [CHR 0x0A] \<and>
   (\<exists>list. nodeProcessorList (\<lambda>_. 7) ((two_system [])\<lparr>ns_cpumap := \<lambda>i. Inr (''0a,00000002'' @ [CHR 0x0A])\<rparr>) 0 0 = (3, list, 0) \<and> take 3 list = [1, 33, 35])"
proof -
  have f: "filter (\<lambda>c. c \<in> set [1, 33, 35]) [0..<40] = [1, 33, 35]" by code_simp
  show ?thesis
    using cpumap_roundtrip [of "(two_system [])\<lparr>ns_cpumap := \<lambda>i. Inr (''0a,00000002'' @ [CHR 0x0A])\<rparr>" 0 "\<lambda>c. c \<in> set [1, 33, 35]" 40 "\<lambda>_. 7"] map_example f
    by (simp add: MAX_NUM_THREADS_def numeral_3_eq_3)
qed

theorem numa_init_reads_witness:
  "\<exists>s' ns. proc_numa_init (\<lambda>_. 7) (two_system [1, 3]) start_numa = Some (Ret (0, s')) \<and> nodes s' = Block ns \<and> length ns = 2 \<and>
     numberOfProcessors (ns ! 1) = 2 \<and> totalMemory (ns ! 1) = 2048 \<and> distances (ns ! 1) = Block [20, 10]"
proof -
  have c: "node_cpus 40 (two_nodes [1, 3] 1) = [1, 3]" by code_simp
  have "length [1, 3 :: nat] \<le> 10" by simp
  from numa_init_reads [OF two_machine [OF this] two_cpus, of "\<lambda>_. 7" start_numa]
  obtain s' ns where s': "proc_numa_init (\<lambda>_. 7) (two_system [1, 3]) start_numa = Some (Ret (0, s'))" "nodes s' = Block ns" "length ns = 2"
      "node_read 40 2 1 (two_nodes [1, 3] 1) (ns ! 1)" by auto
  then have "numberOfProcessors (ns ! 1) = 2 \<and> totalMemory (ns ! 1) = 2048 \<and> distances (ns ! 1) = Block [20, 10]"
    unfolding node_read_def c by (simp add: two_nodes_def small_node_def)
  then show ?thesis using s' by blast
qed

theorem interleave_nodes_witness:
  "\<exists>s' m. proc_numa_init (\<lambda>_. 7) (two_system [1, 3]) start_numa = Some (Ret (0, s')) \<and> proc_numa_setInterleaved s' [3] = Some m \<and>
     bit m 1 \<and> \<not> bit m 0"
  using interleave_nodes [OF two_machine two_cpus, of "[3]" "\<lambda>_. 7" start_numa] by (auto simp: two_nodes_def small_node_def)


definition gap_system :: numa_system where
  "gap_system = \<lparr>ns_noMempolicy = False, ns_names = Some [''node0'', ''node2''],
     ns_meminfo = (\<lambda>i. if i = 1 then Inl ENOENT else Inr (meminfo_text (nat i) (small_node [0] [10, 20, 30]))),
     ns_cpumap = (\<lambda>i. Inr (cpumap_text (\<lambda>c. c \<in> set [0]) 40)), ns_distance = (\<lambda>i. Inr (distance_text (small_node [0] [10, 20, 30])))\<rparr>"

theorem node_gap_exits_witness: "proc_numa_init (\<lambda>_. 7) gap_system start_numa = Some (Exit 1)"
proof (rule node_gap_exits [of _ _ 3 40 1 _ "\<lambda>i. small_node [0] [10, 20, 30]"])
  have d: "dec_string 2 = ''2''" by code_simp
  have "(\<exists>i<3. ''0'' = dec_string i)" "(\<exists>i<3. ''2'' = dec_string i)"
    by (rule exI [of _ 0], simp add: dec_string_zero) (rule exI [of _ 2], simp add: d)
  then show "node_names 3 [''node0'', ''node2'']" by (simp add: node_names_def d)
  show "\<forall>i<1. node_files gap_system 40 3 i (small_node [0] [10, 20, 30]) \<and> node_cpus 40 (small_node [0] [10, 20, 30]) \<noteq> [] \<and>
      length (node_cpus 40 (small_node [0] [10, 20, 30])) \<le> MAX_NUM_THREADS"
    using length_filter_le [of "nd_cpus (small_node [0] [10, 20, 30])" "[0..<40]"]
    by (auto simp: node_files_def gap_system_def lines_ok_def small_node_def dec_string_zero MAX_NUM_THREADS_def filter_empty_conv)
qed (simp_all add: gap_system_def)

end
