(* ===== verification/GHash.thy ===== *)
theory GHash
  imports Likwid_Prelude
begin

text \<open>
  The hash table of \<open>src/src/ghash.c\<close>: open addressing in arrays whose size is a power of two, with
  triangular probing. A \<open>gpointer\<close> is \<^term>\<open>None\<close> when it is NULL. The array of values is \<^term>\<open>None\<close>
  while the pointer \<open>values\<close> equals the pointer \<open>keys\<close>, that is while the two arrays are one. The hash and
  comparison functions read the memory their arguments point to, and are undefined on pointers they cannot
  read; the functions that destroy keys and values change a world \<open>'w\<close> that belongs to the caller.
  Allocation succeeds. A signed result outside \<open>gint\<close> is undefined.
\<close>

section \<open>Data\<close>

type_synonym 'p gpointer = "'p option"
type_synonym guint = u32

record ('p, 'w) GHashTable =
  ht_size :: int
  ht_mod :: int
  ht_mask :: guint
  ht_nnodes :: int
  ht_noccupied :: int
  ht_keys :: "'p gpointer list"
  ht_hashes :: "guint list"
  ht_values :: "'p gpointer list option"
  ht_hash_func :: "'p gpointer \<Rightarrow> guint option"
  ht_key_equal_func :: "('p gpointer \<Rightarrow> 'p gpointer \<Rightarrow> bool option) option"
  ht_ref_count :: int
  ht_key_destroy_func :: "('p gpointer \<Rightarrow> 'w \<Rightarrow> 'w) option"
  ht_value_destroy_func :: "('p gpointer \<Rightarrow> 'w \<Rightarrow> 'w) option"

definition HASH_TABLE_MIN_SHIFT :: int where
  "HASH_TABLE_MIN_SHIFT = 3"

definition HASH_IS_UNUSED :: "guint \<Rightarrow> bool" where
  "HASH_IS_UNUSED h \<longleftrightarrow> h = 0"

definition HASH_IS_TOMBSTONE :: "guint \<Rightarrow> bool" where
  "HASH_IS_TOMBSTONE h \<longleftrightarrow> h = 1"

definition HASH_IS_REAL :: "guint \<Rightarrow> bool" where
  "HASH_IS_REAL h \<longleftrightarrow> 2 \<le> h"

definition prime_mod :: "int list" where
  "prime_mod = [1, 2, 3, 7, 13, 31, 61, 127, 251, 509, 1021, 2039, 4093, 8191, 16381, 32749, 65521, 131071,
     262139, 524287, 1048573, 2097143, 4194301, 8388593, 16777213, 33554393, 67108859, 134217689, 268435399,
     536870909, 1073741789, 2147483647]"

text \<open>A result of type \<open>gint\<close>.\<close>

definition gint :: "int \<Rightarrow> int option" where
  "gint x = (if - (2 ^ 31) \<le> x \<and> x < 2 ^ 31 then Some x else None)"

section \<open>The size of a table\<close>

fun mask_loop :: "nat \<Rightarrow> guint \<Rightarrow> guint" where
  "mask_loop 0 m = m"
| "mask_loop (Suc n) m = mask_loop n (push_bit 1 m OR 1)"

definition g_hash_table_set_shift :: "int \<Rightarrow> ('p, 'w) GHashTable \<Rightarrow> ('p, 'w) GHashTable option" where
  "g_hash_table_set_shift shift t = do {
     sz \<leftarrow> (if 0 \<le> shift \<and> shift < 31 then Some (2 ^ nat shift) else None);
     p \<leftarrow> arr_get prime_mod shift;
     Some (t\<lparr>ht_size := sz, ht_mod := p, ht_mask := mask_loop (nat shift) 0\<rparr>) }"

text \<open>The loop does not end for a negative number, whose right shifts stay negative.\<close>

partial_function (option) closest_shift_loop :: "int \<Rightarrow> int \<Rightarrow> int option" where
  "closest_shift_loop n i = (if n = 0 then Some i else closest_shift_loop (n div 2) (i + 1))"

definition g_hash_table_find_closest_shift :: "int \<Rightarrow> int option" where
  "g_hash_table_find_closest_shift n = closest_shift_loop n 0"

definition g_hash_table_set_shift_from_size :: "int \<Rightarrow> ('p, 'w) GHashTable \<Rightarrow> ('p, 'w) GHashTable option" where
  "g_hash_table_set_shift_from_size sz t = do {
     shift \<leftarrow> g_hash_table_find_closest_shift sz;
     g_hash_table_set_shift (max shift HASH_TABLE_MIN_SHIFT) t }"

section \<open>Searching a node\<close>

definition keys_equal :: "('p, 'w) GHashTable \<Rightarrow> 'p gpointer \<Rightarrow> 'p gpointer \<Rightarrow> bool option" where
  "keys_equal t node_key key =
     (case ht_key_equal_func t of Some f \<Rightarrow> f node_key key | None \<Rightarrow> Some (node_key = key))"

text \<open>The \<open>while\<close> loop; \<open>tomb\<close> is \<open>first_tombstone\<close> once \<open>have_tombstone\<close> is set.\<close>

partial_function (option) lookup_loop ::
  "('p, 'w) GHashTable \<Rightarrow> 'p gpointer \<Rightarrow> guint \<Rightarrow> guint option \<Rightarrow> guint \<Rightarrow> guint \<Rightarrow> guint option" where
  "lookup_loop t key hash_value tomb step node_index =
     Option.bind (arr_get (ht_hashes t) (uint node_index)) (\<lambda>node_hash.
       if HASH_IS_UNUSED node_hash then Some (case tomb of Some i \<Rightarrow> i | None \<Rightarrow> node_index)
       else Option.bind
         (if node_hash = hash_value
          then Option.bind (arr_get (ht_keys t) (uint node_index)) (\<lambda>node_key. keys_equal t node_key key)
          else Some False) (\<lambda>found.
         if found then Some node_index
         else lookup_loop t key hash_value
           (if node_hash \<noteq> hash_value \<and> HASH_IS_TOMBSTONE node_hash \<and> tomb = None then Some node_index else tomb)
           (step + 1) ((node_index + (step + 1)) AND ht_mask t)))"

definition first_index :: "('p, 'w) GHashTable \<Rightarrow> guint \<Rightarrow> guint option" where
  "first_index t hash_value =
     (if (of_int (ht_mod t) :: guint) = 0 then None else Some (hash_value mod of_int (ht_mod t)))"

text \<open>The result is the index of the node and \<open>*hash_return\<close>.\<close>

definition g_hash_table_lookup_node :: "('p, 'w) GHashTable \<Rightarrow> 'p gpointer \<Rightarrow> (guint \<times> guint) option" where
  "g_hash_table_lookup_node t key = do {
     h \<leftarrow> ht_hash_func t key;
     let hash_value = (if \<not> HASH_IS_REAL h then 2 else h);
     start \<leftarrow> first_index t hash_value;
     node_index \<leftarrow> lookup_loop t key hash_value None 0 start;
     Some (node_index, hash_value) }"

section \<open>Resizing\<close>

record 'p new_arrays =
  na_keys :: "'p gpointer list"
  na_values :: "'p gpointer list option"
  na_hashes :: "guint list"

partial_function (option) free_slot_loop :: "guint list \<Rightarrow> guint \<Rightarrow> guint \<Rightarrow> guint \<Rightarrow> guint option" where
  "free_slot_loop hs msk step hash_val =
     Option.bind (arr_get hs (uint hash_val)) (\<lambda>h.
       if HASH_IS_UNUSED h then Some hash_val
       else free_slot_loop hs msk (step + 1) ((hash_val + (step + 1)) AND msk))"

text \<open>Reading \<open>values[i]\<close>.\<close>

definition value_at :: "('p, 'w) GHashTable \<Rightarrow> int \<Rightarrow> 'p gpointer option" where
  "value_at t i = arr_get (case ht_values t of Some vs \<Rightarrow> vs | None \<Rightarrow> ht_keys t) i"

text \<open>One entry; the key is written before the value, to the same place when the arrays are one.\<close>

definition resize_step :: "('p, 'w) GHashTable \<Rightarrow> int \<Rightarrow> 'p new_arrays \<Rightarrow> 'p new_arrays option" where
  "resize_step t i n = do {
     node_hash \<leftarrow> arr_get (ht_hashes t) i;
     if \<not> HASH_IS_REAL node_hash then Some n
     else do {
       start \<leftarrow> first_index t node_hash;
       hash_val \<leftarrow> free_slot_loop (na_hashes n) (ht_mask t) 0 start;
       k \<leftarrow> arr_get (ht_keys t) i;
       v \<leftarrow> value_at t i;
       hs \<leftarrow> arr_set (na_hashes n) (uint hash_val) node_hash;
       ks \<leftarrow> arr_set (na_keys n) (uint hash_val) k;
       case na_values n of
         None \<Rightarrow> do {
           ks' \<leftarrow> arr_set ks (uint hash_val) v;
           Some (n\<lparr>na_hashes := hs, na_keys := ks'\<rparr>) }
       | Some vs \<Rightarrow> do {
           vs' \<leftarrow> arr_set vs (uint hash_val) v;
           Some (n\<lparr>na_hashes := hs, na_keys := ks, na_values := Some vs'\<rparr>) } } }"

fun resize_loop :: "('p, 'w) GHashTable \<Rightarrow> int list \<Rightarrow> 'p new_arrays \<Rightarrow> 'p new_arrays option" where
  "resize_loop t [] n = Some n"
| "resize_loop t (i # is) n = do { n' \<leftarrow> resize_step t i n; resize_loop t is n' }"

definition g_hash_table_resize :: "('p, 'w) GHashTable \<Rightarrow> ('p, 'w) GHashTable option" where
  "g_hash_table_resize t = do {
     let old_size = ht_size t;
     want \<leftarrow> gint (ht_nnodes t * 2);
     t1 \<leftarrow> g_hash_table_set_shift_from_size want t;
     let size = nat (ht_size t1);
     n \<leftarrow> resize_loop t1 [0..old_size - 1]
       \<lparr>na_keys = replicate size None,
        na_values = (case ht_values t1 of None \<Rightarrow> None | Some _ \<Rightarrow> Some (replicate size None)),
        na_hashes = replicate size 0\<rparr>;
     Some (t1\<lparr>ht_keys := na_keys n, ht_values := na_values n, ht_hashes := na_hashes n,
       ht_noccupied := ht_nnodes t1\<rparr>) }"

definition g_hash_table_maybe_resize :: "('p, 'w) GHashTable \<Rightarrow> ('p, 'w) GHashTable option" where
  "g_hash_table_maybe_resize t = do {
     let noccupied = ht_noccupied t;
     let size = ht_size t;
     quad \<leftarrow> gint (ht_nnodes t * 4);
     if size > quad \<and> size > 2 ^ nat HASH_TABLE_MIN_SHIFT then g_hash_table_resize t
     else do {
       load \<leftarrow> gint (noccupied + noccupied div 16);
       if size \<le> load then g_hash_table_resize t else Some t } }"

section \<open>Creation, insertion, lookup\<close>

definition g_hash_table_new_full ::
  "('p gpointer \<Rightarrow> guint option) \<Rightarrow> ('p gpointer \<Rightarrow> 'p gpointer \<Rightarrow> bool option) option \<Rightarrow>
   ('p gpointer \<Rightarrow> 'w \<Rightarrow> 'w) option \<Rightarrow> ('p gpointer \<Rightarrow> 'w \<Rightarrow> 'w) option \<Rightarrow> ('p, 'w) GHashTable" where
  "g_hash_table_new_full hash_func key_equal_func key_destroy_func value_destroy_func =
     \<lparr>ht_size = 2 ^ nat HASH_TABLE_MIN_SHIFT, ht_mod = prime_mod ! nat HASH_TABLE_MIN_SHIFT,
      ht_mask = mask_loop (nat HASH_TABLE_MIN_SHIFT) 0, ht_nnodes = 0, ht_noccupied = 0,
      ht_keys = replicate (2 ^ nat HASH_TABLE_MIN_SHIFT) None,
      ht_hashes = replicate (2 ^ nat HASH_TABLE_MIN_SHIFT) 0, ht_values = None,
      ht_hash_func = hash_func, ht_key_equal_func = key_equal_func, ht_ref_count = 1,
      ht_key_destroy_func = key_destroy_func, ht_value_destroy_func = value_destroy_func\<rparr>"

definition g_hash_table_new ::
  "('p gpointer \<Rightarrow> guint option) \<Rightarrow> ('p gpointer \<Rightarrow> 'p gpointer \<Rightarrow> bool option) option \<Rightarrow> ('p, 'w) GHashTable" where
  "g_hash_table_new hash_func key_equal_func = g_hash_table_new_full hash_func key_equal_func None None"

definition run_destroy :: "('p gpointer \<Rightarrow> 'w \<Rightarrow> 'w) option \<Rightarrow> 'p gpointer \<Rightarrow> 'w \<Rightarrow> 'w" where
  "run_destroy f p w = (case f of Some g \<Rightarrow> g p w | None \<Rightarrow> w)"

text \<open>
  The statement \<open>values[node_index] = new_value\<close> with the copy of the keys before it: while the arrays are
  one, a value that differs from its key makes them two.
\<close>

definition store_value :: "int \<Rightarrow> 'p gpointer \<Rightarrow> ('p, 'w) GHashTable \<Rightarrow> ('p, 'w) GHashTable option" where
  "store_value i v t = do {
     k \<leftarrow> arr_get (ht_keys t) i;
     let vs = (if ht_values t = None \<and> k \<noteq> v then Some (ht_keys t) else ht_values t);
     (case vs of
        None \<Rightarrow> do { ks \<leftarrow> arr_set (ht_keys t) i v; Some (t\<lparr>ht_keys := ks\<rparr>) }
      | Some vs \<Rightarrow> do { vs' \<leftarrow> arr_set vs i v; Some (t\<lparr>ht_values := Some vs'\<rparr>) }) }"

definition g_hash_table_insert_node ::
  "('p, 'w) GHashTable \<Rightarrow> guint \<Rightarrow> guint \<Rightarrow> 'p gpointer \<Rightarrow> 'p gpointer \<Rightarrow> bool \<Rightarrow> bool \<Rightarrow> 'w \<Rightarrow>
   (bool \<times> ('p, 'w) GHashTable \<times> 'w) option" where
  "g_hash_table_insert_node t node_index key_hash new_key new_value keep_new_key reusing_key w = do {
     let i = uint node_index;
     old_hash \<leftarrow> arr_get (ht_hashes t) i;
     if HASH_IS_REAL old_hash then do {
       old_value \<leftarrow> value_at t i;
       old_key \<leftarrow> arr_get (ht_keys t) i;
       ks \<leftarrow> (if keep_new_key then arr_set (ht_keys t) i new_key else Some (ht_keys t));
       t1 \<leftarrow> store_value i new_value (t\<lparr>ht_keys := ks\<rparr>);
       let key_to_free = (if keep_new_key then old_key else new_key);
       let w1 = (if reusing_key then w else run_destroy (ht_key_destroy_func t) key_to_free w);
       Some (False, t1, run_destroy (ht_value_destroy_func t) old_value w1) }
     else do {
       hs \<leftarrow> arr_set (ht_hashes t) i key_hash;
       ks \<leftarrow> arr_set (ht_keys t) i new_key;
       t1 \<leftarrow> store_value i new_value (t\<lparr>ht_hashes := hs, ht_keys := ks\<rparr>);
       n \<leftarrow> gint (ht_nnodes t1 + 1);
       let t2 = t1\<lparr>ht_nnodes := n\<rparr>;
       if HASH_IS_UNUSED old_hash then do {
         oc \<leftarrow> gint (ht_noccupied t2 + 1);
         t3 \<leftarrow> g_hash_table_maybe_resize (t2\<lparr>ht_noccupied := oc\<rparr>);
         Some (True, t3, w) }
       else Some (True, t2, w) } }"

definition g_hash_table_insert_internal ::
  "('p, 'w) GHashTable \<Rightarrow> 'p gpointer \<Rightarrow> 'p gpointer \<Rightarrow> bool \<Rightarrow> 'w \<Rightarrow> (bool \<times> ('p, 'w) GHashTable \<times> 'w) option" where
  "g_hash_table_insert_internal t key v keep_new_key w = do {
     (node_index, key_hash) \<leftarrow> g_hash_table_lookup_node t key;
     g_hash_table_insert_node t node_index key_hash key v keep_new_key False w }"

definition g_hash_table_insert ::
  "('p, 'w) GHashTable \<Rightarrow> 'p gpointer \<Rightarrow> 'p gpointer \<Rightarrow> 'w \<Rightarrow> (bool \<times> ('p, 'w) GHashTable \<times> 'w) option" where
  "g_hash_table_insert t key v w = g_hash_table_insert_internal t key v False w"

definition g_hash_table_lookup :: "('p, 'w) GHashTable \<Rightarrow> 'p gpointer \<Rightarrow> 'p gpointer option" where
  "g_hash_table_lookup t key = do {
     (node_index, node_hash) \<leftarrow> g_hash_table_lookup_node t key;
     h \<leftarrow> arr_get (ht_hashes t) (uint node_index);
     if HASH_IS_REAL h then value_at t (uint node_index) else Some None }"

definition g_hash_table_size :: "('p, 'w) GHashTable \<Rightarrow> guint" where
  "g_hash_table_size t = of_int (ht_nnodes t)"

section \<open>Removing everything\<close>

text \<open>\<open>memset\<close> of an array with \<open>size\<close> entries.\<close>

definition clear_array :: "int \<Rightarrow> 'a \<Rightarrow> 'a list \<Rightarrow> 'a list option" where
  "clear_array n z xs =
     (if 0 \<le> n \<and> n \<le> int (length xs) then Some (replicate (nat n) z @ drop (nat n) xs) else None)"

definition remove_step :: "int \<Rightarrow> ('p, 'w) GHashTable \<Rightarrow> 'w \<Rightarrow> (('p, 'w) GHashTable \<times> 'w) option" where
  "remove_step i t w = do {
     h \<leftarrow> arr_get (ht_hashes t) i;
     if HASH_IS_REAL h then do {
       key \<leftarrow> arr_get (ht_keys t) i;
       v \<leftarrow> value_at t i;
       hs \<leftarrow> arr_set (ht_hashes t) i 0;
       ks \<leftarrow> arr_set (ht_keys t) i None;
       vs \<leftarrow> (case ht_values t of None \<Rightarrow> Some None | Some vs \<Rightarrow> map_option Some (arr_set vs i None));
       Some (t\<lparr>ht_hashes := hs, ht_keys := ks, ht_values := vs\<rparr>,
             run_destroy (ht_value_destroy_func t) v (run_destroy (ht_key_destroy_func t) key w)) }
     else if HASH_IS_TOMBSTONE h then do {
       hs \<leftarrow> arr_set (ht_hashes t) i 0;
       Some (t\<lparr>ht_hashes := hs\<rparr>, w) }
     else Some (t, w) }"

fun remove_loop :: "int list \<Rightarrow> ('p, 'w) GHashTable \<Rightarrow> 'w \<Rightarrow> (('p, 'w) GHashTable \<times> 'w) option" where
  "remove_loop [] t w = Some (t, w)"
| "remove_loop (i # is) t w = do { (t', w') \<leftarrow> remove_step i t w; remove_loop is t' w' }"

definition g_hash_table_remove_all_nodes ::
  "('p, 'w) GHashTable \<Rightarrow> bool \<Rightarrow> 'w \<Rightarrow> (('p, 'w) GHashTable \<times> 'w) option" where
  "g_hash_table_remove_all_nodes t notify w = do {
     let t0 = t\<lparr>ht_nnodes := 0, ht_noccupied := 0\<rparr>;
     if \<not> notify \<or> (ht_key_destroy_func t = None \<and> ht_value_destroy_func t = None) then do {
       hs \<leftarrow> clear_array (ht_size t) 0 (ht_hashes t);
       ks \<leftarrow> clear_array (ht_size t) None (ht_keys t);
       vs \<leftarrow> (case ht_values t of None \<Rightarrow> Some None | Some vs \<Rightarrow> map_option Some (clear_array (ht_size t) None vs));
       Some (t0\<lparr>ht_hashes := hs, ht_keys := ks, ht_values := vs\<rparr>, w) }
     else remove_loop [0..ht_size t - 1] t0 w }"

definition g_hash_table_remove_all :: "('p, 'w) GHashTable \<Rightarrow> 'w \<Rightarrow> (('p, 'w) GHashTable \<times> 'w) option" where
  "g_hash_table_remove_all t w = do {
     (t1, w1) \<leftarrow> g_hash_table_remove_all_nodes t True w;
     t2 \<leftarrow> g_hash_table_maybe_resize t1;
     Some (t2, w1) }"

definition g_hash_table_destroy :: "('p, 'w) GHashTable \<Rightarrow> 'w \<Rightarrow> (('p, 'w) GHashTable \<times> 'w) option" where
  "g_hash_table_destroy t w = g_hash_table_remove_all t w"

section \<open>Iteration\<close>

text \<open>The position of an iterator; the table it runs over is an argument.\<close>

definition g_hash_table_iter_init :: int where
  "g_hash_table_iter_init = - 1"

function iter_seek :: "('p, 'w) GHashTable \<Rightarrow> int \<Rightarrow> (bool \<times> int) option" where
  "iter_seek t position =
     (if position + 1 \<ge> ht_size t then Some (False, position + 1)
      else (case arr_get (ht_hashes t) (position + 1) of
              None \<Rightarrow> None
            | Some h \<Rightarrow> if HASH_IS_REAL h then Some (True, position + 1) else iter_seek t (position + 1)))"
  by pat_completeness auto
termination by (relation "measure (\<lambda>(t, p). nat (ht_size t - p))") auto

declare iter_seek.simps [simp del]

definition g_hash_table_iter_next ::
  "('p, 'w) GHashTable \<Rightarrow> int \<Rightarrow> (('p gpointer \<times> 'p gpointer) option \<times> int) option" where
  "g_hash_table_iter_next t position = do {
     (found, p) \<leftarrow> iter_seek t position;
     if \<not> found then Some (None, p)
     else do {
       k \<leftarrow> arr_get (ht_keys t) p;
       v \<leftarrow> value_at t p;
       Some (Some (k, v), p) } }"

fun foreach_loop ::
  "('p, 'w) GHashTable \<Rightarrow> ('p gpointer \<Rightarrow> 'p gpointer \<Rightarrow> 'u \<Rightarrow> 'u) \<Rightarrow> int list \<Rightarrow> 'u \<Rightarrow> 'u option" where
  "foreach_loop t f [] u = Some u"
| "foreach_loop t f (i # is) u = do {
     h \<leftarrow> arr_get (ht_hashes t) i;
     k \<leftarrow> arr_get (ht_keys t) i;
     v \<leftarrow> value_at t i;
     foreach_loop t f is (if HASH_IS_REAL h then f k v u else u) }"

definition g_hash_table_foreach ::
  "('p, 'w) GHashTable \<Rightarrow> ('p gpointer \<Rightarrow> 'p gpointer \<Rightarrow> 'u \<Rightarrow> 'u) \<Rightarrow> 'u \<Rightarrow> 'u option" where
  "g_hash_table_foreach t f u = foreach_loop t f [0..ht_size t - 1] u"

text \<open>\<open>match\<close> keeps its value at entries that are not used; it is false there.\<close>

fun find_loop ::
  "('p, 'w) GHashTable \<Rightarrow> ('p gpointer \<Rightarrow> 'p gpointer \<Rightarrow> bool) \<Rightarrow> int list \<Rightarrow> bool \<Rightarrow> 'p gpointer option" where
  "find_loop t f [] match = Some None"
| "find_loop t f (i # is) match = do {
     h \<leftarrow> arr_get (ht_hashes t) i;
     k \<leftarrow> arr_get (ht_keys t) i;
     v \<leftarrow> value_at t i;
     let match' = (if HASH_IS_REAL h then f k v else match);
     if match' then Some v else find_loop t f is match' }"

definition g_hash_table_find :: "('p, 'w) GHashTable \<Rightarrow> ('p gpointer \<Rightarrow> 'p gpointer \<Rightarrow> bool) \<Rightarrow> 'p gpointer option" where
  "g_hash_table_find t f = find_loop t f [0..ht_size t - 1] False"

section \<open>Hash functions\<close>

text \<open>
  The functions for strings read characters up to the terminating zero; a character is signed. The functions
  for numbers read one \<open>gint\<close> or one 64 bit number.
\<close>

definition signed_char :: "char \<Rightarrow> guint" where
  "signed_char c = (let n = of_char c :: int in of_int (if n < 128 then n else n - 256))"

fun str_hash_loop :: "string \<Rightarrow> guint \<Rightarrow> guint" where
  "str_hash_loop [] h = h"
| "str_hash_loop (c # cs) h =
     (if c = CHR 0x00 then h else str_hash_loop cs (push_bit 5 h + h + signed_char c))"

definition g_str_hash :: "string \<Rightarrow> guint" where
  "g_str_hash v = str_hash_loop v 5381"

definition g_str_equal :: "string \<Rightarrow> string \<Rightarrow> bool" where
  "g_str_equal v1 v2 \<longleftrightarrow> takeWhile (\<lambda>c. c \<noteq> CHR 0x00) v1 = takeWhile (\<lambda>c. c \<noteq> CHR 0x00) v2"

definition g_strdup :: "string \<Rightarrow> string" where
  "g_strdup str = takeWhile (\<lambda>c. c \<noteq> CHR 0x00) str"

definition g_int_equal :: "32 word \<Rightarrow> 32 word \<Rightarrow> bool" where
  "g_int_equal v1 v2 \<longleftrightarrow> v1 = v2"

definition g_int_hash :: "32 word \<Rightarrow> guint" where
  "g_int_hash v = v"

definition g_int64_equal :: "64 word \<Rightarrow> 64 word \<Rightarrow> bool" where
  "g_int64_equal v1 v2 \<longleftrightarrow> v1 = v2"

definition g_int64_hash :: "64 word \<Rightarrow> guint" where
  "g_int64_hash v = ucast v"

end
