(* ===== verification/GHash_Probe.thy ===== *)
theory GHash_Probe
  imports GHash
begin

text \<open>
  Triangular probing: the positions that the searches of the hash table visit. In a table of size \<open>2 ^ s\<close> the
  first \<open>2 ^ s\<close> positions are all positions of the table, so that a search ends as soon as one is unused.
\<close>

section \<open>Triangular numbers\<close>

fun tri :: "nat \<Rightarrow> nat" where
  "tri 0 = 0"
| "tri (Suc j) = tri j + Suc j"

lemma tri_double: "2 * tri j = j * (j + 1)"
  by (induction j) auto

definition probe_pos :: "nat \<Rightarrow> nat \<Rightarrow> nat \<Rightarrow> nat" where
  "probe_pos s a j = (a + tri j) mod 2 ^ s"

lemma probe_pos_less [simp]: "probe_pos s a j < 2 ^ s"
  by (simp add: probe_pos_def)

lemma probe_pos_0: "a < 2 ^ s \<Longrightarrow> probe_pos s a 0 = a"
  by (simp add: probe_pos_def)

lemma probe_pos_Suc: "probe_pos s a (Suc j) = (probe_pos s a j + Suc j) mod 2 ^ s"
proof -
  have "(probe_pos s a j + Suc j) mod 2 ^ s = (a + tri j + Suc j) mod 2 ^ s"
    unfolding probe_pos_def by (rule mod_add_left_eq)
  then show ?thesis by (simp add: probe_pos_def add.assoc)
qed

text \<open>Of the two factors of a difference of two triangular numbers one is odd.\<close>

lemma power2_dvd_odd_mult:
  fixes u v :: int
  assumes "2 ^ n dvd u * v" "odd u"
  shows "2 ^ n dvd v"
proof -
  have "coprime (2 ^ n) u" using assms(2) by simp
  then show ?thesis using assms(1) by (simp add: coprime_dvd_mult_right_iff)
qed

lemma tri_congruent:
  fixes j k :: nat
  assumes "j < 2 ^ s" "k < 2 ^ s" "(2::int) ^ s dvd int (tri j) - int (tri k)"
  shows "j = k"
proof -
  have "2 * (int (tri j) - int (tri k)) = int (2 * tri j) - int (2 * tri k)" by simp
  also have "\<dots> = int j * (int j + 1) - int k * (int k + 1)" unfolding tri_double by (simp add: algebra_simps)
  also have "\<dots> = (int j - int k) * (int j + int k + 1)" by (simp add: algebra_simps)
  finally have eq: "2 * (int (tri j) - int (tri k)) = (int j - int k) * (int j + int k + 1)" .
  have dvd: "(2::int) ^ Suc s dvd (int j - int k) * (int j + int k + 1)"
    unfolding eq [symmetric] power_Suc using assms(3) by (rule mult_dvd_mono [OF dvd_refl])
  have small: "int j < 2 ^ s" "int k < 2 ^ s"
    using assms(1,2) by (metis of_nat_less_iff of_nat_numeral of_nat_power)+
  have bounds: "int j + int k + 1 < 2 ^ Suc s" "\<bar>int j - int k\<bar> < 2 ^ Suc s"
    unfolding power_Suc abs_less_iff using small by linarith+
  show ?thesis
  proof (cases "odd (int j - int k)")
    case True
    then have "(2::int) ^ Suc s dvd int j + int k + 1" using dvd power2_dvd_odd_mult by blast
    then show ?thesis using bounds(1) by (meson of_nat_0_le_iff zdvd_imp_le add_nonneg_pos not_less add_nonneg_nonneg zero_less_one)
  next
    case False
    then have "odd (int j + int k + 1)" by simp
    then have "(2::int) ^ Suc s dvd int j - int k"
      using dvd power2_dvd_odd_mult by (metis mult.commute)
    then have "int j - int k = 0" using bounds(2) dvd_imp_le_int [of "int j - int k" "2 ^ Suc s"] by auto
    then show ?thesis by simp
  qed
qed

lemma probe_pos_inj: "inj_on (probe_pos s a) {..<2 ^ s}"
proof (rule inj_onI)
  fix j k assume jk: "j \<in> {..<2 ^ s}" "k \<in> {..<2 ^ s}" and eq: "probe_pos s a j = probe_pos s a k"
  have "int (a + tri j) mod 2 ^ s = int (a + tri k) mod 2 ^ s"
    using eq unfolding probe_pos_def by (metis of_nat_mod of_nat_numeral of_nat_power)
  then have "(2::int) ^ s dvd int (tri j) - int (tri k)"
    by (simp add: mod_eq_dvd_iff)
  then show "j = k" using jk tri_congruent by simp
qed

lemma probe_pos_surj: "probe_pos s a ` {..<2 ^ s} = {..<2 ^ s}"
  by (rule endo_inj_surj) (auto intro: probe_pos_inj)

lemma probe_pos_reaches: "i < 2 ^ s \<Longrightarrow> \<exists>j<2 ^ s. probe_pos s a j = i"
  using probe_pos_surj [of s a] by (metis imageE lessThan_iff)

section \<open>Positions as words\<close>

lemma mask_step: "push_bit 1 (mask m :: guint) OR 1 = mask (Suc m)"
  by (rule bit_word_eqI) (auto simp: bit_double_iff mult.commute [of _ "2::guint"] bit_or_iff bit_mask_iff bit_1_iff)

lemma mask_loop_mask: "mask_loop n (mask m) = mask (m + n)"
  by (induction n arbitrary: m) (simp_all only: mask_loop.simps mask_step add_0_right add_Suc_shift)

lemma mask_loop_eq: "mask_loop n 0 = mask n"
  using mask_loop_mask [of n 0] by simp

lemma probe_word:
  assumes "s < 31" "j < 2 ^ s"
  shows "(of_nat (probe_pos s a j) + (of_nat j + 1)) AND mask s = (of_nat (probe_pos s a (Suc j)) :: guint)"
proof -
  have le: "(2::nat) ^ s \<le> 2 ^ 30" using assms(1) by (intro power_increasing) auto
  have "probe_pos s a j + Suc j < 2 * 2 ^ 30 + 1"
    using probe_pos_less [of s a j] assms(2) le by linarith
  then have "probe_pos s a j + Suc j < 2 ^ 32" by simp
  then have "unat (of_nat (probe_pos s a j + Suc j) :: guint) = probe_pos s a j + Suc j"
    by (subst unat_of_nat) simp
  then have "unat ((of_nat (probe_pos s a j + Suc j) :: guint) AND mask s) = probe_pos s a (Suc j)"
    by (simp only: unat_and_mask probe_pos_Suc)
  then have "(of_nat (probe_pos s a j + Suc j) :: guint) AND mask s = of_nat (probe_pos s a (Suc j))"
    by (metis of_nat_unat ucast_id)
  then show ?thesis by (simp add: algebra_simps)
qed

lemma uint_position: "\<lbrakk>s < 31; i < 2 ^ s\<rbrakk> \<Longrightarrow> uint (of_nat i :: guint) = int i"
proof -
  assume s: "s < 31" and i: "i < 2 ^ s"
  have "(2::nat) ^ s \<le> 2 ^ 30" using s by (intro power_increasing) auto
  then show ?thesis using i by (simp add: uint_nat unat_of_nat)
qed

end
