(* ===== verification/GHash_Table.thy ===== *)
theory GHash_Table
  imports GHash_Probe
begin

text \<open>
  The invariant of the hash table and the searches over it. The locale \<open>hash_functions\<close> is what the table relies
  on: comparing keys is an equivalence, and equal keys have the same hash value.
\<close>

section \<open>Nodes and invariant\<close>

lemmas hash_defs = HASH_IS_UNUSED_def HASH_IS_TOMBSTONE_def HASH_IS_REAL_def

definition real_hash :: "guint \<Rightarrow> guint" where
  "real_hash h = (if \<not> HASH_IS_REAL h then 2 else h)"

definition table_values :: "('p, 'w) GHashTable \<Rightarrow> 'p gpointer list" where
  "table_values t = (case ht_values t of Some vs \<Rightarrow> vs | None \<Rightarrow> ht_keys t)"

definition node_at :: "('p, 'w) GHashTable \<Rightarrow> nat \<Rightarrow> guint \<Rightarrow> 'p gpointer \<Rightarrow> 'p gpointer \<Rightarrow> bool" where
  "node_at t i h k v \<longleftrightarrow> i < length (ht_hashes t) \<and> ht_hashes t ! i = h \<and> HASH_IS_REAL h \<and>
     ht_keys t ! i = k \<and> table_values t ! i = v"

definition used :: "('p, 'w) GHashTable \<Rightarrow> nat" where
  "used t = card {i. i < length (ht_hashes t) \<and> HASH_IS_REAL (ht_hashes t ! i)}"

definition home :: "('p, 'w) GHashTable \<Rightarrow> guint \<Rightarrow> nat" where
  "home t h = unat (h mod of_int (ht_mod t))"

definition shaped :: "nat \<Rightarrow> ('p, 'w) GHashTable \<Rightarrow> bool" where
  "shaped s t \<longleftrightarrow> 3 \<le> s \<and> s < 31 \<and> ht_size t = 2 ^ s \<and> ht_mod t = prime_mod ! s \<and> ht_mask t = mask s \<and>
     length (ht_hashes t) = 2 ^ s \<and> length (ht_keys t) = 2 ^ s \<and> length (table_values t) = 2 ^ s"

text \<open>Every position that the search for a node visits before the node is in use.\<close>

definition reached :: "nat \<Rightarrow> ('p, 'w) GHashTable \<Rightarrow> guint \<Rightarrow> nat \<Rightarrow> bool" where
  "reached s t h i \<longleftrightarrow> (\<exists>j<2 ^ s. i = probe_pos s (home t h) j \<and>
     (\<forall>j'<j. ht_hashes t ! probe_pos s (home t h) j' \<noteq> 0))"

definition placed :: "nat \<Rightarrow> ('p, 'w) GHashTable \<Rightarrow> bool" where
  "placed s t \<longleftrightarrow> shaped s t \<and> (\<forall>i<2 ^ s. \<not> HASH_IS_TOMBSTONE (ht_hashes t ! i)) \<and>
     (\<forall>i h k v. node_at t i h k v \<longrightarrow> map_option real_hash (ht_hash_func t k) = Some h \<and> reached s t h i) \<and>
     (\<forall>i h k v i' h' k' v'. node_at t i h k v \<longrightarrow> node_at t i' h' k' v' \<longrightarrow>
        keys_equal t k k' = Some True \<longrightarrow> i = i')"

definition ht_inv :: "('p, 'w) GHashTable \<Rightarrow> bool" where
  "ht_inv t \<longleftrightarrow> (\<exists>s. placed s t) \<and> ht_nnodes t = int (used t) \<and> ht_noccupied t = ht_nnodes t \<and>
     ht_nnodes t + ht_nnodes t div 16 < ht_size t"

text \<open>The finite map that a table stands for.\<close>

definition ht_map :: "('p, 'w) GHashTable \<Rightarrow> 'p gpointer \<Rightarrow> 'p gpointer option" where
  "ht_map t k = map_option (\<lambda>i. table_values t ! i)
     (find (\<lambda>i. HASH_IS_REAL (ht_hashes t ! i) \<and> keys_equal t (ht_keys t ! i) k = Some True)
       [0..<length (ht_hashes t)])"

text \<open>What insertion and resizing leave as it is.\<close>

definition same_functions :: "('p, 'w) GHashTable \<Rightarrow> ('p, 'w) GHashTable \<Rightarrow> bool" where
  "same_functions t t' \<longleftrightarrow> ht_hash_func t' = ht_hash_func t \<and> ht_key_equal_func t' = ht_key_equal_func t \<and>
     ht_key_destroy_func t' = ht_key_destroy_func t \<and> ht_value_destroy_func t' = ht_value_destroy_func t"

lemma same_functions_keys_equal: "same_functions t t' \<Longrightarrow> keys_equal t' = keys_equal t"
  by (simp add: same_functions_def keys_equal_def fun_eq_iff)

lemma same_functions_trans: "\<lbrakk>same_functions t t'; same_functions t' t''\<rbrakk> \<Longrightarrow> same_functions t t''"
  by (simp add: same_functions_def)

lemma table_upd_simps [simp]:
  "table_values (t\<lparr>ht_size := n\<rparr>) = table_values t" "table_values (t\<lparr>ht_mod := n\<rparr>) = table_values t"
  "table_values (t\<lparr>ht_mask := m\<rparr>) = table_values t" "table_values (t\<lparr>ht_nnodes := n\<rparr>) = table_values t"
  "table_values (t\<lparr>ht_noccupied := n\<rparr>) = table_values t" "table_values (t\<lparr>ht_hashes := hs\<rparr>) = table_values t"
  "keys_equal (t\<lparr>ht_size := n\<rparr>) = keys_equal t" "keys_equal (t\<lparr>ht_mod := n\<rparr>) = keys_equal t"
  "keys_equal (t\<lparr>ht_mask := m\<rparr>) = keys_equal t" "keys_equal (t\<lparr>ht_nnodes := n\<rparr>) = keys_equal t"
  "keys_equal (t\<lparr>ht_noccupied := n\<rparr>) = keys_equal t"
  by (simp_all add: table_values_def keys_equal_def fun_eq_iff cong: option.case_cong)

section \<open>Shape\<close>

lemma value_at_values: "value_at t i = arr_get (table_values t) i"
  by (simp add: value_at_def table_values_def)

lemma prime_mod_bounds: "\<lbrakk>3 \<le> s; s < 31\<rbrakk> \<Longrightarrow> 0 < prime_mod ! s \<and> prime_mod ! s \<le> 2 ^ s"
proof -
  assume s: "3 \<le> s" "s < 31"
  have "\<forall>s\<in>set [3..<31]. 0 < prime_mod ! s \<and> prime_mod ! s \<le> 2 ^ s" by code_simp
  moreover have "s \<in> set [3..<31]" using s by (simp only: set_upt atLeastLessThan_iff)
  ultimately show ?thesis by blast
qed

lemma shaped_D:
  "shaped s t \<Longrightarrow> 3 \<le> s" "shaped s t \<Longrightarrow> s < 31" "shaped s t \<Longrightarrow> ht_size t = 2 ^ s"
  "shaped s t \<Longrightarrow> ht_mask t = mask s" "shaped s t \<Longrightarrow> length (ht_hashes t) = 2 ^ s"
  "shaped s t \<Longrightarrow> length (ht_keys t) = 2 ^ s" "shaped s t \<Longrightarrow> length (table_values t) = 2 ^ s"
  by (simp_all add: shaped_def)

lemma shaped_size: "shaped s t \<Longrightarrow> (2::nat) ^ s \<le> 2 ^ 30"
  by (rule power_increasing) (auto simp: shaped_def)

lemma shaped_mod:
  assumes "shaped s t"
  shows "uint (of_int (ht_mod t) :: guint) = ht_mod t" "0 < ht_mod t" "ht_mod t \<le> 2 ^ s"
proof -
  show pos: "0 < ht_mod t" and le: "ht_mod t \<le> 2 ^ s"
    using prime_mod_bounds [of s] assms by (auto simp: shaped_def)
  have "(2::int) ^ s \<le> 2 ^ 30" using assms by (intro power_increasing) (auto simp: shaped_def)
  then show "uint (of_int (ht_mod t) :: guint) = ht_mod t"
    using pos le by (simp add: uint_word_of_int)
qed

lemma home_less: "shaped s t \<Longrightarrow> home t h < 2 ^ s"
proof -
  assume sh: "shaped s t"
  have "uint (h mod of_int (ht_mod t)) < ht_mod t"
    unfolding uint_mod shaped_mod(1) [OF sh] by (rule pos_mod_bound [OF shaped_mod(2) [OF sh]])
  then have "int (home t h) < 2 ^ s" using shaped_mod(3) [OF sh] by (simp add: home_def)
  then show ?thesis by (metis of_nat_less_iff of_nat_numeral of_nat_power)
qed

lemma first_index_home: "shaped s t \<Longrightarrow> first_index t h = Some (of_nat (probe_pos s (home t h) 0))"
proof -
  assume sh: "shaped s t"
  have "(of_int (ht_mod t) :: guint) \<noteq> 0"
  proof
    assume "(of_int (ht_mod t) :: guint) = 0"
    then have "uint (of_int (ht_mod t) :: guint) = 0" by simp
    then show False using shaped_mod(1,2) [OF sh] by linarith
  qed
  then show ?thesis
    using home_less [OF sh, of h] by (simp add: first_index_def probe_pos_0 home_def)
qed

lemma real_iff: "HASH_IS_REAL h \<longleftrightarrow> h \<noteq> 0 \<and> h \<noteq> 1"
proof -
  have "unat h \<noteq> 0 \<longleftrightarrow> h \<noteq> 0" "unat h \<noteq> 1 \<longleftrightarrow> h \<noteq> 1" by (auto simp: word_unat_eq_iff)
  then show ?thesis by (auto simp: HASH_IS_REAL_def word_le_nat_alt)
qed

lemma real_hash_real: "HASH_IS_REAL (real_hash h)"
  by (simp add: real_hash_def HASH_IS_REAL_def)

lemma placed_used_or_real:
  "\<lbrakk>placed s t; i < 2 ^ s; ht_hashes t ! i \<noteq> 0\<rbrakk> \<Longrightarrow> HASH_IS_REAL (ht_hashes t ! i)"
  by (auto simp: placed_def real_iff HASH_IS_TOMBSTONE_def)

lemma free_slot_exists:
  "\<lbrakk>placed s t; used t < 2 ^ s\<rbrakk> \<Longrightarrow> \<exists>i<2 ^ s. ht_hashes t ! i = 0"
proof (rule ccontr)
  assume p: "placed s t" "used t < 2 ^ s" and no: "\<not> (\<exists>i<2 ^ s. ht_hashes t ! i = 0)"
  then have "{i. i < length (ht_hashes t) \<and> HASH_IS_REAL (ht_hashes t ! i)} = {..<2 ^ s}"
    using placed_used_or_real [OF p(1)] by (auto simp: placed_def shaped_def)
  then show False using p(2) by (simp add: used_def)
qed

text \<open>The first position on the way of a search that has a property.\<close>

lemma first_position:
  assumes "i < 2 ^ s" "P i"
  obtains J where "J < 2 ^ s" "P (probe_pos s a J)" "\<And>j. j < J \<Longrightarrow> \<not> P (probe_pos s a j)"
proof -
  obtain j where j: "j < 2 ^ s" "P (probe_pos s a j)" using probe_pos_reaches [OF assms(1)] assms(2) by metis
  let ?J = "LEAST j. P (probe_pos s a j)"
  have "P (probe_pos s a ?J)" "?J \<le> j" "\<And>j. j < ?J \<Longrightarrow> \<not> P (probe_pos s a j)"
    using j(2) by (auto intro: LeastI Least_le dest: not_less_Least)
  then show thesis using that j(1) by (meson le_less_trans)
qed

lemma arr_get_position:
  "\<lbrakk>s < 31; i < 2 ^ s; length xs = 2 ^ s\<rbrakk> \<Longrightarrow> arr_get xs (uint (of_nat i :: guint)) = Some (xs ! i)"
  by (simp only: arr_get_def uint_position) simp

lemma free_slot_loop_finds:
  assumes "s < 31" "length hs = 2 ^ s" "J < 2 ^ s" "hs ! probe_pos s a J = 0"
    and "\<And>j. j < J \<Longrightarrow> hs ! probe_pos s a j \<noteq> 0" and "j \<le> J"
  shows "free_slot_loop hs (mask s) (of_nat j) (of_nat (probe_pos s a j)) = Some (of_nat (probe_pos s a J))"
  using assms(6)
proof (induction j rule: inc_induct)
  case base
  show ?case
    by (subst free_slot_loop.simps) (use assms in \<open>simp add: arr_get_position hash_defs\<close>)
next
  case (step j)
  have "(of_nat (probe_pos s a j) + (of_nat j + 1)) AND mask s = (of_nat (probe_pos s a (Suc j)) :: guint)"
    using probe_word [OF assms(1)] step.hyps assms(3) by simp
  moreover have "hs ! probe_pos s a j \<noteq> 0" using step.hyps assms(5) by simp
  ultimately show ?case
    using step.IH assms(1,2)
    by (subst free_slot_loop.simps) (simp add: arr_get_position hash_defs add.commute)
qed

lemma placed_shaped: "placed s t \<Longrightarrow> shaped s t"
  by (simp add: placed_def)

lemma placed_no_tombstone: "\<lbrakk>placed s t; i < 2 ^ s\<rbrakk> \<Longrightarrow> \<not> HASH_IS_TOMBSTONE (ht_hashes t ! i)"
  by (simp add: placed_def)

lemma placed_node:
  "\<lbrakk>placed s t; node_at t i h k v\<rbrakk> \<Longrightarrow> map_option real_hash (ht_hash_func t k) = Some h \<and> reached s t h i"
  unfolding placed_def by blast

lemma placed_distinct:
  "\<lbrakk>placed s t; node_at t i h k v; node_at t i' h' k' v'; keys_equal t k k' = Some True\<rbrakk> \<Longrightarrow> i = i'"
  unfolding placed_def by blast

section \<open>Adding a node\<close>

text \<open>A table that differs from a table \<open>t\<close> in the node at an unused position.\<close>

definition added :: "nat \<Rightarrow> guint \<Rightarrow> 'p gpointer \<Rightarrow> 'p gpointer \<Rightarrow> ('p, 'w) GHashTable \<Rightarrow> ('p, 'w) GHashTable \<Rightarrow> bool" where
  "added i h k v t t' \<longleftrightarrow> ht_hashes t' = (ht_hashes t)[i := h] \<and> ht_keys t' = (ht_keys t)[i := k] \<and>
     table_values t' = (table_values t)[i := v] \<and> ht_size t' = ht_size t \<and> ht_mod t' = ht_mod t \<and>
     ht_mask t' = ht_mask t \<and> same_functions t t'"

lemma added_node_at:
  assumes "placed s t" "added i h k v t t'" "i < 2 ^ s" "ht_hashes t ! i = 0" "HASH_IS_REAL h"
  shows "node_at t' i' h' k' v' \<longleftrightarrow> (if i' = i then (h', k', v') = (h, k, v) else node_at t i' h' k' v')"
  using assms by (auto simp: node_at_def added_def placed_def shaped_def nth_list_update)

lemma added_nodes:
  assumes "placed s t" "added i h k v t t'" "i < 2 ^ s" "ht_hashes t ! i = 0" "HASH_IS_REAL h"
  shows "(\<exists>i'. node_at t' i' h' k' v') \<longleftrightarrow> (h', k', v') = (h, k, v) \<or> (\<exists>i'. node_at t i' h' k' v')"
proof -
  have "\<not> node_at t i h' k' v'" using assms(4) by (auto simp: node_at_def HASH_IS_REAL_def)
  then show ?thesis unfolding added_node_at [OF assms] by metis
qed

lemma added_used:
  assumes "placed s t" "added i h k v t t'" "i < 2 ^ s" "ht_hashes t ! i = 0" "HASH_IS_REAL h"
  shows "used t' = Suc (used t)"
proof -
  have "{i'. i' < length (ht_hashes t') \<and> HASH_IS_REAL (ht_hashes t' ! i')} =
      insert i {i'. i' < length (ht_hashes t) \<and> HASH_IS_REAL (ht_hashes t ! i')}"
    using assms by (auto simp: added_def placed_def shaped_def nth_list_update)
  moreover have "i \<notin> {i'. i' < length (ht_hashes t) \<and> HASH_IS_REAL (ht_hashes t ! i')}"
    using assms(4) by (simp add: HASH_IS_REAL_def)
  ultimately show ?thesis by (simp add: used_def)
qed

lemma added_reached:
  assumes "placed s t" "added i h k v t t'" "i < 2 ^ s" "h \<noteq> 0" "reached s t h' i'"
  shows "reached s t' h' i'"
proof -
  have "ht_hashes t ! p \<noteq> 0 \<Longrightarrow> ht_hashes t' ! p \<noteq> 0" if "p < 2 ^ s" for p
    using assms that by (auto simp: added_def placed_def shaped_def nth_list_update)
  moreover have "home t' h' = home t h'" using assms(2) by (simp add: added_def home_def)
  ultimately show ?thesis using assms(5) by (auto simp: reached_def)
qed

lemma added_placed:
  assumes p: "placed s t" and a: "added i h k v t t'" and i: "reached s t h i" "ht_hashes t ! i = 0"
    and h: "map_option real_hash (ht_hash_func t k) = Some h"
    and new: "\<And>i' h' k' v'. node_at t i' h' k' v' \<Longrightarrow>
      keys_equal t k' k \<noteq> Some True \<and> keys_equal t k k' \<noteq> Some True"
  shows "placed s t'"
proof -
  have less: "i < 2 ^ s" using i(1) by (auto simp: reached_def)
  have real: "HASH_IS_REAL h" using h real_hash_real by (cases "ht_hash_func t k") auto
  then have nz: "h \<noteq> 0" "h \<noteq> 1" by (simp_all add: real_iff)
  note node = added_node_at [OF p a less i(2) real]
  have shape: "shaped s t'" using p a by (simp add: placed_def shaped_def added_def)
  have tomb: "\<forall>i'<2 ^ s. \<not> HASH_IS_TOMBSTONE (ht_hashes t' ! i')"
    using p a nz less by (auto simp: placed_def shaped_def added_def HASH_IS_TOMBSTONE_def nth_list_update)
  have fs: "ht_hash_func t' = ht_hash_func t" "keys_equal t' = keys_equal t"
    using a same_functions_keys_equal by (auto simp: added_def same_functions_def)
  have "map_option real_hash (ht_hash_func t' k') = Some h' \<and> reached s t' h' i'" if "node_at t' i' h' k' v'" for i' h' k' v'
    using that h i(1) added_reached [OF p a less nz(1)] placed_node [OF p, of i' h' k' v'] unfolding node fs
    by (cases "i' = i") auto
  moreover have "i1 = i2" if "node_at t' i1 h1 k1 v1" "node_at t' i2 h2 k2 v2" "keys_equal t' k1 k2 = Some True"
    for i1 h1 k1 v1 i2 h2 k2 v2
    using that new placed_distinct [OF p, of i1 h1 k1 v1 i2 h2 k2 v2] unfolding node fs by (auto split: if_splits)
  ultimately show ?thesis unfolding placed_def using shape tomb by blast
qed

section \<open>Storing a value\<close>

lemma store_value_stores:
  assumes "i < length (ht_keys t)" "length (table_values t) = length (ht_keys t)"
  shows "\<exists>vs. store_value (int i) v t = Some (t\<lparr>ht_values := vs\<rparr>) \<and>
    table_values (t\<lparr>ht_values := vs\<rparr>) = (table_values t)[i := v]"
proof (cases "ht_values t")
  case None
  show ?thesis
  proof (cases "ht_keys t ! i = v")
    case True
    then have "(ht_keys t)[i := v] = ht_keys t" by (metis list_update_id)
    then have "store_value (int i) v t = Some (t\<lparr>ht_values := None\<rparr>)"
      using assms None True by (simp add: store_value_def arr_get_def arr_set_def)
    then show ?thesis using None \<open>(ht_keys t)[i := v] = ht_keys t\<close> by (auto simp: table_values_def)
  next
    case False
    then show ?thesis using assms None by (auto simp: store_value_def arr_get_def arr_set_def table_values_def)
  qed
next
  case (Some vs)
  then show ?thesis using assms by (auto simp: store_value_def arr_get_def arr_set_def table_values_def)
qed

section \<open>Searching a key\<close>

locale hash_functions =
  fixes hf :: "'p gpointer \<Rightarrow> guint option" and ke :: "'p gpointer \<Rightarrow> 'p gpointer \<Rightarrow> bool option"
  assumes ke_defined: "\<lbrakk>hf a \<noteq> None; hf b \<noteq> None\<rbrakk> \<Longrightarrow> ke a b \<noteq> None"
    and ke_refl: "hf a \<noteq> None \<Longrightarrow> ke a a = Some True"
    and ke_sym: "ke a b = Some True \<Longrightarrow> ke b a = Some True"
    and ke_trans: "\<lbrakk>ke a b = Some True; ke b c = Some True\<rbrakk> \<Longrightarrow> ke a c = Some True"
    and ke_hash: "ke a b = Some True \<Longrightarrow> hf a = hf b"
begin

text \<open>A table with these functions.\<close>

definition serves :: "('p, 'w) GHashTable \<Rightarrow> bool" where
  "serves t \<longleftrightarrow> ht_hash_func t = hf \<and> keys_equal t = ke"

lemma serves_same: "\<lbrakk>serves t; same_functions t t'\<rbrakk> \<Longrightarrow> serves t'"
  using same_functions_keys_equal by (auto simp: serves_def same_functions_def)

text \<open>Where a search stops.\<close>

definition stops :: "('p, 'w) GHashTable \<Rightarrow> 'p gpointer \<Rightarrow> guint \<Rightarrow> nat \<Rightarrow> bool" where
  "stops t k h i \<longleftrightarrow> ht_hashes t ! i = 0 \<or> (ht_hashes t ! i = h \<and> ke (ht_keys t ! i) k = Some True)"

lemma lookup_loop_finds:
  assumes p: "placed s t" and sv: "serves t" and k: "map_option real_hash (hf k) = Some h"
    and J: "J < 2 ^ s" "stops t k h (probe_pos s a J)" "\<And>j. j < J \<Longrightarrow> \<not> stops t k h (probe_pos s a j)"
    and j: "j \<le> J"
  shows "lookup_loop t k h None (of_nat j) (of_nat (probe_pos s a j)) = Some (of_nat (probe_pos s a J))"
  using j
proof (induction j rule: inc_induct)
  case base
  show ?case
    using J(2) sv shaped_D(2,4-6) [OF placed_shaped [OF p]]
    by (subst lookup_loop.simps) (auto simp: arr_get_position hash_defs stops_def serves_def)
next
  case (step j)
  let ?i = "probe_pos s a j"
  have sh: "shaped s t" using p by (simp add: placed_def)
  have nz: "ht_hashes t ! ?i \<noteq> 0" and no: "ht_hashes t ! ?i = h \<Longrightarrow> ke (ht_keys t ! ?i) k \<noteq> Some True"
    using J(3) [OF step.hyps(2)] by (auto simp: stops_def)
  have tomb: "\<not> HASH_IS_TOMBSTONE (ht_hashes t ! ?i)" using p by (simp add: placed_def)
  have "node_at t ?i (ht_hashes t ! ?i) (ht_keys t ! ?i) (table_values t ! ?i)"
    using placed_used_or_real [OF p _ nz] shaped_D(5) [OF sh] by (simp add: node_at_def)
  then have "hf (ht_keys t ! ?i) \<noteq> None" using placed_node [OF p] sv by (fastforce simp: serves_def)
  then have "ke (ht_keys t ! ?i) k \<noteq> None" using k by (intro ke_defined) auto
  then have cmp: "ht_hashes t ! ?i = h \<Longrightarrow> keys_equal t (ht_keys t ! ?i) k = Some False"
    using no sv by (auto simp: serves_def)
  have "(of_nat ?i + (of_nat j + 1)) AND mask s = (of_nat (probe_pos s a (Suc j)) :: guint)"
    using probe_word [OF shaped_D(2) [OF sh]] step.hyps J(1) by simp
  then show ?case
    using step.IH nz tomb cmp shaped_D(2,4-6) [OF sh]
    by (subst lookup_loop.simps) (auto simp: arr_get_position hash_defs add.commute)
qed

text \<open>The search ends at the node of the key or, when there is none, at the place for it.\<close>

lemma lookup_node_finds:
  assumes p: "placed s t" and sv: "serves t" and k: "map_option real_hash (hf k) = Some h" and free: "used t < 2 ^ s"
  obtains i where "g_hash_table_lookup_node t k = Some (of_nat i, h)" "i < 2 ^ s" "reached s t h i"
    "(ht_hashes t ! i = 0 \<and> (\<forall>i' h' k' v'. node_at t i' h' k' v' \<longrightarrow> ke k' k \<noteq> Some True)) \<or>
     (\<exists>k' v. node_at t i h k' v \<and> ke k' k = Some True)"
proof -
  have sh: "shaped s t" using p by (simp add: placed_def)
  obtain i0 where "i0 < 2 ^ s" "stops t k h i0" using free_slot_exists [OF p free] by (auto simp: stops_def)
  then obtain J where J: "J < 2 ^ s" "stops t k h (probe_pos s (home t h) J)"
      "\<And>j. j < J \<Longrightarrow> \<not> stops t k h (probe_pos s (home t h) j)"
    by (rule first_position [where a = "home t h"]) blast
  let ?i = "probe_pos s (home t h) J"
  have "g_hash_table_lookup_node t k = Some (of_nat ?i, h)"
    using k sv lookup_loop_finds [OF p sv k J, of 0] first_index_home [OF sh]
    by (auto simp: g_hash_table_lookup_node_def serves_def real_hash_def bind_Some_iff Let_def)
  moreover have "reached s t h ?i" using J(1,3) by (auto simp: reached_def stops_def)
  moreover have "\<exists>k' v. node_at t ?i h k' v \<and> ke k' k = Some True" if "ht_hashes t ! ?i \<noteq> 0"
    using J(2) that placed_used_or_real [OF p _ that] shaped_D(5) [OF sh] by (auto simp: stops_def node_at_def)
  moreover have "ke k' k \<noteq> Some True" if zero: "ht_hashes t ! ?i = 0" and n: "node_at t i' h' k' v'" for i' h' k' v'
  proof
    assume eq: "ke k' k = Some True"
    have "map_option real_hash (hf k') = Some h'" "reached s t h' i'" using placed_node [OF p n] sv by (simp_all add: serves_def)
    then have h': "h' = h" using ke_hash [OF eq] k by simp
    then obtain j where j: "j < 2 ^ s" "i' = probe_pos s (home t h) j"
        "\<forall>j'<j. ht_hashes t ! probe_pos s (home t h) j' \<noteq> 0"
      using \<open>reached s t h' i'\<close> by (auto simp: reached_def)
    have "stops t k h i'" using n eq h' by (auto simp: stops_def node_at_def)
    then have "\<not> j < J" using J(3) j(2) by blast
    moreover have "\<not> J < j" using j(3) zero by blast
    moreover have "j \<noteq> J" using n zero j(2) by (auto simp: node_at_def HASH_IS_REAL_def)
    ultimately show False by simp
  qed
  ultimately show thesis using that by (meson probe_pos_less)
qed

end

end
