(* ===== verification/GHash_Refine.thy ===== *)
theory GHash_Refine
  imports GHash_Table
begin

text \<open>
  The hash table refines a finite map: resizing keeps the nodes and leaves more than half of the table unused,
  insertion updates the map at the keys equal to its key, lookup returns the value of the map, and every search
  ends.
\<close>

section \<open>The new size\<close>

lemma closest_shift_ends:
  "\<exists>b. closest_shift_loop (int n) i = Some (i + int b) \<and> n < 2 ^ b \<and> (n = 0 \<or> 2 ^ b \<le> 2 * n)"
proof (induction n arbitrary: i rule: less_induct)
  case (less n)
  show ?case
  proof (cases "n = 0")
    case True
    then show ?thesis by (intro exI [of _ 0]) (simp add: closest_shift_loop.simps)
  next
    case False
    then obtain b where b: "closest_shift_loop (int (n div 2)) (i + 1) = Some (i + 1 + int b)" "n div 2 < 2 ^ b"
        "n div 2 = 0 \<or> 2 ^ b \<le> 2 * (n div 2)"
      using less.IH [of "n div 2" "i + 1"] by auto
    have "b = 0" if "n div 2 = 0"
      using b(1) that by (simp add: closest_shift_loop.simps)
    then have "2 ^ Suc b \<le> 2 * n" using b(3) False by auto
    moreover have "n < 2 ^ Suc b" using b(2) by (simp add: div_less_iff_less_mult mult.commute)
    moreover have "closest_shift_loop (int n) i = Some (i + int (Suc b))"
      using b(1) False by (subst closest_shift_loop.simps) (simp add: zdiv_int)
    ultimately show ?thesis by blast
  qed
qed

lemma set_shift_from_size_fits:
  assumes "n < 2 ^ 30"
  shows "\<exists>s. 3 \<le> s \<and> s < 31 \<and> n < 2 ^ s \<and> g_hash_table_set_shift_from_size (int n) t =
    Some (t\<lparr>ht_size := 2 ^ s, ht_mod := prime_mod ! s, ht_mask := mask s\<rparr>)"
proof -
  obtain b where b: "closest_shift_loop (int n) 0 = Some (int b)" "n < 2 ^ b" "n = 0 \<or> 2 ^ b \<le> 2 * n"
    using closest_shift_ends [of n 0] by auto
  have "b < 31"
  proof (cases "n = 0")
    case True
    then show ?thesis using b(1) by (simp add: closest_shift_loop.simps)
  next
    case False
    then have "(2::nat) ^ b < 2 ^ 31" using b(3) assms by simp
    then show ?thesis by (rule power_less_imp_less_exp [rotated]) simp
  qed
  let ?s = "max b 3"
  have "n < 2 ^ ?s" using b(2) by (rule less_le_trans) (rule power_increasing, auto)
  moreover have "g_hash_table_set_shift_from_size (int n) t =
      Some (t\<lparr>ht_size := 2 ^ ?s, ht_mod := prime_mod ! ?s, ht_mask := mask ?s\<rparr>)"
  proof -
    have "max (int b) HASH_TABLE_MIN_SHIFT = int ?s" by (simp add: HASH_TABLE_MIN_SHIFT_def)
    moreover have "arr_get prime_mod (int ?s) = Some (prime_mod ! ?s)"
      using \<open>b < 31\<close> by (simp add: arr_get_def prime_mod_def)
    ultimately show ?thesis
      using b(1) \<open>b < 31\<close>
      by (simp add: g_hash_table_set_shift_from_size_def g_hash_table_find_closest_shift_def
          g_hash_table_set_shift_def mask_loop_eq)
  qed
  ultimately show ?thesis using \<open>b < 31\<close> by (intro exI [of _ ?s]) simp
qed

section \<open>Moving the nodes\<close>

definition with_arrays :: "('p, 'w) GHashTable \<Rightarrow> 'p new_arrays \<Rightarrow> ('p, 'w) GHashTable" where
  "with_arrays t n = t\<lparr>ht_keys := na_keys n, ht_values := na_values n, ht_hashes := na_hashes n\<rparr>"

text \<open>After \<open>m\<close> positions the new arrays hold the nodes of the first \<open>m\<close> positions of the old arrays.\<close>

definition moved :: "('p, 'w) GHashTable \<Rightarrow> nat \<Rightarrow> nat \<Rightarrow> 'p new_arrays \<Rightarrow> bool" where
  "moved t s m n \<longleftrightarrow> placed s (with_arrays t n) \<and> (na_values n = None \<longleftrightarrow> ht_values t = None) \<and>
     (\<forall>h k v. (\<exists>i. node_at (with_arrays t n) i h k v) \<longleftrightarrow> (\<exists>i<m. node_at t i h k v)) \<and>
     used (with_arrays t n) = card {i. i < m \<and> HASH_IS_REAL (ht_hashes t ! i)}"

lemma resize_loop_append:
  "resize_loop t (is @ js) n = do { n' \<leftarrow> resize_loop t is n; resize_loop t js n' }"
  by (induction "is" arbitrary: n) (auto split: Option.bind_split)

lemma upto_Suc: "[0..int m] = [0..int m - 1] @ [int m]"
  by (simp add: upto_rec2)

lemma with_arrays_sel [simp]:
  "ht_hashes (with_arrays t n) = na_hashes n" "ht_keys (with_arrays t n) = na_keys n"
  "ht_values (with_arrays t n) = na_values n" "ht_hash_func (with_arrays t n) = ht_hash_func t"
  "keys_equal (with_arrays t n) = keys_equal t" "ht_mask (with_arrays t n) = ht_mask t"
  "ht_mod (with_arrays t n) = ht_mod t"
  by (simp_all add: with_arrays_def keys_equal_def fun_eq_iff)

lemma home_with_arrays [simp]: "home (with_arrays t n) h = home t h"
  by (simp add: home_def)

lemma first_index_with_arrays: "first_index (with_arrays t n) h = first_index t h"
  by (simp add: first_index_def)

context hash_functions
begin

text \<open>
  The table \<open>t\<close> still has the old arrays, of \<open>old\<close> entries, and already the new size. Its nodes have pairwise
  different keys.
\<close>

definition sound_nodes :: "nat \<Rightarrow> ('p, 'w) GHashTable \<Rightarrow> bool" where
  "sound_nodes old t \<longleftrightarrow> length (ht_hashes t) = old \<and> length (ht_keys t) = old \<and> length (table_values t) = old \<and>
     (\<forall>i h k v. node_at t i h k v \<longrightarrow> map_option real_hash (hf k) = Some h) \<and>
     (\<forall>i h k v i' h' k' v'. node_at t i h k v \<longrightarrow> node_at t i' h' k' v' \<longrightarrow> ke k k' = Some True \<longrightarrow> i = i')"

lemma resize_step_keeps:
  assumes sv: "serves t" and sn: "sound_nodes old t" and mv: "moved t s m n" and m: "m < old"
    and fit: "used (with_arrays t n) < 2 ^ s"
    and real: "HASH_IS_REAL (ht_hashes t ! m)"
  obtains i n' where "resize_step t (int m) n = Some n'" "ht_hashes (with_arrays t n) ! i = 0"
    "reached s (with_arrays t n) (ht_hashes t ! m) i" "na_values n' = None \<longleftrightarrow> ht_values t = None"
    "added i (ht_hashes t ! m) (ht_keys t ! m) (table_values t ! m) (with_arrays t n) (with_arrays t n')"
proof -
  let ?T = "with_arrays t n" and ?h = "ht_hashes t ! m"
  have p: "placed s ?T" and vs: "na_values n = None \<longleftrightarrow> ht_values t = None" using mv by (auto simp: moved_def)
  note sh = placed_shaped [OF p]
  obtain i0 where "i0 < 2 ^ s" "na_hashes n ! i0 = 0" using free_slot_exists [OF p fit] by auto
  then obtain J where J: "J < 2 ^ s" "na_hashes n ! probe_pos s (home t ?h) J = 0"
      "\<And>j. j < J \<Longrightarrow> na_hashes n ! probe_pos s (home t ?h) j \<noteq> 0"
    by (rule first_position [where a = "home t ?h"]) blast
  let ?i = "probe_pos s (home t ?h) J"
  have lens: "s < 31" "ht_mask t = mask s" "length (na_hashes n) = 2 ^ s" "length (na_keys n) = 2 ^ s"
      "length (table_values ?T) = 2 ^ s"
    using shaped_D(2,4,5,6,7) [OF sh] by simp_all
  have free: "free_slot_loop (na_hashes n) (ht_mask t) 0 (of_nat (probe_pos s (home t ?h) 0)) = Some (of_nat ?i)"
    using free_slot_loop_finds [OF lens(1,3) J(1,2,3), of 0] lens(2) by simp
  have start: "first_index t ?h = Some (of_nat (probe_pos s (home t ?h) 0))"
    using first_index_home [OF sh, of ?h] by (simp add: first_index_with_arrays)
  have old: "arr_get (ht_hashes t) (int m) = Some ?h" "arr_get (ht_keys t) (int m) = Some (ht_keys t ! m)"
      "value_at t (int m) = Some (table_values t ! m)"
    using sn m by (auto simp: sound_nodes_def arr_get_def value_at_values)
  have idx: "uint (of_nat ?i :: guint) = int ?i" using uint_position lens(1) by simp
  have reached: "reached s ?T ?h ?i" using J(1,3) by (auto simp: reached_def)
  show thesis
  proof (cases "na_values n")
    case None
    then have same: "table_values t ! m = ht_keys t ! m" using vs by (simp add: table_values_def)
    let ?n = "n\<lparr>na_hashes := (na_hashes n)[?i := ?h], na_keys := (na_keys n)[?i := ht_keys t ! m]\<rparr>"
    have "resize_step t (int m) n = Some ?n"
      using None real old start free lens same
      by (simp add: resize_step_def arr_set_def idx)
    moreover have "added ?i ?h (ht_keys t ! m) (table_values t ! m) ?T (with_arrays t ?n)"
      using None same by (simp add: added_def table_values_def same_functions_def with_arrays_def)
    ultimately show thesis using that [of ?n ?i] J(2) reached None vs by simp
  next
    case (Some vals)
    let ?n = "n\<lparr>na_hashes := (na_hashes n)[?i := ?h], na_keys := (na_keys n)[?i := ht_keys t ! m],
      na_values := Some (vals[?i := table_values t ! m])\<rparr>"
    have "length vals = 2 ^ s" using Some lens(5) by (simp add: table_values_def)
    then have "resize_step t (int m) n = Some ?n"
      using Some real old start free lens
      by (simp add: resize_step_def arr_set_def idx)
    moreover have "added ?i ?h (ht_keys t ! m) (table_values t ! m) ?T (with_arrays t ?n)"
      using Some by (simp add: added_def table_values_def same_functions_def with_arrays_def)
    ultimately show thesis using that [of ?n ?i] J(2) reached Some vs by simp
  qed
qed

lemma moved_step:
  assumes sv: "serves t" and sn: "sound_nodes old t" and mv: "moved t s m n" and m: "m < old"
    and fit: "card {i. i < old \<and> HASH_IS_REAL (ht_hashes t ! i)} < 2 ^ s"
  shows "\<exists>n'. resize_step t (int m) n = Some n' \<and> moved t s (Suc m) n'"
proof (cases "HASH_IS_REAL (ht_hashes t ! m)")
  case False
  have "{i. i < Suc m \<and> HASH_IS_REAL (ht_hashes t ! i)} = {i. i < m \<and> HASH_IS_REAL (ht_hashes t ! i)}"
    using False by (auto simp: less_Suc_eq)
  moreover have "(\<exists>i<Suc m. node_at t i h k v) \<longleftrightarrow> (\<exists>i<m. node_at t i h k v)" for h k v
    using False by (auto simp: less_Suc_eq node_at_def)
  ultimately have "moved t s (Suc m) n" using mv by (simp add: moved_def)
  moreover have "resize_step t (int m) n = Some n"
    using False sn m by (simp add: resize_step_def sound_nodes_def arr_get_def)
  ultimately show ?thesis by blast
next
  case True
  let ?T = "with_arrays t n" and ?h = "ht_hashes t ! m" and ?k = "ht_keys t ! m" and ?v = "table_values t ! m"
  have p: "placed s ?T" and nodes: "\<And>h k v. (\<exists>i. node_at ?T i h k v) \<longleftrightarrow> (\<exists>i<m. node_at t i h k v)"
    and us: "used ?T = card {i. i < m \<and> HASH_IS_REAL (ht_hashes t ! i)}" using mv by (auto simp: moved_def)
  have less: "card {i. i < m \<and> HASH_IS_REAL (ht_hashes t ! i)} \<le> card {i. i < old \<and> HASH_IS_REAL (ht_hashes t ! i)}"
    using m by (intro card_mono) auto
  obtain i n' where i: "resize_step t (int m) n = Some n'" "ht_hashes ?T ! i = 0" "reached s ?T ?h i"
      "na_values n' = None \<longleftrightarrow> ht_values t = None" and add: "added i ?h ?k ?v ?T (with_arrays t n')"
    by (rule resize_step_keeps [OF sv sn mv m _ True]) (use us less fit in auto)
  have il: "i < 2 ^ s" using i(3) by (auto simp: reached_def)
  have node_m: "node_at t m ?h ?k ?v" using True sn m by (simp add: node_at_def sound_nodes_def)
  have distinct: "ke k' ?k \<noteq> Some True" if "node_at ?T i' h' k' v'" for i' h' k' v'
    using that nodes [of h' k' v'] node_m sn unfolding sound_nodes_def by blast
  have "placed s (with_arrays t n')"
  proof (rule added_placed [OF p add i(3,2)])
    show "map_option real_hash (ht_hash_func ?T ?k) = Some ?h"
      using node_m sn sv unfolding sound_nodes_def serves_def by (metis with_arrays_sel(4))
    show "keys_equal ?T k' ?k \<noteq> Some True \<and> keys_equal ?T ?k k' \<noteq> Some True" if "node_at ?T i' h' k' v'" for i' h' k' v'
      using distinct [OF that] ke_sym sv by (auto simp: serves_def)
  qed
  moreover have "(\<exists>i'. node_at (with_arrays t n') i' h k v) \<longleftrightarrow> (\<exists>i<Suc m. node_at t i h k v)" for h k v
  proof -
    have "(\<exists>i'. node_at (with_arrays t n') i' h k v) \<longleftrightarrow> (h, k, v) = (?h, ?k, ?v) \<or> (\<exists>i. node_at ?T i h k v)"
      by (rule added_nodes [OF p add il i(2) True])
    also have "\<dots> \<longleftrightarrow> (\<exists>i<Suc m. node_at t i h k v)"
      unfolding nodes using node_m by (auto simp: less_Suc_eq node_at_def)
    finally show ?thesis .
  qed
  moreover have "used (with_arrays t n') = card {i. i < Suc m \<and> HASH_IS_REAL (ht_hashes t ! i)}"
  proof -
    have "{i. i < Suc m \<and> HASH_IS_REAL (ht_hashes t ! i)} = insert m {i. i < m \<and> HASH_IS_REAL (ht_hashes t ! i)}"
      using True by (auto simp: less_Suc_eq)
    then show ?thesis using added_used [OF p add il i(2) True] us by simp
  qed
  ultimately show ?thesis using i(1,4) by (auto simp: moved_def)
qed

lemma resize_loop_moves:
  assumes "serves t" "sound_nodes old t" "moved t s 0 n" "m \<le> old"
    and "card {i. i < old \<and> HASH_IS_REAL (ht_hashes t ! i)} < 2 ^ s"
  shows "\<exists>n'. resize_loop t [0..int m - 1] n = Some n' \<and> moved t s m n'"
  using assms(4)
proof (induction m)
  case 0
  then show ?case using assms(3) by simp
next
  case (Suc m)
  then obtain n1 where "resize_loop t [0..int m - 1] n = Some n1" "moved t s m n1" by auto
  moreover obtain n2 where "resize_step t (int m) n1 = Some n2" "moved t s (Suc m) n2"
    using moved_step [OF assms(1,2) calculation(2) _ assms(5)] Suc.prems by auto
  ultimately show ?case by (auto simp: upto_Suc resize_loop_append)
qed

text \<open>Resizing: the same nodes, and fewer nodes than half the size.\<close>

lemma resize_keeps_nodes:
  assumes p: "placed s0 t" and sv: "serves t" and n: "ht_nnodes t = int (used t)" "used t < 2 ^ 29"
  obtains t' where "g_hash_table_resize t = Some t'" "ht_inv t'" "same_functions t t'" "ht_nnodes t' = ht_nnodes t"
    "\<And>h k v. (\<exists>i. node_at t' i h k v) \<longleftrightarrow> (\<exists>i. node_at t i h k v)"
proof -
  note sh0 = placed_shaped [OF p]
  obtain s where s: "3 \<le> s" "s < 31" "2 * used t < 2 ^ s" "g_hash_table_set_shift_from_size (int (2 * used t)) t =
      Some (t\<lparr>ht_size := 2 ^ s, ht_mod := prime_mod ! s, ht_mask := mask s\<rparr>)"
    using set_shift_from_size_fits [of "2 * used t" t] n(2) by auto
  let ?t = "t\<lparr>ht_size := 2 ^ s, ht_mod := prime_mod ! s, ht_mask := mask s\<rparr>"
  let ?n = "\<lparr>na_keys = replicate (2 ^ s) None,
      na_values = (case ht_values t of None \<Rightarrow> None | Some _ \<Rightarrow> Some (replicate (2 ^ s) None)),
      na_hashes = replicate (2 ^ s) 0\<rparr>"
  have node: "node_at ?t = node_at t" by (simp add: node_at_def fun_eq_iff)
  have sv': "serves ?t" using sv by (simp add: serves_def)
  have hk: "hf = ht_hash_func t" "ke = keys_equal t" using sv by (simp_all add: serves_def)
  have sn: "sound_nodes (2 ^ s0) ?t"
    unfolding sound_nodes_def node unfolding hk
    using shaped_D(5-7) [OF sh0] placed_node [OF p] placed_distinct [OF p] by auto
  have empty: "\<not> node_at (with_arrays ?t ?n) i h k v" for i h k v
    by (auto simp: node_at_def HASH_IS_REAL_def)
  have "placed s (with_arrays ?t ?n)"
    using s(1,2) empty
    by (simp add: placed_def shaped_def with_arrays_def table_values_def HASH_IS_TOMBSTONE_def split: option.splits)
  then have mv: "moved ?t s 0 ?n"
    using empty by (auto simp: moved_def used_def HASH_IS_REAL_def split: option.splits)
  have us: "card {i. i < 2 ^ s0 \<and> HASH_IS_REAL (ht_hashes ?t ! i)} = used t"
    using shaped_D(5) [OF sh0] by (simp add: used_def)
  obtain n' where n': "resize_loop ?t [0..int (2 ^ s0) - 1] ?n = Some n'" "moved ?t s (2 ^ s0) n'"
    using resize_loop_moves [OF sv' sn mv order_refl] us s(3) by auto
  let ?r = "(with_arrays ?t n')\<lparr>ht_noccupied := ht_nnodes t\<rparr>"
  have same: "node_at ?r = node_at (with_arrays ?t n')" "used ?r = used (with_arrays ?t n')"
    by (simp_all add: node_at_def used_def fun_eq_iff)
  have res: "g_hash_table_resize t = Some ?r"
    using n'(1) s(4) n shaped_D(3) [OF sh0]
    by (simp add: g_hash_table_resize_def gint_def Let_def with_arrays_def mult.commute nat_power_eq
        cong: option.case_cong)
  have pl: "placed s ?r"
    using n'(2) unfolding moved_def placed_def same by (simp add: shaped_def reached_def home_def)
  have ur: "used ?r = used t" using n'(2) us unfolding same by (simp add: moved_def)
  have "int (2 * used t) < int (2 ^ s)" using s(3) by (simp only: of_nat_less_iff)
  then have "int (used t) + int (used t) div 16 < 2 ^ s" by simp
  then have "ht_inv ?r" unfolding ht_inv_def using pl ur n(1) by (auto simp: with_arrays_def)
  moreover have "(\<exists>i. node_at ?r i h k v) \<longleftrightarrow> (\<exists>i. node_at t i h k v)" for h k v
  proof -
    have "(\<exists>i. node_at ?r i h k v) \<longleftrightarrow> (\<exists>i<2 ^ s0. node_at t i h k v)"
      using n'(2) unfolding same by (simp add: moved_def node)
    then show ?thesis using shaped_D(5) [OF sh0] by (auto simp: node_at_def)
  qed
  ultimately show thesis
    using that [OF res] by (simp add: same_functions_def with_arrays_def)
qed

lemma same_functions_refl: "same_functions t t"
  by (simp add: same_functions_def)

lemma maybe_resize_keeps_nodes:
  assumes p: "placed s t" and sv: "serves t" and n: "ht_nnodes t = int (used t)" "used t < 2 ^ 29"
    and oc: "ht_noccupied t = ht_nnodes t"
  obtains t' where "g_hash_table_maybe_resize t = Some t'" "ht_inv t'" "same_functions t t'"
    "ht_nnodes t' = ht_nnodes t" "\<And>h k v. (\<exists>i. node_at t' i h k v) \<longleftrightarrow> (\<exists>i. node_at t i h k v)"
proof -
  have g: "gint (ht_nnodes t * 4) = Some (ht_nnodes t * 4)"
      "gint (ht_noccupied t + ht_noccupied t div 16) = Some (ht_noccupied t + ht_noccupied t div 16)"
    using n oc by (auto simp: gint_def)
  have "g_hash_table_maybe_resize t = g_hash_table_resize t \<or>
      (g_hash_table_maybe_resize t = Some t \<and> ht_nnodes t + ht_nnodes t div 16 < ht_size t)"
    using g oc by (auto simp: g_hash_table_maybe_resize_def Let_def)
  then show thesis
  proof
    assume "g_hash_table_maybe_resize t = g_hash_table_resize t"
    then show thesis using resize_keeps_nodes [OF p sv n] that by metis
  next
    assume "g_hash_table_maybe_resize t = Some t \<and> ht_nnodes t + ht_nnodes t div 16 < ht_size t"
    then show thesis using that [of t] p n(1) oc same_functions_refl by (auto simp: ht_inv_def)
  qed
qed

section \<open>The map\<close>

lemma ht_map_iff:
  assumes p: "placed s t" and sv: "serves t"
  shows "ht_map t k = Some v \<longleftrightarrow> (\<exists>i h k'. node_at t i h k' v \<and> ke k' k = Some True)"
proof -
  let ?P = "\<lambda>i. HASH_IS_REAL (ht_hashes t ! i) \<and> keys_equal t (ht_keys t ! i) k = Some True"
  have eq: "keys_equal t = ke" using sv by (simp add: serves_def)
  have *: "find ?P [0..<length (ht_hashes t)] = Some i" if n: "node_at t i h k' v'" "ke k' k = Some True" for i h k' v'
  proof -
    have "?P i" "i < length (ht_hashes t)" using n eq by (auto simp: node_at_def)
    then have "find ?P [0..<length (ht_hashes t)] \<noteq> None" by (auto simp: find_None_iff)
    then obtain i' where i': "find ?P [0..<length (ht_hashes t)] = Some i'" by auto
    then have at: "i' < length (ht_hashes t)" "?P i'" by (auto simp: find_Some_iff)
    then have "node_at t i' (ht_hashes t ! i') (ht_keys t ! i') (table_values t ! i')" by (simp add: node_at_def)
    moreover have "keys_equal t (ht_keys t ! i') k' = Some True"
      using at(2) n(2) ke_sym ke_trans unfolding eq by blast
    ultimately have "i' = i" using placed_distinct [OF p _ n(1)] by blast
    then show ?thesis using i' by simp
  qed
  show ?thesis
  proof
    assume "ht_map t k = Some v"
    then obtain i where "find ?P [0..<length (ht_hashes t)] = Some i" "v = table_values t ! i"
      by (auto simp: ht_map_def)
    then show "\<exists>i h k'. node_at t i h k' v \<and> ke k' k = Some True"
      using eq by (auto simp: find_Some_iff node_at_def)
  next
    assume "\<exists>i h k'. node_at t i h k' v \<and> ke k' k = Some True"
    then obtain i h k' where n: "node_at t i h k' v" "ke k' k = Some True" by blast
    then show "ht_map t k = Some v" using * [OF n] by (simp add: ht_map_def node_at_def)
  qed
qed

lemma ht_map_None:
  assumes "placed s t" "serves t" "\<And>i h k' v. node_at t i h k' v \<Longrightarrow> ke k' k \<noteq> Some True"
  shows "ht_map t k = None"
  using ht_map_iff [OF assms(1,2)] assms(3) by (metis option.exhaust)

lemma ht_map_update:
  assumes "placed s t" "serves t" "placed s' t'" "serves t'" "hf k \<noteq> None"
    and nodes: "\<And>h' k' v'. (\<exists>i. node_at t' i h' k' v') \<longleftrightarrow>
      (ke k' k = Some True \<and> v' = v \<and> (h', k') = (h0, k0)) \<or> (ke k' k \<noteq> Some True \<and> (\<exists>i. node_at t i h' k' v'))"
    and k0: "ke k0 k = Some True"
  shows "ht_map t' k' = (if ke k k' = Some True then Some v else ht_map t k')"
proof -
  have key: "ke k1 k' = Some True \<Longrightarrow> ke k1 k = Some True \<longleftrightarrow> ke k k' = Some True" for k1
    using ke_sym ke_trans by blast
  have "ht_map t' k' = Some x \<longleftrightarrow> (if ke k k' = Some True then Some v else ht_map t k') = Some x" for x
  proof (cases "ke k k' = Some True")
    case True
    have "ht_map t' k' = Some x \<longleftrightarrow> (\<exists>h' k1. (\<exists>i. node_at t' i h' k1 x) \<and> ke k1 k' = Some True)"
      using ht_map_iff [OF assms(3,4)] by blast
    also have "\<dots> \<longleftrightarrow> x = v"
      unfolding nodes using True key k0 ke_trans by blast
    finally show ?thesis using True by auto
  next
    case False
    have "ht_map t' k' = Some x \<longleftrightarrow> (\<exists>h' k1. (\<exists>i. node_at t' i h' k1 x) \<and> ke k1 k' = Some True)"
      using ht_map_iff [OF assms(3,4)] by blast
    also have "\<dots> \<longleftrightarrow> (\<exists>h' k1. (\<exists>i. node_at t i h' k1 x) \<and> ke k1 k' = Some True)"
      unfolding nodes using False key by blast
    also have "\<dots> \<longleftrightarrow> ht_map t k' = Some x" using ht_map_iff [OF assms(1,2)] by blast
    finally show ?thesis using False by simp
  qed
  then show ?thesis by (metis option.exhaust)
qed

section \<open>Lookup and insertion\<close>

lemma ht_inv_free: "\<lbrakk>ht_inv t; placed s t\<rbrakk> \<Longrightarrow> used t < 2 ^ s"
proof -
  assume i: "ht_inv t" and p: "placed s t"
  have "int (used t) + int (used t) div 16 < 2 ^ s"
    using i shaped_D(3) [OF placed_shaped [OF p]] by (auto simp: ht_inv_def)
  moreover have "0 \<le> int (used t) div 16" by simp
  ultimately have "int (used t) < 2 ^ s" by linarith
  then show ?thesis by (metis of_nat_less_iff of_nat_numeral of_nat_power)
qed

lemma lookup_refines_map:
  assumes inv: "ht_inv t" and sv: "serves t" and k: "hf k \<noteq> None"
  shows "g_hash_table_lookup t k = Some (case ht_map t k of None \<Rightarrow> None | Some v \<Rightarrow> v)"
proof -
  obtain s where p: "placed s t" using inv by (auto simp: ht_inv_def)
  obtain h where h: "map_option real_hash (hf k) = Some h" using k by auto
  note sh = placed_shaped [OF p]
  obtain i where i: "g_hash_table_lookup_node t k = Some (of_nat i, h)" "i < 2 ^ s"
    "(ht_hashes t ! i = 0 \<and> (\<forall>i' h' k' v'. node_at t i' h' k' v' \<longrightarrow> ke k' k \<noteq> Some True)) \<or>
     (\<exists>k' v. node_at t i h k' v \<and> ke k' k = Some True)"
    by (rule lookup_node_finds [OF p sv h ht_inv_free [OF inv p]])
  note get = arr_get_position [OF shaped_D(2) [OF sh] i(2)]
  show ?thesis
  proof (cases "ht_hashes t ! i = 0")
    case True
    then have "ht_map t k \<noteq> Some v" for v
      using i(3) ht_map_iff [OF p sv, of k v] by (auto simp: node_at_def HASH_IS_REAL_def)
    then have "ht_map t k = None" by (cases "ht_map t k") auto
    then show ?thesis
      using True i(1) shaped_D(5) [OF sh] by (simp add: g_hash_table_lookup_def HASH_IS_REAL_def get)
  next
    case False
    then obtain k' v where n: "node_at t i h k' v" "ke k' k = Some True" using i(3) by blast
    then have "ht_map t k = Some v" using ht_map_iff [OF p sv] by blast
    then show ?thesis
      using n(1) i(1) shaped_D(5,7) [OF sh] by (simp add: g_hash_table_lookup_def node_at_def value_at_values get)
  qed
qed

text \<open>The outcome of an insertion.\<close>

definition inserts :: "('p, 'w) GHashTable \<Rightarrow> 'p gpointer \<Rightarrow> 'p gpointer \<Rightarrow> ('p, 'w) GHashTable \<Rightarrow> bool" where
  "inserts t k v t' \<longleftrightarrow> ht_inv t' \<and> serves t' \<and> same_functions t t' \<and>
     ht_nnodes t' = ht_nnodes t + (if ht_map t k = None then 1 else 0) \<and>
     (\<forall>k'. ht_map t' k' = (if ke k k' = Some True then Some v else ht_map t k'))"

lemma insert_existing:
  assumes inv: "ht_inv t" and p: "placed s t" and sv: "serves t" and k: "hf k \<noteq> None"
    and n: "node_at t i h k0 v0" "ke k0 k = Some True"
  shows "\<exists>t'. g_hash_table_insert_node t (of_nat i) h' k v False False w =
      Some (False, t', run_destroy (ht_value_destroy_func t) v0 (run_destroy (ht_key_destroy_func t) k w)) \<and>
    inserts t k v t'"
proof -
  note sh = placed_shaped [OF p]
  have i: "i < 2 ^ s" using n(1) shaped_D(5) [OF sh] by (simp add: node_at_def)
  obtain vs where vs: "store_value (int i) v t = Some (t\<lparr>ht_values := vs\<rparr>)"
      "table_values (t\<lparr>ht_values := vs\<rparr>) = (table_values t)[i := v]"
    using store_value_stores [of i t v] i shaped_D(6,7) [OF sh] by auto
  let ?t = "t\<lparr>ht_values := vs\<rparr>"
  have idx: "uint (of_nat i :: guint) = int i" using uint_position shaped_D(2) [OF sh] i by blast
  have eq: "keys_equal ?t = keys_equal t" by (simp add: keys_equal_def fun_eq_iff)
  have node: "node_at ?t i' h' k' v' \<longleftrightarrow> (if i' = i then (h', k', v') = (h, k0, v) else node_at t i' h' k' v')" for i' h' k' v'
    using n(1) i shaped_D(5,7) [OF sh] vs(2) by (auto simp: node_at_def nth_list_update)
  have ex: "(\<exists>v'. node_at ?t i' h' k' v') \<longleftrightarrow> (\<exists>v'. node_at t i' h' k' v')" for i' h' k'
    using n(1) unfolding node by (auto simp: node_at_def)
  have "placed s ?t"
    using p vs(2) unfolding placed_def shaped_def reached_def home_def eq ex [symmetric]
    by simp (metis ex)
  moreover have sv': "serves ?t" using sv eq by (simp add: serves_def)
  ultimately have map: "ht_map ?t k' = (if ke k k' = Some True then Some v else ht_map t k')" for k'
  proof (rule ht_map_update [OF p sv _ _ k])
    have "ke k' k \<noteq> Some True" if "node_at t i' h' k' v'" "i' \<noteq> i" for i' h' k' v'
      using that placed_distinct [OF p that(1) n(1)] n(2) ke_sym ke_trans sv unfolding serves_def by blast
    then show "(\<exists>i'. node_at ?t i' h' k' v') \<longleftrightarrow> (ke k' k = Some True \<and> v' = v \<and> (h', k') = (h, k0)) \<or>
        (ke k' k \<noteq> Some True \<and> (\<exists>i'. node_at t i' h' k' v'))" for h' k' v'
      using n unfolding node by (metis (no_types, lifting) Pair_inject node_at_def)
    show "ke k0 k = Some True" by (rule n(2))
  qed
  have "ht_map t k \<noteq> None" using ht_map_iff [OF p sv, of k v0] n by auto
  then have "inserts t k v ?t"
    using inv \<open>placed s ?t\<close> sv' map by (auto simp: inserts_def ht_inv_def used_def same_functions_def)
  moreover have "g_hash_table_insert_node t (of_nat i) h' k v False False w =
      Some (False, ?t, run_destroy (ht_value_destroy_func t) v0 (run_destroy (ht_key_destroy_func t) k w))"
    using n(1) i vs(1) shaped_D(5-7) [OF sh]
    by (simp add: g_hash_table_insert_node_def idx node_at_def arr_get_def value_at_values Let_def)
  ultimately show ?thesis by blast
qed

lemma insert_new:
  assumes inv: "ht_inv t" and p: "placed s t" and sv: "serves t" and h: "map_option real_hash (hf k) = Some h"
    and i: "reached s t h i" "ht_hashes t ! i = 0"
    and new: "\<And>i' h' k' v'. node_at t i' h' k' v' \<Longrightarrow> ke k' k \<noteq> Some True" and fits: "ht_nnodes t + 1 < 2 ^ 29"
  shows "\<exists>t'. g_hash_table_insert_node t (of_nat i) h k v False False w = Some (True, t', w) \<and> inserts t k v t'"
proof -
  note sh = placed_shaped [OF p]
  have il: "i < 2 ^ s" using i(1) by (auto simp: reached_def)
  have k: "hf k \<noteq> None" using h by auto
  have real: "HASH_IS_REAL h" using h real_hash_real by auto
  have idx: "uint (of_nat i :: guint) = int i" using uint_position shaped_D(2) [OF sh] il by blast
  have eqs: "ht_hash_func t = hf" "keys_equal t = ke" using sv by (simp_all add: serves_def)
  let ?t1 = "t\<lparr>ht_hashes := (ht_hashes t)[i := h], ht_keys := (ht_keys t)[i := k]\<rparr>"
  have len1: "length (table_values ?t1) = length (ht_keys ?t1)" and val1: "(table_values ?t1)[i := v] = (table_values t)[i := v]"
    using shaped_D(6,7) [OF sh] by (auto simp: table_values_def split: option.splits)
  obtain vs where vs: "store_value (int i) v ?t1 = Some (?t1\<lparr>ht_values := vs\<rparr>)"
      "table_values (?t1\<lparr>ht_values := vs\<rparr>) = (table_values t)[i := v]"
    using store_value_stores [of i ?t1 v] il shaped_D(6) [OF sh] len1 val1 by auto
  let ?t2 = "?t1\<lparr>ht_values := vs, ht_nnodes := ht_nnodes t + 1, ht_noccupied := ht_noccupied t + 1\<rparr>"
  have add: "added i h k v t ?t2"
    using vs(2) by (simp add: added_def same_functions_def)
  have p2: "placed s ?t2"
  proof (rule added_placed [OF p add i])
    show "map_option real_hash (ht_hash_func t k) = Some h" using h by (simp add: eqs)
    show "keys_equal t k' k \<noteq> Some True \<and> keys_equal t k k' \<noteq> Some True" if "node_at t i' h' k' v'" for i' h' k' v'
      using new [OF that] ke_sym [of k k'] by (auto simp: eqs)
  qed
  have sv2: "serves ?t2" using serves_same sv add by (auto simp: added_def)
  have u2: "used ?t2 = Suc (used t)" by (rule added_used [OF p add il i(2) real])
  obtain t' where t': "g_hash_table_maybe_resize ?t2 = Some t'" "ht_inv t'" "same_functions ?t2 t'"
      "ht_nnodes t' = ht_nnodes ?t2" "\<And>h k v. (\<exists>i. node_at t' i h k v) \<longleftrightarrow> (\<exists>i. node_at ?t2 i h k v)"
    by (rule maybe_resize_keeps_nodes [OF p2 sv2]) (use inv fits u2 in \<open>auto simp: ht_inv_def\<close>)
  have sv': "serves t'" by (rule serves_same [OF sv2 t'(3)])
  obtain s' where p': "placed s' t'" using t'(2) by (auto simp: ht_inv_def)
  have none: "ht_map t k = None"
    using ht_map_None [OF p sv] new by blast
  have "ht_map t' k' = (if ke k k' = Some True then Some v else ht_map t k')" for k'
  proof (rule ht_map_update [OF p sv p' sv' k])
    show "(\<exists>i'. node_at t' i' h' k' v') \<longleftrightarrow> (ke k' k = Some True \<and> v' = v \<and> (h', k') = (h, k)) \<or>
        (ke k' k \<noteq> Some True \<and> (\<exists>i'. node_at t i' h' k' v'))" for h' k' v'
      unfolding t'(5) added_nodes [OF p add il i(2) real] using new ke_refl [OF k] by auto
    show "ke k k = Some True" by (rule ke_refl [OF k])
  qed
  then have "inserts t k v t'"
    using t'(2-4) sv' none by (auto simp: inserts_def same_functions_def)
  moreover have "g_hash_table_insert_node t (of_nat i) h k v False False w = Some (True, t', w)"
  proof -
    have "gint (ht_nnodes t + 1) = Some (ht_nnodes t + 1)" "gint (ht_noccupied t + 1) = Some (ht_noccupied t + 1)"
      using inv fits by (auto simp: gint_def ht_inv_def)
    then show ?thesis
      using i(2) il vs(1) t'(1) shaped_D(5,6) [OF sh]
      by (simp add: g_hash_table_insert_node_def idx arr_get_def arr_set_def hash_defs Let_def)
  qed
  ultimately show ?thesis by blast
qed

lemma insert_refines_map:
  assumes inv: "ht_inv t" and sv: "serves t" and k: "hf k \<noteq> None" and fits: "ht_nnodes t + 1 < 2 ^ 29"
  shows "\<exists>t' w'. g_hash_table_insert t k v w = Some (ht_map t k = None, t', w') \<and> inserts t k v t' \<and>
    (ht_map t k = None \<or> ht_key_destroy_func t = None \<and> ht_value_destroy_func t = None \<longrightarrow> w' = w)"
proof -
  obtain s where p: "placed s t" using inv by (auto simp: ht_inv_def)
  obtain h where h: "map_option real_hash (hf k) = Some h" using k by auto
  obtain i where i: "g_hash_table_lookup_node t k = Some (of_nat i, h)" "i < 2 ^ s" "reached s t h i"
    "(ht_hashes t ! i = 0 \<and> (\<forall>i' h' k' v'. node_at t i' h' k' v' \<longrightarrow> ke k' k \<noteq> Some True)) \<or>
     (\<exists>k' v. node_at t i h k' v \<and> ke k' k = Some True)"
    by (rule lookup_node_finds [OF p sv h ht_inv_free [OF inv p]])
  have ins: "g_hash_table_insert t k v w = g_hash_table_insert_node t (of_nat i) h k v False False w"
    using i(1) by (simp add: g_hash_table_insert_def g_hash_table_insert_internal_def)
  from i(4) show ?thesis
  proof
    assume new: "ht_hashes t ! i = 0 \<and> (\<forall>i' h' k' v'. node_at t i' h' k' v' \<longrightarrow> ke k' k \<noteq> Some True)"
    then have "ht_map t k = None" using ht_map_None [OF p sv] by blast
    then show ?thesis using insert_new [OF inv p sv h i(3) _ _ fits, of v w] new ins by auto
  next
    assume "\<exists>k' v. node_at t i h k' v \<and> ke k' k = Some True"
    then obtain k0 v0 where n: "node_at t i h k0 v0" "ke k0 k = Some True" by blast
    then have "ht_map t k = Some v0" using ht_map_iff [OF p sv] by blast
    then show ?thesis using insert_existing [OF inv p sv k n, of h v w] ins by (auto simp: run_destroy_def)
  qed
qed

section \<open>An empty table\<close>

lemma new_full_empty:
  assumes "hf' = hf" "keys_equal (g_hash_table_new_full hf' kf kd vd :: ('p, 'w) GHashTable) = ke"
  shows "ht_inv (g_hash_table_new_full hf' kf kd vd :: ('p, 'w) GHashTable)"
    "serves (g_hash_table_new_full hf' kf kd vd :: ('p, 'w) GHashTable)"
    "ht_map (g_hash_table_new_full hf' kf kd vd :: ('p, 'w) GHashTable) k = None"
proof -
  let ?t = "g_hash_table_new_full hf' kf kd vd :: ('p, 'w) GHashTable"
  have sel: "ht_hashes ?t = replicate 8 0" "ht_keys ?t = replicate 8 None" "ht_values ?t = None" "ht_size ?t = 8"
      "ht_mod ?t = 7" "ht_mask ?t = mask 3" "ht_nnodes ?t = 0" "ht_noccupied ?t = 0" "ht_hash_func ?t = hf'"
    by (simp_all add: g_hash_table_new_full_def HASH_TABLE_MIN_SHIFT_def prime_mod_def mask_loop_eq)
  have "\<not> node_at ?t i h k v" for i h k v by (auto simp: node_at_def sel HASH_IS_REAL_def)
  then have "placed 3 ?t"
    by (simp add: placed_def shaped_def sel table_values_def prime_mod_def HASH_IS_TOMBSTONE_def)
  moreover have "used ?t = 0" by (simp add: used_def sel HASH_IS_REAL_def conj_commute cong: conj_cong)
  ultimately show "ht_inv ?t" by (auto simp: ht_inv_def sel)
  show "serves ?t" unfolding serves_def sel by (rule conjI [OF assms])
  show "ht_map ?t k = None" by (auto simp: ht_map_def sel HASH_IS_REAL_def find_None_iff)
qed

end

end
