(* ===== verification/GHash_Strings.thy ===== *)
theory GHash_Strings
  imports GHash_Refine
begin

text \<open>
  Hash tables with strings as keys, the way \<open>hashTable.c\<close> uses them, and the iteration over a table.
\<close>

section \<open>Pointers to strings\<close>

text \<open>
  What the pointers of the region tables point to: a string, the results of a region (numbered by their
  allocation) or an entry of \<open>regionIds\<close>.
\<close>

datatype gobj = Str string | Results nat | Region nat

definition str_hash_func :: "gobj gpointer \<Rightarrow> guint option" where
  "str_hash_func p = (case p of Some (Str s) \<Rightarrow> Some (g_str_hash s) | _ \<Rightarrow> None)"

definition str_equal_func :: "gobj gpointer \<Rightarrow> gobj gpointer \<Rightarrow> bool option" where
  "str_equal_func p q =
     (case (p, q) of (Some (Str s), Some (Str t)) \<Rightarrow> Some (g_str_equal s t) | _ \<Rightarrow> None)"

type_synonym str_table = "(gobj, unit) GHashTable"

definition new_str_table :: str_table where
  "new_str_table = g_hash_table_new str_hash_func (Some str_equal_func)"

lemma str_hash_loop_takeWhile: "str_hash_loop (takeWhile (\<lambda>c. c \<noteq> CHR 0x00) s) h = str_hash_loop s h"
  by (induction s h rule: str_hash_loop.induct) simp_all

lemma g_str_equal_hash: "g_str_equal s t \<Longrightarrow> g_str_hash s = g_str_hash t"
  unfolding g_str_equal_def g_str_hash_def by (metis str_hash_loop_takeWhile)

lemma str_hash_func_defined: "str_hash_func p \<noteq> None \<longleftrightarrow> (\<exists>s. p = Some (Str s))"
  by (auto simp: str_hash_func_def split: option.splits gobj.splits)

lemma str_equal_func_True: "str_equal_func p q = Some True \<longleftrightarrow> (\<exists>s t. p = Some (Str s) \<and> q = Some (Str t) \<and> g_str_equal s t)"
  by (auto simp: str_equal_func_def split: option.splits gobj.splits)

interpretation str: hash_functions str_hash_func str_equal_func
proof
  show "str_equal_func a b \<noteq> None" if "str_hash_func a \<noteq> None" "str_hash_func b \<noteq> None" for a b
    using that unfolding str_hash_func_defined by (auto simp: str_equal_func_def)
  show "str_equal_func a a = Some True" if "str_hash_func a \<noteq> None" for a
    using that unfolding str_hash_func_defined str_equal_func_True by (auto simp: g_str_equal_def)
  show "str_equal_func b a = Some True" if "str_equal_func a b = Some True" for a b
    using that unfolding str_equal_func_True by (auto simp: g_str_equal_def)
  show "str_equal_func a c = Some True" if "str_equal_func a b = Some True" "str_equal_func b c = Some True" for a b c
    using that unfolding str_equal_func_True by (auto simp: g_str_equal_def)
  show "str_hash_func a = str_hash_func b" if "str_equal_func a b = Some True" for a b
    using that unfolding str_equal_func_True by (auto simp: str_hash_func_def g_str_equal_hash)
qed

text \<open>A string table as a map from strings.\<close>

definition str_table_inv :: "str_table \<Rightarrow> bool" where
  "str_table_inv t \<longleftrightarrow> ht_inv t \<and> ht_hash_func t = str_hash_func \<and> ht_key_equal_func t = Some str_equal_func"

definition str_map :: "str_table \<Rightarrow> string \<Rightarrow> gobj gpointer option" where
  "str_map t s = ht_map t (Some (Str s))"

lemma str_table_serves: "str_table_inv t \<Longrightarrow> str.serves t"
  by (simp add: str_table_inv_def str.serves_def keys_equal_def fun_eq_iff)

lemma new_str_table_inv: "str_table_inv new_str_table"
  using str.new_full_empty(1) [of str_hash_func "Some str_equal_func" None None]
  by (simp add: str_table_inv_def new_str_table_def g_hash_table_new_def g_hash_table_new_full_def
      keys_equal_def fun_eq_iff)

lemma new_str_table_map: "str_map new_str_table s = None"
  using str.new_full_empty(3) [of str_hash_func "Some str_equal_func" None None]
  by (simp add: str_map_def new_str_table_def g_hash_table_new_def g_hash_table_new_full_def keys_equal_def fun_eq_iff)

lemma str_lookup: "str_table_inv t \<Longrightarrow>
  g_hash_table_lookup t (Some (Str s)) = Some (case str_map t s of None \<Rightarrow> None | Some v \<Rightarrow> v)"
  unfolding str_map_def
  by (rule str.lookup_refines_map) (auto simp: str_table_inv_def str_table_serves str_hash_func_def)

lemma str_insert:
  assumes inv: "str_table_inv t" and fits: "ht_nnodes t + 1 < 2 ^ 29"
  obtains t' where "g_hash_table_insert t (Some (Str s)) v () = Some (str_map t s = None, t', ())" "str_table_inv t'"
    "ht_nnodes t' = ht_nnodes t + (if str_map t s = None then 1 else 0)"
    "\<And>s'. str_map t' s' = (if g_str_equal s s' then Some v else str_map t s')"
proof -
  have def: "ht_inv t" "str_hash_func (Some (Str s)) \<noteq> None"
    using inv by (auto simp: str_table_inv_def str_hash_func_def)
  obtain t' where t': "g_hash_table_insert t (Some (Str s)) v () = Some (str_map t s = None, t', ())"
      "str.inserts t (Some (Str s)) v t'"
    using str.insert_refines_map [OF def(1) str_table_serves [OF inv] def(2) fits, of v "()"] by (auto simp: str_map_def)
  have "str_map t' s' = (if g_str_equal s s' then Some v else str_map t s')" for s'
    using t'(2) by (auto simp: str.inserts_def str_map_def str_equal_func_def)
  moreover have "str_table_inv t'"
    using t'(2) inv by (simp add: str.inserts_def str_table_inv_def same_functions_def)
  ultimately show thesis using that [OF t'(1)] t'(2) by (simp add: str.inserts_def str_map_def)
qed

section \<open>Sequences of insertions\<close>

fun insert_all :: "str_table \<Rightarrow> (string \<times> gobj gpointer) list \<Rightarrow> str_table option" where
  "insert_all t [] = Some t"
| "insert_all t ((s, v) # kvs) = do { (_, t', _) \<leftarrow> g_hash_table_insert t (Some (Str s)) v (); insert_all t' kvs }"

text \<open>The value that was inserted last for a key.\<close>

fun last_value :: "(string \<times> gobj gpointer) list \<Rightarrow> string \<Rightarrow> gobj gpointer option" where
  "last_value [] s = None"
| "last_value ((s', v) # kvs) s =
     (case last_value kvs s of Some w \<Rightarrow> Some w | None \<Rightarrow> if g_str_equal s' s then Some v else None)"

lemma insert_all_map:
  assumes "str_table_inv t" "ht_nnodes t + int (length kvs) < 2 ^ 29"
  shows "\<exists>t'. insert_all t kvs = Some t' \<and> str_table_inv t' \<and> ht_nnodes t' \<le> ht_nnodes t + int (length kvs) \<and>
    (\<forall>s. str_map t' s = (case last_value kvs s of Some v \<Rightarrow> Some v | None \<Rightarrow> str_map t s))"
  using assms
proof (induction kvs arbitrary: t)
  case (Cons kv kvs)
  obtain s v where kv: "kv = (s, v)" by (cases kv)
  obtain t1 where t1: "g_hash_table_insert t (Some (Str s)) v () = Some (str_map t s = None, t1, ())" "str_table_inv t1"
      "ht_nnodes t1 = ht_nnodes t + (if str_map t s = None then 1 else 0)"
      "\<And>s'. str_map t1 s' = (if g_str_equal s s' then Some v else str_map t s')"
    by (rule str_insert [OF Cons.prems(1), of s v]) (use Cons.prems(2) in auto)
  obtain t2 where t2: "insert_all t1 kvs = Some t2" "str_table_inv t2" "ht_nnodes t2 \<le> ht_nnodes t1 + int (length kvs)"
      "\<forall>s. str_map t2 s = (case last_value kvs s of Some v \<Rightarrow> Some v | None \<Rightarrow> str_map t1 s)"
    using Cons.IH [OF t1(2)] t1(3) Cons.prems(2) by (auto split: if_splits)
  have "ht_nnodes t2 \<le> ht_nnodes t + int (length (kv # kvs))" using t1(3) t2(3) by (auto split: if_splits)
  moreover have "str_map t2 s' = (case last_value (kv # kvs) s' of Some v \<Rightarrow> Some v | None \<Rightarrow> str_map t s')" for s'
    using t2(4) t1(4) by (simp add: kv split: option.splits)
  ultimately show ?case using t1(1) t2(1,2) kv by auto
qed simp

text \<open>
  Property C7. A string table is a finite map: however the keys collide, any sequence of fewer than \<open>2 ^ 29\<close>
  insertions into a new table ends without undefined behaviour, and looking a string up then ends and returns
  the value that was inserted last for a string equal to it, or NULL when there is none.
\<close>

theorem hash_table_is_map:
  assumes "length kvs < 2 ^ 29"
  shows "\<exists>t. insert_all new_str_table kvs = Some t \<and>
    (\<forall>s. g_hash_table_lookup t (Some (Str s)) = Some (case last_value kvs s of None \<Rightarrow> None | Some v \<Rightarrow> v))"
proof -
  have "ht_nnodes new_str_table + int (length kvs) < 2 ^ 29"
    using assms by (simp add: new_str_table_def g_hash_table_new_def g_hash_table_new_full_def)
  then show ?thesis
    using insert_all_map [OF new_str_table_inv, of kvs] str_lookup
    by (fastforce simp: new_str_table_map split: option.splits)
qed

text \<open>Two keys with the same hash value: \<open>''ab''\<close> and \<open>''bA''\<close>.\<close>

theorem hash_table_is_map_witness:
  "\<exists>t. insert_all new_str_table [(''ab'', Some (Results 1)), (''bA'', Some (Results 2)), (''ab'', Some (Results 3))] = Some t \<and>
    g_hash_table_lookup t (Some (Str ''ab'')) = Some (Some (Results 3)) \<and>
    g_hash_table_lookup t (Some (Str ''bA'')) = Some (Some (Results 2)) \<and>
    g_hash_table_lookup t (Some (Str ''cd'')) = Some None \<and> g_str_hash ''ab'' = g_str_hash ''bA''"
proof -
  have "length [(''ab'', Some (Results 1)), (''bA'', Some (Results 2)), (''ab'', Some (Results 3))] < (2::nat) ^ 29" by simp
  from hash_table_is_map [OF this] show ?thesis
    by (auto simp: g_str_equal_def g_str_hash_def signed_char_def Let_def)
qed

section \<open>Iteration\<close>

text \<open>The loop \<open>while (g_hash_table_iter_next (&iter, &key, &value))\<close>.\<close>

lemma iter_seek_advances: "iter_seek t position = Some (b, p) \<Longrightarrow> position < p"
proof (induction t position rule: iter_seek.induct)
  case (1 t position)
  show ?case
    using 1(2) by (auto simp: iter_seek.simps [of t position] dest: 1(1) split: if_splits option.splits)
qed

lemma iter_seek_bound: "iter_seek t position = Some (True, p) \<Longrightarrow> p < ht_size t"
proof (induction t position rule: iter_seek.induct)
  case (1 t position)
  show ?case
    using 1(2) by (auto simp: iter_seek.simps [of t position] dest: 1(1) split: if_splits option.splits)
qed

lemma iter_next_advances:
  "g_hash_table_iter_next t position = Some (Some e, p) \<Longrightarrow> position < p \<and> p < ht_size t"
  using iter_seek_advances iter_seek_bound
  by (auto simp: g_hash_table_iter_next_def bind_Some_iff split: if_splits)

function iter_while ::
  "('p, 'w) GHashTable \<Rightarrow> ('p gpointer \<Rightarrow> 'p gpointer \<Rightarrow> 's \<Rightarrow> 's option) \<Rightarrow> int \<Rightarrow> 's \<Rightarrow> 's option" where
  "iter_while t body position st =
     (case g_hash_table_iter_next t position of
        None \<Rightarrow> None
      | Some (None, p) \<Rightarrow> Some st
      | Some (Some (k, v), p) \<Rightarrow> (case body k v st of None \<Rightarrow> None | Some st' \<Rightarrow> iter_while t body p st'))"
  by pat_completeness auto
termination
  by (relation "measure (\<lambda>(t, body, p, st). nat (ht_size t - p))") (auto dest: iter_next_advances)

declare iter_while.simps [simp del]

text \<open>The entries of a table in the order of their positions.\<close>

definition entries_from :: "nat \<Rightarrow> ('p, 'w) GHashTable \<Rightarrow> ('p gpointer \<times> 'p gpointer) list" where
  "entries_from q t = map (\<lambda>i. (ht_keys t ! i, table_values t ! i))
     (filter (\<lambda>i. HASH_IS_REAL (ht_hashes t ! i)) [q..<length (ht_hashes t)])"

fun fold_opt :: "('a \<Rightarrow> 's \<Rightarrow> 's option) \<Rightarrow> 'a list \<Rightarrow> 's \<Rightarrow> 's option" where
  "fold_opt f [] st = Some st"
| "fold_opt f (x # xs) st = do { st' \<leftarrow> f x st; fold_opt f xs st' }"

lemma fold_opt_append: "fold_opt f (xs @ ys) st = do { st' \<leftarrow> fold_opt f xs st; fold_opt f ys st' }"
  by (induction xs arbitrary: st) (auto split: Option.bind_split)

lemma iter_while_entries:
  assumes sh: "shaped s t" and "q \<le> 2 ^ s"
  shows "iter_while t body (int q - 1) st = fold_opt (\<lambda>(k, v). body k v) (entries_from q t) st"
  using assms(2)
proof (induction "2 ^ s - q" arbitrary: q st)
  case 0
  then have q: "q = 2 ^ s" by simp
  then have "ht_size t = int q" using shaped_D(3) [OF sh] by simp
  then have "iter_seek t (int q - 1) = Some (False, int q)" by (simp add: iter_seek.simps)
  then have "g_hash_table_iter_next t (int q - 1) = Some (None, int q)" by (simp add: g_hash_table_iter_next_def)
  then show ?case
    using shaped_D(5) [OF sh] q by (subst iter_while.simps) (simp add: entries_from_def del: of_nat_power)
next
  case (Suc n)
  then have q: "q < 2 ^ s" by simp
  have IH: "iter_while t body (int q) st' = fold_opt (\<lambda>(k, v). body k v) (entries_from (Suc q) t) st'" for st'
    using Suc.hyps(1) [of "Suc q" st'] Suc.hyps(2) q by simp
  have size: "int q < ht_size t"
    using q shaped_D(3) [OF sh] by (metis of_nat_less_iff of_nat_numeral of_nat_power)
  have "[q..<length (ht_hashes t)] = q # [Suc q..<length (ht_hashes t)]"
    using q shaped_D(5) [OF sh] by (simp add: upt_conv_Cons)
  then have ent: "entries_from q t = (if HASH_IS_REAL (ht_hashes t ! q)
      then (ht_keys t ! q, table_values t ! q) # entries_from (Suc q) t else entries_from (Suc q) t)"
    by (simp add: entries_from_def)
  have get: "arr_get (ht_hashes t) (int q) = Some (ht_hashes t ! q)" "arr_get (ht_keys t) (int q) = Some (ht_keys t ! q)"
      "value_at t (int q) = Some (table_values t ! q)"
    using q shaped_D(5-7) [OF sh] by (simp_all add: arr_get_def value_at_values)
  show ?case
  proof (cases "HASH_IS_REAL (ht_hashes t ! q)")
    case True
    then have "g_hash_table_iter_next t (int q - 1) = Some (Some (ht_keys t ! q, table_values t ! q), int q)"
      using get size by (simp add: g_hash_table_iter_next_def iter_seek.simps [of t "int q - 1"])
    then show ?thesis
      using IH True by (subst iter_while.simps) (simp add: ent split: Option.bind_split option.split)
  next
    case False
    then have "iter_seek t (int q - 1) = iter_seek t (int q)"
      using get size by (simp add: iter_seek.simps [of t "int q - 1"])
    then have "g_hash_table_iter_next t (int q - 1) = g_hash_table_iter_next t (int q)"
      by (simp add: g_hash_table_iter_next_def)
    then have "iter_while t body (int q - 1) st = iter_while t body (int q) st"
      by (subst (1 2) iter_while.simps) simp
    then show ?thesis using IH False by (simp add: ent)
  qed
qed

definition table_entries :: "('p, 'w) GHashTable \<Rightarrow> ('p gpointer \<times> 'p gpointer) list" where
  "table_entries t = entries_from 0 t"

lemma iter_while_all:
  "ht_inv t \<Longrightarrow> iter_while t body g_hash_table_iter_init st = fold_opt (\<lambda>(k, v). body k v) (table_entries t) st"
  using iter_while_entries [of _ t 0 body st] placed_shaped
  by (auto simp: ht_inv_def table_entries_def g_hash_table_iter_init_def)

text \<open>The iteration meets every entry of the map once.\<close>

lemma table_entries_iff: "(k, v) \<in> set (table_entries t) \<longleftrightarrow> (\<exists>i h. node_at t i h k v)"
  by (auto simp: table_entries_def entries_from_def node_at_def)

lemma table_entries_length: "length (table_entries t) = used t"
proof -
  have "{i. i < length (ht_hashes t) \<and> HASH_IS_REAL (ht_hashes t ! i)} =
      set (filter (\<lambda>i. HASH_IS_REAL (ht_hashes t ! i)) [0..<length (ht_hashes t)])" by auto
  then show ?thesis
    unfolding used_def by (simp only: distinct_card distinct_filter distinct_upt) (simp add: table_entries_def entries_from_def)
qed

end
