(* ===== verification/HashTable.thy ===== *)
theory HashTable
  imports GHash_Strings Timer Perfmon_Arch
begin

text \<open>
  The results of the instrumented regions, \<open>src/src/hashTable.c\<close>: for every processor a table from the label of a
  region to its results. The results of the regions are numbered in the order of their allocation
  (\<open>region_heap\<close>); memory that was not written yet has the content of \<open>fresh\<close>. The processor and the thread that
  call are arguments. Allocation succeeds.
\<close>

section \<open>Data\<close>

record LikwidThreadResults =
  lr_label :: string
  lr_time :: real
  lr_startTime :: TimerData
  lr_groupID :: int
  lr_cpuID :: int
  lr_count :: u32
  lr_StartPMcounters :: "real list"
  lr_StartOverflows :: "int list"
  lr_PMcounters :: "real list"

text \<open>The tag of a result is \<^term>\<open>None\<close> while its pointer has not been set.\<close>

record LikwidResults =
  rs_tag :: "string option"
  rs_groupID :: int
  rs_time :: "real list"
  rs_count :: "u32 list"
  rs_cpulist :: "int list"
  rs_counters :: "real list list"

record ThreadList =
  tl_tid :: nat
  tl_coreId :: int
  tl_hashTable :: str_table

record regions =
  threadList :: "ThreadList option list"
  region_heap :: "LikwidThreadResults list"

section \<open>Threads and regions\<close>

definition hashTable_init :: "regions \<Rightarrow> regions" where
  "hashTable_init R = R\<lparr>threadList := replicate MAX_NUM_THREADS None\<rparr>"

definition new_thread :: "nat \<Rightarrow> int \<Rightarrow> ThreadList" where
  "new_thread tid coreID = \<lparr>tl_tid = tid, tl_coreId = coreID, tl_hashTable = new_str_table\<rparr>"

definition hashTable_initThread :: "nat \<Rightarrow> int \<Rightarrow> regions \<Rightarrow> regions option" where
  "hashTable_initThread tid coreID R = do {
     resPtr \<leftarrow> arr_get (threadList R) coreID;
     case resPtr of
       Some _ \<Rightarrow> Some R
     | None \<Rightarrow> do {
         ts \<leftarrow> arr_set (threadList R) coreID (Some (new_thread tid coreID));
         Some (R\<lparr>threadList := ts\<rparr>) } }"

definition new_results :: "LikwidThreadResults \<Rightarrow> string \<Rightarrow> LikwidThreadResults" where
  "new_results fresh label = fresh\<lparr>lr_label := label, lr_time := 0, lr_count := 0,
     lr_PMcounters := replicate NUM_PMC 0, lr_StartPMcounters := replicate NUM_PMC 0\<rparr>"

text \<open>The results of a region on the calling processor, as the number of their allocation.\<close>

definition hashTable_get ::
  "LikwidThreadResults \<Rightarrow> int \<Rightarrow> nat \<Rightarrow> string \<Rightarrow> regions \<Rightarrow> (nat \<times> regions) option" where
  "hashTable_get fresh coreID tid label R = do {
     R1 \<leftarrow> hashTable_initThread tid coreID R;
     resPtr \<leftarrow> arr_get (threadList R1) coreID;
     th \<leftarrow> resPtr;
     entry \<leftarrow> g_hash_table_lookup (tl_hashTable th) (Some (Str label));
     case entry of
       Some (Results a) \<Rightarrow> Some (a, R1)
     | Some _ \<Rightarrow> None
     | None \<Rightarrow> do {
         let a = length (region_heap R1);
         (_, t, _) \<leftarrow> g_hash_table_insert (tl_hashTable th) (Some (Str (g_strdup label))) (Some (Results a)) ();
         ts \<leftarrow> arr_set (threadList R1) coreID (Some (th\<lparr>tl_hashTable := t\<rparr>));
         Some (a, R1\<lparr>threadList := ts, region_heap := region_heap R1 @ [new_results fresh label]\<rparr>) } }"

section \<open>Collecting the results\<close>

text \<open>The number of threads, and the largest number of regions of a thread.\<close>

fun count_regions :: "ThreadList option list \<Rightarrow> u32 \<Rightarrow> u32 \<Rightarrow> u32 \<times> u32" where
  "count_regions [] numberOfThreads numberOfRegions = (numberOfThreads, numberOfRegions)"
| "count_regions (None # ts) numberOfThreads numberOfRegions = count_regions ts numberOfThreads numberOfRegions"
| "count_regions (Some th # ts) numberOfThreads numberOfRegions =
     (let threadNumberOfRegions = g_hash_table_size (tl_hashTable th)
      in count_regions ts (numberOfThreads + 1)
           (if numberOfRegions < threadNumberOfRegions then threadNumberOfRegions else numberOfRegions))"

definition empty_result :: "LikwidResults \<Rightarrow> nat \<Rightarrow> LikwidResults" where
  "empty_result fresh n = fresh\<lparr>rs_tag := None, rs_time := replicate n 0, rs_count := replicate n 0,
     rs_cpulist := replicate n (- 1), rs_counters := replicate n (replicate NUM_PMC 0)\<rparr>"

record collect =
  co_results :: "LikwidResults list"
  co_regionLookup :: str_table
  co_regionIds :: "nat list"
  co_currentRegion :: nat

definition write_cell :: "nat \<Rightarrow> LikwidThreadResults \<Rightarrow> LikwidResults \<Rightarrow> LikwidResults option" where
  "write_cell threadId r res = do {
     count \<leftarrow> arr_set (rs_count res) (int threadId) (lr_count r);
     time \<leftarrow> arr_set (rs_time res) (int threadId) (lr_time r);
     cpulist \<leftarrow> arr_set (rs_cpulist res) (int threadId) (lr_cpuID r);
     counters \<leftarrow> arr_set (rs_counters res) (int threadId) (take NUM_PMC (lr_PMcounters r));
     Some (res\<lparr>rs_count := count, rs_time := time, rs_cpulist := cpulist, rs_counters := counters\<rparr>) }"

text \<open>A region that is not yet registered gets the next number.\<close>

definition register_region :: "gobj gpointer \<Rightarrow> LikwidThreadResults \<Rightarrow> collect \<Rightarrow> (nat \<times> collect) option" where
  "register_region key r c = do {
     entry \<leftarrow> g_hash_table_lookup (co_regionLookup c) key;
     case entry of
       Some (Region p) \<Rightarrow> do { rid \<leftarrow> arr_get (co_regionIds c) (int p); Some (rid, c) }
     | Some _ \<Rightarrow> None
     | None \<Rightarrow> do {
         let n = co_currentRegion c;
         res \<leftarrow> arr_get (co_results c) (int n);
         results \<leftarrow> arr_set (co_results c) (int n) (res\<lparr>rs_tag := Some (lr_label r), rs_groupID := lr_groupID r\<rparr>);
         ids \<leftarrow> arr_set (co_regionIds c) (int n) n;
         name \<leftarrow> (case key of Some (Str s) \<Rightarrow> Some (g_strdup s) | _ \<Rightarrow> None);
         (_, t, _) \<leftarrow> g_hash_table_insert (co_regionLookup c) (Some (Str name)) (Some (Region n)) ();
         Some (n, c\<lparr>co_results := results, co_regionIds := ids, co_regionLookup := t, co_currentRegion := n + 1\<rparr>) } }"

definition collect_region ::
  "LikwidThreadResults list \<Rightarrow> nat \<Rightarrow> gobj gpointer \<Rightarrow> gobj gpointer \<Rightarrow> collect \<Rightarrow> collect option" where
  "collect_region heap threadId key v c =
     (case v of
        Some (Results a) \<Rightarrow> do {
          r \<leftarrow> arr_get heap (int a);
          (rid, c1) \<leftarrow> register_region key r c;
          res \<leftarrow> arr_get (co_results c1) (int rid);
          res' \<leftarrow> write_cell threadId r res;
          results \<leftarrow> arr_set (co_results c1) (int rid) res';
          Some (c1\<lparr>co_results := results\<rparr>) }
      | _ \<Rightarrow> None)"

fun collect_threads ::
  "LikwidThreadResults list \<Rightarrow> ThreadList option list \<Rightarrow> nat \<Rightarrow> collect \<Rightarrow> collect option" where
  "collect_threads heap [] threadId c = Some c"
| "collect_threads heap (None # ts) threadId c = collect_threads heap ts threadId c"
| "collect_threads heap (Some th # ts) threadId c = do {
     c' \<leftarrow> iter_while (tl_hashTable th) (collect_region heap threadId) g_hash_table_iter_init c;
     collect_threads heap ts (threadId + 1) c' }"

definition hashTable_finalize ::
  "LikwidResults \<Rightarrow> regions \<Rightarrow> (nat \<times> nat \<times> LikwidResults list) option" where
  "hashTable_finalize fresh R = do {
     let (nt, nr) = count_regions (threadList R) 0 0;
     let numberOfThreads = unat nt;
     let numberOfRegions = unat nr;
     c \<leftarrow> collect_threads (region_heap R) (threadList R) 0
       \<lparr>co_results = replicate numberOfRegions (empty_result fresh numberOfThreads),
        co_regionLookup = new_str_table, co_regionIds = replicate numberOfRegions 0, co_currentRegion = 0\<rparr>;
     Some (numberOfThreads, numberOfRegions, co_results c) }"

end
