(* ===== verification/Marker.thy ===== *)
theory Marker
  imports HashTable Perfmon AccessDaemon
begin

text \<open>
  The marker interface, \<open>src/src/libperfctr.c\<close>: an instrumented program names regions, and the counters are read when
  a thread enters and leaves a region. The processor a thread runs on is an argument of every call and does not change
  during the call. Pinning a thread is recorded in \<open>pinned\<close>. Locks are taken and released in one call and are left out
  with the other system calls. The file that \<open>likwid_markerClose\<close> writes is the list of its lines; how \<open>printf\<close> prints a
  number with \<open>%e\<close> is a parameter.
\<close>

section \<open>State\<close>

record ('m, 'c) marker_env =
  mv_perfmon :: "('m, 'c) perfmon_env"
  mv_HPMmode :: "int \<Rightarrow> 'm \<Rightarrow> 'm"
  mv_fresh_results :: LikwidThreadResults
  mv_fresh_row :: LikwidResults
  mv_fresh_time :: TimerData
  mv_printf_e :: "real \<Rightarrow> string"
  mv_fopen :: "string \<Rightarrow> bool"

record ('m, 'c) marker =
  likwid_init :: bool
  mk_numberOfGroups :: int
  mk_groups :: "int list"
  threads2Cpu :: "int list"
  num_cpus :: int
  registered_cpus :: int
  use_locks :: bool
  pinned :: "int list"
  mk_regions :: regions
  mk_perfmon :: "('m, 'c) perfmon"
  markerfile :: "string list option"

text \<open>The affinity mask of the calling thread, the processor it runs on and its identity.\<close>

record caller =
  ca_cpuset :: "nat list"
  ca_getcpu :: int
  ca_tid :: nat

section \<open>Processors and threads\<close>

definition getProcessorID :: "nat list \<Rightarrow> int" where
  "getProcessorID cpu_set = int (length (takeWhile (\<lambda>i. i \<notin> set cpu_set) [0..<MAX_NUM_THREADS]))"

definition likwid_getProcessorId :: "caller \<Rightarrow> int" where
  "likwid_getProcessorId ca = (if length (remdups (ca_cpuset ca)) > 1 then ca_getcpu ca else getProcessorID (ca_cpuset ca))"

definition getThreadID :: "PerfmonGroupSet \<Rightarrow> int \<Rightarrow> int" where
  "getThreadID gs cpu_id =
     (let i = length (takeWhile (\<lambda>th. th_processorId th \<noteq> cpu_id) (threads gs))
      in if i < length (threads gs) then int i else - 1)"

definition likwid_pinThread :: "int \<Rightarrow> ('m, 'c) marker \<Rightarrow> ('m, 'c) marker" where
  "likwid_pinThread processorId s = s\<lparr>pinned := pinned s @ [processorId]\<rparr>"

section \<open>Results of a region\<close>

definition calculateMarkerResult ::
  "('m, 'c) perfmon_env \<Rightarrow> nat \<Rightarrow> u64 \<Rightarrow> u64 \<Rightarrow> int \<Rightarrow> real option" where
  "calculateMarkerResult E index start stop overflows = do {
     rm \<leftarrow> arr_get (counter_map (tables E)) (int index);
     (result, overflows') \<leftarrow>
       (if overflows = 0 then Some (real (unat (stop - start)), overflows)
        else if 0 < overflows then do {
          maxv \<leftarrow> perfmon_getMaxCounterValue (tables E) (rm_type rm);
          Some (real (unat (maxv - start + stop)), overflows - 1) }
        else Some (0, overflows));
     maxv \<leftarrow> perfmon_getMaxCounterValue (tables E) (rm_type rm);
     let result1 = result + real (unat (of_int overflows' * maxv :: u64));
     if rm_type rm = POWER then do {
       off \<leftarrow> getCounterTypeOffset (counter_map (tables E)) index;
       unit \<leftarrow> power_getEnergyUnit (energyUnits E) off;
       Some (result1 * unit) }
     else if rm_type rm = THERMAL then Some (real (unat stop))
     else Some result1 }"

text \<open>\<open>sprintf\<close> with \<open>%d\<close>, and into a buffer of some size.\<close>

definition int_string :: "int \<Rightarrow> string" where
  "int_string i = (if i < 0 then CHR ''-'' # dec_string (nat (- i)) else dec_string (nat i))"

definition into_buffer :: "nat \<Rightarrow> string \<Rightarrow> string option" where
  "into_buffer n s = (if length s < n then Some s else None)"

text \<open>The label of a region in the active group.\<close>

definition region_label :: "nat \<Rightarrow> string \<Rightarrow> int \<Rightarrow> string option" where
  "region_label n regionTag gid = do {
     groupSuffix \<leftarrow> into_buffer n (CHR ''-'' # int_string gid);
     Some (regionTag @ groupSuffix) }"

section \<open>Initialization\<close>

text \<open>The environment variables with the processors of the threads.\<close>

fun read_threads :: "string list \<Rightarrow> int \<Rightarrow> int list \<Rightarrow> int list option" where
  "read_threads [] i cpus = Some cpus"
| "read_threads (token # tokens) i cpus = do {
     cpus' \<leftarrow> arr_set cpus i (atoi token);
     read_threads tokens (i + 1) cpus' }"

definition more_workers :: "('m, 'c) marker_env \<Rightarrow> string \<Rightarrow> int \<Rightarrow> bool" where
  "more_workers V name n = (case getenv (mv_perfmon V) name of None \<Rightarrow> False | Some str \<Rightarrow> atoi str > n)"

fun add_groups ::
  "('m, 'c) perfmon_env \<Rightarrow> string list \<Rightarrow> ('m, 'c) perfmon \<Rightarrow> (int list proc \<times> ('m, 'c) perfmon) option" where
  "add_groups E [] s = Some (Ret [], s)"
| "add_groups E (str # strs) s = do {
     (r, s1) \<leftarrow> perfmon_addEventSet E (Some str) s;
     case r of
       Exit n \<Rightarrow> Some (Exit n, s1)
     | Ret g \<Rightarrow> do {
         (r2, s2) \<leftarrow> add_groups E strs s1;
         Some ((case r2 of Exit n \<Rightarrow> Exit n | Ret gs \<Rightarrow> Ret (g # gs)), s2) } }"

fun set_inits :: "nat \<Rightarrow> nat \<Rightarrow> PerfmonEventSetEntry list \<Rightarrow> PerfmonEventSetEntry list option" where
  "set_inits i 0 es = Some es"
| "set_inits i (Suc n) [] = None"
| "set_inits i (Suc n) (e # es) = do {
     c \<leftarrow> counter_get i e;
     e' \<leftarrow> counter_set i (c\<lparr>pc_init := True\<rparr>) e;
     es' \<leftarrow> set_inits i n es;
     Some (e' # es') }"

fun init_cpus :: "nat \<Rightarrow> int \<Rightarrow> int list \<Rightarrow> nat \<Rightarrow> regions \<times> ('m, 'c) perfmon \<Rightarrow> (regions \<times> ('m, 'c) perfmon) option" where
  "init_cpus tid group0 [] i (R, s) = Some (R, s)"
| "init_cpus tid group0 (cpu # cpus) i (R, s) = do {
     R' \<leftarrow> hashTable_initThread tid cpu R;
     gs \<leftarrow> groupSet s;
     g \<leftarrow> arr_get (groups gs) group0;
     es \<leftarrow> set_inits i (gs_numberOfEvents g) (gs_events g);
     s' \<leftarrow> update_group group0 (\<lambda>g. g\<lparr>gs_events := es\<rparr>) s;
     init_cpus tid group0 cpus (Suc i) (R', s') }"

text \<open>The second part: the groups and the tables of the processors.\<close>

definition init_groups ::
  "('m, 'c) marker_env \<Rightarrow> caller \<Rightarrow> string \<Rightarrow> ('m, 'c) marker \<Rightarrow> (unit proc \<times> ('m, 'c) marker) option" where
  "init_groups V ca eventStr s = do {
     let eventStrings = bsplit CHR ''|'' eventStr;
     (r, p) \<leftarrow> add_groups (mv_perfmon V) eventStrings (mk_perfmon s);
     case r of
       Exit n \<Rightarrow> Some (Exit n, s\<lparr>mk_perfmon := p\<rparr>)
     | Ret gids \<Rightarrow> do {
         group0 \<leftarrow> arr_get gids 0;
         (R, p1) \<leftarrow> init_cpus (ca_tid ca) group0 (take (nat (num_cpus s)) (threads2Cpu s)) 0 (mk_regions s, p);
         gs \<leftarrow> groupSet p1;
         Some (Ret (), s\<lparr>mk_numberOfGroups := int (length eventStrings), mk_groups := gids, mk_regions := R,
           mk_perfmon := p1\<lparr>groupSet := Some (gs\<lparr>activeGroup := 0\<rparr>)\<rparr>\<rparr>) } }"

definition likwid_markerInit ::
  "('m, 'c) marker_env \<Rightarrow> caller \<Rightarrow> ('m, 'c) marker \<Rightarrow> (unit proc \<times> ('m, 'c) marker) option" where
  "likwid_markerInit V ca s =
     (let E = mv_perfmon V in
      case (getenv E ''LIKWID_MODE'', getenv E ''LIKWID_EVENTS'', getenv E ''LIKWID_THREADS'', getenv E ''LIKWID_FILEPATH'') of
        (Some modeStr, Some eventStr, Some cThreadStr, Some filepath) \<Rightarrow> do {
          let s0 = s\<lparr>likwid_init := True\<rparr>;
          if \<not> lock_check E then Some (Exit 1, s0)
          else do {
            let R = hashTable_init (mk_regions s0);
            let p = mk_perfmon s0;
            let p1 = p\<lparr>pm := (pm p)\<lparr>machine := mv_HPMmode V (atoi modeStr) (machine (pm p))\<rparr>\<rparr>;
            let p2 = (case getenv E ''LIKWID_DEBUG'' of None \<Rightarrow> p1 | Some d \<Rightarrow> p1\<lparr>perfmon_verbosity := atoi d\<rparr>);
            let tokens = bsplit CHR '','' cThreadStr;
            cpus \<leftarrow> read_threads tokens 0 (threads2Cpu s0);
            let s1 = s0\<lparr>mk_regions := R, mk_perfmon := p2, num_cpus := int (length tokens), threads2Cpu := cpus\<rparr>;
            cpu0 \<leftarrow> arr_get cpus 0;
            let s2 = (case getenv E ''LIKWID_PIN'' of
                        None \<Rightarrow> s1
                      | Some _ \<Rightarrow>
                          (let s1 = likwid_pinThread cpu0 s1 in
                           s1\<lparr>use_locks := use_locks s1 \<or> more_workers V ''OMP_NUM_THREADS'' (num_cpus s1) \<or>
                                more_workers V ''CILK_NWORKERS'' (num_cpus s1)\<rparr>));
            (r, p3) \<leftarrow> perfmon_init E (num_cpus s2) cpus (mk_perfmon s2);
            (case r of
               Exit n \<Rightarrow> Some (Exit n, s2\<lparr>mk_perfmon := p3\<rparr>)
             | Ret i \<Rightarrow>
                 if i < 0 then Some (Ret (), s2\<lparr>mk_perfmon := p3\<rparr>)
                 else init_groups V ca eventStr (s2\<lparr>mk_perfmon := p3\<rparr>)) } }
      | _ \<Rightarrow> Some (Ret (), s))"

definition likwid_markerThreadInit :: "('m, 'c) marker_env \<Rightarrow> caller \<Rightarrow> ('m, 'c) marker \<Rightarrow> ('m, 'c) marker option" where
  "likwid_markerThreadInit V ca s =
     (if \<not> likwid_init s then Some s
      else do {
        let myID = registered_cpus s;
        let s1 = s\<lparr>registered_cpus := registered_cpus s + 1\<rparr>;
        if getenv (mv_perfmon V) ''LIKWID_PIN'' = None then Some s1
        else if num_cpus s = 0 then None
        else do {
          cpu \<leftarrow> arr_get (threads2Cpu s) (myID mod num_cpus s);
          if length (remdups (ca_cpuset ca)) > 1 \<or> likwid_getProcessorId ca \<noteq> cpu
          then Some (likwid_pinThread cpu s1) else Some s1 } })"

definition likwid_markerNextGroup :: "('m, 'c) marker_env \<Rightarrow> ('m, 'c) marker \<Rightarrow> ('m, 'c) marker option" where
  "likwid_markerNextGroup V s =
     (if \<not> likwid_init s then Some s
      else do {
        gs \<leftarrow> groupSet (mk_perfmon s);
        if mk_numberOfGroups s = 0 then None
        else do {
          let next_group = (activeGroup gs + 1) mod mk_numberOfGroups s;
          if next_group \<noteq> activeGroup gs then do {
            (_, p) \<leftarrow> perfmon_switchActiveGroup (mv_perfmon V) next_group (mk_perfmon s);
            Some (s\<lparr>mk_perfmon := p\<rparr>) }
          else Some s } })"

section \<open>Regions\<close>

definition likwid_markerRegisterRegion ::
  "('m, 'c) marker_env \<Rightarrow> caller \<Rightarrow> string \<Rightarrow> ('m, 'c) marker \<Rightarrow> (int \<times> ('m, 'c) marker) option" where
  "likwid_markerRegisterRegion V ca regionTag s =
     (if \<not> likwid_init s then Some (- EFAULT, s)
      else do {
        gs \<leftarrow> groupSet (mk_perfmon s);
        tag \<leftarrow> region_label 10 regionTag (activeGroup gs);
        (_, R) \<leftarrow> hashTable_get (mv_fresh_results V) (likwid_getProcessorId ca) (ca_tid ca) tag (mk_regions s);
        Some (0, s\<lparr>mk_regions := R\<rparr>) })"

text \<open>The loop that keeps the counters of a thread at the start of a region.\<close>

fun start_values ::
  "nat \<Rightarrow> nat \<Rightarrow> PerfmonEventSetEntry list \<Rightarrow> int \<Rightarrow> LikwidThreadResults \<Rightarrow> LikwidThreadResults option" where
  "start_values t 0 es i r = Some r"
| "start_values t (Suc n) [] i r = None"
| "start_values t (Suc n) (e # es) i r = do {
     c \<leftarrow> counter_get t e;
     data \<leftarrow> arr_set (lr_StartPMcounters r) i (real (unat (pc_counterData c)));
     over \<leftarrow> arr_set (lr_StartOverflows r) i (pc_overflows c);
     start_values t n es (i + 1) (r\<lparr>lr_StartPMcounters := data, lr_StartOverflows := over\<rparr>) }"

definition marker_group :: "('m, 'c) perfmon \<Rightarrow> PerfmonEventSet option" where
  "marker_group p = do { gs \<leftarrow> groupSet p; arr_get (groups gs) (activeGroup gs) }"

definition likwid_markerStartRegion ::
  "('m, 'c) marker_env \<Rightarrow> caller \<Rightarrow> string \<Rightarrow> ('m, 'c) marker \<Rightarrow> (int \<times> ('m, 'c) marker) option" where
  "likwid_markerStartRegion V ca regionTag s =
     (if \<not> likwid_init s then Some (- EFAULT, s)
      else do {
        let cpu_id = likwid_getProcessorId ca;
        gs \<leftarrow> groupSet (mk_perfmon s);
        let thread_id = getThreadID gs cpu_id;
        if thread_id < 0 then Some (- EFAULT, s)
        else do {
          tag \<leftarrow> region_label 10 regionTag (activeGroup gs);
          (a, R) \<leftarrow> hashTable_get (mv_fresh_results V) cpu_id (ca_tid ca) tag (mk_regions s);
          (_, p) \<leftarrow> perfmon_readCountersCpu (mv_perfmon V) cpu_id (mk_perfmon s);
          g \<leftarrow> marker_group p;
          r0 \<leftarrow> arr_get (region_heap R) (int a);
          r1 \<leftarrow> start_values (nat thread_id) (gs_numberOfEvents g) (gs_events g) 0 (r0\<lparr>lr_cpuID := cpu_id\<rparr>);
          let (time, c) = timer_start (clocks (mv_perfmon V)) (timers p) (lr_startTime r1) (clock p);
          heap \<leftarrow> arr_set (region_heap R) (int a) (r1\<lparr>lr_startTime := time\<rparr>);
          Some (0, s\<lparr>mk_regions := R\<lparr>region_heap := heap\<rparr>, mk_perfmon := p\<lparr>clock := c\<rparr>\<rparr>) } })"

text \<open>The loop that adds up the counters at the end of a region; the start value is a \<open>double\<close> that is converted back.\<close>

fun stop_values ::
  "('m, 'c) perfmon_env \<Rightarrow> nat \<Rightarrow> nat \<Rightarrow> PerfmonEventSetEntry list \<Rightarrow> int \<Rightarrow> LikwidThreadResults \<Rightarrow> LikwidThreadResults option" where
  "stop_values E t 0 es i r = Some r"
| "stop_values E t (Suc n) [] i r = None"
| "stop_values E t (Suc n) (e # es) i r = do {
     c \<leftarrow> counter_get t e;
     data \<leftarrow> arr_get (lr_StartPMcounters r) i;
     over \<leftarrow> arr_get (lr_StartOverflows r) i;
     result \<leftarrow> calculateMarkerResult E (es_index e) (of_int \<lfloor>data\<rfloor>) (pc_counterData c) (pc_overflows c - over);
     rm \<leftarrow> arr_get (counter_map (tables E)) (int (es_index e));
     old \<leftarrow> arr_get (lr_PMcounters r) i;
     counters \<leftarrow> arr_set (lr_PMcounters r) i (if rm_type rm \<noteq> THERMAL then old + result else result);
     stop_values E t n es (i + 1) (r\<lparr>lr_PMcounters := counters\<rparr>) }"

definition likwid_markerStopRegion ::
  "('m, 'c) marker_env \<Rightarrow> caller \<Rightarrow> string \<Rightarrow> ('m, 'c) marker \<Rightarrow> (int \<times> ('m, 'c) marker) option" where
  "likwid_markerStopRegion V ca regionTag s =
     (if \<not> likwid_init s then Some (- EFAULT, s)
      else do {
        let E = mv_perfmon V;
        let p0 = mk_perfmon s;
        let (timestamp, c) = timer_stop (clocks E) (timers p0) (mv_fresh_time V) (clock p0);
        let p1 = p0\<lparr>clock := c\<rparr>;
        let cpu_id = likwid_getProcessorId ca;
        gs \<leftarrow> groupSet p1;
        let thread_id = getThreadID gs cpu_id;
        if thread_id < 0 then Some (- EFAULT, s\<lparr>mk_perfmon := p1\<rparr>)
        else do {
          tag \<leftarrow> region_label 100 regionTag (activeGroup gs);
          (a, R) \<leftarrow> hashTable_get (mv_fresh_results V) cpu_id (ca_tid ca) tag (mk_regions s);
          r0 \<leftarrow> arr_get (region_heap R) (int a);
          let startTime = (lr_startTime r0)\<lparr>tm_stop := tm_stop timestamp\<rparr>;
          let r1 = r0\<lparr>lr_groupID := activeGroup gs, lr_startTime := startTime,
            lr_time := lr_time r0 + timer_print (timers p1) startTime, lr_count := lr_count r0 + 1\<rparr>;
          (_, p2) \<leftarrow> perfmon_readCountersCpu E cpu_id p1;
          g \<leftarrow> marker_group p2;
          r2 \<leftarrow> stop_values E (nat thread_id) (gs_numberOfEvents g) (gs_events g) 0 r1;
          heap \<leftarrow> arr_set (region_heap R) (int a) r2;
          Some (0, s\<lparr>mk_regions := R\<lparr>region_heap := heap\<rparr>, mk_perfmon := p2\<rparr>) } })"

text \<open>The number of events, their values, the time and the number of calls; \<open>nr_events\<close> is the length of the array given.\<close>

definition likwid_markerGetRegion ::
  "('m, 'c) marker_env \<Rightarrow> caller \<Rightarrow> string \<Rightarrow> int \<Rightarrow> ('m, 'c) marker \<Rightarrow> ((int \<times> real list \<times> real \<times> int) \<times> ('m, 'c) marker) option" where
  "likwid_markerGetRegion V ca regionTag nr_events s =
     (if \<not> likwid_init s then Some ((0, [], 0, 0), s)
      else do {
        gs \<leftarrow> groupSet (mk_perfmon s);
        tag \<leftarrow> region_label 100 regionTag (activeGroup gs);
        (a, R) \<leftarrow> hashTable_get (mv_fresh_results V) (likwid_getProcessorId ca) (ca_tid ca) tag (mk_regions s);
        r \<leftarrow> arr_get (region_heap R) (int a);
        g \<leftarrow> arr_get (groups gs) (activeGroup gs);
        let len = min (int (gs_numberOfEvents g)) nr_events;
        if int (length (lr_PMcounters r)) < len then None
        else Some ((len, take (nat len) (lr_PMcounters r), lr_time r, sint (lr_count r)), s\<lparr>mk_regions := R\<rparr>) })"

section \<open>Writing the results\<close>

text \<open>
  The data of one region and thread. The same text is built a second time in \<open>line\<close>, a buffer of 1024
  characters.
\<close>

definition region_prefix :: "('m, 'c) marker_env \<Rightarrow> nat \<Rightarrow> LikwidResults \<Rightarrow> nat \<Rightarrow> nat \<Rightarrow> string option" where
  "region_prefix V i res j nev = do {
     cpu \<leftarrow> arr_get (rs_cpulist res) (int j);
     count \<leftarrow> arr_get (rs_count res) (int j);
     time \<leftarrow> arr_get (rs_time res) (int j);
     Some (dec_string i @ '' '' @ int_string (rs_groupID res) @ '' '' @ int_string cpu @ '' '' @ dec_string (unat count) @ '' '' @
       mv_printf_e V time @ '' '' @ dec_string nev @ '' '') }"

definition region_line :: "('m, 'c) marker_env \<Rightarrow> PerfmonGroupSet option \<Rightarrow> nat \<Rightarrow> LikwidResults \<Rightarrow> nat \<Rightarrow> string option" where
  "region_line V groupset i res j = do {
     gs \<leftarrow> groupset;
     g \<leftarrow> arr_get (groups gs) (rs_groupID res);
     prefix \<leftarrow> region_prefix V i res j (gs_numberOfEvents g);
     counters \<leftarrow> arr_get (rs_counters res) (int j);
     if length counters < gs_numberOfEvents g then None
     else into_buffer 1024 (prefix @ concat (map (\<lambda>v. mv_printf_e V v @ '' '') (take (gs_numberOfEvents g) counters))) }"

fun tag_lines :: "nat \<Rightarrow> LikwidResults list \<Rightarrow> string list option" where
  "tag_lines i [] = Some []"
| "tag_lines i (res # rows) = do {
     tag \<leftarrow> rs_tag res;
     rest \<leftarrow> tag_lines (Suc i) rows;
     Some ((dec_string i @ '':'' @ tag) # rest) }"

fun thread_lines :: "('m, 'c) marker_env \<Rightarrow> PerfmonGroupSet option \<Rightarrow> nat \<Rightarrow> LikwidResults \<Rightarrow> nat list \<Rightarrow> string list option" where
  "thread_lines V gs i res [] = Some []"
| "thread_lines V gs i res (j # js) = do {
     line \<leftarrow> region_line V gs i res j;
     rest \<leftarrow> thread_lines V gs i res js;
     Some (line # rest) }"

fun data_lines :: "('m, 'c) marker_env \<Rightarrow> PerfmonGroupSet option \<Rightarrow> nat \<Rightarrow> nat \<Rightarrow> LikwidResults list \<Rightarrow> string list option" where
  "data_lines V gs n i [] = Some []"
| "data_lines V gs n i (res # rows) = do {
     ls \<leftarrow> thread_lines V gs i res [0..<n];
     rest \<leftarrow> data_lines V gs n (Suc i) rows;
     Some (ls @ rest) }"

definition likwid_markerClose :: "('m, 'c) marker_env \<Rightarrow> ('m, 'c) marker \<Rightarrow> ('m, 'c) marker option" where
  "likwid_markerClose V s =
     (if \<not> likwid_init s then Some s
      else do {
        (numberOfThreads, numberOfRegions, results) \<leftarrow> hashTable_finalize (mv_fresh_row V) (mk_regions s);
        if numberOfThreads = 0 then Some s
        else (case getenv (mv_perfmon V) ''LIKWID_FILEPATH'' of
                None \<Rightarrow> Some s
              | Some path \<Rightarrow> do {
                  file \<leftarrow> (if mv_fopen V path then do {
                             tags \<leftarrow> tag_lines 0 results;
                             lines \<leftarrow> data_lines V (groupSet (mk_perfmon s)) numberOfThreads 0 results;
                             Some (Some ((dec_string numberOfThreads @ '' '' @ dec_string numberOfRegions @ '' '' @
                               int_string (mk_numberOfGroups s)) # tags @ lines)) }
                           else Some (markerfile s));
                  m \<leftarrow> hp_finalize (hpm_funs (mv_perfmon V)) (machine (pm (mk_perfmon s)));
                  Some (s\<lparr>likwid_init := False, markerfile := file,
                    mk_perfmon := (mk_perfmon s)\<lparr>pm := (pm (mk_perfmon s))\<lparr>machine := m\<rparr>\<rparr>\<rparr>) }) })"

end
