(* ===== verification/HashTable_Entries.thy ===== *)
theory HashTable_Entries
  imports HashTable
begin

text \<open>
  The tables of regions as finite maps from labels: what their entries are, the invariant of the tables of all
  processors, and that asking for the results of a region keeps it.
\<close>

definition cstr :: "string \<Rightarrow> string" where
  "cstr s = takeWhile (\<lambda>c. c \<noteq> CHR 0x00) s"

lemma g_str_equal_cstr: "g_str_equal s t \<longleftrightarrow> cstr s = cstr t"
  by (simp add: g_str_equal_def cstr_def)

lemma cstr_cstr [simp]: "cstr (cstr s) = cstr s"
  by (simp add: cstr_def)

lemma g_strdup_cstr: "g_strdup s = cstr s"
  by (simp add: g_strdup_def cstr_def)

section \<open>The entries of a string table\<close>

lemma str_map_node:
  assumes "str_table_inv t"
  shows "str_map t s = Some v \<longleftrightarrow> (\<exists>i h s'. node_at t i h (Some (Str s')) v \<and> cstr s' = cstr s)"
proof -
  obtain n where p: "placed n t" using assms by (auto simp: str_table_inv_def ht_inv_def)
  show ?thesis
    using str.ht_map_iff [OF p str_table_serves [OF assms], of "Some (Str s)" v]
    unfolding str_map_def str_equal_func_True g_str_equal_cstr by blast
qed

lemma str_map_cstr: "str_table_inv t \<Longrightarrow> str_map t (cstr s) = str_map t s"
  using str_map_node [of t "cstr s"] str_map_node [of t s] by (metis cstr_cstr option.exhaust)

lemma str_table_node_key: "\<lbrakk>str_table_inv t; node_at t i h k v\<rbrakk> \<Longrightarrow> \<exists>s. k = Some (Str s)"
proof -
  assume inv: "str_table_inv t" and n: "node_at t i h k v"
  obtain m where p: "placed m t" using inv by (auto simp: str_table_inv_def ht_inv_def)
  have "str_hash_func k \<noteq> None" using placed_node [OF p n] inv by (auto simp: str_table_inv_def)
  then show ?thesis unfolding str_hash_func_defined .
qed

definition key_string :: "gobj gpointer \<Rightarrow> string" where
  "key_string k = (case k of Some (Str s) \<Rightarrow> s | _ \<Rightarrow> [])"

definition labels :: "str_table \<Rightarrow> string list" where
  "labels t = map (cstr \<circ> key_string \<circ> fst) (table_entries t)"

lemma table_entries_key:
  "\<lbrakk>str_table_inv t; (k, v) \<in> set (table_entries t)\<rbrakk> \<Longrightarrow> \<exists>s. k = Some (Str s) \<and> str_map t s = Some v"
  using str_table_node_key str_map_node unfolding table_entries_iff by blast

lemma labels_distinct:
  assumes inv: "str_table_inv t"
  shows "distinct (labels t)"
proof -
  obtain m where p: "placed m t" using inv by (auto simp: str_table_inv_def ht_inv_def)
  let ?is = "filter (\<lambda>i. HASH_IS_REAL (ht_hashes t ! i)) [0..<length (ht_hashes t)]"
  have "labels t = map (\<lambda>i. cstr (key_string (ht_keys t ! i))) ?is"
    by (simp add: labels_def table_entries_def entries_from_def)
  moreover have "inj_on (\<lambda>i. cstr (key_string (ht_keys t ! i))) (set ?is)"
  proof (rule inj_onI)
    fix i j
    assume ij: "i \<in> set ?is" "j \<in> set ?is" and eq: "cstr (key_string (ht_keys t ! i)) = cstr (key_string (ht_keys t ! j))"
    let ?n = "\<lambda>i. node_at t i (ht_hashes t ! i) (ht_keys t ! i) (table_values t ! i)"
    have n: "?n i" "?n j" using ij by (auto simp: node_at_def)
    then obtain s s' where "ht_keys t ! i = Some (Str s)" "ht_keys t ! j = Some (Str s')"
      using str_table_node_key [OF inv] by metis
    then have "keys_equal t (ht_keys t ! i) (ht_keys t ! j) = Some True"
      using eq inv by (simp add: str_table_inv_def keys_equal_def key_string_def str_equal_func_def g_str_equal_cstr)
    then show "i = j" using placed_distinct [OF p n] by blast
  qed
  ultimately show ?thesis by (simp add: distinct_map)
qed

lemma labels_iff: "str_table_inv t \<Longrightarrow> cstr s \<in> set (labels t) \<longleftrightarrow> str_map t s \<noteq> None"
proof -
  assume inv: "str_table_inv t"
  have "cstr s \<in> set (labels t) \<longleftrightarrow> (\<exists>k v. (k, v) \<in> set (table_entries t) \<and> cstr (key_string k) = cstr s)"
    by (force simp: labels_def)
  also have "\<dots> \<longleftrightarrow> (\<exists>v. str_map t s = Some v)"
  proof
    assume "\<exists>k v. (k, v) \<in> set (table_entries t) \<and> cstr (key_string k) = cstr s"
    then obtain k v where kv: "(k, v) \<in> set (table_entries t)" "cstr (key_string k) = cstr s" by blast
    then obtain s' where s': "k = Some (Str s')" "str_map t s' = Some v" using table_entries_key [OF inv] by blast
    then have "str_map t s = Some v"
      using kv(2) str_map_cstr [OF inv, of s] str_map_cstr [OF inv, of s'] by (simp add: key_string_def)
    then show "\<exists>v. str_map t s = Some v" ..
  next
    assume "\<exists>v. str_map t s = Some v"
    then obtain v i h s' where "node_at t i h (Some (Str s')) v" "cstr s' = cstr s"
      using str_map_node [OF inv] by blast
    then have "(Some (Str s'), v) \<in> set (table_entries t)" "cstr (key_string (Some (Str s'))) = cstr s"
      unfolding table_entries_iff by (auto simp: key_string_def)
    then show "\<exists>k v. (k, v) \<in> set (table_entries t) \<and> cstr (key_string k) = cstr s" by blast
  qed
  finally show ?thesis by simp
qed

lemma labels_length: "str_table_inv t \<Longrightarrow> int (length (labels t)) = ht_nnodes t"
  by (simp add: labels_def table_entries_length str_table_inv_def ht_inv_def)

lemma labels_cstr: "l \<in> set (labels t) \<Longrightarrow> cstr l = l"
  by (auto simp: labels_def)

section \<open>The regions of a thread\<close>

text \<open>The results a thread keeps for a label.\<close>

definition region_of :: "LikwidThreadResults list \<Rightarrow> ThreadList \<Rightarrow> string \<Rightarrow> LikwidThreadResults option" where
  "region_of heap th l = (case str_map (tl_hashTable th) l of
     Some (Some (Results a)) \<Rightarrow> arr_get heap (int a) | _ \<Rightarrow> None)"

definition thread_inv :: "LikwidThreadResults list \<Rightarrow> ThreadList \<Rightarrow> bool" where
  "thread_inv heap th \<longleftrightarrow> str_table_inv (tl_hashTable th) \<and> ht_nnodes (tl_hashTable th) \<le> int (length heap) \<and>
     (\<forall>s v. str_map (tl_hashTable th) s = Some v \<longrightarrow>
        (\<exists>a<length heap. v = Some (Results a) \<and> lr_label (heap ! a) = cstr s))"

text \<open>Where the results of a region of a processor are, and what they are.\<close>

definition region_addr :: "regions \<Rightarrow> nat \<Rightarrow> string \<Rightarrow> nat option" where
  "region_addr R i l =
     (if i < length (threadList R)
      then (case threadList R ! i of
              None \<Rightarrow> None
            | Some th \<Rightarrow> (case str_map (tl_hashTable th) l of Some (Some (Results a)) \<Rightarrow> Some a | _ \<Rightarrow> None))
      else None)"

definition region :: "regions \<Rightarrow> nat \<Rightarrow> string \<Rightarrow> LikwidThreadResults option" where
  "region R i l = map_option (\<lambda>a. region_heap R ! a) (region_addr R i l)"

text \<open>Every processor has its own results.\<close>

definition regions_inv :: "regions \<Rightarrow> bool" where
  "regions_inv R \<longleftrightarrow> length (threadList R) = MAX_NUM_THREADS \<and>
     (\<forall>i th. i < MAX_NUM_THREADS \<longrightarrow> threadList R ! i = Some th \<longrightarrow> thread_inv (region_heap R) th) \<and>
     (\<forall>i j l a. region_addr R i l = Some a \<longrightarrow> region_addr R j l = Some a \<longrightarrow> i = j)"

lemma thread_inv_map: "thread_inv heap th \<Longrightarrow> str_map (tl_hashTable th) s = Some v \<Longrightarrow>
  \<exists>a<length heap. v = Some (Results a) \<and> lr_label (heap ! a) = cstr s"
  unfolding thread_inv_def by blast

lemma thread_inv_table: "thread_inv heap th \<Longrightarrow> str_table_inv (tl_hashTable th)"
  by (simp add: thread_inv_def)

lemma region_of_None_iff: "thread_inv heap th \<Longrightarrow> region_of heap th l = None \<longleftrightarrow> str_map (tl_hashTable th) l = None"
  using thread_inv_map [of heap th l]
  by (cases "str_map (tl_hashTable th) l") (auto simp: region_of_def arr_get_def)

lemma region_of_labels: "thread_inv heap th \<Longrightarrow> region_of heap th l \<noteq> None \<longleftrightarrow> cstr l \<in> set (labels (tl_hashTable th))"
  using labels_iff [OF thread_inv_table] region_of_None_iff by simp

lemma region_of_cstr: "thread_inv heap th \<Longrightarrow> region_of heap th (cstr l) = region_of heap th l"
  by (simp add: region_of_def str_map_cstr thread_inv_table)

lemma thread_inv_new: "thread_inv heap (new_thread tid c)"
  using new_str_table_inv new_str_table_map
  by (simp add: thread_inv_def new_thread_def)
    (simp add: new_str_table_def g_hash_table_new_def g_hash_table_new_full_def)

lemma thread_inv_append: "thread_inv heap th \<Longrightarrow> thread_inv (heap @ [r]) th"
  using thread_inv_map [of heap th] by (force simp: thread_inv_def nth_append)

lemma region_of_append: "thread_inv heap th \<Longrightarrow> region_of (heap @ [r]) th l = region_of heap th l"
  using thread_inv_map [of heap th l]
  by (cases "str_map (tl_hashTable th) l") (auto simp: region_of_def arr_get_def nth_append)

lemma regions_inv_thread:
  "\<lbrakk>regions_inv R; i < MAX_NUM_THREADS; threadList R ! i = Some th\<rbrakk> \<Longrightarrow> thread_inv (region_heap R) th"
  unfolding regions_inv_def by blast

lemma region_addr_bound: "\<lbrakk>regions_inv R; region_addr R i l = Some a\<rbrakk> \<Longrightarrow>
  i < MAX_NUM_THREADS \<and> a < length (region_heap R) \<and> lr_label (region_heap R ! a) = cstr l"
proof -
  assume inv: "regions_inv R" and a: "region_addr R i l = Some a"
  then obtain th where th: "i < MAX_NUM_THREADS" "threadList R ! i = Some th"
      "str_map (tl_hashTable th) l = Some (Some (Results a))"
    by (auto simp: region_addr_def regions_inv_def split: if_splits option.splits gobj.splits)
  then show ?thesis using thread_inv_map [OF regions_inv_thread [OF inv th(1,2)] th(3)] by auto
qed

lemma region_region_of:
  assumes "regions_inv R" "i < MAX_NUM_THREADS" "threadList R ! i = Some th"
  shows "region R i l = region_of (region_heap R) th l"
proof -
  have len: "length (threadList R) = MAX_NUM_THREADS" using assms(1) by (simp add: regions_inv_def)
  show ?thesis
    using thread_inv_map [OF regions_inv_thread [OF assms], of l] assms(2,3) len
    by (cases "str_map (tl_hashTable th) l") (auto simp: region_def region_addr_def region_of_def arr_get_def)
qed

lemma region_addr_cstr: "regions_inv R \<Longrightarrow> region_addr R j (cstr l) = region_addr R j l"
  using str_map_cstr [OF thread_inv_table [OF regions_inv_thread]]
  by (auto simp: region_addr_def regions_inv_def split: option.splits)

lemma region_addr_inj: "\<lbrakk>regions_inv R; region_addr R i l = Some a; region_addr R j l' = Some a\<rbrakk> \<Longrightarrow> i = j \<and> cstr l = cstr l'"
proof -
  assume inv: "regions_inv R" and a: "region_addr R i l = Some a" "region_addr R j l' = Some a"
  then have eq: "cstr l = cstr l'" using region_addr_bound by metis
  then have "region_addr R j l = Some a" using a(2) region_addr_cstr [OF inv] by metis
  then show ?thesis using inv a(1) eq unfolding regions_inv_def by blast
qed

section \<open>Writing results\<close>

definition update_results :: "nat \<Rightarrow> (LikwidThreadResults \<Rightarrow> LikwidThreadResults) \<Rightarrow> regions \<Rightarrow> regions" where
  "update_results a f R = R\<lparr>region_heap := (region_heap R)[a := f (region_heap R ! a)]\<rparr>"

lemma region_addr_update [simp]: "region_addr (update_results a f R) i l = region_addr R i l"
  by (simp add: region_addr_def update_results_def cong: option.case_cong)

lemma update_results_inv:
  assumes "regions_inv R" "\<And>r. lr_label (f r) = lr_label r"
  shows "regions_inv (update_results a f R)"
proof -
  have lab: "lr_label (heap[a := f (heap ! a)] ! b) = lr_label (heap ! b)" if "b < length heap" for heap b
    using assms(2) that by (cases "a = b") simp_all
  have "thread_inv heap th \<Longrightarrow> thread_inv (heap[a := f (heap ! a)]) th" for heap th
    unfolding thread_inv_def length_list_update using lab by metis
  then show ?thesis
    using assms(1) unfolding regions_inv_def region_addr_update by (simp add: update_results_def)
qed

lemma region_update:
  assumes "regions_inv R" "region_addr R i l = Some a"
  shows "region (update_results a f R) j l' =
    (if j = i \<and> cstr l' = cstr l then map_option f (region R j l') else region R j l')"
proof (cases "region_addr R j l'")
  case (Some b)
  have "b = a \<longleftrightarrow> j = i \<and> cstr l' = cstr l"
  proof
    assume "b = a" then show "j = i \<and> cstr l' = cstr l" using region_addr_inj [OF assms(1)] assms(2) Some by blast
  next
    assume eq: "j = i \<and> cstr l' = cstr l"
    then show "b = a" using region_addr_cstr [OF assms(1)] assms(2) Some by (metis option.inject)
  qed
  moreover have "b < length (region_heap R)" using region_addr_bound [OF assms(1) Some] by simp
  ultimately show ?thesis using Some by (auto simp: region_def) (auto simp: update_results_def)
qed (auto simp: region_def)

end
