(* ===== verification/HashTable_Properties.thy ===== *)
theory HashTable_Properties
  imports HashTable_Entries
begin

text \<open>
  Properties of the region tables: asking for a region returns its results and disturbs no other, and the final
  collection gathers the results of all threads, as long as no two threads have regions the other lacks.
\<close>

section \<open>Asking for a region\<close>

lemma cstr_id: "CHR 0x00 \<notin> set l \<Longrightarrow> cstr l = l"
  unfolding cstr_def takeWhile_eq_all_conv by blast

lemma initThread_creates:
  assumes inv: "regions_inv R" and c: "0 \<le> c" "c < int MAX_NUM_THREADS"
  obtains R' th where "hashTable_initThread tid c R = Some R'" "regions_inv R'" "region_heap R' = region_heap R"
    "threadList R' ! nat c = Some th" "\<And>i l. region_addr R' i l = region_addr R i l"
    "\<And>i. i \<noteq> nat c \<Longrightarrow> threadList R' ! i = threadList R ! i"
proof (cases "threadList R ! nat c")
  case (Some th)
  have len: "length (threadList R) = MAX_NUM_THREADS" using inv by (simp add: regions_inv_def)
  then have "hashTable_initThread tid c R = Some R"
    using c Some by (simp add: hashTable_initThread_def arr_get_def)
  then show thesis using that Some inv by blast
next
  case None
  have len: "length (threadList R) = MAX_NUM_THREADS" using inv by (simp add: regions_inv_def)
  let ?th = "new_thread tid c"
  let ?R = "R\<lparr>threadList := (threadList R)[nat c := Some ?th]\<rparr>"
  have c': "nat c < MAX_NUM_THREADS" using c by simp
  have "hashTable_initThread tid c R = Some ?R"
    using c None len by (simp add: hashTable_initThread_def arr_get_def arr_set_def)
  moreover have addr: "region_addr ?R i l = region_addr R i l" for i l
    using None c' len new_str_table_map
    by (cases "i = nat c") (auto simp: region_addr_def new_thread_def nth_list_update split: option.splits)
  moreover have "regions_inv ?R"
    unfolding regions_inv_def addr
    using inv thread_inv_new c' len by (auto simp: regions_inv_def nth_list_update split: if_splits)
  ultimately show thesis using that [of ?R ?th] c' len by simp
qed

text \<open>The results of a region, which are new ones when the region was not known.\<close>

definition known_or_new :: "LikwidThreadResults \<Rightarrow> regions \<Rightarrow> nat \<Rightarrow> string \<Rightarrow> LikwidThreadResults" where
  "known_or_new fresh R i l = (case region R i l of Some r \<Rightarrow> r | None \<Rightarrow> new_results fresh l)"

lemma hashTable_get_region:
  assumes inv: "regions_inv R" and c: "0 \<le> c" "c < int MAX_NUM_THREADS" and l: "cstr l = l"
    and fits: "int (length (region_heap R)) + 1 < 2 ^ 29"
  obtains a R' where "hashTable_get fresh c tid l R = Some (a, R')" "regions_inv R'"
    "region_addr R' (nat c) l = Some a" "region_heap R' ! a = known_or_new fresh R (nat c) l"
    "\<And>i l'. region R' i l' = (if i = nat c \<and> cstr l' = l then Some (known_or_new fresh R (nat c) l) else region R i l')"
    "length (region_heap R') \<le> length (region_heap R) + 1"
proof -
  obtain R1 th where R1: "hashTable_initThread tid c R = Some R1" "regions_inv R1" "region_heap R1 = region_heap R"
      "threadList R1 ! nat c = Some th" "\<And>i l. region_addr R1 i l = region_addr R i l"
    by (rule initThread_creates [OF inv c, of tid]) blast
  have c': "nat c < MAX_NUM_THREADS" using c by simp
  have len: "length (threadList R1) = MAX_NUM_THREADS" using R1(2) by (simp add: regions_inv_def)
  have reg: "region R1 i l' = region R i l'" for i l' by (simp add: region_def R1(3,5))
  note thi = regions_inv_thread [OF R1(2) c' R1(4)]
  note tab = thread_inv_table [OF thi]
  have get: "arr_get (threadList R1) c = Some (Some th)" using c len R1(4) by (simp add: arr_get_def)
  have addr1: "region_addr R1 (nat c) l' = (case str_map (tl_hashTable th) l' of Some (Some (Results a)) \<Rightarrow> Some a | _ \<Rightarrow> None)" for l'
    using R1(4) c' len by (simp add: region_addr_def)
  show thesis
  proof (cases "str_map (tl_hashTable th) l")
    case (Some v)
    then obtain a where a: "v = Some (Results a)" "a < length (region_heap R1)" using thread_inv_map [OF thi] by blast
    have res: "hashTable_get fresh c tid l R = Some (a, R1)"
      using R1(1) get str_lookup [OF tab, of l] Some a by (simp add: hashTable_get_def)
    have ad: "region_addr R1 (nat c) l = Some a" using addr1 Some a by simp
    then have known: "region R (nat c) l = Some (region_heap R1 ! a)" by (simp add: region_def R1(3,5))
    have "region R (nat c) l' = region R (nat c) l" if "cstr l' = l" for l'
      using region_addr_cstr [OF inv] that unfolding region_def by metis
    then show thesis
      by (intro that [OF res R1(2) ad]) (use known reg R1(3) in \<open>auto simp: known_or_new_def\<close>)
  next
    case None
    let ?a = "length (region_heap R1)" and ?r = "new_results fresh l"
    have n: "ht_nnodes (tl_hashTable th) + 1 < 2 ^ 29" using thi fits R1(3) by (simp add: thread_inv_def)
    obtain t where t: "g_hash_table_insert (tl_hashTable th) (Some (Str l)) (Some (Results ?a)) () =
          Some (str_map (tl_hashTable th) l = None, t, ())" "str_table_inv t"
        "ht_nnodes t = ht_nnodes (tl_hashTable th) + (if str_map (tl_hashTable th) l = None then 1 else 0)"
        "\<And>s. str_map t s = (if g_str_equal l s then Some (Some (Results ?a)) else str_map (tl_hashTable th) s)"
      by (rule str_insert [OF tab n]) blast
    let ?th = "th\<lparr>tl_hashTable := t\<rparr>"
    let ?R = "R1\<lparr>threadList := (threadList R1)[nat c := Some ?th], region_heap := region_heap R1 @ [?r]\<rparr>"
    have res: "hashTable_get fresh c tid l R = Some (?a, ?R)"
      using R1(1) get str_lookup [OF tab, of l] None t(1) l c len
      by (simp add: hashTable_get_def g_strdup_cstr arr_set_def Let_def)
    have addr: "region_addr ?R i l' = (if i = nat c \<and> cstr l' = l then Some ?a else region_addr R1 i l')" for i l'
      using R1(4) c' len t(4) l by (auto simp: region_addr_def nth_list_update g_str_equal_cstr split: option.splits)
    have thi': "thread_inv (region_heap R1 @ [?r]) ?th"
      unfolding thread_inv_def
    proof (intro conjI allI impI)
      show "str_table_inv (tl_hashTable ?th)" using t(2) by simp
      show "ht_nnodes (tl_hashTable ?th) \<le> int (length (region_heap R1 @ [?r]))"
        using t(3) thi by (simp add: thread_inv_def)
      fix s v assume v: "str_map (tl_hashTable ?th) s = Some v"
      show "\<exists>a<length (region_heap R1 @ [?r]). v = Some (Results a) \<and> lr_label ((region_heap R1 @ [?r]) ! a) = cstr s"
      proof (cases "g_str_equal l s")
        case True
        then show ?thesis using v t(4) l by (auto simp: g_str_equal_cstr new_results_def)
      next
        case False
        then obtain a where "a < ?a" "v = Some (Results a)" "lr_label (region_heap R1 ! a) = cstr s"
          using v t(4) thread_inv_map [OF thi, of s v] by auto
        then show ?thesis by (intro exI [of _ a]) (simp add: nth_append)
      qed
    qed
    have below: "a < ?a" if "region_addr R1 i l' = Some a" for i l' a
      using region_addr_bound [OF R1(2) that] by simp
    have "thread_inv (region_heap ?R) th'" if i: "i < MAX_NUM_THREADS" "threadList ?R ! i = Some th'" for i th'
    proof (cases "i = nat c")
      case True
      then show ?thesis using i(2) thi' c' len by simp
    next
      case False
      then show ?thesis using i thread_inv_append regions_inv_thread [OF R1(2) i(1)] by simp
    qed
    moreover have "i = j" if ij: "region_addr ?R i l' = Some a" "region_addr ?R j l' = Some a" for i j l' a
    proof (cases "a = ?a")
      case True
      then show ?thesis using ij below unfolding addr by (metis less_irrefl option.inject)
    next
      case False
      then show ?thesis using ij R1(2) unfolding addr regions_inv_def by (metis option.inject)
    qed
    ultimately have inv': "regions_inv ?R" unfolding regions_inv_def using len by simp
    have none: "region R (nat c) l = None" using addr1 [of l] None by (simp add: region_def R1(5))
    have reg': "region ?R i l' = (if i = nat c \<and> cstr l' = l then Some ?r else region R i l')" for i l'
      unfolding region_def addr using below [of i l'] R1(3,5) by (cases "region_addr R1 i l'") (auto simp: nth_append)
    show thesis
      by (rule that [OF res inv']) (use addr l none reg' R1(3) in \<open>auto simp: known_or_new_def nth_append\<close>)
  qed
qed

section \<open>Collecting\<close>

type_synonym cell = "u32 \<times> real \<times> int \<times> real list"

definition cell :: "LikwidResults \<Rightarrow> nat \<Rightarrow> cell" where
  "cell res k = (rs_count res ! k, rs_time res ! k, rs_cpulist res ! k, rs_counters res ! k)"

text \<open>What the results of a region contribute; a thread without the region contributes zeros.\<close>

definition cell_of :: "LikwidThreadResults option \<Rightarrow> cell" where
  "cell_of r = (case r of
     Some r \<Rightarrow> (lr_count r, lr_time r, lr_cpuID r, take NUM_PMC (lr_PMcounters r))
   | None \<Rightarrow> (0, 0, - 1, replicate NUM_PMC 0))"

definition row_shape :: "nat \<Rightarrow> LikwidResults \<Rightarrow> bool" where
  "row_shape n res \<longleftrightarrow> length (rs_count res) = n \<and> length (rs_time res) = n \<and> length (rs_cpulist res) = n \<and>
     length (rs_counters res) = n"

text \<open>
  The state of the collection: \<open>tags\<close> are the labels with a number, and \<open>cells\<close> tells what was collected from a
  thread for a label.
\<close>

definition collected ::
  "nat \<Rightarrow> nat \<Rightarrow> (nat \<Rightarrow> string \<Rightarrow> LikwidThreadResults option) \<Rightarrow> string list \<Rightarrow> collect \<Rightarrow> bool" where
  "collected N n cells tags c \<longleftrightarrow>
     length (co_results c) = N \<and> length (co_regionIds c) = N \<and> co_currentRegion c = length tags \<and> length tags \<le> N \<and>
     distinct tags \<and> (\<forall>l\<in>set tags. cstr l = l) \<and>
     str_table_inv (co_regionLookup c) \<and> ht_nnodes (co_regionLookup c) = int (length tags) \<and>
     (\<forall>s v. str_map (co_regionLookup c) s = Some v \<longleftrightarrow> (\<exists>i<length tags. tags ! i = cstr s \<and> v = Some (Region i))) \<and>
     (\<forall>i<length tags. co_regionIds c ! i = i \<and> rs_tag (co_results c ! i) = Some (tags ! i)) \<and>
     (\<forall>i<N. row_shape n (co_results c ! i) \<and>
        (\<forall>k<n. cell (co_results c ! i) k = cell_of (if i < length tags then cells k (tags ! i) else None))) \<and>
     (\<forall>k l. cells k l \<noteq> None \<longrightarrow> l \<in> set tags)"

lemma write_cell_writes:
  assumes "row_shape n res" "k < n"
  shows "\<exists>res'. write_cell k r res = Some res' \<and> row_shape n res' \<and> rs_tag res' = rs_tag res \<and>
    (\<forall>k'<n. cell res' k' = (if k' = k then cell_of (Some r) else cell res k'))"
  using assms by (auto simp: write_cell_def row_shape_def arr_set_def cell_def cell_of_def nth_list_update)

lemma collected_D:
  assumes "collected N n cells tags c"
  shows "length (co_results c) = N" "length (co_regionIds c) = N" "co_currentRegion c = length tags" "length tags \<le> N"
    "str_table_inv (co_regionLookup c)" "ht_nnodes (co_regionLookup c) = int (length tags)"
  using assms by (simp_all add: collected_def)

lemma collected_map: "collected N n cells tags c \<Longrightarrow>
  str_map (co_regionLookup c) s = Some v \<longleftrightarrow> (\<exists>i<length tags. tags ! i = cstr s \<and> v = Some (Region i))"
  unfolding collected_def by blast

lemma collected_unknown: "\<lbrakk>collected N n cells tags c; cstr s \<notin> set tags\<rbrakk> \<Longrightarrow> str_map (co_regionLookup c) s = None"
  using collected_map by (metis nth_mem option.exhaust)

text \<open>Registering a label.\<close>

lemma register_known:
  assumes c: "collected N n cells tags c" and s: "cstr s \<in> set tags"
  shows "\<exists>i<length tags. tags ! i = cstr s \<and> register_region (Some (Str s)) r c = Some (i, c)"
proof -
  obtain i where i: "i < length tags" "tags ! i = cstr s" using s by (auto simp: in_set_conv_nth)
  then have "str_map (co_regionLookup c) s = Some (Some (Region i))" using collected_map [OF c] by blast
  then have "g_hash_table_lookup (co_regionLookup c) (Some (Str s)) = Some (Some (Region i))"
    using str_lookup [OF collected_D(5) [OF c], of s] by simp
  then have "register_region (Some (Str s)) r c = Some (i, c)"
    using i c by (simp add: register_region_def collected_def arr_get_def)
  then show ?thesis using i by blast
qed

lemma register_full:
  assumes c: "collected N n cells tags c" and s: "cstr s \<notin> set tags" and full: "length tags = N"
  shows "register_region (Some (Str s)) r c = None"
proof -
  have "g_hash_table_lookup (co_regionLookup c) (Some (Str s)) = Some None"
    using str_lookup [OF collected_D(5) [OF c], of s] collected_unknown [OF c s] by simp
  then show ?thesis
    using full collected_D(1,3) [OF c] by (simp add: register_region_def arr_get_def Let_def)
qed

lemma register_new:
  assumes c: "collected N n cells tags c" and s: "cstr s \<notin> set tags" and room: "length tags < N" "N < 2 ^ 29"
    and r: "lr_label r = cstr s"
  shows "\<exists>c'. register_region (Some (Str s)) r c = Some (length tags, c') \<and> collected N n cells (tags @ [cstr s]) c'"
proof -
  let ?n = "length tags"
  note none = collected_unknown [OF c s]
  have look: "g_hash_table_lookup (co_regionLookup c) (Some (Str s)) = Some None"
    using str_lookup [OF collected_D(5) [OF c], of s] none by simp
  have other: "tags ! i \<noteq> cstr s" if "i < ?n" for i using s that nth_mem by metis
  have inv: "str_table_inv (co_regionLookup c)" and nn: "ht_nnodes (co_regionLookup c) + 1 < 2 ^ 29"
    using c room by (auto simp: collected_def)
  have none': "str_map (co_regionLookup c) (cstr s) = None" using none str_map_cstr [OF inv] by simp
  obtain t where t: "g_hash_table_insert (co_regionLookup c) (Some (Str (cstr s))) (Some (Region ?n)) () =
        Some (str_map (co_regionLookup c) (cstr s) = None, t, ())" "str_table_inv t"
      "ht_nnodes t = ht_nnodes (co_regionLookup c) + (if str_map (co_regionLookup c) (cstr s) = None then 1 else 0)"
      "\<And>s'. str_map t s' = (if g_str_equal (cstr s) s' then Some (Some (Region ?n)) else str_map (co_regionLookup c) s')"
    by (rule str_insert [OF inv nn]) blast
  let ?res = "(co_results c)[?n := (co_results c ! ?n)\<lparr>rs_tag := Some (lr_label r), rs_groupID := lr_groupID r\<rparr>]"
  let ?c = "c\<lparr>co_results := ?res, co_regionIds := (co_regionIds c)[?n := ?n], co_regionLookup := t, co_currentRegion := ?n + 1\<rparr>"
  have reg: "register_region (Some (Str s)) r c = Some (?n, ?c)"
    using look room t(1) collected_D(1-3) [OF c]
    by (simp add: register_region_def arr_get_def arr_set_def g_strdup_cstr Let_def)
  have notin: "cells k (cstr s) = None" for k using c s unfolding collected_def by blast
  have map: "str_map t s' = Some v \<longleftrightarrow> (\<exists>i<length (tags @ [cstr s]). (tags @ [cstr s]) ! i = cstr s' \<and> v = Some (Region i))" for s' v
  proof (cases "cstr s = cstr s'")
    case True
    then have "(\<exists>i<length (tags @ [cstr s]). (tags @ [cstr s]) ! i = cstr s' \<and> v = Some (Region i)) \<longleftrightarrow> v = Some (Region ?n)"
      using other by (auto simp: nth_append less_Suc_eq)
    then show ?thesis using True t(4) by (auto simp: g_str_equal_cstr)
  next
    case False
    then show ?thesis
      using t(4) collected_map [OF c, of s' v] by (auto simp: g_str_equal_cstr nth_append less_Suc_eq)
  qed
  have rows: "row_shape n (?res ! i) \<and> (\<forall>k<n. cell (?res ! i) k =
      cell_of (if i < length (tags @ [cstr s]) then cells k ((tags @ [cstr s]) ! i) else None))" if i: "i < N" for i
  proof -
    have old: "row_shape n (co_results c ! i)"
        "\<And>k. k < n \<Longrightarrow> cell (co_results c ! i) k = cell_of (if i < length tags then cells k (tags ! i) else None)"
      using c i unfolding collected_def by blast+
    show ?thesis
      using old notin c i by (cases "i = ?n") (auto simp: collected_def row_shape_def cell_def nth_append less_Suc_eq)
  qed
  have "collected N n cells (tags @ [cstr s]) ?c"
    unfolding collected_def
  proof (intro conjI)
    show "\<forall>i<N. row_shape n (co_results ?c ! i) \<and> (\<forall>k<n. cell (co_results ?c ! i) k =
        cell_of (if i < length (tags @ [cstr s]) then cells k ((tags @ [cstr s]) ! i) else None))"
      using rows by simp
    show "\<forall>s' v. (str_map (co_regionLookup ?c) s' = Some v) =
        (\<exists>i<length (tags @ [cstr s]). (tags @ [cstr s]) ! i = cstr s' \<and> v = Some (Region i))" using map by simp
    show "\<forall>i<length (tags @ [cstr s]). co_regionIds ?c ! i = i \<and> rs_tag (co_results ?c ! i) = Some ((tags @ [cstr s]) ! i)"
      using c room r by (auto simp: collected_def nth_append nth_list_update less_Suc_eq)
    show "\<forall>k l. cells k l \<noteq> None \<longrightarrow> l \<in> set (tags @ [cstr s])" using c unfolding collected_def by auto
  qed (use c s room t(2,3) none' in \<open>auto simp: collected_def\<close>)
  then show ?thesis using reg by blast
qed

lemma collected_write:
  assumes c: "collected N n cells tags c" and i: "i < length tags" and k: "k < n"
  shows "\<exists>res. write_cell k r (co_results c ! i) = Some res \<and>
    collected N n (\<lambda>k' l. if k' = k \<and> l = tags ! i then Some r else cells k' l) tags
      (c\<lparr>co_results := (co_results c)[i := res]\<rparr>)"
proof -
  let ?cells = "\<lambda>k' l. if k' = k \<and> l = tags ! i then Some r else cells k' l"
  have iN: "i < N" using i collected_D(4) [OF c] by simp
  have row: "row_shape n (co_results c ! i)" using c iN unfolding collected_def by blast
  obtain res where res: "write_cell k r (co_results c ! i) = Some res" "row_shape n res"
      "rs_tag res = rs_tag (co_results c ! i)"
      "\<forall>k'<n. cell res k' = (if k' = k then cell_of (Some r) else cell (co_results c ! i) k')"
    using write_cell_writes [OF row k, of r] by blast
  have other: "tags ! j \<noteq> tags ! i" if "j < length tags" "j \<noteq> i" for j
    using c i that by (auto simp: collected_def nth_eq_iff_index_eq)
  have "row_shape n ((co_results c)[i := res] ! j) \<and> (\<forall>k'<n. cell ((co_results c)[i := res] ! j) k' =
      cell_of (if j < length tags then ?cells k' (tags ! j) else None))" if j: "j < N" for j
  proof -
    have "row_shape n (co_results c ! j)"
        "\<And>k'. k' < n \<Longrightarrow> cell (co_results c ! j) k' = cell_of (if j < length tags then cells k' (tags ! j) else None)"
      using c j unfolding collected_def by blast+
    then show ?thesis
      using res i j iN other collected_D(1) [OF c] by (cases "j = i") (auto simp: cell_of_def)
  qed
  then have "collected N n ?cells tags (c\<lparr>co_results := (co_results c)[i := res]\<rparr>)"
    using c res(3) i unfolding collected_def by (simp add: nth_list_update)
  then show ?thesis using res(1) by blast
qed

lemma collect_step:
  assumes c: "collected N n cells tags c" and k: "k < n" and N: "N < 2 ^ 29"
    and a: "a < length heap" "lr_label (heap ! a) = cstr s" and room: "cstr s \<in> set tags \<or> length tags < N"
  shows "\<exists>c' tags'. collect_region heap k (Some (Str s)) (Some (Results a)) c = Some c' \<and>
    collected N n (\<lambda>k' l. if k' = k \<and> l = cstr s then Some (heap ! a) else cells k' l) tags' c' \<and>
    set tags' = insert (cstr s) (set tags)"
proof -
  obtain i c1 tags' where reg: "register_region (Some (Str s)) (heap ! a) c = Some (i, c1)" "collected N n cells tags' c1"
      "i < length tags'" "tags' ! i = cstr s" "set tags' = insert (cstr s) (set tags)"
  proof (cases "cstr s \<in> set tags")
    case True
    then show thesis using that [of _ c tags] register_known [OF c True, of "heap ! a"] c by (auto simp: insert_absorb)
  next
    case False
    then show thesis
      using that [of "length tags" _ "tags @ [cstr s]"] register_new [OF c False _ N a(2)] room by auto
  qed
  obtain res where "write_cell k (heap ! a) (co_results c1 ! i) = Some res"
      "collected N n (\<lambda>k' l. if k' = k \<and> l = cstr s then Some (heap ! a) else cells k' l) tags'
        (c1\<lparr>co_results := (co_results c1)[i := res]\<rparr>)"
    using collected_write [OF reg(2,3) k, of "heap ! a"] reg(4) by auto
  moreover have "i < N" using reg(3) collected_D(4) [OF reg(2)] by simp
  ultimately show ?thesis
    using reg(1,5) a(1) collected_D(1) [OF reg(2)]
    by (auto simp: collect_region_def arr_get_def arr_set_def)
qed

text \<open>The entries of one thread.\<close>

definition entry_ok :: "LikwidThreadResults list \<Rightarrow> (string \<Rightarrow> LikwidThreadResults option) \<Rightarrow> gobj gpointer \<times> gobj gpointer \<Rightarrow> bool" where
  "entry_ok heap val e \<longleftrightarrow> (\<exists>s a. e = (Some (Str s), Some (Results a)) \<and> a < length heap \<and> lr_label (heap ! a) = cstr s \<and>
     val (cstr s) = Some (heap ! a))"

abbreviation entry_labels :: "(gobj gpointer \<times> gobj gpointer) list \<Rightarrow> string list" where
  "entry_labels es \<equiv> map (cstr \<circ> key_string \<circ> fst) es"

lemma collect_entries:
  assumes "collected N n cells tags c" and k: "k < n" and N: "N < 2 ^ 29" and "\<forall>e\<in>set es. entry_ok heap val e"
    and "card (set tags \<union> set (entry_labels es)) \<le> N"
  shows "\<exists>c' tags'. fold_opt (\<lambda>(key, v). collect_region heap k key v) es c = Some c' \<and>
    collected N n (\<lambda>k' l. if k' = k \<and> l \<in> set (entry_labels es) then val l else cells k' l) tags' c' \<and>
    set tags' = set tags \<union> set (entry_labels es)"
  using assms(1,4,5)
proof (induction es arbitrary: cells tags c)
  case (Cons e es)
  obtain s a where e: "e = (Some (Str s), Some (Results a))" "a < length heap" "lr_label (heap ! a) = cstr s"
      "val (cstr s) = Some (heap ! a)"
    using Cons.prems(2) by (auto simp: entry_ok_def)
  have room: "cstr s \<in> set tags \<or> length tags < N"
  proof (rule disjCI)
    assume new: "\<not> length tags < N"
    have "card (set tags) = length tags" using Cons.prems(1) by (simp add: collected_def distinct_card)
    then have "card (set tags) \<ge> card (set tags \<union> set (entry_labels (e # es)))" using new Cons.prems(3) by linarith
    then have "set tags = set tags \<union> set (entry_labels (e # es))" by (intro card_seteq) auto
    then show "cstr s \<in> set tags" using e(1) by (auto simp: key_string_def)
  qed
  obtain c1 tags1 where 1: "collect_region heap k (Some (Str s)) (Some (Results a)) c = Some c1"
      "collected N n (\<lambda>k' l. if k' = k \<and> l = cstr s then Some (heap ! a) else cells k' l) tags1 c1"
      "set tags1 = insert (cstr s) (set tags)"
    using collect_step [OF Cons.prems(1) k N e(2,3) room] by blast
  have "card (set tags1 \<union> set (entry_labels es)) \<le> N" using Cons.prems(3) 1(3) e(1) by (simp add: key_string_def)
  then obtain c2 tags2 where 2: "fold_opt (\<lambda>(key, v). collect_region heap k key v) es c1 = Some c2"
      "collected N n (\<lambda>k' l. if k' = k \<and> l \<in> set (entry_labels es) then val l
         else (if k' = k \<and> l = cstr s then Some (heap ! a) else cells k' l)) tags2 c2"
      "set tags2 = set tags1 \<union> set (entry_labels es)"
    using Cons.IH [OF 1(2)] Cons.prems(2) by auto
  have "(\<lambda>k' l. if k' = k \<and> l \<in> set (entry_labels es) then val l
         else (if k' = k \<and> l = cstr s then Some (heap ! a) else cells k' l)) =
      (\<lambda>k' l. if k' = k \<and> l \<in> set (entry_labels (e # es)) then val l else cells k' l)"
    using e(1,4) by (auto simp: fun_eq_iff key_string_def)
  then show ?case using 1(1,3) 2 e(1) by (auto simp: key_string_def intro!: exI [of _ c2] exI [of _ tags2])
qed auto

lemma collect_entries_overflow:
  assumes "collected N n cells tags c" and k: "k < n" and N: "N < 2 ^ 29" and "\<forall>e\<in>set es. entry_ok heap val e"
    and "N < card (set tags \<union> set (entry_labels es))"
  shows "fold_opt (\<lambda>(key, v). collect_region heap k key v) es c = None"
  using assms(1,4,5)
proof (induction es arbitrary: cells tags c)
  case Nil
  then show ?case by (auto simp: collected_def distinct_card)
next
  case (Cons e es)
  obtain s a where e: "e = (Some (Str s), Some (Results a))" "a < length heap" "lr_label (heap ! a) = cstr s"
    using Cons.prems(2) by (auto simp: entry_ok_def)
  show ?case
  proof (cases "cstr s \<in> set tags \<or> length tags < N")
    case True
    obtain c1 tags1 where 1: "collect_region heap k (Some (Str s)) (Some (Results a)) c = Some c1"
        "collected N n (\<lambda>k' l. if k' = k \<and> l = cstr s then Some (heap ! a) else cells k' l) tags1 c1"
        "set tags1 = insert (cstr s) (set tags)"
      using collect_step [OF Cons.prems(1) k N e(2,3) True] by blast
    have "N < card (set tags1 \<union> set (entry_labels es))" using Cons.prems(3) 1(3) e(1) by (simp add: key_string_def)
    then show ?thesis using Cons.IH [OF 1(2)] Cons.prems(2) 1(1) e(1) by simp
  next
    case False
    then have "length tags = N" "cstr s \<notin> set tags" using collected_D(4) [OF Cons.prems(1)] by auto
    then show ?thesis
      using register_full [OF Cons.prems(1)] e by (simp add: collect_region_def arr_get_def)
  qed
qed

section \<open>All threads\<close>

fun actives :: "'a option list \<Rightarrow> 'a list" where
  "actives [] = []"
| "actives (None # xs) = actives xs"
| "actives (Some x # xs) = x # actives xs"

lemma actives_iff: "x \<in> set (actives xs) \<longleftrightarrow> Some x \<in> set xs"
  by (induction xs rule: actives.induct) auto

lemma actives_length: "length (actives xs) \<le> length xs"
  by (induction xs rule: actives.induct) auto

definition thread_labels :: "ThreadList list \<Rightarrow> string set" where
  "thread_labels ths = (\<Union>th\<in>set ths. set (labels (tl_hashTable th)))"

lemma thread_labels_simps [simp]:
  "thread_labels [] = {}" "thread_labels (th # ths) = set (labels (tl_hashTable th)) \<union> thread_labels ths"
  by (simp_all add: thread_labels_def)

lemma finite_thread_labels [simp]: "finite (thread_labels ths)"
  by (simp add: thread_labels_def)

lemma entries_ok:
  assumes inv: "thread_inv heap th" and e: "e \<in> set (table_entries (tl_hashTable th))"
  shows "entry_ok heap (region_of heap th) e"
proof -
  obtain key v where kv: "e = (key, v)" by (cases e)
  obtain s where s: "key = Some (Str s)" "str_map (tl_hashTable th) s = Some v"
    using table_entries_key [OF thread_inv_table [OF inv]] e kv by blast
  then obtain a where a: "a < length heap" "v = Some (Results a)" "lr_label (heap ! a) = cstr s"
    using thread_inv_map [OF inv] by blast
  then have "region_of heap th (cstr s) = Some (heap ! a)"
    using s(2) by (simp add: region_of_cstr [OF inv]) (simp add: region_of_def arr_get_def)
  then show ?thesis using kv s a by (auto simp: entry_ok_def)
qed

text \<open>What the collection of some threads, numbered from \<open>k\<close>, adds to the cells.\<close>

definition thread_cells ::
  "LikwidThreadResults list \<Rightarrow> ThreadList list \<Rightarrow> nat \<Rightarrow> (nat \<Rightarrow> string \<Rightarrow> LikwidThreadResults option) \<Rightarrow>
   nat \<Rightarrow> string \<Rightarrow> LikwidThreadResults option" where
  "thread_cells heap ths k cells k' l =
     (if k \<le> k' \<and> k' < k + length ths \<and> l \<in> set (labels (tl_hashTable (ths ! (k' - k))))
      then region_of heap (ths ! (k' - k)) l else cells k' l)"

lemma thread_cells_Cons:
  "thread_cells heap ths (Suc k) (\<lambda>k' l. if k' = k \<and> l \<in> set (labels (tl_hashTable th)) then region_of heap th l else cells k' l) =
   thread_cells heap (th # ths) k cells"
proof (intro ext)
  fix k' l
  consider "k' = k" | "k' < k" | "Suc k \<le> k'" by linarith
  then show "thread_cells heap ths (Suc k) (\<lambda>k' l. if k' = k \<and> l \<in> set (labels (tl_hashTable th)) then region_of heap th l
      else cells k' l) k' l = thread_cells heap (th # ths) k cells k' l"
  proof cases
    case 3
    then obtain d where "k' = Suc k + d" using le_Suc_ex by blast
    then show ?thesis by (simp add: thread_cells_def)
  qed (auto simp: thread_cells_def)
qed

lemma collect_threads_result:
  assumes "collected N n cells tags c" and N: "N < 2 ^ 29" and "k + length (actives ts) \<le> n"
    and "\<forall>th. Some th \<in> set ts \<longrightarrow> thread_inv heap th"
  shows "if card (set tags \<union> thread_labels (actives ts)) \<le> N
    then \<exists>c' tags'. collect_threads heap ts k c = Some c' \<and>
      collected N n (thread_cells heap (actives ts) k cells) tags' c' \<and> set tags' = set tags \<union> thread_labels (actives ts)
    else collect_threads heap ts k c = None"
  using assms(1,3,4)
proof (induction heap ts k c arbitrary: cells tags rule: collect_threads.induct)
  case (1 heap k c)
  have "card (set tags) = length tags" using 1(1) by (simp add: collected_def distinct_card)
  moreover have "thread_cells heap [] k cells = cells" by (auto simp: thread_cells_def fun_eq_iff)
  ultimately show ?case using 1(1) collected_D(4) [OF 1(1)] by auto
next
  case (2 heap ts k c)
  then have "collected N n cells tags c" "k + length (actives ts) \<le> n" "\<forall>th. Some th \<in> set ts \<longrightarrow> thread_inv heap th"
    by simp_all
  from 2(1) [OF this] show ?case by (simp only: actives.simps collect_threads.simps)
next
  case (3 heap th ts k c)
  have inv: "thread_inv heap th" using 3(4) by simp
  have ht: "ht_inv (tl_hashTable th)" using thread_inv_table [OF inv] by (simp add: str_table_inv_def)
  let ?es = "table_entries (tl_hashTable th)"
  have it: "iter_while (tl_hashTable th) (collect_region heap k) g_hash_table_iter_init c =
      fold_opt (\<lambda>(key, v). collect_region heap k key v) ?es c" by (rule iter_while_all [OF ht])
  have ls: "set (entry_labels ?es) = set (labels (tl_hashTable th))" by (simp add: labels_def)
  have k: "k < n" using 3(3) by simp
  have ok: "\<forall>e\<in>set ?es. entry_ok heap (region_of heap th) e" using entries_ok [OF inv] by blast
  show ?case
  proof (cases "card (set tags \<union> set (labels (tl_hashTable th))) \<le> N")
    case True
    obtain c1 tags1 where 1: "fold_opt (\<lambda>(key, v). collect_region heap k key v) ?es c = Some c1"
        "collected N n (\<lambda>k' l. if k' = k \<and> l \<in> set (labels (tl_hashTable th)) then region_of heap th l else cells k' l) tags1 c1"
        "set tags1 = set tags \<union> set (labels (tl_hashTable th))"
      using collect_entries [OF 3(2) k N ok] True ls by auto
    have step: "collect_threads heap (Some th # ts) k c = collect_threads heap ts (Suc k) c1" using it 1(1) by simp
    have it1: "iter_while (tl_hashTable th) (collect_region heap k) g_hash_table_iter_init c = Some c1" using it 1(1) by simp
    have "k + 1 + length (actives ts) \<le> n" "\<forall>th. Some th \<in> set ts \<longrightarrow> thread_inv heap th" using 3(3,4) by simp_all
    from 3(1) [OF it1 1(2) this] show ?thesis
      by (simp only: actives.simps thread_labels_simps thread_cells_Cons 1(3) Un_assoc step Suc_eq_plus1 [symmetric])
  next
    case False
    have "set tags \<union> set (labels (tl_hashTable th)) \<subseteq> set tags \<union> thread_labels (actives (Some th # ts))" by auto
    then have "card (set tags \<union> set (labels (tl_hashTable th))) \<le> card (set tags \<union> thread_labels (actives (Some th # ts)))"
      by (intro card_mono) auto
    moreover have "fold_opt (\<lambda>(key, v). collect_region heap k key v) ?es c = None"
      using collect_entries_overflow [OF 3(2) k N ok] False ls by simp
    ultimately show ?thesis using False it by simp
  qed
qed

section \<open>The final collection\<close>

lemma count_regions_counts:
  assumes "\<forall>th. Some th \<in> set ts \<longrightarrow> str_table_inv (tl_hashTable th) \<and> ht_nnodes (tl_hashTable th) < 2 ^ 29" "m < 2 ^ 29"
  shows "count_regions ts (of_nat k) (of_nat m) = (of_nat (k + length (actives ts)),
    of_nat (fold max (map (\<lambda>th. length (labels (tl_hashTable th))) (actives ts)) m))"
  using assms
proof (induction ts arbitrary: k m rule: actives.induct)
  case (3 th ts)
  let ?l = "length (labels (tl_hashTable th))"
  have inv: "str_table_inv (tl_hashTable th)" "ht_nnodes (tl_hashTable th) < 2 ^ 29" using 3(2) by auto
  then have l: "?l < 2 ^ 29" using labels_length [OF inv(1)] by simp
  have size: "g_hash_table_size (tl_hashTable th) = of_nat ?l"
    using labels_length [OF inv(1)] by (simp add: g_hash_table_size_def flip: labels_length [OF inv(1)])
  have "(of_nat m :: u32) < of_nat ?l \<longleftrightarrow> m < ?l" using l 3(3) by (simp add: word_less_nat_alt unat_of_nat)
  then have "(if (of_nat m :: u32) < of_nat ?l then of_nat ?l else of_nat m) = (of_nat (max ?l m) :: u32)"
    by (simp add: max_def)
  then show ?case
    using 3(1) [where k = "Suc k" and m = "max ?l m"] 3(2,3) l by (simp add: size Let_def add.commute)
qed simp_all

lemma fold_max_ge: "m \<le> fold max xs (m :: nat)"
  by (induction xs arbitrary: m) (auto intro: order_trans [OF max.cobounded2])

lemma fold_max_le: "x \<in> set xs \<Longrightarrow> x \<le> fold max xs (m :: nat)"
proof (induction xs arbitrary: m)
  case (Cons y xs)
  then show ?case using fold_max_ge [of "max y m" xs] by auto
qed simp

lemma fold_max_in: "fold max xs (m :: nat) \<in> insert m (set xs)"
proof (induction xs arbitrary: m)
  case (Cons y xs)
  then show ?case using Cons.IH [of "max y m"] by (auto simp: max_def split: if_splits)
qed simp

definition region_cpus :: "regions \<Rightarrow> nat list" where
  "region_cpus R = filter (\<lambda>i. threadList R ! i \<noteq> None) [0..<length (threadList R)]"

lemma actives_append: "actives (xs @ ys) = actives xs @ actives ys"
  by (induction xs rule: actives.induct) auto

lemma actives_filter: "actives xs = map (\<lambda>i. the (xs ! i)) (filter (\<lambda>i. xs ! i \<noteq> None) [0..<length xs])"
proof (induction xs rule: rev_induct)
  case (snoc x xs)
  have eq: "filter (\<lambda>i. (xs @ [x]) ! i \<noteq> None) [0..<length xs] = filter (\<lambda>i. xs ! i \<noteq> None) [0..<length xs]"
    by (rule filter_cong) (auto simp: nth_append)
  have "map (\<lambda>i. the ((xs @ [x]) ! i)) (filter (\<lambda>i. (xs @ [x]) ! i \<noteq> None) [0..<length xs]) = actives xs"
    unfolding eq snoc by (rule map_cong) (auto simp: nth_append)
  then show ?case by (cases x) (simp_all add: actives_append del: not_None_eq)
qed simp

lemma region_labels:
  assumes inv: "regions_inv R" and i: "i < MAX_NUM_THREADS" "threadList R ! i = Some th"
  shows "l \<in> set (labels (tl_hashTable th)) \<longleftrightarrow> cstr l = l \<and> region R i l \<noteq> None"
  using region_of_labels [OF regions_inv_thread [OF inv i], of l] region_region_of [OF inv i] labels_cstr
  by metis

text \<open>No thread has entered a region that this one has not entered.\<close>

definition covers :: "regions \<Rightarrow> nat \<Rightarrow> bool" where
  "covers R i \<longleftrightarrow> (\<forall>j l. region R j l \<noteq> None \<longrightarrow> region R i l \<noteq> None)"

lemma region_None: "\<lbrakk>regions_inv R; MAX_NUM_THREADS \<le> i \<or> threadList R ! i = None\<rbrakk> \<Longrightarrow> region R i l = None"
  by (auto simp: region_def region_addr_def regions_inv_def)

lemma region_cstr: "regions_inv R \<Longrightarrow> region R i (cstr l) = region R i l"
  by (simp add: region_def region_addr_cstr)

lemma active_index: "\<lbrakk>regions_inv R; Some th \<in> set (threadList R)\<rbrakk> \<Longrightarrow> \<exists>i<MAX_NUM_THREADS. threadList R ! i = Some th"
  by (auto simp: in_set_conv_nth regions_inv_def)

lemma active_in: "\<lbrakk>regions_inv R; i < MAX_NUM_THREADS; threadList R ! i = Some th\<rbrakk> \<Longrightarrow> th \<in> set (actives (threadList R))"
  unfolding actives_iff regions_inv_def by (metis nth_mem)

lemma thread_labels_region:
  assumes inv: "regions_inv R"
  shows "l \<in> thread_labels (actives (threadList R)) \<longleftrightarrow> cstr l = l \<and> (\<exists>i. region R i l \<noteq> None)"
proof
  assume "l \<in> thread_labels (actives (threadList R))"
  then obtain th where th: "Some th \<in> set (threadList R)" "l \<in> set (labels (tl_hashTable th))"
    by (auto simp: thread_labels_def actives_iff)
  then obtain i where "i < MAX_NUM_THREADS" "threadList R ! i = Some th"
    using active_index [OF inv] by blast
  then show "cstr l = l \<and> (\<exists>i. region R i l \<noteq> None)" using region_labels [OF inv] th(2) by blast
next
  assume l: "cstr l = l \<and> (\<exists>i. region R i l \<noteq> None)"
  then obtain i where i: "region R i l \<noteq> None" by blast
  then obtain th where th: "i < MAX_NUM_THREADS" "threadList R ! i = Some th"
    using region_None [OF inv, of i l] by (metis not_le option.exhaust)
  then have "l \<in> set (labels (tl_hashTable th))" using region_labels [OF inv th] l i by blast
  then show "l \<in> thread_labels (actives (threadList R))"
    using active_in [OF inv th] by (auto simp: thread_labels_def)
qed

text \<open>The regions fit exactly when some thread covers all others.\<close>

lemma most_regions_covers:
  assumes inv: "regions_inv R"
  shows "card (thread_labels (actives (threadList R))) \<le>
      fold max (map (\<lambda>th. length (labels (tl_hashTable th))) (actives (threadList R))) 0 \<longleftrightarrow>
    (\<exists>i<MAX_NUM_THREADS. covers R i)" (is "card ?L \<le> ?M \<longleftrightarrow> _")
proof
  assume le: "card ?L \<le> ?M"
  consider "?M = 0" | th where "Some th \<in> set (threadList R)" "?M = length (labels (tl_hashTable th))"
    using fold_max_in [of "map (\<lambda>th. length (labels (tl_hashTable th))) (actives (threadList R))" 0] by (auto simp: actives_iff)
  then show "\<exists>i<MAX_NUM_THREADS. covers R i"
  proof cases
    case 1
    then have "?L = {}" using le by simp
    then have "region R j l = None" for j l
      using thread_labels_region [OF inv, of "cstr l"] region_cstr [OF inv] by (metis cstr_cstr empty_iff)
    then show ?thesis by (intro exI [of _ 0]) (simp add: covers_def MAX_NUM_THREADS_def)
  next
    case 2
    then obtain i where i: "i < MAX_NUM_THREADS" "threadList R ! i = Some th"
      using active_index [OF inv] by blast
    have "set (labels (tl_hashTable th)) \<subseteq> ?L" using 2(1) by (auto simp: thread_labels_def actives_iff)
    moreover have "card (set (labels (tl_hashTable th))) = ?M"
      using labels_distinct [OF thread_inv_table [OF regions_inv_thread [OF inv i]]] 2(2) by (simp add: distinct_card)
    ultimately have eq: "set (labels (tl_hashTable th)) = ?L" using le by (intro card_seteq) auto
    have "covers R i"
      unfolding covers_def
      using eq region_labels [OF inv i] thread_labels_region [OF inv] region_cstr [OF inv] by (metis cstr_cstr)
    then show ?thesis using i by blast
  qed
next
  assume "\<exists>i<MAX_NUM_THREADS. covers R i"
  then obtain i where i: "i < MAX_NUM_THREADS" "covers R i" by blast
  show "card ?L \<le> ?M"
  proof (cases "threadList R ! i")
    case None
    then have "?L = {}" using i region_None [OF inv, of i] thread_labels_region [OF inv] by (auto simp: covers_def)
    then show ?thesis by simp
  next
    case (Some th)
    have "?L \<subseteq> set (labels (tl_hashTable th))"
      using i(2) region_labels [OF inv i(1) Some] thread_labels_region [OF inv] unfolding covers_def by blast
    then have "card ?L \<le> length (labels (tl_hashTable th))" by (meson List.finite_set card_length card_mono le_trans)
    moreover have "length (labels (tl_hashTable th)) \<le> ?M"
      using active_in [OF inv i(1) Some] by (intro fold_max_le) auto
    ultimately show ?thesis by simp
  qed
qed

lemma most_regions_le:
  assumes inv: "regions_inv R"
  shows "fold max (map (\<lambda>th. length (labels (tl_hashTable th))) (actives (threadList R))) 0 \<le>
    card (thread_labels (actives (threadList R)))" (is "?M \<le> card ?L")
proof -
  have "length (labels (tl_hashTable th)) \<le> card ?L" if th: "th \<in> set (actives (threadList R))" for th
  proof -
    obtain i where i: "i < MAX_NUM_THREADS" "threadList R ! i = Some th"
      using active_index [OF inv] th by (auto simp: actives_iff)
    have "length (labels (tl_hashTable th)) = card (set (labels (tl_hashTable th)))"
      using labels_distinct [OF thread_inv_table [OF regions_inv_thread [OF inv i]]] by (simp add: distinct_card)
    also have "\<dots> \<le> card ?L" using th by (intro card_mono) (auto simp: thread_labels_def)
    finally show ?thesis .
  qed
  then show ?thesis
    using fold_max_in [of "map (\<lambda>th. length (labels (tl_hashTable th))) (actives (threadList R))" 0] by auto
qed

lemma thread_cells_region:
  assumes inv: "regions_inv R" and k: "k < length (region_cpus R)" and l: "cstr l = l"
  shows "thread_cells (region_heap R) (actives (threadList R)) 0 (\<lambda>k l. None) k l = region R (region_cpus R ! k) l"
proof -
  let ?i = "region_cpus R ! k"
  have len: "length (threadList R) = MAX_NUM_THREADS" using inv by (simp add: regions_inv_def)
  have "?i \<in> set (region_cpus R)" using k by simp
  then obtain th where i: "?i < MAX_NUM_THREADS" "threadList R ! ?i = Some th" using len by (auto simp: region_cpus_def)
  have "actives (threadList R) = map (\<lambda>i. the (threadList R ! i)) (region_cpus R)"
    unfolding region_cpus_def by (rule actives_filter)
  then have "actives (threadList R) ! k = th" "k < length (actives (threadList R))" using k i by simp_all
  then show ?thesis
    using region_labels [OF inv i, of l] region_region_of [OF inv i, of l] l by (auto simp: thread_cells_def)
qed

lemma finalize_result:
  assumes inv: "regions_inv R" and fits: "length (region_heap R) < 2 ^ 29"
  shows "if \<exists>i<MAX_NUM_THREADS. covers R i
    then \<exists>results tags. hashTable_finalize fresh R = Some (length (region_cpus R), length tags, results) \<and>
      length results = length tags \<and> distinct tags \<and>
      (\<forall>l. l \<in> set tags \<longleftrightarrow> cstr l = l \<and> (\<exists>i. region R i l \<noteq> None)) \<and>
      (\<forall>r<length tags. rs_tag (results ! r) = Some (tags ! r) \<and>
        (\<forall>k<length (region_cpus R). cell (results ! r) k = cell_of (region R (region_cpus R ! k) (tags ! r))))
    else hashTable_finalize fresh R = None"
proof -
  let ?ths = "actives (threadList R)" and ?n = "length (region_cpus R)"
  let ?N = "fold max (map (\<lambda>th. length (labels (tl_hashTable th))) ?ths) 0"
  have len: "length (threadList R) = MAX_NUM_THREADS" using inv by (simp add: regions_inv_def)
  have thi: "thread_inv (region_heap R) th" if "Some th \<in> set (threadList R)" for th
    using that inv len by (auto simp: in_set_conv_nth regions_inv_def)
  have n: "length ?ths = ?n" unfolding region_cpus_def by (subst actives_filter) simp
  have small: "\<forall>th. Some th \<in> set (threadList R) \<longrightarrow> str_table_inv (tl_hashTable th) \<and> ht_nnodes (tl_hashTable th) < 2 ^ 29"
  proof (intro allI impI)
    fix th assume "Some th \<in> set (threadList R)"
    then have "thread_inv (region_heap R) th" by (rule thi)
    then show "str_table_inv (tl_hashTable th) \<and> ht_nnodes (tl_hashTable th) < 2 ^ 29" using fits by (auto simp: thread_inv_def)
  qed
  have N: "?N < 2 ^ 29"
    using fold_max_in [of "map (\<lambda>th. length (labels (tl_hashTable th))) ?ths" 0] small labels_length
    by (fastforce simp: actives_iff)
  have "length ?ths \<le> 263" using actives_length [of "threadList R"] len by (simp add: MAX_NUM_THREADS_def)
  then have cnt: "count_regions (threadList R) 0 0 = (of_nat ?n, of_nat ?N)" "unat (of_nat ?n :: u32) = ?n" "unat (of_nat ?N :: u32) = ?N"
    using count_regions_counts [OF small, of 0 0] n N by (simp_all add: unat_of_nat)
  let ?c = "\<lparr>co_results = replicate ?N (empty_result fresh ?n), co_regionLookup = new_str_table,
      co_regionIds = replicate ?N 0, co_currentRegion = 0\<rparr>"
  have c: "collected ?N ?n (\<lambda>k l. None) [] ?c"
    using new_str_table_inv new_str_table_map
    by (simp add: collected_def row_shape_def empty_result_def cell_def cell_of_def)
      (simp add: new_str_table_def g_hash_table_new_def g_hash_table_new_full_def)
  have res: "if card (thread_labels ?ths) \<le> ?N
      then \<exists>c' tags. collect_threads (region_heap R) (threadList R) 0 ?c = Some c' \<and>
        collected ?N ?n (thread_cells (region_heap R) ?ths 0 (\<lambda>k l. None)) tags c' \<and> set tags = thread_labels ?ths
      else collect_threads (region_heap R) (threadList R) 0 ?c = None"
  proof -
    have "0 + length ?ths \<le> ?n" "\<forall>th. Some th \<in> set (threadList R) \<longrightarrow> thread_inv (region_heap R) th" using n thi by auto
    from collect_threads_result [OF c N this] show ?thesis by (simp only: list.set(1) Un_empty_left)
  qed
  have fin: "hashTable_finalize fresh R = map_option (\<lambda>c. (?n, ?N, co_results c))
      (collect_threads (region_heap R) (threadList R) 0 ?c)"
    using cnt by (cases "collect_threads (region_heap R) (threadList R) 0 ?c") (simp_all add: hashTable_finalize_def Let_def)
  show ?thesis
  proof (cases "\<exists>i<MAX_NUM_THREADS. covers R i")
    case True
    then have le: "card (thread_labels ?ths) \<le> ?N" using most_regions_covers [OF inv] by blast
    then obtain c' tags where c': "collect_threads (region_heap R) (threadList R) 0 ?c = Some c'"
        "collected ?N ?n (thread_cells (region_heap R) ?ths 0 (\<lambda>k l. None)) tags c'" "set tags = thread_labels ?ths"
      using res by auto
    have dist: "distinct tags" using c'(2) by (simp add: collected_def)
    have tags: "length tags = ?N"
      using le most_regions_le [OF inv] distinct_card [OF dist] c'(3) by simp
    have row: "rs_tag (co_results c' ! r) = Some (tags ! r) \<and>
        (\<forall>k<?n. cell (co_results c' ! r) k = cell_of (region R (region_cpus R ! k) (tags ! r)))" if r: "r < length tags" for r
    proof -
      have "cstr (tags ! r) = tags ! r" using c'(2) r by (simp add: collected_def)
      then show ?thesis
        using c'(2) r tags thread_cells_region [OF inv] unfolding collected_def by auto
    qed
    have "\<exists>results tags. hashTable_finalize fresh R = Some (?n, length tags, results) \<and> length results = length tags \<and>
        distinct tags \<and> (\<forall>l. l \<in> set tags \<longleftrightarrow> cstr l = l \<and> (\<exists>i. region R i l \<noteq> None)) \<and>
        (\<forall>r<length tags. rs_tag (results ! r) = Some (tags ! r) \<and>
          (\<forall>k<?n. cell (results ! r) k = cell_of (region R (region_cpus R ! k) (tags ! r))))"
      using fin c'(1,3) tags dist row collected_D(1) [OF c'(2)] thread_labels_region [OF inv]
      by (intro exI [of _ "co_results c'"] exI [of _ tags]) auto
    then show ?thesis using True by simp
  next
    case False
    then have "\<not> card (thread_labels ?ths) \<le> ?N" using most_regions_covers [OF inv] by blast
    then have "hashTable_finalize fresh R = None" using res fin by simp
    then show ?thesis using False by simp
  qed
qed

section \<open>Properties\<close>

text \<open>
  Property C21. Asking for a region on a processor of the machine always succeeds: it returns the results of this
  region on this processor, creating zeroed ones the first time, and leaves the results of every other region and of
  every other processor as they are. The tables stay well-formed and no two regions share their results.
\<close>

theorem hashTable_get_finds:
  assumes "regions_inv R" "0 \<le> c" "c < int MAX_NUM_THREADS" "CHR 0x00 \<notin> set l" "length (region_heap R) + 1 < 2 ^ 29"
  shows "\<exists>a R'. hashTable_get fresh c tid l R = Some (a, R') \<and> regions_inv R' \<and> region_addr R' (nat c) l = Some a \<and>
    region R' (nat c) l = Some (case region R (nat c) l of Some r \<Rightarrow> r | None \<Rightarrow> new_results fresh l) \<and>
    (\<forall>i l'. i \<noteq> nat c \<or> cstr l' \<noteq> l \<longrightarrow> region R' i l' = region R i l')"
proof -
  have l: "cstr l = l" using assms(4) by (rule cstr_id)
  have fits: "int (length (region_heap R)) + 1 < 2 ^ 29" using assms(5) by simp
  obtain a R' where R': "hashTable_get fresh c tid l R = Some (a, R')" "regions_inv R'" "region_addr R' (nat c) l = Some a"
      "\<And>i l'. region R' i l' = (if i = nat c \<and> cstr l' = l then Some (known_or_new fresh R (nat c) l) else region R i l')"
    by (rule hashTable_get_region [OF assms(1-3) l fits, of fresh tid]) blast
  then show ?thesis using l by (intro exI [of _ a] exI [of _ R']) (auto simp: known_or_new_def)
qed

text \<open>The state after \<open>hashTable_init\<close> in a new process.\<close>

definition regions_boot :: regions where
  "regions_boot = hashTable_init \<lparr>threadList = replicate MAX_NUM_THREADS None, region_heap = []\<rparr>"

lemma regions_boot_inv: "regions_inv regions_boot"
  by (auto simp: regions_inv_def regions_boot_def hashTable_init_def region_addr_def)

lemma regions_boot_region: "region regions_boot i l = None"
  by (simp add: region_def region_addr_def regions_boot_def hashTable_init_def)

lemma regions_boot_heap: "length (region_heap regions_boot) = 0"
  by (simp add: regions_boot_def hashTable_init_def)

theorem hashTable_get_finds_witness:
  "\<forall>fresh. \<exists>a R'. hashTable_get fresh 5 0 ''loop-0'' regions_boot = Some (a, R') \<and>
    region R' 5 ''loop-0'' = Some (new_results fresh ''loop-0'') \<and> region R' 4 ''loop-0'' = None"
proof
  fix fresh
  have "(5::int) < int MAX_NUM_THREADS" "CHR 0x00 \<notin> set ''loop-0''" "length (region_heap regions_boot) + 1 < 2 ^ 29"
    by (simp_all add: MAX_NUM_THREADS_def regions_boot_heap)
  from hashTable_get_finds [OF regions_boot_inv _ this, of fresh 0]
  show "\<exists>a R'. hashTable_get fresh 5 0 ''loop-0'' regions_boot = Some (a, R') \<and>
      region R' 5 ''loop-0'' = Some (new_results fresh ''loop-0'') \<and> region R' 4 ''loop-0'' = None"
    by (auto simp: regions_boot_region)
qed

text \<open>
  Property C20. The final collection of a well-formed state in which one processor has entered every region: there is
  one row per region, and in the row of a region every processor with a table has the call count, time, processor and
  counter values of its own results of that region, and zeros when it never entered the region.
\<close>

theorem finalize_collects:
  assumes "regions_inv R" "length (region_heap R) < 2 ^ 29" "i < MAX_NUM_THREADS" "covers R i"
  shows "\<exists>results tags. hashTable_finalize fresh R = Some (length (region_cpus R), length tags, results) \<and>
    length results = length tags \<and> distinct tags \<and>
    (\<forall>l. l \<in> set tags \<longleftrightarrow> cstr l = l \<and> (\<exists>i. region R i l \<noteq> None)) \<and>
    (\<forall>r<length tags. rs_tag (results ! r) = Some (tags ! r) \<and>
      (\<forall>k<length (region_cpus R). cell (results ! r) k = cell_of (region R (region_cpus R ! k) (tags ! r))))"
proof -
  have ex: "\<exists>i<MAX_NUM_THREADS. covers R i" using assms(3,4) by blast
  show ?thesis using finalize_result [OF assms(1,2), of fresh] unfolding if_P [OF ex] .
qed

text \<open>
  Property C25. Collecting writes behind the array of results exactly when every processor lacks a region that
  another one has entered: the array is as long as the largest table of a processor, not as the number of regions.
\<close>

theorem finalize_overflow_iff:
  assumes "regions_inv R" "length (region_heap R) < 2 ^ 29"
  shows "hashTable_finalize fresh R = None \<longleftrightarrow> (\<forall>i<MAX_NUM_THREADS. \<not> covers R i)"
  using finalize_result [OF assms, of fresh] by (auto split: if_splits)

text \<open>A state in which processor 0 has entered one region.\<close>

lemma one_region:
  assumes "CHR 0x00 \<notin> set l"
  obtains a R where "hashTable_get fresh 0 0 l regions_boot = Some (a, R)" "regions_inv R" "length (region_heap R) \<le> 1"
    "\<And>i l'. region R i l' = (if i = 0 \<and> cstr l' = l then Some (new_results fresh l) else None)"
proof -
  have l: "cstr l = l" using assms by (rule cstr_id)
  have c: "(0::int) \<le> 0" "(0::int) < int MAX_NUM_THREADS" by (simp_all add: MAX_NUM_THREADS_def)
  have h: "int (length (region_heap regions_boot)) + 1 < 2 ^ 29" by (simp add: regions_boot_heap)
  obtain a R where "hashTable_get fresh 0 0 l regions_boot = Some (a, R)" "regions_inv R"
      "\<And>i l'. region R i l' = (if i = nat 0 \<and> cstr l' = l then Some (known_or_new fresh regions_boot (nat 0) l) else region regions_boot i l')"
      "length (region_heap R) \<le> length (region_heap regions_boot) + 1"
    by (rule hashTable_get_region [OF regions_boot_inv c l h, of fresh 0]) blast
  then show thesis using that by (simp add: known_or_new_def regions_boot_region regions_boot_heap)
qed

theorem finalize_collects_witness:
  "\<forall>fresh fresh'. \<exists>a R results. hashTable_get fresh 0 0 ''loop-0'' regions_boot = Some (a, R) \<and>
    hashTable_finalize fresh' R = Some (length (region_cpus R), 1, results) \<and> rs_tag (results ! 0) = Some ''loop-0''"
proof (intro allI)
  fix fresh fresh'
  obtain a R where R: "hashTable_get fresh 0 0 ''loop-0'' regions_boot = Some (a, R)" "regions_inv R"
      "length (region_heap R) \<le> 1"
      "\<And>i l'. region R i l' = (if i = 0 \<and> cstr l' = ''loop-0'' then Some (new_results fresh ''loop-0'') else None)"
    by (rule one_region [of "''loop-0''" fresh]) auto
  have "length (region_heap R) < 2 ^ 29" "0 < MAX_NUM_THREADS" "covers R 0"
    using R(3,4) by (simp_all add: MAX_NUM_THREADS_def covers_def)
  from finalize_collects [OF R(2) this, of fresh'] obtain results tags where
    t: "hashTable_finalize fresh' R = Some (length (region_cpus R), length tags, results)" "distinct tags"
      "\<forall>l. l \<in> set tags \<longleftrightarrow> cstr l = l \<and> (\<exists>i. region R i l \<noteq> None)"
      "\<forall>r<length tags. rs_tag (results ! r) = Some (tags ! r)" by blast
  have "cstr ''loop-0'' = ''loop-0''" by (simp add: cstr_def)
  then have set: "set tags = {''loop-0''}" using t(3) R(4) by (auto split: if_splits)
  then have "length tags = 1" using distinct_card [OF t(2)] by simp
  moreover have "tags ! 0 = ''loop-0''" using set calculation nth_mem [of 0 tags] by simp
  ultimately show "\<exists>a R results. hashTable_get fresh 0 0 ''loop-0'' regions_boot = Some (a, R) \<and>
      hashTable_finalize fresh' R = Some (length (region_cpus R), 1, results) \<and> rs_tag (results ! 0) = Some ''loop-0''"
    using R(1) t(1,4) by auto
qed

theorem finalize_overflow_iff_witness:
  "\<forall>fresh fresh'. \<exists>a R b R'. hashTable_get fresh 0 0 ''setup-0'' regions_boot = Some (a, R) \<and>
    hashTable_get fresh 1 1 ''solve-0'' R = Some (b, R') \<and> hashTable_finalize fresh' R' = None"
proof (intro allI)
  fix fresh fresh'
  obtain a R where R: "hashTable_get fresh 0 0 ''setup-0'' regions_boot = Some (a, R)" "regions_inv R"
      "length (region_heap R) \<le> 1"
      "\<And>i l'. region R i l' = (if i = 0 \<and> cstr l' = ''setup-0'' then Some (new_results fresh ''setup-0'') else None)"
    by (rule one_region [of "''setup-0''" fresh]) auto
  have l: "cstr ''solve-0'' = ''solve-0''" "cstr ''setup-0'' = ''setup-0''" by (simp_all add: cstr_def)
  have c: "(0::int) \<le> 1" "(1::int) < int MAX_NUM_THREADS" by (simp_all add: MAX_NUM_THREADS_def)
  have h: "int (length (region_heap R)) + 1 < 2 ^ 29" using R(3) by simp
  obtain b R' where R': "hashTable_get fresh 1 1 ''solve-0'' R = Some (b, R')" "regions_inv R'"
      "\<And>i l'. region R' i l' = (if i = nat 1 \<and> cstr l' = ''solve-0'' then Some (known_or_new fresh R (nat 1) ''solve-0'') else region R i l')"
      "length (region_heap R') \<le> length (region_heap R) + 1"
    by (rule hashTable_get_region [OF R(2) c l(1) h, of fresh 1]) blast
  have "\<not> covers R' i" for i
  proof
    assume "covers R' i"
    moreover have "region R' 0 ''setup-0'' \<noteq> None" "region R' 1 ''solve-0'' \<noteq> None" using R'(3) R(4) l by auto
    ultimately have "region R' i ''setup-0'' \<noteq> None" "region R' i ''solve-0'' \<noteq> None" unfolding covers_def by blast+
    then show False using R'(3) R(4) l by (auto split: if_splits)
  qed
  moreover have "length (region_heap R') < 2 ^ 29" using R'(4) R(3) by simp
  ultimately have "hashTable_finalize fresh' R' = None" using finalize_overflow_iff [OF R'(2), of fresh'] by blast
  then show "\<exists>a R b R'. hashTable_get fresh 0 0 ''setup-0'' regions_boot = Some (a, R) \<and>
      hashTable_get fresh 1 1 ''solve-0'' R = Some (b, R') \<and> hashTable_finalize fresh' R' = None"
    using R(1) R'(1) by blast
qed

end
