(* ===== verification/Marker_Regions.thy ===== *)
theory Marker_Regions
  imports Marker HashTable_Properties
begin

text \<open>
  Entering and leaving a region, for any counters: which values a region keeps at its start, and what is added to its
  results at its end.
\<close>

section \<open>The arrays of the results\<close>

definition arrays_ok :: "LikwidThreadResults \<Rightarrow> bool" where
  "arrays_ok r \<longleftrightarrow> length (lr_StartPMcounters r) = NUM_PMC \<and> length (lr_StartOverflows r) = NUM_PMC \<and>
     length (lr_PMcounters r) = NUM_PMC"

definition regions_ok :: "regions \<Rightarrow> bool" where
  "regions_ok R \<longleftrightarrow> regions_inv R \<and> (\<forall>r\<in>set (region_heap R). arrays_ok r)"

lemma new_results_arrays: "length (lr_StartOverflows fresh) = NUM_PMC \<Longrightarrow> arrays_ok (new_results fresh l)"
  by (simp add: arrays_ok_def new_results_def)

lemma initThread_heap: "hashTable_initThread tid c R = Some R' \<Longrightarrow> region_heap R' = region_heap R"
  by (auto simp: hashTable_initThread_def split: bind_splits option.splits)

lemma get_heap:
  assumes "hashTable_get fresh c tid l R = Some (a, R')"
  shows "region_heap R' = region_heap R \<or> region_heap R' = region_heap R @ [new_results fresh l]"
  using assms by (auto simp: hashTable_get_def Let_def dest!: initThread_heap split: bind_splits option.splits gobj.splits)

lemma get_ok:
  assumes "regions_ok R" "length (lr_StartOverflows fresh) = NUM_PMC" "0 \<le> c" "c < int MAX_NUM_THREADS" "CHR 0x00 \<notin> set l"
    "length (region_heap R) + 1 < 2 ^ 29"
  obtains a R' where "hashTable_get fresh c tid l R = Some (a, R')" "regions_ok R'" "region_addr R' (nat c) l = Some a"
    "a < length (region_heap R')" "region_heap R' ! a = known_or_new fresh R (nat c) l"
    "\<And>i l'. region R' i l' = (if i = nat c \<and> cstr l' = l then Some (known_or_new fresh R (nat c) l) else region R i l')"
    "length (region_heap R') \<le> length (region_heap R) + 1"
proof -
  have h: "int (length (region_heap R)) + 1 < 2 ^ 29" "regions_inv R" using assms(1,6) by (simp_all add: regions_ok_def)
  obtain a R' where g: "hashTable_get fresh c tid l R = Some (a, R')" "regions_inv R'"
    "region_addr R' (nat c) l = Some a" "region_heap R' ! a = known_or_new fresh R (nat c) l"
    "\<And>i l'. region R' i l' = (if i = nat c \<and> cstr l' = l then Some (known_or_new fresh R (nat c) l) else region R i l')"
    "length (region_heap R') \<le> length (region_heap R) + 1"
    by (rule hashTable_get_region [OF h(2) assms(3,4) cstr_id [OF assms(5)] h(1), of fresh tid]) blast
  moreover have "\<forall>r\<in>set (region_heap R'). arrays_ok r"
    using get_heap [OF g(1)] assms(1) new_results_arrays [OF assms(2)] by (auto simp: regions_ok_def)
  ultimately show thesis using that region_addr_bound [OF g(2,3)] by (simp add: regions_ok_def)
qed

lemma update_results_ok:
  assumes "regions_ok R" "\<And>r. lr_label (f r) = lr_label r" "\<And>r. arrays_ok r \<Longrightarrow> arrays_ok (f r)"
  shows "regions_ok (update_results a f R)"
proof -
  have "\<forall>r\<in>set ((region_heap R)[a := f (region_heap R ! a)]). arrays_ok r"
  proof (cases "a < length (region_heap R)")
    case True
    have "\<forall>r\<in>insert (f (region_heap R ! a)) (set (region_heap R)). arrays_ok r"
      using assms(1,3) True by (simp add: regions_ok_def)
    then show ?thesis using set_update_subset_insert [of "region_heap R" a "f (region_heap R ! a)"] by blast
  qed (use assms(1) in \<open>simp add: regions_ok_def list_update_beyond\<close>)
  then have "\<forall>r\<in>set (region_heap (update_results a f R)). arrays_ok r" by (simp add: update_results_def)
  then show ?thesis using update_results_inv [OF _ assms(2)] assms(1) by (simp add: regions_ok_def)
qed

section \<open>The loops over the events\<close>

definition group_counter :: "nat \<Rightarrow> PerfmonEventSet \<Rightarrow> nat \<Rightarrow> PerfmonCounter" where
  "group_counter t g j = the (counter_get t (gs_events g ! j))"

definition counters_known :: "nat \<Rightarrow> PerfmonEventSet \<Rightarrow> bool" where
  "counters_known t g \<longleftrightarrow> gs_numberOfEvents g \<le> length (gs_events g) \<and> gs_numberOfEvents g \<le> NUM_PMC \<and>
     (\<forall>j<gs_numberOfEvents g. counter_get t (gs_events g ! j) \<noteq> None)"

lemma start_values_loop:
  assumes "n \<le> length es" "\<forall>j<n. counter_get t (es ! j) \<noteq> None"
    "k + n \<le> length (lr_StartPMcounters r)" "k + n \<le> length (lr_StartOverflows r)"
  shows "\<exists>D W. start_values t n es (int k) r = Some (r\<lparr>lr_StartPMcounters := D, lr_StartOverflows := W\<rparr>) \<and>
    length D = length (lr_StartPMcounters r) \<and> length W = length (lr_StartOverflows r) \<and>
    (\<forall>j<n. D ! (k + j) = real (unat (pc_counterData (the (counter_get t (es ! j))))) \<and>
       W ! (k + j) = pc_overflows (the (counter_get t (es ! j)))) \<and>
    (\<forall>j<k. D ! j = lr_StartPMcounters r ! j \<and> W ! j = lr_StartOverflows r ! j)"
  using assms
proof (induction n arbitrary: es k r)
  case 0
  then show ?case by (intro exI [of _ "lr_StartPMcounters r"] exI [of _ "lr_StartOverflows r"]) simp
next
  case (Suc n)
  then obtain e es' where es: "es = e # es'" by (cases es) auto
  have "counter_get t e \<noteq> None" using Suc.prems(2) es by fastforce
  then obtain c where c: "counter_get t e = Some c" by blast
  let ?r = "r\<lparr>lr_StartPMcounters := (lr_StartPMcounters r)[k := real (unat (pc_counterData c))],
      lr_StartOverflows := (lr_StartOverflows r)[k := pc_overflows c]\<rparr>"
  have "\<forall>j<n. counter_get t (es' ! j) \<noteq> None" using Suc.prems(2) es by auto
  then obtain D W where ih: "start_values t n es' (int (Suc k)) ?r = Some (?r\<lparr>lr_StartPMcounters := D, lr_StartOverflows := W\<rparr>)"
      "length D = length (lr_StartPMcounters ?r)" "length W = length (lr_StartOverflows ?r)"
      "\<forall>j<n. D ! (Suc k + j) = real (unat (pc_counterData (the (counter_get t (es' ! j))))) \<and>
       W ! (Suc k + j) = pc_overflows (the (counter_get t (es' ! j)))"
      "\<forall>j<Suc k. D ! j = lr_StartPMcounters ?r ! j \<and> W ! j = lr_StartOverflows ?r ! j"
    using Suc.IH [of es' "Suc k" ?r] Suc.prems es by (auto simp del: of_nat_Suc)
  have start: "start_values t (Suc n) es (int k) r = Some (r\<lparr>lr_StartPMcounters := D, lr_StartOverflows := W\<rparr>)"
    using ih(1) c es Suc.prems(3,4) by (simp add: arr_set_def add.commute)
  have at: "D ! k = real (unat (pc_counterData c))" "W ! k = pc_overflows c"
    using ih(5) Suc.prems(3,4) by simp_all
  have "D ! (k + j) = real (unat (pc_counterData (the (counter_get t (es ! j))))) \<and> W ! (k + j) = pc_overflows (the (counter_get t (es ! j)))"
    if "j < Suc n" for j
    using that at c es ih(4) by (cases j) auto
  then show ?case using start ih(2,3,5) by (intro exI [of _ D] exI [of _ W]) simp
qed

text \<open>What a region adds for an event: the counter \<open>c\<close> and the values kept at its start.\<close>

lemma stop_values_loop:
  assumes "n \<le> length es" "k + n \<le> length (lr_StartPMcounters r)" "k + n \<le> length (lr_StartOverflows r)" "k + n \<le> length (lr_PMcounters r)"
    and "\<forall>j<n. counter_get t (es ! j) = Some (c j) \<and>
      calculateMarkerResult E (es_index (es ! j)) (of_int \<lfloor>lr_StartPMcounters r ! (k + j)\<rfloor>) (pc_counterData (c j))
        (pc_overflows (c j) - lr_StartOverflows r ! (k + j)) = Some (v j) \<and>
      (\<exists>rm. arr_get (counter_map (tables E)) (int (es_index (es ! j))) = Some rm \<and> rm_type rm \<noteq> THERMAL)"
  shows "\<exists>C. stop_values E t n es (int k) r = Some (r\<lparr>lr_PMcounters := C\<rparr>) \<and> length C = length (lr_PMcounters r) \<and>
    (\<forall>j<n. C ! (k + j) = lr_PMcounters r ! (k + j) + v j) \<and> (\<forall>j<k. C ! j = lr_PMcounters r ! j)"
  using assms
proof (induction n arbitrary: es k r c v)
  case 0
  then show ?case by (intro exI [of _ "lr_PMcounters r"]) simp
next
  case (Suc n)
  then obtain e es' where es: "es = e # es'" by (cases es) auto
  obtain rm where e: "counter_get t e = Some (c 0)"
      "calculateMarkerResult E (es_index e) (of_int \<lfloor>lr_StartPMcounters r ! k\<rfloor>) (pc_counterData (c 0))
        (pc_overflows (c 0) - lr_StartOverflows r ! k) = Some (v 0)"
      "arr_get (counter_map (tables E)) (int (es_index e)) = Some rm" "rm_type rm \<noteq> THERMAL"
    using Suc.prems(5) es by fastforce
  let ?r = "r\<lparr>lr_PMcounters := (lr_PMcounters r)[k := lr_PMcounters r ! k + v 0]\<rparr>"
  have "\<forall>j<n. counter_get t (es' ! j) = Some (c (Suc j)) \<and>
      calculateMarkerResult E (es_index (es' ! j)) (of_int \<lfloor>lr_StartPMcounters ?r ! (Suc k + j)\<rfloor>) (pc_counterData (c (Suc j)))
        (pc_overflows (c (Suc j)) - lr_StartOverflows ?r ! (Suc k + j)) = Some (v (Suc j)) \<and>
      (\<exists>rm. arr_get (counter_map (tables E)) (int (es_index (es' ! j))) = Some rm \<and> rm_type rm \<noteq> THERMAL)"
  proof (intro allI impI)
    fix j assume "j < n"
    then show "counter_get t (es' ! j) = Some (c (Suc j)) \<and>
      calculateMarkerResult E (es_index (es' ! j)) (of_int \<lfloor>lr_StartPMcounters ?r ! (Suc k + j)\<rfloor>) (pc_counterData (c (Suc j)))
        (pc_overflows (c (Suc j)) - lr_StartOverflows ?r ! (Suc k + j)) = Some (v (Suc j)) \<and>
      (\<exists>rm. arr_get (counter_map (tables E)) (int (es_index (es' ! j))) = Some rm \<and> rm_type rm \<noteq> THERMAL)"
      using Suc.prems(5) [rule_format, of "Suc j"] es by simp
  qed
  then obtain C where ih: "stop_values E t n es' (int (Suc k)) ?r = Some (?r\<lparr>lr_PMcounters := C\<rparr>)"
      "length C = length (lr_PMcounters ?r)" "\<forall>j<n. C ! (Suc k + j) = lr_PMcounters ?r ! (Suc k + j) + v (Suc j)"
      "\<forall>j<Suc k. C ! j = lr_PMcounters ?r ! j"
    using Suc.IH [of es' "Suc k" ?r "c \<circ> Suc" "v \<circ> Suc"] Suc.prems(1-4) es by (auto simp del: of_nat_Suc)
  have stop: "stop_values E t (Suc n) es (int k) r = Some (r\<lparr>lr_PMcounters := C\<rparr>)"
    using ih(1) e es Suc.prems(2-4) by (simp add: arr_get_def [of "lr_StartPMcounters r"] arr_get_def [of "lr_StartOverflows r"]
        arr_get_def [of "lr_PMcounters r"] arr_set_def add.commute)
  have "C ! (k + j) = lr_PMcounters r ! (k + j) + v j" if "j < Suc n" for j
    using that ih(3,4) Suc.prems(4) by (cases j) auto
  then show ?case using stop ih(2,4) by (intro exI [of _ C]) simp
qed

section \<open>Entering and leaving a region\<close>

text \<open>
  A thread that calls the marker interface: its processor \<open>c\<close>, its number \<open>t\<close> and the label \<open>l\<close> of the region.
\<close>

definition calling ::
  "('m, 'c) marker_env \<Rightarrow> caller \<Rightarrow> ('m, 'c) marker \<Rightarrow> PerfmonGroupSet \<Rightarrow> int \<Rightarrow> nat \<Rightarrow> string \<Rightarrow> string \<Rightarrow> bool" where
  "calling V ca s gs c t tag l \<longleftrightarrow> likwid_init s \<and> groupSet (mk_perfmon s) = Some gs \<and> likwid_getProcessorId ca = c \<and>
     0 \<le> c \<and> c < int MAX_NUM_THREADS \<and> getThreadID gs c = int t \<and> region_label 10 tag (activeGroup gs) = Some l \<and>
     CHR 0x00 \<notin> set l \<and> length (lr_StartOverflows (mv_fresh_results V)) = NUM_PMC"

lemma callingD:
  assumes "calling V ca s gs c t tag l"
  shows "likwid_init s" "groupSet (mk_perfmon s) = Some gs" "likwid_getProcessorId ca = c" "0 \<le> c" "c < int MAX_NUM_THREADS"
    "getThreadID gs c = int t" "region_label 10 tag (activeGroup gs) = Some l" "CHR 0x00 \<notin> set l"
    "length (lr_StartOverflows (mv_fresh_results V)) = NUM_PMC"
  using assms by (auto simp: calling_def)

lemma region_label_wider: "\<lbrakk>region_label n tag g = Some l; n \<le> m\<rbrakk> \<Longrightarrow> region_label m tag g = Some l"
  by (auto simp: region_label_def into_buffer_def split: if_splits)

lemma start_region:
  assumes call: "calling V ca s gs c t tag l"
    and R: "regions_ok (mk_regions s)" "length (region_heap (mk_regions s)) + 1 < 2 ^ 29"
    and read: "perfmon_readCountersCpu (mv_perfmon V) c (mk_perfmon s) = Some (ret, p)" "marker_group p = Some g" "counters_known t g"
  defines "r0 \<equiv> known_or_new (mv_fresh_results V) (mk_regions s) (nat c) l"
  obtains R' ck r where
    "likwid_markerStartRegion V ca tag s = Some (0, s\<lparr>mk_regions := R', mk_perfmon := p\<lparr>clock := ck\<rparr>\<rparr>)"
    "regions_ok R'" "length (region_heap R') \<le> length (region_heap (mk_regions s)) + 1" "region R' (nat c) l = Some r"
    "lr_PMcounters r = lr_PMcounters r0" "lr_count r = lr_count r0" "lr_time r = lr_time r0" "arrays_ok r"
    "\<And>j. j < gs_numberOfEvents g \<Longrightarrow> lr_StartPMcounters r ! j = real (unat (pc_counterData (group_counter t g j)))"
    "\<And>j. j < gs_numberOfEvents g \<Longrightarrow> lr_StartOverflows r ! j = pc_overflows (group_counter t g j)"
    "\<And>i l'. i \<noteq> nat c \<or> cstr l' \<noteq> l \<Longrightarrow> region R' i l' = region (mk_regions s) i l'"
proof -
  note c = callingD [OF call]
  obtain a R1 where R1: "hashTable_get (mv_fresh_results V) c (ca_tid ca) l (mk_regions s) = Some (a, R1)" "regions_ok R1"
      "region_addr R1 (nat c) l = Some a" "a < length (region_heap R1)" "region_heap R1 ! a = r0"
      "\<And>i l'. region R1 i l' = (if i = nat c \<and> cstr l' = l then Some r0 else region (mk_regions s) i l')"
      "length (region_heap R1) \<le> length (region_heap (mk_regions s)) + 1"
    unfolding r0_def by (rule get_ok [OF R(1) c(9,4,5,8) R(2), of "ca_tid ca"]) blast
  have arr: "arrays_ok r0" using R1(2,4,5) nth_mem by (fastforce simp: regions_ok_def)
  obtain D W where v: "start_values t (gs_numberOfEvents g) (gs_events g) (int 0) (r0\<lparr>lr_cpuID := c\<rparr>) =
        Some (r0\<lparr>lr_cpuID := c, lr_StartPMcounters := D, lr_StartOverflows := W\<rparr>)"
      "length D = NUM_PMC" "length W = NUM_PMC"
      "\<forall>j<gs_numberOfEvents g. D ! j = real (unat (pc_counterData (group_counter t g j))) \<and> W ! j = pc_overflows (group_counter t g j)"
    using start_values_loop [of "gs_numberOfEvents g" "gs_events g" t 0 "r0\<lparr>lr_cpuID := c\<rparr>"] arr read(3)
    by (auto simp: arrays_ok_def counters_known_def group_counter_def)
  obtain tm ck where tm: "timer_start (clocks (mv_perfmon V)) (timers p) (lr_startTime r0) (clock p) = (tm, ck)" by fastforce
  define f where "f = (\<lambda>r :: LikwidThreadResults. r\<lparr>lr_cpuID := c, lr_StartPMcounters := D, lr_StartOverflows := W, lr_startTime := tm\<rparr>)"
  have "likwid_markerStartRegion V ca tag s = Some (0, s\<lparr>mk_regions := update_results a f R1, mk_perfmon := p\<lparr>clock := ck\<rparr>\<rparr>)"
    using c R1(1,4,5) read(1,2) v(1) tm
    by (simp add: likwid_markerStartRegion_def Let_def arr_get_def arr_set_def update_results_def f_def)
  moreover have "regions_ok (update_results a f R1)"
    using R1(2) v(2,3) by (intro update_results_ok) (auto simp: f_def arrays_ok_def)
  moreover have inv: "regions_inv R1" using R1(2) by (simp add: regions_ok_def)
  have lc: "cstr l = l" using c(8) by (rule cstr_id)
  have "region (update_results a f R1) (nat c) l = Some (f r0)"
    using region_update [OF inv R1(3)] R1(6) lc by simp
  moreover have "region (update_results a f R1) i l' = region (mk_regions s) i l'" if "i \<noteq> nat c \<or> cstr l' \<noteq> l" for i l'
    using region_update [OF inv R1(3)] R1(6) lc that by auto
  moreover have "length (region_heap (update_results a f R1)) \<le> length (region_heap (mk_regions s)) + 1"
    using R1(7) by (simp add: update_results_def)
  ultimately show thesis using that [where R' = "update_results a f R1" and ck = ck and r = "f r0"] arr v(2-4) by (simp add: f_def arrays_ok_def)
qed

lemma stop_region:
  assumes call: "calling V ca s gs c t tag l"
    and R: "regions_ok (mk_regions s)" "length (region_heap (mk_regions s)) + 1 < 2 ^ 29"
    and read: "\<And>ck. perfmon_readCountersCpu (mv_perfmon V) c ((mk_perfmon s)\<lparr>clock := ck\<rparr>) = Some (ret, p ck)"
      "\<And>ck. marker_group (p ck) = Some g" "counters_known t g"
    and r: "region (mk_regions s) (nat c) l = Some r"
    and result: "\<And>j. j < gs_numberOfEvents g \<Longrightarrow>
      calculateMarkerResult (mv_perfmon V) (es_index (gs_events g ! j)) (of_int \<lfloor>lr_StartPMcounters r ! j\<rfloor>)
        (pc_counterData (group_counter t g j)) (pc_overflows (group_counter t g j) - lr_StartOverflows r ! j) = Some (v j) \<and>
      (\<exists>rm. arr_get (counter_map (tables (mv_perfmon V))) (int (es_index (gs_events g ! j))) = Some rm \<and> rm_type rm \<noteq> THERMAL)"
  obtains R' ck r' where
    "likwid_markerStopRegion V ca tag s = Some (0, s\<lparr>mk_regions := R', mk_perfmon := p ck\<rparr>)"
    "regions_ok R'" "region R' (nat c) l = Some r'" "lr_count r' = lr_count r + 1" "lr_groupID r' = activeGroup gs"
    "\<And>j. j < gs_numberOfEvents g \<Longrightarrow> lr_PMcounters r' ! j = lr_PMcounters r ! j + v j"
    "\<And>i l'. i \<noteq> nat c \<or> cstr l' \<noteq> l \<Longrightarrow> region R' i l' = region (mk_regions s) i l'"
proof -
  note c = callingD [OF call]
  have l100: "region_label 100 tag (activeGroup gs) = Some l" using region_label_wider [OF c(7)] by simp
  have known: "known_or_new (mv_fresh_results V) (mk_regions s) (nat c) l = r" using r by (simp add: known_or_new_def)
  obtain a R1 where R1: "hashTable_get (mv_fresh_results V) c (ca_tid ca) l (mk_regions s) = Some (a, R1)" "regions_ok R1"
      "region_addr R1 (nat c) l = Some a" "a < length (region_heap R1)" "region_heap R1 ! a = r"
      "\<And>i l'. region R1 i l' = (if i = nat c \<and> cstr l' = l then Some r else region (mk_regions s) i l')"
    by (rule get_ok [OF R(1) c(9,4,5,8) R(2), of "ca_tid ca", unfolded known]) blast
  have arr: "arrays_ok r" using R1(2,4,5) nth_mem by (fastforce simp: regions_ok_def)
  obtain ts ck where ts: "timer_stop (clocks (mv_perfmon V)) (timers (mk_perfmon s)) (mv_fresh_time V) (clock (mk_perfmon s)) = (ts, ck)"
    by fastforce
  let ?st = "(lr_startTime r)\<lparr>tm_stop := tm_stop ts\<rparr>"
  let ?r = "r\<lparr>lr_groupID := activeGroup gs, lr_startTime := ?st, lr_time := lr_time r + timer_print (timers (mk_perfmon s)) ?st,
    lr_count := lr_count r + 1\<rparr>"
  have "counter_get t (gs_events g ! j) = Some (group_counter t g j)" if "j < gs_numberOfEvents g" for j
    using read(3) that by (auto simp: counters_known_def group_counter_def)
  then obtain C where C: "stop_values (mv_perfmon V) t (gs_numberOfEvents g) (gs_events g) (int 0) ?r = Some (?r\<lparr>lr_PMcounters := C\<rparr>)"
      "length C = NUM_PMC" "\<forall>j<gs_numberOfEvents g. C ! j = lr_PMcounters r ! j + v j"
    using stop_values_loop [of "gs_numberOfEvents g" "gs_events g" 0 ?r t "group_counter t g" "mv_perfmon V" v] arr read(3) result
    by (auto simp: arrays_ok_def counters_known_def)
  define f where "f = (\<lambda>r :: LikwidThreadResults. r\<lparr>lr_groupID := activeGroup gs, lr_startTime := ?st, lr_time := lr_time ?r, lr_count := lr_count ?r, lr_PMcounters := C\<rparr>)"
  have "likwid_markerStopRegion V ca tag s = Some (0, s\<lparr>mk_regions := update_results a f R1, mk_perfmon := p ck\<rparr>)"
    using c l100 R1(1,4,5) read(1,2) C(1) ts
    by (simp add: likwid_markerStopRegion_def Let_def arr_get_def arr_set_def update_results_def f_def)
  moreover have "regions_ok (update_results a f R1)"
    using R1(2) C(2) by (intro update_results_ok) (auto simp: f_def arrays_ok_def)
  moreover have inv: "regions_inv R1" using R1(2) by (simp add: regions_ok_def)
  have lc: "cstr l = l" using c(8) by (rule cstr_id)
  have "region (update_results a f R1) (nat c) l = Some (f r)"
    using region_update [OF inv R1(3)] R1(6) lc by simp
  moreover have "region (update_results a f R1) i l' = region (mk_regions s) i l'" if "i \<noteq> nat c \<or> cstr l' \<noteq> l" for i l'
    using region_update [OF inv R1(3)] R1(6) lc that by auto
  ultimately show thesis using that [where R' = "update_results a f R1" and ck = ck and r' = "f r"] C(3) by (simp add: f_def)
qed

end
