(* ===== verification/Marker_Session.thy ===== *)
theory Marker_Session
  imports Marker_Regions Perfmon_Stack
begin

text \<open>
  Regions measured with K10 counters, over any register file: what a region adds to its results when it is entered
  and left.
\<close>

lemma getThreadID_find:
  assumes "getThreadID gs c = int t"
  shows "t < length (threads gs)" "find (\<lambda>th. th_processorId th = c) (threads gs) = Some (threads gs ! t)"
    "th_processorId (threads gs ! t) = c"
proof -
  let ?i = "length (takeWhile (\<lambda>th. th_processorId th \<noteq> c) (threads gs))"
  have i: "?i = t" "?i < length (threads gs)" using assms by (auto simp: getThreadID_def Let_def split: if_splits)
  then show t: "t < length (threads gs)" by simp
  show p: "th_processorId (threads gs ! t) = c" using nth_length_takeWhile [OF i(2)] i(1) by simp
  have "\<forall>j<t. th_processorId (threads gs ! j) \<noteq> c"
  proof (intro allI impI)
    fix j assume "j < t"
    then show "th_processorId (threads gs ! j) \<noteq> c"
      using nth_mem [of j "takeWhile (\<lambda>th. th_processorId th \<noteq> c) (threads gs)"] i(1) set_takeWhileD
      by (fastforce simp: takeWhile_nth)
  qed
  then show "find (\<lambda>th. th_processorId th = c) (threads gs) = Some (threads gs ! t)"
    using t p by (auto simp: find_Some_iff)
qed

text \<open>The value that a region adds for a counter that goes from \<open>x\<close> to \<open>y\<close>.\<close>

definition region_count :: "u64 \<Rightarrow> u64 \<Rightarrow> real" where
  "region_count x y = real (unat y) - real (unat x) + (if y < x then 2 ^ 48 - 1 else 0)"

lemma k10_marker_result:
  assumes T: "k10_tables (tables E)" and i: "i < 4" and xy: "x \<le> mask 48" "y \<le> mask 48"
  shows "calculateMarkerResult E i x y (if y < x then 1 else 0) = Some (region_count x y)"
proof -
  obtain rm where rm: "arr_get (counter_map (tables E)) (int i) = Some rm" "rm_type rm = PMC"
    using k10_map_type [OF i] T by (auto simp: k10_tables_def)
  have m: "unat (mask 48 :: u64) = 2 ^ 48 - 1" by (simp add: mask_eq_exp_minus_1)
  have le: "unat x \<le> 2 ^ 48 - 1" "unat y \<le> 2 ^ 48 - 1" using xy unfolding word_le_nat_alt m .
  show ?thesis
  proof (cases "y < x")
    case True
    have d: "unat (mask 48 - x) = (2 ^ 48 - 1) - unat x" using xy(1) m by (simp add: unat_sub)
    have "unat (mask 48 - x) + unat y < 2 ^ LENGTH(64)" using d le by simp
    then have "unat (mask 48 - x + y) = (2 ^ 48 - 1) - unat x + unat y" using d by (simp add: unat_word_ariths(1))
    moreover have "real ((2 ^ 48 - 1) - unat x + unat y) = 2 ^ 48 - 1 - real (unat x) + real (unat y)"
      using le(1) by (simp add: of_nat_diff)
    ultimately have "real (unat (mask 48 - x + y)) = 2 ^ 48 - 1 - real (unat x) + real (unat y)" by (simp only:)
    then show ?thesis
      using rm True k10_max_value [OF T] by (simp add: calculateMarkerResult_def region_count_def)
  next
    case False
    then have "unat (y - x) = unat y - unat x" "unat x \<le> unat y" by (simp_all add: unat_sub not_less word_le_nat_alt)
    then show ?thesis using rm False k10_max_value [OF T]
      by (simp add: calculateMarkerResult_def region_count_def of_nat_diff)
  qed
qed

text \<open>The group after reading the counters of thread \<open>t\<close> when the registers of its processor are \<open>F\<close>.\<close>

definition read_group :: "nat \<Rightarrow> (u32 \<Rightarrow> u64) \<Rightarrow> PerfmonEventSet \<Rightarrow> PerfmonEventSet" where
  "read_group t F g = loop_result g (k10_read_entry g t F)"

lemma read_group_nth:
  "\<lbrakk>gs_numberOfEvents g \<le> length (gs_events g); j < gs_numberOfEvents g\<rbrakk> \<Longrightarrow>
     gs_events (read_group t F g) ! j = k10_read_entry g t F (gs_events g ! j)"
  by (simp add: read_group_def loop_result_def nth_append)

lemma read_group_sel [simp]:
  "gs_numberOfEvents (read_group t F g) = gs_numberOfEvents g" "gs_regTypeMask (read_group t F g) = gs_regTypeMask g"
  by (simp_all add: read_group_def loop_result_def)

lemma read_group_ok: "\<lbrakk>k10_ok ts g; t < length ts\<rbrakk> \<Longrightarrow> k10_ok ts (read_group t F g)"
  unfolding read_group_def by (rule k10_ok_loop [OF _ _ k10_entry_funs(3)])

lemma read_entry_sel [simp]:
  "es_index (k10_read_entry g t F e) = es_index e" "es_type (k10_read_entry g t F e) = es_type e"
  by (simp_all add: k10_read_entry_def with_counter_def)

lemma k10_ok_entry: "\<lbrakk>k10_ok ts g; t < length ts; j < gs_numberOfEvents g\<rbrakk> \<Longrightarrow>
  k10_entry t (gs_events g ! j) \<and> gs_numberOfEvents g \<le> length (gs_events g)"
  by (force simp: k10_ok_def k10_group_def in_set_conv_nth)

lemma ok_counter: "\<lbrakk>k10_ok ts g; t < length ts; j < gs_numberOfEvents g\<rbrakk> \<Longrightarrow>
  counter_get t (gs_events g ! j) = Some (group_counter t g j)"
  using k10_ok_entry [of ts g t j] by (auto simp: k10_entry_def group_counter_def)

lemma read_counter:
  assumes "k10_ok ts g" "t < length ts" "j < gs_numberOfEvents g"
  shows "counter_get t (gs_events (read_group t F g) ! j) = Some (if k10_counting g t (gs_events g ! j)
    then k10_count (F (k10_ctr (es_index (gs_events g ! j)))) (group_counter t g j) else group_counter t g j)"
  using k10_ok_entry [OF assms] assms(3) ok_counter [OF assms] with_counter_get [OF ok_counter [OF assms]]
  by (simp add: read_group_nth k10_read_entry_def)

lemma counting_read:
  assumes "k10_ok ts g" "t < length ts" "j < gs_numberOfEvents g"
  shows "k10_counting (read_group t F g) t (gs_events (read_group t F g) ! j) \<longleftrightarrow> k10_counting g t (gs_events g ! j)"
  using k10_ok_entry [OF assms] assms(3) ok_counter [OF assms] read_counter [OF assms, of F]
  by (auto simp: k10_counting_def type_in_set_def read_group_nth k10_count_def)

lemma mask48_and: "x \<le> mask 48 \<Longrightarrow> x AND mask 48 = (x :: u64)"
proof -
  assume "x \<le> mask 48"
  then have "unat x < 2 ^ 48" by (simp add: mask_eq_exp_minus_1 word_le_nat_alt)
  then have "unat (take_bit 48 x) = unat x" by (simp add: unsigned_take_bit_eq take_bit_nat_eq_self)
  then have "take_bit 48 x = x" by (rule unsigned_word_eqI)
  then show ?thesis by (simp add: take_bit_eq_mask)
qed

text \<open>Two readings of a counter, and the result of the second one.\<close>

lemma read_twice:
  assumes T: "k10_tables (tables E)" and ok: "k10_ok ts g" "t < length ts" "j < gs_numberOfEvents g"
    and F: "\<forall>i<4. F (k10_ctr i) \<le> mask 48" "\<forall>i<4. F' (k10_ctr i) \<le> mask 48"
  defines "i \<equiv> es_index (gs_events g ! j)" and "g1 \<equiv> read_group t F g"
  shows "calculateMarkerResult E i (pc_counterData (group_counter t g1 j)) (pc_counterData (group_counter t (read_group t F' g1) j))
      (pc_overflows (group_counter t (read_group t F' g1) j) - pc_overflows (group_counter t g1 j)) =
    Some (if k10_counting g t (gs_events g ! j) then region_count (F (k10_ctr i)) (F' (k10_ctr i)) else 0)"
proof -
  have e: "k10_entry t (gs_events g ! j)" "gs_numberOfEvents g \<le> length (gs_events g)" using k10_ok_entry [OF ok] by auto
  then have i: "i < 4" by (simp add: i_def k10_entry_def)
  have ok1: "k10_ok ts g1" using ok(1,2) unfolding g1_def by (rule read_group_ok)
  have n1: "j < gs_numberOfEvents g1" using ok(3) by (simp add: g1_def)
  have cnt: "k10_counting g1 t (gs_events g1 ! j) \<longleftrightarrow> k10_counting g t (gs_events g ! j)"
    unfolding g1_def by (rule counting_read [OF ok])
  have idx: "es_index (gs_events g1 ! j) = i" using read_group_nth [OF e(2) ok(3)] by (simp add: g1_def i_def)
  have c1: "group_counter t g1 j = (if k10_counting g t (gs_events g ! j) then k10_count (F (k10_ctr i)) (group_counter t g j) else group_counter t g j)"
    using read_counter [OF ok, of F] unfolding g1_def i_def group_counter_def [of t "read_group t F g"] by simp
  have c2: "group_counter t (read_group t F' g1) j = (if k10_counting g t (gs_events g ! j)
      then k10_count (F' (k10_ctr i)) (group_counter t g1 j) else group_counter t g1 j)"
    using read_counter [OF ok1 ok(2) n1, of F'] cnt idx unfolding group_counter_def [of t "read_group t F' g1"] by simp
  have z: "calculateMarkerResult E i x x 0 = Some 0" for x
  proof -
    obtain rm where "arr_get (counter_map (tables E)) (int i) = Some rm" "rm_type rm = PMC"
      using k10_map_type [OF i] T by (auto simp: k10_tables_def)
    then show ?thesis using k10_max_value [OF T] by (simp add: calculateMarkerResult_def)
  qed
  show ?thesis
    using c1 c2 z k10_marker_result [OF T i, of "F (k10_ctr i)" "F' (k10_ctr i)"] F i
    by (simp add: k10_count_def mask48_and split: if_splits)
qed

section \<open>Reading the counters of the calling processor\<close>

context k10_env
begin

lemma living_active:
  assumes "living ready k10_ok ts l s" "groupSet s = Some gs" "0 \<le> activeGroup gs"
  shows "active_group ready ts s (groups gs ! nat (activeGroup gs))"
  using assms by (auto simp: living_def active_group_def gs_inv_def)

lemma readCpu_active:
  assumes act: "active_group ready ts p g" and gs: "groupSet p = Some gs" and t: "getThreadID gs c = int t" "0 \<le> c"
  obtains a' where
    "\<And>ck. perfmon_readCountersCpu E c (p\<lparr>clock := ck\<rparr>) = Some (0, (with_group p gs (activeGroup gs)
      (loop_result g (k10_read_entry g t (regs (machine (pm p)) (nat c)))) a')\<lparr>clock := ck\<rparr>)"
    "ready ts a'" "acc (machine a') = acc (machine (pm p))"
proof -
  have i: "perfmon_initialized p" "ready (threads gs) (pm p)" "k10_ok (threads gs) g" "threads gs = ts"
      "thread_ids gs = [0..<length (threads gs)]" "0 \<le> activeGroup gs" "activeGroup gs < int (length (groups gs))"
      "groups gs ! nat (activeGroup gs) = g"
    using act gs by (auto simp: active_group_def)
  note th = getThreadID_find [OF t(1)]
  have id: "th_thread_id (threads gs ! t) = t"
    using i(5) th(1) nth_map [OF th(1), of th_thread_id] by (simp add: thread_ids_def)
  have cpu: "thread_cpu (threads gs) t = Some (int (nat c))" using th(1,3) t(2) by (simp add: thread_cpu_def arr_get_def)
  obtain c' where c': "thread_cpu (threads gs) t = Some (int c')" "k10_acc acc (machine (pm p)) c'" "inv (machine (pm p))"
    using i(2) th(1) by (rule k10_ready_cpu)
  have "c' = nat c" using c'(1) cpu t(2) by simp
  then obtain a' where a': "perfmon_readCountersThread (arch_funs E) (threads gs) t g (pm p) =
        Some (0, loop_result g (k10_read_entry g t (regs (machine (pm p)) (nat c))), a')"
      "holds inv acc regs (machine (pm p)) (nat c) (regs (machine (pm p)) (nat c)) (machine a')"
    using read_correct [OF env_tables _ cpu c'(3), of g] c'(2) i(3) th(1) by (auto simp: k10_ok_def env_funs k10_funs_def)
  have "perfmon_readCountersCpu E c (p\<lparr>clock := ck\<rparr>) = Some (0, (with_group p gs (activeGroup gs)
      (loop_result g (k10_read_entry g t (regs (machine (pm p)) (nat c)))) a')\<lparr>clock := ck\<rparr>)" for ck
    using a'(1) i gs th(2) id by (simp add: perfmon_readCountersCpu_def call_arch_def arr_get_def with_group_def)
  moreover have "ready ts a'" "acc (machine a') = acc (machine (pm p))"
    using k10_ready_step [OF i(2)] a'(2) i(4) by (auto simp: holds_def)
  ultimately show thesis using that by blast
qed

lemma marker_group_with: "\<lbrakk>0 \<le> activeGroup gs; activeGroup gs < int (length (groups gs))\<rbrakk> \<Longrightarrow>
  marker_group ((with_group p gs (activeGroup gs) g a)\<lparr>clock := ck\<rparr>) = Some g"
  by (simp add: marker_group_def with_group_def arr_get_def)

lemma ok_counters_known: "\<lbrakk>k10_ok ts g; t < length ts; gs_numberOfEvents g \<le> NUM_PMC\<rbrakk> \<Longrightarrow> counters_known t g"
  using ok_counter [of ts g t] by (auto simp: counters_known_def k10_ok_def)

lemma real_word_back: "of_int \<lfloor>real (unat w)\<rfloor> = (w :: u64)"
proof -
  have "\<lfloor>real (unat w)\<rfloor> = int (unat w)" by (rule floor_of_nat)
  then show ?thesis by (simp only:) simp
qed

text \<open>Leaving a region whose start values are the counters of the group \<open>g1\<close>, read when the registers were \<open>F\<close>.\<close>

lemma region_left:
  assumes V: "mv_perfmon V = E" and call: "calling V ca s gs c t tag l" and act: "active_group ready ts (mk_perfmon s) g1"
    and g1: "g1 = read_group t F g" "k10_ok ts g" "gs_numberOfEvents g \<le> NUM_PMC"
    and R: "regions_ok (mk_regions s)" "length (region_heap (mk_regions s)) + 1 < 2 ^ 29" "region (mk_regions s) (nat c) l = Some r1"
    and start: "\<And>j. j < gs_numberOfEvents g1 \<Longrightarrow> lr_StartPMcounters r1 ! j = real (unat (pc_counterData (group_counter t g1 j)))"
      "\<And>j. j < gs_numberOfEvents g1 \<Longrightarrow> lr_StartOverflows r1 ! j = pc_overflows (group_counter t g1 j)"
    and G: "G = regs (machine (pm (mk_perfmon s))) (nat c)" "\<forall>i<4. F (k10_ctr i) \<le> mask 48" "\<forall>i<4. G (k10_ctr i) \<le> mask 48"
  shows "\<exists>s2 r. likwid_markerStopRegion V ca tag s = Some (0, s2) \<and> region (mk_regions s2) (nat c) l = Some r \<and>
    lr_count r = lr_count r1 + 1 \<and>
    (\<forall>j<gs_numberOfEvents g. lr_PMcounters r ! j = lr_PMcounters r1 ! j + (if k10_counting g t (gs_events g ! j)
       then region_count (F (k10_ctr (es_index (gs_events g ! j)))) (G (k10_ctr (es_index (gs_events g ! j)))) else 0)) \<and>
    (\<forall>i l'. i \<noteq> nat c \<or> cstr l' \<noteq> l \<longrightarrow> region (mk_regions s2) i l' = region (mk_regions s) i l')"
proof -
  let ?p = "mk_perfmon s" and ?ag = "activeGroup gs"
  note cd = callingD [OF call]
  have gi: "0 \<le> ?ag" "?ag < int (length (groups gs))" "threads gs = ts" "k10_ok ts g1" using act cd(2) by (auto simp: active_group_def)
  have t: "t < length ts" using getThreadID_find(1) [OF cd(6)] gi(3) by simp
  define g2 where "g2 = read_group t G g1"
  have ok2: "k10_ok ts g2" "gs_numberOfEvents g2 = gs_numberOfEvents g" "gs_numberOfEvents g1 = gs_numberOfEvents g"
    using read_group_ok [OF gi(4) t] by (simp_all add: g2_def g1(1))
  obtain a2 where rd: "\<And>ck. perfmon_readCountersCpu (mv_perfmon V) c (?p\<lparr>clock := ck\<rparr>) = Some (0, (with_group ?p gs ?ag g2 a2)\<lparr>clock := ck\<rparr>)"
    unfolding V g2_def read_group_def G(1) by (rule readCpu_active [OF act cd(2,6,4)]) blast
  let ?v = "\<lambda>j. if k10_counting g t (gs_events g ! j)
      then region_count (F (k10_ctr (es_index (gs_events g ! j)))) (G (k10_ctr (es_index (gs_events g ! j)))) else 0"
  have res: "calculateMarkerResult (mv_perfmon V) (es_index (gs_events g2 ! j)) (of_int \<lfloor>lr_StartPMcounters r1 ! j\<rfloor>)
          (pc_counterData (group_counter t g2 j)) (pc_overflows (group_counter t g2 j) - lr_StartOverflows r1 ! j) = Some (?v j) \<and>
        (\<exists>rm. arr_get (counter_map (tables (mv_perfmon V))) (int (es_index (gs_events g2 ! j))) = Some rm \<and> rm_type rm \<noteq> THERMAL)"
    if "j < gs_numberOfEvents g2" for j
  proof -
    have j: "j < gs_numberOfEvents g" "j < gs_numberOfEvents g1" using that ok2 by simp_all
    have idx: "es_index (gs_events g2 ! j) = es_index (gs_events g1 ! j)" "es_index (gs_events g1 ! j) = es_index (gs_events g ! j)"
      using k10_ok_entry [OF gi(4) t j(2)] k10_ok_entry [OF g1(2) t j(1)] j
      by (simp_all only: g2_def g1(1) read_group_nth read_entry_sel)
    have "es_index (gs_events g ! j) < 4" using k10_ok_entry [OF g1(2) t j(1)] by (simp add: k10_entry_def)
    then have "\<exists>rm. arr_get (counter_map (tables E)) (int (es_index (gs_events g ! j))) = Some rm \<and> rm_type rm \<noteq> THERMAL"
      using k10_map_type env_tables by (fastforce simp: k10_tables_def)
    then show ?thesis
      using read_twice [OF env_tables g1(2) t j(1) G(2,3)] idx V
      unfolding start(1) [OF j(2)] start(2) [OF j(2)] real_word_back g2_def g1(1) by simp
  qed
  have "\<exists>R2 ck r2. likwid_markerStopRegion V ca tag s = Some (0, s\<lparr>mk_regions := R2, mk_perfmon := (with_group ?p gs ?ag g2 a2)\<lparr>clock := ck\<rparr>\<rparr>) \<and>
      region R2 (nat c) l = Some r2 \<and> lr_count r2 = lr_count r1 + 1 \<and>
      (\<forall>j<gs_numberOfEvents g2. lr_PMcounters r2 ! j = lr_PMcounters r1 ! j + ?v j) \<and>
      (\<forall>i l'. i \<noteq> nat c \<or> cstr l' \<noteq> l \<longrightarrow> region R2 i l' = region (mk_regions s) i l')"
    by (rule stop_region [OF call R(1,2) rd marker_group_with [OF gi(1,2)] ok_counters_known [OF ok2(1) t, unfolded ok2(2), OF g1(3)] R(3) res]) blast+
  then show ?thesis unfolding ok2(2) by (force simp: Let_def)
qed

text \<open>Between the start and the stop of a region the hardware may do anything to the registers.\<close>

lemma region_measured:
  assumes V: "mv_perfmon V = E" and live: "living ready k10_ok ts lf (mk_perfmon s)" and call: "calling V ca s gs c t tag l"
    and g: "0 \<le> activeGroup gs" "g = groups gs ! nat (activeGroup gs)" "gs_numberOfEvents g \<le> NUM_PMC"
    and R: "regions_ok (mk_regions s)" "length (region_heap (mk_regions s)) + 2 < 2 ^ 29"
    and F: "F = regs (machine (pm (mk_perfmon s))) (nat c)" "\<forall>i<4. F (k10_ctr i) \<le> mask 48"
  shows "\<exists>s1. likwid_markerStartRegion V ca tag s = Some (0, s1) \<and>
    (\<forall>m. inv m \<and> acc m = acc (machine (pm (mk_perfmon s1))) \<and> (\<forall>i<4. regs m (nat c) (k10_ctr i) \<le> mask 48) \<longrightarrow>
      (\<exists>s2 r. likwid_markerStopRegion V ca tag (s1\<lparr>mk_perfmon := (mk_perfmon s1)\<lparr>pm := (pm (mk_perfmon s1))\<lparr>machine := m\<rparr>\<rparr>\<rparr>) = Some (0, s2) \<and>
        region (mk_regions s2) (nat c) l = Some r \<and>
        lr_count r = lr_count (known_or_new (mv_fresh_results V) (mk_regions s) (nat c) l) + 1 \<and>
        (\<forall>j<gs_numberOfEvents g. lr_PMcounters r ! j = lr_PMcounters (known_or_new (mv_fresh_results V) (mk_regions s) (nat c) l) ! j +
          (if k10_counting g t (gs_events g ! j)
           then region_count (F (k10_ctr (es_index (gs_events g ! j)))) (regs m (nat c) (k10_ctr (es_index (gs_events g ! j)))) else 0)) \<and>
        (\<forall>i l'. i \<noteq> nat c \<or> cstr l' \<noteq> l \<longrightarrow> region (mk_regions s2) i l' = region (mk_regions s) i l')))"
proof -
  note cd = callingD [OF call]
  let ?p = "mk_perfmon s" and ?ag = "activeGroup gs" and ?r0 = "known_or_new (mv_fresh_results V) (mk_regions s) (nat c) l"
  have act: "active_group ready ts ?p g" using living_active [OF live cd(2) g(1)] g(2) by simp
  have gi: "?ag < int (length (groups gs))" "threads gs = ts" "k10_ok ts g" using act cd(2) by (auto simp: active_group_def)
  have t: "t < length ts" using getThreadID_find(1) [OF cd(6)] gi(2) by simp
  define g1 where "g1 = read_group t F g"
  have ok1: "k10_ok ts g1" "gs_numberOfEvents g1 = gs_numberOfEvents g" using read_group_ok [OF gi(3) t] by (simp_all add: g1_def)
  obtain a1 where a1: "\<And>ck. perfmon_readCountersCpu E c (?p\<lparr>clock := ck\<rparr>) = Some (0, (with_group ?p gs ?ag g1 a1)\<lparr>clock := ck\<rparr>)"
      "ready ts a1" "acc (machine a1) = acc (machine (pm ?p))"
    unfolding g1_def read_group_def F(1) by (rule readCpu_active [OF act cd(2,6,4)]) blast
  let ?p1 = "\<lambda>ck. (with_group ?p gs ?ag g1 a1)\<lparr>clock := ck\<rparr>"
  have rd: "perfmon_readCountersCpu (mv_perfmon V) c ?p = Some (0, ?p1 (clock ?p))" using a1(1) [of "clock ?p"] V by simp
  have R': "length (region_heap (mk_regions s)) + 1 < 2 ^ 29" using R(2) by simp
  note known1 = ok_counters_known [OF ok1(1) t, unfolded ok1(2), OF g(3)]
  obtain R1 ck1 r1 where st:
      "likwid_markerStartRegion V ca tag s = Some (0, s\<lparr>mk_regions := R1, mk_perfmon := (?p1 (clock ?p))\<lparr>clock := ck1\<rparr>\<rparr>)"
      "regions_ok R1" "length (region_heap R1) \<le> length (region_heap (mk_regions s)) + 1" "region R1 (nat c) l = Some r1"
      "lr_PMcounters r1 = lr_PMcounters ?r0" "lr_count r1 = lr_count ?r0"
      "\<And>j. j < gs_numberOfEvents g1 \<Longrightarrow> lr_StartPMcounters r1 ! j = real (unat (pc_counterData (group_counter t g1 j)))"
      "\<And>j. j < gs_numberOfEvents g1 \<Longrightarrow> lr_StartOverflows r1 ! j = pc_overflows (group_counter t g1 j)"
      "\<And>i l'. i \<noteq> nat c \<or> cstr l' \<noteq> l \<Longrightarrow> region R1 i l' = region (mk_regions s) i l'"
    by (rule start_region [OF call R(1) R' rd marker_group_with [OF g(1) gi(1)] known1]) blast
  let ?s1 = "s\<lparr>mk_regions := R1, mk_perfmon := (?p1 (clock ?p))\<lparr>clock := ck1\<rparr>\<rparr>"
  show ?thesis
  proof (rule exI [of _ ?s1], intro conjI allI impI)
    fix m
    let ?q = "(mk_perfmon ?s1)\<lparr>pm := (pm (mk_perfmon ?s1))\<lparr>machine := m\<rparr>\<rparr>" and ?gs = "gs\<lparr>groups := (groups gs)[nat ?ag := g1]\<rparr>"
    let ?s = "?s1\<lparr>mk_perfmon := ?q\<rparr>"
    assume "inv m \<and> acc m = acc (machine (pm (mk_perfmon ?s1))) \<and> (\<forall>i<4. regs m (nat c) (k10_ctr i) \<le> mask 48)"
    then have m: "inv m" "acc m = acc (machine a1)" "\<forall>i<4. regs m (nat c) (k10_ctr i) \<le> mask 48" by (simp_all add: with_group_def)
    have call1: "calling V ca ?s ?gs c t tag l" using call by (simp add: calling_def getThreadID_def with_group_def)
    have act1: "active_group ready ts (mk_perfmon ?s) g1"
      using act cd(2) ok1(1) gi g(1) m k10_ready_step [OF a1(2), of "a1\<lparr>machine := m\<rparr>"]
      by (auto simp: active_group_def with_group_def thread_ids_def)
    have Rs: "regions_ok (mk_regions ?s)" "length (region_heap (mk_regions ?s)) + 1 < 2 ^ 29" "region (mk_regions ?s) (nat c) l = Some r1"
      using st(2-4) R(2) by simp_all
    have G: "regs m (nat c) = regs (machine (pm (mk_perfmon ?s))) (nat c)" by simp
    have eq: "region (mk_regions ?s) i l' = region (mk_regions s) i l'" if "i \<noteq> nat c \<or> cstr l' \<noteq> l" for i l'
      using st(9) [OF that] by simp
    show "\<exists>s2 r. likwid_markerStopRegion V ca tag ?s = Some (0, s2) \<and> region (mk_regions s2) (nat c) l = Some r \<and>
        lr_count r = lr_count ?r0 + 1 \<and>
        (\<forall>j<gs_numberOfEvents g. lr_PMcounters r ! j = lr_PMcounters ?r0 ! j + (if k10_counting g t (gs_events g ! j)
           then region_count (F (k10_ctr (es_index (gs_events g ! j)))) (regs m (nat c) (k10_ctr (es_index (gs_events g ! j)))) else 0)) \<and>
        (\<forall>i l'. i \<noteq> nat c \<or> cstr l' \<noteq> l \<longrightarrow> region (mk_regions s2) i l' = region (mk_regions s) i l')"
      using region_left [OF V call1 act1 g1_def gi(3) g(3) Rs st(7,8) G F(2) m(3)] eq unfolding st(5,6) by metis
  qed (rule st(1))
qed

end

context k10_stack
begin

lemmas session_region = st.region_measured

end

end
