(* ===== verification/Marker_Properties.thy ===== *)
theory Marker_Properties
  imports Marker_Session
begin

text \<open>
  Properties of the marker interface: what a region measures, what every sequence of calls keeps of the region
  tables, that regions are told apart by their labels, and what a failed initialization leaves behind.
\<close>

section \<open>What a region measures\<close>

text \<open>
  Property C6. A region measures what the hardware counted between its start and its stop: on K10 counters behind the
  access daemon, entering a region succeeds, and leaving it, whatever the hardware did to the registers meanwhile,
  counts one more call and adds to the result of every measured event the increase of its counter register on the
  processor of the thread. A 48-bit counter that wrapped in the region gives one less than it counted
  (\<^const>\<open>region_count\<close>). The results of all other regions and processors stay as they are.
\<close>

theorem region_counts:
  assumes "k10_stack K mem n eax err pciInit (mv_perfmon V)"
    and "living (k10_ready stack_inv stack_acc) k10_ok ts lf (mk_perfmon s)" and "calling V ca s gs c t tag l"
    and "0 \<le> activeGroup gs" "g = groups gs ! nat (activeGroup gs)" "gs_numberOfEvents g \<le> NUM_PMC"
    and "regions_ok (mk_regions s)" "length (region_heap (mk_regions s)) + 2 < 2 ^ 29"
    and "F = stack_regs mem (machine (pm (mk_perfmon s))) (nat c)" "\<forall>i<4. F (k10_ctr i) \<le> mask 48"
  shows "\<exists>s1. likwid_markerStartRegion V ca tag s = Some (0, s1) \<and>
    (\<forall>m. stack_inv m \<and> stack_acc m = stack_acc (machine (pm (mk_perfmon s1))) \<and> (\<forall>i<4. stack_regs mem m (nat c) (k10_ctr i) \<le> mask 48) \<longrightarrow>
      (\<exists>s2 r. likwid_markerStopRegion V ca tag (s1\<lparr>mk_perfmon := (mk_perfmon s1)\<lparr>pm := (pm (mk_perfmon s1))\<lparr>machine := m\<rparr>\<rparr>\<rparr>) = Some (0, s2) \<and>
        region (mk_regions s2) (nat c) l = Some r \<and>
        lr_count r = lr_count (known_or_new (mv_fresh_results V) (mk_regions s) (nat c) l) + 1 \<and>
        (\<forall>j<gs_numberOfEvents g. lr_PMcounters r ! j = lr_PMcounters (known_or_new (mv_fresh_results V) (mk_regions s) (nat c) l) ! j +
          (if k10_counting g t (gs_events g ! j)
           then region_count (F (k10_ctr (es_index (gs_events g ! j)))) (stack_regs mem m (nat c) (k10_ctr (es_index (gs_events g ! j)))) else 0)) \<and>
        (\<forall>i l'. i \<noteq> nat c \<or> cstr l' \<noteq> l \<longrightarrow> region (mk_regions s2) i l' = region (mk_regions s) i l')))"
  using assms(1) refl assms(2-10) by (rule k10_stack.session_region)

text \<open>A thread on the first processor of the AMD machine, with a group of two events that is set up.\<close>

definition amd_marker_env :: "((int \<Rightarrow> u32 \<Rightarrow> u64) daemons hpm, nat) marker_env" where
  "amd_marker_env = \<lparr>mv_perfmon = amd_env, mv_HPMmode = (\<lambda>_ m. m),
     mv_fresh_results = \<lparr>lr_label = [], lr_time = 0, lr_startTime = \<lparr>tm_start = 0, tm_stop = 0\<rparr>, lr_groupID = 7, lr_cpuID = 7,
       lr_count = 7, lr_StartPMcounters = [], lr_StartOverflows = replicate NUM_PMC 7, lr_PMcounters = []\<rparr>,
     mv_fresh_row = \<lparr>rs_tag = None, rs_groupID = 7, rs_time = [], rs_count = [], rs_cpulist = [], rs_counters = []\<rparr>,
     mv_fresh_time = \<lparr>tm_start = 0, tm_stop = 0\<rparr>, mv_printf_e = (\<lambda>_. ''0''), mv_fopen = (\<lambda>_. True)\<rparr>"

definition amd_marker_group :: PerfmonEventSet where
  "amd_marker_group = amd_group\<lparr>gs_events := map (\<lambda>e. e\<lparr>es_threadCounter := Some [amd_counter\<lparr>pc_init := True\<rparr>]\<rparr>) (gs_events amd_group)\<rparr>"

definition amd_marker_set :: PerfmonGroupSet where
  "amd_marker_set = \<lparr>numberOfActiveGroups = 1, activeGroup = 0, groups = [amd_marker_group], threads = amd_threads\<rparr>"

definition amd_marker :: "((int \<Rightarrow> u32 \<Rightarrow> u64) daemons hpm, nat) marker" where
  "amd_marker = \<lparr>likwid_init = True, mk_numberOfGroups = 1, mk_groups = [0], threads2Cpu = [0], num_cpus = 1, registered_cpus = 1,
     use_locks = False, pinned = [0], mk_regions = regions_boot, mk_perfmon = amd_session\<lparr>groupSet := Some amd_marker_set\<rparr>,
     markerfile = None\<rparr>"

definition amd_caller :: caller where
  "amd_caller = \<lparr>ca_cpuset = [0], ca_getcpu = 0, ca_tid = 1\<rparr>"

lemma amd_marker_living:
  "living (k10_ready stack_inv stack_acc) k10_ok amd_threads \<lparr>lf_active = 0, lf_states = [STATE_NONE]\<rparr> (mk_perfmon amd_marker)"
proof -
  have "k10_ready stack_inv stack_acc amd_threads (pm (mk_perfmon amd_marker))"
    using amd_session_living by (auto simp: living_def amd_marker_def)
  moreover have "k10_ok amd_threads amd_marker_group"
    by (auto simp: k10_ok_def k10_group_def k10_entry_def amd_threads_def amd_marker_group_def amd_group_def amd_entry_def amd_event_def
        counter_get_def arr_get_def)
  ultimately show ?thesis
    by (auto simp: living_def perfmon_life_def gs_inv_def amd_marker_def amd_marker_set_def thread_ids_def amd_threads_def amd_session_def
        amd_marker_group_def amd_group_def)
qed

lemma amd_marker_calling: "calling amd_marker_env amd_caller amd_marker amd_marker_set 0 0 ''loop'' ''loop-0''"
proof -
  have "likwid_getProcessorId amd_caller = 0"
    by (simp add: likwid_getProcessorId_def amd_caller_def getProcessorID_def upt_rec [of 0] MAX_NUM_THREADS_def)
  then show ?thesis
    by (simp add: calling_def amd_marker_def amd_marker_env_def getThreadID_def amd_marker_set_def amd_threads_def region_label_def
        into_buffer_def int_string_def dec_string_zero MAX_NUM_THREADS_def)
qed

lemma regions_boot_ok: "regions_ok regions_boot"
  using regions_boot_inv by (simp add: regions_ok_def) (simp add: regions_boot_def hashTable_init_def)

theorem region_counts_witness:
  "\<exists>s1. likwid_markerStartRegion amd_marker_env amd_caller ''loop'' amd_marker = Some (0, s1) \<and>
    (\<forall>m. stack_inv m \<and> stack_acc m = stack_acc (machine (pm (mk_perfmon s1))) \<and> (\<forall>i<4. stack_regs (\<lambda>k. k) m 0 (k10_ctr i) \<le> mask 48) \<longrightarrow>
      (\<exists>s2 r. likwid_markerStopRegion amd_marker_env amd_caller ''loop''
          (s1\<lparr>mk_perfmon := (mk_perfmon s1)\<lparr>pm := (pm (mk_perfmon s1))\<lparr>machine := m\<rparr>\<rparr>\<rparr>) = Some (0, s2) \<and>
        region (mk_regions s2) 0 ''loop-0'' = Some r \<and> lr_count r = 1 \<and>
        lr_PMcounters r ! 1 = real (unat (stack_regs (\<lambda>k. k) m 0 MSR_AMD_PMC1))))"
proof -
  let ?F = "stack_regs (\<lambda>k. k) (machine (pm (mk_perfmon amd_marker))) 0"
  have F: "?F r = 0" for r
    by (simp add: stack_regs_def amd_marker_def amd_session_def amd_ready_def)
  have g: "0 \<le> activeGroup amd_marker_set" "amd_marker_group = groups amd_marker_set ! nat (activeGroup amd_marker_set)"
      "gs_numberOfEvents amd_marker_group \<le> NUM_PMC" "regions_ok (mk_regions amd_marker)"
      "length (region_heap (mk_regions amd_marker)) + 2 < 2 ^ 29" "\<forall>i<4. stack_regs (\<lambda>k. k) (machine (pm (mk_perfmon amd_marker))) (nat 0) (k10_ctr i) \<le> mask 48"
    using regions_boot_ok regions_boot_heap F
    by (simp_all add: amd_marker_set_def amd_marker_group_def amd_group_def amd_marker_def NUM_PMC_def)
  have st: "k10_stack reg_kernel (\<lambda>k. k) 2 0x100F42 (\<lambda>s. 0) (\<lambda>cpu s. Some (0, s)) (mv_perfmon amd_marker_env)"
    using amd.k10_stack_axioms by (simp add: amd_marker_env_def)
  have e: "1 < gs_numberOfEvents amd_marker_group" "es_index (gs_events amd_marker_group ! 1) = 1" "k10_ctr 1 = MSR_AMD_PMC1"
      "k10_counting amd_marker_group 0 (gs_events amd_marker_group ! 1)"
    by (simp_all add: amd_marker_group_def amd_group_def amd_entry_def k10_ctr_def k10_counting_def type_in_set_def REG_TYPE_MASK_def
        counter_get_def arr_get_def)
  let ?r0 = "known_or_new (mv_fresh_results amd_marker_env) (mk_regions amd_marker) 0 ''loop-0''"
  have r0: "lr_count ?r0 = 0" "lr_PMcounters ?r0 ! 1 = 0"
    by (simp_all add: known_or_new_def amd_marker_def regions_boot_region new_results_def NUM_PMC_def)
  have zero: "(nat 0 :: nat) = 0" by simp
  obtain s1 where s1: "likwid_markerStartRegion amd_marker_env amd_caller ''loop'' amd_marker = Some (0, s1) \<and>
      (\<forall>m. stack_inv m \<and> stack_acc m = stack_acc (machine (pm (mk_perfmon s1))) \<and> (\<forall>i<4. stack_regs (\<lambda>k. k) m 0 (k10_ctr i) \<le> mask 48) \<longrightarrow>
      (\<exists>s2 r. likwid_markerStopRegion amd_marker_env amd_caller ''loop''
          (s1\<lparr>mk_perfmon := (mk_perfmon s1)\<lparr>pm := (pm (mk_perfmon s1))\<lparr>machine := m\<rparr>\<rparr>\<rparr>) = Some (0, s2) \<and>
        region (mk_regions s2) 0 ''loop-0'' = Some r \<and> lr_count r = lr_count ?r0 + 1 \<and>
        (\<forall>j<gs_numberOfEvents amd_marker_group. lr_PMcounters r ! j = lr_PMcounters ?r0 ! j +
          (if k10_counting amd_marker_group 0 (gs_events amd_marker_group ! j)
           then region_count (?F (k10_ctr (es_index (gs_events amd_marker_group ! j))))
             (stack_regs (\<lambda>k. k) m 0 (k10_ctr (es_index (gs_events amd_marker_group ! j)))) else 0)) \<and>
        (\<forall>i l'. i \<noteq> 0 \<or> cstr l' \<noteq> ''loop-0'' \<longrightarrow> region (mk_regions s2) i l' = region (mk_regions amd_marker) i l')))"
    using region_counts [OF st amd_marker_living amd_marker_calling g(1-5) refl g(6)] unfolding zero by (rule exE) (rule that)
  show ?thesis
  proof (rule exI [of _ s1], rule conjI [OF conjunct1 [OF s1]], intro allI impI)
    fix m
    assume m: "stack_inv m \<and> stack_acc m = stack_acc (machine (pm (mk_perfmon s1))) \<and> (\<forall>i<4. stack_regs (\<lambda>k. k) m 0 (k10_ctr i) \<le> mask 48)"
    obtain s2 r where s2: "likwid_markerStopRegion amd_marker_env amd_caller ''loop''
          (s1\<lparr>mk_perfmon := (mk_perfmon s1)\<lparr>pm := (pm (mk_perfmon s1))\<lparr>machine := m\<rparr>\<rparr>\<rparr>) = Some (0, s2)"
        "region (mk_regions s2) 0 ''loop-0'' = Some r" "lr_count r = 1"
        "lr_PMcounters r ! 1 = region_count 0 (stack_regs (\<lambda>k. k) m 0 MSR_AMD_PMC1)"
      using mp [OF spec [OF conjunct2 [OF s1]] m] e r0 F by auto
    have "region_count 0 w = real (unat w)" for w :: u64 by (simp add: region_count_def)
    then show "\<exists>s2 r. likwid_markerStopRegion amd_marker_env amd_caller ''loop''
          (s1\<lparr>mk_perfmon := (mk_perfmon s1)\<lparr>pm := (pm (mk_perfmon s1))\<lparr>machine := m\<rparr>\<rparr>\<rparr>) = Some (0, s2) \<and>
        region (mk_regions s2) 0 ''loop-0'' = Some r \<and> lr_count r = 1 \<and>
        lr_PMcounters r ! 1 = real (unat (stack_regs (\<lambda>k. k) m 0 MSR_AMD_PMC1))"
      using s2 by metis
  qed
qed

section \<open>Sequences of calls\<close>

text \<open>The calls of an instrumented program; each is made by some thread. A call that ends the process ends the sequence.\<close>

datatype marker_call = MarkerInit | MarkerThreadInit | MarkerNextGroup | MarkerRegister string | MarkerStart string | MarkerStop string
  | MarkerGet string int | MarkerClose

fun marker_step :: "('m, 'c) marker_env \<Rightarrow> caller \<Rightarrow> marker_call \<Rightarrow> ('m, 'c) marker \<Rightarrow> ('m, 'c) marker option" where
  "marker_step V ca MarkerInit s = do { (r, s') \<leftarrow> likwid_markerInit V ca s; case r of Ret _ \<Rightarrow> Some s' | Exit _ \<Rightarrow> None }"
| "marker_step V ca MarkerThreadInit s = likwid_markerThreadInit V ca s"
| "marker_step V ca MarkerNextGroup s = likwid_markerNextGroup V s"
| "marker_step V ca (MarkerRegister tag) s = map_option snd (likwid_markerRegisterRegion V ca tag s)"
| "marker_step V ca (MarkerStart tag) s = map_option snd (likwid_markerStartRegion V ca tag s)"
| "marker_step V ca (MarkerStop tag) s = map_option snd (likwid_markerStopRegion V ca tag s)"
| "marker_step V ca (MarkerGet tag n) s = map_option snd (likwid_markerGetRegion V ca tag n s)"
| "marker_step V ca MarkerClose s = likwid_markerClose V s"

fun marker_run :: "('m, 'c) marker_env \<Rightarrow> (caller \<times> marker_call) list \<Rightarrow> ('m, 'c) marker \<Rightarrow> ('m, 'c) marker option" where
  "marker_run V [] s = Some s"
| "marker_run V ((ca, c) # calls) s = do { s' \<leftarrow> marker_step V ca c s; marker_run V calls s' }"

fun call_tag :: "marker_call \<Rightarrow> string" where
  "call_tag (MarkerRegister tag) = tag"
| "call_tag (MarkerStart tag) = tag"
| "call_tag (MarkerStop tag) = tag"
| "call_tag (MarkerGet tag n) = tag"
| "call_tag _ = []"

text \<open>The region tables after a call: well-formed, with at most one new entry.\<close>

definition grown :: "regions \<Rightarrow> regions \<Rightarrow> bool" where
  "grown R R' \<longleftrightarrow> regions_ok R' \<and> length (region_heap R') \<le> length (region_heap R) + 1"

lemma grown_refl: "regions_ok R \<Longrightarrow> grown R R"
  by (simp add: grown_def)

lemma initThread_ok:
  assumes "regions_ok R" "hashTable_initThread tid c R = Some R'"
  shows "regions_ok R' \<and> region_heap R' = region_heap R"
proof -
  have len: "length (threadList R) = MAX_NUM_THREADS" using assms(1) by (simp add: regions_ok_def regions_inv_def)
  then have c: "0 \<le> c" "c < int MAX_NUM_THREADS"
    using assms(2) by (auto simp: hashTable_initThread_def arr_get_def split: if_splits)
  have "regions_inv R" using assms(1) by (simp add: regions_ok_def)
  then have "regions_inv R'" by (rule initThread_creates [OF _ c, of R tid]) (use assms(2) in simp)
  then show ?thesis using initThread_heap [OF assms(2)] assms(1) by (simp add: regions_ok_def)
qed

lemma get_grown:
  assumes "regions_ok R" "hashTable_get fresh c tid l R = Some (a, R')" "CHR 0x00 \<notin> set l"
    "length (lr_StartOverflows fresh) = NUM_PMC" "length (region_heap R) + 1 < 2 ^ 29"
  shows "grown R R' \<and> a < length (region_heap R')"
proof -
  have len: "length (threadList R) = MAX_NUM_THREADS" using assms(1) by (simp add: regions_ok_def regions_inv_def)
  then have c: "0 \<le> c" "c < int MAX_NUM_THREADS"
    using assms(2) by (auto simp: hashTable_get_def hashTable_initThread_def arr_get_def split: if_splits bind_splits)
  show ?thesis
    by (rule get_ok [OF assms(1,4) c assms(3,5), of tid]) (use assms(2) in \<open>simp add: grown_def\<close>)
qed

lemma write_grown:
  assumes "grown R R'" "a < length (region_heap R')" "lr_label r = lr_label (region_heap R' ! a)" "arrays_ok r"
  shows "grown R (R'\<lparr>region_heap := (region_heap R')[a := r]\<rparr>)"
proof -
  let ?f = "\<lambda>x. if x = region_heap R' ! a then r else x"
  have "R'\<lparr>region_heap := (region_heap R')[a := r]\<rparr> = update_results a ?f R'" by (simp add: update_results_def)
  moreover have "regions_ok (update_results a ?f R')"
    using assms by (intro update_results_ok) (auto simp: grown_def)
  ultimately show ?thesis using assms(1) by (simp add: grown_def) (simp add: update_results_def)
qed

lemma start_values_shape:
  "start_values t n es i r = Some r' \<Longrightarrow> lr_label r' = lr_label r \<and> (arrays_ok r' \<longleftrightarrow> arrays_ok r)"
proof (induction t n es i r rule: start_values.induct)
  case (3 t n e es i r)
  from 3(2) obtain c data over where h: "counter_get t e = Some c" "arr_set (lr_StartPMcounters r) i (real (unat (pc_counterData c))) = Some data"
      "arr_set (lr_StartOverflows r) i (pc_overflows c) = Some over"
      "start_values t n es (i + 1) (r\<lparr>lr_StartPMcounters := data, lr_StartOverflows := over\<rparr>) = Some r'"
    by (auto split: bind_splits)
  then have "length data = length (lr_StartPMcounters r)" "length over = length (lr_StartOverflows r)"
    by (auto simp: arr_set_def split: if_splits)
  then show ?case using 3(1) [OF h] by (simp add: arrays_ok_def)
qed auto

lemma stop_values_shape:
  "stop_values E t n es i r = Some r' \<Longrightarrow> lr_label r' = lr_label r \<and> (arrays_ok r' \<longleftrightarrow> arrays_ok r)"
proof (induction n arbitrary: es i r)
  case (Suc n)
  then obtain e es' where es: "es = e # es'" by (cases es) auto
  obtain C v where h: "arr_set (lr_PMcounters r) i v = Some C" "stop_values E t n es' (i + 1) (r\<lparr>lr_PMcounters := C\<rparr>) = Some r'"
    using Suc.prems unfolding es by (auto split: bind_splits)
  then have "length C = length (lr_PMcounters r)" by (auto simp: arr_set_def split: if_splits)
  then show ?case using Suc.IH [OF h(2)] by (simp add: arrays_ok_def)
qed simp

lemma int_string_NUL: "CHR 0x00 \<notin> set (int_string i)"
  using dec_string_digit [of "CHR 0x00"] by (auto simp: int_string_def)

lemma region_label_NUL: "\<lbrakk>region_label n tag g = Some l; CHR 0x00 \<notin> set tag\<rbrakk> \<Longrightarrow> CHR 0x00 \<notin> set l"
  using int_string_NUL by (auto simp: region_label_def into_buffer_def split: if_splits)

lemma init_cpus_ok:
  "\<lbrakk>init_cpus tid g0 cpus i (R, p) = Some (R', p'); regions_ok R\<rbrakk> \<Longrightarrow> regions_ok R' \<and> region_heap R' = region_heap R"
proof (induction cpus arbitrary: i R p)
  case (Cons cpu cpus)
  then obtain R1 p1 where h: "hashTable_initThread tid cpu R = Some R1" "init_cpus tid g0 cpus (Suc i) (R1, p1) = Some (R', p')"
    by (auto split: bind_splits)
  then show ?case using Cons.IH [OF h(2)] initThread_ok [OF Cons.prems(2) h(1)] by simp
qed simp

lemma init_groups_ok:
  assumes "init_groups V ca ev s = Some (r, s')" "regions_ok (mk_regions s)"
  shows "regions_ok (mk_regions s') \<and> region_heap (mk_regions s') = region_heap (mk_regions s)"
  using assms
  by (auto simp: init_groups_def Let_def dest!: init_cpus_ok split: bind_splits proc.splits)

lemma table_init_ok: "regions_ok R \<Longrightarrow> regions_ok (hashTable_init R)"
  by (auto simp: regions_ok_def regions_inv_def hashTable_init_def region_addr_def)

lemma markerInit_ok:
  assumes "likwid_markerInit V ca s = Some (r, s')" "regions_ok (mk_regions s)"
  shows "grown (mk_regions s) (mk_regions s')"
proof -
  have heap: "region_heap (hashTable_init R) = region_heap R" for R by (simp add: hashTable_init_def)
  show ?thesis
    using assms table_init_ok [OF assms(2)] init_groups_ok heap
    by (fastforce simp: likwid_markerInit_def Let_def grown_def likwid_pinThread_def
        split: bind_splits proc.splits option.splits if_splits)
qed

lemma startRegion_ok:
  assumes s: "likwid_markerStartRegion V ca tag s = Some (r, s')" "regions_ok (mk_regions s)" "CHR 0x00 \<notin> set tag"
    and V: "length (lr_StartOverflows (mv_fresh_results V)) = NUM_PMC" "length (region_heap (mk_regions s)) + 1 < 2 ^ 29"
  shows "grown (mk_regions s) (mk_regions s')"
proof -
  have main: "grown (mk_regions s) (R\<lparr>region_heap := (region_heap R)[a := r1\<lparr>lr_startTime := tm\<rparr>]\<rparr>)"
    if h: "region_label 10 tag i = Some l" "hashTable_get (mv_fresh_results V) c tid l (mk_regions s) = Some (a, R)"
      "start_values t n es 0 ((region_heap R ! a)\<lparr>lr_cpuID := c\<rparr>) = Some r1" "a < length (region_heap R)"
    for i l c tid a R t n es r1 tm
  proof -
    have g: "grown (mk_regions s) R" using get_grown [OF s(2) h(2) region_label_NUL [OF h(1) s(3)] V] by simp
    have "arrays_ok (region_heap R ! a)" using g h(4) by (simp add: grown_def regions_ok_def)
    then show ?thesis
      using start_values_shape [OF h(3)] write_grown [OF g h(4), of "r1\<lparr>lr_startTime := tm\<rparr>"] by (simp add: arrays_ok_def)
  qed
  show ?thesis
    using s(1) grown_refl [OF s(2)]
    by (auto simp: likwid_markerStartRegion_def Let_def arr_get_def arr_set_def intro: main split: bind_splits if_splits prod.splits)
qed

lemma stopRegion_ok:
  assumes s: "likwid_markerStopRegion V ca tag s = Some (r, s')" "regions_ok (mk_regions s)" "CHR 0x00 \<notin> set tag"
    and V: "length (lr_StartOverflows (mv_fresh_results V)) = NUM_PMC" "length (region_heap (mk_regions s)) + 1 < 2 ^ 29"
  shows "grown (mk_regions s) (mk_regions s')"
proof -
  have main: "grown (mk_regions s) (R\<lparr>region_heap := (region_heap R)[a := r2]\<rparr>)"
    if h: "region_label 100 tag i = Some l" "hashTable_get (mv_fresh_results V) c tid l (mk_regions s) = Some (a, R)"
      "stop_values E t n es 0 ((region_heap R ! a)\<lparr>lr_groupID := i', lr_startTime := tm, lr_time := x, lr_count := k\<rparr>) = Some r2"
      "a < length (region_heap R)"
    for i l c tid a R E t n es i' tm x k r2
  proof -
    have g: "grown (mk_regions s) R" using get_grown [OF s(2) h(2) region_label_NUL [OF h(1) s(3)] V] by simp
    have "arrays_ok (region_heap R ! a)" using g h(4) by (simp add: grown_def regions_ok_def)
    then show ?thesis using stop_values_shape [OF h(3)] write_grown [OF g h(4), of r2] by (simp add: arrays_ok_def)
  qed
  show ?thesis
    using s(1) grown_refl [OF s(2)]
    by (auto simp: likwid_markerStopRegion_def Let_def arr_get_def arr_set_def intro: main split: bind_splits if_splits prod.splits)
qed

lemma get_region_ok:
  assumes "hashTable_get (mv_fresh_results V) c tid l (mk_regions s) = Some (a, R)" "region_label k tag i = Some l"
    "regions_ok (mk_regions s)" "CHR 0x00 \<notin> set tag"
    "length (lr_StartOverflows (mv_fresh_results V)) = NUM_PMC" "length (region_heap (mk_regions s)) + 1 < 2 ^ 29"
  shows "grown (mk_regions s) R"
  using get_grown [OF assms(3,1) region_label_NUL [OF assms(2,4)] assms(5,6)] by simp

lemma marker_step_ok:
  assumes s: "marker_step V ca c s = Some s'" "regions_ok (mk_regions s)" "CHR 0x00 \<notin> set (call_tag c)"
    and V: "length (lr_StartOverflows (mv_fresh_results V)) = NUM_PMC" "length (region_heap (mk_regions s)) + 1 < 2 ^ 29"
  shows "grown (mk_regions s) (mk_regions s')"
proof (cases c)
  case MarkerInit
  then show ?thesis using s(1) markerInit_ok [OF _ s(2)] by (auto split: bind_splits proc.splits)
next
  case MarkerThreadInit
  then have "mk_regions s' = mk_regions s"
    using s(1) by (auto simp: likwid_markerThreadInit_def likwid_pinThread_def Let_def split: bind_splits if_splits)
  then show ?thesis using s(2) by (simp add: grown_refl)
next
  case MarkerNextGroup
  then have "mk_regions s' = mk_regions s"
    using s(1) by (auto simp: likwid_markerNextGroup_def Let_def split: bind_splits if_splits)
  then show ?thesis using s(2) by (simp add: grown_refl)
next
  case (MarkerRegister tag)
  then show ?thesis using s(1) get_region_ok [OF _ _ s(2) _ V] s(3) grown_refl [OF s(2)]
    by (auto simp: likwid_markerRegisterRegion_def split: bind_splits if_splits)
next
  case (MarkerStart tag)
  then show ?thesis using s startRegion_ok [OF _ s(2) _ V] by auto
next
  case (MarkerStop tag)
  then show ?thesis using s stopRegion_ok [OF _ s(2) _ V] by auto
next
  case (MarkerGet tag n)
  then show ?thesis using s(1) get_region_ok [OF _ _ s(2) _ V] s(3) grown_refl [OF s(2)]
    by (auto simp: likwid_markerGetRegion_def Let_def split: bind_splits if_splits)
next
  case MarkerClose
  then have "mk_regions s' = mk_regions s"
    using s(1) by (auto simp: likwid_markerClose_def split: bind_splits if_splits option.splits)
  then show ?thesis using s(2) by (simp add: grown_refl)
qed

text \<open>
  Property C22. Whatever sequence of marker calls the threads of a program make, in any order and with or without
  initialization, the region tables stay well-formed as long as the calls return: every processor has a consistent
  hash table of its own regions, no two regions share results, and all arrays keep their length. At most one result
  is allocated per call.
\<close>

theorem marker_run_regions:
  assumes "marker_run V calls s = Some s'" "regions_ok (mk_regions s)"
    and "\<forall>(ca, c)\<in>set calls. CHR 0x00 \<notin> set (call_tag c)"
    and "length (lr_StartOverflows (mv_fresh_results V)) = NUM_PMC" "length (region_heap (mk_regions s)) + length calls < 2 ^ 29"
  shows "regions_ok (mk_regions s') \<and> length (region_heap (mk_regions s')) \<le> length (region_heap (mk_regions s)) + length calls"
  using assms
proof (induction calls arbitrary: s)
  case (Cons call calls)
  obtain ca c where c: "call = (ca, c)" by (cases call)
  then obtain s1 where s1: "marker_step V ca c s = Some s1" "marker_run V calls s1 = Some s'"
    using Cons.prems(1) by (auto split: bind_splits)
  have g: "grown (mk_regions s) (mk_regions s1)"
    using marker_step_ok [OF s1(1) Cons.prems(2)] Cons.prems(3-5) c by simp
  have "regions_ok (mk_regions s') \<and> length (region_heap (mk_regions s')) \<le> length (region_heap (mk_regions s1)) + length calls"
    using Cons.IH [OF s1(2)] g Cons.prems(3-5) by (simp add: grown_def)
  then show ?case using g by (simp add: grown_def)
qed simp

lemma register_returns:
  assumes "calling V ca s gs c t tag l" "regions_ok (mk_regions s)" "length (region_heap (mk_regions s)) + 1 < 2 ^ 29"
  obtains R where "marker_step V ca (MarkerRegister tag) s = Some (s\<lparr>mk_regions := R\<rparr>)"
    "regions_ok R" "length (region_heap R) \<le> length (region_heap (mk_regions s)) + 1"
proof -
  note c = callingD [OF assms(1)]
  show thesis
    by (rule get_ok [OF assms(2) c(9,4,5,8) assms(3), of "ca_tid ca"])
      (rule that, use c in \<open>simp_all add: likwid_markerRegisterRegion_def\<close>)
qed

theorem marker_run_regions_witness:
  "\<exists>s'. marker_run amd_marker_env [(amd_caller, MarkerThreadInit), (amd_caller, MarkerRegister ''loop''), (amd_caller, MarkerRegister ''loop'')]
      amd_marker = Some s' \<and> regions_ok (mk_regions s') \<and> length (region_heap (mk_regions s')) \<le> 3"
proof -
  have call: "calling amd_marker_env amd_caller (amd_marker\<lparr>registered_cpus := 2, mk_regions := R\<rparr>) amd_marker_set 0 0 ''loop'' ''loop-0''" for R
    using amd_marker_calling by (simp add: calling_def)
  let ?s = "amd_marker\<lparr>registered_cpus := 2, mk_regions := regions_boot\<rparr>"
  have st0: "marker_step amd_marker_env amd_caller MarkerThreadInit amd_marker = Some ?s"
    by (simp add: likwid_markerThreadInit_def amd_marker_def amd_marker_env_def amd_env_def Let_def)
  have boot: "regions_ok (mk_regions ?s)" "length (region_heap (mk_regions ?s)) + 1 < 2 ^ 29"
    using regions_boot_ok regions_boot_heap by simp_all
  obtain R where R: "marker_step amd_marker_env amd_caller (MarkerRegister ''loop'') ?s = Some (?s\<lparr>mk_regions := R\<rparr>)"
      "regions_ok R" "length (region_heap R) \<le> length (region_heap (mk_regions ?s)) + 1"
    by (rule register_returns [OF call boot])
  let ?s1 = "amd_marker\<lparr>registered_cpus := 2, mk_regions := R\<rparr>"
  have fits: "regions_ok (mk_regions ?s1)" "length (region_heap (mk_regions ?s1)) + 1 < 2 ^ 29"
    using R(2,3) regions_boot_heap by simp_all
  obtain R' where R': "marker_step amd_marker_env amd_caller (MarkerRegister ''loop'') ?s1 = Some (?s1\<lparr>mk_regions := R'\<rparr>)"
    by (rule register_returns [OF call fits])
  have "?s\<lparr>mk_regions := R\<rparr> = ?s1" by simp
  then have run: "marker_run amd_marker_env [(amd_caller, MarkerThreadInit), (amd_caller, MarkerRegister ''loop''), (amd_caller, MarkerRegister ''loop'')]
      amd_marker = Some (?s1\<lparr>mk_regions := R'\<rparr>)"
    using st0 R(1) R' by (simp del: marker_step.simps)
  from marker_run_regions [OF run] show ?thesis
    using run regions_boot_ok regions_boot_heap by (auto simp: amd_marker_def amd_marker_env_def)
qed

section \<open>Labels\<close>

lemma last_dash:
  assumes "xs @ CHR ''-'' # ys = xs' @ CHR ''-'' # ys'" "CHR ''-'' \<notin> set ys" "CHR ''-'' \<notin> set ys'"
  shows "xs = xs' \<and> ys = ys'"
proof -
  have "rev ys @ CHR ''-'' # rev xs = rev ys' @ CHR ''-'' # rev xs'" using arg_cong [OF assms(1), of rev] by simp
  moreover have "takeWhile (\<lambda>c. c \<noteq> CHR ''-'') (rev zs @ CHR ''-'' # ws) = rev zs" if "CHR ''-'' \<notin> set zs" for zs ws
    using that by (subst takeWhile_append2) auto
  ultimately have "rev ys = rev ys'" using assms(2,3) by metis
  then show ?thesis using assms(1) by simp
qed

text \<open>
  Two regions have the same label only when they have the same tag and were entered in the same group, so
  the results of different tags and of different groups are never mixed, also for tags that end with a dash and a
  number.
\<close>

theorem region_label_inj:
  assumes "region_label n tag g = Some l" "region_label n' tag' g' = Some l" "0 \<le> g" "0 \<le> g'"
  shows "tag = tag' \<and> g = g'"
proof -
  have eq: "tag @ CHR ''-'' # dec_string (nat g) = tag' @ CHR ''-'' # dec_string (nat g')"
    using assms by (auto simp: region_label_def into_buffer_def int_string_def split: if_splits)
  have "CHR ''-'' \<notin> set (dec_string k)" for k using dec_string_digit [of "CHR ''-''" k] by auto
  from last_dash [OF eq this this] show ?thesis using dec_string_inj assms(3,4) by (metis eq_nat_nat_iff)
qed

theorem region_label_inj_witness:
  "region_label 10 ''loop-1'' 1 = Some ''loop-1-1'' \<and> region_label 10 ''loop'' 1 \<noteq> Some ''loop-1-1''"
proof -
  have 1: "region_label 10 ''loop-1'' 1 = Some ''loop-1-1''"
    by (simp add: region_label_def into_buffer_def int_string_def dec_string_one [simplified])
  have "region_label 10 ''loop'' 1 \<noteq> Some ''loop-1-1''"
  proof
    assume "region_label 10 ''loop'' 1 = Some ''loop-1-1''"
    from region_label_inj [OF 1 this] show False by simp
  qed
  then show ?thesis using 1 by simp
qed

section \<open>A failed initialization\<close>

text \<open>
  When the performance monitoring module cannot be initialized, because the topology of the node is not
  known, the marker interface still counts as initialized: the calls that follow do not return an error but use the
  group set that does not exist.
\<close>

theorem failed_init_unusable:
  assumes "getenv (mv_perfmon V) ''LIKWID_MODE'' \<noteq> None" "getenv (mv_perfmon V) ''LIKWID_EVENTS'' \<noteq> None"
    "getenv (mv_perfmon V) ''LIKWID_FILEPATH'' \<noteq> None" "getenv (mv_perfmon V) ''LIKWID_THREADS'' = Some ths"
    and "length (bsplit CHR '','' ths) \<le> length (threads2Cpu s)" "threads2Cpu s \<noteq> []"
    and "lock_check (mv_perfmon V)" "\<not> topology_known (mv_perfmon V)"
    and "\<not> perfmon_initialized (mk_perfmon s)" "groupSet (mk_perfmon s) = None"
  shows "\<exists>s'. likwid_markerInit V ca s = Some (Ret (), s') \<and> likwid_init s' \<and>
    (\<forall>ca tag n. likwid_markerStartRegion V ca tag s' = None \<and> likwid_markerStopRegion V ca tag s' = None \<and>
       likwid_markerRegisterRegion V ca tag s' = None \<and> likwid_markerGetRegion V ca tag n s' = None \<and> likwid_markerNextGroup V s' = None)"
proof -
  have read: "k + length tokens \<le> length cpus \<Longrightarrow> \<exists>cpus'. read_threads tokens (int k) cpus = Some cpus' \<and> length cpus' = length cpus"
    for tokens k cpus
  proof (induction tokens arbitrary: k cpus)
    case (Cons a tokens)
    then show ?case using Cons.IH [of "Suc k" "cpus[k := atoi a]"] by (simp add: arr_set_def add.commute)
  qed simp
  obtain cpus where cpus: "read_threads (bsplit CHR '','' ths) 0 (threads2Cpu s) = Some cpus" "length cpus = length (threads2Cpu s)"
    using read [of 0 "bsplit CHR '','' ths" "threads2Cpu s"] assms(5) by auto
  obtain mode ev path where env: "getenv (mv_perfmon V) ''LIKWID_MODE'' = Some mode" "getenv (mv_perfmon V) ''LIKWID_EVENTS'' = Some ev"
      "getenv (mv_perfmon V) ''LIKWID_FILEPATH'' = Some path"
    using assms(1-3) by auto
  have init: "perfmon_init (mv_perfmon V) k c p = Some (Ret (if k \<le> 0 then - EINVAL else - ENODEV), p)"
    if "\<not> perfmon_initialized p" for k c and p
    using that assms(7,8) by (simp add: perfmon_init_def)
  have "cpus \<noteq> []" using cpus(2) assms(6) by auto
  then have "\<exists>s'. likwid_markerInit V ca s = Some (Ret (), s') \<and> likwid_init s' \<and> groupSet (mk_perfmon s') = None"
    using env assms(4,7,9,10) cpus(1) init
    by (cases "getenv (mv_perfmon V) ''LIKWID_PIN''"; cases "getenv (mv_perfmon V) ''LIKWID_DEBUG''")
      (simp_all add: likwid_markerInit_def Let_def arr_get_def likwid_pinThread_def)
  then obtain s' where "likwid_markerInit V ca s = Some (Ret (), s')" "likwid_init s'" "groupSet (mk_perfmon s') = None" by blast
  then show ?thesis
    by (auto simp: likwid_markerStartRegion_def likwid_markerStopRegion_def likwid_markerRegisterRegion_def likwid_markerGetRegion_def
        likwid_markerNextGroup_def Let_def split: prod.splits)
qed

theorem failed_init_unusable_witness:
  "let V = amd_marker_env\<lparr>mv_perfmon := amd_env\<lparr>getenv := (\<lambda>v. Some ''0''), topology_known := False\<rparr>\<rparr> in
   \<exists>s'. likwid_markerInit V amd_caller (amd_marker\<lparr>likwid_init := False, mk_perfmon := amd_session\<lparr>perfmon_initialized := False, groupSet := None\<rparr>\<rparr>) =
     Some (Ret (), s') \<and> likwid_markerStartRegion V amd_caller ''loop'' s' = None"
proof -
  let ?V = "amd_marker_env\<lparr>mv_perfmon := amd_env\<lparr>getenv := (\<lambda>v. Some ''0''), topology_known := False\<rparr>\<rparr>"
  let ?s = "amd_marker\<lparr>likwid_init := False, mk_perfmon := amd_session\<lparr>perfmon_initialized := False, groupSet := None\<rparr>\<rparr>"
  have "bsplit CHR '','' ''0'' = [''0'']" by (simp add: bsplit_one)
  then have "\<exists>s'. likwid_markerInit ?V amd_caller ?s = Some (Ret (), s') \<and> likwid_init s' \<and>
    (\<forall>ca tag n. likwid_markerStartRegion ?V ca tag s' = None \<and> likwid_markerStopRegion ?V ca tag s' = None \<and>
       likwid_markerRegisterRegion ?V ca tag s' = None \<and> likwid_markerGetRegion ?V ca tag n s' = None \<and> likwid_markerNextGroup ?V s' = None)"
    by (intro failed_init_unusable [where ths = "''0''"]) (simp_all add: amd_marker_def amd_env_def Let_def)
  then show ?thesis unfolding Let_def by blast
qed

end
