(* ===== verification/Rapl_Properties.thy ===== *)
theory Rapl_Properties
  imports Rapl
begin

text \<open>
  Properties of the energy and temperature interface: measured energies are right across the wrap-around of the
  counters, the limits are switched by one bit, and what initialization finds out about the domains.
\<close>

section \<open>Measuring over a register file\<close>

lemma ucast_mask32: "ucast (w AND mask 32 :: u64) = (ucast w :: u32)"
  by (rule bit_word_eqI) (simp add: bit_simps)

lemma energy_difference: "\<lbrakk>k < 2 ^ 32; v = u + of_nat k\<rbrakk> \<Longrightarrow> unat (v - u :: u32) = k"
  by (simp add: unat_of_nat)

definition switch_limit :: "'m hpm_ops \<Rightarrow> bool \<Rightarrow> int \<Rightarrow> u32 \<Rightarrow> 'm power \<Rightarrow> (int \<times> 'm power) option" where
  "switch_limit H on cpuId domain s = (if on then power_limitActivate H cpuId domain s else power_limitDectivate H cpuId domain s)"

text \<open>A domain whose register list has an entry, and which supports a feature.\<close>

definition domain_ready :: "'m power \<Rightarrow> nat \<Rightarrow> u32 \<Rightarrow> bool" where
  "domain_ready s i flag \<longleftrightarrow> pi_hasRAPL (power_info s) \<and> length (pi_domains (power_info s)) = NUM_POWER_DOMAINS \<and> i < NUM_POWER_DOMAINS \<and>
     dm_supportFlags (pi_domains (power_info s) ! i) AND flag \<noteq> 0"

lemma domain_index: "i < NUM_POWER_DOMAINS \<Longrightarrow> uint (of_nat i :: u32) = int i \<and> unat (of_nat i :: u32) = i"
  by (simp add: NUM_POWER_DOMAINS_def unat_of_nat uint_nat)

context feature_machine
begin

lemma read_energy_reg:
  assumes "inv (pw_machine s)" "acc (pw_machine s) c r"
  shows "read_energy H (int c) r s = Some (Inr (ucast (regs (pw_machine s) c r)), s)"
  using read_law [OF assms] field64_low [of 32] by (simp add: read_energy_def ucast_mask32)

lemma energy_measured:
  assumes s: "domain_ready s i POWER_DOMAIN_SUPPORT_STATUS" "inv (pw_machine s)" "acc (pw_machine s) c (power_regs ! i)"
    and u: "u = dm_energyUnit (pi_domains (power_info s) ! i)"
  shows "\<exists>d1. power_start H d (int c) (of_nat i) s = Some (0, d1, s) \<and>
    (\<forall>m k. inv m \<and> acc m c (power_regs ! i) \<and> k < 2 ^ 32 \<and>
        (ucast (regs m c (power_regs ! i)) :: u32) = ucast (regs (pw_machine s) c (power_regs ! i)) + of_nat k \<longrightarrow>
      (\<exists>d2. power_stop H d1 (int c) (of_nat i) (s\<lparr>pw_machine := m\<rparr>) = Some (0, d2, s\<lparr>pw_machine := m\<rparr>) \<and>
        power_printEnergy (power_info s) d2 = Some (real k * u)))"
proof -
  have i: "i < 4" "uint (of_nat i :: u32) = int i" using s(1) domain_index [of i] by (auto simp: domain_ready_def NUM_POWER_DOMAINS_def)
  have reg: "arr_get power_regs (int i) = Some (power_regs ! i)" using i(1) by (simp add: arr_get_def power_regs_def)
  have dom: "arr_get (pi_domains (power_info s)) (int i) = Some (pi_domains (power_info s) ! i)"
    using s(1) by (simp add: domain_ready_def arr_get_def)
  let ?r = "\<lambda>m. ucast (regs m c (power_regs ! i)) :: u32"
  let ?d1 = "d\<lparr>pd_before := ?r (pw_machine s), pd_domain := int i\<rparr>"
  have "power_start H d (int c) (of_nat i) s = Some (0, ?d1, s)"
    using s(1) i(2) reg dom read_energy_reg [OF s(2,3)] by (simp add: power_start_def domain_ready_def)
  moreover have "\<exists>d2. power_stop H ?d1 (int c) (of_nat i) (s\<lparr>pw_machine := m\<rparr>) = Some (0, d2, s\<lparr>pw_machine := m\<rparr>) \<and>
      power_printEnergy (power_info s) d2 = Some (real k * u)"
    if m: "inv m" "acc m c (power_regs ! i)" "k < 2 ^ 32" "?r m = ?r (pw_machine s) + of_nat k" for m k
  proof -
    have "power_stop H ?d1 (int c) (of_nat i) (s\<lparr>pw_machine := m\<rparr>) = Some (0, ?d1\<lparr>pd_after := ?r m\<rparr>, s\<lparr>pw_machine := m\<rparr>)"
      using s(1) i(2) reg dom read_energy_reg [of "s\<lparr>pw_machine := m\<rparr>" c "power_regs ! i"] m(1,2)
      by (simp add: power_stop_def domain_ready_def)
    moreover have "power_printEnergy (power_info s) (?d1\<lparr>pd_after := ?r m\<rparr>) = Some (real k * u)"
      using dom u energy_difference [OF m(3,4)] by (simp add: power_printEnergy_def del: of_nat_unat)
    ultimately show ?thesis by blast
  qed
  ultimately show ?thesis by blast
qed

lemma limit_switched:
  assumes s: "domain_ready s i POWER_DOMAIN_SUPPORT_LIMIT" "inv (pw_machine s)"
    and r: "arr_get (limit_regs s) (int i) = Some r" "acc (pw_machine s) c r"
  shows "\<exists>s'. switch_limit H on (int c) (of_nat i) s = Some (0, s') \<and>
    power_limitState H (int c) (of_nat i) s' = Some (if on then 1 else 0, s') \<and>
    (\<forall>c' r' n. acc (pw_machine s) c' r' \<longrightarrow> bit (regs (pw_machine s') c' r') n =
       (if c' = c \<and> r' = r \<and> n = 15 then on else bit (regs (pw_machine s) c' r') n))"
proof -
  let ?m = "pw_machine s" and ?R = "regs (pw_machine s) c r"
  let ?v = "if on then ?R OR push_bit 15 1 else ?R AND NOT (push_bit 15 1)"
  have i: "\<not> NUM_POWER_DOMAINS \<le> unat (of_nat i :: u32)" "uint (of_nat i :: u32) = int i"
    using s(1) domain_index [of i] by (auto simp: domain_ready_def)
  have sup: "domain_supports (of_nat i) POWER_DOMAIN_SUPPORT_LIMIT (s\<lparr>pw_machine := m\<rparr>) = Some True" for m
    using s(1) i(2) by (simp add: domain_supports_def domain_ready_def arr_get_def)
  have sup0: "domain_supports (of_nat i) POWER_DOMAIN_SUPPORT_LIMIT s = Some True" using sup [of ?m] by simp
  obtain m where m: "hp_write H (int c) 0 r ?v ?m = Some (0, m)" "inv m" "acc m = acc ?m"
      "\<forall>c' r'. acc ?m c' r' \<longrightarrow> regs m c' r' = (if c' = c \<and> r' = r then ?v else regs ?m c' r')"
    using write_law [OF s(2) r(2), of ?v] by auto
  have v: "bit ?v n = (if n = 15 then on else bit ?R n)" for n
    by (auto simp: bit_or_iff bit_and_iff bit_not_iff bit_one_shift simp del: push_bit_of_1 dest: bit_imp_le_length)
  have rd: "hp_read H (int c) 0 r ?m = Some (0, ?R, ?m)" "hp_read H (int c) 0 r m = Some (0, ?v, m)"
    using read_law [OF s(2) r(2)] read_law [of m c r] m(2-4) r(2) by auto
  have w: "switch_limit H on (int c) (of_nat i) s = Some (0, s\<lparr>pw_machine := m\<rparr>)"
    using m(1) rd(1) sup0 r(1) i
    by (cases on) (simp_all add: switch_limit_def power_limitActivate_def power_limitDectivate_def change_limit_def del: push_bit_of_1)
  have t: "?v AND push_bit 15 1 \<noteq> 0 \<longleftrightarrow> on"
  proof -
    have "bit (?v AND push_bit 15 1) n \<longleftrightarrow> n = 15 \<and> on" for n
      using v [of n] by (auto simp only: bit_and_iff bit_one_shift) (auto simp: bit_one_shift)
    then show ?thesis by (metis bit_eq_iff bit_0_eq bot_apply bot_bool_def)
  qed
  have st: "power_limitState H (int c) (of_nat i) (s\<lparr>pw_machine := m\<rparr>) = Some (if on then 1 else 0, s\<lparr>pw_machine := m\<rparr>)"
    using rd(2) sup [of m] r(1) i t by (simp add: power_limitState_def del: push_bit_of_1)
  have "bit (regs m c' r') n = (if c' = c \<and> r' = r \<and> n = 15 then on else bit (regs ?m c' r') n)" if "acc ?m c' r'" for c' r' n
    using m(4) that v [of n] by auto
  then show ?thesis using w st by (intro exI [of _ "s\<lparr>pw_machine := m\<rparr>"]) simp
qed

end

text \<open>A field of the lower half of a register.\<close>

definition reg_field :: "u64 \<Rightarrow> nat \<Rightarrow> nat \<Rightarrow> u32" where
  "reg_field w lo n = drop_bit lo (ucast w) AND mask n"

context feature_machine
begin

lemma temperature_read:
  assumes add: "hp_addThread H (int c) (snd (hp_init H m)) = Some (x, m0)"
    and m0: "inv m0" "acc m0 c IA32_THERM_STATUS" "acc m0 c MSR_TEMPERATURE_TARGET"
  defines "target \<equiv> regs m0 c MSR_TEMPERATURE_TARGET"
  shows "\<exists>info. thermal_init H True (int c) (info0, m) = Some (info, m0) \<and>
    (\<forall>m'. inv m' \<and> acc m' c IA32_THERM_STATUS \<longrightarrow> thermal_read H (int c) info m' =
      Some (0, reg_field target 16 8 - reg_field target 24 6 - reg_field (regs m' c IA32_THERM_STATUS) 16 7, m'))"
proof -
  let ?w = "regs m0 c IA32_THERM_STATUS"
  let ?info = "info0\<lparr>th_highT := ?w AND 1 \<noteq> 0, th_resolution := reg_field ?w 27 4, th_activationT := reg_field target 16 8,
    th_offset := reg_field target 24 6\<rparr>"
  have ext: "extractBitField (ucast v) 4 27 = Some (reg_field v 27 4)" "extractBitField (ucast v) 8 16 = Some (reg_field v 16 8)"
      "extractBitField (ucast v) 6 24 = Some (reg_field v 24 6)" "extractBitField (ucast v) 7 16 = Some (reg_field v 16 7)" for v :: u64
    by (simp_all add: extractBitField_in_range reg_field_def)
  have "thermal_init H True (int c) (info0, m) = Some (?info, m0)"
    using add read_law [OF m0(1,2)] read_law [OF m0(1,3)] ext by (simp add: thermal_init_def target_def)
  moreover have "thermal_read H (int c) ?info m' =
      Some (0, reg_field target 16 8 - reg_field target 24 6 - reg_field (regs m' c IA32_THERM_STATUS) 16 7, m')"
    if "inv m'" "acc m' c IA32_THERM_STATUS" for m'
    using read_law [OF that] ext by (simp add: thermal_read_def)
  ultimately show ?thesis by blast
qed

end

context feature_stack
begin

lemmas session_temperature = fs.temperature_read
lemmas session_energy = fs.energy_measured
lemmas session_limit = fs.limit_switched

end

section \<open>Initialization\<close>

text \<open>A machine whose registers can be read without a change: the error and the value of every register.\<close>

definition pure_reads :: "'m hpm_ops \<Rightarrow> int \<Rightarrow> 'm \<Rightarrow> (u32 \<Rightarrow> int) \<Rightarrow> (u32 \<Rightarrow> u64) \<Rightarrow> bool" where
  "pure_reads H cpu m e v \<longleftrightarrow> (\<forall>r. hp_read H cpu MSR_DEV r m = Some (e r, v r, m))"

text \<open>The features of a domain that reading its registers finds.\<close>

definition domain_flags :: "(u32 \<Rightarrow> int) \<Rightarrow> 'm power \<Rightarrow> nat \<Rightarrow> u32" where
  "domain_flags e s i =
     (let found = (\<lambda>r flag. if r \<noteq> 0 \<and> e r = 0 then flag else 0) in
      if e (power_regs ! i) \<noteq> 0 then 0
      else POWER_DOMAIN_SUPPORT_STATUS OR found (limit_regs s ! i) POWER_DOMAIN_SUPPORT_LIMIT OR found (info_regs s ! i) POWER_DOMAIN_SUPPORT_INFO OR
        found (policy_regs s ! i) POWER_DOMAIN_SUPPORT_POLICY OR found (perf_regs s ! i) POWER_DOMAIN_SUPPORT_PERF)"

definition power_shape :: "'m power \<Rightarrow> bool" where
  "power_shape s \<longleftrightarrow> length (pi_domains (power_info s)) = 4 \<and> length (limit_regs s) = 4 \<and> length (info_regs s) = 4 \<and>
     length (policy_regs s) = 4 \<and> length (perf_regs s) = 4"

text \<open>A state that differs only in the domain \<open>i\<close> and in its registers, with a given change of the flags.\<close>

definition domain_step :: "nat \<Rightarrow> u32 \<Rightarrow> 'm power \<Rightarrow> 'm power \<Rightarrow> bool" where
  "domain_step i flags s s' \<longleftrightarrow> power_shape s' \<and> pw_machine s' = pw_machine s \<and> pi_hasRAPL (power_info s') = pi_hasRAPL (power_info s) \<and>
     dm_supportFlags (pi_domains (power_info s') ! i) = dm_supportFlags (pi_domains (power_info s) ! i) OR flags \<and>
     dm_energyUnit (pi_domains (power_info s') ! i) = dm_energyUnit (pi_domains (power_info s) ! i) \<and>
     (\<forall>j. j \<noteq> i \<longrightarrow> pi_domains (power_info s') ! j = pi_domains (power_info s) ! j \<and> limit_regs s' ! j = limit_regs s ! j \<and>
        info_regs s' ! j = info_regs s ! j \<and> policy_regs s' ! j = policy_regs s ! j \<and> perf_regs s' ! j = perf_regs s ! j)"

lemma domain_step_trans: "\<lbrakk>domain_step i f s s1; domain_step i g s1 s2\<rbrakk> \<Longrightarrow> domain_step i (f OR g) s s2"
  by (auto simp: domain_step_def or.assoc)

lemma update_domain_step:
  assumes "power_shape s" "i < 4" "dm_supportFlags (f d) = dm_supportFlags d OR flags" "dm_energyUnit (f d) = dm_energyUnit d"
    and "d = pi_domains (power_info s) ! i"
  shows "\<exists>s'. update_domain i f s = Some s' \<and> domain_step i flags s s' \<and> limit_regs s' = limit_regs s \<and> info_regs s' = info_regs s \<and>
    policy_regs s' = policy_regs s \<and> perf_regs s' = perf_regs s \<and> pi_powerUnit (power_info s') = pi_powerUnit (power_info s) \<and>
    pi_timeUnit (power_info s') = pi_timeUnit (power_info s)"
  using assms by (auto simp: update_domain_def arr_get_def power_shape_def domain_step_def)

lemma extract_small: "extractBitField w 15 0 = Some (w AND mask 15)" "\<exists>x. extractBitField w 15 16 = Some x"
  by (simp_all add: extractBitField_in_range)

lemma extract_beyond: "extractBitField w 15 32 = None"
  by (simp add: extractBitField_def c_shl_def)

lemma read_info_step:
  assumes "power_shape s" "i < 4"
  shows "\<exists>s'. read_info ATOM_SILVERMONT_C i v s = Some s' \<and> domain_step i 0 s s' \<and> policy_regs s' = policy_regs s \<and> perf_regs s' = perf_regs s"
  using update_domain_step [OF assms, where flags = 0 and f = "\<lambda>d. d\<lparr>dm_tdp := real (unat (ucast v AND mask 15 :: u32)) * pi_powerUnit (power_info s)\<rparr>"]
  by (auto simp: read_info_def extract_small)

lemma domain_step_refl: "power_shape s \<Longrightarrow> domain_step i 0 s s"
  by (simp add: domain_step_def)

lemma domain_step_shape: "domain_step i f s s' \<Longrightarrow> power_shape s' \<and> pw_machine s' = pw_machine s"
  by (simp add: domain_step_def)

abbreviation same_regs :: "'m power \<Rightarrow> 'm power \<Rightarrow> bool" where
  "same_regs s s' \<equiv> limit_regs s' = limit_regs s \<and> info_regs s' = info_regs s \<and> policy_regs s' = policy_regs s \<and> perf_regs s' = perf_regs s"

lemma add_support_step:
  assumes "power_shape s" "i < 4"
  shows "\<exists>s'. update_domain i (add_support flag) s = Some s' \<and> domain_step i flag s s' \<and> same_regs s s'"
  using update_domain_step [OF assms, where f = "add_support flag" and flags = flag] by (auto simp: add_support_def)

text \<open>Probing one register, for a list of registers of the state.\<close>

lemma probe_reg_step:
  assumes rd: "pure_reads H cpu (pw_machine s) e v" and s: "power_shape s" "i < 4" "length (regs s) = 4"
    and upd: "domain_step i 0 s (regs_update (\<lambda>rs. rs[i := 0]) s)"
    and found: "\<And>s'. \<lbrakk>regs s ! i \<noteq> 0; e (regs s ! i) = 0; domain_step i flag s s'; same_regs s s'\<rbrakk> \<Longrightarrow>
      \<exists>s2. found (v (regs s ! i)) s' = Some s2 \<and> domain_step i flag s s2 \<and> P s2"
    and P: "P s" "P (regs_update (\<lambda>rs. rs[i := 0]) s)"
  shows "\<exists>s'. probe_reg H cpu regs regs_update flag found i s = Some s' \<and>
    domain_step i (if regs s ! i \<noteq> 0 \<and> e (regs s ! i) = 0 then flag else 0) s s' \<and> P s'"
proof -
  have m: "s\<lparr>pw_machine := pw_machine s\<rparr> = s" by simp
  obtain s1 where s1: "update_domain i (add_support flag) s = Some s1" "domain_step i flag s s1" "same_regs s s1"
    using add_support_step [OF s(1,2)] by blast
  show ?thesis
  proof (cases "regs s ! i \<noteq> 0 \<and> e (regs s ! i) = 0")
    case True
    then obtain s2 where "found (v (regs s ! i)) s1 = Some s2" "domain_step i flag s s2" "P s2" using found [OF _ _ s1(2,3)] by blast
    then show ?thesis using rd s s1(1) True by (simp add: probe_reg_def arr_get_def pure_reads_def m)
  next
    case False
    then show ?thesis
      using rd s upd P domain_step_refl [OF s(1)] by (auto simp: probe_reg_def arr_get_def pure_reads_def m)
  qed
qed

text \<open>The info register is only evaluated as far as that is defined.\<close>

lemma probe_info_step:
  assumes rd: "pure_reads H cpu (pw_machine s) e v" and s: "power_shape s" "i < 4"
    and info: "model = ATOM_SILVERMONT_C \<or> info_regs s ! i = 0 \<or> e (info_regs s ! i) \<noteq> 0"
  shows "\<exists>s'. probe_reg H cpu info_regs info_regs_update POWER_DOMAIN_SUPPORT_INFO (read_info model i) i s = Some s' \<and>
    domain_step i (if info_regs s ! i \<noteq> 0 \<and> e (info_regs s ! i) = 0 then POWER_DOMAIN_SUPPORT_INFO else 0) s s' \<and>
    policy_regs s' = policy_regs s \<and> perf_regs s' = perf_regs s"
proof (rule probe_reg_step [OF rd s])
  fix s'
  assume h: "info_regs s ! i \<noteq> 0" "e (info_regs s ! i) = 0" "domain_step i POWER_DOMAIN_SUPPORT_INFO s s'" "same_regs s s'"
  then have "model = ATOM_SILVERMONT_C" "power_shape s'" using info domain_step_shape [OF h(3)] by simp_all
  then obtain s4 where s4: "read_info model i (v (info_regs s ! i)) s' = Some s4" "domain_step i 0 s' s4"
      "policy_regs s4 = policy_regs s'" "perf_regs s4 = perf_regs s'"
    using read_info_step [OF _ s(2), of s'] by blast
  then show "\<exists>s4. read_info model i (v (info_regs s ! i)) s' = Some s4 \<and> domain_step i POWER_DOMAIN_SUPPORT_INFO s s4 \<and>
      policy_regs s4 = policy_regs s \<and> perf_regs s4 = perf_regs s"
    using domain_step_trans [OF h(3) s4(2)] h(4) by auto
qed (use s in \<open>auto simp: domain_step_def power_shape_def\<close>)

lemma probe_domain_step:
  assumes rd: "pure_reads H cpu (pw_machine s) e v" and s: "power_shape s" "i < 4"
    and info: "model = ATOM_SILVERMONT_C \<or> info_regs s ! i = 0 \<or> e (info_regs s ! i) \<noteq> 0"
  shows "\<exists>s'. probe_domain H cpu model i s = Some s' \<and> domain_step i (domain_flags e s i) s s'"
proof (cases "e (power_regs ! i) = 0")
  case False
  then show ?thesis
    using rd s domain_step_refl [OF s(1)]
    by (auto simp: probe_domain_def arr_get_def power_regs_def pure_reads_def domain_flags_def Let_def)
next
  case True
  let ?f = "\<lambda>r flag. if r \<noteq> 0 \<and> e r = 0 then flag else (0 :: u32)"
  obtain s1 where s1: "update_domain i (add_support POWER_DOMAIN_SUPPORT_STATUS) s = Some s1"
      "domain_step i POWER_DOMAIN_SUPPORT_STATUS s s1" "same_regs s s1"
    using add_support_step [OF s] by blast
  note i1 = domain_step_shape [OF s1(2)]
  have rd1: "pure_reads H cpu (pw_machine s1) e v" using rd i1 by simp
  obtain s2 where s2: "probe_reg H cpu limit_regs limit_regs_update POWER_DOMAIN_SUPPORT_LIMIT (\<lambda>_. Some) i s1 = Some s2"
      "domain_step i (?f (limit_regs s1 ! i) POWER_DOMAIN_SUPPORT_LIMIT) s1 s2"
      "info_regs s2 = info_regs s1" "policy_regs s2 = policy_regs s1" "perf_regs s2 = perf_regs s1"
    using probe_reg_step [OF rd1 conjunct1 [OF i1] s(2), of limit_regs limit_regs_update POWER_DOMAIN_SUPPORT_LIMIT "\<lambda>_. Some"
        "\<lambda>s2. info_regs s2 = info_regs s1 \<and> policy_regs s2 = policy_regs s1 \<and> perf_regs s2 = perf_regs s1"] i1
    by (auto simp: domain_step_def power_shape_def)
  note i2 = domain_step_shape [OF s2(2)]
  have rd2: "pure_reads H cpu (pw_machine s2) e v" using rd1 i2 by simp
  have "model = ATOM_SILVERMONT_C \<or> info_regs s2 ! i = 0 \<or> e (info_regs s2 ! i) \<noteq> 0" using info s1(3) s2(3) by simp
  then obtain s3 where s3: "probe_reg H cpu info_regs info_regs_update POWER_DOMAIN_SUPPORT_INFO (read_info model i) i s2 = Some s3"
      "domain_step i (?f (info_regs s2 ! i) POWER_DOMAIN_SUPPORT_INFO) s2 s3"
      "policy_regs s3 = policy_regs s2" "perf_regs s3 = perf_regs s2"
    using probe_info_step [OF rd2 conjunct1 [OF i2] s(2)] by blast
  note i3 = domain_step_shape [OF s3(2)]
  have rd3: "pure_reads H cpu (pw_machine s3) e v" using rd2 i3 by simp
  obtain s4 where s4: "probe_reg H cpu policy_regs policy_regs_update POWER_DOMAIN_SUPPORT_POLICY (\<lambda>_. Some) i s3 = Some s4"
      "domain_step i (?f (policy_regs s3 ! i) POWER_DOMAIN_SUPPORT_POLICY) s3 s4" "perf_regs s4 = perf_regs s3"
    using probe_reg_step [OF rd3 conjunct1 [OF i3] s(2), of policy_regs policy_regs_update POWER_DOMAIN_SUPPORT_POLICY "\<lambda>_. Some"
        "\<lambda>s4. perf_regs s4 = perf_regs s3"] i3
    by (auto simp: domain_step_def power_shape_def)
  note i4 = domain_step_shape [OF s4(2)]
  have rd4: "pure_reads H cpu (pw_machine s4) e v" using rd3 i4 by simp
  obtain s5 where s5: "probe_reg H cpu perf_regs perf_regs_update POWER_DOMAIN_SUPPORT_PERF (\<lambda>_. Some) i s4 = Some s5"
      "domain_step i (?f (perf_regs s4 ! i) POWER_DOMAIN_SUPPORT_PERF) s4 s5"
    using probe_reg_step [OF rd4 conjunct1 [OF i4] s(2), of perf_regs perf_regs_update POWER_DOMAIN_SUPPORT_PERF "\<lambda>_. Some"
        "\<lambda>s5. True"] i4
    by (auto simp: domain_step_def power_shape_def)
  have "probe_domain H cpu model i s = Some s5"
    using rd s(2) True s1(1) s2(1) s3(1) s4(1) s5(1) by (simp add: probe_domain_def arr_get_def power_regs_def pure_reads_def)
  moreover have "domain_step i (domain_flags e s i) s s5"
    using domain_step_trans [OF domain_step_trans [OF domain_step_trans [OF domain_step_trans [OF s1(2) s2(2)] s3(2)] s4(2)] s5(2)]
      True s1(3) s2(3-5) s3(3,4) s4(3)
    by (simp add: domain_flags_def Let_def or.assoc)
  ultimately show ?thesis by blast
qed

lemma domain_flags_step: "\<lbrakk>domain_step i f s s'; j \<noteq> i\<rbrakk> \<Longrightarrow> domain_flags e s' j = domain_flags e s j"
  by (simp add: domain_step_def domain_flags_def)

lemma probe_domains_all:
  assumes "pure_reads H cpu (pw_machine s) e v" "power_shape s" "distinct is" "set is \<subseteq> {..<4}"
    and "\<forall>i\<in>set is. model = ATOM_SILVERMONT_C \<or> info_regs s ! i = 0 \<or> e (info_regs s ! i) \<noteq> 0"
  shows "\<exists>s'. probe_domains H cpu model is s = Some s' \<and> power_shape s' \<and> pi_hasRAPL (power_info s') = pi_hasRAPL (power_info s) \<and>
    (\<forall>i\<in>set is. dm_supportFlags (pi_domains (power_info s') ! i) = dm_supportFlags (pi_domains (power_info s) ! i) OR domain_flags e s i \<and>
       dm_energyUnit (pi_domains (power_info s') ! i) = dm_energyUnit (pi_domains (power_info s) ! i)) \<and>
    (\<forall>i. i \<notin> set is \<longrightarrow> pi_domains (power_info s') ! i = pi_domains (power_info s) ! i)"
  using assms
proof (induction "is" arbitrary: s)
  case (Cons i "is")
  obtain s1 where s1: "probe_domain H cpu model i s = Some s1" "domain_step i (domain_flags e s i) s s1"
    using probe_domain_step [OF Cons.prems(1,2)] Cons.prems(4,5) by (metis insert_subset lessThan_iff list.set_intros(1) list.simps(15))
  have i1: "power_shape s1" "pure_reads H cpu (pw_machine s1) e v" using domain_step_shape [OF s1(2)] Cons.prems(1) by auto
  have keep: "info_regs s1 ! j = info_regs s ! j" "pi_domains (power_info s1) ! j = pi_domains (power_info s) ! j"
      "domain_flags e s1 j = domain_flags e s j" if "j \<noteq> i" for j
    using s1(2) domain_flags_step [OF s1(2) that] that by (auto simp: domain_step_def)
  have "\<forall>j\<in>set is. model = ATOM_SILVERMONT_C \<or> info_regs s1 ! j = 0 \<or> e (info_regs s1 ! j) \<noteq> 0"
    using Cons.prems(3,5) keep(1) by (metis distinct.simps(2) list.set_intros(2))
  then obtain s' where s': "probe_domains H cpu model is s1 = Some s'" "power_shape s'" "pi_hasRAPL (power_info s') = pi_hasRAPL (power_info s1)"
      "\<forall>j\<in>set is. dm_supportFlags (pi_domains (power_info s') ! j) = dm_supportFlags (pi_domains (power_info s1) ! j) OR domain_flags e s1 j \<and>
         dm_energyUnit (pi_domains (power_info s') ! j) = dm_energyUnit (pi_domains (power_info s1) ! j)"
      "\<forall>j. j \<notin> set is \<longrightarrow> pi_domains (power_info s') ! j = pi_domains (power_info s1) ! j"
    using Cons.IH [OF i1(2,1)] Cons.prems(3,4) by auto
  have ni: "i \<notin> set is" using Cons.prems(3) by simp
  have "dm_supportFlags (pi_domains (power_info s') ! j) = dm_supportFlags (pi_domains (power_info s) ! j) OR domain_flags e s j \<and>
      dm_energyUnit (pi_domains (power_info s') ! j) = dm_energyUnit (pi_domains (power_info s) ! j)" if "j \<in> set (i # is)" for j
  proof (cases "j = i")
    case True
    then show ?thesis using s'(5) ni s1(2) by (simp add: domain_step_def)
  next
    case False
    then show ?thesis using that s'(4) keep(2,3) [OF False] by simp
  qed
  moreover have "pi_domains (power_info s') ! j = pi_domains (power_info s) ! j" if "j \<notin> set (i # is)" for j
    using that s'(5) keep(2) by simp
  moreover have "pi_hasRAPL (power_info s') = pi_hasRAPL (power_info s)" using s'(3) s1(2) by (simp add: domain_step_def)
  ultimately show ?case using s1(1) s'(1,2) by simp
qed simp

lemma turbo_loop_returns: "\<lbrakk>\<forall>i\<in>set is. i < length steps\<rbrakk> \<Longrightarrow> \<exists>steps'. turbo_loop b w is steps = Some steps'"
proof (induction "is" arbitrary: steps)
  case (Cons i "is")
  have "\<exists>x. (if i < 8 then do { w' \<leftarrow> field64 w (int (i * 8)) 8; Some (b * real (unat w')) } else arr_get steps 7) = Some x"
    using Cons.prems by (auto simp: field64_Some_mask arr_get_def)
  then obtain x where x: "(if i < 8 then do { w' \<leftarrow> field64 w (int (i * 8)) 8; Some (b * real (unat w')) } else arr_get steps 7) = Some x" ..
  then show ?case
    using Cons.IH [of "steps[i := x]"] Cons.prems unfolding turbo_loop.simps x by (simp add: arr_set_def)
qed simp

lemma init_turbo_returns:
  assumes "pure_reads H cpu (pw_machine s) e v"
  shows "\<exists>b n t. init_turbo H cpu model cores fresh bus s =
    Some (s\<lparr>power_info := (power_info s)\<lparr>pi_baseFrequency := b, pi_minFrequency := n, pi_turbo := t\<rparr>\<rparr>)"
proof (cases "e MSR_PLATFORM_INFO = 0")
  case False
  then show ?thesis
    using assms by (intro exI [of _ "pi_baseFrequency (power_info s)"] exI [of _ "pi_minFrequency (power_info s)"] exI [of _ "pi_turbo (power_info s)"])
      (simp add: init_turbo_def pure_reads_def)
next
  case True
  let ?n = "if model = WESTMERE_EX then 4 else cores"
  obtain steps where "turbo_loop bus (v MSR_TURBO_RATIO_LIMIT) [0..<?n] (replicate ?n fresh) = Some steps"
    using turbo_loop_returns [of "[0..<?n]" "replicate ?n fresh"] by auto
  then show ?thesis using assms True
    by (auto simp: init_turbo_def pure_reads_def extractBitField_in_range Let_def split: if_splits)
qed

text \<open>The unit of energy of a domain, from the register of the units.\<close>

definition energy_unit :: "u32 \<Rightarrow> u64 \<Rightarrow> nat \<Rightarrow> real" where
  "energy_unit model flags i =
     (let esu = unat (drop_bit 8 flags AND 0x1F) in
      if i = 3 \<and> (model = HASWELL_EP \<or> model = HASWELL_M1 \<or> model = HASWELL_M2) then 15.3 / 1000000
      else if model = ATOM_SILVERMONT_E then 2 ^ esu / 1000000 else 1 / 2 ^ esu)"

lemma and_15_less: "unat (w AND 0xF :: u64) < 31"
proof -
  have "w AND 0xF = w AND mask 4" by (simp add: mask_eq_exp_minus_1)
  then show ?thesis using unat_and_mask [of w 4] by simp
qed

lemma init_units_returns:
  assumes "drop_bit 8 flags AND 0x1F \<noteq> 31"
  shows "\<exists>info'. init_units model flags info = Some info' \<and> pi_hasRAPL info' = pi_hasRAPL info \<and> length (pi_domains info') = 4 \<and>
    (\<forall>i<4. dm_supportFlags (pi_domains info' ! i) = 0 \<and> dm_energyUnit (pi_domains info' ! i) = energy_unit model flags i)"
proof -
  have "drop_bit 8 flags AND 0x1F = drop_bit 8 flags AND mask 5" by (simp add: mask_eq_exp_minus_1)
  then have "unat (drop_bit 8 flags AND 0x1F) < 32" using unat_and_mask [of "drop_bit 8 flags" 5] by simp
  moreover have "unat (drop_bit 8 flags AND 0x1F) \<noteq> 31"
  proof
    assume "unat (drop_bit 8 flags AND 0x1F) = 31"
    then have "unat (drop_bit 8 flags AND 0x1F) = unat (31 :: u64)" by simp
    then show False using assms unsigned_word_eqI by blast
  qed
  ultimately have esu: "unat (drop_bit 8 flags AND 0x1F) < 31" by simp
  have four: "[0..<4] = [0, 1, 2, 3 :: nat]" by (simp add: upt_rec)
  show ?thesis
    using esu and_15_less
    by (auto simp: init_units_def c_bit_def Let_def NUM_POWER_DOMAINS_def four new_domain_def energy_unit_def less_4_cases)
qed

text \<open>The variables of the module in a new process.\<close>

definition power_boot :: "'m \<Rightarrow> 'm power" where
  "power_boot m = \<lparr>power_initialized = False,
     power_info = \<lparr>pi_baseFrequency = 0, pi_minFrequency = 0, pi_turbo = \<lparr>tb_numSteps = 0, tb_steps = None\<rparr>, pi_hasRAPL = False,
       pi_powerUnit = 0, pi_timeUnit = 0, pi_domains = replicate NUM_POWER_DOMAINS (new_domain 0 0)\<rparr>,
     limit_regs = init_limit_regs, policy_regs = init_policy_regs, perf_regs = init_perf_regs, info_regs = init_info_regs, pw_machine = m\<rparr>"

abbreviation model_info_regs :: "u32 \<Rightarrow> u32 list" where
  "model_info_regs model \<equiv> (if model = ATOM_SILVERMONT_C then init_info_regs[0 := MSR_PKG_POWER_INFO_SILVERMONT] else init_info_regs)"

text \<open>Initialization up to the domains, in a new process with an initialized access layer.\<close>

lemma power_init_prefix:
  assumes "pure_reads H cpu m e v" "initialized m" "rapl_model model" "e MSR_RAPL_POWER_UNIT = 0"
  obtains info where "pi_hasRAPL info"
    "power_init H initialized model turbo cores fresh cpu (power_boot m) = do {
       info' \<leftarrow> init_units model (v MSR_RAPL_POWER_UNIT) info;
       s \<leftarrow> probe_domains H cpu model [0..<NUM_POWER_DOMAINS] ((power_boot m)\<lparr>power_info := info', info_regs := model_info_regs model\<rparr>);
       Some (if pi_hasRAPL (power_info s) then 1 else 0, s\<lparr>power_initialized := True\<rparr>) }"
proof -
  let ?s = "(power_boot m)\<lparr>power_info := (clear_info (power_info (power_boot m)))\<lparr>pi_hasRAPL := True\<rparr>, info_regs := model_info_regs model\<rparr>"
  have rd: "pure_reads H cpu (pw_machine ?s) e v" using assms(1) by (simp add: power_boot_def)
  obtain b n t where turbo: "init_turbo H cpu model cores fresh 100 ?s =
      Some (?s\<lparr>power_info := (power_info ?s)\<lparr>pi_baseFrequency := b, pi_minFrequency := n, pi_turbo := t\<rparr>\<rparr>)"
    using init_turbo_returns [OF rd] by blast
  let ?info = "if turbo then (power_info ?s)\<lparr>pi_baseFrequency := b, pi_minFrequency := n, pi_turbo := t\<rparr> else power_info ?s"
  have "power_init H initialized model turbo cores fresh cpu (power_boot m) = init_rapl H cpu model (?s\<lparr>power_info := ?info\<rparr>)"
    using assms(2,3) turbo by (simp add: power_init_def Let_def power_boot_def cong: if_cong)
  moreover have "pi_hasRAPL ?info" by simp
  ultimately show thesis
    using that [of ?info] assms(1,4) by (simp add: init_rapl_def pure_reads_def power_boot_def)
qed

section \<open>Properties\<close>

text \<open>
  Property C23. Measured energies are right: for a supported domain of the machine behind the access daemon, starting a
  measurement and stopping it succeed, and when the 32-bit energy counter of the domain has advanced by \<open>k\<close> in
  between, less than a full turn but possibly across its wrap-around, the energy is \<open>k\<close> energy units of the
  domain.
\<close>

theorem power_energy_measured:
  assumes "msr_kernel K mem" "H = stack_ops K n eax err pciInit"
    and "domain_ready s i POWER_DOMAIN_SUPPORT_STATUS" "stack_inv (pw_machine s)" "stack_acc (pw_machine s) c (power_regs ! i)"
    and "u = dm_energyUnit (pi_domains (power_info s) ! i)"
  shows "\<exists>d1. power_start H d (int c) (of_nat i) s = Some (0, d1, s) \<and>
    (\<forall>m k. stack_inv m \<and> stack_acc m c (power_regs ! i) \<and> k < 2 ^ 32 \<and>
        (ucast (stack_regs mem m c (power_regs ! i)) :: u32) = ucast (stack_regs mem (pw_machine s) c (power_regs ! i)) + of_nat k \<longrightarrow>
      (\<exists>d2. power_stop H d1 (int c) (of_nat i) (s\<lparr>pw_machine := m\<rparr>) = Some (0, d2, s\<lparr>pw_machine := m\<rparr>) \<and>
        power_printEnergy (power_info s) d2 = Some (real k * u)))"
  unfolding assms(2) by (rule feature_stack.session_energy) (use assms in \<open>simp_all add: feature_stack_def\<close>)

text \<open>The Haswell machine with a package domain that supports everything.\<close>

definition hsw_power :: "(int \<Rightarrow> u32 \<Rightarrow> u64) daemons hpm power" where
  "hsw_power = (power_boot stack_ready)\<lparr>power_initialized := True, power_info := (power_info (power_boot stack_ready))\<lparr>pi_hasRAPL := True,
     pi_domains := map (\<lambda>i. (new_domain (1 / 16384) i)\<lparr>dm_supportFlags := 31\<rparr>) [0..<NUM_POWER_DOMAINS]\<rparr>\<rparr>"

lemma hsw_power_ready: "\<lbrakk>i < 4; flag AND 31 \<noteq> 0\<rbrakk> \<Longrightarrow> domain_ready hsw_power i flag"
  by (simp add: domain_ready_def hsw_power_def NUM_POWER_DOMAINS_def and.commute)

lemma hsw_power_machine: "pw_machine hsw_power = stack_ready"
  by (simp add: hsw_power_def power_boot_def)

theorem power_energy_measured_witness:
  "\<exists>d1. power_start hsw_hpm \<lparr>pd_domain = 7, pd_before = 7, pd_after = 7\<rparr> 0 0 hsw_power = Some (0, d1, hsw_power) \<and>
    (\<exists>d2. power_stop hsw_hpm d1 0 0 hsw_power = Some (0, d2, hsw_power) \<and> power_printEnergy (power_info hsw_power) d2 = Some 0)"
proof -
  have a: "stack_acc (pw_machine hsw_power) 0 (power_regs ! 0)"
    unfolding hsw_power_machine by (rule stack_ready_acc) (simp add: power_regs_def msr_policy_defs)
  have i: "stack_inv (pw_machine hsw_power)" using stack_ready_inv by (simp add: hsw_power_machine)
  have r: "domain_ready hsw_power 0 POWER_DOMAIN_SUPPORT_STATUS" by (rule hsw_power_ready) (simp_all add: POWER_DOMAIN_SUPPORT_STATUS_def)
  obtain d1 where d1: "power_start hsw_hpm \<lparr>pd_domain = 7, pd_before = 7, pd_after = 7\<rparr> 0 0 hsw_power = Some (0, d1, hsw_power)"
      "\<forall>m k. stack_inv m \<and> stack_acc m 0 (power_regs ! 0) \<and> k < 2 ^ 32 \<and>
        (ucast (stack_regs (\<lambda>k. k) m 0 (power_regs ! 0)) :: u32) = ucast (stack_regs (\<lambda>k. k) (pw_machine hsw_power) 0 (power_regs ! 0)) + of_nat k \<longrightarrow>
      (\<exists>d2. power_stop hsw_hpm d1 0 0 (hsw_power\<lparr>pw_machine := m\<rparr>) = Some (0, d2, hsw_power\<lparr>pw_machine := m\<rparr>) \<and>
        power_printEnergy (power_info hsw_power) d2 = Some (real k * dm_energyUnit (pi_domains (power_info hsw_power) ! 0)))"
    using power_energy_measured [OF rk.msr_kernel_axioms refl r i a refl, where d = "\<lparr>pd_domain = 7, pd_before = 7, pd_after = 7\<rparr>" and n = 2
        and eax = "0x306C3" and err = "\<lambda>s. 0" and pciInit = "\<lambda>cpu s. Some (0, s)"] by auto
  have same: "hsw_power\<lparr>pw_machine := pw_machine hsw_power\<rparr> = hsw_power" by simp
  show ?thesis using d1(1) d1(2) [rule_format, of "pw_machine hsw_power" 0] a i unfolding same by auto
qed

text \<open>
  Property C32. Activating the power limit of a domain through the access daemon sets its enable bit, deactivating
  clears it, the state that is then queried is the new one, and no other bit of any accessible register of any
  processor changes.
\<close>

theorem power_limit_switched:
  assumes "msr_kernel K mem" "H = stack_ops K n eax err pciInit"
    and "domain_ready s i POWER_DOMAIN_SUPPORT_LIMIT" "stack_inv (pw_machine s)"
    and "arr_get (limit_regs s) (int i) = Some r" "stack_acc (pw_machine s) c r"
  shows "\<exists>s'. switch_limit H on (int c) (of_nat i) s = Some (0, s') \<and>
    power_limitState H (int c) (of_nat i) s' = Some (if on then 1 else 0, s') \<and>
    (\<forall>c' r' n. stack_acc (pw_machine s) c' r' \<longrightarrow> bit (stack_regs mem (pw_machine s') c' r') n =
       (if c' = c \<and> r' = r \<and> n = 15 then on else bit (stack_regs mem (pw_machine s) c' r') n))"
  unfolding assms(2) by (rule feature_stack.session_limit) (use assms in \<open>simp_all add: feature_stack_def\<close>)

theorem power_limit_switched_witness:
  "\<exists>s'. power_limitActivate hsw_hpm 0 0 hsw_power = Some (0, s') \<and> power_limitState hsw_hpm 0 0 s' = Some (1, s')"
proof -
  have a: "stack_acc (pw_machine hsw_power) 0 MSR_PKG_RAPL_POWER_LIMIT"
    unfolding hsw_power_machine by (rule stack_ready_acc) (simp add: msr_policy_defs)
  have i: "stack_inv (pw_machine hsw_power)" using stack_ready_inv by (simp add: hsw_power_machine)
  have r: "domain_ready hsw_power 0 POWER_DOMAIN_SUPPORT_LIMIT" by (rule hsw_power_ready) (simp_all add: POWER_DOMAIN_SUPPORT_LIMIT_def)
  have g: "arr_get (limit_regs hsw_power) (int 0) = Some MSR_PKG_RAPL_POWER_LIMIT"
    by (simp add: hsw_power_def power_boot_def init_limit_regs_def arr_get_def)
  show ?thesis
    using power_limit_switched [OF rk.msr_kernel_axioms refl r i g a, of 2 "0x306C3" "\<lambda>s. 0" "\<lambda>cpu s. Some (0, s)" True]
    by (auto simp: switch_limit_def)
qed

text \<open>
  Property C24. Initialization finds out exactly what the machine supports: on a processor with RAPL in a new process,
  where no info register has to be evaluated beyond its low half, it returns 1, and every domain has the energy unit of
  the processor and the flags of precisely those of its registers that can be read, with no flag at all when its energy
  counter cannot be read.
\<close>

theorem power_init_domains:
  assumes "pure_reads H cpu m e v" "initialized m" "rapl_model model" "e MSR_RAPL_POWER_UNIT = 0"
    and "drop_bit 8 (v MSR_RAPL_POWER_UNIT) AND 0x1F \<noteq> 31"
    and "model = ATOM_SILVERMONT_C \<or> e MSR_PKG_POWER_INFO \<noteq> 0 \<and> e MSR_DRAM_POWER_INFO \<noteq> 0"
  shows "\<exists>s'. power_init H initialized model turbo cores fresh cpu (power_boot m) = Some (1, s') \<and> power_initialized s' \<and>
    (\<forall>i<NUM_POWER_DOMAINS. dm_energyUnit (pi_domains (power_info s') ! i) = energy_unit model (v MSR_RAPL_POWER_UNIT) i \<and>
       dm_supportFlags (pi_domains (power_info s') ! i) =
         domain_flags e ((power_boot m)\<lparr>info_regs := model_info_regs model\<rparr>) i)"
proof -
  obtain info where info: "pi_hasRAPL info"
    "power_init H initialized model turbo cores fresh cpu (power_boot m) = do {
       info' \<leftarrow> init_units model (v MSR_RAPL_POWER_UNIT) info;
       s \<leftarrow> probe_domains H cpu model [0..<NUM_POWER_DOMAINS] ((power_boot m)\<lparr>power_info := info', info_regs := model_info_regs model\<rparr>);
       Some (if pi_hasRAPL (power_info s) then 1 else 0, s\<lparr>power_initialized := True\<rparr>) }"
    by (rule power_init_prefix [OF assms(1) _ assms(3,4), where initialized = initialized]) (rule assms(2))
  obtain info' where info': "init_units model (v MSR_RAPL_POWER_UNIT) info = Some info'" "pi_hasRAPL info'" "length (pi_domains info') = 4"
      "\<forall>i<4. dm_supportFlags (pi_domains info' ! i) = 0 \<and> dm_energyUnit (pi_domains info' ! i) = energy_unit model (v MSR_RAPL_POWER_UNIT) i"
    using init_units_returns [OF assms(5), of model info] info(1) by auto
  let ?s = "(power_boot m)\<lparr>power_info := info', info_regs := model_info_regs model\<rparr>"
  have sh: "power_shape ?s" "pure_reads H cpu (pw_machine ?s) e v"
    using info'(3) assms(1)
    by (simp_all add: power_shape_def power_boot_def init_limit_regs_def init_info_regs_def init_policy_regs_def init_perf_regs_def)
  have inf: "\<forall>i\<in>set [0..<4]. model = ATOM_SILVERMONT_C \<or> info_regs ?s ! i = 0 \<or> e (info_regs ?s ! i) \<noteq> 0"
    using assms(6) by (auto simp: less_4_cases init_info_regs_def)
  have d4: "distinct [0..<4]" "set [0..<4] \<subseteq> {..<4 :: nat}" by auto
  obtain s' where s': "probe_domains H cpu model [0..<4] ?s = Some s'" "pi_hasRAPL (power_info s') = pi_hasRAPL (power_info ?s)"
      "\<forall>i\<in>set [0..<4]. dm_supportFlags (pi_domains (power_info s') ! i) = dm_supportFlags (pi_domains (power_info ?s) ! i) OR domain_flags e ?s i \<and>
       dm_energyUnit (pi_domains (power_info s') ! i) = dm_energyUnit (pi_domains (power_info ?s) ! i)"
    using probe_domains_all [OF sh(2,1) d4 inf] by blast
  have "domain_flags e ?s i = domain_flags e ((power_boot m)\<lparr>info_regs := model_info_regs model\<rparr>) i" for i by (simp add: domain_flags_def)
  then show ?thesis using info(2) info' s' by (auto simp: NUM_POWER_DOMAINS_def)
qed

text \<open>
  On every other processor with RAPL, initialization is undefined as soon as the energy counter and the info
  register of the package can be read: the upper half of the 64-bit register is taken with a function on 32-bit
  words, which shifts by 32 and by 48.
\<close>

theorem power_init_info_undefined:
  assumes "pure_reads H cpu m e v" "initialized m" "rapl_model model" "e MSR_RAPL_POWER_UNIT = 0"
    and "model \<noteq> ATOM_SILVERMONT_C" "e MSR_PKG_ENERGY_STATUS = 0" "e MSR_PKG_POWER_INFO = 0"
  shows "power_init H initialized model turbo cores fresh cpu (power_boot m) = None"
proof -
  obtain info where info: "pi_hasRAPL info"
    "power_init H initialized model turbo cores fresh cpu (power_boot m) = do {
       info' \<leftarrow> init_units model (v MSR_RAPL_POWER_UNIT) info;
       s \<leftarrow> probe_domains H cpu model [0..<NUM_POWER_DOMAINS] ((power_boot m)\<lparr>power_info := info', info_regs := model_info_regs model\<rparr>);
       Some (if pi_hasRAPL (power_info s) then 1 else 0, s\<lparr>power_initialized := True\<rparr>) }"
    by (rule power_init_prefix [OF assms(1) _ assms(3,4), where initialized = initialized]) (rule assms(2))
  have "probe_domain H cpu model 0 ((power_boot m)\<lparr>power_info := info', info_regs := init_info_regs\<rparr>) = None" for info'
    using assms(1,5-7)
    by (auto simp: probe_domain_def probe_reg_def arr_get_def power_regs_def pure_reads_def power_boot_def init_limit_regs_def init_info_regs_def
        read_info_def extract_small extract_beyond update_domain_def Let_def split: bind_splits if_splits)
  moreover have "[0..<NUM_POWER_DOMAINS] = 0 # [1..<4]" by (simp add: NUM_POWER_DOMAINS_def upt_rec)
  ultimately show ?thesis using info(2) assms(5) by (auto split: bind_splits)
qed

text \<open>
  After the module was shut down it never measures again in this process: initialization does nothing, since
  the flag that tells that it was done is not cleared, and every measurement is refused.
\<close>

theorem power_never_again:
  assumes "power_initialized s"
  shows "power_init H initialized model turbo cores fresh cpu (power_finalize s) = Some (0, power_finalize s) \<and>
    power_start H d c t (power_finalize s) = Some (- EIO, d, power_finalize s) \<and>
    power_stop H d c t (power_finalize s) = Some (- EIO, d, power_finalize s) \<and>
    power_read H c r x (power_finalize s) = Some (- EIO, x, power_finalize s)"
  using assms
  by (simp add: power_init_def power_finalize_def power_start_def power_stop_def power_read_def clear_info_def)

text \<open>A machine on which the registers of the list can be read as 0.\<close>

definition list_ops :: "u32 list \<Rightarrow> unit hpm_ops" where
  "list_ops rs = \<lparr>hp_read = (\<lambda>cpu dev r m. Some (if r \<in> set rs then 0 else - EIO, 0, m)), hp_write = (\<lambda>cpu dev r v m. Some (0, m)),
     hp_check = (\<lambda>dev cpu m. Some (0, m)), hp_errno = (\<lambda>m. 0), hp_init = (\<lambda>m. (0, m)), hp_addThread = (\<lambda>cpu m. Some (0, m)), hp_finalize = Some\<rparr>"

lemma list_ops_pure: "pure_reads (list_ops rs) cpu m (\<lambda>r. if r \<in> set rs then 0 else - EIO) (\<lambda>r. 0)"
  by (simp add: pure_reads_def list_ops_def)

theorem power_init_domains_witness:
  "\<exists>s'. power_init (list_ops [MSR_RAPL_POWER_UNIT, MSR_PKG_ENERGY_STATUS, MSR_PKG_RAPL_POWER_LIMIT]) (\<lambda>m. True) SANDYBRIDGE True 12 0 0 (power_boot ()) =
    Some (1, s') \<and> dm_supportFlags (pi_domains (power_info s') ! 0) = 3 \<and> dm_supportFlags (pi_domains (power_info s') ! 1) = 0 \<and>
    dm_energyUnit (pi_domains (power_info s') ! 2) = 1"
proof -
  let ?rs = "[MSR_RAPL_POWER_UNIT, MSR_PKG_ENERGY_STATUS, MSR_PKG_RAPL_POWER_LIMIT]" and ?e = "\<lambda>r. if r \<in> set [MSR_RAPL_POWER_UNIT, MSR_PKG_ENERGY_STATUS, MSR_PKG_RAPL_POWER_LIMIT] then 0 else - EIO"
  have h: "rapl_model SANDYBRIDGE" "?e MSR_RAPL_POWER_UNIT = 0" "drop_bit 8 (0 :: u64) AND 0x1F \<noteq> 31"
      "SANDYBRIDGE = ATOM_SILVERMONT_C \<or> ?e MSR_PKG_POWER_INFO \<noteq> 0 \<and> ?e MSR_DRAM_POWER_INFO \<noteq> 0"
    by (simp_all add: rapl_model_def)
  obtain s' where s': "power_init (list_ops ?rs) (\<lambda>m. True) SANDYBRIDGE True 12 0 0 (power_boot ()) = Some (1, s')"
    "\<forall>i<NUM_POWER_DOMAINS. dm_energyUnit (pi_domains (power_info s') ! i) = energy_unit SANDYBRIDGE 0 i \<and>
       dm_supportFlags (pi_domains (power_info s') ! i) = domain_flags ?e ((power_boot ())\<lparr>info_regs := model_info_regs SANDYBRIDGE\<rparr>) i"
    using power_init_domains [OF list_ops_pure _ h, where initialized = "\<lambda>m. True"] by blast
  have "domain_flags ?e ((power_boot ())\<lparr>info_regs := model_info_regs SANDYBRIDGE\<rparr>) 0 = 3"
      "domain_flags ?e ((power_boot ())\<lparr>info_regs := model_info_regs SANDYBRIDGE\<rparr>) 1 = 0" "energy_unit SANDYBRIDGE 0 2 = 1"
    by (simp_all add: domain_flags_def Let_def power_regs_def power_boot_def init_limit_regs_def init_info_regs_def init_policy_regs_def
        init_perf_regs_def POWER_DOMAIN_SUPPORT_STATUS_def POWER_DOMAIN_SUPPORT_LIMIT_def energy_unit_def)
  then show ?thesis using s' by (intro exI [of _ s']) (simp add: NUM_POWER_DOMAINS_def)
qed

theorem power_init_info_undefined_witness:
  "power_init (list_ops [MSR_RAPL_POWER_UNIT, MSR_PKG_ENERGY_STATUS, MSR_PKG_POWER_INFO]) (\<lambda>m. True) HASWELL True 4 0 0 (power_boot ()) = None"
  by (rule power_init_info_undefined [OF list_ops_pure, where initialized = "\<lambda>m. True"]) (simp_all add: rapl_model_def)

theorem power_never_again_witness:
  "power_init hsw_hpm (\<lambda>m. True) HASWELL True 4 0 0 (power_finalize hsw_power) = Some (0, power_finalize hsw_power) \<and>
    (\<forall>d. power_start hsw_hpm d 0 0 (power_finalize hsw_power) = Some (- EIO, d, power_finalize hsw_power))"
proof -
  have "power_initialized hsw_power" by (simp add: hsw_power_def)
  from power_never_again [OF this] show ?thesis by blast
qed

text \<open>
  The temperature that is read after initialization is the activation temperature of the processor minus its
  offset minus the digital readout, with the three fields as they are in the registers of the machine behind
  the access daemon.
\<close>

theorem thermal_temperature:
  assumes "msr_kernel K mem" "H = stack_ops K n eax err pciInit"
    and "hp_addThread H (int c) (snd (hp_init H m)) = Some (x, m0)"
    and "stack_inv m0" "stack_acc m0 c IA32_THERM_STATUS" "stack_acc m0 c MSR_TEMPERATURE_TARGET"
  shows "\<exists>info. thermal_init H True (int c) (info0, m) = Some (info, m0) \<and>
    (\<forall>m'. stack_inv m' \<and> stack_acc m' c IA32_THERM_STATUS \<longrightarrow> thermal_read H (int c) info m' =
      Some (0, reg_field (stack_regs mem m0 c MSR_TEMPERATURE_TARGET) 16 8 - reg_field (stack_regs mem m0 c MSR_TEMPERATURE_TARGET) 24 6 -
        reg_field (stack_regs mem m' c IA32_THERM_STATUS) 16 7, m'))"
  using assms(1,3-6) unfolding assms(2) by (intro feature_stack.session_temperature) (simp_all add: feature_stack_def)

theorem thermal_temperature_witness:
  "\<exists>info. thermal_init hsw_hpm True 0 (\<lparr>th_highT = False, th_resolution = 0, th_activationT = 0, th_offset = 0\<rparr>, stack_start) =
      Some (info, stack_ready) \<and> thermal_read hsw_hpm 0 info stack_ready = Some (0, 0, stack_ready)"
proof -
  have a: "stack_acc stack_ready 0 IA32_THERM_STATUS" "stack_acc stack_ready 0 MSR_TEMPERATURE_TARGET"
    by (rule stack_ready_acc; simp add: msr_policy_defs)+
  have add: "hp_addThread hsw_hpm (int 0) (snd (hp_init hsw_hpm stack_start)) = Some (0, stack_ready)"
    using stack_ready_reached by (simp add: stack_ops_def)
  have z: "reg_field (stack_regs (\<lambda>k. k) stack_ready 0 r) lo n = 0" for r lo n
    by (simp add: stack_regs_def stack_ready_def reg_field_def)
  obtain info where info: "thermal_init hsw_hpm True (int 0) (\<lparr>th_highT = False, th_resolution = 0, th_activationT = 0, th_offset = 0\<rparr>, stack_start) =
        Some (info, stack_ready)"
      "\<forall>m'. stack_inv m' \<and> stack_acc m' 0 IA32_THERM_STATUS \<longrightarrow> thermal_read hsw_hpm (int 0) info m' =
        Some (0, 0 - 0 - reg_field (stack_regs (\<lambda>k. k) m' 0 IA32_THERM_STATUS) 16 7, m')"
    using thermal_temperature [OF rk.msr_kernel_axioms refl add stack_ready_inv a] unfolding z by blast
  from info(2) [rule_format, of stack_ready] show ?thesis using info(1) a stack_ready_inv z by auto
qed

end
