(* ===== verification/Spec2Isabelle.thy ===== *)
theory Spec2Isabelle
  imports BitUtil AccessDaemon_Properties Topology CpuString_Properties Timer Perfmon_Options Access_Properties Perfmon_Reach
    Perfmon_Select Affinity_Locks Numa_Example CpuFeatures Marker_Properties Rapl_Properties
begin

text \<open>
  LIKWID measures hardware performance counters and pins threads on x86 processors. This development
  models the C library and the access daemon under \<open>src/src\<close>.

  \<^bold>\<open>The program.\<close> A tool or an instrumented application calls the performance monitoring module
  (\<open>perfmon.c\<close>): it adds groups of events, sets one of them up, starts, reads and stops it and asks for
  the results. The module calls the functions of an architecture (\<open>includes/perfmon_k10.h\<close> and its
  siblings) through pointers; these read and write registers through the access layer (\<open>access.c\<close>), which
  goes directly to the device files (\<open>access_x86*.c\<close>) or asks a privileged daemon
  (\<open>access_client.c\<close>, \<open>access-daemon/accessDaemon.c\<close>). The daemon decides with allow-lists per processor
  which registers a client may touch. Beside this, the topology module keeps a tree of sockets, cores
  and hardware threads (\<open>tree.c\<close>, \<open>topology.c\<close>), processor strings like \<open>S0:0-3\<close> select processors
  (\<open>cpustring.c\<close>) from the affinity domains (\<open>affinity.c\<close>), and a timer counts cycles (\<open>timer.c\<close>). An instrumented application names regions with the marker
  interface (\<open>libperfctr.c\<close>), which keeps their results in one hash table per processor (\<open>hashTable.c\<close> on \<open>ghash.c\<close>) and
  writes them to a file at the end. Energy and temperature are read from further registers (\<open>power.c\<close>, \<open>thermal.c\<close>).

  \<^bold>\<open>The theories.\<close>
  \<^item> \<open>Likwid_Prelude\<close>: C arrays with bounds (\<open>arr_get\<close>, \<open>arr_set\<close>), shifts, error numbers, machine words.
  \<^item> \<open>BitUtil\<close>: \<open>bitUtil.c\<close> and \<open>bitUtil.h\<close>, bit fields and their widths.
  \<^item> \<open>Registers\<close>, \<open>AccessPolicy\<close>: register numbers and the allow-lists \<open>allowed_*\<close> of the daemon with the choice
    among them in \<open>main\<close>.
  \<^item> \<open>AccessDaemon\<close>: the daemon, one function per request type (\<open>msr_read\<close> \<dots> \<open>pci_check\<close>), its start and its
    request loop; \<open>AccessDaemon_Safety\<close> and \<open>AccessDaemon_Properties\<close>: the invariant of its tables, that every
    register access is permitted and goes to a file opened for it, which requests are undefined.
  \<^item> \<open>Access\<close>: access layer, client and direct access, and their connection to daemons;
    \<open>Access_Properties\<close>: the locale \<open>register_access\<close>, the contract of a register file, shown for the whole stack
    over the documented behaviour of the MSR files (\<open>msr_kernel\<close>).
  \<^item> \<open>NodeTree\<close>, \<open>Topology\<close>: the topology tree and its construction.
  \<^item> \<open>BString\<close>, \<open>CpuString\<close>, \<open>CpuString_Properties\<close>: the functions of the string library that are used, and the
    selection of processors: which it finds, in which order, and when it is undefined.
  \<^item> \<open>Affinity\<close>: \<open>affinity.c\<close>, the domains that processor strings name, filled from the topology tree. \<open>Affinity_Fill\<close>
    follows the loops over the tree, \<open>Affinity_Properties\<close> shows what the domains contain and that no string leaves the
    CPU set, \<open>Affinity_Topology\<close> that the tree of a regular machine fits and which machines overrun the lists,
    \<open>Affinity_Example\<close> is a concrete machine, and \<open>Affinity_Locks\<close> goes from the topology to the owners of shared counters.
  \<^item> \<open>Numa\<close>: \<open>numa.c\<close> and \<open>numa_proc.c\<close>, the NUMA nodes and the masks of memory policies. \<open>Numa_Files\<close> has the
    formats of the kernel and shows that reading a map of processors inverts writing it, \<open>Numa_Properties\<close> what is
    read of a machine, \<open>Numa_Example\<close> concrete machines.
  \<^item> \<open>Timer\<close>: the cycle counter timer.
  \<^item> \<open>Perfmon_Types\<close>, \<open>Perfmon_Options\<close>: the records of the performance monitoring module, events and options.
  \<^item> \<open>Perfmon_Arch\<close>, \<open>Perfmon_K10\<close>: what the architecture modules share, and the module for AMD K10; the locale
    \<open>msr_machine\<close> proves its operations over any \<open>register_access\<close>.
  \<^item> \<open>Perfmon\<close>: the core, one definition per function of \<open>perfmon.c\<close>.
  \<^item> \<open>Perfmon_Lifecycle\<close>: the automaton of the life cycle of groups, the contract \<open>counter_module\<close> between core
    and architecture, and the refinement over it. \<open>Perfmon_Session\<close> shows that the K10 module satisfies it,
    \<open>Perfmon_Measure\<close> what a measurement returns, \<open>Perfmon_Stack\<close> puts the access layer under it,
    \<open>Perfmon_Properties\<close> and \<open>Perfmon_Groups\<close> hold further properties of the core, and \<open>Perfmon_Reach\<close> is the transition
    system of whole sessions in which the hardware changes registers between the calls.
  \<^item> \<open>Perfmon_Select\<close>: the choice of tables and functions for a processor, its name, and whether these agree with
    the daemon and the power module.
  \<^item> \<open>Perfmon_Loops\<close>, \<open>Perfmon_Amd\<close>: the locks of shared counters, and the modules for AMD Interlagos and Kabini, whose
    counters of the northbridge and the L2 cache belong to a socket or tile. \<open>Perfmon_Amd_Registers\<close> follows one event
    over any register file (locale \<open>amd_counters\<close>), \<open>Perfmon_Amd_Properties\<close> shows who programs the shared counters
    and what is measured.
  \<^item> \<open>CpuFeatures\<close>: \<open>cpuFeatures.c\<close>, features and prefetchers, another client of the access layer.
  \<^item> \<open>GHash\<close>: the hash table of \<open>ghash.c\<close>, one definition per function. \<open>GHash_Probe\<close> shows that triangular probing
    visits every slot of a table, \<open>GHash_Table\<close> holds the invariant and that searching ends, \<open>GHash_Refine\<close> that
    insertion and resizing implement the update of a map, \<open>GHash_Strings\<close> the tables with strings as keys.
  \<^item> \<open>HashTable\<close>: \<open>hashTable.c\<close>, the results of the regions per processor; \<open>HashTable_Entries\<close> and
    \<open>HashTable_Properties\<close>: finding the results of a region, and collecting all of them at the end.
  \<^item> \<open>Marker\<close>: \<open>libperfctr.c\<close>. \<open>Marker_Regions\<close> follows the loops that save and add up the counters,
    \<open>Marker_Session\<close> puts them on the measuring stack, \<open>Marker_Properties\<close> shows what a region measures and what any
    sequence of calls keeps.
  \<^item> \<open>Rapl\<close>, \<open>Rapl_Properties\<close>: \<open>power.c\<close>, \<open>power.h\<close>, \<open>thermal.c\<close> and \<open>thermal.h\<close>, over the same register access.

  \<^bold>\<open>State and errors.\<close> Global variables of a file are the fields of a record that every function takes and
  returns. A function has type \<open>\<dots> option\<close> where the C function can have undefined behaviour: an access
  outside an array, a NULL or uninitialised pointer, a shift by too much, a double free; such a run is
  \<^term>\<open>None\<close>. Errors that the code returns are negative integers as in the code, and ending the process, as the macro
  \<open>ERROR\<close> does, is a value of the result type (\<open>proc\<close>). Loops are structural recursion over the list they run over, so that no fuel is needed;
  other total recursions (\<open>default_thresholds\<close>, \<open>dec_string\<close>, \<open>iter_seek\<close>, \<open>iter_while\<close>) have a termination proof. The probing loops of
  the hash table may run forever on a full table and are partial functions (\<open>lookup_loop\<close>, \<open>free_slot_loop\<close>,
  \<open>closest_shift_loop\<close>); they are shown to end on every table that the invariant admits. The walks over the
  topology tree are partial functions too, and end on every well-formed tree.

  \<^bold>\<open>Parameters.\<close> The kernel (\<open>kernel_ops\<close>), the clocks (\<open>clock_ops\<close>), the environment variables, the event tables that
  the build generates, the format \<open>%e\<close> of \<open>printf\<close>, the content of fresh memory, and, for the core, the power and thermal
  initialization are parameters. Hypotheses about them are the formats of the files about NUMA nodes (\<open>node_files\<close>) and the laws
  of the locale \<open>msr_kernel\<close>; they hold for the concrete kernel \<open>reg_kernel\<close>.

  \<^bold>\<open>Not modelled.\<close> Allocation failures, printing and the rounding of \<open>double\<close> are left out everywhere. Sockets,
  forking and signals are the link between client and daemon, which is modelled by the exchange of one
  record. Of the architectures those of AMD are modelled (K10, Interlagos, Kabini); the others
  have the same interface and other registers.
  Threads of an instrumented program interleave at whole calls of the marker interface; its locks are left out.
  Of the affinity module the calls that pin threads are left out.
  The configuration and the readers of the topology, the bindings and the benchmarks are not
  modelled; hwloc, Lua and the string library are third-party code.
\<close>

end
